(* ===== verification/Prelude.thy ===== *)
theory Prelude
  imports Main "HOL-Library.AList" "HOL-Library.Sublist"
begin

text \<open>
  What every component shares: the exceptions of the program, the state-and-exception
  actions in which stateful Python code is written, the Python string operations the
  sources use, and the frame predicate \<open>keeps\<close> with its composition rules.

  Conventions. Python text is a \<^typ>\<open>string\<close> over ASCII. A dictionary is an
  association list in insertion order; \<open>d[k] = v\<close> is \<^const>\<open>AList.update\<close> (which
  replaces in place or appends, as Python does), \<open>del d[k]\<close> is \<^const>\<open>AList.delete\<close>
  and \<open>d.get(k)\<close> is \<^const>\<open>map_of\<close>. Clock values are integers.
\<close>

named_theorems act_simps "unfolding rules of the state-and-exception actions"
named_theorems keeps_intros "introduction rules for the frame predicate keeps"

section \<open>Exceptions\<close>

text \<open>
  One constructor per exception class the modelled code raises or catches, with the
  message as the code builds it. \<open>ConfirmationError\<close> and \<open>RepairRefused\<close> carry the
  machine-readable reason or code beside it. \<open>Unfinished\<close> is no exception of the program: it is the result
  of a loop whose fuel was used up, and no handler of the program catches it.
\<close>

datatype exn =
    ValueError string
  | KeyError string
  | TypeError string
  | AttributeError string
  | OSError string
  | RuntimeError string
  | AssertionError string
  | StopIteration
  | ConfirmationError string string
  | ConfirmationRequired string
  | GateError string
  | NotFromWebApp string
  | PhysicalDeviceSafetyError string
  | DataProtectionError string
  | LayoutError string
  | TransitionError string
  | SchemaVersionError string
  | ManifestAuthenticityError string
  | RollbackAuthorityViolation string
  | NamingError string
  | RepairRefused string string
  | BackupError string
  | IndexError string
  | Unfinished

section \<open>State-and-exception actions\<close>

text \<open>
  A method that mutates its object (or the machine) and may raise is a function from the
  state to a result and the new state. The state reached before a raise is kept, as in
  Python.
\<close>

type_synonym ('s, 'a) act = "'s \<Rightarrow> (exn + 'a) \<times> 's"

definition act_ret :: "'a \<Rightarrow> ('s, 'a) act" where
  "act_ret x = (\<lambda>s. (Inr x, s))"

definition act_raise :: "exn \<Rightarrow> ('s, 'a) act" where
  "act_raise e = (\<lambda>s. (Inl e, s))"

definition act_bind :: "('s, 'a) act \<Rightarrow> ('a \<Rightarrow> ('s, 'b) act) \<Rightarrow> ('s, 'b) act" where
  "act_bind m f = (\<lambda>s. case m s of (Inl e, s') \<Rightarrow> (Inl e, s') | (Inr x, s') \<Rightarrow> f x s')"

definition act_seq :: "('s, 'a) act \<Rightarrow> ('s, 'b) act \<Rightarrow> ('s, 'b) act" where
  "act_seq m k = act_bind m (\<lambda>_. k)"

definition act_catch :: "('s, 'a) act \<Rightarrow> (exn \<Rightarrow> ('s, 'a) act) \<Rightarrow> ('s, 'a) act" where
  "act_catch m h = (\<lambda>s. case m s of (Inl e, s') \<Rightarrow> h e s' | (Inr x, s') \<Rightarrow> (Inr x, s'))"

definition act_get :: "('s \<Rightarrow> 'a) \<Rightarrow> ('s, 'a) act" where
  "act_get f = (\<lambda>s. (Inr (f s), s))"

definition act_upd :: "('s \<Rightarrow> 's) \<Rightarrow> ('s, unit) act" where
  "act_upd f = (\<lambda>s. (Inr (), f s))"

definition act_lift :: "exn + 'a \<Rightarrow> ('s, 'a) act" where
  "act_lift r = (\<lambda>s. (r, s))"

definition act_when :: "bool \<Rightarrow> ('s, unit) act \<Rightarrow> ('s, unit) act" where
  "act_when b m = (if b then m else act_ret ())"

text \<open>\<open>for x in xs: f(x)\<close>, and the list comprehension \<open>[f(x) for x in xs]\<close>.\<close>

fun act_for :: "'a list \<Rightarrow> ('a \<Rightarrow> ('s, unit) act) \<Rightarrow> ('s, unit) act" where
  "act_for [] f = act_ret ()"
| "act_for (x # xs) f = act_seq (f x) (act_for xs f)"

fun act_map :: "('a \<Rightarrow> ('s, 'b) act) \<Rightarrow> 'a list \<Rightarrow> ('s, 'b list) act" where
  "act_map f [] = act_ret []"
| "act_map f (x # xs) = act_bind (f x) (\<lambda>y. act_bind (act_map f xs) (\<lambda>ys. act_ret (y # ys)))"

lemma act_ret_apply [simp, act_simps]: "act_ret x s = (Inr x, s)"
  by (simp add: act_ret_def)

lemma act_raise_apply [simp, act_simps]: "act_raise e s = (Inl e, s)"
  by (simp add: act_raise_def)

lemma act_get_apply [simp, act_simps]: "act_get f s = (Inr (f s), s)"
  by (simp add: act_get_def)

lemma act_upd_apply [simp, act_simps]: "act_upd f s = (Inr (), f s)"
  by (simp add: act_upd_def)

lemma act_lift_apply [simp, act_simps]: "act_lift r s = (r, s)"
  by (simp add: act_lift_def)

lemma act_when_True [simp, act_simps]: "act_when True m = m"
  by (simp add: act_when_def)

lemma act_when_False [simp, act_simps]: "act_when False m = act_ret ()"
  by (simp add: act_when_def)

lemma act_bind_Inl [simp, act_simps]: "m s = (Inl e, s') \<Longrightarrow> act_bind m f s = (Inl e, s')"
  by (simp add: act_bind_def)

lemma act_bind_Inr [simp, act_simps]: "m s = (Inr x, s') \<Longrightarrow> act_bind m f s = f x s'"
  by (simp add: act_bind_def)

lemma act_bind_eq_Inr:
  "act_bind m f s = (Inr y, t) \<longleftrightarrow> (\<exists>x u. m s = (Inr x, u) \<and> f x u = (Inr y, t))"
  by (auto simp: act_bind_def split: prod.splits sum.splits)

lemma act_bind_eq_Inl:
  "act_bind m f s = (Inl e, t) \<longleftrightarrow>
     m s = (Inl e, t) \<or> (\<exists>x u. m s = (Inr x, u) \<and> f x u = (Inl e, t))"
  by (auto simp: act_bind_def split: prod.splits sum.splits)

lemma act_seq_eq_Inr:
  "act_seq m k s = (Inr y, t) \<longleftrightarrow> (\<exists>x u. m s = (Inr x, u) \<and> k u = (Inr y, t))"
  by (simp add: act_seq_def act_bind_eq_Inr)

lemma act_seq_Inr [simp, act_simps]: "m s = (Inr x, s') \<Longrightarrow> act_seq m k s = k s'"
  by (simp add: act_seq_def)

lemma act_seq_Inl [simp, act_simps]: "m s = (Inl e, s') \<Longrightarrow> act_seq m k s = (Inl e, s')"
  by (simp add: act_seq_def)

lemma act_catch_eq:
  "act_catch m h s = (case m s of (Inl e, s') \<Rightarrow> h e s' | (Inr x, s') \<Rightarrow> (Inr x, s'))"
  by (simp add: act_catch_def)

section \<open>What an action keeps\<close>

text \<open>
  \<open>keeps P m\<close>: whatever \<open>m\<close> does, raising included, it leads from states with \<open>P\<close> to
  states with \<open>P\<close>. The rules follow the structure of an action, so that a frame or an
  invariant of a long method is proved step by step.
\<close>

definition keeps :: "('s \<Rightarrow> bool) \<Rightarrow> ('s, 'a) act \<Rightarrow> bool" where
  "keeps P m \<longleftrightarrow> (\<forall>s. P s \<longrightarrow> P (snd (m s)))"

lemma keepsI: "(\<And>s. P s \<Longrightarrow> P (snd (m s))) \<Longrightarrow> keeps P m"
  by (simp add: keeps_def)

lemma keepsD: "keeps P m \<Longrightarrow> P s \<Longrightarrow> P (snd (m s))"
  by (simp add: keeps_def)

lemma keeps_ret [keeps_intros]: "keeps P (act_ret x)"
  by (simp add: keeps_def)

lemma keeps_raise [keeps_intros]: "keeps P (act_raise e)"
  by (simp add: keeps_def)

lemma keeps_get [keeps_intros]: "keeps P (act_get f)"
  by (simp add: keeps_def)

lemma keeps_lift [keeps_intros]: "keeps P (act_lift r)"
  by (simp add: keeps_def)

lemma keeps_upd: "(\<And>s. P s \<Longrightarrow> P (f s)) \<Longrightarrow> keeps P (act_upd f)"
  by (simp add: keeps_def)

lemma keeps_bind [keeps_intros]: "keeps P m \<Longrightarrow> (\<And>x. keeps P (f x)) \<Longrightarrow> keeps P (act_bind m f)"
  unfolding keeps_def act_bind_def by (fastforce split: prod.splits sum.splits)

lemma keeps_seq [keeps_intros]: "keeps P m \<Longrightarrow> keeps P k \<Longrightarrow> keeps P (act_seq m k)"
  unfolding act_seq_def by (rule keeps_bind)

lemma keeps_catch [keeps_intros]: "keeps P m \<Longrightarrow> (\<And>e. keeps P (h e)) \<Longrightarrow> keeps P (act_catch m h)"
  unfolding keeps_def act_catch_def by (fastforce split: prod.splits sum.splits)

lemma keeps_get_fact:
  "(\<And>s. P s \<Longrightarrow> Q (f s)) \<Longrightarrow> (\<And>x. Q x \<Longrightarrow> keeps P (k x)) \<Longrightarrow> keeps P (act_bind (act_get f) k)"
  by (simp add: keeps_def act_bind_def)

lemma keeps_when [keeps_intros]: "(b \<Longrightarrow> keeps P m) \<Longrightarrow> keeps P (act_when b m)"
  by (cases b) (simp_all add: keeps_ret)

lemma keeps_if [keeps_intros]:
  "(b \<Longrightarrow> keeps P m) \<Longrightarrow> (\<not> b \<Longrightarrow> keeps P k) \<Longrightarrow> keeps P (if b then m else k)"
  by simp

lemma keeps_for [keeps_intros]: "(\<And>x. x \<in> set xs \<Longrightarrow> keeps P (f x)) \<Longrightarrow> keeps P (act_for xs f)"
  by (induction xs) (auto intro: keeps_intros)

lemma keeps_map [keeps_intros]: "(\<And>x. x \<in> set xs \<Longrightarrow> keeps P (f x)) \<Longrightarrow> keeps P (act_map f xs)"
  by (induction xs) (auto intro!: keeps_ret keeps_bind)

lemma keeps_option [keeps_intros]:
  "(v = None \<Longrightarrow> keeps P n) \<Longrightarrow> (\<And>x. v = Some x \<Longrightarrow> keeps P (j x)) \<Longrightarrow> keeps P (case v of None \<Rightarrow> n | Some x \<Rightarrow> j x)"
  by (cases v) simp_all

lemma keeps_sum [keeps_intros]:
  "(\<And>x. keeps P (n x)) \<Longrightarrow> (\<And>x. keeps P (j x)) \<Longrightarrow> keeps P (case v of Inl x \<Rightarrow> n x | Inr x \<Rightarrow> j x)"
  by (cases v) simp_all

lemma keeps_let [keeps_intros]: "keeps P (f v) \<Longrightarrow> keeps P (let x = v in f x)"
  by simp

lemma keeps_prod [keeps_intros]:
  "(\<And>x y. v = (x, y) \<Longrightarrow> keeps P (f x y)) \<Longrightarrow> keeps P (case v of (x, y) \<Rightarrow> f x y)"
  by (cases v) simp

section \<open>Association lists\<close>

lemma set_update_subset: "set (AList.update k v xs) \<subseteq> insert (k, v) (set xs)"
  by (induction xs) auto

lemma update_new: "k \<notin> fst ` set xs \<Longrightarrow> AList.update k v xs = xs @ [(k, v)]"
  by (induction xs) auto

lemma length_update_le: "length (AList.update k v xs) \<le> Suc (length xs)"
  by (induction xs) auto

lemma length_update_mem: "k \<in> fst ` set xs \<Longrightarrow> length (AList.update k v xs) = length xs"
  by (induction xs) auto

section \<open>Reading and updating in sequence\<close>

lemma act_bind_get [simp, act_simps]: "act_bind (act_get f) k s = k (f s) s"
  by (simp add: act_bind_def)

lemma act_seq_upd [simp, act_simps]: "act_seq (act_upd f) k s = k (f s)"
  by (simp add: act_seq_def act_bind_def)

lemma act_bind_raise [simp, act_simps]: "act_bind (act_raise e) f = act_raise e"
  by (simp add: act_bind_def act_raise_def)

lemma act_bind_ret [simp, act_simps]: "act_bind (act_ret x) f = f x"
  by (simp add: act_bind_def act_ret_def)

lemma act_bind_lift [simp, act_simps]:
  "act_bind (act_lift (Inr x)) f = f x" "act_bind (act_lift (Inl e)) f = act_raise e"
  by (simp_all add: act_bind_def act_lift_def act_raise_def)

lemma act_seq_ret [simp, act_simps]: "act_seq (act_ret x) k = k"
  by (simp add: act_seq_def)

lemma act_seq_raise [simp, act_simps]: "act_seq (act_raise e) k = act_raise e"
  by (simp add: act_seq_def)

lemma act_seq_fst_Inr: "fst (act_seq m k s) = Inr y \<longleftrightarrow> (\<exists>x u. m s = (Inr x, u) \<and> fst (k u) = Inr y)"
  by (auto simp: act_seq_def act_bind_def split: prod.splits sum.splits)

lemma act_bind_fst_Inr: "fst (act_bind m k s) = Inr y \<longleftrightarrow> (\<exists>x u. m s = (Inr x, u) \<and> fst (k x u) = Inr y)"
  by (auto simp: act_bind_def split: prod.splits sum.splits)

end
