(* ===== verification/PyJson.thy ===== *)
theory PyJson
  imports PyText Complex_Main
begin

text \<open>
  JSON values and Python's \<open>json.dumps\<close> and \<open>json.loads\<close>, as far as the program uses
  them: \<open>dumps\<close> with its default separators, with \<open>separators=(",", ":")\<close>, with
  \<open>indent=2\<close>, each with or without \<open>sort_keys\<close>; \<open>loads\<close> as a recursive-descent reader
  (\<^const>\<open>None\<close> is \<open>JSONDecodeError\<close>). The main fact is \<open>loads_dumps\<close>: reading back
  what was written gives the same value, with each object's fields sorted when
  \<open>sort_keys\<close> was given.

  A number with a fraction or an exponent keeps its literal text. Not modelled: the
  literals NaN and Infinity, and escapes of code points beyond one byte.
\<close>

datatype json =
    JNull
  | JBool bool
  | JInt int
  | JFloat string
  | JStr string
  | JList "json list"
  | JObj "(string \<times> json) list"

record style =
  item_sep :: string
  key_sep :: string
  indent :: "nat option"
  sort_keys :: bool

definition compact_sorted :: style where
  "compact_sorted = \<lparr>item_sep = '','', key_sep = '':'', indent = None, sort_keys = True\<rparr>"

definition default_style :: style where
  "default_style = \<lparr>item_sep = '', '', key_sep = '': '', indent = None, sort_keys = False\<rparr>"

definition default_sorted :: style where
  "default_sorted = \<lparr>item_sep = '', '', key_sep = '': '', indent = None, sort_keys = True\<rparr>"

definition indent2 :: style where
  "indent2 = \<lparr>item_sep = '','', key_sep = '': '', indent = Some 2, sort_keys = False\<rparr>"

section \<open>Writing\<close>

definition esc_char :: "char \<Rightarrow> string" where
  "esc_char c =
     (if c = CHR 0x22 then [CHR 0x5C, CHR 0x22]
      else if c = CHR 0x5C then [CHR 0x5C, CHR 0x5C]
      else if c = CHR 0x0A then [CHR 0x5C, CHR ''n'']
      else if c = CHR 0x0D then [CHR 0x5C, CHR ''r'']
      else if c = CHR 0x09 then [CHR 0x5C, CHR ''t'']
      else if c = CHR 0x0C then [CHR 0x5C, CHR ''f'']
      else if c = CHR 0x08 then [CHR 0x5C, CHR ''b'']
      else if 32 \<le> (of_char c :: nat) \<and> (of_char c :: nat) < 127 then [c]
      else [CHR 0x5C, CHR ''u'', CHR ''0'', CHR ''0'',
            hex_digit (of_char c div 16), hex_digit (of_char c mod 16)])"

definition dump_str :: "string \<Rightarrow> string" where
  "dump_str s = [CHR 0x22] @ concat (map esc_char s) @ [CHR 0x22]"

definition newline :: "style \<Rightarrow> nat \<Rightarrow> string" where
  "newline st l = (case indent st of None \<Rightarrow> [] | Some n \<Rightarrow> CHR 0x0A # replicate (n * l) (CHR '' ''))"

definition wrap :: "style \<Rightarrow> nat \<Rightarrow> char \<Rightarrow> char \<Rightarrow> string list \<Rightarrow> string" where
  "wrap st l a b xs =
     (if xs = [] then [a, b]
      else [a] @ newline st (Suc l) @ join (item_sep st @ newline st (Suc l)) xs @ newline st l @ [b])"

fun dump :: "style \<Rightarrow> nat \<Rightarrow> json \<Rightarrow> string"
  and dump_elems :: "style \<Rightarrow> nat \<Rightarrow> json list \<Rightarrow> string list"
  and dump_fields :: "style \<Rightarrow> nat \<Rightarrow> (string \<times> json) list \<Rightarrow> (string \<times> string) list" where
  "dump st l JNull = ''null''"
| "dump st l (JBool b) = (if b then ''true'' else ''false'')"
| "dump st l (JInt i) = str_of_int i"
| "dump st l (JFloat x) = x"
| "dump st l (JStr s) = dump_str s"
| "dump st l (JList xs) = wrap st l (CHR ''['') (CHR '']'') (dump_elems st (Suc l) xs)"
| "dump st l (JObj kvs) =
     (let fs = dump_fields st (Suc l) kvs
      in wrap st l (CHR ''{'') (CHR ''}'')
           (map (\<lambda>(k, v). dump_str k @ key_sep st @ v) (if sort_keys st then sort_items fs else fs)))"
| "dump_elems st l [] = []"
| "dump_elems st l (x # xs) = dump st l x # dump_elems st l xs"
| "dump_fields st l [] = []"
| "dump_fields st l ((k, v) # kvs) = (k, dump st l v) # dump_fields st l kvs"

definition json_dumps :: "style \<Rightarrow> json \<Rightarrow> string" where
  "json_dumps st j = dump st 0 j"

section \<open>Reading\<close>

definition json_ws :: "char \<Rightarrow> bool" where
  "json_ws c \<longleftrightarrow> c \<in> {CHR '' '', CHR 0x09, CHR 0x0A, CHR 0x0D}"

definition skip_ws :: "string \<Rightarrow> string" where
  "skip_ws s = dropWhile json_ws s"

definition hex_val :: "char \<Rightarrow> nat option" where
  "hex_val c =
     (let n = of_char c :: nat in
      if 48 \<le> n \<and> n \<le> 57 then Some (n - 48)
      else if 97 \<le> n \<and> n \<le> 102 then Some (n - 87)
      else if 65 \<le> n \<and> n \<le> 70 then Some (n - 55)
      else None)"

definition hex4 :: "char \<Rightarrow> char \<Rightarrow> char \<Rightarrow> char \<Rightarrow> char option" where
  "hex4 a b c d =
     (case (hex_val a, hex_val b, hex_val c, hex_val d) of
        (Some x, Some y, Some z, Some w) \<Rightarrow>
          (if x = 0 \<and> y = 0 then Some (char_of (16 * z + w)) else None)
      | _ \<Rightarrow> None)"

definition simple_escape :: "char \<Rightarrow> char option" where
  "simple_escape c =
     (if c = CHR 0x22 then Some (CHR 0x22)
      else if c = CHR 0x5C then Some (CHR 0x5C)
      else if c = CHR ''/'' then Some (CHR ''/'')
      else if c = CHR ''b'' then Some (CHR 0x08)
      else if c = CHR ''f'' then Some (CHR 0x0C)
      else if c = CHR ''n'' then Some (CHR 0x0A)
      else if c = CHR ''r'' then Some (CHR 0x0D)
      else if c = CHR ''t'' then Some (CHR 0x09)
      else None)"

text \<open>The rest of a string literal, after its opening quote.\<close>
fun read_str :: "string \<Rightarrow> string \<Rightarrow> (string \<times> string) option" where
  "read_str acc [] = None"
| "read_str acc (c # cs) =
     (if c = CHR 0x22 then Some (acc, cs)
      else if c = CHR 0x5C then
        (case cs of
           [] \<Rightarrow> None
         | e # r \<Rightarrow>
             (case simple_escape e of
                Some x \<Rightarrow> read_str (acc @ [x]) r
              | None \<Rightarrow>
                  (case r of
                     h1 # h2 # h3 # h4 # r' \<Rightarrow>
                       (if e = CHR ''u'' then
                          (case hex4 h1 h2 h3 h4 of
                             Some x \<Rightarrow> read_str (acc @ [x]) r'
                           | None \<Rightarrow> None)
                        else None)
                   | _ \<Rightarrow> None)))
      else if (of_char c :: nat) < 32 then None
      else read_str (acc @ [c]) cs)"

text \<open>The longest numeric literal at the front: sign, integer part, fraction, exponent.\<close>
definition int_part :: "string \<Rightarrow> string" where
  "int_part s = (case s of
      [] \<Rightarrow> []
    | c # _ \<Rightarrow> if c = CHR ''0'' then [c] else takeWhile is_digit s)"

definition frac_part :: "string \<Rightarrow> string" where
  "frac_part s = (case s of
      c # d # r \<Rightarrow> (if c = CHR ''.'' \<and> is_digit d then c # takeWhile is_digit (d # r) else [])
    | _ \<Rightarrow> [])"

definition exp_part :: "string \<Rightarrow> string" where
  "exp_part s = (case s of
      c # d # r \<Rightarrow>
        (if c = CHR ''e'' \<or> c = CHR ''E'' then
           (if is_digit d then c # takeWhile is_digit (d # r)
            else if (d = CHR ''+'' \<or> d = CHR ''-'') \<and> takeWhile is_digit r \<noteq> [] then c # d # takeWhile is_digit r
            else [])
         else [])
    | _ \<Rightarrow> [])"

definition read_num :: "string \<Rightarrow> (json \<times> string) option" where
  "read_num s =
     (let sign = (case s of c # _ \<Rightarrow> if c = CHR ''-'' then [c] else [] | [] \<Rightarrow> []);
          s1 = drop (length sign) s;
          ip = int_part s1;
          s2 = drop (length ip) s1;
          fp = frac_part s2;
          s3 = drop (length fp) s2;
          ep = exp_part s3;
          rest = drop (length ep) s3
      in if ip = [] then None
         else if fp = [] \<and> ep = [] then
           map_option (\<lambda>i. (JInt (if sign = [] then i else - i), rest)) (digits_value 0 False ip)
         else Some (JFloat (sign @ ip @ fp @ ep), rest))"

text \<open>Adding a field: a repeated key keeps the first position and the last value.\<close>
definition put_field :: "(string \<times> json) list \<Rightarrow> string \<Rightarrow> json \<Rightarrow> (string \<times> json) list" where
  "put_field kvs k v = AList.update k v kvs"

text \<open>
  The first argument is fuel, spent by every call. \<open>read_more\<close> is the reader after a list
  element, \<open>read_fields\<close> reads one field and what follows it.
\<close>
fun read_val :: "nat \<Rightarrow> string \<Rightarrow> (json \<times> string) option"
  and read_elems :: "nat \<Rightarrow> json list \<Rightarrow> string \<Rightarrow> (json \<times> string) option"
  and read_fields :: "nat \<Rightarrow> (string \<times> json) list \<Rightarrow> string \<Rightarrow> (json \<times> string) option" where
  "read_val 0 s = None"
| "read_val (Suc n) s =
     (case skip_ws s of
        [] \<Rightarrow> None
      | c # cs \<Rightarrow>
          if c = CHR 0x22 then map_option (\<lambda>(x, r). (JStr x, r)) (read_str [] cs)
          else if c = CHR ''['' then
            (case skip_ws cs of
               [] \<Rightarrow> None
             | d # ds \<Rightarrow> if d = CHR '']'' then Some (JList [], ds) else read_elems n [] cs)
          else if c = CHR ''{'' then
            (case skip_ws cs of
               [] \<Rightarrow> None
             | d # ds \<Rightarrow> if d = CHR ''}'' then Some (JObj [], ds) else read_fields n [] cs)
          else if starts_with (c # cs) ''null'' then Some (JNull, drop 4 (c # cs))
          else if starts_with (c # cs) ''true'' then Some (JBool True, drop 4 (c # cs))
          else if starts_with (c # cs) ''false'' then Some (JBool False, drop 5 (c # cs))
          else read_num (c # cs))"
| "read_elems 0 acc s = None"
| "read_elems (Suc n) acc s =
     (case read_val n s of
        None \<Rightarrow> None
      | Some (v, r) \<Rightarrow>
          (case skip_ws r of
             [] \<Rightarrow> None
           | d # ds \<Rightarrow>
               if d = CHR '','' then read_elems n (acc @ [v]) ds
               else if d = CHR '']'' then Some (JList (acc @ [v]), ds)
               else None))"
| "read_fields 0 acc s = None"
| "read_fields (Suc n) acc s =
     (case skip_ws s of
        [] \<Rightarrow> None
      | q # qs \<Rightarrow>
          if q \<noteq> CHR 0x22 then None else
          (case read_str [] qs of
             None \<Rightarrow> None
           | Some (k, r) \<Rightarrow>
               (case skip_ws r of
                  [] \<Rightarrow> None
                | d # ds \<Rightarrow>
                    if d \<noteq> CHR '':'' then None else
                    (case read_val n ds of
                       None \<Rightarrow> None
                     | Some (v, r2) \<Rightarrow>
                         (case skip_ws r2 of
                            [] \<Rightarrow> None
                          | e # es \<Rightarrow>
                              if e = CHR '','' then read_fields n (put_field acc k v) es
                              else if e = CHR ''}'' then Some (JObj (put_field acc k v), es)
                              else None)))))"

definition json_loads :: "string \<Rightarrow> json option" where
  "json_loads s =
     (case read_val (2 * length s + 2) s of
        None \<Rightarrow> None
      | Some (v, r) \<Rightarrow> if skip_ws r = [] then Some v else None)"

section \<open>What reading back gives\<close>

text \<open>Each object's fields, sorted when the style sorts keys.\<close>
fun normal :: "style \<Rightarrow> json \<Rightarrow> json"
  and normal_list :: "style \<Rightarrow> json list \<Rightarrow> json list"
  and normal_fields :: "style \<Rightarrow> (string \<times> json) list \<Rightarrow> (string \<times> json) list" where
  "normal st JNull = JNull"
| "normal st (JBool b) = JBool b"
| "normal st (JInt i) = JInt i"
| "normal st (JFloat x) = JFloat x"
| "normal st (JStr s) = JStr s"
| "normal st (JList xs) = JList (normal_list st xs)"
| "normal st (JObj kvs) = JObj (let fs = normal_fields st kvs in if sort_keys st then sort_items fs else fs)"
| "normal_list st [] = []"
| "normal_list st (x # xs) = normal st x # normal_list st xs"
| "normal_fields st [] = []"
| "normal_fields st ((k, v) # kvs) = (k, normal st v) # normal_fields st kvs"

text \<open>Values written and read back unchanged: no key twice in an object, integral numbers.\<close>
fun json_ok :: "json \<Rightarrow> bool"
  and json_ok_list :: "json list \<Rightarrow> bool"
  and json_ok_fields :: "(string \<times> json) list \<Rightarrow> bool" where
  "json_ok JNull = True"
| "json_ok (JBool b) = True"
| "json_ok (JInt i) = True"
| "json_ok (JFloat x) = False"
| "json_ok (JStr s) = True"
| "json_ok (JList xs) = json_ok_list xs"
| "json_ok (JObj kvs) = (distinct (map fst kvs) \<and> json_ok_fields kvs)"
| "json_ok_list [] = True"
| "json_ok_list (x # xs) = (json_ok x \<and> json_ok_list xs)"
| "json_ok_fields [] = True"
| "json_ok_fields ((k, v) # kvs) = (json_ok v \<and> json_ok_fields kvs)"

section \<open>Reading a string literal back\<close>

lemma hex_val_digit: "d < 16 \<Longrightarrow> hex_val (hex_digit d) = Some d"
  by (auto simp: hex_val_def hex_digit_def Let_def)

lemma hex4_code: "hex4 (CHR ''0'') (CHR ''0'') (hex_digit (of_char c div 16)) (hex_digit (of_char c mod 16)) = Some c"
proof -
  have z: "hex_val (CHR ''0'') = Some 0" by code_simp
  have "of_char c div 16 < (16::nat)" by (rule less_mult_imp_div_less) simp
  then show ?thesis
    by (simp add: hex4_def z hex_val_digit)
qed

lemma simple_escape_u: "simple_escape (CHR ''u'') = None"
  by code_simp

lemma read_str_esc: "read_str acc (esc_char c @ r) = read_str (acc @ [c]) r"
  by (auto simp: esc_char_def simple_escape_def hex4_code)

lemma read_str_dump: "read_str acc (concat (map esc_char s) @ CHR 0x22 # r) = Some (acc @ s, r)"
  by (induction s arbitrary: acc) (simp_all add: read_str_esc del: read_str.simps(2), simp)

lemma digit_char_is_digit [simp]: "d < 10 \<Longrightarrow> is_digit (digit_char d)"
  by (simp add: is_digit_def digit_char_def)

lemma digit_val_char [simp]: "d < 10 \<Longrightarrow> digit_val (digit_char d) = d"
  by (simp add: digit_val_def digit_char_def)

lemma str_of_nat_digits: "\<forall>c \<in> set (str_of_nat n). is_digit c"
proof (induction n rule: str_of_nat.induct)
  case (1 n)
  then show ?case by (subst str_of_nat.simps) auto
qed

lemma str_of_nat_nonempty [simp]: "str_of_nat n \<noteq> []"
  by (subst str_of_nat.simps) simp

lemma digits_value_append:
  "xs \<noteq> [] \<Longrightarrow> \<forall>c \<in> set xs. is_digit c \<Longrightarrow>
   \<exists>v. digits_value acc p xs = Some v \<and> digits_value acc p (xs @ [d]) = digits_value v True [d]"
  by (induction xs arbitrary: acc p rule: list_nonempty_induct) auto

lemma digits_value_str_of_nat: "digits_value 0 False (str_of_nat n) = Some (int n)"
proof (induction n rule: str_of_nat.induct)
  case (1 n)
  show ?case
  proof (cases "n < 10")
    case True
    then show ?thesis by (subst str_of_nat.simps) simp
  next
    case False
    with 1 have ih: "digits_value 0 False (str_of_nat (n div 10)) = Some (int (n div 10))" by simp
    have "digits_value 0 False (str_of_nat (n div 10) @ [digit_char (n mod 10)]) =
        digits_value (int (n div 10)) True [digit_char (n mod 10)]"
      using digits_value_append [OF str_of_nat_nonempty str_of_nat_digits [of "n div 10"], of 0 False "digit_char (n mod 10)"] ih by auto
    also have "\<dots> = Some (int n)"
      by simp presburger
    finally show ?thesis using False by (subst str_of_nat.simps) simp
  qed
qed

lemma str_of_nat_zero_head: "hd (str_of_nat n) = CHR ''0'' \<Longrightarrow> n = 0"
proof (induction n rule: str_of_nat.induct)
  case (1 n)
  show ?case
  proof (cases "n < 10")
    case True
    then have "digit_char n = CHR ''0''" using 1 by (subst (asm) (2) str_of_nat.simps) simp
    then have "digit_val (digit_char n) = digit_val (CHR ''0'')" by simp
    moreover have "digit_val (CHR ''0'') = 0" by code_simp
    ultimately show ?thesis using True by simp
  next
    case False
    then have "hd (str_of_nat n) = hd (str_of_nat (n div 10))"
      by (subst str_of_nat.simps) simp
    with 1 False have "n div 10 = 0" by simp
    with False show ?thesis by simp
  qed
qed

definition ends_number :: "string \<Rightarrow> bool" where
  "ends_number r \<longleftrightarrow> (case r of [] \<Rightarrow> True | c # _ \<Rightarrow> \<not> is_digit c \<and> c \<notin> {CHR ''.'', CHR ''e'', CHR ''E''})"

lemma takeWhile_digits:
  "\<forall>c \<in> set xs. is_digit c \<Longrightarrow> ends_number r \<Longrightarrow> takeWhile is_digit (xs @ r) = xs"
  by (induction xs) (auto simp: ends_number_def split: list.splits)

lemma int_part_nat: "ends_number r \<Longrightarrow> int_part (str_of_nat n @ r) = str_of_nat n"
proof (cases "n = 0")
  case True
  then show ?thesis by (simp add: int_part_def str_of_nat.simps digit_char_def) code_simp
next
  case False
  assume r: "ends_number r"
  obtain c cs where e: "str_of_nat n = c # cs" by (cases "str_of_nat n") simp_all
  then have "c \<noteq> CHR ''0''" using str_of_nat_zero_head [of n] False by auto
  then show ?thesis
    using takeWhile_digits [OF str_of_nat_digits [of n] r] e by (simp add: int_part_def)
qed

lemma frac_part_end: "ends_number r \<Longrightarrow> frac_part r = []"
  by (auto simp: frac_part_def ends_number_def split: list.splits)

lemma exp_part_end: "ends_number r \<Longrightarrow> exp_part r = []"
  by (auto simp: exp_part_def ends_number_def split: list.splits)

lemma str_of_nat_head: "\<exists>c cs. str_of_nat n = c # cs \<and> is_digit c"
  using str_of_nat_digits [of n] by (cases "str_of_nat n") auto

lemma minus_not_digit: "\<not> is_digit (CHR ''-'')"
  by code_simp

lemma read_num_int: "ends_number r \<Longrightarrow> read_num (str_of_int i @ r) = Some (JInt i, r)"
proof -
  assume r: "ends_number r"
  show ?thesis
  proof (cases "i < 0")
    case True
    then show ?thesis
      using r by (simp add: read_num_def str_of_int_def int_part_nat frac_part_end exp_part_end
          digits_value_str_of_nat)
  next
    case False
    obtain c cs where e: "str_of_nat (nat i) = c # cs" and "is_digit c" using str_of_nat_head by blast
    then have nm: "c \<noteq> CHR ''-''" using minus_not_digit by auto
    have "read_num (str_of_nat (nat i) @ r) = read_num (c # cs @ r)" using e by simp
    also have "\<dots> = Some (JInt i, r)"
      using r False nm e int_part_nat [OF r, of "nat i"] digits_value_str_of_nat [of "nat i"]
      by (simp add: read_num_def frac_part_end exp_part_end)
    finally show ?thesis using False by (simp add: str_of_int_def)
  qed
qed

section \<open>Reading back what was written\<close>

definition style_ok :: "style \<Rightarrow> bool" where
  "style_ok st \<longleftrightarrow> (\<exists>w. item_sep st = CHR '','' # w \<and> list_all json_ws w) \<and>
     (\<exists>w. key_sep st = CHR '':'' # w \<and> list_all json_ws w)"

lemma style_ok_used [simp]:
  "style_ok compact_sorted" "style_ok default_style" "style_ok default_sorted" "style_ok indent2"
  by (simp_all add: style_ok_def compact_sorted_def default_style_def default_sorted_def indent2_def json_ws_def)

lemma dump_elems_map [simp]: "dump_elems st l xs = map (dump st l) xs"
  by (induction xs) simp_all

lemma dump_fields_map [simp]: "dump_fields st l kvs = map (\<lambda>(k, v). (k, dump st l v)) kvs"
  by (induction kvs) auto

lemma normal_list_map [simp]: "normal_list st xs = map (normal st) xs"
  by (induction xs) simp_all

lemma normal_fields_map [simp]: "normal_fields st kvs = map (\<lambda>(k, v). (k, normal st v)) kvs"
  by (induction kvs) auto

lemma json_ok_list_all [simp]: "json_ok_list xs \<longleftrightarrow> (\<forall>x \<in> set xs. json_ok x)"
  by (induction xs) simp_all

lemma json_ok_fields_all [simp]: "json_ok_fields kvs \<longleftrightarrow> (\<forall>(k, v) \<in> set kvs. json_ok v)"
  by (induction kvs) auto

lemma insort_str_map:
  "insort_str (k, f v) (map (\<lambda>(k, v). (k, f v)) kvs) = map (\<lambda>(k, v). (k, f v)) (insort_str (k, v) kvs)"
  by (induction kvs) auto

lemma sort_items_map: "sort_items (map (\<lambda>(k, v). (k, f v)) kvs) = map (\<lambda>(k, v). (k, f v)) (sort_items kvs)"
  unfolding sort_items_def by (induction kvs) (auto simp: insort_str_map)

lemma set_insort_str [simp]: "set (insort_str x ys) = insert x (set ys)"
  by (induction ys) auto

lemma set_sort_items [simp]: "set (sort_items xs) = set xs"
  unfolding sort_items_def by (induction xs) auto

lemma distinct_insort_str:
  "distinct (map fst (insort_str x ys)) \<longleftrightarrow> fst x \<notin> fst ` set ys \<and> distinct (map fst ys)"
  by (induction ys) auto

lemma fst_set_sort_items: "fst ` set (foldr insort_str xs []) = fst ` set xs"
  using set_sort_items [of xs] by (simp add: sort_items_def)

lemma distinct_sort_items [simp]: "distinct (map fst (sort_items xs)) = distinct (map fst xs)"
  unfolding sort_items_def
  by (induction xs) (simp_all add: distinct_insort_str fst_set_sort_items)

lemma sum_list_insort_str:
  "sum_list (map f (insort_str x ys)) = (f x :: nat) + sum_list (map f ys)"
  by (induction ys) auto

lemma sum_list_sort_items: "sum_list (map f (sort_items xs)) = (sum_list (map f xs) :: nat)"
  unfolding sort_items_def by (induction xs) (auto simp: sum_list_insort_str)

lemma length_insort_str [simp]: "length (insort_str x ys) = Suc (length ys)"
  by (induction ys) auto

lemma length_sort_items [simp]: "length (sort_items xs) = length xs"
  unfolding sort_items_def by (induction xs) auto

lemma sort_items_eq_Nil [simp]: "sort_items xs = [] \<longleftrightarrow> xs = []"
  by (simp flip: length_0_conv)

definition ordered :: "style \<Rightarrow> (string \<times> 'v) list \<Rightarrow> (string \<times> 'v) list" where
  "ordered st kvs = (if sort_keys st then sort_items kvs else kvs)"

lemma dump_obj:
  "dump st l (JObj kvs) =
     wrap st l (CHR ''{'') (CHR ''}'') (map (\<lambda>(k, v). dump_str k @ key_sep st @ dump st (Suc l) v) (ordered st kvs))"
  by (simp add: ordered_def sort_items_map Let_def) (simp add: case_prod_unfold comp_def)

lemma normal_obj: "normal st (JObj kvs) = JObj (map (\<lambda>(k, v). (k, normal st v)) (ordered st kvs))"
  by (simp add: ordered_def sort_items_map Let_def)

lemma set_ordered [simp]: "set (ordered st kvs) = set kvs"
  by (simp add: ordered_def)

lemma distinct_ordered [simp]: "distinct (map fst (ordered st kvs)) = distinct (map fst kvs)"
  by (simp add: ordered_def)

lemma skip_ws_app: "list_all json_ws w \<Longrightarrow> skip_ws (w @ s) = skip_ws s"
  unfolding skip_ws_def by (induction w) auto

lemma newline_ws: "list_all json_ws (newline st l)"
  by (auto simp: newline_def json_ws_def list_all_iff split: option.splits)

lemma skip_ws_nl [simp]: "skip_ws (newline st l @ s) = skip_ws s"
  by (rule skip_ws_app [OF newline_ws])

lemma skip_ws_skip_ws [simp]: "skip_ws (skip_ws s) = skip_ws s"
  unfolding skip_ws_def by (rule dropWhile_idem)

lemma skip_ws_Cons: "\<not> json_ws c \<Longrightarrow> skip_ws (c # cs) = c # cs"
  by (simp add: skip_ws_def)

lemma brackets_not_ws [simp]:
  "\<not> json_ws (CHR '']'')" "\<not> json_ws (CHR ''}'')" "\<not> json_ws (CHR ''['')" "\<not> json_ws (CHR ''{'')"
  "\<not> json_ws (CHR '','')" "\<not> json_ws (CHR '':'')" "\<not> json_ws (CHR 0x22)"
  by (simp_all add: json_ws_def)

lemma read_val_skip: "read_val n (skip_ws s) = read_val n s"
  by (cases n) simp_all

lemma read_val_nl [simp]: "read_val n (newline st l @ s) = read_val n s"
  using read_val_skip [of n "newline st l @ s"] read_val_skip [of n s] by simp

lemma read_val_ws: "list_all json_ws w \<Longrightarrow> read_val n (w @ s) = read_val n s"
  using read_val_skip [of n "w @ s"] read_val_skip [of n s] by (simp add: skip_ws_app)

lemma read_fields_skip: "read_fields n acc (skip_ws s) = read_fields n acc s"
  by (cases n) simp_all

lemma read_fields_ws: "list_all json_ws w \<Longrightarrow> read_fields n acc (w @ s) = read_fields n acc s"
  using read_fields_skip [of n acc "w @ s"] read_fields_skip [of n acc s] by (simp add: skip_ws_app)

text \<open>A written value starts with a character that is neither blank nor a closing bracket.\<close>

definition value_head :: "string \<Rightarrow> bool" where
  "value_head s \<longleftrightarrow> (\<exists>c cs. s = c # cs \<and> \<not> json_ws c \<and> c \<noteq> CHR '']'' \<and> c \<noteq> CHR ''}'')"

lemma digit_head_ok: "is_digit c \<Longrightarrow> \<not> json_ws c \<and> c \<noteq> CHR '']'' \<and> c \<noteq> CHR ''}''"
  by (auto simp: is_digit_def json_ws_def)

lemma str_of_int_head: "value_head (str_of_int i)"
  using str_of_nat_head [of "nat i"] digit_head_ok
  by (auto simp: value_head_def str_of_int_def json_ws_def)

lemma value_head_Cons [simp]:
  "value_head (c # cs) \<longleftrightarrow> \<not> json_ws c \<and> c \<noteq> CHR '']'' \<and> c \<noteq> CHR ''}''"
  by (simp add: value_head_def)

lemma wrap_head: "value_head (wrap st l a b xs) \<longleftrightarrow> \<not> json_ws a \<and> a \<noteq> CHR '']'' \<and> a \<noteq> CHR ''}''"
  by (simp add: wrap_def)

lemma dump_head: "json_ok j \<Longrightarrow> value_head (dump st l j)"
  by (cases j) (simp_all add: str_of_int_head wrap_head dump_obj dump_str_def json_ws_def del: dump.simps(7))

lemma wrap_cons:
  "xs \<noteq> [] \<Longrightarrow> wrap st l a b xs @ r =
     a # newline st (Suc l) @ join (item_sep st @ newline st (Suc l)) xs @ newline st l @ b # r"
  by (simp add: wrap_def)

text \<open>Fuel one value needs.\<close>

fun need :: "json \<Rightarrow> nat"
  and need_list :: "json list \<Rightarrow> nat"
  and need_fields :: "(string \<times> json) list \<Rightarrow> nat" where
  "need JNull = 1"
| "need (JBool b) = 1"
| "need (JInt i) = 1"
| "need (JFloat x) = 1"
| "need (JStr s) = 1"
| "need (JList xs) = Suc (need_list xs)"
| "need (JObj kvs) = Suc (need_fields kvs)"
| "need_list [] = 0"
| "need_list (x # xs) = Suc (need x + need_list xs)"
| "need_fields [] = 0"
| "need_fields ((k, v) # kvs) = Suc (need v + need_fields kvs)"

lemma need_list_sum: "need_list xs = sum_list (map (\<lambda>x. Suc (need x)) xs)"
  by (induction xs) simp_all

lemma need_fields_sum: "need_fields kvs = sum_list (map (\<lambda>kv. Suc (need (snd kv))) kvs)"
  by (induction kvs) auto

lemma need_fields_ordered: "need_fields (ordered st kvs) = need_fields kvs"
  by (simp add: need_fields_sum ordered_def sum_list_sort_items)

definition reads :: "style \<Rightarrow> json \<Rightarrow> bool" where
  "reads st x \<longleftrightarrow> (\<forall>n l r. need x \<le> n \<longrightarrow> ends_number r \<longrightarrow>
     read_val n (dump st l x @ r) = Some (normal st x, r))"

lemma readsD: "reads st x \<Longrightarrow> need x \<le> n \<Longrightarrow> ends_number r \<Longrightarrow> read_val n (dump st l x @ r) = Some (normal st x, r)"
  by (simp add: reads_def)

lemma ends_number_Cons: "ends_number (c # r) \<longleftrightarrow> \<not> is_digit c \<and> c \<notin> {CHR ''.'', CHR ''e'', CHR ''E''}"
  by (simp add: ends_number_def)

lemma ends_number_sep [simp]:
  "ends_number (CHR '','' # r)" "ends_number (CHR '']'' # r)" "ends_number (CHR ''}'' # r)" "ends_number []"
  by (simp_all add: ends_number_def is_digit_def)

lemma ends_number_nl: "ends_number r \<Longrightarrow> ends_number (newline st l @ r)"
  by (cases "indent st") (simp_all add: newline_def ends_number_def is_digit_def)

lemma join_Cons: "ys \<noteq> [] \<Longrightarrow> join sep (y # ys) = y @ sep @ join sep ys"
  by (cases ys) simp_all

lemma sep_form:
  "style_ok st \<Longrightarrow> \<exists>w. item_sep st @ newline st l = CHR '','' # w \<and> list_all json_ws w"
  using newline_ws [of st l] by (force simp: style_ok_def)

lemma read_elems_dump:
  assumes ok: "style_ok st" and vs: "vs \<noteq> []" "\<forall>v \<in> set vs. reads st v" and n: "need_list vs \<le> n"
  shows "read_elems n acc (join (item_sep st @ newline st l') (map (dump st l) vs) @ newline st l'' @ CHR '']'' # r) =
     Some (JList (acc @ map (normal st) vs), r)"
  using vs n
proof (induction vs arbitrary: acc n rule: list_nonempty_induct)
  case (single v)
  then obtain m where m: "n = Suc m" "need v \<le> m" by (cases n) auto
  have "read_val m (dump st l v @ newline st l'' @ CHR '']'' # r) = Some (normal st v, newline st l'' @ CHR '']'' # r)"
    by (rule readsD) (use single m in \<open>simp_all add: ends_number_nl\<close>)
  with m show ?case by (simp add: skip_ws_Cons)
next
  case (cons v vs)
  then obtain m where m: "n = Suc m" "need v \<le> m" "need_list vs \<le> m" by (cases n) auto
  obtain w where w: "item_sep st @ newline st l' = CHR '','' # w" "list_all json_ws w"
    using sep_form [OF ok] by blast
  let ?rest = "join (item_sep st @ newline st l') (map (dump st l) vs) @ newline st l'' @ CHR '']'' # r"
  have ih: "read_elems m (acc @ [normal st v]) ?rest = Some (JList ((acc @ [normal st v]) @ map (normal st) vs), r)"
    by (rule cons.IH) (use cons.prems m in simp_all)
  obtain k where k: "m = Suc k" using m cons.hyps by (cases m; cases vs) auto
  have v: "read_val m (dump st l v @ CHR '','' # w @ ?rest) = Some (normal st v, CHR '','' # w @ ?rest)"
    by (rule readsD) (use cons m in simp_all)
  have j: "join (item_sep st @ newline st l') (map (dump st l) (v # vs)) @ newline st l'' @ CHR '']'' # r =
      dump st l v @ CHR '','' # w @ ?rest"
    using cons.hyps w by (simp add: join_Cons)
  have "read_elems m (acc @ [normal st v]) (w @ ?rest) = read_elems m (acc @ [normal st v]) ?rest"
    unfolding k by (simp add: read_val_ws [OF w(2)])
  with ih v show ?case unfolding j m(1) by (simp add: skip_ws_Cons)
qed

lemma put_field_new: "k \<notin> fst ` set kvs \<Longrightarrow> put_field kvs k v = kvs @ [(k, v)]"
  unfolding put_field_def by (induction kvs) auto

definition field_text :: "style \<Rightarrow> nat \<Rightarrow> string \<times> json \<Rightarrow> string" where
  "field_text st l = (\<lambda>(k, v). dump_str k @ key_sep st @ dump st l v)"

lemma dump_obj_text:
  "dump st l (JObj kvs) = wrap st l (CHR ''{'') (CHR ''}'') (map (field_text st (Suc l)) (ordered st kvs))"
  unfolding field_text_def by (rule dump_obj)

lemma read_fields_dump:
  assumes ok: "style_ok st" and vs: "kvs \<noteq> []" "\<forall>(k, v) \<in> set kvs. reads st v" "distinct (map fst (acc @ kvs))"
    and n: "need_fields kvs \<le> n"
  shows "read_fields n acc (join (item_sep st @ newline st l') (map (field_text st l) kvs) @ newline st l'' @ CHR ''}'' # r) =
     Some (JObj (acc @ map (\<lambda>(k, v). (k, normal st v)) kvs), r)"
  using vs n
proof (induction kvs arbitrary: acc n rule: list_nonempty_induct)
  case (single kv)
  obtain k v where kv: "kv = (k, v)" by fastforce
  with single obtain m where m: "n = Suc m" "need v \<le> m" by (cases n) auto
  obtain w where w: "key_sep st = CHR '':'' # w" "list_all json_ws w" using ok by (auto simp: style_ok_def)
  have "read_val m (dump st l v @ newline st l'' @ CHR ''}'' # r) = Some (normal st v, newline st l'' @ CHR ''}'' # r)"
    by (rule readsD) (use single kv m in \<open>simp_all add: ends_number_nl\<close>)
  with m kv w single.prems show ?case
    by (simp add: field_text_def dump_str_def read_str_dump skip_ws_Cons read_val_ws put_field_new)
next
  case (cons kv kvs)
  obtain k v where kv: "kv = (k, v)" by fastforce
  with cons.prems obtain m where m: "n = Suc m" "need v \<le> m" "need_fields kvs \<le> m" by (cases n) auto
  obtain w where w: "key_sep st = CHR '':'' # w" "list_all json_ws w" using ok by (auto simp: style_ok_def)
  obtain u where u: "item_sep st @ newline st l' = CHR '','' # u" "list_all json_ws u"
    using sep_form [OF ok] by blast
  let ?rest = "join (item_sep st @ newline st l') (map (field_text st l) kvs) @ newline st l'' @ CHR ''}'' # r"
  let ?acc = "acc @ [(k, normal st v)]"
  have ih: "read_fields m ?acc ?rest = Some (JObj (?acc @ map (\<lambda>(k, v). (k, normal st v)) kvs), r)"
    by (rule cons.IH) (use cons.prems m kv in auto)
  have v: "read_val m (dump st l v @ CHR '','' # u @ ?rest) = Some (normal st v, CHR '','' # u @ ?rest)"
    by (rule readsD) (use cons.prems kv m in simp_all)
  have j: "join (item_sep st @ newline st l') (map (field_text st l) (kv # kvs)) @ newline st l'' @ CHR ''}'' # r =
      CHR 0x22 # concat (map esc_char k) @ CHR 0x22 # CHR '':'' # w @ dump st l v @ CHR '','' # u @ ?rest"
    using cons.hyps u w by (simp add: join_Cons kv field_text_def dump_str_def)
  have "put_field acc k (normal st v) = ?acc"
    by (rule put_field_new) (use cons.prems kv in auto)
  with ih v show ?case unfolding j m(1)
    by (simp add: skip_ws_Cons read_str_dump read_val_ws [OF w(2)] read_fields_ws [OF u(2)] kv)
qed

lemma str_of_int_Cons: "\<exists>c cs. str_of_int i = c # cs \<and> (is_digit c \<or> c = CHR ''-'')"
  using str_of_nat_head [of "nat i"] by (auto simp: str_of_int_def)

lemma read_val_int: "ends_number r \<Longrightarrow> read_val (Suc n) (str_of_int i @ r) = Some (JInt i, r)"
proof -
  assume r: "ends_number r"
  obtain c cs where e: "str_of_int i = c # cs" and c: "is_digit c \<or> c = CHR ''-''"
    using str_of_int_Cons by blast
  have ne: "c \<noteq> CHR 0x22" "c \<noteq> CHR ''[''" "c \<noteq> CHR ''{''" "c \<noteq> CHR ''n''" "c \<noteq> CHR ''t''" "c \<noteq> CHR ''f''" "\<not> json_ws c"
    using c by (auto simp: is_digit_def json_ws_def)
  have "read_num (c # cs @ r) = Some (JInt i, r)" using read_num_int [OF r, of i] e by simp
  with ne show ?thesis by (simp add: e skip_ws_Cons starts_with_def)
qed

lemma join_value_head:
  "xs \<noteq> [] \<Longrightarrow> value_head (hd xs) \<Longrightarrow> \<exists>c cs. join sep xs = c # cs \<and> value_head (c # cs)"
  by (cases xs rule: remdups_adj.cases) (auto simp: value_head_def)

lemma reads_dump: "style_ok st \<Longrightarrow> json_ok j \<Longrightarrow> reads st j"
proof (induction j)
  case JNull
  then show ?case unfolding reads_def
    by (auto simp: Suc_le_eq gr0_conv_Suc skip_ws_Cons json_ws_def starts_with_def)
next
  case (JBool b)
  then show ?case unfolding reads_def
    by (auto simp: Suc_le_eq gr0_conv_Suc skip_ws_Cons json_ws_def starts_with_def)
next
  case (JInt i)
  then show ?case unfolding reads_def
    by (auto simp: Suc_le_eq gr0_conv_Suc read_val_int simp del: read_val.simps)
next
  case (JFloat x)
  then show ?case by simp
next
  case (JStr s)
  then show ?case unfolding reads_def
    by (auto simp: Suc_le_eq gr0_conv_Suc skip_ws_Cons dump_str_def read_str_dump)
next
  case (JList xs)
  show ?case unfolding reads_def
  proof (intro allI impI)
    fix n l r assume n: "need (JList xs) \<le> n" and r: "ends_number r"
    then obtain m where m: "n = Suc m" "need_list xs \<le> m" by (cases n) auto
    show "read_val n (dump st l (JList xs) @ r) = Some (normal st (JList xs), r)"
    proof (cases "xs = []")
      case True
      then show ?thesis using m by (simp add: wrap_def skip_ws_Cons)
    next
      case False
      let ?js = "join (item_sep st @ newline st (Suc l)) (map (dump st (Suc l)) xs)"
      have el: "read_elems m [] (?js @ newline st l @ CHR '']'' # r) = Some (JList ([] @ map (normal st) xs), r)"
        by (rule read_elems_dump) (use JList False m in auto)
      have "value_head (hd (map (dump st (Suc l)) xs))"
        using JList.prems False by (cases xs) (auto intro: dump_head)
      then obtain c cs where c: "?js = c # cs" "value_head (c # cs)"
        using join_value_head [of "map (dump st (Suc l)) xs"] False by blast
      have "read_elems m [] (newline st (Suc l) @ ?js @ newline st l @ CHR '']'' # r) =
          read_elems m [] (?js @ newline st l @ CHR '']'' # r)"
        by (cases m) simp_all
      with el False m c show ?thesis
        by (simp add: wrap_cons skip_ws_Cons)
    qed
  qed
next
  case (JObj kvs)
  show ?case unfolding reads_def
  proof (intro allI impI)
    fix n l r assume n: "need (JObj kvs) \<le> n" and r: "ends_number r"
    let ?kvs = "ordered st kvs"
    from n obtain m where m: "n = Suc m" "need_fields ?kvs \<le> m" by (cases n) (auto simp: need_fields_ordered)
    show "read_val n (dump st l (JObj kvs) @ r) = Some (normal st (JObj kvs), r)"
    proof (cases "kvs = []")
      case True
      then show ?thesis using m by (simp add: wrap_def skip_ws_Cons sort_items_def)
    next
      case False
      then have ne: "?kvs \<noteq> []" by (simp add: ordered_def)
      let ?js = "join (item_sep st @ newline st (Suc l)) (map (field_text st (Suc l)) ?kvs)"
      have fl: "read_fields m [] (?js @ newline st l @ CHR ''}'' # r) =
          Some (JObj ([] @ map (\<lambda>(k, v). (k, normal st v)) ?kvs), r)"
        by (rule read_fields_dump) (use JObj ne m in \<open>auto simp: snds.simps\<close>)
      have "value_head (hd (map (field_text st (Suc l)) ?kvs))"
        using ne by (cases ?kvs) (auto simp: field_text_def dump_str_def)
      then obtain c cs where c: "?js = c # cs" "value_head (c # cs)"
        using join_value_head [of "map (field_text st (Suc l)) ?kvs"] ne by blast
      have "read_fields m [] (newline st (Suc l) @ ?js @ newline st l @ CHR ''}'' # r) =
          read_fields m [] (?js @ newline st l @ CHR ''}'' # r)"
        by (cases m) simp_all
      with fl ne m c show ?thesis
        unfolding dump_obj_text normal_obj
        by (simp add: wrap_cons skip_ws_Cons)
    qed
  qed
qed

lemma length_join:
  assumes "sep \<noteq> []"
  shows "xs \<noteq> [] \<Longrightarrow> sum_list (map length xs) + length xs \<le> Suc (length (join sep xs))"
proof (induction xs rule: list_nonempty_induct)
  case (cons x xs)
  obtain n where "length sep = Suc n" using assms by (cases sep) simp_all
  then show ?case using cons by (simp add: join_Cons)
qed simp

lemma length_wrap:
  assumes "style_ok st"
  shows "sum_list (map length xs) + length xs < length (wrap st l a b xs)"
proof (cases "xs = []")
  case True
  then show ?thesis by (simp add: wrap_def)
next
  case False
  have "item_sep st @ newline st (Suc l) \<noteq> []" using assms by (auto simp: style_ok_def)
  from length_join [OF this False] False show ?thesis by (simp add: wrap_def)
qed

lemma sum_need_le:
  "(\<And>x. x \<in> set xs \<Longrightarrow> need (g x) \<le> 2 * length (f x)) \<Longrightarrow>
   sum_list (map (\<lambda>x. Suc (need (g x))) xs) \<le> 2 * (sum_list (map length (map f xs)) + length xs)"
  by (induction xs) force+

lemma need_le_length: "style_ok st \<Longrightarrow> json_ok j \<Longrightarrow> need j \<le> 2 * length (dump st l j)"
proof (induction j arbitrary: l)
  case (JInt i)
  show ?case using str_of_int_Cons [of i] by auto
next
  case (JStr s)
  show ?case by (simp add: dump_str_def)
next
  case (JList xs)
  have "need_list xs \<le> 2 * (sum_list (map length (map (dump st (Suc l)) xs)) + length xs)"
    unfolding need_list_sum by (rule sum_need_le) (use JList in auto)
  then show ?case
    using length_wrap [OF JList.prems(1), of "map (dump st (Suc l)) xs" l "CHR ''[''" "CHR '']''"] by simp
next
  case (JObj kvs)
  have "need_fields (ordered st kvs) \<le>
      2 * (sum_list (map length (map (field_text st (Suc l)) (ordered st kvs))) + length (ordered st kvs))"
    unfolding need_fields_sum
  proof (rule sum_need_le)
    fix kv assume "kv \<in> set (ordered st kvs)"
    then have kv: "kv \<in> set kvs" by simp
    moreover have "snd kv \<in> Basic_BNFs.snds kv" by (cases kv) (simp add: snds.simps)
    moreover have "json_ok (snd kv)" using kv JObj.prems(2) by (cases kv) auto
    ultimately have "need (snd kv) \<le> 2 * length (dump st (Suc l) (snd kv))"
      using JObj.IH JObj.prems(1) by blast
    then show "need (snd kv) \<le> 2 * length (field_text st (Suc l) kv)"
      by (simp add: field_text_def case_prod_unfold)
  qed
  then show ?case
    using length_wrap [OF JObj.prems(1), of "map (field_text st (Suc l)) (ordered st kvs)" l "CHR ''{''" "CHR ''}''"]
    unfolding dump_obj_text by (simp add: need_fields_ordered)
qed simp_all

theorem loads_dumps:
  assumes "style_ok st" and "json_ok j"
  shows "json_loads (json_dumps st j) = Some (normal st j)"
proof -
  have "need j \<le> 2 * length (dump st 0 j) + 2" using need_le_length [OF assms, of 0] by simp
  from readsD [OF reads_dump [OF assms] this, of "[]" 0]
  show ?thesis by (simp add: json_loads_def json_dumps_def skip_ws_def)
qed

lemma dumps_inject:
  assumes "style_ok st" and "json_ok j" and "json_ok k" and "json_dumps st j = json_dumps st k"
  shows "normal st j = normal st k"
  using loads_dumps [OF assms(1,2)] loads_dumps [OF assms(1,3)] assms(4) by simp

text \<open>Without \<open>sort_keys\<close> the value itself comes back.\<close>

lemma normal_unsorted: "\<not> sort_keys st \<Longrightarrow> normal st j = j"
proof (induction j)
  case (JList xs)
  then show ?case by (simp add: map_idI)
next
  case (JObj kvs)
  then have "map (\<lambda>(k, v). (k, normal st v)) kvs = kvs"
    by (intro map_idI) (auto simp: snds.simps)
  with JObj.prems show ?case by (simp add: Let_def)
qed simp_all

lemma unsorted_styles [simp]: "\<not> sort_keys default_style" "\<not> sort_keys indent2"
  by (simp_all add: default_style_def indent2_def)

lemma loads_dumps_indent2: "json_ok j \<Longrightarrow> json_loads (json_dumps indent2 j) = Some j"
  by (simp add: loads_dumps normal_unsorted)

lemma loads_dumps_default: "json_ok j \<Longrightarrow> json_loads (json_dumps default_style j) = Some j"
  by (simp add: loads_dumps normal_unsorted)

end
