(* ===== verification/Machines.thy ===== *)
theory Machines
  imports Prelude
begin

text \<open>
  A component whose methods are called in any order: an operation type and a step
  function. \<open>run_ops\<close> is the state after a sequence of operations. The locales state
  once what an invariant, a ratchet (a fact that never becomes false again) and a
  record of origins give for whole sequences; the components interpret them.
\<close>

definition run_ops :: "('op \<Rightarrow> 's \<Rightarrow> 'o \<times> 's) \<Rightarrow> 'op list \<Rightarrow> 's \<Rightarrow> 's" where
  "run_ops step ops s = fold (\<lambda>op s. snd (step op s)) ops s"

lemma run_ops_Nil [simp]: "run_ops step [] s = s"
  by (simp add: run_ops_def)

lemma run_ops_Cons [simp]: "run_ops step (op # ops) s = run_ops step ops (snd (step op s))"
  by (simp add: run_ops_def)

lemma run_ops_append [simp]: "run_ops step (xs @ ys) s = run_ops step ys (run_ops step xs s)"
  by (simp add: run_ops_def)

section \<open>Invariants\<close>

locale invariant_machine =
  fixes step :: "'op \<Rightarrow> 's \<Rightarrow> 'o \<times> 's"
    and inv :: "'s \<Rightarrow> bool"
  assumes step_keeps: "inv s \<Longrightarrow> inv (snd (step op s))"
begin

lemma run_keeps: "inv s \<Longrightarrow> inv (run_ops step ops s)"
  by (induction ops arbitrary: s) (simp_all add: step_keeps)

end

section \<open>Where a fact about the state comes from\<close>

text \<open>
  \<open>holds s x\<close>: the state \<open>s\<close> has the entry \<open>x\<close>. \<open>makes op s x\<close>: the operation \<open>op\<close>, done in
  \<open>s\<close>, is one that may add \<open>x\<close>. An entry that was not there at first was added by an
  operation of the sequence.
\<close>

locale provenance_machine = invariant_machine step inv
  for step :: "'op \<Rightarrow> 's \<Rightarrow> 'o \<times> 's" and inv :: "'s \<Rightarrow> bool" +
  fixes holds :: "'s \<Rightarrow> 'x \<Rightarrow> bool"
    and makes :: "'op \<Rightarrow> 's \<Rightarrow> 'x \<Rightarrow> bool"
  assumes step_origin: "inv s \<Longrightarrow> holds (snd (step op s)) x \<Longrightarrow> holds s x \<or> makes op s x"
begin

lemma origin:
  assumes "inv s" "holds (run_ops step ops s) x" "\<not> holds s x"
  shows "\<exists>pre op post. ops = pre @ op # post \<and> makes op (run_ops step pre s) x"
  using assms
proof (induction ops arbitrary: s)
  case Nil
  then show ?case by simp
next
  case (Cons op ops)
  show ?case
  proof (cases "holds (snd (step op s)) x")
    case True
    with Cons.prems step_origin have "makes op s x" by blast
    then show ?thesis by (metis append_Nil run_ops_Nil)
  next
    case False
    moreover have "holds (run_ops step ops (snd (step op s))) x"
      using Cons.prems(2) by simp
    ultimately obtain pre op' post
      where "ops = pre @ op' # post" "makes op' (run_ops step pre (snd (step op s))) x"
      using Cons.IH [OF step_keeps [OF Cons.prems(1)]] by blast
    then show ?thesis by (metis append_Cons run_ops_Cons)
  qed
qed

text \<open>An entry no operation can make is never there again.\<close>

lemma stays_absent:
  assumes s: "inv s" "\<not> holds s x"
    and never: "\<And>op pre. \<not> makes op (run_ops step pre s) x"
  shows "\<not> holds (run_ops step ops s) x"
  using origin [OF s(1) _ s(2)] never by blast

end

section \<open>Ratchets\<close>

text \<open>\<open>below s n\<close> only grows: what has passed under it stays there.\<close>

locale ratchet_machine = invariant_machine step inv
  for step :: "'op \<Rightarrow> 's \<Rightarrow> 'o \<times> 's" and inv :: "'s \<Rightarrow> bool" +
  fixes level :: "'s \<Rightarrow> 'n :: preorder"
  assumes step_level: "inv s \<Longrightarrow> level s \<le> level (snd (step op s))"
begin

lemma run_level: "inv s \<Longrightarrow> level s \<le> level (run_ops step ops s)"
  by (induction ops arbitrary: s) (auto intro: order_trans step_level step_keeps)

end

end
