(* ===== verification/Hitl.thy ===== *)
theory Hitl
  imports PyJson Machines
begin

text \<open>
  \<open>src/baseline/lib/hitl.py\<close>: the human-in-the-loop confirmation of drive actions.

  A \<open>ConfirmationStore\<close> is the record \<open>store\<close>; its four dictionaries are association lists in
  insertion order. An \<open>Authorization\<close> is the record \<open>authorization\<close>; the code compares
  authorizations by object identity (\<open>live is not auth\<close>), so the record carries an object
  number, allocated from \<open>next_object\<close> when the object is made. Every method is an
  action on the store that raises as the method does; the time the method reads from the
  store's clock and the random tokens it draws are arguments.

  What is not code of the module is the record \<open>henv\<close>: the hex digests of
  \<open>hashlib.sha256\<close> and of \<open>hmac.new(_SECRET, ..)\<close>, the local calendar day of a time, the
  caller's \<open>verify_secret\<close>, and whether the audit sink raises on a record. Nothing is assumed of
  any of them unless a theorem says so.
\<close>

section \<open>Limits, verbs and the state\<close>

definition DEFAULT_TTL_S :: int where "DEFAULT_TTL_S = 300"
definition MIN_WAIT_S :: int where "MIN_WAIT_S = 3"
definition AUTHORIZATION_USE_WINDOW_S :: int where "AUTHORIZATION_USE_WINDOW_S = 120"
definition MAX_PENDING :: nat where "MAX_PENDING = 20"
definition MAX_FAILED_ATTEMPTS :: nat where "MAX_FAILED_ATTEMPTS = 5"
definition MAX_GRANT_MINUTES :: int where "MAX_GRANT_MINUTES = 60"
definition MAX_GRANT_USES :: int where "MAX_GRANT_USES = 5"

definition VERBS :: "(string \<times> string) list" where
  "VERBS =
     [(''build_self_installer'', ''INSTALL''),
      (''repair'', ''REPAIR''),
      (''mount_volume'', ''MOUNT''),
      (''unmount_volume'', ''UNMOUNT''),
      (''update_selected'', ''UPDATE''),
      (''stamp_installer_identity'', ''STAMP''),
      (''lay_out_baseline_drive'', ''LAYOUT''),
      (''enroll_drive'', ''ENROLL'')]"

definition CONFIRMED_ACTIONS :: "string list" where
  "CONFIRMED_ACTIONS = map fst VERBS"

definition NEVER_PRE_APPROVED :: "string list" where
  "NEVER_PRE_APPROVED = [''build_self_installer'', ''lay_out_baseline_drive'', ''enroll_drive'']"

definition verb :: "string \<Rightarrow> string" where
  "verb a = the (map_of VERBS a)"

type_synonym params = "(string \<times> json) list"

record henv =
  sha256 :: "string \<Rightarrow> string"
  hmac_hex :: "string \<Rightarrow> string"
  day_key :: "int \<Rightarrow> string"
  verify_secret :: "string \<Rightarrow> bool"
  ttl_s :: int
  min_wait_s :: int
  audit_raises :: "json list \<Rightarrow> json \<Rightarrow> exn option"

record authorization =
  auth_object :: nat
  auth_store :: nat
  auth_nonce :: string
  auth_digest :: string
  auth_expires :: int
  auth_kind :: string
  auth_mac :: string

record pending =
  p_session :: string
  p_action :: string
  p_params :: params
  p_serial :: string
  p_digest :: string
  p_phrase :: string
  p_created :: int
  p_expires :: int
  p_failures :: nat

record grant_rec =
  g_session :: string
  g_action :: string
  g_serial :: string
  g_expires :: int
  g_uses_left :: int

record daily_rec =
  d_account :: string
  d_action :: string
  d_serial :: string
  d_day :: string

record store =
  store_id :: nat
  next_object :: nat
  pending :: "(string \<times> pending) list"
  grants :: "(string \<times> grant_rec) list"
  live :: "(string \<times> authorization) list"
  daily :: "(string \<times> daily_rec) list"
  audit_log :: "json list"

definition new_store :: "nat \<Rightarrow> store" where
  "new_store i = \<lparr>store_id = i, next_object = 0, pending = [], grants = [], live = [], daily = [], audit_log = []\<rparr>"

section \<open>Digests, phrases and authorizations\<close>

definition request_blob :: "string \<Rightarrow> params \<Rightarrow> string \<Rightarrow> json" where
  "request_blob action ps serial = JObj [(''a'', JStr action), (''p'', JObj ps), (''s'', JStr serial)]"

definition request_digest :: "henv \<Rightarrow> string \<Rightarrow> params \<Rightarrow> string \<Rightarrow> string" where
  "request_digest env action ps serial = sha256 env (json_dumps compact_sorted (request_blob action ps serial))"

definition phrase_for :: "string \<Rightarrow> string \<Rightarrow> string" where
  "phrase_for action serial = verb action @ '' '' @ upper (last_chars 6 serial)"

definition normalize :: "string \<Rightarrow> string" where
  "normalize text = upper (join '' '' (split_ws text))"

definition who :: "henv \<Rightarrow> string \<Rightarrow> string" where
  "who env session = take 10 (sha256 env session)"

definition mac :: "henv \<Rightarrow> string \<Rightarrow> string \<Rightarrow> int \<Rightarrow> string \<Rightarrow> string" where
  "mac env nonce digest expires kind =
     hmac_hex env (nonce @ ''|'' @ digest @ ''|'' @ str_of_int expires @ ''|'' @ kind)"

definition make_authorization ::
  "henv \<Rightarrow> nat \<Rightarrow> nat \<Rightarrow> string \<Rightarrow> string \<Rightarrow> int \<Rightarrow> string \<Rightarrow> authorization" where
  "make_authorization env obj sid nonce digest expires kind =
     \<lparr>auth_object = obj, auth_store = sid, auth_nonce = nonce, auth_digest = digest, auth_expires = expires,
      auth_kind = kind, auth_mac = mac env nonce digest expires kind\<rparr>"

definition valid_for :: "henv \<Rightarrow> authorization \<Rightarrow> string \<Rightarrow> params \<Rightarrow> string \<Rightarrow> bool" where
  "valid_for env a action ps serial \<longleftrightarrow>
     auth_mac a = mac env (auth_nonce a) (auth_digest a) (auth_expires a) (auth_kind a)
     \<and> auth_digest a = request_digest env action ps serial"

section \<open>The methods of the store\<close>

definition audit :: "henv \<Rightarrow> (string \<times> json) list \<Rightarrow> (store, unit) act" where
  "audit env r = (\<lambda>s. case audit_raises env (audit_log s) (JObj r) of
      Some e \<Rightarrow> (Inl e, s)
    | None \<Rightarrow> (Inr (), s\<lparr>audit_log := audit_log s @ [JObj r]\<rparr>))"

definition prune_state :: "henv \<Rightarrow> int \<Rightarrow> store \<Rightarrow> store" where
  "prune_state env now s =
     s\<lparr>pending := filter (\<lambda>(c, r). \<not> p_expires r \<le> now) (pending s),
       grants := filter (\<lambda>(g, r). \<not> (g_expires r \<le> now \<or> g_uses_left r \<le> 0)) (grants s),
       live := filter (\<lambda>(n, a). \<not> auth_expires a \<le> now) (live s),
       daily := filter (\<lambda>(d, r). d_day r = day_key env now) (daily s)\<rparr>"

definition prune :: "henv \<Rightarrow> int \<Rightarrow> (store, unit) act" where
  "prune env now = act_upd (prune_state env now)"

record challenge_view =
  cv_id :: string
  cv_summary :: string
  cv_phrase :: string
  cv_expires_in :: int
  cv_min_wait :: int

definition challenge ::
  "henv \<Rightarrow> int \<Rightarrow> string \<Rightarrow> string \<Rightarrow> string \<Rightarrow> params \<Rightarrow> string \<Rightarrow> string \<Rightarrow> (store, challenge_view) act" where
  "challenge env now cid session action ps serial summary =
     (if action \<notin> set CONFIRMED_ACTIONS
      then act_raise (ValueError (py_repr action @ '' does not take a confirmation''))
      else
        act_seq (prune env now) (
        act_bind (act_get (\<lambda>s. length (pending s))) (\<lambda>n.
        if MAX_PENDING \<le> n
        then act_raise (ValueError ''too many pending confirmations; confirm or let them expire first'')
        else
          let r = \<lparr>p_session = session, p_action = action, p_params = ps, p_serial = serial,
                   p_digest = request_digest env action ps serial, p_phrase = phrase_for action serial,
                   p_created = now, p_expires = now + ttl_s env, p_failures = 0\<rparr>
          in act_seq (act_upd (\<lambda>s. s\<lparr>pending := AList.update cid r (pending s)\<rparr>)) (
             act_seq (audit env [(''event'', JStr ''challenge''), (''id'', JStr cid), (''action'', JStr action),
                                 (''serial'', JStr serial), (''who'', JStr (who env session))]) (
             act_ret \<lparr>cv_id = cid, cv_summary = summary, cv_phrase = p_phrase r,
                      cv_expires_in = ttl_s env, cv_min_wait = min_wait_s env\<rparr>)))))"

definition pending_request :: "henv \<Rightarrow> int \<Rightarrow> string \<Rightarrow> (store, (string \<times> params \<times> string) option) act" where
  "pending_request env now cid =
     act_seq (prune env now) (
     act_get (\<lambda>s. map_option (\<lambda>r. (p_action r, p_params r, p_serial r)) (map_of (pending s) cid)))"

definition mint :: "henv \<Rightarrow> string \<Rightarrow> string \<Rightarrow> string \<Rightarrow> int \<Rightarrow> (store, authorization) act" where
  "mint env nonce digest kind expires = (\<lambda>s.
     let a = make_authorization env (next_object s) (store_id s) nonce digest expires kind
     in (Inr a, s\<lparr>next_object := Suc (next_object s), live := AList.update nonce a (live s)\<rparr>))"

definition refuse :: "henv \<Rightarrow> string \<Rightarrow> string \<Rightarrow> string \<Rightarrow> string \<Rightarrow> (store, 'a) act" where
  "refuse env session cid why message =
     act_seq (audit env [(''event'', JStr ''confirm_failed''), (''id'', JStr cid), (''reason'', JStr why),
                         (''who'', JStr (who env session))])
       (act_raise (ConfirmationError message why))"

text \<open>\<open>record["failures"] += 1\<close>, and the challenge is dropped at the limit.\<close>
definition count_failure :: "string \<Rightarrow> (store, unit) act" where
  "count_failure cid = act_upd (\<lambda>s.
     case map_of (pending s) cid of
       None \<Rightarrow> s
     | Some r \<Rightarrow>
         let r' = r\<lparr>p_failures := Suc (p_failures r)\<rparr>
         in if MAX_FAILED_ATTEMPTS \<le> p_failures r'
            then s\<lparr>pending := AList.delete cid (pending s)\<rparr>
            else s\<lparr>pending := AList.update cid r' (pending s)\<rparr>)"

text \<open>\<open>daily_for\<close> is \<open>None\<close> or the bot account; the code tests its truth, so an empty account is no account.\<close>
definition confirm ::
  "henv \<Rightarrow> int \<Rightarrow> string \<Rightarrow> string \<Rightarrow> string \<Rightarrow> string \<Rightarrow> string \<Rightarrow> string \<Rightarrow> string option
     \<Rightarrow> (store, authorization) act" where
  "confirm env now did nonce session cid typed secret daily_for =
     act_seq (prune env now) (
     act_bind (act_get (\<lambda>s. map_of (pending s) cid)) (\<lambda>found.
     case found of
       None \<Rightarrow> refuse env session cid ''unknown'' ''that confirmation is unknown, expired or already used''
     | Some r \<Rightarrow>
       let for_day = (daily_for \<noteq> None \<and> daily_for \<noteq> Some [])
       in if for_day \<and> p_action r \<in> set NEVER_PRE_APPROVED then
         refuse env session cid ''never_granted''
           (p_action r @ '' is confirmed by a person every time and can never be authorized for the day'')
       else if p_session r \<noteq> session then
         refuse env session cid ''session'' ''that confirmation belongs to a different session''
       else if now - p_created r < min_wait_s env then
         refuse env session cid ''too_fast''
           (''wait '' @ str_of_int (min_wait_s env) @ '' seconds and read what will happen before confirming'')
       else if normalize typed \<noteq> p_phrase r then
         act_seq (count_failure cid)
           (refuse env session cid ''phrase'' ''the phrase you typed does not match'')
       else if secret = [] \<or> \<not> verify_secret env secret then
         act_seq (count_failure cid)
           (refuse env session cid ''credential'' ''the credential was not accepted'')
       else
         act_seq (act_upd (\<lambda>s. s\<lparr>pending := AList.delete cid (pending s)\<rparr>)) (
         act_seq (act_when for_day (
           act_seq (act_upd (\<lambda>s. s\<lparr>daily := AList.update did
               \<lparr>d_account = the daily_for, d_action = p_action r, d_serial = p_serial r, d_day = day_key env now\<rparr>
               (daily s)\<rparr>))
             (audit env [(''event'', JStr ''daily_authorized''), (''id'', JStr did), (''action'', JStr (p_action r)),
                         (''serial'', JStr (p_serial r)), (''account'', JStr (the daily_for)),
                         (''day'', JStr (day_key env now))]))) (
         act_bind (mint env nonce (p_digest r) ''confirmation'' (now + AUTHORIZATION_USE_WINDOW_S)) (\<lambda>auth.
         act_seq (audit env [(''event'', JStr ''confirmed''), (''id'', JStr cid), (''action'', JStr (p_action r)),
                             (''serial'', JStr (p_serial r)), (''who'', JStr (who env session))])
           (act_ret auth))))))"

definition owns :: "nat \<Rightarrow> authorization option \<Rightarrow> bool" where
  "owns sid a = (case a of None \<Rightarrow> False | Some x \<Rightarrow> auth_store x = sid)"

definition use_authorization ::
  "henv \<Rightarrow> int \<Rightarrow> authorization \<Rightarrow> string \<Rightarrow> params \<Rightarrow> string \<Rightarrow> (store, unit) act" where
  "use_authorization env now a action ps serial =
     act_bind (act_get (\<lambda>s. map_of (live s) (auth_nonce a))) (\<lambda>found.
     if found \<noteq> Some a then
       act_raise (ConfirmationRequired ''that confirmation was already used or has expired'')
     else if auth_expires a \<le> now then
       act_seq (act_upd (\<lambda>s. s\<lparr>live := AList.delete (auth_nonce a) (live s)\<rparr>))
         (act_raise (ConfirmationRequired ''that confirmation has expired''))
     else if \<not> valid_for env a action ps serial then
       act_raise (ConfirmationRequired ''that confirmation is for a different request'')
     else
       act_seq (act_upd (\<lambda>s. s\<lparr>live := AList.delete (auth_nonce a) (live s)\<rparr>))
         (audit env [(''event'', JStr ''authorization_used''), (''action'', JStr action), (''serial'', JStr serial),
                     (''kind'', JStr (auth_kind a))]))"

text \<open>
  The arguments \<open>minutes\<close> and \<open>max_uses\<close> come from a request: any value, so the type test is
  part of the code. A \<open>bool\<close> is not accepted although it is an \<open>int\<close> in Python.
\<close>
definition int_between :: "int \<Rightarrow> int \<Rightarrow> json \<Rightarrow> bool" where
  "int_between lo hi v = (case v of JInt i \<Rightarrow> lo \<le> i \<and> i \<le> hi | _ \<Rightarrow> False)"

fun the_int :: "json \<Rightarrow> int" where
  "the_int (JInt i) = i"
| "the_int _ = 0"

definition grant ::
  "henv \<Rightarrow> int \<Rightarrow> string \<Rightarrow> string \<Rightarrow> string \<Rightarrow> string \<Rightarrow> json \<Rightarrow> json \<Rightarrow> string \<Rightarrow> string
     \<Rightarrow> (store, string \<times> int \<times> int) act" where
  "grant env now gid session action serial minutes max_uses typed secret =
     act_seq (prune env now) (
     if action \<in> set NEVER_PRE_APPROVED then
       act_raise (ConfirmationError
         (action @ '' is confirmed by a person every time and can never be pre-approved'') ''never_granted'')
     else if action \<notin> set CONFIRMED_ACTIONS then
       act_raise (ConfirmationError (py_repr action @ '' does not take a confirmation'') ''limits'')
     else if \<not> int_between 1 MAX_GRANT_MINUTES minutes then
       act_raise (ConfirmationError
         (''an approval lasts 1 to '' @ str_of_int MAX_GRANT_MINUTES @ '' minutes'') ''limits'')
     else if \<not> int_between 1 MAX_GRANT_USES max_uses then
       act_raise (ConfirmationError
         (''an approval allows 1 to '' @ str_of_int MAX_GRANT_USES @ '' uses'') ''limits'')
     else if normalize typed \<noteq> ''I AUTHORIZE '' @ verb action @ '' '' @ upper (last_chars 6 serial)
               @ '' FOR '' @ str_of_int (the_int minutes) @ '' MINUTES'' then
       act_seq (audit env [(''event'', JStr ''grant_failed''), (''reason'', JStr ''phrase''),
                           (''who'', JStr (who env session))])
         (act_raise (ConfirmationError ''the sentence you typed does not match'' ''phrase''))
     else if secret = [] \<or> \<not> verify_secret env secret then
       act_seq (audit env [(''event'', JStr ''grant_failed''), (''reason'', JStr ''credential''),
                           (''who'', JStr (who env session))])
         (act_raise (ConfirmationError ''the credential was not accepted'' ''credential''))
     else
       act_seq (act_upd (\<lambda>s. s\<lparr>grants := AList.update gid
           \<lparr>g_session = session, g_action = action, g_serial = serial,
            g_expires = now + the_int minutes * 60, g_uses_left = the_int max_uses\<rparr> (grants s)\<rparr>)) (
       act_seq (audit env [(''event'', JStr ''grant_created''), (''id'', JStr gid), (''action'', JStr action),
                           (''serial'', JStr serial), (''minutes'', minutes), (''max_uses'', max_uses),
                           (''who'', JStr (who env session))])
         (act_ret (gid, the_int max_uses, the_int minutes * 60))))"

definition authorization_from_grant ::
  "henv \<Rightarrow> int \<Rightarrow> string \<Rightarrow> string \<Rightarrow> string \<Rightarrow> params \<Rightarrow> string \<Rightarrow> (store, authorization option) act" where
  "authorization_from_grant env now nonce session action ps serial =
     act_seq (prune env now) (
     act_bind (act_get (\<lambda>s. find (\<lambda>(gid, g). g_action g = action \<and> g_serial g = serial \<and> g_uses_left g > 0
                                   \<and> g_session g = session) (grants s))) (\<lambda>found.
     case found of
       None \<Rightarrow> act_ret None
     | Some (gid, g) \<Rightarrow>
         let g' = g\<lparr>g_uses_left := g_uses_left g - 1\<rparr>
         in act_seq (act_upd (\<lambda>s. s\<lparr>grants := AList.update gid g' (grants s)\<rparr>)) (
            act_bind (mint env nonce (request_digest env action ps serial) ''grant''
                        (now + AUTHORIZATION_USE_WINDOW_S)) (\<lambda>auth.
            act_seq (audit env [(''event'', JStr ''grant_used''), (''id'', JStr gid), (''action'', JStr action),
                                (''serial'', JStr serial), (''uses_left'', JInt (g_uses_left g')),
                                (''who'', JStr (who env session))])
              (act_ret (Some auth))))))"

definition authorization_from_daily ::
  "henv \<Rightarrow> int \<Rightarrow> string \<Rightarrow> string \<Rightarrow> string \<Rightarrow> params \<Rightarrow> string \<Rightarrow> (store, authorization option) act" where
  "authorization_from_daily env now nonce account action ps serial =
     act_seq (prune env now) (
     act_bind (act_get (\<lambda>s. find (\<lambda>(did, d). d_action d = action \<and> d_serial d = serial \<and> d_day d = day_key env now
                                   \<and> d_account d = account) (daily s))) (\<lambda>found.
     case found of
       None \<Rightarrow> act_ret None
     | Some (did, d) \<Rightarrow>
         act_bind (mint env nonce (request_digest env action ps serial) ''daily''
                     (now + AUTHORIZATION_USE_WINDOW_S)) (\<lambda>auth.
         act_seq (audit env [(''event'', JStr ''daily_used''), (''id'', JStr did), (''action'', JStr action),
                             (''serial'', JStr serial), (''account'', JStr account)])
           (act_ret (Some auth)))))"

definition list_daily :: "henv \<Rightarrow> int \<Rightarrow> string \<Rightarrow> (store, (string \<times> string \<times> string \<times> string) list) act" where
  "list_daily env now account =
     act_seq (prune env now) (
     act_get (\<lambda>s. [(did, d_action d, d_serial d, d_day d). (did, d) \<leftarrow> daily s, d_account d = account]))"

definition list_all_daily :: "henv \<Rightarrow> int \<Rightarrow> (store, (string \<times> daily_rec) list) act" where
  "list_all_daily env now = act_seq (prune env now) (act_get daily)"

definition revoke_daily :: "henv \<Rightarrow> string \<Rightarrow> (store, bool) act" where
  "revoke_daily env did =
     act_bind (act_get (\<lambda>s. map_of (daily s) did \<noteq> None)) (\<lambda>existed.
     act_seq (act_upd (\<lambda>s. s\<lparr>daily := AList.delete did (daily s)\<rparr>)) (
     act_seq (act_when existed (audit env [(''event'', JStr ''daily_revoked''), (''id'', JStr did)]))
       (act_ret existed)))"

definition revoke :: "henv \<Rightarrow> string \<Rightarrow> (store, bool) act" where
  "revoke env gid =
     act_bind (act_get (\<lambda>s. map_of (grants s) gid \<noteq> None)) (\<lambda>existed.
     act_seq (act_upd (\<lambda>s. s\<lparr>grants := AList.delete gid (grants s)\<rparr>)) (
     act_seq (act_when existed (audit env [(''event'', JStr ''grant_revoked''), (''id'', JStr gid)]))
       (act_ret existed)))"

definition list_grants :: "henv \<Rightarrow> int \<Rightarrow> string \<Rightarrow> (store, (string \<times> string \<times> string \<times> int \<times> int) list) act" where
  "list_grants env now session =
     act_seq (prune env now) (
     act_get (\<lambda>s. [(gid, g_action g, g_serial g, g_uses_left g, g_expires g - now).
                     (gid, g) \<leftarrow> grants s, g_session g = session]))"

text \<open>
  \<open>require\<close> runs on the store the authorization names, whichever that is, so it is an
  action on all the stores of the process; \<open>own\<close> is the optional \<open>store\<close> argument.
\<close>
definition on_store :: "nat \<Rightarrow> (store, 'a) act \<Rightarrow> (nat \<Rightarrow> store, 'a) act" where
  "on_store i m = (\<lambda>h. case m (h i) of (r, s) \<Rightarrow> (r, h(i := s)))"

definition require ::
  "henv \<Rightarrow> int \<Rightarrow> authorization option \<Rightarrow> string \<Rightarrow> params \<Rightarrow> string \<Rightarrow> nat option \<Rightarrow> (nat \<Rightarrow> store, unit) act" where
  "require env now a action ps serial own =
     (if action \<notin> set CONFIRMED_ACTIONS then act_ret ()
      else case a of
        None \<Rightarrow> act_raise (ConfirmationRequired (action @ '' needs a human confirmation, and none was given''))
      | Some x \<Rightarrow>
          if own \<noteq> None \<and> \<not> owns (the own) a then
            act_raise (ConfirmationRequired ''that confirmation was not issued by this system'')
          else on_store (auth_store x) (use_authorization env now x action ps serial))"

text \<open>\<open>AuditFile.__call__\<close>: the text appended to the file for one record; \<open>**record\<close> overrides \<open>ts\<close>.\<close>
definition audit_line :: "int \<Rightarrow> (string \<times> json) list \<Rightarrow> string" where
  "audit_line now r = json_dumps default_sorted (JObj (fold (\<lambda>(k, v). AList.update k v) r [(''ts'', JInt now)])) @ [CHR 0x0A]"

section \<open>Operations in sequence\<close>

datatype hop =
    Challenge int string string string params string string
  | PendingRequest int string
  | Confirm int string string string string string string "string option"
  | Use int authorization string params string
  | Grant int string string string string json json string string
  | FromGrant int string string string params string
  | FromDaily int string string string params string
  | ListDaily int string
  | ListAllDaily int
  | RevokeDaily string
  | Revoke string
  | ListGrants int string

definition returning :: "('a \<Rightarrow> authorization option) \<Rightarrow> (store, 'a) act \<Rightarrow> (store, authorization option) act" where
  "returning f m = act_bind m (\<lambda>x. act_ret (f x))"

text \<open>One call of a method; the result kept is the authorization it returned, if it returned one.\<close>
fun hitl_step :: "henv \<Rightarrow> hop \<Rightarrow> (store, authorization option) act" where
  "hitl_step env (Challenge now cid session action ps serial summary) =
     returning (\<lambda>_. None) (challenge env now cid session action ps serial summary)"
| "hitl_step env (PendingRequest now cid) = returning (\<lambda>_. None) (pending_request env now cid)"
| "hitl_step env (Confirm now did nonce session cid typed secret daily_for) =
     returning Some (confirm env now did nonce session cid typed secret daily_for)"
| "hitl_step env (Use now a action ps serial) =
     returning (\<lambda>_. None) (use_authorization env now a action ps serial)"
| "hitl_step env (Grant now gid session action serial minutes max_uses typed secret) =
     returning (\<lambda>_. None) (grant env now gid session action serial minutes max_uses typed secret)"
| "hitl_step env (FromGrant now nonce session action ps serial) =
     returning (\<lambda>x. x) (authorization_from_grant env now nonce session action ps serial)"
| "hitl_step env (FromDaily now nonce account action ps serial) =
     returning (\<lambda>x. x) (authorization_from_daily env now nonce account action ps serial)"
| "hitl_step env (ListDaily now account) = returning (\<lambda>_. None) (list_daily env now account)"
| "hitl_step env (ListAllDaily now) = returning (\<lambda>_. None) (list_all_daily env now)"
| "hitl_step env (RevokeDaily did) = returning (\<lambda>_. None) (revoke_daily env did)"
| "hitl_step env (Revoke gid) = returning (\<lambda>_. None) (revoke env gid)"
| "hitl_step env (ListGrants now session) = returning (\<lambda>_. None) (list_grants env now session)"

section \<open>The invariant of a store\<close>

definition live_ok :: "henv \<Rightarrow> nat \<Rightarrow> nat \<Rightarrow> (string \<times> authorization) list \<Rightarrow> bool" where
  "live_ok env sid n xs \<longleftrightarrow> distinct (map fst xs) \<and>
     (\<forall>(k, a) \<in> set xs. k = auth_nonce a \<and> auth_object a < n \<and> auth_store a = sid
        \<and> auth_mac a = mac env (auth_nonce a) (auth_digest a) (auth_expires a) (auth_kind a))"

definition pending_rec_ok :: "henv \<Rightarrow> pending \<Rightarrow> bool" where
  "pending_rec_ok env r \<longleftrightarrow>
     p_action r \<in> set CONFIRMED_ACTIONS
     \<and> p_digest r = request_digest env (p_action r) (p_params r) (p_serial r)
     \<and> p_phrase r = phrase_for (p_action r) (p_serial r)
     \<and> p_expires r = p_created r + ttl_s env
     \<and> p_failures r < MAX_FAILED_ATTEMPTS"

definition pending_ok :: "henv \<Rightarrow> (string \<times> pending) list \<Rightarrow> bool" where
  "pending_ok env xs \<longleftrightarrow> distinct (map fst xs) \<and> length xs \<le> MAX_PENDING \<and> (\<forall>(k, r) \<in> set xs. pending_rec_ok env r)"

definition pre_approvable :: "string \<Rightarrow> bool" where
  "pre_approvable action \<longleftrightarrow> action \<in> set CONFIRMED_ACTIONS \<and> action \<notin> set NEVER_PRE_APPROVED"

definition grants_ok :: "(string \<times> grant_rec) list \<Rightarrow> bool" where
  "grants_ok xs \<longleftrightarrow> distinct (map fst xs) \<and>
     (\<forall>(k, g) \<in> set xs. pre_approvable (g_action g) \<and> 0 \<le> g_uses_left g \<and> g_uses_left g \<le> MAX_GRANT_USES)"

definition daily_ok :: "(string \<times> daily_rec) list \<Rightarrow> bool" where
  "daily_ok xs \<longleftrightarrow> distinct (map fst xs) \<and> (\<forall>(k, d) \<in> set xs. pre_approvable (d_action d))"

definition store_ok :: "henv \<Rightarrow> store \<Rightarrow> bool" where
  "store_ok env s \<longleftrightarrow>
     live_ok env (store_id s) (next_object s) (live s) \<and> pending_ok env (pending s)
     \<and> grants_ok (grants s) \<and> daily_ok (daily s)"

lemma store_ok_new [simp]: "store_ok env (new_store i)"
  by (simp add: store_ok_def new_store_def live_ok_def pending_ok_def grants_ok_def daily_ok_def)

lemma live_ok_subset:
  "live_ok env sid n xs \<Longrightarrow> set ys \<subseteq> set xs \<Longrightarrow> distinct (map fst ys) \<Longrightarrow> live_ok env sid n ys"
  unfolding live_ok_def by blast

lemma pending_ok_subset:
  "pending_ok env xs \<Longrightarrow> set ys \<subseteq> set xs \<Longrightarrow> distinct (map fst ys) \<Longrightarrow> length ys \<le> length xs \<Longrightarrow> pending_ok env ys"
  unfolding pending_ok_def by fastforce

lemma grants_ok_subset: "grants_ok xs \<Longrightarrow> set ys \<subseteq> set xs \<Longrightarrow> distinct (map fst ys) \<Longrightarrow> grants_ok ys"
  unfolding grants_ok_def by blast

lemma daily_ok_subset: "daily_ok xs \<Longrightarrow> set ys \<subseteq> set xs \<Longrightarrow> distinct (map fst ys) \<Longrightarrow> daily_ok ys"
  unfolding daily_ok_def by blast

lemma ok_filter [simp]:
  "live_ok env sid n xs \<Longrightarrow> live_ok env sid n (filter P xs)"
  "pending_ok env ps \<Longrightarrow> pending_ok env (filter Q ps)"
  "grants_ok gs \<Longrightarrow> grants_ok (filter R gs)"
  "daily_ok ds \<Longrightarrow> daily_ok (filter S ds)"
  by (auto intro!: live_ok_subset pending_ok_subset grants_ok_subset daily_ok_subset distinct_map_filter
      intro: le_trans [OF length_filter_le] simp: live_ok_def pending_ok_def grants_ok_def daily_ok_def)

lemma ok_delete [simp]:
  "live_ok env sid n xs \<Longrightarrow> live_ok env sid n (AList.delete k xs)"
  "pending_ok env ps \<Longrightarrow> pending_ok env (AList.delete k ps)"
  "grants_ok gs \<Longrightarrow> grants_ok (AList.delete k gs)"
  "daily_ok ds \<Longrightarrow> daily_ok (AList.delete k ds)"
  by (simp_all add: AList.delete_eq)

lemma ok_update:
  "pending_ok env ps \<Longrightarrow> pending_rec_ok env r \<Longrightarrow> length (AList.update k r ps) \<le> MAX_PENDING
     \<Longrightarrow> pending_ok env (AList.update k r ps)"
  "grants_ok gs \<Longrightarrow> pre_approvable (g_action g) \<Longrightarrow> 0 \<le> g_uses_left g \<Longrightarrow> g_uses_left g \<le> MAX_GRANT_USES
     \<Longrightarrow> grants_ok (AList.update k g gs)"
  "daily_ok ds \<Longrightarrow> pre_approvable (d_action d) \<Longrightarrow> daily_ok (AList.update k d ds)"
  unfolding pending_ok_def grants_ok_def daily_ok_def
  using set_update_subset [of k r ps] set_update_subset [of k g gs] set_update_subset [of k d ds]
  by (auto simp: distinct_update dest!: subsetD)

lemma ok_mint:
  "live_ok env sid n xs \<Longrightarrow>
     live_ok env sid (Suc n) (AList.update nonce (make_authorization env n sid nonce digest expires kind) xs)"
  unfolding live_ok_def using set_update_subset [of nonce "make_authorization env n sid nonce digest expires kind" xs]
  by (fastforce simp: distinct_update make_authorization_def)


section \<open>Every method keeps the invariant\<close>

lemma keeps_audit [keeps_intros]: "keeps (store_ok env) (audit env r)"
  by (rule keepsI) (simp add: audit_def store_ok_def split: option.split)

lemma keeps_refuse [keeps_intros]: "keeps (store_ok env) (refuse env session cid why message)"
  unfolding refuse_def by (intro keeps_intros)

lemma store_ok_prune: "store_ok env s \<Longrightarrow> store_ok env (prune_state env now s)"
  by (simp add: store_ok_def prune_state_def)

lemma keeps_prune [keeps_intros]: "keeps (store_ok env) (prune env now)"
  unfolding prune_def by (rule keeps_upd) (rule store_ok_prune)

lemma store_ok_drop:
  "store_ok env s \<Longrightarrow> store_ok env (s\<lparr>pending := AList.delete k (pending s)\<rparr>)"
  "store_ok env s \<Longrightarrow> store_ok env (s\<lparr>live := AList.delete k (live s)\<rparr>)"
  "store_ok env s \<Longrightarrow> store_ok env (s\<lparr>daily := AList.delete k (daily s)\<rparr>)"
  "store_ok env s \<Longrightarrow> store_ok env (s\<lparr>grants := AList.delete k (grants s)\<rparr>)"
  by (simp_all add: store_ok_def)

lemma keeps_drop [keeps_intros]:
  "keeps (store_ok env) (act_upd (\<lambda>s. s\<lparr>pending := AList.delete k (pending s)\<rparr>))"
  "keeps (store_ok env) (act_upd (\<lambda>s. s\<lparr>live := AList.delete k (live s)\<rparr>))"
  "keeps (store_ok env) (act_upd (\<lambda>s. s\<lparr>daily := AList.delete k (daily s)\<rparr>))"
  "keeps (store_ok env) (act_upd (\<lambda>s. s\<lparr>grants := AList.delete k (grants s)\<rparr>))"
  by (auto intro!: keeps_upd store_ok_drop)

lemma keeps_mint [keeps_intros]: "keeps (store_ok env) (mint env nonce digest kind expires)"
  by (rule keepsI) (simp add: mint_def store_ok_def Let_def ok_mint)

lemma keeps_add_daily:
  "pre_approvable (d_action d) \<Longrightarrow> keeps (store_ok env) (act_upd (\<lambda>s. s\<lparr>daily := AList.update k d (daily s)\<rparr>))"
  by (rule keeps_upd) (simp add: store_ok_def ok_update)

lemma keeps_add_grant:
  "pre_approvable (g_action g) \<Longrightarrow> 0 \<le> g_uses_left g \<Longrightarrow> g_uses_left g \<le> MAX_GRANT_USES
     \<Longrightarrow> keeps (store_ok env) (act_upd (\<lambda>s. s\<lparr>grants := AList.update k g (grants s)\<rparr>))"
  by (rule keeps_upd) (simp add: store_ok_def ok_update)

lemma pending_lookup_ok: "store_ok env s \<Longrightarrow> map_of (pending s) cid = Some r \<Longrightarrow> pending_rec_ok env r"
  unfolding store_ok_def pending_ok_def by (auto dest: map_of_SomeD)

lemma keeps_count_failure [keeps_intros]: "keeps (store_ok env) (count_failure cid)"
  unfolding count_failure_def
proof (rule keeps_upd)
  fix s
  assume s: "store_ok env s"
  show "store_ok env (case map_of (pending s) cid of None \<Rightarrow> s
     | Some r \<Rightarrow> let r' = r\<lparr>p_failures := Suc (p_failures r)\<rparr>
         in if MAX_FAILED_ATTEMPTS \<le> p_failures r' then s\<lparr>pending := AList.delete cid (pending s)\<rparr>
            else s\<lparr>pending := AList.update cid r' (pending s)\<rparr>)"
  proof (cases "map_of (pending s) cid")
    case (Some r)
    then have k: "cid \<in> fst ` set (pending s)" by (force dest: map_of_SomeD)
    have r: "pending_rec_ok env r" by (rule pending_lookup_ok [OF s Some])
    let ?r = "r\<lparr>p_failures := Suc (p_failures r)\<rparr>"
    have "pending_ok env (AList.update cid ?r (pending s))" if "Suc (p_failures r) < MAX_FAILED_ATTEMPTS"
      using s r k that by (intro ok_update)
        (simp_all add: store_ok_def pending_rec_ok_def length_update_mem, simp add: pending_ok_def)
    then show ?thesis
      using s Some by (simp add: Let_def not_le store_ok_drop) (simp add: store_ok_def)
  qed (use s in simp)
qed

lemma keeps_challenge [keeps_intros]: "keeps (store_ok env) (challenge env now cid session action ps serial summary)"
proof (rule keepsI)
  fix s
  assume "store_ok env s"
  then have u: "store_ok env (prune_state env now s)" (is "store_ok env ?u") by (rule store_ok_prune)
  show "store_ok env (snd (challenge env now cid session action ps serial summary s))"
  proof (cases "action \<in> set CONFIRMED_ACTIONS \<and> length (pending ?u) < MAX_PENDING")
    case True
    let ?r = "\<lparr>p_session = session, p_action = action, p_params = ps, p_serial = serial,
                p_digest = request_digest env action ps serial, p_phrase = phrase_for action serial,
                p_created = now, p_expires = now + ttl_s env, p_failures = 0\<rparr>"
    have "length (AList.update cid ?r (pending ?u)) \<le> MAX_PENDING"
      using length_update_le [of cid ?r "pending ?u"] True by linarith
    then have "store_ok env (?u\<lparr>pending := AList.update cid ?r (pending ?u)\<rparr>)"
      using u True
      by (auto simp: store_ok_def pending_rec_ok_def MAX_FAILED_ATTEMPTS_def intro!: ok_update)
    then show ?thesis
      using True by (auto simp: challenge_def prune_def Let_def intro!: keepsD [where P = "store_ok env"] keeps_intros)
  qed (use u \<open>store_ok env s\<close> in \<open>auto simp: challenge_def prune_def\<close>)
qed

lemma keeps_confirm [keeps_intros]:
  "keeps (store_ok env) (confirm env now did nonce session cid typed secret daily_for)"
proof -
  have day: "keeps (store_ok env) (act_when b (act_seq
      (act_upd (\<lambda>s. s\<lparr>daily := AList.update did d (daily s)\<rparr>)) (audit env m)))"
    if "b \<Longrightarrow> pre_approvable (d_action d)" for b d m
    using that by (intro keeps_when keeps_seq keeps_add_daily keeps_audit)
  show ?thesis
    unfolding confirm_def Let_def
    apply (rule keeps_seq [OF keeps_prune])
    apply (rule keeps_get_fact [where Q = "\<lambda>x. \<forall>r. x = Some r \<longrightarrow> pending_rec_ok env r"])
    subgoal by (blast intro: pending_lookup_ok)
    by (intro day keeps_intros) (simp_all add: pre_approvable_def pending_rec_ok_def)
qed

lemma keeps_use [keeps_intros]: "keeps (store_ok env) (use_authorization env now a action ps serial)"
  unfolding use_authorization_def by (intro keeps_intros)

lemma keeps_grant [keeps_intros]:
  "keeps (store_ok env) (grant env now gid session action serial minutes max_uses typed secret)"
  unfolding grant_def
  by (intro keeps_add_grant keeps_intros)
    (auto simp: pre_approvable_def int_between_def MAX_GRANT_USES_def split: json.splits)

lemma find_mem: "find P xs = Some x \<Longrightarrow> x \<in> set xs \<and> P x"
  by (metis find_Some_iff nth_mem)

lemma keeps_from_grant [keeps_intros]:
  "keeps (store_ok env) (authorization_from_grant env now nonce session action ps serial)"
  unfolding authorization_from_grant_def Let_def
  apply (rule keeps_seq [OF keeps_prune])
  apply (rule keeps_get_fact [where Q = "\<lambda>x. \<forall>gid g. x = Some (gid, g) \<longrightarrow>
           pre_approvable (g_action g) \<and> 0 < g_uses_left g \<and> g_uses_left g \<le> MAX_GRANT_USES"])
  subgoal by (auto simp: store_ok_def grants_ok_def dest!: find_mem)
  by (intro keeps_add_grant keeps_intros) auto

lemma keeps_from_daily [keeps_intros]:
  "keeps (store_ok env) (authorization_from_daily env now nonce account action ps serial)"
  unfolding authorization_from_daily_def by (intro keeps_intros)

lemma keeps_listings [keeps_intros]:
  "keeps (store_ok env) (pending_request env now cid)"
  "keeps (store_ok env) (list_daily env now account)"
  "keeps (store_ok env) (list_all_daily env now)"
  "keeps (store_ok env) (list_grants env now session)"
  "keeps (store_ok env) (revoke env gid)"
  "keeps (store_ok env) (revoke_daily env did)"
  unfolding pending_request_def list_daily_def list_all_daily_def list_grants_def revoke_def revoke_daily_def
  by (intro keeps_intros)+

lemma keeps_returning [keeps_intros]: "keeps P m \<Longrightarrow> keeps P (returning f m)"
  unfolding returning_def by (intro keeps_intros)

lemma keeps_hitl_step: "keeps (store_ok env) (hitl_step env op)"
  by (cases op; simp; intro keeps_intros)

interpretation hitl: invariant_machine "hitl_step env" "store_ok env" for env
  by unfold_locales (rule keepsD [OF keeps_hitl_step])

lemma reachable_store_ok: "store_ok env (run_ops (hitl_step env) ops (new_store i))"
  by (rule hitl.run_keeps) simp

section \<open>Single use\<close>

text \<open>The authorization object exists and is not in the table of live authorizations.\<close>

definition spent :: "authorization \<Rightarrow> store \<Rightarrow> bool" where
  "spent a s \<longleftrightarrow> a \<notin> snd ` set (live s) \<and> auth_object a < next_object s"

definition still_spent :: "henv \<Rightarrow> authorization \<Rightarrow> store \<Rightarrow> bool" where
  "still_spent env a s \<longleftrightarrow> store_ok env s \<and> spent a s"

lemma set_delete_subset: "set (AList.delete k xs) \<subseteq> set xs"
  by (auto simp: AList.delete_eq)

lemma spent_keeps [keeps_intros]:
  "keeps (spent a) (audit env r)"
  "keeps (spent a) (prune env now)"
  "keeps (spent a) (act_upd (\<lambda>s. s\<lparr>pending := f s\<rparr>))"
  "keeps (spent a) (act_upd (\<lambda>s. s\<lparr>grants := g s\<rparr>))"
  "keeps (spent a) (act_upd (\<lambda>s. s\<lparr>daily := h s\<rparr>))"
  "keeps (spent a) (act_upd (\<lambda>s. s\<lparr>live := AList.delete k (live s)\<rparr>))"
  "keeps (spent a) (count_failure cid)"
  using set_delete_subset
  by (fastforce simp: keeps_def spent_def audit_def prune_def prune_state_def count_failure_def Let_def
      split: option.splits)+

lemma spent_mint [keeps_intros]: "keeps (spent a) (mint env nonce digest kind expires)"
proof (rule keepsI)
  fix s
  assume s: "spent a s"
  let ?b = "make_authorization env (next_object s) (store_id s) nonce digest expires kind"
  have "a \<noteq> ?b" using s by (auto simp: spent_def make_authorization_def)
  then show "spent a (snd (mint env nonce digest kind expires s))"
    using s set_update_subset [of nonce ?b "live s"]
    by (fastforce simp: mint_def spent_def Let_def)
qed

lemma spent_refuse [keeps_intros]: "keeps (spent a) (refuse env session cid why message)"
  unfolding refuse_def by (intro keeps_intros)

lemma spent_step: "keeps (spent a) (hitl_step env op)"
  by (cases op; simp only: hitl_step.simps returning_def challenge_def pending_request_def confirm_def use_authorization_def
      grant_def authorization_from_grant_def authorization_from_daily_def list_daily_def list_all_daily_def
      revoke_daily_def revoke_def list_grants_def Let_def; intro keeps_intros)

interpretation spent: invariant_machine "hitl_step env" "spent a" for env a
  by unfold_locales (rule keepsD [OF spent_step])

lemma use_ok_iff:
  "fst (use_authorization env now a action ps serial s) = Inr () \<longleftrightarrow>
     map_of (live s) (auth_nonce a) = Some a \<and> now < auth_expires a \<and> valid_for env a action ps serial
     \<and> audit_raises env (audit_log s) (JObj [(''event'', JStr ''authorization_used''), (''action'', JStr action),
            (''serial'', JStr serial), (''kind'', JStr (auth_kind a))]) = None"
  by (auto simp: use_authorization_def audit_def split: option.splits)

lemma use_spends:
  assumes "store_ok env s" "fst (use_authorization env now a action ps serial s) = Inr ()"
  shows "spent a (snd (use_authorization env now a action ps serial s))"
proof -
  have l: "map_of (live s) (auth_nonce a) = Some a" using assms(2) by (simp add: use_ok_iff)
  have "\<forall>(k, b) \<in> set (live s). k = auth_nonce b" "auth_object a < next_object s"
    using assms(1) map_of_SomeD [OF l] unfolding store_ok_def live_ok_def by auto
  then show ?thesis
    using assms(2) unfolding use_ok_iff
    by (fastforce simp: use_authorization_def audit_def spent_def AList.delete_eq)
qed

lemma spent_not_live: "spent a s \<Longrightarrow> map_of (live s) k \<noteq> Some a"
  unfolding spent_def by (force dest: map_of_SomeD)

lemma spent_refused:
  "spent a s \<Longrightarrow> use_authorization env now a action ps serial s =
     (Inl (ConfirmationRequired ''that confirmation was already used or has expired''), s)"
  by (simp add: use_authorization_def spent_not_live)

section \<open>Where an authorization, a challenge and an approval come from\<close>

text \<open>
  \<open>minted_by env op s a\<close>: the call \<open>op\<close> in state \<open>s\<close> meets every condition the code puts
  before minting, and \<open>a\<close> is the authorization it mints. For \<open>confirm\<close> they are: the
  challenge is pending and belongs to the session, the minimum wait has passed, the phrase
  and the secret are right.
\<close>

fun minted_by :: "henv \<Rightarrow> hop \<Rightarrow> store \<Rightarrow> authorization \<Rightarrow> bool" where
  "minted_by env (Confirm now did nonce session cid typed secret daily_for) s a \<longleftrightarrow>
     (\<exists>r. map_of (pending (prune_state env now s)) cid = Some r
        \<and> p_session r = session \<and> min_wait_s env \<le> now - p_created r
        \<and> normalize typed = p_phrase r \<and> secret \<noteq> [] \<and> verify_secret env secret
        \<and> auth_digest a = p_digest r \<and> auth_kind a = ''confirmation''
        \<and> auth_expires a = now + AUTHORIZATION_USE_WINDOW_S)"
| "minted_by env (FromGrant now nonce session action ps serial) s a \<longleftrightarrow>
     (\<exists>gid g. (gid, g) \<in> set (grants (prune_state env now s))
        \<and> g_action g = action \<and> g_serial g = serial \<and> g_session g = session \<and> 0 < g_uses_left g
        \<and> auth_digest a = request_digest env action ps serial \<and> auth_kind a = ''grant''
        \<and> auth_expires a = now + AUTHORIZATION_USE_WINDOW_S)"
| "minted_by env (FromDaily now nonce account action ps serial) s a \<longleftrightarrow>
     (\<exists>did d. (did, d) \<in> set (daily (prune_state env now s))
        \<and> d_action d = action \<and> d_serial d = serial \<and> d_account d = account \<and> d_day d = day_key env now
        \<and> auth_digest a = request_digest env action ps serial \<and> auth_kind a = ''daily''
        \<and> auth_expires a = now + AUTHORIZATION_USE_WINDOW_S)"
| "minted_by env _ s a \<longleftrightarrow> False"

definition live_in :: "authorization set \<Rightarrow> store \<Rightarrow> bool" where
  "live_in L s \<longleftrightarrow> snd ` set (live s) \<subseteq> L"

lemma live_in_keeps [keeps_intros]:
  "keeps (live_in L) (audit env r)"
  "keeps (live_in L) (prune env now)"
  "keeps (live_in L) (act_upd (\<lambda>s. s\<lparr>pending := f s\<rparr>))"
  "keeps (live_in L) (act_upd (\<lambda>s. s\<lparr>grants := g s\<rparr>))"
  "keeps (live_in L) (act_upd (\<lambda>s. s\<lparr>daily := h s\<rparr>))"
  "keeps (live_in L) (act_upd (\<lambda>s. s\<lparr>live := AList.delete k (live s)\<rparr>))"
  "keeps (live_in L) (count_failure cid)"
  using set_delete_subset
  by (fastforce simp: keeps_def live_in_def audit_def prune_def prune_state_def count_failure_def Let_def
      split: option.splits)+

lemma live_in_refuse [keeps_intros]: "keeps (live_in L) (refuse env session cid why message)"
  unfolding refuse_def by (intro keeps_intros)

lemma live_in_mint [keeps_intros]:
  assumes "\<And>obj sid. make_authorization env obj sid nonce digest expires kind \<in> L"
  shows "keeps (live_in L) (mint env nonce digest kind expires)"
proof (rule keepsI)
  fix s
  assume "live_in L s"
  then show "live_in L (snd (mint env nonce digest kind expires s))"
    using assms set_update_subset [of nonce "make_authorization env (next_object s) (store_id s) nonce digest expires kind" "live s"]
    by (fastforce simp: mint_def live_in_def Let_def)
qed

lemma live_in_prune: "live_in L s \<Longrightarrow> live_in L (prune_state env now s)"
  by (auto simp: live_in_def prune_state_def)

lemma snd_returning [simp]: "snd (returning f m s) = snd (m s)"
  by (simp add: returning_def act_bind_def split: prod.split sum.split)

lemma prune_get:
  "act_seq (prune env now) (act_bind (act_get f) k) s = k (f (prune_state env now s)) (prune_state env now s)"
  by (simp add: prune_def)

lemma live_step:
  assumes "a \<in> snd ` set (live (snd (hitl_step env op s)))"
  shows "a \<in> snd ` set (live s) \<or> minted_by env op s a"
proof -
  define L where "L = {a. minted_by env op s a} \<union> snd ` set (live s)"
  have s: "live_in L s" by (simp add: live_in_def L_def)
  note u = live_in_prune [OF s]
  have "live_in L (snd (hitl_step env op s))"
  proof (cases op)
    case (Confirm now did nonce session cid typed secret daily_for)
    show ?thesis
      unfolding Confirm hitl_step.simps snd_returning confirm_def Let_def prune_get
      by (rule keepsD [where P = "live_in L", OF _ u], intro keeps_intros)
        (auto simp: L_def Confirm make_authorization_def)
  next
    case (FromGrant now nonce session action ps serial)
    show ?thesis
      unfolding FromGrant hitl_step.simps snd_returning authorization_from_grant_def Let_def prune_get
      by (rule keepsD [where P = "live_in L", OF _ u], intro keeps_intros)
        (auto simp: L_def FromGrant make_authorization_def dest!: find_mem)
  next
    case (FromDaily now nonce account action ps serial)
    show ?thesis
      unfolding FromDaily hitl_step.simps snd_returning authorization_from_daily_def Let_def prune_get
      by (rule keepsD [where P = "live_in L", OF _ u], intro keeps_intros)
        (auto simp: L_def FromDaily make_authorization_def dest!: find_mem)
  qed (rule keepsD [where P = "live_in L", OF _ s];
       simp only: hitl_step.simps returning_def challenge_def pending_request_def use_authorization_def
         grant_def list_daily_def list_all_daily_def revoke_daily_def revoke_def list_grants_def Let_def;
       intro keeps_intros)+
  then show ?thesis using assms by (auto simp: live_in_def L_def)
qed

interpretation minting: provenance_machine "hitl_step env" "\<lambda>_. True" "\<lambda>s a. a \<in> snd ` set (live s)" "minted_by env" for env
  by unfold_locales (use live_step in blast)+

text \<open>What a pending challenge says of the call that made it.\<close>

definition challenge_facts :: "pending \<Rightarrow> string \<times> int \<times> string \<times> params \<times> string" where
  "challenge_facts r = (p_session r, p_created r, p_action r, p_params r, p_serial r)"

definition challenged :: "store \<Rightarrow> (string \<times> int \<times> string \<times> params \<times> string) set" where
  "challenged s = challenge_facts ` snd ` set (pending s)"

fun challenged_by :: "hop \<Rightarrow> store \<Rightarrow> string \<times> int \<times> string \<times> params \<times> string \<Rightarrow> bool" where
  "challenged_by (Challenge now cid session action ps serial summary) s x \<longleftrightarrow>
     action \<in> set CONFIRMED_ACTIONS \<and> x = (session, now, action, ps, serial)"
| "challenged_by _ s x \<longleftrightarrow> False"

definition challenged_in :: "(string \<times> int \<times> string \<times> params \<times> string) set \<Rightarrow> store \<Rightarrow> bool" where
  "challenged_in L s \<longleftrightarrow> challenged s \<subseteq> L"

lemma challenged_in_keeps [keeps_intros]:
  "keeps (challenged_in L) (audit env r)"
  "keeps (challenged_in L) (prune env now)"
  "keeps (challenged_in L) (act_upd (\<lambda>s. s\<lparr>live := f s\<rparr>))"
  "keeps (challenged_in L) (act_upd (\<lambda>s. s\<lparr>grants := g s\<rparr>))"
  "keeps (challenged_in L) (act_upd (\<lambda>s. s\<lparr>daily := h s\<rparr>))"
  "keeps (challenged_in L) (act_upd (\<lambda>s. s\<lparr>pending := AList.delete k (pending s)\<rparr>))"
  "keeps (challenged_in L) (mint env nonce digest kind expires)"
  using set_delete_subset
  by (fastforce simp: keeps_def challenged_in_def challenged_def audit_def prune_def prune_state_def mint_def Let_def
      split: option.splits)+

lemma challenged_in_add [keeps_intros]:
  assumes "challenge_facts r \<in> L"
  shows "keeps (challenged_in L) (act_upd (\<lambda>s. s\<lparr>pending := AList.update k r (pending s)\<rparr>))"
proof (rule keeps_upd)
  fix s
  assume "challenged_in L s"
  then show "challenged_in L (s\<lparr>pending := AList.update k r (pending s)\<rparr>)"
    using assms set_update_subset [of k r "pending s"]
    by (fastforce simp: challenged_in_def challenged_def)
qed

lemma challenged_in_failure [keeps_intros]: "keeps (challenged_in L) (count_failure cid)"
proof (rule keepsI)
  fix s
  assume s: "challenged_in L s"
  show "challenged_in L (snd (count_failure cid s))"
  proof (cases "map_of (pending s) cid")
    case (Some r)
    let ?r = "r\<lparr>p_failures := Suc (p_failures r)\<rparr>"
    have "challenge_facts ?r \<in> L"
      using s map_of_SomeD [OF Some] by (force simp: challenged_in_def challenged_def challenge_facts_def)
    with s show ?thesis
      using keepsD [OF challenged_in_add] keepsD [OF challenged_in_keeps(6)] Some
      by (auto simp: count_failure_def Let_def)
  qed (use s in \<open>simp add: count_failure_def\<close>)
qed

lemma challenged_in_refuse [keeps_intros]: "keeps (challenged_in L) (refuse env session cid why message)"
  unfolding refuse_def by (intro keeps_intros)

lemma challenged_step:
  assumes "x \<in> challenged (snd (hitl_step env op s))"
  shows "x \<in> challenged s \<or> challenged_by op s x"
proof -
  define L where "L = {x. challenged_by op s x} \<union> challenged s"
  have s: "challenged_in L s" by (simp add: challenged_in_def L_def)
  have "challenged_in L (snd (hitl_step env op s))"
  proof (cases op)
    case (Challenge now cid session action ps serial summary)
    show ?thesis
      unfolding Challenge hitl_step.simps snd_returning challenge_def Let_def
      by (rule keepsD [where P = "challenged_in L", OF _ s], intro keeps_intros)
        (simp add: L_def Challenge challenge_facts_def)
  qed (rule keepsD [where P = "challenged_in L", OF _ s];
       simp only: hitl_step.simps returning_def confirm_def pending_request_def use_authorization_def
         authorization_from_grant_def authorization_from_daily_def
         grant_def list_daily_def list_all_daily_def revoke_daily_def revoke_def list_grants_def Let_def;
       intro keeps_intros)+
  then show ?thesis using assms by (auto simp: challenged_in_def L_def)
qed

interpretation challenging: provenance_machine "hitl_step env" "\<lambda>_. True" "\<lambda>s x. x \<in> challenged s" challenged_by for env
  by unfold_locales (use challenged_step in blast)+

text \<open>What a standing approval says of the call that made it.\<close>

definition granted :: "store \<Rightarrow> (string \<times> string \<times> string \<times> int) set" where
  "granted s = (\<lambda>(_, g). (g_session g, g_action g, g_serial g, g_expires g)) ` set (grants s)"

fun granted_by :: "henv \<Rightarrow> hop \<Rightarrow> store \<Rightarrow> string \<times> string \<times> string \<times> int \<Rightarrow> bool" where
  "granted_by env (Grant now gid session action serial minutes max_uses typed secret) s x \<longleftrightarrow>
     pre_approvable action \<and> int_between 1 MAX_GRANT_MINUTES minutes \<and> int_between 1 MAX_GRANT_USES max_uses
     \<and> normalize typed = ''I AUTHORIZE '' @ verb action @ '' '' @ upper (last_chars 6 serial)
         @ '' FOR '' @ str_of_int (the_int minutes) @ '' MINUTES''
     \<and> secret \<noteq> [] \<and> verify_secret env secret
     \<and> x = (session, action, serial, now + the_int minutes * 60)"
| "granted_by env _ s x \<longleftrightarrow> False"

definition granted_in :: "(string \<times> string \<times> string \<times> int) set \<Rightarrow> store \<Rightarrow> bool" where
  "granted_in L s \<longleftrightarrow> granted s \<subseteq> L"

lemma granted_in_keeps [keeps_intros]:
  "keeps (granted_in L) (audit env r)"
  "keeps (granted_in L) (prune env now)"
  "keeps (granted_in L) (act_upd (\<lambda>s. s\<lparr>live := f s\<rparr>))"
  "keeps (granted_in L) (act_upd (\<lambda>s. s\<lparr>pending := p s\<rparr>))"
  "keeps (granted_in L) (act_upd (\<lambda>s. s\<lparr>daily := h s\<rparr>))"
  "keeps (granted_in L) (act_upd (\<lambda>s. s\<lparr>grants := AList.delete k (grants s)\<rparr>))"
  "keeps (granted_in L) (mint env nonce digest kind expires)"
  "keeps (granted_in L) (count_failure cid)"
  using set_delete_subset
  by (fastforce simp: keeps_def granted_in_def granted_def audit_def prune_def prune_state_def mint_def
      count_failure_def Let_def split: option.splits)+

lemma granted_in_add [keeps_intros]:
  assumes "(g_session g, g_action g, g_serial g, g_expires g) \<in> L"
  shows "keeps (granted_in L) (act_upd (\<lambda>s. s\<lparr>grants := AList.update k g (grants s)\<rparr>))"
proof (rule keeps_upd)
  fix s
  assume "granted_in L s"
  then show "granted_in L (s\<lparr>grants := AList.update k g (grants s)\<rparr>)"
    using assms set_update_subset [of k g "grants s"]
    by (fastforce simp: granted_in_def granted_def)
qed

lemma granted_in_refuse [keeps_intros]: "keeps (granted_in L) (refuse env session cid why message)"
  unfolding refuse_def by (intro keeps_intros)

lemma granted_in_prune: "granted_in L s \<Longrightarrow> granted_in L (prune_state env now s)"
  by (auto simp: granted_in_def granted_def prune_state_def)

lemma granted_step:
  assumes "x \<in> granted (snd (hitl_step env op s))"
  shows "x \<in> granted s \<or> granted_by env op s x"
proof -
  define L where "L = {x. granted_by env op s x} \<union> granted s"
  have s: "granted_in L s" by (simp add: granted_in_def L_def)
  note u = granted_in_prune [OF s]
  have "granted_in L (snd (hitl_step env op s))"
  proof (cases op)
    case (Grant now gid session action serial minutes max_uses typed secret)
    show ?thesis
      unfolding Grant hitl_step.simps snd_returning grant_def Let_def
      by (rule keepsD [where P = "granted_in L", OF _ s], intro keeps_intros)
        (auto simp: L_def Grant pre_approvable_def)
  next
    case (FromGrant now nonce session action ps serial)
    have "(g_session g, g_action g, g_serial g, g_expires g) \<in> L" if "(gid, g) \<in> set (grants (prune_state env now s))" for gid g
      using u [of env now] that by (force simp: granted_in_def granted_def)
    then show ?thesis
      unfolding FromGrant hitl_step.simps snd_returning authorization_from_grant_def Let_def prune_get
      by (intro keepsD [where P = "granted_in L", OF _ u] keeps_intros) (auto dest!: find_mem)
  qed (rule keepsD [where P = "granted_in L", OF _ s];
       simp only: hitl_step.simps returning_def challenge_def confirm_def pending_request_def use_authorization_def
         authorization_from_daily_def list_daily_def list_all_daily_def revoke_daily_def revoke_def
         list_grants_def Let_def;
       intro keeps_intros)+
  then show ?thesis using assms by (auto simp: granted_in_def L_def)
qed

interpretation granting: provenance_machine "hitl_step env" "\<lambda>_. True" "\<lambda>s x. x \<in> granted s" "granted_by env" for env
  by unfold_locales (use granted_step in blast)+

text \<open>What a daily authorization says of the confirmation that made it.\<close>

definition authorized :: "store \<Rightarrow> daily_rec set" where
  "authorized s = snd ` set (daily s)"

fun authorized_by :: "henv \<Rightarrow> hop \<Rightarrow> store \<Rightarrow> daily_rec \<Rightarrow> bool" where
  "authorized_by env (Confirm now did nonce session cid typed secret daily_for) s d \<longleftrightarrow>
     (\<exists>r. map_of (pending (prune_state env now s)) cid = Some r
        \<and> p_session r = session \<and> normalize typed = p_phrase r \<and> secret \<noteq> [] \<and> verify_secret env secret
        \<and> p_action r \<notin> set NEVER_PRE_APPROVED \<and> daily_for = Some (d_account d)
        \<and> d_action d = p_action r \<and> d_serial d = p_serial r \<and> d_day d = day_key env now)"
| "authorized_by env _ s d \<longleftrightarrow> False"

definition authorized_in :: "daily_rec set \<Rightarrow> store \<Rightarrow> bool" where
  "authorized_in L s \<longleftrightarrow> authorized s \<subseteq> L"

lemma authorized_in_keeps [keeps_intros]:
  "keeps (authorized_in L) (audit env r)"
  "keeps (authorized_in L) (prune env now)"
  "keeps (authorized_in L) (act_upd (\<lambda>s. s\<lparr>live := f s\<rparr>))"
  "keeps (authorized_in L) (act_upd (\<lambda>s. s\<lparr>pending := p s\<rparr>))"
  "keeps (authorized_in L) (act_upd (\<lambda>s. s\<lparr>grants := g s\<rparr>))"
  "keeps (authorized_in L) (act_upd (\<lambda>s. s\<lparr>daily := AList.delete k (daily s)\<rparr>))"
  "keeps (authorized_in L) (mint env nonce digest kind expires)"
  "keeps (authorized_in L) (count_failure cid)"
  using set_delete_subset
  by (fastforce simp: keeps_def authorized_in_def authorized_def audit_def prune_def prune_state_def mint_def
      count_failure_def Let_def split: option.splits)+

lemma authorized_in_add [keeps_intros]:
  assumes "d \<in> L"
  shows "keeps (authorized_in L) (act_upd (\<lambda>s. s\<lparr>daily := AList.update k d (daily s)\<rparr>))"
proof (rule keeps_upd)
  fix s
  assume "authorized_in L s"
  then show "authorized_in L (s\<lparr>daily := AList.update k d (daily s)\<rparr>)"
    using assms set_update_subset [of k d "daily s"]
    by (fastforce simp: authorized_in_def authorized_def)
qed

lemma authorized_in_refuse [keeps_intros]: "keeps (authorized_in L) (refuse env session cid why message)"
  unfolding refuse_def by (intro keeps_intros)

lemma authorized_in_prune: "authorized_in L s \<Longrightarrow> authorized_in L (prune_state env now s)"
  by (auto simp: authorized_in_def authorized_def prune_state_def)

lemma authorized_step:
  assumes "x \<in> authorized (snd (hitl_step env op s))"
  shows "x \<in> authorized s \<or> authorized_by env op s x"
proof -
  define L where "L = {x. authorized_by env op s x} \<union> authorized s"
  have s: "authorized_in L s" by (simp add: authorized_in_def L_def)
  have "authorized_in L (snd (hitl_step env op s))"
  proof (cases op)
    case (Confirm now did nonce session cid typed secret daily_for)
    show ?thesis
      unfolding Confirm hitl_step.simps snd_returning confirm_def Let_def prune_get
      by (intro keepsD [where P = "authorized_in L", OF _ authorized_in_prune [OF s]] keeps_intros)
        (auto simp: L_def Confirm)
  qed (rule keepsD [where P = "authorized_in L", OF _ s];
       simp only: hitl_step.simps returning_def challenge_def pending_request_def use_authorization_def
         authorization_from_grant_def authorization_from_daily_def grant_def list_daily_def list_all_daily_def
         revoke_daily_def revoke_def list_grants_def Let_def;
       intro keeps_intros)+
  then show ?thesis using assms by (auto simp: authorized_in_def L_def)
qed

interpretation authorizing: provenance_machine "hitl_step env" "\<lambda>_. True" "\<lambda>s d. d \<in> authorized s" "authorized_by env" for env
  by unfold_locales (use authorized_step in blast)+

section \<open>One digest, one request\<close>

fun requests_of :: "hop \<Rightarrow> (string \<times> params \<times> string) list" where
  "requests_of (Challenge now cid session action ps serial summary) = [(action, ps, serial)]"
| "requests_of (FromGrant now nonce session action ps serial) = [(action, ps, serial)]"
| "requests_of (FromDaily now nonce account action ps serial) = [(action, ps, serial)]"
| "requests_of _ = []"

text \<open>
  The requests of a run are JSON values with distinct keys and SHA-256 has no collision
  between their texts.
\<close>

fun request_text :: "string \<times> params \<times> string \<Rightarrow> string" where
  "request_text (a, p, s) = json_dumps compact_sorted (request_blob a p s)"

fun request_ok :: "string \<times> params \<times> string \<Rightarrow> bool" where
  "request_ok (a, p, s) = json_ok (JObj p)"

definition no_collision :: "henv \<Rightarrow> (string \<times> params \<times> string) list \<Rightarrow> bool" where
  "no_collision env rs \<longleftrightarrow> (\<forall>r \<in> set rs. request_ok r) \<and>
     (\<forall>r \<in> set rs. \<forall>r' \<in> set rs. sha256 env (request_text r) = sha256 env (request_text r') \<longrightarrow> request_text r = request_text r')"

text \<open>The same parameters, up to the order of the keys of its dictionaries.\<close>

definition same_params :: "params \<Rightarrow> params \<Rightarrow> bool" where
  "same_params p q \<longleftrightarrow> normal compact_sorted (JObj p) = normal compact_sorted (JObj q)"

lemma sort_request_keys:
  "sort_items [(''a'', x), (''p'', y), (''s'', z)] = [(''a'', x), (''p'', y), (''s'', z)]"
  by (simp add: sort_items_def)

lemma same_digest:
  assumes "no_collision env rs" "(a, p, s) \<in> set rs" "(a', p', s') \<in> set rs"
    and "request_digest env a p s = request_digest env a' p' s'"
  shows "a = a' \<and> same_params p p' \<and> s = s'"
proof -
  have ok: "json_ok (JObj p)" "json_ok (JObj p')"
    using assms(1) bspec [OF _ assms(2)] bspec [OF _ assms(3)] unfolding no_collision_def
    by (metis request_ok.simps)+
  have blob: "json_ok (request_blob b q t)" if "json_ok (JObj q)" for b q t
    using that by (simp add: request_blob_def)
  have "request_text (a, p, s) = request_text (a', p', s')"
    using assms unfolding no_collision_def by (metis request_digest_def request_text.simps)
  then have "normal compact_sorted (request_blob a p s) = normal compact_sorted (request_blob a' p' s')"
    using dumps_inject [OF style_ok_used(1) blob [OF ok(1)] blob [OF ok(2)]] by simp
  then show ?thesis
    by (simp add: request_blob_def same_params_def compact_sorted_def sort_request_keys del: normal_fields_map)
qed

section \<open>What a used authorization rests on\<close>

text \<open>
  In \<open>ops\<close>, the session that asked for exactly this request waited, typed its phrase and
  gave an accepted secret, at most \<open>AUTHORIZATION_USE_WINDOW_S\<close> before \<open>now\<close>.
\<close>

definition confirmed_in_person :: "henv \<Rightarrow> hop list \<Rightarrow> int \<Rightarrow> string \<Rightarrow> params \<Rightarrow> string \<Rightarrow> bool" where
  "confirmed_in_person env ops now action ps serial \<longleftrightarrow>
     (\<exists>pre t did nonce session cid typed secret daily_for post created ps' cid' summary.
        ops = pre @ Confirm t did nonce session cid typed secret daily_for # post
        \<and> Challenge created cid' session action ps' serial summary \<in> set pre \<and> same_params ps ps'
        \<and> min_wait_s env \<le> t - created \<and> t < created + ttl_s env \<and> now < t + AUTHORIZATION_USE_WINDOW_S
        \<and> normalize typed = phrase_for action serial \<and> secret \<noteq> [] \<and> verify_secret env secret)"

text \<open>The session drew on a standing approval that a person gave it for this action and drive.\<close>

definition granted_in_person :: "henv \<Rightarrow> hop list \<Rightarrow> int \<Rightarrow> string \<Rightarrow> params \<Rightarrow> string \<Rightarrow> bool" where
  "granted_in_person env ops now action ps serial \<longleftrightarrow>
     (\<exists>pre t nonce session ps' post t0 gid minutes max_uses typed secret.
        ops = pre @ FromGrant t nonce session action ps' serial # post
        \<and> Grant t0 gid session action serial (JInt minutes) max_uses typed secret \<in> set pre \<and> same_params ps ps'
        \<and> pre_approvable action \<and> minutes \<le> MAX_GRANT_MINUTES \<and> t < t0 + minutes * 60
        \<and> now < t + AUTHORIZATION_USE_WINDOW_S \<and> secret \<noteq> [] \<and> verify_secret env secret)"

text \<open>The account was authorized, the same day, by a confirmation for this action and drive.\<close>

definition daily_in_person :: "henv \<Rightarrow> hop list \<Rightarrow> int \<Rightarrow> string \<Rightarrow> params \<Rightarrow> string \<Rightarrow> bool" where
  "daily_in_person env ops now action ps serial \<longleftrightarrow>
     (\<exists>pre t nonce account ps' post t0 did nonce0 session cid typed secret.
        ops = pre @ FromDaily t nonce account action ps' serial # post
        \<and> Confirm t0 did nonce0 session cid typed secret (Some account) \<in> set pre \<and> same_params ps ps'
        \<and> pre_approvable action \<and> day_key env t = day_key env t0 \<and> now < t + AUTHORIZATION_USE_WINDOW_S
        \<and> normalize typed = phrase_for action serial \<and> secret \<noteq> [] \<and> verify_secret env secret)"

lemma pruned_subset:
  "set (pending (prune_state env now s)) \<subseteq> set (pending s)"
  "set (grants (prune_state env now s)) \<subseteq> set (grants s)"
  "set (daily (prune_state env now s)) \<subseteq> set (daily s)"
  by (auto simp: prune_state_def)

lemma pruned_lookup:
  assumes "map_of (pending (prune_state env now s)) cid = Some r"
  shows "(cid, r) \<in> set (pending s)" "now < p_expires r"
  using map_of_SomeD [OF assms] by (auto simp: prune_state_def)

lemma not_new [simp]:
  "live (new_store i) = []" "challenged (new_store i) = {}" "granted (new_store i) = {}"
  "authorized (new_store i) = {}"
  by (simp_all add: new_store_def challenged_def granted_def authorized_def)

lemma pending_request_known:
  assumes "map_of (pending (prune_state env now (run_ops (hitl_step env) ops (new_store i)))) cid = Some r"
  shows "\<exists>cid' summary. Challenge (p_created r) cid' (p_session r) (p_action r) (p_params r) (p_serial r) summary \<in> set ops"
    and "pending_rec_ok env r"
proof -
  let ?s = "run_ops (hitl_step env) ops (new_store i)"
  have mem: "(cid, r) \<in> set (pending ?s)" by (rule pruned_lookup [OF assms])
  then have "challenge_facts r \<in> challenged ?s" by (force simp: challenged_def)
  then obtain pre op post where o: "ops = pre @ op # post" "challenged_by op (run_ops (hitl_step env) pre (new_store i)) (challenge_facts r)"
    using challenging.origin [where env = env and s = "new_store i"] by fastforce
  then have "\<exists>cid' summary. op = Challenge (p_created r) cid' (p_session r) (p_action r) (p_params r) (p_serial r) summary"
    by (cases op) (auto simp: challenge_facts_def)
  then show "\<exists>cid' summary. Challenge (p_created r) cid' (p_session r) (p_action r) (p_params r) (p_serial r) summary \<in> set ops"
    using o(1) by auto
  show "pending_rec_ok env r"
    using reachable_store_ok [of env ops i] mem unfolding store_ok_def pending_ok_def by blast
qed

lemma confirm_origin:
  assumes m: "minted_by env (Confirm t did nonce session cid typed secret daily_for)
                (run_ops (hitl_step env) pre (new_store i)) a"
    and ops: "ops = pre @ Confirm t did nonce session cid typed secret daily_for # post"
    and d: "auth_digest a = request_digest env action ps serial"
    and c: "no_collision env ((action, ps, serial) # concat (map requests_of ops))"
    and now: "now < auth_expires a"
  shows "confirmed_in_person env ops now action ps serial"
proof -
  obtain r where r: "map_of (pending (prune_state env t (run_ops (hitl_step env) pre (new_store i)))) cid = Some r"
      "p_session r = session" "min_wait_s env \<le> t - p_created r" "normalize typed = p_phrase r"
      "secret \<noteq> []" "verify_secret env secret" "auth_digest a = p_digest r"
      "auth_expires a = t + AUTHORIZATION_USE_WINDOW_S"
    using m by auto
  have ok: "p_digest r = request_digest env (p_action r) (p_params r) (p_serial r)"
      "p_phrase r = phrase_for (p_action r) (p_serial r)" "p_expires r = p_created r + ttl_s env"
    using pending_request_known(2) [OF r(1)] by (simp_all add: pending_rec_ok_def)
  obtain cid' summary where ch: "Challenge (p_created r) cid' session (p_action r) (p_params r) (p_serial r) summary \<in> set pre"
    using pending_request_known(1) [OF r(1)] r(2) by blast
  then have "(p_action r, p_params r, p_serial r) \<in> set ((action, ps, serial) # concat (map requests_of ops))"
    unfolding ops by (simp, intro disjI2 disjI1 bexI [OF _ ch]) simp
  then have same: "action = p_action r \<and> same_params ps (p_params r) \<and> serial = p_serial r"
    using d ok(1) r(7) by (intro same_digest [OF c list.set_intros(1)]) simp_all
  have "t < p_created r + ttl_s env" using pruned_lookup(2) [OF r(1)] ok by simp
  then show ?thesis
    unfolding confirmed_in_person_def using ops ch same r now ok by metis
qed

lemma grant_origin:
  assumes m: "minted_by env (FromGrant t nonce session action' ps' serial') (run_ops (hitl_step env) pre (new_store i)) a"
    and ops: "ops = pre @ FromGrant t nonce session action' ps' serial' # post"
    and d: "auth_digest a = request_digest env action ps serial"
    and c: "no_collision env ((action, ps, serial) # concat (map requests_of ops))"
    and now: "now < auth_expires a"
  shows "granted_in_person env ops now action ps serial"
proof -
  let ?s = "run_ops (hitl_step env) pre (new_store i)"
  have "(action', ps', serial') \<in> set ((action, ps, serial) # concat (map requests_of ops))"
    by (simp add: ops)
  then have same: "action = action' \<and> same_params ps ps' \<and> serial = serial'"
    using d m by (intro same_digest [OF c list.set_intros(1)]) auto
  obtain gid g where g: "(gid, g) \<in> set (grants (prune_state env t ?s))" "g_action g = action'"
      "g_serial g = serial'" "g_session g = session" "auth_expires a = t + AUTHORIZATION_USE_WINDOW_S"
    using m by auto
  then have t: "t < g_expires g" by (auto simp: prune_state_def)
  have "(session, action', serial', g_expires g) \<in> granted ?s"
    using g pruned_subset(2) [of env t ?s] by (force simp: granted_def)
  then obtain pre' op post' where o: "pre = pre' @ op # post'"
      "granted_by env op (run_ops (hitl_step env) pre' (new_store i)) (session, action', serial', g_expires g)"
    using granting.origin [where env = env and s = "new_store i"] by fastforce
  then show ?thesis
  proof (cases op)
    case (Grant t0 gid0 session0 action0 serial0 minutes max_uses typed secret)
    then obtain k where "minutes = JInt k" "k \<le> MAX_GRANT_MINUTES"
      using o(2) by (auto simp: int_between_def split: json.splits)
    then show ?thesis
      using Grant o ops same t g now unfolding granted_in_person_def by fastforce
  qed auto
qed

lemma daily_origin:
  assumes m: "minted_by env (FromDaily t nonce account action' ps' serial') (run_ops (hitl_step env) pre (new_store i)) a"
    and ops: "ops = pre @ FromDaily t nonce account action' ps' serial' # post"
    and d: "auth_digest a = request_digest env action ps serial"
    and c: "no_collision env ((action, ps, serial) # concat (map requests_of ops))"
    and now: "now < auth_expires a"
  shows "daily_in_person env ops now action ps serial"
proof -
  let ?s = "run_ops (hitl_step env) pre (new_store i)"
  have "(action', ps', serial') \<in> set ((action, ps, serial) # concat (map requests_of ops))"
    by (simp add: ops)
  then have same: "action = action' \<and> same_params ps ps' \<and> serial = serial'"
    using d m by (intro same_digest [OF c list.set_intros(1)]) auto
  obtain did e where e: "(did, e) \<in> set (daily (prune_state env t ?s))" "d_action e = action'"
      "d_serial e = serial'" "d_account e = account" "d_day e = day_key env t"
      "auth_expires a = t + AUTHORIZATION_USE_WINDOW_S"
    using m by auto
  then have "e \<in> authorized ?s"
    using pruned_subset(3) [of env t ?s] by (force simp: authorized_def)
  then obtain pre' op post' where o: "pre = pre' @ op # post'"
      "authorized_by env op (run_ops (hitl_step env) pre' (new_store i)) e"
    using authorizing.origin [where env = env and s = "new_store i"] by fastforce
  then show ?thesis
  proof (cases op)
    case (Confirm t0 did0 nonce0 session cid typed secret daily_for)
    then obtain r where r: "map_of (pending (prune_state env t0 (run_ops (hitl_step env) pre' (new_store i)))) cid = Some r"
        "normalize typed = p_phrase r" "secret \<noteq> []" "verify_secret env secret" "p_action r \<notin> set NEVER_PRE_APPROVED"
        "daily_for = Some account" "p_action r = action'" "p_serial r = serial'" "day_key env t = day_key env t0"
      using o(2) e(2-5) unfolding Confirm authorized_by.simps by metis
    then have "pre_approvable action" "normalize typed = phrase_for action serial"
      using pending_request_known(2) [OF r(1)] same by (auto simp: pending_rec_ok_def pre_approvable_def)
    moreover have "Confirm t0 did0 nonce0 session cid typed secret (Some account) \<in> set pre"
      using o(1) Confirm r(6) by simp
    moreover have "ops = pre @ FromDaily t nonce account action ps' serial # post"
      using ops same by simp
    ultimately show ?thesis
      unfolding daily_in_person_def using same now e(6) r(3,4,9) by metis
  qed auto
qed

lemma use_rests_on_a_person:
  assumes used: "fst (use_authorization env now a action ps serial (run_ops (hitl_step env) ops (new_store i))) = Inr ()"
    and c: "no_collision env ((action, ps, serial) # concat (map requests_of ops))"
  shows "confirmed_in_person env ops now action ps serial \<or> granted_in_person env ops now action ps serial
       \<or> daily_in_person env ops now action ps serial"
proof -
  let ?s = "run_ops (hitl_step env) ops (new_store i)"
  have u: "map_of (live ?s) (auth_nonce a) = Some a" "now < auth_expires a"
      "auth_digest a = request_digest env action ps serial"
    using used by (simp_all add: use_ok_iff valid_for_def)
  have "a \<in> snd ` set (live ?s)" using map_of_SomeD [OF u(1)] by force
  then obtain pre op post where o: "ops = pre @ op # post"
      "minted_by env op (run_ops (hitl_step env) pre (new_store i)) a"
    using minting.origin [where env = env and s = "new_store i"] by fastforce
  then show ?thesis
  proof (cases op)
    case Confirm
    then show ?thesis using confirm_origin [OF _ _ u(3) c u(2)] o by blast
  next
    case FromGrant
    then show ?thesis using grant_origin [OF _ _ u(3) c u(2)] o by blast
  next
    case FromDaily
    then show ?thesis using daily_origin [OF _ _ u(3) c u(2)] o by blast
  qed simp_all
qed

lemma require_ok:
  assumes "fst (require env now x action ps serial own h) = Inr ()" "action \<in> set CONFIRMED_ACTIONS"
  shows "\<exists>a. x = Some a \<and> (\<forall>j. own = Some j \<longrightarrow> auth_store a = j)
           \<and> fst (use_authorization env now a action ps serial (h (auth_store a))) = Inr ()"
  using assms by (auto simp: require_def on_store_def owns_def split: option.splits if_splits prod.splits)

section \<open>Properties\<close>

text \<open>
  A process with one confirmation store, a person who confirms a repair, and the drive
  installer's own action, on which the properties are applied below.
\<close>

definition lab_henv :: henv where
  "lab_henv = \<lparr>sha256 = (\<lambda>x. x), hmac_hex = (\<lambda>x. x), day_key = (\<lambda>t. str_of_int (t div 86400)),
     verify_secret = (\<lambda>x. x = ''correct horse''), ttl_s = DEFAULT_TTL_S, min_wait_s = MIN_WAIT_S,
     audit_raises = (\<lambda>_ _. None)\<rparr>"

definition lab_params :: params where
  "lab_params = [(''disk'', JStr ''/dev/sdb''), (''force'', JBool False)]"

definition lab_ops :: "hop list" where
  "lab_ops =
     [Challenge 100 ''c1'' ''s1'' ''build_self_installer'' lab_params ''WD-10AP4E'' ''install'',
      Confirm 104 ''d1'' ''n1'' ''s1'' ''c1'' '' install  10ap4e '' ''correct horse'' None]"

definition lab_auth :: authorization where
  "lab_auth = make_authorization lab_henv 0 0 ''n1'' (request_digest lab_henv ''build_self_installer'' lab_params ''WD-10AP4E'')
     224 ''confirmation''"

text \<open>
  C2. No confirmed action runs unless a person stood behind exactly that request. Whatever
  calls were made on the stores of the process, and whatever object is passed as the
  authorization: if \<open>require\<close> lets a confirmed action through, an authorization was given, and
  the history of the store it names contains, in this order, either a challenge for the same
  action, parameters and drive followed by a confirmation of it by the same session (typed
  phrase and accepted secret, after the minimum wait and before the expiry, at most 120
  seconds before the use); or a standing approval given with an accepted secret to the
  session for this action and drive, still running when it was drawn; or an authorization of the
  account, the same day, by such a confirmation.
\<close>
theorem require_rests_on_a_person:
  assumes "fst (require env now x action ps serial own (\<lambda>j. run_ops (hitl_step env) (hist j) (new_store j))) = Inr ()"
    and "action \<in> set CONFIRMED_ACTIONS"
    and "\<And>j. no_collision env ((action, ps, serial) # concat (map requests_of (hist j)))"
  shows "\<exists>a. x = Some a \<and>
     (confirmed_in_person env (hist (auth_store a)) now action ps serial
      \<or> granted_in_person env (hist (auth_store a)) now action ps serial
      \<or> daily_in_person env (hist (auth_store a)) now action ps serial)"
  using require_ok [OF assms(1,2)] use_rests_on_a_person [OF _ assms(3)] by blast

lemma lab_no_collision:
  "no_collision lab_henv ((''build_self_installer'', lab_params, ''WD-10AP4E'') # concat (map requests_of lab_ops))"
  by code_simp

lemma lab_required:
  "fst (require lab_henv 200 (Some lab_auth) ''build_self_installer'' lab_params ''WD-10AP4E'' (Some 0)
     (\<lambda>j. run_ops (hitl_step lab_henv) lab_ops (new_store j))) = Inr ()"
  by code_simp

theorem require_rests_on_a_person_witness:
  "confirmed_in_person lab_henv lab_ops 200 ''build_self_installer'' lab_params ''WD-10AP4E''
   \<or> granted_in_person lab_henv lab_ops 200 ''build_self_installer'' lab_params ''WD-10AP4E''
   \<or> daily_in_person lab_henv lab_ops 200 ''build_self_installer'' lab_params ''WD-10AP4E''"
  using require_rests_on_a_person [where hist = "\<lambda>_. lab_ops", OF lab_required _ lab_no_collision]
  by (simp add: CONFIRMED_ACTIONS_def VERBS_def)

text \<open>
  C7. The actions that destroy a drive's content or enroll a drive are confirmed each time: no
  standing approval and no daily authorization ever stands behind them.
\<close>
theorem never_pre_approved:
  assumes "fst (use_authorization env now a action ps serial (run_ops (hitl_step env) ops (new_store i))) = Inr ()"
    and "action \<in> set NEVER_PRE_APPROVED"
    and "no_collision env ((action, ps, serial) # concat (map requests_of ops))"
  shows "confirmed_in_person env ops now action ps serial"
  using use_rests_on_a_person [OF assms(1,3)] assms(2)
  by (auto simp: granted_in_person_def daily_in_person_def pre_approvable_def)

lemma lab_used:
  "fst (use_authorization lab_henv 200 lab_auth ''build_self_installer'' lab_params ''WD-10AP4E''
     (run_ops (hitl_step lab_henv) lab_ops (new_store 0))) = Inr ()"
  by code_simp

theorem never_pre_approved_witness:
  "confirmed_in_person lab_henv lab_ops 200 ''build_self_installer'' lab_params ''WD-10AP4E''"
  using never_pre_approved [OF lab_used _ lab_no_collision] by (simp add: NEVER_PRE_APPROVED_def)

text \<open>
  C8. An authorization is used at most once: after a use that let the action through, every later
  use of the same object is refused, whatever calls are made in between (a new
  challenge, a new confirmation, a token drawn twice).
\<close>
theorem authorization_single_use:
  assumes "fst (use_authorization env now a action ps serial (run_ops (hitl_step env) before (new_store i))) = Inr ()"
  shows "fst (use_authorization env now' a action' ps' serial'
           (run_ops (hitl_step env) (before @ Use now a action ps serial # after) (new_store i)))
         = Inl (ConfirmationRequired ''that confirmation was already used or has expired'')"
proof -
  have "spent a (run_ops (hitl_step env) (before @ [Use now a action ps serial]) (new_store i))"
    using use_spends [OF reachable_store_ok assms] by simp
  then have "spent a (run_ops (hitl_step env) (before @ Use now a action ps serial # after) (new_store i))"
    using spent.run_keeps [where ops = after] by fastforce
  then show ?thesis by (simp add: spent_refused)
qed

theorem authorization_single_use_witness:
  "fst (use_authorization lab_henv 201 lab_auth ''build_self_installer'' lab_params ''WD-10AP4E''
     (run_ops (hitl_step lab_henv)
       (lab_ops @ Use 200 lab_auth ''build_self_installer'' lab_params ''WD-10AP4E'' # lab_ops) (new_store 0)))
   = Inl (ConfirmationRequired ''that confirmation was already used or has expired'')"
  by (rule authorization_single_use [OF lab_used])

text \<open>
  C10. In every state a store can reach, whatever is called: at most 20 challenges are pending, each
  was made for a confirmed action, shows the phrase and holds the digest of its own request,
  and has fewer than five failed attempts; a standing approval and a daily authorization never
  cover an action that must be confirmed every time, and an approval has at most five uses left.
\<close>
theorem store_bounds:
  "length (pending (run_ops (hitl_step env) ops (new_store i))) \<le> 20
   \<and> list_all (\<lambda>(_, r). p_failures r < 5 \<and> p_action r \<in> set CONFIRMED_ACTIONS
        \<and> p_phrase r = phrase_for (p_action r) (p_serial r)
        \<and> p_digest r = request_digest env (p_action r) (p_params r) (p_serial r))
       (pending (run_ops (hitl_step env) ops (new_store i)))
   \<and> list_all (\<lambda>(_, g). g_action g \<notin> set NEVER_PRE_APPROVED \<and> 0 \<le> g_uses_left g \<and> g_uses_left g \<le> 5)
       (grants (run_ops (hitl_step env) ops (new_store i)))
   \<and> list_all (\<lambda>(_, d). d_action d \<notin> set NEVER_PRE_APPROVED)
       (daily (run_ops (hitl_step env) ops (new_store i)))"
  using reachable_store_ok [of env ops i]
  unfolding store_ok_def pending_ok_def pending_rec_ok_def grants_ok_def daily_ok_def pre_approvable_def list_all_iff
    MAX_PENDING_def MAX_FAILED_ATTEMPTS_def MAX_GRANT_USES_def
  by (intro conjI ballI) fastforce+

end
