(* ===== verification/PyValue.thy ===== *)
theory PyValue
  imports PyJson
begin

text \<open>
  Values that come from outside as JSON and are used without a type check: their \<open>str\<close> and
  \<open>repr\<close>, \<open>float(value)\<close>, and reading a key. A number is the rational its decimal text
  stands for; \<open>nan\<close>, the infinities and rounding are outside the model.
\<close>

section \<open>\<open>repr\<close> and \<open>str\<close>\<close>

fun json_repr :: "json \<Rightarrow> string"
  and json_reprs :: "json list \<Rightarrow> string list"
  and field_reprs :: "(string \<times> json) list \<Rightarrow> string list" where
  "json_repr JNull = ''None''"
| "json_repr (JBool b) = (if b then ''True'' else ''False'')"
| "json_repr (JInt i) = str_of_int i"
| "json_repr (JFloat x) = x"
| "json_repr (JStr s) = py_repr s"
| "json_repr (JList xs) = ''['' @ join '', '' (json_reprs xs) @ '']''"
| "json_repr (JObj kvs) = ''{'' @ join '', '' (field_reprs kvs) @ ''}''"
| "json_reprs [] = []"
| "json_reprs (x # xs) = json_repr x # json_reprs xs"
| "field_reprs [] = []"
| "field_reprs ((k, v) # kvs) = (py_repr k @ '': '' @ json_repr v) # field_reprs kvs"

definition json_str :: "json \<Rightarrow> string" where
  "json_str v = (case v of JStr s \<Rightarrow> s | _ \<Rightarrow> json_repr v)"

section \<open>Numbers\<close>

definition digits_nat :: "string \<Rightarrow> nat" where
  "digits_nat s = foldl (\<lambda>n c. 10 * n + digit_val c) 0 s"

definition all_digits :: "string \<Rightarrow> bool" where
  "all_digits s \<longleftrightarrow> s \<noteq> [] \<and> list_all is_digit s"

text \<open>An unsigned decimal: digits, a fraction, an exponent.\<close>

definition dec_exp :: "string \<Rightarrow> int option" where
  "dec_exp s =
     (case s of
        [] \<Rightarrow> Some 0
      | e # r \<Rightarrow>
          if e \<noteq> CHR ''e'' \<and> e \<noteq> CHR ''E'' then None
          else case r of
            [] \<Rightarrow> None
          | c # cs \<Rightarrow>
              if c = CHR ''-'' then (if all_digits cs then Some (- int (digits_nat cs)) else None)
              else if c = CHR ''+'' then (if all_digits cs then Some (int (digits_nat cs)) else None)
              else if all_digits r then Some (int (digits_nat r)) else None)"

definition scale10 :: "int \<Rightarrow> rat \<Rightarrow> rat" where
  "scale10 e x = (if e < 0 then x / of_int (10 ^ nat (- e)) else x * of_int (10 ^ nat e))"

definition dec_unsigned :: "string \<Rightarrow> rat option" where
  "dec_unsigned s =
     (let whole = takeWhile is_digit s; r = dropWhile is_digit s;
          frac = (if r \<noteq> [] \<and> hd r = CHR ''.'' then takeWhile is_digit (tl r) else []);
          rest = (if r \<noteq> [] \<and> hd r = CHR ''.'' then dropWhile is_digit (tl r) else r)
      in if whole = [] \<and> frac = [] then None
         else map_option (\<lambda>e. scale10 (e - int (length frac)) (of_nat (digits_nat (whole @ frac)))) (dec_exp rest))"

definition dec_value :: "string \<Rightarrow> rat option" where
  "dec_value text =
     (case strip text of
        [] \<Rightarrow> None
      | c # cs \<Rightarrow> if c = CHR ''-'' then map_option uminus (dec_unsigned cs)
                  else if c = CHR ''+'' then dec_unsigned cs
                  else dec_unsigned (c # cs))"

text \<open>\<open>float(v)\<close>\<close>
definition to_float :: "json \<Rightarrow> exn + rat" where
  "to_float v =
     (case v of
        JInt i \<Rightarrow> Inr (of_int i)
      | JBool b \<Rightarrow> Inr (if b then 1 else 0)
      | JFloat t \<Rightarrow> (case dec_value t of Some q \<Rightarrow> Inr q | None \<Rightarrow> Inl (ValueError t))
      | JStr t \<Rightarrow> (case dec_value t of Some q \<Rightarrow> Inr q
                   | None \<Rightarrow> Inl (ValueError (''could not convert string to float: '' @ py_repr t)))
      | _ \<Rightarrow> Inl (TypeError ''float() argument must be a string or a real number''))"

text \<open>\<open>isinstance(v, (int, float))\<close> (a \<open>bool\<close> is an \<open>int\<close>), and the number such a value is.\<close>

fun is_number :: "json \<Rightarrow> bool" where
  "is_number (JInt i) = True"
| "is_number (JFloat t) = True"
| "is_number (JBool b) = True"
| "is_number _ = False"

definition number_of :: "json \<Rightarrow> rat" where
  "number_of v = (case to_float v of Inr q \<Rightarrow> q | Inl e \<Rightarrow> 0)"

section \<open>Objects\<close>

text \<open>\<open>v[k]\<close> and \<open>v.get(k)\<close> on a value that should be an object.\<close>

definition item :: "json \<Rightarrow> string \<Rightarrow> exn + json" where
  "item v k =
     (case v of
        JObj kvs \<Rightarrow> (case map_of kvs k of Some x \<Rightarrow> Inr x | None \<Rightarrow> Inl (KeyError k))
      | _ \<Rightarrow> Inl (TypeError ''indices must be integers or slices, not str''))"

definition get :: "json \<Rightarrow> string \<Rightarrow> exn + json option" where
  "get v k =
     (case v of
        JObj kvs \<Rightarrow> Inr (map_of kvs k)
      | _ \<Rightarrow> Inl (AttributeError (''object has no attribute '' @ py_repr ''get'')))"

fun is_obj :: "json \<Rightarrow> bool" where
  "is_obj (JObj kvs) = True"
| "is_obj _ = False"

fun obj_fields :: "json \<Rightarrow> (string \<times> json) list" where
  "obj_fields (JObj kvs) = kvs"
| "obj_fields _ = []"

fun is_list :: "json \<Rightarrow> bool" where
  "is_list (JList xs) = True"
| "is_list _ = False"

fun elements :: "json \<Rightarrow> json list" where
  "elements (JList xs) = xs"
| "elements _ = []"

text \<open>\<open>bool(v)\<close> of a JSON value.\<close>
fun truthy :: "json \<Rightarrow> bool" where
  "truthy JNull = False"
| "truthy (JBool b) = b"
| "truthy (JInt i) = (i \<noteq> 0)"
| "truthy (JFloat t) = (dec_value t \<noteq> Some 0)"
| "truthy (JStr s) = (s \<noteq> [])"
| "truthy (JList xs) = (xs \<noteq> [])"
| "truthy (JObj kvs) = (kvs \<noteq> [])"

text \<open>\<open>int(v)\<close> of a JSON value, and the elements \<open>for p in v\<close> gives.\<close>

definition json_int :: "json \<Rightarrow> exn + int" where
  "json_int v =
     (case v of
        JInt i \<Rightarrow> Inr i
      | JBool b \<Rightarrow> Inr (if b then 1 else 0)
      | JFloat t \<Rightarrow> (case dec_value t of
                      Some q \<Rightarrow> Inr (if q < 0 then - \<lfloor>- q\<rfloor> else \<lfloor>q\<rfloor>)
                    | None \<Rightarrow> Inl (ValueError t))
      | JStr t \<Rightarrow> (case py_int t of Some i \<Rightarrow> Inr i | None \<Rightarrow> Inl (ValueError t))
      | _ \<Rightarrow> Inl (TypeError ''int() argument must be a string or a number''))"

definition json_iter :: "json \<Rightarrow> exn + json list" where
  "json_iter v =
     (case v of
        JList xs \<Rightarrow> Inr xs
      | JObj kvs \<Rightarrow> Inr (map (\<lambda>(k, x). JStr k) kvs)
      | JStr t \<Rightarrow> Inr (map (\<lambda>c. JStr [c]) t)
      | _ \<Rightarrow> Inl (TypeError ''object is not iterable''))"

text \<open>\<open>json.loads(content)\<close>; the \<open>JSONDecodeError\<close> it raises is a \<open>ValueError\<close>.\<close>

definition json_parse :: "string \<Rightarrow> exn + json" where
  "json_parse content = (case json_loads content of None \<Rightarrow> Inl (ValueError content) | Some v \<Rightarrow> Inr v)"

text \<open>Python equality of two JSON scalars: numbers are compared by value, a \<open>bool\<close> being a number.\<close>

definition scalar_eq :: "json \<Rightarrow> json \<Rightarrow> bool" where
  "scalar_eq a b \<longleftrightarrow> (if is_number a \<and> is_number b then number_of a = number_of b else a = b)"

section \<open>Joined fields\<close>

text \<open>Fields joined with a character none of them contains are read back one by one.\<close>

lemma split_on_acc_plain: "d \<notin> set x \<Longrightarrow> split_on_acc d cur (x @ d # r) = (cur @ x) # split_on_acc d [] r"
  by (induction x arbitrary: cur) auto

lemma split_on_acc_end: "d \<notin> set x \<Longrightarrow> split_on_acc d cur x = [cur @ x]"
  by (induction x arbitrary: cur) auto

lemma split_on_join: "xs \<noteq> [] \<Longrightarrow> \<forall>x \<in> set xs. d \<notin> set x \<Longrightarrow> split_on d (join [d] xs) = xs"
  by (induction "[d]" xs rule: join.induct)
    (simp_all add: split_on_def split_on_acc_end split_on_acc_plain)

lemma length_split_on_acc: "length (split_on_acc d cur s) = Suc (count_list s d)"
  by (induction s arbitrary: cur) auto

lemma length_split_on: "length (split_on d s) = Suc (count_list s d)"
  by (simp add: split_on_def length_split_on_acc)

lemma count_join:
  "xs \<noteq> [] \<Longrightarrow> count_list (join [d] xs) d = length xs - 1 + sum_list (map (\<lambda>x. count_list x d) xs)"
  by (induction "[d]" xs rule: join.induct) simp_all

lemma join_inject:
  assumes "length xs = length ys" "xs \<noteq> []" "\<forall>x \<in> set xs. d \<notin> set x" "join [d] xs = join [d] ys"
  shows "xs = ys"
proof -
  have ys: "ys \<noteq> []" using assms(1,2) by auto
  have z: "sum_list (map (\<lambda>x. count_list x d) xs) = 0"
    using assms(3) by (induction xs) (simp_all add: count_notin)
  have "sum_list (map (\<lambda>x. count_list x d) ys) = 0"
    using count_join [OF assms(2), of d] count_join [OF ys, of d] assms(1,4) z by simp
  then have "\<forall>y \<in> set ys. d \<notin> set y"
    by (auto simp: count_list_0_iff)
  then show ?thesis
    using split_on_join [OF assms(2,3)] split_on_join [OF ys] assms(4) by simp
qed

lemma split_on_acc_app:
  "split_on_acc d cur (x @ d # r) = split_on_acc d cur x @ split_on_acc d [] r"
  by (induction x arbitrary: cur) auto

lemma split_on_joins: "xs \<noteq> [] \<Longrightarrow> split_on d (join [d] xs) = concat (map (split_on d) xs)"
  by (induction "[d]" xs rule: join.induct) (simp_all add: split_on_def split_on_acc_app)

lemma split_on_plain: "d \<notin> set x \<Longrightarrow> split_on d x = [x]"
  by (simp add: split_on_def split_on_acc_end)

end
