(* ===== verification/WebGate.thy ===== *)
theory WebGate
  imports Hitl PyValue
begin

text \<open>
  \<open>src/baseline/lib/web_gate.py\<close>, with the login sessions of \<open>settings_web.py\<close> it checks.
  An operation runs only with a \<open>WebOrigin\<close>: a record signed with the key of the web
  service for one operation, one set of parameters and two minutes. A schedule is a record
  signed when a logged-in session made it.

  The state is \<open>web\<close>: the session dictionary and the audit log. The gate's key is an
  argument, as are the times read from the clock and the random tokens. \<open>wenv\<close> is what
  is not code of the module: the hex digests of SHA-256 and of HMAC under a key, and whether
  the audit sink raises.
\<close>

section \<open>Login sessions\<close>

record login_session =
  ls_token :: string
  ls_username :: string
  ls_created :: int
  ls_ttl_s :: int
  ls_persona :: "string option"
  ls_role :: string

record web =
  sessions :: "(string \<times> login_session) list"
  web_audit :: "json list"

definition empty_web :: web where
  "empty_web = \<lparr>sessions = [], web_audit = []\<rparr>"

definition session_expired :: "login_session \<Rightarrow> int \<Rightarrow> bool" where
  "session_expired s now \<longleftrightarrow> now > ls_created s + ls_ttl_s s"

definition create_session :: "string \<Rightarrow> string \<Rightarrow> int \<Rightarrow> string option \<Rightarrow> string \<Rightarrow> (web, login_session) act" where
  "create_session token username now persona role = (\<lambda>w.
     let s = \<lparr>ls_token = token, ls_username = username, ls_created = now, ls_ttl_s = 1800, ls_persona = persona,
              ls_role = role\<rparr>
     in (Inr s, w\<lparr>sessions := AList.update token s (sessions w)\<rparr>))"

definition get_session :: "string \<Rightarrow> int \<Rightarrow> (web, login_session option) act" where
  "get_session token now = (\<lambda>w.
     case map_of (sessions w) token of
       None \<Rightarrow> (Inr None, w)
     | Some s \<Rightarrow> if session_expired s now then (Inr None, w\<lparr>sessions := AList.delete token (sessions w)\<rparr>)
                 else (Inr (Some s), w))"

section \<open>Keys, digests and origins\<close>

definition ORIGIN_TTL_S :: int where "ORIGIN_TTL_S = 120"
definition KEY_BYTES :: nat where "KEY_BYTES = 32"
definition BOT_PREFIX :: string where "BOT_PREFIX = ''bot:''"

record wenv =
  w_sha256 :: "string \<Rightarrow> string"
  w_hmac :: "string \<Rightarrow> string \<Rightarrow> string"
  w_audit_raises :: "json list \<Rightarrow> json \<Rightarrow> exn option"

definition op_blob :: "json \<Rightarrow> json \<Rightarrow> json" where
  "op_blob op ps = JObj [(''op'', op), (''p'', ps)]"

definition digest :: "wenv \<Rightarrow> json \<Rightarrow> json \<Rightarrow> string" where
  "digest env op ps = w_sha256 env (json_dumps compact_sorted (op_blob op ps))"

record web_origin =
  wo_kind :: string
  wo_op :: json
  wo_digest :: string
  wo_expires :: int
  wo_mac :: string

text \<open>\<open>derive_key\<close>: HMAC with the root key, under a label for the purpose; here by its hex digest.\<close>
definition derive_key :: "wenv \<Rightarrow> string \<Rightarrow> string \<Rightarrow> string" where
  "derive_key env root_key purpose = w_hmac env root_key (''baseline-key|'' @ purpose)"

text \<open>The key file: its permission bits and its bytes, or no file. \<open>fresh\<close> is what \<open>os.urandom\<close> returns.\<close>
definition load_or_create_key :: "string \<Rightarrow> string \<Rightarrow> ((nat \<times> string) option, string) act" where
  "load_or_create_key path fresh = (\<lambda>f.
     case f of
       Some (mode, key) \<Rightarrow>
         if mode mod 64 \<noteq> 0 then
           (Inl (GateError (path @ '' must be readable by its owner only (mode 0600)'')), f)
         else if length key \<noteq> KEY_BYTES then
           (Inl (GateError (path @ '' does not hold a '' @ str_of_nat KEY_BYTES @ ''-byte key'')), f)
         else (Inr key, f)
     | None \<Rightarrow> (Inr fresh, Some (384, fresh)))"

definition role_permits :: "string \<Rightarrow> string \<Rightarrow> params \<Rightarrow> bool" where
  "role_permits role op ps \<longleftrightarrow>
     (if role \<in> {''admin'', ''operator''} then True
      else if \<not> starts_with role BOT_PREFIX then False
      else let action = drop (length BOT_PREFIX) role
           in op = action \<or> (op = ''drive_action'' \<and> map_of ps ''action_id'' = Some (JStr action)))"

section \<open>The gate\<close>

definition gate_audit :: "wenv \<Rightarrow> (string \<times> json) list \<Rightarrow> (web, unit) act" where
  "gate_audit env r = (\<lambda>w. case w_audit_raises env (web_audit w) (JObj r) of
      Some e \<Rightarrow> (Inl e, w)
    | None \<Rightarrow> (Inr (), w\<lparr>web_audit := web_audit w @ [JObj r]\<rparr>))"

definition new_gate :: "string \<Rightarrow> exn + string" where
  "new_gate key = (if length key \<noteq> KEY_BYTES then Inl (GateError ''the signing key must be 32 bytes'') else Inr key)"

definition gate_mac :: "wenv \<Rightarrow> string \<Rightarrow> string list \<Rightarrow> string" where
  "gate_mac env key parts = w_hmac env key (join ''|'' parts)"

definition origin_parts :: "string \<Rightarrow> json \<Rightarrow> string \<Rightarrow> int \<Rightarrow> string list" where
  "origin_parts kind op d expires = [''origin'', kind, json_str op, d, str_of_int expires]"

definition make_origin :: "wenv \<Rightarrow> string \<Rightarrow> string \<Rightarrow> json \<Rightarrow> json \<Rightarrow> int \<Rightarrow> web_origin" where
  "make_origin env key kind op ps now =
     (let d = digest env op ps; expires = now + ORIGIN_TTL_S
      in \<lparr>wo_kind = kind, wo_op = op, wo_digest = d, wo_expires = expires,
          wo_mac = gate_mac env key (origin_parts kind op d expires)\<rparr>)"

text \<open>\<open>token\<close> is \<open>None\<close> when the value is not text.\<close>
definition require_login ::
  "string option \<Rightarrow> int \<Rightarrow> string option \<Rightarrow> params \<Rightarrow> (web, unit) act" where
  "require_login token now op ps =
     act_bind (if token = None \<or> token = Some [] then act_ret None else get_session (the token) now) (\<lambda>session.
     case session of
       None \<Rightarrow> act_raise (NotFromWebApp ''no logged-in session asked for this'')
     | Some s \<Rightarrow>
         if op \<noteq> None \<and> \<not> role_permits (ls_role s) (the op) ps
         then act_raise (NotFromWebApp (''this login is not authorized for '' @ the op))
         else act_ret ())"

definition origin_for_session ::
  "wenv \<Rightarrow> string \<Rightarrow> string option \<Rightarrow> string \<Rightarrow> params \<Rightarrow> int \<Rightarrow> (web, web_origin) act" where
  "origin_for_session env key token op ps now =
     act_seq (require_login token now (Some op) ps) (
     act_seq (gate_audit env [(''event'', JStr ''operation_requested''), (''op'', JStr op), (''kind'', JStr ''session'')]) (
     act_ret (make_origin env key ''session'' (JStr op) (JObj ps) now)))"

text \<open>The record of a schedule is a JSON value: it is read back from a file that may have been edited.\<close>
definition schedule_mac :: "wenv \<Rightarrow> string \<Rightarrow> json \<Rightarrow> exn + string" where
  "schedule_mac env key r =
     (case item r ''op'' of Inl e \<Rightarrow> Inl e | Inr op \<Rightarrow>
      case item r ''params'' of Inl e \<Rightarrow> Inl e | Inr ps \<Rightarrow>
      case item r ''every_hours'' of Inl e \<Rightarrow> Inl e | Inr every \<Rightarrow>
      case get r ''created'' of Inl e \<Rightarrow> Inl e | Inr created \<Rightarrow>
        Inr (gate_mac env key [''schedule'', json_str op, digest env op ps, json_str every,
               (case created of None \<Rightarrow> ''0'' | Some c \<Rightarrow> json_str c)]))"

definition positive_hours :: "json \<Rightarrow> bool" where
  "positive_hours v =
     (case v of JInt i \<Rightarrow> 0 < i
      | JFloat t \<Rightarrow> (case dec_value t of Some q \<Rightarrow> 0 < q | None \<Rightarrow> False)
      | _ \<Rightarrow> False)"

definition schedule_record :: "string \<Rightarrow> params \<Rightarrow> json \<Rightarrow> int \<Rightarrow> json list \<Rightarrow> json" where
  "schedule_record op ps every created sig =
     JObj ([(''op'', JStr op), (''params'', JObj ps), (''every_hours'', every), (''created'', JInt created)]
           @ map (\<lambda>s. (''sig'', s)) sig)"

definition sign_schedule ::
  "wenv \<Rightarrow> string \<Rightarrow> string option \<Rightarrow> string \<Rightarrow> params \<Rightarrow> json \<Rightarrow> int \<Rightarrow> (web, json) act" where
  "sign_schedule env key token op ps every now =
     act_seq (require_login token now (Some op) ps) (
     if op \<in> set CONFIRMED_ACTIONS then
       act_raise (ValueError (op @ '' is confirmed by a person every time and can never be scheduled''))
     else if \<not> positive_hours every then
       act_raise (ValueError ''a schedule needs a positive number of hours'')
     else
       act_bind (act_lift (schedule_mac env key (schedule_record op ps every now []))) (\<lambda>sig.
       act_ret (schedule_record op ps every now [JStr sig])))"

definition origin_for_schedule :: "wenv \<Rightarrow> string \<Rightarrow> json \<Rightarrow> int \<Rightarrow> (web, web_origin) act" where
  "origin_for_schedule env key r now =
     act_bind (act_lift (get r ''sig'')) (\<lambda>sig.
     act_bind (act_lift (case schedule_mac env key r of
         Inr m \<Rightarrow> Inr ((case sig of None \<Rightarrow> [] | Some v \<Rightarrow> json_str v) = m)
       | Inl (KeyError k) \<Rightarrow> Inr False
       | Inl (TypeError k) \<Rightarrow> Inr False
       | Inl e \<Rightarrow> Inl e)) (\<lambda>ok.
     if \<not> ok then act_raise (NotFromWebApp ''that schedule was not created through the web application'')
     else
       act_bind (act_lift (item r ''op'')) (\<lambda>op.
       act_seq (gate_audit env [(''event'', JStr ''operation_requested''), (''op'', op), (''kind'', JStr ''schedule'')]) (
       act_bind (act_lift (item r ''params'')) (\<lambda>ps.
       act_ret (make_origin env key ''schedule'' op ps now))))))"

text \<open>\<open>_check\<close>, then \<open>check\<close>, which records a refusal and raises it again.\<close>
definition check_origin ::
  "wenv \<Rightarrow> string \<Rightarrow> int \<Rightarrow> web_origin option \<Rightarrow> string \<Rightarrow> params \<Rightarrow> exn + unit" where
  "check_origin env key now x op ps =
     (case x of
        None \<Rightarrow> Inl (NotFromWebApp (op @ '' runs only when the web application asks for it''))
      | Some y \<Rightarrow>
          if wo_mac y \<noteq> gate_mac env key (origin_parts (wo_kind y) (wo_op y) (wo_digest y) (wo_expires y)) then
            Inl (NotFromWebApp ''that request was not signed by the web application'')
          else if wo_expires y \<le> now then Inl (NotFromWebApp ''that request has expired'')
          else if wo_op y \<noteq> JStr op \<or> wo_digest y \<noteq> digest env (JStr op) (JObj ps) then
            Inl (NotFromWebApp ''that request is for a different operation'')
          else Inr ())"

definition check ::
  "wenv \<Rightarrow> string \<Rightarrow> int \<Rightarrow> web_origin option \<Rightarrow> string \<Rightarrow> params \<Rightarrow> (web, unit) act" where
  "check env key now x op ps =
     act_catch (act_lift (check_origin env key now x op ps)) (\<lambda>e.
       case e of
         NotFromWebApp why \<Rightarrow>
           act_seq (gate_audit env [(''event'', JStr ''operation_refused''), (''op'', JStr op), (''why'', JStr why)])
             (act_raise e)
       | _ \<Rightarrow> act_raise e)"

text \<open>\<open>require\<close>: \<open>active\<close> is the key of the gate \<open>configure\<close> installed in the process, if any.\<close>
definition require_origin ::
  "wenv \<Rightarrow> string option \<Rightarrow> int \<Rightarrow> web_origin option \<Rightarrow> string \<Rightarrow> params \<Rightarrow> (web, unit) act" where
  "require_origin env active now x op ps =
     (case active of
        None \<Rightarrow> act_raise (NotFromWebApp
          (op @ '' runs only through the web application, and none is running in this process''))
      | Some key \<Rightarrow> check env key now x op ps)"

section \<open>What passing means\<close>

lemma check_ok_iff:
  "fst (check env key now x op ps w) = Inr () \<longleftrightarrow>
     (\<exists>y. x = Some y \<and> wo_mac y = gate_mac env key (origin_parts (wo_kind y) (wo_op y) (wo_digest y) (wo_expires y))
        \<and> now < wo_expires y \<and> wo_op y = JStr op \<and> wo_digest y = digest env (JStr op) (JObj ps))"
  by (auto simp: check_def check_origin_def act_catch_eq act_seq_fst_Inr split: option.splits)

lemma require_login_ok:
  assumes "fst (require_login token now (Some op) ps w) = Inr ()"
  shows "\<exists>t s. token = Some t \<and> map_of (sessions w) t = Some s \<and> now \<le> ls_created s + ls_ttl_s s \<and> role_permits (ls_role s) op ps"
  using assms
  by (auto simp: require_login_def get_session_def session_expired_def act_bind_def split: option.splits if_splits)

lemma origin_for_session_ok:
  assumes "fst (origin_for_session env key token op ps now w) = Inr y"
  shows "\<exists>t s. token = Some t \<and> map_of (sessions w) t = Some s \<and> now \<le> ls_created s + ls_ttl_s s
           \<and> role_permits (ls_role s) op ps"
    and "y = make_origin env key ''session'' (JStr op) (JObj ps) now"
  using assms require_login_ok [of token now op ps w]
  by (auto simp: origin_for_session_def act_seq_fst_Inr)

text \<open>HMAC under the key, and SHA-256, have no collision on two given texts.\<close>

definition distinct_macs :: "wenv \<Rightarrow> string \<Rightarrow> string \<Rightarrow> string \<Rightarrow> bool" where
  "distinct_macs env key m n \<longleftrightarrow> (w_hmac env key m = w_hmac env key n \<longrightarrow> m = n)"

definition distinct_digests :: "wenv \<Rightarrow> json \<Rightarrow> json \<Rightarrow> bool" where
  "distinct_digests env j k \<longleftrightarrow>
     json_ok j \<and> json_ok k \<and>
     (w_sha256 env (json_dumps compact_sorted j) = w_sha256 env (json_dumps compact_sorted k) \<longrightarrow>
      json_dumps compact_sorted j = json_dumps compact_sorted k)"

lemma sort_op_keys: "sort_items [(''op'', x), (''p'', y)] = [(''op'', x), (''p'', y)]"
  by (simp add: sort_items_def)

lemma digest_eqD:
  assumes "distinct_digests env (op_blob op ps) (op_blob op' ps')" "digest env op ps = digest env op' ps'"
  shows "normal compact_sorted op = normal compact_sorted op'"
    and "normal compact_sorted ps = normal compact_sorted ps'"
proof -
  have "normal compact_sorted (op_blob op ps) = normal compact_sorted (op_blob op' ps')"
    using dumps_inject [OF style_ok_used(1)] assms by (simp add: distinct_digests_def digest_def)
  then show "normal compact_sorted op = normal compact_sorted op'" "normal compact_sorted ps = normal compact_sorted ps'"
    by (simp_all add: op_blob_def compact_sorted_def sort_op_keys del: normal_fields_map)
qed

text \<open>The digests are hexadecimal, so the separator of the signed fields does not occur in them.\<close>

definition hex_digests :: "wenv \<Rightarrow> bool" where
  "hex_digests env \<longleftrightarrow> (\<forall>x. CHR ''|'' \<notin> set (w_sha256 env x))"

lemma plain_fields: "hex_digests env \<Longrightarrow> CHR ''|'' \<notin> set (digest env op ps)" "CHR ''|'' \<notin> set (str_of_int i)"
proof -
  show "hex_digests env \<Longrightarrow> CHR ''|'' \<notin> set (digest env op ps)" by (simp add: hex_digests_def digest_def)
  have "\<not> is_digit (CHR ''|'')" by code_simp
  then show "CHR ''|'' \<notin> set (str_of_int i)" using str_of_nat_digits by (auto simp: str_of_int_def)
qed

lemma make_origin_simps [simp]:
  "wo_op (make_origin env key kind op ps t) = op"
  "wo_digest (make_origin env key kind op ps t) = digest env op ps"
  "wo_expires (make_origin env key kind op ps t) = t + ORIGIN_TTL_S"
  "wo_mac (make_origin env key kind op ps t) =
     gate_mac env key (origin_parts kind op (digest env op ps) (t + ORIGIN_TTL_S))"
  by (simp_all add: make_origin_def Let_def)

lemma str_of_nat_inject: "str_of_nat m = str_of_nat n \<Longrightarrow> m = n"
  by (metis digits_value_str_of_nat of_nat_eq_iff option.inject)

lemma str_of_int_inject: "str_of_int i = str_of_int j \<Longrightarrow> i = j"
proof -
  assume e: "str_of_int i = str_of_int j"
  have m: "str_of_nat n \<noteq> CHR ''-'' # x" for n x
    using str_of_nat_head [of n] minus_not_digit by (metis list.inject)
  consider "i < 0" "j < 0" | "0 \<le> i" "0 \<le> j" | "i < 0" "0 \<le> j" | "0 \<le> i" "j < 0" by linarith
  then show "i = j"
  proof cases
    case 1
    then have "str_of_nat (nat (- i)) = str_of_nat (nat (- j))" using e by (simp add: str_of_int_def)
    then show ?thesis using 1 str_of_nat_inject by fastforce
  next
    case 2
    then have "str_of_nat (nat i) = str_of_nat (nat j)" using e by (simp add: str_of_int_def)
    then show ?thesis using 2 str_of_nat_inject by fastforce
  next
    case 3
    then show ?thesis using e m [of "nat j"] by (simp add: str_of_int_def) metis
  next
    case 4
    then show ?thesis using e m [of "nat i"] by (simp add: str_of_int_def)
  qed
qed

lemmas split_on_joins_Cons = split_on_joins [OF list.distinct(2)]

lemma origin_parts_eqD:
  assumes "join ''|'' (origin_parts k a d e) = join ''|'' (origin_parts k' a' d' e')"
    and "CHR ''|'' \<notin> set d" "CHR ''|'' \<notin> set d'"
  shows "d = d' \<and> e = e'"
proof -
  let ?s = "split_on (CHR ''|'')"
  have "?s (join ''|'' (origin_parts k a d e)) = ?s (join ''|'' (origin_parts k' a' d' e'))"
    using assms(1) by simp
  then have "(?s ''origin'' @ ?s k @ ?s (json_str a)) @ [d, str_of_int e] = (?s ''origin'' @ ?s k' @ ?s (json_str a')) @ [d', str_of_int e']"
    using assms(2,3) unfolding origin_parts_def split_on_joins_Cons
    by (simp del: append_Cons add: split_on_plain plain_fields(2))
  from arg_cong [OF this, of rev] show ?thesis
    by (simp add: str_of_int_inject)
qed

section \<open>Signed schedules\<close>

lemma json_str_simps [simp]: "json_str (JStr s) = s" "json_str (JInt i) = str_of_int i"
  by (simp_all add: json_str_def)

text \<open>The text a schedule is signed over, for a record that has all the fields.\<close>

definition schedule_parts :: "wenv \<Rightarrow> json \<Rightarrow> string list" where
  "schedule_parts env r =
     (let f = (\<lambda>k. the (map_of (obj_fields r) k))
      in [''schedule'', json_str (f ''op''), digest env (f ''op'') (f ''params''), json_str (f ''every_hours''),
          (case map_of (obj_fields r) ''created'' of None \<Rightarrow> ''0'' | Some c \<Rightarrow> json_str c)])"

lemma schedule_mac_ok:
  assumes "schedule_mac env key r = Inr m"
  shows "m = gate_mac env key (schedule_parts env r)"
    and "\<exists>op ps every. map_of (obj_fields r) ''op'' = Some op \<and> map_of (obj_fields r) ''params'' = Some ps
           \<and> map_of (obj_fields r) ''every_hours'' = Some every"
  using assms
  by (auto simp: schedule_mac_def item_def get_def schedule_parts_def Let_def split: json.splits sum.splits option.splits)

lemma schedule_record_fields [simp]:
  "map_of (obj_fields (schedule_record op ps every t sig)) ''op'' = Some (JStr op)"
  "map_of (obj_fields (schedule_record op ps every t sig)) ''params'' = Some (JObj ps)"
  "map_of (obj_fields (schedule_record op ps every t sig)) ''every_hours'' = Some every"
  "map_of (obj_fields (schedule_record op ps every t sig)) ''created'' = Some (JInt t)"
  "map_of (obj_fields (schedule_record op ps every t [])) ''sig'' = None"
  "map_of (obj_fields (schedule_record op ps every t [v])) ''sig'' = Some v"
  by (simp_all add: schedule_record_def)

lemma schedule_parts_record:
  "schedule_parts env (schedule_record op ps every t sig) =
     [''schedule'', op, digest env (JStr op) (JObj ps), json_str every, str_of_int t]"
  by (simp add: schedule_parts_def Let_def)

lemma sign_schedule_ok:
  assumes "fst (sign_schedule env key token op ps every t w) = Inr r"
  shows "r = schedule_record op ps every t
           [JStr (gate_mac env key (schedule_parts env (schedule_record op ps every t [])))]"
    and "op \<notin> set CONFIRMED_ACTIONS" and "positive_hours every"
    and "\<exists>tok s. token = Some tok \<and> map_of (sessions w) tok = Some s \<and> t \<le> ls_created s + ls_ttl_s s
           \<and> role_permits (ls_role s) op ps"
  using assms require_login_ok [of token t op ps w]
  by (auto simp: sign_schedule_def act_seq_fst_Inr act_bind_fst_Inr dest: schedule_mac_ok split: if_splits)

lemma origin_for_schedule_ok:
  assumes "fst (origin_for_schedule env key r now w) = Inr y"
  shows "\<exists>op ps every. map_of (obj_fields r) ''op'' = Some op \<and> map_of (obj_fields r) ''params'' = Some ps
           \<and> map_of (obj_fields r) ''every_hours'' = Some every \<and> y = make_origin env key ''schedule'' op ps now"
    and "(case map_of (obj_fields r) ''sig'' of None \<Rightarrow> [] | Some v \<Rightarrow> json_str v) = gate_mac env key (schedule_parts env r)"
proof -
  obtain kvs where kvs: "r = JObj kvs"
    using assms by (auto simp: origin_for_schedule_def act_bind_fst_Inr get_def split: json.splits)
  from assms obtain m where m: "schedule_mac env key r = Inr m"
      "(case map_of kvs ''sig'' of None \<Rightarrow> [] | Some v \<Rightarrow> json_str v) = m"
    and y: "\<exists>op ps. map_of kvs ''op'' = Some op \<and> map_of kvs ''params'' = Some ps \<and> y = make_origin env key ''schedule'' op ps now"
    by (auto simp: kvs origin_for_schedule_def act_bind_fst_Inr act_seq_fst_Inr get_def item_def
        split: sum.splits exn.splits option.splits if_splits)
  show "(case map_of (obj_fields r) ''sig'' of None \<Rightarrow> [] | Some v \<Rightarrow> json_str v) = gate_mac env key (schedule_parts env r)"
    using m schedule_mac_ok(1) [OF m(1)] by (simp add: kvs)
  show "\<exists>op ps every. map_of (obj_fields r) ''op'' = Some op \<and> map_of (obj_fields r) ''params'' = Some ps
           \<and> map_of (obj_fields r) ''every_hours'' = Some every \<and> y = make_origin env key ''schedule'' op ps now"
    using schedule_mac_ok(2) [OF m(1)] y by (auto simp: kvs)
qed

lemma item_record [simp]:
  "item (schedule_record op ps every t sig) ''op'' = Inr (JStr op)"
  "item (schedule_record op ps every t sig) ''params'' = Inr (JObj ps)"
  "item (schedule_record op ps every t sig) ''every_hours'' = Inr every"
  "get (schedule_record op ps every t sig) ''created'' = Inr (Some (JInt t))"
  "get (schedule_record op ps every t [v]) ''sig'' = Inr (Some v)"
  by (simp_all add: item_def get_def schedule_record_def)

lemma schedule_mac_record [simp]:
  "schedule_mac env key (schedule_record op ps every t sig) =
     Inr (gate_mac env key [''schedule'', op, digest env (JStr op) (JObj ps), json_str every, str_of_int t])"
  by (simp add: schedule_mac_def)

text \<open>A record the gate signed passes, at any later time, when the audit log takes the entry.\<close>

lemma signed_schedule_passes:
  assumes "fst (sign_schedule env key token op ps every t w) = Inr r"
    and "\<And>log j. w_audit_raises env log j = None"
  shows "fst (origin_for_schedule env key r now w') = Inr (make_origin env key ''schedule'' (JStr op) (JObj ps) now)"
  using assms(2)
  by (simp add: sign_schedule_ok(1) [OF assms(1)] schedule_parts_record origin_for_schedule_def act_bind_fst_Inr
      act_seq_fst_Inr gate_audit_def)

section \<open>Properties\<close>

definition lab_wenv :: wenv where
  "lab_wenv = \<lparr>w_sha256 = (\<lambda>x. filter (\<lambda>c. c \<noteq> CHR ''|'') x), w_hmac = (\<lambda>k m. k @ m), w_audit_raises = (\<lambda>_ _. None)\<rparr>"

definition lab_key :: string where
  "lab_key = replicate 32 (CHR ''k'')"

definition lab_web :: web where
  "lab_web = snd (create_session ''tok'' ''ada'' 1000 None ''bot:backup_verify'' empty_web)"

definition lab_origin :: web_origin where
  "lab_origin = make_origin lab_wenv lab_key ''session'' (JStr ''backup_verify'') (JObj [(''deep'', JBool True)]) 1010"

text \<open>
  C11. A proof is good for one request only. Let a session have been given a proof for an
  operation with some parameters, and let any object that carries that proof's signature be
  presented for an operation: if it is let through, a gate is running in the process, the operation
  and the parameters are the ones the session asked for (up to key order), no more than two minutes
  have passed, and the session was logged in then with a role that permits that operation.
\<close>
theorem proof_is_for_one_request:
  assumes asked: "fst (origin_for_session env key token op\<^sub>0 ps\<^sub>0 t w) = Inr y"
    and passed: "fst (require_origin env (Some key) now (Some x) op ps w') = Inr ()"
    and mac: "wo_mac x = wo_mac y"
    and hmac: "distinct_macs env key (join ''|'' (origin_parts (wo_kind x) (wo_op x) (wo_digest x) (wo_expires x)))
                 (join ''|'' (origin_parts (wo_kind y) (wo_op y) (wo_digest y) (wo_expires y)))"
    and sha: "distinct_digests env (op_blob (JStr op) (JObj ps)) (op_blob (JStr op\<^sub>0) (JObj ps\<^sub>0))" "hex_digests env"
  shows "op = op\<^sub>0 \<and> same_params ps ps\<^sub>0 \<and> now < t + 120
       \<and> (\<exists>tok s. token = Some tok \<and> map_of (sessions w) tok = Some s \<and> t \<le> ls_created s + ls_ttl_s s
            \<and> role_permits (ls_role s) op\<^sub>0 ps\<^sub>0)"
proof -
  note y = origin_for_session_ok [OF asked]
  have x: "wo_mac x = gate_mac env key (origin_parts (wo_kind x) (wo_op x) (wo_digest x) (wo_expires x))"
      "now < wo_expires x" "wo_digest x = digest env (JStr op) (JObj ps)"
    using passed by (simp_all add: require_origin_def check_ok_iff)
  have "wo_kind y = ''session''" by (simp add: y(2) make_origin_def Let_def)
  then have "join ''|'' (origin_parts (wo_kind x) (wo_op x) (wo_digest x) (wo_expires x))
      = join ''|'' (origin_parts (wo_kind y) (wo_op y) (wo_digest y) (wo_expires y))"
    using hmac mac x(1) by (simp add: distinct_macs_def gate_mac_def y(2))
  then have "wo_digest x = wo_digest y \<and> wo_expires x = wo_expires y"
    by (rule origin_parts_eqD) (simp_all add: x(3) y(2) plain_fields(1) [OF sha(2)])
  then have "digest env (JStr op) (JObj ps) = digest env (JStr op\<^sub>0) (JObj ps\<^sub>0)" "now < t + 120"
    using x y(2) by (simp_all add: ORIGIN_TTL_S_def)
  then show ?thesis
    using digest_eqD [OF sha(1)] y(1) by (simp add: same_params_def)
qed

theorem proof_is_for_one_request_witness:
  "''backup_verify'' = ''backup_verify'' \<and> same_params [(''deep'', JBool True)] [(''deep'', JBool True)] \<and> (1100 :: int) < 1010 + 120
   \<and> (\<exists>tok s. Some ''tok'' = Some tok \<and> map_of (sessions lab_web) tok = Some s \<and> 1010 \<le> ls_created s + ls_ttl_s s
        \<and> role_permits (ls_role s) ''backup_verify'' [(''deep'', JBool True)])"
proof (rule proof_is_for_one_request [where env = lab_wenv and key = lab_key and x = lab_origin and y = lab_origin and w' = lab_web])
  show "fst (origin_for_session lab_wenv lab_key (Some ''tok'') ''backup_verify'' [(''deep'', JBool True)] 1010 lab_web) = Inr lab_origin"
    by code_simp
  show "fst (require_origin lab_wenv (Some lab_key) 1100 (Some lab_origin) ''backup_verify'' [(''deep'', JBool True)] lab_web) = Inr ()"
    by code_simp
  show "hex_digests lab_wenv" by (simp add: hex_digests_def lab_wenv_def)
qed (simp_all add: distinct_macs_def distinct_digests_def op_blob_def)

text \<open>
  What the gate gives out, it accepts: the proof made for a session passes for the same operation and
  parameters for two minutes, in any later state of the service.
\<close>
theorem proof_is_accepted:
  assumes "fst (origin_for_session env key token op ps t w) = Inr y" and "now < t + 120"
  shows "fst (require_origin env (Some key) now (Some y) op ps w') = Inr ()"
proof -
  note y = origin_for_session_ok(2) [OF assms(1)]
  have "wo_kind y = ''session''" by (simp add: y make_origin_def Let_def)
  then show ?thesis
    using assms(2) by (simp add: require_origin_def check_ok_iff y ORIGIN_TTL_S_def)
qed

theorem proof_is_accepted_witness:
  "fst (require_origin lab_wenv (Some lab_key) 1129 (Some lab_origin) ''backup_verify'' [(''deep'', JBool True)] empty_web) = Inr ()"
  by (rule proof_is_accepted [where token = "Some ''tok''" and t = 1010 and w = lab_web]) (code_simp, simp)

text \<open>
  C12. A schedule that was edited runs nothing else. Let a record have been signed, and let any JSON value
  that carries its signature be offered as a schedule: if an origin is made for it, it asks for the
  operation and parameters that were signed, at the interval that was signed; the operation is none that a
  person must confirm, and a logged-in session whose role permits it asked for it.
\<close>
theorem schedule_is_what_was_signed:
  assumes signed: "fst (sign_schedule env key token op ps every t w) = Inr r\<^sub>0"
    and run: "fst (origin_for_schedule env key r now w') = Inr y"
    and sig: "map_of (obj_fields r) ''sig'' = map_of (obj_fields r\<^sub>0) ''sig''"
    and hmac: "distinct_macs env key (join ''|'' (schedule_parts env r)) (join ''|'' (schedule_parts env r\<^sub>0))"
    and sha: "distinct_digests env (op_blob (the (map_of (obj_fields r) ''op'')) (the (map_of (obj_fields r) ''params'')))
                (op_blob (JStr op) (JObj ps))" "hex_digests env"
    and plain: "CHR ''|'' \<notin> set op" "CHR ''|'' \<notin> set (json_str every)"
  shows "map_of (obj_fields r) ''op'' = Some (JStr op)
       \<and> wo_op y = JStr op \<and> wo_digest y = digest env (JStr op) (JObj ps)
       \<and> map_option json_str (map_of (obj_fields r) ''every_hours'') = Some (json_str every)
       \<and> op \<notin> set CONFIRMED_ACTIONS
       \<and> (\<exists>tok s. token = Some tok \<and> map_of (sessions w) tok = Some s \<and> t \<le> ls_created s + ls_ttl_s s
            \<and> role_permits (ls_role s) op ps)"
proof -
  note r0 = sign_schedule_ok [OF signed]
  obtain op' ps' every' where f: "map_of (obj_fields r) ''op'' = Some op'" "map_of (obj_fields r) ''params'' = Some ps'"
      "map_of (obj_fields r) ''every_hours'' = Some every'" "y = make_origin env key ''schedule'' op' ps' now"
    using origin_for_schedule_ok(1) [OF run] by blast
  have "gate_mac env key (schedule_parts env r) = gate_mac env key (schedule_parts env r\<^sub>0)"
    using origin_for_schedule_ok(2) [OF run] sig by (simp add: r0(1) schedule_parts_record)
  then have j: "join ''|'' (schedule_parts env r\<^sub>0) = join ''|'' (schedule_parts env r)"
    using hmac by (simp add: distinct_macs_def gate_mac_def)
  have "schedule_parts env r\<^sub>0 = schedule_parts env r"
  proof (rule join_inject [OF _ _ _ j])
    show "\<forall>x \<in> set (schedule_parts env r\<^sub>0). CHR ''|'' \<notin> set x"
      using plain by (simp add: r0(1) schedule_parts_record plain_fields(2) plain_fields(1) [OF sha(2)])
  qed (simp_all add: schedule_parts_def Let_def)
  then have e: "json_str op' = op" "digest env op' ps' = digest env (JStr op) (JObj ps)" "json_str every' = json_str every"
    using f unfolding r0(1) schedule_parts_record by (auto simp: schedule_parts_def Let_def)
  have "normal compact_sorted op' = JStr op"
    using digest_eqD(1) [OF sha(1)] e(2) f by simp
  then have "op' = JStr op" by (cases op') simp_all
  then show ?thesis using f e r0 by simp
qed

definition lab_schedule :: json where
  "lab_schedule = schedule_record ''backup_verify'' [] (JInt 24) 1005
     [JStr (gate_mac lab_wenv lab_key (schedule_parts lab_wenv (schedule_record ''backup_verify'' [] (JInt 24) 1005 [])))]"

theorem schedule_is_what_was_signed_witness:
  "wo_op (make_origin lab_wenv lab_key ''schedule'' (JStr ''backup_verify'') (JObj []) 5000) = JStr ''backup_verify''
   \<and> ''backup_verify'' \<notin> set CONFIRMED_ACTIONS"
proof -
  have s: "fst (sign_schedule lab_wenv lab_key (Some ''tok'') ''backup_verify'' [] (JInt 24) 1005 lab_web) = Inr lab_schedule"
    by code_simp
  have o: "fst (origin_for_schedule lab_wenv lab_key lab_schedule 5000 empty_web)
      = Inr (make_origin lab_wenv lab_key ''schedule'' (JStr ''backup_verify'') (JObj []) 5000)"
    by (rule signed_schedule_passes [OF s]) (simp add: lab_wenv_def)
  have h: "hex_digests lab_wenv" by (simp add: hex_digests_def lab_wenv_def)
  have p: "CHR ''|'' \<notin> set ''backup_verify''" "CHR ''|'' \<notin> set (json_str (JInt 24))"
    by code_simp+
  show ?thesis
    using schedule_is_what_was_signed [OF s o refl _ _ h p]
    by (simp add: distinct_macs_def distinct_digests_def op_blob_def lab_schedule_def del: json_str_simps)
qed

end
