(* ===== verification/Operations.thy ===== *)
theory Operations
  imports WebGate
begin

text \<open>
  \<open>src/baseline/lib/operations.py\<close>: which operations the web application can run, who may reach
  which route, the check of parameters, and the scheduler over \<open>schedules.json\<close>.

  The state \<open>sched\<close> holds the gate's state, the text of \<open>schedules.json\<close> (or no file), the runs the
  scheduler has started, and the rest of the machine. The callback \<open>run\<close> that executes an
  operation, and whether the file can be written, are parameters (\<open>senv\<close>). The body of an
  operation is the argument of \<open>execute\<close>.
\<close>

definition MAX_SCHEDULES :: nat where "MAX_SCHEDULES = 20"

definition OPERATOR_PATHS :: "string list" where
  "OPERATOR_PATHS = [''/operations'', ''/drive-admin/job-log'', ''/logout'']"

definition operator_may_reach :: "string \<Rightarrow> bool" where
  "operator_may_reach path \<longleftrightarrow> list_ex (\<lambda>p. path = p \<or> starts_with path (p @ ''/'')) OPERATOR_PATHS"

definition BOT_OPERATION_PATHS :: "string list" where
  "BOT_OPERATION_PATHS = [''/operations'', ''/operations/run'', ''/operations/schedule'', ''/operations/schedule/remove'',
     ''/drive-admin/job-log'', ''/logout'']"

definition BOT_DRIVE_PATHS :: "string list" where
  "BOT_DRIVE_PATHS = [''/drive-admin'', ''/drive-admin/action'', ''/drive-admin/confirm'', ''/drive-admin/actions'',
     ''/drive-admin/job-log'', ''/logout'']"

section \<open>The operations\<close>

record operation =
  op_id :: string
  op_description :: string
  op_params :: "(string \<times> bool) list"
  op_schedulable :: bool

definition mk_op :: "string \<Rightarrow> string \<Rightarrow> (string \<times> bool) list \<Rightarrow> bool \<Rightarrow> string \<times> operation" where
  "mk_op i d ps b = (i, \<lparr>op_id = i, op_description = d, op_params = ps, op_schedulable = b\<rparr>)"

definition OPERATIONS :: "(string \<times> operation) list" where
  "OPERATIONS =
     [mk_op ''backup_offdrive''
        (''Add a verified, compressed backup set of everything on the SK hynix drives to the separate backup drive. '' @
         ''Only ever adds files; deletes and overwrites nothing. `dry_run` checks and reports without writing; '' @
         ''`force` skips the minimum interval between backups.'')
        [(''dry_run'', False), (''force'', False)] True,
      mk_op ''backup_guests''
        (''Add a new set holding a vzdump backup of each Proxmox VM and container that has a disk on the PC601's '' @
         ''local-lvm (guests kept on the installer cache are already covered by the volume backup). Only ever adds '' @
         ''files; deletes and overwrites nothing. `dry_run` lists what would be dumped without writing.'')
        [(''dry_run'', False)] True,
      mk_op ''backup_verify''
        (''Check the newest backup set on the backup drive: every archive against its checksum, and that '' @
         ''changes-only sets still have the earlier sets they depend on. Read-only.'')
        [] True,
      mk_op ''backup_test_restore''
        (''Prove the newest backup restores: rebuild its smallest archive into a temporary folder on this machine '' @
         ''(never on the backup drive), check the files came back, then remove that temporary folder. Read-only on '' @
         ''the backup drive.'')
        [] True,
      mk_op ''backup_list'' ''List the backup sets on the backup drive. Read-only.'' [] False]"

definition role_may_reach :: "string \<Rightarrow> string \<Rightarrow> bool" where
  "role_may_reach role path \<longleftrightarrow>
     (if role = ''admin'' then True
      else if role = ''operator'' then operator_may_reach path
      else if starts_with role BOT_PREFIX then
        let action = drop (length BOT_PREFIX) role
        in path \<in> set (if map_of OPERATIONS action \<noteq> None then BOT_OPERATION_PATHS else BOT_DRIVE_PATHS)
      else False)"

fun put_params :: "(string \<times> bool) list \<Rightarrow> (string \<times> json) list \<Rightarrow> exn + (string \<times> bool) list" where
  "put_params clean [] = Inr clean"
| "put_params clean ((name, value) # rest) =
     (case value of
        JBool b \<Rightarrow> put_params (AList.update name b clean) rest
      | _ \<Rightarrow> Inl (ValueError (name @ '' must be true or false'')))"

definition validate :: "string \<Rightarrow> json \<Rightarrow> exn + (string \<times> bool) list" where
  "validate op ps =
     (case map_of OPERATIONS op of
        None \<Rightarrow> Inl (ValueError (''unknown operation '' @ py_repr op))
      | Some spec \<Rightarrow>
          if \<not> is_obj ps then Inl (ValueError ''parameters must be an object'')
          else
            let unknown = filter (\<lambda>k. k \<notin> fst ` set (op_params spec)) (map fst (obj_fields ps))
            in if unknown \<noteq> [] then
                 Inl (ValueError (''unknown parameter(s) for '' @ op @ '': '' @ join '', '' (sort_strs unknown)))
               else put_params (op_params spec) (obj_fields ps))"

definition bool_params :: "(string \<times> bool) list \<Rightarrow> params" where
  "bool_params ps = map (\<lambda>(k, b). (k, JBool b)) ps"

text \<open>
  \<open>execute\<close>: \<open>body\<close> is what the branch for this operation does, with an exit code; a
  \<open>BackupError\<close> becomes the exit code 1.
\<close>
definition execute ::
  "wenv \<Rightarrow> string option \<Rightarrow> int \<Rightarrow> string \<Rightarrow> json \<Rightarrow> web_origin option
     \<Rightarrow> (string \<Rightarrow> (string \<times> bool) list \<Rightarrow> (web, int) act) \<Rightarrow> (web, int) act" where
  "execute env active now op ps x body =
     act_bind (act_lift (validate op ps)) (\<lambda>clean.
     act_seq (require_origin env active now x op (bool_params clean)) (
     act_catch (body op clean) (\<lambda>e. case e of BackupError why \<Rightarrow> act_ret 1 | _ \<Rightarrow> act_raise e)))"

section \<open>The schedule file\<close>

record 'w senv =
  s_web :: wenv
  save_raises :: "string \<Rightarrow> exn option"
  run_job :: "json \<Rightarrow> params \<Rightarrow> web_origin \<Rightarrow> 'w \<Rightarrow> (exn + unit) \<times> 'w"

record 'w sched =
  gate_state :: web
  schedule_file :: "string option"
  started :: "(json \<times> params \<times> web_origin) list"
  world :: 'w

definition on_gate :: "(web, 'a) act \<Rightarrow> ('w sched, 'a) act" where
  "on_gate m = (\<lambda>s. case m (gate_state s) of (r, g) \<Rightarrow> (r, s\<lparr>gate_state := g\<rparr>))"

definition empty_data :: "(string \<times> json) list" where
  "empty_data = [(''schedules'', JList []), (''last_run'', JObj [])]"

definition parse_schedules :: "string option \<Rightarrow> (string \<times> json) list" where
  "parse_schedules text =
     (case Option.bind text json_loads of
        Some (JObj kvs) \<Rightarrow>
          (case map_of kvs ''schedules'' of
             Some (JList rs) \<Rightarrow>
               (case map_of kvs ''last_run'' of
                  Some (JObj lr) \<Rightarrow> kvs
                | _ \<Rightarrow> AList.update ''last_run'' (JObj []) kvs)
           | _ \<Rightarrow> empty_data)
      | _ \<Rightarrow> empty_data)"

definition load :: "('w sched, (string \<times> json) list) act" where
  "load = act_get (\<lambda>s. parse_schedules (schedule_file s))"

definition save :: "'w senv \<Rightarrow> (string \<times> json) list \<Rightarrow> ('w sched, unit) act" where
  "save env data = (\<lambda>s.
     let text = json_dumps default_sorted (JObj data)
     in case save_raises env text of
          Some e \<Rightarrow> (Inl e, s)
        | None \<Rightarrow> (Inr (), s\<lparr>schedule_file := Some text\<rparr>))"

definition schedules_of :: "(string \<times> json) list \<Rightarrow> json list" where
  "schedules_of data = elements (the (map_of data ''schedules''))"

definition last_run_of :: "(string \<times> json) list \<Rightarrow> (string \<times> json) list" where
  "last_run_of data = obj_fields (the (map_of data ''last_run''))"

definition put_schedules :: "json list \<Rightarrow> (string \<times> json) list \<Rightarrow> (string \<times> json) list" where
  "put_schedules rs data = AList.update ''schedules'' (JList rs) data"

definition put_last_run :: "(string \<times> json) list \<Rightarrow> (string \<times> json) list \<Rightarrow> (string \<times> json) list" where
  "put_last_run lr data = AList.update ''last_run'' (JObj lr) data"

section \<open>The scheduler\<close>

text \<open>\<open>[r for r in schedules if r.get("op") != op_id]\<close>; a record that is not an object raises.\<close>
fun other_records :: "string \<Rightarrow> json list \<Rightarrow> exn + json list" where
  "other_records op [] = Inr []"
| "other_records op (r # rs) =
     (case get r ''op'' of
        Inl e \<Rightarrow> Inl e
      | Inr v \<Rightarrow> (case other_records op rs of
            Inl e \<Rightarrow> Inl e
          | Inr kept \<Rightarrow> Inr (if v = Some (JStr op) then kept else r # kept)))"

definition set_schedule ::
  "'w senv \<Rightarrow> string \<Rightarrow> int \<Rightarrow> string option \<Rightarrow> string \<Rightarrow> json \<Rightarrow> json \<Rightarrow> ('w sched, json) act" where
  "set_schedule env key now token op ps every =
     (if map_option op_schedulable (map_of OPERATIONS op) \<noteq> Some True then
        act_raise (ValueError (py_repr op @ '' cannot be scheduled''))
      else
        act_bind (act_lift (validate op ps)) (\<lambda>clean.
        act_bind (on_gate (sign_schedule (s_web env) key token op (bool_params clean) every now)) (\<lambda>record.
        act_bind load (\<lambda>data.
        act_bind (act_lift (other_records op (schedules_of data))) (\<lambda>others.
        if MAX_SCHEDULES \<le> length others then act_raise (ValueError ''too many schedules'')
        else
          act_seq (save env (put_last_run (AList.delete op (last_run_of data)) (put_schedules (others @ [record]) data)))
            (act_ret record))))))"

definition remove_schedule ::
  "'w senv \<Rightarrow> int \<Rightarrow> string option \<Rightarrow> string \<Rightarrow> ('w sched, bool) act" where
  "remove_schedule env now token op =
     act_seq (on_gate (require_login token now None [])) (
     act_bind load (\<lambda>data.
     act_bind (act_lift (other_records op (schedules_of data))) (\<lambda>kept.
     act_seq (save env (put_schedules kept data))
       (act_ret (length kept \<noteq> length (schedules_of data))))))"

text \<open>One entry of \<open>listing\<close>: only a refused signature makes a record invalid; another exception goes through.\<close>
definition list_record ::
  "'w senv \<Rightarrow> string \<Rightarrow> int \<Rightarrow> json \<Rightarrow> ('w sched, bool) act" where
  "list_record env key now r =
     act_catch (act_seq (on_gate (origin_for_schedule (s_web env) key r now)) (act_ret True)) (\<lambda>e.
       case e of NotFromWebApp why \<Rightarrow> act_ret False | _ \<Rightarrow> act_raise e)"

definition listing :: "'w senv \<Rightarrow> string \<Rightarrow> int \<Rightarrow> ('w sched, json list) act" where
  "listing env key now =
     act_bind load (\<lambda>data.
     act_bind (act_map (\<lambda>r. act_bind (list_record env key now r) (\<lambda>ok. act_ret (r, ok))) (schedules_of data)) (\<lambda>rs.
     act_ret (map fst (filter snd rs))))"

text \<open>
  \<open>now - float(last) >= float(record["every_hours"]) * 3600\<close>, with \<open>last\<close> from \<open>last_run\<close>. The operation of
  a record is the key: one that is not text cannot be one (\<open>TypeError\<close>, as for an unhashable value).
\<close>
definition is_due :: "int \<Rightarrow> (string \<times> json) list \<Rightarrow> json \<Rightarrow> exn + bool" where
  "is_due now lr r =
     (case item r ''op'' of
        Inl e \<Rightarrow> Inl e
      | Inr (JStr op) \<Rightarrow>
          (case map_of lr op of
             None \<Rightarrow> Inr True
           | Some JNull \<Rightarrow> Inr True
           | Some prev \<Rightarrow>
               (case to_float prev of Inl e \<Rightarrow> Inl e | Inr l \<Rightarrow>
                case item r ''every_hours'' of Inl e \<Rightarrow> Inl e | Inr every \<Rightarrow>
                case to_float every of Inl e \<Rightarrow> Inl e | Inr h \<Rightarrow> Inr (of_int now - l \<ge> h * 3600)))
      | Inr _ \<Rightarrow> Inl (TypeError ''unhashable''))"

type_synonym due_run = "json \<times> params \<times> web_origin"

definition as_dict :: "json \<Rightarrow> exn + params" where
  "as_dict v = (case v of JObj kvs \<Rightarrow> Inr kvs | _ \<Rightarrow> Inl (TypeError ''not an object''))"

text \<open>The loop body of \<open>tick\<close>, over the last-run table and the runs found due so far.\<close>
definition tick_record ::
  "'w senv \<Rightarrow> string \<Rightarrow> int \<Rightarrow> json \<Rightarrow> (string \<times> json) list \<times> due_run list
     \<Rightarrow> ('w sched, (string \<times> json) list \<times> due_run list) act" where
  "tick_record env key now r acc =
     act_bind (act_catch
       (act_bind (on_gate (origin_for_schedule (s_web env) key r now)) (\<lambda>x. act_ret (Some x)))
       (\<lambda>e. case e of NotFromWebApp why \<Rightarrow> act_ret None | KeyError k \<Rightarrow> act_ret None | TypeError k \<Rightarrow> act_ret None
             | _ \<Rightarrow> act_raise e)) (\<lambda>x.
     case x of
       None \<Rightarrow> act_ret acc
     | Some origin \<Rightarrow>
         act_bind (act_lift (is_due now (fst acc) r)) (\<lambda>due.
         if \<not> due then act_ret acc
         else
           act_bind (act_lift (item r ''params'')) (\<lambda>v.
           act_bind (act_lift (as_dict v)) (\<lambda>ps.
           act_ret (AList.update (json_str (wo_op origin)) (JInt now) (fst acc), snd acc @ [(wo_op origin, ps, origin)])))))"

fun tick_records ::
  "'w senv \<Rightarrow> string \<Rightarrow> int \<Rightarrow> json list \<Rightarrow> (string \<times> json) list \<times> due_run list
     \<Rightarrow> ('w sched, (string \<times> json) list \<times> due_run list) act" where
  "tick_records env key now [] acc = act_ret acc"
| "tick_records env key now (r # rs) acc =
     act_bind (tick_record env key now r acc) (\<lambda>acc'. tick_records env key now rs acc')"

definition start_run :: "'w senv \<Rightarrow> due_run \<Rightarrow> ('w sched, unit) act" where
  "start_run env d = (\<lambda>s.
     let (op, ps, x) = d; (_, w) = run_job env op ps x (world s)
     in (Inr (), s\<lparr>started := started s @ [d], world := w\<rparr>))"

definition tick :: "'w senv \<Rightarrow> string \<Rightarrow> int \<Rightarrow> ('w sched, unit) act" where
  "tick env key now =
     act_bind load (\<lambda>data.
     act_bind (tick_records env key now (schedules_of data) (last_run_of data, [])) (\<lambda>(lr, due).
     act_seq (act_when (due \<noteq> []) (save env (put_last_run lr data)))
       (act_for due (start_run env))))"

section \<open>What a tick starts\<close>

lemma on_gate_eq: "on_gate m s = (fst (m (gate_state s)), s\<lparr>gate_state := snd (m (gate_state s))\<rparr>)"
  by (simp add: on_gate_def split: prod.split)

text \<open>The part of the state a tick leaves alone until it starts runs.\<close>

definition same_but_gate :: "'w sched \<Rightarrow> 'w sched \<Rightarrow> bool" where
  "same_but_gate s t \<longleftrightarrow> schedule_file t = schedule_file s \<and> started t = started s \<and> world t = world s"

lemma keeps_same_but_gate [keeps_intros]: "keeps (same_but_gate s) (on_gate m)"
  by (rule keepsI) (simp add: on_gate_eq same_but_gate_def)

lemma keeps_tick_record [keeps_intros]: "keeps (same_but_gate s) (tick_record env key now r acc)"
proof -
  have e: "keeps (same_but_gate s) (case e of NotFromWebApp why \<Rightarrow> act_ret None | KeyError k \<Rightarrow> act_ret None
      | TypeError k \<Rightarrow> act_ret None | _ \<Rightarrow> act_raise e)" for e
    by (cases e) (simp_all add: keeps_ret keeps_raise)
  show ?thesis
    unfolding tick_record_def by (intro e keeps_intros)
qed

lemma keeps_tick_records: "keeps (same_but_gate s) (tick_records env key now rs acc)"
  by (induction rs arbitrary: acc) (simp_all add: keeps_ret keeps_bind keeps_tick_record)

text \<open>What one record contributes: the run it starts is the one it was signed for, and it is due.\<close>

definition runs_record :: "'w senv \<Rightarrow> string \<Rightarrow> int \<Rightarrow> (string \<times> json) list \<Rightarrow> json \<Rightarrow> due_run \<Rightarrow> bool" where
  "runs_record env key now lr r d \<longleftrightarrow>
     (\<exists>op ps. d = (JStr op, ps, make_origin (s_web env) key ''schedule'' (JStr op) (JObj ps) now)
        \<and> map_of (obj_fields r) ''op'' = Some (JStr op) \<and> map_of (obj_fields r) ''params'' = Some (JObj ps)
        \<and> (case map_of (obj_fields r) ''sig'' of None \<Rightarrow> [] | Some v \<Rightarrow> json_str v)
            = gate_mac (s_web env) key (schedule_parts (s_web env) r)
        \<and> is_due now lr r = Inr True)"

lemma item_Inr: "item r k = Inr v \<longleftrightarrow> is_obj r \<and> map_of (obj_fields r) k = Some v"
  by (auto simp: item_def split: json.splits option.splits)

lemma tick_record_Inr:
  assumes "tick_record env key now r acc s = (Inr acc', s')"
  shows "acc' = acc \<or> (\<exists>d. runs_record env key now (fst acc) r d
           \<and> acc' = (AList.update (json_str (fst d)) (JInt now) (fst acc), snd acc @ [d]))"
proof -
  let ?g = "origin_for_schedule (s_web env) key r now (gate_state s)"
  show ?thesis
  proof (cases "fst ?g")
    case (Inl e)
    then show ?thesis
      using assms by (cases e) (auto simp: tick_record_def act_catch_eq act_bind_def on_gate_eq)
  next
    case (Inr y)
    note o = origin_for_schedule_ok [OF Inr]
    have "acc' = acc \<or> (\<exists>ps. is_due now (fst acc) r = Inr True \<and> item r ''params'' = Inr (JObj ps)
            \<and> acc' = (AList.update (json_str (wo_op y)) (JInt now) (fst acc), snd acc @ [(wo_op y, ps, y)]))"
      using assms Inr
      by (auto simp: tick_record_def act_catch_eq act_bind_def on_gate_eq as_dict_def
          split: sum.splits prod.splits if_splits json.splits)
    then show ?thesis
    proof (elim disjE exE conjE)
      fix ps
      assume due: "is_due now (fst acc) r = Inr True" and ps: "item r ''params'' = Inr (JObj ps)"
        and acc': "acc' = (AList.update (json_str (wo_op y)) (JInt now) (fst acc), snd acc @ [(wo_op y, ps, y)])"
      obtain op where "item r ''op'' = Inr (JStr op)"
        using due by (auto simp: is_due_def split: sum.splits json.splits)
      then have "runs_record env key now (fst acc) r (wo_op y, ps, y)"
        using o ps due by (auto simp: runs_record_def item_Inr)
      with acc' show ?thesis by auto
    qed simp
  qed
qed

text \<open>The last-run table while records are gone through: entries of before, or the time of the tick.\<close>

definition table_of :: "int \<Rightarrow> (string \<times> json) list \<Rightarrow> (string \<times> json) list \<Rightarrow> bool" where
  "table_of now lr lr' \<longleftrightarrow> (\<forall>k. map_of lr' k = map_of lr k \<or> map_of lr' k = Some (JInt now))"

lemma table_of_refl [simp]: "table_of now lr lr"
  by (simp add: table_of_def)

lemma map_of_update [simp]: "map_of (AList.update k v xs) j = (if j = k then Some v else map_of xs j)"
  by (simp add: update_conv)

lemma table_of_update: "table_of now lr lr' \<Longrightarrow> table_of now lr (AList.update k (JInt now) lr')"
  by (simp add: table_of_def)

lemma tick_records_Inr:
  assumes "tick_records env key now rs (lr', ds) s = (Inr (lr'', ds'), s')" and "table_of now lr lr'"
  shows "table_of now lr lr'' \<and> (\<exists>new. ds' = ds @ new
       \<and> (\<forall>d \<in> set new. \<exists>r \<in> set rs. \<exists>t. table_of now lr t \<and> runs_record env key now t r d)
       \<and> (\<forall>d \<in> set new. map_of lr'' (json_str (fst d)) = Some (JInt now))
       \<and> (\<forall>k. k \<notin> (\<lambda>d. json_str (fst d)) ` set new \<longrightarrow> map_of lr'' k = map_of lr' k))"
  using assms
proof (induction rs arbitrary: lr' ds s)
  case Nil
  then show ?case by simp
next
  case (Cons r rs)
  then obtain acc s1 where 1: "tick_record env key now r (lr', ds) s = (Inr acc, s1)"
      "tick_records env key now rs acc s1 = (Inr (lr'', ds'), s')"
    by (auto simp: act_bind_eq_Inr)
  show ?case
    using tick_record_Inr [OF 1(1)]
  proof (elim disjE exE conjE)
    assume "acc = (lr', ds)"
    then show ?case using Cons.IH [of lr' ds s1] 1(2) Cons.prems(2) by fastforce
  next
    fix d
    assume d: "runs_record env key now (fst (lr', ds)) r d"
      and acc: "acc = (AList.update (json_str (fst d)) (JInt now) (fst (lr', ds)), snd (lr', ds) @ [d])"
    let ?lr = "AList.update (json_str (fst d)) (JInt now) lr'"
    obtain new where n: "table_of now lr lr''" "ds' = (ds @ [d]) @ new"
        "\<forall>d \<in> set new. \<exists>r \<in> set rs. \<exists>t. table_of now lr t \<and> runs_record env key now t r d"
        "\<forall>d \<in> set new. map_of lr'' (json_str (fst d)) = Some (JInt now)"
        "\<forall>k. k \<notin> (\<lambda>d. json_str (fst d)) ` set new \<longrightarrow> map_of lr'' k = map_of ?lr k"
      using Cons.IH [of ?lr "ds @ [d]" s1] 1(2) table_of_update [OF Cons.prems(2)] acc by auto
    have "map_of lr'' (json_str (fst d)) = Some (JInt now)"
      using n(4,5) by (cases "json_str (fst d) \<in> (\<lambda>d. json_str (fst d)) ` set new") (auto simp: image_iff)
    then show ?case
      using n d Cons.prems(2) by (intro conjI exI [of _ "d # new"]) auto
  qed
qed

lemma start_run_for:
  "\<exists>w. act_for ds (start_run env) s = (Inr (), s\<lparr>started := started s @ ds, world := w\<rparr>)"
proof (induction ds arbitrary: s)
  case Nil
  have "s = s\<lparr>started := started s @ [], world := world s\<rparr>" by simp
  then show ?case by (metis act_for.simps(1) act_ret_apply)
next
  case (Cons d ds)
  define w where "w = snd (run_job env (fst d) (fst (snd d)) (snd (snd d)) (world s))"
  have w: "start_run env d s = (Inr (), s\<lparr>started := started s @ [d], world := w\<rparr>)"
    by (simp add: start_run_def w_def case_prod_unfold Let_def)
  show ?case using Cons.IH [of "s\<lparr>started := started s @ [d], world := w\<rparr>"] w by auto
qed

lemma tick_cases:
  obtains (raised) "started (snd (tick env key now s)) = started s" "fst (tick env key now s) \<noteq> Inr ()"
  | (ran) lr due s1 where
      "tick_records env key now (schedules_of (parse_schedules (schedule_file s)))
         (last_run_of (parse_schedules (schedule_file s)), []) s = (Inr (lr, due), s1)"
      "fst (tick env key now s) = Inr ()"
      "started (snd (tick env key now s)) = started s @ due"
      "schedule_file (snd (tick env key now s)) =
         (if due = [] then schedule_file s
          else Some (json_dumps default_sorted (JObj (put_last_run lr (parse_schedules (schedule_file s))))))"
proof -
  let ?data = "parse_schedules (schedule_file s)"
  obtain r s1 where r: "tick_records env key now (schedules_of ?data) (last_run_of ?data, []) s = (r, s1)"
    by fastforce
  have same: "same_but_gate s s1"
    using keepsD [OF keeps_tick_records [where s = s], of s env key now "schedules_of ?data" "(last_run_of ?data, [])"] r
    by (simp add: same_but_gate_def)
  show thesis
  proof (cases r)
    case (Inl e)
    then show thesis
      using r same by (intro raised) (simp_all add: tick_def load_def same_but_gate_def)
  next
    case (Inr x)
    obtain lr due where x: "x = (lr, due)" by fastforce
    let ?text = "json_dumps default_sorted (JObj (put_last_run lr ?data))"
    show thesis
    proof (cases "due \<noteq> [] \<and> save_raises env ?text \<noteq> None")
      case True
      then show thesis
        using r same Inr x
        by (intro raised) (auto simp: tick_def load_def same_but_gate_def save_def act_seq_def act_bind_def Let_def)
    next
      case False
      define s2 where "s2 = (if due = [] then s1 else s1\<lparr>schedule_file := Some ?text\<rparr>)"
      obtain w where "act_for due (start_run env) s2 = (Inr (), s2\<lparr>started := started s2 @ due, world := w\<rparr>)"
        using start_run_for [of due env s2] by blast
      then have "tick env key now s = (Inr (), s2\<lparr>started := started s2 @ due, world := w\<rparr>)"
        using r Inr x False
        by (auto simp: tick_def load_def save_def act_seq_def act_bind_def Let_def s2_def split: if_splits)
      then show thesis
        using r same Inr x by (intro ran) (auto simp: same_but_gate_def s2_def)
    qed
  qed
qed

section \<open>What is saved is read back\<close>

lemma map_of_ordered: "distinct (map fst kvs) \<Longrightarrow> map_of (ordered st kvs) = map_of kvs"
  by (subst map_of_inject_set) simp_all

lemma map_of_normal:
  "distinct (map fst kvs) \<Longrightarrow>
     map_of (obj_fields (normal st (JObj kvs))) k = map_option (normal st) (map_of kvs k)"
  unfolding normal_obj by (simp add: map_of_map map_of_ordered)

lemma parse_shape:
  "\<exists>rs lr. map_of (parse_schedules t) ''schedules'' = Some (JList rs) \<and> map_of (parse_schedules t) ''last_run'' = Some (JObj lr)"
proof -
  have e: "\<exists>rs lr. map_of empty_data ''schedules'' = Some (JList rs) \<and> map_of empty_data ''last_run'' = Some (JObj lr)"
    by (simp add: empty_data_def)
  show ?thesis
  proof (cases "\<exists>kvs rs. Option.bind t json_loads = Some (JObj kvs) \<and> map_of kvs ''schedules'' = Some (JList rs)")
    case True
    then obtain kvs rs where "Option.bind t json_loads = Some (JObj kvs)" "map_of kvs ''schedules'' = Some (JList rs)"
      by blast
    then show ?thesis by (simp add: parse_schedules_def split: option.split json.split)
  next
    case False
    have "parse_schedules t = empty_data"
    proof (cases "Option.bind t json_loads")
      case (Some v)
      show ?thesis
      proof (cases v)
        case (JObj kvs)
        with False Some have "\<And>rs. map_of kvs ''schedules'' \<noteq> Some (JList rs)" by blast
        with Some JObj show ?thesis by (simp add: parse_schedules_def split: option.split json.split)
      qed (simp_all add: parse_schedules_def Some)
    qed (simp add: parse_schedules_def)
    with e show ?thesis by simp
  qed
qed

lemma json_ok_lookup: "json_ok (JObj kvs) \<Longrightarrow> map_of kvs k = Some v \<Longrightarrow> json_ok v"
  by (drule map_of_SomeD) force

lemma parse_saved:
  assumes "json_ok (JObj data)"
    and "map_of data ''schedules'' = Some (JList rs)" "map_of data ''last_run'' = Some (JObj lr)"
  shows "schedules_of (parse_schedules (Some (json_dumps default_sorted (JObj data)))) = map (normal default_sorted) rs"
    and "map_of (last_run_of (parse_schedules (Some (json_dumps default_sorted (JObj data))))) k
           = map_option (normal default_sorted) (map_of lr k)"
proof -
  let ?n = "normal default_sorted"
  obtain kvs where kvs: "?n (JObj data) = JObj kvs" by simp
  have d: "distinct (map fst data)" "distinct (map fst lr)"
    using assms(1) json_ok_lookup [OF assms(1,3)] by simp_all
  have f: "map_of kvs k = map_option ?n (map_of data k)" for k
    using map_of_normal [OF d(1), where st = default_sorted] kvs by simp
  obtain lr' where lr': "?n (JObj lr) = JObj lr'" by simp
  have "json_loads (json_dumps default_sorted (JObj data)) = Some (JObj kvs)"
    using loads_dumps [OF style_ok_used(3) assms(1)] kvs by simp
  then have p: "parse_schedules (Some (json_dumps default_sorted (JObj data))) = kvs"
    using f [of "''schedules''"] f [of "''last_run''"] assms lr' by (simp add: parse_schedules_def)
  show "schedules_of (parse_schedules (Some (json_dumps default_sorted (JObj data)))) = map ?n rs"
    unfolding p schedules_of_def f assms(2) by simp
  show "map_of (last_run_of (parse_schedules (Some (json_dumps default_sorted (JObj data))))) k = map_option ?n (map_of lr k)"
    unfolding p last_run_of_def f assms(3) option.map option.sel by (rule map_of_normal [OF d(2)])
qed

lemma json_ok_update: "json_ok (JObj kvs) \<Longrightarrow> json_ok v \<Longrightarrow> json_ok (JObj (AList.update k v kvs))"
  using set_update_subset [of k v kvs] by (auto simp: distinct_update)

lemma tick_records_ok:
  "tick_records env key now rs acc s = (Inr acc', s') \<Longrightarrow> json_ok (JObj (fst acc)) \<Longrightarrow> json_ok (JObj (fst acc'))"
proof (induction rs arbitrary: acc s)
  case Nil
  then show ?case by simp
next
  case (Cons r rs)
  then obtain acc1 s1 where 1: "tick_record env key now r acc s = (Inr acc1, s1)"
      "tick_records env key now rs acc1 s1 = (Inr acc', s')"
    by (auto simp: act_bind_eq_Inr)
  have "json_ok (JObj (fst acc1))"
    using tick_record_Inr [OF 1(1)] Cons.prems(2) json_ok_update by (metis fst_conv json_ok.simps(3))
  then show ?case using Cons.IH 1(2) by blast
qed

lemma normal_text: "normal st v = JStr t \<longleftrightarrow> v = JStr t"
  by (cases v) simp_all

text \<open>A record read back has the operation and the interval it had.\<close>

lemma record_read_back:
  assumes "json_ok r" "map_of (obj_fields (normal default_sorted r)) ''op'' = Some (JStr op)"
  shows "map_of (obj_fields r) ''op'' = Some (JStr op)"
    and "map_of (obj_fields (normal default_sorted r)) ''every_hours''
           = map_option (normal default_sorted) (map_of (obj_fields r) ''every_hours'')"
proof -
  obtain kvs where r: "r = JObj kvs" using assms(2) by (cases r) auto
  then have d: "distinct (map fst kvs)" using assms(1) by simp
  show "map_of (obj_fields r) ''op'' = Some (JStr op)"
    using assms(2) map_of_normal [OF d, of default_sorted "''op''"] by (auto simp: r normal_text simp del: normal.simps)
  show "map_of (obj_fields (normal default_sorted r)) ''every_hours''
           = map_option (normal default_sorted) (map_of (obj_fields r) ''every_hours'')"
    using map_of_normal [OF d, of default_sorted "''every_hours''"] by (simp add: r del: normal.simps)
qed

lemma not_due:
  assumes "map_of lr op = Some (JInt t)" "map_of (obj_fields r) ''op'' = Some (JStr op)"
    and "map_of (obj_fields r) ''every_hours'' = Some (JInt h)" "now - t < h * 3600"
  shows "is_due now lr r \<noteq> Inr True"
proof -
  have "is_obj r" using assms(2) by (cases r) simp_all
  then have i: "item r ''op'' = Inr (JStr op)" "item r ''every_hours'' = Inr (JInt h)"
    using assms(2,3) by (simp_all add: item_Inr)
  have "(of_int (now - t) :: rat) < of_int (h * 3600)" using assms(4) by (simp only: of_int_less_iff)
  then show ?thesis using assms(1) i by (simp add: is_due_def to_float_def)
qed

lemma tick_starts:
  assumes "d \<in> set (drop (length (started s)) (started (snd (tick env key now s))))"
  shows "\<exists>r \<in> set (schedules_of (parse_schedules (schedule_file s))). \<exists>lr.
     table_of now (last_run_of (parse_schedules (schedule_file s))) lr \<and> runs_record env key now lr r d"
proof (cases rule: tick_cases [of env key now s])
  case raised
  then show ?thesis using assms by simp
next
  case (ran lr due s1)
  then show ?thesis
    using assms tick_records_Inr [OF ran(1) table_of_refl] by auto
qed

section \<open>Properties\<close>

definition lab_senv :: "unit senv" where
  "lab_senv = \<lparr>s_web = lab_wenv, save_raises = (\<lambda>_. None), run_job = (\<lambda>_ _ _ w. (Inr (), w))\<rparr>"

definition lab_sched :: "unit sched" where
  "lab_sched = \<lparr>gate_state = lab_web, schedule_file = None, started = [], world = ()\<rparr>"

text \<open>Someone logged in schedules \<open>backup_verify\<close> every 24 hours.\<close>
definition lab_scheduled :: "unit sched" where
  "lab_scheduled = snd (set_schedule lab_senv lab_key 1005 (Some ''tok'') ''backup_verify'' (JObj []) (JInt 24) lab_sched)"

text \<open>
  C13. The scheduler starts only what the web application signed, and only when it is due. Whatever is in
  the schedule file, every run a tick starts belongs to a record of that file whose signature is the
  gate's signature over its own fields; the run has that record's operation and parameters, carries a
  proof made for exactly them, and the record was due by the last-run table (or that
  operation has just been run by the same tick).
\<close>
theorem tick_starts_signed_and_due:
  assumes "d \<in> set (drop (length (started s)) (started (snd (tick env key now s))))"
  shows "\<exists>r \<in> set (schedules_of (parse_schedules (schedule_file s))). \<exists>lr.
     table_of now (last_run_of (parse_schedules (schedule_file s))) lr \<and> runs_record env key now lr r d"
  using assms by (rule tick_starts)

lemma lab_started: "map fst (started (snd (tick lab_senv lab_key 2000 lab_scheduled))) = [JStr ''backup_verify'']"
  by code_simp

theorem tick_starts_signed_and_due_witness:
  "\<exists>d. \<exists>r \<in> set (schedules_of (parse_schedules (schedule_file lab_scheduled))). \<exists>lr.
     table_of 2000 (last_run_of (parse_schedules (schedule_file lab_scheduled))) lr \<and> runs_record lab_senv lab_key 2000 lr r d"
proof -
  have "length (started lab_scheduled) = 0" by code_simp
  then obtain d where "d \<in> set (drop (length (started lab_scheduled)) (started (snd (tick lab_senv lab_key 2000 lab_scheduled))))"
    using lab_started by fastforce
  then show ?thesis using tick_starts_signed_and_due by blast
qed

text \<open>
  A run is not repeated before its interval has passed. If a tick at time \<open>now\<close> has
  started an operation, a later tick that reads the file it wrote, less than the interval of every
  record for that operation later, does not start it again, however the run ended.
\<close>
theorem tick_does_not_repeat:
  assumes d: "d \<in> set (drop (length (started s)) (started (snd (tick env key now s))))"
    and ok: "json_ok (JObj (parse_schedules (schedule_file s)))"
    and hours: "\<And>r. r \<in> set (schedules_of (parse_schedules (schedule_file s))) \<Longrightarrow>
        map_of (obj_fields r) ''op'' = Some (fst d) \<Longrightarrow>
        \<exists>h. map_of (obj_fields r) ''every_hours'' = Some (JInt h) \<and> 0 < h \<and> now' - now < h * 3600"
    and saved: "schedule_file s' = schedule_file (snd (tick env key now s))"
  shows "fst d \<notin> fst ` set (drop (length (started s')) (started (snd (tick env key now' s'))))"
proof (cases rule: tick_cases [of env key now s])
  case raised
  then show ?thesis using d by simp
next
  case (ran lr due s1)
  let ?data = "parse_schedules (schedule_file s)" and ?data' = "parse_schedules (schedule_file s')"
  obtain rs lr0 where sh: "map_of ?data ''schedules'' = Some (JList rs)" "map_of ?data ''last_run'' = Some (JObj lr0)"
    using parse_shape by blast
  have rs: "schedules_of ?data = rs" "last_run_of ?data = lr0" using sh by (simp_all add: schedules_of_def last_run_of_def)
  have "d \<in> set due" using d ran(3) by simp
  then obtain op ps r where op: "d = (JStr op, ps, r)" and lr: "map_of lr op = Some (JInt now)"
    using tick_records_Inr [OF ran(1) table_of_refl] by (fastforce simp: runs_record_def)
  have "json_ok (JObj lr0)" by (rule json_ok_lookup [OF ok sh(2)])
  then have "json_ok (JObj lr)" using tick_records_ok [OF ran(1)] rs by simp
  then have ok': "json_ok (JObj (put_last_run lr ?data))"
    unfolding put_last_run_def by (rule json_ok_update [OF ok])
  have f: "schedule_file s' = Some (json_dumps default_sorted (JObj (put_last_run lr ?data)))"
    using saved ran(4) \<open>d \<in> set due\<close> by auto
  have sh': "map_of (put_last_run lr ?data) ''schedules'' = Some (JList rs)"
      "map_of (put_last_run lr ?data) ''last_run'' = Some (JObj lr)"
    using sh by (simp_all add: put_last_run_def)
  have again: "schedules_of ?data' = map (normal default_sorted) rs" "map_of (last_run_of ?data') op = Some (JInt now)"
    using parse_saved [OF ok' sh'] lr by (simp_all add: f)
  show ?thesis
  proof
    assume "fst d \<in> fst ` set (drop (length (started s')) (started (snd (tick env key now' s'))))"
    then obtain e where e: "e \<in> set (drop (length (started s')) (started (snd (tick env key now' s'))))" "fst d = fst e"
      by (rule imageE)
    obtain r' t where r': "r' \<in> set (schedules_of ?data')" "table_of now' (last_run_of ?data') t" "runs_record env key now' t r' e"
      using tick_starts [OF e(1)] by blast
    have "fst e = JStr op" using e(2) op by simp
    with r'(3) have o: "map_of (obj_fields r') ''op'' = Some (JStr op)" and due: "is_due now' t r' = Inr True"
      by (auto simp: runs_record_def)
    obtain r0 where r0: "r0 \<in> set rs" "r' = normal default_sorted r0" using r'(1) again(1) by auto
    have "json_ok r0" using json_ok_lookup [OF ok sh(1)] r0(1) by simp
    note rb = record_read_back [OF this o [unfolded r0(2)]]
    obtain h where h: "map_of (obj_fields r0) ''every_hours'' = Some (JInt h)" "0 < h" "now' - now < h * 3600"
      using hours [of r0] r0(1) rs rb(1) op by auto
    then have every: "map_of (obj_fields r') ''every_hours'' = Some (JInt h)" using rb(2) by (simp add: r0(2))
    have "map_of t op = Some (JInt now) \<or> map_of t op = Some (JInt now')"
      using r'(2) again(2) by (metis table_of_def)
    then show False
      using not_due [OF _ o every, of t now now'] not_due [OF _ o every, of t now' now'] h due by auto
  qed
qed

text \<open>The first tick after the schedule was made starts the operation; one ten minutes later does not.\<close>

theorem tick_does_not_repeat_witness:
  "JStr ''backup_verify'' \<in> fst ` set (started (snd (tick lab_senv lab_key 2000 lab_scheduled)))
   \<and> JStr ''backup_verify'' \<notin> fst ` set (drop (length (started (snd (tick lab_senv lab_key 2000 lab_scheduled))))
      (started (snd (tick lab_senv lab_key 2600 (snd (tick lab_senv lab_key 2000 lab_scheduled))))))"
proof -
  have "length (started lab_scheduled) = 0" by code_simp
  then obtain d where d: "d \<in> set (drop (length (started lab_scheduled)) (started (snd (tick lab_senv lab_key 2000 lab_scheduled))))"
      "fst d = JStr ''backup_verify''"
    using lab_started by fastforce
  have ok: "json_ok (JObj (parse_schedules (schedule_file lab_scheduled)))" by code_simp
  have h: "map (\<lambda>r. map_of (obj_fields r) ''every_hours'') (schedules_of (parse_schedules (schedule_file lab_scheduled))) = [Some (JInt 24)]"
    by code_simp
  have "JStr ''backup_verify'' \<notin> fst ` set (drop (length (started (snd (tick lab_senv lab_key 2000 lab_scheduled))))
      (started (snd (tick lab_senv lab_key 2600 (snd (tick lab_senv lab_key 2000 lab_scheduled))))))"
    unfolding d(2) [symmetric]
  proof (rule tick_does_not_repeat [OF d(1) ok _ refl])
    fix r
    assume "r \<in> set (schedules_of (parse_schedules (schedule_file lab_scheduled)))"
    with h have "map_of (obj_fields r) ''every_hours'' = Some (JInt 24)" by auto
    then show "\<exists>h. map_of (obj_fields r) ''every_hours'' = Some (JInt h) \<and> 0 < h \<and> (2600::int) - 2000 < h * 3600"
      by simp
  qed
  moreover have "JStr ''backup_verify'' \<in> fst ` set (started (snd (tick lab_senv lab_key 2000 lab_scheduled)))"
    using d(1) unfolding d(2) [symmetric] by (metis image_eqI in_set_dropD)
  ultimately show ?thesis by simp
qed

section \<open>What an edited file can still do\<close>

text \<open>
  A last-run entry that is not a number, or a schedule that is not an object, is not ignored: it makes
  every tick raise, so no schedule of the file runs any more.
\<close>

lemma bad_last_run_stops_tick:
  "fst (tick lab_senv lab_key 2000 (lab_scheduled\<lparr>schedule_file := Some (json_dumps default_sorted
     (JObj [(''last_run'', JObj [(''backup_verify'', JStr ''never'')]), (''schedules'', JList [lab_schedule])]))\<rparr>))
   = Inl (ValueError (''could not convert string to float: '' @ py_repr ''never''))"
  by code_simp

lemma bad_record_stops_tick:
  "fst (tick lab_senv lab_key 2000 (lab_scheduled\<lparr>schedule_file := Some (json_dumps default_sorted
     (JObj [(''last_run'', JObj []), (''schedules'', JList [JInt 1, lab_schedule])]))\<rparr>))
   = Inl (AttributeError (''object has no attribute '' @ py_repr ''get''))"
  by code_simp

end
