(* ===== verification/Trace.thy ===== *)
theory Trace
  imports Prelude
begin

text \<open>
  A machine that is not code of the repository, and the calls made to it. A \<open>host\<close> is the
  machine's state and the sequence of calls so far, so that a property can speak about which
  commands were issued, and in which order. \<open>emits P m\<close> says that \<open>m\<close> makes only calls with \<open>P\<close>.
\<close>

record ('m, 'c) host =
  machine :: 'm
  calls :: "'c list"

definition call_os :: "'c \<Rightarrow> ('m \<Rightarrow> (exn + 'a) \<times> 'm) \<Rightarrow> (('m, 'c) host, 'a) act" where
  "call_os c f = (\<lambda>h. let (r, m) = f (machine h) in (r, \<lparr>machine = m, calls = calls h @ [c]\<rparr>))"

text \<open>Code that looks at the machine beside the runner: it may change the machine, but makes no call.\<close>
definition off_runner :: "('m \<Rightarrow> (exn + 'a) \<times> 'm) \<Rightarrow> (('m, 'c) host, 'a) act" where
  "off_runner f = (\<lambda>h. let (r, m) = f (machine h) in (r, h\<lparr>machine := m\<rparr>))"

lemma call_osD: "call_os c f h = (r, h') \<Longrightarrow> f (machine h) = (r, machine h')"
  by (auto simp: call_os_def split: prod.splits)

section \<open>The calls an action makes\<close>

text \<open>\<open>emits P m\<close>: on every machine, \<open>m\<close> only appends to the call sequence, and only calls with \<open>P\<close>.\<close>

definition emits :: "('c \<Rightarrow> bool) \<Rightarrow> (('m, 'c) host, 'a) act \<Rightarrow> bool" where
  "emits P m \<longleftrightarrow> (\<forall>h. \<exists>new. calls (snd (m h)) = calls h @ new \<and> list_all P new)"

named_theorems emits_intros "introduction rules for emits"

lemma emitsI: "(\<And>h. \<exists>new. calls (snd (m h)) = calls h @ new \<and> list_all P new) \<Longrightarrow> emits P m"
  by (simp add: emits_def)

lemma emitsD: "emits P m \<Longrightarrow> \<exists>new. calls (snd (m h)) = calls h @ new \<and> list_all P new"
  by (simp add: emits_def)

lemma emits_resultD: "emits P m \<Longrightarrow> m h = (r, h') \<Longrightarrow> \<exists>new. calls h' = calls h @ new \<and> list_all P new"
  using emitsD [of P m h] by simp

lemma emits_mono: "emits P m \<Longrightarrow> (\<And>c. P c \<Longrightarrow> Q c) \<Longrightarrow> emits Q m"
  unfolding emits_def by (meson list.pred_mono_strong)

lemma emits_call: "P c \<Longrightarrow> emits P (call_os c f)"
  by (rule emitsI) (simp add: call_os_def case_prod_unfold Let_def)

lemma emits_ret [emits_intros]: "emits P (act_ret x)"
  by (rule emitsI) simp

lemma emits_raise [emits_intros]: "emits P (act_raise e)"
  by (rule emitsI) simp

lemma emits_lift [emits_intros]: "emits P (act_lift r)"
  by (rule emitsI) simp

lemma emits_off_runner [emits_intros]: "emits P (off_runner f)"
  by (rule emitsI) (simp add: off_runner_def case_prod_unfold Let_def)

lemma emits_bind [emits_intros]:
  assumes m: "emits P m" and f: "\<And>x. emits P (f x)"
  shows "emits P (act_bind m f)"
proof (rule emitsI)
  fix h
  obtain r u where u: "m h = (r, u)" by fastforce
  obtain new where new: "calls u = calls h @ new" "list_all P new"
    using emits_resultD [OF m u] by blast
  show "\<exists>new. calls (snd (act_bind m f h)) = calls h @ new \<and> list_all P new"
  proof (cases r)
    case (Inl e)
    with u new show ?thesis by auto
  next
    case (Inr x)
    obtain more where "calls (snd (f x u)) = calls u @ more" "list_all P more"
      using emitsD [OF f] by blast
    with u new Inr show ?thesis by auto
  qed
qed

lemma emits_seq [emits_intros]: "emits P m \<Longrightarrow> emits P k \<Longrightarrow> emits P (act_seq m k)"
  unfolding act_seq_def by (rule emits_bind)

lemma emits_catch [emits_intros]:
  assumes m: "emits P m" and h: "\<And>e. emits P (k e)"
  shows "emits P (act_catch m k)"
proof (rule emitsI)
  fix s
  obtain r u where u: "m s = (r, u)" by fastforce
  obtain new where new: "calls u = calls s @ new" "list_all P new"
    using emits_resultD [OF m u] by blast
  show "\<exists>new. calls (snd (act_catch m k s)) = calls s @ new \<and> list_all P new"
  proof (cases r)
    case (Inl e)
    obtain more where "calls (snd (k e u)) = calls u @ more" "list_all P more"
      using emitsD [OF h] by blast
    with u new Inl show ?thesis by (auto simp: act_catch_eq)
  next
    case (Inr x)
    with u new show ?thesis by (auto simp: act_catch_eq)
  qed
qed

lemma emits_when [emits_intros]: "(b \<Longrightarrow> emits P m) \<Longrightarrow> emits P (act_when b m)"
  by (cases b) (simp_all add: emits_ret)

lemma emits_if [emits_intros]:
  "(b \<Longrightarrow> emits P m) \<Longrightarrow> (\<not> b \<Longrightarrow> emits P k) \<Longrightarrow> emits P (if b then m else k)"
  by simp

lemma emits_for [emits_intros]: "(\<And>x. x \<in> set xs \<Longrightarrow> emits P (f x)) \<Longrightarrow> emits P (act_for xs f)"
  by (induction xs) (auto intro: emits_intros)

lemma emits_map [emits_intros]: "(\<And>x. x \<in> set xs \<Longrightarrow> emits P (f x)) \<Longrightarrow> emits P (act_map f xs)"
  by (induction xs) (auto intro!: emits_ret emits_bind)

lemma emits_option [emits_intros]:
  "emits P n \<Longrightarrow> (\<And>x. emits P (j x)) \<Longrightarrow> emits P (case v of None \<Rightarrow> n | Some x \<Rightarrow> j x)"
  by (cases v) simp_all

lemma emits_sum [emits_intros]:
  "(\<And>x. emits P (n x)) \<Longrightarrow> (\<And>x. emits P (j x)) \<Longrightarrow> emits P (case v of Inl x \<Rightarrow> n x | Inr x \<Rightarrow> j x)"
  by (cases v) simp_all

lemma emits_let [emits_intros]: "emits P (f v) \<Longrightarrow> emits P (let x = v in f x)"
  by simp

lemma emits_prod [emits_intros]:
  "(\<And>x y. emits P (f x y)) \<Longrightarrow> emits P (case v of (x, y) \<Rightarrow> f x y)"
  by (cases v) simp

definition fresh_host :: "'m \<Rightarrow> ('m, 'c) host" where
  "fresh_host m = \<lparr>machine = m, calls = []\<rparr>"

section \<open>Properties of whole call sequences\<close>

text \<open>\<open>traces P m\<close>: on every machine, the calls \<open>m\<close> makes form a sequence with \<open>P\<close>.\<close>

definition traces :: "('c list \<Rightarrow> bool) \<Rightarrow> (('m, 'c) host, 'a) act \<Rightarrow> bool" where
  "traces P m \<longleftrightarrow> (\<forall>h. \<exists>new. calls (snd (m h)) = calls h @ new \<and> P new)"

lemma tracesI: "(\<And>h. \<exists>new. calls (snd (m h)) = calls h @ new \<and> P new) \<Longrightarrow> traces P m"
  by (simp add: traces_def)

lemma tracesD: "traces P m \<Longrightarrow> \<exists>new. calls (snd (m h)) = calls h @ new \<and> P new"
  by (simp add: traces_def)

lemma traces_mono: "traces P m \<Longrightarrow> (\<And>xs. P xs \<Longrightarrow> Q xs) \<Longrightarrow> traces Q m"
  unfolding traces_def by blast

lemma emits_traces: "emits P m = traces (list_all P) m"
  by (simp add: emits_def traces_def)

text \<open>A property of sequences that holds of none and of two such sequences in a row holds of composed actions.\<close>

locale trace_property =
  fixes P :: "'c list \<Rightarrow> bool"
  assumes none: "P []"
    and append: "P xs \<Longrightarrow> P ys \<Longrightarrow> P (xs @ ys)"
begin

lemma traces_pure: "(\<And>h. calls (snd (m h)) = calls h) \<Longrightarrow> traces P m"
  by (rule tracesI) (simp add: none)

lemma traces_ret: "traces P (act_ret x)"
  by (rule traces_pure) simp

lemma traces_raise: "traces P (act_raise e)"
  by (rule traces_pure) simp

lemma traces_lift: "traces P (act_lift r)"
  by (rule traces_pure) simp

lemma traces_call: "P [c] \<Longrightarrow> traces P (call_os c f)"
  by (rule tracesI) (simp add: call_os_def case_prod_unfold Let_def)

lemma traces_bind:
  assumes m: "traces P m" and f: "\<And>x. traces P (f x)"
  shows "traces P (act_bind m f)"
proof (rule tracesI)
  fix h
  obtain r u where u: "m h = (r, u)" by fastforce
  obtain new where new: "calls u = calls h @ new" "P new"
    using tracesD [OF m, of h] u by auto
  show "\<exists>new. calls (snd (act_bind m f h)) = calls h @ new \<and> P new"
  proof (cases r)
    case (Inl e)
    with u new show ?thesis by auto
  next
    case (Inr x)
    obtain more where "calls (snd (f x u)) = calls u @ more" "P more"
      using tracesD [OF f] by blast
    with u new Inr show ?thesis by (auto intro!: append)
  qed
qed

lemma traces_seq: "traces P m \<Longrightarrow> traces P k \<Longrightarrow> traces P (act_seq m k)"
  unfolding act_seq_def by (rule traces_bind)

lemma traces_when: "(b \<Longrightarrow> traces P m) \<Longrightarrow> traces P (act_when b m)"
  by (cases b) (simp_all add: traces_ret)

lemma traces_if: "(b \<Longrightarrow> traces P m) \<Longrightarrow> (\<not> b \<Longrightarrow> traces P k) \<Longrightarrow> traces P (if b then m else k)"
  by simp

lemma traces_option:
  "(v = None \<Longrightarrow> traces P n) \<Longrightarrow> (\<And>x. v = Some x \<Longrightarrow> traces P (j x)) \<Longrightarrow> traces P (case v of None \<Rightarrow> n | Some x \<Rightarrow> j x)"
  by (cases v) simp_all

lemma traces_map: "(\<And>x. x \<in> set xs \<Longrightarrow> traces P (f x)) \<Longrightarrow> traces P (act_map f xs)"
  by (induction xs) (auto intro!: traces_ret traces_bind)

lemma traces_for: "(\<And>x. x \<in> set xs \<Longrightarrow> traces P (f x)) \<Longrightarrow> traces P (act_for xs f)"
  by (induction xs) (auto intro: traces_ret traces_seq)

lemmas traces_intros =
  traces_ret traces_raise traces_lift traces_bind traces_seq traces_when traces_if traces_option traces_map traces_for

end

interpretation all_calls: trace_property "list_all P" for P
  by unfold_locales auto

end
