(* ===== verification/Runner.thy ===== *)
theory Runner
  imports PyJson Trace
begin

text \<open>
  \<open>repair.Runner\<close>: the one boundary through which the modelled modules run commands and
  touch files. The operating system behind it is not code of the repository: it is the
  record \<open>os\<close>, one function per \<open>Runner\<close> method from a machine state to a result (or
  a raised exception) and the next machine state. Every definition that takes a
  \<open>runner\<close> in the source takes this record, and every theorem quantifies over all of
  them: nothing is assumed about what a command does.
\<close>

record proc =
  returncode :: int
  stdout :: string
  stderr :: string

datatype call =
    CRun "string list" int
  | CRead string
  | CWrite string string
  | CAppend string string
  | CExists string
  | CRemove string
  | CMakedirs string
  | CListdir string
  | CNow
  | CSleep int

record 'm os =
  os_run :: "string list \<Rightarrow> int \<Rightarrow> 'm \<Rightarrow> (exn + proc) \<times> 'm"
  os_read_text :: "string \<Rightarrow> 'm \<Rightarrow> (exn + string) \<times> 'm"
  os_write_text_atomic :: "string \<Rightarrow> string \<Rightarrow> 'm \<Rightarrow> (exn + unit) \<times> 'm"
  os_append_text :: "string \<Rightarrow> string \<Rightarrow> 'm \<Rightarrow> (exn + unit) \<times> 'm"
  os_path_exists :: "string \<Rightarrow> 'm \<Rightarrow> (exn + bool) \<times> 'm"
  os_remove :: "string \<Rightarrow> 'm \<Rightarrow> (exn + unit) \<times> 'm"
  os_makedirs :: "string \<Rightarrow> 'm \<Rightarrow> (exn + unit) \<times> 'm"
  os_listdir :: "string \<Rightarrow> 'm \<Rightarrow> (exn + string list) \<times> 'm"
  os_now :: "'m \<Rightarrow> (exn + int) \<times> 'm"
  os_sleep :: "int \<Rightarrow> 'm \<Rightarrow> (exn + unit) \<times> 'm"

definition run :: "'m os \<Rightarrow> string list \<Rightarrow> int \<Rightarrow> (('m, call) host, proc) act" where
  "run os argv timeout = call_os (CRun argv timeout) (os_run os argv timeout)"

definition read_text :: "'m os \<Rightarrow> string \<Rightarrow> (('m, call) host, string) act" where
  "read_text os path = call_os (CRead path) (os_read_text os path)"

definition write_text_atomic :: "'m os \<Rightarrow> string \<Rightarrow> string \<Rightarrow> (('m, call) host, unit) act" where
  "write_text_atomic os path content = call_os (CWrite path content) (os_write_text_atomic os path content)"

definition append_text :: "'m os \<Rightarrow> string \<Rightarrow> string \<Rightarrow> (('m, call) host, unit) act" where
  "append_text os path content = call_os (CAppend path content) (os_append_text os path content)"

definition path_exists :: "'m os \<Rightarrow> string \<Rightarrow> (('m, call) host, bool) act" where
  "path_exists os path = call_os (CExists path) (os_path_exists os path)"

definition remove_path :: "'m os \<Rightarrow> string \<Rightarrow> (('m, call) host, unit) act" where
  "remove_path os path = call_os (CRemove path) (os_remove os path)"

definition makedirs :: "'m os \<Rightarrow> string \<Rightarrow> (('m, call) host, unit) act" where
  "makedirs os path = call_os (CMakedirs path) (os_makedirs os path)"

definition listdir :: "'m os \<Rightarrow> string \<Rightarrow> (('m, call) host, string list) act" where
  "listdir os path = call_os (CListdir path) (os_listdir os path)"

definition clock_now :: "'m os \<Rightarrow> (('m, call) host, int) act" where
  "clock_now os = call_os CNow (os_now os)"

definition sleep :: "'m os \<Rightarrow> int \<Rightarrow> (('m, call) host, unit) act" where
  "sleep os seconds = call_os (CSleep seconds) (os_sleep os seconds)"

lemmas runner_defs =
  run_def read_text_def write_text_atomic_def append_text_def path_exists_def remove_path_def makedirs_def
  listdir_def clock_now_def sleep_def

section \<open>The calls of the runner\<close>

lemma emits_run [emits_intros]: "P (CRun argv t) \<Longrightarrow> emits P (run os argv t)"
  unfolding run_def by (rule emits_call)

lemma emits_read_text [emits_intros]: "P (CRead p) \<Longrightarrow> emits P (read_text os p)"
  unfolding read_text_def by (rule emits_call)

lemma emits_write [emits_intros]: "P (CWrite p c) \<Longrightarrow> emits P (write_text_atomic os p c)"
  unfolding write_text_atomic_def by (rule emits_call)

lemma emits_append [emits_intros]: "P (CAppend p c) \<Longrightarrow> emits P (append_text os p c)"
  unfolding append_text_def by (rule emits_call)

lemma emits_exists [emits_intros]: "P (CExists p) \<Longrightarrow> emits P (path_exists os p)"
  unfolding path_exists_def by (rule emits_call)

lemma emits_remove [emits_intros]: "P (CRemove p) \<Longrightarrow> emits P (remove_path os p)"
  unfolding remove_path_def by (rule emits_call)

lemma emits_makedirs [emits_intros]: "P (CMakedirs p) \<Longrightarrow> emits P (makedirs os p)"
  unfolding makedirs_def by (rule emits_call)

lemma emits_listdir [emits_intros]: "P (CListdir p) \<Longrightarrow> emits P (listdir os p)"
  unfolding listdir_def by (rule emits_call)

lemma emits_now [emits_intros]: "P CNow \<Longrightarrow> emits P (clock_now os)"
  unfolding clock_now_def by (rule emits_call)

lemma emits_sleep [emits_intros]: "P (CSleep n) \<Longrightarrow> emits P (sleep os n)"
  unfolding sleep_def by (rule emits_call)

section \<open>A scripted machine\<close>

text \<open>
  A small concrete machine on which examples are evaluated: a file table, a list of
  mounted paths shown in \<open>/proc/self/mounts\<close>, and exit codes scripted per command.
  A successful \<open>mount\<close> or \<open>umount\<close> changes the list of mounted paths.
\<close>

record lab =
  lab_files :: "(string \<times> string) list"
  lab_dirs :: "string list"
  lab_mounts :: "(string \<times> string) list"
  lab_results :: "(string list \<times> proc) list"
  lab_clock :: int

definition done_ok :: proc where
  "done_ok = \<lparr>returncode = 0, stdout = [], stderr = []\<rparr>"

text \<open>Paths and options without white space, as the kernel lists them (it escapes the others).\<close>
definition one_word :: "string \<Rightarrow> bool" where
  "one_word s \<longleftrightarrow> s \<noteq> [] \<and> list_all (\<lambda>c. \<not> py_space c) s"

definition lab_table :: "lab \<Rightarrow> (string \<times> string) list" where
  "lab_table m = filter (\<lambda>(path, opts). one_word path \<and> one_word opts) (lab_mounts m)"

definition lab_proc_mounts :: "lab \<Rightarrow> string" where
  "lab_proc_mounts m =
     concat (map (\<lambda>(path, opts). ''dev '' @ path @ '' ext4 '' @ opts @ '' 0 0'' @ [CHR 0x0A]) (lab_table m))"

definition lab_effect :: "string list \<Rightarrow> lab \<Rightarrow> lab" where
  "lab_effect argv m =
     (if argv \<noteq> [] \<and> hd argv = ''mount'' then m\<lparr>lab_mounts := AList.update (last argv) ''rw'' (lab_mounts m)\<rparr>
      else if argv \<noteq> [] \<and> hd argv = ''umount'' then m\<lparr>lab_mounts := AList.delete (last argv) (lab_mounts m)\<rparr>
      else m)"

definition lab_run :: "string list \<Rightarrow> int \<Rightarrow> lab \<Rightarrow> (exn + proc) \<times> lab" where
  "lab_run argv t m =
     (let p = (case map_of (lab_results m) argv of
                 Some p \<Rightarrow> p
               | None \<Rightarrow> if argv \<noteq> [] \<and> hd argv = ''mount'' \<and> \<not> one_word (last argv)
                         then done_ok\<lparr>returncode := 32\<rparr> else done_ok)
      in (Inr p, if returncode p = 0 then lab_effect argv m else m))"

definition lab_read :: "string \<Rightarrow> lab \<Rightarrow> (exn + string) \<times> lab" where
  "lab_read path m =
     (if path = ''/proc/self/mounts'' then (Inr (lab_proc_mounts m), m)
      else case map_of (lab_files m) path of None \<Rightarrow> (Inl (OSError path), m) | Some c \<Rightarrow> (Inr c, m))"

definition lab_append :: "string \<Rightarrow> string \<Rightarrow> lab \<Rightarrow> (exn + unit) \<times> lab" where
  "lab_append path c m =
     (let old = (case map_of (lab_files m) path of None \<Rightarrow> [] | Some x \<Rightarrow> x)
      in (Inr (), m\<lparr>lab_files := AList.update path (old @ c) (lab_files m)\<rparr>))"

definition lab_os :: "lab os" where
  "lab_os = \<lparr>os_run = lab_run, os_read_text = lab_read,
     os_write_text_atomic = (\<lambda>path c m. (Inr (), m\<lparr>lab_files := AList.update path c (lab_files m)\<rparr>)),
     os_append_text = lab_append,
     os_path_exists = (\<lambda>path m. (Inr (path \<in> set (lab_dirs m) \<or> path \<in> set (map fst (lab_files m))), m)),
     os_remove = (\<lambda>path m. (Inr (), m\<lparr>lab_files := AList.delete path (lab_files m)\<rparr>)),
     os_makedirs = (\<lambda>path m. (Inr (), m\<lparr>lab_dirs := path # lab_dirs m\<rparr>)),
     os_listdir = (\<lambda>path m. (Inr [], m)),
     os_now = (\<lambda>m. (Inr (lab_clock m), m)),
     os_sleep = (\<lambda>n m. (Inr (), m\<lparr>lab_clock := lab_clock m + n\<rparr>))\<rparr>"

definition empty_lab :: lab where
  "empty_lab = \<lparr>lab_files = [], lab_dirs = [], lab_mounts = [], lab_results = [], lab_clock = 0\<rparr>"

end
