(* ===== verification/DriveInstaller.thy ===== *)
theory DriveInstaller
  imports Runner PyValue
begin

text \<open>
  \<open>src/baseline/lib/drive_installer.py\<close>: the volume set, the sizes, the names of before the rename, and the
  idempotent creation of logical volumes through the runner.

  The tuple of a volume is the record \<open>volume\<close>; the dictionaries keyed by label are association
  lists. \<open>int(remaining * room / tot)\<close> goes through a float in the source; it is integer
  division here, equal while the product is below \<open>2 ^ 53\<close>.
\<close>

section \<open>Volumes\<close>

record volume =
  v_lv :: string
  v_min :: int
  v_max :: int
  v_label :: string
  v_mount :: string

definition mk_volume :: "string \<Rightarrow> int \<Rightarrow> int \<Rightarrow> string \<Rightarrow> string \<Rightarrow> volume" where
  "mk_volume lv lo hi label mountpoint = \<lparr>v_lv = lv, v_min = lo, v_max = hi, v_label = label, v_mount = mountpoint\<rparr>"

definition DEFAULT_VG_NAME :: string where "DEFAULT_VG_NAME = ''pve''"

definition SHARED_VOLUMES :: "volume list" where
  "SHARED_VOLUMES =
     [mk_volume ''baseline_app_state'' 5 50 ''BASELINE'' ''/mnt/BASELINE'',
      mk_volume ''baseline_installer_cache'' 50 200 ''INSTALLER_CACHE'' ''/mnt/INSTALLER_CACHE'',
      mk_volume ''baseline_session_temp'' 5 50 ''SESSION_TEMP'' ''/mnt/SESSION_TEMP'',
      mk_volume ''baseline_substrate'' 1 1 ''SUBSTRATE'' ''/mnt/SUBSTRATE'']"

definition DEFAULT_PERSONAS :: "string list" where
  "DEFAULT_PERSONAS = [''admin'', ''personal'']"

definition persona_label :: "string \<Rightarrow> string" where
  "persona_label persona = ''USER_'' @ upper persona"

definition persona_lv_name :: "string \<Rightarrow> string" where
  "persona_lv_name persona = ''baseline_user_'' @ lower persona"

definition persona_mountpoint :: "string \<Rightarrow> string" where
  "persona_mountpoint persona = ''/mnt/'' @ persona_label persona"

definition persona_volume :: "string \<Rightarrow> volume" where
  "persona_volume persona = mk_volume (persona_lv_name persona) 50 200 (persona_label persona) (persona_mountpoint persona)"

definition appdata_label :: "string \<Rightarrow> string" where
  "appdata_label persona = ''APPDATA_'' @ upper persona"

definition appdata_lv_name :: "string \<Rightarrow> string" where
  "appdata_lv_name persona = ''baseline_appdata_'' @ lower persona"

definition appdata_mountpoint :: "string \<Rightarrow> string" where
  "appdata_mountpoint persona = ''/mnt/'' @ appdata_label persona"

definition appdata_volume :: "string \<Rightarrow> volume" where
  "appdata_volume persona = mk_volume (appdata_lv_name persona) 20 200 (appdata_label persona) (appdata_mountpoint persona)"

definition is_user_label :: "string \<Rightarrow> bool" where
  "is_user_label label \<longleftrightarrow> starts_with label ''USER_'' \<or> label = ''USER''"

definition is_appdata_label :: "string \<Rightarrow> bool" where
  "is_appdata_label label \<longleftrightarrow> starts_with label ''APPDATA_''"

definition baseline_volumes_for :: "string list \<Rightarrow> volume list" where
  "baseline_volumes_for personas = SHARED_VOLUMES @ map persona_volume personas @ map appdata_volume personas"

definition BASELINE_VOLUMES :: "volume list" where
  "BASELINE_VOLUMES = baseline_volumes_for DEFAULT_PERSONAS"

definition MOUNT_OPTIONS :: "(string \<times> string) list" where
  "MOUNT_OPTIONS =
     [(''BASELINE'', ''defaults,nosuid,nodev''),
      (''INSTALLER_CACHE'', ''defaults,nosuid,nodev,noexec''),
      (''SESSION_TEMP'', ''defaults,nosuid,nodev,noexec''),
      (''SUBSTRATE'', ''defaults,nosuid,nodev,noexec'')]"

definition USER_MOUNT_OPTIONS :: string where
  "USER_MOUNT_OPTIONS = ''defaults,nosuid,nodev''"

definition mount_options_for :: "string \<Rightarrow> string" where
  "mount_options_for label =
     (if is_user_label label then USER_MOUNT_OPTIONS
      else if is_appdata_label label then USER_MOUNT_OPTIONS
      else case map_of MOUNT_OPTIONS label of Some o1 \<Rightarrow> o1 | None \<Rightarrow> ''defaults'')"

definition FSTAB_PATH :: string where "FSTAB_PATH = ''/etc/fstab''"

record command_result =
  cr_ok :: bool
  cr_detail :: string
  cr_created :: bool

definition command_result :: "bool \<Rightarrow> string \<Rightarrow> bool \<Rightarrow> command_result" where
  "command_result ok detail created = \<lparr>cr_ok = ok, cr_detail = detail, cr_created = created\<rparr>"

section \<open>Commands and parsers\<close>

definition list_logical_volumes_argv :: "string list" where
  "list_logical_volumes_argv = [''sudo'', ''-n'', ''lvs'', ''--noheadings'', ''-o'', ''vg_name,lv_name'']"

definition vg_free_bytes_argv :: "string \<Rightarrow> string list" where
  "vg_free_bytes_argv vg = [''sudo'', ''-n'', ''vgs'', ''--noheadings'', ''--units'', ''b'', ''--nosuffix'', ''-o'', ''vg_free'', vg]"

definition create_logical_volume_argv :: "string \<Rightarrow> string \<Rightarrow> string \<Rightarrow> string list" where
  "create_logical_volume_argv vg lv sz = [''lvcreate'', ''-n'', lv, ''-L'', sz, vg]"

definition format_and_label_argv :: "string \<Rightarrow> string \<Rightarrow> string list" where
  "format_and_label_argv lv_path label = [''mkfs.ext4'', ''-F'', ''-L'', label, lv_path]"

definition makedirs_argv :: "string \<Rightarrow> string list" where
  "makedirs_argv mountpoint = [''mkdir'', ''-p'', mountpoint]"

text \<open>\<open>options\<close> is \<open>None\<close> or text; the code tests its truth.\<close>
definition mount_argv :: "string \<Rightarrow> string \<Rightarrow> string option \<Rightarrow> string list" where
  "mount_argv lv_path mountpoint options =
     (if options \<noteq> None \<and> options \<noteq> Some [] then [''mount'', ''-o'', the options, lv_path, mountpoint]
      else [''mount'', lv_path, mountpoint])"

definition remount_argv :: "string \<Rightarrow> string \<Rightarrow> string list" where
  "remount_argv mountpoint options = [''mount'', ''-o'', ''remount,'' @ options, mountpoint]"

definition fstab_line :: "string \<Rightarrow> string \<Rightarrow> string \<Rightarrow> string" where
  "fstab_line lv_path mountpoint options = lv_path @ '' '' @ mountpoint @ '' ext4 '' @ options @ '' 0 2'' @ [CHR 0x0A]"

definition parse_logical_volumes :: "string \<Rightarrow> (string \<times> string) list" where
  "parse_logical_volumes text =
     concat (map (\<lambda>line. case split_ws line of a # b # rest \<Rightarrow> [(a, b)] | _ \<Rightarrow> []) (splitlines text))"

definition lv_exists :: "(string \<times> string) list \<Rightarrow> string \<Rightarrow> string \<Rightarrow> bool" where
  "lv_exists groups vg lv \<longleftrightarrow> (vg, lv) \<in> set groups"

definition parse_vg_free_bytes :: "string \<Rightarrow> int option" where
  "parse_vg_free_bytes text = py_int (strip text)"

definition fstab_has_line :: "'m os \<Rightarrow> string \<Rightarrow> (('m, call) host, bool) act" where
  "fstab_has_line os line =
     act_bind (path_exists os FSTAB_PATH) (\<lambda>there.
     if \<not> there then act_ret False
     else act_bind (read_text os FSTAB_PATH) (\<lambda>text. act_ret (contains line text)))"

definition ensure_fstab_entry :: "'m os \<Rightarrow> string \<Rightarrow> string \<Rightarrow> string \<Rightarrow> (('m, call) host, unit) act" where
  "ensure_fstab_entry os lv_path mountpoint options =
     (let line = fstab_line lv_path mountpoint options
      in act_bind (fstab_has_line os line) (\<lambda>has.
         act_when (\<not> has) (append_text os FSTAB_PATH line)))"

definition ensure_mounted_with_options :: "'m os \<Rightarrow> string \<Rightarrow> string \<Rightarrow> string \<Rightarrow> (('m, call) host, unit) act" where
  "ensure_mounted_with_options os lv_path mountpoint options =
     act_bind (run os (mount_argv lv_path mountpoint (Some options)) 15) (\<lambda>p.
     act_when (returncode p \<noteq> 0)
       (act_bind (run os (remount_argv mountpoint options) 15) (\<lambda>_. act_ret ())))"

section \<open>Names of before the rename\<close>

definition LEGACY_LABEL_PREFIX :: string where "LEGACY_LABEL_PREFIX = ''USER_PERSISTENCE_''"
definition LEGACY_LV_PREFIX :: string where "LEGACY_LV_PREFIX = ''baseline_user_persistence_''"

definition LEGACY_EXACT :: "(string \<times> string) list" where
  "LEGACY_EXACT =
     [(''SUBSTRATE_PERSISTENCE'', ''SUBSTRATE''),
      (''USER_PERSISTENCE'', ''USER''),
      (''baseline_substrate_persistence'', ''baseline_substrate''),
      (''baseline_user_persistence'', ''baseline_user'')]"

definition canonical_name :: "string \<Rightarrow> string" where
  "canonical_name name =
     (case map_of LEGACY_EXACT name of
        Some new \<Rightarrow> new
      | None \<Rightarrow>
          if starts_with name LEGACY_LABEL_PREFIX then ''USER_'' @ drop (length LEGACY_LABEL_PREFIX) name
          else if starts_with name LEGACY_LV_PREFIX then ''baseline_user_'' @ drop (length LEGACY_LV_PREFIX) name
          else name)"

definition legacy_name :: "string \<Rightarrow> string option" where
  "legacy_name name =
     (case find (\<lambda>(old, new). new = name) LEGACY_EXACT of
        Some (old, new) \<Rightarrow> Some old
      | None \<Rightarrow>
          if starts_with name ''USER_'' \<and> name \<noteq> ''USER'' then Some (LEGACY_LABEL_PREFIX @ drop 5 name)
          else if starts_with name ''baseline_user_'' then Some (LEGACY_LV_PREFIX @ drop 14 name)
          else None)"

definition is_legacy_name :: "string \<Rightarrow> bool" where
  "is_legacy_name name \<longleftrightarrow> canonical_name name \<noteq> name"

section \<open>Creating what is missing\<close>

definition or_else :: "string \<Rightarrow> string \<Rightarrow> string" where
  "or_else a b = (if a = [] then b else a)"

definition ensure_volume ::
  "'m os \<Rightarrow> string \<Rightarrow> string \<Rightarrow> string \<Rightarrow> string \<Rightarrow> string \<Rightarrow> (('m, call) host, command_result) act" where
  "ensure_volume os vg lv sz label mountpoint =
     act_bind (run os list_logical_volumes_argv 15) (\<lambda>p.
     if returncode p \<noteq> 0 then
       act_ret (command_result False (or_else (strip (stderr p)) (''lvs exited '' @ str_of_int (returncode p))) False)
     else
       let groups = parse_logical_volumes (stdout p); lv_path = ''/dev/'' @ vg @ ''/'' @ lv;
           options = mount_options_for label
       in if lv_exists groups vg lv then
            act_seq (ensure_mounted_with_options os lv_path mountpoint options) (
            act_seq (ensure_fstab_entry os lv_path mountpoint options)
              (act_ret (command_result True (lv @ '' already existed on '' @ vg @ '' - not reformatted'') False)))
          else if legacy_name lv \<noteq> None \<and> legacy_name lv \<noteq> Some [] \<and> lv_exists groups vg (the (legacy_name lv)) then
            act_ret (command_result False (the (legacy_name lv) @ '' exists on '' @ vg @ '': this is '' @ lv @
              '' under its pre-rename name. Not creating a second volume - rename it (lvrename + e2label) to adopt it.'') False)
          else
            act_bind (run os (create_logical_volume_argv vg lv sz) 30) (\<lambda>c.
            if returncode c \<noteq> 0 then
              act_ret (command_result False (''lvcreate failed: '' @ strip (stderr c)) False)
            else
              act_bind (run os (format_and_label_argv lv_path label) 60) (\<lambda>f.
              if returncode f \<noteq> 0 then
                act_ret (command_result False
                  (''mkfs.ext4 failed on newly-created '' @ lv @ '': '' @ strip (stderr f)) False)
              else
                act_seq (run os (makedirs_argv mountpoint) 10) (
                act_bind (run os (mount_argv lv_path mountpoint (Some options)) 15) (\<lambda>m.
                if returncode m \<noteq> 0 then
                  act_ret (command_result False
                    (''mount failed on newly-created '' @ lv @ '': '' @ strip (stderr m)) False)
                else
                  act_seq (ensure_fstab_entry os lv_path mountpoint options)
                    (act_ret (command_result True
                      (lv @ '' created, formatted '' @ label @ '', mounted at '' @ mountpoint) True)))))))"

record detection =
  has_existing_install :: bool
  found_volumes :: "string list"
  missing_volumes :: "string list"
  legacy_named_volumes :: "(string \<times> string) list"
  detect_error :: "string option"

definition detect_existing_baseline_install ::
  "'m os \<Rightarrow> string \<Rightarrow> string list \<Rightarrow> (('m, call) host, detection) act" where
  "detect_existing_baseline_install os vg personas =
     (let names = map v_lv (baseline_volumes_for personas)
      in act_bind (run os list_logical_volumes_argv 15) (\<lambda>p.
         if returncode p \<noteq> 0 then
           act_ret \<lparr>has_existing_install = False, found_volumes = [], missing_volumes = names, legacy_named_volumes = [],
             detect_error = Some (or_else (strip (stderr p)) (''lvs exited '' @ str_of_int (returncode p)))\<rparr>
         else
           let groups = parse_logical_volumes (stdout p);
               found = filter (lv_exists groups vg) names;
               legacy = fold (\<lambda>n. AList.update n (the (legacy_name n)))
                 (filter (\<lambda>n. n \<notin> set found \<and> legacy_name n \<noteq> None \<and> legacy_name n \<noteq> Some []
                    \<and> lv_exists groups vg (the (legacy_name n))) names) [];
               missing = filter (\<lambda>n. n \<notin> set found \<and> n \<notin> fst ` set legacy) names
           in act_ret \<lparr>has_existing_install = (missing = [] \<and> legacy = []), found_volumes = found,
                missing_volumes = missing, legacy_named_volumes = legacy, detect_error = None\<rparr>))"

section \<open>Sizes\<close>

definition GiB :: int where "GiB = 1024 ^ 3"
definition DEFAULT_SAFETY_MARGIN_BYTES :: int where "DEFAULT_SAFETY_MARGIN_BYTES = 1 * GiB"

definition usable_gb :: "int \<Rightarrow> int \<Rightarrow> int" where
  "usable_gb free_bytes margin = max (free_bytes - margin) 0 div GiB"

definition adaptive_single_size_gb :: "int \<Rightarrow> int \<Rightarrow> int \<Rightarrow> int \<Rightarrow> int" where
  "adaptive_single_size_gb free_bytes desired_gb margin min_gb =
     (if usable_gb free_bytes margin \<ge> desired_gb then desired_gb
      else if usable_gb free_bytes margin \<ge> min_gb then usable_gb free_bytes margin else 0)"

text \<open>\<open>{label: f for ... in volumes}\<close>\<close>
definition by_label :: "(volume \<Rightarrow> 'b) \<Rightarrow> volume list \<Rightarrow> (string \<times> 'b) list" where
  "by_label f volumes = fold (\<lambda>v. AList.update (v_label v) (f v)) volumes []"

definition val_at :: "(string \<times> int) list \<Rightarrow> string \<Rightarrow> int" where
  "val_at xs k = the (map_of xs k)"

definition compute_adaptive_plan :: "int \<Rightarrow> volume list \<Rightarrow> int \<Rightarrow> (string \<times> int) list" where
  "compute_adaptive_plan free_bytes volumes margin =
     (let mins = by_label v_min volumes; maxs = by_label v_max volumes;
          total_min = sum_list (map snd mins); usable = usable_gb free_bytes margin
      in if usable < total_min then map (\<lambda>(label, _). (label, 0)) mins
         else
           let remaining = usable - total_min;
               room = map (\<lambda>(label, lo). (label, val_at maxs label - lo)) mins;
               total_room = sum_list (map snd room)
           in if remaining \<le> 0 \<or> total_room \<le> 0 then mins
              else map (\<lambda>(label, lo).
                     if val_at room label \<le> 0 then (label, lo)
                     else (label, min (val_at maxs label) (lo + remaining * val_at room label div total_room))) mins)"

definition ensure_baseline_volumes ::
  "'m os \<Rightarrow> string \<Rightarrow> string list \<Rightarrow> (('m, call) host, (string \<times> command_result) list) act" where
  "ensure_baseline_volumes os vg personas =
     (let volumes = baseline_volumes_for personas
      in act_bind (run os (vg_free_bytes_argv vg) 15) (\<lambda>p.
         if returncode p \<noteq> 0 then
           act_ret (by_label (\<lambda>_. command_result False
             (or_else (strip (stderr p)) (''vgs exited '' @ str_of_int (returncode p))) False) volumes)
         else case parse_vg_free_bytes (stdout p) of
           None \<Rightarrow> act_ret (by_label (\<lambda>_. command_result False
             (''could not determine free space in VG '' @ py_repr vg) False) volumes)
         | Some free_bytes \<Rightarrow>
             let plan = compute_adaptive_plan free_bytes volumes DEFAULT_SAFETY_MARGIN_BYTES
             in act_bind (act_map (\<lambda>v.
                  let size_gb = val_at plan (v_label v)
                  in if size_gb \<le> 0 then
                       act_ret (v_label v, command_result False
                         (''insufficient free space in VG '' @ py_repr vg @ '' for '' @ v_label v @ '' - '' @
                          str_of_int free_bytes @ '' bytes free, adaptive plan gave 0G real usable space'') False)
                     else
                       act_bind (ensure_volume os vg (v_lv v) (str_of_int size_gb @ ''G'') (v_label v) (v_mount v))
                         (\<lambda>r. act_ret (v_label v, r))) volumes) (\<lambda>rs.
                act_ret (fold (\<lambda>(l, r). AList.update l r) rs []))))"

section \<open>Telemetry\<close>

record volume_usage =
  vu_label :: string
  vu_mount :: string
  vu_total :: int
  vu_used :: int
  vu_available :: int
  vu_percent :: rat

definition df_argv :: "string \<Rightarrow> string list" where
  "df_argv mountpoint = [''df'', ''-B1'', ''--output=size,used,avail,pcent'', mountpoint]"

definition rstrip_char :: "char \<Rightarrow> string \<Rightarrow> string" where
  "rstrip_char c s = rev (lstrip_char c (rev s))"

definition parse_df_output :: "string \<Rightarrow> (int \<times> int \<times> int \<times> rat) option" where
  "parse_df_output text =
     (case filter (\<lambda>ln. strip ln \<noteq> []) (splitlines text) of
        header # line # rest \<Rightarrow>
          (case split_ws line of
             a # b # c # d # rest \<Rightarrow>
               (case (py_int a, py_int b, py_int c, dec_value (rstrip_char (CHR ''%'') d)) of
                  (Some tot, Some used, Some avail, Some percent) \<Rightarrow> Some (tot, used, avail, percent)
                | _ \<Rightarrow> None)
           | _ \<Rightarrow> None)
      | _ \<Rightarrow> None)"

definition list_logical_volume_sizes_argv :: "string \<Rightarrow> string list" where
  "list_logical_volume_sizes_argv vg =
     [''sudo'', ''-n'', ''lvs'', ''--noheadings'', ''--units'', ''b'', ''--nosuffix'', ''-o'', ''lv_name,lv_size'', vg]"

definition parse_logical_volume_sizes :: "string \<Rightarrow> (string \<times> int) list" where
  "parse_logical_volume_sizes text =
     fold (\<lambda>line sizes. case split_ws line of
         a # b # rest \<Rightarrow> (case py_int b of Some n \<Rightarrow> AList.update a n sizes | None \<Rightarrow> sizes)
       | _ \<Rightarrow> sizes) (splitlines text) []"

record volume_detail =
  vd_label :: string
  vd_mount :: string
  vd_lv :: string
  vd_exists :: bool
  vd_size :: "int option"
  vd_total :: "int option"
  vd_used :: "int option"
  vd_percent :: "rat option"

definition collect_volume_usage :: "'m os \<Rightarrow> string list \<Rightarrow> (('m, call) host, volume_usage list) act" where
  "collect_volume_usage os personas =
     act_bind (act_map (\<lambda>v.
         act_bind (run os (df_argv (v_mount v)) 10) (\<lambda>p.
         act_ret (if returncode p \<noteq> 0 then []
                  else case parse_df_output (stdout p) of
                    None \<Rightarrow> []
                  | Some (tot, used, avail, percent) \<Rightarrow>
                      [\<lparr>vu_label = v_label v, vu_mount = v_mount v, vu_total = tot, vu_used = used,
                        vu_available = avail, vu_percent = percent\<rparr>]))) (baseline_volumes_for personas))
       (\<lambda>rows. act_ret (concat rows))"

definition collect_volume_details ::
  "'m os \<Rightarrow> string \<Rightarrow> string list \<Rightarrow> (('m, call) host, volume_detail list) act" where
  "collect_volume_details os vg personas =
     act_bind (run os list_logical_volumes_argv 15) (\<lambda>p.
     let groups = (if returncode p = 0 then parse_logical_volumes (stdout p) else [])
     in act_bind (run os (list_logical_volume_sizes_argv vg) 15) (\<lambda>q.
        let sizes = (if returncode q = 0 then parse_logical_volume_sizes (stdout q) else [])
        in act_bind (collect_volume_usage os personas) (\<lambda>usages.
           let by = fold (\<lambda>u. AList.update (vu_label u) u) usages []
           in act_ret (map (\<lambda>v.
                let there = lv_exists groups vg (v_lv v); usage = map_of by (v_label v)
                in \<lparr>vd_label = v_label v, vd_mount = v_mount v, vd_lv = v_lv v, vd_exists = there,
                    vd_size = (if there then map_of sizes (v_lv v) else None),
                    vd_total = map_option vu_total usage, vd_used = map_option vu_used usage,
                    vd_percent = map_option vu_percent usage\<rparr>) (baseline_volumes_for personas)))))"

section \<open>The adaptive plan\<close>

lemma by_label_distinct:
  "distinct (map v_label vs) \<Longrightarrow> by_label f vs = map (\<lambda>v. (v_label v, f v)) vs"
proof -
  have "distinct (map v_label vs) \<Longrightarrow> v_label ` set vs \<inter> fst ` set acc = {} \<Longrightarrow>
      fold (\<lambda>v. AList.update (v_label v) (f v)) vs acc = acc @ map (\<lambda>v. (v_label v, f v)) vs" for acc
  proof (induction vs arbitrary: acc)
    case Nil
    then show ?case by simp
  next
    case (Cons v vs)
    have "AList.update (v_label v) (f v) acc = acc @ [(v_label v, f v)]"
      using Cons.prems(2) by (intro update_new) auto
    then show ?case using Cons by auto
  qed
  then show "distinct (map v_label vs) \<Longrightarrow> by_label f vs = map (\<lambda>v. (v_label v, f v)) vs"
    by (simp add: by_label_def)
qed

lemma map_of_labels:
  "distinct (map v_label vs) \<Longrightarrow> v \<in> set vs \<Longrightarrow> map_of (map (\<lambda>v. (v_label v, f v)) vs) (v_label v) = Some (f v)"
  by (induction vs) (auto simp: rev_image_eqI)

definition room_of :: "volume \<Rightarrow> int" where
  "room_of v = v_max v - v_min v"

definition total_min_of :: "volume list \<Rightarrow> int" where
  "total_min_of vs = sum_list (map v_min vs)"

definition planned :: "volume list \<Rightarrow> int \<Rightarrow> volume \<Rightarrow> int" where
  "planned vs usable v =
     (if room_of v \<le> 0 then v_min v
      else min (v_max v) (v_min v + (usable - total_min_of vs) * room_of v div sum_list (map room_of vs)))"

text \<open>The plan written out volume by volume, for volumes with different labels.\<close>

lemma plan_by_volume:
  assumes d: "distinct (map v_label vs)"
  shows "compute_adaptive_plan free vs margin =
    (if usable_gb free margin < total_min_of vs then map (\<lambda>v. (v_label v, 0)) vs
     else if usable_gb free margin - total_min_of vs \<le> 0 \<or> sum_list (map room_of vs) \<le> 0
     then map (\<lambda>v. (v_label v, v_min v)) vs
     else map (\<lambda>v. (v_label v, planned vs (usable_gb free margin) v)) vs)"
proof -
  let ?room = "map (\<lambda>v. (v_label v, room_of v)) vs"
  have room: "map (\<lambda>(label, lo). (label, val_at (by_label v_max vs) label - lo)) (by_label v_min vs) = ?room"
    by (simp add: by_label_distinct [OF d] room_of_def val_at_def map_of_labels [OF d])
  have r: "val_at ?room (v_label v) = room_of v" "val_at (by_label v_max vs) (v_label v) = v_max v"
    if "v \<in> set vs" for v
    by (simp_all add: by_label_distinct [OF d] val_at_def map_of_labels [OF d that])
  have snds: "sum_list (map snd (by_label v_min vs)) = total_min_of vs" "sum_list (map snd ?room) = sum_list (map room_of vs)"
    by (simp_all add: by_label_distinct [OF d] total_min_of_def comp_def)
  show ?thesis
    unfolding compute_adaptive_plan_def Let_def room snds
    using r by (auto simp: by_label_distinct [OF d] planned_def)
qed

lemma sum_shares_le:
  fixes rs :: "int list"
  assumes "0 < t" "0 \<le> n" "\<forall>r \<in> set rs. 0 \<le> r"
  shows "sum_list (map (\<lambda>r. n * r div t) rs) * t \<le> n * sum_list rs"
  using assms(3)
proof (induction rs)
  case Nil
  then show ?case by simp
next
  case (Cons r rs)
  have "n * r div t * t \<le> n * r" using assms(1) by (simp flip: minus_mod_eq_div_mult)
  then show ?case using Cons by (simp add: distrib_left distrib_right)
qed

lemma planned_sum:
  assumes ranges: "\<forall>v \<in> set vs. 0 \<le> v_min v \<and> v_min v \<le> v_max v"
    and more: "0 < usable - total_min_of vs" "0 < sum_list (map room_of vs)"
  shows "sum_list (map (planned vs usable) vs) \<le> usable"
proof -
  let ?t = "sum_list (map room_of vs)" and ?n = "usable - total_min_of vs"
  have rooms: "\<forall>r \<in> set (map room_of vs). 0 \<le> r" using ranges by (auto simp: room_of_def)
  have "sum_list (map (\<lambda>r. ?n * r div ?t) (map room_of vs)) * ?t \<le> ?n * ?t"
    by (rule sum_shares_le) (use more rooms in auto)
  then have shares: "sum_list (map (\<lambda>v. ?n * room_of v div ?t) vs) \<le> ?n"
    using more(2) by (simp add: comp_def)
  have "planned vs usable v \<le> v_min v + ?n * room_of v div ?t" if "v \<in> set vs" for v
    using ranges that more by (auto simp: planned_def room_of_def)
  then have "sum_list (map (planned vs usable) vs) \<le> sum_list (map (\<lambda>v. v_min v + ?n * room_of v div ?t) vs)"
    by (intro sum_list_mono) auto
  also have "\<dots> = total_min_of vs + sum_list (map (\<lambda>v. ?n * room_of v div ?t) vs)"
    by (simp add: sum_list_addf total_min_of_def)
  finally show ?thesis using shares by linarith
qed

lemma planned_range:
  assumes "v_min v \<le> v_max v" "0 \<le> usable - total_min_of vs" "0 < sum_list (map room_of vs)"
  shows "v_min v \<le> planned vs usable v \<and> planned vs usable v \<le> v_max v"
  using assms by (auto simp: planned_def room_of_def pos_imp_zdiv_nonneg_iff)

lemma adaptive_plan_bounds:
  assumes d: "distinct (map v_label vs)" and ranges: "\<forall>v \<in> set vs. 0 \<le> v_min v \<and> v_min v \<le> v_max v"
  shows "map fst (compute_adaptive_plan free vs margin) = map v_label vs"
    and "usable_gb free margin < total_min_of vs \<Longrightarrow> v \<in> set vs \<Longrightarrow>
           val_at (compute_adaptive_plan free vs margin) (v_label v) = 0"
    and "total_min_of vs \<le> usable_gb free margin \<Longrightarrow> v \<in> set vs \<Longrightarrow>
           v_min v \<le> val_at (compute_adaptive_plan free vs margin) (v_label v)
           \<and> val_at (compute_adaptive_plan free vs margin) (v_label v) \<le> v_max v"
    and "sum_list (map snd (compute_adaptive_plan free vs margin)) \<le> usable_gb free margin"
proof -
  note p = plan_by_volume [OF d, of free margin]
  have u: "0 \<le> usable_gb free margin" by (simp add: usable_gb_def GiB_def)
  show "map fst (compute_adaptive_plan free vs margin) = map v_label vs"
    unfolding p by (auto simp: comp_def)
  show "usable_gb free margin < total_min_of vs \<Longrightarrow> v \<in> set vs \<Longrightarrow>
           val_at (compute_adaptive_plan free vs margin) (v_label v) = 0"
    unfolding p val_at_def by (simp add: map_of_labels [OF d, where f = "\<lambda>_. 0"])
  show "v_min v \<le> val_at (compute_adaptive_plan free vs margin) (v_label v)
         \<and> val_at (compute_adaptive_plan free vs margin) (v_label v) \<le> v_max v"
    if "total_min_of vs \<le> usable_gb free margin" "v \<in> set vs"
    unfolding p val_at_def
    using that ranges planned_range [of v "usable_gb free margin" vs]
    by (auto simp: map_of_labels [OF d])
  show "sum_list (map snd (compute_adaptive_plan free vs margin)) \<le> usable_gb free margin"
    unfolding p using planned_sum [OF ranges, of "usable_gb free margin"] u
    by (auto simp: comp_def total_min_of_def)
qed

section \<open>Names\<close>

lemma starts_withE: "starts_with s p \<Longrightarrow> (\<And>r. s = p @ r \<Longrightarrow> thesis) \<Longrightarrow> thesis"
  by (auto simp: starts_with_iff)

lemma canonical_legacy: "legacy_name n = Some old \<Longrightarrow> canonical_name old = n \<and> old \<noteq> n"
proof -
  assume l: "legacy_name n = Some old"
  consider (exact) "(old, n) \<in> set LEGACY_EXACT"
    | (label) r where "n = ''USER_'' @ r" "old = LEGACY_LABEL_PREFIX @ r"
    | (lv) r where "n = ''baseline_user_'' @ r" "old = LEGACY_LV_PREFIX @ r"
  proof (cases "find (\<lambda>(old, new). new = n) LEGACY_EXACT")
    case None
    then show thesis using l label lv
      by (auto simp: legacy_name_def starts_with_iff split: if_splits)
  next
    case (Some x)
    then have "x \<in> set LEGACY_EXACT \<and> snd x = n" by (metis (mono_tags) find_Some_iff nth_mem split_beta)
    moreover have "fst x = old" using l Some by (simp add: legacy_name_def case_prod_beta)
    ultimately show thesis using exact by (metis prod.collapse)
  qed
  then show ?thesis
  proof cases
    case exact
    then show ?thesis by (auto simp: LEGACY_EXACT_def canonical_name_def)
  next
    case label
    then show ?thesis
      by (simp add: canonical_name_def LEGACY_EXACT_def LEGACY_LABEL_PREFIX_def starts_with_def)
  next
    case lv
    then show ?thesis
      by (simp add: canonical_name_def LEGACY_EXACT_def LEGACY_LABEL_PREFIX_def LEGACY_LV_PREFIX_def starts_with_def)
  qed
qed

section \<open>Nothing that exists is formatted\<close>

text \<open>The device a call formats, and the device a call creates.\<close>

fun formats :: "call \<Rightarrow> string option" where
  "formats (CRun argv t) = (if argv \<noteq> [] \<and> hd argv = ''mkfs.ext4'' then Some (last argv) else None)"
| "formats _ = None"

fun creates :: "call \<Rightarrow> string option" where
  "creates (CRun [cmd, n, lv, l, sz, vg] t) = (if cmd = ''lvcreate'' then Some (''/dev/'' @ vg @ ''/'' @ lv) else None)"
| "creates _ = None"

text \<open>Every format is of the logical volume that the call just before it created.\<close>

fun formats_only_created :: "call option \<Rightarrow> call list \<Rightarrow> bool" where
  "formats_only_created prev [] = True"
| "formats_only_created prev (c # cs) =
     ((formats c \<noteq> None \<longrightarrow> prev \<noteq> None \<and> creates (the prev) = formats c) \<and> formats_only_created (Some c) cs)"

lemma formats_only_created_mono: "formats_only_created None xs \<Longrightarrow> formats_only_created prev xs"
  by (cases xs) auto

lemma formats_only_created_append:
  "formats_only_created prev xs \<Longrightarrow> formats_only_created None ys \<Longrightarrow> formats_only_created prev (xs @ ys)"
  by (induction xs arbitrary: prev) (auto intro: formats_only_created_mono)

interpretation created: trace_property "formats_only_created None"
  by unfold_locales (auto intro: formats_only_created_append)

lemma created_run: "formats (CRun argv t) = None \<Longrightarrow> traces (formats_only_created None) (run os argv t)"
  unfolding run_def by (rule created.traces_call) simp

lemma created_calls:
  "traces (formats_only_created None) (read_text os p)"
  "traces (formats_only_created None) (append_text os p c)"
  "traces (formats_only_created None) (path_exists os p)"
  by (simp_all add: runner_defs created.traces_call)

lemmas created_intros = created.traces_intros created_run created_calls

lemma created_fstab: "traces (formats_only_created None) (ensure_fstab_entry os lv_path mountpoint options)"
  unfolding ensure_fstab_entry_def fstab_has_line_def Let_def by (intro created_intros)

lemma created_mount: "traces (formats_only_created None) (ensure_mounted_with_options os lv_path mountpoint options)"
  unfolding ensure_mounted_with_options_def
  by (intro created_intros) (simp_all add: mount_argv_def remount_argv_def)

lemma created_then_formatted:
  fixes os :: "'m os"
  assumes "creates (CRun c t) = formats (CRun f u)" "formats (CRun c t) = None"
    and k: "\<And>p. traces (formats_only_created None) (k p)"
  shows "traces (formats_only_created None)
    (act_bind (run os c t) (\<lambda>p. if b p then act_ret (g p) else act_bind (run os f u) k))"
proof (rule tracesI)
  fix h :: "('m, call) host"
  let ?m = "act_bind (run os c t) (\<lambda>p. if b p then act_ret (g p) else act_bind (run os f u) k)"
  obtain r m where r: "os_run os c t (machine h) = (r, m)" by fastforce
  let ?h1 = "\<lparr>machine = m, calls = calls h @ [CRun c t]\<rparr>"
  have run: "run os c t h = (r, ?h1)" by (simp add: run_def call_os_def r)
  show "\<exists>new. calls (snd (?m h)) = calls h @ new \<and> formats_only_created None new"
  proof (cases "\<exists>p. r = Inr p \<and> \<not> b p")
    case False
    then show ?thesis using run assms(2) by (cases r) auto
  next
    case True
    then obtain p where p: "r = Inr p" "\<not> b p" by blast
    obtain r' m' where r': "os_run os f u m = (r', m')" by fastforce
    let ?h2 = "\<lparr>machine = m', calls = calls h @ [CRun c t, CRun f u]\<rparr>"
    have run': "run os f u ?h1 = (r', ?h2)" by (simp add: run_def call_os_def r')
    show ?thesis
    proof (cases r')
      case (Inl e)
      then show ?thesis using run run' p assms(1,2) by auto
    next
      case (Inr q)
      obtain more where "calls (snd (k q ?h2)) = calls ?h2 @ more" "formats_only_created None more"
        using tracesD [OF k] by blast
      then show ?thesis
        using run run' p Inr assms(1,2) by (auto intro: formats_only_created_mono)
    qed
  qed
qed

lemma created_volume: "traces (formats_only_created None) (ensure_volume os vg lv sz label mountpoint)"
  unfolding ensure_volume_def Let_def
  by (intro created_intros created_fstab created_mount created_then_formatted)
    (simp_all add: list_logical_volumes_argv_def create_logical_volume_argv_def format_and_label_argv_def
      makedirs_argv_def mount_argv_def)

lemma created_baseline_volumes: "traces (formats_only_created None) (ensure_baseline_volumes os vg personas)"
  unfolding ensure_baseline_volumes_def Let_def
  by (intro created_intros created_volume) (simp add: vg_free_bytes_argv_def)

text \<open>A call that creates or formats a volume.\<close>

definition changes_volumes :: "call \<Rightarrow> bool" where
  "changes_volumes c \<longleftrightarrow> creates c \<noteq> None \<or> formats c \<noteq> None"

lemma harmless_mount: "emits (\<lambda>c. \<not> changes_volumes c) (ensure_mounted_with_options os lv_path mountpoint options)"
  unfolding ensure_mounted_with_options_def
  by (intro emits_intros) (simp_all add: changes_volumes_def mount_argv_def remount_argv_def)

lemma harmless_fstab: "emits (\<lambda>c. \<not> changes_volumes c) (ensure_fstab_entry os lv_path mountpoint options)"
  unfolding ensure_fstab_entry_def fstab_has_line_def Let_def
  by (intro emits_intros) (simp_all add: changes_volumes_def)

lemma run_result:
  assumes "os_run os argv t (machine h) = (r, m)"
  shows "run os argv t h = (r, \<lparr>machine = m, calls = calls h @ [CRun argv t]\<rparr>)"
  using assms by (simp add: run_def call_os_def)

lemma existing_volume_kept:
  assumes lvs: "os_run os list_logical_volumes_argv 15 (machine h) = (Inr p, m)" "returncode p = 0"
    and there: "lv_exists (parse_logical_volumes (stdout p)) vg lv
      \<or> (\<exists>old. legacy_name lv = Some old \<and> old \<noteq> [] \<and> lv_exists (parse_logical_volumes (stdout p)) vg old)"
  shows "\<exists>new. calls (snd (ensure_volume os vg lv sz label mountpoint h)) = calls h @ new
           \<and> list_all (\<lambda>c. \<not> changes_volumes c) new"
proof -
  let ?h = "\<lparr>machine = m, calls = calls h @ [CRun list_logical_volumes_argv 15]\<rparr>"
  let ?lv = "''/dev/'' @ vg @ ''/'' @ lv"
  have r: "run os list_logical_volumes_argv 15 h = (Inr p, ?h)" by (rule run_result [OF lvs(1)])
  have l: "\<not> changes_volumes (CRun list_logical_volumes_argv 15)"
    by (simp add: changes_volumes_def list_logical_volumes_argv_def)
  show ?thesis
  proof (cases "lv_exists (parse_logical_volumes (stdout p)) vg lv")
    case True
    let ?rest = "act_seq (ensure_mounted_with_options os ?lv mountpoint (mount_options_for label))
      (act_seq (ensure_fstab_entry os ?lv mountpoint (mount_options_for label))
        (act_ret (command_result True (lv @ '' already existed on '' @ vg @ '' - not reformatted'') False)))"
    have "emits (\<lambda>c. \<not> changes_volumes c) ?rest"
      by (intro emits_intros harmless_mount harmless_fstab)
    then obtain new where "calls (snd (?rest ?h)) = calls ?h @ new" "list_all (\<lambda>c. \<not> changes_volumes c) new"
      using emitsD by blast
    then show ?thesis
      using r l True lvs(2) by (simp add: ensure_volume_def Let_def)
  next
    case False
    then show ?thesis
      using r l there lvs(2) by (auto simp: ensure_volume_def Let_def)
  qed
qed

section \<open>Properties\<close>

text \<open>
  C14. The adaptive plan keeps within the free space and each volume's limits. For volumes with
  different labels and sane limits: the plan names every volume once, in order; when the free space less
  the safety margin cannot hold every minimum, every size is zero; otherwise every volume has at least its
  minimum and at most its maximum; and the sizes, in bytes, never add up to more than what is free
  above the margin.
\<close>
theorem adaptive_plan_fits:
  assumes "distinct (map v_label volumes)" and "list_all (\<lambda>v. 0 \<le> v_min v \<and> v_min v \<le> v_max v) volumes"
  shows "map fst (compute_adaptive_plan free volumes margin) = map v_label volumes
    \<and> list_all (\<lambda>v. let n = val_at (compute_adaptive_plan free volumes margin) (v_label v)
        in if usable_gb free margin < sum_list (map v_min volumes) then n = 0 else v_min v \<le> n \<and> n \<le> v_max v) volumes
    \<and> sum_list (map snd (compute_adaptive_plan free volumes margin)) * GiB \<le> max (free - margin) 0"
proof -
  note b = adaptive_plan_bounds [OF assms(1) assms(2) [unfolded list_all_iff], of free margin]
  have "usable_gb free margin * GiB \<le> max (free - margin) 0"
    unfolding usable_gb_def GiB_def by (simp flip: minus_mod_eq_div_mult)
  moreover have "sum_list (map snd (compute_adaptive_plan free volumes margin)) * GiB \<le> usable_gb free margin * GiB"
    using b(4) by (simp add: GiB_def)
  ultimately show ?thesis
    using b(1-3) by (auto simp: list_all_iff Let_def total_min_of_def)
qed

theorem adaptive_plan_fits_witness:
  "map fst (compute_adaptive_plan (400 * GiB) BASELINE_VOLUMES DEFAULT_SAFETY_MARGIN_BYTES) = map v_label BASELINE_VOLUMES"
proof -
  have "distinct (map v_label BASELINE_VOLUMES)" "list_all (\<lambda>v. 0 \<le> v_min v \<and> v_min v \<le> v_max v) BASELINE_VOLUMES"
    by code_simp+
  then show ?thesis using adaptive_plan_fits by blast
qed


text \<open>
  A volume that exists is left alone, under its name of before the rename too: when \<open>lvs\<close> lists it,
  \<open>ensure_volume\<close> neither creates nor formats any volume.
\<close>
theorem existing_volume_untouched:
  assumes "os_run os list_logical_volumes_argv 15 (machine h) = (Inr p, m)" "returncode p = 0"
    and "lv_exists (parse_logical_volumes (stdout p)) vg lv
      \<or> (\<exists>old. legacy_name lv = Some old \<and> old \<noteq> [] \<and> lv_exists (parse_logical_volumes (stdout p)) vg old)"
  shows "\<exists>new. calls (snd (ensure_volume os vg lv sz label mountpoint h)) = calls h @ new
           \<and> list_all (\<lambda>c. \<not> changes_volumes c) new"
  using assms by (rule existing_volume_kept)

definition lvs_lab :: lab where
  "lvs_lab = empty_lab\<lparr>lab_results := [(list_logical_volumes_argv,
     \<lparr>returncode = 0, stdout = ''  pve root'' @ [CHR 0x0A] @ ''  pve baseline_user_persistence_admin'' @ [CHR 0x0A], stderr = []\<rparr>)]\<rparr>"

theorem existing_volume_untouched_witness:
  "\<exists>new. calls (snd (ensure_volume lab_os ''pve'' ''baseline_user_admin'' ''50G'' ''USER_ADMIN'' ''/mnt/USER_ADMIN'' (fresh_host lvs_lab)))
       = calls (fresh_host lvs_lab) @ new \<and> list_all (\<lambda>c. \<not> changes_volumes c) new"
proof (rule existing_volume_untouched [OF _ _ disjI2])
  show "os_run lab_os list_logical_volumes_argv 15 (machine (fresh_host lvs_lab)) = (Inr (snd (hd (lab_results lvs_lab))), lvs_lab)"
    by code_simp
  show "returncode (snd (hd (lab_results lvs_lab))) = 0" by code_simp
  have "legacy_name ''baseline_user_admin'' = Some ''baseline_user_persistence_admin''" by code_simp
  moreover have "lv_exists (parse_logical_volumes (stdout (snd (hd (lab_results lvs_lab))))) ''pve'' ''baseline_user_persistence_admin''"
    by code_simp
  ultimately show "\<exists>old. legacy_name ''baseline_user_admin'' = Some old \<and> old \<noteq> []
      \<and> lv_exists (parse_logical_volumes (stdout (snd (hd (lab_results lvs_lab))))) ''pve'' old"
    by auto
qed

text \<open>
  The old name of a volume is recognised: whatever name of before the rename \<open>legacy_name\<close> gives for
  a label or logical volume, \<open>canonical_name\<close> turns it back into the current one.
\<close>
theorem legacy_name_round_trip:
  assumes "legacy_name name = Some old"
  shows "canonical_name old = name \<and> is_legacy_name old"
  using canonical_legacy [OF assms] by (auto simp: is_legacy_name_def)

theorem legacy_name_round_trip_witness:
  "canonical_name ''USER_PERSISTENCE_ADMIN'' = ''USER_ADMIN'' \<and> is_legacy_name ''USER_PERSISTENCE_ADMIN''"
  by (rule legacy_name_round_trip) code_simp

end
