(* ===== verification/PhysicalSafety.thy ===== *)
theory PhysicalSafety
  imports PyValue Trace
begin

text \<open>
  \<open>src/baseline/lib/physical_device_safety.py\<close>: the validation every destructive operation on a real block
  device goes through. The machine is reached through \<open>devices\<close>: the module's own \<open>Runner\<close> (\<open>run\<close>,
  \<open>realpath\<close>, \<open>lstat\<close> as far as \<open>S_ISBLK\<close>, the sysfs size file), \<open>os.path.islink\<close>, and the
  reads and commands of the two modules built on it (\<open>drive_guard.py\<close>, \<open>baseline_drive_layout.py\<close>).

  \<open>expected_serial\<close> and the size limits may come out of a recorded manifest, so they are JSON values and
  are used as Python uses them: \<open>None\<close>, a text or a list for the serial, a number for a limit.
\<close>

datatype dcall =
    DRun "string list"
  | DIsLink string
  | DRealPath string
  | DLStat string
  | DSize string
  | DRead "string list"
  | DListGuids
  | DPutGuid string string
  | DCmd "string list"

record 'm devices =
  dv_run :: "string list \<Rightarrow> 'm \<Rightarrow> (exn + string) \<times> 'm"
  dv_islink :: "string \<Rightarrow> 'm \<Rightarrow> (exn + bool) \<times> 'm"
  dv_realpath :: "string \<Rightarrow> 'm \<Rightarrow> (exn + string) \<times> 'm"
  dv_is_block :: "string \<Rightarrow> 'm \<Rightarrow> (exn + bool) \<times> 'm"
  dv_size_file :: "string \<Rightarrow> 'm \<Rightarrow> (exn + string) \<times> 'm"
  dv_read :: "string list \<Rightarrow> 'm \<Rightarrow> (exn + int \<times> string) \<times> 'm"
  dv_list_guids :: "'m \<Rightarrow> (exn + string list) \<times> 'm"
  dv_put_guid :: "string \<Rightarrow> string \<Rightarrow> 'm \<Rightarrow> (exn + unit) \<times> 'm"
  dv_cmd :: "string list \<Rightarrow> 'm \<Rightarrow> (exn + int \<times> string \<times> string) \<times> 'm"

type_synonym ('m, 'a) dact = "(('m, dcall) host, 'a) act"

definition d_run :: "'m devices \<Rightarrow> string list \<Rightarrow> ('m, string) dact" where
  "d_run dv argv = call_os (DRun argv) (dv_run dv argv)"

definition d_islink :: "'m devices \<Rightarrow> string \<Rightarrow> ('m, bool) dact" where
  "d_islink dv path = call_os (DIsLink path) (dv_islink dv path)"

definition d_realpath :: "'m devices \<Rightarrow> string \<Rightarrow> ('m, string) dact" where
  "d_realpath dv path = call_os (DRealPath path) (dv_realpath dv path)"

definition d_is_block :: "'m devices \<Rightarrow> string \<Rightarrow> ('m, bool) dact" where
  "d_is_block dv path = call_os (DLStat path) (dv_is_block dv path)"

definition d_size_file :: "'m devices \<Rightarrow> string \<Rightarrow> ('m, string) dact" where
  "d_size_file dv name = call_os (DSize name) (dv_size_file dv name)"

definition d_read :: "'m devices \<Rightarrow> string list \<Rightarrow> ('m, int \<times> string) dact" where
  "d_read dv argv = call_os (DRead argv) (dv_read dv argv)"

definition d_list_guids :: "'m devices \<Rightarrow> ('m, string list) dact" where
  "d_list_guids dv = call_os DListGuids (dv_list_guids dv)"

definition d_put_guid :: "'m devices \<Rightarrow> string \<Rightarrow> string \<Rightarrow> ('m, unit) dact" where
  "d_put_guid dv guid serial = call_os (DPutGuid guid serial) (dv_put_guid dv guid serial)"

definition d_cmd :: "'m devices \<Rightarrow> string list \<Rightarrow> ('m, int \<times> string \<times> string) dact" where
  "d_cmd dv argv = call_os (DCmd argv) (dv_cmd dv argv)"

section \<open>Reading a device's identity\<close>

definition parse_udevadm_property :: "string \<Rightarrow> string \<Rightarrow> string option" where
  "parse_udevadm_property output key =
     (let prefix = key @ ''=''
      in map_option (drop (length prefix)) (find (\<lambda>line. starts_with line prefix) (splitlines output)))"

definition udevadm_argv :: "string \<Rightarrow> string list" where
  "udevadm_argv path = [''udevadm'', ''info'', ''--query=property'', ''--name='' @ path]"

definition get_device_serial :: "'m devices \<Rightarrow> string \<Rightarrow> ('m, string option) dact" where
  "get_device_serial dv path =
     act_bind (d_run dv (udevadm_argv path)) (\<lambda>out. act_ret (parse_udevadm_property out ''ID_SERIAL_SHORT''))"

definition get_usb_bridge_model :: "'m devices \<Rightarrow> string \<Rightarrow> ('m, string option) dact" where
  "get_usb_bridge_model dv path =
     act_bind (d_run dv (udevadm_argv path)) (\<lambda>out. act_ret (parse_udevadm_property out ''ID_USB_MODEL''))"

definition get_device_size_bytes :: "'m devices \<Rightarrow> string \<Rightarrow> ('m, int) dact" where
  "get_device_size_bytes dv resolved =
     act_bind (d_size_file dv (basename resolved)) (\<lambda>text.
     act_lift (case py_int (strip text) of
       Some sectors \<Rightarrow> Inr (sectors * 512)
     | None \<Rightarrow> Inl (ValueError (''invalid literal for int() with base 10: '' @ py_repr (strip text)))))"

definition get_boot_device_serial :: "'m devices \<Rightarrow> ('m, string option) dact" where
  "get_boot_device_serial dv =
     act_bind (d_run dv [''findmnt'', ''/'', ''-no'', ''SOURCE'']) (\<lambda>out.
     let root = strip out
     in if root = [] \<or> length (splitlines root) \<noteq> 1 \<or> \<not> starts_with root ''/dev/'' then act_ret None
        else
          act_bind (d_run dv [''lsblk'', ''-no'', ''PKNAME'', root]) (\<lambda>out2.
          let pkname = strip out2
          in if length (splitlines pkname) > 1 then act_ret None
             else
               act_bind (get_device_serial dv (if pkname \<noteq> [] then ''/dev/'' @ pkname else root)) (\<lambda>serial.
               act_ret (case serial of Some s \<Rightarrow> if strip s \<noteq> [] then Some s else None | None \<Rightarrow> None))))"

section \<open>The validation\<close>

record target =
  t_path :: string
  t_serial :: "string option"
  t_size :: int

definition serial_value :: "string option \<Rightarrow> json" where
  "serial_value s = (case s of None \<Rightarrow> JNull | Some x \<Rightarrow> JStr x)"

text \<open>The allowed serials, or no restriction.\<close>
definition allowed_serials :: "json \<Rightarrow> exn + json list option" where
  "allowed_serials v =
     (case v of
        JNull \<Rightarrow> Inr None
      | JStr s \<Rightarrow> Inr (Some [JStr s])
      | JList xs \<Rightarrow> Inr (Some xs)
      | JObj kvs \<Rightarrow> Inr (Some (map (JStr \<circ> fst) kvs))
      | _ \<Rightarrow> Inl (TypeError ''object is not iterable''))"

text \<open>\<open>size < limit\<close>; comparing a number with anything else raises.\<close>
definition size_below :: "int \<Rightarrow> json \<Rightarrow> exn + bool" where
  "size_below n v =
     (case v of
        JInt i \<Rightarrow> Inr (n < i)
      | JBool b \<Rightarrow> Inr (n < (if b then 1 else 0))
      | JFloat t \<Rightarrow> (case dec_value t of Some q \<Rightarrow> Inr (of_int n < q) | None \<Rightarrow> Inl (ValueError t))
      | _ \<Rightarrow> Inl (TypeError ''not supported between instances''))"

definition size_above :: "int \<Rightarrow> json \<Rightarrow> exn + bool" where
  "size_above n v =
     (case v of
        JInt i \<Rightarrow> Inr (n > i)
      | JBool b \<Rightarrow> Inr (n > (if b then 1 else 0))
      | JFloat t \<Rightarrow> (case dec_value t of Some q \<Rightarrow> Inr (of_int n > q) | None \<Rightarrow> Inl (ValueError t))
      | _ \<Rightarrow> Inl (TypeError ''not supported between instances''))"

definition unsafe :: "string \<Rightarrow> ('m, 'a) dact" where
  "unsafe why = act_raise (PhysicalDeviceSafetyError why)"

definition check_size :: "'m devices \<Rightarrow> string \<Rightarrow> string option \<Rightarrow> json \<Rightarrow> json \<Rightarrow> ('m, target) dact" where
  "check_size dv resolved serial lo hi =
     act_bind (get_device_size_bytes dv resolved) (\<lambda>size_bytes.
     act_bind (act_lift (size_below size_bytes lo)) (\<lambda>small.
     if small then
       unsafe (py_repr resolved @ '' is '' @ str_of_int size_bytes @ '' bytes, below the required minimum '' @
         json_str lo @ '' - refusing'')
     else
       act_bind (act_lift (if hi = JNull then Inr False else size_above size_bytes hi)) (\<lambda>big.
       if big then
         unsafe (py_repr resolved @ '' is '' @ str_of_int size_bytes @ '' bytes, above the explicit ceiling '' @
           json_str hi @ '' - refusing'')
       else act_ret \<lparr>t_path = resolved, t_serial = serial, t_size = size_bytes\<rparr>)))"

definition check_boot :: "'m devices \<Rightarrow> string \<Rightarrow> string option \<Rightarrow> json \<Rightarrow> json \<Rightarrow> ('m, target) dact" where
  "check_boot dv resolved serial lo hi =
     act_bind (get_boot_device_serial dv) (\<lambda>boot.
     if boot = None then unsafe ''could not establish this machine's boot device identity - refusing''
     else if serial = boot then
       unsafe (py_repr resolved @ '' (serial '' @ py_repr_opt serial @
         '') matches this machine's own boot device - refusing regardless of which path was passed'')
     else check_size dv resolved serial lo hi)"

definition validate_target_device ::
  "'m devices \<Rightarrow> string \<Rightarrow> json \<Rightarrow> json \<Rightarrow> json \<Rightarrow> ('m, target) dact" where
  "validate_target_device dv path expected lo hi =
     act_bind (d_islink dv path) (\<lambda>link.
     if link then unsafe (py_repr path @ '' is a symlink - refusing to follow it'')
     else
       act_bind (d_realpath dv path) (\<lambda>resolved.
       act_bind (d_is_block dv resolved) (\<lambda>block.
       if \<not> block then unsafe (py_repr resolved @ '' is not a block device - refusing'')
       else
         act_bind (get_device_serial dv resolved) (\<lambda>serial.
         act_bind (act_lift (allowed_serials expected)) (\<lambda>allowed.
         if allowed \<noteq> None \<and> serial_value serial \<notin> set (the allowed) then
           unsafe (py_repr resolved @ '' has serial '' @ py_repr_opt serial @ '', not in the allowed set '' @
             json_repr (JList (the allowed)) @ '' - refusing'')
         else check_boot dv resolved serial lo hi)))))"

section \<open>Known targets\<close>

record known_target =
  kt_serial :: json
  kt_min :: json
  kt_max :: json

definition validate_known_target ::
  "'m devices \<Rightarrow> string \<Rightarrow> string \<Rightarrow> (string \<times> known_target) list \<Rightarrow> ('m, target) dact" where
  "validate_known_target dv path name targets =
     (case map_of targets name of
        None \<Rightarrow> unsafe (py_repr name @ '' is not one of the allowlisted targets '' @
          py_repr_list (sort_strs (map fst targets)) @ '' - refusing'')
      | Some k \<Rightarrow> validate_target_device dv path (kt_serial k) (kt_min k) (kt_max k))"

fun load_identities :: "(string \<times> json) list \<Rightarrow> exn + (string \<times> known_target) list" where
  "load_identities [] = Inr []"
| "load_identities ((name, entry) # rest) =
     (case item entry ''serial'' of Inl e \<Rightarrow> Inl e | Inr serial \<Rightarrow>
      case item entry ''min_size_bytes'' of Inl e \<Rightarrow> Inl e | Inr lo \<Rightarrow>
      case item entry ''max_size_bytes'' of Inl e \<Rightarrow> Inl e | Inr hi \<Rightarrow>
      case load_identities rest of Inl e \<Rightarrow> Inl e | Inr ts \<Rightarrow>
        Inr ((name, \<lparr>kt_serial = serial, kt_min = lo, kt_max = hi\<rparr>) # ts))"

definition load_carrier_identities_from_persistence_manifest :: "json \<Rightarrow> exn + (string \<times> known_target) list" where
  "load_carrier_identities_from_persistence_manifest manifest =
     (case get manifest ''carrier_identities'' of
        Inl e \<Rightarrow> Inl e
      | Inr None \<Rightarrow> Inr []
      | Inr (Some (JObj kvs)) \<Rightarrow> load_identities kvs
      | Inr (Some _) \<Rightarrow> Inl (AttributeError (''object has no attribute '' @ py_repr ''items'')))"

definition wipe_signatures :: "'m devices \<Rightarrow> target \<Rightarrow> ('m, unit) dact" where
  "wipe_signatures dv validated =
     act_bind (d_run dv [''wipefs'', ''-a'', t_path validated]) (\<lambda>_. act_ret ())"

section \<open>The validation only looks\<close>

text \<open>A call that can change a device or the registry.\<close>

fun writes :: "dcall \<Rightarrow> bool" where
  "writes (DRun argv) = (argv = [] \<or> hd argv \<notin> {''udevadm'', ''findmnt'', ''lsblk''})"
| "writes (DCmd argv) = True"
| "writes (DPutGuid g s) = True"
| "writes _ = False"

lemmas d_defs = d_run_def d_islink_def d_realpath_def d_is_block_def d_size_file_def d_read_def d_list_guids_def
  d_put_guid_def d_cmd_def

lemma looks_query:
  "hd argv \<in> {''udevadm'', ''findmnt'', ''lsblk''} \<Longrightarrow> argv \<noteq> [] \<Longrightarrow> emits (\<lambda>c. \<not> writes c) (d_run dv argv)"
  unfolding d_run_def by (rule emits_call) simp

lemma looks_calls [emits_intros]:
  "emits (\<lambda>c. \<not> writes c) (d_islink dv path)"
  "emits (\<lambda>c. \<not> writes c) (d_realpath dv path)"
  "emits (\<lambda>c. \<not> writes c) (d_is_block dv path)"
  "emits (\<lambda>c. \<not> writes c) (d_size_file dv path)"
  "emits (\<lambda>c. \<not> writes c) (d_read dv argv)"
  "emits (\<lambda>c. \<not> writes c) (d_list_guids dv)"
  unfolding d_defs by (simp_all add: emits_call)

lemma looks_serial [emits_intros]: "emits (\<lambda>c. \<not> writes c) (get_device_serial dv path)"
  unfolding get_device_serial_def by (intro emits_intros looks_query) (simp_all add: udevadm_argv_def)

lemma looks_boot [emits_intros]: "emits (\<lambda>c. \<not> writes c) (get_boot_device_serial dv)"
  unfolding get_boot_device_serial_def Let_def by (intro emits_intros looks_query) simp_all

lemma looks_size [emits_intros]: "emits (\<lambda>c. \<not> writes c) (check_size dv resolved serial lo hi)"
  unfolding check_size_def get_device_size_bytes_def unsafe_def by (intro emits_intros)

lemma validate_looks: "emits (\<lambda>c. \<not> writes c) (validate_target_device dv path expected lo hi)"
  unfolding validate_target_device_def check_boot_def unsafe_def by (intro emits_intros)

section \<open>What a validated target is\<close>

text \<open>
  On a machine that only answers (no reading of it changes it), the identity of a device is a fact
  about the machine.
\<close>

definition steady :: "'m devices \<Rightarrow> 'm \<Rightarrow> bool" where
  "steady dv m \<longleftrightarrow>
     (\<forall>argv. snd (dv_run dv argv m) = m) \<and> (\<forall>p. snd (dv_islink dv p m) = m) \<and> (\<forall>p. snd (dv_realpath dv p m) = m)
     \<and> (\<forall>p. snd (dv_is_block dv p m) = m) \<and> (\<forall>p. snd (dv_size_file dv p m) = m)"

definition answer :: "('m, 'a) dact \<Rightarrow> 'm \<Rightarrow> exn + 'a" where
  "answer a m = fst (a \<lparr>machine = m, calls = []\<rparr>)"

text \<open>An action that leaves the machine as it is and whose result does not depend on the calls made before.\<close>

definition looks_at :: "'m \<Rightarrow> ('m, 'a) dact \<Rightarrow> bool" where
  "looks_at m a \<longleftrightarrow> (\<forall>h. machine h = m \<longrightarrow> fst (a h) = answer a m \<and> machine (snd (a h)) = m)"

lemma looks_atD: "looks_at m a \<Longrightarrow> machine h = m \<Longrightarrow> fst (a h) = answer a m \<and> machine (snd (a h)) = m"
  by (simp add: looks_at_def)

lemma looks_at_call: "snd (f m) = m \<Longrightarrow> looks_at m (call_os c f)"
  by (simp add: looks_at_def answer_def call_os_def case_prod_unfold Let_def)

lemma looks_at_pure: "looks_at m (act_ret x)" "looks_at m (act_raise e)" "looks_at m (act_lift r)"
  by (simp_all add: looks_at_def answer_def)

lemma bind_answer:
  assumes "looks_at m a" "\<And>x. looks_at m (f x)"
  shows "looks_at m (act_bind a f) \<and>
    answer (act_bind a f) m = (case answer a m of Inl e \<Rightarrow> Inl e | Inr x \<Rightarrow> answer (f x) m)"
proof -
  have "fst (act_bind a f h) = (case answer a m of Inl e \<Rightarrow> Inl e | Inr x \<Rightarrow> answer (f x) m)
      \<and> machine (snd (act_bind a f h)) = m" if h: "machine h = m" for h
  proof -
    obtain r u where u: "a h = (r, u)" by fastforce
    have a: "r = answer a m" "machine u = m" using looks_atD [OF assms(1) h] u by simp_all
    show ?thesis using looks_atD [OF assms(2) a(2)] a u by (simp add: act_bind_def split: sum.split)
  qed
  then show ?thesis by (simp add: looks_at_def answer_def)
qed

lemmas looks_at_bind = bind_answer [THEN conjunct1] and answer_bind = bind_answer [THEN conjunct2]

lemma answer_pure [simp]:
  "answer (act_ret x) m = Inr x" "answer (act_raise e) m = Inl e" "answer (act_lift r) m = r"
  by (simp_all add: answer_def)

lemma looks_at_if: "looks_at m a \<Longrightarrow> looks_at m b \<Longrightarrow> looks_at m (if c then a else b)"
  by simp

lemma steady_calls:
  assumes "steady dv m"
  shows "looks_at m (d_run dv argv)" "looks_at m (d_islink dv p)" "looks_at m (d_realpath dv p)"
    "looks_at m (d_is_block dv p)" "looks_at m (d_size_file dv p)"
  using assms unfolding d_defs steady_def by (simp_all add: looks_at_call)

lemmas looks_at_intros = looks_at_pure looks_at_bind looks_at_if

lemma steady_serial: "steady dv m \<Longrightarrow> looks_at m (get_device_serial dv p)"
  unfolding get_device_serial_def by (intro looks_at_intros steady_calls)

lemma steady_boot: "steady dv m \<Longrightarrow> looks_at m (get_boot_device_serial dv)"
  unfolding get_boot_device_serial_def Let_def by (intro looks_at_intros steady_calls steady_serial)

lemma steady_size: "steady dv m \<Longrightarrow> looks_at m (get_device_size_bytes dv p)"
  unfolding get_device_size_bytes_def by (intro looks_at_intros steady_calls)

lemma steady_check_size: "steady dv m \<Longrightarrow> looks_at m (check_size dv r s lo hi)"
  unfolding check_size_def unsafe_def by (intro looks_at_intros steady_size)

lemma steady_check_boot: "steady dv m \<Longrightarrow> looks_at m (check_boot dv r s lo hi)"
  unfolding check_boot_def unsafe_def by (intro looks_at_intros steady_boot steady_check_size)

lemma check_size_answer:
  assumes s: "steady dv m" and a: "answer (check_size dv r serial lo hi) m = Inr t"
  shows "t_path t = r \<and> t_serial t = serial \<and> answer (get_device_size_bytes dv r) m = Inr (t_size t)
    \<and> size_below (t_size t) lo = Inr False \<and> (hi \<noteq> JNull \<longrightarrow> size_above (t_size t) hi = Inr False)"
  using a unfolding check_size_def unsafe_def
  by (auto simp: answer_bind looks_at_intros steady_size [OF s] split: sum.splits if_splits)

lemma check_boot_answer:
  assumes s: "steady dv m" and a: "answer (check_boot dv r serial lo hi) m = Inr t"
  shows "(\<exists>b. answer (get_boot_device_serial dv) m = Inr (Some b) \<and> serial \<noteq> Some b)
    \<and> answer (check_size dv r serial lo hi) m = Inr t"
  using a unfolding check_boot_def unsafe_def
  by (auto simp: answer_bind looks_at_intros steady_boot [OF s] steady_check_size [OF s] split: sum.splits if_splits)

lemma validated_answer:
  assumes s: "steady dv m" and a: "answer (validate_target_device dv path expected lo hi) m = Inr t"
  shows "answer (d_islink dv path) m = Inr False \<and> answer (d_realpath dv path) m = Inr (t_path t)
    \<and> answer (d_is_block dv (t_path t)) m = Inr True \<and> answer (get_device_serial dv (t_path t)) m = Inr (t_serial t)
    \<and> (\<exists>allowed. allowed_serials expected = Inr allowed
         \<and> (allowed \<noteq> None \<longrightarrow> serial_value (t_serial t) \<in> set (the allowed)))
    \<and> answer (check_boot dv (t_path t) (t_serial t) lo hi) m = Inr t"
proof -
  have "\<exists>r serial allowed. answer (d_islink dv path) m = Inr False \<and> answer (d_realpath dv path) m = Inr r
      \<and> answer (d_is_block dv r) m = Inr True \<and> answer (get_device_serial dv r) m = Inr serial
      \<and> allowed_serials expected = Inr allowed
      \<and> (allowed \<noteq> None \<longrightarrow> serial_value serial \<in> set (the allowed))
      \<and> answer (check_boot dv r serial lo hi) m = Inr t"
    using a unfolding validate_target_device_def unsafe_def
    by (auto simp: answer_bind looks_at_intros steady_calls [OF s] steady_serial [OF s] steady_check_boot [OF s]
        split: sum.splits if_splits)
  then show ?thesis
    using check_boot_answer [OF s] check_size_answer [OF s] by metis
qed

section \<open>Properties\<close>

text \<open>
  A machine with the boot drive \<open>/dev/sda\<close> (serial \<open>BOOT1\<close>) and one other, \<open>/dev/sdb\<close> (serial \<open>WD-10AP4E\<close>,
  blank, 400 GB), which answers and does not change.
\<close>

definition lab_dv_run :: "string list \<Rightarrow> string" where
  "lab_dv_run argv =
     (if argv = [''findmnt'', ''/'', ''-no'', ''SOURCE''] then ''/dev/sda2'' @ [CHR 0x0A]
      else if argv = [''lsblk'', ''-no'', ''PKNAME'', ''/dev/sda2''] then ''sda'' @ [CHR 0x0A]
      else if argv = udevadm_argv ''/dev/sda'' then ''ID_SERIAL_SHORT=BOOT1'' @ [CHR 0x0A]
      else if argv = udevadm_argv ''/dev/sdb'' then
        ''DEVTYPE=disk'' @ [CHR 0x0A] @ ''ID_SERIAL_SHORT=WD-10AP4E'' @ [CHR 0x0A]
      else [])"

definition lab_devices :: "unit devices" where
  "lab_devices = \<lparr>dv_run = (\<lambda>argv m. (Inr (lab_dv_run argv), m)),
     dv_islink = (\<lambda>p m. (Inr False, m)), dv_realpath = (\<lambda>p m. (Inr p, m)),
     dv_is_block = (\<lambda>p m. (Inr (starts_with p ''/dev/sd''), m)),
     dv_size_file = (\<lambda>p m. (Inr (''838860800'' @ [CHR 0x0A]), m)),
     dv_read = (\<lambda>argv m. (Inr (0, ''sdb disk   '' @ [CHR 0x0A]), m)), dv_list_guids = (\<lambda>m. (Inr [], m)),
     dv_put_guid = (\<lambda>g s m. (Inr (), m)), dv_cmd = (\<lambda>argv m. (Inr (0, [], []), m))\<rparr>"

definition lab_target :: target where
  "lab_target = \<lparr>t_path = ''/dev/sdb'', t_serial = Some ''WD-10AP4E'', t_size = 429496729600\<rparr>"

text \<open>
  A validated target is a real disk that is not the machine's own. On a machine that does not change while
  it is looked at, whatever path and serials are passed: if validation gives a target, the path is no symbolic
  link, the target is the block device it resolves to, its serial and its size are the ones the machine reports,
  the serial is an allowed one when serials are restricted, the machine's boot drive is known and has another
  serial, and the size is within the limits.
\<close>
theorem validated_target_is_safe:
  assumes "steady dv m" and "fst (validate_target_device dv path expected lo hi \<lparr>machine = m, calls = []\<rparr>) = Inr t"
  shows "answer (d_islink dv path) m = Inr False \<and> answer (d_realpath dv path) m = Inr (t_path t)
    \<and> answer (d_is_block dv (t_path t)) m = Inr True
    \<and> answer (get_device_serial dv (t_path t)) m = Inr (t_serial t)
    \<and> answer (get_device_size_bytes dv (t_path t)) m = Inr (t_size t)
    \<and> (\<exists>b. answer (get_boot_device_serial dv) m = Inr (Some b) \<and> t_serial t \<noteq> Some b)
    \<and> (\<exists>allowed. allowed_serials expected = Inr allowed
         \<and> (allowed \<noteq> None \<longrightarrow> serial_value (t_serial t) \<in> set (the allowed)))
    \<and> size_below (t_size t) lo = Inr False \<and> (hi \<noteq> JNull \<longrightarrow> size_above (t_size t) hi = Inr False)"
  using validated_answer [OF assms(1) assms(2) [folded answer_def]] check_boot_answer [OF assms(1)]
    check_size_answer [OF assms(1)] by blast

lemma lab_steady: "steady lab_devices m"
  by (simp add: steady_def lab_devices_def)

lemma lab_validated:
  "fst (validate_target_device lab_devices ''/dev/sdb'' (JStr ''WD-10AP4E'') (JInt 107374182400) JNull
     \<lparr>machine = (), calls = []\<rparr>) = Inr lab_target"
  by code_simp

theorem validated_target_is_safe_witness:
  "\<exists>b. answer (get_boot_device_serial lab_devices) () = Inr (Some b) \<and> t_serial lab_target \<noteq> Some b"
  using validated_target_is_safe [OF lab_steady lab_validated] by blast

text \<open>
  Validation only looks: on every machine, whatever is passed and however it ends, the calls it makes are
  reads (\<open>udevadm\<close>, \<open>findmnt\<close>, \<open>lsblk\<close>, the sysfs size, the path's status), never a command that writes.
\<close>
theorem validation_only_looks:
  "\<exists>new. calls (snd (validate_target_device dv path expected lo hi h)) = calls h @ new
     \<and> list_all (\<lambda>c. \<not> writes c) new"
  using validate_looks by (rule emitsD)

end
