(* ===== verification/DriveGuard.thy ===== *)
theory DriveGuard
  imports PhysicalSafety
begin

text \<open>
  \<open>src/baseline/lib/drive_guard.py\<close>: no drive that holds data is formatted unless the Baseline installer made it.

  What \<open>lsblk\<close> prints comes through \<open>d_read\<close>; the registry of installer GUIDs (\<open>registry.py\<close>, its global
  database) is reached through \<open>d_list_guids\<close> and \<open>d_put_guid\<close>; \<open>cmd.run\<close> is \<open>d_cmd\<close>. The fresh GUID that
  \<open>uuid.uuid4\<close> draws is an argument.
\<close>

section \<open>Drive state\<close>

record drive_state =
  ds_known :: bool
  ds_has_data :: bool
  ds_ptuuid :: "string option"
  ds_labels :: "string list"
  ds_fstypes :: "string list"

definition unknown_state :: drive_state where
  "unknown_state = \<lparr>ds_known = False, ds_has_data = True, ds_ptuuid = None, ds_labels = [], ds_fstypes = []\<rparr>"

record stamp_result =
  sr_ok :: bool
  sr_detail :: string

definition is_guid_char :: "char \<Rightarrow> bool" where
  "is_guid_char c \<longleftrightarrow> is_digit c \<or> c \<in> set ''abcdef''"

text \<open>\<open>^[0-9a-f]{8}-[0-9a-f]{4}-...-[0-9a-f]{12}$\<close>; \<open>$\<close> also matches before a final newline.\<close>
definition guid_shape :: "string \<Rightarrow> bool" where
  "guid_shape s \<longleftrightarrow>
     (let fs = split_on (CHR ''-'') s
      in map length fs = [8, 4, 4, 4, 12] \<and> list_all (list_all is_guid_char) fs)"

definition before_newline :: "(string \<Rightarrow> bool) \<Rightarrow> string \<Rightarrow> bool" where
  "before_newline P s \<longleftrightarrow> P s \<or> (s \<noteq> [] \<and> last s = CHR 0x0A \<and> P (butlast s))"

definition normalize_guid :: "string \<Rightarrow> exn + string" where
  "normalize_guid value =
     (let guid = lower (strip value)
      in if before_newline guid_shape guid then Inr guid
         else Inl (ValueError (''not a plain GUID: '' @ py_repr value)))"

definition lsblk_argv :: "string \<Rightarrow> string list" where
  "lsblk_argv device = [''lsblk'', ''-nr'', ''-o'', ''NAME,TYPE,FSTYPE,PTUUID,LABEL'', device]"

fun parse_rows :: "string list \<Rightarrow> string list list option" where
  "parse_rows [] = Some []"
| "parse_rows (line # rest) =
     (if strip line = [] then parse_rows rest
      else
        let fs = split_on (CHR '' '') line
        in if length fs < 2 then None
           else map_option (\<lambda>rows. take 5 (fs @ replicate (5 - length fs) []) # rows) (parse_rows rest))"

definition parse_drive_state :: "string \<Rightarrow> drive_state" where
  "parse_drive_state out =
     (case parse_rows (splitlines out) of
        None \<Rightarrow> unknown_state
      | Some rows \<Rightarrow>
          (case filter (\<lambda>r. r ! 1 = ''disk'') rows of
             [disk] \<Rightarrow>
               let others = filter (\<lambda>r. r ! 1 \<noteq> ''disk'') rows;
                   parts = filter (\<lambda>r. r ! 1 = ''part'') others
               in \<lparr>ds_known = True, ds_has_data = (strip (disk ! 2) \<noteq> [] \<or> others \<noteq> []),
                   ds_ptuuid = (if strip (disk ! 3) = [] then None else Some (strip (disk ! 3))),
                   ds_labels = map (\<lambda>r. strip (r ! 4)) parts, ds_fstypes = map (\<lambda>r. strip (r ! 2)) parts\<rparr>
           | _ \<Rightarrow> unknown_state))"

text \<open>Any exception of the reading means the drive could not be read.\<close>
definition read_drive_state :: "'m devices \<Rightarrow> string \<Rightarrow> ('m, drive_state) dact" where
  "read_drive_state dv device =
     act_catch
       (act_bind (d_read dv (lsblk_argv device)) (\<lambda>(rc, out).
        act_ret (if rc \<noteq> 0 then unknown_state else parse_drive_state out)))
       (\<lambda>e. act_ret unknown_state)"

section \<open>Baseline's own labels\<close>

definition is_label_char :: "char \<Rightarrow> bool" where
  "is_label_char c \<longleftrightarrow> is_upper c \<or> is_digit c \<or> c = CHR ''_''"

definition after_prefix :: "string \<Rightarrow> string \<Rightarrow> bool" where
  "after_prefix p s \<longleftrightarrow> starts_with s p \<and> drop (length p) s \<noteq> [] \<and> list_all is_label_char (drop (length p) s)"

definition own_label_shape :: "string \<Rightarrow> bool" where
  "own_label_shape s \<longleftrightarrow>
     s \<in> {''BASELINE'', ''INSTALLER_CACHE'', ''SESSION_TEMP'', ''SUBSTRATE'', ''SUBSTRATE_PERSISTENCE'', ''USER''}
     \<or> after_prefix ''USER_'' s \<or> after_prefix ''APPDATA_'' s"

definition is_own_label :: "string \<Rightarrow> bool" where
  "is_own_label label \<longleftrightarrow> before_newline own_label_shape label"

definition is_baseline_only :: "drive_state \<Rightarrow> bool" where
  "is_baseline_only s \<longleftrightarrow>
     (if \<not> ds_known s then False
      else if \<not> ds_has_data s then True
      else ds_labels s \<noteq> [] \<and> list_all is_own_label (ds_labels s))"

definition require_baseline_drive :: "'m devices \<Rightarrow> string \<Rightarrow> ('m, unit) dact" where
  "require_baseline_drive dv device =
     act_bind (read_drive_state dv device) (\<lambda>s.
     if \<not> is_baseline_only s then
       act_raise (DataProtectionError (device @ '' is not the Baseline drive: it holds partitions that are not Baseline's own volumes, ''
         @ ''or it could not be read, so the Baseline layout will not be written to it''))
     else act_ret ())"

section \<open>Installer GUIDs\<close>

definition register_installer_uuid :: "'m devices \<Rightarrow> string \<Rightarrow> string \<Rightarrow> ('m, unit) dact" where
  "register_installer_uuid dv guid serial =
     act_bind (act_lift (normalize_guid guid)) (\<lambda>g. d_put_guid dv g serial)"

definition is_installer_uuid :: "'m devices \<Rightarrow> string \<Rightarrow> ('m, bool) dact" where
  "is_installer_uuid dv guid =
     (case normalize_guid guid of
        Inl e \<Rightarrow> act_ret False
      | Inr g \<Rightarrow> act_bind (d_list_guids dv) (\<lambda>known. act_ret (g \<in> set known)))"

definition may_format_refusal :: "string \<Rightarrow> bool \<Rightarrow> string" where
  "may_format_refusal device known =
     ''refused: '' @ device @ '' will not be formatted: '' @
     (if \<not> known then ''its contents could not be read, so it is treated as holding data''
      else ''it holds data and does not carry a UUID generated by the Baseline installer'') @
     ''. Baseline never formats a drive with data unless the installer created it, and there is no override.''"

definition require_may_format :: "'m devices \<Rightarrow> string \<Rightarrow> ('m, unit) dact" where
  "require_may_format dv device =
     act_bind (read_drive_state dv device) (\<lambda>s.
     if \<not> ds_has_data s then act_ret ()
     else
       act_bind (if ds_known s \<and> ds_ptuuid s \<noteq> None then is_installer_uuid dv (the (ds_ptuuid s)) else act_ret False) (\<lambda>ours.
       if ours then act_ret ()
       else act_raise (DataProtectionError (may_format_refusal device (ds_known s)))))"

definition stamp_result :: "bool \<Rightarrow> string \<Rightarrow> stamp_result" where
  "stamp_result ok detail = \<lparr>sr_ok = ok, sr_detail = detail\<rparr>"

definition stamp_installer_identity :: "'m devices \<Rightarrow> string \<Rightarrow> string \<Rightarrow> string \<Rightarrow> ('m, stamp_result) dact" where
  "stamp_installer_identity dv guid device serial =
     act_bind (read_drive_state dv device) (\<lambda>s.
     if \<not> ds_known s then
       act_ret (stamp_result False (''could not read '' @ device @ '', so it was not stamped''))
     else
       act_bind (if ds_ptuuid s \<noteq> None then is_installer_uuid dv (the (ds_ptuuid s)) else act_ret False) (\<lambda>ours.
       if ours then act_ret (stamp_result True (device @ '' already carries an installer UUID''))
       else if ds_has_data s \<and> \<not> is_baseline_only s then
         act_ret (stamp_result False (device @ '' holds data that is not Baseline's own volumes, so the installer cannot adopt it''))
       else
         act_bind (d_cmd dv [''sgdisk'', ''-U'', guid, device]) (\<lambda>(rc, out, err).
         if rc \<noteq> 0 then
           act_ret (stamp_result False (''could not set the disk identifier: '' @ take 200 (strip err)))
         else
           act_bind (read_drive_state dv device) (\<lambda>after.
           if \<not> ds_known after \<or> ds_ptuuid after = None \<or> lower (the (ds_ptuuid after)) \<noteq> guid then
             act_ret (stamp_result False (device @ '' did not take the new identifier, so nothing was registered''))
           else
             act_seq (register_installer_uuid dv guid serial)
               (act_ret (stamp_result True (device @ '' now carries installer UUID '' @ guid)))))))"

section \<open>What passing the guard means\<close>

definition state_of :: "'m devices \<Rightarrow> 'm \<Rightarrow> string \<Rightarrow> drive_state" where
  "state_of dv m device =
     (case fst (dv_read dv (lsblk_argv device) m) of
        Inl e \<Rightarrow> unknown_state
      | Inr (rc, out) \<Rightarrow> if rc \<noteq> 0 then unknown_state else parse_drive_state out)"

lemma unknown_has_data [simp]: "\<not> ds_known unknown_state" "ds_has_data unknown_state"
  by (simp_all add: unknown_state_def)

lemma parse_unknown: "\<not> ds_known (parse_drive_state out) \<Longrightarrow> parse_drive_state out = unknown_state"
  by (auto simp: parse_drive_state_def Let_def split: option.splits list.splits)

lemma state_of_unknown: "\<not> ds_known (state_of dv m device) \<Longrightarrow> state_of dv m device = unknown_state"
  using parse_unknown by (auto simp: state_of_def split: sum.splits if_splits)

lemma read_drive_state_eq:
  "fst (read_drive_state dv device h) = Inr (state_of dv (machine h) device)"
  "machine (snd (read_drive_state dv device h)) = snd (dv_read dv (lsblk_argv device) (machine h))"
  by (auto simp: read_drive_state_def act_catch_eq d_read_def call_os_def case_prod_unfold Let_def state_of_def
      act_bind_def split: sum.split)

lemma is_installer_uuid_True:
  assumes "is_installer_uuid dv u h = (Inr True, w)"
  shows "\<exists>g known. normalize_guid u = Inr g \<and> fst (dv_list_guids dv (machine h)) = Inr known \<and> g \<in> set known"
  using assms
  by (cases "normalize_guid u"; cases "dv_list_guids dv (machine h)")
    (auto simp: is_installer_uuid_def d_list_guids_def call_os_def act_bind_eq_Inr)

lemma may_format_cases:
  assumes "fst (require_may_format dv device h) = Inr ()"
  shows "\<not> ds_has_data (state_of dv (machine h) device) \<or>
    (ds_known (state_of dv (machine h) device) \<and> (\<exists>u g known. ds_ptuuid (state_of dv (machine h) device) = Some u
       \<and> normalize_guid u = Inr g \<and> fst (dv_list_guids dv (machine (snd (read_drive_state dv device h)))) = Inr known
       \<and> g \<in> set known))"
proof -
  obtain h1 where h1: "read_drive_state dv device h = (Inr (state_of dv (machine h) device), h1)"
    using read_drive_state_eq(1) by (metis prod.collapse)
  show ?thesis
    using assms h1
    by (auto simp: require_may_format_def act_bind_fst_Inr dest!: is_installer_uuid_True split: if_splits)
qed

lemma looks_guard [emits_intros]:
  "emits (\<lambda>c. \<not> writes c) (read_drive_state dv device)"
  "emits (\<lambda>c. \<not> writes c) (is_installer_uuid dv guid)"
  unfolding read_drive_state_def is_installer_uuid_def by (intro emits_intros)+

lemma looks_require [emits_intros]:
  "emits (\<lambda>c. \<not> writes c) (require_baseline_drive dv device)"
  "emits (\<lambda>c. \<not> writes c) (require_may_format dv device)"
  unfolding require_baseline_drive_def require_may_format_def by (intro emits_intros)+

section \<open>Properties\<close>

text \<open>
  C16. A drive is cleared for formatting only if \<open>lsblk\<close> says it is empty, or says it carries a disk GUID
  that is in the installer's registry; a drive that cannot be read is never cleared. Whatever the
  machine, the guard itself changes nothing.
\<close>
theorem cleared_drive_is_empty_or_ours:
  assumes "fst (require_may_format dv device h) = Inr ()"
  shows "ds_known (state_of dv (machine h) device)
    \<and> (\<not> ds_has_data (state_of dv (machine h) device) \<or>
       (\<exists>u g known. ds_ptuuid (state_of dv (machine h) device) = Some u \<and> normalize_guid u = Inr g
          \<and> fst (dv_list_guids dv (machine (snd (read_drive_state dv device h)))) = Inr known \<and> g \<in> set known))
    \<and> (\<exists>new. calls (snd (require_may_format dv device h)) = calls h @ new \<and> list_all (\<lambda>c. \<not> writes c) new)"
proof (intro conjI)
  show "ds_known (state_of dv (machine h) device)"
    using may_format_cases [OF assms] state_of_unknown [of dv "machine h" device] by fastforce
  show "\<not> ds_has_data (state_of dv (machine h) device) \<or>
       (\<exists>u g known. ds_ptuuid (state_of dv (machine h) device) = Some u \<and> normalize_guid u = Inr g
          \<and> fst (dv_list_guids dv (machine (snd (read_drive_state dv device h)))) = Inr known \<and> g \<in> set known)"
    using may_format_cases [OF assms] by blast
  show "\<exists>new. calls (snd (require_may_format dv device h)) = calls h @ new \<and> list_all (\<lambda>c. \<not> writes c) new"
    by (rule emitsD) (rule looks_require)
qed

theorem cleared_drive_is_empty_or_ours_witness:
  "ds_known (state_of lab_devices () ''/dev/sdb'')"
proof -
  have "fst (require_may_format lab_devices ''/dev/sdb'' (fresh_host ())) = Inr ()" by code_simp
  from cleared_drive_is_empty_or_ours [OF this] show ?thesis by (simp add: fresh_host_def)
qed

text \<open>What stamping may do to a drive it adopts: look, set the disk identifier, register the GUID it set.\<close>
definition adoption_call :: "string \<Rightarrow> string \<Rightarrow> string \<Rightarrow> dcall \<Rightarrow> bool" where
  "adoption_call guid device serial c \<longleftrightarrow>
     (writes c \<longrightarrow> c = DCmd [''sgdisk'', ''-U'', guid, device]
        \<or> (\<exists>g. normalize_guid guid = Inr g \<and> c = DPutGuid g serial))"

text \<open>
  C17. Stamping adopts no one else's drive. If stamping a drive issues any command or registers any GUID, the
  drive could be read and was empty or held nothing but Baseline's own volumes; the one command it
  issues sets the disk identifier, and the GUID registered is the one that was set.
\<close>
theorem stamping_adopts_only_own_drives:
  "\<exists>new. calls (snd (stamp_installer_identity dv guid device serial h)) = calls h @ new
     \<and> (if is_baseline_only (state_of dv (machine h) device)
        then list_all (adoption_call guid device serial) new
        else list_all (\<lambda>c. \<not> writes c) new)"
proof -
  let ?s = "state_of dv (machine h) device"
  let ?P = "\<lambda>c. writes c \<longrightarrow> is_baseline_only ?s \<and> (c = DCmd [''sgdisk'', ''-U'', guid, device]
               \<or> (\<exists>g. normalize_guid guid = Inr g \<and> c = DPutGuid g serial))"
  obtain h1 where h1: "read_drive_state dv device h = (Inr ?s, h1)"
    using read_drive_state_eq(1) by (metis prod.collapse)
  have own: "ds_known ?s \<Longrightarrow> \<not> (ds_has_data ?s \<and> \<not> is_baseline_only ?s) \<Longrightarrow> is_baseline_only ?s"
    by (auto simp: is_baseline_only_def)
  have looks: "emits ?P (d_list_guids dv)" "emits ?P (read_drive_state dv device)" "emits ?P (is_installer_uuid dv u)" for u
    by (rule emits_mono, rule emits_intros, simp)+
  have cmd: "emits ?P (d_cmd dv [''sgdisk'', ''-U'', guid, device])" if "is_baseline_only ?s"
    unfolding d_cmd_def using that by (intro emits_call) simp
  have put: "emits ?P (d_put_guid dv g serial)" if "is_baseline_only ?s" "normalize_guid guid = Inr g" for g
    unfolding d_put_guid_def using that by (intro emits_call) simp
  have reg: "emits ?P (register_installer_uuid dv guid serial)" if "is_baseline_only ?s"
    unfolding register_installer_uuid_def
  proof (cases "normalize_guid guid")
    case (Inr g)
    then show "emits ?P (act_bind (act_lift (normalize_guid guid)) (\<lambda>g. d_put_guid dv g serial))"
      using put [OF that Inr] by simp
  qed (simp add: emits_raise)
  let ?K = "\<lambda>s. if \<not> ds_known s then
       act_ret (stamp_result False (''could not read '' @ device @ '', so it was not stamped''))
     else
       act_bind (if ds_ptuuid s \<noteq> None then is_installer_uuid dv (the (ds_ptuuid s)) else act_ret False) (\<lambda>ours.
       if ours then act_ret (stamp_result True (device @ '' already carries an installer UUID''))
       else if ds_has_data s \<and> \<not> is_baseline_only s then
         act_ret (stamp_result False (device @ '' holds data that is not Baseline's own volumes, so the installer cannot adopt it''))
       else
         act_bind (d_cmd dv [''sgdisk'', ''-U'', guid, device]) (\<lambda>(rc, out, err).
         if rc \<noteq> 0 then
           act_ret (stamp_result False (''could not set the disk identifier: '' @ take 200 (strip err)))
         else
           act_bind (read_drive_state dv device) (\<lambda>after.
           if \<not> ds_known after \<or> ds_ptuuid after = None \<or> lower (the (ds_ptuuid after)) \<noteq> guid then
             act_ret (stamp_result False (device @ '' did not take the new identifier, so nothing was registered''))
           else
             act_seq (register_installer_uuid dv guid serial)
               (act_ret (stamp_result True (device @ '' now carries installer UUID '' @ guid))))))"
  have K: "emits ?P (?K ?s)"
    by (intro emits_if emits_bind emits_prod emits_seq emits_ret looks cmd reg) (auto simp: is_baseline_only_def)
  have e: "stamp_installer_identity dv guid device serial h = ?K ?s h1"
    unfolding stamp_installer_identity_def using h1 by (rule act_bind_Inr)
  obtain new1 where n1: "calls h1 = calls h @ new1" "list_all ?P new1"
    using emitsD [OF looks(2), of h] h1 by auto
  obtain new2 where n2: "calls (snd (?K ?s h1)) = calls h1 @ new2" "list_all ?P new2"
    using emitsD [OF K] by blast
  have c: "calls (snd (stamp_installer_identity dv guid device serial h)) = calls h @ (new1 @ new2)"
    unfolding e n2(1) n1(1) by (rule append_assoc)
  have "list_all ?P (new1 @ new2)" using n1 n2 by simp
  then have "if is_baseline_only ?s
        then list_all (adoption_call guid device serial) (new1 @ new2)
        else list_all (\<lambda>c. \<not> writes c) (new1 @ new2)"
    by (auto simp: list_all_iff adoption_call_def)
  with c show ?thesis by (intro exI [of _ "new1 @ new2"] conjI)
qed

end
