(* ===== verification/DriveLayout.thy ===== *)
theory DriveLayout
  imports DriveGuard DriveInstaller
begin

text \<open>
  \<open>src/baseline/lib/baseline_drive_layout.py\<close>: laying Baseline's volumes onto a drive as GPT partitions. The plan is a
  pure function of the drive's size; \<open>apply_layout\<close> validates, asks both guards of \<open>drive_guard.py\<close>, and then
  runs one command at a time, validating the drive again before each.
\<close>

definition SECTOR :: int where "SECTOR = 512"
definition ALIGN_SECTORS :: int where "ALIGN_SECTORS = 2048"
definition FIRST_SECTOR :: int where "FIRST_SECTOR = 2048"
definition GIB_SECTORS :: int where "GIB_SECTORS = 1024 ^ 3 div SECTOR"
definition EXT4_LABEL_MAX :: nat where "EXT4_LABEL_MAX = 16"
definition GPT_LINUX_FS :: string where "GPT_LINUX_FS = ''8300''"
definition MIN_DRIVE_BYTES :: int where "MIN_DRIVE_BYTES = 100 * 1024 ^ 3"

definition ROLES :: "(string \<times> string) list" where
  "ROLES =
     [(''BASELINE'', ''Application, VM and LXC state for this Baseline install.''),
      (''INSTALLER_CACHE'', ''ISOs, driver packages and backups (ISO at isos/proxmox-ve-source.iso, backups/, encrypted_backups/, backup_manifests/). Consumed by name, never executed.''),
      (''SESSION_TEMP'', ''Ephemeral session data and quarantine for anything not yet triaged. Never anything meant to run.''),
      (''SUBSTRATE'', ''Small, security-relevant recovery and substrate configuration, including the one-way hash of the admin installer/recovery passphrase (verifiable, never decryptable). Fixed 1 GB.'')]"

definition role_text :: "string \<Rightarrow> exn + string" where
  "role_text label =
     (if is_user_label label then
        Inr (''Isolated persistence for the '' @ [CHR 0x27] @ lower (removeprefix label ''USER_'') @ [CHR 0x27] @
             '' persona (scripts inbox lives here; it may hold executables).'')
      else if is_appdata_label label then
        Inr (''Personal-owned application data for the '' @ [CHR 0x27] @ lower (removeprefix label ''APPDATA_'') @ [CHR 0x27] @
             '' persona: one isolated tree per application (its own data, registry.db, owner, mode 0700) holding '' @
             ''that application's overlay upper layers and container binds. See appdata.py.'')
      else case map_of ROLES label of Some r \<Rightarrow> Inr r | None \<Rightarrow> Inl (KeyError label))"

section \<open>The plan\<close>

record partition =
  pt_number :: int
  pt_label :: string
  pt_partname :: string
  pt_fs_label :: string
  pt_size_gb :: int
  pt_start :: int
  pt_mount :: string
  pt_options :: string

fun place :: "(string \<times> int) list \<Rightarrow> int \<Rightarrow> int \<Rightarrow> volume list \<Rightarrow> exn + partition list" where
  "place sizes number start [] = Inr []"
| "place sizes number start (v # vs) =
     (let gb = val_at sizes (v_label v);
          p = \<lparr>pt_number = number, pt_label = v_label v, pt_partname = v_label v,
               pt_fs_label = take EXT4_LABEL_MAX (v_label v), pt_size_gb = gb, pt_start = start,
               pt_mount = v_mount v, pt_options = mount_options_for (v_label v)\<rparr>;
          next_start = start + gb * GIB_SECTORS
      in if next_start mod ALIGN_SECTORS \<noteq> 0 then Inl (AssertionError [])
         else case place sizes (number + 1) next_start vs of Inl e \<Rightarrow> Inl e | Inr ps \<Rightarrow> Inr (p # ps))"

definition plan_partitions :: "int \<Rightarrow> string list \<Rightarrow> exn + partition list" where
  "plan_partitions size_bytes personas =
     (let volumes = baseline_volumes_for personas;
          sizes = compute_adaptive_plan (size_bytes - DEFAULT_SAFETY_MARGIN_BYTES) volumes DEFAULT_SAFETY_MARGIN_BYTES
      in if list_all (\<lambda>(_, n). n = 0) sizes
         then Inl (ValueError ''drive is too small for every Baseline volume's minimum size'')
         else place sizes 1 FIRST_SECTOR volumes)"

definition sgdisk_argv :: "string \<Rightarrow> partition list \<Rightarrow> string list" where
  "sgdisk_argv device plan =
     ''sgdisk'' # concat (map (\<lambda>p.
       [''-n'', str_of_int (pt_number p) @ '':'' @ str_of_int (pt_start p) @ '':+'' @ str_of_int (pt_size_gb p) @ ''G'',
        ''-t'', str_of_int (pt_number p) @ '':'' @ GPT_LINUX_FS,
        ''-c'', str_of_int (pt_number p) @ '':'' @ pt_partname p]) plan) @ [device]"

definition mkfs_argv :: "string \<Rightarrow> partition \<Rightarrow> string list" where
  "mkfs_argv device p =
     [''mkfs.ext4'', ''-F'', ''-q'', ''-L'', pt_fs_label p,
      ''-E'', ''offset='' @ str_of_int (pt_start p * SECTOR), device, str_of_int (pt_size_gb p * 1024 * 1024) @ ''k'']"

definition partition_path :: "string \<Rightarrow> int \<Rightarrow> string" where
  "partition_path device number =
     (if device \<noteq> [] \<and> is_digit (last device) then device @ ''p'' @ str_of_int number else device @ str_of_int number)"

definition legacy_relabel_plan :: "string \<Rightarrow> (int \<times> string) list \<Rightarrow> string list list" where
  "legacy_relabel_plan device partitions =
     concat (map (\<lambda>(number, partname).
       let new = canonical_name partname
       in if new = partname then []
          else [[''sgdisk'', ''-c'', str_of_int number @ '':'' @ new, device],
                [''e2label'', partition_path device number, take EXT4_LABEL_MAX new]]) partitions)"

section \<open>Applying it\<close>

type_synonym 'm validator = "string \<Rightarrow> json \<Rightarrow> json \<Rightarrow> ('m, target) dact"

definition layout_steps :: "target \<Rightarrow> partition list \<Rightarrow> string list list" where
  "layout_steps t plan =
     [[''wipefs'', ''-a'', t_path t], [''sgdisk'', ''-Z'', t_path t], sgdisk_argv (t_path t) plan]
     @ map (mkfs_argv (t_path t)) plan"

fun run_steps :: "'m devices \<Rightarrow> 'm validator \<Rightarrow> target \<Rightarrow> json \<Rightarrow> string list list \<Rightarrow> ('m, unit) dact" where
  "run_steps dv validate t lo [] = act_ret ()"
| "run_steps dv validate t lo (argv # rest) =
     act_bind (validate (t_path t) (serial_value (t_serial t)) lo) (\<lambda>current.
     if current \<noteq> t then unsafe ''drive identity, path or size changed during layout - refusing''
     else
       act_bind (d_cmd dv argv) (\<lambda>(rc, out, err).
       if rc \<noteq> 0 then
         act_raise (LayoutError (hd argv @ '' failed (rc='' @ str_of_int rc @ ''): '' @ strip err))
       else run_steps dv validate t lo rest))"

definition guards :: "'m devices \<Rightarrow> target \<Rightarrow> ('m, unit) dact" where
  "guards dv t =
     act_catch (act_seq (require_baseline_drive dv (t_path t)) (require_may_format dv (t_path t))) (\<lambda>e.
       case e of DataProtectionError why \<Rightarrow> act_raise (LayoutError why) | _ \<Rightarrow> act_raise e)"

definition apply_layout ::
  "'m devices \<Rightarrow> 'm validator \<Rightarrow> string \<Rightarrow> json \<Rightarrow> json \<Rightarrow> string list \<Rightarrow> ('m, partition list) dact" where
  "apply_layout dv validate path expected lo personas =
     act_bind (validate path expected lo) (\<lambda>t.
     act_seq (guards dv t) (
     act_bind (act_lift (plan_partitions (t_size t) personas)) (\<lambda>plan.
     act_seq (run_steps dv validate t lo (layout_steps t plan)) (act_ret plan))))"

section \<open>The text left on a volume\<close>

definition nl :: string where "nl = [CHR 0x0A]"

definition bt :: "string \<Rightarrow> string" where "bt s = [CHR 0x60] @ s @ [CHR 0x60]"

definition agent_index :: "partition \<Rightarrow> string \<Rightarrow> exn + string" where
  "agent_index p serial =
     (case role_text (pt_label p) of
        Inl e \<Rightarrow> Inl e
      | Inr role \<Rightarrow> Inr (
          ''# agentIndex.md - '' @ pt_label p @ nl @ nl @
          ''Read this first. It tells an AI agent or operator what this Baseline volume is and what it may hold.'' @ nl @ nl @
          ''- **Volume:** '' @ bt (pt_label p) @ '' (GPT partition '' @ str_of_int (pt_number p) @ '', ext4 label '' @
            bt (pt_fs_label p) @ ''), planned '' @ str_of_int (pt_size_gb p) @ '' GB.'' @ nl @
          ''- **Role:** '' @ role @ nl @
          ''- **Mountpoint:** '' @ bt (pt_mount p) @ '' with options '' @ bt (pt_options p) @
            (if contains ''noexec'' (pt_options p) then '' (nothing on this volume is ever executed directly)'' else []) @ ''.'' @ nl @
          ''- **Drive:** serial '' @ bt serial @ ''. Find it by '' @ bt ''/dev/disk/by-id'' @
            '', never by kernel letter (letters shift between boots).'' @ nl @
          ''- **Defined in:** '' @ bt ''baseline/lib/drive_installer.py'' @
            '' (volume set, sizing, mount options) and laid out by '' @ bt ''baseline/lib/baseline_drive_layout.py'' @ ''.'' @ nl @ nl @
          ''## Rules for agents'' @ nl @ nl @
          ''1. Verify the drive serial before any write; stop if it does not match.'' @ nl @
          ''2. Never touch another drive. Identify this volume by partition name '' @ bt (pt_partname p) @
            '', not by the ext4 label (labels are truncated to 16 characters).'' @ nl @
          ''3. Changes to the volume layout go through '' @ bt ''drive_installer'' @ '' / '' @ bt ''baseline_drive_layout'' @
            '' with tests first (decision record 49), never ad hoc commands.'' @ nl))"

definition debugfs_write_argv :: "string \<Rightarrow> partition \<Rightarrow> string \<Rightarrow> string \<Rightarrow> string list" where
  "debugfs_write_argv device p src dest =
     [''debugfs'', ''-w'', ''-R'', ''write '' @ src @ '' '' @ dest, device @ ''?offset='' @ str_of_int (pt_start p * SECTOR)]"

section \<open>The geometry of a plan\<close>

text \<open>Partitions numbered from \<open>n\<close>, each starting where the one before it ends, all aligned.\<close>

fun contiguous :: "int \<Rightarrow> int \<Rightarrow> partition list \<Rightarrow> bool" where
  "contiguous n start [] = True"
| "contiguous n start (p # ps) =
     (pt_number p = n \<and> pt_start p = start \<and> start mod ALIGN_SECTORS = 0
      \<and> contiguous (n + 1) (start + pt_size_gb p * GIB_SECTORS) ps)"

lemma gib_aligned: "start mod ALIGN_SECTORS = 0 \<Longrightarrow> (start + gb * GIB_SECTORS) mod ALIGN_SECTORS = 0"
proof -
  have "gb * GIB_SECTORS = gb * 1024 * ALIGN_SECTORS"
    by (simp add: GIB_SECTORS_def ALIGN_SECTORS_def SECTOR_def)
  then show "start mod ALIGN_SECTORS = 0 \<Longrightarrow> (start + gb * GIB_SECTORS) mod ALIGN_SECTORS = 0"
    by (metis mod_mult_self1)
qed

lemma place_ok:
  "start mod ALIGN_SECTORS = 0 \<Longrightarrow>
     \<exists>ps. place sizes n start vs = Inr ps \<and> contiguous n start ps
       \<and> map pt_label ps = map v_label vs \<and> map pt_size_gb ps = map (\<lambda>v. val_at sizes (v_label v)) vs
       \<and> map pt_mount ps = map v_mount vs"
proof (induction vs arbitrary: n start)
  case Nil
  then show ?case by simp
next
  case (Cons v vs)
  have a: "(start + val_at sizes (v_label v) * GIB_SECTORS) mod ALIGN_SECTORS = 0"
    by (rule gib_aligned) (rule Cons.prems)
  obtain ps where "place sizes (n + 1) (start + val_at sizes (v_label v) * GIB_SECTORS) vs = Inr ps"
      "contiguous (n + 1) (start + val_at sizes (v_label v) * GIB_SECTORS) ps"
      "map pt_label ps = map v_label vs" "map pt_size_gb ps = map (\<lambda>v. val_at sizes (v_label v)) vs"
      "map pt_mount ps = map v_mount vs"
    using Cons.IH [OF a] by blast
  then show ?case using Cons.prems a by (simp add: Let_def)
qed

lemma volumes_sane: "list_all (\<lambda>v. 0 < v_min v \<and> v_min v \<le> v_max v) (baseline_volumes_for personas)"
  by (simp add: baseline_volumes_for_def SHARED_VOLUMES_def mk_volume_def persona_volume_def appdata_volume_def list_all_iff ball_Un)

lemma sum_list_nonneg_int: "\<forall>x \<in> set xs. 0 \<le> f x \<Longrightarrow> 0 \<le> (sum_list (map f xs) :: int)"
  by (induction xs) auto

lemma values_by_key: "distinct (map fst xs) \<Longrightarrow> map (val_at xs) (map fst xs) = map snd xs"
  by (auto simp: val_at_def)

lemma plan_geometry:
  assumes d: "distinct (map v_label (baseline_volumes_for personas))" and p: "plan_partitions size_bytes personas = Inr plan"
  shows "contiguous 1 FIRST_SECTOR plan \<and> map pt_label plan = map v_label (baseline_volumes_for personas)
    \<and> list_all2 (\<lambda>q v. v_min v \<le> pt_size_gb q \<and> pt_size_gb q \<le> v_max v) plan (baseline_volumes_for personas)
    \<and> (FIRST_SECTOR + sum_list (map pt_size_gb plan) * GIB_SECTORS) * SECTOR \<le> size_bytes"
proof -
  let ?vs = "baseline_volumes_for personas" and ?free = "size_bytes - DEFAULT_SAFETY_MARGIN_BYTES"
  let ?sizes = "compute_adaptive_plan ?free ?vs DEFAULT_SAFETY_MARGIN_BYTES"
  have sane: "\<forall>v \<in> set ?vs. 0 \<le> v_min v \<and> v_min v \<le> v_max v"
    using volumes_sane [of personas] by (auto simp: list_all_iff)
  note b = adaptive_plan_bounds [OF d sane, of ?free DEFAULT_SAFETY_MARGIN_BYTES]
  have nz: "\<not> list_all (\<lambda>(_, n). n = 0) ?sizes" and pl: "place ?sizes 1 FIRST_SECTOR ?vs = Inr plan"
    using p by (auto simp: plan_partitions_def Let_def split: if_splits)
  have enough: "total_min_of ?vs \<le> usable_gb ?free DEFAULT_SAFETY_MARGIN_BYTES"
  proof (rule ccontr)
    assume "\<not> ?thesis"
    then have "?sizes = map (\<lambda>v. (v_label v, 0)) ?vs" by (simp add: plan_by_volume [OF d])
    then show False using nz by (simp add: list_all_iff)
  qed
  obtain ps where ps: "place ?sizes 1 FIRST_SECTOR ?vs = Inr ps" "contiguous 1 FIRST_SECTOR ps"
      "map pt_label ps = map v_label ?vs" "map pt_size_gb ps = map (\<lambda>v. val_at ?sizes (v_label v)) ?vs"
    using place_ok [of FIRST_SECTOR ?sizes 1 ?vs] by (auto simp: FIRST_SECTOR_def ALIGN_SECTORS_def)
  then have plan: "plan = ps" using pl by simp
  have "list_all2 (\<lambda>n v. v_min v \<le> n \<and> n \<le> v_max v) (map pt_size_gb ps) ?vs"
    unfolding ps(4) using b(3) [OF enough] by (auto simp: list_all2_conv_all_nth)
  then have sizes: "list_all2 (\<lambda>q v. v_min v \<le> pt_size_gb q \<and> pt_size_gb q \<le> v_max v) plan ?vs"
    by (simp add: plan list_all2_map1)
  have fst_sizes: "map fst ?sizes = map v_label ?vs" by (rule b(1))
  have "map (\<lambda>v. val_at ?sizes (v_label v)) ?vs = map (val_at ?sizes) (map fst ?sizes)"
    unfolding fst_sizes by simp
  also have "\<dots> = map snd ?sizes"
    by (rule values_by_key) (simp only: fst_sizes d)
  finally have snd_sizes: "map pt_size_gb plan = map snd ?sizes" by (simp add: plan ps(4))
  let ?sum = "sum_list (map pt_size_gb plan)"
  have "?sum \<le> usable_gb ?free DEFAULT_SAFETY_MARGIN_BYTES" using b(4) snd_sizes by simp
  moreover have "usable_gb ?free DEFAULT_SAFETY_MARGIN_BYTES * GiB \<le> max (?free - DEFAULT_SAFETY_MARGIN_BYTES) 0"
    unfolding usable_gb_def GiB_def by (simp flip: minus_mod_eq_div_mult)
  moreover have "0 < total_min_of ?vs"
  proof -
    have "total_min_of ?vs = total_min_of SHARED_VOLUMES + sum_list (map v_min (map persona_volume personas @ map appdata_volume personas))"
      by (simp add: total_min_of_def baseline_volumes_for_def)
    moreover have "0 \<le> sum_list (map v_min (map persona_volume personas @ map appdata_volume personas))"
      by (rule sum_list_nonneg_int) (auto simp: persona_volume_def appdata_volume_def mk_volume_def)
    ultimately show ?thesis by (simp add: total_min_of_def SHARED_VOLUMES_def mk_volume_def)
  qed
  ultimately have "?sum * GiB \<le> ?free - DEFAULT_SAFETY_MARGIN_BYTES"
    using enough by (auto simp: GiB_def max_def split: if_splits)
  then have "(FIRST_SECTOR + ?sum * GIB_SECTORS) * SECTOR \<le> size_bytes"
    by (simp add: FIRST_SECTOR_def GIB_SECTORS_def SECTOR_def GiB_def DEFAULT_SAFETY_MARGIN_BYTES_def)
  with ps(2,3) sizes plan show ?thesis by simp
qed

section \<open>What applying a layout does\<close>

text \<open>
  The contract \<open>apply_layout\<close> has with its validator: looking changes nothing. The commands that are
  issued are then a prefix of the steps of the plan, and nothing is issued unless the validation and
  both guards let the drive through.
\<close>

locale target_check =
  fixes validate :: "'m validator" and dv :: "'m devices"
  assumes validate_looks_only: "emits (\<lambda>c. \<not> writes c) (validate path expected lo)"
begin

lemma no_writes: "list_all (\<lambda>c. \<not> writes c) new \<Longrightarrow> filter writes new = []"
  by (induction new) auto

lemma looked:
  assumes "m h = (r, u)" "emits (\<lambda>c. \<not> writes c) m"
  shows "\<exists>new. calls u = calls h @ new \<and> filter writes new = []"
  using emits_resultD [OF assms(2,1)] no_writes by blast

lemma run_steps_calls:
  "\<exists>new k. calls (snd (run_steps dv validate t lo steps h)) = calls h @ new
     \<and> filter writes new = map DCmd (take k steps)
     \<and> (fst (run_steps dv validate t lo steps h) = Inr () \<longrightarrow> k = length steps)"
proof (induction steps arbitrary: h)
  case Nil
  show ?case by (intro exI [of _ "[]"] exI [of _ 0]) simp
next
  case (Cons argv rest)
  obtain r u where v: "validate (t_path t) (serial_value (t_serial t)) lo h = (r, u)" by fastforce
  obtain new where new: "calls u = calls h @ new" "filter writes new = []"
    using looked [OF v validate_looks_only] by blast
  show ?case
  proof (cases "r = Inr t")
    case False
    then show ?thesis using v new
      by (intro exI [of _ new] exI [of _ 0]) (cases r, auto simp: unsafe_def)
  next
    case True
    obtain r2 u2 where c: "d_cmd dv argv u = (r2, u2)" by fastforce
    then have u2: "calls u2 = calls u @ [DCmd argv]" by (auto simp: d_cmd_def call_os_def Let_def split: prod.splits)
    show ?thesis
    proof (cases "\<exists>out err. r2 = Inr (0, out, err)")
      case False
      have "\<exists>e. act_bind (d_cmd dv argv) (\<lambda>(rc, out, err).
          if rc \<noteq> 0 then act_raise (LayoutError (hd argv @ '' failed (rc='' @ str_of_int rc @ ''): '' @ strip err))
          else run_steps dv validate t lo rest) u = (Inl e, u2)"
        using c False by (cases r2) (auto split: prod.split)
      then show ?thesis using v True new u2
        by (intro exI [of _ "new @ [DCmd argv]"] exI [of _ 1]) auto
    next
      case ok: True
      obtain more k where m: "calls (snd (run_steps dv validate t lo rest u2)) = calls u2 @ more"
          "filter writes more = map DCmd (take k rest)"
          "fst (run_steps dv validate t lo rest u2) = Inr () \<longrightarrow> k = length rest"
        using Cons.IH by blast
      then show ?thesis using v True new u2 c ok
        by (intro exI [of _ "new @ DCmd argv # more"] exI [of _ "Suc k"]) auto
    qed
  qed
qed

lemma guards_look: "emits (\<lambda>c. \<not> writes c) (guards dv t)"
proof -
  have "emits (\<lambda>c. \<not> writes c) (case e of DataProtectionError why \<Rightarrow> act_raise (LayoutError why) | _ \<Rightarrow> act_raise e)" for e
    by (cases e) (simp_all add: emits_raise)
  then show ?thesis unfolding guards_def by (intro emits_catch emits_seq looks_require)
qed

lemma layout_calls:
  obtains (refused) new where "calls (snd (apply_layout dv validate path expected lo personas h)) = calls h @ new"
      "filter writes new = []"
  | (laid) t h1 h2 plan new k where "validate path expected lo h = (Inr t, h1)" "guards dv t h1 = (Inr (), h2)"
      "plan_partitions (t_size t) personas = Inr plan"
      "calls (snd (apply_layout dv validate path expected lo personas h)) = calls h @ new"
      "filter writes new = map DCmd (take k (layout_steps t plan))"
      "fst (apply_layout dv validate path expected lo personas h) = Inr plan \<Longrightarrow> k = length (layout_steps t plan)"
proof -
  obtain r h1 where v: "validate path expected lo h = (r, h1)" by fastforce
  obtain new1 where n1: "calls h1 = calls h @ new1" "filter writes new1 = []"
    using looked [OF v validate_looks_only] by blast
  show thesis
  proof (cases r)
    case (Inl e)
    then show thesis using v n1 by (intro refused [of new1]) (simp_all add: apply_layout_def)
  next
    case (Inr t)
    obtain r2 h2 where g: "guards dv t h1 = (r2, h2)" by fastforce
    obtain new2 where n2: "calls h2 = calls h1 @ new2" "filter writes new2 = []"
      using looked [OF g guards_look] by blast
    show thesis
    proof (cases r2)
      case (Inl e)
      then show thesis using v Inr g n1 n2 by (intro refused [of "new1 @ new2"]) (simp_all add: apply_layout_def)
    next
      case r2: (Inr x)
      show thesis
      proof (cases "plan_partitions (t_size t) personas")
        case (Inl e)
        then show thesis using v Inr g r2 n1 n2 by (intro refused [of "new1 @ new2"]) (simp_all add: apply_layout_def)
      next
        case plan: (Inr plan)
        let ?m = "act_seq (run_steps dv validate t lo (layout_steps t plan)) (act_ret plan)"
        have e: "apply_layout dv validate path expected lo personas h = ?m h2"
          using v Inr g r2 plan by (simp add: apply_layout_def)
        obtain new3 k where n3: "calls (snd (run_steps dv validate t lo (layout_steps t plan) h2)) = calls h2 @ new3"
            "filter writes new3 = map DCmd (take k (layout_steps t plan))"
            "fst (run_steps dv validate t lo (layout_steps t plan) h2) = Inr () \<longrightarrow> k = length (layout_steps t plan)"
          using run_steps_calls by blast
        have s: "snd (?m h2) = snd (run_steps dv validate t lo (layout_steps t plan) h2)"
            "fst (?m h2) = Inr plan \<Longrightarrow> fst (run_steps dv validate t lo (layout_steps t plan) h2) = Inr ()"
          by (auto simp: act_seq_def act_bind_def split: prod.splits sum.splits)
        have "calls (snd (?m h2)) = calls h @ (new1 @ new2 @ new3)" using n1 n2 n3 s by simp
        moreover have "filter writes (new1 @ new2 @ new3) = map DCmd (take k (layout_steps t plan))"
          using n1 n2 n3 by simp
        ultimately show thesis
          using laid [of t h1 h2 plan "new1 @ new2 @ new3" k] v Inr g r2 plan e n3(3) s(2) by simp
      qed
    qed
  qed
qed

end

interpretation device_check: target_check "\<lambda>path expected lo. validate_target_device dv path expected lo JNull" dv for dv
  by unfold_locales (rule validate_looks)

section \<open>Properties\<close>

text \<open>
  C18. The partitions of a plan fit the drive. For personas whose volumes have different labels, a plan has one
  partition per volume, in order and numbered from 1; each starts on a 1 MiB boundary, where the one
  before it ends; each size is within the volume's limits; and the last partition ends within the drive.
\<close>
theorem layout_plan_fits_drive:
  assumes "distinct (map v_label (baseline_volumes_for personas))" and "plan_partitions size_bytes personas = Inr plan"
  shows "contiguous 1 FIRST_SECTOR plan \<and> map pt_label plan = map v_label (baseline_volumes_for personas)
    \<and> list_all2 (\<lambda>q v. v_min v \<le> pt_size_gb q \<and> pt_size_gb q \<le> v_max v) plan (baseline_volumes_for personas)
    \<and> (FIRST_SECTOR + sum_list (map pt_size_gb plan) * GIB_SECTORS) * SECTOR \<le> size_bytes"
  using assms by (rule plan_geometry)

definition lab_plan :: "partition list" where
  "lab_plan = (case plan_partitions 429496729600 DEFAULT_PERSONAS of Inr p \<Rightarrow> p | Inl e \<Rightarrow> [])"

theorem layout_plan_fits_drive_witness:
  "contiguous 1 FIRST_SECTOR lab_plan
   \<and> (FIRST_SECTOR + sum_list (map pt_size_gb lab_plan) * GIB_SECTORS) * SECTOR \<le> 429496729600"
proof -
  have "plan_partitions 429496729600 DEFAULT_PERSONAS = Inr lab_plan"
    "distinct (map v_label (baseline_volumes_for DEFAULT_PERSONAS))"
    by code_simp+
  then show ?thesis using layout_plan_fits_drive by blast
qed

text \<open>A layout that returns its plan wrote all of its steps.\<close>
definition plan_written :: "exn + partition list \<Rightarrow> target \<Rightarrow> partition list \<Rightarrow> nat \<Rightarrow> bool" where
  "plan_written r t plan k \<longleftrightarrow> (r = Inr plan \<longrightarrow> k = length (layout_steps t plan))"

text \<open>
  C19. Laying out writes only to the validated drive, and only what was planned. On every machine, whatever
  any command answers: either nothing that writes is issued at all, or the validation gave a target,
  both guards (Baseline's own drive or empty; empty or stamped by the installer) let it through, a plan was
  made for its size, and the writing commands issued are, in order, a prefix of that plan's steps on that
  target; all of them if the layout reports success.
\<close>
theorem layout_writes_only_the_plan:
  "\<exists>new. calls (snd (apply_layout dv (\<lambda>path expected lo. validate_target_device dv path expected lo JNull)
              path expected lo personas h)) = calls h @ new
     \<and> (filter writes new = [] \<or>
        (\<exists>t h1 h2 plan k. validate_target_device dv path expected lo JNull h = (Inr t, h1)
           \<and> guards dv t h1 = (Inr (), h2) \<and> plan_partitions (t_size t) personas = Inr plan
           \<and> filter writes new = map DCmd (take k (layout_steps t plan))
           \<and> plan_written (fst (apply_layout dv (\<lambda>path expected lo. validate_target_device dv path expected lo JNull)
                path expected lo personas h)) t plan k))"
  unfolding plan_written_def
  by (rule device_check.layout_calls [of dv path expected lo personas h]) blast+

end
