(* ===== verification/PersistMounts.thy ===== *)
theory PersistMounts
  imports DriveInstaller
begin

text \<open>
  \<open>src/baseline/lib/persist_bind_mounts.py\<close>: the persistence volume, the bind mounts that redirect
  Baseline's own paths to it, and the switch from one persona's volume to another's.
  What is mounted is always read from \<open>/proc/self/mounts\<close> through the runner. A persona is
  \<open>None\<close> for the single volume of before the personas. \<open>main\<close> is in \<open>RecoveryMode\<close>, which it
  calls.
\<close>

section \<open>Names and lines\<close>

definition USER_LABEL :: string where "USER_LABEL = ''USER''"
definition MOUNT_POINT :: string where "MOUNT_POINT = ''/mnt/USER''"
definition DEFAULT_PERSONA :: string where "DEFAULT_PERSONA = ''admin''"
definition ACTIVE_PERSONA_MARKER_PATH :: string where
  "ACTIVE_PERSONA_MARKER_PATH = ''/mnt/BASELINE/state/active_persona''"
definition PROC_MOUNTS :: string where "PROC_MOUNTS = ''/proc/self/mounts''"

definition user_label_for :: "string option \<Rightarrow> string" where
  "user_label_for persona = (case persona of None \<Rightarrow> USER_LABEL | Some p \<Rightarrow> persona_label p)"

definition user_mountpoint_for :: "string option \<Rightarrow> string" where
  "user_mountpoint_for persona = (case persona of None \<Rightarrow> MOUNT_POINT | Some p \<Rightarrow> persona_mountpoint p)"

definition REDIRECT_PATHS :: "(string \<times> string) list" where
  "REDIRECT_PATHS =
     [(''/etc/baseline'', ''etc-baseline''),
      (''/var/lib/baseline'', ''var-lib-baseline''),
      (''/var/log/baseline'', ''var-log-baseline'')]"

record apply_result =
  applied :: bool
  detail :: string

definition apply_result :: "bool \<Rightarrow> string \<Rightarrow> apply_result" where
  "apply_result ok text = \<lparr>applied = ok, detail = text\<rparr>"

lemma applied_result [simp]: "applied (apply_result ok text) = ok"
  by (simp add: apply_result_def)

definition user_mount_fstab_line :: "string option \<Rightarrow> string" where
  "user_mount_fstab_line persona =
     ''LABEL='' @ user_label_for persona @ '' '' @ user_mountpoint_for persona @ '' ext4 defaults 0 2'' @ [CHR 0x0A]"

definition bind_fstab_line :: "string \<Rightarrow> string \<Rightarrow> string option \<Rightarrow> string" where
  "bind_fstab_line target subdir persona =
     user_mountpoint_for persona @ ''/'' @ subdir @ '' '' @ target @ '' none bind 0 0'' @ [CHR 0x0A]"

section \<open>What is mounted\<close>

definition mount_rows :: "string \<Rightarrow> string list list" where
  "mount_rows content = map split_ws (splitlines content)"

definition shows_mounted :: "string \<Rightarrow> string \<Rightarrow> bool" where
  "shows_mounted content path \<longleftrightarrow> list_ex (\<lambda>parts. 2 \<le> length parts \<and> parts ! 1 = path) (mount_rows content)"

definition shows_read_write :: "string \<Rightarrow> string \<Rightarrow> bool" where
  "shows_read_write content path =
     (case find (\<lambda>parts. 4 \<le> length parts \<and> parts ! 1 = path) (mount_rows content) of
        Some parts \<Rightarrow> ''rw'' \<in> set (split_on (CHR '','') (parts ! 3))
      | None \<Rightarrow> False)"

definition is_mounted :: "'m os \<Rightarrow> string \<Rightarrow> (('m, call) host, bool) act" where
  "is_mounted os path =
     act_catch (act_bind (read_text os PROC_MOUNTS) (\<lambda>content. act_ret (shows_mounted content path)))
       (\<lambda>_. act_ret False)"

definition is_mounted_read_write :: "'m os \<Rightarrow> string \<Rightarrow> (('m, call) host, bool) act" where
  "is_mounted_read_write os path =
     act_catch (act_bind (read_text os PROC_MOUNTS) (\<lambda>content. act_ret (shows_read_write content path)))
       (\<lambda>_. act_ret False)"

definition fstab_lists :: "'m os \<Rightarrow> string \<Rightarrow> (('m, call) host, bool) act" where
  "fstab_lists os line =
     act_catch (act_bind (read_text os FSTAB_PATH)
         (\<lambda>content. act_ret (strip line \<in> set (map strip (splitlines content)))))
       (\<lambda>_. act_ret False)"

definition ensure_fstab_line :: "'m os \<Rightarrow> string \<Rightarrow> (('m, call) host, unit) act" where
  "ensure_fstab_line os line =
     act_bind (fstab_lists os line) (\<lambda>listed. act_when (\<not> listed) (append_text os FSTAB_PATH line))"

definition discover_persistence_device :: "'m os \<Rightarrow> string option \<Rightarrow> (('m, call) host, string option) act" where
  "discover_persistence_device os persona =
     act_bind (run os [''blkid'', ''-L'', user_label_for persona] 10) (\<lambda>p.
     act_ret (if returncode p \<noteq> 0 then None
              else if strip (stdout p) = [] then None else Some (strip (stdout p))))"

definition local_fallback_size_gb :: "'m os \<Rightarrow> string \<Rightarrow> (('m, call) host, int) act" where
  "local_fallback_size_gb os vg =
     act_bind (run os (vg_free_bytes_argv vg) 15) (\<lambda>p.
     act_ret (if returncode p \<noteq> 0 then 0
              else case parse_vg_free_bytes (stdout p) of
                None \<Rightarrow> 0
              | Some free \<Rightarrow> adaptive_single_size_gb free 200 DEFAULT_SAFETY_MARGIN_BYTES 50))"

section \<open>The persistence volume\<close>

text \<open>The part of \<open>ensure_user_volume_mounted\<close> that mounts; \<open>None\<close> when it may go on to \<open>/etc/fstab\<close>.\<close>
definition mount_user_volume :: "'m os \<Rightarrow> string option \<Rightarrow> string \<Rightarrow> (('m, call) host, apply_result option) act" where
  "mount_user_volume os persona vg =
     (let label = user_label_for persona; mountpoint = user_mountpoint_for persona
      in act_seq (makedirs os mountpoint) (
         act_bind (run os [''mount'', ''LABEL='' @ label, mountpoint] 30) (\<lambda>p.
         if returncode p = 0 then act_ret None
         else
           let label_mount_error = take 300 (strip (stderr p))
           in act_bind (discover_persistence_device os persona) (\<lambda>found.
              case found of
                Some device \<Rightarrow>
                  act_bind (run os [''mount'', device, mountpoint] 30) (\<lambda>q.
                  act_ret (if returncode q \<noteq> 0
                    then Some (apply_result False (''found '' @ label @ '' at '' @ device @ '' but direct mount failed: '' @
                           take 300 (strip (stderr q))))
                    else None))
              | None \<Rightarrow>
                  act_bind (local_fallback_size_gb os vg) (\<lambda>local_size_gb.
                  if local_size_gb \<le> 0 then
                    act_ret (Some (apply_result False (''no '' @ label @ '' device found anywhere (label mount: '' @
                      label_mount_error @ '') and no real local free space to self-install one'')))
                  else
                    let lv_name = (case persona of Some p \<Rightarrow> persona_lv_name p | None \<Rightarrow> ''baseline_user_local'')
                    in act_bind (ensure_volume os vg lv_name (str_of_int local_size_gb @ ''G'') label mountpoint) (\<lambda>r.
                       act_ret (if \<not> cr_ok r
                         then Some (apply_result False (''no '' @ label @ '' device found anywhere and local self-install failed: '' @
                                cr_detail r))
                         else None)))))))"

definition ensure_user_volume_mounted ::
  "'m os \<Rightarrow> string option \<Rightarrow> string \<Rightarrow> (('m, call) host, apply_result) act" where
  "ensure_user_volume_mounted os persona vg =
     (let label = user_label_for persona; mountpoint = user_mountpoint_for persona;
          line = user_mount_fstab_line persona
      in act_bind (is_mounted os mountpoint) (\<lambda>there.
         act_bind (if there then act_ret None else mount_user_volume os persona vg) (\<lambda>failed.
         case failed of
           Some r \<Rightarrow> act_ret r
         | None \<Rightarrow>
             act_seq (ensure_fstab_line os line)
               (act_ret (apply_result True (label @ '' mounted at '' @ mountpoint))))))"

definition unmount_user_volume :: "'m os \<Rightarrow> string option \<Rightarrow> (('m, call) host, apply_result) act" where
  "unmount_user_volume os persona =
     (let mountpoint = user_mountpoint_for persona
      in act_bind (is_mounted os mountpoint) (\<lambda>there.
         if \<not> there then act_ret (apply_result True (mountpoint @ '' already not mounted''))
         else act_bind (run os [''umount'', mountpoint] 30) (\<lambda>p.
           act_ret (if returncode p \<noteq> 0
             then apply_result False (''umount '' @ mountpoint @ '' failed: '' @ take 300 (strip (stderr p)))
             else apply_result True (mountpoint @ '' unmounted'')))))"

section \<open>The redirects\<close>

text \<open>The first run only: the subdirectory is made and what the target holds is moved into it.\<close>
definition migrate_first_run :: "'m os \<Rightarrow> string \<Rightarrow> string \<Rightarrow> (('m, call) host, unit) act" where
  "migrate_first_run os target persistence_side =
     act_bind (path_exists os persistence_side) (\<lambda>there.
     act_when (\<not> there)
       (act_seq (makedirs os persistence_side) (
        act_bind (path_exists os target) (\<lambda>has_target.
        act_when has_target
          (act_bind (listdir os target) (\<lambda>entries.
           act_for entries (\<lambda>entry.
             act_bind (run os [''mv'', entry, persistence_side @ ''/''] 30) (\<lambda>_. act_ret ()))))))))"

text \<open>The bind mount itself; a result only when it failed.\<close>
definition bind_target :: "'m os \<Rightarrow> string \<Rightarrow> string \<Rightarrow> (('m, call) host, apply_result option) act" where
  "bind_target os persistence_side target =
     act_bind (is_mounted os target) (\<lambda>bound.
     if bound then act_ret None
     else act_bind (run os [''mount'', ''--bind'', persistence_side, target] 15) (\<lambda>p.
       act_ret (if returncode p \<noteq> 0
         then Some (apply_result False (''bind mount '' @ target @ '' failed: '' @ take 300 (strip (stderr p))))
         else None)))"

text \<open>What is done once the volume is known to be mounted.\<close>
definition redirect_on_volume ::
  "'m os \<Rightarrow> string \<Rightarrow> string \<Rightarrow> string option \<Rightarrow> (('m, call) host, apply_result) act" where
  "redirect_on_volume os target subdir persona =
     (let persistence_side = user_mountpoint_for persona @ ''/'' @ subdir
      in act_seq (migrate_first_run os target persistence_side) (
         act_bind (path_exists os target) (\<lambda>has_target.
         act_seq (act_when (\<not> has_target) (makedirs os target)) (
         act_bind (bind_target os persistence_side target) (\<lambda>failed.
         case failed of
           Some r \<Rightarrow> act_ret r
         | None \<Rightarrow>
             act_seq (ensure_fstab_line os (bind_fstab_line target subdir persona))
               (act_ret (apply_result True (target @ '' bind-mounted to '' @ persistence_side))))))))"

definition ensure_redirect ::
  "'m os \<Rightarrow> string \<Rightarrow> string \<Rightarrow> string option \<Rightarrow> (('m, call) host, apply_result) act" where
  "ensure_redirect os target subdir persona =
     act_bind (is_mounted os (user_mountpoint_for persona)) (\<lambda>there.
     if \<not> there then
       act_ret (apply_result False (user_mountpoint_for persona @ '' is not mounted - refusing to touch '' @ target))
     else redirect_on_volume os target subdir persona)"

definition unmount_redirect :: "'m os \<Rightarrow> string \<Rightarrow> (('m, call) host, apply_result) act" where
  "unmount_redirect os target =
     act_bind (is_mounted os target) (\<lambda>there.
     if \<not> there then act_ret (apply_result True (target @ '' already not bind-mounted''))
     else act_bind (run os [''umount'', target] 15) (\<lambda>p.
       act_ret (if returncode p \<noteq> 0
         then apply_result False (''umount '' @ target @ '' failed: '' @ take 300 (strip (stderr p)))
         else apply_result True (target @ '' unbound''))))"

definition ensure_all_redirects :: "'m os \<Rightarrow> string option \<Rightarrow> (('m, call) host, apply_result list) act" where
  "ensure_all_redirects os persona =
     act_bind (ensure_user_volume_mounted os persona ''pve'') (\<lambda>first.
     if \<not> applied first then act_ret [first]
     else act_bind (act_map (\<lambda>x. ensure_redirect os (fst x) (snd x) persona) REDIRECT_PATHS)
       (\<lambda>rs. act_ret (first # rs)))"

definition unmount_all_redirects :: "'m os \<Rightarrow> string option \<Rightarrow> (('m, call) host, apply_result list) act" where
  "unmount_all_redirects os persona =
     act_bind (act_map (\<lambda>x. unmount_redirect os (fst x)) REDIRECT_PATHS) (\<lambda>rs.
     act_bind (unmount_user_volume os persona) (\<lambda>r. act_ret (rs @ [r])))"

section \<open>The active persona\<close>

definition get_active_persona :: "'m os \<Rightarrow> string \<Rightarrow> (('m, call) host, string) act" where
  "get_active_persona os dflt =
     act_bind (path_exists os ACTIVE_PERSONA_MARKER_PATH) (\<lambda>there.
     if \<not> there then act_ret dflt
     else act_bind (read_text os ACTIVE_PERSONA_MARKER_PATH) (\<lambda>text.
       act_ret (or_else (strip text) dflt)))"

definition set_active_persona :: "'m os \<Rightarrow> string \<Rightarrow> (('m, call) host, unit) act" where
  "set_active_persona os persona =
     act_seq (makedirs os (dirname ACTIVE_PERSONA_MARKER_PATH))
       (write_text_atomic os ACTIVE_PERSONA_MARKER_PATH persona)"

definition failures :: "apply_result list \<Rightarrow> apply_result list" where
  "failures results = filter (\<lambda>r. \<not> applied r) results"

text \<open>The branch for the persona that is already active, and the one that changes it.\<close>

definition reensure_persona :: "'m os \<Rightarrow> string \<Rightarrow> (('m, call) host, apply_result) act" where
  "reensure_persona os to_persona =
     act_bind (ensure_all_redirects os (Some to_persona)) (\<lambda>results.
     act_seq (set_active_persona os to_persona)
       (act_ret (case failures results of
          r # rest \<Rightarrow> apply_result False (''persona '' @ py_repr to_persona @ '' already active but re-ensure failed: '' @ detail r)
        | [] \<Rightarrow> apply_result True (''persona '' @ py_repr to_persona @ '' already active''))))"

definition change_persona :: "'m os \<Rightarrow> string \<Rightarrow> string \<Rightarrow> (('m, call) host, apply_result) act" where
  "change_persona os from_persona to_persona =
     act_bind (unmount_all_redirects os (Some from_persona)) (\<lambda>unmounted.
     case failures unmounted of
       r # rest \<Rightarrow> act_ret (apply_result False (''failed to cleanly unmount persona '' @ py_repr from_persona @ '': '' @ detail r))
     | [] \<Rightarrow>
         act_bind (ensure_all_redirects os (Some to_persona)) (\<lambda>mounts.
         case failures mounts of
           r # rest \<Rightarrow> act_ret (apply_result False (''failed to mount persona '' @ py_repr to_persona @ '': '' @ detail r))
         | [] \<Rightarrow>
             act_seq (set_active_persona os to_persona)
               (act_ret (apply_result True (''switched active persona from '' @ py_repr from_persona @
                  '' to '' @ py_repr to_persona)))))"

definition switch_active_persona :: "'m os \<Rightarrow> string \<Rightarrow> bool \<Rightarrow> (('m, call) host, apply_result) act" where
  "switch_active_persona os to_persona credential_ok =
     (if \<not> credential_ok then
        act_ret (apply_result False (''refusing to switch to persona '' @ py_repr to_persona @ '': no proven persistence credential''))
      else
        act_bind (get_active_persona os DEFAULT_PERSONA) (\<lambda>from_persona.
        if from_persona = to_persona then reensure_persona os to_persona
        else change_persona os from_persona to_persona))"

section \<open>A kernel that mounts\<close>

text \<open>
  What the code relies on of the operating system, for the table \<open>T m\<close> of mounted paths of a
  machine \<open>m\<close>: \<open>/proc/self/mounts\<close> lists exactly that table, \<open>mount\<close> with exit code 0 adds its last argument,
  and only \<open>umount\<close> takes a path away.
\<close>

definition mount_kernel :: "'m os \<Rightarrow> ('m \<Rightarrow> string set) \<Rightarrow> bool" where
  "mount_kernel os T \<longleftrightarrow>
     (\<forall>m text m'. os_read_text os PROC_MOUNTS m = (Inr text, m') \<longrightarrow> (\<forall>p. shows_mounted text p \<longleftrightarrow> p \<in> T m'))
     \<and> (\<forall>argv t m p m'. os_run os argv t m = (Inr p, m') \<longrightarrow> returncode p = 0 \<longrightarrow> argv \<noteq> [] \<longrightarrow> hd argv = ''mount'' \<longrightarrow>
          last argv \<in> T m')
     \<and> (\<forall>argv t m. argv \<noteq> [] \<longrightarrow> hd argv \<noteq> ''umount'' \<longrightarrow> T m \<subseteq> T (snd (os_run os argv t m)))
     \<and> (\<forall>p m. T m \<subseteq> T (snd (os_read_text os p m)))
     \<and> (\<forall>p c m. T m \<subseteq> T (snd (os_write_text_atomic os p c m)))
     \<and> (\<forall>p c m. T m \<subseteq> T (snd (os_append_text os p c m)))
     \<and> (\<forall>p m. T m \<subseteq> T (snd (os_path_exists os p m)))
     \<and> (\<forall>p m. T m \<subseteq> T (snd (os_makedirs os p m)))
     \<and> (\<forall>p m. T m \<subseteq> T (snd (os_listdir os p m)))"

text \<open>\<open>mounted T p\<close>: the path \<open>p\<close> is mounted on the machine of the host.\<close>
definition mounted :: "('m \<Rightarrow> string set) \<Rightarrow> string \<Rightarrow> ('m, call) host \<Rightarrow> bool" where
  "mounted T p h \<longleftrightarrow> p \<in> T (machine h)"

lemma keeps_call_os:
  "(\<And>m. T m \<subseteq> T (snd (f m))) \<Longrightarrow> keeps (mounted T p) (call_os c f)"
  by (rule keepsI) (auto simp: mounted_def call_os_def case_prod_unfold Let_def)

lemma kernel_reads: "mount_kernel os T \<Longrightarrow> os_read_text os PROC_MOUNTS m = (Inr text, m') \<Longrightarrow> shows_mounted text p \<longleftrightarrow> p \<in> T m'"
  unfolding mount_kernel_def by (elim conjE) simp

lemma kernel_mounts:
  "mount_kernel os T \<Longrightarrow> os_run os argv t m = (Inr p, m') \<Longrightarrow> returncode p = 0 \<Longrightarrow> argv \<noteq> [] \<Longrightarrow> hd argv = ''mount''
     \<Longrightarrow> last argv \<in> T m'"
  unfolding mount_kernel_def by (elim conjE) simp

lemma kernel_keeps_run:
  "mount_kernel os T \<Longrightarrow> argv \<noteq> [] \<Longrightarrow> hd argv \<noteq> ''umount'' \<Longrightarrow> keeps (mounted T q) (run os argv t)"
  unfolding run_def mount_kernel_def by (intro keeps_call_os) simp

lemma kernel_keeps_calls:
  assumes "mount_kernel os T"
  shows "keeps (mounted T q) (read_text os p)" "keeps (mounted T q) (write_text_atomic os p c)"
    "keeps (mounted T q) (append_text os p c)" "keeps (mounted T q) (path_exists os p)"
    "keeps (mounted T q) (makedirs os p)" "keeps (mounted T q) (listdir os p)"
  using assms [unfolded mount_kernel_def] by (elim conjE, simp add: runner_defs keeps_call_os)+

lemmas kernel_intros = keeps_intros kernel_keeps_run kernel_keeps_calls

lemma kernel_is_mounted: "mount_kernel os T \<Longrightarrow> keeps (mounted T q) (is_mounted os p)"
  unfolding is_mounted_def by (intro kernel_intros)

lemma kernel_fstab_line: "mount_kernel os T \<Longrightarrow> keeps (mounted T q) (ensure_fstab_line os line)"
  unfolding ensure_fstab_line_def fstab_lists_def by (intro kernel_intros)

lemma kernel_migrate: "mount_kernel os T \<Longrightarrow> keeps (mounted T q) (migrate_first_run os target side)"
  unfolding migrate_first_run_def by (intro kernel_intros) simp_all

lemma kernel_bind: "mount_kernel os T \<Longrightarrow> keeps (mounted T q) (bind_target os side target)"
  unfolding bind_target_def by (intro kernel_intros kernel_is_mounted) simp_all

lemma kernel_ensure_redirect: "mount_kernel os T \<Longrightarrow> keeps (mounted T q) (ensure_redirect os target subdir persona)"
  unfolding ensure_redirect_def redirect_on_volume_def Let_def
  by (intro kernel_intros kernel_is_mounted kernel_fstab_line kernel_migrate kernel_bind) simp_all

lemma kernel_set_active: "mount_kernel os T \<Longrightarrow> keeps (mounted T q) (set_active_persona os persona)"
  unfolding set_active_persona_def by (intro kernel_intros)

lemma keeps_resultD: "keeps P m \<Longrightarrow> P h \<Longrightarrow> m h = (r, h') \<Longrightarrow> P h'"
  using keepsD [of P m h] by simp

lemma is_mounted_True:
  assumes "mount_kernel os T" "is_mounted os p h = (Inr True, h')"
  shows "mounted T p h'"
  using assms kernel_reads [OF assms(1)]
  by (auto simp: is_mounted_def act_catch_def act_bind_def read_text_def call_os_def mounted_def
      split: prod.splits sum.splits)

lemma run_mount_mounted:
  assumes "mount_kernel os T" "run os argv t h = (Inr p, h')" "returncode p = 0" "argv \<noteq> []" "hd argv = ''mount''"
  shows "mounted T (last argv) h'"
  using assms kernel_mounts [OF assms(1)]
  by (auto simp: run_def call_os_def mounted_def split: prod.splits)

text \<open>A redirect reported as applied is mounted, and so is the volume it is bound from.\<close>

lemma bind_target_mounted:
  assumes k: "mount_kernel os T" and b: "bind_target os side target h = (Inr None, h')"
  shows "mounted T target h'"
proof -
  obtain bound h1 where h1: "is_mounted os target h = (Inr bound, h1)"
    and h2: "(if bound then act_ret None
       else act_bind (run os [''mount'', ''--bind'', side, target] 15) (\<lambda>p.
         act_ret (if returncode p \<noteq> 0
           then Some (apply_result False (''bind mount '' @ target @ '' failed: '' @ take 300 (strip (stderr p))))
           else None))) h1 = (Inr None, h')"
    using b unfolding bind_target_def act_bind_eq_Inr by blast
  show ?thesis
  proof (cases bound)
    case True
    then show ?thesis using is_mounted_True [OF k] h1 h2 by simp
  next
    case False
    then obtain p where "run os [''mount'', ''--bind'', side, target] 15 h1 = (Inr p, h')" "returncode p = 0"
      using h2 by (auto simp: act_bind_eq_Inr split: if_splits)
    then show ?thesis using run_mount_mounted [OF k] by fastforce
  qed
qed

lemma ensure_redirect_mounted:
  assumes k: "mount_kernel os T" and r: "ensure_redirect os target subdir persona h = (Inr r, h')" and a: "applied r"
  shows "mounted T (user_mountpoint_for persona) h' \<and> mounted T target h'"
proof -
  let ?mp = "user_mountpoint_for persona"
  let ?side = "?mp @ ''/'' @ subdir"
  obtain there h1 where h1: "is_mounted os ?mp h = (Inr there, h1)"
    using r unfolding ensure_redirect_def Let_def act_bind_eq_Inr by blast
  have there: "there"
    using r a h1 by (cases there) (auto simp: ensure_redirect_def Let_def)
  have r: "redirect_on_volume os target subdir persona h1 = (Inr r, h')"
    using r h1 there by (simp add: ensure_redirect_def)
  obtain x2 h2 x3 h3 x4 h4 failed h5 where
      h2: "migrate_first_run os target ?side h1 = (Inr x2, h2)"
    and h3: "path_exists os target h2 = (Inr x3, h3)"
    and h4: "act_when (\<not> x3) (makedirs os target) h3 = (Inr x4, h4)"
    and h5: "bind_target os ?side target h4 = (Inr failed, h5)"
    and h6: "(case failed of Some r \<Rightarrow> act_ret r
         | None \<Rightarrow> act_seq (ensure_fstab_line os (bind_fstab_line target subdir persona))
             (act_ret (apply_result True (target @ '' bind-mounted to '' @ ?side)))) h5 = (Inr r, h')"
    using r unfolding redirect_on_volume_def Let_def act_bind_eq_Inr act_seq_eq_Inr by blast
  have "failed = None"
  proof (rule ccontr)
    assume "failed \<noteq> None"
    then obtain q where q: "failed = Some q" by blast
    then have "\<not> applied q"
      using h5 by (auto simp: bind_target_def act_bind_eq_Inr split: if_splits)
    then show False using h6 q a by simp
  qed
  note h5 = h5 [unfolded this] and h6 = h6 [unfolded this option.case]
  have tail: "keeps (mounted T q) (act_seq (ensure_fstab_line os (bind_fstab_line target subdir persona))
             (act_ret (apply_result True (target @ '' bind-mounted to '' @ ?side))))" for q
    by (intro kernel_intros kernel_fstab_line k)
  have "mounted T ?mp h1" using is_mounted_True [OF k] h1 there by simp
  then have "mounted T ?mp h2" by (rule keeps_resultD [OF kernel_migrate [OF k] _ h2])
  then have "mounted T ?mp h3" by (rule keeps_resultD [OF kernel_keeps_calls(4) [OF k] _ h3])
  then have "mounted T ?mp h4" by (rule keeps_resultD [OF keeps_when [OF kernel_keeps_calls(5) [OF k]] _ h4])
  then have "mounted T ?mp h5" by (rule keeps_resultD [OF kernel_bind [OF k] _ h5])
  moreover have "mounted T target h5" by (rule bind_target_mounted [OF k h5])
  ultimately show ?thesis using keeps_resultD [OF tail _ h6] by simp
qed

lemma redirects_mounted:
  assumes k: "mount_kernel os T"
    and r: "act_map (\<lambda>x. ensure_redirect os (fst x) (snd x) persona) xs h = (Inr rs, h')"
    and a: "list_all applied rs"
  shows "(xs \<noteq> [] \<longrightarrow> mounted T (user_mountpoint_for persona) h') \<and> (\<forall>x \<in> set xs. mounted T (fst x) h')"
  using r a
proof (induction xs arbitrary: h rs)
  case Nil
  then show ?case by simp
next
  case (Cons x xs)
  obtain r1 h1 rs1 where r1: "ensure_redirect os (fst x) (snd x) persona h = (Inr r1, h1)"
    and rs1: "act_map (\<lambda>x. ensure_redirect os (fst x) (snd x) persona) xs h1 = (Inr rs1, h')" "rs = r1 # rs1"
    using Cons.prems(1) by (auto simp: act_bind_eq_Inr)
  have m: "mounted T (user_mountpoint_for persona) h1" "mounted T (fst x) h1"
    using ensure_redirect_mounted [OF k r1] Cons.prems(2) rs1(2) by auto
  have "keeps (mounted T q) (act_map (\<lambda>x. ensure_redirect os (fst x) (snd x) persona) xs)" for q
    by (intro kernel_intros kernel_ensure_redirect k)
  note this [THEN keeps_resultD, OF _ rs1(1)]
  with m have "mounted T (user_mountpoint_for persona) h'" "mounted T (fst x) h'" by simp_all
  then show ?case using Cons.IH [OF rs1(1)] Cons.prems(2) rs1(2) by auto
qed

lemma all_redirects_mounted:
  assumes k: "mount_kernel os T" and r: "ensure_all_redirects os persona h = (Inr rs, h')" and a: "list_all applied rs"
  shows "mounted T (user_mountpoint_for persona) h' \<and> (\<forall>x \<in> set REDIRECT_PATHS. mounted T (fst x) h')"
proof -
  obtain r1 h1 where r1: "ensure_user_volume_mounted os persona ''pve'' h = (Inr r1, h1)"
    and r2: "(if \<not> applied r1 then act_ret [r1]
      else act_bind (act_map (\<lambda>x. ensure_redirect os (fst x) (snd x) persona) REDIRECT_PATHS)
       (\<lambda>rs. act_ret (r1 # rs))) h1 = (Inr rs, h')"
    using r unfolding ensure_all_redirects_def act_bind_eq_Inr by blast
  have "applied r1" using a r2 by (cases "applied r1") auto
  then have "act_bind (act_map (\<lambda>x. ensure_redirect os (fst x) (snd x) persona) REDIRECT_PATHS)
       (\<lambda>rs. act_ret (r1 # rs)) h1 = (Inr rs, h')"
    using r2 by simp
  then obtain rs1 where "act_map (\<lambda>x. ensure_redirect os (fst x) (snd x) persona) REDIRECT_PATHS h1 = (Inr rs1, h')"
      "rs = r1 # rs1"
    unfolding act_bind_eq_Inr by auto
  moreover from this have "list_all applied rs1" using a by simp
  moreover have "REDIRECT_PATHS \<noteq> []" by (simp add: REDIRECT_PATHS_def)
  ultimately show ?thesis using redirects_mounted [OF k] by blast
qed

section \<open>What is written, and when\<close>

fun is_write :: "call \<Rightarrow> bool" where
  "is_write (CWrite p c) = True"
| "is_write _ = False"

abbreviation quiet :: "(('m, call) host, 'a) act \<Rightarrow> bool" where
  "quiet m \<equiv> emits (\<lambda>c. \<not> is_write c) m"

lemma quiet_is_mounted: "quiet (is_mounted os p)"
  unfolding is_mounted_def by (intro emits_intros) simp_all

lemma quiet_fstab_line: "quiet (ensure_fstab_line os line)"
  unfolding ensure_fstab_line_def fstab_lists_def by (intro emits_intros) simp_all

lemma quiet_ensure_volume: "quiet (ensure_volume os vg lv sz label mountpoint)"
  unfolding ensure_volume_def ensure_mounted_with_options_def ensure_fstab_entry_def fstab_has_line_def Let_def
  by (intro emits_intros) simp_all

lemma quiet_mount_user: "quiet (mount_user_volume os persona vg)"
  unfolding mount_user_volume_def discover_persistence_device_def local_fallback_size_gb_def Let_def
  by (intro emits_intros quiet_ensure_volume) simp_all

lemma quiet_ensure_user: "quiet (ensure_user_volume_mounted os persona vg)"
  unfolding ensure_user_volume_mounted_def Let_def
  by (intro emits_intros quiet_is_mounted quiet_mount_user quiet_fstab_line)

lemma quiet_redirect: "quiet (ensure_redirect os target subdir persona)"
  unfolding ensure_redirect_def redirect_on_volume_def migrate_first_run_def bind_target_def Let_def
  by (intro emits_intros quiet_is_mounted quiet_fstab_line) simp_all

lemma quiet_ensure_all: "quiet (ensure_all_redirects os persona)"
  unfolding ensure_all_redirects_def by (intro emits_intros quiet_ensure_user quiet_redirect)

lemma quiet_unmount_all: "quiet (unmount_all_redirects os persona)"
  unfolding unmount_all_redirects_def unmount_redirect_def unmount_user_volume_def Let_def
  by (intro emits_intros quiet_is_mounted) simp_all

lemma quiet_get_active: "quiet (get_active_persona os dflt)"
  unfolding get_active_persona_def by (intro emits_intros) simp_all

lemma set_active_calls:
  "set_active_persona os persona h = (Inr u, h') \<Longrightarrow>
     calls h' = calls h @ [CMakedirs (dirname ACTIVE_PERSONA_MARKER_PATH), CWrite ACTIVE_PERSONA_MARKER_PATH persona]"
  by (auto simp: set_active_persona_def act_seq_eq_Inr makedirs_def write_text_atomic_def call_os_def split: prod.splits)

lemma failures_none: "failures rs = [] \<longleftrightarrow> list_all applied rs"
  by (induction rs) (auto simp: failures_def)

lemma reensure_cases:
  assumes "reensure_persona os p h = (Inr r, h')"
  obtains rs h1 where "ensure_all_redirects os (Some p) h = (Inr rs, h1)" "set_active_persona os p h1 = (Inr (), h')"
    "applied r \<longleftrightarrow> failures rs = []"
proof -
  obtain rs h1 where 1: "ensure_all_redirects os (Some p) h = (Inr rs, h1)"
    "act_seq (set_active_persona os p)
       (act_ret (case failures rs of
          r # rest \<Rightarrow> apply_result False (''persona '' @ py_repr p @ '' already active but re-ensure failed: '' @ detail r)
        | [] \<Rightarrow> apply_result True (''persona '' @ py_repr p @ '' already active''))) h1 = (Inr r, h')"
    using assms unfolding reensure_persona_def act_bind_eq_Inr by blast
  from 1(2) have "set_active_persona os p h1 = (Inr (), h')"
    unfolding act_seq_eq_Inr by auto
  moreover from 1(2) have "applied r \<longleftrightarrow> failures rs = []"
    by (cases "failures rs") (auto simp: act_seq_eq_Inr)
  ultimately show thesis using that 1(1) by blast
qed

text \<open>A change that reports failure has written nothing; one that reports success has written the marker last.\<close>

lemma change_failed_quiet:
  assumes c: "change_persona os old p h = (Inr r, h')" and n: "\<not> applied r"
  shows "\<exists>new. calls h' = calls h @ new \<and> list_all (\<lambda>c. \<not> is_write c) new"
proof -
  obtain us h1 where u: "unmount_all_redirects os (Some old) h = (Inr us, h1)"
    using c unfolding change_persona_def act_bind_eq_Inr by blast
  obtain n1 where n1: "calls h1 = calls h @ n1" "list_all (\<lambda>c. \<not> is_write c) n1"
    using emits_resultD [OF quiet_unmount_all u] by blast
  show ?thesis
  proof (cases "failures us")
    case (Cons x xs)
    then have "h' = h1" using c u by (simp add: change_persona_def)
    then show ?thesis using n1 by simp
  next
    case Nil
    obtain rs h2 where r: "ensure_all_redirects os (Some p) h1 = (Inr rs, h2)"
      using c u Nil by (auto simp: change_persona_def act_bind_eq_Inr)
    obtain n2 where n2: "calls h2 = calls h1 @ n2" "list_all (\<lambda>c. \<not> is_write c) n2"
      using emits_resultD [OF quiet_ensure_all r] by blast
    have "failures rs \<noteq> []"
      using c u Nil r n by (auto simp: change_persona_def act_seq_eq_Inr)
    then have "h' = h2" using c u Nil r by (auto simp: change_persona_def neq_Nil_conv)
    then show ?thesis using n1 n2 by simp
  qed
qed

lemma change_applied:
  assumes c: "change_persona os old p h = (Inr r, h')" and a: "applied r"
  obtains rs h1 h2 where "ensure_all_redirects os (Some p) h1 = (Inr rs, h2)" "failures rs = []"
    "set_active_persona os p h2 = (Inr (), h')"
proof -
  obtain us h1 where u: "unmount_all_redirects os (Some old) h = (Inr us, h1)"
    using c unfolding change_persona_def act_bind_eq_Inr by blast
  have Nil: "failures us = []" using c u a by (cases "failures us") (auto simp: change_persona_def)
  obtain rs h2 where r: "ensure_all_redirects os (Some p) h1 = (Inr rs, h2)"
    using c u Nil by (auto simp: change_persona_def act_bind_eq_Inr)
  have "failures rs = []" using c u Nil r a by (cases "failures rs") (auto simp: change_persona_def)
  moreover from this have "set_active_persona os p h2 = (Inr (), h')"
    using c u Nil r by (auto simp: change_persona_def act_seq_eq_Inr)
  ultimately show thesis using that r by blast
qed

lemma activated:
  assumes k: "mount_kernel os T" and e: "ensure_all_redirects os (Some p) h1 = (Inr rs, h2)" "failures rs = []"
    and s: "set_active_persona os p h2 = (Inr (), h')"
  shows "mounted T (persona_mountpoint p) h' \<and> (\<forall>x \<in> set REDIRECT_PATHS. mounted T (fst x) h')
    \<and> last (calls h') = CWrite ACTIVE_PERSONA_MARKER_PATH p"
proof -
  have "mounted T (user_mountpoint_for (Some p)) h2 \<and> (\<forall>x \<in> set REDIRECT_PATHS. mounted T (fst x) h2)"
    using all_redirects_mounted [OF k e(1)] e(2) by (simp add: failures_none)
  then show ?thesis
    using keeps_resultD [OF kernel_set_active [OF k] _ s] set_active_calls [OF s]
    by (simp add: user_mountpoint_for_def)
qed

lemma switch_activates:
  assumes k: "mount_kernel os T" and s: "switch_active_persona os p ok h = (Inr r, h')" and a: "applied r"
  shows "ok \<and> mounted T (persona_mountpoint p) h' \<and> (\<forall>x \<in> set REDIRECT_PATHS. mounted T (fst x) h')
    \<and> last (calls h') = CWrite ACTIVE_PERSONA_MARKER_PATH p"
proof -
  have ok: "ok" using s a by (cases ok) (auto simp: switch_active_persona_def)
  obtain old h1 where g: "get_active_persona os DEFAULT_PERSONA h = (Inr old, h1)"
    using s ok by (auto simp: switch_active_persona_def act_bind_eq_Inr)
  show ?thesis
  proof (cases "old = p")
    case True
    then have "reensure_persona os p h1 = (Inr r, h')" using s ok g by (simp add: switch_active_persona_def)
    then show ?thesis using reensure_cases activated [OF k] a ok by metis
  next
    case False
    then have "change_persona os old p h1 = (Inr r, h')" using s ok g by (simp add: switch_active_persona_def)
    then show ?thesis using change_applied [OF _ a] activated [OF k] ok by metis
  qed
qed

section \<open>The scripted machine is such a kernel\<close>

lemma lines_acc_line:
  "list_all (\<lambda>c. \<not> line_break c) x \<Longrightarrow> lines_acc cur (x @ CHR 0x0A # r) = (cur @ x) # lines_acc [] r"
  by (induction x arbitrary: cur) (auto simp: line_break_def)

lemma splitlines_lines:
  "list_all (list_all (\<lambda>c. \<not> line_break c)) xs \<Longrightarrow> splitlines (concat (map (\<lambda>x. x @ [CHR 0x0A]) xs)) = xs"
  by (induction xs) (auto simp: splitlines_def lines_acc_line)

lemma words_acc_word:
  "list_all (\<lambda>c. \<not> py_space c) x \<Longrightarrow> cur @ x \<noteq> [] \<Longrightarrow> words_acc cur (x @ CHR '' '' # r) = (cur @ x) # words_acc [] r"
  by (induction x arbitrary: cur) (auto simp: py_space_def)

lemma break_is_space: "line_break c \<Longrightarrow> py_space c"
  by (auto simp: line_break_def py_space_def)

definition mount_line :: "string \<times> string \<Rightarrow> string" where
  "mount_line x = ''dev '' @ fst x @ '' ext4 '' @ snd x @ '' 0 0''"

lemma split_mount_line:
  "one_word (fst x) \<Longrightarrow> one_word (snd x) \<Longrightarrow> split_ws (mount_line x) = [''dev'', fst x, ''ext4'', snd x, ''0'', ''0'']"
  using words_acc_word [of "fst x" "[]" "''ext4 '' @ snd x @ '' 0 0''"] words_acc_word [of "snd x" "[]" "''0 0''"]
  by (simp add: split_ws_def mount_line_def one_word_def py_space_def)

lemma mount_line_unbroken:
  assumes "one_word (fst x)" "one_word (snd x)"
  shows "list_all (\<lambda>c. \<not> line_break c) (mount_line x)"
proof -
  have w: "list_all (\<lambda>c. \<not> line_break c) (fst x)" "list_all (\<lambda>c. \<not> line_break c) (snd x)"
    using assms break_is_space unfolding one_word_def list_all_iff by blast+
  have c: "list_all (\<lambda>c. \<not> line_break c) ''dev ''" "list_all (\<lambda>c. \<not> line_break c) '' ext4 ''"
    "list_all (\<lambda>c. \<not> line_break c) '' 0 0''"
    by code_simp+
  show ?thesis unfolding mount_line_def list_all_append using w c by blast
qed

lemma lab_shows: "shows_mounted (lab_proc_mounts m) p \<longleftrightarrow> p \<in> fst ` set (lab_table m)"
proof -
  have w: "\<forall>x \<in> set (lab_table m). one_word (fst x) \<and> one_word (snd x)"
    by (auto simp: lab_table_def)
  have t: "lab_proc_mounts m = concat (map (\<lambda>x. x @ [CHR 0x0A]) (map mount_line (lab_table m)))"
    unfolding lab_proc_mounts_def map_map by (intro arg_cong [where f = concat] map_cong refl) (simp add: mount_line_def case_prod_beta)
  have "splitlines (lab_proc_mounts m) = map mount_line (lab_table m)"
    unfolding t using w mount_line_unbroken by (intro splitlines_lines) (simp add: list_all_iff [of _ "map _ _"])
  then have "mount_rows (lab_proc_mounts m) = map (\<lambda>x. [''dev'', fst x, ''ext4'', snd x, ''0'', ''0'']) (lab_table m)"
    using w by (auto simp: mount_rows_def split_mount_line)
  then show ?thesis by (auto simp: shows_mounted_def list_ex_iff image_iff)
qed

lemma one_word_rw: "one_word ''rw''"
  by code_simp

lemma lab_table_update: "fst ` set (lab_table m) \<subseteq> fst ` set (lab_table (m\<lparr>lab_mounts := AList.update p ''rw'' (lab_mounts m)\<rparr>))"
proof -
  have "fst ` set (filter (\<lambda>(p, q). one_word p \<and> one_word q) xs)
      \<subseteq> fst ` set (filter (\<lambda>(p, q). one_word p \<and> one_word q) (AList.update p ''rw'' xs))" for xs
    by (induction xs) (auto simp: one_word_rw image_iff)
  then show ?thesis by (simp add: lab_table_def)
qed

lemma lab_table_new: "one_word p \<Longrightarrow> p \<in> fst ` set (lab_table (m\<lparr>lab_mounts := AList.update p ''rw'' (lab_mounts m)\<rparr>))"
proof -
  assume "one_word p"
  then have "p \<in> fst ` set (filter (\<lambda>(p, q). one_word p \<and> one_word q) (AList.update p ''rw'' xs))" for xs
    by (induction xs) (auto simp: one_word_rw image_iff)
  then show ?thesis by (simp add: lab_table_def)
qed

lemma lab_run_keeps:
  "argv \<noteq> [] \<Longrightarrow> hd argv \<noteq> ''umount'' \<Longrightarrow> fst ` set (lab_table m) \<subseteq> fst ` set (lab_table (snd (lab_run argv t m)))"
  using lab_table_update by (simp add: lab_run_def lab_effect_def Let_def)

lemma lab_run_mounts:
  assumes "lab_run argv t m = (Inr p, m')" "returncode p = 0" "argv \<noteq> []" "hd argv = ''mount''" "lab_results m = []"
  shows "last argv \<in> fst ` set (lab_table m')"
proof -
  have "one_word (last argv)" and "m' = m\<lparr>lab_mounts := AList.update (last argv) ''rw'' (lab_mounts m)\<rparr>"
    using assms by (auto simp: lab_run_def lab_effect_def Let_def split: if_splits)
  then show ?thesis using lab_table_new by simp
qed

text \<open>The machine without scripted answers.\<close>
definition mount_lab_os :: "lab os" where
  "mount_lab_os = lab_os\<lparr>os_run := (\<lambda>argv t m. lab_run argv t (m\<lparr>lab_results := []\<rparr>))\<rparr>"

lemma lab_table_frame [simp]:
  "lab_table (m\<lparr>lab_results := r\<rparr>) = lab_table m" "lab_table (m\<lparr>lab_files := f\<rparr>) = lab_table m"
  "lab_table (m\<lparr>lab_dirs := d\<rparr>) = lab_table m"
  by (simp_all add: lab_table_def)

lemma lab_read_mounts: "lab_read PROC_MOUNTS m = (Inr (lab_proc_mounts m), m)"
  by (simp add: lab_read_def PROC_MOUNTS_def)

lemma lab_read_keeps: "snd (lab_read p m) = m"
  by (simp add: lab_read_def split: option.splits)

lemma mount_lab_kernel: "mount_kernel mount_lab_os (\<lambda>m. fst ` set (lab_table m))"
  unfolding mount_kernel_def
proof (intro conjI allI impI)
  fix m content m' p
  assume "os_read_text mount_lab_os PROC_MOUNTS m = (Inr content, m')"
  then show "shows_mounted content p \<longleftrightarrow> p \<in> fst ` set (lab_table m')"
    by (simp add: mount_lab_os_def lab_os_def lab_read_mounts) (metis lab_shows)
next
  fix argv t m p m'
  assume "os_run mount_lab_os argv t m = (Inr p, m')" "returncode p = 0" "argv \<noteq> []" "hd argv = ''mount''"
  then show "last argv \<in> fst ` set (lab_table m')"
    using lab_run_mounts [of argv t "m\<lparr>lab_results := []\<rparr>" p m'] by (simp add: mount_lab_os_def)
next
  fix argv t m
  assume "argv \<noteq> ([] :: string list)" "hd argv \<noteq> ''umount''"
  then show "fst ` set (lab_table m) \<subseteq> fst ` set (lab_table (snd (os_run mount_lab_os argv t m)))"
    using lab_run_keeps [of argv "m\<lparr>lab_results := []\<rparr>" t] by (simp add: mount_lab_os_def)
qed (simp_all add: mount_lab_os_def lab_os_def lab_append_def lab_read_keeps Let_def)

section \<open>Properties\<close>

text \<open>
  C20. Switching the persona reports success only when it happened. On a machine whose kernel mounts (\<open>mount_kernel\<close>):
  if a switch reports success, a credential was handed in, the persona's volume and every redirected path are
  mounted, and the last thing done was to write the persona into the marker.
\<close>
theorem switch_success_is_mounted:
  assumes "mount_kernel os T" and "switch_active_persona os p ok h = (Inr r, h')" and "applied r"
  shows "ok \<and> insert (persona_mountpoint p) (fst ` set REDIRECT_PATHS) \<subseteq> T (machine h')
    \<and> last (calls h') = CWrite ACTIVE_PERSONA_MARKER_PATH p"
  using switch_activates [OF assms] by (auto simp: mounted_def)

definition switched_lab :: "(exn + apply_result) \<times> (lab, call) host" where
  "switched_lab = switch_active_persona mount_lab_os ''personal'' True
     \<lparr>machine = empty_lab\<lparr>lab_mounts := [(''/mnt/USER_ADMIN'', ''rw''), (''/etc/baseline'', ''rw'')]\<rparr>, calls = []\<rparr>"

lemma switched_lab_applied: "(case fst switched_lab of Inr r \<Rightarrow> applied r | Inl e \<Rightarrow> False)"
  by code_simp

theorem switch_success_is_mounted_witness:
  "insert ''/mnt/USER_PERSONAL'' (fst ` set REDIRECT_PATHS) \<subseteq> fst ` set (lab_table (machine (snd switched_lab)))
   \<and> last (calls (snd switched_lab)) = CWrite ACTIVE_PERSONA_MARKER_PATH ''personal''"
proof -
  obtain r where r: "fst switched_lab = Inr r" "applied r"
    using switched_lab_applied by (cases "fst switched_lab") auto
  have m: "persona_mountpoint ''personal'' = ''/mnt/USER_PERSONAL''" by code_simp
  have s: "switch_active_persona mount_lab_os ''personal'' True
     \<lparr>machine = empty_lab\<lparr>lab_mounts := [(''/mnt/USER_ADMIN'', ''rw''), (''/etc/baseline'', ''rw'')]\<rparr>, calls = []\<rparr>
     = (Inr r, snd switched_lab)"
    unfolding switched_lab_def [symmetric] using r(1) by (metis prod.collapse)
  show ?thesis using switch_success_is_mounted [OF mount_lab_kernel s r(2)] by (simp only: m)
qed

text \<open>
  A switch that fails changes no marker. Whatever the machine does: if a switch to another persona than the
  active one returns a failure, nothing was written, so the persona that was active is still the marked one; and
  without a credential nothing was even looked at.
\<close>
theorem failed_switch_keeps_marker:
  assumes "switch_active_persona os p ok h = (Inr r, h')" and "\<not> applied r"
    and "fst (get_active_persona os DEFAULT_PERSONA h) \<noteq> Inr p"
  shows "\<exists>new. calls h' = calls h @ new \<and> list_all (\<lambda>c. \<not> is_write c) new \<and> (ok \<or> new = [])"
proof (cases ok)
  case False
  then show ?thesis using assms(1) by (simp add: switch_active_persona_def)
next
  case True
  then obtain old h1 where g: "get_active_persona os DEFAULT_PERSONA h = (Inr old, h1)"
    using assms(1) by (auto simp: switch_active_persona_def act_bind_eq_Inr)
  then have "change_persona os old p h1 = (Inr r, h')"
    using assms(1,3) True by (simp add: switch_active_persona_def)
  then show ?thesis
    using change_failed_quiet [OF _ assms(2)] emits_resultD [OF quiet_get_active g] True by fastforce
qed

definition busy_lab :: "lab" where
  "busy_lab = empty_lab\<lparr>lab_mounts := [(''/mnt/USER_ADMIN'', ''rw'')],
     lab_results := [([''umount'', ''/mnt/USER_ADMIN''], done_ok\<lparr>returncode := 32, stderr := ''target is busy''\<rparr>)]\<rparr>"

lemma busy_switch:
  "switch_active_persona lab_os ''personal'' True \<lparr>machine = busy_lab, calls = []\<rparr> =
     (Inr (apply_result False (''failed to cleanly unmount persona '' @ py_repr ''admin'' @ '': umount /mnt/USER_ADMIN failed: target is busy'')),
      \<lparr>machine = busy_lab, calls = [CExists ACTIVE_PERSONA_MARKER_PATH, CRead PROC_MOUNTS, CRead PROC_MOUNTS, CRead PROC_MOUNTS,
         CRead PROC_MOUNTS, CRun [''umount'', ''/mnt/USER_ADMIN''] 30]\<rparr>)"
  by code_simp

theorem failed_switch_keeps_marker_witness:
  "list_all (\<lambda>c. \<not> is_write c) (calls (snd (switch_active_persona lab_os ''personal'' True \<lparr>machine = busy_lab, calls = []\<rparr>)))"
proof -
  have "fst (get_active_persona lab_os DEFAULT_PERSONA \<lparr>machine = busy_lab, calls = []\<rparr>) = Inr ''admin''" by code_simp
  then have "fst (get_active_persona lab_os DEFAULT_PERSONA \<lparr>machine = busy_lab, calls = []\<rparr>) \<noteq> Inr ''personal''" by simp
  from failed_switch_keeps_marker [OF busy_switch _ this] show ?thesis
    unfolding busy_switch by simp
qed

text \<open>
  A redirect is never bound to the disposable system. When the volume is not listed as mounted, \<open>ensure_redirect\<close>
  fails and does nothing but that one look; nothing is created, moved, mounted or added to \<open>/etc/fstab\<close>.
\<close>
theorem redirect_needs_the_volume:
  assumes "os_read_text os PROC_MOUNTS (machine h) = (Inr text, m)" and "\<not> shows_mounted text (user_mountpoint_for persona)"
  shows "\<exists>r. ensure_redirect os target subdir persona h = (Inr r, \<lparr>machine = m, calls = calls h @ [CRead PROC_MOUNTS]\<rparr>)
           \<and> \<not> applied r"
  using assms by (simp add: ensure_redirect_def is_mounted_def read_text_def call_os_def act_catch_eq)

theorem redirect_needs_the_volume_witness:
  "\<exists>r. ensure_redirect lab_os ''/etc/baseline'' ''etc-baseline'' None \<lparr>machine = busy_lab, calls = []\<rparr>
         = (Inr r, \<lparr>machine = busy_lab, calls = [CRead PROC_MOUNTS]\<rparr>) \<and> \<not> applied r"
proof -
  have "os_read_text lab_os PROC_MOUNTS (machine \<lparr>machine = busy_lab, calls = [] :: call list\<rparr>) = (Inr (lab_proc_mounts busy_lab), busy_lab)"
    by (simp add: lab_os_def lab_read_mounts)
  moreover have "\<not> shows_mounted (lab_proc_mounts busy_lab) (user_mountpoint_for None)" by code_simp
  ultimately show ?thesis using redirect_needs_the_volume [of lab_os "\<lparr>machine = busy_lab, calls = []\<rparr>"] by simp
qed

section \<open>What the code does not check\<close>

text \<open>
  The exit code of \<open>mv\<close> is not looked at: when moving what the target holds fails, the redirect is bound over it
  all the same and reported as applied, and a later run, which finds the subdirectory there, does not move it again.
\<close>

definition mv_lab_os :: "lab os" where
  "mv_lab_os = lab_os\<lparr>os_listdir := (\<lambda>path m. (Inr [''/etc/baseline/credentials.json''], m))\<rparr>"

definition mv_lab :: lab where
  "mv_lab = empty_lab\<lparr>lab_mounts := [(''/mnt/USER'', ''rw'')], lab_dirs := [''/etc/baseline''],
     lab_results := [([''mv'', ''/etc/baseline/credentials.json'', ''/mnt/USER/etc-baseline/''],
       done_ok\<lparr>returncode := 1, stderr := ''No space left on device''\<rparr>)]\<rparr>"

definition redirect_twice :: "(exn + apply_result) \<times> (exn + apply_result) \<times> call list" where
  "redirect_twice =
     (let (r, h) = ensure_redirect mv_lab_os ''/etc/baseline'' ''etc-baseline'' None \<lparr>machine = mv_lab, calls = []\<rparr>;
          (r', h') = ensure_redirect mv_lab_os ''/etc/baseline'' ''etc-baseline'' None h
      in (r, r', filter (\<lambda>c. case c of CRun (a # b) t \<Rightarrow> a = ''mv'' | _ \<Rightarrow> False) (calls h')))"

lemma failed_move_is_hidden:
  "redirect_twice = (Inr (apply_result True ''/etc/baseline bind-mounted to /mnt/USER/etc-baseline''),
     Inr (apply_result True ''/etc/baseline bind-mounted to /mnt/USER/etc-baseline''),
     [CRun [''mv'', ''/etc/baseline/credentials.json'', ''/mnt/USER/etc-baseline/''] 30])"
  by code_simp

text \<open>
  Nothing takes a line out of \<open>/etc/fstab\<close>: after what a switch does to a redirected path (unbind it, bind it from the
  other persona's volume), the bind mounts of both personas onto that path are listed for the next boot.
\<close>

definition rebind :: "(lab, call) host \<times> string list" where
  "rebind =
     (let h = snd ((act_seq (ensure_redirect lab_os ''/etc/baseline'' ''etc-baseline'' (Some ''admin'')) (
                   act_seq (unmount_redirect lab_os ''/etc/baseline'')
                     (ensure_redirect lab_os ''/etc/baseline'' ''etc-baseline'' (Some ''personal''))))
          (\<lparr>machine = empty_lab\<lparr>lab_mounts := [(''/mnt/USER_ADMIN'', ''rw''), (''/mnt/USER_PERSONAL'', ''rw'')]\<rparr>, calls = []\<rparr>))
      in (h, splitlines (the (map_of (lab_files (machine h)) FSTAB_PATH))))"

lemma switch_leaves_both_personas_in_fstab:
  "snd rebind = [''/mnt/USER_ADMIN/etc-baseline /etc/baseline none bind 0 0'',
     ''/mnt/USER_PERSONAL/etc-baseline /etc/baseline none bind 0 0'']"
  by code_simp

text \<open>
  A volume found under its logical-volume name counts as mounted without a look: whatever \<open>mount\<close> and the remount
  answer, \<open>ensure_volume\<close> reports success, and \<open>ensure_user_volume_mounted\<close> passes that on.
\<close>

lemma existing_volume_counts_as_mounted:
  assumes "os_run os list_logical_volumes_argv 15 (machine h) = (Inr p, m)" "returncode p = 0"
    and "lv_exists (parse_logical_volumes (stdout p)) vg lv" and "ensure_volume os vg lv sz label mountpoint h = (Inr r, h')"
  shows "cr_ok r"
  using assms(2-4) run_result [OF assms(1)]
  by (auto simp: ensure_volume_def Let_def act_seq_eq_Inr command_result_def)

end
