(* ===== verification/RecoveryMode.thy ===== *)
theory RecoveryMode
  imports PersistMounts
begin

text \<open>
  \<open>src/baseline/lib/recovery_mode.py\<close>, \<open>recovery_tiers.py\<close> and \<open>persist_bind_mounts.main\<close>: when the machine
  enters recovery mode, what may be done there under which credential, and when it may leave.
  The state file is JSON text; its reader and writer are those of \<open>PyJson\<close>. Times are integers.
\<close>

section \<open>What each credential allows\<close>

definition LOGIN_SCREEN_ACTIONS :: "string list" where "LOGIN_SCREEN_ACTIONS = [''view_login_screen'']"
definition RECOVERY_ACTIONS :: "string list" where "RECOVERY_ACTIONS = [''view_recovery_screen'']"
definition PROXMOX_ACTIONS :: "string list" where "PROXMOX_ACTIONS = [''proxmox_changes'', ''view_logs'', ''use_added_tools'']"
definition USER_VOLUME_ACTIONS :: "string list" where "USER_VOLUME_ACTIONS = [''read_user_volume'', ''write_user_volume'']"

definition allowed_actions :: "bool \<Rightarrow> bool \<Rightarrow> bool \<Rightarrow> string set" where
  "allowed_actions proxmox user_volume recovery =
     set LOGIN_SCREEN_ACTIONS
     \<union> (if recovery then set RECOVERY_ACTIONS else {})
     \<union> (if proxmox then set PROXMOX_ACTIONS else {})
     \<union> (if user_volume then set USER_VOLUME_ACTIONS else {})"

definition is_allowed :: "string \<Rightarrow> bool \<Rightarrow> bool \<Rightarrow> bool \<Rightarrow> bool" where
  "is_allowed action proxmox user_volume recovery \<longleftrightarrow> action \<in> allowed_actions proxmox user_volume recovery"

section \<open>The recovery state\<close>

definition STATE_PATH :: string where "STATE_PATH = ''/mnt/SESSION_TEMP/recovery_mode/state.json''"

record discovery_report =
  personas_found :: "string list"
  personas_missing :: "string list"
  active_persona :: "string option"

definition should_enter :: "bool \<Rightarrow> bool" where
  "should_enter cascade_applied \<longleftrightarrow> \<not> cascade_applied"

definition discover :: "'m os \<Rightarrow> string list \<Rightarrow> (('m, call) host, discovery_report) act" where
  "discover os personas =
     act_bind (act_map (\<lambda>persona. is_mounted os (user_mountpoint_for (Some persona))) personas) (\<lambda>there.
     let found = map fst (filter snd (zip personas there));
         missing = map fst (filter (\<lambda>x. \<not> snd x) (zip personas there))
     in act_bind (if found \<noteq> [] then act_bind (get_active_persona os DEFAULT_PERSONA) (\<lambda>p. act_ret (Some p))
                  else act_ret None) (\<lambda>active.
        act_ret \<lparr>personas_found = found, personas_missing = missing, active_persona = active\<rparr>))"

fun can_exit :: "'m os \<Rightarrow> string list \<Rightarrow> (('m, call) host, bool \<times> string) act" where
  "can_exit os [] =
     act_ret (False, ''no persona volume is confirmed read-write yet - cannot leave recovery mode'')"
| "can_exit os (persona # personas) =
     act_bind (is_mounted_read_write os (user_mountpoint_for (Some persona))) (\<lambda>rw.
     if rw then act_ret (True, ''persona '' @ py_repr persona @ '' confirmed read-write at '' @ user_mountpoint_for (Some persona))
     else can_exit os personas)"

definition read_state :: "'m os \<Rightarrow> (('m, call) host, json option) act" where
  "read_state os =
     act_bind (path_exists os STATE_PATH) (\<lambda>there.
     if \<not> there then act_ret None
     else act_bind (read_text os STATE_PATH) (\<lambda>content. act_ret (json_loads content)))"

definition write_state :: "'m os \<Rightarrow> json \<Rightarrow> (('m, call) host, unit) act" where
  "write_state os state =
     act_seq (makedirs os ''/mnt/SESSION_TEMP/recovery_mode'')
       (write_text_atomic os STATE_PATH (json_dumps indent2 state))"

definition entry_state :: "int \<Rightarrow> string \<Rightarrow> json" where
  "entry_state now reason =
     JObj [(''active'', JBool True), (''reason'', JStr reason), (''entered_at'', JInt now), (''exited_at'', JNull)]"

definition record_entry :: "'m os \<Rightarrow> int \<Rightarrow> string \<Rightarrow> (('m, call) host, unit) act" where
  "record_entry os now reason = write_state os (entry_state now reason)"

definition is_active :: "'m os \<Rightarrow> (('m, call) host, bool) act" where
  "is_active os =
     act_bind (read_state os) (\<lambda>state.
     case state of
       None \<Rightarrow> act_ret False
     | Some v \<Rightarrow>
         if \<not> truthy v then act_ret False
         else act_bind (act_lift (get v ''active'')) (\<lambda>a.
           act_ret (case a of None \<Rightarrow> False | Some x \<Rightarrow> truthy x)))"

text \<open>\<open>state["active"] = False; state["exited_at"] = now\<close>\<close>
definition exit_state :: "int \<Rightarrow> json \<Rightarrow> exn + json" where
  "exit_state now v =
     (case v of
        JObj kvs \<Rightarrow> Inr (JObj (AList.update ''exited_at'' (JInt now) (AList.update ''active'' (JBool False) kvs)))
      | _ \<Rightarrow> Inl (TypeError ''object does not support item assignment''))"

definition attempt_exit :: "'m os \<Rightarrow> string list \<Rightarrow> int \<Rightarrow> (('m, call) host, apply_result) act" where
  "attempt_exit os personas now =
     act_bind (can_exit os personas) (\<lambda>(ok, reason).
     if \<not> ok then act_ret (apply_result False reason)
     else act_bind (read_state os) (\<lambda>state.
       let v = (case state of
                  Some v \<Rightarrow> if truthy v then v else JObj [(''reason'', JStr ''unknown''), (''entered_at'', JInt now)]
                | None \<Rightarrow> JObj [(''reason'', JStr ''unknown''), (''entered_at'', JInt now)])
       in act_bind (act_lift (exit_state now v)) (\<lambda>v'.
          act_seq (write_state os v') (act_ret (apply_result True reason)))))"

section \<open>The boot entry point\<close>

text \<open>
  \<open>persist_bind_mounts.main\<close>, with the runner and the clock given. \<open>print_fn\<close> is its argument of that name;
  \<open>checks\<close> is \<open>dependencies.run_checks\<close> for the boot phase: id, whether it holds, detail.
\<close>

text \<open>\<open>repr\<close> of an exception, as far as the class and its message go.\<close>
definition exn_repr :: "exn \<Rightarrow> string" where
  "exn_repr e =
     (case e of
        ValueError m \<Rightarrow> ''ValueError('' @ py_repr m @ '')''
      | KeyError m \<Rightarrow> ''KeyError('' @ py_repr m @ '')''
      | TypeError m \<Rightarrow> ''TypeError('' @ py_repr m @ '')''
      | AttributeError m \<Rightarrow> ''AttributeError('' @ py_repr m @ '')''
      | OSError m \<Rightarrow> ''OSError('' @ py_repr m @ '')''
      | RuntimeError m \<Rightarrow> ''RuntimeError('' @ py_repr m @ '')''
      | AssertionError m \<Rightarrow> ''AssertionError('' @ py_repr m @ '')''
      | _ \<Rightarrow> ''Exception()'')"

definition boot_checks ::
  "(string \<Rightarrow> (('m, call) host, unit) act) \<Rightarrow> (('m, call) host, (string \<times> bool \<times> string) list) act
     \<Rightarrow> (('m, call) host, unit) act" where
  "boot_checks print_fn checks =
     act_catch
       (act_bind checks (\<lambda>rs. act_for rs (\<lambda>(name, ok, text1).
          print_fn (''[dep-'' @ (if ok then ''ok'' else ''FAIL'') @ ''] '' @ name @ '': '' @ text1))))
       (\<lambda>e. print_fn (''[dep-FAIL] dependency checks themselves could not run: '' @ exn_repr e))"

definition main ::
  "'m os \<Rightarrow> (string \<Rightarrow> (('m, call) host, unit) act) \<Rightarrow> (('m, call) host, (string \<times> bool \<times> string) list) act
     \<Rightarrow> int \<Rightarrow> (('m, call) host, int) act" where
  "main os print_fn checks now =
     act_bind (ensure_all_redirects os None) (\<lambda>results.
     act_seq (act_for results (\<lambda>r.
       print_fn (''['' @ (if applied r then ''ok'' else ''FAILED'') @ ''] '' @ detail r))) (
     act_seq (act_when (\<not> list_all applied results) (record_entry os now ''cascade_failed'')) (
     act_seq (boot_checks print_fn checks)
       (act_ret (if list_all applied results then 0 else 1)))))"

section \<open>The state file\<close>

text \<open>
  What the code relies on of the file system, for the content \<open>F m\<close> of the state file of a machine \<open>m\<close>:
  it is there when there is content, reading gives that content, a write that returns has replaced it and one that
  raises has not, nothing else touches it, and reading the mount table changes nothing.
\<close>

definition state_kernel :: "'m os \<Rightarrow> ('m \<Rightarrow> string option) \<Rightarrow> bool" where
  "state_kernel os F \<longleftrightarrow>
     (\<forall>m b m'. os_path_exists os STATE_PATH m = (Inr b, m') \<longrightarrow> b = (F m \<noteq> None))
     \<and> (\<forall>p m. F (snd (os_path_exists os p m)) = F m)
     \<and> (\<forall>m c m'. os_read_text os STATE_PATH m = (Inr c, m') \<longrightarrow> F m = Some c)
     \<and> (\<forall>p m. F (snd (os_read_text os p m)) = F m)
     \<and> (\<forall>c m m'. os_write_text_atomic os STATE_PATH c m = (Inr (), m') \<longrightarrow> F m' = Some c)
     \<and> (\<forall>c m e m'. os_write_text_atomic os STATE_PATH c m = (Inl e, m') \<longrightarrow> F m' = F m)
     \<and> (\<forall>p m. F (snd (os_makedirs os p m)) = F m)
     \<and> (\<forall>m. snd (os_read_text os PROC_MOUNTS m) = m)"

text \<open>The text of a state file that says recovery mode is active.\<close>
definition flagged :: "string option \<Rightarrow> bool" where
  "flagged content =
     (case content of None \<Rightarrow> False
      | Some t \<Rightarrow> (case json_loads t of None \<Rightarrow> False
         | Some v \<Rightarrow> truthy v \<and> (case get v ''active'' of Inr (Some x) \<Rightarrow> truthy x | _ \<Rightarrow> False)))"

definition sees_read_write :: "'m os \<Rightarrow> string list \<Rightarrow> 'm \<Rightarrow> bool" where
  "sees_read_write os personas m \<longleftrightarrow>
     (\<exists>persona \<in> set personas. \<exists>content. fst (os_read_text os PROC_MOUNTS m) = Inr content
        \<and> shows_read_write content (persona_mountpoint persona))"

lemma kernel_exists:
  assumes "state_kernel os F" "path_exists os STATE_PATH h = (Inr b, h')"
  shows "b = (F (machine h) \<noteq> None)" "F (machine h') = F (machine h)"
  using assms(1) call_osD [OF assms(2) [unfolded path_exists_def]]
  unfolding state_kernel_def by (fast, metis snd_conv)

lemma kernel_read:
  assumes "state_kernel os F" "read_text os STATE_PATH h = (Inr c, h')"
  shows "F (machine h) = Some c" "F (machine h') = F (machine h)"
  using assms(1) call_osD [OF assms(2) [unfolded read_text_def]]
  unfolding state_kernel_def by (fast, metis snd_conv)

lemma kernel_makedirs:
  assumes "state_kernel os F" "makedirs os p h = (r, h')"
  shows "F (machine h') = F (machine h)"
  using assms(1) call_osD [OF assms(2) [unfolded makedirs_def]]
  unfolding state_kernel_def by (metis snd_conv)

lemma kernel_write:
  assumes "state_kernel os F" "write_text_atomic os STATE_PATH c h = (r, h')"
  shows "F (machine h') = (case r of Inr u \<Rightarrow> Some c | Inl e \<Rightarrow> F (machine h))"
  using assms(1) call_osD [OF assms(2) [unfolded write_text_atomic_def]]
  unfolding state_kernel_def by (cases r) fastforce+

lemma write_state_file:
  assumes "state_kernel os F" "write_state os v h = (r, h')"
  shows "F (machine h') = (case r of Inr u \<Rightarrow> Some (json_dumps indent2 v) | Inl e \<Rightarrow> F (machine h))"
proof -
  obtain q h1 where d: "makedirs os ''/mnt/SESSION_TEMP/recovery_mode'' h = (q, h1)" by fastforce
  note d' = kernel_makedirs [OF assms(1) d]
  show ?thesis
  proof (cases q)
    case (Inl e)
    then show ?thesis using assms(2) d d' by (auto simp: write_state_def)
  next
    case (Inr u)
    then show ?thesis using assms d d' kernel_write [OF assms(1)] by (auto simp: write_state_def split: sum.splits)
  qed
qed

lemma read_state_file:
  assumes k: "state_kernel os F" and r: "read_state os h = (Inr v, h')"
  shows "v = Option.bind (F (machine h)) json_loads \<and> F (machine h') = F (machine h)"
proof -
  obtain b h1 where e: "path_exists os STATE_PATH h = (Inr b, h1)"
    using r unfolding read_state_def act_bind_eq_Inr by blast
  show ?thesis
  proof (cases b)
    case False
    then have "v = None" "h' = h1" using r e by (auto simp: read_state_def)
    then show ?thesis using False kernel_exists [OF k e] by simp
  next
    case True
    then obtain c h2 where c: "read_text os STATE_PATH h1 = (Inr c, h2)" "v = json_loads c" "h' = h2"
      using r e by (auto simp: read_state_def act_bind_eq_Inr)
    then show ?thesis using kernel_read [OF k c(1)] kernel_exists [OF k e] by simp
  qed
qed

lemma is_active_flag:
  assumes k: "state_kernel os F" and r: "is_active os h = (Inr b, h')"
  shows "b = flagged (F (machine h))"
proof -
  obtain v h1 where v: "read_state os h = (Inr v, h1)" using r unfolding is_active_def act_bind_eq_Inr by blast
  have v': "v = Option.bind (F (machine h)) json_loads" using read_state_file [OF k v] by simp
  show ?thesis
  proof (cases v)
    case None
    then show ?thesis using r v v' by (auto simp: is_active_def flagged_def split: option.splits)
  next
    case (Some x)
    then obtain t where t: "F (machine h) = Some t" "json_loads t = Some x"
      using v' by (cases "F (machine h)") auto
    show ?thesis
    proof (cases "truthy x")
      case False
      then show ?thesis using r v Some t by (simp add: is_active_def flagged_def)
    next
      case True
      then obtain a where "get x ''active'' = Inr a" "b = (case a of None \<Rightarrow> False | Some x \<Rightarrow> truthy x)"
        using r v Some by (auto simp: is_active_def act_bind_eq_Inr)
      then show ?thesis using True t by (auto simp: flagged_def split: option.splits)
    qed
  qed
qed

lemma is_mounted_rw_steady:
  assumes "\<forall>m. snd (os_read_text os PROC_MOUNTS m) = m"
  shows "is_mounted_read_write os p h =
    (Inr (case fst (os_read_text os PROC_MOUNTS (machine h)) of Inr c \<Rightarrow> shows_read_write c p | Inl e \<Rightarrow> False),
     h\<lparr>calls := calls h @ [CRead PROC_MOUNTS]\<rparr>)"
proof -
  obtain r where "os_read_text os PROC_MOUNTS (machine h) = (r, machine h)"
    using assms by (metis prod.collapse)
  then show ?thesis
    by (cases r) (simp_all add: is_mounted_read_write_def read_text_def call_os_def act_catch_eq)
qed

lemma can_exit_steady:
  assumes "\<forall>m. snd (os_read_text os PROC_MOUNTS m) = m"
  shows "\<exists>reason cs. can_exit os personas h = (Inr (sees_read_write os personas (machine h), reason), h\<lparr>calls := cs\<rparr>)"
proof (induction personas arbitrary: h)
  case Nil
  have "\<not> sees_read_write os [] (machine h)" by (simp add: sees_read_write_def)
  then show ?case by (auto intro!: exI [of _ "calls h"])
next
  case (Cons p ps)
  let ?b = "case fst (os_read_text os PROC_MOUNTS (machine h)) of Inr c \<Rightarrow> shows_read_write c (persona_mountpoint p) | Inl e \<Rightarrow> False"
  note r = is_mounted_rw_steady [OF assms, of "persona_mountpoint p" h]
  have s: "sees_read_write os (p # ps) (machine h) \<longleftrightarrow> ?b \<or> sees_read_write os ps (machine h)"
    by (auto simp: sees_read_write_def split: sum.splits)
  show ?case
  proof (cases ?b)
    case True
    then show ?thesis using r s by (auto simp: user_mountpoint_for_def)
  next
    case False
    then show ?thesis
      using r s Cons.IH [of "h\<lparr>calls := calls h @ [CRead PROC_MOUNTS]\<rparr>"] by (auto simp: user_mountpoint_for_def)
  qed
qed

lemma kernel_steady: "state_kernel os F \<Longrightarrow> \<forall>m. snd (os_read_text os PROC_MOUNTS m) = m"
  by (simp add: state_kernel_def)

lemma exit_refused:
  assumes k: "state_kernel os F" and "\<not> sees_read_write os personas (machine h)"
  shows "machine (snd (attempt_exit os personas now h)) = machine h
     \<and> (\<exists>reason. fst (attempt_exit os personas now h) = Inr (apply_result False reason))"
  using can_exit_steady [OF kernel_steady [OF k], of personas h] assms(2) by (auto simp: attempt_exit_def)

lemma entry_flagged: "flagged (Some (json_dumps indent2 (entry_state now reason)))"
proof -
  have "json_ok (entry_state now reason)" by (simp add: entry_state_def)
  then have "json_loads (json_dumps indent2 (entry_state now reason)) = Some (entry_state now reason)"
    by (rule loads_dumps_indent2)
  then show ?thesis by (simp add: flagged_def entry_state_def get_def)
qed

lemma record_entry_state:
  assumes "state_kernel os F" "record_entry os now reason h = (r, h')"
  shows "flagged (F (machine h')) \<or> F (machine h') = F (machine h)"
    and "r = Inr () \<Longrightarrow> flagged (F (machine h'))"
  using write_state_file [OF assms(1) assms(2) [unfolded record_entry_def]] entry_flagged
  by (auto split: sum.splits)

section \<open>Recovery mode as a state machine\<close>

text \<open>
  One step of the machine: an entry is recorded, an exit is attempted, or anything happens that does not touch the
  state file (a look, a mount, a reboot).
\<close>

inductive recovery_step :: "'m os \<Rightarrow> ('m \<Rightarrow> string option) \<Rightarrow> string list \<Rightarrow> 'm \<Rightarrow> 'm \<Rightarrow> bool"
  for os F personas where
  enter: "record_entry os now reason h = (r, h') \<Longrightarrow> recovery_step os F personas (machine h) (machine h')"
| leave: "attempt_exit os personas now h = (r, h') \<Longrightarrow> recovery_step os F personas (machine h) (machine h')"
| other: "F m' = F m \<Longrightarrow> recovery_step os F personas m m'"

inductive_cases recovery_stepE: "recovery_step os F personas m m'"

inductive recovery_path :: "'m os \<Rightarrow> ('m \<Rightarrow> string option) \<Rightarrow> string list \<Rightarrow> 'm \<Rightarrow> 'm \<Rightarrow> bool"
  for os F personas where
  here: "recovery_path os F personas m m"
| further: "recovery_path os F personas m m1 \<Longrightarrow> recovery_step os F personas m1 m2 \<Longrightarrow> recovery_path os F personas m m2"

text \<open>An exit that ends recovery mode, from a machine on which a volume is seen read-write.\<close>
definition permitted_exit :: "'m os \<Rightarrow> string list \<Rightarrow> 'm \<Rightarrow> bool" where
  "permitted_exit os personas m \<longleftrightarrow>
     (\<exists>now h r h'. attempt_exit os personas now h = (r, h') \<and> machine h = m) \<and> sees_read_write os personas m"

lemma step_keeps_flag:
  assumes k: "state_kernel os F" and s: "recovery_step os F personas m m'" and f: "flagged (F m)"
  shows "flagged (F m') \<or> permitted_exit os personas m"
  using s
proof (rule recovery_stepE)
  fix now reason and h :: "('a, call) host" and r h'
  assume "m = machine h" "m' = machine h'" "record_entry os now reason h = (r, h')"
  then show ?thesis using record_entry_state(1) [OF k] f by metis
next
  fix now and h :: "('a, call) host" and r h'
  assume e: "m = machine h" "m' = machine h'" "attempt_exit os personas now h = (r, h')"
  show ?thesis
  proof (cases "sees_read_write os personas m")
    case True
    then show ?thesis using e unfolding permitted_exit_def by blast
  next
    case False
    then have "m' = m" using exit_refused [OF k, of personas h now] e by simp
    then show ?thesis using f by simp
  qed
next
  assume "F m' = F m"
  then show ?thesis using f by simp
qed

lemma path_keeps_flag:
  assumes k: "state_kernel os F" and p: "recovery_path os F personas m m'" and f: "flagged (F m)"
  shows "flagged (F m') \<or> (\<exists>m1. recovery_path os F personas m m1 \<and> flagged (F m1) \<and> permitted_exit os personas m1)"
  using p f
proof (induction rule: recovery_path.induct)
  case (here m)
  then show ?case by blast
next
  case (further m m1 m2)
  then show ?case using step_keeps_flag [OF k further.hyps(2)] by blast
qed

section \<open>What boot reports\<close>

lemma keeps_checks:
  assumes "\<And>s. keeps P (print_fn s)" "keeps P checks"
  shows "keeps P (boot_checks print_fn checks)"
  unfolding boot_checks_def by (intro keeps_intros assms)

lemma main_mounted:
  assumes k: "mount_kernel os T" and p: "\<And>q s. keeps (mounted T q) (print_fn s)" and c: "\<And>q. keeps (mounted T q) checks"
    and m: "main os print_fn checks now h = (Inr 0, h')"
  shows "mounted T MOUNT_POINT h' \<and> (\<forall>x \<in> set REDIRECT_PATHS. mounted T (fst x) h')"
proof -
  obtain rs h1 where e: "ensure_all_redirects os None h = (Inr rs, h1)"
    and t: "act_seq (act_for rs (\<lambda>r.
       print_fn (''['' @ (if applied r then ''ok'' else ''FAILED'') @ ''] '' @ detail r))) (
     act_seq (act_when (\<not> list_all applied rs) (record_entry os now ''cascade_failed'')) (
     act_seq (boot_checks print_fn checks) (act_ret (if list_all applied rs then 0 else (1 :: int))))) h1 = (Inr 0, h')"
    using m unfolding main_def act_bind_eq_Inr by blast
  have all: "list_all applied rs"
    using t by (auto simp: act_seq_eq_Inr split: if_splits)
  have tail: "keeps (mounted T q) (act_seq (act_for rs (\<lambda>r.
       print_fn (''['' @ (if applied r then ''ok'' else ''FAILED'') @ ''] '' @ detail r))) (
     act_seq (act_when (\<not> list_all applied rs) (record_entry os now ''cascade_failed'')) (
     act_seq (boot_checks print_fn checks) (act_ret (if list_all applied rs then 0 else (1 :: int))))))" for q
    by (intro keeps_intros p keeps_checks c) (simp add: all)
  have "mounted T (user_mountpoint_for None) h1 \<and> (\<forall>x \<in> set REDIRECT_PATHS. mounted T (fst x) h1)"
    by (rule all_redirects_mounted [OF k e all])
  then show ?thesis
    using keeps_resultD [OF tail _ t] by (simp add: user_mountpoint_for_def)
qed

lemma main_failed_records:
  assumes k: "state_kernel os F" and p: "\<And>s. keeps (\<lambda>h. flagged (F (machine h))) (print_fn s)"
    and c: "keeps (\<lambda>h. flagged (F (machine h))) checks"
    and m: "main os print_fn checks now h = (Inr n, h')" and n: "n \<noteq> 0"
  shows "flagged (F (machine h'))"
proof -
  obtain rs h1 where e: "ensure_all_redirects os None h = (Inr rs, h1)"
    and t: "act_seq (act_for rs (\<lambda>r.
       print_fn (''['' @ (if applied r then ''ok'' else ''FAILED'') @ ''] '' @ detail r))) (
     act_seq (act_when (\<not> list_all applied rs) (record_entry os now ''cascade_failed'')) (
     act_seq (boot_checks print_fn checks) (act_ret (if list_all applied rs then 0 else (1 :: int))))) h1 = (Inr n, h')"
    using m unfolding main_def act_bind_eq_Inr by blast
  obtain h2 h3 h4 where "act_when (\<not> list_all applied rs) (record_entry os now ''cascade_failed'') h2 = (Inr (), h3)"
    "boot_checks print_fn checks h3 = (Inr (), h4)" "act_ret (if list_all applied rs then 0 else (1 :: int)) h4 = (Inr n, h')"
    using t unfolding act_seq_eq_Inr by auto
  moreover from this have "\<not> list_all applied rs" using n by auto
  ultimately have "flagged (F (machine h3))" "boot_checks print_fn checks h3 = (Inr (), h')"
    using record_entry_state(2) [OF k] by auto
  then show ?thesis using keeps_resultD [OF keeps_checks [where P = "\<lambda>h. flagged (F (machine h))"]] p c by blast
qed

section \<open>The scripted machine as a file system\<close>

definition state_lab_os :: "lab os" where
  "state_lab_os = lab_os\<lparr>os_path_exists := (\<lambda>path m. (Inr (map_of (lab_files m) path \<noteq> None), m))\<rparr>"

abbreviation lab_state :: "lab \<Rightarrow> string option" where
  "lab_state m \<equiv> map_of (lab_files m) STATE_PATH"

lemma lab_state_kernel: "state_kernel state_lab_os lab_state"
  unfolding state_kernel_def
  by (auto simp: state_lab_os_def lab_os_def lab_read_keeps lab_read_def update_conv' STATE_PATH_def PROC_MOUNTS_def split: option.splits)

section \<open>Properties\<close>


definition recovering_lab :: lab where
  "recovering_lab = empty_lab\<lparr>lab_files := [(STATE_PATH, json_dumps indent2 (entry_state 1000 ''cascade_failed''))],
     lab_mounts := [(''/mnt/USER_ADMIN'', ''rw'')]\<rparr>"

definition left_lab :: "(exn + apply_result) \<times> (lab, call) host" where
  "left_lab = attempt_exit state_lab_os [''admin''] 2000 \<lparr>machine = recovering_lab, calls = []\<rparr>"

lemma left_lab_flags: "(flagged (lab_state recovering_lab), flagged (lab_state (machine (snd left_lab)))) = (True, False)"
  by code_simp


text \<open>
  C22. What boot reports is so. If \<open>main\<close> ends with 0, the persistence volume and every redirected path are mounted
  when it ends; if it ends with another code, the state file says that recovery mode is active. The printing and the
  dependency checks are arbitrary, as long as they neither unmount anything nor clear that flag.
\<close>
theorem boot_outcome:
  assumes "mount_kernel os T" "state_kernel os F"
    and "\<And>q s. keeps (mounted T q) (print_fn s)" "\<And>q. keeps (mounted T q) checks"
    and "\<And>s. keeps (\<lambda>h. flagged (F (machine h))) (print_fn s)" "keeps (\<lambda>h. flagged (F (machine h))) checks"
    and "main os print_fn checks now h = (Inr n, h')"
  shows "if n = 0 then insert MOUNT_POINT (fst ` set REDIRECT_PATHS) \<subseteq> T (machine h') else flagged (F (machine h'))"
proof (cases "n = 0")
  case True
  then show ?thesis
    using main_mounted [OF assms(1,3,4) assms(7) [unfolded True]] by (auto simp: mounted_def)
next
  case False
  then show ?thesis using main_failed_records [OF assms(2,5,6,7)] by simp
qed

definition boot_lab_os :: "lab os" where
  "boot_lab_os = mount_lab_os\<lparr>os_path_exists := (\<lambda>path m. (Inr (map_of (lab_files m) path \<noteq> None), m))\<rparr>"

definition booted :: "(exn + int) \<times> (lab, call) host" where
  "booted = main boot_lab_os (\<lambda>s. act_ret ()) (act_ret []) 1000
     \<lparr>machine = empty_lab\<lparr>lab_mounts := [(''/mnt/USER'', ''rw'')]\<rparr>, calls = []\<rparr>"

lemma booted_zero: "fst booted = Inr 0"
  by code_simp

lemma boot_lab_kernels: "mount_kernel boot_lab_os (\<lambda>m. fst ` set (lab_table m))" "state_kernel boot_lab_os lab_state"
proof -
  show "mount_kernel boot_lab_os (\<lambda>m. fst ` set (lab_table m))"
    using mount_lab_kernel unfolding mount_kernel_def boot_lab_os_def by simp
  show "state_kernel boot_lab_os lab_state"
    using lab_state_kernel unfolding state_kernel_def boot_lab_os_def mount_lab_os_def state_lab_os_def by simp
qed

theorem boot_outcome_witness:
  "insert MOUNT_POINT (fst ` set REDIRECT_PATHS) \<subseteq> fst ` set (lab_table (machine (snd booted)))"
proof -
  have m: "main boot_lab_os (\<lambda>s. act_ret ()) (act_ret []) 1000
     \<lparr>machine = empty_lab\<lparr>lab_mounts := [(''/mnt/USER'', ''rw'')]\<rparr>, calls = []\<rparr> = (Inr 0, snd booted)"
    unfolding booted_def [symmetric] using booted_zero by (metis prod.collapse)
  show ?thesis
    using boot_outcome [OF boot_lab_kernels keeps_ret keeps_ret keeps_ret keeps_ret m] by simp
qed

section \<open>What an edited state file does\<close>

text \<open>
  A state file that holds a JSON value other than an object is not treated like an unreadable one: both the look and
  the exit raise, and recovery mode cannot be left through \<open>attempt_exit\<close> until the file is repaired.
\<close>

lemma bad_state_blocks_exit:
  "fst (attempt_exit state_lab_os [''admin''] 2000 \<lparr>machine = recovering_lab\<lparr>lab_files := [(STATE_PATH, ''[1]'')]\<rparr>, calls = []\<rparr>)
   = Inl (TypeError ''object does not support item assignment'')"
  by code_simp

end
