(* ===== verification/ConfigCrypto.thy ===== *)
theory ConfigCrypto
  imports Runner PyValue
begin

text \<open>
  \<open>src/baseline/lib/config_crypto.py\<close>: encrypting a file or named fields of a configuration with \<open>openssl\<close>, which
  is behind the runner. A configuration is a JSON value; \<open>secrets.token_hex\<close> is the argument \<open>token\<close>, the text
  drawn for the i-th temporary file.
\<close>

definition CIPHER_ID :: string where "CIPHER_ID = ''aes-256-cbc-pbkdf2''"

record crypto_result =
  x_ok :: bool
  x_detail :: string

section \<open>Whole files\<close>

definition encrypt_file_argv :: "string \<Rightarrow> string \<Rightarrow> string \<Rightarrow> string list" where
  "encrypt_file_argv in_path out_path password_file =
     [''openssl'', ''enc'', ''-aes-256-cbc'', ''-pbkdf2'', ''-salt'', ''-a'', ''-pass'', ''file:'' @ password_file,
      ''-in'', in_path, ''-out'', out_path]"

definition decrypt_file_argv :: "string \<Rightarrow> string \<Rightarrow> string \<Rightarrow> string list" where
  "decrypt_file_argv in_path out_path password_file =
     [''openssl'', ''enc'', ''-d'', ''-aes-256-cbc'', ''-pbkdf2'', ''-a'', ''-pass'', ''file:'' @ password_file,
      ''-in'', in_path, ''-out'', out_path]"

definition encrypt_file :: "'m os \<Rightarrow> string \<Rightarrow> string \<Rightarrow> string \<Rightarrow> (('m, call) host, crypto_result) act" where
  "encrypt_file os in_path out_path password_file =
     act_bind (run os (encrypt_file_argv in_path out_path password_file) 60) (\<lambda>p.
     act_ret (if returncode p \<noteq> 0 then \<lparr>x_ok = False, x_detail = ''encrypt failed: '' @ strip (stderr p)\<rparr>
              else \<lparr>x_ok = True, x_detail = ''encrypted '' @ in_path @ '' to '' @ out_path\<rparr>))"

definition decrypt_file :: "'m os \<Rightarrow> string \<Rightarrow> string \<Rightarrow> string \<Rightarrow> (('m, call) host, crypto_result) act" where
  "decrypt_file os in_path out_path password_file =
     act_bind (run os (decrypt_file_argv in_path out_path password_file) 60) (\<lambda>p.
     act_ret (if returncode p \<noteq> 0 then \<lparr>x_ok = False, x_detail = ''decrypt failed: '' @ strip (stderr p)\<rparr>
              else \<lparr>x_ok = True, x_detail = ''decrypted '' @ in_path @ '' to '' @ out_path\<rparr>))"

section \<open>Fields by dotted path\<close>

definition get_parts :: "json \<Rightarrow> string list \<Rightarrow> exn + json" where
  "get_parts node parts = fold (\<lambda>part r. case r of Inl e \<Rightarrow> Inl e | Inr v \<Rightarrow> item v part) parts (Inr node)"

definition get_dotted :: "json \<Rightarrow> string \<Rightarrow> exn + json" where
  "get_dotted config path = get_parts config (split_on (CHR ''.'') path)"

text \<open>\<open>node[k] = value\<close>, and the walk down to it; the value changed in place is returned.\<close>

definition set_item :: "json \<Rightarrow> string \<Rightarrow> json \<Rightarrow> exn + json" where
  "set_item node k v =
     (case node of
        JObj kvs \<Rightarrow> Inr (JObj (AList.update k v kvs))
      | _ \<Rightarrow> Inl (TypeError ''object does not support item assignment''))"

fun set_parts :: "json \<Rightarrow> string list \<Rightarrow> json \<Rightarrow> exn + json" where
  "set_parts node [] v = Inr node"
| "set_parts node [k] v = set_item node k v"
| "set_parts node (k # l # ks) v =
     (case item node k of
        Inl e \<Rightarrow> Inl e
      | Inr child \<Rightarrow> (case set_parts child (l # ks) v of Inl e \<Rightarrow> Inl e | Inr child' \<Rightarrow> set_item node k child'))"

definition set_dotted :: "json \<Rightarrow> string \<Rightarrow> json \<Rightarrow> exn + json" where
  "set_dotted config path v = set_parts config (split_on (CHR ''.'') path) v"

definition encrypted_marker :: "json \<Rightarrow> bool" where
  "encrypted_marker v \<longleftrightarrow> is_obj v \<and> map_of (obj_fields v) ''__encrypted__'' = Some (JBool True)"

fun find_encrypted :: "string \<Rightarrow> json \<Rightarrow> string list"
  and find_in_fields :: "string \<Rightarrow> (string \<times> json) list \<Rightarrow> string list" where
  "find_encrypted pre (JObj kvs) = find_in_fields pre kvs"
| "find_encrypted pre v = []"
| "find_in_fields pre [] = []"
| "find_in_fields pre ((key, v) # kvs) =
     (let path = (if pre \<noteq> [] then pre @ ''.'' @ key else key)
      in (if encrypted_marker v then [path] else find_encrypted path v) @ find_in_fields pre kvs)"

text \<open>\<open>config.items()\<close> of something that is no object raises before anything is found.\<close>
definition find_encrypted_field_paths :: "json \<Rightarrow> exn + string list" where
  "find_encrypted_field_paths config =
     (if is_obj config then Inr (find_encrypted [] config)
      else Inl (AttributeError (''object has no attribute '' @ py_repr ''items'')))"

section \<open>Encrypting fields\<close>

definition tmp_path :: "(nat \<Rightarrow> string) \<Rightarrow> nat \<Rightarrow> string \<Rightarrow> string \<Rightarrow> string" where
  "tmp_path token i tmp_dir suf = tmp_dir @ ''/.baseline-crypto-'' @ token i @ suf"

definition encrypted_value :: "string \<Rightarrow> json" where
  "encrypted_value ciphertext =
     JObj [(''__encrypted__'', JBool True), (''cipher'', JStr CIPHER_ID), (''data'', JStr ciphertext)]"

fun encrypt_fields ::
  "'m os \<Rightarrow> (nat \<Rightarrow> string) \<Rightarrow> string \<Rightarrow> string \<Rightarrow> nat \<Rightarrow> string list \<Rightarrow> json \<Rightarrow> (('m, call) host, json) act" where
  "encrypt_fields os token password_file tmp_dir i [] result = act_ret result"
| "encrypt_fields os token password_file tmp_dir i (path # paths) result =
     act_bind (act_lift (get_dotted result path)) (\<lambda>v.
     let tmp_in = tmp_path token i tmp_dir ''.plain''; tmp_out = tmp_path token (Suc i) tmp_dir ''.enc''
     in act_seq (write_text_atomic os tmp_in (json_str v)) (
        act_bind (encrypt_file os tmp_in tmp_out password_file) (\<lambda>outcome.
        act_bind (if x_ok outcome then act_bind (read_text os tmp_out) (\<lambda>t. act_ret (strip t)) else act_ret []) (\<lambda>ciphertext.
        act_seq (remove_path os tmp_in) (
        act_seq (remove_path os tmp_out) (
        act_bind (if x_ok outcome then act_lift (set_dotted result path (encrypted_value ciphertext)) else act_ret result)
          (encrypt_fields os token password_file tmp_dir (Suc (Suc i)) paths)))))))"

definition encrypt_json_fields ::
  "'m os \<Rightarrow> (nat \<Rightarrow> string) \<Rightarrow> json \<Rightarrow> string list \<Rightarrow> string \<Rightarrow> string \<Rightarrow> (('m, call) host, json) act" where
  "encrypt_json_fields os token config field_paths password_file tmp_dir =
     encrypt_fields os token password_file tmp_dir 0 field_paths config"

text \<open>\<open>entry["data"]\<close> is text; \<open>endswith\<close> of something else raises.\<close>
definition data_text :: "json \<Rightarrow> exn + string" where
  "data_text entry =
     (case item entry ''data'' of
        Inl e \<Rightarrow> Inl e
      | Inr (JStr s) \<Rightarrow> Inr s
      | Inr v \<Rightarrow> Inl (AttributeError (''object has no attribute '' @ py_repr ''endswith'')))"

definition with_newline :: "string \<Rightarrow> string" where
  "with_newline s = (if s \<noteq> [] \<and> last s = CHR 0x0A then s else s @ [CHR 0x0A])"

fun decrypt_fields ::
  "'m os \<Rightarrow> (nat \<Rightarrow> string) \<Rightarrow> string \<Rightarrow> string \<Rightarrow> nat \<Rightarrow> string list \<Rightarrow> json \<Rightarrow> string list
     \<Rightarrow> (('m, call) host, json \<times> string list) act" where
  "decrypt_fields os token password_file tmp_dir i [] result errors = act_ret (result, errors)"
| "decrypt_fields os token password_file tmp_dir i (path # paths) result errors =
     act_bind (act_lift (get_dotted result path)) (\<lambda>entry.
     act_bind (act_lift (data_text entry)) (\<lambda>ciphertext.
     let tmp_in = tmp_path token i tmp_dir ''.enc''; tmp_out = tmp_path token (Suc i) tmp_dir ''.plain''
     in act_seq (write_text_atomic os tmp_in (with_newline ciphertext)) (
        act_bind (decrypt_file os tmp_in tmp_out password_file) (\<lambda>outcome.
        act_bind (if x_ok outcome
                  then act_bind (read_text os tmp_out) (\<lambda>t.
                       act_bind (act_lift (set_dotted result path (JStr t))) (\<lambda>result'.
                       act_seq (remove_path os tmp_out) (act_ret (result', errors))))
                  else act_ret (result, errors @ [path])) (\<lambda>(result', errors').
        act_seq (remove_path os tmp_in)
          (decrypt_fields os token password_file tmp_dir (Suc (Suc i)) paths result' errors'))))))"

definition decrypt_json_fields ::
  "'m os \<Rightarrow> (nat \<Rightarrow> string) \<Rightarrow> json \<Rightarrow> string \<Rightarrow> string \<Rightarrow> (('m, call) host, json \<times> string list) act" where
  "decrypt_json_fields os token config password_file tmp_dir =
     act_bind (act_lift (find_encrypted_field_paths config)) (\<lambda>paths.
     decrypt_fields os token password_file tmp_dir 0 paths config [])"

section \<open>Reading back a field\<close>

lemma get_parts_Inl: "fold (\<lambda>part r. case r of Inl e \<Rightarrow> Inl e | Inr v \<Rightarrow> item v part) parts (Inl e) = Inl e"
  by (induction parts) auto

lemma get_parts_Nil [simp]: "get_parts node [] = Inr node"
  by (simp add: get_parts_def)

lemma get_parts_Cons [simp]:
  "get_parts node (k # ks) = (case item node k of Inl e \<Rightarrow> Inl e | Inr v \<Rightarrow> get_parts v ks)"
  by (auto simp: get_parts_def get_parts_Inl split: sum.splits)

lemma item_set_item: "set_item node k v = Inr node' \<Longrightarrow> item node' k = Inr v"
  by (cases node) (auto simp: set_item_def item_def update_conv')

lemma item_set_other: "set_item node k v = Inr node' \<Longrightarrow> l \<noteq> k \<Longrightarrow> item node' l = item node l"
  by (cases node) (auto simp: set_item_def item_def update_conv')

lemma get_set_parts: "set_parts node ks v = Inr node' \<Longrightarrow> ks \<noteq> [] \<Longrightarrow> get_parts node' ks = Inr v"
proof (induction node ks v arbitrary: node' rule: set_parts.induct)
  case (3 node k l ks v)
  obtain c c' where c: "item node k = Inr c" "set_parts c (l # ks) v = Inr c'" "set_item node k c' = Inr node'"
    using 3(2) by (auto split: sum.splits)
  then show ?case using 3(1) [OF c(1,2)] item_set_item [OF c(3)] by simp
qed (auto dest: item_set_item split: sum.splits)

text \<open>Two paths go apart at some key: neither begins with the other.\<close>
fun apart :: "string list \<Rightarrow> string list \<Rightarrow> bool" where
  "apart (k # ks) (l # ls) = (k \<noteq> l \<or> apart ks ls)"
| "apart _ _ = False"

lemma get_set_apart: "set_parts node ks v = Inr node' \<Longrightarrow> apart ks ls \<Longrightarrow> get_parts node' ls = get_parts node ls"
proof (induction node ks v arbitrary: node' ls rule: set_parts.induct)
  case (2 node k v)
  then obtain l m where "ls = l # m" "k \<noteq> l" by (cases ls) auto
  then show ?case using item_set_other [OF 2(1) [unfolded set_parts.simps]] by simp
next
  case (3 node k l ks v)
  obtain c c' where c: "item node k = Inr c" "set_parts c (l # ks) v = Inr c'" "set_item node k c' = Inr node'"
    using 3(2) by (auto split: sum.splits)
  obtain a m where m: "ls = a # m" "k \<noteq> a \<or> apart (l # ks) m" using 3(3) by (cases ls) auto
  show ?case
  proof (cases "a = k")
    case True
    then show ?thesis using m 3(1) [OF c(1,2)] c(1) item_set_item [OF c(3)] by simp
  next
    case False
    then show ?thesis using m item_set_other [OF c(3)] by simp
  qed
qed simp

lemma split_on_nonempty: "split_on d s \<noteq> []"
  using length_split_on [of d s] by auto

lemma decrypt_all_fail:
  assumes fail: "\<And>argv t m. \<exists>p m'. os_run os argv t m = (Inr p, m') \<and> returncode p \<noteq> 0"
    and w: "\<And>p c m. \<exists>m'. os_write_text_atomic os p c m = (Inr (), m')" and r: "\<And>p m. \<exists>m'. os_remove os p m = (Inr (), m')"
    and data: "\<forall>path \<in> set paths. \<exists>entry t. get_dotted result path = Inr entry \<and> data_text entry = Inr t"
  shows "fst (decrypt_fields os token password_file tmp_dir i paths result errors h) = Inr (result, errors @ paths)"
  using data
proof (induction paths arbitrary: i errors h)
  case Nil
  then show ?case by simp
next
  case (Cons path paths)
  obtain entry t where g: "get_dotted result path = Inr entry" "data_text entry = Inr t" using Cons.prems by auto
  have w': "\<exists>h'. write_text_atomic os p c h = (Inr (), h')" for p c h
    using w [of p c "machine h"] by (auto simp: write_text_atomic_def call_os_def)
  have r': "\<exists>h'. remove_path os p h = (Inr (), h')" for p h
    using r [of p "machine h"] by (auto simp: remove_path_def call_os_def)
  have d': "\<exists>x h'. decrypt_file os a b c h = (Inr x, h') \<and> \<not> x_ok x" for a b c h
    using fail [of "decrypt_file_argv a b c" 60 "machine h"] by (auto simp: decrypt_file_def run_def call_os_def)
  let ?a = "tmp_path token i tmp_dir ''.enc''" and ?b = "tmp_path token (Suc i) tmp_dir ''.plain''"
  obtain h1 where h1: "write_text_atomic os ?a (with_newline t) h = (Inr (), h1)" using w' by blast
  obtain x h2 where h2: "decrypt_file os ?a ?b password_file h1 = (Inr x, h2)" "\<not> x_ok x" using d' by blast
  obtain h3 where h3: "remove_path os ?a h2 = (Inr (), h3)" using r' by blast
  show ?case
    using g h1 h2 h3 Cons.IH [of "Suc (Suc i)" "errors @ [path]" h3] Cons.prems by (simp add: Let_def)
qed

section \<open>Properties\<close>

text \<open>
  Setting a field changes that field and no other. When a value is set at a dotted path, reading that path gives
  the value, and every path that goes apart from it at some key (neither begins with the other) reads as before.
\<close>
theorem set_dotted_changes_one_field:
  assumes "set_dotted config path v = Inr config'"
  shows "get_dotted config' path = Inr v
    \<and> (\<forall>other. apart (split_on (CHR ''.'') path) (split_on (CHR ''.'') other) \<longrightarrow>
         get_dotted config' other = get_dotted config other)"
  using get_set_parts get_set_apart assms split_on_nonempty unfolding set_dotted_def get_dotted_def by blast

definition lab_config :: json where
  "lab_config = JObj [(''wifi'', JObj [(''ssid'', JStr ''home''), (''password'', JStr ''secret'')]), (''retries'', JInt 3)]"

theorem set_dotted_changes_one_field_witness:
  "get_dotted (JObj [(''wifi'', JObj [(''ssid'', JStr ''home''), (''password'', JNull)]), (''retries'', JInt 3)]) ''wifi.ssid''
     = get_dotted lab_config ''wifi.ssid''"
proof -
  have "set_dotted lab_config ''wifi.password'' JNull
     = Inr (JObj [(''wifi'', JObj [(''ssid'', JStr ''home''), (''password'', JNull)]), (''retries'', JInt 3)])"
    by code_simp
  moreover have "apart (split_on (CHR ''.'') ''wifi.password'') (split_on (CHR ''.'') ''wifi.ssid'')" by code_simp
  ultimately show ?thesis using set_dotted_changes_one_field by blast
qed

text \<open>
  A wrong password damages nothing. When every \<open>openssl\<close> run fails (and the temporary files can be written and
  removed), decrypting returns the configuration exactly as it was, with the path of every encrypted field that
  was found as an error.
\<close>
theorem wrong_password_keeps_config:
  assumes "\<And>argv t m. \<exists>p m'. os_run os argv t m = (Inr p, m') \<and> returncode p \<noteq> 0"
    and "\<And>p c m. \<exists>m'. os_write_text_atomic os p c m = (Inr (), m')" and "\<And>p m. \<exists>m'. os_remove os p m = (Inr (), m')"
    and "find_encrypted_field_paths config = Inr paths"
    and "\<forall>path \<in> set paths. \<exists>entry t. get_dotted config path = Inr entry \<and> data_text entry = Inr t"
  shows "fst (decrypt_json_fields os token config password_file tmp_dir h) = Inr (config, paths)"
  using decrypt_all_fail [OF assms(1-3,5)] assms(4) by (simp add: decrypt_json_fields_def)

definition wrong_password_os :: "lab os" where
  "wrong_password_os = lab_os\<lparr>os_run := (\<lambda>argv t m. (Inr (done_ok\<lparr>returncode := 1, stderr := ''bad decrypt''\<rparr>), m))\<rparr>"

definition lab_encrypted :: json where
  "lab_encrypted = JObj [(''wifi'', JObj [(''password'', encrypted_value ''U2FsdGVkX1''), (''ssid'', JStr ''home'')])]"

theorem wrong_password_keeps_config_witness:
  "fst (decrypt_json_fields wrong_password_os (\<lambda>i. str_of_nat i) lab_encrypted ''/root/pw'' ''/tmp'' \<lparr>machine = empty_lab, calls = []\<rparr>)
   = Inr (lab_encrypted, [''wifi.password''])"
proof (rule wrong_password_keeps_config)
  show "find_encrypted_field_paths lab_encrypted = Inr [''wifi.password'']" by code_simp
  have "get_dotted lab_encrypted ''wifi.password'' = Inr (encrypted_value ''U2FsdGVkX1'')"
    "data_text (encrypted_value ''U2FsdGVkX1'') = Inr ''U2FsdGVkX1''" by code_simp+
  then show "\<forall>path \<in> set [''wifi.password'']. \<exists>entry t. get_dotted lab_encrypted path = Inr entry \<and> data_text entry = Inr t"
    by simp
qed (simp_all add: wrong_password_os_def lab_os_def done_ok_def)

section \<open>What decrypting does not give back\<close>

text \<open>
  A machine on which \<open>openssl\<close> is the identity shows it: a field that is not text is encrypted as its \<open>str\<close> and comes back
  as that text, so a number, a truth value or an object is not restored.
\<close>

definition copy_run :: "string list \<Rightarrow> int \<Rightarrow> lab \<Rightarrow> (exn + proc) \<times> lab" where
  "copy_run argv t m =
     (let n = length argv; src = argv ! (n - 3); dst = argv ! (n - 1)
      in (Inr done_ok, m\<lparr>lab_files := AList.update dst (case map_of (lab_files m) src of None \<Rightarrow> [] | Some c \<Rightarrow> strip c) (lab_files m)\<rparr>))"

definition copy_os :: "lab os" where
  "copy_os = lab_os\<lparr>os_run := copy_run\<rparr>"

lemma number_comes_back_as_text:
  "fst (act_bind (encrypt_json_fields copy_os (\<lambda>i. str_of_nat i) lab_config [''retries''] ''/root/pw'' ''/tmp'')
     (\<lambda>c. decrypt_json_fields copy_os (\<lambda>i. str_of_nat (i + 2)) c ''/root/pw'' ''/tmp'') \<lparr>machine = empty_lab, calls = []\<rparr>)
   = Inr (JObj [(''wifi'', JObj [(''ssid'', JStr ''home''), (''password'', JStr ''secret'')]), (''retries'', JStr ''3'')], [])"
  by code_simp

end
