(* ===== verification/PyPath.thy ===== *)
theory PyPath
  imports PyValue
begin

text \<open>
  \<open>os.path\<close> on POSIX paths: \<open>isabs\<close> and \<open>normpath\<close>, and what a path that \<open>normpath\<close> leaves alone looks like.
\<close>

definition isabs :: "string \<Rightarrow> bool" where
  "isabs p \<longleftrightarrow> starts_with p ''/''"

text \<open>Two leading slashes are kept, one or more than two become one.\<close>
definition initial_slashes :: "string \<Rightarrow> nat" where
  "initial_slashes p =
     (if \<not> starts_with p ''/'' then 0 else if starts_with p ''//'' \<and> \<not> starts_with p ''///'' then 2 else 1)"

text \<open>One component: the components kept so far, last one first.\<close>
definition norm_step :: "bool \<Rightarrow> string \<Rightarrow> string list \<Rightarrow> string list" where
  "norm_step rooted part acc =
     (if part = [] \<or> part = ''.'' then acc
      else if part \<noteq> ''..'' \<or> (\<not> rooted \<and> acc = []) \<or> (acc \<noteq> [] \<and> hd acc = ''..'') then part # acc
      else if acc \<noteq> [] then tl acc else acc)"

definition norm_comps :: "bool \<Rightarrow> string list \<Rightarrow> string list" where
  "norm_comps rooted comps = rev (fold (norm_step rooted) comps [])"

definition normpath :: "string \<Rightarrow> string" where
  "normpath p =
     (if p = [] then ''.''
      else let n = initial_slashes p; comps = norm_comps (0 < n) (split_on (CHR ''/'') p);
               r = replicate n (CHR ''/'') @ join ''/'' comps
           in if r = [] then ''.'' else r)"

section \<open>The components of a normal path\<close>

lemma split_on_parts: "x \<in> set (split_on d s) \<Longrightarrow> d \<notin> set x"
proof -
  have "x \<in> set (split_on_acc d cur s) \<Longrightarrow> d \<notin> set cur \<Longrightarrow> d \<notin> set x" for cur
  proof (induction s arbitrary: cur)
    case (Cons c s)
    from Cons.prems consider "x = cur" "c = d" | "x \<in> set (split_on_acc d [] s)" | "x \<in> set (split_on_acc d (cur @ [c]) s)" "c \<noteq> d"
      by (auto split: if_splits)
    then show ?case
    proof cases
      case 1
      then show ?thesis using Cons.prems(2) by simp
    next
      case 2
      then show ?thesis by (rule Cons.IH) simp
    next
      case 3
      then show ?thesis using Cons.IH [of "cur @ [c]"] Cons.prems(2) by simp
    qed
  qed simp
  then show "x \<in> set (split_on d s) \<Longrightarrow> d \<notin> set x" by (simp add: split_on_def)
qed

lemma split_on_replicate: "split_on d (replicate n d @ s) = replicate n [] @ split_on d s"
  by (induction n) (simp_all add: split_on_def)

definition plain_comp :: "string \<Rightarrow> bool" where
  "plain_comp c \<longleftrightarrow> c \<noteq> [] \<and> c \<noteq> ''.'' \<and> CHR ''/'' \<notin> set c"

lemma plain_compI: "c \<noteq> [] \<Longrightarrow> c \<noteq> ''.'' \<Longrightarrow> CHR ''/'' \<notin> set c \<Longrightarrow> plain_comp c"
  by (simp add: plain_comp_def)

lemma fold_norm_plain:
  "list_all (\<lambda>c. CHR ''/'' \<notin> set c) comps \<Longrightarrow> list_all plain_comp acc \<Longrightarrow> list_all plain_comp (fold (norm_step rooted) comps acc)"
proof (induction comps arbitrary: acc)
  case Nil
  then show ?case by simp
next
  case (Cons c comps)
  have "list_all plain_comp (norm_step rooted c acc)"
    using Cons.prems by (cases acc) (auto simp: norm_step_def intro: plain_compI)
  then show ?case using Cons by simp
qed

lemma fold_norm_rooted: "list_all (\<lambda>c. c \<noteq> ''..'') acc \<Longrightarrow> list_all (\<lambda>c. c \<noteq> ''..'') (fold (norm_step True) comps acc)"
proof (induction comps arbitrary: acc)
  case Nil
  then show ?case by simp
next
  case (Cons c comps)
  have "list_all (\<lambda>c. c \<noteq> ''..'') (norm_step True c acc)"
    using Cons.prems by (cases acc) (auto simp: norm_step_def)
  then show ?case using Cons by simp
qed

lemma norm_comps_plain: "list_all plain_comp (norm_comps rooted (split_on (CHR ''/'') p))"
  using fold_norm_plain [of "split_on (CHR ''/'') p" "[]" rooted] split_on_parts [of _ "CHR ''/''" p]
  by (auto simp: norm_comps_def list_all_iff)

lemma norm_comps_rooted: "list_all (\<lambda>c. c \<noteq> ''..'') (norm_comps True comps)"
  using fold_norm_rooted [of "[]" comps] by (simp add: norm_comps_def list_all_iff)

text \<open>Plain components with no \<open>..\<close> among them are kept as they are.\<close>

definition straight :: "string list \<Rightarrow> bool" where
  "straight comps \<longleftrightarrow> list_all (\<lambda>c. plain_comp c \<and> c \<noteq> ''..'') comps"

lemma fold_norm_straight: "straight comps \<Longrightarrow> fold (norm_step rooted) comps acc = rev comps @ acc"
  by (induction comps arbitrary: acc) (auto simp: straight_def norm_step_def plain_comp_def)

lemma split_join_plain:
  "list_all plain_comp comps \<Longrightarrow> comps \<noteq> [] \<Longrightarrow> split_on (CHR ''/'') (join ''/'' comps) = comps"
  using split_on_join [of comps "CHR ''/''"] by (simp add: list_all_iff plain_comp_def)

text \<open>A path that is its own normal form and absolute: slashes, then components none of which is \<open>..\<close>.\<close>

lemma normal_absolute:
  assumes "isabs p" "normpath p = p"
  shows "\<exists>n comps. n \<in> {1, 2} \<and> p = replicate n (CHR ''/'') @ join ''/'' comps \<and> straight comps"
proof -
  let ?n = "initial_slashes p" and ?c = "norm_comps True (split_on (CHR ''/'') p)"
  have n: "?n \<in> {1, 2}" using assms(1) by (auto simp: initial_slashes_def isabs_def)
  have ne: "p \<noteq> []" using assms(1) by (auto simp: isabs_def starts_with_def)
  have "p = replicate ?n (CHR ''/'') @ join ''/'' ?c"
    using assms(2) n ne by (auto simp: normpath_def Let_def split: if_splits)
  moreover have "straight ?c"
    using norm_comps_plain [of True p] norm_comps_rooted [of "split_on (CHR ''/'') p"] by (auto simp: straight_def list_all_iff)
  ultimately show ?thesis using n by blast
qed

lemma normal_absolute_split:
  assumes "isabs p" "normpath p = p"
  shows "''..'' \<notin> set (split_on (CHR ''/'') p)"
proof -
  obtain n comps where p: "p = replicate n (CHR ''/'') @ join ''/'' comps" "straight comps"
    using normal_absolute [OF assms] by blast
  have "split_on (CHR ''/'') p = replicate n [] @ (if comps = [] then [[]] else comps)"
  proof (cases "comps = []")
    case True
    then show ?thesis using p split_on_replicate [of "CHR ''/''" n "[]"] by (simp add: split_on_def)
  next
    case False
    then show ?thesis
      using p split_join_plain [of comps] by (simp add: split_on_replicate straight_def list_all_iff)
  qed
  then show ?thesis using p(2) by (auto simp: straight_def list_all_iff split: if_splits)
qed

text \<open>A path that is its own normal form, relative, and has no component \<open>..\<close>.\<close>

lemma normal_relative:
  assumes "\<not> isabs p" "normpath p = p" "''..'' \<notin> set (split_on (CHR ''/'') p)" "p \<noteq> ''.''"
  shows "straight (split_on (CHR ''/'') p)"
proof -
  let ?c = "norm_comps False (split_on (CHR ''/'') p)"
  have "initial_slashes p = 0" using assms(1) by (simp add: initial_slashes_def isabs_def)
  moreover have "p \<noteq> []" using assms(2) by (auto simp: normpath_def)
  ultimately have "p = join ''/'' ?c" using assms(2,4) by (auto simp: normpath_def Let_def split: if_splits)
  moreover have "?c \<noteq> []" using calculation \<open>p \<noteq> []\<close> by auto
  ultimately have "split_on (CHR ''/'') p = ?c"
    using split_join_plain [OF norm_comps_plain [of False p]] by simp
  then show ?thesis
    using norm_comps_plain [of False p] assms(3) by (auto simp: straight_def list_all_iff)
qed

lemma split_on_append: "split_on d (x @ d # y) = split_on d x @ split_on d y"
  by (simp add: split_on_def split_on_acc_app)

lemma join_split: "join [d] (split_on d s) = s"
proof -
  have "join [d] (split_on_acc d cur s) = cur @ s" for cur
  proof (induction s arbitrary: cur)
    case (Cons c s)
    have "split_on_acc d [] s \<noteq> []" using length_split_on_acc [of d "[]" s] by auto
    then show ?case using Cons by (simp add: join_Cons)
  qed simp
  then show ?thesis by (simp add: split_on_def)
qed

lemma join_append: "xs \<noteq> [] \<Longrightarrow> ys \<noteq> [] \<Longrightarrow> join sep (xs @ ys) = join sep xs @ sep @ join sep ys"
proof (induction xs)
  case (Cons x xs)
  then show ?case by (cases "xs = []") (simp_all add: join_Cons)
qed simp

text \<open>A clean directory joined with a clean relative path is clean, and so stays below the directory.\<close>

lemma join_inside:
  assumes dir: "dir = ''/'' @ join ''/'' comps" "straight comps" "comps \<noteq> []"
    and rel: "straight (split_on (CHR ''/'') p)"
  shows "normpath (dir @ ''/'' @ p) = dir @ ''/'' @ p"
proof -
  let ?q = "dir @ ''/'' @ p" and ?ps = "split_on (CHR ''/'') p"
  have plain: "list_all plain_comp comps" using dir(2) by (auto simp: straight_def list_all_iff)
  obtain c cs where cs: "comps = c # cs" using dir(3) by (cases comps) auto
  have hd: "join ''/'' comps \<noteq> []" "hd (join ''/'' comps) \<noteq> CHR ''/''"
    using dir(2) unfolding cs by (cases c; cases cs; auto simp: straight_def plain_comp_def)+
  have "split_on (CHR ''/'') ?q = split_on (CHR ''/'') dir @ ?ps"
    using split_on_append [of "CHR ''/''" dir p] by simp
  also have "split_on (CHR ''/'') dir = [] # comps"
    using dir(1) split_on_append [of "CHR ''/''" "[]" "join ''/'' comps"] split_join_plain [OF plain dir(3)]
    by (simp add: split_on_def)
  finally have sp: "split_on (CHR ''/'') ?q = [] # comps @ ?ps" by simp
  have "straight (comps @ ?ps)" using dir(2) rel by (simp add: straight_def)
  then have nc: "norm_comps True (split_on (CHR ''/'') ?q) = comps @ ?ps"
    using fold_norm_straight [of "comps @ ?ps" True "[]"] unfolding norm_comps_def sp by (simp add: norm_step_def)
  have ne: "?ps \<noteq> []" using length_split_on [of "CHR ''/''" p] by auto
  have "join ''/'' (comps @ ?ps) = join ''/'' comps @ ''/'' @ p"
    using join_append [OF dir(3) ne] join_split [of "CHR ''/''" p] by simp
  moreover have "initial_slashes ?q = 1"
    using dir(1) hd by (cases "join ''/'' comps") (auto simp: initial_slashes_def starts_with_def)
  ultimately show ?thesis using dir(1) nc by (simp add: normpath_def Let_def)
qed

end
