(* ===== verification/FileSystem.thy ===== *)
theory FileSystem
  imports Runner
begin

text \<open>
  What the modelled code relies on of the file system behind the runner, as a locale: \<open>F m\<close> is the
  content of every file of the machine \<open>m\<close>. The components' theorems that speak of files take
  \<open>file_kernel os F\<close> as a hypothesis; the scripted machine with a plain file table is an instance.
\<close>

locale file_kernel =
  fixes os :: "'m os" and F :: "'m \<Rightarrow> string \<Rightarrow> string option"
  assumes os_write: "os_write_text_atomic os p c m = (Inr (), m') \<Longrightarrow> F m' = (F m)(p \<mapsto> c)"
    and os_makedirs: "F (snd (os_makedirs os p m)) = F m"
    and os_exists_there: "os_path_exists os p m = (Inr b, m') \<Longrightarrow> F m p \<noteq> None \<Longrightarrow> b"
    and os_exists: "F (snd (os_path_exists os p m)) = F m"
    and os_read_there: "os_read_text os p m = (Inr c, m') \<Longrightarrow> F m p = Some c' \<Longrightarrow> c = c'"
    and os_read: "F (snd (os_read_text os p m)) = F m"
    and os_now: "F (snd (os_now os m)) = F m"
begin

lemma makedirs_keeps: "makedirs os p h = (r, h') \<Longrightarrow> F (machine h') = F (machine h)"
  unfolding makedirs_def using call_osD [of _ "os_makedirs os p" h r h'] os_makedirs by (metis snd_conv)

lemma exists_keeps: "path_exists os p h = (r, h') \<Longrightarrow> F (machine h') = F (machine h)"
  unfolding path_exists_def using call_osD [of _ "os_path_exists os p" h r h'] os_exists by (metis snd_conv)

lemma exists_there: "path_exists os p h = (Inr b, h') \<Longrightarrow> F (machine h) p \<noteq> None \<Longrightarrow> b"
  unfolding path_exists_def using call_osD [of _ "os_path_exists os p" h "Inr b" h'] os_exists_there by metis

lemma read_keeps: "read_text os p h = (r, h') \<Longrightarrow> F (machine h') = F (machine h)"
  unfolding read_text_def using call_osD [of _ "os_read_text os p" h r h'] os_read by (metis snd_conv)

lemma read_there: "read_text os p h = (Inr c, h') \<Longrightarrow> F (machine h) p = Some c' \<Longrightarrow> c = c'"
  unfolding read_text_def using call_osD [of _ "os_read_text os p" h "Inr c" h'] os_read_there by metis

lemma now_keeps: "clock_now os h = (r, h') \<Longrightarrow> F (machine h') = F (machine h)"
  unfolding clock_now_def using call_osD [of _ "os_now os" h r h'] os_now by (metis snd_conv)

lemma write_sets: "write_text_atomic os p c h = (Inr u, h') \<Longrightarrow> F (machine h') = (F (machine h))(p \<mapsto> c)"
  unfolding write_text_atomic_def using call_osD [of _ "os_write_text_atomic os p c" h "Inr u" h'] os_write
  by (metis old.unit.exhaust)

end

lemma known_key: "map_of xs p = Some y \<Longrightarrow> p \<in> fst ` set xs"
  by (force dest: map_of_SomeD)

text \<open>The scripted machine, its mount table read from a file of its own.\<close>

definition table_os :: "lab os" where
  "table_os = lab_os\<lparr>os_read_text := (\<lambda>path m.
     (case map_of (lab_files m) path of None \<Rightarrow> (Inl (OSError path), m) | Some c \<Rightarrow> (Inr c, m)))\<rparr>"

interpretation table_files: file_kernel table_os "\<lambda>m. map_of (lab_files m)"
  by unfold_locales (auto simp: table_os_def lab_os_def update_conv split: option.splits intro: known_key)

end
