(* ===== verification/BackupRestore.thy ===== *)
theory BackupRestore
  imports PersistMounts ConfigCrypto PyPath FileSystem
begin

text \<open>
  \<open>src/baseline/lib/backup_restore.py\<close>, \<open>backup_recurring.py\<close> and the backup routes of \<open>control_panel_web.py\<close>:
  archives, the manifests that prove a backup, the gate before user data is restored over, and the checks of
  what a request may name. Values of a request are JSON, since nothing checks their type before these do.
  Times and ages are integers; \<open>f"{x:g}"\<close> is given for integers.
\<close>

section \<open>Names\<close>

definition DEFAULT_CONFIG_PATHS :: "string list" where
  "DEFAULT_CONFIG_PATHS = [''/etc/baseline/install-config.json'', ''/etc/smartd.conf'']"

definition DEFAULT_MANIFESTS_DIR :: string where
  "DEFAULT_MANIFESTS_DIR = ''/mnt/INSTALLER_CACHE/backup_manifests''"

definition DEFAULT_MAX_BACKUP_AGE_S :: int where "DEFAULT_MAX_BACKUP_AGE_S = 24 * 60 * 60"
definition USER_TARGET :: string where "USER_TARGET = ''/mnt/USER''"

definition NOT_IN_A_FULL_BACKUP :: "string list" where
  "NOT_IN_A_FULL_BACKUP = [''/mnt/INSTALLER_CACHE'', ''/mnt/SESSION_TEMP'']"

definition BACKUP_DIRS :: "string list" where
  "BACKUP_DIRS = [''/mnt/INSTALLER_CACHE/backups'', ''/mnt/INSTALLER_CACHE/encrypted_backups'']"

record backup_result =
  b_ok :: bool
  b_detail :: string

definition backup_result :: "bool \<Rightarrow> string \<Rightarrow> backup_result" where
  "backup_result ok text1 = \<lparr>b_ok = ok, b_detail = text1\<rparr>"

definition backup_required :: "detection \<Rightarrow> bool" where
  "backup_required d \<longleftrightarrow> found_volumes d \<noteq> []"

definition volume_mounts :: "string list" where
  "volume_mounts = map v_mount BASELINE_VOLUMES"

definition all_volume_targets :: "string list" where
  "all_volume_targets = filter (\<lambda>mp. mp \<notin> set NOT_IN_A_FULL_BACKUP) volume_mounts"

definition user_targets :: "string list" where
  "user_targets =
     (let current = filter (\<lambda>mp. starts_with mp ''/mnt/USER'') volume_mounts
      in USER_TARGET # filter (\<lambda>mp. mp \<noteq> USER_TARGET) current)"

section \<open>Manifests\<close>

definition manifest_path_for :: "string \<Rightarrow> string \<Rightarrow> string" where
  "manifest_path_for target manifests_dir =
     manifests_dir @ ''/'' @ or_else (replace_char (CHR ''/'') ''_'' (strip_char (CHR ''/'') target)) ''root'' @ ''.json''"

definition manifest_json :: "string \<Rightarrow> int \<Rightarrow> json" where
  "manifest_json target ts = JObj [(''target'', JStr target), (''ts'', JInt ts)]"

definition record_backup_manifest :: "'m os \<Rightarrow> string \<Rightarrow> int \<Rightarrow> string \<Rightarrow> (('m, call) host, unit) act" where
  "record_backup_manifest os target ts manifests_dir =
     act_seq (makedirs os manifests_dir)
       (write_text_atomic os (manifest_path_for target manifests_dir) (json_dumps default_style (manifest_json target ts)))"

definition read_backup_manifest :: "'m os \<Rightarrow> string \<Rightarrow> string \<Rightarrow> (('m, call) host, json option) act" where
  "read_backup_manifest os target manifests_dir =
     (let path = manifest_path_for target manifests_dir
      in act_bind (path_exists os path) (\<lambda>there.
         if \<not> there then act_ret None
         else act_bind (read_text os path) (\<lambda>content. act_ret (json_loads content))))"

text \<open>What a manifest says about \<open>target\<close> at \<open>now\<close>; a manifest that is no object makes \<open>get\<close> raise.\<close>
definition manifest_fresh :: "json option \<Rightarrow> string \<Rightarrow> int \<Rightarrow> int \<Rightarrow> exn + bool" where
  "manifest_fresh manifest target now max_age =
     (case manifest of
        None \<Rightarrow> Inr False
      | Some JNull \<Rightarrow> Inr False
      | Some v \<Rightarrow>
          (case get v ''target'' of
             Inl e \<Rightarrow> Inl e
           | Inr t \<Rightarrow>
               if t \<noteq> Some (JStr target) then Inr False
               else case get v ''ts'' of
                 Inl e \<Rightarrow> Inl e
               | Inr None \<Rightarrow> Inr False
               | Inr (Some ts) \<Rightarrow>
                   Inr (is_number ts \<and> 0 \<le> of_int now - number_of ts \<and> of_int now - number_of ts \<le> of_int max_age)))"

definition has_recent_successful_backup ::
  "'m os \<Rightarrow> string \<Rightarrow> int \<Rightarrow> int \<Rightarrow> string \<Rightarrow> (('m, call) host, bool) act" where
  "has_recent_successful_backup os target now max_age manifests_dir =
     act_bind (read_backup_manifest os target manifests_dir) (\<lambda>manifest.
     act_lift (manifest_fresh manifest target now max_age))"

section \<open>Archives\<close>

definition create_backup_argv :: "string \<Rightarrow> string list \<Rightarrow> string list" where
  "create_backup_argv dest_path targets = [''tar'', ''-czf'', dest_path] @ targets"

definition create_backup ::
  "'m os \<Rightarrow> string \<Rightarrow> string list \<Rightarrow> bool \<Rightarrow> int option \<Rightarrow> string \<Rightarrow> (('m, call) host, backup_result) act" where
  "create_backup os dest_path targets config_only now manifests_dir =
     (let targets = (if config_only then DEFAULT_CONFIG_PATHS else targets)
      in if targets = [] then act_ret (backup_result False ''no targets given to back up'')
         else act_bind (run os (create_backup_argv dest_path targets) 600) (\<lambda>p.
           if returncode p \<noteq> 0 then act_ret (backup_result False (''tar failed: '' @ strip (stderr p)))
           else act_seq (case now of None \<Rightarrow> act_ret ()
                  | Some ts \<Rightarrow> act_for targets (\<lambda>target. record_backup_manifest os target ts manifests_dir))
             (act_ret (backup_result True (''backed up '' @ str_of_int (int (length targets)) @ '' target(s) to '' @ dest_path)))))"

definition list_backup_contents_argv :: "string \<Rightarrow> string list" where
  "list_backup_contents_argv archive_path = [''tar'', ''-tzf'', archive_path]"

definition list_backup_contents :: "'m os \<Rightarrow> string \<Rightarrow> (('m, call) host, string list) act" where
  "list_backup_contents os archive_path =
     act_bind (run os (list_backup_contents_argv archive_path) 60) (\<lambda>p.
     act_ret (if returncode p \<noteq> 0 then [] else filter (\<lambda>line. line \<noteq> []) (splitlines (stdout p))))"

definition restore_backup_argv :: "string \<Rightarrow> string \<Rightarrow> string list option \<Rightarrow> string list" where
  "restore_backup_argv archive_path dest_root members =
     [''tar'', ''-xzf'', archive_path, ''-C'', dest_root] @ (case members of None \<Rightarrow> [] | Some ms \<Rightarrow> ms)"

definition restore_touches_user_volume :: "string list option \<Rightarrow> bool" where
  "restore_touches_user_volume members =
     (case members of
        None \<Rightarrow> True
      | Some ms \<Rightarrow> list_ex (\<lambda>member.
          list_ex (\<lambda>part. starts_with part ''USER'')
            (take 2 (split_on (CHR ''/'') (lstrip_char (CHR ''/'') member)))) ms)"

text \<open>\<open>any(...)\<close> over the targets: the first fresh one ends it.\<close>
fun any_recent ::
  "'m os \<Rightarrow> string list \<Rightarrow> int \<Rightarrow> int \<Rightarrow> string \<Rightarrow> (('m, call) host, bool) act" where
  "any_recent os [] now max_age manifests_dir = act_ret False"
| "any_recent os (t # ts) now max_age manifests_dir =
     act_bind (has_recent_successful_backup os t now max_age manifests_dir) (\<lambda>fresh.
     if fresh then act_ret True else any_recent os ts now max_age manifests_dir)"

text \<open>\<open>f"{n:g}"\<close> of an integer: six significant digits, an exponent from a million on.\<close>
definition round_half_even :: "int \<Rightarrow> int \<Rightarrow> int" where
  "round_half_even n d =
     (let q = n div d; r = n mod d
      in if 2 * r < d then q else if d < 2 * r then q + 1 else if even q then q else q + 1)"

definition fmt_g_nonneg :: "int \<Rightarrow> string" where
  "fmt_g_nonneg n =
     (if n < 1000000 then str_of_int n
      else
        let e = length (str_of_int n) - 1;
            m = round_half_even n (10 ^ (e - 5));
            (m, e) = (if m = 1000000 then (100000, e + 1) else (m, e));
            ds = str_of_int m;
            frac = rev (dropWhile (\<lambda>c. c = CHR ''0'') (rev (tl ds)));
            es = str_of_int (int e)
        in [hd ds] @ (if frac = [] then [] else ''.'' @ frac) @ ''e+'' @ (if length es < 2 then ''0'' @ es else es))"

definition fmt_g :: "int \<Rightarrow> string" where
  "fmt_g n = (if n < 0 then ''-'' @ fmt_g_nonneg (- n) else fmt_g_nonneg n)"

text \<open>The gate of \<open>restore_backup\<close>: a refusal, or nothing.\<close>
definition restore_gate ::
  "'m os \<Rightarrow> string list option \<Rightarrow> int option \<Rightarrow> int \<Rightarrow> string \<Rightarrow> string list \<Rightarrow> (('m, call) host, backup_result option) act" where
  "restore_gate os members now max_age manifests_dir volume_targets =
     (if \<not> restore_touches_user_volume members then act_ret None
      else case now of
        None \<Rightarrow> act_ret (Some (backup_result False
          (''refusing to restore into/over USER: `now` was not given, so backup freshness cannot be verified'')))
      | Some t \<Rightarrow>
          let targets = (if volume_targets \<noteq> [] then volume_targets else user_targets)
          in act_bind (any_recent os targets t max_age manifests_dir) (\<lambda>fresh.
             act_ret (if fresh then None
               else Some (backup_result False (''refusing to restore into/over USER: no proof of a successful backup of '' @
                 py_repr_list targets @ '' within '' @ fmt_g max_age @ ''s - back it up first'')))))"

definition restore_backup ::
  "'m os \<Rightarrow> string \<Rightarrow> string \<Rightarrow> string list option \<Rightarrow> int option \<Rightarrow> int \<Rightarrow> string \<Rightarrow> string list
     \<Rightarrow> (('m, call) host, backup_result) act" where
  "restore_backup os archive_path dest_root members now max_age manifests_dir volume_targets =
     act_bind (restore_gate os members now max_age manifests_dir volume_targets) (\<lambda>refusal.
     case refusal of
       Some r \<Rightarrow> act_ret r
     | None \<Rightarrow>
         act_seq (run os [''mkdir'', ''-p'', dest_root] 10) (
         act_bind (run os (restore_backup_argv archive_path dest_root members) 600) (\<lambda>p.
         act_ret (if returncode p \<noteq> 0 then backup_result False (''tar extract failed: '' @ strip (stderr p))
                  else backup_result True (''restored '' @ archive_path @ '' into '' @ dest_root)))))"

section \<open>What a request may name\<close>

definition clean_abs :: "json \<Rightarrow> string \<Rightarrow> exn + string" where
  "clean_abs path what =
     (case path of
        JStr p \<Rightarrow>
          if p = [] \<or> CHR 0x00 \<in> set p \<or> CHR 0x0A \<in> set p \<or> CHR 0x0D \<in> set p \<or> \<not> isabs p \<or> normpath p \<noteq> p
          then Inl (ValueError (what @ '' must be a clean absolute path'')) else Inr p
      | _ \<Rightarrow> Inl (ValueError (what @ '' must be a clean absolute path'')))"

text \<open>\<open>_NAME_RE\<close>: \<open>$\<close> also matches before a final line feed.\<close>
definition name_char :: "char \<Rightarrow> bool" where
  "name_char c \<longleftrightarrow> is_upper c \<or> is_lower c \<or> is_digit c"

definition name_shape :: "string \<Rightarrow> bool" where
  "name_shape s =
     (let core = (if s \<noteq> [] \<and> last s = CHR 0x0A then butlast s else s)
      in core \<noteq> [] \<and> name_char (hd core) \<and> length core \<le> 128
         \<and> list_all (\<lambda>c. name_char c \<or> c = CHR ''.'' \<or> c = CHR ''_'' \<or> c = CHR ''-'') (tl core))"

definition in_backup_dir :: "string \<Rightarrow> string \<Rightarrow> exn + unit" where
  "in_backup_dir path what =
     (let (parent, name) = path_split path
      in if parent \<notin> set BACKUP_DIRS \<or> \<not> name_shape name
         then Inl (ValueError (what @ '' must be a plain file name directly inside one of: '' @ join '', '' BACKUP_DIRS))
         else Inr ())"

definition check_new_backup_file :: "'m os \<Rightarrow> json \<Rightarrow> string \<Rightarrow> string \<Rightarrow> (('m, call) host, string) act" where
  "check_new_backup_file os path suf what =
     act_bind (act_lift (clean_abs path what)) (\<lambda>p.
     act_seq (act_lift (in_backup_dir p what)) (
     let name = basename p
     in if \<not> ends_with name suf \<or> name = suf then act_raise (ValueError (what @ '' must end in '' @ suf))
        else act_bind (path_exists os p) (\<lambda>there.
          if there then act_raise (ValueError (p @ '' already exists; a backup never overwrites an existing file''))
          else act_ret p)))"

definition check_existing_backup_file :: "'m os \<Rightarrow> json \<Rightarrow> string \<Rightarrow> (('m, call) host, string) act" where
  "check_existing_backup_file os path what =
     act_bind (act_lift (clean_abs path what)) (\<lambda>p.
     act_seq (act_lift (in_backup_dir p what)) (
     act_bind (path_exists os p) (\<lambda>there.
     if \<not> there then act_raise (ValueError (p @ '' was not found'')) else act_ret p)))"

definition baseline_roots :: "string list" where
  "baseline_roots = volume_mounts @ DEFAULT_CONFIG_PATHS @ [''/etc/baseline'']"

definition under_root :: "string \<Rightarrow> string \<Rightarrow> bool" where
  "under_root target rt \<longleftrightarrow> target = rt \<or> starts_with target (rt @ ''/'')"

definition check_source :: "json \<Rightarrow> exn + string" where
  "check_source target =
     (case clean_abs target ''a backup source'' of
        Inl e \<Rightarrow> Inl e
      | Inr p \<Rightarrow> if \<not> list_ex (under_root p) baseline_roots
                then Inl (ValueError (p @ '' is not one of Baseline's own volumes or configuration''))
                else Inr p)"

text \<open>The first error in order, or all the results.\<close>
fun check_each :: "('a \<Rightarrow> exn + 'b) \<Rightarrow> 'a list \<Rightarrow> exn + 'b list" where
  "check_each f [] = Inr []"
| "check_each f (x # xs) =
     (case f x of Inl e \<Rightarrow> Inl e
      | Inr y \<Rightarrow> (case check_each f xs of Inl e \<Rightarrow> Inl e | Inr ys \<Rightarrow> Inr (y # ys)))"

fun is_str :: "json \<Rightarrow> bool" where
  "is_str (JStr s) = True"
| "is_str _ = False"

definition check_backup_sources :: "json \<Rightarrow> exn + string list" where
  "check_backup_sources targets =
     (case targets of
        JList xs \<Rightarrow>
          if xs = [] \<or> \<not> list_all is_str xs then Inl (ValueError ''targets must be a non-empty list of paths'')
          else check_each check_source xs
      | _ \<Rightarrow> Inl (ValueError ''targets must be a non-empty list of paths''))"

definition check_restore_root :: "json \<Rightarrow> exn + string" where
  "check_restore_root path =
     (case clean_abs path ''restore destination'' of
        Inl e \<Rightarrow> Inl e
      | Inr p \<Rightarrow> if p \<noteq> ''/mnt'' \<and> p \<notin> set volume_mounts
                then Inl (ValueError ''a restore can only go to /mnt or one of Baseline's own volumes'')
                else Inr p)"

definition check_member :: "json \<Rightarrow> exn + string" where
  "check_member v =
     (case v of
        JStr m \<Rightarrow>
          if starts_with m ''/'' \<or> normpath m \<noteq> m \<or> ''..'' \<in> set (split_on (CHR ''/'') m) \<or> CHR 0x0A \<in> set m
             \<or> starts_with m ''-''
          then Inl (ValueError (''unsafe archive entry name '' @ py_repr m)) else Inr m
      | _ \<Rightarrow> Inl (ValueError ''members must be a list of archive entry names''))"

definition check_restore_members :: "json \<Rightarrow> exn + string list" where
  "check_restore_members members =
     (case members of
        JNull \<Rightarrow> Inr []
      | JList [] \<Rightarrow> Inr []
      | JList xs \<Rightarrow>
          if \<not> list_all (\<lambda>v. is_str v \<and> v \<noteq> JStr []) xs
          then Inl (ValueError ''members must be a list of archive entry names'')
          else check_each check_member xs
      | _ \<Rightarrow> Inl (ValueError ''members must be a list of archive entry names''))"

section \<open>The routes\<close>

record route_result =
  rr_outcome :: string
  rr_status :: int
  rr_body :: json

definition route :: "string \<Rightarrow> int \<Rightarrow> json \<Rightarrow> route_result" where
  "route outcome status body = \<lparr>rr_outcome = outcome, rr_status = status, rr_body = body\<rparr>"

definition refused :: "string \<Rightarrow> route_result" where
  "refused text1 = route ''refused'' 422 (JObj [(''detail'', JStr text1)])"

text \<open>
  \<open>_not_from_web_app(origin, op)\<close>: \<open>gate op\<close> is what \<open>web_gate.require(origin, op, {})\<close> does (\<open>WebGate.require_origin\<close>);
  only \<open>NotFromWebApp\<close> becomes a refusal.
\<close>
definition not_from_web_app :: "(string \<Rightarrow> exn + unit) \<Rightarrow> string \<Rightarrow> exn + route_result option" where
  "not_from_web_app gate op =
     (case gate op of
        Inr u \<Rightarrow> Inr None
      | Inl (NotFromWebApp m) \<Rightarrow> Inr (Some (route ''refused'' 403 (JObj [(''detail'', JStr (''refused: '' @ m))])))
      | Inl e \<Rightarrow> Inl e)"

text \<open>\<open>try: ... except ValueError as exc: return RouteResult("refused", ...)\<close>\<close>
definition checked :: "('s, 'a) act \<Rightarrow> ('s, route_result + 'a) act" where
  "checked m =
     act_catch (act_bind m (\<lambda>x. act_ret (Inr x)))
       (\<lambda>e. case e of ValueError msg \<Rightarrow> act_ret (Inl (refused (''refused: '' @ msg))) | _ \<Rightarrow> act_raise e)"

definition handle_backup ::
  "'m os \<Rightarrow> (string \<Rightarrow> exn + unit) \<Rightarrow> json \<Rightarrow> json \<Rightarrow> bool \<Rightarrow> int option \<Rightarrow> (('m, call) host, route_result) act" where
  "handle_backup os gate dest targets config_only now =
     act_bind (checked (
         act_bind (check_new_backup_file os dest ''.tar.gz'' ''destination'') (\<lambda>d.
         act_bind (if config_only then act_ret [] else act_lift (check_backup_sources targets)) (\<lambda>ts.
         act_ret (d, ts))))) (\<lambda>r.
     case r of
       Inl refusal \<Rightarrow> act_ret refusal
     | Inr (d, ts) \<Rightarrow>
         act_bind (act_lift (not_from_web_app gate ''cpw_backup'')) (\<lambda>refusal.
         case refusal of
           Some x \<Rightarrow> act_ret x
         | None \<Rightarrow>
             act_bind (create_backup os d ts config_only now DEFAULT_MANIFESTS_DIR) (\<lambda>b.
             act_ret (if \<not> b_ok b then refused (b_detail b)
                      else route ''applied'' 200 (JObj [(''detail'', JStr (b_detail b)), (''dest'', JStr d)])))))"

definition handle_backup_list :: "'m os \<Rightarrow> json \<Rightarrow> (('m, call) host, route_result) act" where
  "handle_backup_list os archive =
     act_bind (checked (check_existing_backup_file os archive ''archive'')) (\<lambda>r.
     case r of
       Inl refusal \<Rightarrow> act_ret refusal
     | Inr a \<Rightarrow> act_bind (list_backup_contents os a) (\<lambda>lines.
         act_ret (route ''applied'' 200 (JObj [(''contents'', JList (map JStr lines))]))))"

definition handle_restore ::
  "'m os \<Rightarrow> (string \<Rightarrow> exn + unit) \<Rightarrow> json \<Rightarrow> json \<Rightarrow> json \<Rightarrow> int option \<Rightarrow> (('m, call) host, route_result) act" where
  "handle_restore os gate archive dest_root members now =
     act_bind (checked (
         act_bind (check_existing_backup_file os archive ''archive'') (\<lambda>a.
         act_bind (act_lift (check_restore_root dest_root)) (\<lambda>d.
         act_bind (act_lift (check_restore_members members)) (\<lambda>ms.
         act_ret (a, d, ms)))))) (\<lambda>r.
     case r of
       Inl refusal \<Rightarrow> act_ret refusal
     | Inr (a, d, ms) \<Rightarrow>
         act_bind (act_lift (not_from_web_app gate ''cpw_restore'')) (\<lambda>refusal.
         case refusal of
           Some x \<Rightarrow> act_ret x
         | None \<Rightarrow>
             act_bind (restore_backup os a d (if ms = [] then None else Some ms) now DEFAULT_MAX_BACKUP_AGE_S
                 DEFAULT_MANIFESTS_DIR []) (\<lambda>b.
             act_ret (if \<not> b_ok b then refused (b_detail b)
                      else route ''applied'' 200 (JObj [(''detail'', JStr (b_detail b))])))))"

section \<open>The recurring backup\<close>

definition DEFAULT_TARGET_DIR :: string where "DEFAULT_TARGET_DIR = ''/mnt/INSTALLER_CACHE/encrypted_backups''"
definition DEFAULT_INTERVAL_HOURS :: int where "DEFAULT_INTERVAL_HOURS = 12"

definition backup_filename :: "string option \<Rightarrow> int \<Rightarrow> string" where
  "backup_filename persona now =
     (if persona = None \<or> persona = Some [] then ''legacy'' else the persona) @ ''-'' @ str_of_int now @ ''.tar.gz''"

definition backup_is_due :: "'m os \<Rightarrow> string option \<Rightarrow> int \<Rightarrow> int \<Rightarrow> (('m, call) host, bool) act" where
  "backup_is_due os persona now interval_hours =
     act_bind (has_recent_successful_backup os (user_mountpoint_for persona) now (interval_hours * 3600) DEFAULT_MANIFESTS_DIR)
       (\<lambda>fresh. act_ret (\<not> fresh))"

definition run_encrypted_backup ::
  "'m os \<Rightarrow> string \<Rightarrow> int \<Rightarrow> string option \<Rightarrow> string \<Rightarrow> (('m, call) host, apply_result) act" where
  "run_encrypted_backup os password_file now persona target_dir =
     (let mountpoint = user_mountpoint_for persona; filename = backup_filename persona now;
          plaintext_path = target_dir @ ''/.'' @ filename @ ''.tmp''; encrypted_path = target_dir @ ''/'' @ filename @ ''.gpg''
      in act_seq (makedirs os target_dir) (
         act_bind (create_backup os plaintext_path [mountpoint] False (Some now) DEFAULT_MANIFESTS_DIR) (\<lambda>b.
         if \<not> b_ok b then act_ret (apply_result False (''backup of '' @ mountpoint @ '' failed: '' @ b_detail b))
         else act_bind (encrypt_file os plaintext_path encrypted_path password_file) (\<lambda>x.
           if \<not> x_ok x then act_ret (apply_result False (''encrypting backup of '' @ mountpoint @ '' failed: '' @ x_detail x))
           else act_seq (remove_path os plaintext_path)
             (act_ret (apply_result True (''encrypted backup of '' @ mountpoint @ '' written to '' @ encrypted_path)))))))"

definition run_if_due ::
  "'m os \<Rightarrow> string \<Rightarrow> int \<Rightarrow> string option \<Rightarrow> string \<Rightarrow> int \<Rightarrow> (('m, call) host, apply_result) act" where
  "run_if_due os password_file now persona target_dir interval_hours =
     act_bind (backup_is_due os persona now interval_hours) (\<lambda>due.
     if \<not> due then act_ret (apply_result True (''skipped: persona '' @ py_repr_opt persona @ '' backed up within the last '' @
       fmt_g interval_hours @ ''h''))
     else run_encrypted_backup os password_file now persona target_dir)"

text \<open>\<open>main\<close>: each persona with the time that was read for it.\<close>
fun recurring_main ::
  "'m os \<Rightarrow> string \<Rightarrow> (string option \<times> int) list \<Rightarrow> (string \<Rightarrow> (('m, call) host, unit) act) \<Rightarrow> bool
     \<Rightarrow> (('m, call) host, int) act" where
  "recurring_main os password_file [] print_fn ok = act_ret (if ok then 0 else 1)"
| "recurring_main os password_file ((persona, now) # personas) print_fn ok =
     act_bind (run_if_due os password_file now persona DEFAULT_TARGET_DIR DEFAULT_INTERVAL_HOURS) (\<lambda>r.
     act_seq (print_fn (''['' @ (if applied r then ''ok'' else ''FAILED'') @ ''] persona='' @ py_repr_opt persona @ '': '' @ detail r))
       (recurring_main os password_file personas print_fn (ok \<and> applied r)))"

section \<open>Looking only\<close>

definition reads_steady :: "'m os \<Rightarrow> bool" where
  "reads_steady os \<longleftrightarrow> (\<forall>p m. snd (os_path_exists os p m) = m) \<and> (\<forall>p m. snd (os_read_text os p m) = m)"

fun is_run :: "call \<Rightarrow> bool" where
  "is_run (CRun argv t) = True"
| "is_run _ = False"

text \<open>The manifest of \<open>target\<close> on the machine proves a backup no older than \<open>max_age\<close> and not from the future.\<close>
definition proves :: "'m os \<Rightarrow> 'm \<Rightarrow> string \<Rightarrow> int \<Rightarrow> int \<Rightarrow> string \<Rightarrow> bool" where
  "proves os m target now max_age manifests_dir \<longleftrightarrow>
     fst (os_path_exists os (manifest_path_for target manifests_dir) m) = Inr True
     \<and> (\<exists>content v. fst (os_read_text os (manifest_path_for target manifests_dir) m) = Inr content
          \<and> json_loads content = Some v \<and> manifest_fresh (Some v) target now max_age = Inr True)"

lemma steady_exists: "reads_steady os \<Longrightarrow> path_exists os p h = (fst (os_path_exists os p (machine h)), h\<lparr>calls := calls h @ [CExists p]\<rparr>)"
  by (simp add: reads_steady_def path_exists_def call_os_def case_prod_unfold Let_def)

lemma steady_read: "reads_steady os \<Longrightarrow> read_text os p h = (fst (os_read_text os p (machine h)), h\<lparr>calls := calls h @ [CRead p]\<rparr>)"
  by (simp add: reads_steady_def read_text_def call_os_def case_prod_unfold Let_def)

lemma steady_has_recent:
  assumes s: "reads_steady os" and r: "has_recent_successful_backup os target now age dir h = (r, h')"
  shows "machine h' = machine h \<and> (r = Inr True \<longrightarrow> proves os (machine h) target now age dir)"
proof -
  let ?p = "manifest_path_for target dir"
  consider (raise) e where "fst (os_path_exists os ?p (machine h)) = Inl e" | (none) "fst (os_path_exists os ?p (machine h)) = Inr False"
    | (there) "fst (os_path_exists os ?p (machine h)) = Inr True"
    by (cases "fst (os_path_exists os ?p (machine h))") auto
  then show ?thesis
  proof cases
    case there
    show ?thesis
    proof (cases "fst (os_read_text os ?p (machine h))")
      case (Inl e)
      then show ?thesis
        using r there by (auto simp: has_recent_successful_backup_def read_backup_manifest_def Let_def steady_exists [OF s]
            steady_read [OF s] act_bind_def)
    next
      case (Inr content)
      then have "r = manifest_fresh (json_loads content) target now age" "machine h' = machine h"
        using r there by (auto simp: has_recent_successful_backup_def read_backup_manifest_def Let_def steady_exists [OF s]
            steady_read [OF s] act_bind_def)
      then show ?thesis
        using there Inr by (cases "json_loads content") (auto simp: proves_def manifest_fresh_def)
    qed
  qed (use r in \<open>auto simp: has_recent_successful_backup_def read_backup_manifest_def Let_def steady_exists [OF s]
        act_bind_def manifest_fresh_def\<close>)
qed

lemma steady_any_recent:
  assumes s: "reads_steady os"
  shows "any_recent os ts now age dir h = (r, h') \<Longrightarrow>
    machine h' = machine h \<and> (r = Inr True \<longrightarrow> (\<exists>t \<in> set ts. proves os (machine h) t now age dir))"
proof (induction ts arbitrary: h)
  case Nil
  then show ?case by auto
next
  case (Cons t ts)
  obtain q h1 where q: "has_recent_successful_backup os t now age dir h = (q, h1)" by fastforce
  note q' = steady_has_recent [OF s q]
  show ?case
  proof (cases q)
    case (Inl e)
    then show ?thesis using Cons.prems q q' by auto
  next
    case (Inr b)
    then show ?thesis using Cons.prems q q' Cons.IH [of h1] by (cases b) auto
  qed
qed

lemma quiet_gate: "emits (\<lambda>c. \<not> is_run c) (restore_gate os members now age dir vt)"
proof -
  have r: "emits (\<lambda>c. \<not> is_run c) (has_recent_successful_backup os t n age dir)" for t n
    unfolding has_recent_successful_backup_def read_backup_manifest_def Let_def by (intro emits_intros) simp_all
  have "emits (\<lambda>c. \<not> is_run c) (any_recent os ts n age dir)" for ts n
  proof (induction ts)
    case Nil
    show ?case unfolding any_recent.simps by (rule emits_ret)
  next
    case (Cons t ts)
    then show ?case unfolding any_recent.simps by (intro emits_intros r)
  qed
  then show ?thesis unfolding restore_gate_def Let_def by (intro emits_intros)
qed

text \<open>A restore over user data that runs anything had its proof.\<close>

lemma restore_proved:
  assumes s: "reads_steady os" and t: "restore_touches_user_volume members"
    and ran: "\<not> list_all (\<lambda>c. \<not> is_run c) (drop (length (calls h))
        (calls (snd (restore_backup os a d members now age dir vt h))))"
  shows "\<exists>n. now = Some n \<and> (\<exists>target \<in> set (if vt \<noteq> [] then vt else user_targets). proves os (machine h) target n age dir)"
proof -
  let ?ts = "if vt \<noteq> [] then vt else user_targets"
  obtain q h1 where q: "restore_gate os members now age dir vt h = (q, h1)" by fastforce
  obtain new where new: "calls h1 = calls h @ new" "list_all (\<lambda>c. \<not> is_run c) new"
    using emits_resultD [OF quiet_gate q] by blast
  have passed: "q = Inr None"
  proof (rule ccontr)
    assume "q \<noteq> Inr None"
    then have "snd (restore_backup os a d members now age dir vt h) = h1"
      using q by (cases q) (auto simp: restore_backup_def act_bind_def)
    then show False using ran new by simp
  qed
  obtain n where n: "now = Some n" using q passed t by (cases now) (auto simp: restore_gate_def)
  obtain b h2 where b: "any_recent os ?ts n age dir h = (b, h2)" by fastforce
  have "b = Inr True"
    using q passed n t b by (cases b) (auto simp: restore_gate_def Let_def act_bind_def split: if_splits)
  then show ?thesis using steady_any_recent [OF s b] n by blast
qed

section \<open>A backup and its proof\<close>

lemma manifest_read_back: "json_loads (json_dumps default_style (manifest_json target ts)) = Some (manifest_json target ts)"
  by (rule loads_dumps_default) (simp add: manifest_json_def)

lemma manifest_fresh_json:
  "manifest_fresh (Some (manifest_json target ts)) target now age = Inr (0 \<le> now - ts \<and> now - ts \<le> age)"
proof -
  have "(0::rat) \<le> of_int now - of_int ts \<longleftrightarrow> 0 \<le> now - ts" "of_int now - of_int ts \<le> (of_int age :: rat) \<longleftrightarrow> now - ts \<le> age"
    by (simp_all flip: of_int_diff)
  then show ?thesis by (simp add: manifest_fresh_def manifest_json_def get_def number_of_def to_float_def)
qed

lemma record_manifest_file:
  assumes k: "file_kernel os F" and r: "record_backup_manifest os target ts dir h = (Inr u, h')"
  shows "F (machine h') = (F (machine h))(manifest_path_for target dir \<mapsto> json_dumps default_style (manifest_json target ts))"
proof -
  obtain v h1 where 1: "makedirs os dir h = (Inr v, h1)"
    and 2: "write_text_atomic os (manifest_path_for target dir) (json_dumps default_style (manifest_json target ts)) h1 = (Inr (), h')"
    using r by (auto simp: record_backup_manifest_def act_seq_eq_Inr)
  have "F (machine h1) = F (machine h)"
    by (rule file_kernel.makedirs_keeps [OF k 1])
  then show ?thesis
    using file_kernel.write_sets [OF k 2] by simp
qed

lemma record_manifests_file:
  assumes k: "file_kernel os F"
  shows "act_for targets (\<lambda>target. record_backup_manifest os target ts dir) h = (Inr u, h') \<Longrightarrow>
    distinct (map (\<lambda>t. manifest_path_for t dir) targets) \<Longrightarrow>
    (\<forall>t \<in> set targets. F (machine h') (manifest_path_for t dir) = Some (json_dumps default_style (manifest_json t ts)))
    \<and> (\<forall>p. p \<notin> (\<lambda>t. manifest_path_for t dir) ` set targets \<longrightarrow> F (machine h') p = F (machine h) p)"
proof (induction targets arbitrary: h)
  case Nil
  then show ?case by simp
next
  case (Cons t targets)
  obtain v h1 where 1: "record_backup_manifest os t ts dir h = (Inr v, h1)"
    and 2: "act_for targets (\<lambda>target. record_backup_manifest os target ts dir) h1 = (Inr u, h')"
    using Cons.prems(1) by (auto simp: act_seq_eq_Inr)
  show ?case
    using Cons.IH [OF 2] Cons.prems(2) record_manifest_file [OF k 1] by auto
qed

lemma has_recent_reads:
  assumes k: "file_kernel os F" and f: "F (machine h) (manifest_path_for target dir) = Some (json_dumps default_style (manifest_json target ts))"
    and r: "has_recent_successful_backup os target now age dir h = (Inr b, h')"
  shows "b \<longleftrightarrow> 0 \<le> now - ts \<and> now - ts \<le> age"
proof -
  let ?p = "manifest_path_for target dir"
  obtain e h1 where e: "path_exists os ?p h = (Inr e, h1)"
    using r by (auto simp: has_recent_successful_backup_def read_backup_manifest_def Let_def act_bind_eq_Inr)
  have "e" "F (machine h1) = F (machine h)"
    using file_kernel.exists_there [OF k e] file_kernel.exists_keeps [OF k e] f by simp_all
  then obtain c h2 where c: "read_text os ?p h1 = (Inr c, h2)" and m: "manifest_fresh (json_loads c) target now age = Inr b"
    using r e by (auto simp: has_recent_successful_backup_def read_backup_manifest_def Let_def act_bind_eq_Inr)
  have "c = json_dumps default_style (manifest_json target ts)"
    using file_kernel.read_there [OF k c] f \<open>F (machine h1) = F (machine h)\<close> by simp
  then show ?thesis using m by (simp add: manifest_read_back manifest_fresh_json)
qed

section \<open>Clean paths\<close>

lemma clean_absD: "clean_abs v what = Inr p \<Longrightarrow> v = JStr p \<and> isabs p \<and> normpath p = p"
  by (auto simp: clean_abs_def split: json.splits if_splits)

lemma check_each_Inr: "check_each f xs = Inr ys \<longleftrightarrow> list_all2 (\<lambda>x y. f x = Inr y) xs ys"
proof (induction xs arbitrary: ys)
  case Nil
  then show ?case by auto
next
  case (Cons x xs)
  show ?case unfolding list_all2_Cons1 Cons.IH [symmetric] by (auto split: sum.splits)
qed

lemma check_sourceD:
  "check_source v = Inr p \<Longrightarrow> v = JStr p \<and> (\<exists>rt \<in> set baseline_roots. under_root p rt) \<and> ''..'' \<notin> set (split_on (CHR ''/'') p)"
  using clean_absD normal_absolute_split
  by (auto simp: check_source_def list_ex_iff split: sum.splits if_splits)

lemma sources_ok:
  assumes "check_backup_sources v = Inr ts"
  shows "v = JList (map JStr ts) \<and> (\<forall>p \<in> set ts. (\<exists>rt \<in> set baseline_roots. under_root p rt) \<and> ''..'' \<notin> set (split_on (CHR ''/'') p))"
proof -
  obtain xs where v: "v = JList xs" and a: "list_all2 (\<lambda>x y. check_source x = Inr y) xs ts"
    using assms by (auto simp: check_backup_sources_def check_each_Inr split: json.splits if_splits)
  from a have "xs = map JStr ts \<and> (\<forall>p \<in> set ts. (\<exists>rt \<in> set baseline_roots. under_root p rt) \<and> ''..'' \<notin> set (split_on (CHR ''/'') p))"
  proof (induction rule: list_all2_induct)
    case (Cons x xs y ys)
    then show ?case using check_sourceD [of x y] by auto
  qed simp
  then show ?thesis using v by simp
qed

lemma member_ok:
  "check_member v = Inr m \<Longrightarrow> v = JStr m \<and> \<not> isabs m \<and> normpath m = m \<and> ''..'' \<notin> set (split_on (CHR ''/'') m) \<and> \<not> starts_with m ''-''"
  by (auto simp: check_member_def isabs_def split: json.splits if_splits)

lemma members_ok:
  assumes "check_restore_members v = Inr ms"
  shows "list_all (\<lambda>m. \<not> isabs m \<and> normpath m = m \<and> ''..'' \<notin> set (split_on (CHR ''/'') m) \<and> \<not> starts_with m ''-'') ms"
proof -
  have "ms = [] \<or> (\<exists>xs. check_each check_member xs = Inr ms)"
  proof (cases v)
    case (JList xs)
    then show ?thesis
      using assms by (cases xs) (auto simp: check_restore_members_def simp del: check_each.simps split: if_splits)
  qed (use assms in \<open>simp_all add: check_restore_members_def\<close>)
  then consider "ms = []" | xs where "list_all2 (\<lambda>x y. check_member x = Inr y) xs ms"
    unfolding check_each_Inr by blast
  then show ?thesis
  proof cases
    case 2
    then show ?thesis
    proof (induction rule: list_all2_induct)
      case (Cons x xs y ys)
      then show ?case using member_ok [of x y] by simp
    qed simp
  qed simp
qed

lemma restore_roots_straight:
  "list_all (\<lambda>r. r = ''/'' @ join ''/'' (tl (split_on (CHR ''/'') r)) \<and> straight (tl (split_on (CHR ''/'') r))
     \<and> tl (split_on (CHR ''/'') r) \<noteq> []) (''/mnt'' # volume_mounts)"
  by code_simp

lemma restore_root_ok: "check_restore_root v = Inr r \<Longrightarrow> r \<in> set (''/mnt'' # volume_mounts)"
  by (auto simp: check_restore_root_def split: sum.splits if_splits)

lemma member_inside:
  assumes r: "check_restore_root v = Inr r" and m: "\<not> isabs m" "normpath m = m" "''..'' \<notin> set (split_on (CHR ''/'') m)"
  shows "under_root (normpath (r @ ''/'' @ m)) r"
proof -
  have s: "r = ''/'' @ join ''/'' (tl (split_on (CHR ''/'') r))" "straight (tl (split_on (CHR ''/'') r))"
      "tl (split_on (CHR ''/'') r) \<noteq> []"
    using restore_roots_straight restore_root_ok [OF r] unfolding list_all_iff by blast+
  show ?thesis
  proof (cases "m = ''.''")
    case False
    then have "straight (split_on (CHR ''/'') m)" using normal_relative m by blast
    then have "normpath (r @ ''/'' @ m) = r @ ''/'' @ m" by (rule join_inside [OF s])
    then show ?thesis using starts_with_append [of "r @ ''/''" m] by (simp add: under_root_def)
  next
    case True
    have "list_all (\<lambda>r. under_root (normpath (r @ ''/'' @ ''.'')) r) (''/mnt'' # volume_mounts)" by code_simp
    then show ?thesis using True restore_root_ok [OF r] unfolding list_all_iff by blast
  qed
qed

section \<open>Properties\<close>


definition proved_lab :: lab where
  "proved_lab = empty_lab\<lparr>lab_files := [(manifest_path_for ''/mnt/USER'' DEFAULT_MANIFESTS_DIR,
     json_dumps default_style (manifest_json ''/mnt/USER'' 100000))]\<rparr>"

lemma lab_reads_steady: "reads_steady lab_os"
  by (auto simp: reads_steady_def lab_os_def lab_read_def split: option.splits)

lemma proved_restore_runs:
  "list_all (\<lambda>c. \<not> is_run c) (calls (snd (restore_backup lab_os ''/a.tar.gz'' ''/'' None (Some 100600) 86400 DEFAULT_MANIFESTS_DIR []
     \<lparr>machine = proved_lab, calls = []\<rparr>))) = False"
  by code_simp


text \<open>
  C24. A backup is its own proof. On a machine with a file system: when a backup of targets with different manifest
  files reports success at \<open>ts\<close>, then for every target the freshness check says yes exactly while no less than nothing
  and no more than the given age has passed.
\<close>
theorem backup_proves_itself:
  assumes "file_kernel os F" and "distinct (map (\<lambda>t. manifest_path_for t dir) targets)"
    and "create_backup os dest targets False (Some ts) dir h = (Inr r, h')" and "b_ok r" and "target \<in> set targets"
    and "has_recent_successful_backup os target now age dir h' = (Inr b, h'')"
  shows "b \<longleftrightarrow> 0 \<le> now - ts \<and> now - ts \<le> age"
proof -
  have ne: "targets \<noteq> []" using assms(5) by auto
  then obtain p h1 where p: "run os (create_backup_argv dest targets) 600 h = (Inr p, h1)"
    using assms(3) by (auto simp: create_backup_def act_bind_eq_Inr)
  have "returncode p = 0" using assms(3,4) p ne by (auto simp: create_backup_def backup_result_def split: if_splits)
  then have "act_for targets (\<lambda>target. record_backup_manifest os target ts dir) h1 = (Inr (), h')"
    using assms(3) p ne by (auto simp: create_backup_def act_seq_eq_Inr)
  then have "F (machine h') (manifest_path_for target dir) = Some (json_dumps default_style (manifest_json target ts))"
    using record_manifests_file [OF assms(1) _ assms(2)] assms(5) by blast
  then show ?thesis using has_recent_reads [OF assms(1) _ assms(6)] by blast
qed

definition backed_up :: "(exn + backup_result) \<times> (lab, call) host" where
  "backed_up = create_backup table_os ''/b.tar.gz'' [''/mnt/USER_ADMIN''] False (Some 100000) DEFAULT_MANIFESTS_DIR
     \<lparr>machine = empty_lab, calls = []\<rparr>"

lemma backed_up_ok: "fst backed_up = Inr (backup_result True ''backed up 1 target(s) to /b.tar.gz'')"
  by code_simp

theorem backup_proves_itself_witness:
  "fst (has_recent_successful_backup table_os ''/mnt/USER_ADMIN'' 186401 86400 DEFAULT_MANIFESTS_DIR (snd backed_up)) = Inr False"
proof -
  obtain b h'' where b: "has_recent_successful_backup table_os ''/mnt/USER_ADMIN'' 186401 86400 DEFAULT_MANIFESTS_DIR (snd backed_up)
      = (Inr b, h'')"
    by (cases "fst (has_recent_successful_backup table_os ''/mnt/USER_ADMIN'' 186401 86400 DEFAULT_MANIFESTS_DIR (snd backed_up))")
      (auto simp: has_recent_successful_backup_def prod_eq_iff, code_simp)
  have c: "create_backup table_os ''/b.tar.gz'' [''/mnt/USER_ADMIN''] False (Some 100000) DEFAULT_MANIFESTS_DIR
     \<lparr>machine = empty_lab, calls = []\<rparr> = (Inr (backup_result True ''backed up 1 target(s) to /b.tar.gz''), snd backed_up)"
    using backed_up_ok unfolding backed_up_def by (metis prod.collapse)
  show ?thesis
    using backup_proves_itself [OF table_files.file_kernel_axioms _ c _ _ b] b by (simp add: backup_result_def)
qed

text \<open>
  A backup reads only what is Baseline's. If the sources of a request are accepted, it is a list of texts and the result is
  that list; each is one of Baseline's volumes or configuration files, or lies below one, and has no \<open>..\<close> component
  that could climb out of it again.
\<close>
theorem backup_sources_stay_inside:
  assumes "check_backup_sources v = Inr ts"
  shows "v = JList (map JStr ts)
    \<and> (\<forall>p \<in> set ts. (\<exists>rt \<in> set baseline_roots. under_root p rt) \<and> ''..'' \<notin> set (split_on (CHR ''/'') p))"
  using assms by (rule sources_ok)

theorem backup_sources_stay_inside_witness:
  "(\<exists>rt \<in> set baseline_roots. under_root ''/mnt/BASELINE/state'' rt) \<and> ''..'' \<notin> set (split_on (CHR ''/'') ''/mnt/BASELINE/state'')"
proof -
  have "check_backup_sources (JList [JStr ''/mnt/BASELINE/state'']) = Inr [''/mnt/BASELINE/state'']" by code_simp
  from backup_sources_stay_inside [OF this] show ?thesis by simp
qed

text \<open>
  C25. A restore writes only below its destination. If a request's destination and its archive members are accepted, then
  the destination is \<open>/mnt\<close> or one of Baseline's volumes, no member is taken for an option of \<open>tar\<close>, and the path each
  member resolves to below the destination is the destination or inside it.
\<close>
theorem restore_stays_inside:
  assumes "check_restore_root v = Inr r" and "check_restore_members w = Inr ms"
  shows "r \<in> set (''/mnt'' # volume_mounts)
    \<and> list_all (\<lambda>m. under_root (normpath (r @ ''/'' @ m)) r \<and> \<not> starts_with m ''-'') ms"
  using restore_root_ok [OF assms(1)] members_ok [OF assms(2)] member_inside [OF assms(1)] by (auto simp: list_all_iff)

theorem restore_stays_inside_witness:
  "under_root (normpath ''/mnt/BASELINE/state/plan.json'') ''/mnt/BASELINE''"
proof -
  have "check_restore_root (JStr ''/mnt/BASELINE'') = Inr ''/mnt/BASELINE''"
    "check_restore_members (JList [JStr ''state/plan.json'']) = Inr [''state/plan.json'']" by code_simp+
  from restore_stays_inside [OF this] show ?thesis by simp
qed

section \<open>What the gate does not look at\<close>

text \<open>
  The gate looks at the member names only, not at the destination: a restore of named members into a user volume itself is
  accepted by the checks of a request and runs without any manifest.
\<close>

lemma destination_is_not_gated:
  "check_restore_root (JStr ''/mnt/USER_ADMIN'') = Inr ''/mnt/USER_ADMIN''
   \<and> check_restore_members (JList [JStr ''etc-baseline/credentials.json'']) = Inr [''etc-baseline/credentials.json'']
   \<and> calls (snd (restore_backup lab_os ''/a.tar.gz'' ''/mnt/USER_ADMIN'' (Some [''etc-baseline/credentials.json'']) None 86400
        DEFAULT_MANIFESTS_DIR [] \<lparr>machine = empty_lab, calls = []\<rparr>))
      = [CRun [''mkdir'', ''-p'', ''/mnt/USER_ADMIN''] 10,
         CRun [''tar'', ''-xzf'', ''/a.tar.gz'', ''-C'', ''/mnt/USER_ADMIN'', ''etc-baseline/credentials.json''] 600]"
  by (intro conjI; code_simp)

text \<open>An empty list of members counts as touching nothing, and restores everything.\<close>

lemma empty_members_are_not_gated:
  "restore_touches_user_volume (Some []) = False
   \<and> restore_backup_argv ''/a.tar.gz'' ''/'' (Some []) = restore_backup_argv ''/a.tar.gz'' ''/'' None"
  by code_simp

text \<open>The proof of one user volume counts for all of them: here the manifest is that of the single volume of before.\<close>

lemma another_volumes_proof_counts:
  "b_ok (case fst (restore_backup lab_os ''/a.tar.gz'' ''/'' (Some [''mnt/USER_PERSONAL/notes'']) (Some 100600) 86400 DEFAULT_MANIFESTS_DIR []
     \<lparr>machine = proved_lab, calls = []\<rparr>) of Inr r \<Rightarrow> r | Inl e \<Rightarrow> backup_result False [])"
  by code_simp

text \<open>
  When encrypting fails, the plaintext archive stays where it is, and the manifest already written makes the next run
  skip: no encrypted backup is made for the interval.
\<close>

definition no_openssl :: lab where
  "no_openssl = empty_lab\<lparr>lab_results := [(encrypt_file_argv ''/b/.legacy-100000.tar.gz.tmp'' ''/b/legacy-100000.tar.gz.gpg'' ''/pw'',
     done_ok\<lparr>returncode := 1, stderr := ''no such file''\<rparr>)]\<rparr>"

definition failed_encryption :: "(exn + apply_result) \<times> (lab, call) host" where
  "failed_encryption = run_encrypted_backup lab_os ''/pw'' 100000 None ''/b'' \<lparr>machine = no_openssl, calls = []\<rparr>"

lemma failed_encryption_leaves_plaintext:
  "map_sum id applied (fst failed_encryption) = Inr False
   \<and> list_ex (\<lambda>c. case c of CRemove p \<Rightarrow> True | _ \<Rightarrow> False) (calls (snd failed_encryption)) = False
   \<and> fst (backup_is_due lab_os None 103600 12 (snd failed_encryption)) = Inr False"
  by (intro conjI; code_simp)

end
