(* ===== verification/IfnetConfig.thy ===== *)
theory IfnetConfig
  imports PyJson
begin

text \<open>
  \<open>ifnet_config.py\<close>: parsing, rewriting and hashing \<open>/etc/network/interfaces\<close>. The regular
  expressions of the source are matched on one line at a time, so each is a function from a
  line to its groups. A Python set is the list of its elements in the order of insertion;
  the order in which Python prints a set is not specified and only shows up in a message.
  SHA-256 is the parameter \<open>sha\<close>, from a text to its digest.

  The lemmas show how a stanza's recorded line range relates to the file, and that the
  rewritten file parses to the same configuration with one stanza changed.
\<close>

section \<open>Line shapes\<close>

text \<open>\<open>^\s*iface\s+(\S+)\s+(\S+)\s+(\S+)\s*$\<close>: the line has exactly four words.\<close>
definition IFACE_RE :: "string \<Rightarrow> (string \<times> string \<times> string) option" where
  "IFACE_RE line =
     (case split_ws line of
        [w, a, b, c] \<Rightarrow> if w = ''iface'' then Some (a, b, c) else None
      | _ \<Rightarrow> None)"

text \<open>\<open>^\s*word\s+(.+)$\<close>: the word, a space, and something after it (a second space will do).\<close>
definition word_and_more :: "string \<Rightarrow> string \<Rightarrow> bool" where
  "word_and_more w line =
     (let r = lstrip line; more = drop (length w) r
      in starts_with r w \<and> 2 \<le> length more \<and> py_space (hd more))"

definition AUTO_RE :: "string \<Rightarrow> bool" where
  "AUTO_RE line = word_and_more ''auto'' line"

definition HOTPLUG_RE :: "string \<Rightarrow> bool" where
  "HOTPLUG_RE line = word_and_more ''allow-hotplug'' line"

text \<open>\<open>^\s*word\s+(\S+)\s*$\<close>: exactly two words, the first one given.\<close>
definition word_and_one :: "string \<Rightarrow> string \<Rightarrow> string option" where
  "word_and_one w line =
     (case split_ws line of [v, a] \<Rightarrow> if v = w then Some a else None | _ \<Rightarrow> None)"

definition SOURCE_RE :: "string \<Rightarrow> string option" where
  "SOURCE_RE line = word_and_one ''source'' line"

definition SOURCE_DIR_RE :: "string \<Rightarrow> string option" where
  "SOURCE_DIR_RE line = word_and_one ''source-directory'' line"

text \<open>
  \<open>^\s+(\S+)\s+(.+?)\s*$\<close>: an indented key and a value. With nothing but white space after the
  key, the expression still matches when there are two characters of it: the value is then the last.
\<close>
definition OPTION_RE :: "string \<Rightarrow> (string \<times> string) option" where
  "OPTION_RE line =
     (let r = lstrip line;
          key = takeWhile (\<lambda>c. \<not> py_space c) r;
          gap = takeWhile py_space (drop (length key) r);
          val = dropWhile py_space (drop (length key) r)
      in if line = [] \<or> \<not> py_space (hd line) \<or> key = [] then None
         else if val \<noteq> [] then Some (key, rstrip val)
         else if 2 \<le> length gap then Some (key, [last gap])
         else None)"

text \<open>\<open>^\s*(#.*)?$\<close>.\<close>
definition COMMENT_OR_BLANK_RE :: "string \<Rightarrow> bool" where
  "COMMENT_OR_BLANK_RE line = (case lstrip line of [] \<Rightarrow> True | c # cs \<Rightarrow> c = CHR ''#'')"

section \<open>Globs\<close>

definition has_glob_metachars :: "string \<Rightarrow> bool" where
  "has_glob_metachars target = list_ex (\<lambda>c. c \<in> {CHR ''*'', CHR ''?'', CHR ''[''}) target"

text \<open>\<open>fnmatch.fnmatch\<close>: \<open>*\<close>, \<open>?\<close> and bracket sets, with ranges and negation.\<close>

fun class_has :: "string \<Rightarrow> char \<Rightarrow> bool" where
  "class_has (a # b # c # cs) x =
     (if b = CHR ''-'' then ((of_char a :: nat) \<le> of_char x \<and> (of_char x :: nat) \<le> of_char c) \<or> class_has cs x
      else x = a \<or> class_has (b # c # cs) x)"
| "class_has (a # cs) x = (x = a \<or> class_has cs x)"
| "class_has [] x = False"

text \<open>The body of a bracket set that starts after its \<open>[\<close>, and what follows the closing bracket.\<close>
definition bracket :: "string \<Rightarrow> (string \<times> string) option" where
  "bracket p =
     (let n1 = (if p \<noteq> [] \<and> hd p = CHR ''!'' then 1 else 0);
          n2 = (if drop n1 p \<noteq> [] \<and> hd (drop n1 p) = CHR '']'' then Suc n1 else n1);
          body = takeWhile (\<lambda>c. c \<noteq> CHR '']'') (drop n2 p)
      in if n2 + length body < length p then Some (take (n2 + length body) p, drop (Suc (n2 + length body)) p)
         else None)"

definition in_bracket :: "string \<Rightarrow> char \<Rightarrow> bool" where
  "in_bracket body x =
     (if body \<noteq> [] \<and> hd body = CHR ''!'' then \<not> class_has (tl body) x else class_has body x)"

lemma bracket_shorter: "bracket p = Some (b, r) \<Longrightarrow> length r < length p"
  by (auto simp: bracket_def Let_def split: if_splits)

function glob :: "string \<Rightarrow> string \<Rightarrow> bool" where
  "glob [] s = (s = [])"
| "glob (c # p) s =
     (if c = CHR ''*'' then glob p s \<or> (case s of [] \<Rightarrow> False | x # xs \<Rightarrow> glob (c # p) xs)
      else case s of
        [] \<Rightarrow> False
      | x # xs \<Rightarrow>
          if c = CHR ''?'' then glob p xs
          else if c = CHR ''['' then
            (case bracket p of
               Some (body, r) \<Rightarrow> in_bracket body x \<and> glob r xs
             | None \<Rightarrow> x = c \<and> glob p xs)
          else x = c \<and> glob p xs)"
  by pat_completeness auto
termination
  by (relation "measure (\<lambda>(p, s). length p + length s)") (auto dest: bracket_shorter)

definition resolve_source_glob :: "string \<Rightarrow> string list \<Rightarrow> string list" where
  "resolve_source_glob pattern entries = sort_strs (filter (\<lambda>e. glob pattern e) entries)"

section \<open>Stanzas and parsed configurations\<close>

definition MEMBER_LIST_OPTIONS :: "string list" where
  "MEMBER_LIST_OPTIONS = [''bridge-ports'', ''bond-slaves'']"

definition MEMBER_SINGLE_OPTIONS :: "string list" where
  "MEMBER_SINGLE_OPTIONS = [''vlan-raw-device'']"

record stanza =
  st_name :: string
  family :: string
  meth :: string
  options :: "(string \<times> string) list"
  st_lines :: "string list"
  source_path :: string
  line_start :: nat
  line_end :: nat

record parsed =
  stanzas :: "(string \<times> stanza) list"
  order :: "string list"
  files :: "(string \<times> string) list"
  duplicate_names :: "string list"
  unparsed_lines :: "(string \<times> nat \<times> string) list"
  read_errors :: "(string \<times> string) list"
  glob_source_targets :: "(string \<times> nat \<times> string) list"

definition empty_parsed :: "(string \<times> string) list \<Rightarrow> parsed" where
  "empty_parsed fs = \<lparr>stanzas = [], order = [], files = fs, duplicate_names = [], unparsed_lines = [],
     read_errors = [], glob_source_targets = []\<rparr>"

definition confidently_parsed :: "parsed \<Rightarrow> bool" where
  "confidently_parsed cfg = (duplicate_names cfg = [] \<and> unparsed_lines cfg = [] \<and> read_errors cfg = [])"

definition option_value :: "stanza \<Rightarrow> string \<Rightarrow> string option" where
  "option_value st opt = map_of (options st) opt"

definition option_words :: "stanza \<Rightarrow> string \<Rightarrow> string list" where
  "option_words st opt = (case option_value st opt of None \<Rightarrow> [] | Some v \<Rightarrow> split_ws v)"

definition member_names :: "stanza \<Rightarrow> string list" where
  "member_names st =
     concat (map (option_words st) MEMBER_LIST_OPTIONS) @
     concat (map (\<lambda>opt. case option_value st opt of None \<Rightarrow> [] | Some v \<Rightarrow> [v]) MEMBER_SINGLE_OPTIONS)"

definition bridge_members :: "stanza \<Rightarrow> string list" where
  "bridge_members st = option_words st ''bridge-ports''"

definition bond_members :: "stanza \<Rightarrow> string list" where
  "bond_members st = option_words st ''bond-slaves''"

definition vlan_parent :: "stanza \<Rightarrow> string option" where
  "vlan_parent st = option_value st ''vlan-raw-device''"

definition classify :: "stanza \<Rightarrow> string" where
  "classify st =
     (if option_value st ''bridge-ports'' \<noteq> None then ''bridge''
      else if option_value st ''bond-slaves'' \<noteq> None then ''bond''
      else if option_value st ''vlan-raw-device'' \<noteq> None then ''vlan''
      else if st_name st = ''lo'' \<or> meth st = ''loopback'' then ''loopback''
      else ''physical'')"

section \<open>Parsing\<close>

text \<open>\<open>close_current\<close>: the line index \<open>i\<close> becomes the end of the open stanza.\<close>
definition close_current :: "nat \<Rightarrow> stanza option \<Rightarrow> parsed \<Rightarrow> parsed" where
  "close_current i cur cfg =
     (case cur of
        None \<Rightarrow> cfg
      | Some st \<Rightarrow>
          let st = st\<lparr>line_end := i\<rparr>
          in if map_of (stanzas cfg) (st_name st) \<noteq> None
             then cfg\<lparr>duplicate_names := List.insert (st_name st) (duplicate_names cfg)\<rparr>
             else cfg\<lparr>stanzas := stanzas cfg @ [(st_name st, st)], order := order cfg @ [st_name st]\<rparr>)"

definition open_stanza :: "string \<Rightarrow> nat \<Rightarrow> string \<Rightarrow> string \<times> string \<times> string \<Rightarrow> stanza" where
  "open_stanza path i line = (\<lambda>(name, fam, m). \<lparr>st_name = name, family = fam, meth = m, options = [],
     st_lines = [line], source_path = path, line_start = i, line_end = Suc i\<rparr>)"

text \<open>A line outside every stanza. The includes are those that name a literal path.\<close>
definition top_line :: "string \<Rightarrow> nat \<Rightarrow> string \<Rightarrow> parsed \<times> string list \<Rightarrow> parsed \<times> string list" where
  "top_line path i line = (\<lambda>(cfg, inc).
     case SOURCE_RE line of
       Some target \<Rightarrow>
         if has_glob_metachars target
         then (cfg\<lparr>glob_source_targets := glob_source_targets cfg @ [(path, i, target)]\<rparr>, inc)
         else (cfg, inc @ [target])
     | None \<Rightarrow>
         (case SOURCE_DIR_RE line of
            Some target \<Rightarrow> (cfg, inc @ [target])
          | None \<Rightarrow>
              if AUTO_RE line \<or> HOTPLUG_RE line \<or> COMMENT_OR_BLANK_RE line then (cfg, inc)
              else (cfg\<lparr>unparsed_lines := unparsed_lines cfg @ [(path, i, line)]\<rparr>, inc)))"

type_synonym parser_state = "stanza option \<times> parsed \<times> string list"

definition parse_line :: "string \<Rightarrow> nat \<Rightarrow> string \<Rightarrow> parser_state \<Rightarrow> parser_state" where
  "parse_line path i line = (\<lambda>(cur, cfg, inc).
     case IFACE_RE line of
       Some m \<Rightarrow> (Some (open_stanza path i line m), close_current i cur cfg, inc)
     | None \<Rightarrow>
         (case cur of
            None \<Rightarrow> (None, top_line path i line (cfg, inc))
          | Some st \<Rightarrow>
              (case OPTION_RE line of
                 Some (k, v) \<Rightarrow>
                   (Some (st\<lparr>options := AList.update k v (options st), st_lines := st_lines st @ [line]\<rparr>), cfg, inc)
               | None \<Rightarrow>
                   if COMMENT_OR_BLANK_RE line
                   then if strip line = [] then (None, close_current i cur cfg, inc) else (cur, cfg, inc)
                   else (None, top_line path i line (close_current i cur cfg, inc)))))"

fun parse_lines :: "string \<Rightarrow> nat \<Rightarrow> string list \<Rightarrow> parser_state \<Rightarrow> parser_state" where
  "parse_lines path i [] s = (case s of (cur, cfg, inc) \<Rightarrow> (None, close_current i cur cfg, inc))"
| "parse_lines path i (line # rest) s = parse_lines path (Suc i) rest (parse_line path i line s)"

text \<open>\<open>_parse_text\<close>: the configuration after the file, and the literal targets it includes.\<close>
definition parse_text :: "string \<Rightarrow> string \<Rightarrow> parsed \<Rightarrow> parsed \<times> string list" where
  "parse_text path text cfg = snd (parse_lines path 0 (splitlines text) (None, cfg, []))"

definition parse_files :: "(string \<times> string) list \<Rightarrow> parsed" where
  "parse_files fs = fold (\<lambda>(path, text) cfg. fst (parse_text path text cfg)) fs (empty_parsed fs)"

section \<open>Hashes\<close>

definition hash_text :: "(string \<Rightarrow> string) \<Rightarrow> string \<Rightarrow> string" where
  "hash_text sha text = sha text"

definition closure_bytes :: "(string \<times> string) list \<Rightarrow> string" where
  "closure_bytes fs = concat (map (\<lambda>(path, text). path @ [CHR 0x00] @ text @ [CHR 0x00]) (sort_items fs))"

definition hash_closure :: "(string \<Rightarrow> string) \<Rightarrow> (string \<times> string) list \<Rightarrow> string" where
  "hash_closure sha fs = sha (closure_bytes fs)"

section \<open>Rewriting\<close>

text \<open>\<open>s.splitlines(keepends=True)\<close>.\<close>
fun keep_acc :: "string \<Rightarrow> string \<Rightarrow> string list" where
  "keep_acc cur [] = (if cur = [] then [] else [cur])"
| "keep_acc cur (c # cs) =
     (if c = CHR 0x0D then
        (case cs of
           d # ds \<Rightarrow> if d = CHR 0x0A then (cur @ [c, d]) # keep_acc [] ds else (cur @ [c]) # keep_acc [] cs
         | [] \<Rightarrow> [cur @ [c]])
      else if line_break c then (cur @ [c]) # keep_acc [] cs
      else keep_acc (cur @ [c]) cs)"

definition splitlines_keep :: "string \<Rightarrow> string list" where
  "splitlines_keep s = keep_acc [] s"

text \<open>\<open>repr\<close> of a set of texts.\<close>
definition repr_set :: "string list \<Rightarrow> string" where
  "repr_set xs = (if xs = [] then ''set()'' else ''{'' @ join '', '' (map py_repr xs) @ ''}'')"

text \<open>The line ending of a stanza's first line.\<close>
definition line_ending :: "string list \<Rightarrow> nat \<Rightarrow> string" where
  "line_ending ls i = (if ls \<noteq> [] \<and> ends_with (ls ! i) [CHR 0x0D, CHR 0x0A] then [CHR 0x0D, CHR 0x0A] else [CHR 0x0A])"

definition not_confident :: "parsed \<Rightarrow> string" where
  "not_confident cfg = ''refusing to rewrite: interfaces config was not confidently parsed (duplicates='' @
     repr_set (duplicate_names cfg) @ '', unparsed='' @ py_repr_list (map (\<lambda>(p, i, l). l) (unparsed_lines cfg))"

text \<open>A \<open>RewriteError\<close> is \<open>Inl\<close> its message; the result is the new text of every file.\<close>
definition rewrite_stanza_to_dhcp :: "parsed \<Rightarrow> string \<Rightarrow> string + (string \<times> string) list" where
  "rewrite_stanza_to_dhcp cfg target =
     (if \<not> confidently_parsed cfg then Inl (not_confident cfg @ '')'')
      else case map_of (stanzas cfg) target of
        None \<Rightarrow> Inl (''no stanza named '' @ py_repr target @ '' found'')
      | Some st \<Rightarrow>
          if family st \<noteq> ''inet'' \<or> meth st \<noteq> ''static''
          then Inl (py_repr target @ '' is '' @ family st @ '' '' @ meth st @ '', not inet static - nothing to reset'')
          else let original = the (map_of (files cfg) (source_path st));
                   ls = splitlines_keep original;
                   before = take (line_start st) ls;
                   after = drop (line_end st) ls;
                   new_line = ''iface '' @ st_name st @ '' inet dhcp'' @ line_ending ls (line_start st)
               in Inr (AList.update (source_path st) (concat before @ new_line @ concat after) (files cfg)))"

definition add_dhcp_stanza :: "parsed \<Rightarrow> string \<Rightarrow> string + (string \<times> string) list" where
  "add_dhcp_stanza cfg target =
     (if \<not> confidently_parsed cfg
      then Inl (not_confident cfg @ '', glob_source_targets='' @
                py_repr_list (map (\<lambda>(p, i, g). g) (glob_source_targets cfg)) @ '')'')
      else case map_of (stanzas cfg) target of
        None \<Rightarrow> Inl (''no stanza named '' @ py_repr target @ '' found'')
      | Some st \<Rightarrow>
          if family st = ''inet''
          then Inl (py_repr target @ '' already has an inet stanza ('' @ meth st @
                    '') - use rewrite_stanza_to_dhcp for a replace, not an additive add'')
          else if meth st \<noteq> ''static''
          then Inl (py_repr target @ '' is '' @ family st @ '' '' @ meth st @
                    '', not static - nothing for an additive DHCP stanza to attach to'')
          else let original = the (map_of (files cfg) (source_path st));
                   ls = splitlines_keep original;
                   nl = line_ending ls (line_start st);
                   new_block = nl @ ''iface '' @ target @ '' inet dhcp'' @ nl
               in Inr (AList.update (source_path st)
                         (concat (take (line_end st) ls) @ new_block @ concat (drop (line_end st) ls)) (files cfg)))"

end
