(* ===== verification/IfnetRewrite.thy ===== *)
theory IfnetRewrite
  imports IfnetConfig
begin

text \<open>
  What \<open>rewrite_stanza_to_dhcp\<close> of \<open>ifnet_config.py\<close> does to the configuration, proved on the parser
  itself: a stanza's recorded line range is its block in the file (\<open>placed\<close>), what precedes
  and follows the block is parsed the same from any line number (\<open>view\<close>), so that the rewritten file
  parses to the same configuration with one stanza changed.
\<close>

section \<open>Lines with and without their endings\<close>

lemma line_break_CR [simp]: "line_break (CHR 0x0D)" and line_break_LF [simp]: "line_break (CHR 0x0A)"
  by (simp_all add: line_break_def)

text \<open>The cases of the two line splitters, and the induction they share.\<close>

lemma lines_CR:
  "d \<noteq> CHR 0x0A \<Longrightarrow> lines_acc cur (CHR 0x0D # d # ds) = cur # lines_acc [] (d # ds)"
  "d \<noteq> CHR 0x0A \<Longrightarrow> keep_acc cur (CHR 0x0D # d # ds) = (cur @ [CHR 0x0D]) # keep_acc [] (d # ds)"
  "lines_acc cur (CHR 0x0D # CHR 0x0A # ds) = cur # lines_acc [] ds"
  "keep_acc cur (CHR 0x0D # CHR 0x0A # ds) = (cur @ [CHR 0x0D, CHR 0x0A]) # keep_acc [] ds"
  "lines_acc cur [CHR 0x0D] = [cur]" "keep_acc cur [CHR 0x0D] = [cur @ [CHR 0x0D]]"
  by simp_all

lemma lines_other:
  "line_break c \<Longrightarrow> c \<noteq> CHR 0x0D \<Longrightarrow> lines_acc cur (c # cs) = cur # lines_acc [] cs"
  "line_break c \<Longrightarrow> c \<noteq> CHR 0x0D \<Longrightarrow> keep_acc cur (c # cs) = (cur @ [c]) # keep_acc [] cs"
  "\<not> line_break c \<Longrightarrow> lines_acc cur (c # cs) = lines_acc (cur @ [c]) cs"
  "\<not> line_break c \<Longrightarrow> keep_acc cur (c # cs) = keep_acc (cur @ [c]) cs"
  by auto

declare lines_acc.simps(2) [simp del] keep_acc.simps(2) [simp del]
declare lines_CR [simp] lines_other [simp]

lemma lines_induct [case_names nil cr_lf cr cr_end brk char]:
  assumes "\<And>cur. P cur []"
    and "\<And>cur ds. P [] ds \<Longrightarrow> P cur (CHR 0x0D # CHR 0x0A # ds)"
    and "\<And>cur d ds. d \<noteq> CHR 0x0A \<Longrightarrow> P [] (d # ds) \<Longrightarrow> P cur (CHR 0x0D # d # ds)"
    and "\<And>cur. P cur [CHR 0x0D]"
    and "\<And>cur c cs. line_break c \<Longrightarrow> c \<noteq> CHR 0x0D \<Longrightarrow> P [] cs \<Longrightarrow> P cur (c # cs)"
    and "\<And>cur c cs. \<not> line_break c \<Longrightarrow> P (cur @ [c]) cs \<Longrightarrow> P cur (c # cs)"
  shows "P cur s"
proof (induction cur s rule: keep_acc.induct)
  case (1 cur)
  show ?case by (rule assms(1))
next
  case (2 cur c cs)
  show ?case
  proof (cases "c = CHR 0x0D")
    case cr: True
    show ?thesis
    proof (cases cs)
      case Nil
      with cr assms(4) show ?thesis by simp
    next
      case (Cons d ds)
      show ?thesis
      proof (cases "d = CHR 0x0A")
        case True
        with 2(1) cr Cons have "P [] ds" by blast
        with assms(2) cr Cons True show ?thesis by blast
      next
        case False
        with 2(2) cr Cons have "P [] (d # ds)" by blast
        with assms(3) cr Cons False show ?thesis by blast
      qed
    qed
  next
    case False
    with 2(3,4) assms(5,6) show ?thesis by blast
  qed
qed

lemma concat_keep_acc: "concat (keep_acc cur s) = cur @ s"
  by (induction cur s rule: lines_induct) auto

lemma length_keep_acc: "length (keep_acc cur s) = length (lines_acc cur s)"
  by (induction cur s rule: lines_induct) auto

abbreviation unbroken :: "string \<Rightarrow> bool" where
  "unbroken \<equiv> list_all (\<lambda>c. \<not> line_break c)"

lemma lines_acc_plain: "unbroken x \<Longrightarrow> lines_acc cur (x @ s) = lines_acc (cur @ x) s"
  by (induction x arbitrary: cur) auto

lemma lines_acc_start: "unbroken cur \<Longrightarrow> lines_acc [] (cur @ s) = lines_acc cur s"
  by (simp add: lines_acc_plain)

lemma lines_acc_whole: "unbroken cur \<Longrightarrow> lines_acc [] cur = lines_acc cur []"
  using lines_acc_start [of cur "[]"] by simp

lemma drop_keep_acc: "unbroken cur \<Longrightarrow> lines_acc [] (concat (drop k (keep_acc cur s))) = drop k (lines_acc cur s)"
proof (cases k)
  case 0
  assume "unbroken cur"
  with 0 show ?thesis by (simp add: concat_keep_acc lines_acc_start del: lines_acc.simps)
next
  case (Suc j)
  assume "unbroken cur"
  with Suc show ?thesis
  proof (induction cur s arbitrary: k j rule: lines_induct)
    case (cr_lf cur ds)
    then show ?case by (cases j) (auto simp: concat_keep_acc)
  next
    case (cr cur d ds)
    then show ?case by (cases j) (auto simp: concat_keep_acc)
  next
    case (brk cur c cs)
    then show ?case by (cases j) (auto simp: concat_keep_acc)
  qed auto
qed

text \<open>A prefix of the kept lines ends at a line end, and joins what follows as lines.\<close>

definition line_boundary :: "string \<Rightarrow> string \<Rightarrow> bool" where
  "line_boundary a b \<longleftrightarrow> a = [] \<or> (line_break (last a) \<and> \<not> (last a = CHR 0x0D \<and> b \<noteq> [] \<and> hd b = CHR 0x0A))"

lemma line_boundary_tl: "line_boundary (x # y # ys) b \<Longrightarrow> line_boundary (y # ys) b"
  by (simp add: line_boundary_def)

lemma lines_acc_append:
  "a \<noteq> [] \<Longrightarrow> line_boundary a b \<Longrightarrow> lines_acc cur (a @ b) = lines_acc cur a @ lines_acc [] b"
proof (induction cur a rule: lines_induct)
  case (cr_lf cur ds)
  then show ?case by (cases ds) (auto dest: line_boundary_tl)
next
  case (cr_end cur)
  then show ?case by (cases b) (auto simp: line_boundary_def)
next
  case (brk cur c cs)
  then show ?case by (cases cs) (auto dest: line_boundary_tl)
next
  case (char cur c cs)
  then show ?case by (cases cs) (auto simp: line_boundary_def)
qed (auto dest: line_boundary_tl)

lemma concat_take_head: "concat (take k (keep_acc [] s)) = [] \<or> hd (concat (take k (keep_acc [] s))) = hd s"
proof -
  have "s = concat (take k (keep_acc [] s)) @ concat (drop k (keep_acc [] s))"
    by (metis append_Nil append_take_drop_id concat_append concat_keep_acc)
  then show ?thesis by (metis hd_append2)
qed

lemma lines_acc_CR: "x = [] \<or> hd x \<noteq> CHR 0x0A \<Longrightarrow> lines_acc cur (CHR 0x0D # x) = cur # lines_acc [] x"
  by (cases x) auto

lemma lines_first_line:
  "unbroken cur \<Longrightarrow> line_break c \<Longrightarrow> c \<noteq> CHR 0x0D \<Longrightarrow> lines_acc [] (cur @ c # x) = cur # lines_acc [] x"
  "unbroken cur \<Longrightarrow> lines_acc [] (cur @ CHR 0x0D # CHR 0x0A # x) = cur # lines_acc [] x"
  by (simp_all add: lines_acc_start)

lemma take_keep_acc:
  "unbroken cur \<Longrightarrow> lines_acc [] (concat (take k (keep_acc cur s))) = take k (lines_acc cur s)"
proof (induction cur s arbitrary: k rule: lines_induct)
  case (nil cur)
  then show ?case by (cases k) (auto simp: lines_acc_whole)
next
  case (cr_lf cur ds)
  then show ?case by (cases k) (auto simp: lines_first_line)
next
  case (cr cur d ds)
  show ?case
  proof (cases k)
    case (Suc j)
    have "lines_acc [] (cur @ CHR 0x0D # concat (take j (keep_acc [] (d # ds)))) =
      cur # lines_acc [] (concat (take j (keep_acc [] (d # ds))))"
      using concat_take_head [of j "d # ds"] cr.hyps(1) lines_acc_CR lines_acc_start [OF cr.prems] by auto
    then show ?thesis using cr Suc by simp
  qed simp
next
  case (cr_end cur)
  then show ?case by (cases k) (auto simp: lines_acc_start)
next
  case (brk cur c cs)
  then show ?case by (cases k) (auto simp: lines_first_line)
qed auto

lemma keep_line_end:
  "Suc k < length (keep_acc cur s) \<Longrightarrow> line_break (last (concat (take (Suc k) (keep_acc cur s))))"
proof (induction cur s arbitrary: k rule: lines_induct)
  case (cr_lf cur ds)
  then show ?case by (cases k) auto
next
  case (cr cur d ds)
  then show ?case by (cases k) auto
next
  case (brk cur c cs)
  then show ?case by (cases k) auto
qed auto

lemma splitlines_replace:
  assumes b: "b < length (splitlines text)" and e: "e \<le> length (splitlines text)"
    and line: "unbroken line" "line \<noteq> []" and nl: "nl \<in> {[CHR 0x0A], [CHR 0x0D, CHR 0x0A]}"
  shows "splitlines (concat (take b (splitlines_keep text)) @ (line @ nl) @ concat (drop e (splitlines_keep text))) =
    take b (splitlines text) @ [line] @ drop e (splitlines text)"
proof -
  let ?K = "keep_acc [] text"
  let ?a = "concat (take b ?K)" and ?c = "concat (drop e ?K)"
  have a: "lines_acc [] ?a = take b (lines_acc [] text)" and c: "lines_acc [] ?c = drop e (lines_acc [] text)"
    by (simp_all add: take_keep_acc drop_keep_acc)
  have mid: "lines_acc [] ((line @ nl) @ ?c) = line # lines_acc [] ?c"
    using nl lines_acc_plain [OF line(1), of "[]" "nl @ ?c"] by auto
  obtain x xs where x: "line = x # xs" using line(2) by (cases line) auto
  then have "x \<noteq> CHR 0x0A" using line(1) by auto
  then have "line_boundary ?a ((line @ nl) @ ?c)" using b keep_line_end [of "b - 1" "[]" "text"] x
    by (cases b) (auto simp: line_boundary_def length_keep_acc splitlines_def)
  then have "lines_acc [] (?a @ (line @ nl) @ ?c) = lines_acc [] ?a @ lines_acc [] ((line @ nl) @ ?c)"
    using lines_acc_append by (metis append_Nil lines_acc.simps(1))
  then show ?thesis using a c mid by (simp add: splitlines_def splitlines_keep_def)
qed


section \<open>Runs of the parser\<close>

text \<open>The state in front of line \<open>length ls\<close>.\<close>
definition parse_upto :: "string \<Rightarrow> nat \<Rightarrow> string list \<Rightarrow> parser_state \<Rightarrow> parser_state" where
  "parse_upto path i ls s = fold (\<lambda>(j, line). parse_line path j line) (zip [i..<i + length ls] ls) s"

lemma parse_upto_Nil [simp]: "parse_upto path i [] s = s"
  by (simp add: parse_upto_def)

lemma parse_upto_Cons [simp]: "parse_upto path i (l # ls) s = parse_upto path (Suc i) ls (parse_line path i l s)"
  by (simp add: parse_upto_def upt_conv_Cons del: upt_Suc)

lemma parse_lines_append: "parse_lines path i (xs @ ys) s = parse_lines path (i + length xs) ys (parse_upto path i xs s)"
  by (induction xs arbitrary: i s) simp_all

lemma parse_upto_append: "parse_upto path i (xs @ ys) s = parse_upto path (i + length xs) ys (parse_upto path i xs s)"
  by (induction xs arbitrary: i s) simp_all

text \<open>A line that stays inside an open stanza.\<close>
definition inner_line :: "string \<Rightarrow> bool" where
  "inner_line l \<longleftrightarrow> IFACE_RE l = None \<and> (OPTION_RE l \<noteq> None \<or> (COMMENT_OR_BLANK_RE l \<and> strip l \<noteq> []))"

definition absorb :: "string \<Rightarrow> stanza \<Rightarrow> stanza" where
  "absorb l st = (case OPTION_RE l of
     Some (k, v) \<Rightarrow> st\<lparr>options := AList.update k v (options st), st_lines := st_lines st @ [l]\<rparr> | None \<Rightarrow> st)"

lemma absorb_fields [simp]:
  "st_name (absorb l st) = st_name st" "family (absorb l st) = family st" "meth (absorb l st) = meth st"
  "source_path (absorb l st) = source_path st" "line_start (absorb l st) = line_start st"
  by (auto simp: absorb_def split: option.splits)

lemma parse_inner: "inner_line l \<Longrightarrow> parse_line path i l (Some st, cfg, inc) = (Some (absorb l st), cfg, inc)"
  by (auto simp: inner_line_def parse_line_def absorb_def split: option.splits)

lemma words_acc_spaces: "list_all py_space x \<Longrightarrow> words_acc [] x = []"
  by (induction x) auto

lemma blank_split: "strip l = [] \<Longrightarrow> split_ws l = []"
proof -
  assume "strip l = []"
  then have "\<forall>c \<in> set (lstrip l). py_space c" by (simp add: strip_def rstrip_def)
  then have "lstrip l = []" unfolding lstrip_def by (metis hd_dropWhile list.set_sel(1))
  then have "list_all py_space l" by (simp add: lstrip_def list_all_iff)
  then show ?thesis by (simp add: split_ws_def words_acc_spaces)
qed

text \<open>Every other line closes the open stanza and is then read as if none was open.\<close>
lemma parse_closer:
  "\<not> inner_line l \<Longrightarrow> parse_line path i l (Some st, cfg, inc) = parse_line path i l (None, close_current i (Some st) cfg, inc)"
proof (cases "IFACE_RE l")
  case None
  assume n: "\<not> inner_line l"
  then have o: "OPTION_RE l = None" using None by (cases "OPTION_RE l") (auto simp: inner_line_def)
  show ?thesis
  proof (cases "COMMENT_OR_BLANK_RE l")
    case True
    then have blank: "strip l = []" using n None by (simp add: inner_line_def)
    then have "top_line path i l (c, inc) = (c, inc)" for c
      using True by (simp add: top_line_def blank_split SOURCE_RE_def SOURCE_DIR_RE_def word_and_one_def)
    then show ?thesis using None o True blank by (simp add: parse_line_def)
  next
    case False
    then show ?thesis using None o by (simp add: parse_line_def)
  qed
next
  case (Some m)
  then show ?thesis by (simp add: parse_line_def close_current_def)
qed

lemma parse_upto_inner:
  "list_all inner_line ls \<Longrightarrow> parse_upto path i ls (Some st, cfg, inc) = (Some (fold absorb ls st), cfg, inc)"
  by (induction ls arbitrary: i st) (simp_all add: parse_inner)

lemma fold_absorb_fields [simp]:
  "st_name (fold absorb ls st) = st_name st" "family (fold absorb ls st) = family st" "meth (fold absorb ls st) = meth st"
  "source_path (fold absorb ls st) = source_path st" "line_start (fold absorb ls st) = line_start st"
  by (induction ls arbitrary: st) simp_all


section \<open>Where a stanza is in its file\<close>

definition open_block :: "string list \<Rightarrow> nat \<Rightarrow> stanza \<Rightarrow> bool" where
  "open_block ls i st \<longleftrightarrow> line_start st < i \<and> i \<le> length ls
     \<and> IFACE_RE (ls ! line_start st) = Some (st_name st, family st, meth st)
     \<and> (\<forall>j. line_start st < j \<and> j < i \<longrightarrow> inner_line (ls ! j))"

definition closed_block :: "string list \<Rightarrow> stanza \<Rightarrow> bool" where
  "closed_block ls st \<longleftrightarrow> open_block ls (line_end st) st \<and> (line_end st < length ls \<longrightarrow> \<not> inner_line (ls ! line_end st))"

definition placed :: "string set \<Rightarrow> (string \<Rightarrow> string list) \<Rightarrow> parsed \<Rightarrow> bool" where
  "placed ps lines_of cfg \<longleftrightarrow> distinct (map fst (stanzas cfg))
     \<and> (\<forall>(n, st) \<in> set (stanzas cfg). st_name st = n \<and> source_path st \<in> ps \<and> closed_block (lines_of (source_path st)) st)"

definition placed_state :: "string set \<Rightarrow> (string \<Rightarrow> string list) \<Rightarrow> string \<Rightarrow> nat \<Rightarrow> parser_state \<Rightarrow> bool" where
  "placed_state ps lines_of path i = (\<lambda>(cur, cfg, inc). placed ps lines_of cfg \<and> path \<in> ps
     \<and> (\<forall>st. cur = Some st \<longrightarrow> source_path st = path \<and> open_block (lines_of path) i st))"

lemma placed_close:
  assumes "placed_state ps lines_of path i (cur, cfg, inc)"
    and "i < length (lines_of path) \<longrightarrow> \<not> inner_line (lines_of path ! i)"
  shows "placed ps lines_of (close_current i cur cfg)"
proof (cases cur)
  case None
  with assms show ?thesis by (simp add: placed_state_def close_current_def)
next
  case (Some st)
  have "closed_block (lines_of path) (st\<lparr>line_end := i\<rparr>)"
    using assms Some by (simp add: placed_state_def closed_block_def open_block_def)
  then show ?thesis using assms(1) Some
    by (auto simp: placed_state_def placed_def close_current_def Let_def map_of_eq_None_iff)
qed

lemma placed_top: "placed ps lines_of cfg \<Longrightarrow> placed ps lines_of (fst (top_line path i l (cfg, inc)))"
  by (auto simp: placed_def top_line_def split: option.splits)

lemma open_block_absorb: "open_block ls i st \<Longrightarrow> i < length ls \<Longrightarrow> inner_line (ls ! i) \<Longrightarrow> open_block ls (Suc i) (absorb l st)"
  by (auto simp: open_block_def less_Suc_eq)

lemma placed_outside:
  assumes "placed ps lines_of cfg" "i < length (lines_of path)" "path \<in> ps"
  shows "placed_state ps lines_of path (Suc i) (parse_line path i (lines_of path ! i) (None, cfg, inc))"
proof (cases "IFACE_RE (lines_of path ! i)")
  case None
  then show ?thesis using assms(3) placed_top [OF assms(1), of path i "lines_of path ! i" inc]
    by (cases "top_line path i (lines_of path ! i) (cfg, inc)") (simp add: parse_line_def placed_state_def)
next
  case (Some m)
  then show ?thesis using assms
    by (cases m) (auto simp: parse_line_def placed_state_def close_current_def open_stanza_def open_block_def)
qed

lemma placed_step:
  assumes "placed_state ps lines_of path i s" "i < length (lines_of path)"
  shows "placed_state ps lines_of path (Suc i) (parse_line path i (lines_of path ! i) s)"
proof -
  obtain cur cfg inc where s: "s = (cur, cfg, inc)" by (cases s)
  show ?thesis
  proof (cases cur)
    case None
    then show ?thesis using placed_outside assms s by (simp add: placed_state_def)
  next
    case (Some st)
    show ?thesis
    proof (cases "inner_line (lines_of path ! i)")
      case True
      then show ?thesis using assms s Some by (simp add: parse_inner placed_state_def open_block_absorb)
    next
      case False
      have p: "placed_state ps lines_of path i (cur, cfg, inc)" using assms(1) s by simp
      then have "placed ps lines_of (close_current i cur cfg)" "path \<in> ps"
        using False placed_close [OF p] by (simp_all add: placed_state_def)
      then show ?thesis unfolding s Some parse_closer [OF False] using placed_outside assms(2) by blast
    qed
  qed
qed

lemma placed_lines:
  "placed_state ps lines_of path i s \<Longrightarrow> i \<le> length (lines_of path) \<Longrightarrow>
   placed ps lines_of (fst (snd (parse_lines path i (drop i (lines_of path)) s)))"
proof (induction "drop i (lines_of path)" arbitrary: i s)
  case Nil
  then show ?case using placed_close by (cases s) auto
next
  case (Cons l ls)
  then have i: "i < length (lines_of path)" by (metis drop_all linorder_not_less list.distinct(1))
  then have d: "drop i (lines_of path) = lines_of path ! i # drop (Suc i) (lines_of path)" by (simp add: Cons_nth_drop_Suc)
  with Cons(2) have "ls = drop (Suc i) (lines_of path)" by simp
  from Cons(1) [OF this placed_step [OF Cons(3) i]] i show ?case by (simp add: d)
qed

lemma placed_text:
  assumes "placed ps lines_of cfg" "lines_of path = splitlines t" "path \<in> ps"
  shows "placed ps lines_of (fst (parse_text path t cfg))"
  using placed_lines [of ps lines_of path 0 "(None, cfg, [])"] assms
  by (simp add: parse_text_def placed_state_def)

definition file_lines :: "(string \<times> string) list \<Rightarrow> string \<Rightarrow> string list" where
  "file_lines fs path = splitlines (the (map_of fs path))"

lemma placed_fold:
  "placed ps lines_of cfg \<Longrightarrow> (\<And>path t. (path, t) \<in> set fs \<Longrightarrow> lines_of path = splitlines t \<and> path \<in> ps) \<Longrightarrow>
   placed ps lines_of (fold (\<lambda>(path, t) cfg. fst (parse_text path t cfg)) fs cfg)"
  by (induction fs arbitrary: cfg) (auto intro!: placed_text)

lemma parsed_placed:
  assumes "distinct (map fst fs)"
  shows "placed (fst ` set fs) (file_lines fs) (parse_files fs)"
  unfolding parse_files_def
proof (rule placed_fold)
  show "placed (fst ` set fs) (file_lines fs) (empty_parsed fs)" by (simp add: placed_def empty_parsed_def)
next
  fix path t
  assume "(path, t) \<in> set fs"
  with assms have "map_of fs path = Some t" by simp
  with \<open>(path, t) \<in> set fs\<close> show "file_lines fs path = splitlines t \<and> path \<in> fst ` set fs"
    by (force simp: file_lines_def)
qed


section \<open>Configurations that differ in one stanza\<close>

type_synonym decl = "string \<times> string \<times> (string \<times> string) list"

definition DHCP :: decl where
  "DHCP = (''inet'', ''dhcp'', [])"

definition declares :: "stanza \<Rightarrow> decl" where
  "declares st = (family st, meth st, options st)"

text \<open>What a stanza declares, one name being taken to declare DHCP.\<close>
definition shape :: "string \<Rightarrow> stanza \<Rightarrow> string \<times> decl" where
  "shape t st = (st_name st, if st_name st = t then DHCP else declares st)"

type_synonym config_view =
  "(string \<times> string \<times> decl) list \<times> string list \<times> string list \<times> (string \<times> string) list
   \<times> (string \<times> string) list \<times> (string \<times> string) list"

definition view :: "string \<Rightarrow> parsed \<Rightarrow> config_view" where
  "view t cfg = (map (\<lambda>(n, st). (n, shape t st)) (stanzas cfg), order cfg, duplicate_names cfg,
     map (\<lambda>(p, i, l). (p, l)) (unparsed_lines cfg), read_errors cfg, map (\<lambda>(p, i, g). (p, g)) (glob_source_targets cfg))"

definition same_view :: "string \<Rightarrow> parser_state \<Rightarrow> parser_state \<Rightarrow> bool" where
  "same_view t = (\<lambda>(cur1, cfg1, inc1) (cur2, cfg2, inc2).
     map_option (shape t) cur1 = map_option (shape t) cur2 \<and> view t cfg1 = view t cfg2 \<and> inc1 = inc2)"

lemma view_keys: "view t cfg1 = view t cfg2 \<Longrightarrow> map fst (stanzas cfg1) = map fst (stanzas cfg2)"
proof -
  assume "view t cfg1 = view t cfg2"
  then have "map fst (map (\<lambda>(n, st). (n, shape t st)) (stanzas cfg1)) = map fst (map (\<lambda>(n, st). (n, shape t st)) (stanzas cfg2))"
    by (simp add: view_def)
  then show ?thesis by (simp add: case_prod_unfold comp_def)
qed

lemma shape_name: "shape t st1 = shape t st2 \<Longrightarrow> st_name st1 = st_name st2"
  by (simp add: shape_def)

lemma shape_end [simp]: "shape t (st\<lparr>line_end := i\<rparr>) = shape t st"
  by (simp add: shape_def declares_def)

lemma view_close:
  assumes "map_option (shape t) cur1 = map_option (shape t) cur2" "view t cfg1 = view t cfg2"
  shows "view t (close_current i cur1 cfg1) = view t (close_current j cur2 cfg2)"
proof (cases cur1)
  case None
  with assms show ?thesis by (simp add: close_current_def)
next
  case (Some st1)
  with assms obtain st2 where st2: "cur2 = Some st2" and sh: "shape t st1 = shape t st2"
    by (cases cur2) auto
  have k: "map fst (stanzas cfg1) = map fst (stanzas cfg2)" using view_keys [OF assms(2)] .
  have "map_of (stanzas cfg1) n = None \<longleftrightarrow> map_of (stanzas cfg2) n = None" for n
    unfolding map_of_eq_None_iff using k by (metis list.set_map)
  then show ?thesis using assms(2) Some st2 sh shape_name [OF sh]
    by (auto simp: close_current_def view_def Let_def)
qed

lemma view_top:
  assumes "view t cfg1 = view t cfg2"
  shows "view t (fst (top_line path i l (cfg1, inc))) = view t (fst (top_line path j l (cfg2, inc)))"
    and "snd (top_line path i l (cfg1, inc)) = snd (top_line path j l (cfg2, inc))"
  using assms by (auto simp: top_line_def view_def split: option.splits)

lemma shape_absorb: "shape t st1 = shape t st2 \<Longrightarrow> shape t (absorb l st1) = shape t (absorb l st2)"
  by (auto simp: shape_def declares_def absorb_def split: option.splits if_splits)

lemma view_outside:
  assumes "view t cfg1 = view t cfg2"
  shows "same_view t (parse_line path i l (None, cfg1, inc)) (parse_line path j l (None, cfg2, inc))"
proof (cases "IFACE_RE l")
  case None
  then show ?thesis using view_top [OF assms, of path i l inc j]
    by (auto simp: parse_line_def same_view_def split: prod.splits)
next
  case (Some m)
  then show ?thesis using assms
    by (cases m) (simp add: parse_line_def same_view_def close_current_def open_stanza_def shape_def declares_def)
qed

lemma view_step:
  assumes "same_view t s1 s2"
  shows "same_view t (parse_line path i l s1) (parse_line path j l s2)"
proof -
  obtain cur1 cfg1 inc cur2 cfg2 where s: "s1 = (cur1, cfg1, inc)" "s2 = (cur2, cfg2, inc)"
    using assms by (cases s1; cases s2) (auto simp: same_view_def)
  show ?thesis
  proof (cases cur1)
    case None
    then show ?thesis using view_outside assms s by (auto simp: same_view_def)
  next
    case (Some st1)
    then obtain st2 where st2: "cur2 = Some st2" using assms s by (cases cur2) (auto simp: same_view_def)
    show ?thesis
    proof (cases "inner_line l")
      case True
      then show ?thesis using assms s Some st2 by (auto simp: parse_inner same_view_def intro: shape_absorb)
    next
      case False
      have "view t (close_current i cur1 cfg1) = view t (close_current j cur2 cfg2)"
        using view_close assms s by (auto simp: same_view_def)
      then show ?thesis using parse_closer [OF False] view_outside s Some st2 by simp
    qed
  qed
qed

lemma view_lines:
  "same_view t s1 s2 \<Longrightarrow> same_view t (parse_lines path i ls s1) (parse_lines path j ls s2)"
proof (induction ls arbitrary: i j s1 s2)
  case Nil
  then show ?case using view_close by (cases s1; cases s2) (auto simp: same_view_def)
next
  case (Cons l ls)
  then show ?case using view_step by simp
qed

lemma view_text: "view t cfg1 = view t cfg2 \<Longrightarrow> view t (fst (parse_text path x cfg1)) = view t (fst (parse_text path x cfg2))"
  using view_lines [of t "(None, cfg1, [])" "(None, cfg2, [])" path 0 "splitlines x" 0]
  by (auto simp: same_view_def parse_text_def split: prod.splits)

lemma view_fold:
  "view t cfg1 = view t cfg2 \<Longrightarrow>
   view t (fold (\<lambda>(path, x) cfg. fst (parse_text path x cfg)) fs cfg1) =
   view t (fold (\<lambda>(path, x) cfg. fst (parse_text path x cfg)) fs cfg2)"
proof (induction fs arbitrary: cfg1 cfg2)
  case Nil
  then show ?case by simp
next
  case (Cons f fs)
  obtain path x where f: "f = (path, x)" by (cases f)
  from Cons(1) [OF view_text [OF Cons(2)]] show ?case by (simp add: f)
qed

lemma same_viewD: "same_view t s1 s2 \<Longrightarrow> view t (fst (snd s1)) = view t (fst (snd s2))"
  by (auto simp: same_view_def)

section \<open>What is never lost while parsing\<close>

text \<open>A first declaration of a name stays, and so does the record of a second one.\<close>

definition grows :: "parsed \<Rightarrow> parsed \<Rightarrow> bool" where
  "grows cfg cfg' \<longleftrightarrow> set (duplicate_names cfg) \<subseteq> set (duplicate_names cfg')
     \<and> map_of (stanzas cfg) \<subseteq>\<^sub>m map_of (stanzas cfg')"

lemma grows_refl [simp]: "grows cfg cfg"
  by (simp add: grows_def)

lemma grows_trans [trans]: "grows a b \<Longrightarrow> grows b c \<Longrightarrow> grows a c"
  unfolding grows_def by (meson map_le_trans subset_trans)

lemma map_le_snoc: "map_of xs \<subseteq>\<^sub>m map_of (xs @ [(n, v)])"
  unfolding map_of_append by (rule map_le_map_add)

lemma grows_close: "grows cfg (close_current i cur cfg)"
proof (cases cur)
  case None
  then show ?thesis by (simp add: close_current_def)
next
  case (Some st)
  show ?thesis
  proof (cases "map_of (stanzas cfg) (st_name st)")
    case None
    then show ?thesis using map_le_snoc Some by (simp add: close_current_def grows_def Let_def)
  next
    case (Some s)
    then show ?thesis using \<open>cur = Some st\<close> by (auto simp: close_current_def grows_def Let_def)
  qed
qed

lemma grows_top: "grows cfg (fst (top_line path i l (cfg, inc)))"
  by (auto simp: grows_def top_line_def split: option.splits)

lemma grows_outside: "grows cfg (fst (snd (parse_line path i l (None, cfg, inc))))"
  using grows_top [of cfg path i l inc] by (auto simp: parse_line_def close_current_def split: option.splits)

lemma grows_line: "grows cfg (fst (snd (parse_line path i l (cur, cfg, inc))))"
proof (cases cur)
  case None
  then show ?thesis by (simp add: grows_outside)
next
  case (Some st)
  show ?thesis
  proof (cases "inner_line l")
    case True
    then show ?thesis using Some by (simp add: parse_inner)
  next
    case False
    show ?thesis
      unfolding Some parse_closer [OF False] by (rule grows_trans [OF grows_close grows_outside])
  qed
qed

lemma grows_lines: "grows (fst (snd s)) (fst (snd (parse_lines path i ls s)))"
proof (induction ls arbitrary: i s)
  case Nil
  then show ?case by (cases s) (simp add: grows_close)
next
  case (Cons l ls)
  obtain cur cfg inc where s: "s = (cur, cfg, inc)" by (cases s)
  have "grows cfg (fst (snd (parse_line path i l s)))" unfolding s by (rule grows_line)
  from grows_trans [OF this Cons] show ?case using s by simp
qed

lemma grows_fold: "grows cfg (fold (\<lambda>(path, x) cfg. fst (parse_text path x cfg)) fs cfg)"
proof (induction fs arbitrary: cfg)
  case Nil
  then show ?case by simp
next
  case (Cons f fs)
  obtain path x where f: "f = (path, x)" by (cases f)
  have "grows cfg (fst (parse_text path x cfg))"
    using grows_lines [of "(None, cfg, [])"] by (simp add: parse_text_def)
  from grows_trans [OF this Cons] show ?case using f by simp
qed


section \<open>Replacing a stanza\<close>

lemma words_acc_word_only: "list_all (\<lambda>c. \<not> py_space c) w \<Longrightarrow> words_acc cur (w @ s) = words_acc (cur @ w) s"
  by (induction w arbitrary: cur) auto

lemma words_acc_words: "w \<in> set (words_acc cur s) \<Longrightarrow> list_all (\<lambda>c. \<not> py_space c) cur \<Longrightarrow> list_all (\<lambda>c. \<not> py_space c) w \<and> w \<noteq> []"
  by (induction cur s rule: words_acc.induct) (auto split: if_splits)

lemma iface_name_word: "IFACE_RE line = Some (a, b, c) \<Longrightarrow> list_all (\<lambda>c. \<not> py_space c) a \<and> a \<noteq> []"
proof -
  assume "IFACE_RE line = Some (a, b, c)"
  then have "a \<in> set (split_ws line)" by (auto simp: IFACE_RE_def split: list.splits if_splits)
  then show ?thesis by (auto simp: split_ws_def dest: words_acc_words)
qed

lemma space_breaks: "\<not> py_space c \<Longrightarrow> \<not> line_break c"
  by (auto simp: py_space_def line_break_def)

definition dhcp_line :: "string \<Rightarrow> string" where
  "dhcp_line name = ''iface '' @ name @ '' inet dhcp''"

lemma dhcp_line_matches:
  assumes "list_all (\<lambda>c. \<not> py_space c) name" "name \<noteq> []"
  shows "IFACE_RE (dhcp_line name) = Some (name, ''inet'', ''dhcp'')"
proof -
  have sp: "\<not> py_space CHR ''i''" "\<not> py_space CHR ''f''" "\<not> py_space CHR ''a''" "\<not> py_space CHR ''c''" "\<not> py_space CHR ''e''"
    "\<not> py_space CHR ''n''" "\<not> py_space CHR ''t''" "\<not> py_space CHR ''d''" "\<not> py_space CHR ''h''" "\<not> py_space CHR ''p''" "py_space CHR '' ''"
    by (simp_all add: py_space_def)
  have "split_ws (dhcp_line name) = [''iface'', name, ''inet'', ''dhcp'']"
    using assms words_acc_word_only [of name "[]"] by (simp add: split_ws_def dhcp_line_def sp)
  then show ?thesis by (simp add: IFACE_RE_def)
qed

lemma dhcp_line_unbroken: "list_all (\<lambda>c. \<not> py_space c) name \<Longrightarrow> unbroken (dhcp_line name)"
  by (auto simp: dhcp_line_def list_all_iff line_break_def py_space_def)

lemma iface_not_inner: "IFACE_RE l \<noteq> None \<Longrightarrow> \<not> inner_line l"
  by (simp add: inner_line_def)

lemma parse_iface: "IFACE_RE l = Some m \<Longrightarrow>
  parse_line path i l (cur, cfg, inc) = (Some (open_stanza path i l m), close_current i cur cfg, inc)"
  by (simp add: parse_line_def)

text \<open>After the end of a block, one stanza or another with the same view makes no difference.\<close>

lemma block_tail:
  assumes "C = [] \<or> \<not> inner_line (hd C)" and "st_name st1 = t" "st_name st2 = t"
  shows "same_view t (parse_lines path i C (Some st1, cfg, inc)) (parse_lines path j C (Some st2, cfg, inc))"
proof (rule view_lines)
  show "same_view t (Some st1, cfg, inc) (Some st2, cfg, inc)"
    using assms by (simp add: same_view_def shape_def)
qed

lemma block_added:
  assumes "C = [] \<or> \<not> inner_line (hd C)" and new: "map_of (stanzas cfg) (st_name st) = None"
  shows "\<exists>e. map_of (stanzas (fst (snd (parse_lines path i C (Some st, cfg, inc))))) (st_name st) = Some (st\<lparr>line_end := e\<rparr>)"
proof (cases C)
  case Nil
  then show ?thesis using new by (auto simp: close_current_def Let_def map_add_def)
next
  case (Cons l ls)
  let ?c = "close_current i (Some st) cfg"
  have a: "map_of (stanzas ?c) (st_name st) = Some (st\<lparr>line_end := i\<rparr>)"
    using new by (auto simp: close_current_def Let_def map_add_def)
  have "grows ?c (fst (snd (parse_line path i l (Some st, cfg, inc))))"
    using parse_closer assms(1) Cons grows_outside by (metis list.sel(1) list.distinct(1))
  from grows_trans [OF this grows_lines [of _ path "Suc i" ls]]
  have "grows ?c (fst (snd (parse_lines path i C (Some st, cfg, inc))))" using Cons by simp
  then show ?thesis using a unfolding grows_def map_le_def by (metis domI)
qed

lemma block_duplicate:
  assumes "C = [] \<or> \<not> inner_line (hd C)" and old: "map_of (stanzas cfg) (st_name st) \<noteq> None"
  shows "st_name st \<in> set (duplicate_names (fst (snd (parse_lines path i C (Some st, cfg, inc)))))"
proof (cases C)
  case Nil
  then show ?thesis using old by (auto simp: close_current_def Let_def)
next
  case (Cons l ls)
  let ?c = "close_current i (Some st) cfg"
  have a: "st_name st \<in> set (duplicate_names ?c)"
    using old by (auto simp: close_current_def Let_def)
  have "grows ?c (fst (snd (parse_line path i l (Some st, cfg, inc))))"
    using parse_closer assms(1) Cons grows_outside by (metis list.sel(1) list.distinct(1))
  from grows_trans [OF this grows_lines [of _ path "Suc i" ls]]
  have "grows ?c (fst (snd (parse_lines path i C (Some st, cfg, inc))))" using Cons by simp
  then show ?thesis using a unfolding grows_def by blast
qed


text \<open>
  The lines of a file around a closed block, the file with the block replaced, and what the
  two parse to, whatever was parsed before and is parsed after.
\<close>

lemma block_split:
  assumes "closed_block ls st"
  shows "ls = take (line_start st) ls @ ls ! line_start st # drop (Suc (line_start st)) (take (line_end st) ls) @ drop (line_end st) ls"
    and "list_all inner_line (drop (Suc (line_start st)) (take (line_end st) ls))"
    and "drop (line_end st) ls = [] \<or> \<not> inner_line (hd (drop (line_end st) ls))"
proof -
  have b: "line_start st < line_end st" "line_end st \<le> length ls"
    "\<And>j. line_start st < j \<Longrightarrow> j < line_end st \<Longrightarrow> inner_line (ls ! j)"
    using assms by (auto simp: closed_block_def open_block_def)
  let ?t = "take (line_end st) ls"
  have "?t = take (line_start st) ?t @ ?t ! line_start st # drop (Suc (line_start st)) ?t"
    using b by (intro id_take_nth_drop) simp
  then have "?t = take (line_start st) ls @ ls ! line_start st # drop (Suc (line_start st)) ?t"
    using b(1) by (simp add: min_absorb1)
  then show "ls = take (line_start st) ls @ ls ! line_start st # drop (Suc (line_start st)) ?t @ drop (line_end st) ls"
    by (metis append_Cons append_assoc append_take_drop_id)
  show "list_all inner_line (drop (Suc (line_start st)) ?t)"
    unfolding list_all_length using b by auto
  show "drop (line_end st) ls = [] \<or> \<not> inner_line (hd (drop (line_end st) ls))"
    using assms by (cases "line_end st < length ls") (auto simp: closed_block_def hd_drop_conv_nth)
qed

lemma replaced_block:
  assumes b: "closed_block (splitlines x) st"
    and y: "splitlines y = take (line_start st) (splitlines x) @ [dhcp_line (st_name st)] @ drop (line_end st) (splitlines x)"
    and no_dup: "st_name st \<notin> set (duplicate_names (fst (parse_text path x cfg)))"
  shows "view (st_name st) (fst (parse_text path y cfg)) = view (st_name st) (fst (parse_text path x cfg))"
    and "\<exists>new. map_of (stanzas (fst (parse_text path y cfg))) (st_name st) = Some new \<and> declares new = DHCP"
proof -
  let ?L = "splitlines x" and ?t = "st_name st"
  define A where "A = take (line_start st) ?L"
  define B where "B = drop (Suc (line_start st)) (take (line_end st) ?L)"
  define C where "C = drop (line_end st) ?L"
  have L: "?L = A @ ?L ! line_start st # B @ C" and B: "list_all inner_line B" and C: "C = [] \<or> \<not> inner_line (hd C)"
    unfolding A_def B_def C_def by (rule block_split [OF b])+
  have head: "IFACE_RE (?L ! line_start st) = Some (?t, family st, meth st)"
    using b by (simp add: closed_block_def open_block_def)
  have new: "IFACE_RE (dhcp_line ?t) = Some (?t, ''inet'', ''dhcp'')"
    using iface_name_word [OF head] dhcp_line_matches by blast
  obtain cur c1 inc where pre: "parse_upto path 0 A (None, cfg, []) = (cur, c1, inc)" by (metis prod_cases3)
  let ?n = "length A"
  let ?c2 = "close_current ?n cur c1"
  define s1 where "s1 = fold absorb B (open_stanza path ?n (?L ! line_start st) (?t, family st, meth st))"
  define s2 where "s2 = open_stanza path ?n (dhcp_line ?t) (?t, ''inet'', ''dhcp'')"
  have px: "fst (parse_text path x cfg) = fst (snd (parse_lines path (Suc ?n + length B) C (Some s1, ?c2, inc)))"
    unfolding parse_text_def by (subst L)
      (simp add: parse_lines_append pre parse_iface [OF head] parse_upto_inner [OF B] s1_def)
  have py: "fst (parse_text path y cfg) = fst (snd (parse_lines path (Suc ?n) C (Some s2, ?c2, inc)))"
    unfolding parse_text_def y A_def [symmetric] C_def [symmetric]
    by (simp add: parse_lines_append pre parse_iface [OF new] s2_def)
  have names: "st_name s1 = ?t" "st_name s2 = ?t" by (simp_all add: s1_def s2_def open_stanza_def)
  have fresh: "map_of (stanzas ?c2) ?t = None"
    using block_duplicate [OF C, of ?c2 s1] no_dup names px by (metis (no_types))
  show "view ?t (fst (parse_text path y cfg)) = view ?t (fst (parse_text path x cfg))"
    unfolding px py by (rule same_viewD [OF block_tail [OF C names(2,1)]])
  obtain e where "map_of (stanzas (fst (parse_text path y cfg))) ?t = Some (s2\<lparr>line_end := e\<rparr>)"
    using block_added [OF C, of ?c2 s2 path "Suc ?n" inc] fresh unfolding py names(2) by blast
  then show "\<exists>new. map_of (stanzas (fst (parse_text path y cfg))) ?t = Some new \<and> declares new = DHCP"
    by (auto simp: s2_def open_stanza_def declares_def DHCP_def)
qed


section \<open>The rewritten configuration\<close>

definition parse_pair :: "string \<times> string \<Rightarrow> parsed \<Rightarrow> parsed" where
  "parse_pair = (\<lambda>(path, x) cfg. fst (parse_text path x cfg))"

lemma view_duplicates: "view t cfg1 = view t cfg2 \<Longrightarrow> duplicate_names cfg1 = duplicate_names cfg2"
  by (simp add: view_def)

lemma view_confident: "view t cfg1 = view t cfg2 \<Longrightarrow> confidently_parsed cfg1 = confidently_parsed cfg2"
  by (auto simp: view_def confidently_parsed_def)

lemma parse_files_split:
  "parse_files (pre @ (path, x) # post) =
     fold parse_pair post (fst (parse_text path x (fold parse_pair pre (empty_parsed (pre @ (path, x) # post)))))"
  by (simp add: parse_files_def parse_pair_def)

lemma update_middle:
  "path \<notin> fst ` set pre \<Longrightarrow> AList.update path y (pre @ (path, x) # post) = pre @ (path, y) # post"
  by (induction pre) auto

lemma view_files: "view t (fold parse_pair fs (empty_parsed a)) = view t (fold parse_pair fs (empty_parsed b))"
  unfolding parse_pair_def by (rule view_fold) (simp add: view_def empty_parsed_def)

lemma declares_shape:
  assumes "view t cfg1 = view t cfg2" and "map_of (stanzas cfg2) t = Some st" "declares st = DHCP"
    and "\<forall>(n, st) \<in> set (stanzas cfg1). st_name st = n" "\<forall>(n, st) \<in> set (stanzas cfg2). st_name st = n"
    and "distinct (map fst (stanzas cfg2))"
  shows "map (\<lambda>(n, st). (n, declares st)) (stanzas cfg2) =
    map (\<lambda>(n, st). (n, if n = t then DHCP else declares st)) (stanzas cfg1)"
proof -
  have e: "map (\<lambda>(n, st). (n, shape t st)) (stanzas cfg1) = map (\<lambda>(n, st). (n, shape t st)) (stanzas cfg2)"
    using assms(1) by (simp add: view_def)
  have d: "declares s = DHCP" if "(t, s) \<in> set (stanzas cfg2)" for s
    using that assms(2,3,6) by simp
  have "map (\<lambda>(n, st). (n, declares st)) (stanzas cfg2) =
      map (\<lambda>(n, _, d). (n, d)) (map (\<lambda>(n, st). (n, shape t st)) (stanzas cfg2))"
  proof -
    have "(n, declares s) = (\<lambda>(n, _, d). (n, d)) (n, shape t s)" if "(n, s) \<in> set (stanzas cfg2)" for n s
      using that assms(5) d by (auto simp: shape_def)
    then show ?thesis by auto
  qed
  also have "\<dots> = map (\<lambda>(n, st). (n, if n = t then DHCP else declares st)) (stanzas cfg1)"
    using assms(4) unfolding e [symmetric] by (auto simp: shape_def)
  finally show ?thesis .
qed

definition declared :: "parsed \<Rightarrow> (string \<times> decl) list" where
  "declared cfg = map (\<lambda>(n, st). (n, declares st)) (stanzas cfg)"

lemma rewriteD:
  assumes "rewrite_stanza_to_dhcp cfg t = Inr fs"
  shows "confidently_parsed cfg" and "\<exists>st. map_of (stanzas cfg) t = Some st \<and> family st = ''inet'' \<and> meth st = ''static''
    \<and> fs = AList.update (source_path st)
        (let ls = splitlines_keep (the (map_of (files cfg) (source_path st)))
         in concat (take (line_start st) ls) @ (dhcp_line (st_name st) @ line_ending ls (line_start st)) @ concat (drop (line_end st) ls))
        (files cfg)"
  using assms by (auto simp: rewrite_stanza_to_dhcp_def dhcp_line_def Let_def split: if_splits option.splits)

lemma parse_files_files: "files (fold parse_pair fs cfg) = files cfg"
proof -
  have top: "files (fst (top_line path i l (c, inc))) = files c" for path i l c inc
    by (auto simp: top_line_def split: option.splits)
  have close: "files (close_current i cur c) = files c" for i cur c
    by (auto simp: close_current_def Let_def split: option.splits)
  have line: "files (fst (snd (parse_line path i l s))) = files (fst (snd s))" for path i l s
    by (cases s) (auto simp: parse_line_def top close split: option.splits)
  have lines: "files (fst (snd (parse_lines path i ls s))) = files (fst (snd s))" for path i ls s
    by (induction ls arbitrary: i s) (auto simp: line close split: prod.splits)
  have "files (parse_pair f c) = files c" for f c
    by (cases f) (simp add: parse_pair_def parse_text_def lines)
  then show ?thesis by (induction fs arbitrary: cfg) auto
qed


lemma files_of_parse: "files (parse_files fs) = fs"
  using parse_files_files [of fs "empty_parsed fs"] by (simp add: parse_files_def parse_pair_def empty_parsed_def)

lemma placed_names: "placed ps ls cfg \<Longrightarrow> \<forall>(n, st) \<in> set (stanzas cfg). st_name st = n"
  by (auto simp: placed_def)

text \<open>The file the stanza is in, and its lines after the rewrite.\<close>

lemma rewrite_locates:
  assumes d: "distinct (map fst fs)" and r: "rewrite_stanza_to_dhcp (parse_files fs) t = Inr fs'"
  shows "\<exists>st pre x post y. fs = pre @ (source_path st, x) # post \<and> fs' = pre @ (source_path st, y) # post
    \<and> map_of (stanzas (parse_files fs)) t = Some st \<and> st_name st = t \<and> closed_block (splitlines x) st
    \<and> splitlines y = take (line_start st) (splitlines x) @ [dhcp_line t] @ drop (line_end st) (splitlines x)"
proof -
  obtain st where st: "map_of (stanzas (parse_files fs)) t = Some st"
    and fs': "fs' = AList.update (source_path st)
        (let ls = splitlines_keep (the (map_of fs (source_path st)))
         in concat (take (line_start st) ls) @ (dhcp_line (st_name st) @ line_ending ls (line_start st)) @ concat (drop (line_end st) ls)) fs"
    using rewriteD(2) [OF r] unfolding files_of_parse by blast
  have t: "st_name st = t" and cb: "closed_block (file_lines fs (source_path st)) st" and src: "source_path st \<in> fst ` set fs"
    using map_of_SomeD [OF st] parsed_placed [OF d] by (auto simp: placed_def)
  from src obtain x pre post where fs: "fs = pre @ (source_path st, x) # post"
    by (metis imageE split_list surjective_pairing)
  have pre: "source_path st \<notin> fst ` set pre" using d fs by auto
  have x: "the (map_of fs (source_path st)) = x" using d fs
    by (metis in_set_conv_decomp map_of_is_SomeI option.sel)
  define y where "y = (let ls = splitlines_keep x
     in concat (take (line_start st) ls) @ (dhcp_line t @ line_ending ls (line_start st)) @ concat (drop (line_end st) ls))"
  have "fs' = pre @ (source_path st, y) # post"
    unfolding fs' x t y_def by (subst fs) (rule update_middle [OF pre])
  moreover have cbx: "closed_block (splitlines x) st" using cb x by (simp add: file_lines_def)
  then have b: "line_start st < length (splitlines x)" "line_end st \<le> length (splitlines x)"
    and head: "IFACE_RE (splitlines x ! line_start st) = Some (t, family st, meth st)"
    using t by (auto simp: closed_block_def open_block_def)
  have "splitlines y = take (line_start st) (splitlines x) @ [dhcp_line t] @ drop (line_end st) (splitlines x)"
    unfolding y_def Let_def
    using iface_name_word [OF head] by (intro splitlines_replace b dhcp_line_unbroken) (auto simp: dhcp_line_def line_ending_def)
  ultimately show ?thesis using fs st t cbx by blast
qed

text \<open>
  The rewritten configuration, read again: the target declares DHCP and nothing else, every
  other stanza declares what it did, in the same order, and the parse is again a confident one.
\<close>

lemma rewrite_parses:
  assumes d: "distinct (map fst fs)" and r: "rewrite_stanza_to_dhcp (parse_files fs) t = Inr fs'"
  shows "declared (parse_files fs') = map (\<lambda>(n, d). (n, if n = t then DHCP else d)) (declared (parse_files fs))"
    and "confidently_parsed (parse_files fs')"
proof -
  obtain st pre x post y where fs: "fs = pre @ (source_path st, x) # post" and fs': "fs' = pre @ (source_path st, y) # post"
    and t: "st_name st = t" and cb: "closed_block (splitlines x) st"
    and y: "splitlines y = take (line_start st) (splitlines x) @ [dhcp_line t] @ drop (line_end st) (splitlines x)"
    using rewrite_locates [OF d r] by blast
  define c where "c = fold parse_pair pre (empty_parsed fs)"
  define c' where "c' = fold parse_pair pre (empty_parsed fs')"
  have cfg: "parse_files fs = fold parse_pair post (fst (parse_text (source_path st) x c))"
    unfolding c_def using fs parse_files_split [of pre "source_path st" x post] by simp
  have cfg': "parse_files fs' = fold parse_pair post (fst (parse_text (source_path st) y c'))"
    unfolding c'_def using fs' parse_files_split [of pre "source_path st" y post] by simp
  have vc: "view t c = view t c'" unfolding c_def c'_def by (rule view_files)
  have grow: "grows (fst (parse_text (source_path st) z a)) (fold parse_pair post (fst (parse_text (source_path st) z a)))" for z a
    unfolding parse_pair_def by (rule grows_fold)
  have "t \<notin> set (duplicate_names (fst (parse_text (source_path st) x c)))"
    using grow [of x c] rewriteD(1) [OF r] unfolding cfg [symmetric] by (auto simp: grows_def confidently_parsed_def)
  then have nd: "st_name st \<notin> set (duplicate_names (fst (parse_text (source_path st) x c')))"
    using view_duplicates [OF view_text [OF vc]] t by metis
  note rep = replaced_block [OF cb y [folded t] nd, unfolded t]
  have view: "view t (parse_files fs) = view t (parse_files fs')"
    unfolding cfg cfg' parse_pair_def
    by (rule view_fold, rule trans [OF view_text [OF vc] rep(1) [symmetric]])
  then show "confidently_parsed (parse_files fs')" using rewriteD(1) [OF r] view_confident by blast
  obtain new where "map_of (stanzas (fst (parse_text (source_path st) y c'))) t = Some new" "declares new = DHCP"
    using rep(2) by blast
  moreover have "map_of (stanzas (fst (parse_text (source_path st) y c'))) \<subseteq>\<^sub>m map_of (stanzas (parse_files fs'))"
    using grow [of y c'] unfolding cfg' grows_def by blast
  ultimately have new: "map_of (stanzas (parse_files fs')) t = Some new" "declares new = DHCP"
    unfolding map_le_def by (metis domI)+
  have "distinct (map fst fs')" using d fs fs' by simp
  note placed' = parsed_placed [OF this]
  have "distinct (map fst (stanzas (parse_files fs')))" using placed' by (simp add: placed_def)
  from declares_shape [OF view new placed_names [OF parsed_placed [OF d]] placed_names [OF placed'] this]
  show "declared (parse_files fs') = map (\<lambda>(n, d). (n, if n = t then DHCP else d)) (declared (parse_files fs))"
    by (simp add: declared_def comp_def case_prod_unfold)
qed


section \<open>Properties\<close>

text \<open>
  C26. Resetting an interface changes that interface only. If the rewrite of the parsed files succeeds, then it leaves every
  file but one alone, and the files it returns parse confidently again: the target is declared \<open>inet dhcp\<close> with no
  options, and every other stanza is declared exactly as before, in the same order.
\<close>
theorem rewrite_changes_one_stanza:
  assumes "distinct (map fst fs)" and "rewrite_stanza_to_dhcp (parse_files fs) target = Inr fs'"
  shows "confidently_parsed (parse_files fs')
    \<and> declared (parse_files fs') = map (\<lambda>(n, d). (n, if n = target then DHCP else d)) (declared (parse_files fs))
    \<and> (\<exists>path text. fs' = AList.update path text fs \<and> path \<in> fst ` set fs)"
proof -
  obtain st :: stanza and pre x post y where fs: "fs = pre @ (source_path st, x) # post" "fs' = pre @ (source_path st, y) # post"
    using rewrite_locates [OF assms] by blast
  then have "fs' = AList.update (source_path st) y fs"
    using update_middle [of "source_path st" pre] assms(1) by simp
  with fs(1) rewrite_parses [OF assms] show ?thesis by (intro conjI exI [of _ "source_path st"] exI [of _ y]) auto
qed

definition two_nics :: "(string \<times> string) list" where
  "two_nics = [(''/etc/network/interfaces'', concat (map (\<lambda>l. l @ [CHR 0x0A])
     [''auto lo'', ''iface lo inet loopback'', [], ''iface eth0 inet static'', '' address 10.0.0.2/24'', [],
      ''iface eth1 inet manual'']))]"

definition two_nics_reset :: "(string \<times> string) list" where
  "two_nics_reset = [(''/etc/network/interfaces'', concat (map (\<lambda>l. l @ [CHR 0x0A])
     [''auto lo'', ''iface lo inet loopback'', [], ''iface eth0 inet dhcp'', [], ''iface eth1 inet manual'']))]"

theorem rewrite_changes_one_stanza_witness:
  "declared (parse_files two_nics_reset) =
     [(''lo'', ''inet'', ''loopback'', []), (''eth0'', DHCP), (''eth1'', ''inet'', ''manual'', [])]"
proof -
  have "rewrite_stanza_to_dhcp (parse_files two_nics) ''eth0'' = Inr two_nics_reset" by code_simp
  moreover have "distinct (map fst two_nics)" by (simp add: two_nics_def)
  ultimately have "declared (parse_files two_nics_reset) =
      map (\<lambda>(n, d). (n, if n = ''eth0'' then DHCP else d)) (declared (parse_files two_nics))"
    using rewrite_changes_one_stanza by blast
  moreover have "declared (parse_files two_nics) = [(''lo'', ''inet'', ''loopback'', []),
      (''eth0'', ''inet'', ''static'', [(''address'', ''10.0.0.2/24'')]), (''eth1'', ''inet'', ''manual'', [])]"
    by code_simp
  ultimately show ?thesis by simp
qed

text \<open>
  The comment in front of the next stanza counts as part of the rewritten block: it is removed with it, though
  every other line is documented to stay byte-identical; and it is not among the lines shown as removed.
\<close>

definition commented :: "string" where
  "commented = concat (map (\<lambda>l. l @ [CHR 0x0A])
     [''iface eth0 inet static'', '' address 10.0.0.2/24'', ''# uplink'', ''iface eth1 inet manual''])"

lemma rewrite_drops_comment:
  "rewrite_stanza_to_dhcp (parse_files [(''f'', commented)]) ''eth0'' =
     Inr [(''f'', concat (map (\<lambda>l. l @ [CHR 0x0A]) [''iface eth0 inet dhcp'', ''iface eth1 inet manual'']))]"
  "map_option st_lines (map_of (stanzas (parse_files [(''f'', commented)])) ''eth0'') =
     Some [''iface eth0 inet static'', '' address 10.0.0.2/24'']"
  by code_simp+

text \<open>The additive rewrite inserts a block and keeps every character of every file.\<close>

lemma additive_inserts:
  assumes "add_dhcp_stanza cfg t = Inr fs'"
  shows "\<exists>st a b nl. map_of (stanzas cfg) t = Some st \<and> family st \<noteq> ''inet'' \<and> meth st = ''static''
    \<and> the (map_of (files cfg) (source_path st)) = a @ b
    \<and> fs' = AList.update (source_path st) (a @ nl @ dhcp_line t @ nl @ b) (files cfg)"
proof -
  have join: "concat (take n (splitlines_keep x)) @ concat (drop n (splitlines_keep x)) = x" for x n
    by (metis append_take_drop_id concat_append concat_keep_acc append_Nil splitlines_keep_def)
  obtain st where st: "map_of (stanzas cfg) t = Some st" "family st \<noteq> ''inet''" "meth st = ''static''"
    and fs': "fs' = AList.update (source_path st) (let ls = splitlines_keep (the (map_of (files cfg) (source_path st)));
        nl = line_ending ls (line_start st)
      in concat (take (line_end st) ls) @ nl @ dhcp_line t @ nl @ concat (drop (line_end st) ls)) (files cfg)"
    using assms by (auto simp: add_dhcp_stanza_def dhcp_line_def Let_def split: if_splits option.splits)
  show ?thesis
    by (rule exI [of _ st], rule exI, rule exI, rule exI, intro conjI st)
      (rule join [of "line_end st", symmetric], simp add: fs' Let_def)
qed

end
