(* ===== verification/Topology.thy ===== *)
theory Topology
  imports IfnetConfig
begin

text \<open>
  \<open>topology.py\<close>: which interface a repair is about. The stanzas of a parsed configuration form
  a graph, from a device to the bridges, bonds and VLANs that name it as a member; the target is
  derived by walking it upward from the device that was observed to fail. The replacing and the
  additive derivation differ in which stanzas they look for, so both are instances of one walk.

  The lemmas show that the walk ends, and that it finds exactly the eligible stanzas that
  can be reached.
\<close>

section \<open>Candidates\<close>

record target_candidate =
  tc_name :: string
  tc_kind :: string
  tc_stanza :: stanza
  physical_devices :: "string list"

record derivation_result =
  d_target :: "target_candidate option"
  candidates :: "target_candidate list"
  d_reason :: string

definition derivation_ok :: "derivation_result \<Rightarrow> bool" where
  "derivation_ok r = (d_target r \<noteq> None)"

text \<open>The devices a stanza names as members, by its kind.\<close>
definition stanza_members :: "stanza \<Rightarrow> string list" where
  "stanza_members st =
     (if classify st = ''bridge'' then bridge_members st
      else if classify st = ''bond'' then bond_members st
      else if classify st = ''vlan'' then (case vlan_parent st of None \<Rightarrow> [] | Some p \<Rightarrow> if p = [] then [] else [p])
      else [])"

definition add_member :: "string \<Rightarrow> string \<Rightarrow> (string \<times> string list) list \<Rightarrow> (string \<times> string list) list" where
  "add_member name m up = (case map_of up m of None \<Rightarrow> up @ [(m, [name])] | Some ns \<Rightarrow> AList.update m (ns @ [name]) up)"

definition reverse_members :: "parsed \<Rightarrow> (string \<times> string list) list" where
  "reverse_members cfg = fold (\<lambda>(name, st). fold (add_member name) (stanza_members st)) (stanzas cfg) []"

definition parents :: "(string \<times> string list) list \<Rightarrow> string \<Rightarrow> string list" where
  "parents up dev = (case map_of up dev of None \<Rightarrow> [] | Some ns \<Rightarrow> ns)"

text \<open>A name that is already on the way down ends the search, so a cyclic configuration does too.\<close>
function underlying_physical :: "parsed \<Rightarrow> string list \<Rightarrow> string \<Rightarrow> string list" where
  "underlying_physical cfg seen name =
     (case map_of (stanzas cfg) name of
        None \<Rightarrow> []
      | Some st \<Rightarrow>
          if name \<in> set seen then []
          else if classify st = ''physical'' then [name]
          else concat (map (\<lambda>m. let r = underlying_physical cfg (name # seen) m in if r = [] then [m] else r)
                 (stanza_members st)))"
  by pat_completeness auto
termination
proof (relation "measure (\<lambda>(cfg, seen, name). card (fst ` set (stanzas cfg) - set seen))", goal_cases)
  case 1
  show ?case by simp
next
  case (2 cfg seen name st m)
  then have "name \<in> fst ` set (stanzas cfg) - set seen" by (force dest: map_of_SomeD)
  then have "card (fst ` set (stanzas cfg) - set (name # seen)) < card (fst ` set (stanzas cfg) - set seen)"
    by (intro psubset_card_mono) auto
  then show ?case by simp
qed

declare underlying_physical.simps [simp del]

definition is_inet_static :: "stanza \<Rightarrow> bool" where
  "is_inet_static st = (family st = ''inet'' \<and> meth st = ''static'')"

definition is_other_static :: "stanza \<Rightarrow> bool" where
  "is_other_static st = (family st \<noteq> ''inet'' \<and> meth st = ''static'')"

definition candidate :: "(stanza \<Rightarrow> bool) \<Rightarrow> parsed \<Rightarrow> string \<Rightarrow> target_candidate option" where
  "candidate eligible cfg name =
     (case map_of (stanzas cfg) name of
        None \<Rightarrow> None
      | Some st \<Rightarrow>
          if \<not> eligible st then None
          else Some \<lparr>tc_name = name, tc_kind = classify st, tc_stanza = st,
            physical_devices = (if classify st \<noteq> ''physical'' then underlying_physical cfg [] name else [name])\<rparr>)"

definition is_static_candidate :: "parsed \<Rightarrow> string \<Rightarrow> target_candidate option" where
  "is_static_candidate = candidate is_inet_static"

definition is_additive_candidate :: "parsed \<Rightarrow> string \<Rightarrow> target_candidate option" where
  "is_additive_candidate = candidate is_other_static"

section \<open>The walk\<close>

type_synonym walk_state = "string list \<times> target_candidate list \<times> string list"

text \<open>One parent of one device: seen before, or new and perhaps a candidate.\<close>
definition visit :: "(string \<Rightarrow> target_candidate option) \<Rightarrow> string \<Rightarrow> walk_state \<Rightarrow> walk_state" where
  "visit cand p = (\<lambda>(seen, found, nxt).
     if p \<in> set seen then (seen, found, nxt)
     else (p # seen, (case cand p of None \<Rightarrow> found | Some c \<Rightarrow> found @ [c]), nxt @ [p]))"

definition visit_level ::
    "(string \<Rightarrow> target_candidate option) \<Rightarrow> (string \<times> string list) list \<Rightarrow> string list \<Rightarrow> walk_state \<Rightarrow> walk_state" where
  "visit_level cand up frontier s = fold (\<lambda>dev. fold (visit cand) (parents up dev)) frontier s"

text \<open>What visiting adds to the three lists of the state.\<close>

definition visited :: "(string \<Rightarrow> target_candidate option) \<Rightarrow> string set \<Rightarrow> walk_state \<Rightarrow> walk_state \<Rightarrow> bool" where
  "visited cand P = (\<lambda>(seen, found, nxt) (seen', found', nxt').
     \<exists>new. nxt' = nxt @ new \<and> found' = found @ List.map_filter cand new \<and> distinct new
       \<and> set seen' = set seen \<union> P \<and> set new = P - set seen)"

lemma map_filter_append: "List.map_filter f (xs @ ys) = List.map_filter f xs @ List.map_filter f ys"
  by (simp add: List.map_filter_def)

lemma set_map_filter: "c \<in> set (List.map_filter f xs) \<longleftrightarrow> (\<exists>x \<in> set xs. f x = Some c)"
  by (force simp: List.map_filter_def)

lemma visited_refl: "visited cand {} s s"
  by (cases s) (auto simp: visited_def List.map_filter_def)

lemma visited_visit: "visited cand {p} s (visit cand p s)"
  by (cases s) (auto simp: visited_def visit_def List.map_filter_def split: option.splits)

lemma visited_trans:
  assumes "visited cand P s t" "visited cand Q t u"
  shows "visited cand (P \<union> Q) s u"
proof -
  obtain sa fa na sb fb nb sc fc nc where e: "s = (sa, fa, na)" "t = (sb, fb, nb)" "u = (sc, fc, nc)"
    by (cases s; cases t; cases u)
  obtain m where m: "nb = na @ m" "fb = fa @ List.map_filter cand m" "distinct m" "set sb = set sa \<union> P" "set m = P - set sa"
    using assms(1) e by (auto simp: visited_def)
  obtain n where n: "nc = nb @ n" "fc = fb @ List.map_filter cand n" "distinct n" "set sc = set sb \<union> Q" "set n = Q - set sb"
    using assms(2) e by (auto simp: visited_def)
  have "distinct (m @ n)" "set (m @ n) = P \<union> Q - set sa" using m n by auto
  then show ?thesis using m n unfolding e visited_def by (auto simp: map_filter_append intro!: exI [of _ "m @ n"])
qed

lemma visited_fold:
  "(\<And>x s. x \<in> set xs \<Longrightarrow> visited cand (P x) s (f x s)) \<Longrightarrow> visited cand (\<Union>x \<in> set xs. P x) s (fold f xs s)"
proof (induction xs arbitrary: s)
  case Nil
  then show ?case by (simp add: visited_refl)
next
  case (Cons x xs)
  from visited_trans [OF Cons(2) [of x s] Cons(1)] Cons(2) show ?case by simp
qed

lemma visited_level: "visited cand (\<Union>dev \<in> set frontier. set (parents up dev)) s (visit_level cand up frontier s)"
  unfolding visit_level_def
proof (rule visited_fold)
  fix dev s
  have "visited cand (\<Union>p \<in> set (parents up dev). {p}) s (fold (visit cand) (parents up dev) s)"
    by (rule visited_fold) (rule visited_visit)
  then show "visited cand (set (parents up dev)) s (fold (visit cand) (parents up dev) s)" by simp
qed

lemma parents_known: "set (parents up x) \<subseteq> set (concat (map snd up))"
  by (cases "map_of up x") (auto simp: parents_def dest: map_of_SomeD)

text \<open>Breadth first, level by level; each further level has names that were not seen before.\<close>

function bfs ::
    "(string \<Rightarrow> target_candidate option) \<Rightarrow> (string \<times> string list) list \<Rightarrow> string list \<Rightarrow> string list \<Rightarrow>
     target_candidate list \<Rightarrow> target_candidate list" where
  "bfs cand up frontier seen found =
     (if frontier = [] then found
      else case visit_level cand up frontier (seen, found, []) of (seen', found', nxt) \<Rightarrow> bfs cand up nxt seen' found')"
  by pat_completeness auto
termination
proof (relation "measure (\<lambda>(cand, up, frontier, seen, found).
    2 * card (set (concat (map snd up)) - set seen) + (if frontier = [] then 0 else 1))", goal_cases)
  case 1
  show ?case by simp
next
  case (2 cand up frontier seen found seen' r found' nxt)
  let ?A = "set (concat (map snd up))"
  let ?P = "\<Union>dev \<in> set frontier. set (parents up dev)"
  have l: "visit_level cand up frontier (seen, found, []) = (seen', found', nxt)" using 2(2,3) by simp
  have v: "visited cand ?P (seen, found, []) (seen', found', nxt)"
    using visited_level [of cand up frontier "(seen, found, [])"] unfolding l .
  have P: "?P \<subseteq> ?A"
    using parents_known by blast
  have s: "set seen' = set seen \<union> ?P" "set nxt = ?P - set seen" using v by (auto simp: visited_def)
  show ?case
  proof (cases "nxt = []")
    case True
    then have "set seen' = set seen" using s by auto
    then show ?thesis using True 2(1) by simp
  next
    case False
    then obtain p where "p \<in> ?P - set seen" using s(2) by (metis last_in_set)
    then have "card (?A - set seen') < card (?A - set seen)"
      using P s(1) by (intro psubset_card_mono) auto
    then show ?thesis using False 2(1) by simp
  qed
qed

declare bfs.simps [simp del]

definition walk_upward :: "string \<Rightarrow> parsed \<Rightarrow> (string \<times> string list) list \<Rightarrow> target_candidate list" where
  "walk_upward observed cfg up = bfs (is_static_candidate cfg) up [observed] [observed] []"

definition walk_upward_additive :: "string \<Rightarrow> parsed \<Rightarrow> (string \<times> string list) list \<Rightarrow> target_candidate list" where
  "walk_upward_additive observed cfg up = bfs (is_additive_candidate cfg) up [observed] [observed] []"

section \<open>Deriving the target\<close>

text \<open>\<open>candidates.setdefault(cand.name, cand)\<close>.\<close>
definition set_default :: "target_candidate \<Rightarrow> target_candidate list \<Rightarrow> target_candidate list" where
  "set_default c cs = (if tc_name c \<in> tc_name ` set cs then cs else cs @ [c])"

definition no_target :: "target_candidate list \<Rightarrow> string \<Rightarrow> derivation_result" where
  "no_target cs why = \<lparr>d_target = None, candidates = cs, d_reason = why\<rparr>"

definition choose_target :: "target_candidate list \<Rightarrow> string \<Rightarrow> derivation_result" where
  "choose_target values none_found =
     (if values = [] then no_target [] none_found
      else if 1 < length values then
        no_target values (''multiple credible management-interface candidates found ('' @
          join '', '' (sort_strs (map tc_name values)) @ '') - refusing rather than guessing which one to change'')
      else \<lparr>d_target = Some (hd values), candidates = values, d_reason = []\<rparr>)"

definition not_known :: "string \<Rightarrow> string" where
  "not_known observed = py_repr observed @ '' is not a device Baseline's parsed interfaces config knows about at all''"

definition known_device :: "string \<Rightarrow> parsed \<Rightarrow> bool" where
  "known_device observed cfg = (observed \<in> fst ` set (stanzas cfg) \<or> observed \<in> fst ` set (reverse_members cfg))"

definition derive_target :: "string \<Rightarrow> parsed \<Rightarrow> derivation_result" where
  "derive_target observed cfg =
     (if \<not> known_device observed cfg then no_target [] (not_known observed)
      else let direct = (case is_static_candidate cfg observed of None \<Rightarrow> [] | Some c \<Rightarrow> [c]);
               values = fold set_default (walk_upward observed cfg (reverse_members cfg)) direct
           in choose_target values (''no inet static configuration found for '' @ py_repr observed @
                '' or anything it's a member of - nothing for this action to reset''))"

definition derive_additive_target :: "string \<Rightarrow> parsed \<Rightarrow> derivation_result" where
  "derive_additive_target observed cfg =
     (if \<not> known_device observed cfg then no_target [] (not_known observed)
      else let direct = (case is_additive_candidate cfg observed of None \<Rightarrow> [] | Some c \<Rightarrow> [c]);
               values = fold set_default (walk_upward_additive observed cfg (reverse_members cfg)) direct
           in choose_target values (''no static configuration of any family found for '' @ py_repr observed @
                '' or anything it's a member of - nothing for an additive DHCP stanza to attach to''))"


section \<open>What the walk finds\<close>

lemma parents_add_member: "parents (add_member name m up) x = parents up x @ (if x = m then [name] else [])"
  by (auto simp: parents_def add_member_def update_conv map_add_def split: option.splits)

lemma parents_add_members: "parents (fold (add_member name) ms up) x = parents up x @ replicate (count_list ms x) name"
  by (induction ms arbitrary: up) (auto simp: parents_add_member replicate_append_same)

lemma parents_fold:
  "set (parents (fold (\<lambda>(name, st). fold (add_member name) (stanza_members st)) ss up) x) =
   set (parents up x) \<union> {name. \<exists>st. (name, st) \<in> set ss \<and> x \<in> set (stanza_members st)}"
proof (induction ss arbitrary: up)
  case Nil
  then show ?case by simp
next
  case (Cons s ss)
  obtain name st where s: "s = (name, st)" by (cases s)
  have "set (replicate (count_list (stanza_members st) x) name) = (if x \<in> set (stanza_members st) then {name} else {})"
    by (cases "x \<in> set (stanza_members st)") (auto simp: count_list_0_iff)
  then show ?case by (auto simp: s Cons parents_add_members)
qed

text \<open>One step up: \<open>d\<close> is a member of the stanza named \<open>p\<close>.\<close>
definition member_of :: "parsed \<Rightarrow> (string \<times> string) set" where
  "member_of cfg = {(d, p). \<exists>st. (p, st) \<in> set (stanzas cfg) \<and> d \<in> set (stanza_members st)}"

lemma parents_reverse: "set (parents (reverse_members cfg) d) = member_of cfg `` {d}"
  unfolding reverse_members_def parents_fold by (auto simp: member_of_def parents_def)

lemma map_filter_names:
  "(\<And>p c. cand p = Some c \<Longrightarrow> tc_name c = p) \<Longrightarrow>
   map tc_name (List.map_filter cand xs) = filter (\<lambda>p. cand p \<noteq> None) xs"
  by (induction xs) (auto simp: List.map_filter_def)

lemma bfs_finds:
  assumes "\<And>x. set (parents up x) = E `` {x}"
    and "set frontier \<subseteq> set seen" "\<forall>x \<in> set seen - set frontier. E `` {x} \<subseteq> set seen"
    and "set found = {c. \<exists>p \<in> set seen - {d}. cand p = Some c}" "d \<in> set seen" "set seen \<subseteq> E\<^sup>* `` {d}"
    and "distinct (map tc_name found)" "\<And>p c. cand p = Some c \<Longrightarrow> tc_name c = p"
  shows "set (bfs cand up frontier seen found) = {c. \<exists>p \<in> E\<^sup>* `` {d} - {d}. cand p = Some c}
    \<and> distinct (map tc_name (bfs cand up frontier seen found))"
  using assms
proof (induction cand up frontier seen found rule: bfs.induct)
  case (1 cand up frontier seen found)
  show ?case
  proof (cases "frontier = []")
    case True
    have "E\<^sup>* `` {d} \<subseteq> set seen"
    proof safe
      fix x
      assume "(d, x) \<in> E\<^sup>*"
      then show "x \<in> set seen" using 1(4,6) True by induction auto
    qed
    then show ?thesis using 1 True by (subst (1 2) bfs.simps) auto
  next
    case False
    obtain seen' found' nxt where l: "visit_level cand up frontier (seen, found, []) = (seen', found', nxt)"
      by (metis prod_cases3)
    let ?P = "\<Union>x \<in> set frontier. E `` {x}"
    have "visited cand ?P (seen, found, []) (seen', found', nxt)"
      using visited_level [of cand up frontier "(seen, found, [])"] 1(2) unfolding l by simp
    then have v: "found' = found @ List.map_filter cand nxt" "distinct nxt" "set seen' = set seen \<union> ?P" "set nxt = ?P - set seen"
      by (auto simp: visited_def)
    have P: "?P \<subseteq> E\<^sup>* `` {d}" using 1(3,7) by (auto intro: rtrancl_into_rtrancl)
    have names: "map tc_name (List.map_filter cand nxt) = filter (\<lambda>p. cand p \<noteq> None) nxt"
      using 1(9) by (rule map_filter_names)
    then have "distinct (map tc_name (List.map_filter cand nxt))" using v(2) by simp
    moreover have "tc_name ` set found \<inter> set nxt = {}" using 1(5,9) v(4) by auto
    moreover have "tc_name ` set (List.map_filter cand nxt) \<subseteq> set nxt"
      using arg_cong [OF names, of set] by auto
    ultimately have d: "distinct (map tc_name found')" using v(1) 1(8) by auto
    have "set found' = {c. \<exists>p \<in> (set seen - {d}) \<union> set nxt. cand p = Some c}"
      unfolding v(1) using 1(5) by (auto simp: set_map_filter)
    moreover have "(set seen - {d}) \<union> set nxt = set seen' - {d}" using v(3,4) 1(6) by auto
    ultimately have "set found' = {c. \<exists>p \<in> set seen' - {d}. cand p = Some c}" by simp
    then have "set (bfs cand up nxt seen' found') = {c. \<exists>p \<in> E\<^sup>* `` {d} - {d}. cand p = Some c}
      \<and> distinct (map tc_name (bfs cand up nxt seen' found'))"
      using 1(2-9) v P d by (intro 1(1) [OF False l [symmetric] refl]) auto
    then show ?thesis using False l by (subst (1 2) bfs.simps) simp
  qed
qed


text \<open>The eligible stanzas at or above a device.\<close>
definition eligible_above :: "(stanza \<Rightarrow> bool) \<Rightarrow> parsed \<Rightarrow> string \<Rightarrow> string set" where
  "eligible_above eligible cfg d = {n. (d, n) \<in> (member_of cfg)\<^sup>* \<and> (\<exists>st. map_of (stanzas cfg) n = Some st \<and> eligible st)}"

lemma candidate_Some:
  "candidate eligible cfg n = Some c \<Longrightarrow> tc_name c = n \<and> map_of (stanzas cfg) n = Some (tc_stanza c) \<and> eligible (tc_stanza c)"
  by (auto simp: candidate_def split: option.splits if_splits)

lemma candidate_eligible: "(\<exists>c. candidate eligible cfg n = Some c) \<longleftrightarrow> (\<exists>st. map_of (stanzas cfg) n = Some st \<and> eligible st)"
  by (auto simp: candidate_def split: option.splits)

lemma fold_set_default: "distinct (map tc_name (cs @ ws)) \<Longrightarrow> fold set_default ws cs = cs @ ws"
  by (induction ws arbitrary: cs) (auto simp: set_default_def)

definition all_candidates :: "(stanza \<Rightarrow> bool) \<Rightarrow> string \<Rightarrow> parsed \<Rightarrow> target_candidate list" where
  "all_candidates eligible d cfg =
     fold set_default (bfs (candidate eligible cfg) (reverse_members cfg) [d] [d] [])
       (case candidate eligible cfg d of None \<Rightarrow> [] | Some c \<Rightarrow> [c])"

lemma all_candidates_exact:
  "tc_name ` set (all_candidates eligible d cfg) = eligible_above eligible cfg d
   \<and> distinct (map tc_name (all_candidates eligible d cfg))
   \<and> (\<forall>c \<in> set (all_candidates eligible d cfg). map_of (stanzas cfg) (tc_name c) = Some (tc_stanza c))"
proof -
  let ?c = "candidate eligible cfg" and ?E = "member_of cfg"
  let ?w = "bfs ?c (reverse_members cfg) [d] [d] []"
  let ?d = "case ?c d of None \<Rightarrow> [] | Some c \<Rightarrow> [c]"
  have w: "set ?w = {c. \<exists>p \<in> ?E\<^sup>* `` {d} - {d}. ?c p = Some c}" "distinct (map tc_name ?w)"
    using bfs_finds [of "reverse_members cfg" ?E "[d]" "[d]" "[]" d ?c]
    by (auto simp: parents_reverse dest: candidate_Some)
  have d: "set ?d = {c. ?c d = Some c}" by (cases "?c d") auto
  have "d \<notin> tc_name ` set ?w" unfolding w(1) by (auto dest: candidate_Some)
  then have "distinct (map tc_name (?d @ ?w))" using w(2) by (auto dest: candidate_Some split: option.splits)
  then have all: "all_candidates eligible d cfg = ?d @ ?w" "distinct (map tc_name (all_candidates eligible d cfg))"
    using fold_set_default by (auto simp: all_candidates_def)
  have s: "set (all_candidates eligible d cfg) = {c. \<exists>p \<in> ?E\<^sup>* `` {d}. ?c p = Some c}"
    unfolding all(1) using w(1) d by auto
  have "tc_name ` set (all_candidates eligible d cfg) = {p. (d, p) \<in> ?E\<^sup>* \<and> (\<exists>c. ?c p = Some c)}"
    unfolding s by (auto dest: candidate_Some intro: rev_image_eqI)
  with all(2) s show ?thesis unfolding eligible_above_def candidate_eligible by (auto dest: candidate_Some)
qed

lemma unknown_has_none: "\<not> known_device d cfg \<Longrightarrow> eligible_above eligible cfg d = {}"
proof -
  assume u: "\<not> known_device d cfg"
  then have "parents (reverse_members cfg) d = []"
    by (auto simp: known_device_def parents_def split: option.splits dest!: map_of_SomeD) (metis fst_conv image_eqI)
  then have "member_of cfg `` {d} = {}" using parents_reverse [of cfg d] by simp
  then have "(d, n) \<in> (member_of cfg)\<^sup>* \<Longrightarrow> n = d" for n by (metis Image_singleton_iff converse_rtranclE empty_iff)
  moreover have "map_of (stanzas cfg) d = None" using u by (auto simp: known_device_def map_of_eq_None_iff)
  ultimately show ?thesis unfolding eligible_above_def by fastforce
qed

text \<open>What a derivation says about the eligible stanzas.\<close>
definition derives :: "(stanza \<Rightarrow> bool) \<Rightarrow> parsed \<Rightarrow> string \<Rightarrow> derivation_result \<Rightarrow> bool" where
  "derives eligible cfg d r \<longleftrightarrow>
     tc_name ` set (candidates r) = eligible_above eligible cfg d \<and> distinct (map tc_name (candidates r))
     \<and> (case d_target r of
          None \<Rightarrow> length (candidates r) \<noteq> 1
        | Some c \<Rightarrow> candidates r = [c] \<and> map_of (stanzas cfg) (tc_name c) = Some (tc_stanza c) \<and> eligible (tc_stanza c))"

lemma choose_derives: "derives eligible cfg d (choose_target (all_candidates eligible d cfg) why)"
proof -
  let ?a = "all_candidates eligible d cfg"
  note a = all_candidates_exact [of eligible d cfg]
  have e: "eligible (tc_stanza (hd ?a))" if "?a \<noteq> []"
  proof -
    have "tc_name (hd ?a) \<in> eligible_above eligible cfg d" using that a by auto
    then show ?thesis using a that by (auto simp: eligible_above_def)
  qed
  consider "?a = []" | "1 < length ?a" | c where "?a = [c]"
    by (cases ?a rule: remdups_adj.cases) auto
  then show ?thesis by cases (use a e in \<open>auto simp: derives_def choose_target_def no_target_def\<close>)
qed

text \<open>
  C27. The derived target is the only one there can be. The candidates of a derivation are exactly the \<open>inet static\<close> stanzas
  among the observed device and whatever it is directly or indirectly a member of, each once; there is a target
  just when there is one such stanza, and the target is that stanza of the configuration. However the members refer to each other
  (cycles included), the walk ends.
\<close>
theorem derive_target_exact: "derives is_inet_static cfg d (derive_target d cfg)"
proof (cases "known_device d cfg")
  case True
  then show ?thesis
    using choose_derives [of is_inet_static cfg d]
    by (simp add: derive_target_def all_candidates_def is_static_candidate_def walk_upward_def Let_def)
next
  case False
  then show ?thesis by (simp add: derive_target_def derives_def no_target_def unknown_has_none)
qed

text \<open>The additive derivation finds the static stanzas of other families in the same way.\<close>
lemma derive_additive_exact: "derives is_other_static cfg d (derive_additive_target d cfg)"
proof (cases "known_device d cfg")
  case True
  then show ?thesis
    using choose_derives [of is_other_static cfg d]
    by (simp add: derive_additive_target_def all_candidates_def is_additive_candidate_def walk_upward_additive_def Let_def)
next
  case False
  then show ?thesis by (simp add: derive_additive_target_def derives_def no_target_def unknown_has_none)
qed

end
