(* ===== verification/Repair.thy ===== *)
theory Repair
  imports FileSystem PyValue Topology
begin

text \<open>
  \<open>repair.py\<close>: the host-network repair, up to the pipeline itself. The record \<open>pylib\<close> has the two functions
  of the Python library the code only calls: the SHA-256 digest of a text, and the local time of a clock value as text.
  A \<open>RepairRefused\<close> carries its code and detail; the candidates attached to some refusals are read by no
  modelled caller and are left out. Clock values are integers. Attempt identifiers are single path
  components, as \<open>uuid4\<close> makes them.

  \<open>read_interfaces_config\<close> is a worklist loop over files that may name each other, and on a machine whose files keep
  changing it need not end: it takes the number of iterations as fuel and is \<open>Unfinished\<close> when that is used up.
\<close>

record pylib =
  sha256 :: "string \<Rightarrow> string"
  strftime :: "int \<Rightarrow> string"

definition INTERFACES_PATH :: string where
  "INTERFACES_PATH = ''/etc/network/interfaces''"

definition REPAIR_STATE_DIR :: string where
  "REPAIR_STATE_DIR = ''/var/lib/baseline/repair''"

definition PENDING_MANIFEST_DIR :: string where
  "PENDING_MANIFEST_DIR = REPAIR_STATE_DIR @ ''/pending''"

definition PENDING_MANIFEST_PATH :: string where
  "PENDING_MANIFEST_PATH = PENDING_MANIFEST_DIR @ ''/manifest.json''"

definition EVENT_LOG :: string where
  "EVENT_LOG = ''/var/log/baseline/network.events.jsonl''"

definition DEFAULT_ROLLBACK_WINDOW_S :: int where "DEFAULT_ROLLBACK_WINDOW_S = 120"
definition BACKUP_RETENTION_MIN_ATTEMPTS :: nat where "BACKUP_RETENTION_MIN_ATTEMPTS = 10"
definition BACKUP_RETENTION_MIN_DAYS :: int where "BACKUP_RETENTION_MIN_DAYS = 30"
definition DEFAULT_PROTECTED_PORTS :: "int list" where "DEFAULT_PROTECTED_PORTS = [22, 8006]"
definition GATEWAY_PROBE_TIMEOUT_S :: int where "GATEWAY_PROBE_TIMEOUT_S = 3"
definition STABILIZATION_DELAY_S :: int where "STABILIZATION_DELAY_S = 5"

text \<open>\<open>base / name\<close> for a name that is one path component.\<close>
definition path_div :: "string \<Rightarrow> string \<Rightarrow> string" where
  "path_div base name = (if name = [] \<or> name = ''.'' then base else base @ ''/'' @ name)"

definition refuse :: "string \<Rightarrow> string \<Rightarrow> ('s, 'a) act" where
  "refuse code detail = act_raise (RepairRefused code detail)"

record repair_result =
  r_ok :: bool
  r_attempt :: string
  outcome :: string
  r_detail :: string
  verification :: "(string \<times> bool) list"

section \<open>The event log\<close>

definition log_event ::
    "pylib \<Rightarrow> 'm os \<Rightarrow> string \<Rightarrow> string \<Rightarrow> string \<Rightarrow> string \<Rightarrow> (string \<times> json) list \<Rightarrow> (('m, call) host, json) act" where
  "log_event lib os attempt step status detail extra =
     act_bind (clock_now os) (\<lambda>t.
     let entry = JObj (fold (\<lambda>(k, v). AList.update k v) extra
           [(''ts'', JStr (strftime lib t)), (''component'', JStr ''repair''), (''attempt_id'', JStr attempt),
            (''step'', JStr step), (''status'', JStr status), (''detail'', JStr detail)])
     in act_seq (append_text os EVENT_LOG (json_dumps default_style entry @ [CHR 0x0A])) (act_ret entry))"

section \<open>Capabilities and guards\<close>

record ifupdown2_capability =
  present :: bool
  ifreload_path :: string
  cap_version :: string
  cap_detail :: string

definition detect_ifupdown2 :: "'m os \<Rightarrow> (('m, call) host, ifupdown2_capability) act" where
  "detect_ifupdown2 os =
     act_bind (run os [''which'', ''ifreload''] 10) (\<lambda>which.
     if returncode which \<noteq> 0 \<or> strip (stdout which) = [] then
       act_ret \<lparr>present = False, ifreload_path = [], cap_version = [], cap_detail = ''ifreload not found on PATH''\<rparr>
     else let path = hd (splitlines (strip (stdout which)))
       in act_bind (run os [''dpkg-query'', ''-W'', ''-f=${Version}'', ''ifupdown2''] 10) (\<lambda>pkg.
          if returncode pkg \<noteq> 0 then
            act_ret \<lparr>present = False, ifreload_path = path, cap_version = [], cap_detail =
              ''ifreload is present but the ifupdown2 package is not - refusing rather than guessing this is the real thing''\<rparr>
          else act_ret \<lparr>present = True, ifreload_path = path, cap_version = strip (stdout pkg), cap_detail = []\<rparr>))"

definition COROSYNC_CONFIG_PATHS :: "string list" where
  "COROSYNC_CONFIG_PATHS = [''/etc/pve/corosync.conf'', ''/etc/corosync/corosync.conf'']"

definition check_standalone_host :: "'m os \<Rightarrow> (('m, call) host, unit) act" where
  "check_standalone_host os =
     act_seq (act_for COROSYNC_CONFIG_PATHS (\<lambda>path.
       act_bind (path_exists os path) (\<lambda>there.
       act_when there (refuse ''cluster_member'' (path @ '' exists - this host appears to belong to a Proxmox cluster; '' @
         ''host-network repair is scoped to a standalone host only'')))))
     (act_bind (run os [''pvecm'', ''status''] 5) (\<lambda>pvecm.
      act_when (returncode pvecm = 0 \<and> strip (stdout pvecm) \<noteq> [])
        (refuse ''cluster_member'' (''`pvecm status` succeeded - this host reports cluster membership; '' @
          ''host-network repair is scoped to a standalone host only''))))"

fun all_ints :: "json list \<Rightarrow> exn + int list" where
  "all_ints [] = Inr []"
| "all_ints (v # vs) =
     (case json_int v of
        Inl e \<Rightarrow> Inl e
      | Inr i \<Rightarrow> (case all_ints vs of Inl e \<Rightarrow> Inl e | Inr is \<Rightarrow> Inr (i # is)))"

definition extra_ports :: "string \<Rightarrow> exn + int list" where
  "extra_ports content =
     (case json_loads content of
        None \<Rightarrow> Inl (ValueError content)
      | Some v \<Rightarrow> (case json_iter v of Inl e \<Rightarrow> Inl e | Inr vs \<Rightarrow> all_ints vs))"

definition PROTECTED_PORTS_PATH :: string where
  "PROTECTED_PORTS_PATH = ''/etc/baseline/protected_ports.json''"

definition load_protected_ports :: "'m os \<Rightarrow> (('m, call) host, int list) act" where
  "load_protected_ports os =
     act_bind (path_exists os PROTECTED_PORTS_PATH) (\<lambda>there.
     if \<not> there then act_ret DEFAULT_PROTECTED_PORTS
     else act_bind (read_text os PROTECTED_PORTS_PATH) (\<lambda>content.
       case extra_ports content of
         Inr ps \<Rightarrow> act_ret (fold List.insert ps DEFAULT_PROTECTED_PORTS)
       | Inl (ValueError e) \<Rightarrow> act_ret DEFAULT_PROTECTED_PORTS
       | Inl (TypeError e) \<Rightarrow> act_ret DEFAULT_PROTECTED_PORTS
       | Inl e \<Rightarrow> act_raise e))"

record protected_session =
  local_port :: int
  peer :: string

text \<open>One line of \<open>ss -tn\<close>, without the header.\<close>
definition protected_line :: "int list \<Rightarrow> string \<Rightarrow> protected_session option" where
  "protected_line ports line =
     (let parts = split_ws line
      in if length parts < 4 then None
         else case py_int (last (split_on (CHR '':'') (parts ! 3))) of
           None \<Rightarrow> None
         | Some port \<Rightarrow>
             if port \<in> set ports
             then Some \<lparr>local_port = port, peer = (if 4 < length parts then parts ! 4 else ''?'')\<rparr>
             else None)"

definition find_protected_sessions :: "'m os \<Rightarrow> string list \<Rightarrow> int list \<Rightarrow> (('m, call) host, protected_session list) act" where
  "find_protected_sessions os devices ports =
     act_bind (run os [''ss'', ''-tn'', ''state'', ''established''] 10) (\<lambda>p.
     act_ret (if returncode p \<noteq> 0 then [\<lparr>local_port = -1, peer = ''unknown (ss unavailable)''\<rparr>]
              else List.map_filter (protected_line ports) (tl (splitlines (stdout p)))))"

text \<open>\<open>sorted({s.local_port for s in sessions})\<close> and its \<open>repr\<close>.\<close>
definition session_ports :: "protected_session list \<Rightarrow> int list" where
  "session_ports ss = sort (remdups (map local_port ss))"

definition repr_ints :: "int list \<Rightarrow> string" where
  "repr_ints is = ''['' @ join '', '' (map str_of_int is) @ '']''"

definition check_connection_guard :: "'m os \<Rightarrow> string list \<Rightarrow> bool \<Rightarrow> (('m, call) host, protected_session list) act" where
  "check_connection_guard os devices operator_present =
     act_bind (load_protected_ports os) (\<lambda>ports.
     act_bind (find_protected_sessions os devices ports) (\<lambda>sessions.
     if sessions \<noteq> [] \<and> \<not> operator_present then
       refuse ''protected_connection_unattended''
         (str_of_int (int (length sessions)) @ '' protected management session(s) found (ports: '' @ repr_ints (session_ports sessions) @
          '') and no operator is physically present at tty1 to authorize the disruption; refusing unattended '' @
          ''execution - a remote session may never authorize severing its own access path'')
     else act_ret sessions))"

section \<open>Reading the configuration\<close>

text \<open>\<open>target.rsplit("/", 1)[0] or "/"\<close>.\<close>
definition parent_dir :: "string \<Rightarrow> string" where
  "parent_dir target =
     (let d = (if CHR ''/'' \<in> set target then rev (tl (dropWhile (\<lambda>c. c \<noteq> CHR ''/'') (rev target))) else target)
      in if d = [] then ''/'' else d)"

definition catch_os_error :: "('s, 'a) act \<Rightarrow> ('s, 'a) act \<Rightarrow> ('s, 'a) act" where
  "catch_os_error m handler = act_catch m (\<lambda>e. case e of OSError d \<Rightarrow> handler | _ \<Rightarrow> act_raise e)"

text \<open>The paths one line asks to read.\<close>
definition line_sources :: "'m os \<Rightarrow> string \<Rightarrow> (('m, call) host, string list) act" where
  "line_sources os line =
     (case SOURCE_RE line of
        Some target \<Rightarrow>
          if has_glob_metachars target then
            act_bind (catch_os_error (listdir os (parent_dir target)) (act_ret [])) (\<lambda>entries.
            act_ret (resolve_source_glob target entries))
          else act_ret [target]
      | None \<Rightarrow>
          (case SOURCE_DIR_RE line of
             Some d \<Rightarrow> listdir os d
           | None \<Rightarrow> act_ret []))"

fun read_closure ::
    "nat \<Rightarrow> 'm os \<Rightarrow> string list \<Rightarrow> string list \<Rightarrow> (string \<times> string) list \<Rightarrow> (('m, call) host, (string \<times> string) list) act" where
  "read_closure fuel os [] seen fs = act_ret fs"
| "read_closure 0 os (path # todo) seen fs = act_raise Unfinished"
| "read_closure (Suc fuel) os (path # todo) seen fs =
     (if path \<in> set seen then read_closure fuel os todo seen fs
      else act_bind (catch_os_error (act_bind (read_text os path) (\<lambda>t. act_ret (Some t))) (act_ret None)) (\<lambda>content.
        case content of
          None \<Rightarrow> read_closure fuel os todo (path # seen) (AList.update path [] fs)
        | Some t \<Rightarrow>
            act_bind (act_map (line_sources os) (splitlines t)) (\<lambda>named.
            read_closure fuel os (todo @ concat named) (path # seen) (AList.update path t fs))))"

definition read_interfaces_config :: "nat \<Rightarrow> 'm os \<Rightarrow> string \<Rightarrow> (('m, call) host, parsed) act" where
  "read_interfaces_config fuel os root_path =
     act_bind (read_closure fuel os [root_path] [] []) (\<lambda>fs. act_ret (parse_files fs))"

section \<open>Backups\<close>

definition attempt_dir :: "string \<Rightarrow> string" where
  "attempt_dir attempt = path_div REPAIR_STATE_DIR attempt"

text \<open>\<open>path.lstrip("/").replace("/", "__")\<close>\<close>
definition backup_name :: "string \<Rightarrow> string" where
  "backup_name path = replace_char (CHR ''/'') ''__'' (lstrip_char (CHR ''/'') path)"

definition backup_path :: "string \<Rightarrow> string \<Rightarrow> string" where
  "backup_path attempt path = path_div (path_div (attempt_dir attempt) ''backup'') (backup_name path)"

definition manifest_path :: "string \<Rightarrow> string" where
  "manifest_path attempt = path_div (attempt_dir attempt) ''backup_manifest.json''"

definition status_path :: "string \<Rightarrow> string" where
  "status_path attempt = path_div (attempt_dir attempt) ''attempt_status.json''"

text \<open>The repair's own files, and the files of an attempt among them.\<close>

definition own_path :: "string \<Rightarrow> bool" where
  "own_path p = starts_with p (REPAIR_STATE_DIR @ ''/'')"

lemma own_paths [simp]:
  "own_path PENDING_MANIFEST_PATH" "own_path (manifest_path a)" "own_path (status_path a)" "own_path (backup_path a p)"
  by (simp_all add: own_path_def starts_with_iff PENDING_MANIFEST_PATH_def PENDING_MANIFEST_DIR_def manifest_path_def status_path_def
      backup_path_def attempt_dir_def path_div_def)

definition manifest_entry :: "pylib \<Rightarrow> string \<Rightarrow> string \<times> string \<Rightarrow> string \<times> json" where
  "manifest_entry lib attempt = (\<lambda>(path, content). (path, JObj [(''backup_path'', JStr (backup_path attempt path)),
     (''hash'', JStr (hash_text (sha256 lib) content))]))"

definition backup_file :: "'m os \<Rightarrow> string \<Rightarrow> string \<times> string \<Rightarrow> (('m, call) host, unit) act" where
  "backup_file os attempt = (\<lambda>(path, content).
     act_seq (write_text_atomic os (backup_path attempt path) content)
       (act_bind (read_text os (backup_path attempt path)) (\<lambda>readback.
        act_when (readback \<noteq> content)
          (refuse ''backup_unverified'' (''backup of '' @ path @ '' did not read back identically - refusing to proceed'')))))"

definition backup_manifest :: "pylib \<Rightarrow> string \<Rightarrow> (string \<times> string) list \<Rightarrow> int \<Rightarrow> json" where
  "backup_manifest lib attempt fs created =
     JObj [(''files'', JObj (map (manifest_entry lib attempt) fs)),
           (''closure_hash'', JStr (hash_closure (sha256 lib) fs)), (''created_at'', JInt created)]"

text \<open>The result is the closure hash; of the manifest that is returned beside it nothing is read.\<close>
definition create_backup :: "pylib \<Rightarrow> 'm os \<Rightarrow> string \<Rightarrow> parsed \<Rightarrow> (('m, call) host, string) act" where
  "create_backup lib os attempt cfg =
     act_seq (makedirs os (path_div (attempt_dir attempt) ''backup''))
     (act_seq (act_for (files cfg) (backup_file os attempt))
     (act_bind (clock_now os) (\<lambda>t.
      act_seq (write_text_atomic os (manifest_path attempt)
                 (json_dumps default_style (backup_manifest lib attempt (files cfg) t)))
        (act_ret (hash_closure (sha256 lib) (files cfg))))))"

definition json_text :: "json \<Rightarrow> exn + string" where
  "json_text v = (case v of JStr t \<Rightarrow> Inr t | _ \<Rightarrow> Inl (TypeError ''expected text''))"

text \<open>\<open>manifest["files"].items()\<close>\<close>
definition manifest_items :: "json \<Rightarrow> exn + (string \<times> json) list" where
  "manifest_items v =
     (case item v ''files'' of
        Inl e \<Rightarrow> Inl e
      | Inr (JObj kvs) \<Rightarrow> Inr kvs
      | Inr _ \<Rightarrow> Inl (AttributeError ''object has no attribute items''))"

fun restore_files :: "pylib \<Rightarrow> 'm os \<Rightarrow> (string \<times> json) list \<Rightarrow> (('m, call) host, bool \<times> string) act" where
  "restore_files lib os [] = act_ret (True, ''all backed-up files restored and hash-verified'')"
| "restore_files lib os ((path, info) # rest) =
     act_bind (act_lift (item info ''backup_path'')) (\<lambda>b.
     act_bind (act_lift (json_text b)) (\<lambda>from.
     act_bind (read_text os from) (\<lambda>original.
     act_bind (act_lift (item info ''hash'')) (\<lambda>hash.
     if JStr (hash_text (sha256 lib) original) \<noteq> hash then
       act_ret (False, ''backup for '' @ path @ '' failed its own hash check - not restoring from a corrupt backup'')
     else act_seq (write_text_atomic os path original)
       (act_bind (read_text os path) (\<lambda>readback.
        if JStr (hash_text (sha256 lib) readback) \<noteq> hash then
          act_ret (False, ''restore of '' @ path @ '' did not read back identically'')
        else restore_files lib os rest))))))"

definition restore_backup :: "pylib \<Rightarrow> 'm os \<Rightarrow> string \<Rightarrow> (('m, call) host, bool \<times> string) act" where
  "restore_backup lib os attempt =
     act_bind (path_exists os (manifest_path attempt)) (\<lambda>there.
     if \<not> there then act_ret (False, ''no backup manifest found for attempt '' @ attempt)
     else act_bind (read_text os (manifest_path attempt)) (\<lambda>content.
          act_bind (act_lift (json_parse content)) (\<lambda>manifest.
          act_bind (act_lift (manifest_items manifest)) (\<lambda>items.
          restore_files lib os items))))"

section \<open>Retention\<close>

text \<open>
  When an attempt was closed, if its status says so. A \<open>closed_at\<close> that is no number raises here; Python
  raises once it is compared or subtracted.
\<close>
definition closed_at :: "'m os \<Rightarrow> string \<Rightarrow> (('m, call) host, rat option) act" where
  "closed_at os d =
     act_bind (path_exists os (path_div d ''attempt_status.json'')) (\<lambda>there.
     if \<not> there then act_ret None
     else act_bind (read_text os (path_div d ''attempt_status.json'')) (\<lambda>content.
       case json_loads content of
         None \<Rightarrow> act_ret None
       | Some status \<Rightarrow>
           act_bind (act_lift (get status ''closed_at'')) (\<lambda>v.
           case v of
             None \<Rightarrow> act_ret None
           | Some JNull \<Rightarrow> act_ret None
           | Some ts \<Rightarrow> if is_number ts then act_ret (Some (number_of ts))
                        else act_raise (TypeError ''closed_at is not a number''))))"

definition attempt_entry :: "'m os \<Rightarrow> string \<Rightarrow> (('m, call) host, (string \<times> rat) list) act" where
  "attempt_entry os d =
     (if basename d = ''pending'' then act_ret []
      else act_bind (path_exists os (path_div d ''backup_manifest.json'')) (\<lambda>there.
        if \<not> there then act_ret []
        else act_bind (closed_at os d) (\<lambda>ts. act_ret (case ts of None \<Rightarrow> [] | Some t \<Rightarrow> [(d, t)]))))"

text \<open>\<open>sorted(..., key=lambda x: x[1], reverse=True)\<close>: newest first, equal keys in their order.\<close>
fun insert_newest :: "string \<times> rat \<Rightarrow> (string \<times> rat) list \<Rightarrow> (string \<times> rat) list" where
  "insert_newest x [] = [x]"
| "insert_newest x (y # ys) = (if snd x < snd y then y # insert_newest x ys else x # y # ys)"

definition newest_first :: "(string \<times> rat) list \<Rightarrow> (string \<times> rat) list" where
  "newest_first xs = foldr insert_newest xs []"

text \<open>The closed attempts that may go: beyond the newest ones, and old.\<close>
definition prunable :: "int \<Rightarrow> (string \<times> rat) list \<Rightarrow> string list" where
  "prunable now cs =
     (let keep = map (\<lambda>(i, (d, ts)). d) (filter (\<lambda>(i, (d, ts)). i < BACKUP_RETENTION_MIN_ATTEMPTS
                   \<or> of_int now - ts < of_int (BACKUP_RETENTION_MIN_DAYS * 86400)) (zip [0..<length cs] cs))
      in filter (\<lambda>d. d \<notin> set keep) (map fst cs))"

definition prune_old_backups :: "'m os \<Rightarrow> (('m, call) host, unit) act" where
  "prune_old_backups os =
     act_bind (path_exists os REPAIR_STATE_DIR) (\<lambda>there.
     if \<not> there then act_ret ()
     else act_bind (listdir os REPAIR_STATE_DIR) (\<lambda>ds.
          act_bind (act_map (attempt_entry os) ds) (\<lambda>entries.
          act_bind (clock_now os) (\<lambda>now.
          act_for (prunable now (newest_first (concat entries))) (remove_path os)))))"

definition close_attempt :: "'m os \<Rightarrow> string \<Rightarrow> string \<Rightarrow> (('m, call) host, unit) act" where
  "close_attempt os attempt result =
     act_bind (clock_now os) (\<lambda>t.
     act_seq (write_text_atomic os (status_path attempt)
                (json_dumps default_style (JObj [(''outcome'', JStr result), (''closed_at'', JInt t)])))
       (prune_old_backups os))"

section \<open>The pending manifest and the rollback timer\<close>

definition pending_json :: "string \<Rightarrow> string \<Rightarrow> string \<Rightarrow> int \<Rightarrow> json" where
  "pending_json attempt target unit t = JObj [(''attempt_id'', JStr attempt), (''target_interface'', JStr target),
     (''rollback_unit'', JStr unit), (''created_at'', JInt t)]"

definition write_pending_manifest :: "'m os \<Rightarrow> string \<Rightarrow> string \<Rightarrow> string \<Rightarrow> (('m, call) host, unit) act" where
  "write_pending_manifest os attempt target unit =
     act_seq (makedirs os PENDING_MANIFEST_DIR)
     (act_bind (clock_now os) (\<lambda>t.
      write_text_atomic os PENDING_MANIFEST_PATH (json_dumps default_style (pending_json attempt target unit t))))"

definition read_pending_manifest :: "'m os \<Rightarrow> (('m, call) host, json option) act" where
  "read_pending_manifest os =
     act_bind (path_exists os PENDING_MANIFEST_PATH) (\<lambda>there.
     if \<not> there then act_ret None
     else act_bind (read_text os PENDING_MANIFEST_PATH) (\<lambda>content.
          act_bind (act_lift (json_parse content)) (\<lambda>v. act_ret (Some v))))"

definition clear_pending_manifest :: "'m os \<Rightarrow> (('m, call) host, unit) act" where
  "clear_pending_manifest os =
     act_bind (path_exists os PENDING_MANIFEST_PATH) (\<lambda>there.
     act_when there (remove_path os PENDING_MANIFEST_PATH))"

definition rollback_unit_name :: "string \<Rightarrow> string" where
  "rollback_unit_name attempt = ''baseline-repair-rollback-'' @ attempt"

definition arm_argv :: "string \<Rightarrow> int \<Rightarrow> string list" where
  "arm_argv attempt window =
     [''systemd-run'', ''--unit='' @ rollback_unit_name attempt, ''--collect'', ''--on-active='' @ str_of_int window,
      ''/opt/baseline/bin/baseline-repair-rollback'', ''same-boot'', attempt]"

definition arm_rollback :: "'m os \<Rightarrow> string \<Rightarrow> int \<Rightarrow> (('m, call) host, string) act" where
  "arm_rollback os attempt window =
     act_bind (run os (arm_argv attempt window) 10) (\<lambda>p.
     if returncode p \<noteq> 0 then
       refuse ''rollback_arm_failed'' (''could not arm the independent rollback timer: '' @ strip (stderr p))
     else act_ret (rollback_unit_name attempt))"

definition stop_argv :: "string \<Rightarrow> string list" where
  "stop_argv unit = [''systemctl'', ''stop'', unit @ ''.timer'']"

definition cancel_rollback :: "'m os \<Rightarrow> string \<Rightarrow> (('m, call) host, bool) act" where
  "cancel_rollback os unit = act_bind (run os (stop_argv unit) 10) (\<lambda>p. act_ret (returncode p = 0))"

section \<open>Verification\<close>

record verification_result =
  v_ok :: bool
  address :: string
  gateway :: string
  v_detail :: string

definition failed_check :: "string \<Rightarrow> string \<Rightarrow> string \<Rightarrow> verification_result" where
  "failed_check addr gw why = \<lparr>v_ok = False, address = addr, gateway = gw, v_detail = why\<rparr>"

definition passed_check :: "string \<Rightarrow> string \<Rightarrow> string \<Rightarrow> verification_result" where
  "passed_check addr gw what = \<lparr>v_ok = True, address = addr, gateway = gw, v_detail = what\<rparr>"

text \<open>The word after \<open>inet\<close>, up to its slash; the last such line counts.\<close>
fun parse_address :: "string \<Rightarrow> string list \<Rightarrow> exn + string" where
  "parse_address found [] = Inr found"
| "parse_address found (line # rest) =
     (case dropWhile (\<lambda>w. w \<noteq> ''inet'') (split_ws line) of
        [] \<Rightarrow> parse_address found rest
      | [w] \<Rightarrow> Inl (IndexError ''list index out of range'')
      | w # a # ws \<Rightarrow> parse_address (hd (split_on (CHR ''/'') a)) rest)"

fun parse_gateway :: "string \<Rightarrow> string list \<Rightarrow> exn + string" where
  "parse_gateway found [] = Inr found"
| "parse_gateway found (line # rest) =
     (if starts_with line ''default via'' then
        (case split_ws line of
           a # b # c # ws \<Rightarrow> parse_gateway c rest
         | _ \<Rightarrow> Inl (IndexError ''list index out of range''))
      else parse_gateway found rest)"

text \<open>\<open>verify_target(..., stabilize=False)\<close>.\<close>
definition verify_once :: "'m os \<Rightarrow> string \<Rightarrow> (('m, call) host, verification_result) act" where
  "verify_once os target =
     act_bind (run os [''ip'', ''-4'', ''-o'', ''addr'', ''show'', ''dev'', target] 5) (\<lambda>a.
     act_bind (act_lift (parse_address [] (splitlines (stdout a)))) (\<lambda>addr.
     if addr = [] then act_ret (failed_check [] [] (target @ '' has no IPv4 address''))
     else act_bind (run os [''ip'', ''-4'', ''route'', ''show'', ''dev'', target] 5) (\<lambda>r.
     act_bind (act_lift (parse_gateway [] (splitlines (stdout r)))) (\<lambda>gw.
     if gw = [] then act_ret (failed_check addr [] (target @ '' has an address but no default route via it''))
     else act_bind (run os [''ping'', ''-c'', ''1'', ''-W'', str_of_int GATEWAY_PROBE_TIMEOUT_S, ''-I'', target, gw]
                      (GATEWAY_PROBE_TIMEOUT_S + 2)) (\<lambda>ping.
       act_ret (if returncode ping \<noteq> 0
                then failed_check addr gw (''gateway '' @ gw @ '' not reachable through '' @ target @ '' itself'')
                else passed_check addr gw ''verified through the target interface itself''))))))"

definition verify_target :: "'m os \<Rightarrow> string \<Rightarrow> bool \<Rightarrow> (('m, call) host, verification_result) act" where
  "verify_target os target stabilize =
     act_bind (verify_once os target) (\<lambda>v.
     if \<not> v_ok v \<or> \<not> stabilize then act_ret v
     else act_seq (sleep os STABILIZATION_DELAY_S)
       (act_bind (verify_once os target) (\<lambda>again.
        act_ret (if v_ok again then v
                 else failed_check (address v) (gateway v)
                   (''reachable once, then failed the stabilization re-check: '' @ v_detail again)))))"

definition syntax_check_advisory_only :: "string \<Rightarrow> bool" where
  "syntax_check_advisory_only err =
     (let ls = filter (\<lambda>l. strip l \<noteq> []) (splitlines err)
      in ls \<noteq> [] \<and> list_all (\<lambda>l. starts_with (lstrip l) ''warning:'') ls)"

definition plan_repair :: "nat \<Rightarrow> 'm os \<Rightarrow> string \<Rightarrow> (('m, call) host, derivation_result) act" where
  "plan_repair fuel os observed =
     act_bind (read_interfaces_config fuel os INTERFACES_PATH) (\<lambda>cfg. act_ret (derive_target observed cfg))"

end
