(* ===== verification/Protocol.thy ===== *)
theory Protocol
  imports Runner
begin

text \<open>
  Protocols over call sequences. A protocol is a partial transition function on phases; an action
  \<open>follows\<close> it from a phase when the calls it makes, on every machine, are a run of the protocol, and the
  phase reached fits the result. The rules follow the structure of an action, so a long method is
  refined step by step. \<open>raises P m\<close> bounds the exceptions of an action in the same way.
\<close>

named_theorems follows_intros "introduction rules for follows"
named_theorems raises_intros "introduction rules for raises"

section \<open>Runs\<close>

fun run_protocol :: "('p \<Rightarrow> 'c \<Rightarrow> 'p option) \<Rightarrow> 'p \<Rightarrow> 'c list \<Rightarrow> 'p option" where
  "run_protocol step p [] = Some p"
| "run_protocol step p (c # cs) = (case step p c of None \<Rightarrow> None | Some q \<Rightarrow> run_protocol step q cs)"

lemma run_protocol_append:
  "run_protocol step p (xs @ ys) = (case run_protocol step p xs of None \<Rightarrow> None | Some q \<Rightarrow> run_protocol step q ys)"
  by (induction xs arbitrary: p) (auto split: option.splits)

lemma run_protocol_stays: "list_all (\<lambda>c. step p c = Some p) xs \<Longrightarrow> run_protocol step p xs = Some p"
  by (induction xs) auto

section \<open>Following a protocol\<close>

definition follows ::
    "('p \<Rightarrow> 'c \<Rightarrow> 'p option) \<Rightarrow> 'p \<Rightarrow> (('m, 'c) host, 'a) act \<Rightarrow> ('p \<Rightarrow> exn + 'a \<Rightarrow> bool) \<Rightarrow> bool" where
  "follows step p m R \<longleftrightarrow>
     (\<forall>h. \<exists>new q. calls (snd (m h)) = calls h @ new \<and> run_protocol step p new = Some q \<and> R q (fst (m h)))"

lemma followsD:
  assumes "follows step p m R" "m h = (r, h')"
  shows "\<exists>new q. calls h' = calls h @ new \<and> run_protocol step p new = Some q \<and> R q r"
  using assms unfolding follows_def by (metis fst_conv snd_conv)

lemma followsI:
  "(\<And>h r h'. m h = (r, h') \<Longrightarrow> \<exists>new q. calls h' = calls h @ new \<and> run_protocol step p new = Some q \<and> R q r) \<Longrightarrow>
   follows step p m R"
  unfolding follows_def by (metis prod.collapse)

lemma follows_mono: "follows step p m R \<Longrightarrow> (\<And>q r. R q r \<Longrightarrow> S q r) \<Longrightarrow> follows step p m S"
  unfolding follows_def by blast

lemma follows_ret: "R p (Inr x) \<Longrightarrow> follows step p (act_ret x) R"
  by (rule followsI) (auto intro!: exI [of _ "[]"])

lemma follows_raise: "R p (Inl e) \<Longrightarrow> follows step p (act_raise e) R"
  by (rule followsI) (auto intro!: exI [of _ "[]"])

text \<open>What a composed action does after its first part.\<close>
definition then_follows ::
    "('p \<Rightarrow> 'c \<Rightarrow> 'p option) \<Rightarrow> ('a \<Rightarrow> (('m, 'c) host, 'b) act) \<Rightarrow> ('p \<Rightarrow> exn + 'b \<Rightarrow> bool) \<Rightarrow> 'p \<Rightarrow> exn + 'a \<Rightarrow> bool" where
  "then_follows step f R q r = (case r of Inl e \<Rightarrow> R q (Inl e) | Inr x \<Rightarrow> follows step q (f x) R)"

lemma follows_bind:
  assumes m: "follows step p m (then_follows step f R)"
  shows "follows step p (act_bind m f) R"
proof (rule followsI)
  fix h r h'
  assume b: "act_bind m f h = (r, h')"
  obtain s u where u: "m h = (s, u)" by fastforce
  obtain new q where new: "calls u = calls h @ new" "run_protocol step p new = Some q" "then_follows step f R q s"
    using followsD [OF m u] by blast
  show "\<exists>new q. calls h' = calls h @ new \<and> run_protocol step p new = Some q \<and> R q r"
  proof (cases s)
    case (Inl e)
    with b u new show ?thesis by (auto simp: then_follows_def)
  next
    case (Inr x)
    then have "follows step q (f x) R" "f x u = (r, h')" using new b u by (auto simp: then_follows_def)
    from followsD [OF this] obtain ys t where "calls h' = calls u @ ys" "run_protocol step q ys = Some t" "R t r" by blast
    with new show ?thesis by (intro exI [of _ "new @ ys"] exI [of _ t]) (simp add: run_protocol_append)
  qed
qed

lemma follows_seq: "follows step p m (then_follows step (\<lambda>_. k) R) \<Longrightarrow> follows step p (act_seq m k) R"
  unfolding act_seq_def by (rule follows_bind)

lemma follows_catch:
  assumes m: "follows step p m (\<lambda>q r. case r of Inl e \<Rightarrow> follows step q (k e) R | Inr x \<Rightarrow> R q (Inr x))"
  shows "follows step p (act_catch m k) R"
proof (rule followsI)
  fix h r h'
  assume b: "act_catch m k h = (r, h')"
  obtain s u where u: "m h = (s, u)" by fastforce
  obtain new q where new: "calls u = calls h @ new" "run_protocol step p new = Some q"
    "case s of Inl e \<Rightarrow> follows step q (k e) R | Inr x \<Rightarrow> R q (Inr x)"
    using followsD [OF m u] by blast
  show "\<exists>new q. calls h' = calls h @ new \<and> run_protocol step p new = Some q \<and> R q r"
  proof (cases s)
    case (Inr x)
    with b u new show ?thesis by (auto simp: act_catch_eq)
  next
    case (Inl e)
    then have "follows step q (k e) R" "k e u = (r, h')" using new b u by (auto simp: act_catch_eq)
    from followsD [OF this] obtain ys t where "calls h' = calls u @ ys" "run_protocol step q ys = Some t" "R t r" by blast
    with new show ?thesis by (intro exI [of _ "new @ ys"] exI [of _ t]) (simp add: run_protocol_append)
  qed
qed

text \<open>Calls that leave the phase, and one call that moves it.\<close>

lemma follows_stays: "emits (\<lambda>c. step p c = Some p) m \<Longrightarrow> (\<And>r. R p r) \<Longrightarrow> follows step p m R"
  unfolding emits_def follows_def by (metis run_protocol_stays)

lemma follows_call: "step p c = Some q \<Longrightarrow> (\<And>r. R q r) \<Longrightarrow> follows step p (call_os c f) R"
  by (rule followsI) (auto simp: call_os_def Let_def case_prod_unfold)

lemma follows_if: "(b \<Longrightarrow> follows step p m R) \<Longrightarrow> (\<not> b \<Longrightarrow> follows step p k R) \<Longrightarrow> follows step p (if b then m else k) R"
  by simp

lemma follows_when: "(b \<Longrightarrow> follows step p m R) \<Longrightarrow> (\<not> b \<Longrightarrow> R p (Inr ())) \<Longrightarrow> follows step p (act_when b m) R"
  by (cases b) (auto intro: follows_ret)

lemma follows_option:
  "(v = None \<Longrightarrow> follows step p n R) \<Longrightarrow> (\<And>x. v = Some x \<Longrightarrow> follows step p (j x) R) \<Longrightarrow>
   follows step p (case v of None \<Rightarrow> n | Some x \<Rightarrow> j x) R"
  by (cases v) simp_all

lemma follows_sum:
  "(\<And>x. v = Inl x \<Longrightarrow> follows step p (n x) R) \<Longrightarrow> (\<And>x. v = Inr x \<Longrightarrow> follows step p (j x) R) \<Longrightarrow>
   follows step p (case v of Inl x \<Rightarrow> n x | Inr x \<Rightarrow> j x) R"
  by (cases v) simp_all

lemma follows_prod: "(\<And>x y. v = (x, y) \<Longrightarrow> follows step p (f x y) R) \<Longrightarrow> follows step p (case v of (x, y) \<Rightarrow> f x y) R"
  by (cases v) simp

text \<open>A first part that leaves the phase.\<close>

lemma follows_stays_bind:
  "emits (\<lambda>c. step p c = Some p) m \<Longrightarrow> (\<And>e. R p (Inl e)) \<Longrightarrow> (\<And>x. follows step p (f x) R) \<Longrightarrow>
   follows step p (act_bind m f) R"
  by (rule follows_bind, rule follows_stays) (auto simp: then_follows_def split: sum.splits)

lemma follows_stays_seq:
  "emits (\<lambda>c. step p c = Some p) m \<Longrightarrow> (\<And>e. R p (Inl e)) \<Longrightarrow> follows step p k R \<Longrightarrow> follows step p (act_seq m k) R"
  unfolding act_seq_def by (rule follows_stays_bind)

section \<open>The exceptions an action raises\<close>

definition raises :: "(exn \<Rightarrow> bool) \<Rightarrow> ('s, 'a) act \<Rightarrow> bool" where
  "raises P m \<longleftrightarrow> (\<forall>s e s'. m s = (Inl e, s') \<longrightarrow> P e)"

lemma raisesI: "(\<And>s e s'. m s = (Inl e, s') \<Longrightarrow> P e) \<Longrightarrow> raises P m"
  by (simp add: raises_def)

lemma raisesD: "raises P m \<Longrightarrow> m s = (Inl e, s') \<Longrightarrow> P e"
  by (auto simp: raises_def)

lemma raises_ret [raises_intros]: "raises P (act_ret x)"
  by (simp add: raises_def)

lemma raises_raise: "P e \<Longrightarrow> raises P (act_raise e)"
  by (simp add: raises_def)

lemma raises_lift: "(\<And>e. r = Inl e \<Longrightarrow> P e) \<Longrightarrow> raises P (act_lift r)"
  by (simp add: raises_def)

lemma raises_bind [raises_intros]: "raises P m \<Longrightarrow> (\<And>x. raises P (f x)) \<Longrightarrow> raises P (act_bind m f)"
  unfolding raises_def act_bind_eq_Inl by blast

lemma raises_seq [raises_intros]: "raises P m \<Longrightarrow> raises P k \<Longrightarrow> raises P (act_seq m k)"
  unfolding act_seq_def by (rule raises_bind)

lemma raises_when [raises_intros]: "(b \<Longrightarrow> raises P m) \<Longrightarrow> raises P (act_when b m)"
  by (cases b) (simp_all add: raises_ret)

lemma raises_if [raises_intros]: "(b \<Longrightarrow> raises P m) \<Longrightarrow> (\<not> b \<Longrightarrow> raises P k) \<Longrightarrow> raises P (if b then m else k)"
  by simp

lemma raises_option [raises_intros]:
  "raises P n \<Longrightarrow> (\<And>x. raises P (j x)) \<Longrightarrow> raises P (case v of None \<Rightarrow> n | Some x \<Rightarrow> j x)"
  by (cases v) simp_all

lemma raises_prod [raises_intros]: "(\<And>x y. raises P (f x y)) \<Longrightarrow> raises P (case v of (x, y) \<Rightarrow> f x y)"
  by (cases v) simp

lemma raises_for [raises_intros]: "(\<And>x. raises P (f x)) \<Longrightarrow> raises P (act_for xs f)"
  by (induction xs) (auto intro: raises_ret raises_seq)

lemma raises_map [raises_intros]: "(\<And>x. raises P (f x)) \<Longrightarrow> raises P (act_map f xs)"
  by (induction xs) (auto intro!: raises_ret raises_bind)

lemma raises_catch: "raises Q m \<Longrightarrow> (\<And>e. Q e \<Longrightarrow> raises P (k e)) \<Longrightarrow> raises P (act_catch m k)"
  unfolding raises_def act_catch_eq by (fastforce split: prod.splits sum.splits)

text \<open>A runner whose methods raise only \<open>P\<close>.\<close>

locale runner_raises =
  fixes P :: "exn \<Rightarrow> bool" and os :: "'m os"
  assumes raises_run: "os_run os argv t m = (Inl e, m') \<Longrightarrow> P e"
    and raises_read: "os_read_text os p m = (Inl e, m') \<Longrightarrow> P e"
    and raises_write: "os_write_text_atomic os p c m = (Inl e, m') \<Longrightarrow> P e"
    and raises_append: "os_append_text os p c m = (Inl e, m') \<Longrightarrow> P e"
    and raises_exists: "os_path_exists os p m = (Inl e, m') \<Longrightarrow> P e"
    and raises_remove: "os_remove os p m = (Inl e, m') \<Longrightarrow> P e"
    and raises_makedirs: "os_makedirs os p m = (Inl e, m') \<Longrightarrow> P e"
    and raises_listdir: "os_listdir os p m = (Inl e, m') \<Longrightarrow> P e"
    and raises_now: "os_now os m = (Inl e, m') \<Longrightarrow> P e"
    and raises_sleep: "os_sleep os n m = (Inl e, m') \<Longrightarrow> P e"
begin

lemma calls_raise:
  "raises P (run os argv t)" "raises P (read_text os p)" "raises P (write_text_atomic os p c)" "raises P (append_text os p c)"
  "raises P (path_exists os p)" "raises P (remove_path os p)" "raises P (makedirs os p)" "raises P (listdir os p)"
  "raises P (clock_now os)" "raises P (sleep os n)"
  unfolding runner_defs
  by (rule raisesI, drule call_osD,
      erule raises_run raises_read raises_write raises_append raises_exists raises_remove raises_makedirs raises_listdir
        raises_now raises_sleep)+

end

definition is_refusal :: "exn \<Rightarrow> bool" where
  "is_refusal e = (case e of RepairRefused code detail \<Rightarrow> True | _ \<Rightarrow> False)"

lemma is_refusal_simps [simp]: "is_refusal (RepairRefused c d)" "\<not> is_refusal (OSError d)" "\<not> is_refusal (TypeError d)"
  "\<not> is_refusal (AttributeError d)" "\<not> is_refusal (ValueError d)" "\<not> is_refusal Unfinished"
  by (simp_all add: is_refusal_def)

interpretation lab_runner: runner_raises "\<lambda>e. \<not> is_refusal e" lab_os
  by unfold_locales (auto simp: lab_os_def lab_run_def lab_read_def lab_append_def Let_def split: if_splits option.splits)

end
