(* ===== verification/RepairPipeline.thy ===== *)
theory RepairPipeline
  imports Repair Protocol
begin

text \<open>
  The transaction of \<open>repair.reset_interface_to_dhcp\<close> and \<open>repair_additive.add_dhcp_to_bridge\<close>. The two
  functions of the source have the same nine steps and differ in how the target is derived, how the configuration is rewritten,
  what runs after the reload, how the result is verified and what is logged: these are the fields of \<open>repair_mode\<close>, and each
  function is the transaction in its mode. The attempt identifier (a fresh \<open>uuid4\<close> in the source) and the
  lifeline check are arguments; the check talks to the network beside the runner.

  The lemmas follow one transaction through an abstract protocol, phase by phase.
\<close>

section \<open>The transaction\<close>

record fact =
  fact_name :: string
  fact_ok :: bool
  fact_detail :: string

definition fact_named :: "fact list \<Rightarrow> string \<Rightarrow> fact option" where
  "fact_named facts name = map_of (rev (map (\<lambda>f. (fact_name f, f)) facts)) name"

text \<open>Neither the address nor the gateway is reported as failed.\<close>
definition seems_healthy :: "fact list \<Rightarrow> bool" where
  "seems_healthy facts =
     ((case fact_named facts ''gateway_reachable'' of None \<Rightarrow> True | Some f \<Rightarrow> fact_ok f)
      \<and> (case fact_named facts ''address_assigned'' of None \<Rightarrow> True | Some f \<Rightarrow> fact_ok f))"

record 'm repair_mode =
  mode_note :: string
  derive :: "string \<Rightarrow> parsed \<Rightarrow> derivation_result"
  none_code :: string
  residual :: "target_candidate \<Rightarrow> (string \<times> (string \<times> json) list) option"
  rewrite :: "parsed \<Rightarrow> string \<Rightarrow> string + (string \<times> string) list"
  written :: "target_candidate \<Rightarrow> string"
  supplement :: bool
  verify :: "string \<Rightarrow> (('m, call) host, verification_result) act"
  report :: "target_candidate \<Rightarrow> verification_result \<Rightarrow> string"
  evidence :: "verification_result \<Rightarrow> (string \<times> bool) list"

text \<open>Steps 1 and 2: the guards, the target, whether it is broken, and who would be cut off.\<close>

definition find_target ::
    "pylib \<Rightarrow> 'm repair_mode \<Rightarrow> nat \<Rightarrow> 'm os \<Rightarrow> string \<Rightarrow> string \<Rightarrow> string \<Rightarrow> (('m, call) host, target_candidate) act" where
  "find_target lib mode fuel os attempt observed proposed =
     act_seq (check_standalone_host os)
     (act_bind (detect_ifupdown2 os) (\<lambda>cap.
      act_seq (act_when (\<not> present cap) (refuse ''unsupported_environment'' (cap_detail cap)))
      (act_bind (read_interfaces_config fuel os INTERFACES_PATH) (\<lambda>cfg.
       case derive mode observed cfg of d \<Rightarrow>
       (case d_target d of
          None \<Rightarrow> refuse (if 1 < length (candidates d) then ''topology_ambiguous'' else none_code mode) (d_reason d)
        | Some target \<Rightarrow>
            act_seq (act_when (proposed \<noteq> [] \<and> proposed \<noteq> tc_name target)
              (act_seq (log_event lib os attempt ''target_discrepancy'' ''info''
                 (''harness proposed '' @ py_repr proposed @ '', Baseline derived '' @ py_repr (tc_name target) @
                  '' - using the derivation'') []) (act_ret ())))
              (act_ret target))))))"

definition validate_target ::
    "pylib \<Rightarrow> 'm repair_mode \<Rightarrow> 'm os \<Rightarrow> string \<Rightarrow> bool \<Rightarrow> ('m \<Rightarrow> (exn + fact list) \<times> 'm) \<Rightarrow> target_candidate
     \<Rightarrow> (('m, call) host, unit) act" where
  "validate_target lib mode os attempt operator_present check_lifeline target =
     act_bind (off_runner check_lifeline) (\<lambda>facts.
     act_seq (act_when (seems_healthy facts)
       (refuse ''already_healthy'' (tc_name target @ '' currently reports address_assigned/gateway_reachable OK - '' @
         ''refusing to change a device that isn't actually broken'')))
     (act_bind (check_connection_guard os (physical_devices target) operator_present) (\<lambda>sessions.
      act_seq (act_when (sessions \<noteq> [])
        (act_seq (log_event lib os attempt ''protected_sessions_disclosed'' ''info''
           (str_of_int (int (length sessions)) @ '' protected session(s), operator present, proceeding with disclosure'')
           [(''protected_ports'', JList (map JInt (session_ports sessions)))]) (act_ret ())))
      (act_seq (log_event lib os attempt ''validated'' ''info'' (''target_interface='' @ tc_name target @ mode_note mode)
          [(''target_interface'', JStr (tc_name target)), (''topology'', JStr (tc_kind target))])
      (case residual mode target of
         None \<Rightarrow> act_ret ()
       | Some (detail, extra) \<Rightarrow>
           act_seq (log_event lib os attempt ''residual_config_detected'' ''info'' detail extra) (act_ret ()))))))"

text \<open>Steps 3 and 4: the backup, then the rollback timer and the pending manifest.\<close>

definition back_up ::
    "pylib \<Rightarrow> nat \<Rightarrow> 'm os \<Rightarrow> string \<Rightarrow> (('m, call) host, string) act" where
  "back_up lib fuel os attempt =
     act_bind (read_interfaces_config fuel os INTERFACES_PATH) (\<lambda>cfg.
     act_bind (create_backup lib os attempt cfg) (\<lambda>closure.
     act_seq (log_event lib os attempt ''backup_written'' ''info'' ''backup byte-verified'' [(''backup_hash'', JStr closure)])
       (act_ret closure)))"

definition announce_rollback ::
    "pylib \<Rightarrow> 'm os \<Rightarrow> string \<Rightarrow> target_candidate \<Rightarrow> int \<Rightarrow> string \<Rightarrow> (('m, call) host, unit) act" where
  "announce_rollback lib os attempt target window unit =
     act_seq (write_pending_manifest os attempt (tc_name target) unit)
     (act_seq (log_event lib os attempt ''rollback_armed'' ''info''
        (''unit='' @ unit @ '' window='' @ str_of_int window @ ''s'') [(''rollback_unit'', JStr unit)]) (act_ret ()))"

text \<open>An attempt that ends before anything was applied: timer, pending manifest and attempt are closed.\<close>
definition abandon :: "'m os \<Rightarrow> string \<Rightarrow> string \<Rightarrow> string \<Rightarrow> (('m, call) host, unit) act" where
  "abandon os attempt unit result =
     act_seq (cancel_rollback os unit) (act_seq (clear_pending_manifest os) (close_attempt os attempt result))"

text \<open>Revalidation and step 5: the changed files are written.\<close>

definition write_changes :: "'m os \<Rightarrow> parsed \<Rightarrow> (string \<times> string) list \<Rightarrow> (('m, call) host, unit) act" where
  "write_changes os cfg new_files =
     act_for new_files (\<lambda>(path, content).
       act_when (map_of (files cfg) path \<noteq> Some content) (write_text_atomic os path content))"

definition write_candidate ::
    "pylib \<Rightarrow> 'm repair_mode \<Rightarrow> nat \<Rightarrow> 'm os \<Rightarrow> string \<Rightarrow> target_candidate \<Rightarrow> string \<Rightarrow> string \<Rightarrow> (('m, call) host, unit) act" where
  "write_candidate lib mode fuel os attempt target unit closure =
     act_bind (read_interfaces_config fuel os INTERFACES_PATH) (\<lambda>cfg.
     if hash_closure (sha256 lib) (files cfg) \<noteq> closure then
       act_seq (abandon os attempt unit ''refused_concurrent_change'')
         (refuse ''concurrent_config_change'' (''interfaces config changed since the backup was taken - refusing to overwrite '' @
           ''a change this action didn't make or review; a fresh proposal is needed''))
     else case rewrite mode cfg (tc_name target) of
       Inl e \<Rightarrow>
         act_bind (restore_backup lib os attempt) (\<lambda>(restored, how).
         act_seq (abandon os attempt unit ''refused_rewrite_error'')
           (refuse ''rewrite_error'' (e @ ''; restore: '' @ how)))
     | Inr new_files \<Rightarrow>
         act_seq (write_changes os cfg new_files)
         (act_seq (log_event lib os attempt ''written'' ''info'' (written mode target) []) (act_ret ())))"

text \<open>Step 6.\<close>
definition check_syntax :: "pylib \<Rightarrow> 'm os \<Rightarrow> string \<Rightarrow> string \<Rightarrow> (('m, call) host, unit) act" where
  "check_syntax lib os attempt unit =
     act_bind (run os [''ifreload'', ''--syntax-check'', ''-a''] 15) (\<lambda>p.
     if returncode p \<noteq> 0 \<and> \<not> syntax_check_advisory_only (stderr p) then
       act_bind (restore_backup lib os attempt) (\<lambda>(restored, how).
       act_seq (abandon os attempt unit ''refused_syntax_invalid'')
       (act_seq (log_event lib os attempt ''restored'' (if restored then ''info'' else ''fail'') how [])
         (refuse ''syntax_invalid'' (''ifreload --syntax-check failed: '' @ strip (stderr p) @ ''; restore: '' @ how))))
     else if returncode p \<noteq> 0 then
       act_seq (log_event lib os attempt ''syntax_check_advisory'' ''info''
         (''non-zero exit but advisory-only warnings, proceeding: '' @ strip (stderr p)) []) (act_ret ())
     else act_ret ())"

definition RELOAD :: "string list" where "RELOAD = [''ifreload'', ''-a'']"

text \<open>Step 7, and what the additive mode runs after it.\<close>
definition apply_candidate ::
    "pylib \<Rightarrow> 'm repair_mode \<Rightarrow> 'm os \<Rightarrow> string \<Rightarrow> target_candidate \<Rightarrow> (('m, call) host, unit) act" where
  "apply_candidate lib mode os attempt target =
     act_bind (run os RELOAD 30) (\<lambda>p.
     act_seq (log_event lib os attempt ''applied'' (if returncode p = 0 then ''pass'' else ''fail'')
       (if returncode p \<noteq> 0 then strip (stderr p) else ''ifreload -a completed'') [])
     (act_seq (act_when (returncode p \<noteq> 0)
       (refuse ''apply_failed'' (''ifreload -a failed: '' @ strip (stderr p) @ ''; independent rollback stays armed'')))
     (act_when (supplement mode)
       (act_bind (run os [''dhclient'', tc_name target] 30) (\<lambda>d.
        act_seq (log_event lib os attempt ''dhclient_supplementary'' (if returncode d = 0 then ''pass'' else ''fail'')
          (if returncode d \<noteq> 0 then strip (stderr d) else ''dhclient '' @ tc_name target @ '' completed'') [])
        (act_when (returncode d \<noteq> 0)
          (refuse ''dhclient_failed'' (''supplementary dhclient '' @ tc_name target @ '' failed: '' @ strip (stderr d) @
            ''; independent rollback stays armed''))))))))"

text \<open>Steps 8 and 9: only a verified target ends the rollback.\<close>
definition conclude ::
    "pylib \<Rightarrow> 'm repair_mode \<Rightarrow> 'm os \<Rightarrow> string \<Rightarrow> target_candidate \<Rightarrow> string \<Rightarrow> (('m, call) host, repair_result) act" where
  "conclude lib mode os attempt target unit =
     act_bind (verify mode (tc_name target)) (\<lambda>v.
     if \<not> v_ok v then
       act_seq (log_event lib os attempt ''verify_timeout'' ''fail'' (v_detail v) [])
         (act_ret \<lparr>r_ok = False, r_attempt = attempt, outcome = ''rolled_back'', r_detail =
            ''target-bound verification failed ('' @ v_detail v @
            ''); independent rollback remains armed and will restore the original config'', verification = []\<rparr>)
     else
       act_seq (log_event lib os attempt ''verify_pass'' ''pass'' (''address='' @ address v @ '' gateway='' @ gateway v) [])
       (act_seq (abandon os attempt unit ''success'')
       (act_seq (log_event lib os attempt ''cancelled_rollback'' ''info'' ''verification succeeded'' [])
         (act_ret \<lparr>r_ok = True, r_attempt = attempt, outcome = ''success'', r_detail = report mode target v,
            verification = evidence mode v\<rparr>))))"

definition after_arming ::
    "pylib \<Rightarrow> 'm repair_mode \<Rightarrow> nat \<Rightarrow> 'm os \<Rightarrow> string \<Rightarrow> target_candidate \<Rightarrow> int \<Rightarrow> string \<Rightarrow> string
     \<Rightarrow> (('m, call) host, repair_result) act" where
  "after_arming lib mode fuel os attempt target window closure unit =
     act_seq (announce_rollback lib os attempt target window unit)
     (act_seq (write_candidate lib mode fuel os attempt target unit closure)
     (act_seq (check_syntax lib os attempt unit)
     (act_seq (apply_candidate lib mode os attempt target)
       (conclude lib mode os attempt target unit))))"

definition transaction ::
    "pylib \<Rightarrow> 'm repair_mode \<Rightarrow> nat \<Rightarrow> 'm os \<Rightarrow> string \<Rightarrow> string \<Rightarrow> string \<Rightarrow> bool \<Rightarrow> int
     \<Rightarrow> ('m \<Rightarrow> (exn + fact list) \<times> 'm) \<Rightarrow> (('m, call) host, repair_result) act" where
  "transaction lib mode fuel os attempt observed proposed operator_present window check_lifeline =
     act_bind (find_target lib mode fuel os attempt observed proposed) (\<lambda>target.
     act_seq (validate_target lib mode os attempt operator_present check_lifeline target)
     (act_bind (back_up lib fuel os attempt) (\<lambda>closure.
      act_bind (arm_rollback os attempt window) (\<lambda>unit.
      after_arming lib mode fuel os attempt target window closure unit))))"

text \<open>\<open>except RepairRefused\<close>: other exceptions pass.\<close>
definition repair_attempt ::
    "pylib \<Rightarrow> 'm repair_mode \<Rightarrow> nat \<Rightarrow> 'm os \<Rightarrow> string \<Rightarrow> string \<Rightarrow> string \<Rightarrow> string \<Rightarrow> bool \<Rightarrow> int
     \<Rightarrow> ('m \<Rightarrow> (exn + fact list) \<times> 'm) \<Rightarrow> (('m, call) host, repair_result) act" where
  "repair_attempt lib mode fuel os attempt observed requested_by proposed operator_present window check_lifeline =
     act_seq (log_event lib os attempt ''proposed'' ''info''
       (''observed_dev='' @ observed @ '' proposed_target='' @ py_repr proposed @ '' requested_by='' @ requested_by @ mode_note mode) [])
     (act_catch (transaction lib mode fuel os attempt observed proposed operator_present window check_lifeline)
       (\<lambda>e. case e of
          RepairRefused code detail \<Rightarrow>
            act_seq (log_event lib os attempt ''refused'' ''fail'' detail [(''code'', JStr code)])
              (act_ret \<lparr>r_ok = False, r_attempt = attempt, outcome = ''refused'', r_detail = code @ '': '' @ detail,
                 verification = []\<rparr>)
        | _ \<Rightarrow> act_raise e))"

section \<open>The two modes\<close>

definition replace_mode :: "'m os \<Rightarrow> 'm repair_mode" where
  "replace_mode os = \<lparr>mode_note = [], derive = derive_target, none_code = ''no_static_config'', residual = (\<lambda>target. None),
     rewrite = rewrite_stanza_to_dhcp, written = (\<lambda>target. tc_name target @ '' rewritten to inet dhcp''),
     supplement = False, verify = (\<lambda>dev. verify_target os dev True),
     report = (\<lambda>target v. tc_name target @ '' reset to DHCP; address='' @ address v @ '' gateway='' @ gateway v),
     evidence = (\<lambda>v. [(''address'', address v \<noteq> []), (''gateway'', gateway v \<noteq> [])])\<rparr>"

definition reset_interface_to_dhcp ::
    "pylib \<Rightarrow> nat \<Rightarrow> 'm os \<Rightarrow> string \<Rightarrow> string \<Rightarrow> string \<Rightarrow> string \<Rightarrow> bool \<Rightarrow> int
     \<Rightarrow> ('m \<Rightarrow> (exn + fact list) \<times> 'm) \<Rightarrow> (('m, call) host, repair_result) act" where
  "reset_interface_to_dhcp lib fuel os = repair_attempt lib (replace_mode os) fuel os"

definition PROBE_HOST :: string where "PROBE_HOST = ''deb.debian.org''"

definition is_digits :: "string \<Rightarrow> bool" where
  "is_digits s = (s \<noteq> [] \<and> list_all is_digit s)"

definition verify_target_extended :: "'m os \<Rightarrow> string \<Rightarrow> string \<Rightarrow> bool \<Rightarrow> (('m, call) host, verification_result) act" where
  "verify_target_extended os target probe_host stabilize =
     act_bind (verify_target os target stabilize) (\<lambda>base.
     if \<not> v_ok base then act_ret base
     else act_bind (run os [''getent'', ''hosts'', probe_host] 5) (\<lambda>dns.
       if returncode dns \<noteq> 0 \<or> strip (stdout dns) = [] then
         act_ret (failed_check (address base) (gateway base) (''DNS resolution for '' @ probe_host @ '' failed''))
       else act_bind (run os [''curl'', ''-sS'', ''--interface'', target, ''-o'', ''/dev/null'', ''-m'', ''8'', ''-w'', ''%{http_code}'',
                        ''https://'' @ probe_host @ ''/''] 12) (\<lambda>https.
         let code = strip (stdout https)
         in act_ret (if returncode https \<noteq> 0 \<or> \<not> is_digits code \<or> code = ''000''
              then failed_check (address base) (gateway base) (''outbound HTTPS to '' @ probe_host @ '' via '' @ target @
                     '' failed (curl exit='' @ str_of_int (returncode https) @ '', http_code='' @ py_repr code @ '')'')
              else passed_check (address base) (gateway base)
                     ''address, route, gateway, DNS, and outbound HTTPS all verified through the target interface itself''))))"

definition plan_additive_repair :: "nat \<Rightarrow> 'm os \<Rightarrow> string \<Rightarrow> (('m, call) host, derivation_result) act" where
  "plan_additive_repair fuel os observed =
     act_bind (read_interfaces_config fuel os INTERFACES_PATH) (\<lambda>cfg. act_ret (derive_additive_target observed cfg))"

definition plan_and_derive :: "nat \<Rightarrow> 'm os \<Rightarrow> string \<Rightarrow> (('m, call) host, string \<times> derivation_result) act" where
  "plan_and_derive fuel os observed =
     act_bind (plan_repair fuel os observed) (\<lambda>r.
     if derivation_ok r \<or> candidates r \<noteq> [] then act_ret (''replace'', r)
     else act_bind (plan_additive_repair fuel os observed) (\<lambda>a.
       act_ret (if derivation_ok a \<or> candidates a \<noteq> [] then (''additive'', a) else (''replace'', r))))"

definition additive_mode :: "'m os \<Rightarrow> 'm repair_mode" where
  "additive_mode os = \<lparr>mode_note = '' mode=additive'', derive = derive_additive_target, none_code = ''no_additive_candidate'',
     residual = (\<lambda>target. Some (tc_name target @ '' retains its existing '' @ family (tc_stanza target) @ '' '' @
         meth (tc_stanza target) @ '' stanza unchanged; this repair only adds a new inet dhcp stanza alongside it'',
       [(''residual_family'', JStr (family (tc_stanza target))), (''residual_method'', JStr (meth (tc_stanza target)))])),
     rewrite = add_dhcp_stanza,
     written = (\<lambda>target. tc_name target @ '' gained an additive inet dhcp stanza (existing '' @ family (tc_stanza target) @ '' '' @
       meth (tc_stanza target) @ '' stanza preserved unchanged)''),
     supplement = True, verify = (\<lambda>dev. verify_target_extended os dev PROBE_HOST True),
     report = (\<lambda>target v. tc_name target @ '' gained a new inet dhcp stanza (existing '' @ family (tc_stanza target) @
       '' stanza preserved); address='' @ address v @ '' gateway='' @ gateway v),
     evidence = (\<lambda>v. [(''address'', address v \<noteq> []), (''gateway'', gateway v \<noteq> []), (''dns'', True), (''https'', True)])\<rparr>"

definition add_dhcp_to_bridge ::
    "pylib \<Rightarrow> nat \<Rightarrow> 'm os \<Rightarrow> string \<Rightarrow> string \<Rightarrow> string \<Rightarrow> string \<Rightarrow> bool \<Rightarrow> int
     \<Rightarrow> ('m \<Rightarrow> (exn + fact list) \<times> 'm) \<Rightarrow> (('m, call) host, repair_result) act" where
  "add_dhcp_to_bridge lib fuel os = repair_attempt lib (additive_mode os) fuel os"

end
