(* ===== verification/RepairProtocol.thy ===== *)
theory RepairProtocol
  imports RepairPipeline
begin

text \<open>
  The transaction of \<open>repair.py\<close> against an abstract protocol of five phases. The calls that matter are arming the rollback
  timer, writing a file outside the repair's own directory, reloading the network and stopping the
  timer; everything else is quiet. Both repair functions, on every machine, follow the protocol.
\<close>

section \<open>The protocol\<close>

datatype phase = Guarding | Armed | Applied | Confirmed | Abandoned

datatype event = Arm | Edit | Reload | Stop | Quiet

definition event_of :: "string \<Rightarrow> int \<Rightarrow> call \<Rightarrow> event" where
  "event_of attempt window c =
     (case c of
        CRun argv t \<Rightarrow>
          if argv = arm_argv attempt window then Arm
          else if argv = RELOAD then Reload
          else if argv = stop_argv (rollback_unit_name attempt) then Stop
          else Quiet
      | CWrite p content \<Rightarrow> if own_path p then Quiet else Edit
      | _ \<Rightarrow> Quiet)"

fun advance :: "phase \<Rightarrow> event \<Rightarrow> phase option" where
  "advance p Quiet = Some p"
| "advance Guarding Arm = Some Armed"
| "advance Armed Edit = Some Armed"
| "advance Armed Reload = Some Applied"
| "advance Armed Stop = Some Abandoned"
| "advance Applied Stop = Some Confirmed"
| "advance _ _ = None"

definition repair_step :: "string \<Rightarrow> int \<Rightarrow> phase \<Rightarrow> call \<Rightarrow> phase option" where
  "repair_step attempt window p c = advance p (event_of attempt window c)"

text \<open>Calls that leave every phase.\<close>
definition quiet_call :: "string \<Rightarrow> int \<Rightarrow> call \<Rightarrow> bool" where
  "quiet_call attempt window c \<longleftrightarrow> event_of attempt window c = Quiet"

lemma quiet_step: "quiet_call a w c \<Longrightarrow> repair_step a w p c = Some p"
  by (simp add: quiet_call_def repair_step_def)

lemma quiet_stays: "emits (quiet_call a w) m \<Longrightarrow> emits (\<lambda>c. repair_step a w p c = Some p) m"
  by (erule emits_mono) (rule quiet_step)

named_theorems quiet_intros "actions that make only quiet calls"

lemma heads: "hd (arm_argv a w) = ''systemd-run''" "hd RELOAD = ''ifreload''" "hd (stop_argv u) = ''systemctl''"
  by (simp_all add: arm_argv_def RELOAD_def stop_argv_def)

lemma quiet_command: "hd argv \<notin> {''systemd-run'', ''ifreload'', ''systemctl''} \<Longrightarrow> quiet_call a w (CRun argv t)"
proof -
  assume h: "hd argv \<notin> {''systemd-run'', ''ifreload'', ''systemctl''}"
  have "argv \<noteq> arm_argv a w" "argv \<noteq> RELOAD" "argv \<noteq> stop_argv u" for u
    using h heads by (metis insertCI)+
  then show ?thesis by (simp add: quiet_call_def event_of_def)
qed

lemma quiet_calls [simp]:
  "quiet_call a w (CRead p)" "quiet_call a w (CAppend p c)" "quiet_call a w (CExists p)" "quiet_call a w (CRemove p)"
  "quiet_call a w (CMakedirs p)" "quiet_call a w (CListdir p)" "quiet_call a w CNow" "quiet_call a w (CSleep n)"
  by (simp_all add: quiet_call_def event_of_def)

lemma quiet_write: "own_path p \<Longrightarrow> quiet_call a w (CWrite p c)"
  by (simp add: quiet_call_def event_of_def)

lemma quiet_runner [quiet_intros]:
  "emits (quiet_call a w) (read_text os p)" "emits (quiet_call a w) (append_text os p c)" "emits (quiet_call a w) (path_exists os p)"
  "emits (quiet_call a w) (remove_path os p)" "emits (quiet_call a w) (makedirs os p)" "emits (quiet_call a w) (listdir os p)"
  "emits (quiet_call a w) (clock_now os)" "emits (quiet_call a w) (sleep os n)"
  by (intro emits_intros; simp)+

lemma quiet_run: "hd argv \<notin> {''systemd-run'', ''ifreload'', ''systemctl''} \<Longrightarrow> emits (quiet_call a w) (run os argv t)"
  by (rule emits_run) (rule quiet_command)

lemma quiet_own_write: "own_path p \<Longrightarrow> emits (quiet_call a w) (write_text_atomic os p c)"
  by (rule emits_write) (rule quiet_write)

lemma quiet_refuse [quiet_intros]: "emits P (refuse c d)"
  unfolding refuse_def by (rule emits_raise)

section \<open>The quiet parts of the transaction\<close>

lemma quiet_log [quiet_intros]: "emits (quiet_call a w) (log_event lib os att step status detail extra)"
  unfolding log_event_def Let_def by (intro emits_intros quiet_intros)

lemma quiet_standalone [quiet_intros]: "emits (quiet_call a w) (check_standalone_host os)"
  unfolding check_standalone_host_def by (intro emits_seq emits_for emits_bind emits_when quiet_intros quiet_run) simp

lemma quiet_detect [quiet_intros]: "emits (quiet_call a w) (detect_ifupdown2 os)"
  unfolding detect_ifupdown2_def Let_def by (intro emits_bind emits_if emits_ret quiet_run) simp_all

lemma quiet_catch_os: "emits P m \<Longrightarrow> emits P k \<Longrightarrow> emits P (catch_os_error m k)"
  unfolding catch_os_error_def by (rule emits_catch) (auto split: exn.split intro: emits_raise)

lemma quiet_sources: "emits (quiet_call a w) (line_sources os line)"
  unfolding line_sources_def by (intro emits_option emits_if emits_bind emits_ret quiet_catch_os quiet_intros)

lemma quiet_closure: "emits (quiet_call a w) (read_closure n os todo seen fs)"
proof (induction n os todo seen fs rule: read_closure.induct)
  case (3 fuel os path todo seen fs)
  then show ?case
    by (simp only: read_closure.simps) (intro emits_if emits_bind emits_option emits_ret emits_map quiet_catch_os quiet_sources
      quiet_intros; simp)
qed (simp_all only: read_closure.simps emits_ret emits_raise)

lemma quiet_config [quiet_intros]: "emits (quiet_call a w) (read_interfaces_config n os p)"
  unfolding read_interfaces_config_def by (intro emits_bind emits_ret quiet_closure)

lemma quiet_ports: "emits (quiet_call a w) (load_protected_ports os)"
proof -
  have "emits (quiet_call a w) (case extra_ports content of
         Inr ps \<Rightarrow> act_ret (fold List.insert ps DEFAULT_PROTECTED_PORTS)
       | Inl (ValueError e) \<Rightarrow> act_ret DEFAULT_PROTECTED_PORTS
       | Inl (TypeError e) \<Rightarrow> act_ret DEFAULT_PROTECTED_PORTS
       | Inl e \<Rightarrow> act_raise e)" for content
    by (auto split: sum.split exn.split intro: emits_ret emits_raise)
  then show ?thesis
    unfolding load_protected_ports_def by (intro emits_bind emits_if emits_ret quiet_intros)
qed

lemma quiet_guard [quiet_intros]: "emits (quiet_call a w) (check_connection_guard os devices b)"
  unfolding check_connection_guard_def find_protected_sessions_def
  by (intro emits_bind emits_if emits_ret quiet_ports quiet_run quiet_intros) simp

lemma quiet_backup_file: "emits (quiet_call a w) (backup_file os att f)"
  unfolding backup_file_def by (cases f) (auto intro!: emits_seq emits_bind emits_when quiet_own_write quiet_intros)

lemma quiet_create_backup [quiet_intros]: "emits (quiet_call a w) (create_backup lib os att cfg)"
  unfolding create_backup_def
  by (intro emits_seq emits_bind emits_for emits_ret quiet_backup_file quiet_own_write quiet_intros) simp

lemma quiet_prune: "emits (quiet_call a w) (prune_old_backups os)"
proof -
  have c: "emits (quiet_call a w) (closed_at os d)" for d
    unfolding closed_at_def
    by (intro emits_bind emits_if emits_ret emits_option emits_lift quiet_intros)
      (auto split: json.split intro: emits_ret emits_raise)
  have "emits (quiet_call a w) (attempt_entry os d)" for d
    unfolding attempt_entry_def by (intro emits_if emits_bind emits_ret c quiet_intros)
  then show ?thesis
    unfolding prune_old_backups_def by (intro emits_bind emits_if emits_ret emits_map emits_for quiet_intros)
qed

lemma quiet_close [quiet_intros]: "emits (quiet_call a w) (close_attempt os att r)"
  unfolding close_attempt_def by (intro emits_bind emits_seq quiet_own_write quiet_prune quiet_intros) simp

lemma quiet_write_pending [quiet_intros]: "emits (quiet_call a w) (write_pending_manifest os att t u)"
  unfolding write_pending_manifest_def by (intro emits_bind emits_seq quiet_own_write quiet_intros) simp

lemma quiet_clear_pending [quiet_intros]: "emits (quiet_call a w) (clear_pending_manifest os)"
  unfolding clear_pending_manifest_def by (intro emits_bind emits_when quiet_intros)

lemma quiet_verify_once: "emits (quiet_call a w) (verify_once os t)"
  unfolding verify_once_def by (intro emits_bind emits_if emits_ret emits_lift quiet_run) simp_all

lemma quiet_verify [quiet_intros]: "emits (quiet_call a w) (verify_target os t b)"
  unfolding verify_target_def by (intro emits_bind emits_if emits_ret emits_seq quiet_verify_once quiet_intros)

lemma quiet_verify_extended: "emits (quiet_call a w) (verify_target_extended os t p b)"
  unfolding verify_target_extended_def Let_def
  by (intro emits_bind emits_if emits_ret quiet_verify quiet_run) simp_all


section \<open>Exceptions after the timer was stopped\<close>

text \<open>What a runner that never refuses on its own gives: the closing steps do not refuse either.\<close>

abbreviation unrefusing :: "exn \<Rightarrow> bool" where
  "unrefusing e \<equiv> \<not> is_refusal e"

context runner_raises
begin

lemma raises_log: "raises P (log_event lib os att step status detail extra)"
  unfolding log_event_def Let_def by (intro raises_intros calls_raise)

lemma raises_cancel: "raises P (cancel_rollback os u)"
  unfolding cancel_rollback_def by (intro raises_intros calls_raise)

lemma raises_clear_pending: "raises P (clear_pending_manifest os)"
  unfolding clear_pending_manifest_def by (intro raises_intros calls_raise)

end

lemma get_unrefusing: "get v k = Inl e \<Longrightarrow> unrefusing e"
  by (auto simp: get_def split: json.splits)

lemma raises_close:
  assumes "runner_raises unrefusing os"
  shows "raises unrefusing (close_attempt os att r)"
proof -
  note calls_raise = runner_raises.calls_raise [OF assms]
  have c: "raises unrefusing (closed_at os d)" for d
    unfolding closed_at_def
    by (intro raises_intros calls_raise raises_lift)
      (auto split: json.split dest: get_unrefusing intro: raises_ret raises_raise)
  have "raises unrefusing (attempt_entry os d)" for d
    unfolding attempt_entry_def by (intro raises_intros calls_raise c)
  then show ?thesis
    unfolding close_attempt_def prune_old_backups_def by (intro raises_intros calls_raise)
qed


section \<open>The parts that move the phase\<close>

lemma follows_raises:
  "follows step p m R \<Longrightarrow> raises P m \<Longrightarrow> follows step p m (\<lambda>q r. R q r \<and> (\<forall>e. r = Inl e \<longrightarrow> P e))"
  unfolding follows_def raises_def by (metis prod.collapse)

text \<open>A transaction that returns is successful exactly when it ended confirmed.\<close>
definition settled :: "phase \<Rightarrow> exn + repair_result \<Rightarrow> bool" where
  "settled q r = (case r of Inl e \<Rightarrow> q \<noteq> Confirmed \<or> unrefusing e | Inr x \<Rightarrow> r_ok x = (q = Confirmed))"

lemma settled_Inl: "p \<noteq> Confirmed \<Longrightarrow> settled p (Inl e)"
  by (simp add: settled_def)

lemma follows_run:
  "repair_step a w p (CRun argv t) = Some q \<Longrightarrow> (\<And>r. R q r) \<Longrightarrow> follows (repair_step a w) p (run os argv t) R"
  unfolding run_def by (rule follows_call)

lemma distinct_argv [simp]: "stop_argv u \<noteq> arm_argv a w" "stop_argv u \<noteq> RELOAD" "RELOAD \<noteq> arm_argv a w"
  by (simp_all add: stop_argv_def arm_argv_def RELOAD_def)

lemma step_simps [simp]:
  "repair_step a w Guarding (CRun (arm_argv a w) t) = Some Armed"
  "repair_step a w Armed (CRun RELOAD t) = Some Applied"
  "repair_step a w Armed (CRun (stop_argv (rollback_unit_name a)) t) = Some Abandoned"
  "repair_step a w Applied (CRun (stop_argv (rollback_unit_name a)) t) = Some Confirmed"
  by (simp_all add: repair_step_def event_of_def)

lemma follows_arm:
  "follows (repair_step a w) Guarding (arm_rollback os a w) (\<lambda>q r. q = Armed \<and> (\<forall>u. r = Inr u \<longrightarrow> u = rollback_unit_name a))"
  unfolding arm_rollback_def refuse_def
  by (rule follows_bind, rule follows_run [OF step_simps(1)])
    (auto simp: then_follows_def split: sum.splits intro!: follows_if follows_ret follows_raise)

definition closed_phase :: "phase \<Rightarrow> phase" where
  "closed_phase p = (if p = Armed then Abandoned else Confirmed)"

lemma follows_abandon:
  assumes "p = Armed \<or> p = Applied" and honest: "runner_raises unrefusing os"
  shows "follows (repair_step a w) p (abandon os a (rollback_unit_name a) result)
    (\<lambda>q r. q = closed_phase p \<and> (\<forall>e. r = Inl e \<longrightarrow> unrefusing e))"
proof (rule follows_raises)
  have rest: "follows (repair_step a w) q (act_seq (clear_pending_manifest os) (close_attempt os a result)) (\<lambda>q' r. q' = q)" for q
    by (rule follows_stays, rule quiet_stays) (auto intro!: emits_seq quiet_intros)
  have "follows (repair_step a w) p (cancel_rollback os (rollback_unit_name a)) (\<lambda>q r. q = closed_phase p)"
    unfolding cancel_rollback_def
    by (rule follows_bind, rule follows_run [where q = "closed_phase p"])
      (use assms(1) in \<open>auto simp: then_follows_def closed_phase_def split: sum.splits intro!: follows_ret\<close>)
  then show "follows (repair_step a w) p (abandon os a (rollback_unit_name a) result) (\<lambda>q r. q = closed_phase p)"
    unfolding abandon_def
    by (rule follows_seq [OF follows_mono]) (auto simp: then_follows_def split: sum.splits intro: rest)
  show "raises unrefusing (abandon os a (rollback_unit_name a) result)"
    unfolding abandon_def using honest
    by (intro raises_seq runner_raises.raises_cancel runner_raises.raises_clear_pending raises_close)
qed

lemma armed_write: "emits (\<lambda>c. repair_step a w Armed c = Some Armed) (write_text_atomic os p c)"
  by (rule emits_write) (simp add: repair_step_def event_of_def)

lemmas armed_quiet = quiet_stays [where p = Armed]

lemma armed_restore: "emits (\<lambda>c. repair_step a w Armed c = Some Armed) (restore_backup lib os att)"
proof -
  have "emits (\<lambda>c. repair_step a w Armed c = Some Armed) (restore_files lib os items)" for items
  proof (induction items)
    case (Cons i items)
    then show ?case
      by (cases i) (simp only: restore_files.simps, intro emits_bind emits_if emits_seq emits_ret emits_lift armed_write
        armed_quiet [OF quiet_runner(1)] Cons)
  qed (simp only: restore_files.simps emits_ret)
  then show ?thesis
    unfolding restore_backup_def
    by (intro emits_bind emits_if emits_ret emits_lift armed_quiet [OF quiet_runner(1)] armed_quiet [OF quiet_runner(3)])
qed

text \<open>Up to the reload a step leaves the phase armed, or it raises with the timer armed or stopped.\<close>
definition before_reload :: "phase \<Rightarrow> exn + 'a \<Rightarrow> bool" where
  "before_reload q r = (case r of Inl e \<Rightarrow> q = Armed \<or> q = Abandoned | Inr x \<Rightarrow> q = Armed)"

lemma before_reload_simps [simp]: "before_reload Armed r" "before_reload Abandoned (Inl e)"
  by (auto simp: before_reload_def split: sum.splits)

lemma follows_abandon_raise:
  assumes "runner_raises unrefusing os" and "follows (repair_step a w) Abandoned k before_reload"
  shows "follows (repair_step a w) Armed (act_seq (abandon os a (rollback_unit_name a) result) k) before_reload"
  by (rule follows_seq, rule follows_mono [OF follows_abandon [OF _ assms(1)]])
    (use assms(2) in \<open>auto simp: then_follows_def closed_phase_def split: sum.splits\<close>)

lemma follows_write_candidate:
  assumes "runner_raises unrefusing os"
  shows "follows (repair_step a w) Armed (write_candidate lib mode n os a target (rollback_unit_name a) closure) before_reload"
proof -
  have w: "emits (\<lambda>c. repair_step a w Armed c = Some Armed) (write_changes os cfg fs)" for cfg fs
    unfolding write_changes_def by (intro emits_for) (auto intro!: emits_when armed_write)
  show ?thesis
    unfolding write_candidate_def refuse_def
    by (intro follows_stays_bind follows_if follows_sum follows_prod follows_abandon_raise [OF assms] follows_raise follows_stays_seq
        follows_ret armed_restore w armed_quiet quiet_intros) simp_all
qed

lemma quiet_syntax: "emits (quiet_call a w) (run os [''ifreload'', ''--syntax-check'', ''-a''] t)"
  by (rule emits_run) (simp add: quiet_call_def event_of_def arm_argv_def RELOAD_def stop_argv_def)

lemma follows_check_syntax:
  assumes "runner_raises unrefusing os"
  shows "follows (repair_step a w) Armed (check_syntax lib os a (rollback_unit_name a)) before_reload"
  unfolding check_syntax_def refuse_def
  by (intro follows_stays_bind follows_if follows_prod follows_abandon_raise [OF assms] follows_raise follows_stays_seq
      follows_ret armed_restore armed_quiet quiet_syntax quiet_stays quiet_intros) simp_all

lemma follows_apply:
  "follows (repair_step a w) Armed (apply_candidate lib mode os att target) (\<lambda>q r. q = Applied)"
proof -
  have k: "follows (repair_step a w) Applied k (\<lambda>q r. q = Applied)" if "emits (quiet_call a w) k" for k :: "(('b, call) host, 'c) act"
    by (rule follows_stays [OF quiet_stays [OF that]]) simp
  show ?thesis
    unfolding apply_candidate_def
    by (rule follows_bind, rule follows_run [OF step_simps(2)])
      (auto simp: then_follows_def split: sum.splits intro!: k emits_seq emits_bind emits_when quiet_run quiet_intros)
qed


section \<open>The modes, and the whole transaction\<close>

text \<open>What the transaction needs of a mode: its verification makes quiet calls only.\<close>
locale quiet_mode =
  fixes mode :: "'m repair_mode"
  assumes quiet_verification: "emits (quiet_call a w) (verify mode dev)"
begin

lemma follows_conclude:
  assumes "runner_raises unrefusing os"
  shows "follows (repair_step a w) Applied (conclude lib mode os a target (rollback_unit_name a)) settled"
proof -
  have log: "follows (repair_step a w) Confirmed (act_seq (log_event lib os a s st d x) (act_ret r)) settled"
    if "r_ok r" for s st d x and r :: repair_result
  proof (rule follows_mono)
    show "follows (repair_step a w) Confirmed (act_seq (log_event lib os a s st d x) (act_ret r))
      (\<lambda>q u. (case u of Inl e \<Rightarrow> q = Confirmed | Inr y \<Rightarrow> q = Confirmed \<and> y = r) \<and> (\<forall>e. u = Inl e \<longrightarrow> unrefusing e))"
      by (rule follows_raises, rule follows_stays_seq, rule quiet_stays)
        (auto intro!: quiet_intros follows_ret raises_seq raises_ret runner_raises.raises_log [OF assms])
  qed (use that in \<open>auto simp: settled_def split: sum.splits\<close>)
  have stop: "follows (repair_step a w) Applied (act_seq (abandon os a (rollback_unit_name a) result) k) settled"
    if "follows (repair_step a w) Confirmed k settled" for result and k :: "(('m, call) host, repair_result) act"
    by (rule follows_seq, rule follows_mono [OF follows_abandon [OF _ assms]])
      (use that in \<open>auto simp: then_follows_def closed_phase_def settled_def split: sum.splits\<close>)
  show ?thesis
    unfolding conclude_def
    by (intro follows_stays_bind follows_if follows_stays_seq follows_ret stop log quiet_stays quiet_verification quiet_intros)
      (simp_all add: settled_def)
qed

lemma quiet_find: "emits (quiet_call a w) (find_target lib mode n os att observed proposed)"
  unfolding find_target_def
  by (intro emits_bind emits_seq emits_when emits_option emits_ret quiet_intros)

lemma quiet_validate: "emits (quiet_call a w) (validate_target lib mode os att b lifeline target)"
  unfolding validate_target_def
  by (intro emits_bind emits_seq emits_when emits_option emits_prod emits_ret emits_off_runner quiet_intros)

lemma quiet_back_up: "emits (quiet_call a w) (back_up lib n os att)"
  unfolding back_up_def by (intro emits_bind emits_seq emits_ret quiet_intros)

lemma follows_after_arming:
  assumes "runner_raises unrefusing os"
  shows "follows (repair_step a w) Armed (after_arming lib mode n os a target window closure (rollback_unit_name a)) settled"
proof -
  have announce: "emits (\<lambda>c. repair_step a w Armed c = Some Armed) (announce_rollback lib os a target window u)" for u
    unfolding announce_rollback_def by (rule armed_quiet) (intro emits_seq emits_ret quiet_intros)
  have early: "follows (repair_step a w) Armed (act_seq m k) settled"
    if "follows (repair_step a w) Armed m before_reload" "follows (repair_step a w) Armed k settled"
    for m :: "(('m, call) host, unit) act" and k
    by (rule follows_seq, rule follows_mono [OF that(1)])
      (use that(2) in \<open>auto simp: then_follows_def before_reload_def settled_def split: sum.splits\<close>)
  have late: "follows (repair_step a w) Armed (act_seq (apply_candidate lib mode os a target) k) settled"
    if "follows (repair_step a w) Applied k settled" for k
    by (rule follows_seq, rule follows_mono [OF follows_apply])
      (use that in \<open>auto simp: then_follows_def settled_def split: sum.splits\<close>)
  show ?thesis
    unfolding after_arming_def
    by (intro follows_stays_seq announce early late follows_write_candidate follows_check_syntax follows_conclude assms)
      (simp add: settled_def)
qed

lemma follows_attempt:
  assumes "runner_raises unrefusing os"
  shows "follows (repair_step a w) Guarding (repair_attempt lib mode n os a observed by_whom proposed b w lifeline) settled"
proof -
  have arm: "follows (repair_step a w) Guarding (act_bind (arm_rollback os a w) f) settled"
    if "follows (repair_step a w) Armed (f (rollback_unit_name a)) settled" for f
    by (rule follows_bind, rule follows_mono [OF follows_arm])
      (use that in \<open>auto simp: then_follows_def settled_def split: sum.splits\<close>)
  have t: "follows (repair_step a w) Guarding (transaction lib mode n os a observed proposed b w lifeline) settled"
    unfolding transaction_def
    by (intro follows_stays_bind follows_stays_seq arm follows_after_arming assms quiet_stays quiet_find quiet_validate quiet_back_up)
      (simp_all add: settled_def)
  have handler: "follows (repair_step a w) q (case e of
      RepairRefused code detail \<Rightarrow>
        act_seq (log_event lib os a ''refused'' ''fail'' detail [(''code'', JStr code)])
          (act_ret \<lparr>r_ok = False, r_attempt = a, outcome = ''refused'', r_detail = code @ '': '' @ detail, verification = []\<rparr>)
    | _ \<Rightarrow> act_raise e) settled" if "settled q (Inl e)" for q e
    using that
    by (cases e) (auto simp: settled_def intro!: follows_raise follows_stays_seq follows_ret quiet_stays quiet_intros)
  show ?thesis
    unfolding repair_attempt_def
    by (intro follows_stays_seq quiet_stays quiet_intros follows_catch follows_mono [OF t])
      (auto simp: settled_def split: sum.splits intro: handler)
qed

end

interpretation replacing: quiet_mode "replace_mode os" for os
  by unfold_locales (simp add: replace_mode_def quiet_verify)

interpretation adding: quiet_mode "additive_mode os" for os
  by unfold_locales (simp add: additive_mode_def quiet_verify_extended)


section \<open>Properties\<close>

text \<open>The calls are a run of the protocol, and a result that is returned is a success just when the run ended confirmed.\<close>
definition transactional :: "string \<Rightarrow> int \<Rightarrow> (('m, call) host, repair_result) act \<Rightarrow> bool" where
  "transactional a w m \<longleftrightarrow> (\<forall>h. \<exists>new ph. calls (snd (m h)) = calls h @ new
     \<and> run_protocol (repair_step a w) Guarding new = Some ph
     \<and> (case fst (m h) of Inl e \<Rightarrow> True | Inr r \<Rightarrow> r_ok r = (ph = Confirmed)))"

lemma follows_transactional: "follows (repair_step a w) Guarding m settled \<Longrightarrow> transactional a w m"
  unfolding follows_def transactional_def settled_def by (fastforce split: sum.splits)


definition lab_lib :: pylib where
  "lab_lib = \<lparr>sha256 = (\<lambda>t. t), strftime = str_of_int\<rparr>"


text \<open>
  The exit of the syntax check does not look at whether the restore worked: when it did not, the changed configuration stays,
  and the timer that would have restored it is stopped.
\<close>

lemma failed_restore_stops_timer:
  assumes "run os [''ifreload'', ''--syntax-check'', ''-a''] 15 h = (Inr p, h1)" "returncode p \<noteq> 0"
    and "\<not> syntax_check_advisory_only (stderr p)" and "restore_backup lib os a h1 = (Inr (False, how), h2)"
  shows "\<exists>new. calls (snd (check_syntax lib os a unit h)) = calls h2 @ CRun (stop_argv unit) 10 # new"
proof -
  have "\<exists>new. calls (snd (act_seq (abandon os a unit r) k h2)) = calls h2 @ CRun (stop_argv unit) 10 # new"
    if "emits (\<lambda>c. True) k" for r and k :: "(('a, call) host, unit) act"
  proof -
    obtain s h3 where s: "run os (stop_argv unit) 10 h2 = (s, h3)" by fastforce
    then have c: "calls h3 = calls h2 @ [CRun (stop_argv unit) 10]"
      by (auto simp: run_def call_os_def Let_def split: prod.splits)
    show ?thesis
    proof (cases s)
      case (Inl e)
      then show ?thesis using s c by (simp add: abandon_def cancel_rollback_def)
    next
      case (Inr q)
      let ?t = "act_seq (clear_pending_manifest os) (close_attempt os a r)"
      have "emits (\<lambda>c. True) (act_seq ?t k)"
        using that by (intro emits_seq emits_mono [OF quiet_clear_pending] emits_mono [OF quiet_close]) auto
      moreover have "act_seq (abandon os a unit r) k h2 = act_seq ?t k h3"
        using s Inr by (simp add: abandon_def cancel_rollback_def act_seq_def act_bind_def)
      ultimately show ?thesis using emitsD [of _ "act_seq ?t k" h3] c by fastforce
    qed
  qed
  then show ?thesis
    using assms unfolding check_syntax_def
    by (simp add: refuse_def)
      (metis (no_types, lifting) emits_seq emits_mono [OF quiet_log] emits_raise)
qed

end
