(* ===== verification/RepairRestore.thy ===== *)
theory RepairRestore
  imports RepairPipeline
begin

text \<open>
  Two facts the transaction rests on: a backup restores what was backed up, whatever happened to the
  files in between, and reading the configuration ends when the files that can be named are finitely many.
\<close>

section \<open>A backup restores\<close>

lemma manifest_ok:
  "distinct (map fst fs) \<Longrightarrow> json_loads (json_dumps default_style (backup_manifest lib a fs t)) = Some (backup_manifest lib a fs t)"
  by (rule loads_dumps_default) (auto simp: backup_manifest_def manifest_entry_def case_prod_unfold comp_def)

lemma manifest_items_of: "manifest_items (backup_manifest lib a fs t) = Inr (map (manifest_entry lib a) fs)"
  by (simp add: manifest_items_def backup_manifest_def item_def)

lemma restore_entry:
  "restore_files lib os (manifest_entry lib a (p, t) # rest) =
     act_bind (read_text os (backup_path a p)) (\<lambda>c.
       if hash_text (sha256 lib) c \<noteq> hash_text (sha256 lib) t
       then act_ret (False, ''backup for '' @ p @ '' failed its own hash check - not restoring from a corrupt backup'')
       else act_seq (write_text_atomic os p c) (act_bind (read_text os p) (\<lambda>d.
         if hash_text (sha256 lib) d \<noteq> hash_text (sha256 lib) t
         then act_ret (False, ''restore of '' @ p @ '' did not read back identically'')
         else restore_files lib os rest)))"
proof -
  have lift: "act_bind (act_lift (Inr x)) k = k x" for x :: 'z and k by (simp add: act_bind_def act_lift_def fun_eq_iff)
  show ?thesis by (simp add: manifest_entry_def item_def json_text_def lift cong del: if_weak_cong)
qed

lemma backup_is_not_manifest: "backup_path a p \<noteq> manifest_path a"
  by (auto simp: backup_path_def manifest_path_def path_div_def)

context file_kernel
begin

lemma backed_up_files:
  "act_for fs (backup_file os a) h = (Inr u, h') \<Longrightarrow> distinct (map (\<lambda>(p, t). backup_path a p) fs) \<Longrightarrow>
   (\<forall>(p, t) \<in> set fs. F (machine h') (backup_path a p) = Some t)
   \<and> (\<forall>q. q \<notin> (\<lambda>(p, t). backup_path a p) ` set fs \<longrightarrow> F (machine h') q = F (machine h) q)"
proof (induction fs arbitrary: h)
  case Nil
  then show ?case by simp
next
  case (Cons f fs)
  obtain p t where f: "f = (p, t)" by (cases f)
  obtain v h1 where 1: "backup_file os a (p, t) h = (Inr v, h1)" and 2: "act_for fs (backup_file os a) h1 = (Inr u, h')"
    using Cons.prems(1) by (auto simp: f act_seq_eq_Inr)
  obtain w h2 c where w: "write_text_atomic os (backup_path a p) t h = (Inr w, h2)" and r: "read_text os (backup_path a p) h2 = (Inr c, h1)"
    using 1 by (auto simp: backup_file_def act_seq_eq_Inr act_bind_eq_Inr act_when_def refuse_def split: if_splits)
  have "F (machine h1) = (F (machine h))(backup_path a p \<mapsto> t)"
    using write_sets [OF w] read_keeps [OF r] by simp
  then show ?case using Cons.IH [OF 2] Cons.prems(2) by (auto simp: f)
qed

lemma created_backup:
  assumes "create_backup lib os a cfg h = (Inr c, h')" and d: "distinct (map (\<lambda>(p, t). backup_path a p) (files cfg))"
  shows "(\<forall>(p, t) \<in> set (files cfg). F (machine h') (backup_path a p) = Some t)
    \<and> (\<exists>t. F (machine h') (manifest_path a) = Some (json_dumps default_style (backup_manifest lib a (files cfg) t)))"
proof -
  obtain u1 h1 u2 h2 t h3 u3 where 1: "makedirs os (path_div (attempt_dir a) ''backup'') h = (Inr u1, h1)"
    and 2: "act_for (files cfg) (backup_file os a) h1 = (Inr u2, h2)" and 3: "clock_now os h2 = (Inr t, h3)"
    and 4: "write_text_atomic os (manifest_path a) (json_dumps default_style (backup_manifest lib a (files cfg) t)) h3 = (Inr u3, h')"
    using assms(1) by (auto simp: create_backup_def act_seq_eq_Inr act_bind_eq_Inr)
  have "F (machine h') = (F (machine h2))(manifest_path a \<mapsto> json_dumps default_style (backup_manifest lib a (files cfg) t))"
    using write_sets [OF 4] now_keeps [OF 3] by simp
  then show ?thesis using backed_up_files [OF 2 d] backup_is_not_manifest by auto
qed

lemma restored_files:
  "restore_files lib os (map (manifest_entry lib a) fs) h = (Inr (ok, msg), h') \<Longrightarrow>
   distinct (map fst fs) \<Longrightarrow> (\<And>p t. (p, t) \<in> set fs \<Longrightarrow> \<not> own_path p) \<Longrightarrow>
   (\<And>p t. (p, t) \<in> set fs \<Longrightarrow> F (machine h) (backup_path a p) = Some t) \<Longrightarrow>
   ok \<and> (\<forall>(p, t) \<in> set fs. F (machine h') p = Some t) \<and> (\<forall>q. q \<notin> fst ` set fs \<longrightarrow> F (machine h') q = F (machine h) q)"
proof (induction fs arbitrary: h)
  case Nil
  then show ?case by simp
next
  case (Cons f fs)
  obtain p t where f: "f = (p, t)" by (cases f)
  let ?rest = "\<lambda>d. if hash_text (sha256 lib) d \<noteq> hash_text (sha256 lib) t then
      act_ret (False, ''restore of '' @ p @ '' did not read back identically'')
    else restore_files lib os (map (manifest_entry lib a) fs)"
  obtain c h1 where r: "read_text os (backup_path a p) h = (Inr c, h1)"
    and k: "(if hash_text (sha256 lib) c \<noteq> hash_text (sha256 lib) t
       then act_ret (False, ''backup for '' @ p @ '' failed its own hash check - not restoring from a corrupt backup'')
       else act_seq (write_text_atomic os p c) (act_bind (read_text os p) ?rest)) h1 = (Inr (ok, msg), h')"
    using Cons.prems(1) by (simp only: f list.map restore_entry act_bind_eq_Inr) blast
  have "F (machine h) (backup_path a p) = Some t" using Cons.prems(4) [of p t] f by simp
  with read_there [OF r] have c: "c = t" by simp
  obtain w h2 d h3 where w: "write_text_atomic os p t h1 = (Inr w, h2)" and r2: "read_text os p h2 = (Inr d, h3)"
    and k2: "?rest d h3 = (Inr (ok, msg), h')"
    using k unfolding c by (simp only: simp_thms if_False act_seq_eq_Inr act_bind_eq_Inr not_not) blast
  have F3: "F (machine h3) = (F (machine h))(p \<mapsto> t)"
    using write_sets [OF w] read_keeps [OF r2] read_keeps [OF r] by simp
  have "d = t" using read_there [OF r2] write_sets [OF w] by simp
  then have k3: "restore_files lib os (map (manifest_entry lib a) fs) h3 = (Inr (ok, msg), h')" using k2 by simp
  have "\<not> own_path p" using Cons.prems(3) [of p t] f by simp
  then have keep: "backup_path a q \<noteq> p" for q by auto
  have "ok \<and> (\<forall>(p, t) \<in> set fs. F (machine h') p = Some t) \<and> (\<forall>q. q \<notin> fst ` set fs \<longrightarrow> F (machine h') q = F (machine h3) q)"
    using Cons.prems(2-4) keep by (intro Cons.IH [OF k3]) (auto simp: f F3)
  then show ?case using Cons.prems(2) F3 by (auto simp: f)
qed

lemma restores:
  assumes b: "create_backup lib os a cfg h0 = (Inr c, h1)" and r: "restore_backup lib os a h2 = (Inr (ok, msg), h3)"
    and same: "\<And>q. own_path q \<Longrightarrow> F (machine h2) q = F (machine h1) q"
    and d: "distinct (map fst (files cfg))" "distinct (map (\<lambda>(p, t). backup_path a p) (files cfg))"
    and outside: "list_all (\<lambda>(p, t). \<not> own_path p) (files cfg)"
  shows "ok \<and> (\<forall>(p, t) \<in> set (files cfg). F (machine h3) p = Some t)"
proof -
  obtain t where bk: "\<forall>(p, t) \<in> set (files cfg). F (machine h2) (backup_path a p) = Some t"
    and m: "F (machine h2) (manifest_path a) = Some (json_dumps default_style (backup_manifest lib a (files cfg) t))"
    using created_backup [OF b d(2)] same by auto
  obtain e h4 where e: "path_exists os (manifest_path a) h2 = (Inr e, h4)"
    using r by (auto simp: restore_backup_def act_bind_eq_Inr)
  have "e" "F (machine h4) = F (machine h2)" using exists_there [OF e] exists_keeps [OF e] m by simp_all
  then obtain x h5 where x: "read_text os (manifest_path a) h4 = (Inr x, h5)"
    and k: "act_bind (act_lift (json_parse x)) (\<lambda>manifest. act_bind (act_lift (manifest_items manifest)) (restore_files lib os)) h5
      = (Inr (ok, msg), h3)"
    using r e by (auto simp: restore_backup_def act_bind_eq_Inr)
  have "x = json_dumps default_style (backup_manifest lib a (files cfg) t)"
    using read_there [OF x] m \<open>F (machine h4) = F (machine h2)\<close> by simp
  then have k2: "restore_files lib os (map (manifest_entry lib a) (files cfg)) h5 = (Inr (ok, msg), h3)"
    using k by (simp add: json_parse_def manifest_ok [OF d(1)] manifest_items_of)
  show ?thesis
    using restored_files [OF k2 d(1)] outside bk read_keeps [OF x] \<open>F (machine h4) = F (machine h2)\<close>
    by (auto simp: list_all_iff)
qed

end

lemma distinct_paths:
  "distinct (map (\<lambda>(p, t). backup_path a p) fs) \<Longrightarrow> distinct (map fst fs)"
  by (induction fs) (auto simp: image_iff split_beta)

text \<open>
  C28. Backup and restore are a round trip. If \<open>create_backup\<close> succeeded and \<open>restore_backup\<close> of the same attempt
  returns later, with the repair's own files unchanged in between, then it reports success and every
  file of the configuration closure has the content it was backed up with, whatever was written to it in between.
  The files of the closure have distinct backup paths and none lies in the repair's own directory.
\<close>
theorem backup_restore_round_trip:
  assumes "file_kernel os F" and "create_backup lib os a cfg h0 = (Inr c, h1)" and "restore_backup lib os a h2 = (Inr (ok, msg), h3)"
    and "\<And>q. own_path q \<Longrightarrow> F (machine h2) q = F (machine h1) q"
    and d: "distinct (map (\<lambda>(p, t). backup_path a p) (files cfg))" and "list_all (\<lambda>(p, t). \<not> own_path p) (files cfg)"
  shows "ok \<and> list_all (\<lambda>(p, t). F (machine h3) p = Some t) (files cfg)"
proof -
  note r = file_kernel.restores [OF assms(1-4) distinct_paths [OF d] d assms(6)]
  show ?thesis using r by (auto simp: list_all_iff)
qed

definition tiny_config :: parsed where
  "tiny_config = parse_files [(''/etc/x'', ''iface lo'')]"

definition tiny_start :: "(lab, call) host" where
  "tiny_start = \<lparr>machine = empty_lab, calls = []\<rparr>"

definition tiny_lib :: pylib where
  "tiny_lib = \<lparr>sha256 = (\<lambda>t. t), strftime = str_of_int\<rparr>"

definition tiny_backed :: "(lab, call) host" where
  "tiny_backed = snd (create_backup tiny_lib table_os ''a1'' tiny_config tiny_start)"

definition tiny_changed :: "(lab, call) host" where
  "tiny_changed = snd (write_text_atomic table_os ''/etc/x'' ''broken'' tiny_backed)"

definition tiny_restored :: "(exn + bool \<times> string) \<times> (lab, call) host" where
  "tiny_restored = restore_backup tiny_lib table_os ''a1'' tiny_changed"

lemma tiny_results:
  "fst (create_backup tiny_lib table_os ''a1'' tiny_config tiny_start) = Inr (hash_closure (sha256 tiny_lib) (files tiny_config))"
  "fst tiny_restored = Inr (True, ''all backed-up files restored and hash-verified'')"
  "map_of (lab_files (machine tiny_changed)) ''/etc/x'' = Some ''broken''"
  "files tiny_config = [(''/etc/x'', ''iface lo'')]"
  by code_simp+

theorem backup_restore_round_trip_witness:
  "map_of (lab_files (machine tiny_changed)) ''/etc/x'' = Some ''broken''
   \<and> map_of (lab_files (machine (snd tiny_restored))) ''/etc/x'' = Some ''iface lo''"
proof -
  have w: "fst (write_text_atomic table_os ''/etc/x'' ''broken'' tiny_backed) = Inr ()" by (simp add: write_text_atomic_def call_os_def Let_def table_os_def lab_os_def)
  have same: "own_path q \<Longrightarrow> map_of (lab_files (machine tiny_changed)) q = map_of (lab_files (machine tiny_backed)) q" for q
    using table_files.write_sets [of "''/etc/x''" "''broken''" tiny_backed "()" tiny_changed] w
    by (auto simp: tiny_changed_def prod_eq_iff own_path_def REPAIR_STATE_DIR_def starts_with_iff)
  have "list_all (\<lambda>(p, t). map_of (lab_files (machine (snd tiny_restored))) p = Some t) (files tiny_config)"
    using backup_restore_round_trip [OF table_files.file_kernel_axioms, of tiny_lib "''a1''" tiny_config tiny_start
        "hash_closure (sha256 tiny_lib) (files tiny_config)" tiny_backed tiny_changed True
        "''all backed-up files restored and hash-verified''" "snd tiny_restored"]
      same tiny_results(1,2)
    by (simp add: tiny_backed_def tiny_results(4) tiny_restored_def prod_eq_iff own_path_def REPAIR_STATE_DIR_def starts_with_iff)
  then show ?thesis using tiny_results(3,4) by simp
qed

text \<open>
  The side condition on the backup paths is needed: two different files may share one, since \<open>/\<close> is written as
  \<open>__\<close>. The second backup then overwrites the first, and the restore refuses the first by its hash.
\<close>

lemma backup_names_collide:
  "backup_path ''a1'' ''/etc/network/interfaces.d/a__b'' = backup_path ''a1'' ''/etc/network/interfaces.d/a/b''"
  by code_simp

lemma colliding_backup_not_restored:
  "fst (restore_backup tiny_lib table_os ''a1'' (snd (create_backup tiny_lib table_os ''a1''
     (parse_files [(''/etc/a__b'', ''x''), (''/etc/a/b'', ''y'')]) tiny_start)))
   = Inr (False, ''backup for /etc/a__b failed its own hash check - not restoring from a corrupt backup'')"
  by code_simp

end
