(* ===== verification/RepairRollback.thy ===== *)
theory RepairRollback
  imports RepairRestore
begin

text \<open>
  What runs after a repair, without it: \<open>repair_rollback\<close>, which the rollback timer starts (and a boot-time recovery could
  start), and \<open>repair_additive_persist\<close>, which brings an additively repaired interface up again at boot.
  What the two \<open>main\<close> functions print is left out; their exit codes are the results.
\<close>

section \<open>The rollback\<close>

definition rollback_failed :: "pylib \<Rightarrow> 'm os \<Rightarrow> string \<Rightarrow> string \<Rightarrow> (('m, call) host, int) act" where
  "rollback_failed lib os attempt detail =
     act_seq (log_event lib os attempt ''rollback_failed'' ''fail'' detail []) (act_ret 2)"

text \<open>\<open>manifest.get("target_interface") if manifest else None\<close>, when it is true.\<close>
definition pending_target :: "json option \<Rightarrow> exn + string option" where
  "pending_target manifest =
     (case manifest of
        None \<Rightarrow> Inr None
      | Some v \<Rightarrow>
          if \<not> truthy v then Inr None
          else case get v ''target_interface'' of
            Inl e \<Rightarrow> Inl e
          | Inr None \<Rightarrow> Inr None
          | Inr (Some t) \<Rightarrow> if truthy t then (case json_text t of Inl e \<Rightarrow> Inl e | Inr s \<Rightarrow> Inr (Some s)) else Inr None)"

definition py_bool :: "bool \<Rightarrow> string" where
  "py_bool b = (if b then ''True'' else ''False'')"

definition confirm_rollback :: "pylib \<Rightarrow> 'm os \<Rightarrow> string \<Rightarrow> (('m, call) host, unit) act" where
  "confirm_rollback lib os attempt =
     act_bind (read_pending_manifest os) (\<lambda>manifest.
     act_bind (act_lift (pending_target manifest)) (\<lambda>target.
     case target of
       Some dev \<Rightarrow>
         act_bind (verify_target os dev False) (\<lambda>v.
         act_seq (log_event lib os attempt ''rollback_confirmed'' ''info''
             (''config restored; connectivity_restored='' @ py_bool (v_ok v))
             [(''config_restoration_confirmed'', JBool True), (''connectivity_restored'', JBool (v_ok v))])
           (act_ret ()))
     | None \<Rightarrow>
         act_seq (log_event lib os attempt ''rollback_confirmed'' ''info'' ''config restored''
             [(''config_restoration_confirmed'', JBool True)])
           (act_ret ())))"

definition reload_restored :: "pylib \<Rightarrow> 'm os \<Rightarrow> string \<Rightarrow> (('m, call) host, int) act" where
  "reload_restored lib os attempt =
     act_bind (run os RELOAD 30) (\<lambda>p.
     if returncode p \<noteq> 0 then
       rollback_failed lib os attempt (''restore wrote back cleanly but ifreload -a failed: '' @ strip (stderr p))
     else act_seq (confirm_rollback lib os attempt)
       (act_seq (clear_pending_manifest os)
       (act_seq (close_attempt os attempt ''rolled_back'') (act_ret 0))))"

definition same_boot_rollback :: "pylib \<Rightarrow> 'm os \<Rightarrow> string \<Rightarrow> (('m, call) host, int) act" where
  "same_boot_rollback lib os attempt =
     act_bind (restore_backup lib os attempt) (\<lambda>(restored, detail).
     act_seq (log_event lib os attempt ''rolled_back'' (if restored then ''pass'' else ''fail'') detail
         [(''config_restoration_confirmed'', JBool restored)])
     (if \<not> restored then rollback_failed lib os attempt detail else reload_restored lib os attempt))"

definition boot_time_recovery :: "pylib \<Rightarrow> 'm os \<Rightarrow> (('m, call) host, int) act" where
  "boot_time_recovery lib os =
     act_bind (read_pending_manifest os) (\<lambda>manifest.
     case manifest of
       None \<Rightarrow> act_ret 0
     | Some v \<Rightarrow>
         if v = JNull then act_ret 0
         else act_bind (act_lift (item v ''attempt_id'')) (\<lambda>i.
         act_bind (act_lift (json_text i)) (\<lambda>attempt.
         act_seq (log_event lib os attempt ''boot_recovery_triggered'' ''info''
            ''pending manifest found at boot - a repair attempt was interrupted before completing'' [])
         (act_bind (same_boot_rollback lib os attempt) (\<lambda>rc.
          act_seq (act_when (rc \<noteq> 0)
            (act_seq (log_event lib os attempt ''boot_recovery_failed'' ''fail''
               ''boot-time restore did not complete cleanly - manual review needed'' []) (act_ret ())))
            (act_ret 0))))))"

definition rollback_main :: "pylib \<Rightarrow> 'm os \<Rightarrow> string list \<Rightarrow> (('m, call) host, int) act" where
  "rollback_main lib os argv =
     (case argv of
        [] \<Rightarrow> act_ret 64
      | cmd # rest \<Rightarrow>
          if cmd = ''same-boot'' \<and> length argv = 2 then same_boot_rollback lib os (argv ! 1)
          else if cmd = ''boot-recovery'' then boot_time_recovery lib os
          else act_ret 64)"

section \<open>Reapplying an additive repair at boot\<close>

text \<open>
  \<open>_DHCP_STANZA_RE.finditer(text)\<close> with \<open>re.MULTILINE\<close>. White space in the pattern may span line breaks, so this is a
  match on the text and not on its lines: after a line start, white space, then the words \<open>iface\<close>, a name, \<open>inet\<close>, \<open>dhcp\<close>,
  then white space up to a line end. Two matches cannot overlap in their words, so looking at every line start finds the
  names that \<open>finditer\<close> finds.
\<close>
definition next_word :: "string \<Rightarrow> string \<times> string" where
  "next_word s = (takeWhile (\<lambda>c. \<not> py_space c) (lstrip s), dropWhile (\<lambda>c. \<not> py_space c) (lstrip s))"

text \<open>\<open>\s*$\<close>: white space reaching a place before a line feed or the end.\<close>
definition ends_line :: "string \<Rightarrow> bool" where
  "ends_line s \<longleftrightarrow> CHR 0x0A \<in> set (takeWhile py_space s) \<or> lstrip s = []"

definition dhcp_stanza_at :: "string \<Rightarrow> string option" where
  "dhcp_stanza_at s =
     (let (w1, r1) = next_word s; (name, r2) = next_word r1; (w3, r3) = next_word r2; (w4, r4) = next_word r3
      in if w1 = ''iface'' \<and> name \<noteq> [] \<and> w3 = ''inet'' \<and> w4 = ''dhcp'' \<and> ends_line r4 then Some name else None)"

fun line_starts :: "string \<Rightarrow> string list" where
  "line_starts [] = []"
| "line_starts (c # cs) = (if c = CHR 0x0A then cs # line_starts cs else line_starts cs)"

definition dhcp_stanza_names :: "string \<Rightarrow> string list" where
  "dhcp_stanza_names text = List.map_filter dhcp_stanza_at (text # line_starts text)"

definition has_additive_dhcp_stanza :: "parsed \<Rightarrow> string \<Rightarrow> bool" where
  "has_additive_dhcp_stanza cfg name \<longleftrightarrow>
     name \<in> set (duplicate_names cfg) \<and> list_ex (\<lambda>(path, content). name \<in> set (dhcp_stanza_names content)) (files cfg)"

definition has_ipv4_address :: "'m os \<Rightarrow> string \<Rightarrow> (('m, call) host, bool) act" where
  "has_ipv4_address os name =
     act_bind (run os [''ip'', ''-4'', ''-o'', ''addr'', ''show'', ''dev'', name] 5) (\<lambda>p.
     act_ret (returncode p = 0 \<and> strip (stdout p) \<noteq> []))"

record reapply_event =
  ev_interface :: string
  ev_status :: string
  ev_detail :: string

definition reapply_one :: "pylib \<Rightarrow> 'm os \<Rightarrow> parsed \<Rightarrow> string \<Rightarrow> (('m, call) host, reapply_event list) act" where
  "reapply_one lib os cfg name =
     (if \<not> has_additive_dhcp_stanza cfg name then act_ret []
      else act_bind (has_ipv4_address os name) (\<lambda>has.
        if has then act_ret []
        else act_bind (run os [''dhclient'', name] 30) (\<lambda>p.
          let status = (if returncode p = 0 then ''pass'' else ''fail'');
              detail = (if returncode p = 0 then ''boot-time reapply: dhclient '' @ name
                        else ''boot-time reapply failed: dhclient '' @ name @ '': '' @ strip (stderr p))
          in act_seq (log_event lib os ''boot-reapply'' ''additive_dhcp_reapply'' status detail [])
               (act_ret [\<lparr>ev_interface = name, ev_status = status, ev_detail = detail\<rparr>]))))"

definition reapply_additive_dhcp :: "pylib \<Rightarrow> nat \<Rightarrow> 'm os \<Rightarrow> (('m, call) host, reapply_event list) act" where
  "reapply_additive_dhcp lib fuel os =
     act_bind (read_interfaces_config fuel os INTERFACES_PATH) (\<lambda>cfg.
     act_bind (act_map (reapply_one lib os cfg) (sort_strs (duplicate_names cfg))) (\<lambda>evs.
     act_ret (concat evs)))"

definition reapply_main :: "pylib \<Rightarrow> nat \<Rightarrow> 'm os \<Rightarrow> (('m, call) host, int) act" where
  "reapply_main lib fuel os =
     act_bind (reapply_additive_dhcp lib fuel os) (\<lambda>evs.
     act_ret (if list_all (\<lambda>e. ev_status e = ''pass'') evs then 0 else 1))"

section \<open>What the rollback's exit code says\<close>

lemma log_event_Inr: "log_event lib os a step st d extra h = (Inr r, h') \<Longrightarrow> \<exists>t. fst (clock_now os h) = Inr t"
  by (auto simp: log_event_def act_bind_eq_Inr)

lemma rollback_failed_code: "rollback_failed lib os a d h = (Inr rc, h') \<Longrightarrow> rc = 2"
  by (auto simp: rollback_failed_def act_seq_eq_Inr)

lemma rollback_code_zero:
  assumes "same_boot_rollback lib os a h = (Inr 0, h')"
  shows "\<exists>msg h1 h2 h3 p. restore_backup lib os a h = (Inr (True, msg), h1) \<and> run os RELOAD 30 h2 = (Inr p, h3) \<and> returncode p = 0"
proof -
  obtain ok msg h1 e h2 where r: "restore_backup lib os a h = (Inr (ok, msg), h1)"
    and k: "(if \<not> ok then rollback_failed lib os a msg else reload_restored lib os a) h2 = (Inr 0, h')"
    using assms by (auto simp: same_boot_rollback_def act_bind_eq_Inr act_seq_eq_Inr)
  have ok using k rollback_failed_code [of lib os a msg h2 0 h'] by (auto split: if_splits)
  then obtain p h3 where "run os RELOAD 30 h2 = (Inr p, h3)" "returncode p = 0"
    using k rollback_failed_code by (fastforce simp: reload_restored_def act_bind_eq_Inr split: if_splits)
  then show ?thesis using r \<open>ok\<close> by auto
qed

lemma boot_recovery_zero: "boot_time_recovery lib os h = (Inr rc, h') \<Longrightarrow> rc = 0"
  by (auto simp: boot_time_recovery_def act_bind_eq_Inr act_seq_eq_Inr split: option.splits if_splits)

text \<open>
  The recovery is documented to return zero always, so that it cannot stop a boot. It returns no other code, but a pending
  manifest that is not JSON makes it raise.
\<close>

definition torn_manifest :: "(lab, call) host" where
  "torn_manifest = \<lparr>machine = empty_lab\<lparr>lab_files := [(PENDING_MANIFEST_PATH, ''{'')]\<rparr>, calls = []\<rparr>"

lemma torn_manifest_raises: "fst (boot_time_recovery tiny_lib table_os torn_manifest) = Inl (ValueError ''{'')"
  by code_simp

text \<open>
  A rollback does not look whose pending manifest it removes: the timer of an attempt whose reload failed stays armed, and
  when it fires after a later attempt was applied, it restores the older backup and removes the later attempt's manifest.
\<close>

definition later_attempt :: "(lab, call) host" where
  "later_attempt = snd (act_seq (create_backup tiny_lib table_os ''a1'' tiny_config)
     (act_seq (write_pending_manifest table_os ''a2'' [] (rollback_unit_name ''a2''))
        (write_text_atomic table_os ''/etc/x'' ''of a2'')) tiny_start)"

definition after_rollback :: "(exn + int) \<times> string option \<times> string option" where
  "after_rollback =
     (case same_boot_rollback tiny_lib table_os ''a1'' later_attempt of (r, h) \<Rightarrow>
        (r, map_of (lab_files (machine h)) PENDING_MANIFEST_PATH, map_of (lab_files (machine h)) ''/etc/x''))"

lemma rollback_undoes_later_attempt: "after_rollback = (Inr 0, None, Some ''iface lo'')"
  by code_simp

section \<open>What is brought up again at boot\<close>

definition addressed :: "'m os \<Rightarrow> string \<Rightarrow> 'm \<Rightarrow> bool" where
  "addressed os name m \<longleftrightarrow> (case fst (os_run os [''ip'', ''-4'', ''-o'', ''addr'', ''show'', ''dev'', name] 5 m) of
     Inl e \<Rightarrow> False | Inr p \<Rightarrow> returncode p = 0 \<and> strip (stdout p) \<noteq> [])"

lemma reapply_one_skips:
  "\<not> has_additive_dhcp_stanza cfg name \<Longrightarrow> reapply_one lib os cfg name h = (Inr [], h)"
  by (simp add: reapply_one_def)

lemma reapply_one_addressed:
  "has_additive_dhcp_stanza cfg name \<Longrightarrow> addressed os name (machine h) \<Longrightarrow>
   \<exists>h'. reapply_one lib os cfg name h = (Inr [], h') \<and> calls h' = calls h @ [CRun [''ip'', ''-4'', ''-o'', ''addr'', ''show'', ''dev'', name] 5]"
  by (auto simp: reapply_one_def has_ipv4_address_def addressed_def act_bind_def run_def call_os_def Let_def
      split: prod.splits sum.splits)

text \<open>An interface written by hand with one stanza for each family counts as additively repaired.\<close>

lemma hand_written_counts:
  "has_additive_dhcp_stanza (parse_files [(''/etc/network/interfaces'',
     ''iface e inet dhcp'' @ [CHR 0x0A, CHR 0x0A] @ ''iface e inet6 static'')]) ''e''"
  by code_simp

end
