(* ===== verification/ReadClosure.thy ===== *)
theory ReadClosure
  imports RepairPipeline
begin

text \<open>
  Reading the configuration ends. The loop of \<open>read_interfaces_config\<close> follows every file that a file names, so it ends
  because each file is read once and the files that can be named are finitely many. The loop over a runner is first
  reduced to a function of the contents alone, on which the bound is proved.
\<close>

section \<open>A machine whose files hold still\<close>

text \<open>What a line names and what the loop collects, as functions of the file contents \<open>R\<close> and the directories \<open>D\<close>.\<close>

definition named_sources :: "(string \<Rightarrow> exn + string list) \<Rightarrow> string \<Rightarrow> exn + string list" where
  "named_sources D line =
     (case SOURCE_RE line of
        Some target \<Rightarrow>
          if has_glob_metachars target then
            (case D (parent_dir target) of
               Inr entries \<Rightarrow> Inr (resolve_source_glob target entries)
             | Inl (OSError m) \<Rightarrow> Inr (resolve_source_glob target [])
             | Inl e \<Rightarrow> Inl e)
          else Inr [target]
      | None \<Rightarrow> (case SOURCE_DIR_RE line of Some d \<Rightarrow> D d | None \<Rightarrow> Inr []))"

fun collect :: "('a \<Rightarrow> exn + 'b) \<Rightarrow> 'a list \<Rightarrow> exn + 'b list" where
  "collect f [] = Inr []"
| "collect f (x # xs) = (case f x of Inl e \<Rightarrow> Inl e | Inr y \<Rightarrow> (case collect f xs of Inl e \<Rightarrow> Inl e | Inr ys \<Rightarrow> Inr (y # ys)))"

fun closure_of ::
    "nat \<Rightarrow> (string \<Rightarrow> exn + string) \<Rightarrow> (string \<Rightarrow> exn + string list) \<Rightarrow> string list \<Rightarrow> string list \<Rightarrow>
     (string \<times> string) list \<Rightarrow> exn + (string \<times> string) list" where
  "closure_of fuel R D [] seen fs = Inr fs"
| "closure_of 0 R D (path # todo) seen fs = Inl Unfinished"
| "closure_of (Suc fuel) R D (path # todo) seen fs =
     (if path \<in> set seen then closure_of fuel R D todo seen fs
      else case R path of
        Inl (OSError m) \<Rightarrow> closure_of fuel R D todo (path # seen) (AList.update path [] fs)
      | Inl e \<Rightarrow> Inl e
      | Inr t \<Rightarrow> (case collect (named_sources D) (splitlines t) of
            Inl e \<Rightarrow> Inl e
          | Inr named \<Rightarrow> closure_of fuel R D (todo @ concat named) (path # seen) (AList.update path t fs)))"

text \<open>A machine on which reading a file or listing a directory gives the same result whenever it is done.\<close>

locale steady_files =
  fixes os :: "'m os" and R :: "string \<Rightarrow> exn + string" and D :: "string \<Rightarrow> exn + string list"
  assumes steady_read: "fst (os_read_text os p m) = R p"
    and steady_list: "fst (os_listdir os d m) = D d"
begin

lemma read_is: "fst (read_text os p h) = R p"
  using call_osD [of "CRead p" "os_read_text os p" h] steady_read
  unfolding read_text_def by (metis fst_conv surj_pair)

lemma list_is: "fst (listdir os d h) = D d"
  using call_osD [of "CListdir d" "os_listdir os d" h] steady_list
  unfolding listdir_def by (metis fst_conv surj_pair)

lemma sources_are: "fst (line_sources os line h) = named_sources D line"
proof (cases "SOURCE_RE line")
  case None
  then show ?thesis by (auto simp: line_sources_def named_sources_def list_is split: option.split)
next
  case (Some target)
  obtain r h1 where l: "listdir os (parent_dir target) h = (r, h1)" by fastforce
  with list_is [of "parent_dir target" h] have "D (parent_dir target) = r" by simp
  with l Some show ?thesis
    by (auto simp: line_sources_def named_sources_def catch_os_error_def act_catch_eq act_bind_def
        split: sum.splits exn.splits)
qed

lemma collected: "fst (act_map (line_sources os) ls h) = collect (named_sources D) ls"
proof (induction ls arbitrary: h)
  case Nil
  then show ?case by simp
next
  case (Cons l ls)
  obtain r h1 where l: "line_sources os l h = (r, h1)" by fastforce
  with sources_are [of l h] have "named_sources D l = r" by simp
  moreover have "fst (act_map (line_sources os) ls h1) = collect (named_sources D) ls" by (rule Cons.IH)
  ultimately show ?case using l by (auto simp: act_bind_def split: sum.splits prod.splits)
qed

lemma closure_is: "fst (read_closure fuel os todo seen fs h) = closure_of fuel R D todo seen fs"
proof (induction fuel arbitrary: todo seen fs h)
  case 0
  then show ?case by (cases todo) simp_all
next
  case (Suc fuel)
  show ?case
  proof (cases todo)
    case (Cons path rest)
    obtain r h1 where r: "read_text os path h = (r, h1)" by fastforce
    with read_is [of path h] have R: "R path = r" by simp
    show ?thesis
    proof (cases r)
      case (Inl e)
      then show ?thesis using Suc.IH r R Cons by (cases e) (auto simp: catch_os_error_def act_catch_eq act_bind_def)
    next
      case (Inr t)
      obtain q h2 where q: "act_map (line_sources os) (splitlines t) h1 = (q, h2)" by fastforce
      with collected [of "splitlines t" h1] have "collect (named_sources D) (splitlines t) = q" by simp
      then show ?thesis using Suc.IH r R q Inr Cons
        by (cases q) (auto simp: catch_os_error_def act_catch_eq act_bind_def)
    qed
  qed simp
qed

end

section \<open>The bound\<close>

text \<open>\<open>sources_within U R D\<close>: what the files of \<open>U\<close> name is in \<open>U\<close>.\<close>

definition sources_within :: "string set \<Rightarrow> (string \<Rightarrow> exn + string) \<Rightarrow> (string \<Rightarrow> exn + string list) \<Rightarrow> bool" where
  "sources_within U R D \<longleftrightarrow>
     (\<forall>p t named. p \<in> U \<longrightarrow> R p = Inr t \<longrightarrow> collect (named_sources D) (splitlines t) = Inr named \<longrightarrow> set (concat named) \<subseteq> U)"

text \<open>How many paths a file adds to the work list.\<close>

definition fan_out :: "(string \<Rightarrow> exn + string) \<Rightarrow> (string \<Rightarrow> exn + string list) \<Rightarrow> string \<Rightarrow> nat" where
  "fan_out R D p = (case R p of Inl e \<Rightarrow> 0 | Inr t \<Rightarrow>
     (case collect (named_sources D) (splitlines t) of Inl e \<Rightarrow> 0 | Inr named \<Rightarrow> length (concat named)))"

text \<open>The steps that are left: the paths waiting, and for each file not yet read the paths it can add and itself.\<close>

definition steps_left :: "string set \<Rightarrow> (string \<Rightarrow> exn + string) \<Rightarrow> (string \<Rightarrow> exn + string list) \<Rightarrow> string list \<Rightarrow> string list \<Rightarrow> nat" where
  "steps_left U R D todo seen = length todo + (\<Sum>p \<in> U - set seen. fan_out R D p)"

lemma steps_left_skip: "steps_left U R D (p # todo) seen = Suc (steps_left U R D todo seen)"
  by (simp add: steps_left_def)

lemma steps_left_read:
  assumes "finite U" "p \<in> U" "p \<notin> set seen"
  shows "steps_left U R D (p # todo) seen = Suc (fan_out R D p + steps_left U R D todo (p # seen))"
proof -
  have "U - set seen = insert p (U - set (p # seen))" "p \<notin> U - set (p # seen)" using assms(2,3) by auto
  then have "(\<Sum>p \<in> U - set seen. fan_out R D p) = fan_out R D p + (\<Sum>p \<in> U - set (p # seen). fan_out R D p)"
    using assms(1) by (metis finite_Diff sum.insert)
  then show ?thesis by (simp add: steps_left_def)
qed

lemma steps_left_more: "steps_left U R D (todo @ xs) seen = steps_left U R D todo seen + length xs"
  by (simp add: steps_left_def)

lemma closure_ends:
  assumes U: "finite U" "sources_within U R D"
    and quiet: "\<And>p. R p \<noteq> Inl Unfinished" "\<And>ls. collect (named_sources D) ls \<noteq> Inl Unfinished"
  shows "set todo \<subseteq> U \<Longrightarrow> steps_left U R D todo seen \<le> n \<Longrightarrow>
    closure_of n R D todo seen fs \<noteq> Inl Unfinished \<and> closure_of (n + k) R D todo seen fs = closure_of n R D todo seen fs"
proof (induction n arbitrary: todo seen fs)
  case 0
  then show ?case by (cases todo; cases k) (simp_all add: steps_left_def)
next
  case (Suc n)
  show ?case
  proof (cases todo)
    case Nil
    then show ?thesis by (cases k) simp_all
  next
    case (Cons p rest)
    have rest: "set rest \<subseteq> U" "p \<in> U" using Suc.prems(1) Cons by auto
    show ?thesis
    proof (cases "p \<in> set seen")
      case True
      then show ?thesis using Suc.IH [OF rest(1)] Suc.prems(2) Cons by (simp add: steps_left_skip)
    next
      case False
      have left: "fan_out R D p + steps_left U R D rest (p # seen) \<le> n"
        using steps_left_read [OF U(1) rest(2) False] Suc.prems(2) Cons by simp
      show ?thesis
      proof (cases "R p")
        case (Inl e)
        have "closure_of n R D rest (p # seen) fs' \<noteq> Inl Unfinished
            \<and> closure_of (n + k) R D rest (p # seen) fs' = closure_of n R D rest (p # seen) fs'" for fs'
          using left by (intro Suc.IH [OF rest(1)]) simp
        then show ?thesis using Inl Cons False quiet(1) [of p] by (cases e) simp_all
      next
        case (Inr t)
        show ?thesis
        proof (cases "collect (named_sources D) (splitlines t)")
          case (Inl e)
          then show ?thesis using Inr Cons False quiet(2) [of "splitlines t"] by simp
        next
          case named: (Inr named)
          then have "set (rest @ concat named) \<subseteq> U" "steps_left U R D (rest @ concat named) (p # seen) \<le> n"
            using U(2) rest Inr left by (auto simp: sources_within_def fan_out_def steps_left_more)
          then show ?thesis using Suc.IH Inr named Cons False by simp
        qed
      qed
    qed
  qed
qed

context steady_files
begin

lemma collect_unfinished:
  assumes "\<And>d. D d \<noteq> Inl Unfinished" shows "collect (named_sources D) ls \<noteq> Inl Unfinished"
proof -
  have "named_sources D l \<noteq> Inl Unfinished" for l
    using assms by (auto simp: named_sources_def split: option.split sum.split exn.split)
  then show ?thesis by (induction ls) (auto split: sum.split)
qed

lemma reading_finishes:
  assumes U: "finite U" "root_path \<in> U" "sources_within U R D"
    and quiet: "runner_raises (\<lambda>e. e \<noteq> Unfinished) os"
  shows "\<exists>n. \<exists>r. r \<noteq> Inl Unfinished \<and> (\<forall>k h. fst (read_interfaces_config (n + k) os root_path h) = r)"
proof -
  have R: "R p \<noteq> Inl Unfinished" for p
    using steady_read [of p] runner_raises.raises_read [OF quiet, of p] by (metis prod.collapse)
  have D: "D d \<noteq> Inl Unfinished" for d
    using steady_list [of d] runner_raises.raises_listdir [OF quiet, of d] by (metis prod.collapse)
  define n where "n = steps_left U R D [root_path] []"
  let ?c = "closure_of n R D [root_path] [] []"
  have c: "?c \<noteq> Inl Unfinished \<and> closure_of (n + k) R D [root_path] [] [] = ?c" for k
    using U by (intro closure_ends [OF U(1,3) R collect_unfinished [OF D]]) (simp_all add: n_def)
  let ?r = "case ?c of Inl e \<Rightarrow> Inl e | Inr fs \<Rightarrow> Inr (parse_files fs)"
  have "fst (read_interfaces_config (n + k) os root_path h) = ?r" for k h
    using closure_is [of "n + k" "[root_path]" "[]" "[]" h] c [of k]
    by (cases "read_closure (n + k) os [root_path] [] [] h")
      (auto simp: read_interfaces_config_def act_bind_def split: sum.split)
  moreover have "?r \<noteq> Inl Unfinished" using c [of 0] by (auto split: sum.split)
  ultimately show ?thesis by blast
qed

end

text \<open>The scripted machine with a plain file table, whatever it holds at the start.\<close>

definition fixed_os :: "(string \<times> string) list \<Rightarrow> lab os" where
  "fixed_os fs = lab_os\<lparr>os_read_text := (\<lambda>path m. (case map_of fs path of None \<Rightarrow> Inl (OSError path) | Some c \<Rightarrow> Inr c, m))\<rparr>"

interpretation fixed_files: steady_files "fixed_os fs"
    "\<lambda>p. case map_of fs p of None \<Rightarrow> Inl (OSError p) | Some c \<Rightarrow> Inr c" "\<lambda>d. Inr []"
  by unfold_locales (simp_all add: fixed_os_def lab_os_def)

interpretation fixed_runner: runner_raises "\<lambda>e. e \<noteq> Unfinished" "fixed_os fs"
  by unfold_locales
    (auto simp: fixed_os_def lab_os_def lab_run_def lab_append_def Let_def split: if_splits option.splits)

text \<open>
  C29. Reading the interface configuration terminates. On a machine whose files hold still, and where the files
  that can be reached from the start through \<open>source\<close> lines are finitely many, there is a number of steps after which the loop has
  ended, with the same result for every larger number: files that source each other in a cycle do not keep it
  going.
\<close>
theorem reading_config_ends:
  assumes "steady_files os R D" and "runner_raises (\<lambda>e. e \<noteq> Unfinished) os"
    and "finite U" and "root_path \<in> U" and "sources_within U R D"
  shows "\<exists>n. \<exists>r. r \<noteq> Inl Unfinished \<and> (\<forall>k h. fst (read_interfaces_config (n + k) os root_path h) = r)"
  by (rule steady_files.reading_finishes [OF assms(1,3-5,2)])

text \<open>Two files that source each other.\<close>

definition cyclic_files :: "(string \<times> string) list" where
  "cyclic_files = [(''/a'', ''source /b''), (''/b'', ''source /a'')]"

theorem reading_config_ends_witness:
  "\<exists>n. \<exists>r. r \<noteq> Inl Unfinished \<and> (\<forall>k h. fst (read_interfaces_config (n + k) (fixed_os cyclic_files) ''/a'' h) = r)"
proof (rule reading_config_ends [OF fixed_files.steady_files_axioms fixed_runner.runner_raises_axioms])
  have "collect (named_sources (\<lambda>d. Inr [])) (splitlines ''source /b'') = Inr [[''/b'']]"
    "collect (named_sources (\<lambda>d. Inr [])) (splitlines ''source /a'') = Inr [[''/a'']]" by code_simp+
  then show "sources_within {''/a'', ''/b''} (\<lambda>p. case map_of cyclic_files p of None \<Rightarrow> Inl (OSError p) | Some c \<Rightarrow> Inr c) (\<lambda>d. Inr [])"
    by (auto simp: sources_within_def cyclic_files_def)
qed simp_all

end
