(* ===== verification/IpAddress.thy ===== *)
theory IpAddress
  imports PyValue "HOL-Library.Word"
begin

unbundle bit_operations_syntax

text \<open>
  What the modelled code uses of Python's \<open>ipaddress\<close>: \<open>ip_network\<close> on text with \<open>strict=True\<close>, \<open>is_private\<close>,
  \<open>is_link_local\<close>, and the text of a network, for IPv4 addresses as 32-bit words and IPv6 addresses as 128-bit words.
  The address blocks are those of the module in Python 3.11 and 3.12. Two outcomes of the constructors are kept apart: text
  that is no network of the family (\<open>None\<close>; the other family is tried), and a network with host bits (an exception).
\<close>

section \<open>Networks\<close>

definition netmask :: "nat \<Rightarrow> 'a::len word" where
  "netmask n = NOT (drop_bit n (- 1))"

text \<open>A network is its address and the length of its prefix.\<close>

type_synonym 'a net = "'a word \<times> nat"

definition in_net :: "'a::len word \<Rightarrow> 'a net \<Rightarrow> bool" where
  "in_net a n \<longleftrightarrow> a AND netmask (snd n) = fst n"

definition broadcast :: "'a::len net \<Rightarrow> 'a word" where
  "broadcast n = fst n OR NOT (netmask (snd n))"

definition strict_net :: "'a::len net \<Rightarrow> bool" where
  "strict_net n \<longleftrightarrow> fst n AND netmask (snd n) = fst n"

text \<open>The network lies in a block when its first and its last address do.\<close>

definition ends_in :: "'a::len net \<Rightarrow> 'a net \<Rightarrow> bool" where
  "ends_in n block \<longleftrightarrow> in_net (fst n) block \<and> in_net (broadcast n) block"

lemma between_ends:
  fixes a :: "'a::len word"
  assumes "p AND m = b" "(p OR NOT k) AND m = b" "a AND k = p"
  shows "a AND m = b"
proof (rule bit_eqI)
  fix i assume "possible_bit TYPE('a word) i"
  then have i: "i < LENGTH('a)" by simp
  have "(bit p i \<and> bit m i) = bit b i" "((bit p i \<or> \<not> bit k i) \<and> bit m i) = bit b i" "(bit a i \<and> bit k i) = bit p i"
    using arg_cong [OF assms(1), of "\<lambda>w. bit w i"] arg_cong [OF assms(2), of "\<lambda>w. bit w i"]
      arg_cong [OF assms(3), of "\<lambda>w. bit w i"] i
    by (simp_all add: bit_simps)
  then show "bit (a AND m) i = bit b i" using i by (auto simp: bit_simps)
qed

lemma in_net_block: "ends_in n block \<Longrightarrow> in_net a n \<Longrightarrow> in_net a block"
  unfolding ends_in_def in_net_def broadcast_def by (metis between_ends)

lemma netmask_zero [simp]: "netmask 0 = 0"
  by (simp add: netmask_def)

definition inside_blocks :: "'a::len net list \<Rightarrow> 'a net list \<Rightarrow> 'a net \<Rightarrow> bool" where
  "inside_blocks blocks exceptions n \<longleftrightarrow>
     list_ex (ends_in n) blocks \<and> list_all (\<lambda>x. \<not> in_net (fst n) x \<and> \<not> in_net (broadcast n) x) exceptions"

section \<open>IPv4\<close>

definition parse_octet :: "string \<Rightarrow> nat option" where
  "parse_octet s =
     (if all_digits s \<and> length s \<le> 3 \<and> (s = ''0'' \<or> hd s \<noteq> CHR ''0'') \<and> digits_nat s \<le> 255 then Some (digits_nat s) else None)"

definition ipv4_int :: "string \<Rightarrow> 32 word option" where
  "ipv4_int s =
     (case map parse_octet (split_on (CHR ''.'') s) of
        [Some a, Some b, Some c, Some d] \<Rightarrow> Some (((of_nat a * 256 + of_nat b) * 256 + of_nat c) * 256 + of_nat d)
      | _ \<Rightarrow> None)"

definition trailing_zeros :: "'a::len word \<Rightarrow> nat" where
  "trailing_zeros w = length (takeWhile (\<lambda>i. \<not> bit w i) [0..<LENGTH('a)])"

definition prefix_from_int :: "'a::len word \<Rightarrow> nat option" where
  "prefix_from_int w =
     (let p = LENGTH('a) - trailing_zeros w in if drop_bit (trailing_zeros w) w = mask p then Some p else None)"

definition prefix_digits :: "nat \<Rightarrow> string \<Rightarrow> nat option" where
  "prefix_digits limit s = (if all_digits s \<and> digits_nat s \<le> limit then Some (digits_nat s) else None)"

text \<open>A prefix length, a netmask or a hostmask.\<close>
definition ipv4_prefix :: "string \<Rightarrow> nat option" where
  "ipv4_prefix s =
     (case prefix_digits 32 s of
        Some n \<Rightarrow> Some n
      | None \<Rightarrow>
          (case ipv4_int s of
             None \<Rightarrow> None
           | Some w \<Rightarrow> (case prefix_from_int w of Some n \<Rightarrow> Some n | None \<Rightarrow> prefix_from_int (NOT w))))"

definition ipv4_text :: "32 word \<Rightarrow> string" where
  "ipv4_text w = join ''.'' (map (\<lambda>k. str_of_int (uint (take_bit 8 (drop_bit k w)))) [24, 16, 8, 0])"

definition net_text :: "string \<Rightarrow> nat \<Rightarrow> string" where
  "net_text a n = a @ ''/'' @ str_of_nat n"

text \<open>\<open>_split_optional_netmask\<close>: the address and, after one slash, the prefix.\<close>
definition split_netmask :: "string \<Rightarrow> (string \<times> string option) option" where
  "split_netmask s =
     (case split_on (CHR ''/'') s of [a] \<Rightarrow> Some (a, None) | [a, m] \<Rightarrow> Some (a, Some m) | _ \<Rightarrow> None)"

datatype ip_net = V4 "32 word" nat | V6 "128 word" nat "string option"

definition ipv4_network :: "string \<Rightarrow> exn + ip_net option" where
  "ipv4_network s =
     (case split_netmask s of
        None \<Rightarrow> Inr None
      | Some (a, m) \<Rightarrow>
          (case (ipv4_int a, case m of None \<Rightarrow> Some 32 | Some p \<Rightarrow> ipv4_prefix p) of
             (Some w, Some n) \<Rightarrow>
               if strict_net (w, n) then Inr (Some (V4 w n))
               else Inl (ValueError (net_text (ipv4_text w) n @ '' has host bits set''))
           | _ \<Rightarrow> Inr None))"

definition ipv4_private :: "32 net list" where
  "ipv4_private = [(0x00000000, 8), (0x0A000000, 8), (0x7F000000, 8), (0xA9FE0000, 16), (0xAC100000, 12), (0xC0000000, 24),
     (0xC00000AA, 31), (0xC0000200, 24), (0xC0A80000, 16), (0xC6120000, 15), (0xC6336400, 24), (0xCB007100, 24),
     (0xF0000000, 4), (0xFFFFFFFF, 32)]"

definition ipv4_private_exceptions :: "32 net list" where
  "ipv4_private_exceptions = [(0xC0000009, 32), (0xC000000A, 32)]"

definition ipv4_link_local :: "32 net" where
  "ipv4_link_local = (0xA9FE0000, 16)"

section \<open>IPv6\<close>

definition is_hex :: "char \<Rightarrow> bool" where
  "is_hex c \<longleftrightarrow> is_digit c \<or> lower_char c \<in> {CHR ''a'', CHR ''b'', CHR ''c'', CHR ''d'', CHR ''e'', CHR ''f''}"

definition hex_char_val :: "char \<Rightarrow> nat" where
  "hex_char_val c = (if is_digit c then digit_val c else of_char (lower_char c) - 87)"

definition hextet :: "string \<Rightarrow> int option" where
  "hextet s =
     (if s \<noteq> [] \<and> list_all is_hex s \<and> length s \<le> 4 then Some (foldl (\<lambda>n c. 16 * n + int (hex_char_val c)) 0 s) else None)"

fun hextets :: "string list \<Rightarrow> int list option" where
  "hextets [] = Some []"
| "hextets (p # ps) =
     (case hextet p of None \<Rightarrow> None | Some n \<Rightarrow> (case hextets ps of None \<Rightarrow> None | Some ns \<Rightarrow> Some (n # ns)))"

text \<open>\<open>'%x' % n\<close>\<close>
function hex_text :: "int \<Rightarrow> string" where
  "hex_text n = (if n < 16 then [hex_digit (nat n)] else hex_text (n div 16) @ [hex_digit (nat (n mod 16))])"
  by pat_completeness auto
termination
  by (relation "measure nat") (auto intro: int_div_less_self simp: nat_less_eq_zless)

declare hex_text.simps [simp del]

text \<open>A dotted last part stands for two hextets.\<close>
definition expand_dotted :: "string list \<Rightarrow> string list option" where
  "expand_dotted parts =
     (if CHR ''.'' \<notin> set (last parts) then Some parts
      else (case ipv4_int (last parts) of
              None \<Rightarrow> None
            | Some w \<Rightarrow> Some (butlast parts @ [hex_text (uint (drop_bit 16 w)), hex_text (uint (take_bit 16 w))])))"

text \<open>The hextets before and after \<open>::\<close>, and how many that stands for.\<close>
definition ipv6_parts :: "string list \<Rightarrow> (string list \<times> nat \<times> string list) option" where
  "ipv6_parts parts =
     (case filter (\<lambda>i. parts ! i = []) [1..<length parts - 1] of
        [] \<Rightarrow> if length parts = 8 \<and> hd parts \<noteq> [] \<and> last parts \<noteq> [] then Some (parts, 0, []) else None
      | [k] \<Rightarrow>
          let front = take k parts; rest = drop (Suc k) parts;
              hi = (if hd parts = [] then tl front else front);
              lo = (if last parts = [] then butlast rest else rest)
          in if (hd parts = [] \<and> hi \<noteq> []) \<or> (last parts = [] \<and> lo \<noteq> []) \<or> 8 \<le> length hi + length lo then None
             else Some (hi, 8 - (length hi + length lo), lo)
      | _ \<Rightarrow> None)"

definition ipv6_int :: "string \<Rightarrow> 128 word option" where
  "ipv6_int s =
     (let parts = split_on (CHR '':'') s
      in if length parts < 3 then None
         else case expand_dotted parts of
           None \<Rightarrow> None
         | Some ps \<Rightarrow>
             if 9 < length ps then None
             else case ipv6_parts ps of
               None \<Rightarrow> None
             | Some (hi, skipped, lo) \<Rightarrow>
                 (case (hextets hi, hextets lo) of
                    (Some hs, Some ls) \<Rightarrow>
                      Some (foldl (\<lambda>w n. push_bit 16 w OR word_of_int n)
                        ((push_bit 16 ^^ skipped) (foldl (\<lambda>w n. push_bit 16 w OR word_of_int n) 0 hs)) ls)
                  | _ \<Rightarrow> None))"

text \<open>\<open>_split_scope_id\<close>: what follows a percent sign is a scope, of any characters but that sign.\<close>
definition split_scope :: "string \<Rightarrow> (string \<times> string option) option" where
  "split_scope s =
     (let a = takeWhile (\<lambda>c. c \<noteq> CHR ''%'') s; r = dropWhile (\<lambda>c. c \<noteq> CHR ''%'') s
      in if r = [] then Some (a, None)
         else if tl r = [] \<or> CHR ''%'' \<in> set (tl r) then None
         else Some (a, Some (tl r)))"

text \<open>The longest run of zero hextets, the first of equal ones.\<close>
fun best_run :: "nat \<Rightarrow> nat \<times> nat \<Rightarrow> nat \<times> nat \<Rightarrow> string list \<Rightarrow> nat \<times> nat" where
  "best_run i best cur [] = best"
| "best_run i best (start, n) (h # hs) =
     (if h = ''0'' then
        (let cur = (if n = 0 then i else start, Suc n)
         in best_run (Suc i) (if snd best < Suc n then cur else best) cur hs)
      else best_run (Suc i) best (0, 0) hs)"

definition compress_hextets :: "string list \<Rightarrow> string list" where
  "compress_hextets hs =
     (case best_run 0 (0, 0) (0, 0) hs of (start, n) \<Rightarrow>
        if n \<le> 1 then hs
        else (if start = 0 then [[]] else []) @ take start hs @ [[]] @ drop (start + n) hs
          @ (if start + n = length hs then [[]] else []))"

fun low_hextets :: "nat \<Rightarrow> 128 word \<Rightarrow> string list" where
  "low_hextets 0 w = []"
| "low_hextets (Suc k) w = low_hextets k (drop_bit 16 w) @ [hex_text (uint (take_bit 16 w))]"

definition ipv6_text :: "128 word \<Rightarrow> string" where
  "ipv6_text w = join '':'' (compress_hextets (low_hextets 8 w))"

definition scoped_text :: "128 word \<Rightarrow> string option \<Rightarrow> string" where
  "scoped_text w scope = ipv6_text w @ (case scope of None \<Rightarrow> [] | Some s \<Rightarrow> ''%'' @ s)"

definition ipv6_network :: "string \<Rightarrow> exn + ip_net option" where
  "ipv6_network s =
     (case split_netmask s of
        None \<Rightarrow> Inr None
      | Some (a, m) \<Rightarrow>
          (case split_scope a of
             None \<Rightarrow> Inr None
           | Some (b, scope) \<Rightarrow>
               (case (ipv6_int b, case m of None \<Rightarrow> Some 128 | Some p \<Rightarrow> prefix_digits 128 p) of
                  (Some w, Some n) \<Rightarrow>
                    if strict_net (w, n) then Inr (Some (V6 w n scope))
                    else Inl (ValueError (net_text (scoped_text w scope) n @ '' has host bits set''))
                | _ \<Rightarrow> Inr None)))"

definition ipv6_private :: "128 net list" where
  "ipv6_private = [(0x1, 128), (0, 128), (0xFFFF00000000, 96), (0x0064FF9B000100000000000000000000, 48),
     (0x01000000000000000000000000000000, 64), (0x20010000000000000000000000000000, 23),
     (0x20010DB8000000000000000000000000, 32), (0x20020000000000000000000000000000, 16),
     (0xFC000000000000000000000000000000, 7), (0xFE800000000000000000000000000000, 10)]"

definition ipv6_private_exceptions :: "128 net list" where
  "ipv6_private_exceptions = [(0x20010001000000000000000000000001, 128), (0x20010001000000000000000000000002, 128),
     (0x20010003000000000000000000000000, 32), (0x20010004011200000000000000000000, 48),
     (0x20010020000000000000000000000000, 28), (0x20010030000000000000000000000000, 28)]"

definition ipv6_link_local :: "128 net" where
  "ipv6_link_local = (0xFE800000000000000000000000000000, 10)"

section \<open>\<open>ip_network\<close>\<close>

definition ip_network :: "string \<Rightarrow> exn + ip_net" where
  "ip_network s =
     (case ipv4_network s of
        Inl e \<Rightarrow> Inl e
      | Inr (Some n) \<Rightarrow> Inr n
      | Inr None \<Rightarrow>
          (case ipv6_network s of
             Inl e \<Rightarrow> Inl e
           | Inr (Some n) \<Rightarrow> Inr n
           | Inr None \<Rightarrow> Inl (ValueError (py_repr s @ '' does not appear to be an IPv4 or IPv6 network''))))"

fun prefixlen :: "ip_net \<Rightarrow> nat" where
  "prefixlen (V4 w n) = n"
| "prefixlen (V6 w n scope) = n"

fun is_private :: "ip_net \<Rightarrow> bool" where
  "is_private (V4 w n) = inside_blocks ipv4_private ipv4_private_exceptions (w, n)"
| "is_private (V6 w n scope) = inside_blocks ipv6_private ipv6_private_exceptions (w, n)"

fun is_link_local :: "ip_net \<Rightarrow> bool" where
  "is_link_local (V4 w n) = ends_in (w, n) ipv4_link_local"
| "is_link_local (V6 w n scope) = ends_in (w, n) ipv6_link_local"

fun ip_net_text :: "ip_net \<Rightarrow> string" where
  "ip_net_text (V4 w n) = net_text (ipv4_text w) n"
| "ip_net_text (V6 w n scope) = net_text (scoped_text w scope) n"

end
