(* ===== verification/LanFirewall.thy ===== *)
theory LanFirewall
  imports IpAddress Runner
begin

text \<open>
  The LAN-only inbound firewall (\<open>lan_firewall\<close>): which subnets may be allowed, the nftables text made of them, and how a
  ruleset is checked, loaded, verified and kept for the next boot.
\<close>

section \<open>Subnets and the ruleset\<close>

definition TABLE :: string where "TABLE = ''baseline_lan''"

definition RULESET_PATH :: string where "RULESET_PATH = ''/etc/baseline/lan-only.nft''"

definition UNIT_NAME :: string where "UNIT_NAME = ''baseline-lan-only.service''"

definition UNIT_PATH :: string where "UNIT_PATH = ''/etc/systemd/system/'' @ UNIT_NAME"

definition DEFAULT_LAN_SUBNETS :: "string list" where
  "DEFAULT_LAN_SUBNETS = [''10.0.0.0/8'', ''172.16.0.0/12'', ''192.168.0.0/16'', ''169.254.0.0/16'', ''fe80::/10'', ''fc00::/7'']"

definition text_lines :: "string list \<Rightarrow> string" where
  "text_lines ls = concat (map (\<lambda>l. l @ [CHR 0x0A]) ls)"

definition UNIT :: string where
  "UNIT = text_lines [''[Unit]'', ''Description=Baseline LAN-only inbound firewall'', ''Before=network-pre.target'',
     ''Wants=network-pre.target'', ''After=nftables.service'', ''RequiresMountsFor=/etc/baseline'', ''DefaultDependencies=no'', [],
     ''[Service]'', ''Type=oneshot'', ''RemainAfterExit=yes'', ''ExecStart=/usr/sbin/nft -f '' @ RULESET_PATH,
     ''ExecStop=/usr/sbin/nft delete table inet '' @ TABLE, [], ''[Install]'', ''WantedBy=sysinit.target'']"

definition check_subnet :: "json \<Rightarrow> exn + string" where
  "check_subnet v =
     (case v of
        JStr s \<Rightarrow>
          if strip s = [] then Inl (ValueError (''not a subnet: '' @ py_repr s))
          else (case ip_network (strip s) of
                  Inl e \<Rightarrow> Inl (ValueError (''not a subnet: '' @ py_repr s))
                | Inr net \<Rightarrow>
                    if prefixlen net = 0 \<or> \<not> (is_private net \<or> is_link_local net) then
                      Inl (ValueError (s @ '' is not a LAN subnet; LAN-only never allows public or all addresses''))
                    else Inr (ip_net_text net))
      | _ \<Rightarrow> Inl (ValueError (''not a subnet: '' @ json_repr v)))"

fun check_subnets :: "json list \<Rightarrow> exn + string list" where
  "check_subnets [] = Inr []"
| "check_subnets (v # vs) =
     (case check_subnet v of
        Inl e \<Rightarrow> Inl e
      | Inr s \<Rightarrow> (case check_subnets vs of Inl e \<Rightarrow> Inl e | Inr ss \<Rightarrow> Inr (s # ss)))"

text \<open>\<open>None\<close> stands for a key that is absent.\<close>
definition validate_subnets :: "json option \<Rightarrow> exn + string list" where
  "validate_subnets v =
     (case v of
        None \<Rightarrow> Inr DEFAULT_LAN_SUBNETS
      | Some x \<Rightarrow>
          if \<not> truthy x then Inr DEFAULT_LAN_SUBNETS
          else (case x of JList vs \<Rightarrow> check_subnets vs | _ \<Rightarrow> Inl (ValueError ''lan_subnets must be a list of subnets'')))"

definition allow_lines :: "string list \<Rightarrow> string list" where
  "allow_lines subnets =
     (let v4 = filter (\<lambda>s. CHR '':'' \<notin> set s) subnets; v6 = filter (\<lambda>s. CHR '':'' \<in> set s) subnets
      in (if v4 = [] then [] else [''    ip saddr { '' @ join '', '' v4 @ '' } accept''])
         @ (if v6 = [] then [] else [''    ip6 saddr { '' @ join '', '' v6 @ '' } accept'']))"

definition build_ruleset :: "string list \<Rightarrow> string" where
  "build_ruleset subnets =
     text_lines [''table inet '' @ TABLE, ''delete table inet '' @ TABLE, ''table inet '' @ TABLE @ '' {'', ''  chain input {'',
       ''    type filter hook input priority 0; policy drop;'', ''    iif lo accept'', ''    ct state established,related accept'',
       ''    ct state invalid drop'', ''    udp sport 67 udp dport 68 accept'', ''    udp sport 547 udp dport 546 accept'',
       ''    icmpv6 type { nd-neighbor-solicit, nd-neighbor-advert, nd-router-advert, nd-router-solicit } accept''] @
     join [CHR 0x0A] (allow_lines subnets) @ [CHR 0x0A] @ text_lines [''  }'', ''}'']"

section \<open>Loading, verifying, keeping\<close>

definition verified :: "string \<Rightarrow> string list \<Rightarrow> bool" where
  "verified listing subnets \<longleftrightarrow>
     contains ''policy drop'' listing \<and> contains ''hook input'' listing \<and> list_all (\<lambda>s. contains s listing) subnets"

text \<open>\<open>try: m finally: k\<close>: an exception of \<open>k\<close> replaces the result.\<close>
definition act_finally :: "('s, 'a) act \<Rightarrow> ('s, unit) act \<Rightarrow> ('s, 'a) act" where
  "act_finally m k = (\<lambda>s. case m s of (r, s') \<Rightarrow> (case k s' of (Inl e, s'') \<Rightarrow> (Inl e, s'') | (Inr u, s'') \<Rightarrow> (r, s'')))"

definition CANDIDATE :: string where "CANDIDATE = RULESET_PATH @ ''.new''"

definition restore_previous :: "'m os \<Rightarrow> bool \<Rightarrow> (('m, call) host, string) act" where
  "restore_previous os had_previous =
     (if had_previous then
        act_bind (run os [''nft'', ''-f'', RULESET_PATH] 20) (\<lambda>p.
        act_ret (if returncode p = 0 then ''the previous ruleset was reloaded''
                 else ''reloading the previous ruleset also failed''))
      else act_seq (run os [''nft'', ''delete'', ''table'', ''inet'', TABLE] 20)
             (act_ret ''the unverified ruleset was removed''))"

definition JOINED :: "string list \<Rightarrow> string" where "JOINED argv = join '' '' argv"

fun enable_unit :: "'m os \<Rightarrow> string list list \<Rightarrow> (('m, call) host, (bool \<times> string) option) act" where
  "enable_unit os [] = act_ret None"
| "enable_unit os (argv # rest) =
     act_bind (run os argv 30) (\<lambda>p.
     if returncode p \<noteq> 0 then
       act_ret (Some (False, ''LAN-only rules are active now but will not persist across reboot: '' @ JOINED argv @ '' failed: ''
         @ strip (stderr p)))
     else enable_unit os rest)"

definition persist_ruleset :: "'m os \<Rightarrow> string list \<Rightarrow> (('m, call) host, bool \<times> string) act" where
  "persist_ruleset os subnets =
     act_bind (read_text os CANDIDATE) (\<lambda>ruleset.
     act_seq (write_text_atomic os RULESET_PATH ruleset)
     (act_seq (write_text_atomic os UNIT_PATH UNIT)
     (act_bind (enable_unit os [[''systemctl'', ''daemon-reload''], [''systemctl'', ''enable'', UNIT_NAME]]) (\<lambda>failed.
      act_ret (case failed of
        Some r \<Rightarrow> r
      | None \<Rightarrow> (True, ''LAN-only inbound firewall active and persisted; allowed inbound sources: '' @ join '', '' subnets))))))"

definition LISTING :: "string list" where "LISTING = [''nft'', ''list'', ''table'', ''inet'', TABLE]"

text \<open>The last part of \<open>_load_and_persist\<close>, on the live table.\<close>
definition verify_loaded :: "'m os \<Rightarrow> bool \<Rightarrow> string list \<Rightarrow> (('m, call) host, bool \<times> string) act" where
  "verify_loaded os had_previous subnets =
     act_bind (run os LISTING 20) (\<lambda>listing.
     if returncode listing \<noteq> 0 \<or> \<not> verified (stdout listing) subnets then
       act_bind (restore_previous os had_previous) (\<lambda>how.
       act_ret (False, ''firewall not applied: the loaded ruleset could not be verified; '' @ how))
     else persist_ruleset os subnets)"

definition load_and_persist :: "'m os \<Rightarrow> string list \<Rightarrow> (('m, call) host, bool \<times> string) act" where
  "load_and_persist os subnets =
     act_bind (path_exists os RULESET_PATH) (\<lambda>had_previous.
     act_bind (run os [''nft'', ''-c'', ''-f'', CANDIDATE] 20) (\<lambda>check.
     if returncode check \<noteq> 0 then
       act_ret (False, ''firewall not applied: ruleset check failed: '' @ strip (stderr check))
     else act_bind (run os [''nft'', ''-f'', CANDIDATE] 20) (\<lambda>load.
     if returncode load \<noteq> 0 then
       act_ret (False, ''firewall not applied: loading the ruleset failed: '' @ strip (stderr load))
     else verify_loaded os had_previous subnets)))"

definition apply_ruleset :: "'m os \<Rightarrow> string list \<Rightarrow> (('m, call) host, bool \<times> string) act" where
  "apply_ruleset os subnets =
     act_seq (makedirs os ''/etc/baseline'')
     (act_seq (write_text_atomic os CANDIDATE (build_ruleset subnets))
       (act_finally (load_and_persist os subnets) (remove_path os CANDIDATE)))"

text \<open>\<open>except ValueError\<close> around the validation only.\<close>
definition apply_lan_firewall :: "'m os \<Rightarrow> json \<Rightarrow> (('m, call) host, bool \<times> string) act" where
  "apply_lan_firewall os config =
     act_bind (act_lift (get config ''allow_lan_only'')) (\<lambda>lan_only.
     if (case lan_only of None \<Rightarrow> False | Some v \<Rightarrow> v \<noteq> JBool True) then
       act_ret (False, ''firewall not applied: open mode is not supported; inbound access is LAN-only'')
     else act_bind (act_lift (get config ''lan_subnets'')) (\<lambda>v.
     case validate_subnets v of
       Inl (ValueError why) \<Rightarrow> act_ret (False, ''firewall not applied: '' @ why)
     | Inl e \<Rightarrow> act_raise e
     | Inr subnets \<Rightarrow> apply_ruleset os subnets))"

section \<open>What can be allowed\<close>

text \<open>Every address of the network lies in one of the blocks that are not globally reachable.\<close>

fun only_private :: "ip_net \<Rightarrow> bool" where
  "only_private (V4 w n) = (\<forall>a. in_net a (w, n) \<longrightarrow> list_ex (in_net a) ipv4_private)"
| "only_private (V6 w n scope) = (\<forall>a. in_net a (w, n) \<longrightarrow> list_ex (in_net a) ipv6_private)"

definition lan_subnet :: "string \<Rightarrow> bool" where
  "lan_subnet s \<longleftrightarrow> (\<exists>net. s = ip_net_text net \<and> 0 < prefixlen net \<and> only_private net)"

lemma inside_covers: "inside_blocks blocks exceptions n \<Longrightarrow> in_net a n \<Longrightarrow> list_ex (in_net a) blocks"
  by (auto simp: inside_blocks_def list_ex_iff dest: in_net_block)

lemma link_local_blocks: "list_ex ((=) ipv4_link_local) ipv4_private" "list_ex ((=) ipv6_link_local) ipv6_private"
  by (simp_all add: ipv4_link_local_def ipv4_private_def ipv6_link_local_def ipv6_private_def)

lemma link_local_covers: "ends_in n block \<Longrightarrow> list_ex ((=) block) blocks \<Longrightarrow> in_net a n \<Longrightarrow> list_ex (in_net a) blocks"
  by (auto simp: list_ex_iff dest: in_net_block)

lemma accepted_private: "is_private net \<or> is_link_local net \<Longrightarrow> only_private net"
  using link_local_blocks by (cases net) (auto intro: inside_covers link_local_covers)

lemma check_subnet_lan: "check_subnet v = Inr s \<Longrightarrow> lan_subnet s"
  by (auto simp: check_subnet_def lan_subnet_def intro: accepted_private split: json.splits if_splits sum.splits)

lemma check_subnets_lan: "check_subnets vs = Inr ss \<Longrightarrow> list_all lan_subnet ss"
  by (induction vs arbitrary: ss) (auto split: sum.splits intro: check_subnet_lan)

lemma defaults_checked: "check_subnets (map JStr DEFAULT_LAN_SUBNETS) = Inr DEFAULT_LAN_SUBNETS"
  by code_simp

text \<open>
  The firewall can only be opened to local addresses. Whatever the configuration holds under \<open>lan_subnets\<close>, a list of
  subnets that validation returns consists of networks with a prefix, and every address of each of them, of all \<open>2 ^ 32\<close> or
  \<open>2 ^ 128\<close> addresses, lies in a block that is not globally reachable.
\<close>
theorem lan_subnets_are_private:
  assumes "validate_subnets v = Inr subnets"
  shows "list_all lan_subnet subnets"
  using assms check_subnets_lan [OF defaults_checked]
  by (auto simp: validate_subnets_def intro: check_subnets_lan split: option.splits if_splits json.splits)

theorem lan_subnets_are_private_witness:
  "validate_subnets (Some (JList [JStr '' 192.168.7.0/24 ''])) = Inr [''192.168.7.0/24''] \<and> list_all lan_subnet [''192.168.7.0/24'']
   \<and> validate_subnets (Some (JList [JStr ''8.8.8.0/24''])) = Inl (ValueError
        ''8.8.8.0/24 is not a LAN subnet; LAN-only never allows public or all addresses'')"
proof -
  have "validate_subnets (Some (JList [JStr '' 192.168.7.0/24 ''])) = Inr [''192.168.7.0/24'']" by code_simp
  moreover have "validate_subnets (Some (JList [JStr ''8.8.8.0/24''])) = Inl (ValueError
        ''8.8.8.0/24 is not a LAN subnet; LAN-only never allows public or all addresses'')" by code_simp
  ultimately show ?thesis using lan_subnets_are_private by blast
qed

text \<open>
  An IPv6 subnet may carry a scope, and the text of the network repeats it unchanged: white space, line breaks and braces
  reach the ruleset. Only the percent sign before it, which nftables does not read, keeps such a ruleset from loading.
\<close>

lemma scope_reaches_the_ruleset:
  "validate_subnets (Some (JList [JStr ''fe80::%x } accept; ip saddr { 0.0.0.0-255.255.255.255/10''])) =
     Inr [''fe80::%x } accept; ip saddr { 0.0.0.0-255.255.255.255/10'']"
  by code_simp

section \<open>What is kept for the next boot\<close>

text \<open>A call that changes what the next boot loads.\<close>

definition keeps_rules :: "call \<Rightarrow> bool" where
  "keeps_rules c \<longleftrightarrow>
     (case c of CWrite p t \<Rightarrow> p \<noteq> CANDIDATE | CAppend p t \<Rightarrow> True | CRemove p \<Rightarrow> p \<noteq> CANDIDATE
      | CRun argv t \<Rightarrow> argv \<noteq> [] \<and> hd argv \<noteq> ''nft'' | _ \<Rightarrow> False)"

text \<open>
  \<open>loaded_first new h subnets\<close>: the calls \<open>new\<close> contain a listing of the live table that shows the policy and every subnet, the
  candidate was checked and loaded before it, and nothing was kept before it.
\<close>

definition loaded_first :: "'m os \<Rightarrow> (('m, call) host) \<Rightarrow> call list \<Rightarrow> string list \<Rightarrow> bool" where
  "loaded_first os h new subnets \<longleftrightarrow>
     (\<exists>pre post h1 p h2. new = pre @ CRun LISTING 20 # post \<and> calls h1 = calls h @ pre
        \<and> run os LISTING 20 h1 = (Inr p, h2) \<and> returncode p = 0 \<and> verified (stdout p) subnets
        \<and> list_all (\<lambda>c. \<not> keeps_rules c) pre
        \<and> subseq [CWrite CANDIDATE (build_ruleset subnets), CRun [''nft'', ''-c'', ''-f'', CANDIDATE] 20,
            CRun [''nft'', ''-f'', CANDIDATE] 20] pre)"

definition untouched :: "(exn + bool \<times> string) \<Rightarrow> call list \<Rightarrow> bool" where
  "untouched r new \<longleftrightarrow> list_all (\<lambda>c. \<not> keeps_rules c) new \<and> (case r of Inr (ok, msg) \<Rightarrow> \<not> ok | Inl e \<Rightarrow> True)"

lemma call_trace: "call_os c f h = (r, h') \<Longrightarrow> calls h' = calls h @ [c]"
  by (auto simp: call_os_def split: prod.splits)

lemma run_trace: "run os a t h = (r, h') \<Longrightarrow> calls h' = calls h @ [CRun a t]"
  unfolding run_def by (rule call_trace)

lemma exists_trace: "path_exists os p h = (r, h') \<Longrightarrow> calls h' = calls h @ [CExists p]"
  unfolding path_exists_def by (rule call_trace)

lemma act_bind_cases:
  assumes "act_bind m f h = (r, h')"
  obtains e where "m h = (Inl e, h')" "r = Inl e" | x h1 where "m h = (Inr x, h1)" "f x h1 = (r, h')"
  using assms by (auto simp: act_bind_def split: prod.splits sum.splits)

lemma act_seq_cases:
  assumes "act_seq m k h = (r, h')"
  obtains e where "m h = (Inl e, h')" "r = Inl e" | x h1 where "m h = (Inr x, h1)" "k h1 = (r, h')"
  using assms unfolding act_seq_def by (rule act_bind_cases) blast+

lemma keeps_rules_simps [simp]:
  "\<not> keeps_rules (CRun (''nft'' # args) t)" "\<not> keeps_rules (CExists p)" "\<not> keeps_rules (CMakedirs p)" "\<not> keeps_rules (CWrite CANDIDATE c)"
  "\<not> keeps_rules (CRemove CANDIDATE)"
  by (simp_all add: keeps_rules_def)

lemma quiet_restore_previous: "emits (\<lambda>c. \<not> keeps_rules c) (restore_previous os b)"
  unfolding restore_previous_def by (intro emits_if emits_bind emits_seq emits_run emits_ret) simp_all

lemma any_enable: "emits (\<lambda>c. True) (enable_unit os us)"
proof (induction us)
  case Nil
  show ?case by (simp only: enable_unit.simps emits_ret)
next
  case (Cons a us)
  then show ?case by (simp only: enable_unit.simps) (intro emits_bind emits_if emits_run emits_ret; simp)
qed

lemma any_persist: "emits (\<lambda>c. True) (persist_ruleset os subnets)"
  unfolding persist_ruleset_def
  by (intro emits_bind emits_seq emits_read_text emits_write emits_ret any_enable; rule TrueI)

definition COMMANDS :: "call list" where
  "COMMANDS = [CExists RULESET_PATH, CRun [''nft'', ''-c'', ''-f'', CANDIDATE] 20, CRun [''nft'', ''-f'', CANDIDATE] 20]"

definition listing_shows :: "'m os \<Rightarrow> ('m, call) host \<Rightarrow> string list \<Rightarrow> bool" where
  "listing_shows os h1 subnets \<longleftrightarrow>
     (\<exists>p h2. run os LISTING 20 h1 = (Inr p, h2) \<and> returncode p = 0 \<and> verified (stdout p) subnets)"

lemma verify_trace:
  assumes "verify_loaded os b subnets h = (r, h')"
  shows "\<exists>post. calls h' = calls h @ CRun LISTING 20 # post \<and> (untouched r (CRun LISTING 20 # post) \<or> listing_shows os h subnets)"
  using assms unfolding verify_loaded_def
proof (elim act_bind_cases, goal_cases)
  case (1 e)
  then show ?case using run_trace [OF 1(1)] by (auto simp: untouched_def LISTING_def)
next
  case (2 p h1)
  show ?case
  proof (cases "returncode p \<noteq> 0 \<or> \<not> verified (stdout p) subnets")
    case True
    then have k: "act_bind (restore_previous os b) (\<lambda>how. act_ret (False, ''firewall not applied: the loaded ruleset could not be verified; '' @ how)) h1 = (r, h')"
      using 2(2) by simp
    have "emits (\<lambda>c. \<not> keeps_rules c)
        (act_bind (restore_previous os b) (\<lambda>how. act_ret (False, ''firewall not applied: the loaded ruleset could not be verified; '' @ how)))"
      by (intro emits_bind quiet_restore_previous emits_ret)
    from emits_resultD [OF this k] obtain post where "calls h' = calls h1 @ post" "list_all (\<lambda>c. \<not> keeps_rules c) post" by blast
    moreover have "case r of Inr (ok, msg) \<Rightarrow> \<not> ok | Inl e \<Rightarrow> True" using k by (auto elim!: act_bind_cases)
    ultimately show ?thesis using run_trace [OF 2(1)] by (auto simp: untouched_def LISTING_def)
  next
    case False
    then have "persist_ruleset os subnets h1 = (r, h')" using 2(2) by simp
    from emits_resultD [OF any_persist this] obtain post where "calls h' = calls h1 @ post" by blast
    moreover have "listing_shows os h subnets" using 2(1) False by (auto simp: listing_shows_def)
    ultimately show ?thesis using run_trace [OF 2(1)] by auto
  qed
qed

lemma load_trace:
  assumes "load_and_persist os subnets h = (r, h')"
  shows "\<exists>new. calls h' = calls h @ new \<and> (untouched r new
    \<or> (\<exists>post h1. new = COMMANDS @ CRun LISTING 20 # post \<and> calls h1 = calls h @ COMMANDS \<and> listing_shows os h1 subnets))"
proof -
  consider (stopped) new where "calls h' = calls h @ new" "untouched r new"
    | (live) h1 b where "calls h1 = calls h @ COMMANDS" "verify_loaded os b subnets h1 = (r, h')"
    using assms unfolding load_and_persist_def
    by (elim act_bind_cases) (auto simp: untouched_def COMMANDS_def split: if_splits dest!: exists_trace run_trace elim!: act_bind_cases)
  then show ?thesis
  proof cases
    case stopped
    then show ?thesis by blast
  next
    case live
    from verify_trace [OF live(2)] obtain post where
      post: "calls h' = calls h1 @ CRun LISTING 20 # post" "untouched r (CRun LISTING 20 # post) \<or> listing_shows os h1 subnets" by blast
    have "list_all (\<lambda>c. \<not> keeps_rules c) COMMANDS" by (simp add: COMMANDS_def)
    then have "untouched r (CRun LISTING 20 # post) \<Longrightarrow> untouched r (COMMANDS @ CRun LISTING 20 # post)"
      by (simp add: untouched_def)
    then show ?thesis using post live(1) by (metis append.assoc)
  qed
qed

lemma finally_trace:
  assumes "act_finally m k h = (r, h')"
  obtains r1 h1 e where "m h = (r1, h1)" "k h1 = (Inl e, h')" "r = Inl e"
  | h1 u where "m h = (r, h1)" "k h1 = (Inr u, h')"
  using assms by (auto simp: act_finally_def split: prod.splits sum.splits)

lemma kept_after_listing:
  assumes "act_finally (load_and_persist os subnets) (remove_path os CANDIDATE) h = (r, h')"
  shows "\<exists>new. calls h' = calls h @ new \<and> (untouched r new
    \<or> (\<exists>post h1. new = COMMANDS @ CRun LISTING 20 # post \<and> calls h1 = calls h @ COMMANDS \<and> listing_shows os h1 subnets))"
proof -
  obtain r1 h1 r2 where m: "load_and_persist os subnets h = (r1, h1)" and k: "remove_path os CANDIDATE h1 = (r2, h')"
    and r: "r = r1 \<or> (\<exists>e. r = Inl e)"
    using assms by (elim finally_trace) auto
  have c: "calls h' = calls h1 @ [CRemove CANDIDATE]" using k unfolding remove_path_def by (rule call_trace)
  from load_trace [OF m] obtain new where new: "calls h1 = calls h @ new" "untouched r1 new
    \<or> (\<exists>post h1. new = COMMANDS @ CRun LISTING 20 # post \<and> calls h1 = calls h @ COMMANDS \<and> listing_shows os h1 subnets)" by blast
  have "untouched r1 new \<Longrightarrow> untouched r (new @ [CRemove CANDIDATE])" using r by (auto simp: untouched_def)
  then show ?thesis using new c by fastforce
qed

lemma ruleset_trace:
  assumes "apply_ruleset os subnets h = (r, h')"
  shows "\<exists>new. calls h' = calls h @ new \<and> (untouched r new \<or> loaded_first os h new subnets)"
proof -
  let ?pre = "[CMakedirs ''/etc/baseline'', CWrite CANDIDATE (build_ruleset subnets)]"
  consider (stopped) new where "calls h' = calls h @ new" "untouched r new"
    | (run) h2 where "calls h2 = calls h @ ?pre"
        "act_finally (load_and_persist os subnets) (remove_path os CANDIDATE) h2 = (r, h')"
    using assms unfolding apply_ruleset_def makedirs_def write_text_atomic_def
    by (elim act_seq_cases) (auto simp: untouched_def dest!: call_trace)
  then show ?thesis
  proof cases
    case stopped
    then show ?thesis by blast
  next
    case run
    from kept_after_listing [OF run(2)] obtain new where new: "calls h' = calls h2 @ new" "untouched r new
      \<or> (\<exists>post h1. new = COMMANDS @ CRun LISTING 20 # post \<and> calls h1 = calls h2 @ COMMANDS \<and> listing_shows os h1 subnets)" by blast
    have "untouched r new \<Longrightarrow> untouched r (?pre @ new)" by (simp add: untouched_def)
    moreover have "loaded_first os h (?pre @ new) subnets"
      if n: "new = COMMANDS @ CRun LISTING 20 # post" and h1: "calls h1 = calls h2 @ COMMANDS" and l: "listing_shows os h1 subnets" for post h1
      unfolding loaded_first_def
    proof -
      obtain p h3 where p: "run os LISTING 20 h1 = (Inr p, h3)" "returncode p = 0" "verified (stdout p) subnets"
        using l by (auto simp: listing_shows_def)
      have pre: "list_all (\<lambda>c. \<not> keeps_rules c) (?pre @ COMMANDS)" by (simp add: COMMANDS_def)
      have sub: "subseq [CWrite CANDIDATE (build_ruleset subnets), CRun [''nft'', ''-c'', ''-f'', CANDIDATE] 20,
          CRun [''nft'', ''-f'', CANDIDATE] 20] (?pre @ COMMANDS)" by (simp add: COMMANDS_def)
      show "\<exists>pre post h1 p h2. ?pre @ new = pre @ CRun LISTING 20 # post \<and> calls h1 = calls h @ pre
        \<and> run os LISTING 20 h1 = (Inr p, h2) \<and> returncode p = 0 \<and> verified (stdout p) subnets
        \<and> list_all (\<lambda>c. \<not> keeps_rules c) pre
        \<and> subseq [CWrite CANDIDATE (build_ruleset subnets), CRun [''nft'', ''-c'', ''-f'', CANDIDATE] 20,
            CRun [''nft'', ''-f'', CANDIDATE] 20] pre"
        using p pre sub h1 run(1)
        by (intro exI [of _ "?pre @ COMMANDS"] exI [of _ post] exI [of _ h1] exI [of _ p] exI [of _ h3]) (simp add: n)
    qed
    ultimately have "untouched r (?pre @ new) \<or> loaded_first os h (?pre @ new) subnets" using new(2) by blast
    moreover have "calls h' = calls h @ (?pre @ new)" using new(1) run(1) by simp
    ultimately show ?thesis by blast
  qed
qed

definition asked_subnets :: "json \<Rightarrow> string list \<Rightarrow> bool" where
  "asked_subnets config subnets \<longleftrightarrow> (\<exists>v. get config ''lan_subnets'' = Inr v \<and> validate_subnets v = Inr subnets)"

text \<open>
  C30. Only verified rules outlive the boot. Whatever the machine answers, applying the firewall either changes nothing
  that the next boot loads and does not report success, or the candidate made of the validated subnets was checked and
  loaded, and the listing of the live table then showed the drop policy and every subnet, before anything was kept.
\<close>
theorem only_verified_rules_are_kept:
  "\<exists>new. calls (snd (apply_lan_firewall os config h)) = calls h @ new
     \<and> (untouched (fst (apply_lan_firewall os config h)) new
        \<or> (\<exists>subnets. asked_subnets config subnets \<and> loaded_first os h new subnets))"
proof (cases "apply_lan_firewall os config h")
  case (Pair r h')
  then show ?thesis
  proof (cases "get config ''lan_subnets''")
    case (Inl e)
    then show ?thesis using Pair
      by (auto simp: apply_lan_firewall_def untouched_def act_bind_def split: sum.splits if_splits)
  next
    case (Inr v)
    show ?thesis
    proof (cases "\<exists>subnets. validate_subnets v = Inr subnets \<and> apply_ruleset os subnets h = (r, h')")
      case True
      then show ?thesis using ruleset_trace Pair Inr by (fastforce simp: asked_subnets_def)
    next
      case False
      then have "h' = h \<and> untouched r []" using Pair Inr
        by (cases "validate_subnets v"; cases "get config ''allow_lan_only''")
          (simp_all add: apply_lan_firewall_def untouched_def split: if_splits exn.splits, auto)
      then show ?thesis using Pair by (intro exI [of _ "[]"]) simp
    qed
  qed
qed

end
