(* ===== verification/Registry.thy ===== *)
theory Registry
  imports PyValue
begin

text \<open>
  \<open>registry.py\<close>: three tables, in a GLOBAL and a PROTECTED database, on which every registry of the program is
  built. A database is the content of its three tables, each a list of rows in insertion order, and its schema
  version; a file of SQLite is one such database under its path. \<open>unreachable\<close> are the paths whose directory or file
  cannot be opened, the USER volume not being mounted for instance; opening one raises.

  Every operation opens the database first (\<open>connect\<close>), which creates the file and the tables and walks the
  migrations. An operation that raises before its commit changes no row. Columns hold JSON text, as the code
  writes it. The order of a \<open>SELECT\<close>, which SQLite leaves open, is that of the rows; no theorem depends on it.
  Not modelled: the journal mode, the busy timeout and files next to the database.
\<close>

section \<open>Tables\<close>

record entry_row =
  row_attributes :: string
  row_value :: "string option"
  row_scope :: string

record event_row =
  ev_type :: string
  ev_entry :: string
  ev_kind :: string
  ev_at :: int
  ev_data :: string

record database =
  user_version :: int
  has_tables :: bool
  db_types :: "(string \<times> (string \<times> string)) list"
  db_entries :: "((string \<times> string) \<times> entry_row) list"
  db_events :: "event_row list"

type_synonym migrations = "(int \<times> (database \<Rightarrow> database)) list"

record registry =
  databases :: "(string \<times> database) list"
  unreachable :: "string list"
  migration_table :: migrations

definition new_database :: database where
  "new_database = \<lparr>user_version = 0, has_tables = False, db_types = [], db_entries = [], db_events = []\<rparr>"

definition database_at :: "'x registry_scheme \<Rightarrow> string \<Rightarrow> database" where
  "database_at s path = (case map_of (databases s) path of None \<Rightarrow> new_database | Some d \<Rightarrow> d)"

section \<open>Scopes\<close>

definition GLOBAL :: string where "GLOBAL = ''global''"
definition PROTECTED :: string where "PROTECTED = ''protected''"
definition SCOPES :: "string list" where "SCOPES = [GLOBAL, PROTECTED]"

definition GLOBAL_DB_PATH :: string where
  "GLOBAL_DB_PATH = ''/mnt/BASELINE/registry/foundation.db''"

definition DEFAULT_DB_PATH :: string where
  "DEFAULT_DB_PATH = ''/etc/baseline/settings/master_config.db''"

definition path_for_scope :: "string \<Rightarrow> exn + string" where
  "path_for_scope scope =
     (if scope \<notin> set SCOPES then
        Inl (ValueError (''unknown scope '' @ py_repr scope @ '' - must be one of '' @ py_repr_list SCOPES))
      else Inr (if scope = GLOBAL then GLOBAL_DB_PATH else DEFAULT_DB_PATH))"

section \<open>Opening a database\<close>

definition SCHEMA_VERSION :: int where "SCHEMA_VERSION = 1"

definition register_migration :: "int \<Rightarrow> (database \<Rightarrow> database) \<Rightarrow> ('x registry_scheme, unit) act" where
  "register_migration from_version upgrade =
     act_bind (act_get (\<lambda>s. map_of (migration_table s) from_version)) (\<lambda>there.
     if there \<noteq> None then
       act_raise (ValueError (''a migration from version '' @ str_of_int from_version @ '' is already registered''))
     else act_upd (\<lambda>s. s\<lparr>migration_table := AList.update from_version upgrade (migration_table s)\<rparr>))"

text \<open>Each step of the walk is committed, so the steps before a missing migration stay.\<close>

function walk_migrations :: "migrations \<Rightarrow> int \<Rightarrow> (database, unit) act" where
  "walk_migrations migs version =
     (if version < SCHEMA_VERSION then
        (case map_of migs version of
           None \<Rightarrow> act_raise (RuntimeError (''no migration registered to move this database from schema version '' @
             str_of_int version @ '' to '' @ str_of_int (version + 1) @ '' - refusing to guess at the shape''))
         | Some upgrade \<Rightarrow>
             act_seq (act_upd (\<lambda>d. (upgrade d)\<lparr>user_version := version + 1\<rparr>)) (walk_migrations migs (version + 1)))
      else act_ret ())"
  by pat_completeness auto
termination by (relation "measure (\<lambda>(migs, version). nat (SCHEMA_VERSION - version))") auto

definition apply_migrations :: "migrations \<Rightarrow> (database, unit) act" where
  "apply_migrations migs =
     act_bind (act_get user_version) (\<lambda>stored.
     act_seq (act_when (stored = 0) (act_upd (\<lambda>d. d\<lparr>user_version := 1\<rparr>)))
     (let version = (if stored = 0 then 1 else stored)
      in if version > SCHEMA_VERSION then
           act_raise (RuntimeError (''this database's schema is version '' @ str_of_int version @
             '', newer than this code understands ('' @ str_of_int SCHEMA_VERSION @
             '') - refusing to open it rather than risk corrupting data a newer version of this code relies on''))
         else walk_migrations migs version))"

text \<open>\<open>on_database path m\<close>: a statement on the open database at \<open>path\<close>.\<close>

definition on_database :: "string \<Rightarrow> (database, 'a) act \<Rightarrow> ('x registry_scheme, 'a) act" where
  "on_database path m = (\<lambda>s. case m (database_at s path) of
     (r, d) \<Rightarrow> (r, s\<lparr>databases := AList.update path d (databases s)\<rparr>))"

definition connect :: "string \<Rightarrow> ('x registry_scheme, unit) act" where
  "connect path =
     act_bind (act_get (\<lambda>s. path \<in> set (unreachable s))) (\<lambda>closed_off.
     if closed_off then act_raise (OSError (''unable to open database file '' @ path))
     else act_bind (act_get migration_table) (\<lambda>migs.
       on_database path (act_seq (act_upd (\<lambda>d. d\<lparr>has_tables := True\<rparr>)) (apply_migrations migs))))"

definition with_database :: "string \<Rightarrow> (database, 'a) act \<Rightarrow> ('x registry_scheme, 'a) act" where
  "with_database scope m =
     act_bind (act_lift (path_for_scope scope)) (\<lambda>path. act_seq (connect path) (on_database path m))"

section \<open>Writing\<close>

definition register_type :: "string \<Rightarrow> string \<Rightarrow> string \<Rightarrow> ('x registry_scheme, unit) act" where
  "register_type type_id description default_scope =
     (if default_scope \<notin> set SCOPES then
        act_raise (ValueError (''unknown default_scope '' @ py_repr default_scope @ '' - must be one of '' @ py_repr_list SCOPES))
      else with_database default_scope
        (act_upd (\<lambda>d. d\<lparr>db_types := AList.update type_id (description, default_scope) (db_types d)\<rparr>)))"

text \<open>\<open>INSERT \<dots> ON CONFLICT DO UPDATE\<close>: a value of \<^const>\<open>JNull\<close>, which is Python's \<open>None\<close>, leaves a stored value as it is.\<close>

definition upserted :: "json \<Rightarrow> string \<Rightarrow> json \<Rightarrow> entry_row option \<Rightarrow> entry_row" where
  "upserted attributes scope v old =
     \<lparr>row_attributes = json_dumps default_style attributes,
      row_value = (if v = JNull then (case old of None \<Rightarrow> None | Some r \<Rightarrow> row_value r)
                   else Some (json_dumps default_style v)),
      row_scope = scope\<rparr>"

definition upsert_entry ::
    "string \<Rightarrow> string \<Rightarrow> json \<Rightarrow> string \<Rightarrow> json \<Rightarrow> ('x registry_scheme, unit) act" where
  "upsert_entry type_id entry_id attributes scope v =
     with_database scope (act_upd (\<lambda>d. d\<lparr>db_entries := AList.update (type_id, entry_id)
       (upserted attributes scope v (map_of (db_entries d) (type_id, entry_id))) (db_entries d)\<rparr>))"

definition delete_entry :: "string \<Rightarrow> string \<Rightarrow> string \<Rightarrow> ('x registry_scheme, unit) act" where
  "delete_entry type_id entry_id scope =
     with_database scope (act_upd (\<lambda>d. d\<lparr>db_entries := AList.delete (type_id, entry_id) (db_entries d)\<rparr>))"

definition set_value :: "string \<Rightarrow> string \<Rightarrow> json \<Rightarrow> string \<Rightarrow> ('x registry_scheme, unit) act" where
  "set_value type_id entry_id v scope =
     with_database scope (
       act_bind (act_get (\<lambda>d. map_of (db_entries d) (type_id, entry_id))) (\<lambda>old.
       case old of
         None \<Rightarrow> act_raise (KeyError (''no registered entry '' @ type_id @ ''.'' @ entry_id @ '' to set a value on''))
       | Some r \<Rightarrow> act_upd (\<lambda>d. d\<lparr>db_entries := AList.update (type_id, entry_id)
           (r\<lparr>row_value := Some (json_dumps default_style v)\<rparr>) (db_entries d)\<rparr>)))"

definition record_event :: "string \<Rightarrow> string \<Rightarrow> string \<Rightarrow> json \<Rightarrow> string \<Rightarrow> int \<Rightarrow> ('x registry_scheme, unit) act" where
  "record_event type_id entry_id kind data scope at_time =
     with_database scope (act_upd (\<lambda>d. d\<lparr>db_events := db_events d @
       [\<lparr>ev_type = type_id, ev_entry = entry_id, ev_kind = kind, ev_at = at_time, ev_data = json_dumps default_style data\<rparr>]\<rparr>))"

section \<open>Reading\<close>

record reg_entry =
  attributes :: json
  stored_value :: json

definition read_row :: "entry_row \<Rightarrow> exn + reg_entry" where
  "read_row r =
     (case json_parse (row_attributes r) of
        Inl e \<Rightarrow> Inl e
      | Inr a \<Rightarrow>
          (case row_value r of
             None \<Rightarrow> Inr \<lparr>attributes = a, stored_value = JNull\<rparr>
           | Some t \<Rightarrow> (case json_parse t of
               Inl e \<Rightarrow> Inl e | Inr v \<Rightarrow> Inr \<lparr>attributes = a, stored_value = v\<rparr>)))"

definition get_entry :: "string \<Rightarrow> string \<Rightarrow> string \<Rightarrow> ('x registry_scheme, reg_entry option) act" where
  "get_entry type_id entry_id scope =
     act_bind (with_database scope (act_get (\<lambda>d. map_of (db_entries d) (type_id, entry_id)))) (\<lambda>row.
     case row of
       None \<Rightarrow> act_ret None
     | Some r \<Rightarrow> act_bind (act_lift (read_row r)) (\<lambda>e. act_ret (Some e)))"

fun rows_of :: "string \<Rightarrow> ((string \<times> string) \<times> entry_row) list \<Rightarrow> (string \<times> entry_row) list" where
  "rows_of type_id [] = []"
| "rows_of type_id (((t, e), r) # rest) =
     (if t = type_id then (e, r) # rows_of type_id rest else rows_of type_id rest)"

fun read_rows :: "(string \<times> entry_row) list \<Rightarrow> exn + (string \<times> reg_entry) list" where
  "read_rows [] = Inr []"
| "read_rows ((e, r) # rest) =
     (case read_row r of
        Inl x \<Rightarrow> Inl x
      | Inr v \<Rightarrow> (case read_rows rest of Inl x \<Rightarrow> Inl x | Inr vs \<Rightarrow> Inr ((e, v) # vs)))"

definition list_entries :: "string \<Rightarrow> string \<Rightarrow> ('x registry_scheme, (string \<times> reg_entry) list) act" where
  "list_entries type_id scope =
     act_bind (with_database scope (act_get (\<lambda>d. rows_of type_id (db_entries d)))) (\<lambda>rows.
     act_lift (read_rows rows))"

text \<open>\<open>list_entries(\<dots>, read_only=True)\<close>: no database and no table give the empty dictionary, and nothing is created.\<close>

definition list_entries_read_only ::
    "string \<Rightarrow> string \<Rightarrow> ('x registry_scheme, (string \<times> reg_entry) list) act" where
  "list_entries_read_only type_id scope =
     act_bind (act_lift (path_for_scope scope)) (\<lambda>path.
     act_bind (act_get (\<lambda>s. map_of (databases s) path)) (\<lambda>found.
     case found of
       None \<Rightarrow> act_ret []
     | Some d \<Rightarrow>
         act_bind (act_get (\<lambda>s. path \<in> set (unreachable s))) (\<lambda>closed_off.
         if closed_off then act_raise (OSError (''unable to open database file '' @ path))
         else if \<not> has_tables d then act_ret []
         else act_lift (read_rows (rows_of type_id (db_entries d))))))"

definition event_kinds :: "string \<Rightarrow> string option \<Rightarrow> event_row list \<Rightarrow> event_row list" where
  "event_kinds type_id kind evs = filter (\<lambda>e. ev_type e = type_id \<and> (kind = None \<or> kind = Some (ev_kind e))) evs"

definition is_latest :: "event_row list \<Rightarrow> event_row \<Rightarrow> bool" where
  "is_latest evs e \<longleftrightarrow> (\<forall>x \<in> set evs. ev_entry x = ev_entry e \<longrightarrow> ev_at x \<le> ev_at e)"

fun event_dicts :: "event_row list \<Rightarrow> (string \<times> json) list \<Rightarrow> exn + (string \<times> json) list" where
  "event_dicts [] acc = Inr acc"
| "event_dicts (e # rest) acc =
     (case json_parse (ev_data e) of
        Inl x \<Rightarrow> Inl x
      | Inr (JObj kvs) \<Rightarrow> event_dicts rest (AList.update (ev_entry e)
          (JObj (fold (\<lambda>(k, v) d. AList.update k v d) kvs [(''kind'', JStr (ev_kind e)), (''at'', JInt (ev_at e))])) acc)
      | Inr v \<Rightarrow> Inl (TypeError ''object is not a mapping''))"

definition latest_events :: "string \<Rightarrow> string \<Rightarrow> string option \<Rightarrow> ('x registry_scheme, (string \<times> json) list) act" where
  "latest_events type_id scope kind =
     act_bind (with_database scope (act_get (\<lambda>d. event_kinds type_id kind (db_events d)))) (\<lambda>evs.
     act_lift (event_dicts (filter (is_latest evs) evs) []))"

section \<open>A database that opens\<close>

text \<open>
  \<open>ready s path\<close>: the file can be opened and its schema is of this version, or was never given one. Opening it
  then changes no row, and every operation is its statement on the opened database.
\<close>

definition ready :: "'x registry_scheme \<Rightarrow> string \<Rightarrow> bool" where
  "ready s path \<longleftrightarrow> path \<notin> set (unreachable s) \<and> user_version (database_at s path) \<in> {0, SCHEMA_VERSION}"

definition opened :: "database \<Rightarrow> database" where
  "opened d = d\<lparr>has_tables := True, user_version := SCHEMA_VERSION\<rparr>"

definition put_database :: "string \<Rightarrow> database \<Rightarrow> 'x registry_scheme \<Rightarrow> 'x registry_scheme" where
  "put_database path d s = s\<lparr>databases := AList.update path d (databases s)\<rparr>"

lemma opened_fields [simp]:
  "has_tables (opened d)" "user_version (opened d) = SCHEMA_VERSION" "db_types (opened d) = db_types d"
  "db_entries (opened d) = db_entries d" "db_events (opened d) = db_events d"
  by (simp_all add: opened_def)

lemma opened_opened [simp]: "opened (opened d) = opened d" "(opened d)\<lparr>db_entries := db_entries d\<rparr> = opened d"
  by (simp_all add: opened_def)

lemma database_at_put [simp]: "database_at (put_database p d s) q = (if q = p then d else database_at s q)"
  by (simp add: database_at_def put_database_def update_conv)

lemma put_database_twice [simp]: "put_database p d (put_database p e s) = put_database p d s"
  by (simp add: put_database_def)

lemma put_database_fields [simp]:
  "unreachable (put_database p d s) = unreachable s" "migration_table (put_database p d s) = migration_table s"
  by (simp_all add: put_database_def)

lemma ready_put [simp]:
  "ready (put_database p d s) q \<longleftrightarrow>
     (if q = p then q \<notin> set (unreachable s) \<and> user_version d \<in> {0, SCHEMA_VERSION} else ready s q)"
  by (simp add: ready_def)

lemma on_database_eq: "on_database path m s = (case m (database_at s path) of (r, d) \<Rightarrow> (r, put_database path d s))"
  by (simp add: on_database_def put_database_def)

lemma walk_done [simp]: "walk_migrations migs SCHEMA_VERSION = act_ret ()"
  by (subst walk_migrations.simps) simp

declare walk_migrations.simps [simp del]

lemma apply_migrations_ready:
  "user_version d \<in> {0, SCHEMA_VERSION} \<Longrightarrow> apply_migrations migs d = (Inr (), d\<lparr>user_version := SCHEMA_VERSION\<rparr>)"
  by (cases "user_version d = 0") (auto simp: apply_migrations_def Let_def SCHEMA_VERSION_def [symmetric])

lemma connect_ready: "ready s path \<Longrightarrow> connect path s = (Inr (), put_database path (opened (database_at s path)) s)"
  by (simp add: connect_def ready_def on_database_eq apply_migrations_ready opened_def)

lemma connect_unreachable: "path \<in> set (unreachable s) \<Longrightarrow> connect path s = (Inl (OSError (''unable to open database file '' @ path)), s)"
  by (simp add: connect_def)

lemma with_database_ready:
  assumes "path_for_scope scope = Inr path" "ready s path"
  shows "with_database scope m s = (case m (opened (database_at s path)) of (r, d) \<Rightarrow> (r, put_database path d s))"
  using assms by (simp add: with_database_def connect_ready on_database_eq split: prod.split)

lemma scope_paths [simp]:
  "path_for_scope GLOBAL = Inr GLOBAL_DB_PATH" "path_for_scope PROTECTED = Inr DEFAULT_DB_PATH"
  by (simp_all add: path_for_scope_def SCOPES_def GLOBAL_def PROTECTED_def)

lemma scopes_known [simp]: "GLOBAL \<in> set SCOPES" "PROTECTED \<in> set SCOPES"
  by (simp_all add: SCOPES_def)

lemma two_databases [simp]: "GLOBAL_DB_PATH \<noteq> DEFAULT_DB_PATH" "DEFAULT_DB_PATH \<noteq> GLOBAL_DB_PATH"
  by (simp_all add: GLOBAL_DB_PATH_def DEFAULT_DB_PATH_def)

text \<open>Reading never changes a row, and the read-only listing changes nothing at all.\<close>

lemma read_only_keeps_state [simp]: "snd (list_entries_read_only type_id scope s) = s"
  by (simp add: list_entries_read_only_def act_bind_def split: sum.split option.split)

text \<open>A statement on one database leaves the other alone, whether it opens or not.\<close>

definition same_at :: "string \<Rightarrow> 'x registry_scheme \<Rightarrow> 'x registry_scheme \<Rightarrow> bool" where
  "same_at q s t \<longleftrightarrow> database_at t q = database_at s q \<and> unreachable t = unreachable s \<and>
     (map_of (databases t) q = None \<longleftrightarrow> map_of (databases s) q = None)"

lemma same_at_refl [simp]: "same_at q s s"
  by (simp add: same_at_def)

lemma same_at_trans: "same_at q s t \<Longrightarrow> same_at q t u \<Longrightarrow> same_at q s u"
  by (simp add: same_at_def)

lemma same_at_put [simp]: "p \<noteq> q \<Longrightarrow> same_at q s (put_database p d s)"
  by (simp add: same_at_def) (simp add: put_database_def update_conv)

lemma on_database_other: "p \<noteq> q \<Longrightarrow> same_at q s (snd (on_database p m s))"
  by (simp add: on_database_eq split: prod.split)

lemma connect_other: "p \<noteq> q \<Longrightarrow> same_at q s (snd (connect p s))"
  by (simp add: connect_def on_database_other)

lemma with_database_other: "path_for_scope scope \<noteq> Inr q \<Longrightarrow> same_at q s (snd (with_database scope m s))"
proof (cases "path_for_scope scope")
  case (Inr p)
  assume "path_for_scope scope \<noteq> Inr q"
  with Inr have p: "p \<noteq> q" by simp
  then have "same_at q s (snd (connect p s))" by (rule connect_other)
  then show ?thesis
    using on_database_other [OF p] same_at_trans Inr
    by (fastforce simp: with_database_def act_seq_def act_bind_def split: prod.split sum.split)
qed (simp add: with_database_def)

section \<open>Rows\<close>

lemma rows_of_map: "rows_of t xs = map (\<lambda>(k, r). (snd k, r)) (filter (\<lambda>(k, r). fst k = t) xs)"
  by (induction t xs rule: rows_of.induct) auto

lemma map_of_rows_of: "map_of (rows_of t xs) e = map_of xs (t, e)"
  by (induction t xs rule: rows_of.induct) auto

lemma rows_of_update:
  "rows_of t (AList.update (t', e) r xs) = (if t' = t then AList.update e r (rows_of t xs) else rows_of t xs)"
  by (induction t xs rule: rows_of.induct) auto

lemma rows_of_delete:
  "rows_of t (AList.delete (t', e) xs) = (if t' = t then AList.delete e (rows_of t xs) else rows_of t xs)"
  by (induction t xs rule: rows_of.induct) auto

lemma read_row_dumped:
  assumes "json_ok a" "json_ok v"
  shows "read_row \<lparr>row_attributes = json_dumps default_style a, row_value = Some (json_dumps default_style v), row_scope = sc\<rparr> =
           Inr \<lparr>attributes = a, stored_value = v\<rparr>"
  using assms by (simp add: read_row_def json_parse_def loads_dumps_default)

lemma read_rows_ok:
  "\<forall>(e, r) \<in> set rows. read_row r = Inr (f e r) \<Longrightarrow>
     read_rows rows = Inr (map (\<lambda>(e, r). (e, f e r)) rows)"
  by (induction rows) auto

section \<open>What each operation does to a ready database\<close>

lemma register_type_ready:
  assumes "path_for_scope scope = Inr path" "ready s path" "scope \<in> set SCOPES"
  shows "register_type t desc scope s = (Inr (), put_database path ((opened (database_at s path))\<lparr>db_types :=
    AList.update t (desc, scope) (db_types (database_at s path))\<rparr>) s)"
  by (simp add: register_type_def with_database_ready [OF assms(1,2)] assms(3))

lemma upsert_entry_ready:
  assumes "path_for_scope scope = Inr path" "ready s path"
  shows "upsert_entry t e a scope v s = (Inr (), put_database path ((opened (database_at s path))\<lparr>db_entries :=
    AList.update (t, e) (upserted a scope v (map_of (db_entries (database_at s path)) (t, e)))
      (db_entries (database_at s path))\<rparr>) s)"
  by (simp add: upsert_entry_def with_database_ready [OF assms])

lemma list_entries_ready:
  assumes "path_for_scope scope = Inr path" "ready s path"
  shows "list_entries t scope s = (read_rows (rows_of t (db_entries (database_at s path))),
    put_database path (opened (database_at s path)) s)"
  by (simp add: list_entries_def act_bind_def with_database_ready [OF assms])

lemma get_entry_ready:
  assumes "path_for_scope scope = Inr path" "ready s path"
  shows "get_entry t e scope s = ((case map_of (db_entries (database_at s path)) (t, e) of
      None \<Rightarrow> Inr None
    | Some r \<Rightarrow> (case read_row r of Inl x \<Rightarrow> Inl x | Inr v \<Rightarrow> Inr (Some v))),
    put_database path (opened (database_at s path)) s)"
  by (simp add: get_entry_def act_bind_def with_database_ready [OF assms] split: option.split sum.split)

lemma set_value_ready:
  assumes "path_for_scope scope = Inr path" "ready s path"
    and "map_of (db_entries (database_at s path)) (t, e) = Some r"
  shows "set_value t e v scope s = (Inr (), put_database path ((opened (database_at s path))\<lparr>db_entries :=
    AList.update (t, e) (r\<lparr>row_value := Some (json_dumps default_style v)\<rparr>) (db_entries (database_at s path))\<rparr>) s)"
  using assms by (simp add: set_value_def with_database_ready [OF assms(1,2)])

text \<open>A value cannot be given to an entry that was never defined.\<close>

lemma set_value_undefined:
  assumes "path_for_scope scope = Inr path" "ready s path"
    and "map_of (db_entries (database_at s path)) (t, e) = None"
  shows "fst (set_value t e v scope s) = Inl (KeyError (''no registered entry '' @ t @ ''.'' @ e @ '' to set a value on''))"
  using assms by (simp add: set_value_def with_database_ready [OF assms(1,2)])

end
