(* ===== verification/Naming.thy ===== *)
theory Naming
  imports Registry Machines
begin

text \<open>
  \<open>naming.py\<close>: identifiers of nine characters, \<open><L>_<M>_<NNNNN>\<close>, allocated once in the GLOBAL registry and never
  reused, and the aliases that point at them. The regular expressions end in \<open>$\<close>, which also matches before a
  final newline; \<open>shape\<close> says so. A request is a triple (cluster, medium, subject).
\<close>

section \<open>The format\<close>

definition ID_LENGTH :: nat where "ID_LENGTH = 9"
definition SEPARATOR :: string where "SEPARATOR = ''_''"
definition CODE_LENGTH :: nat where "CODE_LENGTH = 5"
definition MAX_NUMERIC :: int where "MAX_NUMERIC = 10 ^ CODE_LENGTH - 1"

definition CLUSTERS :: "(string \<times> string) list" where
  "CLUSTERS = [(''U'', ''User''), (''A'', ''App''), (''S'', ''Substrate''), (''O'', ''Operating System'')]"

definition MEDIA :: "(string \<times> string) list" where
  "MEDIA = [(''D'', ''deb package''), (''C'', ''OCI container''), (''L'', ''LXC container''), (''V'', ''VM''),
     (''F'', ''Flatpak''), (''A'', ''AppImage''), (''S'', ''Snap''), (''N'', ''Nix''), (''I'', ''ISO image'')]"

definition is_cluster :: "string \<Rightarrow> bool" where
  "is_cluster c \<longleftrightarrow> c \<in> fst ` set CLUSTERS"

definition is_medium :: "string \<Rightarrow> bool" where
  "is_medium m \<longleftrightarrow> m \<in> fst ` set MEDIA"

text \<open>\<open>^\<dots>$\<close>: the text, or the text before one final newline.\<close>

definition shape :: "(string \<Rightarrow> bool) \<Rightarrow> string \<Rightarrow> bool" where
  "shape p s \<longleftrightarrow> p s \<or> s \<noteq> [] \<and> last s = CHR 0x0A \<and> p (butlast s)"

definition code_char :: "char \<Rightarrow> bool" where
  "code_char c \<longleftrightarrow> is_digit c \<or> is_upper c"

definition code_text :: "string \<Rightarrow> bool" where
  "code_text s \<longleftrightarrow> length s = CODE_LENGTH \<and> list_all code_char s"

definition CODE_RE :: "string \<Rightarrow> bool" where
  "CODE_RE = shape code_text"

definition id_text :: "string \<Rightarrow> bool" where
  "id_text s \<longleftrightarrow> length s = ID_LENGTH \<and> is_cluster (take 1 s) \<and> take 1 (drop 1 s) = SEPARATOR \<and>
     is_medium (take 1 (drop 2 s)) \<and> take 1 (drop 3 s) = SEPARATOR \<and> code_text (drop 4 s)"

definition ID_RE :: "string \<Rightarrow> bool" where
  "ID_RE = shape id_text"

record baseline_id =
  bi_cluster :: string
  bi_medium :: string
  bi_code :: string

definition id_str :: "baseline_id \<Rightarrow> string" where
  "id_str b = join SEPARATOR [bi_cluster b, bi_medium b, bi_code b]"

definition owner_name :: "baseline_id \<Rightarrow> string" where
  "owner_name b = ''baseline-'' @ lower (id_str b)"

definition format_id :: "string \<Rightarrow> string \<Rightarrow> string \<Rightarrow> exn + string" where
  "format_id cluster medium code =
     (if \<not> is_cluster cluster then
        Inl (NamingError (''unknown cluster '' @ py_repr cluster @ ''; one of '' @ py_repr_list (sort_strs (map fst CLUSTERS))))
      else if \<not> is_medium medium then
        Inl (NamingError (''unknown medium '' @ py_repr medium @ ''; one of '' @ py_repr_list (sort_strs (map fst MEDIA))))
      else if \<not> CODE_RE code then
        Inl (NamingError (''code must be 5 characters of 0-9 or A-Z, got '' @ py_repr code))
      else let v = join SEPARATOR [cluster, medium, code]
           in if length v \<noteq> ID_LENGTH then Inl (AssertionError []) else Inr v)"

definition parse_id :: "string \<Rightarrow> exn + baseline_id" where
  "parse_id v =
     (if \<not> ID_RE v then Inl (NamingError (py_repr v @ '' is not a Baseline identifier (<L>_<M>_<NNNNN>)''))
      else Inr \<lparr>bi_cluster = take 1 v, bi_medium = take 1 (drop 2 v), bi_code = take CODE_LENGTH (drop 4 v)\<rparr>)"

definition is_id :: "string \<Rightarrow> bool" where
  "is_id v = ID_RE v"

definition numeric_code :: "int \<Rightarrow> exn + string" where
  "numeric_code n =
     (if n < 1 \<or> MAX_NUMERIC < n then
        Inl (NamingError (''numeric code out of range 1-'' @ str_of_int MAX_NUMERIC @ '': '' @ str_of_int n))
      else let t = str_of_int n in Inr (replicate (CODE_LENGTH - length t) (CHR ''0'') @ t))"

section \<open>Allocation\<close>

definition REGISTRY_TYPE :: string where "REGISTRY_TYPE = ''baseline_ids''"
definition COUNTER_TYPE :: string where "COUNTER_TYPE = ''baseline_id_counters''"
definition SCOPE :: string where "SCOPE = GLOBAL"

definition ensure_types :: "('x registry_scheme, unit) act" where
  "ensure_types =
     act_seq (register_type REGISTRY_TYPE ''Allocated Baseline identifiers (naming.py) - never deleted, only retired'' SCOPE)
       (register_type COUNTER_TYPE ''Per-cluster numeric high-water marks (naming.py)'' SCOPE)"

definition allocated :: "('x registry_scheme, (string \<times> reg_entry) list) act" where
  "allocated = act_seq ensure_types (list_entries REGISTRY_TYPE SCOPE)"

text \<open>\<open>a.get(k) == t\<close> for a text \<open>t\<close>.\<close>

definition attribute_is :: "json \<Rightarrow> string \<Rightarrow> string \<Rightarrow> exn + bool" where
  "attribute_is a k t = (case get a k of Inl e \<Rightarrow> Inl e | Inr v \<Rightarrow> Inr (v = Some (JStr t)))"

definition is_for :: "json \<Rightarrow> string \<Rightarrow> string \<Rightarrow> string \<Rightarrow> exn + bool" where
  "is_for a cluster medium subject =
     (case attribute_is a ''cluster'' cluster of
        Inr True \<Rightarrow> (case attribute_is a ''medium'' medium of
            Inr True \<Rightarrow> attribute_is a ''subject'' subject
          | r \<Rightarrow> r)
      | r \<Rightarrow> r)"

fun find_in :: "string \<Rightarrow> string \<Rightarrow> string \<Rightarrow> (string \<times> reg_entry) list \<Rightarrow> exn + string option" where
  "find_in cluster medium subject [] = Inr None"
| "find_in cluster medium subject ((v, e) # rest) =
     (case is_for (attributes e) cluster medium subject of
        Inl x \<Rightarrow> Inl x
      | Inr True \<Rightarrow> Inr (Some v)
      | Inr False \<Rightarrow> find_in cluster medium subject rest)"

definition find_id :: "string \<Rightarrow> string \<Rightarrow> string \<Rightarrow> ('x registry_scheme, string option) act" where
  "find_id cluster medium subject =
     act_bind allocated (\<lambda>entries. act_lift (find_in cluster medium subject entries))"

fun codes_in :: "string \<Rightarrow> string list \<Rightarrow> exn + string list" where
  "codes_in cluster [] = Inr []"
| "codes_in cluster (v # vs) =
     (if starts_with v (cluster @ SEPARATOR) then
        (case parse_id v of
           Inl e \<Rightarrow> Inl e
         | Inr b \<Rightarrow> (case codes_in cluster vs of Inl e \<Rightarrow> Inl e | Inr cs \<Rightarrow> Inr (bi_code b # cs)))
      else codes_in cluster vs)"

definition taken_codes :: "string \<Rightarrow> ('x registry_scheme, string list) act" where
  "taken_codes cluster = act_bind allocated (\<lambda>entries. act_lift (codes_in cluster (map fst entries)))"

text \<open>\<open>while numeric_code(n) in taken: n += 1\<close>, which ends because the codes run out.\<close>

function next_free :: "string list \<Rightarrow> int \<Rightarrow> exn + int" where
  "next_free taken n =
     (case numeric_code n of
        Inl e \<Rightarrow> Inl e
      | Inr code \<Rightarrow> if code \<in> set taken then next_free taken (n + 1) else Inr n)"
  by pat_completeness auto
termination
  by (relation "measure (\<lambda>(taken, n). nat (MAX_NUMERIC + 1 - n))") (auto simp: numeric_code_def split: if_splits)

text \<open>\<open>max(int((counter or {}).get("value") or 1), 1)\<close>\<close>

definition counter_start :: "reg_entry option \<Rightarrow> exn + int" where
  "counter_start counter =
     (let v = (case counter of None \<Rightarrow> JNull | Some e \<Rightarrow> stored_value e)
      in case json_int (if truthy v then v else JInt 1) of Inl e \<Rightarrow> Inl e | Inr i \<Rightarrow> Inr (max i 1))"

definition id_attributes :: "string \<Rightarrow> string \<Rightarrow> string \<Rightarrow> string \<Rightarrow> json" where
  "id_attributes cluster medium code subject =
     JObj [(''cluster'', JStr cluster), (''medium'', JStr medium), (''code'', JStr code), (''subject'', JStr subject)]"

definition retired_value :: "bool \<Rightarrow> json" where
  "retired_value b = JObj [(''retired'', JBool b)]"

definition choose_code :: "string \<Rightarrow> string option \<Rightarrow> string list \<Rightarrow> ('x registry_scheme, string) act" where
  "choose_code cluster code taken =
     (case code of
        Some k \<Rightarrow>
          if k \<in> set taken then
            act_raise (NamingError (''code '' @ k @ '' is already allocated in cluster '' @ cluster))
          else act_ret k
      | None \<Rightarrow>
          act_bind (get_entry COUNTER_TYPE cluster SCOPE) (\<lambda>counter.
          act_bind (act_lift (counter_start counter)) (\<lambda>start.
          act_bind (act_lift (next_free taken start)) (\<lambda>n.
          act_bind (act_lift (numeric_code n)) (\<lambda>k.
          act_seq (upsert_entry COUNTER_TYPE cluster (JObj [(''cluster'', JStr cluster)]) SCOPE (JInt (n + 1)))
            (act_ret k))))))"

definition new_id :: "string \<Rightarrow> string \<Rightarrow> string \<Rightarrow> string option \<Rightarrow> ('x registry_scheme, string) act" where
  "new_id cluster medium subject code =
     act_bind (taken_codes cluster) (\<lambda>taken.
     act_bind (choose_code cluster code taken) (\<lambda>chosen.
     act_bind (act_lift (format_id cluster medium chosen)) (\<lambda>v.
     act_seq (upsert_entry REGISTRY_TYPE v (id_attributes cluster medium chosen subject) SCOPE (retired_value False))
       (act_ret v))))"

definition allocate :: "string \<Rightarrow> string \<Rightarrow> string \<Rightarrow> string option \<Rightarrow> ('x registry_scheme, string) act" where
  "allocate cluster medium subject code =
     act_bind (act_lift (format_id cluster medium
       (case code of None \<Rightarrow> ''00001'' | Some k \<Rightarrow> if k = [] then ''00001'' else k))) (\<lambda>valid.
     act_bind (find_id cluster medium subject) (\<lambda>existing.
     case existing of
       Some v \<Rightarrow> if v \<noteq> [] then act_ret v else new_id cluster medium subject code
     | None \<Rightarrow> new_id cluster medium subject code))"

type_synonym request = "string \<times> string \<times> string"

fun allocate_each :: "request list \<Rightarrow> (string \<times> string) list \<Rightarrow> ('x registry_scheme, (string \<times> string) list) act" where
  "allocate_each [] out = act_ret out"
| "allocate_each ((cluster, medium, subject) # rest) out =
     act_bind (allocate cluster medium subject None) (\<lambda>v. allocate_each rest (AList.update subject v out))"

definition allocate_many :: "request list \<Rightarrow> ('x registry_scheme, (string \<times> string) list) act" where
  "allocate_many requests = allocate_each requests []"

definition retire :: "string \<Rightarrow> ('x registry_scheme, unit) act" where
  "retire v =
     act_bind (act_lift (parse_id v)) (\<lambda>parsed.
     act_bind (get_entry REGISTRY_TYPE v SCOPE) (\<lambda>entry.
     if entry = None then act_raise (NamingError (v @ '' was never allocated''))
     else set_value REGISTRY_TYPE v (retired_value True) SCOPE))"

definition is_retired :: "string \<Rightarrow> ('x registry_scheme, bool) act" where
  "is_retired v =
     act_bind (get_entry REGISTRY_TYPE v SCOPE) (\<lambda>entry.
     case entry of
       None \<Rightarrow> act_ret False
     | Some e \<Rightarrow>
         if \<not> truthy (stored_value e) then act_ret False
         else act_bind (act_lift (get (stored_value e) ''retired'')) (\<lambda>r.
              act_ret (case r of None \<Rightarrow> False | Some x \<Rightarrow> truthy x)))"

section \<open>The preview\<close>

record assignment =
  as_value :: string
  as_allocated :: bool

definition hashable :: "json option \<Rightarrow> bool" where
  "hashable v = (case v of None \<Rightarrow> True | Some x \<Rightarrow> \<not> is_list x \<and> \<not> is_obj x)"

definition subject_key :: "json \<Rightarrow> exn + (json option \<times> json option \<times> json option)" where
  "subject_key a =
     (case a of
        JObj kvs \<Rightarrow>
          let k = (map_of kvs ''cluster'', map_of kvs ''medium'', map_of kvs ''subject'')
          in if hashable (fst k) \<and> hashable (fst (snd k)) \<and> hashable (snd (snd k)) then Inr k
             else Inl (TypeError ''unhashable type'')
      | _ \<Rightarrow> Inl (AttributeError ''object has no attribute get''))"

type_synonym subjects = "((json option \<times> json option \<times> json option) \<times> string) list"

fun by_subject :: "(string \<times> reg_entry) list \<Rightarrow> subjects \<Rightarrow> exn + subjects" where
  "by_subject [] acc = Inr acc"
| "by_subject ((v, e) # rest) acc =
     (case subject_key (attributes e) of
        Inl x \<Rightarrow> Inl x
      | Inr k \<Rightarrow> by_subject rest (AList.update k v acc))"

type_synonym code_table = "(string \<times> string list) list"

definition codes_at :: "code_table \<Rightarrow> string \<Rightarrow> string list" where
  "codes_at taken c = (case map_of taken c of None \<Rightarrow> [] | Some cs \<Rightarrow> cs)"

fun taken_table :: "string list \<Rightarrow> code_table \<Rightarrow> exn + code_table" where
  "taken_table [] acc = Inr acc"
| "taken_table (v # vs) acc =
     (if v = [] then Inl (IndexError ''string index out of range'')
      else case parse_id v of
        Inl e \<Rightarrow> Inl e
      | Inr b \<Rightarrow> taken_table vs (AList.update (take 1 v) (bi_code b # codes_at acc (take 1 v)) acc))"

fun start_numbers :: "string list \<Rightarrow> (string \<times> reg_entry) list \<Rightarrow> exn + (string \<times> int) list" where
  "start_numbers [] counters = Inr []"
| "start_numbers (c # cs) counters =
     (case counter_start (map_of counters c) of
        Inl e \<Rightarrow> Inl e
      | Inr n \<Rightarrow> (case start_numbers cs counters of Inl e \<Rightarrow> Inl e | Inr ns \<Rightarrow> Inr ((c, n) # ns)))"

type_synonym counters = "(string \<times> int) list"

definition known_id :: "subjects \<Rightarrow> string \<Rightarrow> string \<Rightarrow> string \<Rightarrow> string option" where
  "known_id known cluster medium subject =
     (case map_of known (Some (JStr cluster), Some (JStr medium), Some (JStr subject)) of
        Some v \<Rightarrow> if v \<noteq> [] then Some v else None
      | None \<Rightarrow> None)"

definition number_one :: "code_table \<Rightarrow> counters \<Rightarrow> string \<Rightarrow> string \<Rightarrow> exn + (string \<times> code_table \<times> counters)" where
  "number_one taken next_n cluster medium =
     (case map_of next_n cluster of
        None \<Rightarrow> Inl (KeyError cluster)
      | Some start \<Rightarrow>
          (case next_free (codes_at taken cluster) start of
             Inl e \<Rightarrow> Inl e
           | Inr n \<Rightarrow>
               (case numeric_code n of
                  Inl e \<Rightarrow> Inl e
                | Inr code \<Rightarrow>
                    (case format_id cluster medium code of
                       Inl e \<Rightarrow> Inl e
                     | Inr v \<Rightarrow> Inr (v, AList.update cluster (code # codes_at taken cluster) taken,
                                        AList.update cluster (n + 1) next_n)))))"

fun preview_each :: "subjects \<Rightarrow> request list \<Rightarrow> code_table \<Rightarrow> counters
     \<Rightarrow> (string \<times> assignment) list \<Rightarrow> exn + (string \<times> assignment) list" where
  "preview_each known [] taken next_n out = Inr out"
| "preview_each known ((cluster, medium, subject) # rest) taken next_n out =
     (case known_id known cluster medium subject of
        Some hit \<Rightarrow> preview_each known rest taken next_n (AList.update subject \<lparr>as_value = hit, as_allocated = True\<rparr> out)
      | None \<Rightarrow>
          (case number_one taken next_n cluster medium of
             Inl e \<Rightarrow> Inl e
           | Inr (v, taken', next_n') \<Rightarrow>
               preview_each known rest taken' next_n' (AList.update subject \<lparr>as_value = v, as_allocated = False\<rparr> out)))"

definition preview :: "request list \<Rightarrow> ('x registry_scheme, (string \<times> assignment) list) act" where
  "preview requests =
     act_bind (list_entries_read_only REGISTRY_TYPE SCOPE) (\<lambda>existing.
     act_bind (list_entries_read_only COUNTER_TYPE SCOPE) (\<lambda>counters.
     act_bind (act_lift (by_subject existing [])) (\<lambda>known.
     act_bind (act_lift (taken_table (map fst existing) [])) (\<lambda>taken.
     act_bind (act_lift (start_numbers (map fst CLUSTERS) counters)) (\<lambda>next_n.
     act_lift (preview_each known requests taken next_n []))))))"

section \<open>Aliases\<close>

definition ALIAS_DIRNAME :: string where "ALIAS_DIRNAME = ''by-name''"
definition ALIAS_DIR_OWNER :: string where "ALIAS_DIR_OWNER = ''root''"
definition ALIAS_DIR_MODE :: string where "ALIAS_DIR_MODE = ''0755''"

definition alias_head :: "char \<Rightarrow> bool" where
  "alias_head c \<longleftrightarrow> is_upper c \<or> is_lower c \<or> is_digit c"

definition alias_text :: "string \<Rightarrow> bool" where
  "alias_text s \<longleftrightarrow> s \<noteq> [] \<and> length s \<le> 63 \<and> alias_head (hd s) \<and>
     list_all (\<lambda>c. alias_head c \<or> c \<in> set ''._-'') (tl s)"

definition ALIAS_RE :: "string \<Rightarrow> bool" where
  "ALIAS_RE = shape alias_text"

definition validate_alias :: "string \<Rightarrow> exn + string" where
  "validate_alias alias =
     (if \<not> ALIAS_RE alias then
        Inl (NamingError (''alias '' @ py_repr alias @ '' must be 1-63 characters of A-Z a-z 0-9 . _ - and start with a letter or digit''))
      else if is_id alias then Inl (NamingError (''alias '' @ py_repr alias @ '' has the form of an identifier''))
      else Inr alias)"

definition strip_slashes :: "string \<Rightarrow> string" where
  "strip_slashes base = rev (lstrip_char (CHR ''/'') (rev base))"

definition alias_dir :: "string \<Rightarrow> string" where
  "alias_dir base = strip_slashes base @ ''/'' @ ALIAS_DIRNAME"

record alias_link_info =
  al_link :: string
  al_target :: string
  al_owner :: string
  al_dir_mode :: string

definition alias_link :: "string \<Rightarrow> string \<Rightarrow> string \<Rightarrow> exn + alias_link_info" where
  "alias_link base alias v =
     (case validate_alias alias of
        Inl e \<Rightarrow> Inl e
      | Inr a \<Rightarrow>
          (case parse_id v of
             Inl e \<Rightarrow> Inl e
           | Inr b \<Rightarrow> Inr \<lparr>al_link = alias_dir base @ ''/'' @ alias, al_target = ''../'' @ v,
                            al_owner = ALIAS_DIR_OWNER, al_dir_mode = ALIAS_DIR_MODE\<rparr>))"

definition canonical_path :: "string \<Rightarrow> string \<Rightarrow> exn + string" where
  "canonical_path base v =
     (case parse_id v of Inl e \<Rightarrow> Inl e | Inr b \<Rightarrow> Inr (strip_slashes base @ ''/'' @ v))"

definition assert_canonical :: "string \<Rightarrow> exn + string" where
  "assert_canonical path =
     (if ALIAS_DIRNAME \<in> set (filter (\<lambda>p. p \<noteq> []) (split_on (CHR ''/'') path)) then
        Inl (NamingError (py_repr path @ '' goes through by-name/ - mount by identifier, never by alias''))
      else Inr path)"

section \<open>Identifiers\<close>

definition ident :: "string \<Rightarrow> string \<Rightarrow> string \<Rightarrow> string" where
  "ident c m k = c @ SEPARATOR @ m @ SEPARATOR @ k"

lemma cluster_single: "is_cluster c \<Longrightarrow> \<exists>x. c = [x]"
  by (auto simp: is_cluster_def CLUSTERS_def)

lemma medium_single: "is_medium m \<Longrightarrow> \<exists>x. m = [x]"
  by (auto simp: is_medium_def MEDIA_def)

lemma separator_single: "SEPARATOR = [CHR ''_'']"
  by (simp add: SEPARATOR_def)

lemma ident_join: "join SEPARATOR [c, m, k] = ident c m k"
  by (simp add: ident_def)

lemma code_not_newline: "code_text k \<Longrightarrow> k \<noteq> [] \<and> last k \<noteq> CHR 0x0A"
  by (cases k rule: rev_cases) (auto simp: code_text_def CODE_LENGTH_def code_char_def is_digit_def is_upper_def)

lemma code_text_RE: "code_text k \<Longrightarrow> CODE_RE k"
  by (simp add: CODE_RE_def shape_def)

lemma code_RE_text: "CODE_RE k \<Longrightarrow> length k = CODE_LENGTH \<Longrightarrow> code_text k"
  by (cases k rule: rev_cases) (auto simp: CODE_RE_def shape_def code_text_def)

lemma ident_length: "is_cluster c \<Longrightarrow> is_medium m \<Longrightarrow> length (ident c m k) = 4 + length k"
  by (auto simp: ident_def separator_single dest!: cluster_single medium_single)

lemma format_id_eq:
  "format_id c m k = Inr v \<longleftrightarrow> is_cluster c \<and> is_medium m \<and> code_text k \<and> v = ident c m k"
proof (cases "is_cluster c \<and> is_medium m")
  case True
  then show ?thesis
    using code_RE_text [of k] code_text_RE [of k]
    by (auto simp: format_id_def Let_def ident_join ident_length ID_LENGTH_def CODE_LENGTH_def code_text_def simp del: join.simps)
qed (auto simp: format_id_def)

lemma ident_id_text:
  assumes "is_cluster c" "is_medium m" "code_text k"
  shows "id_text (ident c m k)"
  using assms cluster_single [OF assms(1)] medium_single [OF assms(2)]
  by (auto simp: id_text_def ident_def separator_single ID_LENGTH_def code_text_def CODE_LENGTH_def)

lemma parse_ident:
  assumes "is_cluster c" "is_medium m" "code_text k"
  shows "parse_id (ident c m k) = Inr \<lparr>bi_cluster = c, bi_medium = m, bi_code = k\<rparr>"
  using assms cluster_single [OF assms(1)] medium_single [OF assms(2)] ident_id_text [OF assms]
  by (auto simp: parse_id_def ID_RE_def shape_def ident_def separator_single code_text_def)

lemma ident_inject:
  assumes "is_cluster c" "is_medium m" "is_cluster c'" "is_medium m'"
  shows "ident c m k = ident c' m' k' \<longleftrightarrow> c = c' \<and> m = m' \<and> k = k'"
  using assms cluster_single [OF assms(1)] medium_single [OF assms(2)] cluster_single [OF assms(3)] medium_single [OF assms(4)]
  by (auto simp: ident_def separator_single)

lemma starts_with_cluster:
  assumes "is_cluster c" "is_cluster c'"
  shows "starts_with (ident c m k) (c' @ SEPARATOR) \<longleftrightarrow> c = c'"
  using cluster_single [OF assms(1)] cluster_single [OF assms(2)]
  by (auto simp: starts_with_iff ident_def separator_single)

lemma str_of_nat_length: "n < 10 ^ Suc j \<Longrightarrow> length (str_of_nat n) \<le> Suc j"
proof (induction j arbitrary: n)
  case 0
  then show ?case by (subst str_of_nat.simps) simp
next
  case (Suc j)
  show ?case
  proof (cases "n < 10")
    case True
    then show ?thesis by (subst str_of_nat.simps) simp
  next
    case False
    have "n div 10 < 10 ^ Suc j" using Suc.prems by (simp add: div_less_iff_less_mult)
    with Suc.IH [of "n div 10"] False show ?thesis by (subst str_of_nat.simps) simp
  qed
qed

definition zero_filled :: "string \<Rightarrow> string" where
  "zero_filled t = replicate (CODE_LENGTH - length t) (CHR ''0'') @ t"

lemma numeric_code_eq:
  "numeric_code n = Inr k \<longleftrightarrow> 1 \<le> n \<and> n \<le> MAX_NUMERIC \<and> k = zero_filled (str_of_nat (nat n))"
  by (auto simp: numeric_code_def Let_def zero_filled_def str_of_int_def)

lemma digits_value_zeros: "digits_value 0 p (replicate j (CHR ''0'') @ t) = digits_value 0 (p \<or> j \<noteq> 0) t"
proof (induction j arbitrary: p)
  case (Suc j)
  have "is_digit (CHR ''0'')" "digit_val (CHR ''0'') = 0"
    by (simp_all add: is_digit_def digit_val_def)
  with Suc show ?case by simp
qed simp

lemma digits_value_prev: "t \<noteq> [] \<Longrightarrow> \<forall>c \<in> set t. is_digit c \<Longrightarrow> digits_value a p t = digits_value a q t"
  by (cases t) auto

lemma zero_filled_value: "digits_value 0 False (zero_filled (str_of_nat n)) = Some (int n)"
  using digits_value_prev [OF str_of_nat_nonempty str_of_nat_digits] digits_value_str_of_nat
  by (metis zero_filled_def digits_value_zeros)

lemma numeric_code_text:
  assumes "numeric_code n = Inr k"
  shows "code_text k"
proof -
  have n: "nat n < 10 ^ Suc 4" "k = zero_filled (str_of_nat (nat n))"
    using assms by (auto simp: numeric_code_eq MAX_NUMERIC_def CODE_LENGTH_def)
  then have "length k = CODE_LENGTH"
    using str_of_nat_length [OF n(1)] by (simp add: zero_filled_def CODE_LENGTH_def)
  moreover have "is_digit (CHR ''0'')"
    by (simp add: is_digit_def)
  ultimately show ?thesis
    using n(2) str_of_nat_digits [of "nat n"]
    by (auto simp: code_text_def zero_filled_def list_all_iff code_char_def)
qed

lemma numeric_code_inject: "numeric_code n = Inr k \<Longrightarrow> numeric_code n' = Inr k \<Longrightarrow> n = n'"
  using zero_filled_value by (metis eq_nat_nat_iff int_one_le_iff_zero_less less_le_not_le nle_le numeric_code_eq option.inject of_nat_eq_iff order_trans zero_less_one)

text \<open>Which numbers are free depends on the set of the codes only.\<close>

declare next_free.simps [simp del]

lemma next_free_cong: "set a = set b \<Longrightarrow> next_free a n = next_free b n"
  by (induction a n rule: next_free.induct) (auto simp: next_free.simps split: sum.split)

lemma next_free_ok: "next_free taken n = Inr j \<Longrightarrow> \<exists>k. numeric_code j = Inr k \<and> k \<notin> set taken"
  by (induction taken n rule: next_free.induct) (auto simp: next_free.simps split: sum.splits if_splits)

section \<open>What the registry holds\<close>

text \<open>
  The abstract content of the registry: one \<open>info\<close> for each identifier. \<open>holds_ids d ids\<close>: the rows of the database are
  those of \<open>ids\<close>, their codes are unique in a cluster, and so are their subjects in a cluster and medium.
\<close>

record info =
  in_cluster :: string
  in_medium :: string
  in_code :: string
  in_subject :: string
  in_retired :: bool

definition id_of :: "info \<Rightarrow> string" where
  "id_of i = ident (in_cluster i) (in_medium i) (in_code i)"

definition subject_of :: "info \<Rightarrow> request" where
  "subject_of i = (in_cluster i, in_medium i, in_subject i)"

definition code_key :: "info \<Rightarrow> string \<times> string" where
  "code_key i = (in_cluster i, in_code i)"

definition info_ok :: "info \<Rightarrow> bool" where
  "info_ok i \<longleftrightarrow> is_cluster (in_cluster i) \<and> is_medium (in_medium i) \<and> code_text (in_code i)"

definition info_attributes :: "info \<Rightarrow> json" where
  "info_attributes i = id_attributes (in_cluster i) (in_medium i) (in_code i) (in_subject i)"

definition info_row :: "info \<Rightarrow> string \<times> entry_row" where
  "info_row i = (id_of i, \<lparr>row_attributes = json_dumps default_style (info_attributes i),
     row_value = Some (json_dumps default_style (retired_value (in_retired i))), row_scope = SCOPE\<rparr>)"

definition info_entry :: "info \<Rightarrow> string \<times> reg_entry" where
  "info_entry i = (id_of i, \<lparr>attributes = info_attributes i, stored_value = retired_value (in_retired i)\<rparr>)"

definition holds_ids :: "database \<Rightarrow> info list \<Rightarrow> bool" where
  "holds_ids d ids \<longleftrightarrow> rows_of REGISTRY_TYPE (db_entries d) = map info_row ids \<and> list_all info_ok ids \<and>
     distinct (map code_key ids) \<and> distinct (map subject_of ids)"

text \<open>The counters are numbers.\<close>

definition counter_row :: "entry_row \<Rightarrow> bool" where
  "counter_row r \<longleftrightarrow> (\<exists>a n. json_ok a \<and> r = \<lparr>row_attributes = json_dumps default_style a,
     row_value = Some (json_dumps default_style (JInt n)), row_scope = SCOPE\<rparr>)"

definition counters_ok :: "database \<Rightarrow> bool" where
  "counters_ok d \<longleftrightarrow> (\<forall>(c, r) \<in> set (rows_of COUNTER_TYPE (db_entries d)). counter_row r)"

definition naming_db :: "database \<Rightarrow> info list \<Rightarrow> bool" where
  "naming_db d ids \<longleftrightarrow> holds_ids d ids \<and> counters_ok d \<and> (has_tables d \<or> db_entries d = [])"

definition naming_ok :: "'x registry_scheme \<Rightarrow> info list \<Rightarrow> bool" where
  "naming_ok s ids \<longleftrightarrow> ready s GLOBAL_DB_PATH \<and> naming_db (database_at s GLOBAL_DB_PATH) ids"

lemma info_json_ok [simp]: "json_ok (info_attributes i)" "json_ok (retired_value b)"
  by (simp_all add: info_attributes_def id_attributes_def retired_value_def)

lemma read_info_row: "read_row (snd (info_row i)) = Inr (snd (info_entry i))"
  by (simp add: info_row_def info_entry_def read_row_dumped)

lemma fst_info_rows [simp]: "fst (info_row i) = id_of i" "fst (info_entry i) = id_of i"
  by (simp_all add: info_row_def info_entry_def)

lemma read_info_rows: "read_rows (map info_row ids) = Inr (map info_entry ids)"
  by (induction ids) (simp_all add: info_row_def info_entry_def read_row_dumped)

lemma map_fst_entries [simp]: "map (fst \<circ> info_entry) ids = map id_of ids"
  by simp

lemma id_of_inject: "info_ok i \<Longrightarrow> info_ok j \<Longrightarrow> id_of i = id_of j \<longleftrightarrow>
    in_cluster i = in_cluster j \<and> in_medium i = in_medium j \<and> in_code i = in_code j"
  by (simp add: info_ok_def id_of_def ident_inject)

lemma id_of_key: "info_ok i \<Longrightarrow> info_ok j \<Longrightarrow> id_of i = id_of j \<Longrightarrow> code_key i = code_key j"
  by (simp add: id_of_inject code_key_def)

lemma id_not_among:
  assumes "info_ok i" "list_all info_ok ids" "code_key i \<notin> set (map code_key ids)"
  shows "id_of i \<notin> set (map id_of ids)"
proof
  assume "id_of i \<in> set (map id_of ids)"
  then obtain j where j: "j \<in> set ids" "id_of i = id_of j" by auto
  then have "info_ok j" using assms(2) by (simp add: list_all_iff)
  then have "code_key i = code_key j" using id_of_key assms(1) j(2) by blast
  then show False using assms(3) j(1) by simp
qed

lemma distinct_ids:
  "list_all info_ok ids \<Longrightarrow> distinct (map code_key ids) \<Longrightarrow> distinct (map id_of ids)"
proof (induction ids)
  case (Cons i ids)
  then show ?case using id_not_among [of i ids] by simp
qed simp

lemma is_for_info: "is_for (info_attributes i) c m x = Inr (subject_of i = (c, m, x))"
  by (auto simp: is_for_def attribute_is_def get_def info_attributes_def id_attributes_def subject_of_def split: bool.split)

lemma find_in_infos:
  "find_in c m x (map info_entry ids) = Inr (map_option id_of (find (\<lambda>i. subject_of i = (c, m, x)) ids))"
  by (induction ids) (auto simp: info_entry_def is_for_info)

lemma codes_in_infos:
  "list_all info_ok ids \<Longrightarrow> is_cluster c \<Longrightarrow>
     codes_in c (map id_of ids) = Inr (map in_code (filter (\<lambda>i. in_cluster i = c) ids))"
  by (induction ids) (auto simp: info_ok_def id_of_def starts_with_cluster parse_ident)

text \<open>Registering the types changes no row.\<close>

lemma naming_db_entries:
  "naming_db d ids \<Longrightarrow> db_entries d' = db_entries d \<Longrightarrow> has_tables d' \<Longrightarrow> naming_db d' ids"
  by (simp add: naming_db_def holds_ids_def counters_ok_def)

lemma scope_global [simp]: "path_for_scope SCOPE = Inr GLOBAL_DB_PATH" "SCOPE \<in> set SCOPES"
  by (simp_all add: SCOPE_def)

lemma allocated_ready:
  assumes "naming_ok s ids"
  shows "\<exists>s'. allocated s = (Inr (map info_entry ids), s') \<and> naming_ok s' ids \<and>
    db_entries (database_at s' GLOBAL_DB_PATH) = db_entries (database_at s GLOBAL_DB_PATH)"
proof -
  have r: "ready s GLOBAL_DB_PATH" and d: "naming_db (database_at s GLOBAL_DB_PATH) ids"
    using assms by (simp_all add: naming_ok_def)
  have rows: "rows_of REGISTRY_TYPE (db_entries (database_at s GLOBAL_DB_PATH)) = map info_row ids"
    using d by (simp add: naming_db_def holds_ids_def)
  show ?thesis
    using r naming_db_entries [OF d]
    by (auto simp: allocated_def ensure_types_def register_type_ready list_entries_ready rows read_info_rows
        naming_ok_def act_seq_def act_bind_def ready_def)
qed

lemma find_id_ready:
  assumes "naming_ok s ids"
  shows "\<exists>s'. find_id c m x s = (Inr (map_option id_of (find (\<lambda>i. subject_of i = (c, m, x)) ids)), s') \<and> naming_ok s' ids \<and>
    db_entries (database_at s' GLOBAL_DB_PATH) = db_entries (database_at s GLOBAL_DB_PATH)"
  using allocated_ready [OF assms] by (auto simp: find_id_def find_in_infos)

lemma taken_codes_ready:
  assumes "naming_ok s ids" "is_cluster c"
  shows "\<exists>s'. taken_codes c s = (Inr (map in_code (filter (\<lambda>i. in_cluster i = c) ids)), s') \<and> naming_ok s' ids \<and>
    db_entries (database_at s' GLOBAL_DB_PATH) = db_entries (database_at s GLOBAL_DB_PATH)"
proof -
  have "list_all info_ok ids"
    using assms(1) by (simp add: naming_ok_def naming_db_def holds_ids_def)
  then have "codes_in c (map fst (map info_entry ids)) = Inr (map in_code (filter (\<lambda>i. in_cluster i = c) ids))"
    by (simp add: codes_in_infos assms(2) del: list.map_comp)
  then show ?thesis
    using allocated_ready [OF assms(1)] by (auto simp: taken_codes_def simp del: map_map list.map_comp)
qed

subsection \<open>The counters\<close>

definition next_number :: "database \<Rightarrow> string \<Rightarrow> int" where
  "next_number d c =
     (case map_of (db_entries d) (COUNTER_TYPE, c) of
        None \<Rightarrow> 1
      | Some r \<Rightarrow> (case read_row r of
          Inr e \<Rightarrow> (case counter_start (Some e) of Inr n \<Rightarrow> n | Inl x \<Rightarrow> 1) | Inl x \<Rightarrow> 1))"

lemma counter_start_None [simp]: "counter_start None = Inr 1"
  by (simp add: counter_start_def json_int_def)

lemma counter_start_int [simp]: "counter_start (Some \<lparr>attributes = a, stored_value = JInt n\<rparr>) = Inr (if n = 0 then 1 else max n 1)"
  by (simp add: counter_start_def json_int_def)

lemma counter_rowD:
  "counter_row r \<Longrightarrow> \<exists>a n. read_row r = Inr \<lparr>attributes = a, stored_value = JInt n\<rparr>"
  by (auto simp: counter_row_def read_row_dumped)

lemma counters_okD: "counters_ok d \<Longrightarrow> map_of (db_entries d) (COUNTER_TYPE, c) = Some r \<Longrightarrow> counter_row r"
  unfolding counters_ok_def map_of_rows_of [symmetric] by (auto dest: map_of_SomeD)

lemma counter_read:
  assumes "counters_ok d"
  shows "\<exists>e. (case map_of (db_entries d) (COUNTER_TYPE, c) of
      None \<Rightarrow> Inr None
    | Some r \<Rightarrow> (case read_row r of Inl x \<Rightarrow> Inl x | Inr v \<Rightarrow> Inr (Some v))) = Inr e \<and> counter_start e = Inr (next_number d c)"
proof (cases "map_of (db_entries d) (COUNTER_TYPE, c)")
  case None
  then show ?thesis by (simp add: next_number_def)
next
  case (Some r)
  then show ?thesis
    using counter_rowD [OF counters_okD [OF assms Some]] by (auto simp: next_number_def)
qed

lemma counters_ok_put:
  assumes "counters_ok d"
  shows "counters_ok (d\<lparr>db_entries := AList.update (COUNTER_TYPE, c)
    (upserted (JObj [(''cluster'', JStr c)]) SCOPE (JInt n) old) (db_entries d)\<rparr>)"
proof -
  have "counter_row (upserted (JObj [(''cluster'', JStr c)]) SCOPE (JInt n) old)"
    by (auto simp: counter_row_def upserted_def intro!: exI [of _ "JObj [(''cluster'', JStr c)]"])
  then show ?thesis
    using assms set_update_subset [of c _ "rows_of COUNTER_TYPE (db_entries d)"]
    by (fastforce simp: counters_ok_def rows_of_update)
qed

lemma two_types [simp]: "REGISTRY_TYPE \<noteq> COUNTER_TYPE" "COUNTER_TYPE \<noteq> REGISTRY_TYPE"
  by (simp_all add: REGISTRY_TYPE_def COUNTER_TYPE_def)

text \<open>The next code: the first free number from the counter on. Taking it moves that counter only.\<close>

definition next_code :: "string list \<Rightarrow> int \<Rightarrow> exn + string" where
  "next_code taken start = (case next_free taken start of Inl e \<Rightarrow> Inl e | Inr n \<Rightarrow> numeric_code n)"

definition moves_counter :: "string list \<Rightarrow> string \<Rightarrow> database \<Rightarrow> database \<Rightarrow> bool" where
  "moves_counter taken c d d' \<longleftrightarrow> (\<forall>b. b \<noteq> c \<longrightarrow> next_number d' b = next_number d b) \<and>
     (\<forall>n. next_free taken (next_number d c) = Inr n \<longrightarrow> next_number d' c = n + 1)"

lemma naming_db_counter:
  "naming_db d ids \<Longrightarrow> naming_db ((opened d)\<lparr>db_entries := AList.update (COUNTER_TYPE, c)
    (upserted (JObj [(''cluster'', JStr c)]) SCOPE (JInt n) old) (db_entries d)\<rparr>) ids"
  using counters_ok_put [of "opened d" c n old]
  by (simp add: naming_db_def holds_ids_def rows_of_update counters_ok_def)

lemma next_number_counter:
  "next_number (d\<lparr>db_entries := AList.update (COUNTER_TYPE, c)
     (upserted (JObj [(''cluster'', JStr c)]) SCOPE (JInt n) old) es\<rparr>) b =
   (if b = c then (if n = 0 then 1 else max n 1) else next_number (d\<lparr>db_entries := es\<rparr>) b)"
  by (simp add: next_number_def update_conv upserted_def read_row_dumped)

lemma next_number_entries [simp]:
  "next_number (opened d) c = next_number d c" "next_number (d\<lparr>db_entries := db_entries d'\<rparr>) c = next_number d' c"
  by (simp_all add: next_number_def)

lemma choose_next:
  assumes ok: "naming_ok s ids"
  shows "\<exists>s'. choose_code c None taken s = (next_code taken (next_number (database_at s GLOBAL_DB_PATH) c), s') \<and>
    naming_ok s' ids \<and> moves_counter taken c (database_at s GLOBAL_DB_PATH) (database_at s' GLOBAL_DB_PATH)"
proof -
  let ?d = "database_at s GLOBAL_DB_PATH"
  have r: "ready s GLOBAL_DB_PATH" and d: "naming_db ?d ids"
    using ok by (simp_all add: naming_ok_def)
  obtain e where e: "get_entry COUNTER_TYPE c SCOPE s = (Inr e, put_database GLOBAL_DB_PATH (opened ?d) s)"
    "counter_start e = Inr (next_number ?d c)"
    using counter_read [of ?d c] d by (auto simp: get_entry_ready [OF scope_global(1) r] naming_db_def)
  have r': "ready (put_database GLOBAL_DB_PATH (opened ?d) s) GLOBAL_DB_PATH"
    using r by (simp add: ready_def)
  show ?thesis
  proof (cases "next_free taken (next_number ?d c)")
    case (Inl x)
    then show ?thesis
      using naming_db_entries [OF d, of "opened ?d"] r'
      by (auto simp: choose_code_def e next_code_def moves_counter_def naming_ok_def)
  next
    case (Inr n)
    then obtain k where k: "numeric_code n = Inr k"
      using next_free_ok by blast
    then have "1 \<le> n" by (simp add: numeric_code_eq)
    then show ?thesis
      using naming_db_counter [OF d, of c "n + 1"] r' Inr k
      by (auto simp: choose_code_def e next_code_def moves_counter_def naming_ok_def next_number_counter
          upsert_entry_ready [OF scope_global(1) r'] act_bind_def act_seq_def ready_def)
  qed
qed

lemma next_code_free: "next_code taken n = Inr k \<Longrightarrow> k \<notin> set taken"
  using next_free_ok by (fastforce simp: next_code_def split: sum.splits)

lemma next_code_cong: "set a = set b \<Longrightarrow> next_code a n = next_code b n"
  by (simp add: next_code_def next_free_cong [of a b])

text \<open>Choosing a code gives one the cluster does not use.\<close>

lemma choose_code_ready:
  assumes ok: "naming_ok s ids"
  shows "naming_ok (snd (choose_code c code taken s)) ids \<and>
    (fst (choose_code c code taken s) = Inr k \<longrightarrow> k \<notin> set taken)"
proof (cases code)
  case None
  then show ?thesis using choose_next [OF ok, of c taken] next_code_free by fastforce
next
  case (Some x)
  then show ?thesis using ok by (auto simp: choose_code_def)
qed

subsection \<open>A new identifier\<close>

definition new_info :: "string \<Rightarrow> string \<Rightarrow> string \<Rightarrow> string \<Rightarrow> info" where
  "new_info c m k x = \<lparr>in_cluster = c, in_medium = m, in_code = k, in_subject = x, in_retired = False\<rparr>"

lemma new_info_fields [simp]:
  "id_of (new_info c m k x) = ident c m k" "subject_of (new_info c m k x) = (c, m, x)" "code_key (new_info c m k x) = (c, k)"
  "info_attributes (new_info c m k x) = id_attributes c m k x" "in_retired (new_info c m k x) = False"
  "in_cluster (new_info c m k x) = c" "in_code (new_info c m k x) = k"
  "info_ok (new_info c m k x) \<longleftrightarrow> is_cluster c \<and> is_medium m \<and> code_text k"
  by (simp_all add: new_info_def id_of_def subject_of_def code_key_def info_attributes_def info_ok_def)

lemma info_row_upserted:
  "upserted (info_attributes i) SCOPE (retired_value (in_retired i)) old = snd (info_row i)"
  by (simp add: upserted_def info_row_def retired_value_def)

lemma holds_ids_new:
  assumes h: "holds_ids d ids" and i: "info_ok i" "code_key i \<notin> set (map code_key ids)" "subject_of i \<notin> set (map subject_of ids)"
    and e: "rows_of REGISTRY_TYPE (db_entries d') = AList.update (id_of i) (snd (info_row i)) (rows_of REGISTRY_TYPE (db_entries d))"
  shows "holds_ids d' (ids @ [i])"
proof -
  have "id_of i \<notin> fst ` set (map info_row ids)"
    using id_not_among [of i ids] h i by (auto simp: holds_ids_def)
  moreover have "rows_of REGISTRY_TYPE (db_entries d) = map info_row ids"
    using h by (simp add: holds_ids_def)
  moreover have "(id_of i, snd (info_row i)) = info_row i"
    by (metis fst_info_rows(1) prod.collapse)
  ultimately have "rows_of REGISTRY_TYPE (db_entries d') = map info_row (ids @ [i])"
    using e by (simp add: update_new)
  then show ?thesis
    using h i by (auto simp: holds_ids_def)
qed

lemma add_id_ready:
  assumes ok: "naming_ok s ids" and i: "is_cluster c" "is_medium m" "code_text k"
    and fresh: "(c, k) \<notin> set (map code_key ids)" "(c, m, x) \<notin> set (map subject_of ids)"
  shows "\<exists>s'. upsert_entry REGISTRY_TYPE (ident c m k) (id_attributes c m k x) SCOPE (retired_value False) s = (Inr (), s') \<and>
    naming_ok s' (ids @ [new_info c m k x]) \<and>
    (\<forall>b. next_number (database_at s' GLOBAL_DB_PATH) b = next_number (database_at s GLOBAL_DB_PATH) b)"
proof -
  let ?d = "database_at s GLOBAL_DB_PATH" and ?i = "new_info c m k x"
  let ?d' = "(opened ?d)\<lparr>db_entries := AList.update (REGISTRY_TYPE, ident c m k)
      (upserted (id_attributes c m k x) SCOPE (retired_value False) (map_of (db_entries ?d) (REGISTRY_TYPE, ident c m k)))
      (db_entries ?d)\<rparr>"
  have r: "ready s GLOBAL_DB_PATH" and h: "holds_ids ?d ids" "counters_ok ?d"
    using ok by (simp_all add: naming_ok_def naming_db_def)
  have "holds_ids ?d' (ids @ [?i])"
    by (rule holds_ids_new [OF h(1)]) (use i fresh info_row_upserted [of ?i] in \<open>simp_all add: rows_of_update\<close>)
  moreover have "counters_ok ?d'"
    using h(2) by (simp add: counters_ok_def rows_of_update)
  moreover have "next_number ?d' b = next_number ?d b" for b
    by (simp add: next_number_def update_conv)
  ultimately show ?thesis
    using r by (auto simp: upsert_entry_ready [OF scope_global(1) r] naming_ok_def naming_db_def ready_def)
qed

abbreviation codes_of :: "string \<Rightarrow> info list \<Rightarrow> string list" where
  "codes_of c ids \<equiv> map in_code (filter (\<lambda>i. in_cluster i = c) ids)"

lemma codes_of_key: "k \<in> set (codes_of c ids) \<longleftrightarrow> (c, k) \<in> set (map code_key ids)"
  by (auto simp: code_key_def)

lemma new_id_next:
  assumes ok: "naming_ok s ids" and c: "is_cluster c" "is_medium m" and fresh: "(c, m, x) \<notin> set (map subject_of ids)"
  shows "\<exists>s'. case next_code (codes_of c ids) (next_number (database_at s GLOBAL_DB_PATH) c) of
      Inl e \<Rightarrow> new_id c m x None s = (Inl e, s') \<and> naming_ok s' ids
    | Inr k \<Rightarrow> new_id c m x None s = (Inr (ident c m k), s') \<and> naming_ok s' (ids @ [new_info c m k x]) \<and> (c, k) \<notin> set (map code_key ids) \<and> code_text k \<and>
        moves_counter (codes_of c ids) c (database_at s GLOBAL_DB_PATH) (database_at s' GLOBAL_DB_PATH)"
proof -
  obtain s1 where s1: "taken_codes c s = (Inr (codes_of c ids), s1)" "naming_ok s1 ids"
    "db_entries (database_at s1 GLOBAL_DB_PATH) = db_entries (database_at s GLOBAL_DB_PATH)"
    using taken_codes_ready [OF ok c(1)] by blast
  then have n: "next_number (database_at s1 GLOBAL_DB_PATH) = next_number (database_at s GLOBAL_DB_PATH)"
    by (simp add: next_number_def fun_eq_iff)
  obtain s2 where s2: "choose_code c None (codes_of c ids) s1 =
      (next_code (codes_of c ids) (next_number (database_at s GLOBAL_DB_PATH) c), s2)" "naming_ok s2 ids"
    "moves_counter (codes_of c ids) c (database_at s GLOBAL_DB_PATH) (database_at s2 GLOBAL_DB_PATH)"
    using choose_next [OF s1(2), of c "codes_of c ids"] by (auto simp: n moves_counter_def)
  show ?thesis
  proof (cases "next_code (codes_of c ids) (next_number (database_at s GLOBAL_DB_PATH) c)")
    case (Inl e)
    then show ?thesis using s1(1) s2 by (auto simp: new_id_def)
  next
    case (Inr k)
    have k: "code_text k" "(c, k) \<notin> set (map code_key ids)"
      using next_code_free [OF Inr] Inr numeric_code_text unfolding codes_of_key
      by (auto simp: next_code_def split: sum.splits)
    then have "format_id c m k = Inr (ident c m k)"
      using c by (simp add: format_id_eq)
    then show ?thesis
      using add_id_ready [OF s2(2) c k fresh] Inr s1(1) s2 k
      by (auto simp: new_id_def act_bind_def act_seq_def moves_counter_def)
  qed
qed

lemma new_id_ready:
  assumes ok: "naming_ok s ids" and c: "is_cluster c" "is_medium m" and fresh: "(c, m, x) \<notin> set (map subject_of ids)"
  shows "\<exists>s'. (\<exists>e. new_id c m x code s = (Inl e, s') \<and> naming_ok s' ids) \<or>
    (\<exists>k. new_id c m x code s = (Inr (ident c m k), s') \<and> naming_ok s' (ids @ [new_info c m k x]))"
proof (cases code)
  case None
  then show ?thesis
    using new_id_next [OF ok c fresh]
    by (cases "next_code (codes_of c ids) (next_number (database_at s GLOBAL_DB_PATH) c)") auto
next
  case (Some k)
  obtain s1 where s1: "taken_codes c s = (Inr (codes_of c ids), s1)" "naming_ok s1 ids"
    using taken_codes_ready [OF ok c(1)] by blast
  show ?thesis
  proof (cases "k \<in> set (codes_of c ids) \<or> (\<forall>v. format_id c m k \<noteq> Inr v)")
    case True
    then show ?thesis
      using s1 Some by (cases "format_id c m k") (auto simp: new_id_def choose_code_def)
  next
    case False
    then have k: "code_text k" "(c, k) \<notin> set (map code_key ids)" "format_id c m k = Inr (ident c m k)"
      unfolding codes_of_key by (auto simp: format_id_eq)
    then show ?thesis
      using add_id_ready [OF s1(2) c k(1,2) fresh] s1(1) Some False
      by (auto simp: new_id_def choose_code_def act_bind_def act_seq_def simp del: set_map)
  qed
qed

section \<open>Allocation and retirement\<close>

text \<open>
  A subject that has an identifier gets that one; otherwise it gets a new one, whose code no other identifier of
  the cluster has.
\<close>

lemma find_subject:
  "find (\<lambda>i. subject_of i = y) ids = Some i \<Longrightarrow> i \<in> set ids \<and> subject_of i = y"
  "find (\<lambda>i. subject_of i = y) ids = None \<Longrightarrow> y \<notin> set (map subject_of ids)"
  by (auto simp: find_Some_iff find_None_iff)

lemma ident_nonempty [simp]: "id_of i \<noteq> []"
  by (simp add: id_of_def ident_def separator_single)

lemma format_id_first: "format_id c m k = Inr v \<Longrightarrow> is_cluster c \<and> is_medium m"
  by (simp add: format_id_eq)

lemma allocate_ready:
  assumes ok: "naming_ok s ids"
  shows "\<exists>s' r. allocate c m x code s = (r, s') \<and>
    ((naming_ok s' ids \<and> (\<forall>v. r = Inr v \<longrightarrow> (\<exists>i \<in> set ids. id_of i = v \<and> subject_of i = (c, m, x)))) \<or>
     (\<exists>k. naming_ok s' (ids @ [new_info c m k x]) \<and> r = Inr (ident c m k)))"
proof (cases "format_id c m (case code of None \<Rightarrow> ''00001'' | Some k \<Rightarrow> if k = [] then ''00001'' else k)")
  case (Inl e)
  then show ?thesis using ok by (auto simp: allocate_def)
next
  case (Inr v)
  then have c: "is_cluster c" "is_medium m" by (simp_all add: format_id_eq)
  obtain s1 where s1: "find_id c m x s = (Inr (map_option id_of (find (\<lambda>i. subject_of i = (c, m, x)) ids)), s1)" "naming_ok s1 ids"
    using find_id_ready [OF ok] by blast
  show ?thesis
  proof (cases "find (\<lambda>i. subject_of i = (c, m, x)) ids")
    case None
    have "allocate c m x code s = new_id c m x code s1"
      using Inr s1(1) None by (simp add: allocate_def)
    moreover have "(c, m, x) \<notin> set (map subject_of ids)"
      by (rule find_subject(2) [OF None])
    ultimately show ?thesis
      using new_id_ready [OF s1(2) c, of x code] by fastforce
  next
    case (Some i)
    then show ?thesis
      using Inr s1 find_subject(1) [OF Some] by (auto simp: allocate_def)
  qed
qed

text \<open>Retiring marks one identifier and keeps every other row.\<close>

definition mark_retired :: "string \<Rightarrow> info \<Rightarrow> info" where
  "mark_retired v i = (if id_of i = v then i\<lparr>in_retired := True\<rparr> else i)"

lemma mark_retired_fields [simp]:
  "id_of (mark_retired v i) = id_of i" "subject_of (mark_retired v i) = subject_of i" "code_key (mark_retired v i) = code_key i"
  "info_ok (mark_retired v i) = info_ok i"
  by (simp_all add: mark_retired_def id_of_def subject_of_def code_key_def info_ok_def)

lemma info_row_marked: "info_row (mark_retired v i) = (if id_of i = v
    then (v, (snd (info_row i))\<lparr>row_value := Some (json_dumps default_style (retired_value True))\<rparr>) else info_row i)"
  by (auto simp: mark_retired_def info_row_def info_attributes_def id_of_def)

lemma rows_marked:
  "distinct (map id_of ids) \<Longrightarrow> map_of (map info_row ids) v = Some r \<Longrightarrow>
     AList.update v (r\<lparr>row_value := Some (json_dumps default_style (retired_value True))\<rparr>) (map info_row ids) =
       map info_row (map (mark_retired v) ids)"
proof (induction ids)
  case (Cons i ids)
  have e: "info_row i = (id_of i, snd (info_row i))"
    by (metis fst_info_rows(1) prod.collapse)
  show ?case
  proof (cases "id_of i = v")
    case True
    then have "mark_retired v j = j" if "j \<in> set ids" for j
      using that Cons.prems(1) True by (metis distinct.simps(2) image_eqI list.set_map list.simps(9) mark_retired_def)
    then have m: "map (mark_retired v) ids = ids"
      by (simp add: map_idI)
    have "map_of (info_row i # map info_row ids) v = Some (snd (info_row i))"
      using True by (subst e) simp
    with Cons.prems(2) have "r = snd (info_row i)" by simp
    then show ?thesis
      using True m by (subst list.map, subst e) (simp add: info_row_marked)
  next
    case False
    have "map_of (map info_row ids) v = Some r"
      using Cons.prems(2) False by (subst (asm) list.map, subst (asm) e) simp
    with Cons False show ?thesis
      by (subst list.map, subst e) (simp add: info_row_marked e [symmetric])
  qed
qed simp

lemma retire_ready:
  assumes ok: "naming_ok s ids"
  shows "naming_ok (snd (retire v s)) (map (mark_retired v) ids) \<or> naming_ok (snd (retire v s)) ids"
proof (cases "parse_id v")
  case (Inl e)
  then show ?thesis using ok by (simp add: retire_def)
next
  case (Inr b)
  let ?d = "database_at s GLOBAL_DB_PATH"
  have r: "ready s GLOBAL_DB_PATH" and d: "naming_db ?d ids"
    using ok by (simp_all add: naming_ok_def)
  have r': "ready (put_database GLOBAL_DB_PATH (opened ?d) s) GLOBAL_DB_PATH"
    using r by (simp add: ready_def)
  have opened_ok: "naming_ok (put_database GLOBAL_DB_PATH (opened ?d) s) ids"
    using naming_db_entries [OF d, of "opened ?d"] r' by (simp add: naming_ok_def)
  show ?thesis
  proof (cases "map_of (db_entries ?d) (REGISTRY_TYPE, v)")
    case None
    then show ?thesis
      using Inr opened_ok by (simp add: retire_def get_entry_ready [OF scope_global(1) r] act_bind_def)
  next
    case (Some row)
    let ?es = "AList.update (REGISTRY_TYPE, v) (row\<lparr>row_value := Some (json_dumps default_style (retired_value True))\<rparr>) (db_entries ?d)"
    have h: "rows_of REGISTRY_TYPE (db_entries ?d) = map info_row ids" "list_all info_ok ids"
      "distinct (map code_key ids)" "distinct (map subject_of ids)"
      using d by (simp_all add: naming_db_def holds_ids_def)
    have "map_of (map info_row ids) v = Some row"
      using Some by (metis h(1) map_of_rows_of)
    then have rows: "rows_of REGISTRY_TYPE ?es = map info_row (map (mark_retired v) ids)"
      using rows_marked [OF distinct_ids [OF h(2,3)]] by (simp add: rows_of_update h(1))
    have "naming_db ((opened ?d)\<lparr>db_entries := ?es\<rparr>) (map (mark_retired v) ids)"
      using d rows h by (simp add: naming_db_def holds_ids_def counters_ok_def rows_of_update list_all_iff comp_def)
    moreover have "row \<in> snd ` set (map info_row ids)"
      using \<open>map_of (map info_row ids) v = Some row\<close> by (metis map_of_SomeD snd_conv image_eqI)
    then have "\<exists>e. read_row row = Inr e"
      using read_info_row by auto
    ultimately show ?thesis
      using Inr r r' Some
      by (auto simp: retire_def get_entry_ready [OF scope_global(1) r] set_value_ready [OF scope_global(1) r']
          act_bind_def naming_ok_def ready_def)
  qed
qed

section \<open>Any sequence of operations\<close>

text \<open>
  The registry under everything that is done to it: allocations, retirements, previews, and entries of the other registry
  types, which every other part of the program stores in the same two databases.
\<close>

datatype naming_op =
    Allocate string string string "string option"
  | Retire string
  | Preview "request list"
  | OtherEntry string string json string json

definition other_type :: "string \<Rightarrow> bool" where
  "other_type t \<longleftrightarrow> t \<noteq> REGISTRY_TYPE \<and> t \<noteq> COUNTER_TYPE"

fun naming_step :: "naming_op \<Rightarrow> registry \<Rightarrow> (exn + string option) \<times> registry" where
  "naming_step (Allocate c m x code) = act_bind (allocate c m x code) (\<lambda>v. act_ret (Some v))"
| "naming_step (Retire v) = act_seq (retire v) (act_ret None)"
| "naming_step (Preview rs) = act_bind (preview rs) (\<lambda>out. act_ret None)"
| "naming_step (OtherEntry t e a scope v) =
     (if other_type t then act_seq (upsert_entry t e a scope v) (act_ret None) else act_ret None)"

definition new_registry :: "registry \<Rightarrow> bool" where
  "new_registry s \<longleftrightarrow> databases s = [] \<and> GLOBAL_DB_PATH \<notin> set (unreachable s)"

definition consistent :: "registry \<Rightarrow> bool" where
  "consistent s \<longleftrightarrow> (\<exists>ids. naming_ok s ids)"

text \<open>Which identifiers the registry says are allocated, and for whom.\<close>

definition held :: "registry \<Rightarrow> (string \<times> request) set" where
  "held s = {(v, c, m, x). \<exists>r e. map_of (db_entries (database_at s GLOBAL_DB_PATH)) (REGISTRY_TYPE, v) = Some r \<and>
     read_row r = Inr e \<and> is_for (attributes e) c m x = Inr True}"

lemma held_ids:
  assumes "naming_ok s ids"
  shows "held s = (\<lambda>i. (id_of i, subject_of i)) ` set ids"
proof -
  have h: "rows_of REGISTRY_TYPE (db_entries (database_at s GLOBAL_DB_PATH)) = map info_row ids" "list_all info_ok ids"
    "distinct (map code_key ids)"
    using assms by (simp_all add: naming_ok_def naming_db_def holds_ids_def)
  have "map_of (db_entries (database_at s GLOBAL_DB_PATH)) (REGISTRY_TYPE, v) = Some r \<longleftrightarrow> (v, r) \<in> info_row ` set ids" for v r
    using distinct_ids [OF h(2,3)] unfolding map_of_rows_of [symmetric] h(1)
    by (subst map_of_eq_Some_iff) (simp_all add: comp_def)
  moreover have "(v, r) \<in> info_row ` set ids \<longleftrightarrow> (\<exists>i \<in> set ids. v = id_of i \<and> r = snd (info_row i))" for v r
    by (simp add: image_iff prod_eq_iff)
  ultimately show ?thesis
    using read_info_row by (auto simp: held_def info_entry_def is_for_info image_iff) force
qed

lemma preview_keeps_state [simp]: "snd (preview rs s) = s"
  using read_only_keeps_state [of REGISTRY_TYPE SCOPE s] read_only_keeps_state [of COUNTER_TYPE SCOPE s]
  by (cases "list_entries_read_only REGISTRY_TYPE SCOPE s"; cases "list_entries_read_only COUNTER_TYPE SCOPE s")
    (auto simp: preview_def act_bind_def split: sum.split)

lemma snd_bind_ret [simp]: "snd (act_bind m (\<lambda>x. act_ret (f x)) s) = snd (m s)"
  by (simp add: act_bind_def split: prod.split sum.split)

lemma snd_seq_ret [simp]: "snd (act_seq m (act_ret y) s) = snd (m s)"
  by (simp add: act_seq_def)

lemma naming_ok_same: "same_at GLOBAL_DB_PATH s t \<Longrightarrow> naming_ok s ids \<Longrightarrow> naming_ok t ids"
  by (simp add: naming_ok_def same_at_def ready_def)

lemma other_entry_ready:
  assumes ok: "naming_ok s ids" and t: "other_type t"
  shows "naming_ok (snd (upsert_entry t e a scope v s)) ids"
proof (cases "path_for_scope scope = Inr GLOBAL_DB_PATH")
  case True
  have r: "ready s GLOBAL_DB_PATH" using ok by (simp add: naming_ok_def)
  then show ?thesis
    using ok t unfolding upsert_entry_ready [OF True r]
    by (auto simp: naming_ok_def naming_db_def holds_ids_def counters_ok_def rows_of_update other_type_def ready_def)
next
  case False
  then show ?thesis
    unfolding upsert_entry_def by (rule naming_ok_same [OF with_database_other ok])
qed

lemma step_ids:
  assumes "naming_ok s ids"
  shows "\<exists>ids'. naming_ok (snd (naming_step op s)) ids' \<and>
    (\<lambda>i. (id_of i, subject_of i)) ` set ids \<subseteq> (\<lambda>i. (id_of i, subject_of i)) ` set ids'"
proof (cases op)
  case (Allocate c m x code)
  obtain s' r where a: "allocate c m x code s = (r, s')"
    and n: "naming_ok s' ids \<or> (\<exists>k. naming_ok s' (ids @ [new_info c m k x]))"
    using allocate_ready [OF assms, of c m x code] by blast
  have s': "snd (naming_step op s) = s'"
    using Allocate a by simp
  from n show ?thesis
    unfolding s'
  proof
    assume "\<exists>k. naming_ok s' (ids @ [new_info c m k x])"
    then obtain k where "naming_ok s' (ids @ [new_info c m k x])" ..
    then show "\<exists>ids'. naming_ok s' ids' \<and> (\<lambda>i. (id_of i, subject_of i)) ` set ids \<subseteq> (\<lambda>i. (id_of i, subject_of i)) ` set ids'"
      by (intro exI conjI) auto
  qed blast
next
  case (Retire v)
  have same: "(\<lambda>i. (id_of i, subject_of i)) ` set (map (mark_retired v) ids) = (\<lambda>i. (id_of i, subject_of i)) ` set ids"
    by (simp add: image_image)
  have s': "snd (naming_step op s) = snd (retire v s)"
    using Retire by simp
  from retire_ready [OF assms, of v] show ?thesis
    unfolding s' using same by blast
next
  case (Preview rs)
  then show ?thesis using assms by auto
next
  case (OtherEntry t e a scope v)
  then have "naming_ok (snd (naming_step op s)) ids"
    using assms other_entry_ready [OF assms, of t] by simp
  then show ?thesis by blast
qed

interpretation naming: ratchet_machine naming_step consistent held
proof
  fix s op
  assume "consistent s"
  then obtain ids where ids: "naming_ok s ids" by (auto simp: consistent_def)
  obtain ids' where ids': "naming_ok (snd (naming_step op s)) ids'"
    "(\<lambda>i. (id_of i, subject_of i)) ` set ids \<subseteq> (\<lambda>i. (id_of i, subject_of i)) ` set ids'"
    using step_ids [OF ids] by blast
  show "consistent (snd (naming_step op s))"
    using ids'(1) by (auto simp: consistent_def)
  show "held s \<subseteq> held (snd (naming_step op s))"
    using ids'(2) by (simp add: held_ids [OF ids] held_ids [OF ids'(1)])
qed

lemma new_registry_consistent: "new_registry s \<Longrightarrow> consistent s"
  by (auto simp: consistent_def new_registry_def naming_ok_def ready_def naming_db_def holds_ids_def counters_ok_def
      database_at_def new_database_def intro!: exI [of _ "[]"])

text \<open>In a consistent registry an identifier has one subject, a subject one identifier, and a code in a cluster one identifier.\<close>

lemma held_unique:
  assumes "consistent s" "(v, c, m, x) \<in> held s" "(v', c', m', x') \<in> held s"
  shows "v' = v \<longleftrightarrow> (c', m', x') = (c, m, x)" "c' = c \<and> drop 4 v' = drop 4 v \<Longrightarrow> v' = v"
proof -
  obtain ids where ids: "naming_ok s ids" using assms(1) by (auto simp: consistent_def)
  then have h: "list_all info_ok ids" "distinct (map code_key ids)" "distinct (map subject_of ids)"
    by (simp_all add: naming_ok_def naming_db_def holds_ids_def)
  obtain i j where i: "i \<in> set ids" "id_of i = v" "subject_of i = (c, m, x)"
    and j: "j \<in> set ids" "id_of j = v'" "subject_of j = (c', m', x')"
    using assms(2,3) unfolding held_ids [OF ids] by auto
  have inj: "id_of i = id_of j \<Longrightarrow> i = j" "subject_of i = subject_of j \<Longrightarrow> i = j" "code_key i = code_key j \<Longrightarrow> i = j"
    using i(1) j(1) h(2,3) distinct_ids [OF h(1,2)] by (auto simp: distinct_map dest: inj_onD)
  show "v' = v \<longleftrightarrow> (c', m', x') = (c, m, x)"
    using inj i j by metis
  have "info_ok i" "info_ok j"
    using h(1) i(1) j(1) by (simp_all add: list_all_iff)
  then have "drop 4 (id_of i) = in_code i" "drop 4 (id_of j) = in_code j"
    by (auto simp: id_of_def ident_def info_ok_def separator_single dest!: cluster_single medium_single)
  then show "v' = v" if "c' = c \<and> drop 4 v' = drop 4 v"
    using that i j inj(3) by (auto simp: code_key_def subject_of_def)
qed

lemma allocate_holds:
  assumes "consistent s" "naming_step (Allocate c m x code) s = (Inr (Some v), t)"
  shows "consistent t \<and> (v, c, m, x) \<in> held t"
proof -
  obtain ids where ids: "naming_ok s ids" using assms(1) by (auto simp: consistent_def)
  have a: "allocate c m x code s = (Inr v, t)"
    using assms(2) by (auto simp: act_bind_eq_Inr)
  show ?thesis
    using allocate_ready [OF ids, of c m x code] a
    by (auto simp: consistent_def held_ids) (auto simp: held_ids image_iff intro: exI bexI)
qed

definition lab_registry :: registry where
  "lab_registry = \<lparr>databases = [], unreachable = [DEFAULT_DB_PATH], migration_table = []\<rparr>"

text \<open>
  C32. An identifier is never reused. Whatever is done to the registry between two allocations - further allocations,
  retirements, previews, entries of other registry types - the second gives the identifier of the first exactly when it is
  for the same cluster, medium and subject, and in one cluster not even the code is given out again.
\<close>
theorem identifiers_never_reused:
  assumes "new_registry s0"
    and "naming_step (Allocate c m x code) (run_ops naming_step earlier s0) = (Inr (Some v), s)"
    and "naming_step (Allocate c' m' x' code') (run_ops naming_step between s) = (Inr (Some v'), t)"
  shows "(v' = v \<longleftrightarrow> (c', m', x') = (c, m, x)) \<and> \<not> (c' = c \<and> drop 4 v' = drop 4 v \<and> v' \<noteq> v)"
proof -
  have "consistent (run_ops naming_step earlier s0)"
    by (rule naming.run_keeps [OF new_registry_consistent [OF assms(1)]])
  then have s: "consistent s" "(v, c, m, x) \<in> held s"
    using allocate_holds [OF _ assms(2)] by blast+
  then have r: "consistent (run_ops naming_step between s)" "(v, c, m, x) \<in> held (run_ops naming_step between s)"
    using naming.run_keeps naming.run_level by blast+
  then have "consistent t" "(v', c', m', x') \<in> held t"
    using allocate_holds [OF _ assms(3)] by blast+
  moreover have "(v, c, m, x) \<in> held t"
    using naming.step_level [OF r(1), of "Allocate c' m' x' code'"] r(2) unfolding assms(3) by auto
  ultimately show ?thesis
    using held_unique by blast
qed

definition first_allocation :: "(exn + string option) \<times> registry" where
  "first_allocation = naming_step (Allocate ''A'' ''C'' ''caddy'' None) lab_registry"

definition busy_between :: "naming_op list" where
  "busy_between = [Retire ''A_C_00001'', OtherEntry ''settings'' ''x'' JNull PROTECTED (JInt 3)]"

definition second_allocation :: "(exn + string option) \<times> registry" where
  "second_allocation = naming_step (Allocate ''A'' ''S'' ''backup'' None) (run_ops naming_step busy_between (snd first_allocation))"

lemma lab_allocations:
  "fst first_allocation = Inr (Some ''A_C_00001'')" "fst second_allocation = Inr (Some ''A_S_00002'')"
  by code_simp+

theorem identifiers_never_reused_witness: "new_registry lab_registry \<and> fst first_allocation = Inr (Some ''A_C_00001'') \<and>
    fst second_allocation = Inr (Some ''A_S_00002'') \<and>
    \<not> (''A'' = ''A'' \<and> drop 4 ''A_S_00002'' = drop 4 ''A_C_00001'' \<and> ''A_S_00002'' \<noteq> ''A_C_00001'')"
proof -
  have new: "new_registry lab_registry"
    by (simp add: new_registry_def lab_registry_def GLOBAL_DB_PATH_def DEFAULT_DB_PATH_def)
  have first: "naming_step (Allocate ''A'' ''C'' ''caddy'' None) (run_ops naming_step [] lab_registry) =
      (Inr (Some ''A_C_00001''), snd first_allocation)"
    using lab_allocations(1) by (simp add: first_allocation_def prod_eq_iff)
  have second: "naming_step (Allocate ''A'' ''S'' ''backup'' None) (run_ops naming_step busy_between (snd first_allocation)) =
      (Inr (Some ''A_S_00002''), snd second_allocation)"
    using lab_allocations(2) by (simp add: second_allocation_def prod_eq_iff)
  show ?thesis
    using identifiers_never_reused [OF new first second] new lab_allocations by blast
qed

text \<open>
  Formatting and parsing are inverse to each other: \<open>format_id\<close> gives exactly the text of nine characters that
  \<open>parse_id\<close> takes apart again.
\<close>
theorem format_parse_round_trip:
  "format_id c m k = Inr v \<longleftrightarrow> length v = ID_LENGTH \<and> parse_id v = Inr \<lparr>bi_cluster = c, bi_medium = m, bi_code = k\<rparr>"
proof
  assume "format_id c m k = Inr v"
  then show "length v = ID_LENGTH \<and> parse_id v = Inr \<lparr>bi_cluster = c, bi_medium = m, bi_code = k\<rparr>"
    by (auto simp: format_id_eq parse_ident ident_length code_text_def ID_LENGTH_def CODE_LENGTH_def)
next
  assume a: "length v = ID_LENGTH \<and> parse_id v = Inr \<lparr>bi_cluster = c, bi_medium = m, bi_code = k\<rparr>"
  then have "ID_RE v" by (auto simp: parse_id_def split: if_splits)
  moreover have "\<not> id_text (butlast v)" using a by (simp add: id_text_def ID_LENGTH_def)
  ultimately have t: "id_text v" by (simp add: ID_RE_def shape_def)
  then have parts: "take 1 v = c" "take 1 (drop 2 v) = m" "take CODE_LENGTH (drop 4 v) = k"
    using a by (auto simp: parse_id_def ID_RE_def shape_def)
  then have k: "drop 4 v = k"
    using a by (simp add: ID_LENGTH_def CODE_LENGTH_def)
  have "v = take 1 v @ take 1 (drop 1 v) @ take 1 (drop 2 v) @ take 1 (drop 3 v) @ drop 4 v"
    by (cases v; cases "tl v"; cases "tl (tl v)"; cases "tl (tl (tl v))") auto
  then have "v = ident c m k"
    using t parts k by (simp add: ident_def id_text_def)
  then show "format_id c m k = Inr v"
    using t parts k by (simp add: format_id_eq id_text_def)
qed

text \<open>
  A text of ten characters passes for an identifier too when the tenth is a newline, and \<open>canonical_path\<close> keeps it.
\<close>

lemma newline_passes: "parse_id v = Inr b \<Longrightarrow> length v = ID_LENGTH \<Longrightarrow> parse_id (v @ [CHR 0x0A]) = Inr b"
proof -
  assume a: "parse_id v = Inr b" "length v = ID_LENGTH"
  then have "\<not> id_text (butlast v)" "ID_RE v" by (auto simp: id_text_def ID_LENGTH_def parse_id_def split: if_splits)
  then have "ID_RE (v @ [CHR 0x0A])" by (simp add: ID_RE_def shape_def)
  with a show ?thesis by (simp add: parse_id_def ID_LENGTH_def CODE_LENGTH_def split: if_splits)
qed

text \<open>Two identifiers never share an owner, because no identifier has a small letter.\<close>

lemma of_lower_char: "(of_char (lower_char a) :: nat) = (if is_upper a then of_char a + 32 else of_char a)"
proof (cases "is_upper a")
  case True
  then have "(of_char a :: nat) + 32 < 256" by (simp add: is_upper_def)
  then show ?thesis using True by (simp add: lower_char_def)
qed (simp add: lower_char_def)

lemma lower_char_inject:
  assumes "\<not> is_lower a" "\<not> is_lower b" "lower_char a = lower_char b"
  shows "a = b"
proof -
  have "(if is_upper a then of_char a + 32 else of_char a) = (if is_upper b then of_char b + 32 else (of_char b :: nat))"
    using arg_cong [OF assms(3), of "of_char :: char \<Rightarrow> nat"] unfolding of_lower_char .
  then have "(of_char a :: nat) = of_char b"
    using assms(1,2) unfolding is_lower_def is_upper_def by (simp split: if_splits)
  then show ?thesis by simp
qed

lemma lower_inject:
  "list_all (\<lambda>c. \<not> is_lower c) a \<Longrightarrow> list_all (\<lambda>c. \<not> is_lower c) b \<Longrightarrow> lower a = lower b \<Longrightarrow> a = b"
  unfolding lower_def by (rule list.inj_map_strong [where f = lower_char and fa = lower_char]) (auto simp: list_all_iff dest: lower_char_inject)

lemma ident_not_lower:
  assumes "is_cluster c" "is_medium m" "code_text k"
  shows "list_all (\<lambda>c. \<not> is_lower c) (ident c m k)"
proof -
  have "list_all (\<lambda>c. \<not> is_lower c) c" "list_all (\<lambda>c. \<not> is_lower c) m" "list_all (\<lambda>c. \<not> is_lower c) SEPARATOR"
    using assms(1,2) by (auto simp: is_cluster_def CLUSTERS_def is_medium_def MEDIA_def SEPARATOR_def is_lower_def)
  moreover have "list_all (\<lambda>c. \<not> is_lower c) k"
    using assms(3) by (auto simp: code_text_def list_all_iff code_char_def is_digit_def is_upper_def is_lower_def)
  ultimately show ?thesis by (simp add: ident_def)
qed

lemma owners_differ:
  assumes "format_id c m k = Inr v" "format_id c' m' k' = Inr v'"
    and "owner_name \<lparr>bi_cluster = c, bi_medium = m, bi_code = k\<rparr> = owner_name \<lparr>bi_cluster = c', bi_medium = m', bi_code = k'\<rparr>"
  shows "v = v'"
  using assms lower_inject [OF ident_not_lower ident_not_lower]
  by (auto simp: owner_name_def id_str_def format_id_eq ident_join simp del: join.simps)

text \<open>A path through an alias directory is never taken for a mount.\<close>

lemma alias_path_refused: "ALIAS_DIRNAME \<in> set (split_on (CHR ''/'') path) \<Longrightarrow> \<exists>e. assert_canonical path = Inl e"
  by (auto simp: assert_canonical_def ALIAS_DIRNAME_def)

end
