(* ===== verification/NamingPreview.thy ===== *)
theory NamingPreview
  imports Naming
begin

text \<open>
  The preview of an allocation against the allocation itself: on a consistent registry \<open>preview\<close> gives the identifiers
  \<open>allocate_many\<close> would give, request by request, as long as no request comes twice.
\<close>

section \<open>What the preview reads\<close>

lemma read_only_rows:
  assumes ok: "naming_ok s ids"
  shows "list_entries_read_only t SCOPE s =
    (read_rows (rows_of t (db_entries (database_at s GLOBAL_DB_PATH))), s)"
proof -
  have r: "GLOBAL_DB_PATH \<notin> set (unreachable s)"
    and d: "has_tables (database_at s GLOBAL_DB_PATH) \<or> db_entries (database_at s GLOBAL_DB_PATH) = []"
    using ok by (simp_all add: naming_ok_def ready_def naming_db_def)
  show ?thesis
    using r d by (cases "map_of (databases s) GLOBAL_DB_PATH")
      (auto simp: list_entries_read_only_def database_at_def new_database_def)
qed

lemma read_only_ids:
  assumes ok: "naming_ok s ids"
  shows "list_entries_read_only REGISTRY_TYPE SCOPE s = (Inr (map info_entry ids), s)"
proof -
  have "rows_of REGISTRY_TYPE (db_entries (database_at s GLOBAL_DB_PATH)) = map info_row ids"
    using ok by (simp add: naming_ok_def naming_db_def holds_ids_def)
  then show ?thesis by (simp add: read_only_rows [OF ok] read_info_rows)
qed

text \<open>The counters the preview reads are those an allocation would read.\<close>

lemma map_of_read_rows:
  "read_rows rows = Inr es \<Longrightarrow> map_of rows c = Some r \<Longrightarrow> \<exists>e. read_row r = Inr e \<and> map_of es c = Some e"
  "read_rows rows = Inr es \<Longrightarrow> map_of rows c = None \<Longrightarrow> map_of es c = None"
  by (induction rows arbitrary: es) (auto split: sum.splits if_splits)

lemma read_rows_all: "\<forall>(c, r) \<in> set rows. \<exists>e. read_row r = Inr e \<Longrightarrow> \<exists>es. read_rows rows = Inr es"
  by (induction rows) (auto split: sum.split)

lemma read_only_counters:
  assumes ok: "naming_ok s ids"
  shows "\<exists>es. list_entries_read_only COUNTER_TYPE SCOPE s = (Inr es, s) \<and>
    (\<forall>c. counter_start (map_of es c) = Inr (next_number (database_at s GLOBAL_DB_PATH) c))"
proof -
  let ?d = "database_at s GLOBAL_DB_PATH"
  have cs: "counters_ok ?d" using ok by (simp add: naming_ok_def naming_db_def)
  then have "\<exists>es. read_rows (rows_of COUNTER_TYPE (db_entries ?d)) = Inr es"
    using counter_rowD by (intro read_rows_all) (fastforce simp: counters_ok_def)
  then obtain es where es: "read_rows (rows_of COUNTER_TYPE (db_entries ?d)) = Inr es" ..
  have "counter_start (map_of es c) = Inr (next_number ?d c)" for c
  proof (cases "map_of (db_entries ?d) (COUNTER_TYPE, c)")
    case None
    then have "map_of es c = None"
      using map_of_read_rows(2) [OF es] by (simp add: map_of_rows_of)
    with None show ?thesis by (simp add: next_number_def)
  next
    case (Some r)
    then obtain e where e: "read_row r = Inr e" "map_of es c = Some e"
      using map_of_read_rows(1) [OF es] by (fastforce simp: map_of_rows_of)
    obtain a n where "e = \<lparr>attributes = a, stored_value = JInt n\<rparr>"
      using counter_rowD [OF counters_okD [OF cs Some]] e(1) by auto
    with e Some show ?thesis by (simp add: next_number_def)
  qed
  then show ?thesis using es by (auto simp: read_only_rows [OF ok])
qed

section \<open>The tables the preview builds\<close>

definition key_of :: "request \<Rightarrow> json option \<times> json option \<times> json option" where
  "key_of y = (case y of (c, m, x) \<Rightarrow> (Some (JStr c), Some (JStr m), Some (JStr x)))"

lemma key_of_inject [simp]: "key_of y = key_of z \<longleftrightarrow> y = z"
  by (cases y; cases z) (simp add: key_of_def)

lemma subject_key_info: "subject_key (info_attributes i) = Inr (key_of (subject_of i))"
  by (simp add: subject_key_def info_attributes_def id_attributes_def hashable_def subject_of_def key_of_def)

lemma by_subject_infos:
  "by_subject (map info_entry ids) acc = Inr (fold (\<lambda>i. AList.update (key_of (subject_of i)) (id_of i)) ids acc)"
  by (induction ids arbitrary: acc) (simp_all add: info_entry_def subject_key_info)

lemma map_of_subjects:
  "distinct (map subject_of ids) \<Longrightarrow>
     map_of (fold (\<lambda>i. AList.update (key_of (subject_of i)) (id_of i)) ids acc) (key_of y) =
       (case find (\<lambda>i. subject_of i = y) ids of None \<Rightarrow> map_of acc (key_of y) | Some i \<Rightarrow> Some (id_of i))"
proof (induction ids arbitrary: acc)
  case (Cons i ids)
  have "find (\<lambda>j. subject_of j = y) ids = None" if "subject_of i = y"
    using that Cons.prems by (auto simp: find_None_iff image_iff)
  with Cons show ?case by (auto simp: update_conv' split: option.split)
qed simp

lemma known_id_infos:
  assumes "distinct (map subject_of ids)"
  shows "known_id (fold (\<lambda>i. AList.update (key_of (subject_of i)) (id_of i)) ids []) c m x =
    map_option id_of (find (\<lambda>i. subject_of i = (c, m, x)) ids)"
  using map_of_subjects [OF assms, of "[]" "(c, m, x)"]
  by (auto simp: known_id_def key_of_def split: option.splits)

definition add_code :: "info \<Rightarrow> code_table \<Rightarrow> code_table" where
  "add_code i acc = AList.update (in_cluster i) (in_code i # codes_at acc (in_cluster i)) acc"

lemma taken_table_infos: "list_all info_ok ids \<Longrightarrow> taken_table (map id_of ids) acc = Inr (fold add_code ids acc)"
proof (induction ids arbitrary: acc)
  case (Cons i ids)
  then have i: "is_cluster (in_cluster i)" "is_medium (in_medium i)" "code_text (in_code i)"
    by (simp_all add: info_ok_def)
  then have "parse_id (id_of i) = Inr \<lparr>bi_cluster = in_cluster i, bi_medium = in_medium i, bi_code = in_code i\<rparr>"
    "take 1 (id_of i) = in_cluster i"
    using cluster_single [OF i(1)] by (auto simp: id_of_def parse_ident) (auto simp: ident_def)
  with Cons show ?case by (simp add: add_code_def)
qed simp

lemma codes_at_update: "codes_at (AList.update b cs acc) c = (if c = b then cs else codes_at acc c)"
  by (simp add: codes_at_def update_conv')

lemma codes_at_infos: "set (codes_at (fold add_code ids acc) c) = set (codes_of c ids) \<union> set (codes_at acc c)"
  by (induction ids arbitrary: acc) (auto simp: add_code_def codes_at_update)

lemma start_numbers_clusters:
  assumes "\<forall>c. counter_start (map_of es c) = Inr (f c)"
  shows "start_numbers cs es = Inr (map (\<lambda>c. (c, f c)) cs)"
  using assms by (induction cs) simp_all

section \<open>Preview and allocation side by side\<close>

text \<open>
  \<open>in_step known taken next_n rest ids d\<close>: between two requests, the tables of the preview say of the registry that
  allocating so far has led to what the allocation of the requests that are left will find in it.
\<close>

definition in_step :: "subjects \<Rightarrow> code_table \<Rightarrow> counters \<Rightarrow> request list \<Rightarrow> info list \<Rightarrow> database \<Rightarrow> bool" where
  "in_step known taken next_n rest ids d \<longleftrightarrow>
     (\<forall>c. is_cluster c \<longrightarrow> set (codes_at taken c) = set (codes_of c ids)) \<and>
     (\<forall>c. map_of next_n c = (if is_cluster c then Some (next_number d c) else None)) \<and>
     (\<forall>(c, m, x) \<in> set rest. known_id known c m x = map_option id_of (find (\<lambda>i. subject_of i = (c, m, x)) ids))"

lemma in_step_known:
  "in_step known taken next_n ((c, m, x) # rest) ids d \<Longrightarrow>
     known_id known c m x = map_option id_of (find (\<lambda>i. subject_of i = (c, m, x)) ids)"
  by (simp add: in_step_def)

lemma in_step_same:
  "in_step known taken next_n (y # rest) ids d \<Longrightarrow> db_entries d' = db_entries d \<Longrightarrow> in_step known taken next_n rest ids d'"
  by (simp add: in_step_def next_number_def)

lemma find_append_other: "subject_of i \<noteq> y \<Longrightarrow> find (\<lambda>j. subject_of j = y) (ids @ [i]) = find (\<lambda>j. subject_of j = y) ids"
  by (induction ids) auto

lemma in_step_new:
  assumes i: "in_step known taken next_n ((c, m, x) # rest) ids d" and fresh: "(c, m, x) \<notin> set rest" and c: "is_cluster c"
    and n: "next_free (codes_of c ids) (next_number d c) = Inr n"
    and mv: "moves_counter (codes_of c ids) c d d'"
  shows "in_step known (AList.update c (k # codes_at taken c) taken) (AList.update c (n + 1) next_n) rest (ids @ [new_info c m k x]) d'"
proof -
  have "find (\<lambda>j. subject_of j = y) (ids @ [new_info c m k x]) = find (\<lambda>j. subject_of j = y) ids" if "y \<in> set rest" for y
    by (rule find_append_other) (use that fresh in auto)
  then show ?thesis
    using i c n mv unfolding in_step_def moves_counter_def
    by (auto simp: codes_at_update update_conv' split: if_splits)
qed

lemma number_one_eq:
  assumes i: "in_step known taken next_n ((c, m, x) # rest) ids d"
  shows "number_one taken next_n c m =
    (if \<not> is_cluster c then Inl (KeyError c)
     else case next_code (codes_of c ids) (next_number d c) of
       Inl e \<Rightarrow> Inl e
     | Inr k \<Rightarrow> (case format_id c m k of
         Inl e \<Rightarrow> Inl e
       | Inr v \<Rightarrow> (case next_free (codes_of c ids) (next_number d c) of
           Inl e \<Rightarrow> Inl e
         | Inr n \<Rightarrow> Inr (v, AList.update c (k # codes_at taken c) taken, AList.update c (n + 1) next_n))))"
proof (cases "is_cluster c")
  case True
  then have "set (codes_at taken c) = set (codes_of c ids)" "map_of next_n c = Some (next_number d c)"
    using i by (simp_all add: in_step_def)
  then show ?thesis
    using True next_free_cong [of "codes_at taken c" "codes_of c ids" "next_number d c"]
    by (auto simp: number_one_def next_code_def split: sum.split)
next
  case False
  then have "map_of next_n c = None" using i by (simp add: in_step_def)
  with False show ?thesis by (simp add: number_one_def)
qed

definition values_of :: "(string \<times> assignment) list \<Rightarrow> (string \<times> string) list" where
  "values_of out = map (\<lambda>(x, a). (x, as_value a)) out"

lemma values_of_update: "values_of (AList.update x a out) = AList.update x (as_value a) (values_of out)"
  by (induction out) (auto simp: values_of_def)

text \<open>\<open>agree p r\<close>: either both give the same dictionary, or both raise.\<close>

definition agree :: "exn + (string \<times> assignment) list \<Rightarrow> exn + (string \<times> string) list \<Rightarrow> bool" where
  "agree p r \<longleftrightarrow> (case r of Inr ids \<Rightarrow> (\<exists>out. p = Inr out \<and> values_of out = ids) | Inl e \<Rightarrow> (\<exists>e'. p = Inl e'))"

lemma agree_simps [simp]:
  "agree (Inr out) (Inr ids) \<longleftrightarrow> values_of out = ids" "agree (Inl e) (Inl e')" "\<not> agree (Inl e) (Inr ids)" "\<not> agree (Inr out) (Inl e)"
  by (simp_all add: agree_def)

lemma code_one: "CODE_RE ''00001''"
  by code_simp

lemma preview_each_agrees:
  assumes "naming_ok s ids" "in_step known taken next_n requests ids (database_at s GLOBAL_DB_PATH)" "distinct requests"
  shows "agree (preview_each known requests taken next_n out) (fst (allocate_each requests (values_of out) s))"
  using assms
proof (induction requests arbitrary: s ids taken next_n out)
  case (Cons y rest)
  obtain c m x where y: "y = (c, m, x)" by (cases y)
  let ?d = "database_at s GLOBAL_DB_PATH"
  note step = Cons.prems(2) [unfolded y]
  obtain s1 where s1: "find_id c m x s = (Inr (map_option id_of (find (\<lambda>i. subject_of i = (c, m, x)) ids)), s1)" "naming_ok s1 ids"
    "db_entries (database_at s1 GLOBAL_DB_PATH) = db_entries ?d"
    using find_id_ready [OF Cons.prems(1)] by blast
  show ?case
  proof (cases "find (\<lambda>i. subject_of i = (c, m, x)) ids")
    case (Some i)
    have "list_all info_ok ids" using Cons.prems(1) by (simp add: naming_ok_def naming_db_def holds_ids_def)
    then have "is_cluster c" "is_medium m"
      using find_subject(1) [OF Some] by (auto simp: list_all_iff info_ok_def subject_of_def)
    then obtain v where "format_id c m ''00001'' = Inr v"
      using code_one by (auto simp: format_id_def Let_def ident_join ident_length ID_LENGTH_def simp del: join.simps)
    then have a: "allocate c m x None s = (Inr (id_of i), s1)"
      using s1(1) Some by (simp add: allocate_def)
    have "agree (preview_each known rest taken next_n (AList.update x \<lparr>as_value = id_of i, as_allocated = True\<rparr> out))
        (fst (allocate_each rest (values_of (AList.update x \<lparr>as_value = id_of i, as_allocated = True\<rparr> out)) s1))"
      using Cons.IH [OF s1(2) in_step_same [OF step s1(3)]] Cons.prems(3) by simp
    then show ?thesis
      using a Some in_step_known [OF step] by (simp add: y values_of_update)
  next
    case None
    have known: "known_id known c m x = None"
      using in_step_known [OF step] None by simp
    have fresh: "(c, m, x) \<notin> set (map subject_of ids)"
      by (rule find_subject(2) [OF None])
    show ?thesis
    proof (cases "is_cluster c \<and> is_medium m")
      case False
      then have "\<exists>e. format_id c m k = Inl e" for k by (auto simp: format_id_def)
      then obtain e where e: "format_id c m ''00001'' = Inl e" and no: "\<And>k. \<exists>e. format_id c m k = Inl e" by blast
      have "\<exists>e'. number_one taken next_n c m = Inl e'"
        using no by (auto simp: number_one_eq [OF step] split: sum.split) (metis sum.distinct(1))
      then show ?thesis
        using e known by (auto simp: y allocate_def)
    next
      case True
      then obtain v where "format_id c m ''00001'' = Inr v"
        using code_one by (auto simp: format_id_def Let_def ident_join ident_length ID_LENGTH_def simp del: join.simps)
      then have a: "allocate c m x None s = new_id c m x None s1"
        using s1(1) None by (simp add: allocate_def)
      have n1: "next_number (database_at s1 GLOBAL_DB_PATH) = next_number ?d"
        using s1(3) by (simp add: next_number_def fun_eq_iff)
      show ?thesis
      proof (cases "next_code (codes_of c ids) (next_number ?d c)")
        case (Inl e)
        then have "\<exists>s'. new_id c m x None s1 = (Inl e, s')"
          using new_id_next [OF s1(2) conjunct1 [OF True] conjunct2 [OF True] fresh] n1 by auto
        then show ?thesis
          using Inl a known True by (auto simp: y number_one_eq [OF step])
      next
        case (Inr k)
        obtain s2 where s2: "new_id c m x None s1 = (Inr (ident c m k), s2)" "naming_ok s2 (ids @ [new_info c m k x])"
          "code_text k" "moves_counter (codes_of c ids) c ?d (database_at s2 GLOBAL_DB_PATH)"
          using new_id_next [OF s1(2) conjunct1 [OF True] conjunct2 [OF True] fresh] n1 Inr by (auto simp: moves_counter_def)
        obtain n where n: "next_free (codes_of c ids) (next_number ?d c) = Inr n"
          using Inr by (auto simp: next_code_def split: sum.splits)
        have "format_id c m k = Inr (ident c m k)"
          using True s2(3) by (simp add: format_id_eq)
        then have one: "number_one taken next_n c m =
            Inr (ident c m k, AList.update c (k # codes_at taken c) taken, AList.update c (n + 1) next_n)"
          using True Inr n by (simp add: number_one_eq [OF step])
        have "(c, m, x) \<notin> set rest" "distinct rest"
          using Cons.prems(3) by (simp_all add: y)
        then have "agree (preview_each known rest (AList.update c (k # codes_at taken c) taken) (AList.update c (n + 1) next_n)
              (AList.update x \<lparr>as_value = ident c m k, as_allocated = False\<rparr> out))
            (fst (allocate_each rest (values_of (AList.update x \<lparr>as_value = ident c m k, as_allocated = False\<rparr> out)) s2))"
          using Cons.IH [OF s2(2) in_step_new [OF step _ conjunct1 [OF True] n s2(4)]] by blast
        then show ?thesis
          using a s2(1) known one by (simp add: y values_of_update)
      qed
    qed
  qed
qed simp

lemma preview_agrees:
  assumes ok: "naming_ok s ids" and d: "distinct requests"
  shows "agree (fst (preview requests s)) (fst (allocate_many requests s))"
proof -
  let ?known = "fold (\<lambda>i. AList.update (key_of (subject_of i)) (id_of i)) ids []"
  let ?taken = "fold add_code ids []"
  let ?next = "map (\<lambda>c. (c, next_number (database_at s GLOBAL_DB_PATH) c)) (map fst CLUSTERS)"
  have h: "list_all info_ok ids" "distinct (map subject_of ids)"
    using ok by (simp_all add: naming_ok_def naming_db_def holds_ids_def)
  obtain es where es: "list_entries_read_only COUNTER_TYPE SCOPE s = (Inr es, s)"
    "\<forall>c. counter_start (map_of es c) = Inr (next_number (database_at s GLOBAL_DB_PATH) c)"
    using read_only_counters [OF ok] by blast
  have "preview requests s = (preview_each ?known requests ?taken ?next [], s)"
    using read_only_ids [OF ok] es(1) by_subject_infos taken_table_infos [OF h(1)] start_numbers_clusters [OF es(2)]
    by (simp add: preview_def)
  moreover have "map_of ?next c = (if is_cluster c then Some (next_number (database_at s GLOBAL_DB_PATH) c) else None)" for c
    unfolding map_of_map_restrict by (simp add: restrict_map_def is_cluster_def)
  then have "in_step ?known ?taken ?next requests ids (database_at s GLOBAL_DB_PATH)"
    unfolding in_step_def known_id_infos [OF h(2)] codes_at_infos by (simp add: codes_at_def)
  ultimately show ?thesis
    using preview_each_agrees [OF ok _ d, of _ _ _ "[]"] by (simp add: allocate_many_def values_of_def)
qed

text \<open>
  On any registry the operations lead to, the preview of requests none of which comes twice gives the
  identifiers allocating them then gives, and it raises exactly when allocating raises.
\<close>
theorem preview_is_what_allocation_gives:
  assumes "new_registry s0" "distinct requests"
  shows "agree (fst (preview requests (run_ops naming_step ops s0))) (fst (allocate_many requests (run_ops naming_step ops s0)))"
proof -
  have "consistent (run_ops naming_step ops s0)"
    by (rule naming.run_keeps [OF new_registry_consistent [OF assms(1)]])
  then show ?thesis
    using preview_agrees [OF _ assms(2)] by (auto simp: consistent_def)
qed

definition lab_requests :: "request list" where
  "lab_requests = [(''A'', ''C'', ''caddy''), (''O'', ''I'', ''proxmox-ve''), (''A'', ''S'', ''backup'')]"

definition lab_history :: "naming_op list" where
  "lab_history = [Allocate ''A'' ''C'' ''caddy'' None, Retire ''A_C_00001'']"

lemma lab_preview:
  "fst (preview lab_requests (run_ops naming_step lab_history lab_registry)) =
     Inr [(''caddy'', \<lparr>as_value = ''A_C_00001'', as_allocated = True\<rparr>),
          (''proxmox-ve'', \<lparr>as_value = ''O_I_00001'', as_allocated = False\<rparr>),
          (''backup'', \<lparr>as_value = ''A_S_00002'', as_allocated = False\<rparr>)]"
  by code_simp

theorem preview_is_what_allocation_gives_witness:
  "fst (allocate_many lab_requests (run_ops naming_step lab_history lab_registry)) =
     Inr [(''caddy'', ''A_C_00001''), (''proxmox-ve'', ''O_I_00001''), (''backup'', ''A_S_00002'')]"
proof -
  have new: "new_registry lab_registry"
    by (simp add: new_registry_def lab_registry_def GLOBAL_DB_PATH_def DEFAULT_DB_PATH_def)
  have "distinct lab_requests"
    by (simp add: lab_requests_def)
  from preview_is_what_allocation_gives [OF new this, of lab_history] show ?thesis
    unfolding lab_preview by (simp add: agree_def values_of_def split: sum.splits)
qed

text \<open>A request that comes twice is counted twice by the preview, though it gets one identifier.\<close>

lemma preview_counts_duplicates:
  "fst (preview [(''A'', ''C'', ''caddy''), (''A'', ''C'', ''caddy'')] lab_registry) =
     Inr [(''caddy'', \<lparr>as_value = ''A_C_00002'', as_allocated = False\<rparr>)]"
  "fst (allocate_many [(''A'', ''C'', ''caddy''), (''A'', ''C'', ''caddy'')] lab_registry) = Inr [(''caddy'', ''A_C_00001'')]"
  by code_simp+

end
