(* ===== verification/SettingsStore.thy ===== *)
theory SettingsStore
  imports Registry Machines
begin

text \<open>
  \<open>settings_store.py\<close> and the preference of \<open>netpref.py\<close>: settings with defaults, enumerated options and vault references,
  stored in the registry under their own group. The state is the registry and the definitions registered so far; a
  setting's value is a JSON value, with \<^const>\<open>JNull\<close> for \<open>None\<close>. The text of an error message names the options as a Python
  tuple.
\<close>

section \<open>Definitions\<close>

record setting_def =
  sd_group :: string
  sd_key :: string
  sd_default :: json
  sd_description :: string
  sd_options :: "json list option"
  sd_is_secret_ref :: bool
  sd_scope :: string

record settings = registry +
  setting_defs :: "setting_def list"

definition SECRET_REF_SCHEMES :: "string list" where
  "SECRET_REF_SCHEMES = [''vault://'']"

definition setting_of :: "string \<Rightarrow> string \<Rightarrow> json \<Rightarrow> string \<Rightarrow> json list option \<Rightarrow> string \<Rightarrow> setting_def" where
  "setting_of grp key v description options scope =
     \<lparr>sd_group = grp, sd_key = key, sd_default = v, sd_description = description, sd_options = options,
      sd_is_secret_ref = False, sd_scope = scope\<rparr>"

definition SCHEMA :: "setting_def list" where
  "SCHEMA = [
     setting_of ''sessions'' ''default_session_ttl_hours'' (JInt 24)
       ''Max session length before reauthorization is required (non-admin personas).''
       None PROTECTED,
     setting_of ''sessions'' ''admin_session_ttl_hours'' (JInt 24)
       (''Max session length for the admin persona's own login - same default as everyone else, per '' @
        ''direct correction (\"24 hours is the default limit not one hour\").'')
       None PROTECTED,
     setting_of ''sessions'' ''admin_elevation_ttl_minutes'' (JInt 15)
       (''How long admin's cross-persona passphrase stays cached before it must be re-entered - '' @
        ''sudo-like, deliberately much shorter than the base session.'')
       None PROTECTED,
     setting_of ''backups'' ''offdrive_destination'' (JStr [])
       (''Folder on a SEPARATE local drive where Baseline adds backups of everything on the SK hynix '' @
        ''drives, for example /mnt/10TB/backup. Empty (the default) means no off-drive backup is made. '' @
        ''Baseline only ever ADDS a new baseline-backups folder and new files inside it: it never '' @
        ''deletes, overwrites or replaces anything there, and it refuses a destination on either SK '' @
        ''hynix drive or on the root filesystem.'')
       None PROTECTED,
     setting_of ''backups'' ''offdrive_min_interval_hours'' (JInt 168)
       (''Minimum hours between off-drive backups. Nothing is ever deleted from the destination, so '' @
        ''backups are not made more often than this; the default is a week.'')
       None PROTECTED,
     setting_of ''access'' ''operator_users'' (JStr [])
       (''Comma-separated names of machine accounts that log in with a limited OPERATOR role: they can '' @
        ''run, schedule and watch backups and checks on the Operations page and nothing else (no '' @
        ''settings, no recovery, no drive actions, and they can never confirm one). They sign in with '' @
        ''that machine account's own password; Baseline creates no accounts and stores no passwords. '' @
        ''Empty means none.'')
       None GLOBAL,
     setting_of ''access'' ''operator_session_hours'' (JInt 8)
       (''How long an operator login lasts before it must be repeated. Longer than an admin session so '' @
        ''that queued work can finish while you are away; it still ends by itself and can be logged out '' @
        ''at any time.'')
       None PROTECTED,
     setting_of ''startup'' ''auto_start_persona'' (JStr ''personal'')
       (''Which persona's USER volume mounts automatically on boot. GLOBAL scope (decision record 89) - '' @
        ''recovery must be able to read this even when a persona's own USER volume is exactly the thing '' @
        ''that's broken.'')
       None GLOBAL,
     setting_of ''volumes'' ''baseline_mode'' (JStr ''read-write'')
       ''Mount mode for the shared BASELINE volume: read-write, read-only, or write-only.''
       None PROTECTED,
     setting_of ''volumes'' ''installer_cache_mode'' (JStr ''read-write'')
       ''Mount mode for the shared INSTALLER_CACHE volume: read-write, read-only, or write-only.''
       None PROTECTED,
     setting_of ''volumes'' ''session_temp_mode'' (JStr ''read-write'')
       ''Mount mode for the shared SESSION_TEMP volume: read-write, read-only, or write-only.''
       None PROTECTED,
     setting_of ''self_installer'' ''lvm_size_preset'' (JStr ''minimal'')
       ''Disk-space split for a self-installed machine (root/container-storage/swap sizing).''
       (Some [JStr ''minimal'', JStr ''small'', JStr ''medium'', JStr ''large'']) PROTECTED,
     setting_of ''self_installer'' ''fqdn'' (JStr ''baseline.local'')
       ''Hostname the self-installed machine answers to.''
       (Some [JStr ''baseline.local'', JStr ''baseline.home.arpa'', JStr ''baseline.lan'']) PROTECTED,
     setting_of ''self_installer'' ''memory_mb'' (JInt 3072)
       ''RAM given to the automated-install process itself while it installs.''
       (Some [JInt 2048, JInt 3072, JInt 4096, JInt 8192]) PROTECTED]"

definition def_key :: "setting_def \<Rightarrow> string \<times> string" where
  "def_key d = (sd_group d, sd_key d)"

text \<open>\<open>register_schema\<close>: a definition that is already there stops the loop; those before it stay registered.\<close>

fun register_schema :: "setting_def list \<Rightarrow> ('x settings_scheme, unit) act" where
  "register_schema [] = act_ret ()"
| "register_schema (d # ds) =
     act_bind (act_get (\<lambda>s. def_key d \<in> def_key ` set (setting_defs s))) (\<lambda>there.
     if there then
       act_raise (ValueError (''setting '' @ sd_group d @ ''.'' @ sd_key d @ '' is already registered''))
     else act_seq (act_upd (\<lambda>s. s\<lparr>setting_defs := setting_defs s @ [d]\<rparr>)) (register_schema ds))"

definition schema_by_key :: "setting_def list \<Rightarrow> string \<Rightarrow> string \<Rightarrow> setting_def option" where
  "schema_by_key defs grp key = map_of (rev (map (\<lambda>d. (def_key d, d)) defs)) (grp, key)"

definition group_names :: "setting_def list \<Rightarrow> string list" where
  "group_names defs = rev (remdups (rev (map sd_group defs)))"

definition settings_in_group :: "setting_def list \<Rightarrow> string \<Rightarrow> setting_def list" where
  "settings_in_group defs grp = filter (\<lambda>d. sd_group d = grp) defs"

section \<open>Reading and setting\<close>

definition def_attributes :: "setting_def \<Rightarrow> json" where
  "def_attributes d = JObj [(''default'', sd_default d), (''description'', JStr (sd_description d)),
     (''options'', case sd_options d of None \<Rightarrow> JNull | Some os \<Rightarrow> JList os),
     (''is_secret_ref'', JBool (sd_is_secret_ref d))]"

definition sync_definition :: "setting_def \<Rightarrow> ('x settings_scheme, unit) act" where
  "sync_definition d =
     act_seq (register_type (sd_group d) (''Settings group '' @ py_repr (sd_group d) @ '' (settings_store.py)'') (sd_scope d))
       (upsert_entry (sd_group d) (sd_key d) (def_attributes d) (sd_scope d) JNull)"

definition effective :: "setting_def \<Rightarrow> reg_entry option \<Rightarrow> json" where
  "effective d entry =
     (case entry of
        None \<Rightarrow> sd_default d
      | Some e \<Rightarrow> if stored_value e = JNull then sd_default d else stored_value e)"

definition unknown_setting :: "string \<Rightarrow> string \<Rightarrow> exn" where
  "unknown_setting grp key = KeyError (''unknown setting '' @ grp @ ''.'' @ key)"

definition get_setting :: "string \<Rightarrow> string \<Rightarrow> ('x settings_scheme, json) act" where
  "get_setting grp key =
     act_bind (act_get (\<lambda>s. schema_by_key (setting_defs s) grp key)) (\<lambda>found.
     case found of
       None \<Rightarrow> act_raise (unknown_setting grp key)
     | Some d \<Rightarrow>
         act_seq (sync_definition d)
           (act_bind (get_entry grp key (sd_scope d)) (\<lambda>entry. act_ret (effective d entry))))"

definition tuple_repr :: "json list \<Rightarrow> string" where
  "tuple_repr xs = ''('' @ join '', '' (map json_repr xs) @ (if length xs = 1 then '',)'' else '')'')"

definition in_options :: "setting_def \<Rightarrow> json \<Rightarrow> bool" where
  "in_options d v \<longleftrightarrow> (case sd_options d of None \<Rightarrow> True | Some os \<Rightarrow> (\<exists>x \<in> set os. scalar_eq v x))"

definition is_secret_text :: "json \<Rightarrow> bool" where
  "is_secret_text v \<longleftrightarrow> (case v of JStr t \<Rightarrow> (\<exists>p \<in> set SECRET_REF_SCHEMES. starts_with t p) | _ \<Rightarrow> False)"

definition check_value :: "setting_def \<Rightarrow> json \<Rightarrow> exn + unit" where
  "check_value d v =
     (let name = sd_group d @ ''.'' @ sd_key d
      in if \<not> in_options d v then
           Inl (ValueError (name @ '' must be one of '' @ tuple_repr (the (sd_options d)) @ '', got '' @ json_repr v))
         else if sd_is_secret_ref d \<and> \<not> is_secret_text v then
           Inl (ValueError (name @ '' holds a vault reference, not a raw value - must start with one of '' @
             tuple_repr (map JStr SECRET_REF_SCHEMES) @ '', got '' @ json_repr v))
         else Inr ())"

definition set_setting :: "string \<Rightarrow> string \<Rightarrow> json \<Rightarrow> ('x settings_scheme, unit) act" where
  "set_setting grp key v =
     act_bind (act_get (\<lambda>s. schema_by_key (setting_defs s) grp key)) (\<lambda>found.
     case found of
       None \<Rightarrow> act_raise (unknown_setting grp key)
     | Some d \<Rightarrow>
         act_bind (act_lift (check_value d v)) (\<lambda>checked.
         act_seq (sync_definition d) (set_value grp key v (sd_scope d))))"

text \<open>
  \<open>all_effective_settings\<close>: every definition is synchronised, then each group is listed once in each of its scopes. The listings
  are kept under the pair of group and scope.
\<close>

type_synonym entry_lists = "((string \<times> string) \<times> (string \<times> reg_entry) list) list"

definition scopes_in_group :: "setting_def list \<Rightarrow> string \<Rightarrow> string list" where
  "scopes_in_group defs grp = remdups (map sd_scope (settings_in_group defs grp))"

fun list_groups :: "(string \<times> string) list \<Rightarrow> ('x settings_scheme, entry_lists) act" where
  "list_groups [] = act_ret []"
| "list_groups ((grp, scope) # rest) =
     act_bind (list_entries grp scope) (\<lambda>es.
     act_bind (list_groups rest) (\<lambda>listed. act_ret (((grp, scope), es) # listed)))"

definition group_scopes :: "setting_def list \<Rightarrow> (string \<times> string) list" where
  "group_scopes defs = concat (map (\<lambda>g. map (\<lambda>sc. (g, sc)) (scopes_in_group defs g)) (group_names defs))"

definition put_setting :: "entry_lists \<Rightarrow> setting_def \<Rightarrow> (string \<times> (string \<times> json) list) list \<Rightarrow> (string \<times> (string \<times> json) list) list" where
  "put_setting listed d result =
     (let es = (case map_of listed (sd_group d, sd_scope d) of None \<Rightarrow> [] | Some es \<Rightarrow> es);
          old = (case map_of result (sd_group d) of None \<Rightarrow> [] | Some kvs \<Rightarrow> kvs)
      in AList.update (sd_group d) (AList.update (sd_key d) (effective d (map_of es (sd_key d))) old) result)"

definition all_effective_settings :: "('x settings_scheme, (string \<times> (string \<times> json) list) list) act" where
  "all_effective_settings =
     act_bind (act_get setting_defs) (\<lambda>defs.
     act_seq (act_for defs sync_definition)
       (act_bind (list_groups (group_scopes defs)) (\<lambda>listed.
        act_ret (fold (put_setting listed) defs []))))"

fun snapshot_each :: "(string \<times> string) list \<Rightarrow> (string \<times> json) list \<Rightarrow> ('x settings_scheme, (string \<times> json) list) act" where
  "snapshot_each [] acc = act_ret acc"
| "snapshot_each ((grp, key) # rest) acc =
     act_bind (get_setting grp key) (\<lambda>v. snapshot_each rest (AList.update (grp @ ''.'' @ key) v acc))"

definition export_bootstrap_snapshot :: "(string \<times> string) list \<Rightarrow> ('x settings_scheme, (string \<times> json) list) act" where
  "export_bootstrap_snapshot pairs = snapshot_each pairs []"

section \<open>The network preference\<close>

definition preference_defs :: "setting_def list" where
  "preference_defs =
     [setting_of ''network'' ''preferred_primary_interface'' JNull
        ''Interface apply_primary last made the kernel's actual default route.'' None PROTECTED,
      setting_of ''network'' ''preferred_fallback_interface'' JNull
        ''Interface demoted to a fallback default route (metric 100) rather than removed.'' None PROTECTED]"

definition load_preference :: "('x settings_scheme, json \<times> json) act" where
  "load_preference =
     act_bind (get_setting ''network'' ''preferred_primary_interface'') (\<lambda>p.
     act_bind (get_setting ''network'' ''preferred_fallback_interface'') (\<lambda>f. act_ret (p, f)))"

definition save_preference :: "json \<Rightarrow> json \<Rightarrow> ('x settings_scheme, json \<times> json) act" where
  "save_preference primary fallback =
     act_seq (act_when (primary \<noteq> JNull) (set_setting ''network'' ''preferred_primary_interface'' primary))
       (act_seq (act_when (fallback \<noteq> JNull) (set_setting ''network'' ''preferred_fallback_interface'' fallback))
         load_preference)"

section \<open>Any sequence of operations\<close>

datatype settings_op =
    Register "setting_def list"
  | SetSetting string string json
  | GetSetting string string
  | AllSettings
  | Snapshot "(string \<times> string) list"

fun settings_step :: "settings_op \<Rightarrow> settings \<Rightarrow> (exn + unit) \<times> settings" where
  "settings_step (Register ds) = register_schema ds"
| "settings_step (SetSetting g k v) = set_setting g k v"
| "settings_step (GetSetting g k) = act_seq (get_setting g k) (act_ret ())"
| "settings_step AllSettings = act_seq all_effective_settings (act_ret ())"
| "settings_step (Snapshot pairs) = act_seq (export_bootstrap_snapshot pairs) (act_ret ())"

text \<open>
  \<open>rows_keep Q D\<close>: no migration is registered, the definitions are \<open>D\<close>, and the rows of every database satisfy \<open>Q\<close>. An action
  that leaves the definitions alone and changes rows only in ways \<open>Q\<close> allows keeps it.
\<close>

type_synonym rows = "((string \<times> string) \<times> entry_row) list"

definition rows_keep :: "(string \<Rightarrow> rows \<Rightarrow> bool) \<Rightarrow> setting_def list \<Rightarrow> settings \<Rightarrow> bool" where
  "rows_keep Q D s \<longleftrightarrow> setting_defs s = D \<and> migration_table s = [] \<and> (\<forall>p. Q p (db_entries (database_at s p)))"

definition keeps_rows :: "(rows \<Rightarrow> bool) \<Rightarrow> (database, 'a) act \<Rightarrow> bool" where
  "keeps_rows Q m \<longleftrightarrow> (\<forall>d. Q (db_entries d) \<longrightarrow> Q (db_entries (snd (m d))))"

lemma apply_migrations_entries [simp]: "db_entries (snd (apply_migrations [] d)) = db_entries d"
  by (simp add: apply_migrations_def act_when_def Let_def walk_migrations.simps split: if_splits)

lemma on_database_keeps: "keeps_rows (Q p) m \<Longrightarrow> keeps (rows_keep Q D) (on_database p m)"
  by (rule keepsI) (auto simp: on_database_eq rows_keep_def keeps_rows_def put_database_def database_at_def update_conv' split: prod.splits)

lemma connect_keeps: "keeps (rows_keep Q D) (connect p)"
proof (rule keepsI)
  fix s assume s: "rows_keep Q D s"
  then have "migration_table s = []" by (simp add: rows_keep_def)
  moreover have "keeps (rows_keep Q D) (on_database p (act_seq (act_upd (\<lambda>d. d\<lparr>has_tables := True\<rparr>)) (apply_migrations [])))"
    by (rule on_database_keeps) (simp add: keeps_rows_def)
  ultimately show "rows_keep Q D (snd (connect p s))"
    using s by (simp add: connect_def keeps_def)
qed

lemma with_database_keeps:
  "(\<And>p. path_for_scope scope = Inr p \<Longrightarrow> keeps_rows (Q p) m) \<Longrightarrow> keeps (rows_keep Q D) (with_database scope m)"
  unfolding with_database_def
  by (cases "path_for_scope scope") (auto intro!: keeps_seq connect_keeps on_database_keeps keeps_raise)

lemma register_type_keeps: "keeps (rows_keep Q D) (register_type t desc scope)"
  by (auto simp: register_type_def keeps_rows_def intro!: keeps_raise with_database_keeps)

lemma get_entry_keeps: "keeps (rows_keep Q D) (get_entry t e scope)"
  unfolding get_entry_def
  by (intro keeps_bind with_database_keeps keeps_option keeps_intros) (simp add: keeps_rows_def)

lemma list_entries_keeps: "keeps (rows_keep Q D) (list_entries t scope)"
  unfolding list_entries_def by (intro keeps_bind with_database_keeps keeps_intros) (simp add: keeps_rows_def)

lemma list_groups_keeps: "keeps (rows_keep Q D) (list_groups gs)"
proof (induction gs rule: list_groups.induct)
  case 1
  show ?case unfolding list_groups.simps by (rule keeps_ret)
next
  case (2 g sc rest)
  show ?case unfolding list_groups.simps by (intro keeps_bind list_entries_keeps keeps_ret 2)
qed

text \<open>\<open>sync_ok Q D\<close>: writing the definition of a setting of \<open>D\<close>, whatever its row was, keeps \<open>Q\<close>.\<close>

definition sync_ok :: "(string \<Rightarrow> rows \<Rightarrow> bool) \<Rightarrow> setting_def list \<Rightarrow> bool" where
  "sync_ok Q D \<longleftrightarrow> (\<forall>d \<in> set D. \<forall>p es. path_for_scope (sd_scope d) = Inr p \<longrightarrow> Q p es \<longrightarrow>
     Q p (AList.update (def_key d) (upserted (def_attributes d) (sd_scope d) JNull (map_of es (def_key d))) es))"

lemma sync_keeps: "sync_ok Q D \<Longrightarrow> d \<in> set D \<Longrightarrow> keeps (rows_keep Q D) (sync_definition d)"
  unfolding sync_definition_def upsert_entry_def
  by (intro keeps_seq register_type_keeps with_database_keeps) (auto simp: keeps_rows_def sync_ok_def def_key_def)

lemma schema_by_key_in: "schema_by_key D g k = Some d \<Longrightarrow> d \<in> set D \<and> def_key d = (g, k)"
  by (auto simp: schema_by_key_def dest!: map_of_SomeD)

lemma rows_keep_defs: "rows_keep Q D s \<Longrightarrow> setting_defs s = D"
  by (simp add: rows_keep_def)

lemma get_setting_keeps:
  assumes "sync_ok Q D"
  shows "keeps (rows_keep Q D) (get_setting g k)"
  unfolding get_setting_def
proof (rule keeps_get_fact [where Q = "\<lambda>x. x = schema_by_key D g k"])
  fix x assume x: "x = schema_by_key D g k"
  show "keeps (rows_keep Q D) (case x of None \<Rightarrow> act_raise (unknown_setting g k)
      | Some d \<Rightarrow> act_seq (sync_definition d) (act_bind (get_entry g k (sd_scope d)) (\<lambda>entry. act_ret (effective d entry))))"
    using schema_by_key_in [of D g k] x
    by (auto intro!: keeps_option keeps_raise keeps_seq keeps_bind keeps_ret sync_keeps [OF assms] get_entry_keeps)
qed (simp add: rows_keep_defs)

lemma snapshot_keeps: "sync_ok Q D \<Longrightarrow> keeps (rows_keep Q D) (snapshot_each pairs acc)"
  by (induction pairs arbitrary: acc rule: list.induct) (auto intro!: keeps_ret keeps_bind get_setting_keeps)

lemma all_settings_keeps:
  assumes "sync_ok Q D"
  shows "keeps (rows_keep Q D) all_effective_settings"
  unfolding all_effective_settings_def
  by (rule keeps_get_fact [where Q = "\<lambda>x. x = D"])
    (auto simp: rows_keep_defs intro!: keeps_seq keeps_for sync_keeps [OF assms] keeps_bind list_groups_keeps keeps_ret)

text \<open>Setting a value is writing it into its row, after the definition.\<close>

definition put_value :: "json \<Rightarrow> entry_row \<Rightarrow> entry_row" where
  "put_value v r = r\<lparr>row_value := Some (json_dumps default_style v)\<rparr>"

lemma set_value_keeps:
  assumes "\<And>p es r. path_for_scope scope = Inr p \<Longrightarrow> Q p es \<Longrightarrow> map_of es (t, e) = Some r \<Longrightarrow>
    Q p (AList.update (t, e) (put_value v r) es)"
  shows "keeps (rows_keep Q D) (set_value t e v scope)"
  unfolding set_value_def
  by (rule with_database_keeps) (auto simp: keeps_rows_def put_value_def [symmetric] assms split: option.split)

lemma set_setting_keeps:
  assumes "sync_ok Q D"
    and "\<And>d p es r. schema_by_key D g k = Some d \<Longrightarrow> check_value d v = Inr () \<Longrightarrow> path_for_scope (sd_scope d) = Inr p \<Longrightarrow>
      Q p es \<Longrightarrow> map_of es (g, k) = Some r \<Longrightarrow> Q p (AList.update (g, k) (put_value v r) es)"
  shows "keeps (rows_keep Q D) (set_setting g k v)"
  unfolding set_setting_def
proof (rule keeps_get_fact [where Q = "\<lambda>x. x = schema_by_key D g k"])
  fix x assume x: "x = schema_by_key D g k"
  show "keeps (rows_keep Q D) (case x of None \<Rightarrow> act_raise (unknown_setting g k)
      | Some d \<Rightarrow> act_bind (act_lift (check_value d v)) (\<lambda>checked. act_seq (sync_definition d) (set_value g k v (sd_scope d))))"
  proof (cases x)
    case (Some d)
    show ?thesis
    proof (cases "check_value d v")
      case (Inr u)
      then have "keeps (rows_keep Q D) (act_seq (sync_definition d) (set_value g k v (sd_scope d)))"
        using assms(2) [of d] schema_by_key_in [of D g k d] x Some
        by (intro keeps_seq sync_keeps [OF assms(1)] set_value_keeps) auto
      then show ?thesis using Some Inr by simp
    qed (simp add: Some keeps_raise)
  qed (simp add: keeps_raise)
qed (simp add: rows_keep_defs)

text \<open>Registering only adds definitions, each under a new key.\<close>

lemma register_adds:
  "\<exists>new. setting_defs (snd (register_schema ds s)) = setting_defs s @ new \<and> databases (snd (register_schema ds s)) = databases s \<and>
     migration_table (snd (register_schema ds s)) = migration_table s \<and>
     (distinct (map def_key (setting_defs s)) \<longrightarrow> distinct (map def_key (setting_defs s @ new))) \<and>
     (\<forall>d \<in> set new. def_key d \<notin> def_key ` set (setting_defs s))"
proof (induction ds arbitrary: s)
  case (Cons d ds)
  show ?case
  proof (cases "def_key d \<in> def_key ` set (setting_defs s)")
    case False
    let ?s = "s\<lparr>setting_defs := setting_defs s @ [d]\<rparr>"
    obtain new where "setting_defs (snd (register_schema ds ?s)) = setting_defs s @ d # new"
      "databases (snd (register_schema ds ?s)) = databases s" "migration_table (snd (register_schema ds ?s)) = migration_table s"
      "distinct (map def_key (setting_defs s @ [d])) \<longrightarrow> distinct (map def_key (setting_defs s @ d # new))"
      "\<forall>e \<in> set new. def_key e \<notin> def_key ` set (setting_defs s @ [d])"
      using Cons.IH [of ?s] by auto
    then show ?thesis using False by (intro exI [of _ "d # new"]) auto
  next
    case True
    then show ?thesis by (intro exI [of _ "[]"]) simp
  qed
qed (intro exI [of _ "[]"], simp)

lemma schema_by_key_append:
  "\<forall>d \<in> set new. def_key d \<noteq> (g, k) \<Longrightarrow> schema_by_key (D @ new) g k = schema_by_key D g k"
  by (induction new rule: rev_induct) (auto simp: schema_by_key_def simp flip: append_assoc)

section \<open>Every stored value is one its definition allows\<close>

definition reads_back :: "json \<Rightarrow> bool" where
  "reads_back v \<longleftrightarrow> json_parse (json_dumps default_style v) = Inr v"

definition allowed :: "setting_def \<Rightarrow> json \<Rightarrow> bool" where
  "allowed d v \<longleftrightarrow> in_options d v \<and> (sd_is_secret_ref d \<longrightarrow> is_secret_text v)"

lemma check_value_allowed: "check_value d v = Inr () \<longleftrightarrow> allowed d v"
  by (simp add: check_value_def Let_def allowed_def)

definition good_row :: "setting_def list \<Rightarrow> string \<times> string \<Rightarrow> entry_row \<Rightarrow> bool" where
  "good_row D k r \<longleftrightarrow> (\<exists>d \<in> set D. def_key d = k \<and>
     (row_value r = None \<or> (\<exists>v. row_value r = Some (json_dumps default_style v) \<and> reads_back v \<and> allowed d v)))"

definition good_rows :: "setting_def list \<Rightarrow> string \<Rightarrow> rows \<Rightarrow> bool" where
  "good_rows D p es \<longleftrightarrow> (\<forall>k r. map_of es k = Some r \<longrightarrow> good_row D k r)"

lemma good_rowsD: "good_rows D p es \<Longrightarrow> map_of es k = Some r \<Longrightarrow> good_row D k r"
  unfolding good_rows_def by blast

definition typed :: "settings \<Rightarrow> bool" where
  "typed s \<longleftrightarrow> distinct (map def_key (setting_defs s)) \<and> rows_keep (good_rows (setting_defs s)) (setting_defs s) s"

lemma good_rows_update: "good_rows D p es \<Longrightarrow> good_row D k r \<Longrightarrow> good_rows D p (AList.update k r es)"
  by (simp add: good_rows_def update_conv')

lemma sync_good: "sync_ok (good_rows D) D"
  unfolding sync_ok_def
proof (intro ballI allI impI good_rows_update)
  fix d p es assume d: "d \<in> set D" and g: "good_rows D p es"
  show "good_row D (def_key d) (upserted (def_attributes d) (sd_scope d) JNull (map_of es (def_key d)))"
  proof (cases "map_of es (def_key d)")
    case None
    then show ?thesis using d by (auto simp: good_row_def upserted_def)
  next
    case (Some r)
    then have "good_row D (def_key d) r" by (rule good_rowsD [OF g])
    then show ?thesis using Some by (simp add: good_row_def upserted_def)
  qed
qed

lemma good_row_put: "schema_by_key D g k = Some d \<Longrightarrow> allowed d v \<Longrightarrow> reads_back v \<Longrightarrow> good_row D (g, k) (put_value v r)"
  using schema_by_key_in [of D g k d] by (auto simp: good_row_def put_value_def)

lemma set_good:
  assumes "distinct (map def_key D)" "reads_back v"
  shows "keeps (rows_keep (good_rows D) D) (set_setting g k v)"
  by (rule set_setting_keeps [OF sync_good])
    (use assms good_row_put in \<open>auto simp: check_value_allowed intro!: good_rows_update\<close>)

definition sound_op :: "settings_op \<Rightarrow> bool" where
  "sound_op op \<longleftrightarrow> (case op of SetSetting g k v \<Rightarrow> reads_back v | _ \<Rightarrow> True)"

lemma good_row_more: "good_row D k r \<Longrightarrow> good_row (D @ new) k r"
  by (auto simp: good_row_def)

lemma step_typed:
  assumes "typed s" "sound_op op"
  shows "typed (snd (settings_step op s))"
proof (cases "\<exists>ds. op = Register ds")
  case True
  then obtain ds where op: "op = Register ds" ..
  obtain new where "setting_defs (snd (register_schema ds s)) = setting_defs s @ new"
    "databases (snd (register_schema ds s)) = databases s" "migration_table (snd (register_schema ds s)) = migration_table s"
    "distinct (map def_key (setting_defs s)) \<longrightarrow> distinct (map def_key (setting_defs s @ new))"
    using register_adds [of ds s] by auto
  then show ?thesis
    using assms(1) good_row_more by (auto simp: op typed_def rows_keep_def good_rows_def database_at_def)
next
  case False
  let ?D = "setting_defs s"
  have s: "distinct (map def_key ?D)" "rows_keep (good_rows ?D) ?D s"
    using assms(1) by (simp_all add: typed_def)
  have "keeps (rows_keep (good_rows ?D) ?D) (settings_step op)"
    using False assms(2) s(1)
    by (cases op) (auto simp: sound_op_def export_bootstrap_snapshot_def
        intro!: set_good keeps_seq keeps_ret get_setting_keeps all_settings_keeps snapshot_keeps sync_good)
  then have "rows_keep (good_rows ?D) ?D (snd (settings_step op s))"
    by (rule keepsD) (rule s(2))
  then show ?thesis
    using s(1) by (simp add: typed_def rows_keep_def)
qed

interpretation settings_machine: invariant_machine "\<lambda>op s. if sound_op op then settings_step op s else (Inr (), s)" typed
  by unfold_locales (simp add: step_typed)

lemma run_sound: "list_all sound_op ops \<Longrightarrow>
    run_ops (\<lambda>op s. if sound_op op then settings_step op s else (Inr (), s)) ops s = run_ops settings_step ops s"
  by (induction ops arbitrary: s) simp_all

lemma run_typed: "typed s \<Longrightarrow> list_all sound_op ops \<Longrightarrow> typed (run_ops settings_step ops s)"
  using settings_machine.run_keeps [of s ops] by (simp add: run_sound)

text \<open>What \<open>get_setting\<close> returns is the default or the value of the row.\<close>

lemma read_row_value: "read_row r = Inr e \<Longrightarrow> row_value r = Some t \<Longrightarrow> json_parse t = Inr (stored_value e)"
  "read_row r = Inr e \<Longrightarrow> row_value r = None \<Longrightarrow> stored_value e = JNull"
  by (auto simp: read_row_def split: sum.splits)

lemma get_entry_row:
  assumes "get_entry t e scope s = (Inr x, s')"
  shows "\<exists>p. path_for_scope scope = Inr p \<and> (case map_of (db_entries (database_at s' p)) (t, e) of
    None \<Rightarrow> x = None | Some r \<Rightarrow> (\<exists>v. read_row r = Inr v \<and> x = Some v))"
  using assms
  by (auto simp: get_entry_def with_database_def act_bind_eq_Inr act_seq_eq_Inr on_database_eq split: option.splits sum.splits)
    (auto simp: act_lift_def act_ret_def)

lemma get_setting_row:
  assumes "get_setting g k s = (Inr w, t)"
  shows "\<exists>d p. schema_by_key (setting_defs s) g k = Some d \<and> path_for_scope (sd_scope d) = Inr p \<and>
    (case map_of (db_entries (database_at t p)) (g, k) of
       None \<Rightarrow> w = sd_default d
     | Some r \<Rightarrow> (\<exists>e. read_row r = Inr e \<and> w = effective d (Some e)))"
proof -
  obtain d where d: "schema_by_key (setting_defs s) g k = Some d"
    using assms by (cases "schema_by_key (setting_defs s) g k") (auto simp: get_setting_def)
  then obtain s1 x where s1: "get_entry g k (sd_scope d) s1 = (Inr x, t)" "w = effective d x"
    using assms by (auto simp: get_setting_def act_bind_eq_Inr act_seq_eq_Inr)
  then show ?thesis
    using get_entry_row [OF s1(1)] d by (fastforce simp: effective_def split: option.splits)
qed

definition fresh_settings :: "settings \<Rightarrow> bool" where
  "fresh_settings s \<longleftrightarrow> databases s = [] \<and> migration_table s = [] \<and> setting_defs s = []"

lemma fresh_typed: "fresh_settings s \<Longrightarrow> typed s"
  by (simp add: fresh_settings_def typed_def rows_keep_def good_rows_def database_at_def new_database_def)

text \<open>
  C33. Whatever is registered, set and read before, a setting that can be read has its default or a value its definition
  allows: one of its options, and for a secret a vault reference, never the secret itself.
\<close>
theorem settings_are_well_typed:
  assumes "fresh_settings s0" "list_all sound_op ops"
    and "get_setting g k (run_ops settings_step ops s0) = (Inr v, t)"
  shows "\<exists>d. schema_by_key (setting_defs (run_ops settings_step ops s0)) g k = Some d \<and> (v = sd_default d \<or> allowed d v)"
proof -
  let ?s = "run_ops settings_step ops s0"
  have s: "typed ?s" by (rule run_typed [OF fresh_typed [OF assms(1)] assms(2)])
  then have "rows_keep (good_rows (setting_defs ?s)) (setting_defs ?s) t"
    using keepsD [OF get_setting_keeps [OF sync_good], of "setting_defs ?s" ?s g k] assms(3) by (simp add: typed_def)
  then have g: "good_rows (setting_defs ?s) p (db_entries (database_at t p))" for p
    by (simp add: rows_keep_def)
  obtain d p where d: "schema_by_key (setting_defs ?s) g k = Some d" and
    w: "case map_of (db_entries (database_at t p)) (g, k) of None \<Rightarrow> v = sd_default d
       | Some r \<Rightarrow> (\<exists>e. read_row r = Inr e \<and> v = effective d (Some e))"
    using get_setting_row [OF assms(3)] by blast
  have "v = sd_default d \<or> allowed d v"
  proof (cases "map_of (db_entries (database_at t p)) (g, k)")
    case (Some r)
    then obtain e where e: "read_row r = Inr e" "v = effective d (Some e)" using w by auto
    obtain d' where d': "d' \<in> set (setting_defs ?s)" "def_key d' = (g, k)"
      "row_value r = None \<or> (\<exists>v. row_value r = Some (json_dumps default_style v) \<and> reads_back v \<and> allowed d' v)"
      using good_rowsD [OF g Some] by (auto simp: good_row_def)
    have "inj_on def_key (set (setting_defs ?s))"
      using s by (simp add: typed_def distinct_map)
    then have "d' = d"
      using inj_onD [of def_key _ d' d] d'(1,2) schema_by_key_in [OF d] by simp
    then show ?thesis
      using d'(3) e read_row_value [OF e(1)] by (auto simp: effective_def reads_back_def)
  qed (use w in simp)
  then show ?thesis using d by blast
qed

section \<open>A setting keeps what it was given\<close>

definition holds_text :: "string \<Rightarrow> string \<times> string \<Rightarrow> string \<Rightarrow> string \<Rightarrow> rows \<Rightarrow> bool" where
  "holds_text p k txt q es \<longleftrightarrow> (q = p \<longrightarrow> (\<exists>r. map_of es k = Some r \<and> row_value r = Some txt))"

definition sets :: "string \<Rightarrow> string \<Rightarrow> settings_op \<Rightarrow> bool" where
  "sets g k op \<longleftrightarrow> (case op of SetSetting g' k' v \<Rightarrow> g' = g \<and> k' = k | _ \<Rightarrow> False)"

lemma sync_holds: "sync_ok (holds_text p k txt) D"
  by (auto simp: sync_ok_def holds_text_def update_conv' upserted_def)

definition keeps_text :: "string \<Rightarrow> string \<Rightarrow> setting_def \<Rightarrow> string \<Rightarrow> string \<Rightarrow> settings \<Rightarrow> bool" where
  "keeps_text g k d p txt s \<longleftrightarrow> schema_by_key (setting_defs s) g k = Some d \<and>
     rows_keep (holds_text p (g, k) txt) (setting_defs s) s"

lemma step_keeps_text:
  assumes "keeps_text g k d p txt s" "\<not> sets g k op"
  shows "keeps_text g k d p txt (snd (settings_step op s))"
proof (cases "\<exists>ds. op = Register ds")
  case True
  then obtain ds where op: "op = Register ds" ..
  obtain new where new: "setting_defs (snd (register_schema ds s)) = setting_defs s @ new"
    "databases (snd (register_schema ds s)) = databases s" "migration_table (snd (register_schema ds s)) = migration_table s"
    "\<forall>e \<in> set new. def_key e \<notin> def_key ` set (setting_defs s)"
    using register_adds [of ds s] by auto
  have d: "schema_by_key (setting_defs s) g k = Some d"
    using assms(1) by (simp add: keeps_text_def)
  have "(g, k) \<in> def_key ` set (setting_defs s)"
    using schema_by_key_in [OF d] by force
  then have "\<forall>e \<in> set new. def_key e \<noteq> (g, k)"
    using new(4) by auto
  then have "schema_by_key (setting_defs s @ new) g k = Some d"
    using d schema_by_key_append by simp
  then show ?thesis
    using assms(1) new by (simp add: op keeps_text_def rows_keep_def database_at_def)
next
  case False
  let ?D = "setting_defs s" and ?Q = "holds_text p (g, k) txt"
  have "keeps (rows_keep ?Q ?D) (settings_step op)"
    using False assms(2)
    by (cases op) (auto simp: sets_def export_bootstrap_snapshot_def holds_text_def update_conv'
        intro!: set_setting_keeps sync_holds keeps_seq keeps_ret get_setting_keeps all_settings_keeps snapshot_keeps)
  then have "rows_keep ?Q ?D (snd (settings_step op s))"
    by (rule keepsD) (use assms(1) in \<open>simp add: keeps_text_def\<close>)
  then show ?thesis
    using assms(1) by (simp add: keeps_text_def rows_keep_def)
qed

lemma run_keeps_text:
  "keeps_text g k d p txt s \<Longrightarrow> list_all (\<lambda>op. \<not> sets g k op) ops \<Longrightarrow> keeps_text g k d p txt (run_ops settings_step ops s)"
  by (induction ops arbitrary: s) (simp_all add: step_keeps_text)

lemma set_setting_row:
  assumes "set_setting g k v s = (Inr (), s1)" "migration_table s = []"
  shows "\<exists>d p. path_for_scope (sd_scope d) = Inr p \<and> keeps_text g k d p (json_dumps default_style v) s1"
proof -
  obtain d where d: "schema_by_key (setting_defs s) g k = Some d"
    using assms(1) by (cases "schema_by_key (setting_defs s) g k") (auto simp: set_setting_def)
  then obtain s0 where s0: "set_value g k v (sd_scope d) s0 = (Inr (), s1)"
    using assms(1) by (auto simp: set_setting_def act_bind_eq_Inr act_seq_eq_Inr)
  have "keeps (rows_keep (\<lambda>p es. True) (setting_defs s)) (set_setting g k v)"
    by (rule set_setting_keeps) (simp_all add: sync_ok_def)
  then have frame: "setting_defs s1 = setting_defs s" "migration_table s1 = []"
    using assms by (auto simp: keeps_def rows_keep_def dest!: spec [of _ s])
  obtain p where "path_for_scope (sd_scope d) = Inr p"
    "\<exists>r. map_of (db_entries (database_at s1 p)) (g, k) = Some r \<and> row_value r = Some (json_dumps default_style v)"
    using s0 by (auto simp: set_value_def with_database_def act_bind_eq_Inr act_seq_eq_Inr on_database_eq act_lift_def update_conv'
        split: prod.splits option.splits)
  then show ?thesis
    using d frame by (auto simp: keeps_text_def rows_keep_def holds_text_def)
qed

text \<open>
  A value that was set is what every later reading gives, whatever is registered, read and set in between, until the
  same setting is set again; setting \<open>None\<close> brings the default back.
\<close>
theorem settings_keep_what_was_set:
  assumes "set_setting g k v s = (Inr (), s1)" "migration_table s = []" "reads_back v"
    and "list_all (\<lambda>op. \<not> sets g k op) ops" "get_setting g k (run_ops settings_step ops s1) = (Inr w, t)"
  shows "\<exists>d. schema_by_key (setting_defs s1) g k = Some d \<and> w = (if v = JNull then sd_default d else v)"
proof -
  let ?s = "run_ops settings_step ops s1" and ?txt = "json_dumps default_style v"
  obtain d p where p: "path_for_scope (sd_scope d) = Inr p" and s1: "keeps_text g k d p ?txt s1"
    using set_setting_row [OF assms(1,2)] by blast
  have s: "keeps_text g k d p ?txt ?s"
    by (rule run_keeps_text [OF s1 assms(4)])
  then have d: "schema_by_key (setting_defs ?s) g k = Some d"
    by (simp add: keeps_text_def)
  have "keeps (rows_keep (holds_text p (g, k) ?txt) (setting_defs ?s)) (get_setting g k)"
    by (rule get_setting_keeps [OF sync_holds])
  from keepsD [OF this, of ?s] have "rows_keep (holds_text p (g, k) ?txt) (setting_defs ?s) t"
    using s assms(5) by (simp add: keeps_text_def)
  then obtain r where r: "map_of (db_entries (database_at t p)) (g, k) = Some r" "row_value r = Some ?txt"
    by (auto simp: rows_keep_def holds_text_def)
  then obtain e where e: "read_row r = Inr e" "w = effective d (Some e)"
    using get_setting_row [OF assms(5)] d p by auto
  then have "stored_value e = v"
    using read_row_value(1) [OF e(1) r(2)] assms(3) by (simp add: reads_back_def)
  then show ?thesis
    using e(2) s1 by (auto simp: effective_def keeps_text_def)
qed

section \<open>GLOBAL settings do not need the USER volume\<close>

text \<open>
  \<open>alike s t\<close>: two states that differ in the PROTECTED database only, which may hold anything or not open at all.
  \<open>blind m\<close>: what \<open>m\<close> gives does not depend on that database.
\<close>

definition alike :: "settings \<Rightarrow> settings \<Rightarrow> bool" where
  "alike s t \<longleftrightarrow> setting_defs t = setting_defs s \<and> migration_table t = migration_table s \<and>
     database_at t GLOBAL_DB_PATH = database_at s GLOBAL_DB_PATH \<and>
     (GLOBAL_DB_PATH \<in> set (unreachable t) \<longleftrightarrow> GLOBAL_DB_PATH \<in> set (unreachable s))"

definition blind :: "(settings, 'a) act \<Rightarrow> bool" where
  "blind m \<longleftrightarrow> (\<forall>s t. alike s t \<longrightarrow> fst (m t) = fst (m s) \<and> alike (snd (m s)) (snd (m t)))"

lemma blindD: "blind m \<Longrightarrow> alike s t \<Longrightarrow> fst (m t) = fst (m s) \<and> alike (snd (m s)) (snd (m t))"
  by (simp add: blind_def)

lemma blind_basic: "blind (act_ret x)" "blind (act_raise e)" "blind (act_lift r)"
  by (simp_all add: blind_def)

lemma blind_bind: "blind m \<Longrightarrow> (\<And>x. blind (f x)) \<Longrightarrow> blind (act_bind m f)"
  unfolding blind_def act_bind_def by (force split: prod.split sum.split)

lemma blind_seq: "blind m \<Longrightarrow> blind k \<Longrightarrow> blind (act_seq m k)"
  unfolding act_seq_def by (rule blind_bind)

lemma blind_get: "(\<And>s t. alike s t \<Longrightarrow> f t = f s) \<Longrightarrow> (\<And>x. blind (k x)) \<Longrightarrow> blind (act_bind (act_get f) k)"
  by (simp add: blind_def)

lemma blind_on_database: "blind (on_database GLOBAL_DB_PATH m)"
  by (auto simp: blind_def on_database_eq alike_def put_database_def database_at_def update_conv' split: prod.split)

lemma blind_connect: "blind (connect GLOBAL_DB_PATH)"
  unfolding connect_def
  by (intro blind_get) (auto simp: alike_def intro!: blind_basic blind_on_database blind_get)

lemma blind_with_database: "blind (with_database GLOBAL m)"
  unfolding with_database_def by (auto intro: blind_seq blind_connect blind_on_database)

lemma blind_sync: "sd_scope d = GLOBAL \<Longrightarrow> blind (sync_definition d)"
  by (auto simp: sync_definition_def register_type_def upsert_entry_def intro!: blind_seq blind_with_database)

lemma blind_get_entry: "blind (get_entry t e GLOBAL)"
  unfolding get_entry_def
  by (intro blind_bind blind_with_database) (auto split: option.split intro!: blind_basic blind_bind)

text \<open>
  A GLOBAL setting, which recovery has to read when the USER volume is broken, is read without the PROTECTED
  database: the result is the same whatever that database holds, and also when it cannot be opened.
\<close>
theorem global_settings_ignore_protected:
  assumes "alike s t" "schema_by_key (setting_defs s) g k = Some d" "sd_scope d = GLOBAL"
  shows "fst (get_setting g k t) = fst (get_setting g k s)"
proof -
  have b: "blind (act_seq (sync_definition d) (act_bind (get_entry g k GLOBAL) (\<lambda>entry. act_ret (effective d entry))))"
    by (intro blind_seq blind_sync blind_bind blind_get_entry blind_basic assms(3))
  have "schema_by_key (setting_defs t) g k = Some d"
    using assms(1,2) by (simp add: alike_def)
  then show ?thesis
    using blindD [OF b assms(1)] assms(2,3) by (simp add: get_setting_def)
qed

section \<open>Concrete runs\<close>

definition lab_settings :: settings where
  "lab_settings = \<lparr>databases = [], unreachable = [], migration_table = [], setting_defs = []\<rparr>"

definition lab_choices :: "settings_op list" where
  "lab_choices = [Register SCHEMA, SetSetting ''self_installer'' ''memory_mb'' (JInt 4096),
     SetSetting ''self_installer'' ''fqdn'' (JStr ''example.com'')]"

definition lab_configured :: settings where
  "lab_configured = run_ops settings_step lab_choices lab_settings"

definition lab_preferring :: settings where
  "lab_preferring = snd (register_schema preference_defs lab_settings)"

definition lab_preferred :: "(exn + unit) \<times> settings" where
  "lab_preferred = set_setting ''network'' ''preferred_primary_interface'' (JStr ''eno1'') lab_preferring"

definition lab_reading :: "settings_op list" where
  "lab_reading = [SetSetting ''network'' ''preferred_fallback_interface'' (JStr ''usb0''), AllSettings]"

definition lab_locked_out :: settings where
  "lab_locked_out = lab_configured\<lparr>unreachable := [DEFAULT_DB_PATH]\<rparr>"

lemma lab_memory: "fst (get_setting ''self_installer'' ''memory_mb'' lab_configured) = Inr (JInt 4096)"
  by code_simp

lemma lab_preferred_set: "fst lab_preferred = Inr ()"
  by code_simp

lemma lab_preferred_read:
  "fst (get_setting ''network'' ''preferred_primary_interface'' (run_ops settings_step lab_reading (snd lab_preferred))) = Inr (JStr ''eno1'')"
  by code_simp

lemma lab_persona: "schema_by_key (setting_defs lab_configured) ''startup'' ''auto_start_persona'' = Some (SCHEMA ! 7)"
  by code_simp

lemma reads_back_ok: "json_ok v \<Longrightarrow> reads_back v"
  by (simp add: reads_back_def json_parse_def loads_dumps_default)

theorem settings_are_well_typed_witness:
  "\<exists>d. schema_by_key (setting_defs lab_configured) ''self_installer'' ''memory_mb'' = Some d \<and> (JInt 4096 = sd_default d \<or> allowed d (JInt 4096))"
proof -
  have f: "fresh_settings lab_settings"
    by (simp add: fresh_settings_def lab_settings_def)
  have s: "list_all sound_op lab_choices"
    by (simp add: lab_choices_def sound_op_def reads_back_ok)
  have g: "get_setting ''self_installer'' ''memory_mb'' (run_ops settings_step lab_choices lab_settings) =
      (Inr (JInt 4096), snd (get_setting ''self_installer'' ''memory_mb'' lab_configured))"
    using lab_memory by (simp add: lab_configured_def prod_eq_iff)
  show ?thesis
    using settings_are_well_typed [OF f s g] by (simp add: lab_configured_def)
qed

theorem settings_keep_what_was_set_witness:
  "\<exists>d. schema_by_key (setting_defs (snd lab_preferred)) ''network'' ''preferred_primary_interface'' = Some d \<and>
     JStr ''eno1'' = (if JStr ''eno1'' = JNull then sd_default d else JStr ''eno1'')"
proof (rule settings_keep_what_was_set)
  show "set_setting ''network'' ''preferred_primary_interface'' (JStr ''eno1'') lab_preferring = (Inr (), snd lab_preferred)"
    using lab_preferred_set by (simp add: lab_preferred_def prod_eq_iff)
  show "migration_table lab_preferring = []"
    using register_adds [of preference_defs lab_settings] by (auto simp: lab_preferring_def lab_settings_def)
  show "reads_back (JStr ''eno1'')"
    by (simp add: reads_back_ok)
  show "list_all (\<lambda>op. \<not> sets ''network'' ''preferred_primary_interface'' op) lab_reading"
    by (simp add: lab_reading_def sets_def)
  show "get_setting ''network'' ''preferred_primary_interface'' (run_ops settings_step lab_reading (snd lab_preferred)) =
      (Inr (JStr ''eno1''), snd (get_setting ''network'' ''preferred_primary_interface'' (run_ops settings_step lab_reading (snd lab_preferred))))"
    using lab_preferred_read by (simp add: prod_eq_iff)
qed

theorem global_settings_ignore_protected_witness:
  "fst (get_setting ''startup'' ''auto_start_persona'' lab_locked_out) = fst (get_setting ''startup'' ''auto_start_persona'' lab_configured)"
proof (rule global_settings_ignore_protected)
  have "unreachable lab_configured = []"
    unfolding lab_configured_def by code_simp
  then show "alike lab_configured lab_locked_out"
    by (simp add: alike_def lab_locked_out_def database_at_def)
  show "schema_by_key (setting_defs lab_configured) ''startup'' ''auto_start_persona'' = Some (SCHEMA ! 7)"
    by (rule lab_persona)
  show "sd_scope (SCHEMA ! 7) = GLOBAL"
    by (simp add: SCHEMA_def setting_of_def)
qed

text \<open>A value that is no option is refused, whatever was set before.\<close>

lemma bad_option_refused:
  "schema_by_key (setting_defs s) g k = Some d \<Longrightarrow> \<not> in_options d v \<Longrightarrow> \<exists>t. set_setting g k v s = (Inl (ValueError t), s)"
  by (simp add: set_setting_def check_value_def Let_def)

end
