(* ===== verification/WebSecurity.thy ===== *)
theory WebSecurity
  imports PyValue Machines
begin

text \<open>
  \<open>web_security.py\<close>: the headers of every response, the same-origin test of a POST, and the limiter of password attempts.
  Times are rationals, what the clock gives; \<open>math.ceil\<close> is \<^term>\<open>ceiling :: rat \<Rightarrow> int\<close>. The limiter's lock is not modelled: each
  method runs while it is held, so calls from several threads happen one after the other.
\<close>

section \<open>Headers and cookies\<close>

definition SESSION_COOKIE_ATTRS :: string where
  "SESSION_COOKIE_ATTRS = ''Path=/; HttpOnly; SameSite=Strict''"

definition CONTENT_SECURITY_POLICY :: string where
  "CONTENT_SECURITY_POLICY =
     ''default-src 'none'; script-src 'self' 'unsafe-inline'; style-src 'self' 'unsafe-inline'; '' @
     ''img-src 'self' data:; connect-src 'self'; form-action 'self'; frame-ancestors 'none'; base-uri 'none'' "

definition SECURITY_HEADERS :: "(string \<times> string) list" where
  "SECURITY_HEADERS =
     [(''Content-Security-Policy'', CONTENT_SECURITY_POLICY), (''X-Content-Type-Options'', ''nosniff''),
      (''X-Frame-Options'', ''DENY''), (''Referrer-Policy'', ''no-referrer''), (''Cache-Control'', ''no-store''),
      (''Permissions-Policy'', ''camera=(), microphone=(), geolocation=()''), (''Cross-Origin-Opener-Policy'', ''same-origin'')]"

definition session_cookie :: "string \<Rightarrow> string" where
  "session_cookie token = ''session='' @ token @ ''; '' @ SESSION_COOKIE_ATTRS"

definition clear_session_cookie :: string where
  "clear_session_cookie = ''session=; Max-Age=0; '' @ SESSION_COOKIE_ATTRS"

record response =
  rs_status :: int
  rs_headers :: "(string \<times> string) list"
  rs_body :: string

text \<open>\<open>end_headers\<close> adds the security headers to whatever a handler sends.\<close>

definition end_headers :: "int \<Rightarrow> (string \<times> string) list \<Rightarrow> string \<Rightarrow> response" where
  "end_headers status headers body = \<lparr>rs_status = status, rs_headers = headers @ SECURITY_HEADERS, rs_body = body\<rparr>"

definition reject :: "int \<Rightarrow> string \<Rightarrow> int option \<Rightarrow> response" where
  "reject status message retry_after =
     (let body = message @ [CHR 0x0A]
      in end_headers status
        ([(''Content-Type'', ''text/plain; charset=utf-8''), (''Content-Length'', str_of_int (int (length body)))] @
         (case retry_after of None \<Rightarrow> [] | Some s \<Rightarrow> [(''Retry-After'', str_of_int s)])) body)"

section \<open>The same-origin test\<close>

text \<open>
  \<open>urlparse(url).netloc\<close>: leading controls and blanks, and tabs and line ends anywhere, are dropped; a scheme is a letter
  followed by scheme characters and a colon; the network location follows \<open>//\<close> up to \<open>/\<close>, \<open>?\<close> or \<open>#\<close>. A bracket without its
  partner raises. Not modelled: the check of a bracketed address, which differs between Python versions.
\<close>

definition scheme_char :: "char \<Rightarrow> bool" where
  "scheme_char c \<longleftrightarrow> is_upper c \<or> is_lower c \<or> is_digit c \<or> c \<in> set ''+-.''"

definition url_clean :: "string \<Rightarrow> string" where
  "url_clean url = filter (\<lambda>c. c \<notin> {CHR 0x09, CHR 0x0A, CHR 0x0D}) (dropWhile (\<lambda>c. (of_char c :: nat) \<le> 32) url)"

definition drop_scheme :: "string \<Rightarrow> string" where
  "drop_scheme url =
     (let s = takeWhile (\<lambda>c. c \<noteq> CHR '':'') url
      in if s \<noteq> [] \<and> s \<noteq> url \<and> (is_upper (hd s) \<or> is_lower (hd s)) \<and> list_all scheme_char s
         then drop (Suc (length s)) url else url)"

definition netloc :: "string \<Rightarrow> exn + string" where
  "netloc url =
     (let u = drop_scheme (url_clean url);
          loc = (if starts_with u ''//'' then takeWhile (\<lambda>c. c \<notin> set ''/?#'') (drop 2 u) else [])
      in if (CHR ''['' \<in> set loc) \<noteq> (CHR '']'' \<in> set loc) then Inl (ValueError ''Invalid IPv6 URL'') else Inr loc)"

definition same_host :: "string \<Rightarrow> string option \<Rightarrow> bool" where
  "same_host url host =
     (case host of
        None \<Rightarrow> False
      | Some h \<Rightarrow> h \<noteq> [] \<and> (case netloc url of Inl e \<Rightarrow> False | Inr n \<Rightarrow> lower n = lower h))"

definition lowered :: "(string \<times> string) list \<Rightarrow> (string \<times> string) list" where
  "lowered headers = fold (\<lambda>(k, v) d. AList.update (lower k) v d) headers []"

definition origin_ok :: "(string \<times> string) list \<Rightarrow> bool \<Rightarrow> bool" where
  "origin_ok headers has_cookie =
     (let h = map_of (lowered headers) in
      case h ''origin'' of
        Some origin \<Rightarrow> origin \<noteq> ''null'' \<and> same_host origin (h ''host'')
      | None \<Rightarrow> (case h ''referer'' of
          Some referer \<Rightarrow> if referer \<noteq> [] then same_host referer (h ''host'') else \<not> has_cookie
        | None \<Rightarrow> \<not> has_cookie))"

section \<open>The limiter\<close>

record limits =
  max_failures :: nat
  window_s :: rat
  base_lock_s :: rat
  max_lock_s :: rat
  global_max_failures :: nat
  global_window_s :: rat
  global_lock_s :: rat
  max_tracked :: nat

definition default_limits :: limits where
  "default_limits = \<lparr>max_failures = 5, window_s = 900, base_lock_s = 30, max_lock_s = 900,
     global_max_failures = 60, global_window_s = 3600, global_lock_s = 300, max_tracked = 10000\<rparr>"

record client =
  fails :: "rat list"
  lock_until :: rat
  strikes :: nat
  seen :: rat

record scope_state =
  scope_fails :: "rat list"
  scope_lock_until :: rat

record limiter =
  by_key :: "((string \<times> string) \<times> client) list"
  by_scope :: "(string \<times> scope_state) list"

definition new_limiter :: limiter where
  "new_limiter = \<lparr>by_key = [], by_scope = []\<rparr>"

definition check_wait :: "limiter \<Rightarrow> string \<Rightarrow> string \<Rightarrow> rat \<Rightarrow> int" where
  "check_wait s scope client now =
     (let per = (case map_of (by_key s) (scope, client) of None \<Rightarrow> 0 | Some c \<Rightarrow> lock_until c);
          glob = (case map_of (by_scope s) scope of None \<Rightarrow> 0 | Some g \<Rightarrow> scope_lock_until g);
          wait = max per glob - now
      in if wait > 0 then \<lceil>wait\<rceil> else 0)"

definition recent :: "rat \<Rightarrow> rat \<Rightarrow> rat list \<Rightarrow> rat list" where
  "recent window now ts = filter (\<lambda>t. t > now - window) ts @ [now]"

definition client_failure :: "limits \<Rightarrow> rat \<Rightarrow> client \<Rightarrow> client" where
  "client_failure l now c =
     (let fs = recent (window_s l) now (fails c)
      in if length fs \<ge> max_failures l then
           c\<lparr>seen := now, strikes := strikes c + 1,
             lock_until := now + min (base_lock_s l * 2 ^ strikes c) (max_lock_s l), fails := []\<rparr>
         else c\<lparr>seen := now, fails := fs\<rparr>)"

definition scope_failure :: "limits \<Rightarrow> rat \<Rightarrow> scope_state \<Rightarrow> scope_state" where
  "scope_failure l now g =
     (let fs = recent (global_window_s l) now (scope_fails g)
      in if length fs \<ge> global_max_failures l then g\<lparr>scope_lock_until := now + global_lock_s l, scope_fails := []\<rparr>
         else g\<lparr>scope_fails := fs\<rparr>)"

definition is_stale :: "limits \<Rightarrow> rat \<Rightarrow> client \<Rightarrow> bool" where
  "is_stale l now c \<longleftrightarrow> lock_until c \<le> now \<and> (fails c = [] \<or> last (fails c) \<le> now - window_s l)"

definition prune :: "limits \<Rightarrow> rat \<Rightarrow> limiter \<Rightarrow> limiter" where
  "prune l now s =
     (let kept = filter (\<lambda>(k, c). \<not> is_stale l now c) (by_key s);
          oldest = take (length kept - max_tracked l) (map fst (sort_key (\<lambda>(k, c). seen c) kept))
      in s\<lparr>by_key := filter (\<lambda>(k, c). k \<notin> set oldest) kept\<rparr>)"

definition failure :: "limits \<Rightarrow> string \<Rightarrow> string \<Rightarrow> rat \<Rightarrow> limiter \<Rightarrow> limiter" where
  "failure l scope client now s =
     (let per = (case map_of (by_key s) (scope, client) of
            None \<Rightarrow> \<lparr>fails = [], lock_until = 0, strikes = 0, seen = now\<rparr> | Some c \<Rightarrow> c);
          glob = (case map_of (by_scope s) scope of
            None \<Rightarrow> \<lparr>scope_fails = [], scope_lock_until = 0\<rparr> | Some g \<Rightarrow> g);
          s' = s\<lparr>by_key := AList.update (scope, client) (client_failure l now per) (by_key s),
                 by_scope := AList.update scope (scope_failure l now glob) (by_scope s)\<rparr>
      in if length (by_key s') > max_tracked l then prune l now s' else s')"

definition success :: "string \<Rightarrow> string \<Rightarrow> limiter \<Rightarrow> limiter" where
  "success scope client s = s\<lparr>by_key := AList.delete (scope, client) (by_key s)\<rparr>"

definition tracked :: "limiter \<Rightarrow> nat" where
  "tracked s = length (by_key s)"

section \<open>A password attempt\<close>

text \<open>
  \<open>_throttled\<close> and \<open>_record_attempt\<close> around the check of a password, as the login, elevation and recovery routes use them: a
  locked client is answered 429 before the password is looked at. \<open>verify\<close> is that check.
\<close>

definition throttled :: "string \<Rightarrow> string \<Rightarrow> rat \<Rightarrow> limiter \<Rightarrow> response option" where
  "throttled scope client now s =
     (let wait = check_wait s scope client now
      in if wait \<noteq> 0 then Some (reject 429 (''Too many attempts. Try again in '' @ str_of_int wait @ '' seconds.'') (Some wait))
         else None)"

definition record_attempt :: "limits \<Rightarrow> string \<Rightarrow> string \<Rightarrow> rat \<Rightarrow> bool \<Rightarrow> limiter \<Rightarrow> limiter" where
  "record_attempt l scope client now ok s = (if ok then success scope client s else failure l scope client now s)"

definition attempt :: "limits \<Rightarrow> string \<Rightarrow> string \<Rightarrow> rat \<Rightarrow> bool \<Rightarrow> limiter \<Rightarrow> (response + bool) \<times> limiter" where
  "attempt l scope client now verify s =
     (case throttled scope client now s of
        Some r \<Rightarrow> (Inl r, s)
      | None \<Rightarrow> (Inr verify, record_attempt l scope client now verify s))"

section \<open>Runs of attempts\<close>

record guess =
  guess_scope :: string
  guess_client :: string
  guess_time :: rat
  guess_right :: bool

fun run_tries :: "limits \<Rightarrow> guess list \<Rightarrow> limiter \<Rightarrow> limiter" where
  "run_tries l [] s = s"
| "run_tries l (a # rest) s = run_tries l rest (snd (attempt l (guess_scope a) (guess_client a) (guess_time a) (guess_right a) s))"

text \<open>How many wrong passwords of a scope are looked at in a run.\<close>

fun wrong_guesses :: "limits \<Rightarrow> string \<Rightarrow> guess list \<Rightarrow> limiter \<Rightarrow> nat" where
  "wrong_guesses l sc [] s = 0"
| "wrong_guesses l sc (a # rest) s =
     (let (r, s') = attempt l (guess_scope a) (guess_client a) (guess_time a) (guess_right a) s
      in (if guess_scope a = sc \<and> r = Inr False then 1 else 0) + wrong_guesses l sc rest s')"

definition in_order :: "rat \<Rightarrow> guess list \<Rightarrow> rat \<Rightarrow> bool" where
  "in_order start tries end_time \<longleftrightarrow> sorted (start # map guess_time tries @ [end_time])"

definition limits_ok :: "limits \<Rightarrow> bool" where
  "limits_ok l \<longleftrightarrow> 0 \<le> window_s l \<and> 0 \<le> max_lock_s l \<and> 0 \<le> global_lock_s l \<and> 0 < global_max_failures l"

lemma default_limits_ok: "limits_ok default_limits"
  by (simp add: limits_ok_def default_limits_def)

text \<open>
  The invariant of the limiter at time \<open>T\<close>: no more clients than allowed, no lock that ends later than its longest length from now,
  and fewer failures of a scope on record than lock it.
\<close>

definition limiter_ok :: "limits \<Rightarrow> rat \<Rightarrow> limiter \<Rightarrow> bool" where
  "limiter_ok l T s \<longleftrightarrow> distinct (map fst (by_key s)) \<and> length (by_key s) \<le> max_tracked l \<and>
     (\<forall>(k, c) \<in> set (by_key s). lock_until c \<le> T + max_lock_s l) \<and>
     (\<forall>(k, g) \<in> set (by_scope s). scope_lock_until g \<le> T + global_lock_s l \<and> length (scope_fails g) < global_max_failures l)"

lemma limiter_ok_new: "limiter_ok l T new_limiter"
  by (simp add: limiter_ok_def new_limiter_def)

lemma limiter_ok_later: "limiter_ok l T s \<Longrightarrow> T \<le> T' \<Longrightarrow> limiter_ok l T' s"
  by (fastforce simp: limiter_ok_def)

lemma set_delete: "set (AList.delete k xs) \<subseteq> set xs"
  by (simp add: AList.delete_eq)

lemma length_delete: "length (AList.delete k xs) \<le> length xs"
  by (simp add: AList.delete_eq)

lemma success_ok: "limiter_ok l T s \<Longrightarrow> limiter_ok l T (success scope client s)"
  using set_delete [of "(scope, client)" "by_key s"] length_delete [of "(scope, client)" "by_key s"] distinct_delete [of "by_key s" "(scope, client)"]
  by (fastforce simp: limiter_ok_def success_def)

lemma client_failure_lock:
  "0 \<le> max_lock_s l \<Longrightarrow> lock_until c \<le> now + max_lock_s l \<Longrightarrow> lock_until (client_failure l now c) \<le> now + max_lock_s l"
  by (simp add: client_failure_def Let_def)

lemma scope_failure_ok:
  "0 < global_max_failures l \<Longrightarrow> 0 \<le> global_lock_s l \<Longrightarrow> scope_lock_until g \<le> now + global_lock_s l \<Longrightarrow>
     scope_lock_until (scope_failure l now g) \<le> now + global_lock_s l \<and> length (scope_fails (scope_failure l now g)) < global_max_failures l"
  by (simp add: scope_failure_def Let_def)

text \<open>Pruning leaves at most the allowed number of clients, of those that were there.\<close>

lemma prune_by_scope [simp]: "by_scope (prune l now s) = by_scope s"
  by (simp add: prune_def Let_def)

lemma prune_subset: "set (by_key (prune l now s)) \<subseteq> set (by_key s)"
  by (auto simp: prune_def Let_def)

lemma prune_length:
  assumes "distinct (map fst (by_key s))"
  shows "length (by_key (prune l now s)) \<le> max_tracked l"
proof -
  define kept where "kept = filter (\<lambda>(k, c). \<not> is_stale l now c) (by_key s)"
  define oldest where "oldest = take (length kept - max_tracked l) (map fst (sort_key (\<lambda>(k, c). seen c) kept))"
  have d: "distinct (map fst kept)"
    using assms unfolding kept_def by (rule distinct_map_filter)
  then have "distinct (map fst (sort_key (\<lambda>(k, c). seen c) kept))"
    by (metis distinct_map distinct_sort set_sort)
  then have old: "distinct oldest" "length oldest = length kept - max_tracked l"
    by (simp_all add: oldest_def)
  have sub: "set oldest \<subseteq> set (map fst kept)"
    using set_take_subset [of "length kept - max_tracked l" "map fst (sort_key (\<lambda>(k, c). seen c) kept)"]
    by (auto simp: oldest_def)
  have "length (filter (\<lambda>(k, c). k \<notin> set oldest) kept) = length (map fst (filter (\<lambda>(k, c). k \<notin> set oldest) kept))"
    by simp
  also have "\<dots> = length (filter (\<lambda>k. k \<notin> set oldest) (map fst kept))"
    by (simp add: filter_map comp_def case_prod_unfold)
  also have "\<dots> = card (set (filter (\<lambda>k. k \<notin> set oldest) (map fst kept)))"
    by (rule distinct_card [symmetric]) (rule distinct_filter [OF d])
  also have "set (filter (\<lambda>k. k \<notin> set oldest) (map fst kept)) = set (map fst kept) - set oldest"
    by auto
  also have "card \<dots> = card (set (map fst kept)) - card (set oldest)"
    by (rule card_Diff_subset [OF finite_set sub])
  also have "\<dots> = length kept - length oldest"
    using distinct_card [OF d] distinct_card [OF old(1)] by simp
  finally show ?thesis
    using old(2) by (simp add: prune_def Let_def kept_def [symmetric] oldest_def [symmetric])
qed

lemma prune_distinct: "distinct (map fst (by_key s)) \<Longrightarrow> distinct (map fst (by_key (prune l now s)))"
  by (simp add: prune_def Let_def distinct_map_filter)

lemma failure_ok:
  assumes l: "limits_ok l" and ok: "limiter_ok l now s" and now: "0 \<le> now"
  shows "limiter_ok l now (failure l scope client now s)"
proof -
  define per where "per = (case map_of (by_key s) (scope, client) of
      None \<Rightarrow> \<lparr>fails = [], lock_until = 0, strikes = 0, seen = now\<rparr> | Some c \<Rightarrow> c)"
  define glob where "glob = (case map_of (by_scope s) scope of None \<Rightarrow> \<lparr>scope_fails = [], scope_lock_until = 0\<rparr> | Some g \<Rightarrow> g)"
  define s' where "s' = s\<lparr>by_key := AList.update (scope, client) (client_failure l now per) (by_key s),
      by_scope := AList.update scope (scope_failure l now glob) (by_scope s)\<rparr>"
  have lim: "0 \<le> max_lock_s l" "0 \<le> global_lock_s l" "0 < global_max_failures l"
    using l by (simp_all add: limits_ok_def)
  have "lock_until per \<le> now + max_lock_s l"
    using ok now lim by (auto simp: per_def limiter_ok_def split: option.split dest!: map_of_SomeD)
  then have c: "lock_until (client_failure l now per) \<le> now + max_lock_s l"
    by (rule client_failure_lock [OF lim(1)])
  have "scope_lock_until glob \<le> now + global_lock_s l"
    using ok now lim by (auto simp: glob_def limiter_ok_def split: option.split dest!: map_of_SomeD)
  then have g: "scope_lock_until (scope_failure l now glob) \<le> now + global_lock_s l \<and>
      length (scope_fails (scope_failure l now glob)) < global_max_failures l"
    by (rule scope_failure_ok [OF lim(3,2)])
  have keys: "\<forall>(k, c) \<in> set (by_key s'). lock_until c \<le> now + max_lock_s l"
    using c ok set_update_subset [of "(scope, client)" "client_failure l now per" "by_key s"] by (auto simp: s'_def limiter_ok_def)
  have scopes: "\<forall>(k, g) \<in> set (by_scope s'). scope_lock_until g \<le> now + global_lock_s l \<and> length (scope_fails g) < global_max_failures l"
    using g ok set_update_subset [of scope "scope_failure l now glob" "by_scope s"] by (auto simp: s'_def limiter_ok_def)
  have d: "distinct (map fst (by_key s'))"
    using ok by (simp add: s'_def limiter_ok_def distinct_update)
  have "failure l scope client now s = (if length (by_key s') > max_tracked l then prune l now s' else s')"
    by (simp add: failure_def per_def glob_def s'_def Let_def)
  then show ?thesis
    using keys scopes d prune_subset [of l now s'] prune_length [OF d, of l now] prune_distinct [OF d, of l now]
    by (auto simp: limiter_ok_def)
qed

lemma attempt_ok:
  assumes "limits_ok l" "limiter_ok l now s" "0 \<le> now"
  shows "limiter_ok l now (snd (attempt l scope client now ok s))"
  using assms by (auto simp: attempt_def record_attempt_def success_ok failure_ok split: option.split)

lemma in_order_Cons:
  "in_order start (a # tries) end_time \<longleftrightarrow> start \<le> guess_time a \<and> in_order (guess_time a) tries end_time"
  by (auto simp: in_order_def)

lemma run_tries_ok:
  "limits_ok l \<Longrightarrow> limiter_ok l start s \<Longrightarrow> 0 \<le> start \<Longrightarrow> in_order start tries end_time \<Longrightarrow>
     limiter_ok l end_time (run_tries l tries s)"
proof (induction tries arbitrary: s start)
  case Nil
  then show ?case by (simp add: in_order_def limiter_ok_later)
next
  case (Cons a tries)
  then have t: "start \<le> guess_time a" "in_order (guess_time a) tries end_time" "0 \<le> guess_time a"
    by (simp_all add: in_order_Cons)
  have "limiter_ok l (guess_time a) (snd (attempt l (guess_scope a) (guess_client a) (guess_time a) (guess_right a) s))"
    by (rule attempt_ok [OF Cons.prems(1) limiter_ok_later [OF Cons.prems(2) t(1)] t(3)])
  then show ?case using Cons.IH Cons.prems(1) t by simp
qed

text \<open>
  Whatever attempts were made, in the order of their times, at no time is a client told to wait longer than the longer of the two
  maximal lock times, and no more clients are remembered than allowed.
\<close>
theorem lockouts_are_bounded:
  assumes "limits_ok l" "in_order 0 tries now"
  shows "check_wait (run_tries l tries new_limiter) scope client now \<le> \<lceil>max (max_lock_s l) (global_lock_s l)\<rceil> \<and>
    tracked (run_tries l tries new_limiter) \<le> max_tracked l"
proof -
  let ?s = "run_tries l tries new_limiter"
  have ok: "limiter_ok l now ?s"
    by (rule run_tries_ok [OF assms(1) limiter_ok_new _ assms(2)]) simp
  have now: "0 \<le> now" using assms(2) by (simp add: in_order_def)
  have m: "0 \<le> max_lock_s l" "0 \<le> global_lock_s l"
    using assms(1) by (simp_all add: limits_ok_def)
  have "(case map_of (by_key ?s) (scope, client) of None \<Rightarrow> 0 | Some c \<Rightarrow> lock_until c) \<le> now + max_lock_s l"
    using ok now m by (auto simp: limiter_ok_def split: option.split dest!: map_of_SomeD)
  moreover have "(case map_of (by_scope ?s) scope of None \<Rightarrow> 0 | Some g \<Rightarrow> scope_lock_until g) \<le> now + global_lock_s l"
    using ok now m by (auto simp: limiter_ok_def split: option.split dest!: map_of_SomeD)
  ultimately have "max (case map_of (by_key ?s) (scope, client) of None \<Rightarrow> 0 | Some c \<Rightarrow> lock_until c)
      (case map_of (by_scope ?s) scope of None \<Rightarrow> 0 | Some g \<Rightarrow> scope_lock_until g) - now \<le> max (max_lock_s l) (global_lock_s l)"
    by (auto simp: max_def)
  then have "check_wait ?s scope client now \<le> \<lceil>max (max_lock_s l) (global_lock_s l)\<rceil>"
    using m by (auto simp: check_wait_def Let_def intro: ceiling_mono le_ceiling_iff [THEN iffD2])
  then show ?thesis
    using ok by (simp add: tracked_def limiter_ok_def)
qed

section \<open>How many passwords can be guessed\<close>

definition on_record :: "rat \<Rightarrow> string \<Rightarrow> limiter \<Rightarrow> nat" where
  "on_record a sc s = (case map_of (by_scope s) sc of None \<Rightarrow> 0 | Some g \<Rightarrow> length (filter (\<lambda>t. a \<le> t) (scope_fails g)))"

definition locked_past :: "rat \<Rightarrow> string \<Rightarrow> limiter \<Rightarrow> bool" where
  "locked_past b sc s \<longleftrightarrow> (\<exists>g. map_of (by_scope s) sc = Some g \<and> b < scope_lock_until g)"

lemma wrong_guesses_Cons [simp]:
  "wrong_guesses l sc (a # rest) s =
     (if guess_scope a = sc \<and> fst (attempt l (guess_scope a) (guess_client a) (guess_time a) (guess_right a) s) = Inr False then 1 else 0) +
     wrong_guesses l sc rest (snd (attempt l (guess_scope a) (guess_client a) (guess_time a) (guess_right a) s))"
  by (simp add: Let_def case_prod_unfold)

declare wrong_guesses.simps(2) [simp del]

lemma locked_waits:
  assumes "locked_past now sc s"
  shows "check_wait s sc client now \<noteq> 0"
proof -
  obtain g where g: "map_of (by_scope s) sc = Some g" "now < scope_lock_until g"
    using assms by (auto simp: locked_past_def)
  define w where "w = max (case map_of (by_key s) (sc, client) of None \<Rightarrow> 0 | Some c \<Rightarrow> lock_until c) (scope_lock_until g) - now"
  have "0 < w" using g(2) by (simp add: w_def less_max_iff_disj)
  moreover have "check_wait s sc client now = (if 0 < w then \<lceil>w\<rceil> else 0)"
    by (simp add: check_wait_def Let_def g(1) w_def)
  ultimately show ?thesis by (metis less_irrefl zero_less_ceiling)
qed

lemma attempt_locked: "locked_past now sc s \<Longrightarrow> \<exists>r. attempt l sc client now ok s = (Inl r, s)"
  using locked_waits by (simp add: attempt_def throttled_def Let_def)

lemma failure_scope: "by_scope (failure l sc client now s) = AList.update sc (scope_failure l now
    (case map_of (by_scope s) sc of None \<Rightarrow> \<lparr>scope_fails = [], scope_lock_until = 0\<rparr> | Some g \<Rightarrow> g)) (by_scope s)"
  by (simp add: failure_def Let_def)

lemma attempt_other_scope: "sc' \<noteq> sc \<Longrightarrow> map_of (by_scope (snd (attempt l sc' client now ok s))) sc = map_of (by_scope s) sc"
  by (simp add: attempt_def record_attempt_def success_def failure_scope update_conv' split: option.split)

lemma attempt_cases:
  obtains (refused) r where "attempt l sc client now ok s = (Inl r, s)"
    | (right) "ok" "attempt l sc client now ok s = (Inr True, success sc client s)"
    | (wrong) "\<not> ok" "attempt l sc client now ok s = (Inr False, failure l sc client now s)"
  by (cases "throttled sc client now s"; cases ok) (auto simp: attempt_def record_attempt_def)

lemma no_guess_when_locked:
  "locked_past b sc s \<Longrightarrow> in_order start tries b \<Longrightarrow> wrong_guesses l sc tries s = 0"
proof (induction tries arbitrary: s start)
  case (Cons a tries)
  then have t: "in_order (guess_time a) tries b" "guess_time a \<le> b"
    by (auto simp: in_order_def)
  show ?case
  proof (cases "guess_scope a = sc")
    case True
    have "locked_past (guess_time a) sc s"
      using Cons.prems(1) t(2) by (auto simp: locked_past_def)
    then obtain r where "attempt l sc (guess_client a) (guess_time a) (guess_right a) s = (Inl r, s)"
      using attempt_locked by blast
    then show ?thesis using Cons.IH [OF Cons.prems(1) t(1)] True by simp
  next
    case False
    let ?s = "snd (attempt l (guess_scope a) (guess_client a) (guess_time a) (guess_right a) s)"
    have "locked_past b sc ?s"
      using Cons.prems(1) by (simp add: locked_past_def attempt_other_scope [OF False])
    then show ?thesis using Cons.IH [OF _ t(1)] False by simp
  qed
qed simp

text \<open>A wrong guess either locks the scope for longer than the period, or is one more on record.\<close>

lemma wrong_counts:
  assumes t: "a \<le> t" "t \<le> b" "b - a < global_window_s l" "b - a < global_lock_s l" and few: "on_record a sc s < global_max_failures l"
  shows "locked_past b sc (failure l sc client t s) \<or>
    on_record a sc (failure l sc client t s) = Suc (on_record a sc s) \<and> on_record a sc (failure l sc client t s) < global_max_failures l"
proof -
  define g where "g = (case map_of (by_scope s) sc of None \<Rightarrow> \<lparr>scope_fails = [], scope_lock_until = 0\<rparr> | Some g \<Rightarrow> g)"
  define fs where "fs = recent (global_window_s l) t (scope_fails g)"
  have at: "map_of (by_scope (failure l sc client t s)) sc = Some (scope_failure l t g)"
    by (simp add: failure_scope update_conv' g_def)
  have "on_record a sc s = length (filter (\<lambda>x. a \<le> x) (scope_fails g))"
    by (simp add: on_record_def g_def split: option.split)
  moreover have "filter (\<lambda>x. a \<le> x) fs = filter (\<lambda>x. a \<le> x) (scope_fails g) @ [t]"
    using t unfolding fs_def recent_def by (auto intro!: filter_cong)
  ultimately have n: "length (filter (\<lambda>x. a \<le> x) fs) = Suc (on_record a sc s)"
    by simp
  show ?thesis
  proof (cases "global_max_failures l \<le> length fs")
    case True
    then have "scope_lock_until (scope_failure l t g) = t + global_lock_s l"
      by (simp add: scope_failure_def Let_def fs_def)
    then show ?thesis using at t by (auto simp: locked_past_def)
  next
    case False
    then have "scope_fails (scope_failure l t g) = fs"
      by (simp add: scope_failure_def Let_def fs_def)
    then have "on_record a sc (failure l sc client t s) = Suc (on_record a sc s)"
      using at n by (simp add: on_record_def)
    moreover have "Suc (on_record a sc s) < global_max_failures l"
      using False n length_filter_le [of "\<lambda>x. a \<le> x" fs] by simp
    ultimately show ?thesis by simp
  qed
qed

lemma guesses_in_period:
  assumes "a \<le> start" "in_order start tries b" "b - a < global_window_s l" "b - a < global_lock_s l"
    and "on_record a sc s < global_max_failures l"
  shows "wrong_guesses l sc tries s + on_record a sc s \<le> global_max_failures l"
  using assms
proof (induction tries arbitrary: s start)
  case (Cons g tries)
  then have t: "in_order (guess_time g) tries b" "a \<le> guess_time g" "guess_time g \<le> b"
    by (auto simp: in_order_def)
  let ?s = "snd (attempt l (guess_scope g) (guess_client g) (guess_time g) (guess_right g) s)"
  have rest: "wrong_guesses l sc tries s' + on_record a sc s' \<le> global_max_failures l"
    if "on_record a sc s' < global_max_failures l" for s'
    using Cons.IH [OF t(2) t(1) Cons.prems(3,4) that] .
  show ?case
  proof (cases "guess_scope g = sc")
    case False
    then have "on_record a sc ?s = on_record a sc s"
      by (simp add: on_record_def attempt_other_scope)
    then show ?thesis using rest [of ?s] Cons.prems(5) False by simp
  next
    case True
    show ?thesis
    proof (cases rule: attempt_cases [of l sc "guess_client g" "guess_time g" "guess_right g" s])
      case (refused r)
      then show ?thesis using rest [of s] Cons.prems(5) True by simp
    next
      case right
      have "on_record a sc (success sc (guess_client g) s) = on_record a sc s"
        by (simp add: on_record_def success_def)
      then show ?thesis using rest [of "success sc (guess_client g) s"] Cons.prems(5) True right(2) by simp
    next
      case wrong
      let ?f = "failure l sc (guess_client g) (guess_time g) s"
      have "wrong_guesses l sc tries ?f + Suc (on_record a sc s) \<le> global_max_failures l"
        using wrong_counts [OF t(2,3) Cons.prems(3,4,5), of "guess_client g"]
      proof
        assume "locked_past b sc ?f"
        then show ?thesis using no_guess_when_locked [OF _ t(1)] Cons.prems(5) by simp
      next
        assume "on_record a sc ?f = Suc (on_record a sc s) \<and> on_record a sc ?f < global_max_failures l"
        then show ?thesis using rest [of ?f] by simp
      qed
      then show ?thesis using True wrong(2) by simp
    qed
  qed
qed simp

text \<open>
  C34. From however many addresses, in any period shorter than the lock of the scope and than its window at most
  \<open>global_max_failures\<close> wrong passwords of the scope are looked at, whatever was tried before.
\<close>
theorem guesses_are_bounded:
  assumes "limits_ok l" "in_order 0 earlier a" "in_order a tries b"
    and "b - a < global_window_s l" "b - a < global_lock_s l"
  shows "wrong_guesses l scope tries (run_tries l earlier new_limiter) \<le> global_max_failures l"
proof -
  let ?s = "run_tries l earlier new_limiter"
  have "limiter_ok l a ?s"
    by (rule run_tries_ok [OF assms(1) limiter_ok_new _ assms(2)]) simp
  then have "length (scope_fails g) < global_max_failures l" if "map_of (by_scope ?s) scope = Some g" for g
    using that by (auto simp: limiter_ok_def dest!: map_of_SomeD)
  then have "on_record a scope ?s < global_max_failures l"
    using assms(1) by (auto simp: on_record_def limits_ok_def split: option.split intro: le_less_trans [OF length_filter_le])
  then show ?thesis
    using guesses_in_period [OF order_refl assms(3,4,5)] by fastforce
qed

text \<open>A locked client is refused before its password is looked at, the right one included, and nothing is recorded.\<close>

lemma locked_right_password_refused:
  "check_wait s scope client now \<noteq> 0 \<Longrightarrow> attempt l scope client now True s = attempt l scope client now False s \<and>
     snd (attempt l scope client now True s) = s"
  by (simp add: attempt_def throttled_def Let_def)

text \<open>Five wrong passwords lock a client for thirty seconds; a right one before the fifth starts the count again.\<close>

definition guesses_at :: "string \<Rightarrow> rat list \<Rightarrow> guess list" where
  "guesses_at client ts = map (\<lambda>t. \<lparr>guess_scope = ''login'', guess_client = client, guess_time = t, guess_right = False\<rparr>) ts"

definition five_wrong :: "guess list" where
  "five_wrong = guesses_at ''192.168.1.7'' [10, 11, 12, 13, 14]"

lemma five_wrong_lock:
  "check_wait (run_tries default_limits five_wrong new_limiter) ''login'' ''192.168.1.7'' 14 = 30"
  by (simp add: five_wrong_def guesses_at_def attempt_def throttled_def check_wait_def record_attempt_def failure_def
      client_failure_def scope_failure_def recent_def default_limits_def new_limiter_def Let_def)

theorem lockouts_are_bounded_witness:
  "check_wait (run_tries default_limits five_wrong new_limiter) ''login'' ''192.168.1.7'' 14 \<le>
     \<lceil>max (max_lock_s default_limits) (global_lock_s default_limits)\<rceil> \<and>
   tracked (run_tries default_limits five_wrong new_limiter) \<le> max_tracked default_limits"
  by (rule lockouts_are_bounded [OF default_limits_ok]) (simp add: in_order_def five_wrong_def guesses_at_def)

theorem guesses_are_bounded_witness:
  "wrong_guesses default_limits ''login'' (guesses_at ''192.168.1.8'' [20, 21]) (run_tries default_limits five_wrong new_limiter)
     \<le> global_max_failures default_limits"
  by (rule guesses_are_bounded [OF default_limits_ok, where a = 14 and b = 30])
    (simp_all add: in_order_def five_wrong_def guesses_at_def default_limits_def)

end
