(* ===== verification/Lifeline.thy ===== *)
theory Lifeline
  imports Registry IpAddress RepairPipeline
begin

text \<open>
  \<open>network.py\<close>: the inventory of network interfaces, the operator's names for them, and the lifeline check. The module
  reads \<open>/sys\<close> and runs commands itself, not through the runner: the machine it looks at is the record \<open>netsys\<close>, one
  function per kind of access, about which nothing is assumed. A command that is missing or runs into its time limit
  (\<open>FileNotFoundError\<close>, \<open>TimeoutExpired\<close>) gives the text of that exception instead of a process. The interface names live
  in the registry.

  Main fact: the facts a check reports follow one another. Only the last one can have failed, and they are the first ones
  of the fixed sequence.
\<close>

record 'm netsys =
  ns_run :: "string list \<Rightarrow> ('m, string + proc) act"
  ns_exists :: "string \<Rightarrow> ('m, bool) act"
  ns_names :: "string \<Rightarrow> ('m, string list) act"
  ns_text :: "string \<Rightarrow> ('m, string) act"
  ns_resolved_name :: "string \<Rightarrow> ('m, string) act"
  ns_tcp :: "string \<Rightarrow> int \<Rightarrow> ('m, string option) act"
  ns_host :: "string \<Rightarrow> ('m, string + string) act"
  ns_mkdir :: "string \<Rightarrow> ('m, unit) act"
  ns_append :: "string \<Rightarrow> string \<Rightarrow> ('m, unit) act"
  ns_stamp :: "('m, string) act"

text \<open>\<open>except OSError\<close>.\<close>
definition or_os_error :: "('m, 'a) act \<Rightarrow> 'a \<Rightarrow> ('m, 'a) act" where
  "or_os_error m x = act_catch m (\<lambda>e. case e of OSError _ \<Rightarrow> act_ret x | _ \<Rightarrow> act_raise e)"

text \<open>\<open>parts[parts.index(w) + 1]\<close>, where \<open>w\<close> is among the parts.\<close>
definition word_after :: "string \<Rightarrow> string list \<Rightarrow> exn + string" where
  "word_after w parts =
     (case dropWhile (\<lambda>p. p \<noteq> w) parts of
        _ # x # _ \<Rightarrow> Inr x
      | _ \<Rightarrow> Inl (IndexError ''list index out of range''))"

definition NET_DIR :: string where "NET_DIR = ''/sys/class/net''"
definition net_path :: "string \<Rightarrow> string \<Rightarrow> string" where
  "net_path ifname rest = NET_DIR @ ''/'' @ ifname @ ''/'' @ rest"

section \<open>Interfaces\<close>

definition NET_EVENT_LOG :: string where "NET_EVENT_LOG = ''/var/log/baseline/network.events.jsonl''"
definition LLM_PROBE_HOST :: string where "LLM_PROBE_HOST = ''api.anthropic.com''"
definition LLM_PROBE_PORT :: int where "LLM_PROBE_PORT = 443"
definition INTERNET_PROBE_HOST :: string where "INTERNET_PROBE_HOST = ''1.1.1.1''"
definition INTERNET_PROBE_PORT :: int where "INTERNET_PROBE_PORT = 53"

definition log_net :: "'m netsys \<Rightarrow> string \<Rightarrow> string \<Rightarrow> string \<Rightarrow> ('m, unit) act" where
  "log_net sys step status detail =
     act_seq (ns_mkdir sys ''/var/log/baseline'')
     (act_bind (ns_stamp sys) (\<lambda>ts.
      ns_append sys NET_EVENT_LOG (json_dumps default_style (JObj [(''ts'', JStr ts), (''component'', JStr ''network''),
        (''step'', JStr step), (''status'', JStr status), (''detail'', JStr detail)]) @ [CHR 0x0A])))"

fun physical_of :: "'m netsys \<Rightarrow> string list \<Rightarrow> ('m, string list) act" where
  "physical_of sys [] = act_ret []"
| "physical_of sys (n # ns) =
     (if n = ''lo'' then physical_of sys ns
      else act_bind (ns_exists sys (net_path n ''bridge'')) (\<lambda>bridge.
        if bridge then physical_of sys ns
        else act_bind (ns_exists sys (net_path n ''device'')) (\<lambda>device.
          act_bind (physical_of sys ns) (\<lambda>rest. act_ret (if device then n # rest else rest)))))"

definition physical_nics :: "'m netsys \<Rightarrow> ('m, string list) act" where
  "physical_nics sys =
     act_bind (ns_exists sys NET_DIR) (\<lambda>there.
     if \<not> there then act_ret []
     else act_bind (ns_names sys NET_DIR) (\<lambda>names. physical_of sys (sort_strs names)))"

definition FRIENDLY_DRIVERS :: "(string \<times> string) list" where
  "FRIENDLY_DRIVERS =
     [(''r8152'', ''Ethernet (USB/dock)''), (''r8169'', ''Ethernet''), (''r8168'', ''Ethernet''),
      (''e1000e'', ''Ethernet''), (''igb'', ''Ethernet''), (''tg3'', ''Ethernet''), (''bnx2'', ''Ethernet''),
      (''iwlwifi'', ''Wi-Fi''), (''ath9k'', ''Wi-Fi''), (''ath10k_pci'', ''Wi-Fi''), (''rtl8xxxu'', ''Wi-Fi''),
      (''ipheth'', ''Phone Tether (iPhone)''), (''rndis_host'', ''Phone Tether (Android)''),
      (''cdc_ether'', ''Phone Tether''), (''cdc_ncm'', ''Phone Tether''),
      (''cdc_mbim'', ''Cellular Modem''), (''qmi_wwan'', ''Cellular Modem''), (''cdc_wdm'', ''Cellular Modem'')]"

definition WIRED_DRIVERS :: "string list" where
  "WIRED_DRIVERS = [''r8152'', ''r8169'', ''r8168'', ''e1000e'', ''igb'', ''tg3'', ''bnx2'']"

definition is_wired :: "'m netsys \<Rightarrow> string \<Rightarrow> ('m, bool) act" where
  "is_wired sys ifname =
     or_os_error (act_bind (ns_resolved_name sys (net_path ifname ''device/driver'')) (\<lambda>d. act_ret (d \<in> set WIRED_DRIVERS))) False"

definition carrier :: "'m netsys \<Rightarrow> string \<Rightarrow> ('m, bool option) act" where
  "carrier sys ifname =
     or_os_error (act_bind (ns_text sys (net_path ifname ''carrier'')) (\<lambda>t. act_ret (Some (strip t = ''1'')))) None"

section \<open>The operator's names\<close>

definition ALIASES_TYPE_ID :: string where "ALIASES_TYPE_ID = ''network_aliases''"

definition load_aliases :: "('x registry_scheme, (string \<times> json) list) act" where
  "load_aliases =
     act_bind (list_entries ALIASES_TYPE_ID PROTECTED) (\<lambda>es.
     act_ret (map (\<lambda>(n, e). (n, stored_value e)) (filter (\<lambda>(n, e). truthy (stored_value e)) es)))"

definition save_alias :: "string \<Rightarrow> string \<Rightarrow> ('x registry_scheme, unit) act" where
  "save_alias ifname alias =
     act_seq (register_type ALIASES_TYPE_ID ''Operator-chosen interface display names (network.py)'' PROTECTED)
     (act_seq (upsert_entry ALIASES_TYPE_ID ifname (JObj []) PROTECTED JNull)
       (set_value ALIASES_TYPE_ID ifname (if strip alias \<noteq> [] then JStr (strip alias) else JNull) PROTECTED))"

text \<open>\<open>friendly_name\<close> over the aliases read before.\<close>
definition friendly_name :: "'m netsys \<Rightarrow> (string \<times> json) list \<Rightarrow> string \<Rightarrow> bool \<Rightarrow> ('m, string) act" where
  "friendly_name sys aliases ifname show_hardware_id =
     act_bind (case map_of aliases ifname of
                 Some v \<Rightarrow> act_ret (Some (json_str v))
               | None \<Rightarrow> or_os_error (act_bind (ns_resolved_name sys (net_path ifname ''device/driver''))
                           (\<lambda>d. act_ret (map_of FRIENDLY_DRIVERS d))) None) (\<lambda>found.
     act_bind (case found of
                 Some l \<Rightarrow> act_ret l
               | None \<Rightarrow> act_bind (ns_exists sys (net_path ifname ''bridge'')) (\<lambda>b.
                   act_ret (if b then ''Bridge'' else ifname))) (\<lambda>label.
     act_ret (if show_hardware_id \<and> label \<noteq> ifname then label @ '' ('' @ ifname @ '')'' else label)))"

text \<open>Every physical NIC with its driver-bound and carrier state.\<close>
definition describe_nic :: "'m netsys \<Rightarrow> (string \<times> json) list \<Rightarrow> string \<Rightarrow> ('m, json) act" where
  "describe_nic sys aliases n =
     act_bind (friendly_name sys aliases n False) (\<lambda>friendly.
     act_bind (ns_exists sys (net_path n ''device/driver'')) (\<lambda>bound.
     act_bind (carrier sys n) (\<lambda>c.
     act_bind (is_wired sys n) (\<lambda>wired.
     act_ret (JObj [(''name'', JStr n), (''friendly'', JStr friendly), (''driver_bound'', JBool bound),
       (''carrier'', JBool (c = Some True)), (''wired'', JBool wired)])))))"

definition list_interfaces :: "'m netsys \<Rightarrow> (string \<times> json) list \<Rightarrow> ('m, json list) act" where
  "list_interfaces sys aliases = act_bind (physical_nics sys) (act_map (describe_nic sys aliases))"

section \<open>The route in use\<close>

definition bridge_members :: "'m netsys \<Rightarrow> string \<Rightarrow> ('m, string list) act" where
  "bridge_members sys br = or_os_error (ns_names sys (net_path br ''brif'')) []"

definition route_dev_is_live :: "'m netsys \<Rightarrow> string \<Rightarrow> string list \<Rightarrow> ('m, bool) act" where
  "route_dev_is_live sys dev up_nics =
     (if dev \<in> set up_nics then act_ret True
      else act_bind (bridge_members sys dev) (\<lambda>ms. act_ret (list_ex (\<lambda>m. m \<in> set up_nics) ms)))"

fun default_routes :: "string list \<Rightarrow> exn + (string \<times> string) list" where
  "default_routes [] = Inr []"
| "default_routes (line # rest) =
     (let parts = split_ws line in
      if ''via'' \<in> set parts \<and> ''dev'' \<in> set parts then
        (case (word_after ''via'' parts, word_after ''dev'' parts) of
           (Inl e, _) \<Rightarrow> Inl e
         | (Inr gw, Inl e) \<Rightarrow> Inl e
         | (Inr gw, Inr dev) \<Rightarrow>
             (case default_routes rest of Inl e \<Rightarrow> Inl e | Inr rs \<Rightarrow> Inr ((gw, dev) # rs)))
      else default_routes rest)"

fun first_live :: "'m netsys \<Rightarrow> string list \<Rightarrow> (string \<times> string) list \<Rightarrow> ('m, (string \<times> string) option) act" where
  "first_live sys up_nics [] = act_ret None"
| "first_live sys up_nics ((gw, dev) # rest) =
     act_bind (route_dev_is_live sys dev up_nics) (\<lambda>live. if live then act_ret (Some (gw, dev)) else first_live sys up_nics rest)"

text \<open>The gateway and the device: of a live route, else of the first one.\<close>
definition route_default :: "'m netsys \<Rightarrow> string list \<Rightarrow> ('m, (string \<times> string) option) act" where
  "route_default sys up_nics =
     act_bind (ns_run sys [''ip'', ''-4'', ''route'', ''show'', ''default'']) (\<lambda>r.
     case r of
       Inl _ \<Rightarrow> act_ret None
     | Inr p \<Rightarrow>
         act_bind (act_lift (default_routes (splitlines (stdout p)))) (\<lambda>routes.
         if routes = [] then act_ret None
         else act_bind (first_live sys up_nics routes) (\<lambda>live.
           act_ret (Some (case live of Some x \<Rightarrow> x | None \<Rightarrow> hd routes)))))"

text \<open>\<open>str(ipaddress.ip_interface(cidr).ip)\<close>\<close>
definition interface_ip :: "string \<Rightarrow> exn + string" where
  "interface_ip cidr =
     (case split_netmask cidr of
        None \<Rightarrow> Inl (ValueError (py_repr cidr @ '' does not appear to be an IPv4 or IPv6 interface''))
      | Some (a, m) \<Rightarrow>
          (case (ipv4_int a, case m of None \<Rightarrow> Some 32 | Some p \<Rightarrow> ipv4_prefix p) of
             (Some w, Some n) \<Rightarrow> Inr (ipv4_text w)
           | _ \<Rightarrow>
               (case (split_scope a, case m of None \<Rightarrow> Some 128 | Some p \<Rightarrow> prefix_digits 128 p) of
                  (Some (b, scope), Some n) \<Rightarrow>
                    (case ipv6_int b of
                       Some w \<Rightarrow> Inr (scoped_text w scope)
                     | None \<Rightarrow> Inl (ValueError (py_repr cidr @ '' does not appear to be an IPv4 or IPv6 interface'')))
                | _ \<Rightarrow> Inl (ValueError (py_repr cidr @ '' does not appear to be an IPv4 or IPv6 interface'')))))"

fun first_inet :: "string list \<Rightarrow> exn + string option" where
  "first_inet [] = Inr None"
| "first_inet (line # rest) =
     (let parts = split_ws line in
      if ''inet'' \<in> set parts then
        (case word_after ''inet'' parts of
           Inl e \<Rightarrow> Inl e
         | Inr cidr \<Rightarrow> (case interface_ip cidr of Inl e \<Rightarrow> Inl e | Inr a \<Rightarrow> Inr (Some a)))
      else first_inet rest)"

definition addr_for :: "'m netsys \<Rightarrow> string \<Rightarrow> ('m, string option) act" where
  "addr_for sys ifname =
     act_bind (ns_run sys [''ip'', ''-4'', ''-o'', ''addr'', ''show'', ''dev'', ifname]) (\<lambda>r.
     case r of Inl _ \<Rightarrow> act_ret None | Inr p \<Rightarrow> act_lift (first_inet (splitlines (stdout p))))"

section \<open>The lifeline\<close>

text \<open>Each probe gives whether it succeeded and a detail.\<close>

definition tcp_probe :: "'m netsys \<Rightarrow> string \<Rightarrow> int \<Rightarrow> ('m, bool \<times> string) act" where
  "tcp_probe sys host port =
     act_bind (ns_tcp sys host port) (\<lambda>r. act_ret (case r of None \<Rightarrow> (True, []) | Some e \<Rightarrow> (False, e)))"

definition DNS_PROBE_HOST :: string where "DNS_PROBE_HOST = ''www.proxmox.com''"

definition dns_probe :: "'m netsys \<Rightarrow> string \<Rightarrow> ('m, bool \<times> string) act" where
  "dns_probe sys host =
     act_bind (ns_host sys host) (\<lambda>r. act_ret (case r of
       Inr addr \<Rightarrow> (True, host @ '' -> '' @ addr) | Inl e \<Rightarrow> (False, host @ '': '' @ e)))"

text \<open>A gateway may not have port 1 open: then it is pinged, through the device of the route.\<close>
definition gateway_probe :: "'m netsys \<Rightarrow> string \<Rightarrow> string \<Rightarrow> ('m, bool \<times> string) act" where
  "gateway_probe sys gw dev =
     act_bind (tcp_probe sys gw 1) (\<lambda>(ok, detail).
     if ok then act_ret (ok, detail)
     else act_bind (ns_run sys [''ping'', ''-c'', ''1'', ''-W'', ''2'', ''-I'', dev, gw]) (\<lambda>r.
       act_ret (case r of
         Inl e \<Rightarrow> (False, e)
       | Inr p \<Rightarrow> if returncode p = 0 then (True, []) else (False, ''no ping reply''))))"

text \<open>\<open>record(name, ok, detail)\<close>, after which the check goes on only when the fact holds.\<close>
definition fact_then ::
    "'m netsys \<Rightarrow> fact list \<Rightarrow> string \<Rightarrow> bool \<Rightarrow> string \<Rightarrow> (fact list \<Rightarrow> ('m, fact list) act) \<Rightarrow> ('m, fact list) act" where
  "fact_then sys facts name ok detail k =
     act_seq (log_net sys name (if ok then ''pass'' else ''fail'') detail)
       (case facts @ [\<lparr>fact_name = name, fact_ok = ok, fact_detail = detail\<rparr>] of fs \<Rightarrow> if ok then k fs else act_ret fs)"

fun exists_any :: "'m netsys \<Rightarrow> string list \<Rightarrow> ('m, bool) act" where
  "exists_any sys [] = act_ret False"
| "exists_any sys (p # ps) = act_bind (ns_exists sys p) (\<lambda>b. if b then act_ret True else exists_any sys ps)"

definition check_outside :: "'m netsys \<Rightarrow> fact list \<Rightarrow> ('m, fact list) act" where
  "check_outside sys facts =
     act_bind (dns_probe sys DNS_PROBE_HOST) (\<lambda>(dns_ok, dns_detail).
     fact_then sys facts ''dns_functioning'' dns_ok dns_detail (\<lambda>facts.
     act_bind (tcp_probe sys INTERNET_PROBE_HOST INTERNET_PROBE_PORT) (\<lambda>(inet_ok, inet_detail).
     fact_then sys facts ''internet_reachable'' inet_ok inet_detail (\<lambda>facts.
     act_bind (tcp_probe sys LLM_PROBE_HOST LLM_PROBE_PORT) (\<lambda>(llm_ok, llm_detail).
     fact_then sys facts ''llm_provider_reachable'' llm_ok
       (if llm_ok then LLM_PROBE_HOST else LLM_PROBE_HOST @ '': '' @ llm_detail) act_ret)))))"

definition check_route :: "'m netsys \<Rightarrow> string list \<Rightarrow> fact list \<Rightarrow> ('m, fact list) act" where
  "check_route sys up_nics facts =
     act_bind (route_default sys up_nics) (\<lambda>route.
     act_bind (case route of
                 Some (gw, dev) \<Rightarrow> if dev \<noteq> [] then addr_for sys dev else act_ret None
               | None \<Rightarrow> act_ret None) (\<lambda>ip.
     fact_then sys facts ''address_assigned'' (ip \<noteq> None \<and> ip \<noteq> Some [])
       (case (ip, route) of
          (Some (c # cs), Some (gw, dev)) \<Rightarrow> dev @ '': '' @ (c # cs)
        | (_, Some (gw, d # ds)) \<Rightarrow> ''no address on '' @ (d # ds)
        | _ \<Rightarrow> ''no address on default route device'') (\<lambda>facts.
     (case route of
        Some (g # gs, dev) \<Rightarrow>
          act_bind (gateway_probe sys (g # gs) dev) (\<lambda>(gw_ok, gw_detail).
          fact_then sys facts ''gateway_reachable'' gw_ok (if gw_ok then g # gs else (g # gs) @ '': '' @ gw_detail)
            (check_outside sys))
      | _ \<Rightarrow> fact_then sys facts ''gateway_reachable'' False ''no default gateway in routing table'' act_ret))))"

fun keep_carrier :: "'m netsys \<Rightarrow> string list \<Rightarrow> ('m, string list) act" where
  "keep_carrier sys [] = act_ret []"
| "keep_carrier sys (n # ns) =
     act_bind (carrier sys n) (\<lambda>c. act_bind (keep_carrier sys ns) (\<lambda>up. act_ret (if c = Some True then n # up else up)))"

definition check_nics :: "'m netsys \<Rightarrow> string list \<Rightarrow> fact list \<Rightarrow> ('m, fact list) act" where
  "check_nics sys nics facts =
     fact_then sys facts ''nic_detected'' (nics \<noteq> []) (if nics \<noteq> [] then join '', '' nics else ''no physical NIC found'') (\<lambda>facts.
     act_bind (keep_carrier sys nics) (\<lambda>up_nics.
     act_bind (exists_any sys (map (\<lambda>n. net_path n ''device/driver'') nics)) (\<lambda>driver_ok.
     fact_then sys facts ''driver_bound'' driver_ok (join '', '' nics) (\<lambda>facts.
     fact_then sys facts ''carrier_present'' (up_nics \<noteq> [])
       (''up='' @ py_repr_list up_nics @ '' down='' @ py_repr_list (filter (\<lambda>n. n \<notin> set up_nics) nics))
       (check_route sys up_nics)))))"

definition check_lifeline :: "'m netsys \<Rightarrow> ('m, fact list) act" where
  "check_lifeline sys = act_bind (physical_nics sys) (\<lambda>nics. check_nics sys nics [])"

section \<open>The facts follow one another\<close>

definition LIFELINE_FACTS :: "string list" where
  "LIFELINE_FACTS =
     [''nic_detected'', ''driver_bound'', ''carrier_present'', ''address_assigned'', ''gateway_reachable'',
      ''dns_functioning'', ''internet_reachable'', ''llm_provider_reachable'']"

text \<open>The names are the first ones of the sequence, and only the last fact can have failed.\<close>
definition fact_chain :: "fact list \<Rightarrow> bool" where
  "fact_chain fs \<longleftrightarrow> fs \<noteq> [] \<and> map fact_name fs = take (length fs) LIFELINE_FACTS \<and> list_all fact_ok (butlast fs)
     \<and> (fact_ok (last fs) \<longrightarrow> length fs = length LIFELINE_FACTS)"

text \<open>\<open>chains i k\<close>: after the first \<open>i\<close> facts have held, \<open>k\<close> ends with such a chain.\<close>
definition chains :: "nat \<Rightarrow> (fact list \<Rightarrow> ('m, fact list) act) \<Rightarrow> bool" where
  "chains i k \<longleftrightarrow> (\<forall>facts m fs m'. map fact_name facts = take i LIFELINE_FACTS \<and> list_all fact_ok facts
     \<and> k facts m = (Inr fs, m') \<longrightarrow> fact_chain fs)"

named_theorems chains_intros "introduction rules for chains"

lemma chains_bind [chains_intros]: "(\<And>x. chains i (f x)) \<Longrightarrow> chains i (\<lambda>facts. act_bind m (\<lambda>x. f x facts))"
  unfolding chains_def act_bind_eq_Inr by blast

lemma chains_prod [chains_intros]: "(\<And>x y. chains i (f x y)) \<Longrightarrow> chains i (\<lambda>facts. case v of (x, y) \<Rightarrow> f x y facts)"
  by (cases v) simp

lemma chains_end [chains_intros]: "i = length LIFELINE_FACTS \<Longrightarrow> 0 < i \<Longrightarrow> chains i act_ret"
proof -
  assume i: "i = length LIFELINE_FACTS" "0 < i"
  have "fact_chain fs" if fs: "map fact_name fs = take i LIFELINE_FACTS" "list_all fact_ok fs" for fs :: "fact list"
  proof -
    have n: "length fs = i"
      using arg_cong [OF fs(1), of length] i by simp
    then show ?thesis
      using fs i by (auto simp: fact_chain_def list_all_iff dest!: in_set_butlastD)
  qed
  then show ?thesis by (auto simp: chains_def)
qed

lemma chain_snoc:
  assumes "map fact_name facts = take i LIFELINE_FACTS" "list_all fact_ok facts" "i < length LIFELINE_FACTS"
    and "fact_name f = LIFELINE_FACTS ! i"
  shows "map fact_name (facts @ [f]) = take (Suc i) LIFELINE_FACTS" "length facts = i"
proof -
  have "length (map fact_name facts) = min (length LIFELINE_FACTS) i" by (simp only: assms(1) length_take)
  then show "length facts = i" using assms(3) by simp
  show "map fact_name (facts @ [f]) = take (Suc i) LIFELINE_FACTS" using assms by (simp add: take_Suc_conv_app_nth)
qed

lemma chains_fact:
  assumes i: "i < length LIFELINE_FACTS" "name = LIFELINE_FACTS ! i" and k: "ok \<Longrightarrow> chains (Suc i) k"
  shows "chains i (\<lambda>facts. fact_then sys facts name ok detail k)"
  unfolding chains_def
proof (intro allI impI, elim conjE)
  fix facts m fs m'
  assume f: "map fact_name facts = take i LIFELINE_FACTS" "list_all fact_ok facts"
    and "fact_then sys facts name ok detail k m = (Inr fs, m')"
  then obtain u where u: "(if ok then k (facts @ [\<lparr>fact_name = name, fact_ok = ok, fact_detail = detail\<rparr>])
      else act_ret (facts @ [\<lparr>fact_name = name, fact_ok = ok, fact_detail = detail\<rparr>])) u = (Inr fs, m')"
    by (auto simp: fact_then_def act_seq_eq_Inr)
  note snoc = chain_snoc [OF f i(1), of "\<lparr>fact_name = name, fact_ok = ok, fact_detail = detail\<rparr>"]
  show "fact_chain fs"
  proof (cases ok)
    case True
    then have "k (facts @ [\<lparr>fact_name = name, fact_ok = ok, fact_detail = detail\<rparr>]) u = (Inr fs, m')" using u by simp
    moreover have "list_all fact_ok (facts @ [\<lparr>fact_name = name, fact_ok = ok, fact_detail = detail\<rparr>])"
      using f True by simp
    moreover have "map fact_name (facts @ [\<lparr>fact_name = name, fact_ok = ok, fact_detail = detail\<rparr>]) = take (Suc i) LIFELINE_FACTS"
      by (rule snoc(1)) (simp add: i)
    ultimately show ?thesis using k [OF True] unfolding chains_def by blast
  next
    case False
    then have fs: "fs = facts @ [\<lparr>fact_name = name, fact_ok = ok, fact_detail = detail\<rparr>]" using u by simp
    have "length fs = Suc i" using snoc(2) i(2) by (simp add: fs)
    moreover have "map fact_name fs = take (Suc i) LIFELINE_FACTS" unfolding fs by (rule snoc(1)) (simp add: i)
    ultimately show ?thesis using f False by (simp add: fact_chain_def fs)
  qed
qed

lemma chains_fact_nth [chains_intros]:
  "i < 8 \<Longrightarrow> name = LIFELINE_FACTS ! i \<Longrightarrow> (ok \<Longrightarrow> chains (Suc i) k) \<Longrightarrow>
     chains i (\<lambda>facts. fact_then sys facts name ok detail k)"
  by (rule chains_fact) (simp_all add: LIFELINE_FACTS_def)

lemma check_outside_chains: "chains 5 (check_outside sys)"
  unfolding check_outside_def by (intro chains_intros) (simp_all add: LIFELINE_FACTS_def)

lemma check_route_chains: "chains 3 (check_route sys up_nics)"
proof -
  have end_here: "chains 4 (\<lambda>facts. fact_then sys facts ''gateway_reachable'' False d act_ret)" for d
    by (intro chains_intros) (simp_all add: LIFELINE_FACTS_def)
  have gate: "chains 4 (\<lambda>facts. act_bind (gateway_probe sys gw dev) (\<lambda>(gw_ok, gw_detail).
      fact_then sys facts ''gateway_reachable'' gw_ok (if gw_ok then gw else gw @ '': '' @ gw_detail) (check_outside sys)))" for gw dev
    using check_outside_chains [of sys] by (intro chains_intros) (simp_all add: LIFELINE_FACTS_def)
  have rest: "chains 4 (\<lambda>facts. case route of
        Some (g # gs, dev) \<Rightarrow>
          act_bind (gateway_probe sys (g # gs) dev) (\<lambda>(gw_ok, gw_detail).
          fact_then sys facts ''gateway_reachable'' gw_ok (if gw_ok then g # gs else (g # gs) @ '': '' @ gw_detail)
            (check_outside sys))
      | _ \<Rightarrow> fact_then sys facts ''gateway_reachable'' False ''no default gateway in routing table'' act_ret)" for route
  proof (cases route)
    case None
    then show ?thesis using end_here by simp
  next
    case (Some r)
    then obtain gw dev where r: "route = Some (gw, dev)" by (cases r) simp
    show ?thesis
    proof (cases gw)
      case Nil
      then show ?thesis using end_here r by simp
    next
      case (Cons g gs)
      then show ?thesis using gate [of "g # gs" dev] r by simp
    qed
  qed
  show ?thesis
    unfolding check_route_def by (intro chains_intros) (use rest in \<open>simp_all add: LIFELINE_FACTS_def numeral_eq_Suc\<close>)
qed

lemma lifeline_chain:
  assumes "check_lifeline sys m = (Inr facts, m')"
  shows "fact_chain facts"
proof -
  have "chains 0 (check_nics sys nics)" for nics
    unfolding check_nics_def using check_route_chains [of sys]
    by (intro chains_intros) (simp_all add: LIFELINE_FACTS_def numeral_eq_Suc)
  moreover obtain nics u where "check_nics sys nics [] u = (Inr facts, m')"
    using assms by (auto simp: check_lifeline_def act_bind_eq_Inr)
  ultimately show ?thesis unfolding chains_def by fastforce
qed

text \<open>
  A check that fails at one of the first three facts - no interface, no driver, no carrier - says nothing of the address
  and the gateway, and what is not said counts as healthy: with the cable unplugged, both repairs refuse as
  \<open>already_healthy\<close>.
\<close>
lemma no_carrier_seems_healthy:
  assumes "check_lifeline sys m = (Inr facts, m')" and "length facts \<le> 3"
  shows "\<not> fact_ok (last facts) \<and> seems_healthy facts"
proof -
  note c = lifeline_chain [OF assms(1), unfolded fact_chain_def]
  have "map fact_name facts = take (length facts) (take 3 LIFELINE_FACTS)"
    using c assms(2) by (simp add: min_def)
  then have "set (map fact_name facts) \<subseteq> {''nic_detected'', ''driver_bound'', ''carrier_present''}"
    using set_take_subset [of "length facts" "take 3 LIFELINE_FACTS"] by (simp add: LIFELINE_FACTS_def)
  then have names: "\<forall>f \<in> set facts. fact_name f \<noteq> ''gateway_reachable'' \<and> fact_name f \<noteq> ''address_assigned''"
    by auto
  have "fact_named facts n = None" if "\<forall>f \<in> set facts. fact_name f \<noteq> n" for n
    using that by (force simp: fact_named_def map_of_eq_None_iff)
  then have "fact_named facts ''gateway_reachable'' = None" "fact_named facts ''address_assigned'' = None"
    using names by blast+
  then show ?thesis
    using c assms(2) by (auto simp: seems_healthy_def LIFELINE_FACTS_def)
qed

text \<open>
  The lifeline is a chain. Every check reports at least one fact; the facts are the first of the eight, in their
  order; all but the last hold, and the last one holds only when all eight do.
\<close>
theorem check_lifeline_chain:
  assumes "check_lifeline sys m = (Inr facts, m')"
  shows "fact_chain facts"
  using assms by (rule lifeline_chain)

text \<open>A machine with one interface, its driver bound, and no carrier.\<close>

definition unplugged :: "unit netsys" where
  "unplugged = \<lparr>ns_run = (\<lambda>argv. act_ret (Inl ''not found'')),
     ns_exists = (\<lambda>p. act_ret (p \<in> set [NET_DIR, net_path ''eno1'' ''device'', net_path ''eno1'' ''device/driver''])),
     ns_names = (\<lambda>p. act_ret [''lo'', ''eno1'']),
     ns_text = (\<lambda>p. act_ret ''0''),
     ns_resolved_name = (\<lambda>p. act_ret ''igb''),
     ns_tcp = (\<lambda>host port. act_ret (Some ''unreachable'')),
     ns_host = (\<lambda>host. act_ret (Inl ''unknown'')),
     ns_mkdir = (\<lambda>p. act_ret ()),
     ns_append = (\<lambda>p t. act_ret ()),
     ns_stamp = act_ret ''2026-01-01T00:00:00Z''\<rparr>"

theorem check_lifeline_chain_witness:
  "case check_lifeline unplugged () of (Inr facts, m) \<Rightarrow> length facts = 3 \<and> fact_chain facts | _ \<Rightarrow> False"
proof -
  have "case check_lifeline unplugged () of (Inr facts, m) \<Rightarrow> length facts = 3 | _ \<Rightarrow> False"
    by code_simp
  then obtain facts m where r: "check_lifeline unplugged () = (Inr facts, m)" "length facts = 3"
    by (auto split: prod.splits sum.splits)
  show ?thesis using check_lifeline_chain [OF r(1)] r by simp
qed

end
