(* ===== verification/Diagnostics.thy ===== *)
theory Diagnostics
  imports Runner PyValue
begin

text \<open>
  \<open>diagnostics.py\<close>, the collectors of the diagnostic tools, and \<open>proxmox_detect.py\<close>, the test whether Proxmox is
  installed. What a tool prints is JSON that is used without a check of its shape, so a collector can raise; \<open>None\<close> is
  \<^const>\<open>JNull\<close>. A device name goes to the command line as it is: one that is no text makes \<open>subprocess\<close> raise.

  The lemmas: the collectors and the detection only issue queries (\<open>queries_only\<close>), a Proxmox that is detected is never
  installed again (\<open>installer_only_without_evidence\<close>), and a tool whose JSON has another shape makes its collector raise,
  which the module documents as impossible (\<open>sensors_may_raise\<close>).
\<close>

section \<open>Is Proxmox installed\<close>

record install_state =
  is_installed :: bool
  version :: "string option"
  found_evidence :: "string list"

record install_decision =
  action :: string
  decided_on :: install_state
  reason :: string

definition dpkg_version :: "'m os \<Rightarrow> (('m, call) host, string option) act" where
  "dpkg_version os =
     act_bind (run os [''dpkg-query'', ''-W'', ''-f=${Version}'', ''proxmox-ve''] 10) (\<lambda>p.
     act_ret (if returncode p = 0 \<and> strip (stdout p) \<noteq> [] then Some (strip (stdout p)) else None))"

definition pveversion_present :: "'m os \<Rightarrow> (('m, call) host, string option) act" where
  "pveversion_present os =
     act_bind (run os [''pveversion''] 10) (\<lambda>p.
     act_ret (if returncode p = 0 \<and> strip (stdout p) \<noteq> [] then Some (strip (stdout p)) else None))"

definition pmxcfs_mounted :: "'m os \<Rightarrow> (('m, call) host, bool) act" where
  "pmxcfs_mounted os = path_exists os ''/etc/pve''"

definition detect_proxmox_install :: "'m os \<Rightarrow> (('m, call) host, install_state) act" where
  "detect_proxmox_install os =
     act_bind (dpkg_version os) (\<lambda>dpkg.
     act_bind (pveversion_present os) (\<lambda>pve.
     act_bind (pmxcfs_mounted os) (\<lambda>mounted.
       let evidence =
             (case dpkg of None \<Rightarrow> [] | Some v \<Rightarrow> [''dpkg-query reports proxmox-ve '' @ v @ '' installed'']) @
             (case pve of None \<Rightarrow> [] | Some v \<Rightarrow> [''pveversion runs and reports: '' @ v]) @
             (if mounted then [''/etc/pve (pmxcfs) is present''] else [])
       in act_ret \<lparr>is_installed = evidence \<noteq> [], version = (if dpkg \<noteq> None then dpkg else pve), found_evidence = evidence\<rparr>)))"

definition decide_next_action :: "install_state \<Rightarrow> install_decision" where
  "decide_next_action s =
     (if is_installed s then
        \<lparr>action = ''run_diagnostics_only'', decided_on = s, reason = ''Proxmox is already installed ('' @
           join ''; '' (found_evidence s) @ '') - skipping the installer entirely and going straight to results.''\<rparr>
      else \<lparr>action = ''run_installer'', decided_on = s,
             reason = ''No installed-Proxmox evidence found on this target - the installer path is next.''\<rparr>)"

definition check_proxmox :: "'m os \<Rightarrow> (('m, call) host, install_decision) act" where
  "check_proxmox os = act_bind (detect_proxmox_install os) (\<lambda>s. act_ret (decide_next_action s))"

section \<open>Collectors\<close>

definition parse_json :: "string \<Rightarrow> json" where
  "parse_json t = (if strip t = [] then JNull else case json_loads (strip t) of None \<Rightarrow> JNull | Some v \<Rightarrow> v)"

record collected =
  available :: bool
  why :: string
  listed :: "json list"

definition unavailable :: "string \<Rightarrow> collected" where
  "unavailable r = \<lparr>available = False, why = r, listed = []\<rparr>"

text \<open>The \<open>__dict__\<close> of a result, whose list has its own name in each of the classes.\<close>
definition collected_json :: "string \<Rightarrow> collected \<Rightarrow> json" where
  "collected_json name c = JObj [(''available'', JBool (available c)), (''reason'', JStr (why c)), (name, JList (listed c))]"

definition get_or :: "json \<Rightarrow> string \<Rightarrow> json \<Rightarrow> exn + json" where
  "get_or v k d = (case get v k of Inl e \<Rightarrow> Inl e | Inr None \<Rightarrow> Inr d | Inr (Some x) \<Rightarrow> Inr x)"

definition json_or :: "json \<Rightarrow> json \<Rightarrow> json" where
  "json_or a b = (if truthy a then a else b)"

text \<open>A value used as a word of a command line.\<close>
definition as_word :: "json \<Rightarrow> exn + string" where
  "as_word v = (case v of JStr s \<Rightarrow> Inr s | _ \<Rightarrow> Inl (TypeError ''expected str, bytes or os.PathLike object''))"

text \<open>\<open>" ".join(parts)\<close> raises when a part is no text.\<close>
fun all_words :: "json list \<Rightarrow> exn + string list" where
  "all_words [] = Inr []"
| "all_words (v # vs) =
     (case as_word v of Inl e \<Rightarrow> Inl e | Inr w \<Rightarrow> (case all_words vs of Inl e \<Rightarrow> Inl e | Inr ws \<Rightarrow> Inr (w # ws)))"

text \<open>\<open>k in section\<close>\<close>
definition py_in :: "string \<Rightarrow> json \<Rightarrow> exn + bool" where
  "py_in k v =
     (case v of
        JObj kvs \<Rightarrow> Inr (k \<in> fst ` set kvs)
      | JList xs \<Rightarrow> Inr (JStr k \<in> set xs)
      | JStr s \<Rightarrow> Inr (contains k s)
      | _ \<Rightarrow> Inl (TypeError ''argument is not iterable''))"

subsection \<open>lm-sensors\<close>

definition guess_unit :: "string \<Rightarrow> string" where
  "guess_unit sub =
     (if contains ''temp'' (lower sub) \<or> ends_with sub ''_input'' \<and> \<not> contains ''fan'' (lower sub) then ''C''
      else if contains ''fan'' (lower sub) then ''RPM''
      else if contains ''volt'' (lower sub) \<or> starts_with sub ''in'' then ''V''
      else [])"

definition feature_rows :: "string \<times> json \<Rightarrow> json list" where
  "feature_rows f =
     (case f of (feature, data) \<Rightarrow>
       if feature = ''Adapter'' \<or> \<not> is_obj data then []
       else map (\<lambda>(sub, v). JObj [(''label'', JStr (feature @ '' '' @ sub)), (''value'', v), (''unit'', JStr (guess_unit sub))])
              (obj_fields data))"

definition chip_row :: "string \<times> json \<Rightarrow> json list" where
  "chip_row c =
     (case c of (chip, data) \<Rightarrow>
       if \<not> is_obj data then []
       else [JObj [(''chip'', JStr chip), (''features'', JList (concat (map feature_rows (obj_fields data))))]])"

definition collect_sensors :: "'m os \<Rightarrow> (('m, call) host, collected) act" where
  "collect_sensors os =
     act_bind (run os [''sensors'', ''-j''] 10) (\<lambda>p.
     if returncode p \<noteq> 0 then act_ret (unavailable ''sensors exited non-zero (no sensors found or not permitted)'')
     else case parse_json (stdout p) of data \<Rightarrow>
       if data = JNull then act_ret (unavailable ''sensors -j produced no parseable JSON'')
       else if \<not> truthy data then act_ret (unavailable ''no sensor chips detected'')
       else if \<not> is_obj data then act_raise (AttributeError ''object has no attribute items'')
       else (case concat (map chip_row (obj_fields data)) of chips \<Rightarrow>
         act_ret \<lparr>available = chips \<noteq> [], why = (if chips \<noteq> [] then [] else ''no usable chip features''), listed = chips\<rparr>))"

subsection \<open>nvme-cli and smartmontools\<close>

text \<open>\<open>data.get(key, []) if isinstance(data, dict) else []\<close>\<close>
definition entries_of :: "string \<Rightarrow> json \<Rightarrow> json" where
  "entries_of k data =
     (if is_obj data then (case map_of (obj_fields data) k of None \<Rightarrow> JList [] | Some v \<Rightarrow> v) else JList [])"

definition nvme_device :: "'m os \<Rightarrow> json \<Rightarrow> (('m, call) host, json list) act" where
  "nvme_device os entry =
     act_bind (act_lift (get_or entry ''DevicePath'' JNull)) (\<lambda>a.
     act_bind (act_lift (get_or entry ''Device'' JNull)) (\<lambda>b.
     case json_or a b of path \<Rightarrow>
     if \<not> truthy path then act_ret []
     else act_bind (act_lift (as_word path)) (\<lambda>dev.
       act_bind (run os [''nvme'', ''smart-log'', dev, ''-o'', ''json''] 10) (\<lambda>p.
       act_bind (act_lift (get_or entry ''ModelNumber'' (JStr []))) (\<lambda>model.
       act_bind (act_lift (get_or entry ''Firmware'' (JStr []))) (\<lambda>firmware.
       act_ret [JObj [(''path'', path), (''model'', model), (''firmware'', firmware),
         (''health'', json_or (if returncode p = 0 then parse_json (stdout p) else JNull) (JObj []))]]))))))"

definition collect_nvme :: "'m os \<Rightarrow> (('m, call) host, collected) act" where
  "collect_nvme os =
     act_bind (run os [''nvme'', ''list'', ''-o'', ''json''] 10) (\<lambda>p.
     if returncode p \<noteq> 0 then act_ret (unavailable ''nvme list exited non-zero (nvme-cli missing or no permission)'')
     else case parse_json (stdout p) of data \<Rightarrow>
       if data = JNull then act_ret (unavailable ''nvme list -o json produced no parseable JSON'')
       else if \<not> truthy (entries_of ''Devices'' data) then act_ret \<lparr>available = True, why = [], listed = []\<rparr>
       else act_bind (act_lift (json_iter (entries_of ''Devices'' data))) (\<lambda>entries.
         act_bind (act_map (nvme_device os) entries) (\<lambda>ds.
         act_ret \<lparr>available = True, why = [], listed = concat ds\<rparr>)))"

text \<open>\<open>detail.get(a, {}).get(b)\<close>\<close>
definition get_in :: "json \<Rightarrow> string \<Rightarrow> string \<Rightarrow> exn + json" where
  "get_in v a b = (case get_or v a (JObj []) of Inl e \<Rightarrow> Inl e | Inr x \<Rightarrow> get_or x b JNull)"

definition smart_device :: "'m os \<Rightarrow> json \<Rightarrow> (('m, call) host, json list) act" where
  "smart_device os entry =
     act_bind (act_lift (get_or entry ''name'' JNull)) (\<lambda>name.
     if \<not> truthy name then act_ret []
     else act_bind (act_lift (as_word name)) (\<lambda>dev.
       act_bind (run os [''smartctl'', ''-a'', ''-j'', dev] 15) (\<lambda>p.
       case json_or (parse_json (stdout p)) (JObj []) of detail \<Rightarrow>
       act_bind (act_lift (get_or entry ''type'' (JStr []))) (\<lambda>type.
       act_bind (act_lift (get_or detail ''model_name'' (JStr []))) (\<lambda>model.
       act_bind (act_lift (get_in detail ''temperature'' ''current'')) (\<lambda>temperature.
       act_bind (act_lift (get_in detail ''power_on_time'' ''hours'')) (\<lambda>hours.
       act_bind (act_lift (get_in detail ''smart_status'' ''passed'')) (\<lambda>passed.
       act_ret [JObj [(''device'', name), (''type'', type), (''model'', model), (''temperature'', temperature),
         (''power_on_hours'', hours), (''smart_passed'', passed)]]))))))))"

definition collect_smart :: "'m os \<Rightarrow> (('m, call) host, collected) act" where
  "collect_smart os =
     act_bind (run os [''smartctl'', ''--scan-open'', ''-j''] 15) (\<lambda>p.
     case parse_json (stdout p) of data \<Rightarrow>
       if data = JNull then act_ret (unavailable ''smartctl --scan-open produced no parseable JSON'')
       else if \<not> truthy (entries_of ''devices'' data) then act_ret \<lparr>available = True, why = [], listed = []\<rparr>
       else act_bind (act_lift (json_iter (entries_of ''devices'' data))) (\<lambda>entries.
         act_bind (act_map (smart_device os) entries) (\<lambda>ds.
         act_ret \<lparr>available = True, why = [], listed = concat ds\<rparr>)))"

text \<open>A self-test is an action of its own, which no collector starts.\<close>
definition initiate_self_test :: "'m os \<Rightarrow> string \<Rightarrow> string \<Rightarrow> (('m, call) host, bool \<times> string) act" where
  "initiate_self_test os device test_type =
     (if test_type \<notin> {''short'', ''long''} then
        act_ret (False, ''invalid test_type '' @ py_repr test_type @ '', must be '' @ py_repr ''short'' @ '' or '' @ py_repr ''long'')
      else act_bind (run os [''smartctl'', ''-t'', test_type, device] 15) (\<lambda>p.
        act_ret (returncode p = 0, if returncode p = 0 then [] else stderr p)))"

subsection \<open>ethtool\<close>

record link_state =
  link_detected :: json
  link_speed :: json
  link_duplex :: json
  link_autoneg :: json

definition after_colon :: "string \<Rightarrow> string" where
  "after_colon line = strip (tl (dropWhile (\<lambda>c. c \<noteq> CHR '':'') line))"

definition ethtool_line :: "link_state \<Rightarrow> string \<Rightarrow> link_state" where
  "ethtool_line s raw =
     (case strip raw of line \<Rightarrow>
      if starts_with line ''Speed:'' then s\<lparr>link_speed := JStr (after_colon line)\<rparr>
      else if starts_with line ''Duplex:'' then s\<lparr>link_duplex := JStr (after_colon line)\<rparr>
      else if starts_with line ''Auto-negotiation:'' then s\<lparr>link_autoneg := JStr (after_colon line)\<rparr>
      else if starts_with line ''Link detected:'' then s\<lparr>link_detected := JBool (after_colon line = ''yes'')\<rparr>
      else s)"

definition parse_ethtool_text :: "string \<Rightarrow> link_state" where
  "parse_ethtool_text t =
     foldl ethtool_line \<lparr>link_detected = JNull, link_speed = JNull, link_duplex = JNull, link_autoneg = JNull\<rparr> (splitlines t)"

definition link_json :: "link_state \<Rightarrow> json \<Rightarrow> json" where
  "link_json s name = JObj [(''link_detected'', link_detected s), (''speed'', link_speed s), (''duplex'', link_duplex s),
     (''autoneg'', link_autoneg s), (''name'', name)]"

definition ethtool_nic :: "'m os \<Rightarrow> json \<Rightarrow> (('m, call) host, json list) act" where
  "ethtool_nic os nic =
     act_bind (act_lift (if is_obj nic then item nic ''name'' else Inr nic)) (\<lambda>name.
     act_bind (act_lift (as_word name)) (\<lambda>dev.
     act_bind (run os [''ethtool'', dev] 10) (\<lambda>p.
     act_ret (if returncode p \<noteq> 0 then [] else [link_json (parse_ethtool_text (stdout p)) name]))))"

definition collect_ethtool :: "'m os \<Rightarrow> ('m, json list) act \<Rightarrow> (('m, call) host, collected) act" where
  "collect_ethtool os list_interfaces_fn =
     act_bind (off_runner list_interfaces_fn) (\<lambda>physical.
     if physical = [] then act_ret \<lparr>available = True, why = [], listed = []\<rparr>
     else act_bind (act_map (ethtool_nic os) physical) (\<lambda>rows.
       act_ret \<lparr>available = concat rows \<noteq> [], why = (if concat rows \<noteq> [] then [] else ''no interface responded''),
         listed = concat rows\<rparr>))"

subsection \<open>iperf3\<close>

record iperf_result =
  ran :: bool
  iperf_reason :: string
  summary :: json

definition iperf3_client_server_test ::
    "'m os \<Rightarrow> string \<Rightarrow> string \<Rightarrow> int \<Rightarrow> int \<Rightarrow> (('m, call) host, iperf_result) act" where
  "iperf3_client_server_test os role peer port duration =
     (if role \<notin> {''client'', ''server''} then
        act_ret \<lparr>ran = False, iperf_reason = ''invalid role '' @ py_repr role @ '', must be '' @ py_repr ''client'' @ '' or '' @
          py_repr ''server'', summary = JObj []\<rparr>
      else if role = ''client'' \<and> peer = [] then
        act_ret \<lparr>ran = False, iperf_reason = ''client role requires a peer_address'', summary = JObj []\<rparr>
      else act_bind (run os
          (if role = ''server'' then [''iperf3'', ''-s'', ''-1'', ''-p'', str_of_int port, ''-J'']
           else [''iperf3'', ''-c'', peer, ''-p'', str_of_int port, ''-t'', str_of_int duration, ''-J'']) (duration + 15)) (\<lambda>p.
        act_ret (if returncode p \<noteq> 0
          then \<lparr>ran = False, iperf_reason = (if stderr p \<noteq> [] then stderr p else ''iperf3 exited non-zero''), summary = JObj []\<rparr>
          else \<lparr>ran = True, iperf_reason = [], summary = json_or (parse_json (stdout p)) (JObj [])\<rparr>)))"

section \<open>Only queries\<close>

definition is_query :: "call \<Rightarrow> bool" where
  "is_query c =
     (case c of
        CRun argv t \<Rightarrow> (case argv of
            [] \<Rightarrow> False
          | prog # args \<Rightarrow> prog = ''dpkg-query'' \<or> (prog = ''pveversion'' \<and> args = []) \<or> (prog = ''sensors'' \<and> args = [''-j''])
              \<or> (prog = ''nvme'' \<and> args \<noteq> [] \<and> hd args \<in> {''list'', ''smart-log''})
              \<or> (prog = ''smartctl'' \<and> args \<noteq> [] \<and> hd args \<in> {''--scan-open'', ''-a''})
              \<or> (prog = ''ethtool'' \<and> length args = 1))
      | CExists p \<Rightarrow> True
      | _ \<Rightarrow> False)"

lemma is_query_run:
  "is_query (CRun (''dpkg-query'' # args) t)" "is_query (CRun [''pveversion''] t)" "is_query (CRun [''sensors'', ''-j''] t)"
  "is_query (CRun (''nvme'' # ''list'' # args) t)" "is_query (CRun (''nvme'' # ''smart-log'' # args) t)"
  "is_query (CRun (''smartctl'' # ''--scan-open'' # args) t)" "is_query (CRun (''smartctl'' # ''-a'' # args) t)"
  "is_query (CRun [''ethtool'', dev] t)" "is_query (CExists p)"
  by (simp_all add: is_query_def)

lemma queries_only:
  "emits is_query (detect_proxmox_install os)" "emits is_query (collect_sensors os)" "emits is_query (collect_nvme os)"
  "emits is_query (collect_smart os)" "emits is_query (collect_ethtool os list_interfaces_fn)"
  unfolding detect_proxmox_install_def dpkg_version_def pveversion_present_def pmxcfs_mounted_def collect_sensors_def
    collect_nvme_def nvme_device_def collect_smart_def smart_device_def collect_ethtool_def ethtool_nic_def
  by (intro emits_intros is_query_run)+

lemma installer_only_without_evidence:
  "detect_proxmox_install os h = (Inr s, h') \<Longrightarrow>
     (action (decide_next_action s) = ''run_installer'') = (found_evidence s = []) \<and>
     (is_installed s \<longleftrightarrow> action (decide_next_action s) = ''run_diagnostics_only'')"
  by (auto simp: detect_proxmox_install_def act_bind_eq_Inr Let_def decide_next_action_def)

text \<open>\<open>sensors -j\<close> printing a list makes the collector raise.\<close>
lemma sensors_may_raise:
  "fst (collect_sensors lab_os (fresh_host (empty_lab\<lparr>lab_results := [([''sensors'', ''-j''], done_ok\<lparr>stdout := ''[1]''\<rparr>)]\<rparr>)))
     = Inl (AttributeError ''object has no attribute items'')"
  by code_simp

end
