(* ===== verification/NetworkProposal.thy ===== *)
theory NetworkProposal
  imports Lifeline Diagnostics
begin

text \<open>
  \<open>firstboot_network_repair.py\<close>: discovery, the diagnosis with its exact difference, the proposal on the first terminal,
  the wait for the operator's CONFIRM, and the flow that repairs after it. What the discovery and the diagnosis give goes
  through the journal of the first boot, so they are JSON here.

  The terminal and the files of the state directory are used beside the runner. Their functions are the record
  \<open>console\<close>, and what happens there joins the runner's calls in one sequence of events, so that a property can say
  what was heard before a command was issued.

  Waiting does not end while the operator is silent: it takes the number of lines as fuel and is \<open>Unfinished\<close> when that
  is used up. A target that is no text - only a journal changed by someone else can name one - is taken as its \<open>str\<close>.
\<close>

datatype event =
    Called call
  | Said string
  | Heard string
  | Waited
  | Found string string
  | Wrote string string
  | Renamed string string

record 'm console =
  co_say :: "string \<Rightarrow> ('m, unit) act"
  co_hear :: "('m, string option option) act"
  co_pause :: "('m, unit) act"
  co_exists :: "string \<Rightarrow> ('m, bool) act"
  co_text :: "string \<Rightarrow> ('m, string) act"
  co_mkdir :: "string \<Rightarrow> ('m, unit) act"
  co_token :: "('m, string) act"
  co_write :: "string \<Rightarrow> string \<Rightarrow> ('m, unit) act"
  co_replace :: "string \<Rightarrow> string \<Rightarrow> ('m, unit) act"
  co_sync :: "string \<Rightarrow> ('m, unit) act"
  co_stamp :: "('m, string) act"

text \<open>An action of the runner among the events.\<close>

definition on_runner :: "(('m, call) host, 'a) act \<Rightarrow> (('m, event) host, 'a) act" where
  "on_runner m = (\<lambda>h. case m \<lparr>machine = machine h, calls = []\<rparr> of
     (r, g) \<Rightarrow> (r, \<lparr>machine = machine g, calls = calls h @ map Called (calls g)\<rparr>))"

definition say :: "'m console \<Rightarrow> string \<Rightarrow> (('m, event) host, unit) act" where
  "say co msg = call_os (Said msg) (co_say co msg)"

text \<open>A line is an event when it arrives: reading may find the input exhausted, or \<open>None\<close> in an injected one.\<close>

definition hear :: "'m console \<Rightarrow> (('m, event) host, string option option) act" where
  "hear co = (\<lambda>h. case co_hear co (machine h) of
     (Inr (Some (Some line)), m) \<Rightarrow> (Inr (Some (Some line)), \<lparr>machine = m, calls = calls h @ [Heard line]\<rparr>)
   | (r, m) \<Rightarrow> (r, h\<lparr>machine := m\<rparr>))"

definition pause :: "'m console \<Rightarrow> (('m, event) host, unit) act" where
  "pause co = call_os Waited (co_pause co)"

section \<open>Discovery\<close>

definition fact_json :: "fact \<Rightarrow> json" where
  "fact_json f = JObj [(''fact'', JStr (fact_name f)), (''ok'', JBool (fact_ok f)), (''detail'', JStr (fact_detail f))]"

text \<open>\<open>{f["fact"]: f for f in facts}\<close>\<close>
fun facts_by_name :: "json list \<Rightarrow> (json \<times> json) list \<Rightarrow> exn + (json \<times> json) list" where
  "facts_by_name [] acc = Inr acc"
| "facts_by_name (f # fs) acc =
     (case item f ''fact'' of
        Inl e \<Rightarrow> Inl e
      | Inr k \<Rightarrow> if is_list k \<or> is_obj k then Inl (TypeError ''unhashable type'') else facts_by_name fs (AList.update k f acc))"

definition fact_map :: "json \<Rightarrow> exn + (json \<times> json) list" where
  "fact_map facts = (case json_iter facts of Inl e \<Rightarrow> Inl e | Inr fs \<Rightarrow> facts_by_name fs [])"

text \<open>\<open>fact_map.get(name, {}).get(key, other)\<close>\<close>
definition fact_field :: "(json \<times> json) list \<Rightarrow> string \<Rightarrow> string \<Rightarrow> json \<Rightarrow> exn + json" where
  "fact_field m name k other = get_or (case map_of m (JStr name) of None \<Rightarrow> JObj [] | Some f \<Rightarrow> f) k other"

definition facts_verification :: "json \<Rightarrow> exn + (string \<times> bool) list" where
  "facts_verification facts =
     (case fact_map facts of
        Inl e \<Rightarrow> Inl e
      | Inr m \<Rightarrow> (case (fact_field m ''gateway_reachable'' ''ok'' (JBool True), fact_field m ''address_assigned'' ''ok'' (JBool True)) of
          (Inr gw_ok, Inr addr_ok) \<Rightarrow> Inr [(''address'', truthy addr_ok), (''gateway'', truthy gw_ok)]
        | (Inl e, _) \<Rightarrow> Inl e
        | (_, Inl e) \<Rightarrow> Inl e))"

definition discover :: "('m, fact list) act \<Rightarrow> (('m, call) host, json) act" where
  "discover lifeline =
     act_bind (off_runner lifeline) (\<lambda>facts.
     act_bind (act_lift (facts_verification (JList (map fact_json facts)))) (\<lambda>v.
     act_ret (JObj [(''facts'', JList (map fact_json facts)), (''lifeline_ok'', JBool (list_all snd v))])))"

fun dev_in :: "string list \<Rightarrow> exn + string option" where
  "dev_in [] = Inr None"
| "dev_in (line # rest) =
     (case split_ws line of parts \<Rightarrow>
      if ''dev'' \<in> set parts then (case word_after ''dev'' parts of Inl e \<Rightarrow> Inl e | Inr d \<Rightarrow> Inr (Some d))
      else dev_in rest)"

fun route_dev :: "'m os \<Rightarrow> string list list \<Rightarrow> (('m, call) host, string option) act" where
  "route_dev os [] = act_ret None"
| "route_dev os (argv # rest) =
     act_bind (run os argv 5) (\<lambda>p.
     act_bind (act_lift (dev_in (splitlines (stdout p)))) (\<lambda>found.
     case found of Some d \<Rightarrow> act_ret (Some d) | None \<Rightarrow> route_dev os rest))"

definition ROUTE_QUERIES :: "string list list" where
  "ROUTE_QUERIES = [[''ip'', ''route'', ''show'', ''default''], [''ip'', ''-6'', ''route'', ''show'', ''default'']]"

text \<open>The device named in the detail of the address fact, as far as its text before the colon names one.\<close>
definition dev_of_detail :: "json \<Rightarrow> exn + string option" where
  "dev_of_detail v =
     (case py_in '':'' v of
        Inl e \<Rightarrow> Inl e
      | Inr False \<Rightarrow> Inr None
      | Inr True \<Rightarrow> (case v of
          JStr t \<Rightarrow>
            if starts_with t ''no address'' then Inr None
            else (case strip (takeWhile (\<lambda>c. c \<noteq> CHR '':'') t) of [] \<Rightarrow> Inr None | d \<Rightarrow> Inr (Some d))
        | _ \<Rightarrow> Inl (AttributeError ''object has no attribute startswith'')))"

definition observed_dev :: "'m os \<Rightarrow> json \<Rightarrow> (('m, call) host, string option) act" where
  "observed_dev os facts =
     act_bind (act_lift (fact_map facts)) (\<lambda>m.
     act_bind (act_lift (fact_field m ''address_assigned'' ''detail'' (JStr []))) (\<lambda>d.
     act_bind (act_lift (dev_of_detail d)) (\<lambda>found.
     case found of Some dev \<Rightarrow> act_ret (Some dev) | None \<Rightarrow> route_dev os ROUTE_QUERIES)))"

section \<open>Diagnosis\<close>

definition no_proposal :: "bool \<Rightarrow> string \<Rightarrow> json" where
  "no_proposal needs reason1 =
     JObj [(''needs_repair'', JBool needs), (''mode'', JNull), (''target'', JNull), (''diff'', JNull), (''reason'', JStr reason1)]"

definition texts :: "string list \<Rightarrow> json" where
  "texts xs = JList (map JStr xs)"

definition proposal_diff :: "string \<Rightarrow> target_candidate \<Rightarrow> json" where
  "proposal_diff mode target =
     (let st = tc_stanza target; new = ''iface '' @ tc_name target @ '' inet dhcp''
      in if mode = ''replace'' then
           JObj [(''action'', JStr ''replace''), (''file'', JStr (source_path st)), (''before'', texts (st_lines st)),
             (''after'', texts [new])]
         else
           JObj [(''action'', JStr ''add''), (''file'', JStr (source_path st)), (''before'', texts (st_lines st)),
             (''after'', texts (st_lines st @ [new])),
             (''note'', JStr (''the existing '' @ family st @ '' '' @ meth st @ '' stanza is preserved unchanged - '' @
               ''this adds a new, separate stanza alongside it''))])"

definition propose :: "nat \<Rightarrow> 'm os \<Rightarrow> string \<Rightarrow> (('m, call) host, json) act" where
  "propose fuel os dev =
     act_bind (plan_and_derive fuel os dev) (\<lambda>(mode, d).
     case (if derivation_ok d then d_target d else None) of
       None \<Rightarrow>
         act_ret (JObj ((obj_fields (no_proposal True (if d_reason d \<noteq> [] then d_reason d else ''no repair candidate found''))) @
           [(''candidates'', texts (map tc_name (candidates d)))]))
     | Some target \<Rightarrow>
         act_seq (read_interfaces_config fuel os INTERFACES_PATH)
         (act_ret (JObj [(''needs_repair'', JBool True), (''mode'', JStr mode), (''target'', JStr (tc_name target)),
           (''target_kind'', JStr (tc_kind target)), (''physical_devices'', texts (physical_devices target)),
           (''diff'', proposal_diff mode target), (''reason'', JStr [])])))"

definition diagnose :: "nat \<Rightarrow> 'm os \<Rightarrow> json \<Rightarrow> (('m, call) host, json) act" where
  "diagnose fuel os discovery =
     act_bind (act_lift (item discovery ''lifeline_ok'')) (\<lambda>ok.
     if truthy ok then act_ret (no_proposal False [])
     else act_bind (act_lift (item discovery ''facts'')) (\<lambda>facts.
       act_bind (observed_dev os facts) (\<lambda>dev.
       case dev of
         None \<Rightarrow> act_ret (no_proposal True ''lifeline is broken but no default-route device (IPv4 or IPv6) could be identified'')
       | Some d \<Rightarrow> propose fuel os d)))"

section \<open>The proposal on the terminal\<close>

definition joined :: "string \<Rightarrow> json \<Rightarrow> exn + string" where
  "joined sep v =
     (case json_iter v of
        Inl e \<Rightarrow> Inl e
      | Inr xs \<Rightarrow> (case all_words xs of Inl e \<Rightarrow> Inl e | Inr ws \<Rightarrow> Inr (join sep ws)))"

definition border :: "nat \<Rightarrow> json" where
  "border n = JStr (replicate n (CHR ''=''))"

text \<open>The lines \<open>extend\<close> and \<open>append\<close> collect; they are text unless the difference holds something else.\<close>
definition proposal_lines :: "json \<Rightarrow> exn + json list" where
  "proposal_lines diagnosis =
     (case (item diagnosis ''mode'', item diagnosis ''target'', get_or diagnosis ''target_kind'' (JStr ''?''),
            get_or diagnosis ''physical_devices'' (JList []), item diagnosis ''diff'') of
        (Inr mode, Inr target, Inr kind, Inr devices, Inr diff) \<Rightarrow>
          (case (joined '', '' devices, item diff ''file'') of
             (Inr devs, Inr path) \<Rightarrow>
               (case (item diff ''before'', item diff ''after'', get_or diff ''note'' JNull) of
                  (Inr before, Inr after, Inr note) \<Rightarrow>
                    (case (json_iter before, json_iter after) of
                       (Inr bs, Inr as) \<Rightarrow>
                         Inr ([border 60, JStr ''Detected topology and proposed network repair:'', JStr [],
                           JStr (''Mode: '' @ json_str mode), JStr (''Target interface: '' @ json_str target @ '' ('' @ json_str kind @ '')''),
                           JStr (''Physical device(s): '' @ devs), JStr [], JStr (''File: '' @ json_str path), JStr ''--- before ---''] @
                           bs @ [JStr ''--- after ---''] @ as @ (if truthy note then [JStr [], note] else []) @
                           [JStr [], JStr ''Type CONFIRM and press Enter to proceed. No timeout. No default.'', border 60])
                     | (Inl e, _) \<Rightarrow> Inl e
                     | (_, Inl e) \<Rightarrow> Inl e)
                | (Inl e, _) \<Rightarrow> Inl e
                | (_, Inl e, _) \<Rightarrow> Inl e
                | (_, _, Inl e) \<Rightarrow> Inl e)
           | (Inl e, _) \<Rightarrow> Inl e
           | (_, Inl e) \<Rightarrow> Inl e)
      | (Inl e, _) \<Rightarrow> Inl e
      | (_, Inl e, _) \<Rightarrow> Inl e
      | (_, _, Inl e, _) \<Rightarrow> Inl e
      | (_, _, _, Inl e, _) \<Rightarrow> Inl e
      | (_, _, _, _, Inl e) \<Rightarrow> Inl e)"

definition format_proposal_for_tty1 :: "json \<Rightarrow> exn + string" where
  "format_proposal_for_tty1 diagnosis =
     (case proposal_lines diagnosis of Inl e \<Rightarrow> Inl e | Inr ls \<Rightarrow> joined [CHR 0x0A] (JList ls))"

section \<open>The confirmation\<close>

definition is_confirmation :: "string \<Rightarrow> bool" where
  "is_confirmation line \<longleftrightarrow> strip line = ''CONFIRM''"

fun wait_for_confirmation :: "nat \<Rightarrow> 'm console \<Rightarrow> (('m, event) host, bool) act" where
  "wait_for_confirmation 0 co = act_raise Unfinished"
| "wait_for_confirmation (Suc n) co =
     act_bind (hear co) (\<lambda>got.
     case got of
       None \<Rightarrow> act_ret False
     | Some None \<Rightarrow> act_seq (pause co) (wait_for_confirmation n co)
     | Some (Some line) \<Rightarrow>
         if is_confirmation line then act_ret True
         else act_seq (act_when (line = []) (pause co)) (wait_for_confirmation n co))"

section \<open>The flow\<close>

record flow_result =
  fl_action :: string
  fl_reason :: string
  fl_target :: json
  package_install_allowed :: bool

definition flow :: "string \<Rightarrow> string \<Rightarrow> json \<Rightarrow> bool \<Rightarrow> flow_result" where
  "flow act reason1 target allowed =
     \<lparr>fl_action = act, fl_reason = reason1, fl_target = target, package_install_allowed = allowed\<rparr>"

text \<open>The repair of either mode, by an operator at the machine.\<close>
definition repair_target ::
    "pylib \<Rightarrow> nat \<Rightarrow> 'm os \<Rightarrow> string \<Rightarrow> string \<Rightarrow> ('m, fact list) act \<Rightarrow> json \<Rightarrow> json \<Rightarrow> (('m, call) host, repair_result) act" where
  "repair_target lib fuel os attempt requested_by lifeline mode target =
     (if mode = JStr ''replace'' then
        reset_interface_to_dhcp lib fuel os attempt (json_str target) requested_by [] True DEFAULT_ROLLBACK_WINDOW_S lifeline
      else
        add_dhcp_to_bridge lib fuel os attempt (json_str target) requested_by [] True DEFAULT_ROLLBACK_WINDOW_S lifeline)"

definition run_first_boot_network_repair ::
    "pylib \<Rightarrow> nat \<Rightarrow> nat \<Rightarrow> 'm os \<Rightarrow> 'm console \<Rightarrow> string \<Rightarrow> string \<Rightarrow> ('m, fact list) act
     \<Rightarrow> (('m, event) host, flow_result) act" where
  "run_first_boot_network_repair lib fuel patience os co attempt requested_by lifeline =
     act_bind (on_runner (discover lifeline)) (\<lambda>discovery.
     act_bind (act_lift (item discovery ''lifeline_ok'')) (\<lambda>ok.
     if truthy ok then act_ret (flow ''none'' ''lifeline already healthy'' JNull True)
     else act_bind (on_runner (diagnose fuel os discovery)) (\<lambda>diagnosis.
     act_bind (act_lift (item diagnosis ''needs_repair'')) (\<lambda>needs.
     act_bind (act_lift (item diagnosis ''mode'')) (\<lambda>mode.
     act_bind (act_lift (item diagnosis ''target'')) (\<lambda>target.
     act_bind (act_lift (item diagnosis ''reason'')) (\<lambda>reason1.
     if \<not> truthy needs \<or> mode = JNull then
       act_seq (say co (''[network-repair] lifeline broken, no safe automatic repair could be derived: '' @ json_str reason1))
       (act_seq (say co ''[network-repair] remaining at tty1 - no automatic retry, no package installation.'')
         (act_ret (flow ''refused'' (json_str reason1) JNull False)))
     else
       act_bind (act_lift (format_proposal_for_tty1 diagnosis)) (\<lambda>proposal.
       act_seq (say co proposal)
       (act_bind (wait_for_confirmation patience co) (\<lambda>confirmed.
        if \<not> confirmed then
          act_seq (say co ''[network-repair] not confirmed - no change made.'') (act_ret (flow ''declined'' [] JNull False))
        else
          act_bind (on_runner (repair_target lib fuel os attempt requested_by lifeline mode target)) (\<lambda>r.
          act_seq (say co (''[network-repair] result: '' @ outcome r @ '' - '' @ r_detail r))
            (act_ret (flow (json_str mode) (r_detail r) target (r_ok r))))))))))))))"

end
