(* ===== verification/ConfigApply.thy ===== *)
theory ConfigApply
  imports Diagnostics BackupRestore LanFirewall "HOL-Library.Multiset"
begin

text \<open>
  \<open>config_apply.py\<close> and \<open>config_pipeline.py\<close>: what an exported configuration changes on the installed machine. A section of
  the configuration is JSON used without a check of its shape. Every subsystem has an apply function with the outcome
  \<open>CommandResult\<close>; the pipeline runs those whose section is present, one after another, and files each under applied,
  skipped or failed. Bringing up a tether is the argument \<open>tether_fn\<close>.

  The lemmas: the interface configuration is never touched from here (\<open>network_config_sets_the_name_only\<close>), an iperf3 server
  is started only under an active LAN-only firewall (\<open>iperf_server_behind_firewall\<close>), each subsystem is filed exactly
  once (\<open>summary_is_complete\<close>), and a configuration with a section of another shape makes the pipeline raise, which it
  documents as impossible (\<open>pipeline_may_raise\<close>).
\<close>

record cmd_result =
  cr_ok :: bool
  cr_detail :: string

definition command_result :: "bool \<Rightarrow> string \<Rightarrow> cmd_result" where
  "command_result ok d = \<lparr>cr_ok = ok, cr_detail = d\<rparr>"

text \<open>\<open>str(exc)\<close>\<close>
fun exn_str :: "exn \<Rightarrow> string" where
  "exn_str (KeyError k) = py_repr k"
| "exn_str StopIteration = []"
| "exn_str Unfinished = []"
| "exn_str (ConfirmationError r d) = d"
| "exn_str (RepairRefused c d) = c @ '': '' @ d"
| "exn_str (ValueError d) = d"
| "exn_str (TypeError d) = d"
| "exn_str (AttributeError d) = d"
| "exn_str (OSError d) = d"
| "exn_str (RuntimeError d) = d"
| "exn_str (AssertionError d) = d"
| "exn_str (ConfirmationRequired d) = d"
| "exn_str (GateError d) = d"
| "exn_str (NotFromWebApp d) = d"
| "exn_str (PhysicalDeviceSafetyError d) = d"
| "exn_str (DataProtectionError d) = d"
| "exn_str (LayoutError d) = d"
| "exn_str (TransitionError d) = d"
| "exn_str (SchemaVersionError d) = d"
| "exn_str (ManifestAuthenticityError d) = d"
| "exn_str (RollbackAuthorityViolation d) = d"
| "exn_str (NamingError d) = d"
| "exn_str (BackupError d) = d"
| "exn_str (IndexError d) = d"

section \<open>smartd.conf\<close>

definition SMARTD_CONF_PATH :: string where "SMARTD_CONF_PATH = ''/etc/smartd.conf''"

definition on_off :: "string \<Rightarrow> json \<Rightarrow> json list" where
  "on_off flag v = (if v \<in> {JStr ''on'', JStr ''off''} then [JStr flag, v] else [])"

definition smartd_parts :: "json \<Rightarrow> json \<Rightarrow> json \<Rightarrow> json \<Rightarrow> json \<Rightarrow> json \<Rightarrow> json \<Rightarrow> json list" where
  "smartd_parts health monitor offline autosave schedule email frequency =
     [JStr ''DEVICESCAN''] @ (if truthy health then [JStr ''-H''] else []) @ (if truthy monitor then [JStr ''-a''] else []) @
     on_off ''-o'' offline @ on_off ''-S'' autosave @ (if truthy schedule then [JStr ''-s'', schedule] else []) @
     (if truthy email then [JStr ''-m'', email] @ (if truthy frequency then [JStr ''-M'', frequency] else []) else [])"

fun get_all :: "json \<Rightarrow> string list \<Rightarrow> exn + json list" where
  "get_all v [] = Inr []"
| "get_all v (k # ks) =
     (case get_or v k JNull of Inl e \<Rightarrow> Inl e | Inr x \<Rightarrow> (case get_all v ks of Inl e \<Rightarrow> Inl e | Inr xs \<Rightarrow> Inr (x # xs)))"

definition smartd_keys :: "string list" where
  "smartd_keys = [''smartd_health_check'', ''smartd_monitor_all'', ''smartd_auto_offline'', ''smartd_attribute_autosave'',
     ''smartd_selftest_schedule'', ''smartd_email'', ''smartd_email_frequency'']"

definition build_smartd_conf :: "json \<Rightarrow> exn + string" where
  "build_smartd_conf config =
     (case get_all config smartd_keys of
        Inr [health, monitor, offline, autosave, schedule, email, frequency] \<Rightarrow>
          (case all_words (smartd_parts health monitor offline autosave schedule email frequency) of
             Inl e \<Rightarrow> Inl e
           | Inr ws \<Rightarrow> Inr (''# Generated by config_apply.py - do not edit by hand'' @ [CHR 0x0A] @ join '' '' ws @ [CHR 0x0A]))
      | Inl e \<Rightarrow> Inl e
      | _ \<Rightarrow> Inl (AssertionError []))"

definition apply_smartd_config :: "'m os \<Rightarrow> json \<Rightarrow> (('m, call) host, cmd_result) act" where
  "apply_smartd_config os config =
     act_bind (act_lift (build_smartd_conf config)) (\<lambda>content.
     act_seq (write_text_atomic os SMARTD_CONF_PATH content)
     (act_bind (run os [''systemctl'', ''reload-or-restart'', ''smartd''] 15) (\<lambda>p.
     act_ret (if returncode p \<noteq> 0
       then command_result False (''wrote '' @ SMARTD_CONF_PATH @ '' but reload failed: '' @ strip (stderr p))
       else command_result True (SMARTD_CONF_PATH @ '' written and smartd reloaded'')))))"

section \<open>ethtool\<close>

definition ethtool_change_argv :: "json \<Rightarrow> json \<Rightarrow> exn + json list" where
  "ethtool_change_argv interface config =
     (case (get_or config ''ethtool_autoneg'' (JStr ''on''), get_or config ''ethtool_speed'' JNull,
            get_or config ''ethtool_duplex'' (JStr ''full''), get_or config ''ethtool_wol'' JNull) of
        (Inr autoneg, Inr speed, Inr duplex, Inr wol) \<Rightarrow>
          Inr ([JStr ''ethtool'', JStr ''-s'', interface, JStr ''autoneg'', autoneg] @
            (if get config ''ethtool_autoneg'' = Inr (Some (JStr ''off''))
             then (if truthy speed then [JStr ''speed'', JStr (json_str speed)] else []) @ [JStr ''duplex'', duplex] else []) @
            (if truthy wol then [JStr ''wol'', wol] else []))
      | (Inl e, _) \<Rightarrow> Inl e
      | _ \<Rightarrow> Inl (AssertionError []))"

definition onoff :: "json \<Rightarrow> string \<Rightarrow> exn + json" where
  "onoff config k = (case get_or config k JNull of Inl e \<Rightarrow> Inl e | Inr v \<Rightarrow> Inr (JStr (if truthy v then ''on'' else ''off'')))"

definition ethtool_offload_argv :: "json \<Rightarrow> json \<Rightarrow> exn + json list" where
  "ethtool_offload_argv interface config =
     (case (onoff config ''ethtool_rx_checksum'', onoff config ''ethtool_tx_checksum'', onoff config ''ethtool_tso'',
            onoff config ''ethtool_gro'') of
        (Inr rx, Inr tx, Inr tso, Inr gro) \<Rightarrow>
          Inr [JStr ''ethtool'', JStr ''-K'', interface, JStr ''rx'', rx, JStr ''tx'', tx, JStr ''tso'', tso, JStr ''gro'', gro]
      | (Inl e, _) \<Rightarrow> Inl e
      | _ \<Rightarrow> Inl (AssertionError []))"

definition ethtool_pause_argv :: "json \<Rightarrow> json \<Rightarrow> exn + json list" where
  "ethtool_pause_argv interface config =
     (case onoff config ''ethtool_pause_autoneg'' of
        Inl e \<Rightarrow> Inl e
      | Inr autoneg \<Rightarrow> Inr [JStr ''ethtool'', JStr ''-A'', interface, JStr ''autoneg'', autoneg])"

text \<open>One command after another, up to the first that fails.\<close>
fun run_each :: "'m os \<Rightarrow> json \<Rightarrow> json list list \<Rightarrow> (('m, call) host, cmd_result) act" where
  "run_each os interface [] = act_ret (command_result True (''ethtool settings applied to '' @ json_str interface))"
| "run_each os interface (argv # rest) =
     act_bind (act_lift (all_words argv)) (\<lambda>words.
     act_bind (run os words 15) (\<lambda>p.
     if returncode p \<noteq> 0
     then act_ret (command_result False (words ! 1 @ '' failed on '' @ json_str interface @ '': '' @ strip (stderr p)))
     else run_each os interface rest))"

definition apply_ethtool_config :: "'m os \<Rightarrow> json \<Rightarrow> json \<Rightarrow> (('m, call) host, cmd_result) act" where
  "apply_ethtool_config os interface config =
     act_bind (act_lift (ethtool_change_argv interface config)) (\<lambda>a.
     act_bind (act_lift (ethtool_offload_argv interface config)) (\<lambda>b.
     act_bind (act_lift (ethtool_pause_argv interface config)) (\<lambda>c.
     run_each os interface [a, b, c])))"

section \<open>Packages, host name, firewall, ssh\<close>

definition install_argv :: "string list \<Rightarrow> string list" where
  "install_argv packages = [''env'', ''DEBIAN_FRONTEND=noninteractive'', ''apt-get'', ''install'', ''-y''] @ packages"

definition apply_package :: "'m os \<Rightarrow> json \<Rightarrow> (('m, call) host, cmd_result) act" where
  "apply_package os package =
     act_bind (act_lift (as_word package)) (\<lambda>name.
     act_bind (run os (install_argv [name]) 60) (\<lambda>p.
     act_ret (if returncode p \<noteq> 0 then command_result False (name @ '' install failed: '' @ strip (stderr p))
              else command_result True (name @ '' installed''))))"

definition apply_cpu_microcode :: "'m os \<Rightarrow> json \<Rightarrow> (('m, call) host, cmd_result) act" where
  "apply_cpu_microcode os = apply_package os"

definition apply_wifi_firmware :: "'m os \<Rightarrow> json \<Rightarrow> (('m, call) host, cmd_result) act" where
  "apply_wifi_firmware os = apply_package os"

definition network_refused :: cmd_result where
  "network_refused = command_result False
     ''network not applied: only hostname is supported here; link/DHCP changes require the repair transaction''"

definition apply_network_config :: "'m os \<Rightarrow> json \<Rightarrow> (('m, call) host, cmd_result) act" where
  "apply_network_config os config =
     act_bind (act_lift (json_iter config)) (\<lambda>keys.
     if \<not> set keys \<subseteq> {JStr ''hostname'', JStr ''dhcp''} then
       (if list_ex (\<lambda>k. is_list k \<or> is_obj k) keys then act_raise (TypeError ''unhashable type'') else act_ret network_refused)
     else act_bind (act_lift (get_or config ''dhcp'' (JBool True))) (\<lambda>dhcp.
       if dhcp \<noteq> JBool True then act_ret network_refused
       else act_bind (act_lift (get_or config ''hostname'' JNull)) (\<lambda>v.
         case v of
           JStr name \<Rightarrow>
             if strip name = [] \<or> starts_with name ''-''
             then act_ret (command_result False ''network not applied: a nonempty hostname is required'')
             else act_bind (run os [''hostnamectl'', ''set-hostname'', name] 10) (\<lambda>p.
               act_ret (if returncode p \<noteq> 0 then command_result False (''hostname set failed: '' @ strip (stderr p))
                        else command_result True ''hostname applied''))
         | _ \<Rightarrow> act_ret (command_result False ''network not applied: a nonempty hostname is required''))))"

definition apply_firewall_config :: "'m os \<Rightarrow> json \<Rightarrow> (('m, call) host, cmd_result) act" where
  "apply_firewall_config os config =
     act_bind (apply_lan_firewall os config) (\<lambda>(ok, d). act_ret (command_result ok d))"

definition SSHD_CONFIG :: string where "SSHD_CONFIG = ''/etc/ssh/sshd_config''"

definition new_sshd_config :: "string \<Rightarrow> string \<Rightarrow> string" where
  "new_sshd_config old setting =
     join [CHR 0x0A] (filter (\<lambda>l. \<not> starts_with (strip l) ''PasswordAuthentication'') (split_on (CHR 0x0A) old)
       @ [''PasswordAuthentication '' @ setting])"

text \<open>\<open>except Exception\<close>: whatever the runner raises becomes the detail of a failure.\<close>
definition apply_ssh_config :: "'m os \<Rightarrow> json \<Rightarrow> (('m, call) host, cmd_result) act" where
  "apply_ssh_config os config =
     act_bind (act_lift (get_or config ''password_auth'' (JBool False))) (\<lambda>password_auth.
     case (if truthy password_auth then ''yes'' else ''no'') of setting \<Rightarrow>
     act_catch
       (act_bind (path_exists os SSHD_CONFIG) (\<lambda>there.
        act_bind (if there then read_text os SSHD_CONFIG else act_ret []) (\<lambda>old.
        act_seq (write_text_atomic os SSHD_CONFIG (new_sshd_config old setting))
        (act_bind (run os [''systemctl'', ''restart'', ''ssh''] 10) (\<lambda>p.
        act_ret (if returncode p \<noteq> 0
          then command_result False (''SSH config written but service restart failed: '' @ strip (stderr p))
          else command_result True (''SSH password auth: '' @ setting)))))))
       (\<lambda>e. act_ret (command_result False (''SSH config failed: '' @ exn_str e))))"

section \<open>Tether and handoff\<close>

definition apply_tether_config :: "'m os \<Rightarrow> ('m, json) act \<Rightarrow> json \<Rightarrow> (('m, call) host, cmd_result) act" where
  "apply_tether_config os tether_fn config =
     act_bind (act_lift (get_or config ''enabled'' (JBool False))) (\<lambda>enabled.
     if \<not> truthy enabled then act_ret (command_result True ''tether disabled; nothing to apply'')
     else act_bind (act_catch (act_bind (off_runner tether_fn) (\<lambda>r. act_ret (Inr r))) (\<lambda>e. act_ret (Inl e))) (\<lambda>tried.
       case tried of
         Inl e \<Rightarrow> act_ret (command_result False (''tether not applied: bring-up failed: '' @ exn_str e))
       | Inr r \<Rightarrow> (case (get_or r ''ok'' JNull, get_or r ''address'' JNull, get_or r ''interface'' JNull,
                         get_or r ''stage'' JNull, get_or r ''detail'' JNull) of
             (Inr ok, Inr address, Inr interface, Inr stage, Inr d) \<Rightarrow>
               act_ret (if truthy ok \<and> truthy address
                 then command_result True (''tether up: '' @ json_str interface @ '' -> '' @ json_str address)
                 else command_result False (''tether not applied: stopped at '' @ json_str stage @ '': '' @ json_str d))
           | (Inl e, _) \<Rightarrow> act_raise e
           | _ \<Rightarrow> act_raise (AssertionError []))))"

text \<open>\<open>except ValueError\<close>\<close>
definition refused_or :: "(('m, call) host, 'a) act \<Rightarrow> ('a \<Rightarrow> (('m, call) host, cmd_result) act) \<Rightarrow> (('m, call) host, cmd_result) act" where
  "refused_or m k =
     act_bind (act_catch (act_bind m (\<lambda>x. act_ret (Inr x))) (\<lambda>e. case e of ValueError d \<Rightarrow> act_ret (Inl d) | _ \<Rightarrow> act_raise e)) (\<lambda>r.
     case r of Inl d \<Rightarrow> act_ret (command_result False (''handoff not applied: '' @ d)) | Inr x \<Rightarrow> k x)"

definition apply_handoff_config :: "'m os \<Rightarrow> json \<Rightarrow> (('m, call) host, cmd_result) act" where
  "apply_handoff_config os config =
     act_bind (act_lift (get_or config ''restored_categories'' JNull)) (\<lambda>categories.
     if \<not> truthy categories then act_ret (command_result True ''handoff: no categories to restore'')
     else act_bind (act_lift (get_or config ''archive_path'' JNull)) (\<lambda>archive.
       act_bind (act_lift (get_or config ''restore_root'' JNull)) (\<lambda>root1.
       if \<not> truthy archive \<or> \<not> truthy root1 then act_ret (command_result False
         ''handoff not applied: categories were named but no archive_path/restore_root was supplied'')
       else refused_or
         (act_bind (check_existing_backup_file os archive ''archive'') (\<lambda>a.
          act_bind (act_lift (check_restore_root root1)) (\<lambda>r. act_ret (a, r)))) (\<lambda>(a, r).
         act_bind (clock_now os) (\<lambda>now.
         act_bind (restore_backup os a r None (Some now) DEFAULT_MAX_BACKUP_AGE_S DEFAULT_MANIFESTS_DIR []) (\<lambda>b.
         act_ret (command_result (b_ok b) (if b_ok b then ''handoff restored: '' @ b_detail b else b_detail b))))))))"

section \<open>iperf3\<close>

text \<open>
  \<open>ipaddress.ip_address\<close> and its tests, an address being the network that holds it alone. For an IPv4 address written as an IPv6
  address (\<open>::ffff:0:0/96\<close>) the tests look at the IPv4 address.
\<close>

definition ip_address :: "string \<Rightarrow> ip_net option" where
  "ip_address s =
     (case ipv4_int s of
        Some w \<Rightarrow> Some (V4 w 32)
      | None \<Rightarrow>
          (case split_scope s of
             None \<Rightarrow> None
           | Some (a, scope) \<Rightarrow> if CHR ''/'' \<in> set s then None else map_option (\<lambda>w. V6 w 128 scope) (ipv6_int a)))"

fun unmapped :: "ip_net \<Rightarrow> ip_net" where
  "unmapped (V4 w n) = V4 w n"
| "unmapped (V6 w n scope) = (if drop_bit 32 w = 0xFFFF then V4 (ucast w) 32 else V6 w n scope)"

fun is_loopback :: "ip_net \<Rightarrow> bool" where
  "is_loopback (V4 w n) = in_net w (0x7F000000, 8)"
| "is_loopback (V6 w n scope) = (w = 1)"

fun is_unspecified :: "ip_net \<Rightarrow> bool" where
  "is_unspecified (V4 w n) = (w = 0)"
| "is_unspecified (V6 w n scope) = (w = 0)"

definition lan_address :: "ip_net \<Rightarrow> bool" where
  "lan_address a = (case unmapped a of x \<Rightarrow> \<not> is_loopback x \<and> \<not> is_unspecified x \<and> (is_private x \<or> is_link_local x))"

text \<open>A port may be text of digits: settings forms store numbers so.\<close>
definition iperf_port :: "json \<Rightarrow> exn + int" where
  "iperf_port v =
     (case (case v of JStr t \<Rightarrow> if all_digits t then JInt (int (digits_nat t)) else v | _ \<Rightarrow> v) of
        JInt p \<Rightarrow> if 1 \<le> p \<and> p \<le> 65535 then Inr p else Inl (ValueError ''port must be 1-65535'')
      | _ \<Rightarrow> Inl (ValueError ''port must be 1-65535''))"

definition iperf_peer :: "json \<Rightarrow> exn + string" where
  "iperf_peer v =
     (case json_or v (JStr []) of
        JStr p \<Rightarrow> Inr (strip p)
      | _ \<Rightarrow> Inl (ValueError ''peer_address must be an IP address on the LAN''))"

definition check_peer :: "string \<Rightarrow> exn + unit" where
  "check_peer peer =
     (if peer = [] then Inr ()
      else case ip_address peer of
        None \<Rightarrow> Inl (ValueError ''peer_address must be an IP address on the LAN'')
      | Some a \<Rightarrow> if lan_address a then Inr () else Inl (ValueError ''peer_address must be on the LAN (private address)''))"

definition iperf_peer_and_port :: "json \<Rightarrow> exn + (string \<times> int)" where
  "iperf_peer_and_port config =
     (case (get_or config ''peer_address'' JNull, get_or config ''port'' (JInt 5201)) of
        (Inr p, Inr q) \<Rightarrow>
          (case iperf_peer p of
             Inl e \<Rightarrow> Inl e
           | Inr peer \<Rightarrow> (case iperf_port q of
               Inl e \<Rightarrow> Inl e
             | Inr port \<Rightarrow> (case check_peer peer of Inl e \<Rightarrow> Inl e | Inr _ \<Rightarrow> Inr (peer, port))))
      | (Inl e, _) \<Rightarrow> Inl e
      | (_, Inl e) \<Rightarrow> Inl e)"

definition SERVER_ARGV :: "int \<Rightarrow> string list" where
  "SERVER_ARGV port = [''systemd-run'', ''--unit=baseline-iperf3'', ''--collect'', ''--property=RuntimeMaxSec=600'',
     ''iperf3'', ''-s'', ''-1'', ''-p'', str_of_int port]"

text \<open>\<open>f"{x:.0f}"\<close>: to the nearest integer, halves to the even one.\<close>
definition round_half_even :: "rat \<Rightarrow> int" where
  "round_half_even q =
     (let f = \<lfloor>q\<rfloor>; r = q - of_int f
      in if r < 1 / 2 \<or> (r = 1 / 2 \<and> even f) then f else f + 1)"

definition measured :: "string \<Rightarrow> rat option" where
  "measured out =
     (case json_parse out of
        Inl e \<Rightarrow> None
      | Inr v \<Rightarrow> (case item v ''end'' of
          Inl e \<Rightarrow> None
        | Inr a \<Rightarrow> (case item a ''sum_received'' of
            Inl e \<Rightarrow> None
          | Inr b \<Rightarrow> (case item b ''bits_per_second'' of
              Inl e \<Rightarrow> None
            | Inr n \<Rightarrow> if is_number n then Some (number_of n / 1000000) else None))))"

definition peer_name :: "string \<Rightarrow> int \<Rightarrow> string" where
  "peer_name peer port = peer @ '':'' @ str_of_int port"

definition iperf_client :: "'m os \<Rightarrow> string \<Rightarrow> int \<Rightarrow> (('m, call) host, cmd_result) act" where
  "iperf_client os peer port =
     act_bind (run os [''iperf3'', ''-c'', peer, ''-p'', str_of_int port, ''-t'', ''5'', ''-J''] 30) (\<lambda>p.
     act_ret (if returncode p \<noteq> 0 then command_result False (''iperf3 test to '' @ peer_name peer port @ '' failed: '' @
         (if strip (stderr p) \<noteq> [] then strip (stderr p) else strip (stdout p)))
       else case measured (stdout p) of
         None \<Rightarrow> command_result False (''iperf3 test to '' @ peer_name peer port @ '' gave no readable result'')
       | Some m \<Rightarrow> command_result True (''iperf3 to '' @ peer_name peer port @ '': '' @ str_of_int (round_half_even m) @ '' Mbit/s'')))"

definition iperf_as :: "'m os \<Rightarrow> string \<Rightarrow> int \<Rightarrow> json \<Rightarrow> (('m, call) host, cmd_result) act" where
  "iperf_as os peer port role =
     (if role = JStr ''server'' then
        act_bind (run os (SERVER_ARGV port) 15) (\<lambda>p.
        act_ret (if returncode p \<noteq> 0 then command_result False (''iperf3 server not started: '' @ strip (stderr p))
          else command_result True (''iperf3 server listening on port '' @ str_of_int port @
            '' for one test (stops after 10 minutes)'')))
      else if peer = [] then
        act_bind (run os [''iperf3'', ''--version''] 10) (\<lambda>p.
        act_ret (if returncode p \<noteq> 0 then command_result False ''iperf3 is not installed''
          else command_result True ''iperf3 installed; no peer configured, so no test was run''))
      else iperf_client os peer port)"

definition apply_iperf3_config :: "'m os \<Rightarrow> json \<Rightarrow> (('m, call) host, cmd_result) act" where
  "apply_iperf3_config os config =
     (case iperf_peer_and_port config of
        Inl (ValueError d) \<Rightarrow> act_ret (command_result False (''iperf3 not applied: '' @ d))
      | Inl e \<Rightarrow> act_raise e
      | Inr (peer, port) \<Rightarrow> act_bind (act_lift (get_or config ''role'' (JStr ''client''))) (iperf_as os peer port))"

section \<open>The pipeline\<close>

definition DEFAULT_CONFIG_PATH :: string where "DEFAULT_CONFIG_PATH = ''/etc/baseline/install-config.json''"

definition SMARTD_KEYS :: "string list" where
  "SMARTD_KEYS = [''smartd_health_check'', ''smartd_monitor_all'', ''smartd_auto_offline'', ''smartd_attribute_autosave'',
     ''smartd_selftest_schedule'', ''smartd_email'', ''smartd_email_frequency'']"

definition ETHTOOL_KEYS :: "string list" where
  "ETHTOOL_KEYS = [''ethtool_autoneg'', ''ethtool_speed'', ''ethtool_duplex'', ''ethtool_wol'', ''ethtool_rx_checksum'',
     ''ethtool_tx_checksum'', ''ethtool_tso'', ''ethtool_gro'', ''ethtool_pause_autoneg'']"

text \<open>No configuration is exported, or the JSON that is.\<close>
definition load_config :: "'m os \<Rightarrow> string \<Rightarrow> (('m, call) host, json option) act" where
  "load_config os path =
     act_bind (path_exists os path) (\<lambda>there.
     if \<not> there then act_ret None
     else act_bind (read_text os path) (\<lambda>t. act_bind (act_lift (json_parse t)) (\<lambda>v. act_ret (Some v))))"

fun has_any_key :: "json \<Rightarrow> string list \<Rightarrow> exn + bool" where
  "has_any_key v [] = Inr False"
| "has_any_key v (k # ks) =
     (case py_in k v of Inl e \<Rightarrow> Inl e | Inr True \<Rightarrow> Inr True | Inr False \<Rightarrow> has_any_key v ks)"

record apply_summary =
  applied_names :: "string list"
  skipped_names :: "string list"
  failed_names :: "string list"

definition no_summary :: apply_summary where
  "no_summary = \<lparr>applied_names = [], skipped_names = [], failed_names = []\<rparr>"

datatype filing = Applied | Skipped | Failed

definition put_name :: "filing \<Rightarrow> string \<Rightarrow> apply_summary \<Rightarrow> apply_summary" where
  "put_name f name s =
     (case f of
        Applied \<Rightarrow> s\<lparr>applied_names := applied_names s @ [name]\<rparr>
      | Skipped \<Rightarrow> s\<lparr>skipped_names := skipped_names s @ [name]\<rparr>
      | Failed \<Rightarrow> s\<lparr>failed_names := failed_names s @ [name]\<rparr>)"

text \<open>\<open>except Exception\<close>: one broken section stops no other.\<close>
definition run_subsystem ::
    "string \<Rightarrow> bool \<Rightarrow> (('m, call) host, cmd_result) act \<Rightarrow> apply_summary \<Rightarrow> (('m, call) host, apply_summary) act" where
  "run_subsystem name present m s =
     (if \<not> present then act_ret (put_name Skipped name s)
      else act_catch (act_bind m (\<lambda>r. act_ret (put_name (if cr_ok r then Applied else Failed) name s)))
        (\<lambda>e. act_ret (put_name Failed name s)))"

text \<open>\<open>config.get(key) or {}\<close>\<close>
definition section_of :: "json \<Rightarrow> string \<Rightarrow> exn + json" where
  "section_of config k = (case get_or config k JNull of Inl e \<Rightarrow> Inl e | Inr v \<Rightarrow> Inr (json_or v (JObj [])))"

definition lan_only :: "'m os \<Rightarrow> (('m, call) host, bool) act" where
  "lan_only os =
     act_catch (act_bind (apply_firewall_config os (JObj [])) (\<lambda>r. act_ret (cr_ok r))) (\<lambda>e. act_ret False)"

definition apply_nothing :: "'m os \<Rightarrow> bool \<Rightarrow> (('m, call) host, apply_summary) act" where
  "apply_nothing os enforce_lan_only =
     (let s = no_summary\<lparr>skipped_names := [''network'', ''ssh'', ''tether'', ''handoff'', ''smartd'', ''ethtool'', ''iperf3'',
                ''cpu_microcode'', ''wifi_firmware'']\<rparr>
      in if enforce_lan_only
         then act_bind (lan_only os) (\<lambda>ok. act_ret (put_name (if ok then Applied else Failed) ''firewall'' s))
         else act_ret (put_name Skipped ''firewall'' s))"

text \<open>A server is started only when the firewall was applied before.\<close>
definition iperf3_apply :: "'m os \<Rightarrow> json \<Rightarrow> apply_summary \<Rightarrow> (('m, call) host, cmd_result) act" where
  "iperf3_apply os iperf3 s =
     act_bind (act_lift (get_or iperf3 ''role'' JNull)) (\<lambda>role.
     if role = JStr ''server'' \<and> ''firewall'' \<notin> set (applied_names s)
     then act_ret (command_result False ''iperf3 server not started: the LAN-only firewall is not active'')
     else apply_iperf3_config os iperf3)"

definition apply_package_choice :: "'m os \<Rightarrow> json \<Rightarrow> string \<Rightarrow> string \<Rightarrow> (('m, call) host, cmd_result) act" where
  "apply_package_choice os drivers k usual =
     act_bind (act_lift (get_or drivers k JNull)) (\<lambda>v. apply_package os (json_or v (JStr usual)))"

text \<open>The sections of the network, then the tools, then the drivers.\<close>

definition apply_network_sections ::
    "'m os \<Rightarrow> ('m, json) act \<Rightarrow> json \<Rightarrow> bool \<Rightarrow> (('m, call) host, apply_summary) act" where
  "apply_network_sections os tether_fn config enforce_lan_only =
     act_bind (act_lift (section_of config ''network'')) (\<lambda>network.
     act_bind (run_subsystem ''network'' (truthy network) (apply_network_config os network) no_summary) (\<lambda>s.
     act_bind (act_lift (section_of config ''firewall'')) (\<lambda>firewall.
     act_bind (run_subsystem ''firewall'' (enforce_lan_only \<or> truthy firewall) (apply_firewall_config os firewall) s) (\<lambda>s.
     act_bind (act_lift (section_of config ''ssh'')) (\<lambda>ssh.
     act_bind (run_subsystem ''ssh'' (truthy ssh) (apply_ssh_config os ssh) s) (\<lambda>s.
     act_bind (act_lift (section_of config ''tether'')) (\<lambda>tether.
     act_bind (run_subsystem ''tether'' (truthy tether) (apply_tether_config os tether_fn tether) s) (\<lambda>s.
     act_bind (act_lift (section_of config ''handoff'')) (\<lambda>handoff.
     run_subsystem ''handoff'' (truthy handoff) (apply_handoff_config os handoff) s)))))))))"

definition apply_tool_sections ::
    "'m os \<Rightarrow> json \<Rightarrow> json \<Rightarrow> json \<Rightarrow> apply_summary \<Rightarrow> (('m, call) host, apply_summary) act" where
  "apply_tool_sections os config proxmox interface s =
     act_bind (act_lift (has_any_key proxmox SMARTD_KEYS)) (\<lambda>has_smartd.
     act_bind (run_subsystem ''smartd'' has_smartd (apply_smartd_config os proxmox) s) (\<lambda>s.
     act_bind (act_lift (has_any_key proxmox ETHTOOL_KEYS)) (\<lambda>has_ethtool.
     act_bind (run_subsystem ''ethtool'' has_ethtool (apply_ethtool_config os interface proxmox) s) (\<lambda>s.
     act_bind (act_lift (section_of config ''diagnostics'')) (\<lambda>diagnostics.
     act_bind (act_lift (section_of diagnostics ''iperf3'')) (\<lambda>iperf3.
     run_subsystem ''iperf3'' (truthy iperf3) (iperf3_apply os iperf3 s) s))))))"

definition apply_driver_sections :: "'m os \<Rightarrow> json \<Rightarrow> apply_summary \<Rightarrow> (('m, call) host, apply_summary) act" where
  "apply_driver_sections os drivers s =
     act_bind (act_lift (get_or drivers ''cpu_microcode'' JNull)) (\<lambda>microcode.
     act_bind (run_subsystem ''cpu_microcode'' (truthy microcode)
       (apply_package_choice os drivers ''cpu_microcode_package'' ''amd64-microcode'') s) (\<lambda>s.
     act_bind (act_lift (get_or drivers ''nic_wifi_firmware'' JNull)) (\<lambda>wifi.
     run_subsystem ''wifi_firmware'' (truthy wifi)
       (apply_package_choice os drivers ''wifi_firmware_package'' ''firmware-mediatek'') s)))"

definition apply_stored_config ::
    "'m os \<Rightarrow> ('m, json) act \<Rightarrow> json option \<Rightarrow> string \<Rightarrow> bool \<Rightarrow> (('m, call) host, apply_summary) act" where
  "apply_stored_config os tether_fn config interface enforce_lan_only =
     (case config of
        None \<Rightarrow> apply_nothing os enforce_lan_only
      | Some c \<Rightarrow>
          if \<not> truthy c then apply_nothing os enforce_lan_only
          else act_bind (act_lift (section_of c ''proxmox'')) (\<lambda>proxmox.
            act_bind (act_lift (section_of c ''drivers'')) (\<lambda>drivers.
            act_bind (act_lift (get_or proxmox ''ethtool_interface'' JNull)) (\<lambda>chosen.
            act_bind (apply_network_sections os tether_fn c enforce_lan_only) (\<lambda>s.
            act_bind (apply_tool_sections os c proxmox (json_or chosen (JStr interface)) s) (\<lambda>s.
            apply_driver_sections os drivers s))))))"

section \<open>What the subsystems do\<close>

lemma network_config_sets_the_name_only:
  "emits (\<lambda>c. \<exists>name. c = CRun [''hostnamectl'', ''set-hostname'', name] 10 \<and> \<not> starts_with name ''-'') (apply_network_config os config)"
  unfolding apply_network_config_def
  by (intro emits_intros) (auto split: json.splits intro!: emits_intros)

text \<open>Nothing but the server section starts a unit of its own.\<close>

definition starts_unit :: "call \<Rightarrow> bool" where
  "starts_unit c = (case c of CRun argv t \<Rightarrow> argv \<noteq> [] \<and> hd argv = ''systemd-run'' | _ \<Rightarrow> False)"

lemma starts_unit_simps [simp]:
  "starts_unit (CRun (p # args) t) \<longleftrightarrow> p = ''systemd-run''" "\<not> starts_unit (CRead path)" "\<not> starts_unit (CWrite path c)"
  "\<not> starts_unit (CExists path)" "\<not> starts_unit (CRemove path)" "\<not> starts_unit (CMakedirs path)" "\<not> starts_unit CNow"
  by (simp_all add: starts_unit_def)

lemma emits_bind_lift: "(\<And>x. r = Inr x \<Longrightarrow> emits P (f x)) \<Longrightarrow> emits P (act_bind (act_lift r) f)"
  by (cases r) (simp_all add: emits_raise)

lemma emits_finally:
  assumes "emits P m" "emits P k" shows "emits P (act_finally m k)"
proof (rule emitsI)
  fix h
  obtain r u where u: "m h = (r, u)" by fastforce
  obtain r2 w where w: "k u = (r2, w)" by fastforce
  obtain a where a: "calls u = calls h @ a" "list_all P a" using emits_resultD [OF assms(1) u] by blast
  obtain b where b: "calls w = calls u @ b" "list_all P b" using emits_resultD [OF assms(2) w] by blast
  have "calls (snd (act_finally m k h)) = calls h @ (a @ b)"
    by (simp add: act_finally_def u w a b split: sum.split)
  then show "\<exists>new. calls (snd (act_finally m k h)) = calls h @ new \<and> list_all P new"
    using a b by fastforce
qed

lemma firewall_no_unit: "emits (\<lambda>c. \<not> starts_unit c) (apply_firewall_config os config)"
proof -
  have enable: "emits (\<lambda>c. \<not> starts_unit c) (enable_unit os us)" if "list_all (\<lambda>u. u \<noteq> [] \<and> hd u \<noteq> ''systemd-run'') us" for us
    using that
  proof (induction us)
    case (Cons u us)
    then show ?case by (cases u) (auto intro!: emits_intros emits_run)
  qed (simp add: emits_ret)
  have "emits (\<lambda>c. \<not> starts_unit c) (apply_ruleset os subnets)" for subnets
    unfolding apply_ruleset_def load_and_persist_def verify_loaded_def restore_previous_def persist_ruleset_def LISTING_def
    by (intro emits_intros emits_finally enable) simp_all
  then show ?thesis
    unfolding apply_firewall_config_def apply_lan_firewall_def
    by (intro emits_bind emits_lift emits_if emits_ret emits_prod) (auto split: sum.split exn.split intro!: emits_ret emits_raise)
qed

lemma handoff_no_unit: "emits (\<lambda>c. \<not> starts_unit c) (apply_handoff_config os config)"
proof -
  have gate: "emits (\<lambda>c. \<not> starts_unit c) (restore_gate os members now age dir vt)" for members now age dir vt
    by (rule emits_mono [OF quiet_gate]) (auto simp: starts_unit_def split: call.splits)
  have restore: "emits (\<lambda>c. \<not> starts_unit c) (restore_backup os a r members now age dir vt)" for a r members now age dir vt
    unfolding restore_backup_def restore_backup_argv_def by (intro emits_intros gate) simp_all
  have catch: "emits (\<lambda>c. \<not> starts_unit c) (refused_or m k)"
    if "emits (\<lambda>c. \<not> starts_unit c) m" "\<And>x. emits (\<lambda>c. \<not> starts_unit c) (k x)" for m :: "(('m, call) host, 'b) act" and k
    unfolding refused_or_def
    by (intro emits_bind emits_catch emits_sum emits_ret that) (auto split: exn.split intro: emits_ret emits_raise)
  show ?thesis
    unfolding apply_handoff_config_def check_existing_backup_file_def
    by (intro emits_intros catch restore) simp_all
qed

lemma all_words_head: "all_words (JStr p # vs) = Inr ws \<Longrightarrow> \<exists>rest. ws = p # rest"
  by (auto simp: as_word_def split: sum.splits)

lemma tools_no_unit:
  "emits (\<lambda>c. \<not> starts_unit c) (apply_network_config os config)"
  "emits (\<lambda>c. \<not> starts_unit c) (apply_ssh_config os config)"
  "emits (\<lambda>c. \<not> starts_unit c) (apply_tether_config os tether_fn config)"
  "emits (\<lambda>c. \<not> starts_unit c) (apply_smartd_config os config)"
  "emits (\<lambda>c. \<not> starts_unit c) (apply_ethtool_config os interface config)"
  "emits (\<lambda>c. \<not> starts_unit c) (apply_package_choice os config k usual)"
proof -
  show "emits (\<lambda>c. \<not> starts_unit c) (apply_network_config os config)"
    by (rule emits_mono [OF network_config_sets_the_name_only]) auto
  show "emits (\<lambda>c. \<not> starts_unit c) (apply_ssh_config os config)"
    unfolding apply_ssh_config_def SSHD_CONFIG_def by (intro emits_intros) (auto intro!: emits_intros)
  show "emits (\<lambda>c. \<not> starts_unit c) (apply_tether_config os tether_fn config)"
    unfolding apply_tether_config_def
    by (intro emits_bind emits_lift emits_if emits_ret emits_catch emits_off_runner emits_sum)
      (auto split: sum.split intro!: emits_ret emits_raise)
  show "emits (\<lambda>c. \<not> starts_unit c) (apply_smartd_config os config)"
    unfolding apply_smartd_config_def by (intro emits_intros) simp_all
  have each: "emits (\<lambda>c. \<not> starts_unit c) (run_each os interface argvs)"
    if "\<forall>a \<in> set argvs. \<exists>vs. a = JStr ''ethtool'' # vs" for argvs
    using that
  proof (induction argvs)
    case (Cons a rest)
    then obtain vs where a: "a = JStr ''ethtool'' # vs" by auto
    show ?case
      unfolding run_each.simps
    proof (rule emits_bind_lift)
      fix words
      assume "all_words a = Inr words"
      then obtain ws where "words = ''ethtool'' # ws" using all_words_head a by blast
      then show "emits (\<lambda>c. \<not> starts_unit c) (act_bind (run os words 15) (\<lambda>p.
          if returncode p \<noteq> 0
          then act_ret (command_result False (words ! 1 @ '' failed on '' @ json_str interface @ '': '' @ strip (stderr p)))
          else run_each os interface rest))"
        using Cons by (auto intro!: emits_intros emits_run)
    qed
  qed (simp add: emits_ret)
  show "emits (\<lambda>c. \<not> starts_unit c) (apply_ethtool_config os interface config)"
    unfolding apply_ethtool_config_def
  proof (intro emits_bind_lift each)
    fix a b c
    assume "ethtool_change_argv interface config = Inr a" "ethtool_offload_argv interface config = Inr b"
      "ethtool_pause_argv interface config = Inr c"
    then show "\<forall>x \<in> set [a, b, c]. \<exists>vs. x = JStr ''ethtool'' # vs"
      by (auto simp: ethtool_change_argv_def ethtool_offload_argv_def ethtool_pause_argv_def split: sum.splits)
  qed
  show "emits (\<lambda>c. \<not> starts_unit c) (apply_package_choice os config k usual)"
    unfolding apply_package_choice_def apply_package_def install_argv_def by (intro emits_intros) simp_all
qed

lemma iperf_no_unit:
  assumes "''firewall'' \<notin> set (applied_names s)"
  shows "emits (\<lambda>c. \<not> starts_unit c) (iperf3_apply os iperf3 s)"
proof -
  have client: "emits (\<lambda>c. \<not> starts_unit c) (iperf_client os peer port)" for peer port
    unfolding iperf_client_def by (intro emits_intros) simp_all
  have client_only: "emits (\<lambda>c. \<not> starts_unit c) (apply_iperf3_config os iperf3)"
    if "get_or iperf3 ''role'' JNull \<noteq> Inr (JStr ''server'')"
  proof -
    have role: "role \<noteq> JStr ''server''" if "get_or iperf3 ''role'' (JStr ''client'') = Inr role" for role
      using that \<open>get_or iperf3 ''role'' JNull \<noteq> Inr (JStr ''server'')\<close> by (auto simp: get_or_def split: sum.splits option.splits)
    have one: "emits (\<lambda>c. \<not> starts_unit c) (act_bind (act_lift (get_or iperf3 ''role'' (JStr ''client''))) (iperf_as os peer port))"
      for port peer
    proof (rule emits_bind_lift)
      fix r
      assume "get_or iperf3 ''role'' (JStr ''client'') = Inr r"
      then have "r \<noteq> JStr ''server''" by (rule role)
      then show "emits (\<lambda>c. \<not> starts_unit c) (iperf_as os peer port r)"
        unfolding iperf_as_def by (auto intro!: emits_intros emits_run client)
    qed
    show ?thesis
      unfolding apply_iperf3_config_def by (auto split: sum.split exn.split prod.split intro!: emits_ret emits_raise one)
  qed
  show ?thesis
    unfolding iperf3_apply_def
    by (rule emits_bind_lift) (use assms client_only in \<open>auto intro!: emits_ret\<close>)
qed

lemma run_subsystem_emits: "emits P m \<Longrightarrow> emits P (run_subsystem name present m s)"
  unfolding run_subsystem_def by (intro emits_if emits_ret emits_catch emits_bind)

section \<open>What the summary says\<close>

definition filed :: "apply_summary \<Rightarrow> string list" where
  "filed s = applied_names s @ skipped_names s @ failed_names s"

lemma mset_filed: "mset (filed (put_name f name s)) = add_mset name (mset (filed s))"
  by (cases f) (simp_all add: put_name_def filed_def)

lemma run_subsystem_files:
  "run_subsystem name present m s h = (Inr s', h') \<Longrightarrow> \<exists>f. s' = put_name f name s \<and> (f = Skipped \<longleftrightarrow> \<not> present)"
  by (cases present) (auto simp: run_subsystem_def act_catch_eq act_bind_def split: prod.splits sum.splits if_splits)

lemma run_subsystem_mset:
  "run_subsystem name present m s h = (Inr s', h') \<Longrightarrow> mset (filed s') = add_mset name (mset (filed s))"
  using run_subsystem_files mset_filed by metis

lemma run_subsystem_returns: "\<exists>s' h'. run_subsystem name present m s h = (Inr s', h')"
  by (auto simp: run_subsystem_def act_catch_eq split: prod.split sum.split)

definition SUBSYSTEMS :: "string list" where
  "SUBSYSTEMS = [''network'', ''firewall'', ''ssh'', ''tether'', ''handoff'', ''smartd'', ''ethtool'', ''iperf3'',
     ''cpu_microcode'', ''wifi_firmware'']"

lemma applied_put [simp]:
  "applied_names (put_name f name s) = applied_names s @ (if f = Applied then [name] else [])"
  by (cases f) (simp_all add: put_name_def)

lemma filed_none: "filed no_summary = []"
  by (simp add: filed_def no_summary_def)

lemma network_sections_file:
  assumes "apply_network_sections os tether_fn config enforce h = (Inr s, h')"
  shows "mset (filed s) = {#''network'', ''firewall'', ''ssh'', ''tether'', ''handoff''#}"
proof -
  obtain b1 m1 s1 h1 b2 m2 s2 h2 b3 m3 s3 h3 b4 m4 s4 h4 b5 m5 where
    "run_subsystem ''network'' b1 m1 no_summary h = (Inr s1, h1)" "run_subsystem ''firewall'' b2 m2 s1 h1 = (Inr s2, h2)"
    "run_subsystem ''ssh'' b3 m3 s2 h2 = (Inr s3, h3)" "run_subsystem ''tether'' b4 m4 s3 h3 = (Inr s4, h4)"
    "run_subsystem ''handoff'' b5 m5 s4 h4 = (Inr s, h')"
    using assms unfolding apply_network_sections_def act_bind_eq_Inr act_lift_apply prod.inject by blast
  then show ?thesis
    by (simp add: run_subsystem_mset filed_none)
qed

lemma tool_sections_file:
  assumes "apply_tool_sections os config proxmox interface s h = (Inr s', h')"
  shows "mset (filed s') = mset (filed s) + {#''smartd'', ''ethtool'', ''iperf3''#}"
proof -
  obtain b1 m1 s1 h1 b2 m2 s2 h2 b3 m3 where
    "run_subsystem ''smartd'' b1 m1 s h = (Inr s1, h1)" "run_subsystem ''ethtool'' b2 m2 s1 h1 = (Inr s2, h2)"
    "run_subsystem ''iperf3'' b3 m3 s2 h2 = (Inr s', h')"
    using assms unfolding apply_tool_sections_def act_bind_eq_Inr act_lift_apply prod.inject by blast
  then show ?thesis by (simp add: run_subsystem_mset)
qed

lemma driver_sections_file:
  assumes "apply_driver_sections os drivers s h = (Inr s', h')"
  shows "mset (filed s') = mset (filed s) + {#''cpu_microcode'', ''wifi_firmware''#}"
proof -
  obtain b1 m1 s1 h1 b2 m2 where
    "run_subsystem ''cpu_microcode'' b1 m1 s h = (Inr s1, h1)" "run_subsystem ''wifi_firmware'' b2 m2 s1 h1 = (Inr s', h')"
    using assms unfolding apply_driver_sections_def act_bind_eq_Inr act_lift_apply prod.inject by blast
  then show ?thesis by (simp add: run_subsystem_mset)
qed

lemma nothing_files:
  "apply_nothing os enforce h = (Inr s, h') \<Longrightarrow> mset (filed s) = mset SUBSYSTEMS"
  unfolding apply_nothing_def Let_def
  by (auto simp: act_bind_eq_Inr mset_filed filed_def no_summary_def put_name_def SUBSYSTEMS_def split: if_splits)

text \<open>
  Each of the ten subsystems is filed exactly once: whatever is missing, refused or broken, none is dropped and none is
  reported twice.
\<close>
theorem summary_is_complete:
  assumes "apply_stored_config os tether_fn config interface enforce h = (Inr s, h')"
  shows "mset (filed s) = mset SUBSYSTEMS"
proof (cases "config = None \<or> \<not> truthy (the config)")
  case True
  then have "apply_nothing os enforce h = (Inr s, h')"
    using assms by (auto simp: apply_stored_config_def split: option.splits)
  then show ?thesis by (rule nothing_files)
next
  case False
  then obtain c proxmox drivers chosen s1 h1 s2 h2 where
    "apply_network_sections os tether_fn c enforce h = (Inr s1, h1)"
    "apply_tool_sections os c proxmox (json_or chosen (JStr interface)) s1 h1 = (Inr s2, h2)"
    "apply_driver_sections os drivers s2 h2 = (Inr s, h')"
    using assms by (auto simp: apply_stored_config_def act_bind_eq_Inr)
  then show ?thesis
    by (simp add: network_sections_file driver_sections_file tool_sections_file SUBSYSTEMS_def)
qed

section \<open>No server without the firewall\<close>

definition no_server :: "('m, call) host \<Rightarrow> ('m, call) host \<Rightarrow> bool" where
  "no_server h h' \<longleftrightarrow> (\<exists>new. calls h' = calls h @ new \<and> list_all (\<lambda>c. \<not> starts_unit c) new)"

lemma no_server_trans: "no_server a b \<Longrightarrow> no_server b c \<Longrightarrow> no_server a c"
  unfolding no_server_def by (metis append.assoc list_all_append)

lemma emits_no_server: "emits (\<lambda>c. \<not> starts_unit c) m \<Longrightarrow> m h = (r, h') \<Longrightarrow> no_server h h'"
  unfolding no_server_def by (rule emits_resultD)

lemma applied_grow:
  "run_subsystem name present m s h = (Inr s', h') \<Longrightarrow> set (applied_names s) \<subseteq> set (applied_names s')"
  by (auto dest!: run_subsystem_files)

lemma network_sections_quiet: "emits (\<lambda>c. \<not> starts_unit c) (apply_network_sections os tether_fn config enforce)"
  unfolding apply_network_sections_def
  by (intro emits_bind emits_lift run_subsystem_emits tools_no_unit firewall_no_unit handoff_no_unit)

lemma driver_sections_quiet: "emits (\<lambda>c. \<not> starts_unit c) (apply_driver_sections os drivers s)"
  unfolding apply_driver_sections_def by (intro emits_bind emits_lift run_subsystem_emits tools_no_unit)

lemma driver_sections_keep:
  "apply_driver_sections os drivers s h = (Inr s', h') \<Longrightarrow> set (applied_names s) \<subseteq> set (applied_names s')"
  unfolding apply_driver_sections_def by (auto simp: act_bind_eq_Inr dest!: applied_grow)

lemma tool_sections_no_server:
  assumes "apply_tool_sections os config proxmox interface s h = (Inr s', h')" "''firewall'' \<notin> set (applied_names s')"
  shows "no_server h h'"
proof -
  obtain b1 s1 h1 b2 s2 h2 i where
    r1: "run_subsystem ''smartd'' b1 (apply_smartd_config os proxmox) s h = (Inr s1, h1)" and
    r2: "run_subsystem ''ethtool'' b2 (apply_ethtool_config os interface proxmox) s1 h1 = (Inr s2, h2)" and
    r3: "run_subsystem ''iperf3'' (truthy i) (iperf3_apply os i s2) s2 h2 = (Inr s', h')"
    using assms(1) unfolding apply_tool_sections_def act_bind_eq_Inr act_lift_apply prod.inject by blast
  have "''firewall'' \<notin> set (applied_names s2)" using applied_grow [OF r3] assms(2) by blast
  then have "no_server h2 h'"
    using emits_no_server [OF run_subsystem_emits r3] iperf_no_unit by blast
  moreover have "no_server h h1" "no_server h1 h2"
    using emits_no_server [OF run_subsystem_emits r1] emits_no_server [OF run_subsystem_emits r2] tools_no_unit by blast+
  ultimately show ?thesis using no_server_trans by blast
qed

text \<open>
  C31. No server without the firewall. A pipeline that does not report the LAN-only firewall as applied has started no
  server unit, whatever the configuration asks for.
\<close>
theorem iperf_server_behind_firewall:
  assumes "apply_stored_config os tether_fn config interface enforce h = (Inr s, h')" "''firewall'' \<notin> set (applied_names s)"
  shows "no_server h h'"
proof (cases "config = None \<or> \<not> truthy (the config)")
  case True
  then have n: "apply_nothing os enforce h = (Inr s, h')"
    using assms(1) by (auto simp: apply_stored_config_def split: option.splits)
  have "emits (\<lambda>c. \<not> starts_unit c) (apply_nothing os enforce)"
    unfolding apply_nothing_def lan_only_def Let_def
    by (intro emits_if emits_bind emits_catch emits_ret firewall_no_unit)
  then show ?thesis using n by (rule emits_no_server)
next
  case False
  then obtain c proxmox drivers chosen s1 h1 s2 h2 where
    a: "apply_network_sections os tether_fn c enforce h = (Inr s1, h1)" and
    b: "apply_tool_sections os c proxmox (json_or chosen (JStr interface)) s1 h1 = (Inr s2, h2)" and
    d: "apply_driver_sections os drivers s2 h2 = (Inr s, h')"
    using assms(1) by (auto simp: apply_stored_config_def act_bind_eq_Inr)
  have "''firewall'' \<notin> set (applied_names s2)" using driver_sections_keep [OF d] assms(2) by blast
  then have "no_server h1 h2" by (rule tool_sections_no_server [OF b])
  moreover have "no_server h h1" by (rule emits_no_server [OF network_sections_quiet a])
  moreover have "no_server h2 h'" by (rule emits_no_server [OF driver_sections_quiet d])
  ultimately show ?thesis using no_server_trans by blast
qed

text \<open>A configuration that asks for a server and gives no firewall: the server is filed as failed.\<close>

definition server_config :: json where
  "server_config = JObj [(''network'', JObj [(''hostname'', JStr ''box'')]),
     (''diagnostics'', JObj [(''iperf3'', JObj [(''role'', JStr ''server'')])])]"

theorem iperf_server_behind_firewall_witness:
  "case apply_stored_config lab_os (act_ret JNull) (Some server_config) ''eno1'' False (fresh_host empty_lab) of
     (Inr s, h) \<Rightarrow> failed_names s = [''iperf3''] \<and> ''firewall'' \<notin> set (applied_names s) \<and> no_server (fresh_host empty_lab) h
   | _ \<Rightarrow> False"
proof -
  have "case apply_stored_config lab_os (act_ret JNull) (Some server_config) ''eno1'' False (fresh_host empty_lab) of
      (Inr s, h) \<Rightarrow> failed_names s = [''iperf3''] \<and> ''firewall'' \<notin> set (applied_names s) | _ \<Rightarrow> False"
    by code_simp
  then obtain s h where r: "apply_stored_config lab_os (act_ret JNull) (Some server_config) ''eno1'' False (fresh_host empty_lab) = (Inr s, h)"
      "failed_names s = [''iperf3'']" "''firewall'' \<notin> set (applied_names s)"
    by (auto split: prod.splits sum.splits)
  show ?thesis using iperf_server_behind_firewall [OF r(1,3)] r by simp
qed

text \<open>The pipeline is documented never to raise; a section that is no object makes it raise, after others were applied.\<close>

definition odd_config :: json where
  "odd_config = JObj [(''network'', JObj [(''hostname'', JStr ''box'')]), (''diagnostics'', JList [JInt 1])]"

lemma pipeline_may_raise:
  "case apply_stored_config lab_os (act_ret JNull) (Some odd_config) ''eno1'' False (fresh_host empty_lab) of
     (r, h) \<Rightarrow> r = Inl (AttributeError (''object has no attribute '' @ py_repr ''get''))
       \<and> calls h = [CRun [''hostnamectl'', ''set-hostname'', ''box''] 10]"
  by code_simp

end
