(* ===== verification/FirstBoot.thy ===== *)
theory FirstBoot
  imports NetworkProposal ConfigApply
begin

text \<open>
  \<open>firstboot_statemachine.py\<close>: the first boot of an installed machine. Its state is a journal in the state directory, a
  JSON object with the current state and the history of all transitions; each stage of \<open>run\<close> is entered in one state,
  records the next one durably and falls through, so that a boot resumes where the one before it ended. A stage is
  a function from the journal to either the result \<open>run\<close> returns or the next journal.

  Main facts: nothing but looking happens before an operator's CONFIRM was heard (or a journal or marker was found that
  says so), and no journal in the state \<open>network_repaired\<close> is written without positive evidence in its last entry.
\<close>

section \<open>The journal\<close>

definition DEFAULT_NETWORK_INTERFACE :: string where "DEFAULT_NETWORK_INTERFACE = ''eno1''"
definition STATE_DIR :: string where "STATE_DIR = ''/var/lib/baseline-firstboot''"

definition STATES :: "string list" where
  "STATES = [''created'', ''detected'', ''discovered'', ''proposed'', ''confirmed'', ''network_repaired'', ''network_repair_failed'',
     ''packages_installed'', ''packages_verified'', ''committed'']"

definition DIAGNOSTIC_PACKAGES :: "string list" where
  "DIAGNOSTIC_PACKAGES = [''lm-sensors'', ''nvme-cli'', ''smartmontools'', ''iperf3'', ''ethtool'']"

text \<open>The file operations beside the runner; what was found or written is an event.\<close>

definition found_text :: "'m console \<Rightarrow> string \<Rightarrow> (('m, event) host, string) act" where
  "found_text co path = (\<lambda>h. case co_text co path (machine h) of
     (Inr t, m) \<Rightarrow> (Inr t, \<lparr>machine = m, calls = calls h @ [Found path t]\<rparr>)
   | (Inl e, m) \<Rightarrow> (Inl e, h\<lparr>machine := m\<rparr>))"

definition durable_write :: "'m console \<Rightarrow> string \<Rightarrow> string \<Rightarrow> string \<Rightarrow> (('m, event) host, unit) act" where
  "durable_write co dir path content =
     act_seq (off_runner (co_mkdir co dir))
     (act_bind (off_runner (co_token co)) (\<lambda>token.
      case dir @ ''/.tmp-'' @ token of tmp \<Rightarrow>
      act_seq (call_os (Wrote tmp content) (co_write co tmp content))
      (act_seq (call_os (Renamed tmp path) (co_replace co tmp path))
        (off_runner (co_sync co dir)))))"

definition journal_path :: "string \<Rightarrow> string" where "journal_path dir = dir @ ''/journal.json''"
definition marker_path :: "string \<Rightarrow> string" where "marker_path dir = dir @ ''/complete''"

definition already_completed :: "'m console \<Rightarrow> string \<Rightarrow> (('m, event) host, string option) act" where
  "already_completed co dir =
     act_bind (off_runner (co_exists co (marker_path dir))) (\<lambda>there.
     if there then act_bind (found_text co (marker_path dir)) (\<lambda>t. act_ret (Some (strip t))) else act_ret None)"

definition mark_complete :: "'m console \<Rightarrow> string \<Rightarrow> (('m, event) host, unit) act" where
  "mark_complete co dir =
     act_bind (off_runner (co_stamp co)) (\<lambda>ts. durable_write co dir (marker_path dir) (ts @ [CHR 0x0A]))"

definition new_journal :: json where
  "new_journal = JObj [(''state'', JStr ''new''), (''history'', JList [])]"

definition corrupted_journal :: json where
  "corrupted_journal = JObj [(''state'', JStr ''new''), (''history'', JList []), (''journal_was_corrupted'', JBool True)]"

definition known_state :: "json \<Rightarrow> bool" where
  "known_state v = (v \<in> set (map JStr (STATES @ [''new''])))"

definition journal_of :: "string \<Rightarrow> exn + json" where
  "journal_of t =
     (case json_parse t of
        Inl e \<Rightarrow> Inl e
      | Inr (JObj kvs) \<Rightarrow>
          (case map_of kvs ''state'' of
             Some v \<Rightarrow> if known_state v then Inr (JObj kvs) else Inl (ValueError ''malformed journal'')
           | None \<Rightarrow> Inl (ValueError ''malformed journal''))
      | Inr _ \<Rightarrow> Inl (ValueError ''malformed journal''))"

definition load_journal :: "'m console \<Rightarrow> string \<Rightarrow> (('m, event) host, json) act" where
  "load_journal co dir =
     act_bind (off_runner (co_exists co (journal_path dir))) (\<lambda>there.
     if \<not> there then act_ret new_journal
     else act_catch (act_bind (found_text co (journal_path dir)) (\<lambda>t. act_lift (journal_of t)))
       (\<lambda>e. case e of
          ValueError _ \<Rightarrow> act_ret corrupted_journal
        | OSError _ \<Rightarrow> act_ret corrupted_journal
        | _ \<Rightarrow> act_raise e))"

text \<open>A state named repaired carries its own proof.\<close>

definition all_true :: "json \<Rightarrow> bool" where
  "all_true v = (case v of JObj kvs \<Rightarrow> kvs \<noteq> [] \<and> list_all (\<lambda>(k, x). x = JBool True) kvs | _ \<Rightarrow> False)"

definition field :: "(string \<times> json) list \<Rightarrow> string \<Rightarrow> json" where
  "field kvs k = (case map_of kvs k of None \<Rightarrow> JNull | Some v \<Rightarrow> v)"

definition require_genuine_network_repaired_evidence :: "(string \<times> json) list \<Rightarrow> exn + unit" where
  "require_genuine_network_repaired_evidence entry =
     (if field entry ''network_ok'' \<noteq> JBool True then
        Inl (ValueError ''invariant violation: 'network_repaired' requires network_ok=True explicitly'')
      else if \<not> truthy (field entry ''target_interface'') then
        Inl (ValueError ''invariant violation: 'network_repaired' requires a genuine, non-empty target_interface'')
      else if \<not> is_obj (field entry ''verification'') \<or> \<not> truthy (field entry ''verification'') then
        Inl (ValueError ''invariant violation: 'network_repaired' requires non-empty explicit target-bound verification evidence'')
      else if \<not> all_true (field entry ''verification'') then
        Inl (ValueError ''invariant violation: 'network_repaired' requires every verification check to be exactly True'')
      else Inr ())"

text \<open>\<open>journal.get("history", []) + [entry]\<close>\<close>
definition history_plus :: "json \<Rightarrow> json \<Rightarrow> exn + json" where
  "history_plus journal entry =
     (case get_or journal ''history'' (JList []) of
        Inl e \<Rightarrow> Inl e
      | Inr (JList xs) \<Rightarrow> Inr (JList (xs @ [entry]))
      | Inr _ \<Rightarrow> Inl (TypeError ''unsupported operand type(s) for +''))"

definition record_transition ::
    "'m console \<Rightarrow> string \<Rightarrow> json \<Rightarrow> string \<Rightarrow> (string \<times> json) list \<Rightarrow> (('m, event) host, json) act" where
  "record_transition co dir journal state entry =
     (if state \<notin> set STATES then act_raise (AssertionError (''unknown state '' @ py_repr state))
      else act_seq (act_lift (if state = ''network_repaired'' then require_genuine_network_repaired_evidence entry else Inr ()))
        (act_bind (off_runner (co_stamp co)) (\<lambda>ts.
         act_bind (act_lift (history_plus journal (JObj ([(''state'', JStr state), (''ts'', JStr ts)] @ entry)))) (\<lambda>history.
         case JObj [(''state'', JStr state), (''history'', history)] of j \<Rightarrow>
         act_seq (durable_write co dir (journal_path dir) (json_dumps indent2 j)) (act_ret j)))))"

text \<open>The last entry of a state; \<open>StopIteration\<close> when there is none.\<close>

fun first_of :: "string \<Rightarrow> json list \<Rightarrow> exn + json" where
  "first_of state [] = Inl StopIteration"
| "first_of state (e # es) =
     (case item e ''state'' of Inl x \<Rightarrow> Inl x | Inr s \<Rightarrow> if s = JStr state then Inr e else first_of state es)"

definition last_of :: "json \<Rightarrow> string \<Rightarrow> exn + json" where
  "last_of journal state =
     (case item journal ''history'' of
        Inl e \<Rightarrow> Inl e
      | Inr h \<Rightarrow> (case json_iter h of Inl e \<Rightarrow> Inl e | Inr es \<Rightarrow> first_of state (rev es)))"

text \<open>\<open>_last(journal, state)[key]\<close>\<close>
definition last_field :: "json \<Rightarrow> string \<Rightarrow> string \<Rightarrow> exn + json" where
  "last_field journal state k = (case last_of journal state of Inl e \<Rightarrow> Inl e | Inr e \<Rightarrow> item e k)"

definition in_state :: "json \<Rightarrow> string \<Rightarrow> bool" where
  "in_state journal state = (item journal ''state'' = Inr (JStr state))"

section \<open>The diagnostic tools\<close>

definition install_diagnostic_tools :: "'m os \<Rightarrow> (('m, call) host, (string \<times> json) list) act" where
  "install_diagnostic_tools os =
     act_bind (run os (install_argv DIAGNOSTIC_PACKAGES) 300) (\<lambda>p.
     act_ret [(''ok'', JBool (returncode p = 0)), (''returncode'', JInt (returncode p)),
       (''detail'', JStr (last_chars 2000 (if returncode p = 0 then stdout p
          else if stderr p \<noteq> [] then stderr p else stdout p)))])"

definition status_line :: "(string \<times> bool) list \<Rightarrow> string \<Rightarrow> (string \<times> bool) list" where
  "status_line installed line =
     (case dropWhile (\<lambda>c. c \<noteq> CHR '' '') line of
        [] \<Rightarrow> installed
      | _ # rest \<Rightarrow> AList.update (takeWhile (\<lambda>c. c \<noteq> CHR '' '') line) (contains ''install ok installed'' rest) installed)"

definition verify_result_fields :: "(string \<times> bool) list \<Rightarrow> string \<Rightarrow> string \<Rightarrow> bool \<Rightarrow> json \<Rightarrow> (string \<times> json) list" where
  "verify_result_fields installed enabled active listening functional =
     (let missing = filter (\<lambda>p. map_of installed p \<noteq> Some True) DIAGNOSTIC_PACKAGES;
          safe = (enabled = ''disabled'' \<and> active \<noteq> ''active'' \<and> \<not> listening);
          ok = (missing = [] \<and> safe)
      in [(''ok'', JBool ok),
          (''reason'', JStr (if ok then []
             else if missing \<noteq> [] then ''missing package(s): '' @ join '', '' missing
             else ''iperf3 not safe: enabled='' @ enabled @ '' active='' @ active @ '' listening='' @
               (if listening then ''True'' else ''False''))),
          (''installed'', JObj (map (\<lambda>(k, b). (k, JBool b)) installed)), (''iperf3_enabled'', JStr enabled),
          (''iperf3_active'', JStr active), (''iperf3_listening'', JBool listening), (''iperf3_safe'', JBool safe),
          (''functional'', functional)])"

definition verify_diagnostic_tools :: "'m os \<Rightarrow> ('m, json list) act \<Rightarrow> (('m, call) host, (string \<times> json) list) act" where
  "verify_diagnostic_tools os list_interfaces_fn =
     act_bind (run os ([''dpkg-query'', ''-W'', ''-f=${Package} ${Status}'' @ [CHR 0x0A]] @ DIAGNOSTIC_PACKAGES) 15) (\<lambda>dpkg.
     act_bind (run os [''systemctl'', ''is-enabled'', ''iperf3''] 10) (\<lambda>enabled.
     act_bind (run os [''systemctl'', ''is-active'', ''iperf3''] 10) (\<lambda>active.
     act_bind (run os [''ss'', ''-tln''] 10) (\<lambda>listen.
     act_bind (collect_sensors os) (\<lambda>sensors.
     act_bind (collect_nvme os) (\<lambda>nvme.
     act_bind (collect_smart os) (\<lambda>smart.
     act_bind (collect_ethtool os list_interfaces_fn) (\<lambda>eth.
     act_ret (verify_result_fields (foldl status_line [] (splitlines (stdout dpkg))) (strip (stdout enabled))
       (strip (stdout active)) (list_ex (contains '':5201'') (splitlines (stdout listen)))
       (JObj [(''lm-sensors'', collected_json ''chips'' sensors), (''nvme-cli'', collected_json ''devices'' nvme),
         (''smartmontools'', collected_json ''devices'' smart), (''ethtool'', collected_json ''interfaces'' eth)]))))))))))"

section \<open>The combined proposal\<close>

definition format_setup_intent_status :: string where
  "format_setup_intent_status = join [CHR 0x0A]
     [''Setup-intent bundle: none staged for this boot.'',
      ''Where a colocated verification key is used elsewhere in this project,'',
      ''it is an INTEGRITY/CORRUPTION check only, per PRD SS5.6 - it is not'',
      ''authentication, and it is never the authorization gate for this'',
      ''action. Only a real CONFIRM keystroke, read below, authorizes anything.'']"

text \<open>The lines of the network part, without its own header and prompt.\<close>
definition network_lines :: "json \<Rightarrow> exn + json list" where
  "network_lines diagnosis =
     (case item diagnosis ''needs_repair'' of
        Inl e \<Rightarrow> Inl e
      | Inr needs \<Rightarrow>
          if truthy needs then
            (case format_proposal_for_tty1 diagnosis of
               Inl e \<Rightarrow> Inl e
             | Inr t \<Rightarrow> (case splitlines t of ls \<Rightarrow> Inr (map JStr (drop 2 (take (length ls - 3) ls)))))
          else Inr [JStr ''Network: lifeline already healthy - no repair needed.''])"

definition proposal_tail :: "json list" where
  "proposal_tail =
     map JStr ([[], ''Diagnostic tools proposed for installation (only after network verifies):''] @
       map (\<lambda>p. ''  - '' @ p) DIAGNOSTIC_PACKAGES @
       [[], ''Rollback and verification:'',
        ''  An independent rollback timer is armed BEFORE any network write.'',
        ''  Address, target-bound route/gateway, DNS, and HTTPS are independently'',
        ''  re-verified after. Package installation is refused unless that'',
        ''  verification succeeds; the completion marker is written only after'',
        ''  package installation AND functional verification both succeed.'', [],
        format_setup_intent_status, [],
        ''Type CONFIRM and press Enter to proceed. No timeout. No default.'']) @ [border 64]"

definition format_full_proposal :: "json \<Rightarrow> json \<Rightarrow> json \<Rightarrow> exn + string" where
  "format_full_proposal installed listed_evidence diagnosis =
     (case (json_iter listed_evidence, network_lines diagnosis) of
        (Inr es, Inr net) \<Rightarrow>
          joined [CHR 0x0A] (JList ([border 64, JStr ''Baseline first-boot: detected state and proposed actions'', JStr [],
            JStr (''Proxmox installation: '' @ (if truthy installed then ''DETECTED'' else ''NOT DETECTED''))] @
            map (\<lambda>e. JStr (''  - '' @ json_str e)) es @ [JStr []] @ net @ proposal_tail))
      | (Inl e, _) \<Rightarrow> Inl e
      | (_, Inl e) \<Rightarrow> Inl e)"

section \<open>The exported configuration\<close>

definition resolve_network_interface :: "json \<Rightarrow> exn + string" where
  "resolve_network_interface journal =
     (case last_field journal ''network_repaired'' ''target_interface'' of
        Inl StopIteration \<Rightarrow> Inr DEFAULT_NETWORK_INTERFACE
      | Inl e \<Rightarrow> Inl e
      | Inr v \<Rightarrow> Inr (if truthy v then json_str v else DEFAULT_NETWORK_INTERFACE))"

definition SAYS :: "string \<Rightarrow> string" where "SAYS msg = ''[baseline-firstboot] '' @ msg"

definition apply_without_config ::
    "'m os \<Rightarrow> 'm console \<Rightarrow> ('m, json) act \<Rightarrow> bool \<Rightarrow> (('m, event) host, apply_summary option) act" where
  "apply_without_config os co tether_fn enforce_lan_only =
     act_seq (say co (SAYS ''configurator settings: no exported config file found - nothing to apply.''))
     (if enforce_lan_only then
        act_bind (on_runner (apply_stored_config os tether_fn None DEFAULT_NETWORK_INTERFACE True)) (\<lambda>lan.
        act_seq (say co (SAYS (''LAN-only firewall: '' @ (if applied_names lan \<noteq> [] then ''active'' else ''NOT applied''))))
          (act_ret None))
      else act_ret None)"

definition apply_configurator_settings ::
    "'m os \<Rightarrow> 'm console \<Rightarrow> ('m, json) act \<Rightarrow> json \<Rightarrow> bool \<Rightarrow> (('m, event) host, apply_summary option) act" where
  "apply_configurator_settings os co tether_fn journal enforce_lan_only =
     act_bind (act_catch (act_bind (on_runner (load_config os DEFAULT_CONFIG_PATH)) (\<lambda>c. act_ret (Inr c)))
       (\<lambda>e. act_ret (Inl e))) (\<lambda>loaded.
     case loaded of
       Inl e \<Rightarrow>
         act_seq (say co (SAYS (''configurator settings: could not read config file - '' @ exn_str e))) (act_ret None)
     | Inr c \<Rightarrow>
         (case (if c = Some JNull then None else c) of
            None \<Rightarrow> apply_without_config os co tether_fn enforce_lan_only
          | Some config \<Rightarrow>
              act_bind (act_lift (resolve_network_interface journal)) (\<lambda>interface.
              act_bind (on_runner (apply_stored_config os tether_fn (Some config) interface enforce_lan_only)) (\<lambda>s.
              act_seq (say co (SAYS (''configurator settings applied: '' @ py_repr_list (applied_names s) @ '' skipped: '' @
                  py_repr_list (skipped_names s) @ '' failed: '' @ py_repr_list (failed_names s))))
                (act_ret (Some s))))))"

section \<open>The state machine\<close>

record boot_result =
  bo_action :: string
  bo_detail :: json
  bo_allowed :: bool

definition boot_result :: "string \<Rightarrow> json \<Rightarrow> bool \<Rightarrow> boot_result" where
  "boot_result act d allowed = \<lparr>bo_action = act, bo_detail = d, bo_allowed = allowed\<rparr>"

text \<open>What \<open>run\<close> is given: the machine behind the runner, the console, the lifeline check, and what else it calls.\<close>

record 'm boot =
  b_lib :: pylib
  b_os :: "'m os"
  b_console :: "'m console"
  b_lifeline :: "('m, fact list) act"
  b_interfaces :: "('m, json list) act"
  b_tether :: "('m, json) act"
  b_attempt :: string
  b_dir :: string
  b_fuel :: nat
  b_patience :: nat

type_synonym 'm stage = "json \<Rightarrow> (('m, event) host, boot_result + json) act"

definition enter :: "'m boot \<Rightarrow> json \<Rightarrow> string \<Rightarrow> (string \<times> json) list \<Rightarrow> (('m, event) host, json) act" where
  "enter b = record_transition (b_console b) (b_dir b)"

definition tell :: "'m boot \<Rightarrow> string \<Rightarrow> (('m, event) host, unit) act" where
  "tell b msg = say (b_console b) (SAYS msg)"

text \<open>\<open>if journal["state"] == s:\<close> and what follows it, else on to the next test.\<close>
definition stage_in :: "string \<Rightarrow> 'm stage \<Rightarrow> 'm stage" where
  "stage_in s body journal = (if in_state journal s then body journal else act_ret (Inr journal))"

definition next_stage :: "'m stage \<Rightarrow> 'm stage \<Rightarrow> 'm stage" where
  "next_stage a b journal = act_bind (a journal) (\<lambda>r. case r of Inl x \<Rightarrow> act_ret (Inl x) | Inr j \<Rightarrow> b j)"

definition go_on :: "(('m, event) host, json) act \<Rightarrow> (('m, event) host, boot_result + json) act" where
  "go_on m = act_bind m (\<lambda>j. act_ret (Inr j))"

definition stage_new :: "'m boot \<Rightarrow> 'm stage" where
  "stage_new b = stage_in ''new'' (\<lambda>journal. go_on (enter b journal ''created'' []))"

definition opt_text :: "string option \<Rightarrow> json" where
  "opt_text v = (case v of None \<Rightarrow> JNull | Some t \<Rightarrow> JStr t)"

definition stage_created :: "'m boot \<Rightarrow> 'm stage" where
  "stage_created b = stage_in ''created'' (\<lambda>journal.
     act_bind (on_runner (detect_proxmox_install (b_os b))) (\<lambda>d.
     go_on (enter b journal ''detected'' [(''proxmox_installed'', JBool (is_installed d)),
       (''proxmox_version'', opt_text (version d)), (''proxmox_evidence'', texts (found_evidence d))])))"

definition stage_detected :: "'m boot \<Rightarrow> 'm stage" where
  "stage_detected b = stage_in ''detected'' (\<lambda>journal.
     act_bind (on_runner (discover (b_lifeline b))) (\<lambda>discovery.
     go_on (enter b journal ''discovered'' [(''discovery'', discovery)])))"

definition stage_discovered :: "'m boot \<Rightarrow> 'm stage" where
  "stage_discovered b = stage_in ''discovered'' (\<lambda>journal.
     act_bind (act_lift (last_field journal ''discovered'' ''discovery'')) (\<lambda>discovery.
     act_bind (act_lift (item discovery ''lifeline_ok'')) (\<lambda>ok.
     act_bind (if truthy ok then act_ret (no_proposal False [])
               else on_runner (diagnose (b_fuel b) (b_os b) discovery)) (\<lambda>diagnosis.
     go_on (enter b journal ''proposed'' [(''diagnosis'', diagnosis)])))))"

definition stage_proposed :: "'m boot \<Rightarrow> 'm stage" where
  "stage_proposed b = stage_in ''proposed'' (\<lambda>journal.
     act_bind (act_lift (last_field journal ''proposed'' ''diagnosis'')) (\<lambda>diagnosis.
     act_bind (act_lift (item diagnosis ''needs_repair'')) (\<lambda>needs.
     act_bind (if truthy needs then act_lift (item diagnosis ''mode'') else act_ret (JStr [])) (\<lambda>mode.
     if mode = JNull then
       act_bind (act_lift (item diagnosis ''reason'')) (\<lambda>reason1.
       act_seq (tell b (''lifeline broken, no safe automatic repair could be derived: '' @ json_str reason1))
       (act_seq (tell b ''remaining at tty1 - no automatic retry, no package installation.'')
         (act_ret (Inl (boot_result ''refused'' reason1 False)))))
     else
       act_bind (act_lift (last_of journal ''detected'')) (\<lambda>detection.
       act_bind (act_lift (item detection ''proxmox_installed'')) (\<lambda>installed.
       act_bind (act_lift (item detection ''proxmox_evidence'')) (\<lambda>evidence.
       act_seq (act_lift (last_field journal ''discovered'' ''discovery''))
       (act_bind (act_lift (format_full_proposal installed evidence diagnosis)) (\<lambda>proposal.
       act_seq (say (b_console b) proposal)
       (act_bind (wait_for_confirmation (b_patience b) (b_console b)) (\<lambda>confirmed.
        if \<not> confirmed then
          act_seq (tell b ''not confirmed - no change made.'') (act_ret (Inl (boot_result ''declined'' JNull False)))
        else go_on (enter b journal ''confirmed'' []))))))))))))"

text \<open>What the confirmed stage finds: whether the network is well, a detail, the evidence and the interface it is bound to.\<close>

definition repair_network :: "'m boot \<Rightarrow> json \<Rightarrow> (('m, event) host, bool \<times> string \<times> (string \<times> bool) list \<times> json) act" where
  "repair_network b diagnosis =
     act_bind (act_lift (item diagnosis ''mode'')) (\<lambda>mode.
     act_bind (act_lift (item diagnosis ''target'')) (\<lambda>target.
     act_bind (on_runner (repair_target (b_lib b) (b_fuel b) (b_os b) (b_attempt b) ''firstboot-statemachine''
       (b_lifeline b) mode target)) (\<lambda>r. act_ret (r_ok r, r_detail r, verification r, target))))"

definition healthy_network :: "'m boot \<Rightarrow> json \<Rightarrow> (('m, event) host, bool \<times> string \<times> (string \<times> bool) list \<times> json) act" where
  "healthy_network b discovery =
     act_bind (act_lift (item discovery ''facts'')) (\<lambda>facts.
     act_bind (act_lift (facts_verification facts)) (\<lambda>v.
     act_bind (on_runner (observed_dev (b_os b) facts)) (\<lambda>dev.
     act_ret (True, ''lifeline already healthy - no repair needed'', v, JStr (case dev of None \<Rightarrow> [] | Some d \<Rightarrow> d)))))"

definition stage_confirmed :: "'m boot \<Rightarrow> 'm stage" where
  "stage_confirmed b = stage_in ''confirmed'' (\<lambda>journal.
     act_bind (act_lift (last_field journal ''proposed'' ''diagnosis'')) (\<lambda>diagnosis.
     act_bind (act_lift (last_field journal ''discovered'' ''discovery'')) (\<lambda>discovery.
     act_bind (act_lift (item diagnosis ''needs_repair'')) (\<lambda>needs.
     act_bind (if truthy needs then repair_network b diagnosis else healthy_network b discovery)
       (\<lambda>(ok, why1, checks, target).
     act_seq (tell b (''network result: '' @ (if ok then ''success'' else ''FAILED'') @ '' - '' @ why1))
     (if ok then
        go_on (enter b journal ''network_repaired'' [(''network_ok'', JBool True), (''target_interface'', target),
          (''verification'', JObj (map (\<lambda>(k, v). (k, JBool v)) checks)), (''network_detail'', JStr why1)])
      else
        act_seq (enter b journal ''network_repair_failed'' [(''network_ok'', JBool False), (''network_detail'', JStr why1)])
        (act_seq (tell b ''networking did not verify - package installation refused, not committing.'')
          (act_ret (Inl (boot_result ''network_failed'' (JStr why1) False))))))))))"

definition stage_failed :: "'m boot \<Rightarrow> 'm stage" where
  "stage_failed b = stage_in ''network_repair_failed'' (\<lambda>journal.
     act_bind (act_lift (last_field journal ''network_repair_failed'' ''network_detail'')) (\<lambda>d.
     act_ret (Inl (boot_result ''network_failed'' d False))))"

definition stage_repaired :: "'m boot \<Rightarrow> 'm stage" where
  "stage_repaired b = stage_in ''network_repaired'' (\<lambda>journal.
     act_seq (tell b ''installing diagnostic tools...'')
     (act_bind (on_runner (install_diagnostic_tools (b_os b))) (\<lambda>result.
      act_bind (enter b journal ''packages_installed'' result) (\<lambda>j.
      if field result ''ok'' \<noteq> JBool True then
        act_seq (tell b (''package installation FAILED - not committing: '' @ json_str (field result ''detail'')))
          (act_ret (Inl (boot_result ''packages_failed'' (field result ''detail'') True)))
      else act_ret (Inr j)))))"

definition stage_installed :: "'m boot \<Rightarrow> 'm stage" where
  "stage_installed b = stage_in ''packages_installed'' (\<lambda>journal.
     act_bind (act_lift (last_field journal ''packages_installed'' ''ok'')) (\<lambda>ok.
     if \<not> truthy ok then
       act_bind (act_lift (last_field journal ''packages_installed'' ''detail'')) (\<lambda>d.
       act_ret (Inl (boot_result ''packages_failed'' d True)))
     else
       act_seq (tell b ''verifying diagnostic tools...'')
       (act_bind (on_runner (verify_diagnostic_tools (b_os b) (b_interfaces b))) (\<lambda>result.
        act_bind (enter b journal ''packages_verified'' result) (\<lambda>j.
        act_seq (tell b (''verification: '' @ (if field result ''ok'' = JBool True then ''success'' else ''FAILED'') @ '' - '' @
          json_str (field result ''reason'')))
        (if field result ''ok'' \<noteq> JBool True then
           act_seq (tell b ''package verification FAILED - not committing.'')
             (act_ret (Inl (boot_result ''packages_verify_failed'' (field result ''reason'') True)))
         else act_ret (Inr j)))))))"

definition stage_verified :: "'m boot \<Rightarrow> 'm stage" where
  "stage_verified b = stage_in ''packages_verified'' (\<lambda>journal.
     act_bind (act_lift (last_of journal ''packages_verified'')) (\<lambda>e.
     act_bind (act_lift (item e ''ok'')) (\<lambda>ok.
     if \<not> truthy ok then
       act_bind (act_lift (get_or e ''reason'' (JStr []))) (\<lambda>d. act_ret (Inl (boot_result ''packages_verify_failed'' d True)))
     else
       act_seq (mark_complete (b_console b) (b_dir b))
       (act_bind (enter b journal ''committed'' []) (\<lambda>j.
        act_seq (tell b ''COMMITTED. Marker written - will not re-run automatically.'') (act_ret (Inr j)))))))"

definition early_stages :: "'m boot \<Rightarrow> 'm stage" where
  "early_stages b = next_stage (stage_new b) (next_stage (stage_created b) (next_stage (stage_detected b)
     (next_stage (stage_discovered b) (stage_proposed b))))"

definition late_stages :: "'m boot \<Rightarrow> 'm stage" where
  "late_stages b = next_stage (stage_confirmed b) (next_stage (stage_failed b) (next_stage (stage_repaired b)
     (next_stage (stage_installed b) (stage_verified b))))"

definition finish :: "'m boot \<Rightarrow> boot_result + json \<Rightarrow> (('m, event) host, boot_result) act" where
  "finish b r =
     (case r of
        Inl x \<Rightarrow> act_ret x
      | Inr journal \<Rightarrow>
          act_seq (apply_configurator_settings (b_os b) (b_console b) (b_tether b) journal True)
          (act_seq (tell b ''state machine run finished.'') (act_ret (boot_result ''committed'' JNull True))))"

definition run_first_boot :: "'m boot \<Rightarrow> (('m, event) host, boot_result) act" where
  "run_first_boot b =
     act_bind (already_completed (b_console b) (b_dir b)) (\<lambda>completed.
     case completed of
       Some ts \<Rightarrow>
         act_seq (tell b (''previous run already completed at '' @ ts @ '' - not re-triggering.''))
         (act_bind (load_journal (b_console b) (b_dir b)) (\<lambda>journal.
          act_seq (apply_configurator_settings (b_os b) (b_console b) (b_tether b) journal False)
            (act_ret (boot_result ''already_completed'' (JStr ts) True))))
     | None \<Rightarrow>
         act_bind (load_journal (b_console b) (b_dir b)) (\<lambda>journal.
         act_seq (act_when (get_or journal ''journal_was_corrupted'' JNull = Inr (JBool True))
           (tell b (''journal was corrupted or unreadable - starting fresh from discovery '' @
             ''(fail-closed; no consequential state is ever resumed from an untrusted journal).'')))
         (act_bind (next_stage (early_stages b) (late_stages b) journal) (finish b))))"

definition boot_main :: "'m boot \<Rightarrow> (('m, event) host, int) act" where
  "boot_main b = act_bind (run_first_boot b) (\<lambda>r.
     act_ret (if bo_action r = ''committed'' \<or> bo_action r = ''already_completed'' then 0 else 1))"

end
