(* ===== verification/FirstBootSafety.thy ===== *)
theory FirstBootSafety
  imports FirstBoot
begin

text \<open>
  What a first boot does in which order. \<open>cautious\<close> reads a sequence of events from the left: an event that is not harmless is
  allowed only when one before it authorizes it. \<open>careful\<close> says this of an action, with what then holds of its result; its
  rules follow the structure of an action, so that each stage of the first boot takes one lemma.
\<close>

section \<open>Authorized events\<close>

definition ORDER :: "string list" where
  "ORDER = [''new'', ''created'', ''detected'', ''discovered'', ''proposed'', ''confirmed'', ''network_repaired'',
     ''network_repair_failed'', ''packages_installed'', ''packages_verified'', ''committed'']"

definition at_least :: "nat \<Rightarrow> json \<Rightarrow> bool" where
  "at_least k j = list_ex (in_state j) (drop k ORDER)"

text \<open>A command that only looks, and the events without any other.\<close>

definition looks_only :: "call \<Rightarrow> bool" where
  "looks_only c =
     (is_query c \<or> (case c of CRead p \<Rightarrow> True | CListdir p \<Rightarrow> True | CExists p \<Rightarrow> True
        | CRun argv t \<Rightarrow> argv \<in> set ROUTE_QUERIES | _ \<Rightarrow> False))"

definition harmless :: "event \<Rightarrow> bool" where
  "harmless e = (case e of Called c \<Rightarrow> looks_only c | _ \<Rightarrow> True)"

text \<open>
  CONFIRM from the terminal; or a journal or a marker of a boot before this one, whose state is behind the confirmation.
\<close>

definition authorizes :: "string \<Rightarrow> event \<Rightarrow> bool" where
  "authorizes dir e =
     (case e of
        Heard line \<Rightarrow> is_confirmation line
      | Found path t \<Rightarrow> path = marker_path dir \<or>
          path = journal_path dir \<and> (case journal_of t of Inl x \<Rightarrow> False | Inr j \<Rightarrow> at_least 5 j)
      | _ \<Rightarrow> False)"

fun cautious :: "string \<Rightarrow> bool \<Rightarrow> event list \<Rightarrow> bool" where
  "cautious dir ok [] = True"
| "cautious dir ok (e # es) = ((harmless e \<or> ok) \<and> cautious dir (ok \<or> authorizes dir e) es)"

lemma cautious_True [simp]: "cautious dir True es"
  by (induction es) auto

lemma cautious_append:
  "cautious dir ok (as @ bs) \<longleftrightarrow> cautious dir ok as \<and> cautious dir (ok \<or> list_ex (authorizes dir) as) bs"
  by (induction as arbitrary: ok) (auto simp: disj_assoc)

lemma cautious_harmless: "list_all harmless es \<Longrightarrow> cautious dir ok es"
  by (induction es arbitrary: ok) auto

text \<open>Read by position: what comes before an event that is not harmless.\<close>
lemma cautious_at:
  "cautious dir False es \<Longrightarrow> es = ps @ e # qs \<Longrightarrow> harmless e \<or> list_ex (authorizes dir) ps"
  by (auto simp: cautious_append)

definition careful :: "string \<Rightarrow> bool \<Rightarrow> (('m, event) host, 'a) act \<Rightarrow> (bool \<Rightarrow> 'a \<Rightarrow> bool) \<Rightarrow> bool" where
  "careful dir ok m Q \<longleftrightarrow> (\<forall>h. \<exists>new. calls (snd (m h)) = calls h @ new \<and> cautious dir ok new \<and>
     (\<forall>x. fst (m h) = Inr x \<longrightarrow> Q (ok \<or> list_ex (authorizes dir) new) x))"

lemma carefulI:
  "(\<And>h. \<exists>new. calls (snd (m h)) = calls h @ new \<and> cautious dir ok new \<and>
     (\<forall>x. fst (m h) = Inr x \<longrightarrow> Q (ok \<or> list_ex (authorizes dir) new) x)) \<Longrightarrow> careful dir ok m Q"
  by (simp add: careful_def)

lemma careful_mono: "careful dir ok m Q \<Longrightarrow> (\<And>b x. Q b x \<Longrightarrow> R b x) \<Longrightarrow> careful dir ok m R"
  unfolding careful_def by meson

lemma careful_bind:
  assumes m: "careful dir ok m Q" and f: "\<And>b x. Q b x \<Longrightarrow> careful dir b (f x) R"
  shows "careful dir ok (act_bind m f) R"
proof (rule carefulI)
  fix h
  obtain r u where u: "m h = (r, u)" by fastforce
  obtain new where new: "calls u = calls h @ new" "cautious dir ok new"
      "\<forall>x. r = Inr x \<longrightarrow> Q (ok \<or> list_ex (authorizes dir) new) x"
    using m [unfolded careful_def, rule_format, of h] u by auto
  show "\<exists>new. calls (snd (act_bind m f h)) = calls h @ new \<and> cautious dir ok new \<and>
      (\<forall>x. fst (act_bind m f h) = Inr x \<longrightarrow> R (ok \<or> list_ex (authorizes dir) new) x)"
  proof (cases r)
    case (Inl e)
    with u new show ?thesis by auto
  next
    case (Inr x)
    let ?b = "ok \<or> list_ex (authorizes dir) new"
    obtain more where more: "calls (snd (f x u)) = calls u @ more" "cautious dir ?b more"
        "\<forall>y. fst (f x u) = Inr y \<longrightarrow> R (?b \<or> list_ex (authorizes dir) more) y"
      using f [of ?b x, unfolded careful_def, rule_format, of u] new(3) Inr by blast
    have "act_bind m f h = f x u" using u Inr by simp
    then show ?thesis
      using more new by (intro exI [of _ "new @ more"]) (simp add: cautious_append disj_assoc)
  qed
qed

lemma careful_seq: "careful dir ok m Q \<Longrightarrow> (\<And>b x. Q b x \<Longrightarrow> careful dir b k R) \<Longrightarrow> careful dir ok (act_seq m k) R"
  unfolding act_seq_def by (rule careful_bind)

lemma careful_ret: "Q ok x \<Longrightarrow> careful dir ok (act_ret x) Q"
  by (simp add: careful_def)

lemma careful_raise: "careful dir ok (act_raise e) Q"
  by (simp add: careful_def)

lemma careful_lift: "(\<And>x. r = Inr x \<Longrightarrow> Q ok x) \<Longrightarrow> careful dir ok (act_lift r) Q"
  by (simp add: careful_def)

text \<open>An action that makes only harmless calls, and any action once the boot is authorized.\<close>

lemma careful_emits: "emits harmless m \<Longrightarrow> careful dir ok m (\<lambda>b x. ok \<longrightarrow> b)"
  unfolding careful_def by (metis cautious_harmless emitsD)

lemma careful_any: "emits (\<lambda>e. True) m \<Longrightarrow> careful dir True m (\<lambda>b x. b)"
  unfolding careful_def by (metis cautious_True emitsD)

lemma careful_step:
  "emits harmless m \<Longrightarrow> (\<And>h x h'. m h = (Inr x, h') \<Longrightarrow> P x) \<Longrightarrow> careful dir ok m (\<lambda>b x. (ok \<longrightarrow> b) \<and> P x)"
  unfolding careful_def by (metis cautious_harmless emitsD prod.collapse)

section \<open>The events of the parts\<close>

lemma emits_on_runner: "emits P m \<Longrightarrow> (\<And>c. P c \<Longrightarrow> R (Called c)) \<Longrightarrow> emits R (on_runner m)"
proof (rule emitsI)
  fix h :: "('a, event) host"
  assume P: "emits P m" "\<And>c. P c \<Longrightarrow> R (Called c)"
  obtain r g where g: "m \<lparr>machine = machine h, calls = []\<rparr> = (r, g)" by fastforce
  obtain new where "calls g = new" "list_all P new" using emits_resultD [OF P(1) g] by auto
  then have "list_all R (map Called (calls g))" using P(2) by (auto simp: list_all_iff)
  then show "\<exists>new. calls (snd (on_runner m h)) = calls h @ new \<and> list_all R new"
    by (simp add: on_runner_def g)
qed

lemma emits_on_runner_any [emits_intros]: "emits (\<lambda>e. True) (on_runner m)"
  by (rule emitsI) (simp add: on_runner_def case_prod_unfold list_all_iff)

lemma harmless_simps [simp]:
  "harmless (Said t)" "harmless (Heard t)" "harmless Waited" "harmless (Found p t)" "harmless (Wrote p t)" "harmless (Renamed p q)"
  "harmless (Called c) = looks_only c"
  by (simp_all add: harmless_def)

lemma emits_say [emits_intros]: "P (Said t) \<Longrightarrow> emits P (say co t)"
  unfolding say_def by (rule emits_call)

lemma emits_pause [emits_intros]: "P Waited \<Longrightarrow> emits P (pause co)"
  unfolding pause_def by (rule emits_call)

lemma emits_hear: "(\<And>t. P (Heard t)) \<Longrightarrow> emits P (hear co)"
  by (rule emitsI) (auto simp: hear_def split: prod.split sum.split option.split)

lemma emits_found: "(\<And>t. P (Found path t)) \<Longrightarrow> emits P (found_text co path)"
  by (rule emitsI) (auto simp: found_text_def split: prod.split sum.split)

lemma emits_durable: "(\<And>t. P (Wrote t content)) \<Longrightarrow> (\<And>t. P (Renamed t path)) \<Longrightarrow> emits P (durable_write co dir path content)"
  unfolding durable_write_def by (intro emits_intros emits_call)

lemma emits_tell [emits_intros]: "P (Said (SAYS t)) \<Longrightarrow> emits P (tell b t)"
  unfolding tell_def by (rule emits_say)

lemma emits_record:
  "(\<And>p t. P (Wrote p t)) \<Longrightarrow> (\<And>p q. P (Renamed p q)) \<Longrightarrow> emits P (enter b j s entry)"
  unfolding enter_def record_transition_def by (intro emits_intros emits_durable)

lemma enter_state: "enter b j s entry h = (Inr j', h') \<Longrightarrow> in_state j' s"
  by (auto simp: enter_def record_transition_def act_seq_eq_Inr act_bind_eq_Inr in_state_def item_def split: if_splits)

section \<open>Looking\<close>

lemma looks_only_query: "is_query c \<Longrightarrow> looks_only c"
  by (simp add: looks_only_def)

lemma looks_only_simps [simp]: "looks_only (CRead p)" "looks_only (CListdir p)" "looks_only (CExists p)"
  by (simp_all add: looks_only_def)

lemma detect_looks: "emits looks_only (detect_proxmox_install os)"
  by (rule emits_mono [OF queries_only(1)]) (rule looks_only_query)

lemma discover_looks: "emits looks_only (discover lifeline)"
  unfolding discover_def by (intro emits_intros)

lemma sources_look: "emits looks_only (line_sources os line)"
  unfolding line_sources_def catch_os_error_def
  by (intro emits_option emits_if emits_bind emits_ret emits_catch emits_listdir)
    (auto split: exn.split intro: emits_raise emits_ret)

lemma closure_looks: "emits looks_only (read_closure n os todo seen fs)"
proof (induction n os todo seen fs rule: read_closure.induct)
  case (3 n os path todo seen fs)
  have look: "emits looks_only (catch_os_error (act_bind (read_text os path) (\<lambda>t. act_ret (Some t))) (act_ret None))"
    unfolding catch_os_error_def
    by (intro emits_catch emits_bind emits_read_text emits_ret) (auto split: exn.split intro: emits_raise emits_ret)
  show ?case
    unfolding read_closure.simps
    by (intro emits_if emits_bind emits_option emits_map look sources_look 3)
qed (simp_all only: read_closure.simps emits_ret emits_raise)

lemma config_looks: "emits looks_only (read_interfaces_config n os p)"
  unfolding read_interfaces_config_def by (intro emits_bind emits_ret closure_looks)

lemma route_dev_looks: "set argvs \<subseteq> set ROUTE_QUERIES \<Longrightarrow> emits looks_only (route_dev os argvs)"
proof (induction argvs)
  case (Cons a argvs)
  then show ?case by (auto intro!: emits_intros emits_run simp: looks_only_def)
qed (simp add: emits_ret)

lemma observed_looks: "emits looks_only (observed_dev os facts)"
  unfolding observed_dev_def by (intro emits_intros route_dev_looks) simp

lemma diagnose_looks: "emits looks_only (diagnose n os discovery)"
proof -
  have "emits looks_only (propose n os dev)" for dev
    unfolding propose_def plan_and_derive_def plan_repair_def plan_additive_repair_def
    by (intro emits_intros config_looks)
  then show ?thesis unfolding diagnose_def by (intro emits_intros observed_looks)
qed

section \<open>The stages\<close>

lemma in_state_unique: "in_state j s \<Longrightarrow> in_state j t \<Longrightarrow> s = t"
  by (simp add: in_state_def)

lemma at_leastI: "in_state j (ORDER ! k) \<Longrightarrow> k < length ORDER \<Longrightarrow> at_least k j"
  by (simp add: at_least_def Cons_nth_drop_Suc [symmetric])

lemma at_least_Suc: "at_least k j \<Longrightarrow> k < length ORDER \<Longrightarrow> \<not> in_state j (ORDER ! k) \<Longrightarrow> at_least (Suc k) j"
  by (simp add: at_least_def Cons_nth_drop_Suc [symmetric])

lemma at_least_early:
  assumes "in_state j (ORDER ! k)" "k < 5"
  shows "\<not> at_least 5 j"
proof
  assume "at_least 5 j"
  then obtain s where s: "s \<in> set (drop 5 ORDER)" "in_state j s" by (auto simp: at_least_def list_ex_iff)
  then have "ORDER ! k \<in> set (drop 5 ORDER)" using assms(1) in_state_unique by blast
  moreover have "k = 0 \<or> k = 1 \<or> k = 2 \<or> k = 3 \<or> k = 4" using assms(2) by auto
  ultimately show False by (auto simp: ORDER_def)
qed

text \<open>The journal is in the \<open>k\<close>-th state or behind it, and behind the confirmation only when that is authorized.\<close>

definition reached :: "nat \<Rightarrow> bool \<Rightarrow> json \<Rightarrow> bool" where
  "reached k ok j \<longleftrightarrow> at_least k j \<and> (at_least 5 j \<longrightarrow> ok)"

definition outcome_of :: "nat \<Rightarrow> bool \<Rightarrow> boot_result + json \<Rightarrow> bool" where
  "outcome_of k ok r = (case r of Inl x \<Rightarrow> True | Inr j \<Rightarrow> reached k ok j)"

definition safe_stage :: "string \<Rightarrow> nat \<Rightarrow> nat \<Rightarrow> 'm stage \<Rightarrow> bool" where
  "safe_stage dir k l S \<longleftrightarrow> (\<forall>ok j. reached k ok j \<longrightarrow> careful dir ok (S j) (outcome_of l))"

lemma safe_next: "safe_stage dir k l A \<Longrightarrow> safe_stage dir l n B \<Longrightarrow> safe_stage dir k n (next_stage A B)"
  unfolding safe_stage_def next_stage_def
  by (intro allI impI careful_bind [where Q = "outcome_of l"])
    (auto simp: outcome_of_def split: sum.splits intro!: careful_ret)

text \<open>A stage enters the next state, or ends the run; in another state it passes the journal on.\<close>

definition enters :: "nat \<Rightarrow> bool \<Rightarrow> boot_result + json \<Rightarrow> bool" where
  "enters k ok r = (case r of Inl x \<Rightarrow> True | Inr j \<Rightarrow> in_state j (ORDER ! Suc k) \<and> (k = 4 \<longrightarrow> ok))"

lemma enters_outcome:
  assumes "k < 5" "enters k ok r" shows "outcome_of (Suc k) ok r"
proof (cases r)
  case (Inr j)
  have "Suc k < length ORDER" using assms(1) by (simp add: ORDER_def)
  moreover have j: "in_state j (ORDER ! Suc k)" "k = 4 \<longrightarrow> ok" using assms(2) Inr by (auto simp: enters_def)
  ultimately have "at_least (Suc k) j" by (intro at_leastI)
  moreover have "at_least 5 j \<longrightarrow> ok"
    using j assms(1) at_least_early [OF j(1)] by (cases "k = 4") auto
  ultimately show ?thesis by (simp add: outcome_of_def reached_def Inr)
qed (simp add: outcome_of_def)

lemma safe_in:
  assumes k: "k < 5" "s = ORDER ! k" and body: "\<And>ok j. careful dir ok (body j) (enters k)"
  shows "safe_stage dir k (Suc k) (stage_in s body)"
  unfolding safe_stage_def
proof (intro allI impI)
  fix ok j
  assume r: "reached k ok j"
  have len: "k < length ORDER" using k(1) by (simp add: ORDER_def)
  show "careful dir ok (stage_in s body j) (outcome_of (Suc k))"
  proof (cases "in_state j s")
    case True
    then show ?thesis
      using careful_mono [OF body enters_outcome [OF k(1)]] by (simp add: stage_in_def)
  next
    case False
    have "at_least (Suc k) j" using r at_least_Suc False len by (simp add: reached_def k(2))
    then show ?thesis
      using False r by (auto simp: stage_in_def outcome_of_def reached_def intro!: careful_ret)
  qed
qed

lemma careful_enter:
  assumes "ok \<or> k \<noteq> 4" "s = ORDER ! Suc k"
  shows "careful dir ok (go_on (enter b j s entry)) (enters k)"
proof -
  have "careful dir ok (enter b j s entry) (\<lambda>ok' j'. (ok \<longrightarrow> ok') \<and> in_state j' s)"
    by (rule careful_step) (auto intro: emits_record enter_state)
  then show ?thesis
    unfolding go_on_def by (rule careful_bind) (use assms in \<open>auto simp: enters_def intro!: careful_ret\<close>)
qed

lemma careful_quiet: "emits looks_only m \<Longrightarrow> careful dir ok (on_runner m) (\<lambda>b x. ok \<longrightarrow> b)"
  by (intro careful_emits emits_on_runner) auto

lemma careful_checked: "(\<And>x. careful dir ok (f x) R) \<Longrightarrow> careful dir ok (act_bind (act_lift r) f) R"
  by (cases r) (simp_all add: careful_raise)

lemma careful_ends: "enters k ok (Inl x)"
  by (simp add: enters_def)

lemma safe_new: "safe_stage dir 0 1 (stage_new b)"
  unfolding stage_new_def One_nat_def
  by (intro safe_in careful_enter) (simp_all add: ORDER_def)

lemma safe_created: "safe_stage dir 1 2 (stage_created b)"
proof -
  have "safe_stage dir 1 (Suc 1) (stage_created b)"
    unfolding stage_created_def
    by (intro safe_in careful_bind [OF careful_quiet [OF detect_looks]] careful_enter) (simp_all add: ORDER_def)
  then show ?thesis by (simp add: numeral_2_eq_2)
qed

lemma safe_detected: "safe_stage dir 2 3 (stage_detected b)"
proof -
  have "safe_stage dir 2 (Suc 2) (stage_detected b)"
    unfolding stage_detected_def
    by (intro safe_in careful_bind [OF careful_quiet [OF discover_looks]] careful_enter) (simp_all add: ORDER_def)
  then show ?thesis by (simp add: numeral_3_eq_3 numeral_2_eq_2)
qed

lemma safe_discovered: "safe_stage dir 3 4 (stage_discovered b)"
proof -
  have diag: "careful dir ok (if truthy v then act_ret (no_proposal False []) else on_runner (diagnose n os d)) (\<lambda>b x. True)" for ok v n os d
  proof (cases "truthy v")
    case False
    have "careful dir ok (on_runner (diagnose n os d)) (\<lambda>b x. True)"
      by (rule careful_mono [OF careful_quiet [OF diagnose_looks]]) simp
    then show ?thesis using False by simp
  qed (simp add: careful_ret)
  have "safe_stage dir 3 (Suc 3) (stage_discovered b)"
    unfolding stage_discovered_def
    by (intro safe_in careful_checked careful_bind [OF diag] careful_enter) (simp_all add: ORDER_def)
  then show ?thesis by (simp add: numeral_eq_Suc)
qed

text \<open>Waiting ends with yes only after a line that confirms.\<close>

lemma careful_hear:
  fixes co :: "'m console"
  shows "careful dir ok (hear co) (\<lambda>b got. (ok \<longrightarrow> b) \<and> (\<forall>line. got = Some (Some line) \<longrightarrow> is_confirmation line \<longrightarrow> b))"
proof (rule carefulI)
  fix h :: "('m, event) host"
  obtain r m where m: "co_hear co (machine h) = (r, m)" by fastforce
  show "\<exists>new. calls (snd (hear co h)) = calls h @ new \<and> cautious dir ok new \<and>
      (\<forall>x. fst (hear co h) = Inr x \<longrightarrow> (ok \<longrightarrow> ok \<or> list_ex (authorizes dir) new) \<and>
        (\<forall>line. x = Some (Some line) \<longrightarrow> is_confirmation line \<longrightarrow> ok \<or> list_ex (authorizes dir) new))"
  proof (cases "\<exists>line. r = Inr (Some (Some line))")
    case True
    then obtain line where "r = Inr (Some (Some line))" by blast
    then have "hear co h = (Inr (Some (Some line)), \<lparr>machine = m, calls = calls h @ [Heard line]\<rparr>)"
      using m by (simp add: hear_def)
    then show ?thesis by (intro exI [of _ "[Heard line]"]) (simp add: authorizes_def)
  next
    case False
    then have "hear co h = (r, h\<lparr>machine := m\<rparr>)"
      using m by (auto simp: hear_def split: sum.splits option.splits)
    then show ?thesis using False by (intro exI [of _ "[]"]) auto
  qed
qed

lemma careful_wait: "careful dir ok (wait_for_confirmation n co) (\<lambda>b x. x \<longrightarrow> b)"
proof (induction n arbitrary: ok)
  case 0
  show ?case by (simp only: wait_for_confirmation.simps careful_raise)
next
  case (Suc n)
  have pause: "careful dir ok (pause co) (\<lambda>b x. True)" for ok
    by (rule careful_mono [OF careful_emits]) (auto intro: emits_pause)
  have again: "careful dir b (act_seq (act_when c (pause co)) (wait_for_confirmation n co)) (\<lambda>b x. x \<longrightarrow> b)" for b c
    by (rule careful_seq [where Q = "\<lambda>b x. True"]) (use pause Suc in \<open>auto simp: act_when_def intro: careful_ret\<close>)
  have again': "careful dir b (act_seq (pause co) (wait_for_confirmation n co)) (\<lambda>b x. x \<longrightarrow> b)" for b
    by (rule careful_seq [OF pause]) (rule Suc)
  show ?case
    unfolding wait_for_confirmation.simps
  proof (rule careful_bind [OF careful_hear])
    fix b got
    assume got: "(ok \<longrightarrow> b) \<and> (\<forall>line. got = Some (Some line) \<longrightarrow> is_confirmation line \<longrightarrow> b)"
    show "careful dir b (case got of
       None \<Rightarrow> act_ret False
     | Some None \<Rightarrow> act_seq (pause co) (wait_for_confirmation n co)
     | Some (Some line) \<Rightarrow>
         if is_confirmation line then act_ret True
         else act_seq (act_when (line = []) (pause co)) (wait_for_confirmation n co)) (\<lambda>b x. x \<longrightarrow> b)"
    proof (cases got)
      case None
      then show ?thesis by (simp add: careful_ret)
    next
      case (Some l)
      then show ?thesis using got again again' by (cases l) (auto intro!: careful_ret)
    qed
  qed
qed

lemma careful_tell_end: "careful dir ok (act_seq (tell b t) (act_ret (Inl x))) (enters k)"
  by (rule careful_seq [OF careful_emits]) (auto intro: emits_tell careful_ret careful_ends)

lemma safe_proposed: "safe_stage dir 4 5 (stage_proposed b)"
proof -
  have said: "careful dir ok (say co t) (\<lambda>b x. True)" for ok co t
    by (rule careful_mono [OF careful_emits]) (auto intro: emits_say)
  have told: "careful dir ok (tell b t) (\<lambda>b x. True)" for ok t
    unfolding tell_def by (rule said)
  have decide: "careful dir ok' (if \<not> yes then act_seq (tell b t) (act_ret (Inl x)) else go_on (enter b j ''confirmed'' []))
      (enters 4)" if "yes \<longrightarrow> ok'" for ok' yes t x j
    using that by (auto intro!: careful_tell_end careful_enter simp: ORDER_def)
  have mode: "careful dir ok (if c then act_lift v else act_ret (JStr [])) (\<lambda>b x. True)" for ok c v
    by (auto intro: careful_lift careful_ret)
  have lifted: "careful dir ok (act_lift r) (\<lambda>b x. True)" for ok and r :: "exn + json"
    by (rule careful_lift) simp
  have "safe_stage dir 4 (Suc 4) (stage_proposed b)"
    unfolding stage_proposed_def
  proof (rule safe_in, goal_cases)
    case 1 show ?case by simp
    case 2 show ?case by (simp add: ORDER_def)
  next
    case (3 ok j)
    have refuse: "careful dir ok (act_bind (act_lift r) (\<lambda>reason1. act_seq (tell b (f reason1)) (act_seq (tell b t)
        (act_ret (Inl (g reason1)))))) (enters 4)" for ok and r :: "exn + json" and f t g
      by (intro careful_checked careful_seq [OF told] careful_ret careful_ends)
    show ?case
      by (intro careful_checked careful_bind [OF mode] emits_if)
        (auto intro!: refuse careful_checked careful_seq [OF lifted] careful_seq [OF said] careful_bind [OF careful_wait] decide)
  qed
  then show ?thesis by (simp add: numeral_eq_Suc)
qed

lemma safe_early: "safe_stage dir 0 5 (early_stages b)"
  unfolding early_stages_def
  by (intro safe_next [OF safe_new] safe_next [OF safe_created] safe_next [OF safe_detected] safe_next [OF safe_discovered]
    safe_proposed)

text \<open>Behind the confirmation anything may follow.\<close>

lemma emits_go_on [emits_intros]: "emits P m \<Longrightarrow> emits P (go_on m)"
  unfolding go_on_def by (intro emits_bind emits_ret)

lemma emits_stage_in: "(\<And>j. emits P (body j)) \<Longrightarrow> emits P (stage_in s body j)"
  unfolding stage_in_def by (simp add: emits_ret)

lemma emits_next_stage: "(\<And>j. emits P (A j)) \<Longrightarrow> (\<And>j. emits P (B j)) \<Longrightarrow> emits P (next_stage A B j)"
  unfolding next_stage_def by (intro emits_bind emits_sum emits_ret)

lemma emits_mark: "(\<And>p t. P (Wrote p t)) \<Longrightarrow> (\<And>p q. P (Renamed p q)) \<Longrightarrow> emits P (mark_complete co dir)"
  unfolding mark_complete_def by (intro emits_intros emits_durable)

lemma any_late: "emits (\<lambda>e. True) (late_stages b j)"
  unfolding late_stages_def stage_confirmed_def stage_failed_def stage_repaired_def stage_installed_def stage_verified_def
    repair_network_def healthy_network_def
  by (intro emits_next_stage emits_stage_in emits_intros emits_record emits_mark TrueI)

lemma any_configurator: "emits (\<lambda>e. True) (apply_configurator_settings os co tether_fn j e)"
proof -
  have "emits (\<lambda>e. True) (apply_without_config os co tether_fn e)"
    unfolding apply_without_config_def by (intro emits_intros TrueI)
  then show ?thesis
    unfolding apply_configurator_settings_def by (intro emits_intros TrueI)
qed

lemma any_finish: "emits (\<lambda>e. True) (finish b r)"
  unfolding finish_def by (intro emits_intros any_configurator TrueI)

lemma any_load: "emits (\<lambda>e. True) (load_journal co dir)"
  unfolding load_journal_def
  by (intro emits_intros emits_found TrueI) (auto split: exn.split intro: emits_ret emits_raise)

lemma careful_found:
  "careful dir ok (found_text co path) (\<lambda>b t. (ok \<longrightarrow> b) \<and> (authorizes dir (Found path t) \<longrightarrow> b))"
  by (rule carefulI) (auto simp: found_text_def split: prod.split sum.split)

lemma new_journals: "in_state new_journal ''new''" "in_state corrupted_journal ''new''"
  by (simp_all add: in_state_def item_def new_journal_def corrupted_journal_def)

lemma reached_new: "in_state j ''new'' \<Longrightarrow> reached 0 ok j"
  using at_least_early [of j 0] at_leastI [of j 0] by (simp add: reached_def ORDER_def)

lemma journal_known: "journal_of t = Inr j \<Longrightarrow> at_least 0 j"
  by (auto simp: journal_of_def at_least_def known_state_def STATES_def ORDER_def in_state_def item_def
    split: sum.splits json.splits option.splits if_splits)

lemma careful_catch:
  assumes m: "careful dir ok m Q" and k: "\<And>b e. (ok \<longrightarrow> b) \<Longrightarrow> careful dir b (k e) Q"
  shows "careful dir ok (act_catch m k) Q"
proof (rule carefulI)
  fix h
  obtain r u where u: "m h = (r, u)" by fastforce
  obtain new where new: "calls u = calls h @ new" "cautious dir ok new"
      "\<forall>x. r = Inr x \<longrightarrow> Q (ok \<or> list_ex (authorizes dir) new) x"
    using m [unfolded careful_def, rule_format, of h] u by auto
  show "\<exists>new. calls (snd (act_catch m k h)) = calls h @ new \<and> cautious dir ok new \<and>
      (\<forall>x. fst (act_catch m k h) = Inr x \<longrightarrow> Q (ok \<or> list_ex (authorizes dir) new) x)"
  proof (cases r)
    case (Inl e)
    let ?b = "ok \<or> list_ex (authorizes dir) new"
    obtain more where more: "calls (snd (k e u)) = calls u @ more" "cautious dir ?b more"
        "\<forall>y. fst (k e u) = Inr y \<longrightarrow> Q (?b \<or> list_ex (authorizes dir) more) y"
      using k [of ?b e, unfolded careful_def, rule_format, of u] by blast
    have "act_catch m k h = k e u" using u Inl by (simp add: act_catch_eq)
    then show ?thesis
      using more new by (intro exI [of _ "new @ more"]) (simp add: cautious_append disj_assoc)
  next
    case (Inr x)
    then show ?thesis using u new by (auto simp: act_catch_eq)
  qed
qed

lemma careful_load: "careful dir ok (load_journal co dir) (reached 0)"
proof -
  have looked: "careful dir ok (off_runner f) (\<lambda>b x. ok \<longrightarrow> b)" for f :: "'a \<Rightarrow> (exn + bool) \<times> 'a"
    by (intro careful_emits emits_off_runner)
  have read: "careful dir ok' (act_bind (found_text co (journal_path dir)) (\<lambda>t. act_lift (journal_of t))) (reached 0)" for ok'
    by (rule careful_bind [OF careful_found])
      (auto intro!: careful_lift simp: reached_def authorizes_def dest: journal_known)
  show ?thesis
    unfolding load_journal_def
    by (intro careful_bind [OF looked])
      (auto intro!: careful_catch [OF read] careful_ret careful_raise reached_new new_journals split: exn.split)
qed

lemma careful_completed: "careful dir ok (already_completed co dir) (\<lambda>b x. x \<noteq> None \<longrightarrow> b)"
proof -
  have looked: "careful dir ok (off_runner f) (\<lambda>b x. ok \<longrightarrow> b)" for f :: "'a \<Rightarrow> (exn + bool) \<times> 'a"
    by (intro careful_emits emits_off_runner)
  have "careful dir ok' (act_bind (found_text co (marker_path dir)) (\<lambda>t. act_ret (Some (strip t)))) (\<lambda>b x. x \<noteq> None \<longrightarrow> b)" for ok'
    by (rule careful_bind [OF careful_found]) (auto intro!: careful_ret simp: authorizes_def)
  then show ?thesis
    unfolding already_completed_def by (intro careful_bind [OF looked]) (auto intro: careful_ret)
qed

lemma careful_authorized: "emits (\<lambda>e. True) m \<Longrightarrow> ok \<Longrightarrow> careful dir ok m (\<lambda>b x. True)"
  by (cases ok) (auto intro: careful_mono [OF careful_any])

lemma careful_boot: "careful (b_dir b) False (run_first_boot b) (\<lambda>ok x. True)"
  unfolding run_first_boot_def
proof (rule careful_bind [OF careful_completed])
  fix ok :: bool and completed :: "string option"
  assume fin0: "completed \<noteq> None \<longrightarrow> ok"
  show "careful (b_dir b) ok (case completed of
     Some ts \<Rightarrow>
       act_seq (tell b (''previous run already completed at '' @ ts @ '' - not re-triggering.''))
       (act_bind (load_journal (b_console b) (b_dir b)) (\<lambda>journal.
        act_seq (apply_configurator_settings (b_os b) (b_console b) (b_tether b) journal False)
          (act_ret (boot_result ''already_completed'' (JStr ts) True))))
   | None \<Rightarrow>
       act_bind (load_journal (b_console b) (b_dir b)) (\<lambda>journal.
       act_seq (act_when (get_or journal ''journal_was_corrupted'' JNull = Inr (JBool True))
         (tell b (''journal was corrupted or unreadable - starting fresh from discovery '' @
           ''(fail-closed; no consequential state is ever resumed from an untrusted journal).'')))
       (act_bind (next_stage (early_stages b) (late_stages b) journal) (finish b)))) (\<lambda>ok x. True)"
  proof (cases completed)
    case (Some ts)
    then show ?thesis
      using fin0 by (simp only: option.case) (intro careful_authorized emits_intros any_load any_configurator TrueI, simp)
  next
    case None
    have told: "careful (b_dir b) ok (act_when c (tell b t)) (\<lambda>b x. ok \<longrightarrow> b)" for ok c t
      by (intro careful_emits emits_when emits_tell) simp
    have late: "careful (b_dir b) b' (late_stages b j) (\<lambda>b x. b)" if "reached 5 b' j" for b' j
      using that by (cases b') (auto simp: reached_def intro: careful_any any_late)
    have stages: "careful (b_dir b) b' (next_stage (early_stages b) (late_stages b) j) (\<lambda>b r. (\<exists>x. r = Inl x) \<or> b)"
      if "reached 0 b' j" for b' j
      unfolding next_stage_def
    proof (rule careful_bind)
      show "careful (b_dir b) b' (early_stages b j) (outcome_of 5)"
        using safe_early [of "b_dir b" b] that unfolding safe_stage_def by blast
    next
      fix b2 and r :: "boot_result + json"
      assume "outcome_of 5 b2 r"
      then show "careful (b_dir b) b2 (case r of Inl x \<Rightarrow> act_ret (Inl x) | Inr j \<Rightarrow> late_stages b j)
          (\<lambda>b r. (\<exists>x. r = Inl x) \<or> b)"
        by (auto simp: outcome_of_def split: sum.splits intro: careful_ret careful_mono [OF late])
    qed
    have fin: "careful (b_dir b) b' (finish b r) (\<lambda>ok x. True)" if "(\<exists>x. r = Inl x) \<or> b'" for b' r
      using that
    proof
      assume "\<exists>x. r = Inl x"
      then show ?thesis by (auto simp: finish_def intro: careful_ret)
    next
      assume b'
      then show ?thesis by (intro careful_authorized any_finish)
    qed
    have "careful (b_dir b) b' (act_seq (act_when c (tell b t))
        (act_bind (next_stage (early_stages b) (late_stages b) j) (finish b))) (\<lambda>ok x. True)" if "reached 0 b' j" for b' j c t
    proof (rule careful_seq [OF told])
      fix b2 and u :: unit
      assume "b' \<longrightarrow> b2"
      then have "reached 0 b2 j" using that by (auto simp: reached_def)
      then show "careful (b_dir b) b2 (act_bind (next_stage (early_stages b) (late_stages b) j) (finish b)) (\<lambda>ok x. True)"
        by (intro careful_bind [OF stages fin])
    qed
    then show ?thesis
      unfolding None option.case by (intro careful_bind [OF careful_load])
  qed
qed

text \<open>
  C4. Nothing but looking before CONFIRM. On every machine, whatever the terminal, the files and the commands give and
  however the boot ends: before any call that does more than look there is a line CONFIRM that was heard, or
  a marker or a journal behind the confirmation that was found.
\<close>
theorem nothing_before_confirm:
  "\<exists>events. calls (snd (run_first_boot b h)) = calls h @ events \<and> cautious (b_dir b) False events"
  using careful_boot [of b, unfolded careful_def] by blast

section \<open>A network recorded as repaired\<close>

definition carries_proof :: "(string \<times> json) list \<Rightarrow> bool" where
  "carries_proof entry \<longleftrightarrow> field entry ''network_ok'' = JBool True \<and> truthy (field entry ''target_interface'')
     \<and> all_true (field entry ''verification'')"

text \<open>What is written is a marker, or a journal whose newest entry, in that state, carries its proof.\<close>

definition journal_text :: "string \<Rightarrow> bool" where
  "journal_text t \<longleftrightarrow> (\<exists>older state ts entry.
     t = json_dumps indent2 (JObj [(''state'', JStr state),
           (''history'', JList (older @ [JObj ([(''state'', JStr state), (''ts'', JStr ts)] @ entry)]))])
     \<and> (state = ''network_repaired'' \<longrightarrow> carries_proof entry))"

definition writes_proof :: "event \<Rightarrow> bool" where
  "writes_proof e = (case e of Wrote p t \<Rightarrow> journal_text t \<or> (\<exists>ts. t = ts @ [CHR 0x0A]) | _ \<Rightarrow> True)"

lemma writes_proof_simps [simp]:
  "writes_proof (Called c)" "writes_proof (Said t)" "writes_proof (Heard t)" "writes_proof Waited" "writes_proof (Found p t)"
  "writes_proof (Renamed p q)" "writes_proof (Wrote p t) \<longleftrightarrow> journal_text t \<or> (\<exists>ts. t = ts @ [CHR 0x0A])"
  by (simp_all add: writes_proof_def)

lemma genuine_carries:
  "require_genuine_network_repaired_evidence entry = Inr () \<longleftrightarrow> carries_proof entry"
  by (auto simp: require_genuine_network_repaired_evidence_def carries_proof_def all_true_def split: json.splits)

lemma history_plus_last:
  "history_plus j e = Inr h \<Longrightarrow> \<exists>older. h = JList (older @ [e])"
  by (auto simp: history_plus_def split: sum.splits json.splits)

lemma durable_proof: "journal_text t \<Longrightarrow> emits writes_proof (durable_write co dir path t)"
  by (rule emits_durable) simp_all

lemma record_writes_proof: "emits writes_proof (enter b j s entry)"
  unfolding enter_def record_transition_def act_seq_def
proof (intro emits_if emits_raise emits_bind_lift emits_bind emits_off_runner emits_ret durable_proof)
  fix u :: unit and ts history
  assume ok: "(if s = ''network_repaired'' then require_genuine_network_repaired_evidence entry else Inr ()) = Inr u"
    and h: "history_plus j (JObj ([(''state'', JStr s), (''ts'', JStr ts)] @ entry)) = Inr history"
  obtain older where older: "history = JList (older @ [JObj ([(''state'', JStr s), (''ts'', JStr ts)] @ entry)])"
    using history_plus_last [OF h] by blast
  have "s = ''network_repaired'' \<longrightarrow> carries_proof entry"
    using ok by (auto simp: genuine_carries)
  then show "journal_text (json_dumps indent2 (JObj [(''state'', JStr s), (''history'', history)]))"
    unfolding journal_text_def older by blast
qed

lemma marker_writes: "emits writes_proof (mark_complete co dir)"
  unfolding mark_complete_def by (intro emits_bind emits_off_runner emits_durable) auto

lemma wait_emits:
  assumes "\<And>t. P (Heard t)" "P Waited"
  shows "emits P (wait_for_confirmation n co)"
proof (induction n)
  case 0
  show ?case by (simp only: wait_for_confirmation.simps emits_raise)
next
  case (Suc n)
  have pause: "emits P (pause co)" using assms(2) by (rule emits_pause)
  have "emits P (act_seq (act_when c (pause co)) (wait_for_confirmation n co))"
      "emits P (act_seq (pause co) (wait_for_confirmation n co))" for c
    using pause Suc by (auto intro!: emits_seq emits_when)
  then show ?case
    unfolding wait_for_confirmation.simps
    by (intro emits_bind emits_hear assms emits_option emits_if emits_ret)
qed

lemma emits_runner_proof: "emits writes_proof (on_runner m)"
  by (rule emitsI) (simp add: on_runner_def case_prod_unfold list_all_iff)

lemma found_proof: "emits writes_proof (found_text co path)"
  by (rule emits_found) simp

lemma tell_proof: "emits writes_proof (tell b t)" "emits writes_proof (say co t)"
  by (simp_all add: emits_tell emits_say)

lemmas proof_intros = emits_ret emits_raise emits_lift emits_off_runner emits_bind emits_seq emits_when emits_if emits_option
  emits_sum emits_prod emits_go_on emits_stage_in emits_next_stage emits_runner_proof found_proof tell_proof
  record_writes_proof marker_writes

lemma proof_early: "emits writes_proof (early_stages b j)"
  unfolding early_stages_def stage_new_def stage_created_def stage_detected_def stage_discovered_def stage_proposed_def
  by (intro proof_intros wait_emits writes_proof_simps(3,4))

lemma proof_late: "emits writes_proof (late_stages b j)"
  unfolding late_stages_def stage_confirmed_def stage_failed_def stage_repaired_def stage_installed_def stage_verified_def
    repair_network_def healthy_network_def
  by (intro proof_intros)

lemma proof_configurator: "emits writes_proof (apply_configurator_settings os co tether_fn j e)"
  unfolding apply_configurator_settings_def apply_without_config_def
  by (intro proof_intros emits_catch)

lemma proof_load: "emits writes_proof (load_journal co dir)"
  unfolding load_journal_def
  by (intro proof_intros emits_catch) (auto split: exn.split intro: emits_ret emits_raise)

lemma proof_boot: "emits writes_proof (run_first_boot b)"
  unfolding run_first_boot_def already_completed_def finish_def next_stage_def
  by (intro proof_intros proof_early proof_late proof_configurator proof_load)

text \<open>
  C9. A network is recorded as repaired only with its proof. Whatever a first boot writes is a marker or a journal; and a
  journal in the state network_repaired has as its newest entry one with network_ok, a target interface, and a
  verification that is not empty and in which every check is exactly True.
\<close>
theorem repaired_journal_has_proof:
  "\<exists>events. calls (snd (run_first_boot b h)) = calls h @ events \<and> list_all writes_proof events"
  using proof_boot by (rule emitsD)

section \<open>Where the journal says more than was seen\<close>

text \<open>
  A lifeline that stops at the carrier has at most three facts, none of them of the address or the gateway; both are then
  taken for well, so that an unplugged machine has a healthy lifeline.
\<close>

lemma facts_by_name_other:
  "\<exists>m. facts_by_name (map fact_json fs) acc = Inr m \<and>
     (\<forall>n. (\<forall>f \<in> set fs. fact_name f \<noteq> n) \<longrightarrow> map_of m (JStr n) = map_of acc (JStr n))"
proof (induction fs arbitrary: acc)
  case (Cons f fs)
  have step: "facts_by_name (map fact_json (f # fs)) acc =
      facts_by_name (map fact_json fs) (AList.update (JStr (fact_name f)) (fact_json f) acc)"
    by (simp add: fact_json_def item_def)
  show ?case
    using Cons.IH [of "AList.update (JStr (fact_name f)) (fact_json f) acc"] unfolding step
    by (auto simp: update_conv)
qed simp

lemma unplugged_is_healthy:
  assumes "check_lifeline sys m = (Inr facts, m')" and "length facts \<le> 3"
  shows "\<not> fact_ok (last facts) \<and> facts_verification (JList (map fact_json facts)) = Inr [(''address'', True), (''gateway'', True)]"
proof -
  note c = lifeline_chain [OF assms(1), unfolded fact_chain_def]
  have "map fact_name facts = take (length facts) (take 3 LIFELINE_FACTS)"
    using c assms(2) by (simp add: min_def)
  then have "set (map fact_name facts) \<subseteq> {''nic_detected'', ''driver_bound'', ''carrier_present''}"
    using set_take_subset [of "length facts" "take 3 LIFELINE_FACTS"] by (simp add: LIFELINE_FACTS_def)
  then have names: "\<forall>f \<in> set facts. fact_name f \<noteq> ''gateway_reachable''" "\<forall>f \<in> set facts. fact_name f \<noteq> ''address_assigned''"
    by auto
  obtain t where t: "facts_by_name (map fact_json facts) [] = Inr t"
      "map_of t (JStr ''gateway_reachable'') = None" "map_of t (JStr ''address_assigned'') = None"
    using facts_by_name_other [of facts "[]"] names by auto
  have "\<not> fact_ok (last facts)" using c assms(2) by (auto simp: LIFELINE_FACTS_def)
  then show ?thesis
    by (simp add: facts_verification_def fact_map_def json_iter_def t fact_field_def get_or_def get_def)
qed

text \<open>A journal with a known state and no history is accepted, and then ends the boot with a \<open>KeyError\<close>.\<close>

lemma journal_without_history:
  "journal_of (json_dumps default_style (JObj [(''state'', JStr ''proposed'')])) = Inr (JObj [(''state'', JStr ''proposed'')])"
  "last_of (JObj [(''state'', JStr ''proposed'')]) ''proposed'' = Inl (KeyError ''history'')"
  by code_simp+

text \<open>Proof that is bound to no interface is refused, also when the lifeline is healthy.\<close>

lemma no_target_is_refused:
  "\<exists>msg. require_genuine_network_repaired_evidence ((''network_ok'', JBool True) # (''target_interface'', JStr []) # rest) = Inl (ValueError msg)"
  by (simp add: require_genuine_network_repaired_evidence_def field_def)

end
