(* ===== verification/FileTree.thy ===== *)
theory FileTree
  imports PyPath Runner
begin

text \<open>
  The file tree that modules use without the runner: what \<open>os\<close> and \<open>pathlib\<close> do on absolute paths, as the modelled code
  calls them. A tree maps places - lists of names from the root - to nodes; the root is an entry of it. Paths are
  resolved name by name through links, at most \<open>MAX_LINKS\<close> of them, as the kernel does.

  What is not the tree is \<open>beyond\<close>, a machine of any type behind the record \<open>outside\<close>: whether a call fails, how many bytes
  a write takes, what reading a file gives back, and the modification time and blocks of a file that was written. No other process
  changes the tree while the modelled code runs.
\<close>

section \<open>Trees and paths\<close>

text \<open>Each node has its device; a file its bytes, its modification time and its blocks.\<close>
datatype node = NDir int | NFile int string int int | NLink int string | NOther int

type_synonym place = "string list"
type_synonym tree = "(place \<times> node) list"

fun dev_of :: "node \<Rightarrow> int" where
  "dev_of (NDir d) = d"
| "dev_of (NFile d bytes mtime blocks) = d"
| "dev_of (NLink d target) = d"
| "dev_of (NOther d) = d"

fun is_dir_node :: "node \<Rightarrow> bool" where
  "is_dir_node (NDir d) = True"
| "is_dir_node _ = False"

fun is_file_node :: "node \<Rightarrow> bool" where
  "is_file_node (NFile d bytes mtime blocks) = True"
| "is_file_node _ = False"

fun is_link_node :: "node \<Rightarrow> bool" where
  "is_link_node (NLink d target) = True"
| "is_link_node _ = False"

definition path_comps :: "string \<Rightarrow> string list" where
  "path_comps p = filter (\<lambda>c. c \<noteq> [] \<and> c \<noteq> ''.'') (split_on (CHR ''/'') p)"

definition path_text :: "place \<Rightarrow> string" where
  "path_text c = ''/'' @ join ''/'' c"

text \<open>\<open>Path(a) / b\<close>\<close>
definition path_join :: "string \<Rightarrow> string \<Rightarrow> string" where
  "path_join a b = (if starts_with b ''/'' then b else a @ ''/'' @ b)"

text \<open>\<open>Path(p).name\<close>\<close>
definition path_name :: "string \<Rightarrow> string" where
  "path_name p = (case rev (path_comps p) of [] \<Rightarrow> [] | n # ns \<Rightarrow> n)"

definition MAX_LINKS :: nat where "MAX_LINKS = 40"

definition dir_at :: "tree \<Rightarrow> place \<Rightarrow> bool" where
  "dir_at t c \<longleftrightarrow> (case map_of t c of Some n \<Rightarrow> is_dir_node n | None \<Rightarrow> False)"

text \<open>From a place along names, every link followed: the place reached, if there is one.\<close>

function walk :: "nat \<Rightarrow> tree \<Rightarrow> place \<Rightarrow> string list \<Rightarrow> place option" where
  "walk n t here [] = Some here"
| "walk n t here (c # cs) =
     (if \<not> dir_at t here then None
      else if c = ''..'' then walk n t (butlast here) cs
      else case map_of t (here @ [c]) of
        None \<Rightarrow> None
      | Some (NLink d target) \<Rightarrow>
          (case n of
             0 \<Rightarrow> None
           | Suc m \<Rightarrow> walk m t (if starts_with target ''/'' then [] else here) (path_comps target @ cs))
      | Some _ \<Rightarrow> walk n t (here @ [c]) cs)"
  by pat_completeness auto
termination by (relation "measures [\<lambda>(n, t, here, cs). n, \<lambda>(n, t, here, cs). length cs]") auto

text \<open>Where the last name of a path is, itself not followed.\<close>
definition lwalk :: "tree \<Rightarrow> string \<Rightarrow> place option" where
  "lwalk t p =
     (case rev (path_comps p) of
        [] \<Rightarrow> Some []
      | l # front \<Rightarrow>
          (case walk MAX_LINKS t [] (rev front) of
             None \<Rightarrow> None
           | Some c \<Rightarrow> if \<not> dir_at t c then None else if l = ''..'' then Some (butlast c) else Some (c @ [l])))"

definition swalk :: "tree \<Rightarrow> string \<Rightarrow> place option" where
  "swalk t p = walk MAX_LINKS t [] (path_comps p)"

text \<open>\<open>os.lstat\<close> and \<open>os.stat\<close>, and the tests made of them.\<close>

definition lstat :: "tree \<Rightarrow> string \<Rightarrow> node option" where
  "lstat t p = (case lwalk t p of None \<Rightarrow> None | Some c \<Rightarrow> map_of t c)"

definition stat :: "tree \<Rightarrow> string \<Rightarrow> node option" where
  "stat t p = (case swalk t p of None \<Rightarrow> None | Some c \<Rightarrow> map_of t c)"

definition there :: "tree \<Rightarrow> string \<Rightarrow> bool" where
  "there t p \<longleftrightarrow> stat t p \<noteq> None"

definition is_dir :: "tree \<Rightarrow> string \<Rightarrow> bool" where
  "is_dir t p \<longleftrightarrow> (case stat t p of Some n \<Rightarrow> is_dir_node n | None \<Rightarrow> False)"

definition is_file :: "tree \<Rightarrow> string \<Rightarrow> bool" where
  "is_file t p \<longleftrightarrow> (case stat t p of Some n \<Rightarrow> is_file_node n | None \<Rightarrow> False)"

definition is_link :: "tree \<Rightarrow> string \<Rightarrow> bool" where
  "is_link t p \<longleftrightarrow> (case lstat t p of Some n \<Rightarrow> is_link_node n | None \<Rightarrow> False)"

definition children :: "tree \<Rightarrow> place \<Rightarrow> string list" where
  "children t c = map last (filter (\<lambda>k. k \<noteq> [] \<and> butlast k = c) (remdups (map fst t)))"

text \<open>\<open>os.path.realpath\<close>: names that are not there are kept, and so is what follows a loop of links.\<close>

function real_walk :: "nat \<Rightarrow> tree \<Rightarrow> place \<Rightarrow> string list \<Rightarrow> place" where
  "real_walk n t here [] = here"
| "real_walk n t here (c # cs) =
     (if c = ''..'' then real_walk n t (butlast here) cs
      else case map_of t (here @ [c]) of
        Some (NLink d target) \<Rightarrow>
          (case n of
             0 \<Rightarrow> here @ c # cs
           | Suc m \<Rightarrow> real_walk m t (if starts_with target ''/'' then [] else here) (path_comps target @ cs))
      | _ \<Rightarrow> real_walk n t (here @ [c]) cs)"
  by pat_completeness auto
termination by (relation "measures [\<lambda>(n, t, here, cs). n, \<lambda>(n, t, here, cs). length cs]") auto

definition realpath :: "tree \<Rightarrow> string \<Rightarrow> string" where
  "realpath t p = path_text (real_walk MAX_LINKS t [] (path_comps p))"

section \<open>Calls\<close>

record 'm site =
  tree :: tree
  beyond :: 'm

record 'm outside =
  ou_fault :: "string \<Rightarrow> string \<Rightarrow> ('m, unit) act"
  ou_takes :: "('m, nat) act"
  ou_reads :: "string \<Rightarrow> string \<Rightarrow> ('m, string) act"
  ou_times :: "'m \<Rightarrow> int \<times> int"

definition on_rest :: "('m, 'a) act \<Rightarrow> ('m site, 'a) act" where
  "on_rest m = (\<lambda>s. case m (beyond s) of (r, m') \<Rightarrow> (r, s\<lparr>beyond := m'\<rparr>))"

text \<open>\<open>os.mkdir\<close>: false is \<open>FileExistsError\<close>.\<close>
definition make_dir :: "('m, 'x) outside_scheme \<Rightarrow> string \<Rightarrow> ('m site, bool) act" where
  "make_dir ou p = act_seq (on_rest (ou_fault ou ''mkdir'' p)) (\<lambda>s.
     case lwalk (tree s) p of
       None \<Rightarrow> (Inl (OSError (''No such file or directory: '' @ py_repr p)), s)
     | Some c \<Rightarrow>
         (case (map_of (tree s) c, map_of (tree s) (butlast c)) of
            (None, Some up) \<Rightarrow> (Inr True, s\<lparr>tree := tree s @ [(c, NDir (dev_of up))]\<rparr>)
          | (None, None) \<Rightarrow> (Inl (OSError (''No such file or directory: '' @ py_repr p)), s)
          | (Some n, _) \<Rightarrow> (Inr False, s)))"

text \<open>\<open>os.open\<close> with \<open>O_CREAT | O_EXCL\<close>: the descriptor is the place of the new file.\<close>
definition create_file :: "('m, 'x) outside_scheme \<Rightarrow> string \<Rightarrow> ('m site, place) act" where
  "create_file ou p = act_seq (on_rest (ou_fault ou ''open'' p)) (\<lambda>s.
     case lwalk (tree s) p of
       None \<Rightarrow> (Inl (OSError (''No such file or directory: '' @ py_repr p)), s)
     | Some c \<Rightarrow>
         (case (map_of (tree s) c, map_of (tree s) (butlast c)) of
            (None, Some up) \<Rightarrow>
              (case ou_times ou (beyond s) of (mtime, blocks) \<Rightarrow>
                (Inr c, s\<lparr>tree := tree s @ [(c, NFile (dev_of up) [] mtime blocks)]\<rparr>))
          | (None, None) \<Rightarrow> (Inl (OSError (''No such file or directory: '' @ py_repr p)), s)
          | (Some n, _) \<Rightarrow> (Inl (OSError (''File exists: '' @ py_repr p)), s)))"

text \<open>One \<open>os.write\<close>: at least one byte is taken.\<close>
definition write_some :: "('m, 'x) outside_scheme \<Rightarrow> place \<Rightarrow> string \<Rightarrow> ('m site, nat) act" where
  "write_some ou fd data = act_bind (on_rest (ou_takes ou)) (\<lambda>k s.
     case max 1 (min k (length data)) of k' \<Rightarrow>
     (case map_of (tree s) fd of
        Some (NFile d bytes mtime blocks) \<Rightarrow>
          (case ou_times ou (beyond s) of (mtime', blocks') \<Rightarrow>
            (Inr k', s\<lparr>tree := AList.update fd (NFile d (bytes @ take k' data) mtime' blocks') (tree s)\<rparr>))
      | _ \<Rightarrow> (Inl (OSError ''Bad file descriptor''), s)))"

function write_all :: "('m, 'x) outside_scheme \<Rightarrow> place \<Rightarrow> string \<Rightarrow> ('m site, unit) act" where
  "write_all ou fd data s =
     (if data = [] then (Inr (), s)
      else case write_some ou fd data s of
        (Inl e, s') \<Rightarrow> (Inl e, s')
      | (Inr k, s') \<Rightarrow> write_all ou fd (drop (max 1 k) data) s')"
  by pat_completeness auto
termination by (relation "measure (\<lambda>(ou, fd, data, s). length data)") auto

declare write_all.simps [simp del]

text \<open>The bytes a file gives back.\<close>
definition read_bytes :: "('m, 'x) outside_scheme \<Rightarrow> string \<Rightarrow> ('m site, string) act" where
  "read_bytes ou p = (\<lambda>s.
     case stat (tree s) p of
       Some (NFile d bytes mtime blocks) \<Rightarrow> on_rest (ou_reads ou p bytes) s
     | Some (NDir d) \<Rightarrow> (Inl (OSError (''Is a directory: '' @ py_repr p)), s)
     | Some _ \<Rightarrow> (Inl (OSError p), s)
     | None \<Rightarrow> (Inl (OSError (''No such file or directory: '' @ py_repr p)), s))"

section \<open>What calls do to a tree\<close>

text \<open>\<open>adds B\<close>: every node is still what it was, and what is new lies at or below \<open>B\<close>.\<close>

definition adds :: "place \<Rightarrow> tree \<Rightarrow> tree \<Rightarrow> bool" where
  "adds B t t' \<longleftrightarrow> (\<forall>c n. map_of t c = Some n \<longrightarrow> map_of t' c = Some n)
     \<and> (\<forall>c. map_of t c = None \<longrightarrow> map_of t' c \<noteq> None \<longrightarrow> prefix B c)"

text \<open>The same, but for the contents of one file.\<close>
definition fills :: "place \<Rightarrow> tree \<Rightarrow> tree \<Rightarrow> bool" where
  "fills fd t t' \<longleftrightarrow> (\<forall>c. c \<noteq> fd \<longrightarrow> map_of t' c = map_of t c) \<and> (map_of t' fd = None \<longleftrightarrow> map_of t fd = None)"

text \<open>\<open>stays R m\<close>: what \<open>m\<close> does to the tree is in the preorder \<open>R\<close>, an exception included.\<close>

definition stays :: "(tree \<Rightarrow> tree \<Rightarrow> bool) \<Rightarrow> ('m site, 'a) act \<Rightarrow> bool" where
  "stays R m \<longleftrightarrow> (\<forall>s. R (tree s) (tree (snd (m s))))"

locale tree_order =
  fixes R :: "tree \<Rightarrow> tree \<Rightarrow> bool"
  assumes R_refl: "R t t"
    and R_trans: "R t u \<Longrightarrow> R u v \<Longrightarrow> R t v"
begin

lemma staysI: "(\<And>s. R (tree s) (tree (snd (m s)))) \<Longrightarrow> stays R m"
  by (simp add: stays_def)

lemma same_tree: "(\<And>s. tree (snd (m s)) = tree s) \<Longrightarrow> stays R m"
  by (simp add: stays_def R_refl)

lemma ret: "stays R (act_ret x)"
  by (rule same_tree) simp

lemma raising: "stays R (act_raise e)"
  by (rule same_tree) simp

lemma lift: "stays R (act_lift r)"
  by (rule same_tree) simp

lemma looking: "stays R (act_get f)"
  by (rule same_tree) simp

lemma outside: "stays R (on_rest m)"
  by (rule same_tree) (simp add: on_rest_def split: prod.split)

lemma stays_then:
  assumes "stays R m" "\<And>r. stays R (g r)"
  shows "stays R (\<lambda>s. case m s of (r, u) \<Rightarrow> g r u)"
proof (rule staysI)
  fix s
  obtain r u where u: "m s = (r, u)" by fastforce
  have "R (tree s) (tree u)" using assms(1) u unfolding stays_def by (metis snd_conv)
  moreover have "R (tree u) (tree (snd (g r u)))" using assms(2) unfolding stays_def by blast
  ultimately show "R (tree s) (tree (snd (case m s of (r, u) \<Rightarrow> g r u)))"
    using R_trans u by simp
qed

lemma bind:
  assumes "stays R m" "\<And>x. stays R (f x)"
  shows "stays R (act_bind m f)"
proof -
  have "stays R (\<lambda>s. case m s of (r, u) \<Rightarrow> (case r of Inl e \<Rightarrow> \<lambda>u. (Inl e, u) | Inr x \<Rightarrow> f x) u)"
    using assms by (intro stays_then) (auto split: sum.split intro: same_tree)
  moreover have "(\<lambda>s. case m s of (r, u) \<Rightarrow> (case r of Inl e \<Rightarrow> \<lambda>u. (Inl e, u) | Inr x \<Rightarrow> f x) u) = act_bind m f"
    by (rule ext) (simp add: act_bind_def split: prod.split sum.split)
  ultimately show ?thesis by simp
qed

lemma seqs: "stays R m \<Longrightarrow> stays R k \<Longrightarrow> stays R (act_seq m k)"
  unfolding act_seq_def by (rule bind)

lemma catching:
  assumes "stays R m" "\<And>e. stays R (k e)"
  shows "stays R (act_catch m k)"
proof -
  have "stays R (\<lambda>s. case m s of (r, u) \<Rightarrow> (case r of Inl e \<Rightarrow> k e | Inr x \<Rightarrow> \<lambda>u. (Inr x, u)) u)"
    using assms by (intro stays_then) (auto split: sum.split intro: same_tree)
  moreover have "(\<lambda>s. case m s of (r, u) \<Rightarrow> (case r of Inl e \<Rightarrow> k e | Inr x \<Rightarrow> \<lambda>u. (Inr x, u)) u) = act_catch m k"
    by (rule ext) (simp add: act_catch_def split: prod.split sum.split)
  ultimately show ?thesis by simp
qed

lemma whens: "stays R m \<Longrightarrow> stays R (act_when b m)"
  by (cases b) (simp_all add: ret)

lemma ifs: "(b \<Longrightarrow> stays R m) \<Longrightarrow> (\<not> b \<Longrightarrow> stays R k) \<Longrightarrow> stays R (if b then m else k)"
  by simp

lemma options: "stays R n \<Longrightarrow> (\<And>x. stays R (j x)) \<Longrightarrow> stays R (case v of None \<Rightarrow> n | Some x \<Rightarrow> j x)"
  by (cases v) simp_all

lemma sums: "(\<And>x. stays R (n x)) \<Longrightarrow> (\<And>x. stays R (j x)) \<Longrightarrow> stays R (case v of Inl x \<Rightarrow> n x | Inr x \<Rightarrow> j x)"
  by (cases v) simp_all

lemma pairs: "(\<And>x y. stays R (f x y)) \<Longrightarrow> stays R (case v of (x, y) \<Rightarrow> f x y)"
  by (cases v) simp

lemma fors: "(\<And>x. stays R (f x)) \<Longrightarrow> stays R (act_for xs f)"
  by (induction xs) (simp_all add: ret seqs)

lemma maps: "(\<And>x. stays R (f x)) \<Longrightarrow> stays R (act_map f xs)"
  by (induction xs) (simp_all add: ret bind)

lemma reading: "stays R (read_bytes ou p)"
  by (rule same_tree) (auto simp: read_bytes_def on_rest_def split: option.split node.split prod.split)

lemmas intros = ret raising lift looking outside bind seqs catching whens ifs options sums pairs fors maps reading

end

lemma adds_refl: "adds B t t"
  by (simp add: adds_def)

lemma adds_append: "adds [] t (t @ xs)"
  by (auto simp: adds_def map_add_def split: option.split)

lemma adds_trans: "adds B t u \<Longrightarrow> adds B u v \<Longrightarrow> adds B t v"
  unfolding adds_def by (metis option.exhaust_sel)

interpretation equal: tree_order "(=)"
  by unfold_locales simp_all

interpretation adding: tree_order "adds B" for B
  by unfold_locales (rule adds_refl, rule adds_trans)

interpretation filling: tree_order "fills fd" for fd
  by unfold_locales (auto simp: fills_def)

lemma fills_write_some: "stays (fills fd) (write_some ou fd data)"
proof (rule filling.staysI)
  fix s
  show "fills fd (tree s) (tree (snd (write_some ou fd data s)))"
    by (auto simp: write_some_def act_bind_def on_rest_def fills_def update_conv split: prod.split sum.split option.split node.split)
qed

lemma fills_write_all: "stays (fills fd) (write_all ou fd data)"
proof (rule filling.staysI)
  fix s :: "'a site"
  show "fills fd (tree s) (tree (snd (write_all ou fd data s)))"
  proof (induction ou fd data s rule: write_all.induct)
    case (1 ou fd data s)
    show ?case
    proof (cases "data = []")
      case False
      obtain r s' where w: "write_some ou fd data s = (r, s')" by fastforce
      have one: "fills fd (tree s) (tree s')"
        using fills_write_some [of fd ou data, unfolded stays_def, rule_format, of s] w by simp
      show ?thesis
      proof (cases r)
        case (Inl e)
        then show ?thesis using one w False by (simp add: write_all.simps)
      next
        case (Inr k)
        then have "fills fd (tree s') (tree (snd (write_all ou fd (drop (max 1 k) data) s')))"
          using 1 False w by simp
        then show ?thesis
          using filling.R_trans [OF one] w False Inr by (subst write_all.simps) simp
      qed
    qed (simp add: write_all.simps filling.R_refl)
  qed
qed

section \<open>Where paths lead\<close>

lemma path_comps_join: "path_comps (x @ CHR ''/'' # y) = path_comps x @ path_comps y"
  by (simp add: path_comps_def split_on_append)

lemma path_comps_plain: "list_all plain_comp (path_comps p)"
  using split_on_parts [of _ "CHR ''/''" p] by (auto simp: path_comps_def list_all_iff plain_comp_def)

lemma path_comps_name: "plain_comp n \<Longrightarrow> path_comps n = [n]"
  by (simp add: path_comps_def plain_comp_def split_on_plain)

lemma path_comps_text: "list_all plain_comp c \<Longrightarrow> path_comps (path_text c) = c"
proof -
  assume c: "list_all plain_comp c"
  have "path_comps (path_text c) = filter (\<lambda>n. n \<noteq> [] \<and> n \<noteq> ''.'') (split_on (CHR ''/'') (join ''/'' c))"
    by (simp add: path_text_def path_comps_def split_on_def)
  also have "\<dots> = c"
  proof (cases "c = []")
    case True
    then show ?thesis by (simp add: split_on_def)
  next
    case False
    then show ?thesis using c by (simp add: split_join_plain) (auto simp: list_all_iff plain_comp_def filter_id_conv)
  qed
  finally show ?thesis .
qed

lemma walk_plain: "walk n t here cs = Some c \<Longrightarrow> list_all plain_comp here \<Longrightarrow> list_all plain_comp cs \<Longrightarrow> list_all plain_comp c"
proof (induction n t here cs rule: walk.induct)
  case (2 n t here c cs)
  have b: "list_all plain_comp (butlast here)" using "2.prems" by (auto simp: list_all_iff dest: in_set_butlastD)
  show ?case
    using 2 b path_comps_plain by (auto split: if_splits option.splits node.splits nat.splits)
qed simp

lemma walk_real: "walk n t here cs = Some c \<Longrightarrow> real_walk n t here cs = c"
proof (induction n t here cs rule: walk.induct)
  case (2 n t here c cs)
  then show ?case by (auto split: if_splits option.splits node.splits nat.splits)
qed simp

lemma real_path:
  assumes "realpath t p = p" "swalk t p = Some c"
  shows "c = path_comps p"
proof -
  have "list_all plain_comp c" using walk_plain assms(2) path_comps_plain by (auto simp: swalk_def)
  moreover have "p = path_text c" using assms walk_real by (auto simp: swalk_def realpath_def)
  ultimately show ?thesis using path_comps_text by metis
qed

lemma walk_append: "walk n t here cs = Some c \<Longrightarrow> \<exists>m. walk n t here (cs @ ds) = walk m t c ds"
proof (induction n t here cs rule: walk.induct)
  case (1 n t here)
  then show ?case by auto
next
  case (2 n t here c' cs)
  then show ?case by (auto split: if_splits option.splits node.splits nat.splits)
qed

text \<open>A path that leads to a folder.\<close>

definition at_dir :: "string \<Rightarrow> place \<Rightarrow> tree \<Rightarrow> bool" where
  "at_dir p c t \<longleftrightarrow> swalk t p = Some c \<and> dir_at t c"

definition plain_name :: "string \<Rightarrow> bool" where
  "plain_name n \<longleftrightarrow> plain_comp n \<and> n \<noteq> ''..''"

lemma lwalk_in: "at_dir p c t \<Longrightarrow> plain_name n \<Longrightarrow> lwalk t (p @ ''/'' @ n) = Some (c @ [n])"
  by (simp add: at_dir_def lwalk_def plain_name_def path_comps_join path_comps_name swalk_def)

lemma swalk_in:
  assumes "at_dir p c t" "plain_name n" "map_of t (c @ [n]) = Some x" "\<not> is_link_node x"
  shows "swalk t (p @ ''/'' @ n) = Some (c @ [n])"
proof -
  have p: "path_comps (p @ ''/'' @ n) = path_comps p @ [n]"
    using assms(2) by (simp add: path_comps_join path_comps_name plain_name_def)
  obtain m where "swalk t (p @ ''/'' @ n) = walk m t c [n]"
    using walk_append [of MAX_LINKS t "[]" "path_comps p" c "[n]"] assms(1) unfolding at_dir_def swalk_def p by blast
  moreover have "walk m t c [n] = walk m t (c @ [n]) []"
    using assms by (cases x) (auto simp: at_dir_def plain_name_def path_comps_name)
  ultimately show ?thesis using assms(2) by (simp add: plain_name_def path_comps_name)
qed

lemma swalk_none:
  assumes "at_dir p c t" "plain_name n" "map_of t (c @ [n]) = None"
  shows "swalk t (p @ ''/'' @ n) = None"
proof -
  have p: "path_comps (p @ ''/'' @ n) = path_comps p @ [n]"
    using assms(2) by (simp add: path_comps_join path_comps_name plain_name_def)
  obtain m where "swalk t (p @ ''/'' @ n) = walk m t c [n]"
    using walk_append [of MAX_LINKS t "[]" "path_comps p" c "[n]"] assms(1) unfolding at_dir_def swalk_def p by blast
  then show ?thesis using assms by (simp add: at_dir_def plain_name_def)
qed

lemma at_dir_in:
  assumes "at_dir p c t" "plain_name n" "map_of t (c @ [n]) = Some (NDir d)"
  shows "at_dir (p @ ''/'' @ n) (c @ [n]) t"
  using swalk_in [OF assms] assms(3) by (simp add: at_dir_def dir_at_def)

lemma dir_at_adds: "adds B t t' \<Longrightarrow> dir_at t c \<Longrightarrow> dir_at t' c"
  by (auto simp: adds_def dir_at_def split: option.splits)

lemma walk_adds: "adds B t t' \<Longrightarrow> walk n t here cs = Some c \<Longrightarrow> walk n t' here cs = Some c"
proof (induction n t here cs rule: walk.induct)
  case (2 n t here c' cs)
  have d: "dir_at t here \<Longrightarrow> dir_at t' here" using dir_at_adds 2 by blast
  have m: "map_of t (here @ [c']) = Some x \<Longrightarrow> map_of t' (here @ [c']) = Some x" for x
    using 2 by (auto simp: adds_def)
  show ?case
    using 2 d m by (auto split: if_splits option.splits node.splits nat.splits)
qed simp

lemma at_dir_adds: "adds B t t' \<Longrightarrow> at_dir p c t \<Longrightarrow> at_dir p c t'"
  using walk_adds dir_at_adds by (auto simp: at_dir_def swalk_def)

text \<open>What is added by actions that start where a path leads to a folder.\<close>

definition grows :: "place \<Rightarrow> string \<Rightarrow> place \<Rightarrow> tree \<Rightarrow> tree \<Rightarrow> bool" where
  "grows B p c t t' \<longleftrightarrow> (at_dir p c t \<longrightarrow> adds B t t')"

interpretation growing: tree_order "grows B p c" for B p c
proof
  show "grows B p c t t" for t by (simp add: grows_def adds_refl)
  show "grows B p c t v" if "grows B p c t u" "grows B p c u v" for t u v
    using that at_dir_adds adds_trans unfolding grows_def by blast
qed

lemma stays_equal: "stays (=) m \<Longrightarrow> stays (grows B p c) m"
  by (simp add: stays_def growing.R_refl)

lemma stays_equalD: "stays (=) m \<Longrightarrow> m s = (r, s') \<Longrightarrow> tree s' = tree s"
  unfolding stays_def by (metis snd_conv)

lemma on_rest_tree: "on_rest m s = (r, s') \<Longrightarrow> tree s' = tree s"
  using equal.outside stays_equalD by blast

lemma new_then_filled:
  assumes new: "map_of t k = None" "map_of t' = (map_of t)(k \<mapsto> x)" and fill: "fills k t' t''" and B: "prefix B k"
  shows "adds B t t''"
  unfolding adds_def
proof (intro conjI allI impI)
  fix c n
  assume c: "map_of t c = Some n"
  then have "c \<noteq> k" using new(1) by auto
  then show "map_of t'' c = Some n" using fill new(2) c by (simp add: fills_def)
next
  fix c
  assume "map_of t c = None" "map_of t'' c \<noteq> None"
  then have "c = k" using fill new(2) by (metis fills_def fun_upd_other)
  then show "prefix B c" using B by simp
qed

text \<open>A new file, and what is then done that changes only it.\<close>

lemma new_file_grows:
  assumes B: "prefix B c" and n: "plain_name n" and f: "\<And>fd. stays (fills fd) (f fd)"
  shows "stays (grows B p c) (act_bind (create_file ou (p @ ''/'' @ n)) f)"
proof (rule growing.staysI)
  fix s :: "'a site"
  let ?m = "act_bind (create_file ou (p @ ''/'' @ n)) f"
  show "grows B p c (tree s) (tree (snd (?m s)))"
    unfolding grows_def
  proof
    assume at: "at_dir p c (tree s)"
    obtain r u where u: "on_rest (ou_fault ou ''open'' (p @ ''/'' @ n)) s = (r, u)" by fastforce
    have t: "tree u = tree s" using u by (rule on_rest_tree)
    have w: "lwalk (tree u) (p @ ''/'' @ n) = Some (c @ [n])" using lwalk_in at n t by simp
    show "adds B (tree s) (tree (snd (?m s)))"
    proof (cases "r = Inr () \<and> map_of (tree s) (c @ [n]) = None")
      case False
      then have "tree (snd (create_file ou (p @ ''/'' @ n) s)) = tree s \<and> (\<exists>e. fst (create_file ou (p @ ''/'' @ n) s) = Inl e)"
        using u t w by (cases r) (auto simp: create_file_def act_seq_def act_bind_def split: option.split)
      then show ?thesis by (auto simp: act_bind_def adds_refl split: prod.split)
    next
      case True
      then obtain d where d: "map_of (tree s) c = Some (NDir d)"
        using at by (auto simp: at_dir_def dir_at_def split: option.splits elim: is_dir_node.elims)
      obtain mtime blocks where m: "ou_times ou (beyond u) = (mtime, blocks)" by fastforce
      let ?v = "u\<lparr>tree := tree u @ [(c @ [n], NFile d [] mtime blocks)]\<rparr>"
      have "create_file ou (p @ ''/'' @ n) s = (Inr (c @ [n]), ?v)"
        using True u t w d m by (simp add: create_file_def act_seq_def act_bind_def)
      then have run: "?m s = f (c @ [n]) ?v" by simp
      have "fills (c @ [n]) (tree ?v) (tree (snd (f (c @ [n]) ?v)))"
        using f unfolding stays_def by blast
      moreover have "map_of (tree ?v) = (map_of (tree s))(c @ [n] \<mapsto> NFile d [] mtime blocks)"
        using True t by (auto simp: map_add_def fun_eq_iff split: option.split)
      moreover have "prefix B (c @ [n])" using B by (simp add: prefix_prefix)
      ultimately show ?thesis
        using True unfolding run by (intro new_then_filled) blast+
    qed
  qed
qed

text \<open>A new folder.\<close>

lemma make_dir_in:
  assumes "at_dir p c (tree s)" "plain_name n" "make_dir ou (p @ ''/'' @ n) s = (r, s')"
  shows "adds (c @ [n]) (tree s) (tree s')"
    and "r = Inr True \<Longrightarrow> at_dir (p @ ''/'' @ n) (c @ [n]) (tree s')"
    and "r = Inr False \<Longrightarrow> tree s' = tree s \<and> map_of (tree s) (c @ [n]) \<noteq> None"
proof -
  obtain r0 u where u: "on_rest (ou_fault ou ''mkdir'' (p @ ''/'' @ n)) s = (r0, u)" by fastforce
  have t: "tree u = tree s" using u by (rule on_rest_tree)
  have w: "lwalk (tree u) (p @ ''/'' @ n) = Some (c @ [n])" using lwalk_in assms(1,2) t by simp
  obtain d where d: "map_of (tree s) c = Some (NDir d)"
    using assms(1) by (auto simp: at_dir_def dir_at_def split: option.splits elim: is_dir_node.elims)
  have cases: "r0 = Inr () \<and> map_of (tree s) (c @ [n]) = None \<and> r = Inr True \<and> tree s' = tree s @ [(c @ [n], NDir d)]
      \<or> (\<exists>e. r = Inl e) \<and> tree s' = tree s \<or> r = Inr False \<and> tree s' = tree s \<and> map_of (tree s) (c @ [n]) \<noteq> None"
    using assms(3) u t w d by (cases r0) (auto simp: make_dir_def act_seq_def act_bind_def split: option.splits)
  show a: "adds (c @ [n]) (tree s) (tree s')"
    using cases by (auto simp: adds_def map_add_def split: option.splits if_splits)
  show "tree s' = tree s \<and> map_of (tree s) (c @ [n]) \<noteq> None" if "r = Inr False"
    using cases that by auto
  show "at_dir (p @ ''/'' @ n) (c @ [n]) (tree s')" if "r = Inr True"
  proof (rule at_dir_in [OF _ assms(2)])
    show "at_dir p c (tree s')" using at_dir_adds a assms(1) by blast
    show "map_of (tree s') (c @ [n]) = Some (NDir d)" using cases that by (auto simp: map_add_def)
  qed
qed

end
