(* ===== verification/PyShlex.thy ===== *)
theory PyShlex
  imports PyValue "HOL-Library.AList"
begin

text \<open>
  \<open>shlex.split\<close> and the \<open>KEY="value"\<close> pairs that \<open>findmnt -P\<close> and \<open>lsblk -P\<close> print, which \<open>offdrive_backup.py\<close> and
  \<open>drive_admin.py\<close> both read with it: the last of equal keys counts, a word without an equals sign is left out.
\<close>

text \<open>\<open>shlex.split\<close>: the quote that is open, and the word so far. Blanks outside quotes separate; a backslash
  stands for the next character, between double quotes only before a quote or a backslash.\<close>

definition word_so_far :: "string option \<Rightarrow> string" where
  "word_so_far w = (case w of None \<Rightarrow> [] | Some t \<Rightarrow> t)"

definition shlex_put :: "string \<Rightarrow> exn + string list \<Rightarrow> exn + string list" where
  "shlex_put w r = (case r of Inl e \<Rightarrow> Inl e | Inr ws \<Rightarrow> Inr (w # ws))"

function shlex :: "char option \<Rightarrow> string option \<Rightarrow> string \<Rightarrow> exn + string list" where
  "shlex None w [] = Inr (case w of None \<Rightarrow> [] | Some t \<Rightarrow> [t])"
| "shlex (Some q) w [] = Inl (ValueError ''No closing quotation'')"
| "shlex None w (c # cs) =
     (if c \<in> {CHR '' '', CHR 0x09, CHR 0x0D, CHR 0x0A} then
        (case w of None \<Rightarrow> shlex None None cs | Some t \<Rightarrow> shlex_put t (shlex None None cs))
      else if c = CHR 0x5C then
        (case cs of [] \<Rightarrow> Inl (ValueError ''No escaped character'') | d # ds \<Rightarrow> shlex None (Some (word_so_far w @ [d])) ds)
      else if c = CHR 0x27 \<or> c = CHR 0x22 then shlex (Some c) (Some (word_so_far w)) cs
      else shlex None (Some (word_so_far w @ [c])) cs)"
| "shlex (Some q) w (c # cs) =
     (if c = q then shlex None w cs
      else if c = CHR 0x5C \<and> q = CHR 0x22 then
        (case cs of
           [] \<Rightarrow> Inl (ValueError ''No escaped character'')
         | d # ds \<Rightarrow> shlex (Some q) (Some (word_so_far w @ (if d = CHR 0x5C \<or> d = q then [d] else [CHR 0x5C, d]))) ds)
      else shlex (Some q) (Some (word_so_far w @ [c])) cs)"
  by pat_completeness auto
termination by (relation "measure (\<lambda>(q, w, cs). length cs)") auto

definition shlex_split :: "string \<Rightarrow> exn + string list" where
  "shlex_split line = shlex None None line"

definition split_pair :: "string \<Rightarrow> string \<times> string" where
  "split_pair token = (takeWhile (\<lambda>c. c \<noteq> CHR ''='') token, drop 1 (dropWhile (\<lambda>c. c \<noteq> CHR ''='') token))"

definition parse_pairs :: "string \<Rightarrow> exn + (string \<times> string) list" where
  "parse_pairs line =
     (case shlex_split line of
        Inl e \<Rightarrow> Inl e
      | Inr tokens \<Rightarrow> Inr (fold (\<lambda>token d. AList.update (fst (split_pair token)) (snd (split_pair token)) d)
          (filter (\<lambda>token. CHR ''='' \<in> set token) tokens) []))"

text \<open>One dictionary for every line that is not blank.\<close>

fun parse_lsblk_lines :: "string list \<Rightarrow> exn + (string \<times> string) list list" where
  "parse_lsblk_lines [] = Inr []"
| "parse_lsblk_lines (line # rest) =
     (if strip line = [] then parse_lsblk_lines rest
      else case parse_pairs line of
        Inl e \<Rightarrow> Inl e
      | Inr row \<Rightarrow> (case parse_lsblk_lines rest of Inl e \<Rightarrow> Inl e | Inr rows \<Rightarrow> Inr (row # rows)))"

definition parse_lsblk_pairs :: "string \<Rightarrow> exn + (string \<times> string) list list" where
  "parse_lsblk_pairs out = parse_lsblk_lines (splitlines out)"

end
