(* ===== verification/OffdriveBackup.thy ===== *)
theory OffdriveBackup
  imports FileTree Diagnostics DriveInstaller PyShlex
begin

text \<open>
  \<open>offdrive_backup.py\<close>: backups to a separate drive, to which Baseline may only add. A backup set is a new folder; its
  archives are created exclusively, \<open>INCOMPLETE.txt\<close> first and \<open>MANIFEST.json\<close> last, and the set is read back before it
  counts. An archive of a label in \<open>changes_only\<close> holds only the files that are new or changed; the manifest says which
  earlier set holds each of the others.

  The drive and the sources are one \<open>tree\<close>. \<open>backup_env\<close> extends the record \<open>outside\<close> by the commands (which look at the
  tree), \<open>tar\<close> and what \<open>tarfile\<close> reads and extracts, \<open>statvfs\<close>, SHA-256 and the check of the web origin.
  Floating point factors are taken as the decimal fractions they are written as; the clock is in whole seconds. A manifest is
  read as JSON and its parts are used without a check, as in the source.
\<close>

section \<open>Constants and records\<close>

definition BACKUP_DIR_NAME :: string where "BACKUP_DIR_NAME = ''baseline-backups''"
definition MANIFEST_NAME :: string where "MANIFEST_NAME = ''MANIFEST.json''"
definition INCOMPLETE_NAME :: string where "INCOMPLETE_NAME = ''INCOMPLETE.txt''"
definition FAILED_VERIFY_NAME :: string where "FAILED_VERIFY_NAME = ''FAILED_VERIFY.txt''"
definition MANIFEST_KIND :: string where "MANIFEST_KIND = ''baseline-backup-set''"
definition DEFAULT_MIN_INTERVAL_HOURS :: int where "DEFAULT_MIN_INTERVAL_HOURS = 168"
definition CHANGES_ONLY_LABELS :: "string list" where "CHANGES_ONLY_LABELS = [''installer-cache'']"
definition STRUCTURE_ESTIMATE :: int where "STRUCTURE_ESTIMATE = 16 * 1024"
definition NETWORK_FSTYPES :: "string list" where
  "NETWORK_FSTYPES = [''nfs'', ''nfs4'', ''cifs'', ''smb3'', ''smbfs'', ''sshfs'', ''fuse.sshfs'', ''9p'', ''ceph'', ''glusterfs'']"

definition INCOMPLETE_TEXT :: string where
  "INCOMPLETE_TEXT = ''This backup set was being written by Baseline.'' @ [CHR 0x0A] @
     ''If MANIFEST.json is missing from this folder, the run did not finish and the set is incomplete.'' @ [CHR 0x0A] @
     ''Baseline never deletes anything. It is safe for you to delete this folder by hand.'' @ [CHR 0x0A]"

definition FAILED_TEXT :: string where
  "FAILED_TEXT = ''This set failed read-back verification. Do not rely on it.'' @ [CHR 0x0A]"

record tar_output =
  to_chunks :: "string list"
  to_exit :: int
  to_stderr :: string

record 'm backup_env = "'m outside" +
  be_run :: "string list \<Rightarrow> int \<Rightarrow> tree \<Rightarrow> ('m, proc) act"
  be_tar :: "string list \<Rightarrow> string option \<Rightarrow> tree \<Rightarrow> ('m, tar_output) act"
  be_tar_error :: "string \<Rightarrow> string option"
  be_members :: "string \<Rightarrow> exn + string list"
  be_extract :: "string \<Rightarrow> string list \<Rightarrow> string \<Rightarrow> ('m site, string option) act"
  be_statvfs :: "string \<Rightarrow> ('m, int \<times> int) act"
  be_sha256 :: "string \<Rightarrow> string"
  be_host :: string
  be_unreadable :: "string \<Rightarrow> bool"
  be_gate :: "string \<Rightarrow> (string \<times> json) list \<Rightarrow> ('m, unit) act"

record destination =
  ds_path :: string
  ds_backup_dir :: string
  ds_source :: string
  ds_fstype :: string
  ds_serial :: string
  ds_disks :: "string list"

record backup_set =
  bs_name :: string
  bs_path :: string
  bs_manifest :: json

record backup_result =
  br_set_path :: "string option"
  br_verified :: bool
  br_skipped :: bool
  br_bytes :: int
  br_detail :: string

definition run_tool :: "'m backup_env \<Rightarrow> string list \<Rightarrow> int \<Rightarrow> ('m site, proc) act" where
  "run_tool be argv timeout = (\<lambda>s. on_rest (be_run be argv timeout (tree s)) s)"

definition look :: "(tree \<Rightarrow> 'a) \<Rightarrow> ('m site, 'a) act" where
  "look f = act_get (\<lambda>s. f (tree s))"

text \<open>\<open>time.strftime(..., time.gmtime(now))\<close>: year, month and day from the days since the epoch, in eras of 400 years.\<close>

definition civil :: "int \<Rightarrow> int \<times> int \<times> int" where
  "civil days =
     (let z = days + 719468; era = z div 146097; doe = z mod 146097;
          yoe = (doe - doe div 1460 + doe div 36524 - doe div 146096) div 365;
          doy = doe - (365 * yoe + yoe div 4 - yoe div 100);
          mp = (5 * doy + 2) div 153;
          m = (if mp < 10 then mp + 3 else mp - 9)
      in (yoe + era * 400 + (if m \<le> 2 then 1 else 0), m, doy - (153 * mp + 2) div 5 + 1))"

definition two_digits :: "int \<Rightarrow> string" where
  "two_digits n = (if n < 10 then ''0'' else []) @ str_of_int n"

definition clock_fields :: "int \<Rightarrow> string list" where
  "clock_fields now =
     (case civil (now div 86400) of (y, m, d) \<Rightarrow>
      [str_of_int y, two_digits m, two_digits d, two_digits (now mod 86400 div 3600), two_digits (now mod 3600 div 60),
       two_digits (now mod 60)])"

definition set_stamp :: "int \<Rightarrow> string" where
  "set_stamp now = (case clock_fields now of [y, m, d, hh, mm, ss] \<Rightarrow> y @ m @ d @ ''T'' @ hh @ mm @ ss @ ''Z'' | _ \<Rightarrow> [])"

definition iso_stamp :: "int \<Rightarrow> string" where
  "iso_stamp now = (case clock_fields now of [y, m, d, hh, mm, ss] \<Rightarrow>
     join ''-'' [y, m, d] @ ''T'' @ join '':'' [hh, mm, ss] @ ''Z'' | _ \<Rightarrow> [])"

section \<open>The destination\<close>

definition check_destination_path :: "string \<Rightarrow> ('m site, unit) act" where
  "check_destination_path path =
     (if strip path = [] then act_raise (BackupError ''no backup destination is configured'')
      else if CHR 0x0A \<in> set path \<or> CHR 0x00 \<in> set path \<or> \<not> isabs path \<or> normpath path \<noteq> path then
        act_raise (BackupError (''backup destination '' @ py_repr path @ '' must be a clean absolute path''))
      else act_bind (look (\<lambda>t. is_link t path \<or> realpath t path \<noteq> path)) (\<lambda>linked.
      if linked then
        act_raise (BackupError (''backup destination '' @ path @ '' is or passes through a symlink; give the real path''))
      else act_bind (look (\<lambda>t. is_dir t path)) (\<lambda>there.
      if \<not> there then act_raise (BackupError (''backup destination '' @ path @ '' is not an existing directory''))
      else act_ret ())))"

definition mount_field :: "(string \<times> string) list \<Rightarrow> string \<Rightarrow> string" where
  "mount_field mount k = (case map_of mount k of None \<Rightarrow> [] | Some v \<Rightarrow> v)"

text \<open>The mount below the destination: its device and its file system.\<close>
definition check_mount :: "string \<Rightarrow> (string \<times> string) list \<Rightarrow> exn + string \<times> string" where
  "check_mount path mount =
     (let target = mount_field mount ''TARGET''; source = mount_field mount ''SOURCE''; fstype = mount_field mount ''FSTYPE'';
          options = split_on (CHR '','') (mount_field mount ''OPTIONS'')
      in if target = ''/'' then
           Inl (BackupError (path @ '' is a plain directory on the root filesystem, not a separate mounted drive; '' @
             ''a backup there would land on the wrong disk''))
         else if \<not> starts_with source ''/dev/'' \<or> fstype \<in> set NETWORK_FSTYPES then
           Inl (BackupError (''backup destination must be on a local block device, not '' @
             (if source = [] then ''unknown'' else source) @ '' ('' @ fstype @ '')''))
         else if ''ro'' \<in> set options then Inl (BackupError (path @ '' is mounted read-only''))
         else Inr (source, fstype))"

definition serial_in :: "string \<Rightarrow> string" where
  "serial_in out = foldl (\<lambda>serial line. if starts_with line ''ID_SERIAL_SHORT='' then strip (drop 16 line) else serial) [] (splitlines out)"

fun read_serials :: "'m backup_env \<Rightarrow> string list \<Rightarrow> (string \<times> string) list \<Rightarrow> ('m site, (string \<times> string) list) act" where
  "read_serials be [] serials = act_ret serials"
| "read_serials be (disk # disks) serials =
     act_bind (run_tool be [''udevadm'', ''info'', ''--query=property'', ''--name=/dev/'' @ disk] 15) (\<lambda>info.
     case serial_in (stdout info) of
       [] \<Rightarrow> act_raise (BackupError (''cannot read the drive identity of /dev/'' @ disk @ '', so it cannot be shown to be separate''))
     | c # cs \<Rightarrow> read_serials be disks (AList.update disk (c # cs) serials))"

fun check_serials :: "string list \<Rightarrow> string option \<Rightarrow> (string \<times> string) list \<Rightarrow> exn + unit" where
  "check_serials managed boot_serial [] = Inr ()"
| "check_serials managed boot_serial ((disk, serial) # rest) =
     (if serial \<in> set managed then
        Inl (BackupError (''destination is on /dev/'' @ disk @ '', one of the drives Baseline manages: '' @
          ''the destination is not separate from the data it protects''))
      else if boot_serial = Some serial then
        Inl (BackupError (''destination is on /dev/'' @ disk @ '', the running boot drive''))
      else check_serials managed boot_serial rest)"

text \<open>The rows of \<open>lsblk\<close>: each is taken as a name and a type.\<close>
fun disk_rows :: "string list list \<Rightarrow> exn + string list" where
  "disk_rows [] = Inr []"
| "disk_rows ([name, kind] # rows) =
     (case disk_rows rows of Inl e \<Rightarrow> Inl e | Inr ds \<Rightarrow> Inr (if kind = ''disk'' then name # ds else ds))"
| "disk_rows (row # rows) = Inl (ValueError ''too many values to unpack (expected 2)'')"

definition disks_of :: "proc \<Rightarrow> exn + string list" where
  "disks_of p =
     (if returncode p = 0 then disk_rows (filter (\<lambda>row. 2 \<le> length row) (map split_ws (splitlines (stdout p)))) else Inr [])"

definition identified ::
    "'m backup_env \<Rightarrow> string list \<Rightarrow> string \<Rightarrow> string option \<Rightarrow> string \<times> string \<Rightarrow> string list \<Rightarrow> ('m site, destination) act" where
  "identified be managed path boot_serial mounted disks =
     (if disks = [] then
        act_raise (BackupError (''cannot establish which physical drive '' @ fst mounted @ '' is on, so its identity is unknown''))
      else act_bind (read_serials be disks []) (\<lambda>serials.
        act_seq (act_lift (check_serials managed boot_serial serials))
        (act_ret \<lparr>ds_path = path, ds_backup_dir = path @ ''/'' @ BACKUP_DIR_NAME, ds_source = fst mounted,
          ds_fstype = snd mounted, ds_serial = snd (hd serials), ds_disks = disks\<rparr>)))"

text \<open>\<open>enrolled\<close> is what \<open>drive_enrollment.enrolled_serials\<close> gives at that time.\<close>
definition resolve_destination ::
    "'m backup_env \<Rightarrow> string list \<Rightarrow> string \<Rightarrow> string list \<Rightarrow> string option \<Rightarrow> ('m site, destination) act" where
  "resolve_destination be enrolled path allowed_serials boot_serial =
     act_seq (check_destination_path path)
     (act_bind (run_tool be [''findmnt'', ''-n'', ''-P'', ''-T'', path, ''-o'', ''TARGET,SOURCE,FSTYPE,OPTIONS''] 15) (\<lambda>p.
      if returncode p \<noteq> 0 \<or> strip (stdout p) = [] then
        act_raise (BackupError (''could not tell what '' @ path @ '' is mounted from''))
      else act_bind (act_lift (parse_pairs (hd (splitlines (strip (stdout p)))))) (\<lambda>mount.
      act_bind (act_lift (check_mount path mount)) (\<lambda>mounted.
      act_bind (run_tool be [''lsblk'', ''-s'', ''-l'', ''-n'', ''-o'', ''NAME,TYPE'', fst mounted] 15) (\<lambda>q.
      act_bind (act_lift (disks_of q)) (identified be (allowed_serials @ enrolled) path boot_serial mounted))))))"

section \<open>Space\<close>

definition GIB :: int where "GIB = 2 ^ 30"

definition check_space :: "'m backup_env \<Rightarrow> destination \<Rightarrow> int \<Rightarrow> ('m site, unit) act" where
  "check_space be dest needed =
     act_bind (on_rest (be_statvfs be (ds_path dest))) (\<lambda>(free, total).
     if 100 * free < 110 * needed then
       act_raise (BackupError (''not enough free space on the backup drive: '' @ str_of_int (free div GIB) @ '' GiB free, '' @
         ''about '' @ str_of_int (110 * needed div 100 div GIB) @ '' GiB needed''))
     else if 100 * (free - needed) < 3 * total then
       act_raise (BackupError (''this backup would leave the backup drive with too little space '' @
         ''(under 3% free); free some up yourself first''))
     else act_ret ())"

fun estimate_paths :: "'m backup_env \<Rightarrow> string list \<Rightarrow> int \<Rightarrow> ('m site, int) act" where
  "estimate_paths be [] acc = act_ret acc"
| "estimate_paths be (path # paths) acc =
     act_bind (run_tool be [''du'', ''-s'', ''--block-size=1'', ''-x'', ''--'', path] 600) (\<lambda>p.
     if returncode p \<noteq> 0 \<and> returncode p \<noteq> 1 then
       act_raise (BackupError (''could not size source '' @ path @ '': '' @ take 200 (strip (stderr p))))
     else estimate_paths be paths (acc + (case split_ws (stdout p) of
         [] \<Rightarrow> 0
       | w # ws \<Rightarrow> if all_digits w then int (digits_nat w) else 0)))"

definition estimate_bytes :: "'m backup_env \<Rightarrow> (string \<times> string list) list \<Rightarrow> ('m site, int) act" where
  "estimate_bytes be sources = estimate_paths be (concat (map snd sources)) 0"

section \<open>Add-only file creation\<close>

definition fault_at :: "'m backup_env \<Rightarrow> string \<Rightarrow> string \<Rightarrow> ('m site, unit) act" where
  "fault_at be what path = on_rest (ou_fault be what path)"

text \<open>\<open>try: ... finally: f.close()\<close>\<close>
definition closing :: "'m backup_env \<Rightarrow> string \<Rightarrow> ('m site, 'a) act \<Rightarrow> ('m site, 'a) act" where
  "closing be path m =
     act_bind (act_catch m (\<lambda>e. act_seq (fault_at be ''close'' path) (act_raise e))) (\<lambda>x.
     act_seq (fault_at be ''close'' path) (act_ret x))"

definition write_new_text :: "'m backup_env \<Rightarrow> string \<Rightarrow> string \<Rightarrow> ('m site, unit) act" where
  "write_new_text be path content =
     act_bind (create_file be path) (\<lambda>fd.
     closing be path (act_seq (write_all be fd content) (fault_at be ''fsync'' path)))"

definition sha256_file :: "'m backup_env \<Rightarrow> string \<Rightarrow> ('m site, string) act" where
  "sha256_file be path = act_bind (read_bytes be path) (\<lambda>b. act_ret (be_sha256 be b))"

text \<open>What \<open>tar\<close> gives, chunk by chunk: each is written, and the cap is checked after it.\<close>
fun stream_chunks :: "'m backup_env \<Rightarrow> place \<Rightarrow> int option \<Rightarrow> string list \<Rightarrow> int \<Rightarrow> ('m site, int) act" where
  "stream_chunks be fd cap [] so_far = act_ret so_far"
| "stream_chunks be fd cap (chunk # chunks) so_far =
     act_seq (write_all be fd chunk)
     (case so_far + int (length chunk) of now_size \<Rightarrow>
      (case cap of
         None \<Rightarrow> stream_chunks be fd cap chunks now_size
       | Some limit \<Rightarrow>
           if now_size > limit then
             act_raise (BackupError (''the backup is growing larger than the data it is backing up ('' @ str_of_int now_size @
               '' bytes against a limit of '' @ str_of_int limit @ ''); stopping''))
           else stream_chunks be fd cap chunks now_size))"

definition stream_tar ::
    "'m backup_env \<Rightarrow> string list \<Rightarrow> place \<Rightarrow> int option \<Rightarrow> string option \<Rightarrow> ('m site, int \<times> string \<times> int \<times> string) act" where
  "stream_tar be argv fd max_bytes stdin_data =
     act_bind (\<lambda>s. on_rest (be_tar be argv stdin_data (tree s)) s) (\<lambda>t.
     act_bind (stream_chunks be fd max_bytes (to_chunks t) 0) (\<lambda>written.
     if to_exit t \<noteq> 0 \<and> to_exit t \<noteq> 1 then
       act_raise (BackupError (''tar failed (exit '' @ str_of_int (to_exit t) @ ''): '' @ last_chars 300 (strip (to_stderr t))))
     else act_ret (written, be_sha256 be (concat (to_chunks t)), to_exit t, last_chars 300 (strip (to_stderr t)))))"

definition check_readable :: "'m backup_env \<Rightarrow> string \<Rightarrow> ('m site, unit) act" where
  "check_readable be path =
     (case (\<lambda>msg. BackupError (''archive '' @ basename path @ '' is not a readable tar.gz: '' @ msg)) of refuse \<Rightarrow>
      act_bind (act_catch (read_bytes be path) (\<lambda>e. case e of OSError msg \<Rightarrow> act_raise (refuse msg) | _ \<Rightarrow> act_raise e)) (\<lambda>b.
      case be_tar_error be b of None \<Rightarrow> act_ret () | Some msg \<Rightarrow> act_raise (refuse msg)))"

section \<open>Sets\<close>

text \<open>\<open>v[k]\<close> of an object that has it.\<close>
definition field_of :: "json \<Rightarrow> string \<Rightarrow> json" where
  "field_of v k = (case map_of (obj_fields v) k of None \<Rightarrow> JNull | Some x \<Rightarrow> x)"

definition field_or :: "json \<Rightarrow> string \<Rightarrow> json \<Rightarrow> ('m site, json) act" where
  "field_or v k other = act_lift (get_or v k other)"

definition read_manifest :: "'m backup_env \<Rightarrow> string \<Rightarrow> ('m site, json) act" where
  "read_manifest be set_path =
     (case path_join set_path MANIFEST_NAME of mpath \<Rightarrow>
      act_bind (look (\<lambda>t. is_file t mpath)) (\<lambda>there.
      if \<not> there then act_raise (BackupError (path_name set_path @ '' has no manifest: it is incomplete''))
      else act_bind (read_bytes be mpath) (\<lambda>b.
      case json_parse b of
        Inl e \<Rightarrow> act_raise (BackupError (path_name set_path @ '' has an unreadable manifest''))
      | Inr manifest \<Rightarrow>
          if \<not> is_obj manifest \<or> get_or manifest ''kind'' JNull \<noteq> Inr (JStr MANIFEST_KIND) then
            act_raise (BackupError (path_name set_path @ '' manifest is not a Baseline backup manifest''))
          else act_ret manifest)))"

definition file_size :: "tree \<Rightarrow> string \<Rightarrow> int" where
  "file_size t p = (case stat t p of Some (NFile d bytes mtime blocks) \<Rightarrow> int (length bytes) | _ \<Rightarrow> 0)"

fun verify_archives :: "'m backup_env \<Rightarrow> string \<Rightarrow> json list \<Rightarrow> ('m site, unit) act" where
  "verify_archives be set_path [] = act_ret ()"
| "verify_archives be set_path (entry # entries) =
     act_bind (field_or entry ''name'' (JStr [])) (\<lambda>name.
     act_bind (act_lift (py_in ''/'' name)) (\<lambda>slash.
     if slash \<or> name \<in> {JStr [], JStr ''.'', JStr ''..''} then
       act_raise (BackupError (path_name set_path @ '' manifest names an unsafe archive '' @ json_repr name))
     else case name of
       JStr n \<Rightarrow>
         (case path_join set_path n of archive \<Rightarrow>
          act_bind (look (\<lambda>t. is_file t archive)) (\<lambda>there.
          if \<not> there then act_raise (BackupError (path_name set_path @ '' is missing archive '' @ n))
          else act_bind (look (\<lambda>t. file_size t archive)) (\<lambda>found.
          act_bind (field_or entry ''bytes'' JNull) (\<lambda>recorded.
          act_bind (if \<not> scalar_eq (JInt found) recorded then act_ret True
                    else act_bind (sha256_file be archive) (\<lambda>sha.
                      act_bind (field_or entry ''sha256'' JNull) (\<lambda>expected. act_ret (JStr sha \<noteq> expected)))) (\<lambda>differs.
          if differs then act_raise (BackupError (''checksum mismatch for '' @ n @ '' in '' @ path_name set_path))
          else act_seq (act_when (ends_with n ''.tar.gz'') (check_readable be archive)) (verify_archives be set_path entries))))))
     | _ \<Rightarrow> act_raise (TypeError ''unsupported operand type(s) for /'')))"

definition verify_set :: "'m backup_env \<Rightarrow> string \<Rightarrow> ('m site, bool) act" where
  "verify_set be set_path =
     act_bind (look (\<lambda>t. there t (path_join set_path FAILED_VERIFY_NAME))) (\<lambda>failed.
     if failed then act_raise (BackupError (path_name set_path @ '' failed verification when it was made''))
     else act_bind (read_manifest be set_path) (\<lambda>manifest.
     act_bind (field_or manifest ''archives'' JNull) (\<lambda>archives.
     if \<not> is_list archives \<or> archives = JList [] then
       act_raise (BackupError (path_name set_path @ '' manifest lists no archives''))
     else act_seq (verify_archives be set_path (elements archives)) (act_ret True))))"

fun free_name :: "'m backup_env \<Rightarrow> string \<Rightarrow> nat list \<Rightarrow> ('m site, string) act" where
  "free_name be base [] = act_raise (BackupError ''could not find a free name for the backup set'')"
| "free_name be base (n # ns) =
     (case (if n = 1 then base else base @ ''-'' @ str_of_nat n) of candidate \<Rightarrow>
      act_bind (make_dir be candidate) (\<lambda>made. if made then act_ret candidate else free_name be base ns))"

definition new_set_dir :: "'m backup_env \<Rightarrow> string \<Rightarrow> int \<Rightarrow> ('m site, string) act" where
  "new_set_dir be backup_dir now =
     act_bind (make_dir be backup_dir) (\<lambda>made.
     act_bind (look (\<lambda>t. \<not> made \<and> (\<not> is_dir t backup_dir \<or> is_link t backup_dir))) (\<lambda>odd.
     if odd then act_raise (BackupError (backup_dir @ '' exists and is not a folder; refusing to touch it''))
     else free_name be (backup_dir @ ''/baseline-'' @ set_stamp now) [1..<100]))"

text \<open>\<open>SET_RE\<close>; the dollar sign also matches before a final line feed.\<close>

definition set_name_core :: "string \<Rightarrow> bool" where
  "set_name_core name \<longleftrightarrow>
     (case removeprefix name ''baseline-'' of r \<Rightarrow>
      starts_with name ''baseline-'' \<and> 16 \<le> length r \<and> list_all is_digit (take 8 r) \<and> r ! 8 = CHR ''T'' \<and>
      list_all is_digit (take 6 (drop 9 r)) \<and> r ! 15 = CHR ''Z'' \<and>
      (case drop 16 r of [] \<Rightarrow> True | c # n \<Rightarrow> c = CHR ''-'' \<and> all_digits n))"

definition set_name :: "string \<Rightarrow> bool" where
  "set_name name \<longleftrightarrow> set_name_core name \<or> (\<exists>c \<in> set (take 1 (rev name)). c = CHR 0x0A \<and> set_name_core (butlast name))"

fun complete_sets :: "'m backup_env \<Rightarrow> string \<Rightarrow> string list \<Rightarrow> ('m site, backup_set list) act" where
  "complete_sets be backup_dir [] = act_ret []"
| "complete_sets be backup_dir (name # names) =
     (case backup_dir @ ''/'' @ name of child \<Rightarrow>
      act_bind (look (\<lambda>t. \<not> is_dir t child \<or> is_link t child \<or> \<not> set_name name \<or>
        there t (child @ ''/'' @ FAILED_VERIFY_NAME))) (\<lambda>other.
      if other then complete_sets be backup_dir names
      else act_bind (act_catch (act_bind (read_manifest be child) (\<lambda>m. act_ret (Some m)))
             (\<lambda>e. case e of BackupError msg \<Rightarrow> act_ret None | _ \<Rightarrow> act_raise e)) (\<lambda>m.
      act_bind (complete_sets be backup_dir names) (\<lambda>found.
      act_ret (case m of None \<Rightarrow> found | Some manifest \<Rightarrow> \<lparr>bs_name = name, bs_path = child, bs_manifest = manifest\<rparr> # found)))))"

text \<open>The newest first. Two times are compared as numbers or as texts; others only where they are equal.\<close>

definition set_epoch :: "backup_set \<Rightarrow> json" where
  "set_epoch s = (case map_of (obj_fields (bs_manifest s)) ''created_epoch'' of None \<Rightarrow> JInt 0 | Some v \<Rightarrow> v)"

definition set_le :: "backup_set \<Rightarrow> backup_set \<Rightarrow> bool" where
  "set_le a b \<longleftrightarrow>
     (if scalar_eq (set_epoch a) (set_epoch b) then str_le (bs_name a) (bs_name b)
      else case (set_epoch a, set_epoch b) of (JStr x, JStr y) \<Rightarrow> str_le x y | (x, y) \<Rightarrow> number_of x < number_of y)"

fun insort_set :: "backup_set \<Rightarrow> backup_set list \<Rightarrow> backup_set list" where
  "insort_set x [] = [x]"
| "insort_set x (y # ys) = (if set_le y x then x # y # ys else y # insort_set x ys)"

fun is_text :: "json \<Rightarrow> bool" where
  "is_text (JStr t) = True"
| "is_text _ = False"

definition newest_first :: "backup_set list \<Rightarrow> exn + backup_set list" where
  "newest_first sets =
     (if length sets \<le> 1 \<or> list_all (\<lambda>s. is_number (set_epoch s)) sets \<or> list_all (\<lambda>s. is_text (set_epoch s)) sets
         \<or> list_all (\<lambda>s. set_epoch s = set_epoch (hd sets)) sets
      then Inr (foldr insort_set sets [])
      else Inl (TypeError ''not supported between instances''))"

definition list_sets :: "'m backup_env \<Rightarrow> destination \<Rightarrow> ('m site, backup_set list) act" where
  "list_sets be dest =
     act_bind (look (\<lambda>t. is_dir t (ds_backup_dir dest))) (\<lambda>there.
     if \<not> there then act_ret []
     else act_bind (look (\<lambda>t. case swalk t (ds_backup_dir dest) of None \<Rightarrow> [] | Some c \<Rightarrow> children t c)) (\<lambda>names.
     act_bind (complete_sets be (ds_backup_dir dest) names) (\<lambda>found.
     act_lift (newest_first found))))"

definition holds_volumes :: "backup_set \<Rightarrow> bool" where
  "holds_volumes s \<longleftrightarrow> map_of (obj_fields (bs_manifest s)) ''content'' \<noteq> Some (JStr ''guests'')"

definition is_due :: "'m backup_env \<Rightarrow> destination \<Rightarrow> int \<Rightarrow> int \<Rightarrow> ('m site, bool) act" where
  "is_due be dest now min_interval_hours =
     act_bind (list_sets be dest) (\<lambda>all.
     case filter holds_volumes all of
       [] \<Rightarrow> act_ret True
     | newest # older \<Rightarrow>
         act_bind (act_lift (to_float (set_epoch newest))) (\<lambda>created.
         act_ret (of_int (min_interval_hours * 3600) \<le> of_int now - created)))"

section \<open>The plan of a changes-only archive\<close>

record bplan =
  pl_label :: string
  pl_base_set :: "string option"
  pl_structural :: "string list"
  pl_changed :: "string list"
  pl_table :: "(string \<times> json) list"
  pl_unchanged :: int
  pl_changed_bytes :: int

text \<open>
  The walk of \<open>scan_tree\<close>, the top of its stack first. The place of an entry is what \<open>lstat\<close> of its path finds: the
  folder it was read from is no link.
\<close>

definition at_or_below :: "tree \<Rightarrow> place \<Rightarrow> nat" where
  "at_or_below t c = card {k \<in> fst ` set t. prefix c k}"

definition with_entry :: "string \<times> node \<Rightarrow> (string \<times> node) list \<times> string list \<Rightarrow> (string \<times> node) list \<times> string list" where
  "with_entry x r = (x # fst r, snd r)"

definition with_skip :: "string \<Rightarrow> (string \<times> node) list \<times> string list \<Rightarrow> (string \<times> node) list \<times> string list" where
  "with_skip msg r = (fst r, msg # snd r)"


lemma children_places: "map (\<lambda>n. c @ [n]) (children t c) = filter (\<lambda>k. k \<noteq> [] \<and> butlast k = c) (remdups (map fst t))"
  unfolding children_def by (simp add: o_def) (rule map_idI, auto)

lemma at_or_below_children:
  assumes "map_of t c = Some n"
  shows "(\<Sum>k \<leftarrow> map (\<lambda>n. c @ [n]) (children t c). at_or_below t k) < at_or_below t c"
proof -
  let ?ks = "filter (\<lambda>k. k \<noteq> [] \<and> butlast k = c) (remdups (map fst t))"
  let ?below = "\<lambda>k. {k' \<in> fst ` set t. prefix k k'}"
  have len: "length k = Suc (length c)" if "k \<in> set ?ks" for k
    using that by (metis (mono_tags, lifting) append_butlast_last_id length_append_singleton mem_Collect_eq set_filter)
  have "(\<Sum>k \<leftarrow> ?ks. at_or_below t k) = (\<Sum>k \<in> set ?ks. card (?below k))"
    by (subst sum_list_distinct_conv_sum_set) (simp_all add: at_or_below_def)
  also have "\<dots> = card (\<Union>k \<in> set ?ks. ?below k)"
  proof (rule card_UN_disjoint [symmetric])
    show "\<forall>i \<in> set ?ks. \<forall>j \<in> set ?ks. i \<noteq> j \<longrightarrow> ?below i \<inter> ?below j = {}"
    proof (intro ballI impI)
      fix i j
      assume ij: "i \<in> set ?ks" "j \<in> set ?ks" "i \<noteq> j"
      show "?below i \<inter> ?below j = {}"
        using prefix_same_cases [of i _ j] len [OF ij(1)] len [OF ij(2)] ij(3)
        by (auto simp: prefix_def)
    qed
  qed simp_all
  also have "\<dots> < at_or_below t c"
    unfolding at_or_below_def
  proof (rule psubset_card_mono)
    have "c \<in> ?below c" using assms by (force dest: map_of_SomeD)
    moreover have "c \<notin> (\<Union>k \<in> set ?ks. ?below k)"
    proof
      assume "c \<in> (\<Union>k \<in> set ?ks. ?below k)"
      then obtain k where "k \<in> set ?ks" "prefix k c" by blast
      then show False using len [of k] prefix_length_le [of k c] by simp
    qed
    moreover have "(\<Union>k \<in> set ?ks. ?below k) \<subseteq> ?below c"
      by (auto intro: prefix_order.trans [OF prefixeq_butlast])
    ultimately show "(\<Union>k \<in> set ?ks. ?below k) \<subset> ?below c" by blast
  qed simp
  finally show ?thesis by (simp only: children_places)
qed

definition entry_path :: "string \<Rightarrow> string \<Rightarrow> string" where
  "entry_path path name = (if ends_with path ''/'' then path @ name else path @ ''/'' @ name)"

definition stack_size :: "tree \<Rightarrow> (string \<times> place) list \<Rightarrow> nat" where
  "stack_size t stack = (\<Sum>(path, c) \<leftarrow> stack. at_or_below t c)"

function scan :: "(string \<Rightarrow> bool) \<Rightarrow> tree \<Rightarrow> int \<Rightarrow> (string \<times> place) list \<Rightarrow> (string \<times> node) list \<times> string list" where
  "scan unreadable t dev [] = ([], [])"
| "scan unreadable t dev ((path, c) # stack) =
     (case map_of t c of
        None \<Rightarrow> scan unreadable t dev stack
      | Some (NDir d) \<Rightarrow> with_entry (path, NDir d)
          (if d \<noteq> dev then scan unreadable t dev stack
           else if unreadable path then with_skip (path @ '': Permission denied'') (scan unreadable t dev stack)
           else scan unreadable t dev (rev (map (\<lambda>n. (entry_path path n, c @ [n])) (children t c)) @ stack))
      | Some (NOther d) \<Rightarrow> with_skip (path @ '': not a file, folder or link'') (scan unreadable t dev stack)
      | Some n \<Rightarrow> with_entry (path, n) (scan unreadable t dev stack))"
  by pat_completeness auto
termination
proof (relation "measures [\<lambda>(u, t, dev, stack). stack_size t stack, \<lambda>(u, t, dev, stack). length stack]", goal_cases)
  case (5 unreadable t dev path c stack n d)
  have "stack_size t (map (\<lambda>n. (entry_path path n, c @ [n])) ns) = (\<Sum>k \<leftarrow> map (\<lambda>n. c @ [n]) ns. at_or_below t k)" for ns
    by (induction ns) (simp_all add: stack_size_def)
  then have "stack_size t (rev (map (\<lambda>n. (entry_path path n, c @ [n])) (children t c))) < at_or_below t c"
    using at_or_below_children [of t c] 5(1) by (simp add: stack_size_def sum_list_rev flip: rev_map)
  then show ?case by (simp add: stack_size_def)
qed (auto simp: stack_size_def)

fun scan_tree :: "(string \<Rightarrow> bool) \<Rightarrow> tree \<Rightarrow> string list \<Rightarrow> exn + (string \<times> node) list" where
  "scan_tree unreadable t [] = Inr []"
| "scan_tree unreadable t (r # roots) =
     (case lwalk t r of
        None \<Rightarrow> Inl (OSError (''No such file or directory: '' @ py_repr r))
      | Some c \<Rightarrow>
          (case map_of t c of
             None \<Rightarrow> Inl (OSError (''No such file or directory: '' @ py_repr r))
           | Some n \<Rightarrow>
               (case scan_tree unreadable t roots of
                  Inl e \<Rightarrow> Inl e
                | Inr es \<Rightarrow> Inr (fst (scan unreadable t (dev_of n) [(r, c)]) @ es))))"

text \<open>Whether the data of an unchanged file is still where a manifest says.\<close>

definition still_stored :: "tree \<Rightarrow> string \<Rightarrow> string \<Rightarrow> string \<Rightarrow> bool" where
  "still_stored t backup_dir set1 archive \<longleftrightarrow>
     is_file t (backup_dir @ ''/'' @ set1 @ ''/'' @ MANIFEST_NAME) \<and> is_file t (backup_dir @ ''/'' @ set1 @ ''/'' @ archive)"

definition stored_ok :: "tree \<Rightarrow> string \<Rightarrow> json \<Rightarrow> json \<Rightarrow> exn + bool" where
  "stored_ok t backup_dir a b =
     (if is_list a \<or> is_obj a \<or> is_list b \<or> is_obj b then Inl (TypeError ''unhashable type'')
      else if \<not> truthy a \<or> \<not> truthy b then Inr False
      else case (a, b) of
        (JStr x, JStr y) \<Rightarrow> Inr (CHR ''/'' \<notin> set (x @ y) \<and> still_stored t backup_dir x y)
      | _ \<Rightarrow> Inl (TypeError ''unsupported operand type(s)''))"

fun alive_files :: "tree \<Rightarrow> string \<Rightarrow> (string \<times> json) list \<Rightarrow> exn + (string \<times> json) list" where
  "alive_files t backup_dir [] = Inr []"
| "alive_files t backup_dir ((path, info) # files) =
     (case get_or info ''kind'' JNull of
        Inl e \<Rightarrow> Inl e
      | Inr kind \<Rightarrow>
          if kind \<noteq> JStr ''file'' then alive_files t backup_dir files
          else (case get_or info ''stored_in'' (JObj []) of
             Inl e \<Rightarrow> Inl e
           | Inr loc \<Rightarrow>
               (case (get_or loc ''set'' JNull, get_or loc ''archive'' JNull) of
                  (Inr a, Inr b) \<Rightarrow>
                    (case stored_ok t backup_dir a b of
                       Inl e \<Rightarrow> Inl e
                     | Inr ok \<Rightarrow>
                         (case alive_files t backup_dir files of
                            Inl e \<Rightarrow> Inl e
                          | Inr alive \<Rightarrow> Inr (if ok then (path, info) # alive else alive)))
                | (Inl e, _) \<Rightarrow> Inl e
                | (_, Inl e) \<Rightarrow> Inl e)))"

text \<open>\<open>v.items()\<close>\<close>
definition items_of :: "json \<Rightarrow> exn + (string \<times> json) list" where
  "items_of v = (case v of JObj kvs \<Rightarrow> Inr kvs | _ \<Rightarrow> Inl (AttributeError ''object has no attribute items''))"

fun prior_entries :: "tree \<Rightarrow> string \<Rightarrow> string \<Rightarrow> json list \<Rightarrow> exn + (string \<times> json) list option" where
  "prior_entries t backup_dir label [] = Inr None"
| "prior_entries t backup_dir label (entry # entries) =
     (case (get_or entry ''name'' JNull, get_or entry ''mode'' JNull, get_or entry ''files'' (JObj [])) of
        (Inr name, Inr mode, Inr files) \<Rightarrow>
          if name = JStr (label @ ''.tar.gz'') \<and> mode = JStr ''changes-only'' then
            (case items_of files of
               Inl e \<Rightarrow> Inl e
             | Inr kvs \<Rightarrow> (case alive_files t backup_dir kvs of Inl e \<Rightarrow> Inl e | Inr alive \<Rightarrow> Inr (Some alive)))
          else prior_entries t backup_dir label entries
      | (Inl e, _) \<Rightarrow> Inl e
      | (_, Inl e, _) \<Rightarrow> Inl e
      | (_, _, Inl e) \<Rightarrow> Inl e)"

fun prior_in :: "tree \<Rightarrow> string \<Rightarrow> string \<Rightarrow> backup_set list \<Rightarrow> exn + string option \<times> (string \<times> json) list" where
  "prior_in t backup_dir label [] = Inr (None, [])"
| "prior_in t backup_dir label (s # sets) =
     (case get_or (bs_manifest s) ''archives'' (JList []) of
        Inl e \<Rightarrow> Inl e
      | Inr archives \<Rightarrow>
          (case json_iter archives of
             Inl e \<Rightarrow> Inl e
           | Inr entries \<Rightarrow>
               (case prior_entries t backup_dir label entries of
                  Inl e \<Rightarrow> Inl e
                | Inr (Some alive) \<Rightarrow> Inr (Some (bs_name s), alive)
                | Inr None \<Rightarrow> prior_in t backup_dir label sets)))"

definition prior_table :: "'m backup_env \<Rightarrow> destination \<Rightarrow> string \<Rightarrow> ('m site, string option \<times> (string \<times> json) list) act" where
  "prior_table be dest label =
     act_bind (list_sets be dest) (\<lambda>sets.
     act_bind (look (\<lambda>t. prior_in t (ds_backup_dir dest) label sets)) act_lift)"

definition unchanged_since :: "(string \<times> json) list \<Rightarrow> string \<Rightarrow> int \<Rightarrow> int \<Rightarrow> json option" where
  "unchanged_since prior path sz mtime =
     (case map_of prior path of
        None \<Rightarrow> None
      | Some old \<Rightarrow>
          if scalar_eq (field_of old ''size'') (JInt sz) \<and> scalar_eq (field_of old ''mtime_ns'') (JInt mtime) then Some old
          else None)"

fun plan_entries :: "(string \<times> json) list \<Rightarrow> (string \<times> node) list \<Rightarrow> bplan \<Rightarrow> bplan" where
  "plan_entries prior [] p = p"
| "plan_entries prior ((path, n) # entries) p = plan_entries prior entries
     (case lstrip_char (CHR ''/'') path of name \<Rightarrow>
      case n of
        NDir d \<Rightarrow> p\<lparr>pl_structural := pl_structural p @ [name],
          pl_table := AList.update path (JObj [(''kind'', JStr ''dir'')]) (pl_table p)\<rparr>
      | NLink d target \<Rightarrow> p\<lparr>pl_structural := pl_structural p @ [name],
          pl_table := AList.update path (JObj [(''kind'', JStr ''link''), (''target'', JStr target)]) (pl_table p)\<rparr>
      | NFile d bytes mtime blocks \<Rightarrow>
          (case unchanged_since prior path (int (length bytes)) mtime of
             Some old \<Rightarrow> p\<lparr>pl_table := AList.update path old (pl_table p), pl_unchanged := pl_unchanged p + 1\<rparr>
           | None \<Rightarrow> p\<lparr>pl_changed := pl_changed p @ [name], pl_changed_bytes := pl_changed_bytes p + blocks * 512,
               pl_table := AList.update path (JObj [(''kind'', JStr ''file''), (''size'', JInt (int (length bytes))),
                 (''mtime_ns'', JInt mtime)]) (pl_table p)\<rparr>)
      | NOther d \<Rightarrow> p)"

definition empty_plan :: "string \<Rightarrow> string option \<Rightarrow> bplan" where
  "empty_plan label base_set = \<lparr>pl_label = label, pl_base_set = base_set, pl_structural = [], pl_changed = [], pl_table = [],
     pl_unchanged = 0, pl_changed_bytes = 0\<rparr>"

definition plan_label :: "'m backup_env \<Rightarrow> destination \<Rightarrow> string \<Rightarrow> string list \<Rightarrow> ('m site, bplan) act" where
  "plan_label be dest label paths =
     act_bind (look (\<lambda>t. scan_tree (be_unreadable be) t paths)) (\<lambda>r.
     act_bind (act_lift r) (\<lambda>entries.
     act_bind (prior_table be dest label) (\<lambda>(base_set, prior).
     act_ret (plan_entries prior (sort_items entries) (empty_plan label base_set)))))"

section \<open>A backup set\<close>

definition label_char :: "char \<Rightarrow> bool" where
  "label_char c \<longleftrightarrow> is_upper c \<or> is_lower c \<or> is_digit c \<or> c \<in> {CHR ''_'', CHR ''.'', CHR ''-''}"

fun check_sources :: "tree \<Rightarrow> (string \<times> string list) list \<Rightarrow> exn + unit" where
  "check_sources t [] = Inr ()"
| "check_sources t ((label, paths) # sources) =
     (if label = [] \<or> \<not> list_all label_char label then Inl (BackupError (''unsafe archive label '' @ py_repr label))
      else case filter (\<lambda>p. \<not> isabs p \<or> \<not> there t p) paths of
        p # ps \<Rightarrow> Inl (BackupError (''source '' @ p @ '' does not exist; nothing was written''))
      | [] \<Rightarrow> check_sources t sources)"

text \<open>\<open>plans.get(label) or plan_label(...)\<close> for each label that is changes-only.\<close>
fun label_plans ::
    "'m backup_env \<Rightarrow> destination \<Rightarrow> string list \<Rightarrow> (string \<times> bplan) list \<Rightarrow> (string \<times> string list) list
     \<Rightarrow> ('m site, (string \<times> bplan) list) act" where
  "label_plans be dest changes_only plans [] = act_ret []"
| "label_plans be dest changes_only plans ((label, paths) # sources) =
     (if label \<notin> set changes_only then label_plans be dest changes_only plans sources
      else act_bind (case map_of plans label of Some p \<Rightarrow> act_ret p | None \<Rightarrow> plan_label be dest label paths) (\<lambda>p.
        act_bind (label_plans be dest changes_only plans sources) (\<lambda>ps. act_ret ((label, p) # ps))))"

definition tar_argv :: "string list \<Rightarrow> string list" where
  "tar_argv paths = [''tar'', ''-czf'', ''-'', ''--sparse'', ''--one-file-system'', ''--numeric-owner'', ''-C'', ''/''] @
     map (lstrip_char (CHR ''/'')) paths"

definition TAR_LISTED_ARGV :: "string list" where
  "TAR_LISTED_ARGV = [''tar'', ''-czf'', ''-'', ''--sparse'', ''--numeric-owner'', ''--no-recursion'', ''--null'', ''-C'', ''/'',
     ''-T'', ''-'']"

definition listed_names :: "bplan \<Rightarrow> string" where
  "listed_names p = join [CHR 0x00] (pl_structural p @ pl_changed p) @ [CHR 0x00]"

definition is_plain_file :: "json \<Rightarrow> bool" where
  "is_plain_file info \<longleftrightarrow> field_of info ''kind'' = JStr ''file''"

text \<open>Each file of the table with the set that holds it; the new ones are in the archive at hand.\<close>
definition with_place :: "string \<Rightarrow> string \<Rightarrow> json \<Rightarrow> json" where
  "with_place set1 archive info =
     (if is_plain_file info \<and> ''stored_in'' \<notin> fst ` set (obj_fields info)
      then JObj (AList.update ''stored_in'' (JObj [(''set'', JStr set1), (''archive'', JStr archive)]) (obj_fields info))
      else info)"

definition held_by :: "json \<Rightarrow> json" where
  "held_by info = field_of (field_of info ''stored_in'') ''set''"

definition earlier_sets :: "bplan \<Rightarrow> string list" where
  "earlier_sets p = map (\<lambda>(path, info). json_str (held_by info))
     (filter (\<lambda>(path, info). is_plain_file info \<and> ''stored_in'' \<in> fst ` set (obj_fields info)) (pl_table p))"

definition plan_fields :: "string \<Rightarrow> string \<Rightarrow> bplan \<Rightarrow> (string \<times> json) list" where
  "plan_fields set1 archive p =
     [(''mode'', JStr ''changes-only''), (''base_set'', (case pl_base_set p of None \<Rightarrow> JNull | Some b \<Rightarrow> JStr b)),
      (''changed'', JInt (int (length (pl_changed p)))), (''unchanged'', JInt (pl_unchanged p)),
      (''files'', JObj (map (\<lambda>(path, info). (path, with_place set1 archive info)) (pl_table p)))]"

definition archive_entry ::
    "string \<Rightarrow> string \<Rightarrow> string list \<Rightarrow> bplan option \<Rightarrow> int \<Rightarrow> string \<Rightarrow> int \<Rightarrow> string \<Rightarrow> json" where
  "archive_entry set1 archive paths plan sz sha rc err =
     JObj ([(''name'', JStr archive), (''bytes'', JInt sz), (''sha256'', JStr sha), (''sources'', JList (map JStr paths))] @
       (case plan of None \<Rightarrow> [] | Some p \<Rightarrow> plan_fields set1 archive p) @
       (if rc = 1 then [(''warning'', JStr (''some files changed while being archived: '' @ err))] else []))"

definition check_archive ::
    "'m backup_env \<Rightarrow> string \<Rightarrow> string \<Rightarrow> string list \<Rightarrow> bplan option \<Rightarrow> int \<times> string \<times> int \<times> string \<Rightarrow> ('m site, json) act" where
  "check_archive be set_dir name paths plan = (\<lambda>(sz, sha, rc, err).
     act_bind (sha256_file be (set_dir @ ''/'' @ name)) (\<lambda>found.
     if found \<noteq> sha then
       act_raise (BackupError (''checksum mismatch reading back '' @ name @ '': the archive did not write correctly''))
     else act_seq (check_readable be (set_dir @ ''/'' @ name))
       (act_ret (archive_entry (path_name set_dir) name paths plan sz sha rc err))))"

definition write_archive ::
    "'m backup_env \<Rightarrow> string \<Rightarrow> string list \<Rightarrow> bplan option \<Rightarrow> int option \<Rightarrow> place \<Rightarrow> ('m site, int \<times> string \<times> int \<times> string) act" where
  "write_archive be archive paths plan cap fd =
     closing be archive
       (act_bind (stream_tar be (case plan of None \<Rightarrow> tar_argv paths | Some p \<Rightarrow> TAR_LISTED_ARGV) fd cap
          (map_option listed_names plan)) (\<lambda>r.
        act_seq (fault_at be ''fsync'' archive) (act_ret r)))"

definition make_archive ::
    "'m backup_env \<Rightarrow> string \<Rightarrow> string \<Rightarrow> string list \<Rightarrow> bplan option \<Rightarrow> int option \<Rightarrow> ('m site, json) act" where
  "make_archive be set_dir label paths plan cap =
     act_bind (create_file be (set_dir @ ''/'' @ label @ ''.tar.gz'')) (\<lambda>fd.
     act_bind (write_archive be (set_dir @ ''/'' @ label @ ''.tar.gz'') paths plan cap fd)
       (check_archive be set_dir (label @ ''.tar.gz'') paths plan))"

fun make_archives ::
    "'m backup_env \<Rightarrow> string \<Rightarrow> (string \<times> bplan) list \<Rightarrow> (string \<times> int) list \<Rightarrow> (string \<times> string list) list
     \<Rightarrow> ('m site, json list) act" where
  "make_archives be set_dir plans budgets [] = act_ret []"
| "make_archives be set_dir plans budgets ((label, paths) # sources) =
     act_bind (make_archive be set_dir label paths (map_of plans label) (map_of budgets label)) (\<lambda>entry.
     act_bind (make_archives be set_dir plans budgets sources) (\<lambda>entries. act_ret (entry # entries)))"

text \<open>\<open>sorted(depends - {set_dir.name})\<close>\<close>
definition depends_on :: "string \<Rightarrow> (string \<times> bplan) list \<Rightarrow> string list" where
  "depends_on set1 plans = sort_strs (filter (\<lambda>d. d \<noteq> set1) (remdups (concat (map (\<lambda>(label, p). earlier_sets p) plans))))"

text \<open>The manifest last, then the set is read back; a set that fails is marked, and stays.\<close>
definition finish_set :: "'m backup_env \<Rightarrow> string \<Rightarrow> json \<Rightarrow> ('m site, backup_set) act" where
  "finish_set be set_dir manifest =
     act_seq (write_new_text be (set_dir @ ''/'' @ MANIFEST_NAME) (json_dumps indent2 manifest))
     (act_seq (act_catch (act_bind (verify_set be set_dir) (\<lambda>ok. act_ret ())) (\<lambda>e.
        case e of
          BackupError msg \<Rightarrow> act_seq (write_new_text be (set_dir @ ''/'' @ FAILED_VERIFY_NAME) FAILED_TEXT) (act_raise e)
        | _ \<Rightarrow> act_raise e))
     (act_ret \<lparr>bs_name = path_name set_dir, bs_path = set_dir, bs_manifest = manifest\<rparr>))"

definition set_manifest :: "'m backup_env \<Rightarrow> int \<Rightarrow> (string \<times> json) list \<Rightarrow> json list \<Rightarrow> string list \<Rightarrow> json" where
  "set_manifest be now content entries deps =
     JObj ([(''kind'', JStr MANIFEST_KIND), (''version'', JInt 1), (''tool'', JStr ''offdrive_backup'')] @ content @
       [(''created'', JStr (iso_stamp now)), (''created_epoch'', JInt now), (''host'', JStr (be_host be)),
        (''archives'', JList entries), (''depends_on'', JList (map JStr deps))])"

definition create_backup_set ::
    "'m backup_env \<Rightarrow> destination \<Rightarrow> (string \<times> string list) list \<Rightarrow> int \<Rightarrow> (string \<times> int) list \<Rightarrow> string list
     \<Rightarrow> (string \<times> bplan) list \<Rightarrow> ('m site, backup_set) act" where
  "create_backup_set be dest sources now budgets changes_only plans =
     act_bind (look (\<lambda>t. check_sources t sources)) (\<lambda>checked.
     act_seq (act_lift checked)
     (act_bind (label_plans be dest changes_only plans sources) (\<lambda>ps.
      act_bind (new_set_dir be (ds_backup_dir dest) now) (\<lambda>set_dir.
      act_seq (write_new_text be (set_dir @ ''/'' @ INCOMPLETE_NAME) INCOMPLETE_TEXT)
      (act_bind (make_archives be set_dir ps budgets sources) (\<lambda>entries.
       finish_set be set_dir (set_manifest be now [] entries (depends_on (path_name set_dir) ps))))))))"

section \<open>The chain of sets, and restoring\<close>

text \<open>The sets and archives elsewhere that an archive of a set refers to.\<close>

definition as_text :: "json \<Rightarrow> exn + string" where
  "as_text v = (case v of JStr t \<Rightarrow> Inr t | _ \<Rightarrow> Inl (TypeError ''unsupported operand type(s)''))"

fun stored_elsewhere :: "string \<Rightarrow> (string \<times> json) list \<Rightarrow> exn + (string \<times> string \<times> string) list" where
  "stored_elsewhere set1 [] = Inr []"
| "stored_elsewhere set1 ((path, info) # files) =
     (case (get_or info ''kind'' JNull, get_or info ''stored_in'' (JObj [])) of
        (Inr kind, Inr loc) \<Rightarrow>
          if kind \<noteq> JStr ''file'' then stored_elsewhere set1 files
          else (case get_or loc ''set'' JNull of
             Inl e \<Rightarrow> Inl e
           | Inr other \<Rightarrow>
               if other = JStr set1 then stored_elsewhere set1 files
               else (case (item info ''stored_in'', item loc ''set'', item loc ''archive'') of
                  (Inr _, Inr a, Inr b) \<Rightarrow>
                    (case (as_text a, as_text b, stored_elsewhere set1 files) of
                       (Inr x, Inr y, Inr others) \<Rightarrow> Inr ((x, y, path) # others)
                     | (Inl e, _) \<Rightarrow> Inl e
                     | (_, Inl e, _) \<Rightarrow> Inl e
                     | (_, _, Inl e) \<Rightarrow> Inl e)
                | (Inl e, _) \<Rightarrow> Inl e
                | (_, Inl e, _) \<Rightarrow> Inl e
                | (_, _, Inl e) \<Rightarrow> Inl e))
      | (Inl e, _) \<Rightarrow> Inl e
      | (_, Inl e) \<Rightarrow> Inl e)"

definition swap_pair :: "'a \<times> 'b \<Rightarrow> 'b \<times> 'a" where
  "swap_pair p = (snd p, fst p)"

definition sort_pairs :: "(string \<times> string) list \<Rightarrow> (string \<times> string) list" where
  "sort_pairs ps = sort_items (map swap_pair (sort_items (map swap_pair ps)))"

text \<open>\<open>next((a for a in archives if a["name"] == name), None)\<close>\<close>
fun archive_named :: "string \<Rightarrow> json list \<Rightarrow> exn + json option" where
  "archive_named name [] = Inr None"
| "archive_named name (a # as) =
     (case item a ''name'' of Inl e \<Rightarrow> Inl e | Inr n \<Rightarrow> if n = JStr name then Inr (Some a) else archive_named name as)"

definition find_archive :: "json \<Rightarrow> string \<Rightarrow> exn + json option" where
  "find_archive manifest name =
     (case item manifest ''archives'' of
        Inl e \<Rightarrow> Inl e
      | Inr v \<Rightarrow> (case json_iter v of Inl e \<Rightarrow> Inl e | Inr entries \<Rightarrow> archive_named name entries))"

definition check_dependency :: "'m backup_env \<Rightarrow> string \<Rightarrow> string \<Rightarrow> bool \<Rightarrow> string \<times> string \<Rightarrow> ('m site, unit) act" where
  "check_dependency be backup_dir set1 deep = (\<lambda>(dep_set, dep_archive).
     case (backup_dir @ ''/'' @ dep_set, backup_dir @ ''/'' @ dep_set @ ''/'' @ dep_archive) of (dep_path, path) \<Rightarrow>
     act_bind (look (\<lambda>t. CHR ''/'' \<in> set (dep_set @ dep_archive) \<or> \<not> is_file t (dep_path @ ''/'' @ MANIFEST_NAME))) (\<lambda>gone.
     if gone then act_raise (BackupError (set1 @ '' depends on '' @ dep_set @ '', which is missing''))
     else act_bind (read_manifest be dep_path) (\<lambda>m.
     act_bind (act_lift (find_archive m dep_archive)) (\<lambda>recorded.
     case recorded of
       None \<Rightarrow> act_raise (BackupError (set1 @ '' depends on '' @ dep_set @ ''/'' @ dep_archive @ '', which is missing or changed''))
     | Some r \<Rightarrow>
         act_bind (look (\<lambda>t. is_file t path)) (\<lambda>there.
         act_bind (act_lift (if there then item r ''bytes'' else Inr JNull)) (\<lambda>sz.
         act_bind (look (\<lambda>t. there \<and> scalar_eq (JInt (file_size t path)) sz)) (\<lambda>ok.
         if \<not> ok then
           act_raise (BackupError (set1 @ '' depends on '' @ dep_set @ ''/'' @ dep_archive @ '', which is missing or changed''))
         else if \<not> deep then act_ret ()
         else act_bind (sha256_file be path) (\<lambda>sha.
           act_bind (act_lift (item r ''sha256'')) (\<lambda>expected.
           if JStr sha \<noteq> expected then
             act_raise (BackupError (set1 @ '' depends on '' @ dep_set @ ''/'' @ dep_archive @ '', whose checksum no longer matches''))
           else act_ret ())))))))))"

fun check_chain :: "'m backup_env \<Rightarrow> string \<Rightarrow> string \<Rightarrow> bool \<Rightarrow> json list \<Rightarrow> ('m site, unit) act" where
  "check_chain be backup_dir set1 deep [] = act_ret ()"
| "check_chain be backup_dir set1 deep (entry # entries) =
     act_bind (field_or entry ''files'' (JObj [])) (\<lambda>files.
     act_bind (act_lift (items_of files)) (\<lambda>kvs.
     act_bind (act_lift (stored_elsewhere set1 kvs)) (\<lambda>needed.
     act_seq (act_for (sort_pairs (remdups (map (\<lambda>(a, b, path). (a, b)) needed))) (check_dependency be backup_dir set1 deep))
       (check_chain be backup_dir set1 deep entries))))"

definition verify_chain :: "'m backup_env \<Rightarrow> destination \<Rightarrow> string \<Rightarrow> bool \<Rightarrow> ('m site, bool) act" where
  "verify_chain be dest set1 deep =
     act_bind (read_manifest be (path_join (ds_backup_dir dest) set1)) (\<lambda>manifest.
     act_bind (field_or manifest ''archives'' (JList [])) (\<lambda>archives.
     act_bind (act_lift (json_iter archives)) (\<lambda>entries.
     act_seq (check_chain be (ds_backup_dir dest) set1 deep entries) (act_ret True))))"

fun check_members :: "string list \<Rightarrow> exn + unit" where
  "check_members [] = Inr ()"
| "check_members (m # ms) =
     (if starts_with m ''/'' \<or> ''..'' \<in> set (path_comps m)
      then Inl (BackupError (''unsafe entry name in backup archive: '' @ py_repr m))
      else check_members ms)"

text \<open>\<open>names\<close> is \<open>None\<close> for all members.\<close>
definition extract_members :: "'m backup_env \<Rightarrow> string \<Rightarrow> string list option \<Rightarrow> string \<Rightarrow> ('m site, unit) act" where
  "extract_members be archive names out_dir =
     act_bind (read_bytes be archive) (\<lambda>b.
     act_bind (act_lift (be_members be b)) (\<lambda>members.
     act_bind (act_lift (case names of
         None \<Rightarrow> Inr members
       | Some ns \<Rightarrow> (case filter (\<lambda>n. n \<notin> set members) ns of
           [] \<Rightarrow> Inr ns | n # _ \<Rightarrow> Inl (KeyError (''filename '' @ py_repr n @ '' not found''))))) (\<lambda>wanted.
     act_seq (act_lift (check_members wanted))
     (act_bind (be_extract be b wanted out_dir) (\<lambda>failed.
      case failed of
        None \<Rightarrow> act_ret ()
      | Some msg \<Rightarrow> act_raise (BackupError (''unsafe or corrupt entry in backup archive: '' @ msg)))))))"

text \<open>The older files by the archive that holds them, in the order of their first one.\<close>
fun by_archive :: "string \<Rightarrow> (string \<times> json) list \<Rightarrow> ((string \<times> string) \<times> string list) list \<Rightarrow> exn + ((string \<times> string) \<times> string list) list" where
  "by_archive set1 [] older = Inr older"
| "by_archive set1 ((path, info) # files) older =
     (case (get_or info ''kind'' JNull, get_or info ''stored_in'' JNull) of
        (Inr kind, Inr loc) \<Rightarrow>
          if kind \<noteq> JStr ''file'' \<or> \<not> truthy loc then by_archive set1 files older
          else (case item loc ''set'' of
             Inl e \<Rightarrow> Inl e
           | Inr other \<Rightarrow>
               if other = JStr set1 then by_archive set1 files older
               else (case (as_text other, item loc ''archive'') of
                  (Inr x, Inr b) \<Rightarrow>
                    (case as_text b of
                       Inl e \<Rightarrow> Inl e
                     | Inr y \<Rightarrow>
                         (case map_of older (x, y) of
                            None \<Rightarrow> by_archive set1 files (older @ [((x, y), [lstrip_char (CHR ''/'') path])])
                          | Some names \<Rightarrow>
                              by_archive set1 files (AList.update (x, y) (names @ [lstrip_char (CHR ''/'') path]) older)))
                | (Inl e, _) \<Rightarrow> Inl e
                | (_, Inl e) \<Rightarrow> Inl e))
      | (Inl e, _) \<Rightarrow> Inl e
      | (_, Inl e) \<Rightarrow> Inl e)"

definition names_in :: "((string \<times> string) \<times> string list) list \<Rightarrow> string \<times> string \<Rightarrow> string list" where
  "names_in older k = (case map_of older k of None \<Rightarrow> [] | Some names \<Rightarrow> names)"

definition restore_older :: "'m backup_env \<Rightarrow> string \<Rightarrow> string \<Rightarrow> json \<Rightarrow> string \<Rightarrow> ('m site, unit) act" where
  "restore_older be backup_dir set1 entry out =
     act_bind (act_lift (item entry ''files'')) (\<lambda>files.
     act_bind (act_lift (items_of files)) (\<lambda>kvs.
     act_bind (act_lift (by_archive set1 kvs [])) (\<lambda>older.
     act_for (sort_pairs (map fst older)) (\<lambda>(dep_set, dep_archive).
       extract_members be (backup_dir @ ''/'' @ dep_set @ ''/'' @ dep_archive) (Some (names_in older (dep_set, dep_archive))) out))))"

definition restore_label :: "'m backup_env \<Rightarrow> destination \<Rightarrow> string \<Rightarrow> string \<Rightarrow> string \<Rightarrow> ('m site, unit) act" where
  "restore_label be dest set1 label out_dir =
     act_bind (look (\<lambda>t. (realpath t out_dir, realpath t (ds_path dest)))) (\<lambda>(out, backup_root).
     if out = backup_root \<or> starts_with out (backup_root @ ''/'') then
       act_raise (BackupError ''restore target must not be on the backup drive'')
     else act_bind (look (\<lambda>t. is_dir t out)) (\<lambda>there.
     if \<not> there then act_raise (BackupError (''restore target '' @ out_dir @ '' is not an existing folder''))
     else case path_join (ds_backup_dir dest) set1 of set_path \<Rightarrow>
       act_seq (verify_chain be dest set1 False)
       (act_bind (read_manifest be set_path) (\<lambda>manifest.
        act_bind (act_lift (find_archive manifest (label @ ''.tar.gz''))) (\<lambda>entry.
        case entry of
          None \<Rightarrow> act_raise (BackupError (set1 @ '' has no archive '' @ py_repr label))
        | Some e \<Rightarrow>
            act_seq (extract_members be (set_path @ ''/'' @ label @ ''.tar.gz'') None out)
            (act_bind (field_or e ''mode'' JNull) (\<lambda>mode.
             act_when (mode = JStr ''changes-only'') (restore_older be (ds_backup_dir dest) set1 e out))))))))"

section \<open>The whole job\<close>

text \<open>\<open>f"{n / 2**30:.1f}"\<close>: a tie goes to the even digit.\<close>
definition gib_text :: "int \<Rightarrow> string" where
  "gib_text n =
     (let q = 10 * n div GIB; r = 10 * n mod GIB; k = (if 2 * r > GIB \<or> (2 * r = GIB \<and> odd q) then q + 1 else q)
      in str_of_int (k div 10) @ ''.'' @ str_of_int (k mod 10))"

definition result :: "string option \<Rightarrow> bool \<Rightarrow> bool \<Rightarrow> int \<Rightarrow> string \<Rightarrow> backup_result" where
  "result path verified skipped n d =
     \<lparr>br_set_path = path, br_verified = verified, br_skipped = skipped, br_bytes = n, br_detail = d\<rparr>"

fun source_plans ::
    "'m backup_env \<Rightarrow> destination \<Rightarrow> string list \<Rightarrow> (string \<times> string list) list \<Rightarrow> ('m site, (string \<times> bplan) list) act" where
  "source_plans be dest changes_only [] = act_ret []"
| "source_plans be dest changes_only ((label, paths) # sources) =
     (if label \<notin> set changes_only then source_plans be dest changes_only sources
      else act_bind (plan_label be dest label paths) (\<lambda>p.
        act_bind (source_plans be dest changes_only sources) (\<lambda>ps. act_ret ((label, p) # ps))))"

fun source_estimates ::
    "'m backup_env \<Rightarrow> (string \<times> bplan) list \<Rightarrow> (string \<times> string list) list \<Rightarrow> ('m site, (string \<times> int) list) act" where
  "source_estimates be plans [] = act_ret []"
| "source_estimates be plans ((label, paths) # sources) =
     act_bind (case map_of plans label of
         Some p \<Rightarrow> act_ret (pl_changed_bytes p + STRUCTURE_ESTIMATE)
       | None \<Rightarrow> estimate_bytes be [(label, paths)]) (\<lambda>n.
     act_bind (source_estimates be plans sources) (\<lambda>ns. act_ret ((label, n) # ns)))"

definition budget :: "int \<Rightarrow> int" where
  "budget est = 102 * est div 100 + 64 * 2 ^ 20"

definition written_bytes :: "backup_set \<Rightarrow> int" where
  "written_bytes s = (\<Sum>a \<leftarrow> elements (field_of (bs_manifest s) ''archives''). case field_of a ''bytes'' of JInt n \<Rightarrow> n | _ \<Rightarrow> 0)"

definition dry_run_text :: "int \<Rightarrow> string \<Rightarrow> (string \<times> bplan) list \<Rightarrow> string" where
  "dry_run_text needed backup_dir plans =
     (let skipped = str_of_int (\<Sum>(label, p) \<leftarrow> plans. pl_unchanged p)
      in ''dry run: would add a backup set of at most '' @ gib_text needed @ '' GiB of data, compressed, to '' @ backup_dir @
         (if plans = [] then [] else '' ('' @ skipped @ '' unchanged files in changes-only archives are not copied again)'') @
         ''; empty space is never copied; '' @ skipped @ '' unchanged; nothing was written'')"

record 'm job =
  jb_destination :: string
  jb_sources :: "(string \<times> string list) list"
  jb_now :: int
  jb_allowed :: "string list"
  jb_enrolled :: "string list"
  jb_boot :: "string option"
  jb_interval :: int
  jb_record :: "(string list \<Rightarrow> int \<Rightarrow> ('m, unit) act) option"
  jb_force :: bool
  jb_dry_run :: bool
  jb_changes_only :: "string list"

definition add_set :: "'m backup_env \<Rightarrow> 'm job \<Rightarrow> destination \<Rightarrow> (string \<times> bplan) list \<Rightarrow> (string \<times> int) list \<Rightarrow> ('m site, backup_result) act" where
  "add_set be jb dest plans estimates =
     act_bind (create_backup_set be dest (jb_sources jb) (jb_now jb) (map (\<lambda>(label, est). (label, budget est)) estimates)
       (jb_changes_only jb) plans) (\<lambda>made.
     act_seq (case jb_record jb of
         None \<Rightarrow> act_ret ()
       | Some f \<Rightarrow> on_rest (f (concat (map snd (jb_sources jb))) (jb_now jb)))
     (act_ret (result (Some (bs_path made)) True False (written_bytes made)
       (''backup set '' @ bs_name made @ '' written and verified''))))"

definition backup_to :: "'m backup_env \<Rightarrow> 'm job \<Rightarrow> destination \<Rightarrow> ('m site, backup_result) act" where
  "backup_to be jb dest =
     act_bind (if jb_force jb then act_ret True else is_due be dest (jb_now jb) (jb_interval jb)) (\<lambda>due.
     if \<not> due then
       act_ret (result None False True 0 (''skipped: a backup newer than '' @ str_of_int (jb_interval jb) @ ''h already exists''))
     else act_bind (source_plans be dest (jb_changes_only jb) (jb_sources jb)) (\<lambda>plans.
     act_bind (source_estimates be plans (jb_sources jb)) (\<lambda>estimates.
     act_seq (check_space be dest (sum_list (map snd estimates)))
     (if jb_dry_run jb then
        act_ret (result None False False (sum_list (map snd estimates))
          (dry_run_text (sum_list (map snd estimates)) (ds_backup_dir dest) plans))
      else add_set be jb dest plans estimates))))"

definition run_backup :: "'m backup_env \<Rightarrow> 'm job \<Rightarrow> ('m site, backup_result) act" where
  "run_backup be jb =
     act_seq (on_rest (be_gate be ''backup_offdrive'' [(''dry_run'', JBool (jb_dry_run jb)), (''force'', JBool (jb_force jb))]))
     (if jb_destination jb = [] then act_raise (BackupError ''no backup destination is configured'')
      else act_bind (resolve_destination be (jb_enrolled jb) (jb_destination jb) (jb_allowed jb) (jb_boot jb)) (backup_to be jb))"

definition PROXMOX_CONFIG_PATHS :: "string list" where
  "PROXMOX_CONFIG_PATHS = [''/etc/pve'', ''/etc/network/interfaces'', ''/etc/hosts'', ''/etc/hostname'', ''/etc/baseline'',
     ''/etc/containers/systemd'']"

definition NOT_BACKED_UP :: "string list" where "NOT_BACKED_UP = [''/mnt/SESSION_TEMP'']"

definition build_sources :: "(string \<Rightarrow> bool) \<Rightarrow> (string \<Rightarrow> bool) \<Rightarrow> (string \<times> string list) list" where
  "build_sources is_mount exists_at =
     (let mounted = filter (\<lambda>mp. mp \<notin> set NOT_BACKED_UP \<and> is_mount mp) (map v_mount BASELINE_VOLUMES);
          cache = filter (\<lambda>mp. mp = ''/mnt/INSTALLER_CACHE'') mounted;
          volumes = filter (\<lambda>mp. mp \<noteq> ''/mnt/INSTALLER_CACHE'') mounted;
          config = filter exists_at PROXMOX_CONFIG_PATHS
      in (if volumes \<noteq> [] then [(''baseline-volumes'', volumes)] else []) @
         (if cache \<noteq> [] then [(''installer-cache'', cache)] else []) @
         (if config \<noteq> [] then [(''proxmox-config'', config)] else []))"

section \<open>Guests of Proxmox\<close>

definition LOCAL_LVM_STORAGE :: string where "LOCAL_LVM_STORAGE = ''local-lvm''"

definition vmid_ok :: "string \<Rightarrow> bool" where
  "vmid_ok w \<longleftrightarrow> (case (if ends_with w [CHR 0x0A] then butlast w else w) of d \<Rightarrow> all_digits d \<and> length d \<le> 9)"

definition guest_ids :: "string \<Rightarrow> string list" where
  "guest_ids output = filter vmid_ok (map (\<lambda>line. case split_ws line of [] \<Rightarrow> [] | w # ws \<Rightarrow> w) (drop 1 (splitlines output)))"

text \<open>\<open>_SIZE_RE.search(line)\<close>: the number and its unit, in bytes.\<close>

definition unit_bytes :: "string \<Rightarrow> int" where
  "unit_bytes r = (case r of
     CHR ''K'' # _ \<Rightarrow> 2 ^ 10 | CHR ''M'' # _ \<Rightarrow> 2 ^ 20 | CHR ''G'' # _ \<Rightarrow> 2 ^ 30 | CHR ''T'' # _ \<Rightarrow> 2 ^ 40 | _ \<Rightarrow> 1)"

definition size_here :: "string \<Rightarrow> int option" where
  "size_here t =
     (let whole = takeWhile is_digit t; r = dropWhile is_digit t;
          frac = (case r of CHR ''.'' # f \<Rightarrow> takeWhile is_digit f | _ \<Rightarrow> []);
          after = (if frac = [] then r else drop (Suc (length frac)) r)
      in if whole = [] then None
         else Some (int (digits_nat (whole @ frac)) * unit_bytes after div 10 ^ length frac))"

fun size_in :: "string \<Rightarrow> int" where
  "size_in [] = 0"
| "size_in (c # cs) =
     (case (if starts_with (c # cs) ''size='' then size_here (drop 5 (c # cs)) else None) of
        Some n \<Rightarrow> n
      | None \<Rightarrow> size_in cs)"

record guest =
  gu_kind :: string
  gu_id :: string
  gu_size :: int

text \<open>\<open>guest_run\<close> may add files: it is what runs \<open>vzdump\<close>.\<close>
type_synonym 'm guest_run = "string list \<Rightarrow> int \<Rightarrow> ('m site, proc) act"

fun guests_of :: "'m guest_run \<Rightarrow> string \<Rightarrow> string \<Rightarrow> string list \<Rightarrow> ('m site, guest list) act" where
  "guests_of grun tool kind [] = act_ret []"
| "guests_of grun tool kind (vmid # ids) =
     act_bind (grun [tool, ''config'', vmid] 60) (\<lambda>config.
     act_bind (guests_of grun tool kind ids) (\<lambda>found.
     act_ret (case filter (contains (LOCAL_LVM_STORAGE @ '':'')) (splitlines (stdout config)) of
         [] \<Rightarrow> found
       | lines1 \<Rightarrow> if returncode config \<noteq> 0 then found
           else \<lparr>gu_kind = kind, gu_id = vmid, gu_size = sum_list (map size_in lines1)\<rparr> # found)))"

fun list_guests :: "'m guest_run \<Rightarrow> (string \<times> string) list \<Rightarrow> ('m site, guest list) act" where
  "list_guests grun [] = act_ret []"
| "list_guests grun ((tool, kind) # tools) =
     act_bind (grun [tool, ''list''] 60) (\<lambda>listing.
     act_bind (if returncode listing \<noteq> 0 then act_ret [] else guests_of grun tool kind (guest_ids (stdout listing))) (\<lambda>found.
     act_bind (list_guests grun tools) (\<lambda>others. act_ret (found @ others))))"

definition list_guests_on_local_lvm :: "'m guest_run \<Rightarrow> ('m site, guest list) act" where
  "list_guests_on_local_lvm grun = list_guests grun [(''qm'', ''qemu''), (''pct'', ''lxc'')]"

text \<open>\<open>_DUMP_RE.match(name)\<close>: the type and the guest.\<close>

definition DUMP_ENDS :: "string list" where
  "DUMP_ENDS = concat (map (\<lambda>e. map (\<lambda>z. e @ z) [[], ''.zst'', ''.gz'', ''.lzo'']) [''.vma'', ''.tar''])"

definition dump_rest :: "string \<Rightarrow> string \<Rightarrow> (string \<times> string) option" where
  "dump_rest kind r =
     (case (takeWhile is_digit r, dropWhile is_digit r) of
        (d # ds, CHR ''-'' # t) \<Rightarrow>
          (case (if ends_with t [CHR 0x0A] then butlast t else t) of u \<Rightarrow>
           if list_ex (\<lambda>e. ends_with u e \<and> length e < length u \<and> list_all label_char (take (length u - length e) u)) DUMP_ENDS
           then Some (kind, d # ds) else None)
      | _ \<Rightarrow> None)"

definition dump_of :: "string \<Rightarrow> (string \<times> string) option" where
  "dump_of name =
     (if starts_with name ''vzdump-qemu-'' then dump_rest ''qemu'' (drop 12 name)
      else if starts_with name ''vzdump-lxc-'' then dump_rest ''lxc'' (drop 11 name)
      else if starts_with name ''vzdump-openvz-'' then dump_rest ''openvz'' (drop 14 name)
      else None)"

fun dump_entries :: "'m backup_env \<Rightarrow> string \<Rightarrow> string list \<Rightarrow> ('m site, (string \<times> json) list) act" where
  "dump_entries be set_dir [] = act_ret []"
| "dump_entries be set_dir (name # names) =
     (case (dump_of name, set_dir @ ''/'' @ name) of
        (None, child) \<Rightarrow> dump_entries be set_dir names
      | (Some (kind, vmid), child) \<Rightarrow>
          act_bind (look (\<lambda>t. is_file t child \<and> \<not> is_link t child)) (\<lambda>plain.
          if \<not> plain then dump_entries be set_dir names
          else act_bind (look (\<lambda>t. file_size t child)) (\<lambda>sz.
          act_bind (sha256_file be child) (\<lambda>sha.
          act_bind (dump_entries be set_dir names) (\<lambda>found.
          act_ret ((vmid, JObj [(''name'', JStr name), (''bytes'', JInt sz), (''sha256'', JStr sha), (''guest'', JStr vmid),
            (''type'', JStr kind)]) # found))))))"

definition create_guest_backup_set ::
    "'m backup_env \<Rightarrow> destination \<Rightarrow> guest list \<Rightarrow> int \<Rightarrow> 'm guest_run \<Rightarrow> ('m site, backup_set) act" where
  "create_guest_backup_set be dest guests now grun =
     (case map gu_id guests of ids \<Rightarrow>
      if ids = [] \<or> \<not> list_all vmid_ok ids then act_raise (BackupError ''no valid guest ids to back up'')
      else act_bind (new_set_dir be (ds_backup_dir dest) now) (\<lambda>set_dir.
      act_seq (write_new_text be (set_dir @ ''/'' @ INCOMPLETE_NAME) INCOMPLETE_TEXT)
      (act_bind (grun ([''vzdump''] @ ids @ [''--dumpdir'', set_dir, ''--mode'', ''snapshot'', ''--compress'', ''zstd'',
         ''--quiet'', ''1'']) (24 * 3600)) (\<lambda>p.
       if returncode p \<noteq> 0 then act_raise (BackupError (''vzdump failed: '' @ take 300 (strip (stderr p))))
       else act_bind (look (\<lambda>t. case swalk t set_dir of None \<Rightarrow> [] | Some c \<Rightarrow> sort_strs (children t c))) (\<lambda>names.
       act_bind (dump_entries be set_dir names) (\<lambda>entries.
       case filter (\<lambda>i. i \<notin> fst ` set entries) ids of
         m # ms \<Rightarrow> act_raise (BackupError (''vzdump produced no dump for guest(s) '' @ join '', '' (sort_strs (remdups (m # ms)))))
       | [] \<Rightarrow> finish_set be set_dir (set_manifest be now [(''content'', JStr ''guests'')] (map snd entries) [])))))))"

definition run_guest_backup :: "'m backup_env \<Rightarrow> 'm job \<Rightarrow> 'm guest_run \<Rightarrow> ('m site, backup_result) act" where
  "run_guest_backup be jb grun =
     act_seq (on_rest (be_gate be ''backup_guests'' [(''dry_run'', JBool (jb_dry_run jb))]))
     (if jb_destination jb = [] then act_raise (BackupError ''no backup destination is configured'')
      else act_bind (resolve_destination be (jb_enrolled jb) (jb_destination jb) (jb_allowed jb) (jb_boot jb)) (\<lambda>dest.
      act_bind (list_guests_on_local_lvm grun) (\<lambda>guests.
      if guests = [] then act_ret (result None False True 0 ''skipped: no VM or container has a disk on local-lvm'')
      else case (sum_list (map gu_size guests), join '', '' (map (\<lambda>g. gu_kind g @ '' '' @ gu_id g) guests)) of (total_size, names) \<Rightarrow>
        (case (if total_size = 0 then STRUCTURE_ESTIMATE else total_size) of needed \<Rightarrow>
         act_seq (check_space be dest needed)
         (if jb_dry_run jb then
            act_ret (result None False False needed (''dry run: would add a set of vzdump backups of '' @ names @ '', at most '' @
              gib_text needed @ '' GiB before compression, to '' @ ds_backup_dir dest @ ''; nothing was written''))
          else act_bind (create_guest_backup_set be dest guests (jb_now jb) grun) (\<lambda>made.
            act_ret (result (Some (bs_path made)) True False (written_bytes made)
              (''guest backup set '' @ bs_name made @ '' written and verified ('' @ names @ '')''))))))))"

text \<open>The entry points: the lines they print, and the exit code. \<open>destination\<close> is what the settings hold.\<close>

definition job_lines :: "('m site, backup_result) act \<Rightarrow> ('m site, int \<times> string) act" where
  "job_lines m =
     act_catch (act_bind m (\<lambda>r. act_ret (0, ''['' @ (if br_skipped r then ''skipped'' else ''ok'') @ ''] '' @ br_detail r)))
       (\<lambda>e. case e of BackupError msg \<Rightarrow> act_ret (1, ''[FAILED] '' @ msg) | _ \<Rightarrow> act_raise e)"

definition main_backup :: "'m backup_env \<Rightarrow> 'm job \<Rightarrow> (string \<Rightarrow> bool) \<Rightarrow> (string \<Rightarrow> bool) \<Rightarrow> ('m site, int \<times> string) act" where
  "main_backup be jb is_mount exists_at =
     act_seq (on_rest (be_gate be ''backup_offdrive'' [(''dry_run'', JBool (jb_dry_run jb)), (''force'', JBool (jb_force jb))]))
     (if jb_destination jb = [] then
        act_ret (1, ''[FAILED] no backup destination is configured (backups.offdrive_destination): no off-drive backup is being made'')
      else if build_sources is_mount exists_at = [] then
        act_ret (1, ''[FAILED] nothing to back up: no Baseline volume is mounted and no configuration was found'')
      else job_lines (run_backup be (jb\<lparr>jb_sources := build_sources is_mount exists_at, jb_changes_only := CHANGES_ONLY_LABELS\<rparr>)))"

definition main_guests :: "'m backup_env \<Rightarrow> 'm job \<Rightarrow> 'm guest_run \<Rightarrow> ('m site, int \<times> string) act" where
  "main_guests be jb grun =
     act_seq (on_rest (be_gate be ''backup_guests'' [(''dry_run'', JBool (jb_dry_run jb))]))
     (if jb_destination jb = [] then
        act_ret (1, ''[FAILED] no backup destination is configured (backups.offdrive_destination)'')
      else job_lines (run_guest_backup be jb grun))"

end
