(* ===== verification/OffdriveSafety.thy ===== *)
theory OffdriveSafety
  imports OffdriveBackup
begin

text \<open>
  What a backup does to the drive. Everything that only looks leaves the tree as it is; what is created lies below the
  backup folder of the destination, and nothing that was there is changed, however the run ends. The rules of
  \<open>tree_order\<close> are used with three orders: equality for what only looks, \<open>fills\<close> for what writes one open file, and \<open>grows\<close>
  for what adds below a folder.
\<close>

section \<open>What only looks\<close>

lemma tool_looks: "stays (=) (run_tool be argv timeout)"
  by (rule equal.same_tree) (simp add: run_tool_def on_rest_def split: prod.split)

lemma look_looks: "stays (=) (look f)"
  unfolding look_def by (rule equal.looking)

lemma fault_looks: "stays (=) (fault_at be what p)"
  unfolding fault_at_def by (rule equal.outside)

lemma field_looks: "stays (=) (field_or v k other)"
  unfolding field_or_def by (rule equal.lift)

lemmas looking = equal.intros tool_looks look_looks fault_looks field_looks

lemma sha_looks: "stays (=) (sha256_file be p)"
  unfolding sha256_file_def by (intro looking)

lemma readable_looks: "stays (=) (check_readable be p)"
  unfolding check_readable_def by (intro looking) (auto split: exn.split intro: looking)

lemma manifest_looks: "stays (=) (read_manifest be p)"
  unfolding read_manifest_def by (intro looking)

lemma text_case: "(\<And>n. stays R (f n)) \<Longrightarrow> stays R k \<Longrightarrow> stays R (case name of JStr n \<Rightarrow> f n | _ \<Rightarrow> k)"
  by (cases name) simp_all

lemma archives_look: "stays (=) (verify_archives be p entries)"
proof (induction entries)
  case (Cons e es)
  then show ?case
    unfolding verify_archives.simps by (intro looking text_case sha_looks readable_looks)
qed (simp only: verify_archives.simps equal.ret)

lemma verify_looks: "stays (=) (verify_set be p)"
  unfolding verify_set_def by (intro looking manifest_looks archives_look)

lemma complete_look: "stays (=) (complete_sets be dir names)"
proof (induction names)
  case (Cons n ns)
  then show ?case
    unfolding complete_sets.simps by (intro looking manifest_looks) (auto split: exn.split intro: looking)
qed (simp only: complete_sets.simps equal.ret)

lemma sets_look: "stays (=) (list_sets be dest)"
  unfolding list_sets_def by (intro looking complete_look)

lemma due_looks: "stays (=) (is_due be dest now n)"
  unfolding is_due_def by (intro equal.bind sets_look) (auto split: list.split intro: looking)

lemma plan_looks: "stays (=) (plan_label be dest label paths)"
  unfolding plan_label_def prior_table_def by (intro looking sets_look)

lemma source_plans_look: "stays (=) (source_plans be dest changes_only sources)"
  by (induction be dest changes_only sources rule: source_plans.induct)
    (auto simp only: source_plans.simps intro!: looking plan_looks)

lemma label_plans_look: "stays (=) (label_plans be dest changes_only plans sources)"
  by (induction be dest changes_only plans sources rule: label_plans.induct)
    (auto simp only: label_plans.simps intro!: looking plan_looks)

lemma paths_look: "stays (=) (estimate_paths be paths n)"
  by (induction paths arbitrary: n) (auto simp only: estimate_paths.simps intro!: looking)

lemma estimates_look: "stays (=) (source_estimates be plans sources)"
  by (induction be plans sources rule: source_estimates.induct)
    (auto simp only: source_estimates.simps estimate_bytes_def intro!: looking paths_look)

lemma space_looks: "stays (=) (check_space be dest n)"
  unfolding check_space_def by (intro looking)

lemma serials_look: "stays (=) (read_serials be disks serials)"
  by (induction disks arbitrary: serials) (auto simp only: read_serials.simps split: list.split intro!: looking)

lemma path_looks: "stays (=) (check_destination_path p)"
  unfolding check_destination_path_def by (intro looking)

lemma identified_looks: "stays (=) (identified be managed p boot mounted disks)"
  unfolding identified_def by (intro looking serials_look)

lemma resolve_looks: "stays (=) (resolve_destination be enrolled p allowed boot)"
  unfolding resolve_destination_def by (intro looking path_looks identified_looks)

section \<open>What is added\<close>

lemma clear_path:
  assumes "check_destination_path p s = (Inr (), s')"
  shows "at_dir p (path_comps p) (tree s)"
proof -
  have "realpath (tree s) p = p" "is_dir (tree s) p"
    using assms by (auto simp: check_destination_path_def act_bind_def look_def split: if_splits)
  moreover then obtain c where "swalk (tree s) p = Some c" "dir_at (tree s) c"
    by (auto simp: is_dir_def stat_def dir_at_def split: option.splits)
  ultimately show ?thesis using real_path by (auto simp: at_dir_def)
qed

lemma resolved:
  assumes "resolve_destination be enrolled p allowed boot s = (Inr dest, s')"
  shows "tree s' = tree s" "at_dir p (path_comps p) (tree s)" "ds_path dest = p" "ds_backup_dir dest = p @ ''/'' @ BACKUP_DIR_NAME"
proof -
  show "tree s' = tree s" using stays_equalD [OF resolve_looks assms] .
  obtain u where "check_destination_path p s = (Inr (), u)"
    using assms by (auto simp: resolve_destination_def act_seq_eq_Inr)
  then show "at_dir p (path_comps p) (tree s)" by (rule clear_path)
  obtain managed mounted disks v where "identified be managed p boot mounted disks v = (Inr dest, s')"
    using assms unfolding resolve_destination_def act_seq_eq_Inr act_bind_eq_Inr
    by (auto simp: act_bind_eq_Inr split: if_splits)
  then show "ds_path dest = p" "ds_backup_dir dest = p @ ''/'' @ BACKUP_DIR_NAME"
    by (auto simp: identified_def act_bind_eq_Inr act_seq_eq_Inr split: if_splits)
qed

text \<open>Names of files and folders.\<close>

lemma plain_nameI: "n \<noteq> [] \<Longrightarrow> n \<noteq> ''.'' \<Longrightarrow> n \<noteq> ''..'' \<Longrightarrow> CHR ''/'' \<notin> set n \<Longrightarrow> plain_name n"
  by (simp add: plain_name_def plain_comp_def)

lemma plain_constants: "plain_name BACKUP_DIR_NAME" "plain_name MANIFEST_NAME" "plain_name INCOMPLETE_NAME" "plain_name FAILED_VERIFY_NAME"
  by (rule plain_nameI; simp add: BACKUP_DIR_NAME_def MANIFEST_NAME_def INCOMPLETE_NAME_def FAILED_VERIFY_NAME_def)+

lemma digits_no_slash: "CHR ''/'' \<notin> set (str_of_nat n)"
  using str_of_nat_digits [of n] by (auto simp: is_digit_def)

lemma int_no_slash: "CHR ''/'' \<notin> set (str_of_int i)"
  using digits_no_slash by (simp add: str_of_int_def)

lemma two_digits_no_slash: "CHR ''/'' \<notin> set (two_digits i)"
  using int_no_slash [of i] by (simp add: two_digits_def)

lemma stamp_no_slash: "CHR ''/'' \<notin> set (set_stamp now)"
proof -
  obtain y m d where "civil (now div 86400) = (y, m, d)" by (cases "civil (now div 86400)") simp
  then show ?thesis
    by (simp only: set_stamp_def clock_fields_def prod.case list.case set_append Un_iff int_no_slash two_digits_no_slash simp_thms)
      simp
qed

lemma set_name_plain: "CHR ''/'' \<notin> set x \<Longrightarrow> plain_name (''baseline-'' @ x)"
  by (rule plain_nameI) simp_all

lemma label_plain: "list_all label_char label \<Longrightarrow> plain_name (label @ ''.tar.gz'')"
proof (rule plain_nameI)
  assume "list_all label_char label"
  then show "CHR ''/'' \<notin> set (label @ ''.tar.gz'')"
    by (auto simp: list_all_iff label_char_def is_upper_def is_lower_def is_digit_def)
qed (cases label rule: rev_cases; simp)+

text \<open>Writing into the one file that was created.\<close>

lemma fills_equal: "stays (=) m \<Longrightarrow> stays (fills fd) m"
  by (simp add: stays_def filling.R_refl)

lemma closing_fills: "stays (fills fd) m \<Longrightarrow> stays (fills fd) (closing be p m)"
  unfolding closing_def by (intro filling.intros fills_equal [OF fault_looks])

lemma chunks_fill: "stays (fills fd) (stream_chunks be fd cap chunks n)"
  by (induction chunks arbitrary: n) (auto simp only: stream_chunks.simps split: option.split intro!: filling.intros fills_write_all)

lemma stream_fills: "stays (fills fd) (stream_tar be argv fd cap stdin1)"
proof -
  have "stays (fills fd) (\<lambda>s. on_rest (be_tar be argv stdin1 (tree s)) s)"
    by (rule filling.same_tree) (simp add: on_rest_def split: prod.split)
  then show ?thesis unfolding stream_tar_def by (intro filling.intros chunks_fill)
qed

lemma new_text_grows: "prefix B c \<Longrightarrow> plain_name n \<Longrightarrow> stays (grows B p c) (write_new_text be (p @ ''/'' @ n) content)"
  unfolding write_new_text_def
  by (intro new_file_grows closing_fills filling.seqs fills_write_all fills_equal [OF fault_looks]) simp_all

lemma check_archive_looks: "stays (=) (check_archive be p name paths plan r)"
  unfolding check_archive_def by (intro looking sha_looks readable_looks)

lemma archive_grows:
  assumes "prefix B c" "list_all label_char label"
  shows "stays (grows B p c) (make_archive be p label paths plan cap)"
  unfolding make_archive_def write_archive_def
  by (intro new_file_grows label_plain assms closing_fills filling.intros stream_fills fills_equal [OF fault_looks]
    fills_equal [OF check_archive_looks])

lemma archives_grow:
  "prefix B c \<Longrightarrow> list_all (\<lambda>(label, paths). list_all label_char label) sources \<Longrightarrow>
     stays (grows B p c) (make_archives be p plans budgets sources)"
  by (induction be p plans budgets sources rule: make_archives.induct)
    (auto simp only: make_archives.simps list.pred_inject prod.case intro!: growing.intros archive_grows)

lemma finish_grows: "prefix B c \<Longrightarrow> stays (grows B p c) (finish_set be p manifest)"
  unfolding finish_set_def
  by (intro growing.intros new_text_grows plain_constants stays_equal [OF verify_looks])
    (use new_text_grows [OF _ plain_constants(4)] in \<open>auto split: exn.split intro!: growing.intros\<close>)

text \<open>The folder of a set.\<close>

lemma free_name_adds:
  assumes "at_dir p c (tree s)" "prefix B c" "\<And>n. CHR ''/'' \<notin> set n \<Longrightarrow> plain_name (base @ n)" "free_name be (p @ ''/'' @ base) ns s = (r, s')"
  shows "adds B (tree s) (tree s') \<and> (\<forall>d. r = Inr d \<longrightarrow> (\<exists>e. plain_name e \<and> d = p @ ''/'' @ e \<and> prefix B (c @ [e]) \<and> at_dir d (c @ [e]) (tree s')))"
  using assms(1,4)
proof (induction ns arbitrary: s)
  case Nil
  then show ?case by (auto simp: adds_refl)
next
  case (Cons n ns)
  define e where "e = (if n = 1 then base else base @ ''-'' @ str_of_nat n)"
  have e: "plain_name e" using assms(3) [of "[]"] assms(3) [of "''-'' @ str_of_nat n"] digits_no_slash by (simp add: e_def)
  have cand: "(if n = 1 then p @ ''/'' @ base else (p @ ''/'' @ base) @ ''-'' @ str_of_nat n) = p @ ''/'' @ e"
    by (simp add: e_def)
  obtain q u where q: "make_dir be (p @ ''/'' @ e) s = (q, u)" by fastforce
  note m = make_dir_in [OF Cons.prems(1) e q]
  have B: "prefix B (c @ [e])" using assms(2) by (simp add: prefix_prefix)
  have add: "adds B (tree s) (tree u)" using m(1) B unfolding adds_def by (meson prefix_order.trans)
  have step: "(r, s') = (case q of Inl x \<Rightarrow> (Inl x, u) | Inr True \<Rightarrow> (Inr (p @ ''/'' @ e), u)
      | Inr False \<Rightarrow> free_name be (p @ ''/'' @ base) ns u)"
    using Cons.prems(2) q unfolding free_name.simps cand by (auto simp: act_bind_def split: sum.splits bool.splits if_splits)
  show ?case
  proof (cases q)
    case (Inl x)
    then show ?thesis using step add by simp
  next
    case (Inr made)
    show ?thesis
    proof (cases made)
      case True
      then show ?thesis using step add Inr m(2) B e by auto
    next
      case False
      then have "at_dir p c (tree u)" using Cons.prems(1) add at_dir_adds by blast
      then show ?thesis using Cons.IH [of u] step Inr False add adds_trans by auto
    qed
  qed
qed

lemma set_dir_adds:
  assumes at: "at_dir p c (tree s)" and new: "new_set_dir be (p @ ''/'' @ BACKUP_DIR_NAME) now s = (r, s')"
  defines "B \<equiv> c @ [BACKUP_DIR_NAME]"
  shows "adds B (tree s) (tree s') \<and> (\<forall>d. r = Inr d \<longrightarrow>
     (\<exists>e. plain_name e \<and> d = p @ ''/'' @ BACKUP_DIR_NAME @ ''/'' @ e \<and> at_dir d (B @ [e]) (tree s')))"
proof -
  let ?bd = "p @ ''/'' @ BACKUP_DIR_NAME"
  obtain q u where q: "make_dir be ?bd s = (q, u)" by fastforce
  note m = make_dir_in [OF at plain_constants(1) q]
  have add: "adds B (tree s) (tree u)" using m(1) by (simp add: B_def)
  show ?thesis
  proof (cases q)
    case (Inl x)
    then show ?thesis using new q add by (auto simp: new_set_dir_def act_bind_def)
  next
    case (Inr made)
    show ?thesis
    proof (cases "\<not> made \<and> (\<not> is_dir (tree u) ?bd \<or> is_link (tree u) ?bd)")
      case True
      then show ?thesis using new q add Inr by (auto simp: new_set_dir_def act_bind_def look_def split: if_splits)
    next
      case False
      have bd: "at_dir ?bd B (tree u)"
      proof (cases made)
        case True
        then show ?thesis using m(2) Inr by (simp add: B_def)
      next
        case nm: False
        then have d: "is_dir (tree u) ?bd" "\<not> is_link (tree u) ?bd" using False by auto
        have at': "at_dir p c (tree u)" using at add at_dir_adds by blast
        obtain x where x: "map_of (tree u) B = Some x" using m(3) Inr nm by (auto simp: B_def)
        then have nl: "\<not> is_link_node x" using d(2) lwalk_in [OF at' plain_constants(1)] by (simp add: is_link_def lstat_def B_def)
        have "swalk (tree u) ?bd = Some B"
          using swalk_in [OF at' plain_constants(1) _ nl] x by (simp add: B_def)
        then show ?thesis using d(1) x by (simp add: at_dir_def is_dir_def stat_def dir_at_def)
      qed
      have plain: "plain_name ((''baseline-'' @ set_stamp now) @ n)" if "CHR ''/'' \<notin> set n" for n
        using set_name_plain [of "set_stamp now @ n"] stamp_no_slash that by simp
      have run: "free_name be (?bd @ ''/'' @ (''baseline-'' @ set_stamp now)) [1..<100] u = (r, s')"
        using new q Inr False by (simp add: new_set_dir_def act_bind_def look_def split: if_splits)
      have f: "adds B (tree u) (tree s') \<and> (\<forall>d. r = Inr d \<longrightarrow>
          (\<exists>e. plain_name e \<and> d = ?bd @ ''/'' @ e \<and> prefix B (B @ [e]) \<and> at_dir d (B @ [e]) (tree s')))"
        by (rule free_name_adds [OF bd _ plain run]) simp_all
      then show ?thesis using adds_trans [OF add] by fastforce
    qed
  qed
qed


section \<open>The run\<close>

lemma checked_labels: "check_sources t sources = Inr () \<Longrightarrow> list_all (\<lambda>(label, paths). list_all label_char label) sources"
  by (induction t sources rule: check_sources.induct) (auto split: if_splits list.splits)

lemma create_adds:
  assumes at: "at_dir (ds_path dest) c (tree s)" and bd: "ds_backup_dir dest = ds_path dest @ ''/'' @ BACKUP_DIR_NAME"
  shows "adds (c @ [BACKUP_DIR_NAME]) (tree s) (tree (snd (create_backup_set be dest sources now budgets changes_only plans s)))"
proof -
  let ?B = "c @ [BACKUP_DIR_NAME]" and ?run = "create_backup_set be dest sources now budgets changes_only plans s"
  show ?thesis
  proof (cases "check_sources (tree s) sources")
    case (Inl e)
    then show ?thesis by (simp add: create_backup_set_def look_def adds_refl)
  next
    case (Inr u)
    obtain r1 s1 where l: "label_plans be dest changes_only plans sources s = (r1, s1)" by fastforce
    have t1: "tree s1 = tree s" using stays_equalD [OF label_plans_look l] .
    show ?thesis
    proof (cases r1)
      case (Inl e)
      then show ?thesis using \<open>check_sources (tree s) sources = Inr u\<close> l t1
        by (simp add: create_backup_set_def look_def adds_refl act_bind_def)
    next
      case ps: (Inr ps)
      obtain r2 s2 where d: "new_set_dir be (ds_backup_dir dest) now s1 = (r2, s2)" by fastforce
      have a: "adds ?B (tree s) (tree s2) \<and> (\<forall>d. r2 = Inr d \<longrightarrow> (\<exists>c'. prefix ?B c' \<and> at_dir d c' (tree s2)))"
        using set_dir_adds [of "ds_path dest" c s1 be now r2 s2] at bd d t1 by auto (metis prefixI append_Cons append_Nil append_assoc)
      show ?thesis
      proof (cases r2)
        case (Inl e)
        then show ?thesis using \<open>check_sources (tree s) sources = Inr u\<close> l ps d a
          by (simp add: create_backup_set_def look_def act_bind_def)
      next
        case dir: (Inr d)
        then obtain c' where c': "prefix ?B c'" "at_dir d c' (tree s2)" using a by blast
        let ?fill = "act_seq (write_new_text be (d @ ''/'' @ INCOMPLETE_NAME) INCOMPLETE_TEXT)
          (act_bind (make_archives be d ps budgets sources) (\<lambda>entries.
            finish_set be d (set_manifest be now [] entries (depends_on (path_name d) ps))))"
        have "stays (grows ?B d c') ?fill"
          using \<open>check_sources (tree s) sources = Inr u\<close> c'(1)
          by (intro growing.seqs growing.bind new_text_grows plain_constants archives_grow finish_grows)
            (auto intro: checked_labels)
        then have "adds ?B (tree s2) (tree (snd (?fill s2)))"
          using c'(2) by (simp add: stays_def grows_def)
        moreover have "?run = ?fill s2"
          using \<open>check_sources (tree s) sources = Inr u\<close> l ps d dir by (simp add: create_backup_set_def look_def act_bind_def)
        ultimately show ?thesis using a adds_trans by metis
      qed
    qed
  qed
qed

text \<open>An action whose first part only looks: what it adds is what its rest adds, wherever that starts.\<close>

lemma adds_after_looking:
  assumes "stays (=) m" "\<And>x s'. m s = (Inr x, s') \<Longrightarrow> tree s' = tree s \<Longrightarrow> adds B (tree s') (tree (snd (f x s')))"
  shows "adds B (tree s) (tree (snd (act_bind m f s)))"
proof -
  obtain r s' where m: "m s = (r, s')" by fastforce
  have "tree s' = tree s" using stays_equalD [OF assms(1) m] .
  then show ?thesis using m assms(2) by (cases r) (auto simp: adds_refl act_bind_def)
qed

lemma adds_looking: "stays (=) m \<Longrightarrow> adds B (tree s) (tree (snd (m s)))"
  by (metis adds_refl stays_def)

lemma add_set_adds:
  assumes "at_dir (ds_path dest) c (tree s)" "ds_backup_dir dest = ds_path dest @ ''/'' @ BACKUP_DIR_NAME"
  shows "adds (c @ [BACKUP_DIR_NAME]) (tree s) (tree (snd (add_set be jb dest plans estimates (s :: 'a site))))"
proof -
  let ?create = "create_backup_set be dest (jb_sources jb) (jb_now jb) (map (\<lambda>(label, est). (label, budget est)) estimates)
    (jb_changes_only jb) plans"
  obtain r v where v: "?create s = (r, v)" by fastforce
  have "adds (c @ [BACKUP_DIR_NAME]) (tree s) (tree v)" using create_adds [OF assms] v by (metis snd_conv)
  moreover have "stays (=) (act_seq (case jb_record jb of None \<Rightarrow> act_ret () | Some f \<Rightarrow> on_rest (f a b)) (act_ret x))"
    for a b and x :: backup_result
    by (intro looking)
  ultimately show ?thesis
    unfolding add_set_def using v by (cases r) (auto simp: act_bind_def stays_def)
qed

lemma backup_to_adds:
  assumes "at_dir (ds_path dest) c (tree s)" "ds_backup_dir dest = ds_path dest @ ''/'' @ BACKUP_DIR_NAME"
  shows "adds (c @ [BACKUP_DIR_NAME]) (tree s) (tree (snd (backup_to be jb dest (s :: 'a site))))"
proof -
  let ?B = "c @ [BACKUP_DIR_NAME]"
  have due: "stays (=) (if jb_force jb then act_ret True else is_due be dest (jb_now jb) (jb_interval jb))"
    by (intro looking due_looks)
  show ?thesis
    unfolding backup_to_def act_seq_def
  proof (rule adds_after_looking [OF due])
    fix due1 and u :: "'a site"
    assume u: "tree u = tree s"
    let ?rest = "act_bind (source_plans be dest (jb_changes_only jb) (jb_sources jb)) (\<lambda>plans.
      act_bind (source_estimates be plans (jb_sources jb)) (\<lambda>estimates.
      act_bind (check_space be dest (sum_list (map snd estimates))) (\<lambda>_.
      if jb_dry_run jb then
        act_ret (result None False False (sum_list (map snd estimates))
          (dry_run_text (sum_list (map snd estimates)) (ds_backup_dir dest) plans))
      else add_set be jb dest plans estimates)))"
    have "adds ?B (tree u) (tree (snd (?rest u)))"
    proof (intro adds_after_looking source_plans_look estimates_look space_looks)
      fix plans estimates and x :: unit and v w y :: "'a site"
      assume "tree v = tree u" "tree w = tree v" "tree y = tree w"
      then show "adds ?B (tree y) (tree (snd ((if jb_dry_run jb then
          act_ret (result None False False (sum_list (map snd estimates))
            (dry_run_text (sum_list (map snd estimates)) (ds_backup_dir dest) plans))
          else add_set be jb dest plans estimates) y)))"
        using add_set_adds [of dest c y] assms u by (simp add: adds_refl)
    qed
    then show "adds ?B (tree u) (tree (snd ((if \<not> due1 then act_ret (result None False True 0
          (''skipped: a backup newer than '' @ str_of_int (jb_interval jb) @ ''h already exists'')) else ?rest) u)))"
      by (simp add: adds_refl)
  qed
qed


end
