(* ===== verification/OffdriveFiles.thy ===== *)
theory OffdriveFiles
  imports OffdriveSafety
begin

text \<open>
  What a backup that succeeded leaves on the drive: the manifest, an archive per label with the size and hash that the
  manifest records, and for every file of a changes-only label the set that holds it.
\<close>

section \<open>What is in the files\<close>

definition file_at :: "tree \<Rightarrow> place \<Rightarrow> string \<Rightarrow> bool" where
  "file_at t c content \<longleftrightarrow> (\<exists>d mtime blocks. map_of t c = Some (NFile d content mtime blocks))"

lemma file_at_adds: "adds B t t' \<Longrightarrow> file_at t c x \<Longrightarrow> file_at t' c x"
  by (auto simp: adds_def file_at_def)

lemma file_in: "at_dir p c t \<Longrightarrow> plain_name n \<Longrightarrow> file_at t (c @ [n]) x \<Longrightarrow> is_file t (p @ ''/'' @ n)"
  using swalk_in [of p c t n] by (auto simp: file_at_def is_file_def stat_def)

lemma is_file_adds: "adds B t t' \<Longrightarrow> is_file t p \<Longrightarrow> is_file t' p"
  using walk_adds by (fastforce simp: is_file_def stat_def swalk_def adds_def split: option.splits)

lemma write_some_Inr:
  assumes "write_some ou fd data s = (Inr k, s')" "data \<noteq> []" "file_at (tree s) fd b"
  shows "1 \<le> k \<and> file_at (tree s') fd (b @ take k data)"
proof -
  obtain k0 u where u: "on_rest (ou_takes ou) s = (Inr k0, u)"
    using assms(1) by (auto simp: write_some_def act_bind_eq_Inr)
  have t: "tree u = tree s" using u by (rule on_rest_tree)
  obtain d mtime blocks where m: "map_of (tree u) fd = Some (NFile d b mtime blocks)" using assms(3) t by (auto simp: file_at_def)
  obtain mtime' blocks' where o: "ou_times ou (beyond u) = (mtime', blocks')" by fastforce
  have "k = max 1 (min k0 (length data)) \<and> tree s' = AList.update fd (NFile d (b @ take k data) mtime' blocks') (tree u)"
    using assms(1) u m o by (auto simp: write_some_def)
  then show ?thesis by (auto simp: file_at_def update_conv)
qed

lemma write_all_Inr:
  "write_all ou fd data s = (Inr x, s') \<Longrightarrow> file_at (tree s) fd b \<Longrightarrow> file_at (tree s') fd (b @ data)"
proof (induction ou fd data s arbitrary: b rule: write_all.induct)
  case (1 ou fd data s)
  show ?case
  proof (cases "data = []")
    case True
    then show ?thesis using 1 by (simp add: write_all.simps)
  next
    case False
    then obtain k u where k: "write_some ou fd data s = (Inr k, u)" "write_all ou fd (drop (max 1 k) data) u = (Inr x, s')"
      using "1.prems"(1) by (subst (asm) write_all.simps) (auto split: prod.splits sum.splits)
    have w: "1 \<le> k" "file_at (tree u) fd (b @ take k data)" using write_some_Inr [OF k(1) False "1.prems"(2)] by auto
    have "file_at (tree s') fd ((b @ take k data) @ drop (max 1 k) data)"
      using "1.IH" [OF False k(1) [symmetric] refl k(2) w(2)] .
    then show ?thesis using w(1) by (simp add: max_def)
  qed
qed

lemma stream_chunks_Inr:
  "stream_chunks be fd cap chunks n s = (Inr m, s') \<Longrightarrow> file_at (tree s) fd b \<Longrightarrow>
     file_at (tree s') fd (b @ concat chunks) \<and> m = n + int (length (concat chunks))
     \<and> (\<forall>limit. cap = Some limit \<longrightarrow> chunks \<noteq> [] \<longrightarrow> m \<le> limit)"
proof (induction chunks arbitrary: n s b)
  case (Cons c cs)
  then obtain x u where w: "write_all be fd c s = (Inr x, u)" "stream_chunks be fd cap cs (n + int (length c)) u = (Inr m, s')"
      "\<forall>limit. cap = Some limit \<longrightarrow> n + int (length c) \<le> limit"
    by (auto simp: act_seq_eq_Inr split: option.splits if_splits)
  note r = Cons.IH [OF w(2) write_all_Inr [OF w(1) Cons.prems(2)]]
  then show ?case using w(3) by (cases "cs = []") auto
qed simp

lemma closing_Inr: "closing be p m s = (Inr x, s') \<Longrightarrow> \<exists>u. m s = (Inr x, u) \<and> tree s' = tree u"
  unfolding closing_def fault_at_def
  by (auto simp: act_bind_eq_Inr act_seq_eq_Inr act_catch_eq dest!: on_rest_tree split: prod.splits sum.splits)

lemma create_file_Inr:
  assumes "at_dir p c (tree s)" "plain_name n" "create_file ou (p @ ''/'' @ n) s = (Inr fd, s')"
  shows "fd = c @ [n] \<and> file_at (tree s') (c @ [n]) []"
proof -
  obtain x u where u: "on_rest (ou_fault ou ''open'' (p @ ''/'' @ n)) s = (Inr x, u)"
    using assms(3) by (auto simp: create_file_def act_seq_eq_Inr)
  have t: "tree u = tree s" using u by (rule on_rest_tree)
  have w: "lwalk (tree u) (p @ ''/'' @ n) = Some (c @ [n])" using lwalk_in assms(1,2) t by simp
  then show ?thesis
    using assms(3) u by (auto simp: create_file_def file_at_def map_add_def split: option.splits prod.splits)
qed

definition tar_gave :: "'m backup_env \<Rightarrow> string list \<Rightarrow> string option \<Rightarrow> string \<Rightarrow> bool" where
  "tar_gave be argv stdin1 content \<longleftrightarrow>
     (\<exists>t m out m'. be_tar be argv stdin1 t m = (Inr out, m') \<and> content = concat (to_chunks out))"

definition plan_argv :: "bplan option \<Rightarrow> string list \<Rightarrow> string list" where
  "plan_argv plan paths = (case plan of None \<Rightarrow> tar_argv paths | Some p \<Rightarrow> TAR_LISTED_ARGV)"

lemma stream_tar_Inr:
  assumes "stream_tar be argv fd cap stdin1 s = (Inr (w, sha, rc, err), s')" "file_at (tree s) fd []"
  shows "\<exists>content. file_at (tree s') fd content \<and> w = int (length content) \<and> sha = be_sha256 be content
     \<and> tar_gave be argv stdin1 content"
proof -
  obtain t u where t: "on_rest (be_tar be argv stdin1 (tree s)) s = (Inr t, u)"
      "stream_chunks be fd cap (to_chunks t) 0 u = (Inr w, s')" "sha = be_sha256 be (concat (to_chunks t))"
    using assms(1) by (auto simp: stream_tar_def act_bind_eq_Inr split: if_splits)
  have "file_at (tree u) fd []" using on_rest_tree [OF t(1)] assms(2) by simp
  moreover have "tar_gave be argv stdin1 (concat (to_chunks t))"
    using t(1) by (auto simp: tar_gave_def on_rest_def split: prod.splits)
  ultimately show ?thesis using stream_chunks_Inr [OF t(2)] t(3) by force
qed

lemma make_archive_Inr:
  assumes at: "at_dir p c (tree s)" and label: "list_all label_char label"
    and run: "make_archive be p label paths plan cap s = (Inr entry, s')"
  shows "\<exists>content rc err. file_at (tree s') (c @ [label @ ''.tar.gz'']) content \<and>
     tar_gave be (plan_argv plan paths) (map_option listed_names plan) content \<and>
     entry = archive_entry (path_name p) (label @ ''.tar.gz'') paths plan (int (length content)) (be_sha256 be content) rc err"
proof -
  let ?f = "p @ ''/'' @ label @ ''.tar.gz''"
  obtain fd u1 r u2 where
    u1: "create_file be ?f s = (Inr fd, u1)" and
    w: "write_archive be ?f paths plan cap fd u1 = (Inr r, u2)" and
    k: "check_archive be p (label @ ''.tar.gz'') paths plan r u2 = (Inr entry, s')"
    using run unfolding make_archive_def act_bind_eq_Inr by blast
  note f = create_file_Inr [OF at label_plain [OF label] u1]
  obtain n sha rc err where r: "r = (n, sha, rc, err)" by (cases r) auto
  obtain u3 where "stream_tar be (plan_argv plan paths) fd cap
      (map_option listed_names plan) u1 = (Inr (n, sha, rc, err), u3)" "tree u2 = tree u3"
    using closing_Inr [OF w [unfolded write_archive_def]] r
    by (auto simp: plan_argv_def act_bind_eq_Inr act_seq_eq_Inr fault_at_def dest!: on_rest_tree)
  then obtain content where "file_at (tree u2) fd content" "n = int (length content)" "sha = be_sha256 be content"
      "tar_gave be (plan_argv plan paths) (map_option listed_names plan) content"
    using stream_tar_Inr f by metis
  moreover have "tree s' = tree u2" using stays_equalD [OF check_archive_looks k] .
  moreover have "entry = archive_entry (path_name p) (label @ ''.tar.gz'') paths plan n sha rc err"
    using k r by (auto simp: check_archive_def act_bind_eq_Inr act_seq_eq_Inr split: if_splits)
  ultimately show ?thesis using f by auto
qed

section \<open>The set that was made\<close>

definition archived ::
    "'m backup_env \<Rightarrow> string \<Rightarrow> place \<Rightarrow> tree \<Rightarrow> (string \<times> bplan) list \<Rightarrow> string \<times> string list \<Rightarrow> json \<Rightarrow> bool" where
  "archived be p c t ps source entry \<longleftrightarrow>
     (\<exists>content rc err. file_at t (c @ [fst source @ ''.tar.gz'']) content \<and>
        tar_gave be (plan_argv (map_of ps (fst source)) (snd source)) (map_option listed_names (map_of ps (fst source))) content \<and>
        entry = archive_entry (path_name p) (fst source @ ''.tar.gz'') (snd source) (map_of ps (fst source))
          (int (length content)) (be_sha256 be content) rc err)"

lemma archived_adds: "adds B t t' \<Longrightarrow> archived be p c t ps source entry \<Longrightarrow> archived be p c t' ps source entry"
  using file_at_adds by (fastforce simp: archived_def)

lemma grown: "stays (grows B p c) m \<Longrightarrow> at_dir p c (tree s) \<Longrightarrow> m s = (r, s') \<Longrightarrow> adds B (tree s) (tree s')"
  unfolding stays_def grows_def by (metis snd_conv)

lemma make_archives_Inr:
  "at_dir p c (tree s) \<Longrightarrow> list_all (\<lambda>(label, paths). list_all label_char label) sources \<Longrightarrow>
     make_archives be p ps budgets sources s = (Inr entries, s') \<Longrightarrow> list_all2 (archived be p c (tree s') ps) sources entries"
proof (induction sources arbitrary: s entries)
  case (Cons source sources)
  obtain label paths where source: "source = (label, paths)" by fastforce
  obtain entry u others where
    e: "make_archive be p label paths (map_of ps label) (map_of budgets label) s = (Inr entry, u)" and
    o: "make_archives be p ps budgets sources u = (Inr others, s')" and entries: "entries = entry # others"
    using Cons.prems(3) unfolding source make_archives.simps by (auto simp: act_bind_eq_Inr)
  have label: "list_all label_char label" "list_all (\<lambda>(label, paths). list_all label_char label) sources"
    using Cons.prems(2) by (simp_all add: source)
  have at: "at_dir p c (tree u)"
    using at_dir_adds [OF grown [OF archive_grows [OF prefix_order.refl label(1)] Cons.prems(1) e] Cons.prems(1)] .
  have "adds c (tree u) (tree s')"
    using grown [OF archives_grow [OF prefix_order.refl label(2)] at o] .
  moreover have "archived be p c (tree u) ps source entry"
    using make_archive_Inr [OF Cons.prems(1) label(1) e] by (auto simp: archived_def source)
  ultimately have "archived be p c (tree s') ps source entry" by (rule archived_adds)
  then show ?case using Cons.IH [OF at label(2) o] by (simp add: entries)
qed simp

lemma write_new_text_Inr:
  assumes "at_dir p c (tree s)" "plain_name n" "write_new_text be (p @ ''/'' @ n) content s = (Inr x, s')"
  shows "file_at (tree s') (c @ [n]) content"
proof -
  obtain fd u1 where u1: "create_file be (p @ ''/'' @ n) s = (Inr fd, u1)"
      "closing be (p @ ''/'' @ n) (act_seq (write_all be fd content) (fault_at be ''fsync'' (p @ ''/'' @ n))) u1 = (Inr x, s')"
    using assms(3) unfolding write_new_text_def act_bind_eq_Inr by blast
  note f = create_file_Inr [OF assms(1,2) u1(1)]
  obtain y u2 u3 where w: "write_all be fd content u1 = (Inr y, u2)" "fault_at be ''fsync'' (p @ ''/'' @ n) u2 = (Inr x, u3)"
      "tree s' = tree u3"
    using closing_Inr [OF u1(2)] unfolding act_seq_eq_Inr by blast
  have "tree u3 = tree u2" using w(2) by (simp add: fault_at_def on_rest_tree)
  moreover have "file_at (tree u2) (c @ [n]) ([] @ content)" using write_all_Inr [OF w(1)] f by blast
  ultimately show ?thesis using w(3) by simp
qed

lemma finish_set_Inr:
  assumes "at_dir p c (tree s)" "finish_set be p manifest s = (Inr made, s')"
  shows "made = \<lparr>bs_name = path_name p, bs_path = p, bs_manifest = manifest\<rparr>"
    and "file_at (tree s') (c @ [MANIFEST_NAME]) (json_dumps indent2 manifest)"
proof -
  obtain x u where w: "write_new_text be (p @ ''/'' @ MANIFEST_NAME) (json_dumps indent2 manifest) s = (Inr x, u)"
    using assms(2) unfolding finish_set_def act_seq_eq_Inr by blast
  note f = write_new_text_Inr [OF assms(1) plain_constants(2) w]
  show "made = \<lparr>bs_name = path_name p, bs_path = p, bs_manifest = manifest\<rparr>"
    using assms(2) by (auto simp: finish_set_def act_seq_eq_Inr)
  let ?rest = "act_seq (act_catch (act_bind (verify_set be p) (\<lambda>ok. act_ret ())) (\<lambda>e.
        case e of
          BackupError msg \<Rightarrow> act_seq (write_new_text be (p @ ''/'' @ FAILED_VERIFY_NAME) FAILED_TEXT) (act_raise e)
        | _ \<Rightarrow> act_raise e))
     (act_ret \<lparr>bs_name = path_name p, bs_path = p, bs_manifest = manifest\<rparr>)"
  have "stays (grows c p c) ?rest"
    by (intro growing.intros stays_equal [OF verify_looks])
      (use new_text_grows [OF prefix_order.refl plain_constants(4)] in \<open>auto split: exn.split intro!: growing.intros\<close>)
  moreover have "at_dir p c (tree u)"
    using at_dir_adds grown [OF new_text_grows [OF prefix_order.refl plain_constants(2)] assms(1) w] assms(1) by blast
  moreover have "?rest u = (Inr made, s')" using assms(2) w by (simp add: finish_set_def)
  ultimately have "adds c (tree u) (tree s')" by (rule grown)
  then show "file_at (tree s') (c @ [MANIFEST_NAME]) (json_dumps indent2 manifest)" using f file_at_adds by blast
qed

lemma path_name_in: "plain_name e \<Longrightarrow> path_name (p @ ''/'' @ e) = e"
  by (simp add: path_name_def path_comps_join path_comps_name plain_name_def)

lemma create_Inr:
  assumes at: "at_dir (ds_path dest) c (tree s)" and bd: "ds_backup_dir dest = ds_path dest @ ''/'' @ BACKUP_DIR_NAME"
    and run: "create_backup_set be dest sources now budgets changes_only plans s = (Inr made, s')"
  shows "\<exists>e ps u entries. plain_name e \<and> label_plans be dest changes_only plans sources s = (Inr ps, u) \<and>
     made = \<lparr>bs_name = e, bs_path = ds_backup_dir dest @ ''/'' @ e, bs_manifest = set_manifest be now [] entries (depends_on e ps)\<rparr> \<and>
     at_dir (bs_path made) (c @ [BACKUP_DIR_NAME, e]) (tree s') \<and>
     file_at (tree s') (c @ [BACKUP_DIR_NAME, e, MANIFEST_NAME]) (json_dumps indent2 (bs_manifest made)) \<and>
     list_all2 (archived be (bs_path made) (c @ [BACKUP_DIR_NAME, e]) (tree s') ps) sources entries"
proof -
  obtain x ps u1 d u2 y u3 entries u4 where
    x: "check_sources (tree s) sources = Inr x" and
    l: "label_plans be dest changes_only plans sources s = (Inr ps, u1)" and
    d: "new_set_dir be (ds_backup_dir dest) now u1 = (Inr d, u2)" and
    i: "write_new_text be (d @ ''/'' @ INCOMPLETE_NAME) INCOMPLETE_TEXT u2 = (Inr y, u3)" and
    m: "make_archives be d ps budgets sources u3 = (Inr entries, u4)" and
    f: "finish_set be d (set_manifest be now [] entries (depends_on (path_name d) ps)) u4 = (Inr made, s')"
    using run unfolding create_backup_set_def act_seq_eq_Inr act_bind_eq_Inr look_def act_get_apply act_lift_apply prod.inject
    by blast
  have t1: "tree u1 = tree s" using stays_equalD [OF label_plans_look l] .
  obtain e where e: "plain_name e" "d = ds_backup_dir dest @ ''/'' @ e" "at_dir d (c @ [BACKUP_DIR_NAME, e]) (tree u2)"
    using set_dir_adds [of "ds_path dest" c u1 be now "Inr d" u2] at bd d t1 by auto
  let ?c = "c @ [BACKUP_DIR_NAME, e]"
  have at3: "at_dir d ?c (tree u3)"
    using at_dir_adds [OF grown [OF new_text_grows [OF prefix_order.refl plain_constants(3)] e(3) i] e(3)] .
  have labels: "list_all (\<lambda>(label, paths). list_all label_char label) sources" using x checked_labels by simp
  have at4: "at_dir d ?c (tree u4)"
    using at_dir_adds [OF grown [OF archives_grow [OF prefix_order.refl labels] at3 m] at3] .
  have a5: "adds ?c (tree u4) (tree s')"
    using grown [OF finish_grows [OF prefix_order.refl] at4 f] .
  have name: "path_name d = e" using path_name_in [OF e(1)] e(2) by simp
  have "list_all2 (archived be d ?c (tree s') ps) sources entries"
    by (rule list_all2_mono [OF make_archives_Inr [OF at3 labels m]]) (rule archived_adds [OF a5])
  moreover note finish_set_Inr [OF at4 f]
  moreover have "at_dir d ?c (tree s')" using at_dir_adds [OF a5 at4] .
  ultimately show ?thesis using e(1,2) l name by (intro exI [of _ e] exI [of _ ps] exI [of _ u1] exI [of _ entries]) simp
qed

section \<open>Where the data of a file is\<close>

definition stored_at :: "tree \<Rightarrow> string \<Rightarrow> json \<Rightarrow> bool" where
  "stored_at t backup_dir info \<longleftrightarrow>
     (\<exists>set1 archive. field_of (field_of info ''stored_in'') ''set'' = JStr set1 \<and>
        field_of (field_of info ''stored_in'') ''archive'' = JStr archive \<and> still_stored t backup_dir set1 archive)"

definition known_file :: "tree \<Rightarrow> string \<Rightarrow> json \<Rightarrow> bool" where
  "known_file t backup_dir info \<longleftrightarrow>
     is_obj info \<and> is_plain_file info \<and> ''stored_in'' \<in> fst ` set (obj_fields info) \<and> stored_at t backup_dir info"

lemma stored_at_adds: "adds B t t' \<Longrightarrow> stored_at t bd info \<Longrightarrow> stored_at t' bd info"
  unfolding stored_at_def still_stored_def using is_file_adds by blast

lemma field_there: "field_of v k \<noteq> JNull \<Longrightarrow> k \<in> fst ` set (obj_fields v)"
  by (force simp: field_of_def split: option.splits dest: map_of_SomeD)

lemma get_orD: "get_or v k d = Inr x \<Longrightarrow> is_obj v \<and> (x = field_of v k \<or> x = d)"
  by (cases v) (auto simp: get_or_def get_def field_of_def split: option.splits)

lemma get_or_field: "get_or v k JNull = Inr x \<Longrightarrow> x = field_of v k"
  by (cases v) (auto simp: get_or_def get_def field_of_def split: option.splits)

lemma stored_okD:
  assumes "stored_ok t bd a b = Inr True"
  shows "\<exists>x y. a = JStr x \<and> b = JStr y \<and> still_stored t bd x y"
  using assms by (cases a; cases b) (auto simp: stored_ok_def split: if_splits)

definition all_known :: "tree \<Rightarrow> string \<Rightarrow> (string \<times> json) list \<Rightarrow> bool" where
  "all_known t bd prior \<longleftrightarrow> (\<forall>(path, info) \<in> set prior. known_file t bd info)"

lemma alive_info:
  assumes "get_or i ''kind'' JNull = Inr (JStr ''file'')" "get_or i ''stored_in'' (JObj []) = Inr loc"
    and "get_or loc ''set'' JNull = Inr a" "get_or loc ''archive'' JNull = Inr b" "stored_ok t bd a b = Inr True"
  shows "known_file t bd i"
proof -
  obtain x y where xy: "a = JStr x" "b = JStr y" "still_stored t bd x y" using stored_okD assms(5) by blast
  have f: "field_of loc ''set'' = JStr x" "field_of loc ''archive'' = JStr y"
    using get_or_field assms(3,4) xy by metis+
  then have "loc \<noteq> JObj []" by (auto simp: field_of_def)
  then have loc: "loc = field_of i ''stored_in''" using get_orD [OF assms(2)] by blast
  have "loc \<noteq> JNull" using f by (auto simp: field_of_def)
  then have "''stored_in'' \<in> fst ` set (obj_fields i)" using field_there loc by metis
  moreover have "is_obj i" using get_orD assms(1) by blast
  moreover have "is_plain_file i" using get_or_field [OF assms(1)] by (simp add: is_plain_file_def)
  ultimately show ?thesis using f xy(3) loc by (auto simp: known_file_def stored_at_def)
qed

lemma alive_files_known: "alive_files t bd files = Inr alive \<Longrightarrow> all_known t bd alive"
proof (induction files arbitrary: alive)
  case (Cons f files)
  obtain p i where f: "f = (p, i)" by fastforce
  obtain kind where kind: "get_or i ''kind'' JNull = Inr kind"
    using Cons.prems by (auto simp: f split: sum.splits)
  show ?case
  proof (cases "kind = JStr ''file''")
    case False
    then show ?thesis using Cons kind by (simp add: f)
  next
    case True
    then obtain loc a b ok others where
      a: "get_or i ''stored_in'' (JObj []) = Inr loc" "get_or loc ''set'' JNull = Inr a" "get_or loc ''archive'' JNull = Inr b"
        "stored_ok t bd a b = Inr ok" and o: "alive_files t bd files = Inr others" "alive = (if ok then (p, i) # others else others)"
      using Cons.prems kind by (auto simp: f split: sum.splits prod.splits)
    show ?thesis
    proof (cases ok)
      case ok: True
      then show ?thesis using Cons.IH [OF o(1)] alive_info kind True a o(2) by (simp add: all_known_def)
    next
      case False
      then show ?thesis using Cons.IH [OF o(1)] o(2) by simp
    qed
  qed
qed (simp add: all_known_def)

lemma prior_entries_known: "prior_entries t bd label entries = Inr (Some alive) \<Longrightarrow> all_known t bd alive"
proof (induction entries)
  case (Cons entry entries)
  obtain name mode files where e: "get_or entry ''name'' JNull = Inr name" "get_or entry ''mode'' JNull = Inr mode"
      "get_or entry ''files'' (JObj []) = Inr files"
    using Cons.prems by (auto split: sum.splits)
  show ?case
  proof (cases "name = JStr (label @ ''.tar.gz'') \<and> mode = JStr ''changes-only''")
    case True
    then show ?thesis using Cons.prems e alive_files_known by (auto split: sum.splits)
  next
    case False
    then show ?thesis using Cons e by auto
  qed
qed simp

lemma prior_in_known: "prior_in t bd label sets = Inr (b, prior) \<Longrightarrow> all_known t bd prior"
proof (induction sets)
  case (Cons s sets)
  then show ?case using prior_entries_known by (auto split: sum.splits option.splits)
qed (simp add: all_known_def)

section \<open>What a plan says of a file\<close>

definition planned :: "tree \<Rightarrow> string \<Rightarrow> bplan \<Rightarrow> string \<Rightarrow> string \<Rightarrow> int \<Rightarrow> bool" where
  "planned t bd p path bytes mtime \<longleftrightarrow>
     (\<exists>info. map_of (pl_table p) path = Some info \<and> is_obj info \<and> is_plain_file info \<and>
        scalar_eq (field_of info ''size'') (JInt (int (length bytes))) \<and> scalar_eq (field_of info ''mtime_ns'') (JInt mtime) \<and>
        (if ''stored_in'' \<in> fst ` set (obj_fields info) then stored_at t bd info
         else lstrip_char (CHR ''/'') path \<in> set (pl_changed p)))"

lemma plan_entries_keep:
  "path \<notin> fst ` set es \<Longrightarrow> map_of (pl_table (plan_entries prior es p)) path = map_of (pl_table p) path"
  "set (pl_changed p) \<subseteq> set (pl_changed (plan_entries prior es p))"
proof (induction prior es p rule: plan_entries.induct)
  case (2 prior path1 n entries p)
  {
    case 1
    then show ?case using 2(1) by (auto simp: update_conv split: node.split option.split)
  next
    case 2
    then show ?case using "2.IH"(2) by (auto split: node.splits option.splits)
  }
qed simp_all

lemma plan_entries_file:
  assumes "all_known t bd prior"
  shows "distinct (map fst es) \<Longrightarrow> (path, NFile d bytes mtime blocks) \<in> set es \<Longrightarrow> planned t bd (plan_entries prior es p) path bytes mtime"
proof (induction es arbitrary: p)
  case (Cons e es)
  obtain path1 n where e: "e = (path1, n)" by fastforce
  show ?case
  proof (cases "(path, NFile d bytes mtime blocks) = e")
    case False
    then show ?thesis using Cons by (auto simp: e split: node.split)
  next
    case True
    then have n: "path1 = path" "n = NFile d bytes mtime blocks" by (auto simp: e)
    have path: "path \<notin> fst ` set es" using Cons.prems(1) by (auto simp: e n)
    show ?thesis
    proof (cases "unchanged_since prior path (int (length bytes)) mtime")
      case None
      then show ?thesis
        using plan_entries_keep(1) [OF path]
          plan_entries_keep(2) [of "p\<lparr>pl_changed := pl_changed p @ [lstrip_char (CHR ''/'') path],
             pl_changed_bytes := pl_changed_bytes p + blocks * 512,
             pl_table := AList.update path (JObj [(''kind'', JStr ''file''), (''size'', JInt (int (length bytes))),
               (''mtime_ns'', JInt mtime)]) (pl_table p)\<rparr>" prior es]
        by (auto simp: e n planned_def update_conv is_plain_file_def field_of_def scalar_eq_def)
    next
      case (Some old)
      then have old: "(path, old) \<in> set prior" "scalar_eq (field_of old ''size'') (JInt (int (length bytes)))"
          "scalar_eq (field_of old ''mtime_ns'') (JInt mtime)"
        by (auto simp: unchanged_since_def split: option.splits if_splits dest: map_of_SomeD)
      then have "known_file t bd old" using assms by (auto simp: all_known_def)
      then show ?thesis
        using Some old plan_entries_keep(1) [OF path] by (simp add: e n planned_def update_conv known_file_def)
    qed
  qed
qed simp

lemma plan_label_file:
  assumes "plan_label be dest label paths s = (Inr p, s')" "scan_tree (be_unreadable be) (tree s) paths = Inr entries"
    and "distinct (map fst entries)" "(path, NFile d bytes mtime blocks) \<in> set entries"
  shows "planned (tree s) (ds_backup_dir dest) p path bytes mtime"
proof -
  obtain base prior u where p: "p = plan_entries prior (sort_items entries) (empty_plan label base)"
      and prior: "prior_table be dest label s = (Inr (base, prior), u)"
    using assms(1,2) by (auto simp: plan_label_def look_def act_bind_eq_Inr)
  obtain sets v where v: "list_sets be dest s = (Inr sets, v)" "prior_in (tree v) (ds_backup_dir dest) label sets = Inr (base, prior)"
    using prior by (auto simp: prior_table_def look_def act_bind_eq_Inr)
  have "all_known (tree s) (ds_backup_dir dest) prior"
    using prior_in_known [OF v(2)] stays_equalD [OF sets_look v(1)] by simp
  then show ?thesis unfolding p by (rule plan_entries_file) (use assms in simp_all)
qed

section \<open>Nothing is forgotten\<close>

lemma source_plans_Inr:
  "source_plans be dest changes sources s = (Inr plans, s') \<Longrightarrow> distinct (map fst sources) \<Longrightarrow> (label, paths) \<in> set sources \<Longrightarrow>
     label \<in> set changes \<Longrightarrow> \<exists>p u u'. map_of plans label = Some p \<and> plan_label be dest label paths u = (Inr p, u') \<and> tree u = tree s"
proof (induction sources arbitrary: s plans)
  case (Cons source sources)
  obtain l ps where source: "source = (l, ps)" by fastforce
  show ?case
  proof (cases "l \<in> set changes")
    case False
    then show ?thesis using Cons by (auto simp: source)
  next
    case True
    then obtain q u others where q: "plan_label be dest l ps s = (Inr q, u)" "source_plans be dest changes sources u = (Inr others, s')"
        "plans = (l, q) # others"
      using Cons.prems(1) by (auto simp: source act_bind_eq_Inr)
    have t: "tree u = tree s" using stays_equalD [OF plan_looks q(1)] .
    show ?thesis
    proof (cases "l = label")
      case True
      then have "paths = ps" using Cons.prems(2,3) by (force simp: source)
      then show ?thesis using q True by auto
    next
      case False
      then have "(label, paths) \<in> set sources" using Cons.prems(3) by (auto simp: source)
      then show ?thesis using Cons.IH [OF q(2)] Cons.prems(2,4) q(3) False t by (auto simp: source)
    qed
  qed
qed simp

lemma label_plans_Inr:
  "label_plans be dest changes plans sources s = (Inr ps, s') \<Longrightarrow> label \<in> fst ` set sources \<Longrightarrow> label \<in> set changes \<Longrightarrow>
     map_of plans label = Some p \<Longrightarrow> map_of ps label = Some p"
proof (induction sources arbitrary: s ps)
  case (Cons source sources)
  obtain l paths where source: "source = (l, paths)" by fastforce
  show ?case
  proof (cases "l \<in> set changes")
    case False
    then show ?thesis using Cons by (auto simp: source)
  next
    case True
    then obtain q u others where q: "(case map_of plans l of Some p \<Rightarrow> act_ret p | None \<Rightarrow> plan_label be dest l paths) s = (Inr q, u)"
        "label_plans be dest changes plans sources u = (Inr others, s')" "ps = (l, q) # others"
      using Cons.prems(1) by (auto simp: source act_bind_eq_Inr)
    then show ?thesis using Cons by (cases "l = label") (auto simp: source)
  qed
qed simp

lemma list_all2_member: "list_all2 P xs ys \<Longrightarrow> x \<in> set xs \<Longrightarrow> \<exists>y \<in> set ys. P x y"
  by (induction xs ys rule: list_all2_induct) auto

text \<open>The record of a file in the manifest of a set: what it was when it was scanned, and where its data is.\<close>

definition recorded :: "json \<Rightarrow> string \<Rightarrow> string \<Rightarrow> string \<Rightarrow> int \<Rightarrow> json \<Rightarrow> bool" where
  "recorded manifest label path bytes mtime info \<longleftrightarrow>
     (\<exists>entry \<in> set (elements (field_of manifest ''archives'')). field_of entry ''name'' = JStr (label @ ''.tar.gz'') \<and>
        map_of (obj_fields (field_of entry ''files'')) path = Some info) \<and>
     scalar_eq (field_of info ''size'') (JInt (int (length bytes))) \<and> scalar_eq (field_of info ''mtime_ns'') (JInt mtime)"

text \<open>The archive of a set is what \<open>tar\<close> gave when it was asked for a list with the name.\<close>
definition asked_of_tar :: "'m backup_env \<Rightarrow> tree \<Rightarrow> string \<Rightarrow> string \<Rightarrow> bool" where
  "asked_of_tar be t archive path \<longleftrightarrow>
     (\<exists>c content p. swalk t archive = Some c \<and> file_at t c content \<and> lstrip_char (CHR ''/'') path \<in> set (pl_changed p) \<and>
        tar_gave be TAR_LISTED_ARGV (Some (listed_names p)) content)"

lemma map_of_with_place:
  "map_of (map (\<lambda>(path, info). (path, f info)) kvs) path = map_option f (map_of kvs path)"
  by (induction kvs) auto

lemma with_place_new:
  assumes "is_plain_file info" "''stored_in'' \<notin> fst ` set (obj_fields info)"
  shows "field_of (with_place set1 archive info) ''stored_in'' = JObj [(''set'', JStr set1), (''archive'', JStr archive)]"
    and "k \<noteq> ''stored_in'' \<Longrightarrow> field_of (with_place set1 archive info) k = field_of info k"
  using assms by (auto simp: with_place_def field_of_def update_conv)

lemma file_stat: "at_dir p c t \<Longrightarrow> plain_name n \<Longrightarrow> file_at t (c @ [n]) x \<Longrightarrow> swalk t (p @ ''/'' @ n) = Some (c @ [n])"
  using swalk_in [of p c t n] by (auto simp: file_at_def)


text \<open>A run that reports a set: the parts it went through, each on the tree it started from.\<close>

lemma verified_run:
  assumes "run_backup be jb s = (Inr r, s')" "br_verified r"
  shows "\<exists>dest plans v w budgets u u' made.
     at_dir (jb_destination jb) (path_comps (jb_destination jb)) (tree s) \<and> ds_path dest = jb_destination jb \<and>
     ds_backup_dir dest = jb_destination jb @ ''/'' @ BACKUP_DIR_NAME \<and>
     source_plans be dest (jb_changes_only jb) (jb_sources jb) v = (Inr plans, w) \<and> tree v = tree s \<and>
     create_backup_set be dest (jb_sources jb) (jb_now jb) budgets (jb_changes_only jb) plans u = (Inr made, u') \<and>
     tree u = tree s \<and> tree s' = tree u' \<and> br_set_path r = Some (bs_path made)"
proof -
  obtain x u0 where gate: "on_rest (be_gate be ''backup_offdrive'' [(''dry_run'', JBool (jb_dry_run jb)), (''force'', JBool (jb_force jb))]) s
      = (Inr x, u0)"
    using assms(1) unfolding run_backup_def act_seq_eq_Inr by blast
  obtain dest u1 where dest: "resolve_destination be (jb_enrolled jb) (jb_destination jb) (jb_allowed jb) (jb_boot jb) u0 = (Inr dest, u1)"
      and to: "backup_to be jb dest u1 = (Inr r, s')"
    using assms(1) gate by (auto simp: run_backup_def act_seq_eq_Inr act_bind_eq_Inr split: if_splits)
  note d = resolved [OF dest]
  have t1: "tree u1 = tree s" using d(1) on_rest_tree [OF gate] by simp
  obtain due u2 where due: "(if jb_force jb then act_ret True else is_due be dest (jb_now jb) (jb_interval jb)) u1 = (Inr due, u2)"
    using to unfolding backup_to_def act_bind_eq_Inr by blast
  have "stays (=) (if jb_force jb then act_ret True else is_due be dest (jb_now jb) (jb_interval jb))"
    by (intro looking due_looks)
  then have t2: "tree u2 = tree s" using stays_equalD due t1 by metis
  obtain plans u3 estimates u4 y u5 where
    plans: "source_plans be dest (jb_changes_only jb) (jb_sources jb) u2 = (Inr plans, u3)" and
    est: "source_estimates be plans (jb_sources jb) u3 = (Inr estimates, u4)" and
    space: "check_space be dest (sum_list (map snd estimates)) u4 = (Inr y, u5)" and
    add: "add_set be jb dest plans estimates u5 = (Inr r, s')"
    using to due assms(2) by (auto simp: backup_to_def act_bind_eq_Inr act_seq_eq_Inr result_def split: if_splits)
  have t5: "tree u5 = tree s"
    using t2 stays_equalD [OF source_plans_look plans] stays_equalD [OF estimates_look est] stays_equalD [OF space_looks space]
    by simp
  obtain made u6 z u7 where made: "create_backup_set be dest (jb_sources jb) (jb_now jb) (map (\<lambda>(label, est). (label, budget est)) estimates)
       (jb_changes_only jb) plans u5 = (Inr made, u6)"
      and rec: "(case jb_record jb of None \<Rightarrow> act_ret () | Some f \<Rightarrow> on_rest (f (concat (map snd (jb_sources jb))) (jb_now jb))) u6
        = (Inr z, s')"
      and r: "br_set_path r = Some (bs_path made)"
    using add unfolding add_set_def act_bind_eq_Inr act_seq_eq_Inr by (auto simp: result_def)
  have "tree s' = tree u6" using rec by (auto split: option.splits dest: on_rest_tree)
  then show ?thesis using d t1 t2 t5 plans made r on_rest_tree [OF gate] by metis
qed

lemma created_labels:
  "create_backup_set be dest sources now budgets changes plans s = (Inr made, s') \<Longrightarrow>
     list_all (\<lambda>(label, paths). list_all label_char label) sources"
  by (auto simp: create_backup_set_def act_bind_eq_Inr act_seq_eq_Inr look_def intro: checked_labels)

text \<open>A file that a plan knows, in the entry of its archive.\<close>

lemma planned_entry:
  assumes "planned t bd p path bytes mtime" and entry: "entry = archive_entry set1 archive paths (Some p) n sha rc err"
  shows "\<exists>info. map_of (obj_fields (field_of entry ''files'')) path = Some info \<and> field_of entry ''name'' = JStr archive \<and>
     scalar_eq (field_of info ''size'') (JInt (int (length bytes))) \<and> scalar_eq (field_of info ''mtime_ns'') (JInt mtime) \<and>
     (stored_at t bd info \<or> lstrip_char (CHR ''/'') path \<in> set (pl_changed p) \<and>
        field_of info ''stored_in'' = JObj [(''set'', JStr set1), (''archive'', JStr archive)])"
proof -
  obtain info where i: "map_of (pl_table p) path = Some info" "is_obj info" "is_plain_file info"
      "scalar_eq (field_of info ''size'') (JInt (int (length bytes)))" "scalar_eq (field_of info ''mtime_ns'') (JInt mtime)"
      "if ''stored_in'' \<in> fst ` set (obj_fields info) then stored_at t bd info
         else lstrip_char (CHR ''/'') path \<in> set (pl_changed p)"
    using assms(1) unfolding planned_def by blast
  have files: "obj_fields (field_of entry ''files'') = map (\<lambda>(path, info). (path, with_place set1 archive info)) (pl_table p)"
    by (simp add: entry archive_entry_def plan_fields_def field_of_def)
  have name: "field_of entry ''name'' = JStr archive" by (simp add: entry archive_entry_def field_of_def)
  have m: "map_of (obj_fields (field_of entry ''files'')) path = Some (with_place set1 archive info)"
    by (simp add: files map_of_with_place i)
  show ?thesis
  proof (cases "''stored_in'' \<in> fst ` set (obj_fields info)")
    case True
    then have "with_place set1 archive info = info" by (simp add: with_place_def)
    then show ?thesis using m name i True by auto
  next
    case False
    note w = with_place_new(1) [OF i(3) False, of set1 archive] with_place_new(2) [OF i(3) False, of _ set1 archive]
    then show ?thesis using m name i False by (intro exI [of _ "with_place set1 archive info"]) simp
  qed
qed



section \<open>A run\<close>

text \<open>A drive at \<open>/b\<close>, a folder \<open>/s\<close> with one file, and commands that answer as they do on such a machine.\<close>

definition usb_tree :: tree where
  "usb_tree = [([], NDir 1), ([''b''], NDir 2), ([''s''], NDir 3), ([''s'', ''f''], NFile 3 ''data'' 7 8)]"

definition usb_run :: "string list \<Rightarrow> proc" where
  "usb_run argv = \<lparr>returncode = 0, stdout =
     (case argv of
        p # _ \<Rightarrow> if p = ''findmnt'' then ''TARGET=/b SOURCE=/dev/sdb1 FSTYPE=ext4 OPTIONS=rw'' else
          if p = ''lsblk'' then ''sdb disk'' else ''ID_SERIAL_SHORT=X'' | [] \<Rightarrow> []), stderr = []\<rparr>"

definition usb_env :: "unit backup_env" where
  "usb_env = \<lparr>ou_fault = \<lambda>what p. act_ret (), ou_takes = act_ret 100000, ou_reads = \<lambda>p b. act_ret b, ou_times = \<lambda>m. (1, 8),
     be_run = \<lambda>argv n t. act_ret (usb_run argv), be_tar = \<lambda>argv names t. act_ret \<lparr>to_chunks = [''z''], to_exit = 0, to_stderr = []\<rparr>,
     be_tar_error = \<lambda>b. None, be_members = \<lambda>b. Inr [], be_extract = \<lambda>b names out. act_ret None,
     be_statvfs = \<lambda>p. act_ret (100000, 200000), be_sha256 = \<lambda>b. b, be_host = ''h'', be_unreadable = \<lambda>p. False,
     be_gate = \<lambda>a p. act_ret ()\<rparr>"

definition usb_job :: "unit job" where
  "usb_job = \<lparr>jb_destination = ''/b'', jb_sources = [(''c'', [''/s''])], jb_now = 0, jb_allowed = [], jb_enrolled = [],
     jb_boot = None, jb_interval = 1, jb_record = None, jb_force = True, jb_dry_run = False, jb_changes_only = [''c'']\<rparr>"

definition usb_site :: "unit site" where "usb_site = \<lparr>tree = usb_tree, beyond = ()\<rparr>"


lemma usb_parts [simp]:
  "ou_fault usb_env what p = act_ret ()" "ou_takes usb_env = act_ret 100000" "ou_reads usb_env p x = act_ret x"
  "ou_times usb_env m = (1, 8)" "be_run usb_env argv n t = act_ret (usb_run argv)"
  "be_tar usb_env argv names t = act_ret \<lparr>to_chunks = [''z''], to_exit = 0, to_stderr = []\<rparr>"
  "be_tar_error usb_env y = None" "be_statvfs usb_env p = act_ret (100000, 200000)" "be_sha256 usb_env y = y"
  "be_host usb_env = ''h''" "be_unreadable usb_env = (\<lambda>p. False)" "be_gate usb_env a q = act_ret ()"
  by (simp_all add: usb_env_def)

lemma on_rest_ret [simp]: "on_rest (act_ret x) s = (Inr x, s)"
  by (simp add: on_rest_def)

definition usb_dest :: destination where
  "usb_dest = \<lparr>ds_path = ''/b'', ds_backup_dir = ''/b/baseline-backups'', ds_source = ''/dev/sdb1'', ds_fstype = ''ext4'', ds_serial = ''X'',
     ds_disks = [''sdb'']\<rparr>"

lemma usb_comps: "path_comps ''/b'' = [''b'']" "path_comps ''/s'' = [''s'']"
  by (simp_all add: path_comps_def split_on_def)


lemma usb_paths: "strip ''/b'' = ''/b''" "isabs ''/b''" "normpath ''/b'' = ''/b''" "realpath usb_tree ''/b'' = ''/b''"
  "is_dir usb_tree ''/b''" "\<not> is_link usb_tree ''/b''"
  by code_simp+

lemma usb_check: "check_destination_path ''/b'' usb_site = (Inr (), usb_site)"
  by (simp add: check_destination_path_def look_def usb_site_def usb_paths)

lemma usb_mount: "parse_pairs ''TARGET=/b SOURCE=/dev/sdb1 FSTYPE=ext4 OPTIONS=rw'' =
   Inr [(''TARGET'', ''/b''), (''SOURCE'', ''/dev/sdb1''), (''FSTYPE'', ''ext4''), (''OPTIONS'', ''rw'')]"
  by (simp add: parse_pairs_def shlex_split_def word_so_far_def shlex_put_def split_pair_def)

lemma usb_lines: "strip ''TARGET=/b SOURCE=/dev/sdb1 FSTYPE=ext4 OPTIONS=rw'' = ''TARGET=/b SOURCE=/dev/sdb1 FSTYPE=ext4 OPTIONS=rw''"
  "splitlines ''TARGET=/b SOURCE=/dev/sdb1 FSTYPE=ext4 OPTIONS=rw'' = [''TARGET=/b SOURCE=/dev/sdb1 FSTYPE=ext4 OPTIONS=rw'']"
  "splitlines ''sdb disk'' = [''sdb disk'']" "split_ws ''sdb disk'' = [''sdb'', ''disk'']" "serial_in ''ID_SERIAL_SHORT=X'' = ''X''"
  by code_simp+

lemma usb_mounted: "check_mount ''/b'' [(''TARGET'', ''/b''), (''SOURCE'', ''/dev/sdb1''), (''FSTYPE'', ''ext4''), (''OPTIONS'', ''rw'')]
    = Inr (''/dev/sdb1'', ''ext4'')"
  by code_simp

lemma usb_resolve: "resolve_destination usb_env [] ''/b'' [] None usb_site = (Inr usb_dest, usb_site)"
  by (simp add: resolve_destination_def usb_check run_tool_def usb_run_def usb_lines usb_mount usb_mounted disks_of_def identified_def
     usb_dest_def BACKUP_DIR_NAME_def)


definition usb_plan :: bplan where
  "usb_plan = \<lparr>pl_label = ''c'', pl_base_set = None, pl_structural = [''s''], pl_changed = [''s/f''],
     pl_table = [(''/s'', JObj [(''kind'', JStr ''dir'')]),
       (''/s/f'', JObj [(''kind'', JStr ''file''), (''size'', JInt 4), (''mtime_ns'', JInt 7)])],
     pl_unchanged = 0, pl_changed_bytes = 4096\<rparr>"

lemma usb_scan: "scan_tree (\<lambda>p. False) usb_tree [''/s''] = Inr [(''/s'', NDir 3), (''/s/f'', NFile 3 ''data'' 7 8)]"
  by code_simp

lemma usb_planned: "plan_entries [] (sort_items [(''/s'', NDir 3), (''/s/f'', NFile 3 ''data'' 7 8)]) (empty_plan ''c'' None) = usb_plan"
  by code_simp

lemma usb_no_sets: "\<not> is_dir usb_tree ''/b/baseline-backups''"
  by code_simp

lemma usb_plan_label: "plan_label usb_env usb_dest ''c'' [''/s''] usb_site = (Inr usb_plan, usb_site)"
  by (simp add: plan_label_def prior_table_def list_sets_def look_def usb_site_def usb_scan usb_dest_def usb_no_sets usb_planned
    del: scan_tree.simps plan_entries.simps)

definition usb_set :: string where "usb_set = ''/b/baseline-backups/baseline-19700101T000000Z''"
abbreviation usb_place :: place where "usb_place \<equiv> [''b'', ''baseline-backups'', ''baseline-19700101T000000Z'']"

definition usb_dirs :: tree where
  "usb_dirs = usb_tree @ [([''b'', ''baseline-backups''], NDir 2), (usb_place, NDir 2)]"

lemma usb_walks: "lwalk usb_tree ''/b/baseline-backups'' = Some [''b'', ''baseline-backups'']"
  "lwalk (usb_tree @ [([''b'', ''baseline-backups''], NDir 2)]) usb_set = Some usb_place"
  "set_stamp 0 = ''19700101T000000Z''"
  by code_simp+

lemma usb_new_set: "new_set_dir usb_env ''/b/baseline-backups'' 0 usb_site = (Inr usb_set, \<lparr>tree = usb_dirs, beyond = ()\<rparr>)"
proof -
  have "make_dir usb_env ''/b/baseline-backups'' usb_site
      = (Inr True, \<lparr>tree = usb_tree @ [([''b'', ''baseline-backups''], NDir 2)], beyond = ()\<rparr>)"
    by (simp add: make_dir_def usb_site_def usb_walks) (simp add: usb_tree_def)
  moreover have "make_dir usb_env usb_set \<lparr>tree = usb_tree @ [([''b'', ''baseline-backups''], NDir 2)], beyond = ()\<rparr>
      = (Inr True, \<lparr>tree = usb_dirs, beyond = ()\<rparr>)"
    by (simp add: make_dir_def usb_walks) (simp add: usb_tree_def usb_dirs_def)
  ultimately show ?thesis by (simp add: new_set_dir_def look_def usb_walks upt_rec usb_set_def)
qed

lemma usb_write_all:
  "c \<notin> fst ` set t \<Longrightarrow> write_all usb_env c data \<lparr>tree = t @ [(c, NFile d x 1 8)], beyond = ()\<rparr>
     = (Inr (), \<lparr>tree = t @ [(c, NFile d (x @ data) 1 8)], beyond = ()\<rparr>)"
proof (induction "length data" arbitrary: data x rule: less_induct)
  case less
  have upd: "AList.update c n (t @ [(c, m)]) = t @ [(c, n)]" for n m
    using less.prems by (induction t) auto
  have m: "map_of t c = None" using less.prems by (simp add: map_of_eq_None_iff)
  show ?case
  proof (cases "data = []")
    case False
    define k where "k = max 1 (min 100000 (length data))"
    have k: "1 \<le> k" by (simp add: k_def)
    have "write_some usb_env c data \<lparr>tree = t @ [(c, NFile d x 1 8)], beyond = ()\<rparr>
        = (Inr k, \<lparr>tree = t @ [(c, NFile d (x @ take k data) 1 8)], beyond = ()\<rparr>)"
      by (simp add: write_some_def k_def upd m map_add_def)
    then show ?thesis
      using less.hyps [of "drop k data" "x @ take k data"] k False less.prems by (simp add: write_all.simps max_def)
  qed (simp add: write_all.simps)
qed

lemma usb_create:
  assumes "at_dir p c t" "plain_name n" "map_of t (c @ [n]) = None" "map_of t c = Some (NDir 2)"
  shows "create_file usb_env (p @ ''/'' @ n) \<lparr>tree = t, beyond = ()\<rparr>
     = (Inr (c @ [n]), \<lparr>tree = t @ [(c @ [n], NFile 2 [] 1 8)], beyond = ()\<rparr>)"
  using assms(3,4) lwalk_in [OF assms(1,2)] by (simp add: create_file_def act_seq_def act_bind_def)

lemma usb_new_text:
  assumes "at_dir p c t" "plain_name n" "map_of t (c @ [n]) = None" "map_of t c = Some (NDir 2)"
  shows "write_new_text usb_env (p @ ''/'' @ n) content \<lparr>tree = t, beyond = ()\<rparr>
     = (Inr (), \<lparr>tree = t @ [(c @ [n], NFile 2 content 1 8)], beyond = ()\<rparr>)"
proof -
  have "c @ [n] \<notin> fst ` set t" using assms(3) by (simp add: map_of_eq_None_iff)
  then show ?thesis
    using usb_create [OF assms]
    by (simp add: write_new_text_def closing_def fault_at_def act_catch_def act_bind_def act_seq_def usb_write_all)
qed


lemma usb_at: "at_dir usb_set usb_place (usb_dirs @ fs)"
proof (rule at_dir_adds [OF adds_append])
  show "at_dir usb_set usb_place usb_dirs" by code_simp
qed

definition usb_files :: "string \<Rightarrow> tree" where
  "usb_files manifest = [(usb_place @ [INCOMPLETE_NAME], NFile 2 INCOMPLETE_TEXT 1 8), (usb_place @ [''c.tar.gz''], NFile 2 ''z'' 1 8),
     (usb_place @ [MANIFEST_NAME], NFile 2 manifest 1 8)]"

lemma usb_dirs_map: "map_of (usb_dirs @ fs) (usb_place @ [n]) = map_of fs (usb_place @ [n])"
   "map_of (usb_dirs @ fs) usb_place = Some (NDir 2)"
  by (simp_all add: usb_dirs_def usb_tree_def map_add_def split: option.split)

lemma usb_stat: "plain_name n \<Longrightarrow> map_of fs (usb_place @ [n]) = Some (NFile d x mtime blocks) \<Longrightarrow>
    stat (usb_dirs @ fs) (usb_set @ ''/'' @ n) = Some (NFile d x mtime blocks)"
  using swalk_in [OF usb_at, of n fs "NFile d x mtime blocks"] usb_dirs_map(1) [of fs n] by (simp add: stat_def)


definition usb_entry :: json where
  "usb_entry = archive_entry ''baseline-19700101T000000Z'' ''c.tar.gz'' [''/s''] (Some usb_plan) 1 ''z'' 0 []"

definition usb_manifest :: json where "usb_manifest = set_manifest usb_env 0 [] [usb_entry] []"

lemma usb_names: "plain_name ''c.tar.gz''" "INCOMPLETE_NAME \<noteq> ''c.tar.gz''" "MANIFEST_NAME \<noteq> ''c.tar.gz''" "INCOMPLETE_NAME \<noteq> MANIFEST_NAME"
  "FAILED_VERIFY_NAME \<notin> {INCOMPLETE_NAME, MANIFEST_NAME, ''c.tar.gz''}" "INCOMPLETE_NAME \<noteq> []"
  by code_simp+

lemma usb_texts: "last_chars 300 (strip []) = []" "\<not> contains ''/'' ''c.tar.gz''" "ends_with ''c.tar.gz'' ''.tar.gz''"
  by code_simp+

lemma usb_path_name: "path_name usb_set = ''baseline-19700101T000000Z''" "path_join usb_set MANIFEST_NAME = usb_set @ ''/'' @ MANIFEST_NAME"
   "path_join usb_set ''c.tar.gz'' = usb_set @ ''/'' @ ''c.tar.gz''" "path_join usb_set FAILED_VERIFY_NAME = usb_set @ ''/'' @ FAILED_VERIFY_NAME"
  by code_simp+

lemma usb_archived:
  assumes "1 \<le> limit"
  shows "make_archive usb_env usb_set ''c'' [''/s''] (Some usb_plan) (Some limit) \<lparr>tree = usb_dirs @ take 1 (usb_files m), beyond = ()\<rparr>
    = (Inr usb_entry, \<lparr>tree = usb_dirs @ take 2 (usb_files m), beyond = ()\<rparr>)"
proof -
  let ?t = "usb_dirs @ take 1 (usb_files m)" and ?p = "usb_set @ ''/'' @ ''c.tar.gz''" and ?c = "usb_place @ [''c.tar.gz'']"
  have new: "map_of ?t ?c = None" "map_of ?t usb_place = Some (NDir 2)"
    using usb_names by (simp_all only: usb_dirs_map) (simp add: usb_files_def)
  have "create_file usb_env ?p \<lparr>tree = ?t, beyond = ()\<rparr> = (Inr ?c, \<lparr>tree = ?t @ [(?c, NFile 2 [] 1 8)], beyond = ()\<rparr>)"
    by (rule usb_create [OF usb_at usb_names(1) new])
  moreover have "write_all usb_env ?c ''z'' \<lparr>tree = ?t @ [(?c, NFile 2 [] 1 8)], beyond = ()\<rparr>
      = (Inr (), \<lparr>tree = usb_dirs @ take 2 (usb_files m), beyond = ()\<rparr>)"
    using usb_write_all [OF new(1) [unfolded map_of_eq_None_iff], of "''z''" 2 "[]"] by (simp add: usb_files_def)
  moreover have "read_bytes usb_env ?p \<lparr>tree = usb_dirs @ take 2 (usb_files m), beyond = ()\<rparr>
      = (Inr ''z'', \<lparr>tree = usb_dirs @ take 2 (usb_files m), beyond = ()\<rparr>)"
    using usb_stat [OF usb_names(1), of "take 2 (usb_files m)"] usb_names by (simp add: read_bytes_def usb_files_def)
  ultimately show ?thesis
    using assms usb_path_name(1)
    by (simp add: make_archive_def write_archive_def closing_def fault_at_def stream_tar_def check_archive_def sha256_file_def
       check_readable_def act_catch_def act_bind_def act_seq_def usb_entry_def usb_texts)
qed


lemma usb_manifest_parse: "json_parse (json_dumps indent2 usb_manifest) = Inr usb_manifest"
proof -
  have "json_ok usb_manifest"
    by (simp add: usb_manifest_def set_manifest_def usb_entry_def archive_entry_def plan_fields_def usb_plan_def with_place_def
      is_plain_file_def field_of_def)
  then show ?thesis by (simp add: json_parse_def loads_dumps_indent2)
qed

lemma usb_verified:
  fixes s :: "unit site"
  defines "s \<equiv> \<lparr>tree = usb_dirs @ usb_files (json_dumps indent2 usb_manifest), beyond = ()\<rparr>"
  shows "verify_set usb_env usb_set s = (Inr True, s)"
proof -
  let ?fs = "usb_files (json_dumps indent2 usb_manifest)"
  have "map_of (usb_dirs @ ?fs) (usb_place @ [FAILED_VERIFY_NAME]) = None"
    using usb_names by (simp only: usb_dirs_map) (simp add: usb_files_def)
  then have f: "stat (tree s) (path_join usb_set FAILED_VERIFY_NAME) = None"
    using swalk_none [OF usb_at plain_constants(4)] unfolding usb_path_name s_def by (simp only: stat_def option.case site.simps)
  have m: "stat (tree s) (path_join usb_set MANIFEST_NAME) = Some (NFile 2 (json_dumps indent2 usb_manifest) 1 8)"
    using usb_stat [OF plain_constants(2), of ?fs] usb_names unfolding usb_path_name s_def
    by (simp add: usb_files_def)
  have a: "stat (tree s) (path_join usb_set ''c.tar.gz'') = Some (NFile 2 ''z'' 1 8)"
    using usb_stat [OF usb_names(1), of ?fs] usb_names unfolding usb_path_name s_def
    by (simp add: usb_files_def)
  have man: "read_manifest usb_env usb_set s = (Inr usb_manifest, s)"
    by (simp add: read_manifest_def look_def is_file_def m read_bytes_def usb_manifest_parse)
      (simp add: usb_manifest_def set_manifest_def get_or_def get_def)
  let ?a = "path_join usb_set ''c.tar.gz''"
  have read: "read_bytes usb_env ?a s = (Inr ''z'', s)" by (simp add: read_bytes_def a)
  have ok: "check_readable usb_env ?a s = (Inr (), s)" "sha256_file usb_env ?a s = (Inr ''z'', s)" "file_size (tree s) ?a = 1"
    "is_file (tree s) ?a"
    by (simp_all add: check_readable_def act_catch_def read sha256_file_def file_size_def a is_file_def)
  have fields: "get_or usb_entry ''name'' (JStr []) = Inr (JStr ''c.tar.gz'')" "get_or usb_entry ''bytes'' JNull = Inr (JInt 1)"
    "get_or usb_entry ''sha256'' JNull = Inr (JStr ''z'')"
    by (simp_all add: usb_entry_def archive_entry_def get_or_def get_def)
  have archives: "get_or usb_manifest ''archives'' JNull = Inr (JList [usb_entry])"
    by (simp add: usb_manifest_def set_manifest_def get_or_def get_def)
  have "verify_archives usb_env usb_set [usb_entry] s = (Inr (), s)"
    by (simp add: field_or_def fields py_in_def look_def ok scalar_eq_def usb_texts act_bind_def act_seq_def del: contains.simps)
  then show ?thesis
    by (simp add: verify_set_def look_def there_def f man field_or_def archives del: verify_archives.simps)
qed


lemma usb_created:
  "create_backup_set usb_env usb_dest [(''c'', [''/s''])] 0 [(''c'', budget 20480)] [''c''] [(''c'', usb_plan)] usb_site
     = (Inr \<lparr>bs_name = ''baseline-19700101T000000Z'', bs_path = usb_set, bs_manifest = usb_manifest\<rparr>,
        \<lparr>tree = usb_dirs @ usb_files (json_dumps indent2 usb_manifest), beyond = ()\<rparr>)"
proof -
  let ?m = "json_dumps indent2 usb_manifest"
  have sources: "check_sources usb_tree [(''c'', [''/s''])] = Inr ()" by code_simp
  have inc: "write_new_text usb_env (usb_set @ ''/'' @ INCOMPLETE_NAME) INCOMPLETE_TEXT \<lparr>tree = usb_dirs, beyond = ()\<rparr>
      = (Inr (), \<lparr>tree = usb_dirs @ take 1 (usb_files ?m), beyond = ()\<rparr>)"
    using usb_new_text [OF usb_at [of "[]"] plain_constants(3)] usb_dirs_map [of "[]"] by (simp add: usb_files_def)
  have new: "map_of (usb_dirs @ take 2 (usb_files ?m)) (usb_place @ [MANIFEST_NAME]) = None"
      "map_of (usb_dirs @ take 2 (usb_files ?m)) usb_place = Some (NDir 2)"
    using usb_names by (simp_all only: usb_dirs_map) (simp add: usb_files_def)
  have man: "write_new_text usb_env (usb_set @ ''/'' @ MANIFEST_NAME) ?m \<lparr>tree = usb_dirs @ take 2 (usb_files ?m), beyond = ()\<rparr>
      = (Inr (), \<lparr>tree = usb_dirs @ usb_files ?m, beyond = ()\<rparr>)"
    using usb_new_text [OF usb_at plain_constants(2) new] by (simp add: usb_files_def)
  have deps: "depends_on ''baseline-19700101T000000Z'' [(''c'', usb_plan)] = []" by code_simp
  have budget: "1 \<le> budget 20480" by (simp add: budget_def)
  have finish: "finish_set usb_env usb_set usb_manifest \<lparr>tree = usb_dirs @ take 2 (usb_files ?m), beyond = ()\<rparr>
     = (Inr \<lparr>bs_name = ''baseline-19700101T000000Z'', bs_path = usb_set, bs_manifest = usb_manifest\<rparr>,
        \<lparr>tree = usb_dirs @ usb_files ?m, beyond = ()\<rparr>)"
    using man usb_verified by (simp add: finish_set_def usb_path_name act_catch_def)
  have plans: "label_plans usb_env usb_dest [''c''] [(''c'', usb_plan)] [(''c'', [''/s''])] usb_site = (Inr [(''c'', usb_plan)], usb_site)"
    by simp
  have archives: "make_archives usb_env usb_set [(''c'', usb_plan)] [(''c'', budget 20480)] [(''c'', [''/s''])]
      \<lparr>tree = usb_dirs @ take 1 (usb_files ?m), beyond = ()\<rparr> = (Inr [usb_entry], \<lparr>tree = usb_dirs @ take 2 (usb_files ?m), beyond = ()\<rparr>)"
    using usb_archived [OF budget, of ?m] by simp
  have sources': "look (\<lambda>t. check_sources t [(''c'', [''/s''])]) usb_site = (Inr (Inr ()), usb_site)"
    using sources by (simp add: look_def usb_site_def del: check_sources.simps)
  have dir: "new_set_dir usb_env (ds_backup_dir usb_dest) 0 usb_site = (Inr usb_set, \<lparr>tree = usb_dirs, beyond = ()\<rparr>)"
    using usb_new_set by (simp add: usb_dest_def)
  show ?thesis
    using sources' plans dir inc archives finish
    by (simp add: create_backup_set_def usb_path_name deps usb_manifest_def [symmetric]
       del: label_plans.simps make_archives.simps check_sources.simps)
qed

lemma usb_backup:
  "run_backup usb_env usb_job usb_site
     = (Inr (result (Some usb_set) True False 1 ''backup set baseline-19700101T000000Z written and verified''),
        \<lparr>tree = usb_dirs @ usb_files (json_dumps indent2 usb_manifest), beyond = ()\<rparr>)"
proof -
  have plans: "source_plans usb_env usb_dest [''c''] [(''c'', [''/s''])] usb_site = (Inr [(''c'', usb_plan)], usb_site)"
    by (simp add: usb_plan_label)
  have est: "source_estimates usb_env [(''c'', usb_plan)] [(''c'', [''/s''])] usb_site = (Inr [(''c'', 20480)], usb_site)"
    by (simp add: usb_plan_def STRUCTURE_ESTIMATE_def)
  have space: "check_space usb_env usb_dest 20480 usb_site = (Inr (), usb_site)"
    by (simp add: check_space_def)
  have written: "written_bytes \<lparr>bs_name = ''baseline-19700101T000000Z'', bs_path = usb_set, bs_manifest = usb_manifest\<rparr> = 1"
    by (simp add: written_bytes_def usb_manifest_def set_manifest_def field_of_def usb_entry_def archive_entry_def)
  have to: "backup_to usb_env usb_job usb_dest usb_site
     = (Inr (result (Some usb_set) True False 1 ''backup set baseline-19700101T000000Z written and verified''),
        \<lparr>tree = usb_dirs @ usb_files (json_dumps indent2 usb_manifest), beyond = ()\<rparr>)"
    using plans est space usb_created written
    by (simp add: backup_to_def usb_job_def add_set_def del: source_plans.simps source_estimates.simps)
  then show ?thesis
    using usb_resolve by (simp add: run_backup_def usb_job_def)
qed


end
