(* ===== verification/DriveDesk.thy ===== *)
theory DriveDesk
  imports DriveLayout PersistMounts BackupRestore Hitl WebGate SettingsStore PyShlex
begin

text \<open>
  What the drive actions of \<open>drive_admin.py\<close> work on. A \<open>desk\<close> is the machine together with the state of the modules
  the actions call: the registry with the settings, the confirmation stores, the sessions and audit log of the web
  gate. The parts keep their own models; \<open>on_devices\<close>, \<open>on_commands\<close> and \<open>on_part\<close> run an action of a part on the desk
  and note its calls in one trace. The registry that \<open>drive_guard.py\<close> reaches through the record \<open>devices\<close> is here the
  modelled registry of the desk.

  Then the two runners that become root for a single command, \<open>SudoRunner\<close> and \<open>PkexecRunner\<close>, over
  \<open>subprocess.run\<close> as a parameter, and \<open>drive_enrollment.py\<close>.
\<close>

section \<open>The desk\<close>

record 'm desk =
  desk_machine :: 'm
  desk_settings :: settings
  desk_stores :: "nat \<Rightarrow> store"
  desk_web :: web

text \<open>
  \<open>Dev\<close>: a call of the device modules; \<open>Sys\<close>: of the runner; \<open>Enrolled\<close>: a serial is written to the registry;
  \<open>SelfInstall\<close>: the self installer is started on a device.
\<close>

datatype desk_call =
    Dev dcall
  | Sys call
  | Enrolled string
  | SelfInstall string

type_synonym ('m, 'a) desk_act = "(('m desk, desk_call) host, 'a) act"

definition on_devices :: "('m desk, 'a) dact \<Rightarrow> ('m, 'a) desk_act" where
  "on_devices a = (\<lambda>h. case a \<lparr>machine = machine h, calls = []\<rparr> of
     (r, g) \<Rightarrow> (r, \<lparr>machine = machine g, calls = calls h @ map Dev (calls g)\<rparr>))"

definition on_commands :: "(('m, call) host, 'a) act \<Rightarrow> ('m, 'a) desk_act" where
  "on_commands a = (\<lambda>h. case a \<lparr>machine = desk_machine (machine h), calls = []\<rparr> of
     (r, g) \<Rightarrow> (r, \<lparr>machine = (machine h)\<lparr>desk_machine := machine g\<rparr>, calls = calls h @ map Sys (calls g)\<rparr>))"

definition on_part :: "('m desk \<Rightarrow> 's) \<Rightarrow> ('s \<Rightarrow> 'm desk \<Rightarrow> 'm desk) \<Rightarrow> ('s, 'a) act \<Rightarrow> ('m, 'a) desk_act" where
  "on_part part put a = (\<lambda>h. case a (part (machine h)) of (r, s) \<Rightarrow> (r, h\<lparr>machine := put s (machine h)\<rparr>))"

definition on_settings :: "(settings, 'a) act \<Rightarrow> ('m, 'a) desk_act" where
  "on_settings = on_part desk_settings (\<lambda>s d. d\<lparr>desk_settings := s\<rparr>)"

definition on_stores :: "(nat \<Rightarrow> store, 'a) act \<Rightarrow> ('m, 'a) desk_act" where
  "on_stores = on_part desk_stores (\<lambda>s d. d\<lparr>desk_stores := s\<rparr>)"

definition on_web :: "(web, 'a) act \<Rightarrow> ('m, 'a) desk_act" where
  "on_web = on_part desk_web (\<lambda>s d. d\<lparr>desk_web := s\<rparr>)"

text \<open>What an action of a part is on the desk: its own result, its own new state, and nothing else changed or called.\<close>

locale desk_part =
  fixes part :: "'m desk \<Rightarrow> 's" and put :: "'s \<Rightarrow> 'm desk \<Rightarrow> 'm desk"
  assumes part_put: "part (put s d) = s"
    and machine_put: "desk_machine (put s d) = desk_machine d"
begin

lemma result_on_part: "fst (on_part part put a h) = fst (a (part (machine h)))"
  by (simp add: on_part_def case_prod_unfold)

lemma state_on_part: "part (machine (snd (on_part part put a h))) = snd (a (part (machine h)))"
  by (simp add: on_part_def case_prod_unfold part_put)

lemma rest_on_part:
  "desk_machine (machine (snd (on_part part put a h))) = desk_machine (machine h)"
  "calls (snd (on_part part put a h)) = calls h"
  by (simp_all add: on_part_def case_prod_unfold machine_put)

end

interpretation settings_part: desk_part desk_settings "\<lambda>s d. d\<lparr>desk_settings := s\<rparr>"
  by unfold_locales simp_all

interpretation stores_part: desk_part desk_stores "\<lambda>s d. d\<lparr>desk_stores := s\<rparr>"
  by unfold_locales simp_all

interpretation web_part: desk_part desk_web "\<lambda>s d. d\<lparr>desk_web := s\<rparr>"
  by unfold_locales simp_all

section \<open>Running one command as root\<close>

text \<open>\<open>subprocess.run(argv, input=\<dots>, capture_output=True, timeout=\<dots>)\<close>, its output decoded.\<close>

type_synonym 'm executor = "string list \<Rightarrow> string \<Rightarrow> int \<Rightarrow> 'm \<Rightarrow> (exn + proc) \<times> 'm"

definition sudo_argv :: "string list \<Rightarrow> string list" where
  "sudo_argv argv = [''sudo'', ''-S'', ''-k'', ''-p'', ''''] @ argv"

definition verify_sudo_password :: "'m executor \<Rightarrow> string \<Rightarrow> 'm \<Rightarrow> (exn + bool) \<times> 'm" where
  "verify_sudo_password exec password m =
     (case exec (sudo_argv [''true'']) (password @ [CHR 0x0A]) 10 m of
        (Inl e, m') \<Rightarrow> (Inl e, m')
      | (Inr p, m') \<Rightarrow> (Inr (returncode p = 0), m'))"

text \<open>A runner built from a way to run one command with some input: only what the actions write goes through it.\<close>

type_synonym 'm elevated = "string list \<Rightarrow> string \<Rightarrow> int \<Rightarrow> 'm \<Rightarrow> (exn + proc) \<times> 'm"

definition quietly :: "('m \<Rightarrow> (exn + proc) \<times> 'm) \<Rightarrow> 'm \<Rightarrow> (exn + unit) \<times> 'm" where
  "quietly f m = (case f m of (Inl e, m') \<Rightarrow> (Inl e, m') | (Inr p, m') \<Rightarrow> (Inr (), m'))"

definition elevated_write :: "'m elevated \<Rightarrow> int \<Rightarrow> string \<Rightarrow> string \<Rightarrow> string \<Rightarrow> 'm \<Rightarrow> (exn + unit) \<times> 'm" where
  "elevated_write call t ending path content m =
     (case quietly (call [''tee'', path @ ending] content t) m of
        (Inl e, m') \<Rightarrow> (Inl e, m')
      | (Inr u, m') \<Rightarrow> quietly (call [''mv'', path @ ending, path] [] t) m')"

definition elevated_os :: "'m elevated \<Rightarrow> int \<Rightarrow> string \<Rightarrow> 'm os \<Rightarrow> 'm os" where
  "elevated_os call t ending plain = plain\<lparr>
     os_run := (\<lambda>argv timeout. call argv [] timeout),
     os_makedirs := (\<lambda>path. quietly (call [''mkdir'', ''-p'', path] [] t)),
     os_append_text := (\<lambda>path content. quietly (call [''tee'', ''-a'', path] content t)),
     os_write_text_atomic := elevated_write call t ending,
     os_remove := (\<lambda>path. quietly (call [''rm'', ''-rf'', path] [] t))\<rparr>"

definition elevated_devices :: "'m elevated \<Rightarrow> int \<Rightarrow> 'm devices \<Rightarrow> 'm devices" where
  "elevated_devices call t plain = plain\<lparr>
     dv_run := (\<lambda>argv m. case call argv [] t m of (Inl e, m') \<Rightarrow> (Inl e, m') | (Inr p, m') \<Rightarrow> (Inr (stdout p), m'))\<rparr>"

definition sudo_call :: "'m executor \<Rightarrow> string \<Rightarrow> 'm elevated" where
  "sudo_call exec password argv extra t = exec (sudo_argv argv) (password @ [CHR 0x0A] @ extra) t"

definition sudo_runner :: "'m executor \<Rightarrow> string \<Rightarrow> 'm os \<Rightarrow> 'm os" where
  "sudo_runner exec password plain = elevated_os (sudo_call exec password) 30 ''.tmp-sudorunner'' plain"

definition sudo_pds_adapter :: "'m executor \<Rightarrow> string \<Rightarrow> 'm devices \<Rightarrow> 'm devices" where
  "sudo_pds_adapter exec password plain = elevated_devices (sudo_call exec password) 30 plain"

definition pkexec_argv :: "string list \<Rightarrow> string list" where
  "pkexec_argv argv = ''pkexec'' # argv"

definition PKEXEC_TIMEOUT :: int where "PKEXEC_TIMEOUT = 300"

text \<open>\<open>timeout or self._default_timeout\<close>\<close>
definition pkexec_call :: "'m executor \<Rightarrow> int \<Rightarrow> 'm elevated" where
  "pkexec_call exec patience argv extra t = exec (pkexec_argv argv) extra (if t = 0 then patience else t)"

definition pkexec_runner :: "'m executor \<Rightarrow> int \<Rightarrow> 'm os \<Rightarrow> 'm os" where
  "pkexec_runner exec patience plain = elevated_os (pkexec_call exec patience) 0 ''.tmp-pkexecrunner'' plain"

definition pkexec_pds_adapter :: "'m executor \<Rightarrow> int \<Rightarrow> 'm devices \<Rightarrow> 'm devices" where
  "pkexec_pds_adapter exec patience plain = elevated_devices (pkexec_call exec patience) patience plain"

section \<open>Drives deliberately added\<close>

definition ENROLLED_TYPE :: string where "ENROLLED_TYPE = ''enrolled_drives''"
definition GUIDS_TYPE :: string where "GUIDS_TYPE = ''installer_drives''"

definition is_alnum :: "char \<Rightarrow> bool" where
  "is_alnum c \<longleftrightarrow> is_upper c \<or> is_lower c \<or> is_digit c"

definition serial_shape :: "string \<Rightarrow> bool" where
  "serial_shape s \<longleftrightarrow> 4 \<le> length s \<and> length s \<le> 40 \<and> list_all (\<lambda>c. is_alnum c \<or> c \<in> set ''._-'') s"

definition check_serial :: "json \<Rightarrow> exn + string" where
  "check_serial v =
     (case v of
        JStr s \<Rightarrow>
          if before_newline serial_shape s \<and> strip_char (CHR ''.'') s \<noteq> [] then Inr s
          else Inl (ValueError (''not a drive serial: '' @ json_repr v))
      | _ \<Rightarrow> Inl (ValueError (''not a drive serial: '' @ json_repr v)))"

text \<open>Any exception counts as nothing enrolled.\<close>
definition enrolled_serials :: "('m, string list) desk_act" where
  "enrolled_serials =
     act_catch (act_bind (on_settings (list_entries_read_only ENROLLED_TYPE GLOBAL)) (\<lambda>es. act_ret (map fst es)))
       (\<lambda>e. act_ret [])"

definition enroll :: "string \<Rightarrow> int \<Rightarrow> string \<Rightarrow> int \<Rightarrow> ('m, unit) desk_act" where
  "enroll serial size_bytes model now =
     act_bind (act_lift (check_serial (JStr serial))) (\<lambda>serial.
     act_seq (on_settings (register_type ENROLLED_TYPE
       ''Drives deliberately added to the ones Baseline may act on (drive_enrollment.py)'' GLOBAL)) (
     act_seq (call_os (Enrolled serial) (\<lambda>w. (Inr (), w)))
       (on_settings (upsert_entry ENROLLED_TYPE serial
         (JObj [(''size_bytes'', JInt size_bytes), (''model'', JStr model), (''enrolled_at'', JFloat (str_of_int now @ ''.0''))])
         GLOBAL JNull))))"

section \<open>The devices of a desk\<close>

definition on_machine :: "('m \<Rightarrow> (exn + 'a) \<times> 'm) \<Rightarrow> 'm desk \<Rightarrow> (exn + 'a) \<times> 'm desk" where
  "on_machine f w = (case f (desk_machine w) of (r, m) \<Rightarrow> (r, w\<lparr>desk_machine := m\<rparr>))"

definition in_settings :: "(settings, 'a) act \<Rightarrow> 'm desk \<Rightarrow> (exn + 'a) \<times> 'm desk" where
  "in_settings a w = (case a (desk_settings w) of (r, s) \<Rightarrow> (r, w\<lparr>desk_settings := s\<rparr>))"

text \<open>\<open>_lsblk_run\<close>: what a query printed, and a failure of any kind as exit code 1.\<close>
definition lsblk_run :: "'m devices \<Rightarrow> string list \<Rightarrow> 'm \<Rightarrow> (exn + int \<times> string) \<times> 'm" where
  "lsblk_run pds argv m = (case dv_run pds argv m of (Inl e, m') \<Rightarrow> (Inr (1, []), m') | (Inr out, m') \<Rightarrow> (Inr (0, out), m'))"

definition list_guids :: "(settings, string list) act" where
  "list_guids = act_bind (list_entries_read_only GUIDS_TYPE GLOBAL) (\<lambda>es. act_ret (map fst es))"

definition put_guid :: "string \<Rightarrow> string \<Rightarrow> (settings, unit) act" where
  "put_guid guid serial =
     act_seq (register_type GUIDS_TYPE ''Disk GUIDs the Baseline installer generated (drive_guard.py)'' GLOBAL)
       (upsert_entry GUIDS_TYPE guid (JObj [(''serial'', JStr serial)]) GLOBAL (JObj [(''by'', JStr ''installer'')]))"

text \<open>
  The validation asks \<open>pds\<close>, the drive guard reads with \<open>read\<close>, and commands go to the privileged runner with a
  timeout (60 s for \<open>stamp_installer_identity\<close>, 600 s for \<open>_LayoutCmd\<close>).
\<close>

definition desk_devices ::
    "'m os \<Rightarrow> int \<Rightarrow> (string list \<Rightarrow> 'm \<Rightarrow> (exn + int \<times> string) \<times> 'm) \<Rightarrow> 'm devices \<Rightarrow> 'm desk devices" where
  "desk_devices os timeout rd pds = \<lparr>
     dv_run = (\<lambda>argv. on_machine (dv_run pds argv)),
     dv_islink = (\<lambda>p. on_machine (dv_islink pds p)),
     dv_realpath = (\<lambda>p. on_machine (dv_realpath pds p)),
     dv_is_block = (\<lambda>p. on_machine (dv_is_block pds p)),
     dv_size_file = (\<lambda>p. on_machine (dv_size_file pds p)),
     dv_read = (\<lambda>argv. on_machine (rd argv)),
     dv_list_guids = in_settings list_guids,
     dv_put_guid = (\<lambda>guid serial. in_settings (put_guid guid serial)),
     dv_cmd = (\<lambda>argv. on_machine (\<lambda>m. case os_run os argv timeout m of
        (Inl e, m') \<Rightarrow> (Inl e, m') | (Inr p, m') \<Rightarrow> (Inr (returncode p, stdout p, stderr p), m')))\<rparr>"

end
