(* ===== verification/DriveParams.thy ===== *)
theory DriveParams
  imports DriveDesk PyPath IpAddress
begin

text \<open>
  \<open>drive_admin.py\<close>, the parameters of a request: the names an action takes, and the shape each value must have. A value
  is what the page posted, a JSON value. \<open>re.match\<close> with a pattern that ends in a dollar sign also accepts a final line
  feed; \<open>check_str\<close> excludes it before most of the patterns, not before those of \<open>target_mac\<close>,
  \<open>target_dmi_product\<close>, \<open>selected\<close> and \<open>confirm_serial\<close>.
\<close>

section \<open>Patterns\<close>

definition named :: "(char \<Rightarrow> bool) \<Rightarrow> string \<Rightarrow> nat \<Rightarrow> string \<Rightarrow> bool" where
  "named first extra longest s \<longleftrightarrow>
     s \<noteq> [] \<and> first (hd s) \<and> length s \<le> longest \<and> list_all (\<lambda>c. is_alnum c \<or> c \<in> set extra) (tl s)"

definition lv_name_shape :: "string \<Rightarrow> bool" where
  "lv_name_shape = named is_alnum ''_+.-'' 64"

definition volume_label_shape :: "string \<Rightarrow> bool" where
  "volume_label_shape s \<longleftrightarrow> s \<noteq> [] \<and> is_upper (hd s) \<and> length s \<le> 32 \<and> list_all is_label_char (tl s)"

definition mount_component_shape :: "string \<Rightarrow> bool" where
  "mount_component_shape = named is_alnum ''_.-'' 64"

definition path_component_shape :: "string \<Rightarrow> bool" where
  "path_component_shape s \<longleftrightarrow> 1 \<le> length s \<and> length s \<le> 128 \<and> list_all (\<lambda>c. is_alnum c \<or> c \<in> set ''._+-'') s"

definition host_label_shape :: "string \<Rightarrow> bool" where
  "host_label_shape s \<longleftrightarrow> named is_alnum ''-'' 63 s \<and> is_alnum (last s)"

definition hostname_shape :: "string \<Rightarrow> bool" where
  "hostname_shape s \<longleftrightarrow> 1 \<le> length s \<and> length s \<le> 253 \<and> list_all host_label_shape (split_on (CHR ''.'') s)"

definition mac_shape :: "string \<Rightarrow> bool" where
  "mac_shape s \<longleftrightarrow>
     (let fs = split_on (CHR '':'') s in map length fs = [2, 2, 2, 2, 2, 2] \<and> list_all (list_all is_hex) fs)"

definition dmi_shape :: "string \<Rightarrow> bool" where
  "dmi_shape = named is_alnum '' ._-'' 64"

definition SAFE_PATH_ROOTS :: "string list" where
  "SAFE_PATH_ROOTS = [''/mnt/INSTALLER_CACHE/'', ''/etc/baseline/'', ''/var/lib/baseline/'']"

definition MAX_SELECTED :: nat where "MAX_SELECTED = 20"

section \<open>Checks\<close>

definition check_str :: "string \<Rightarrow> json \<Rightarrow> exn + string" where
  "check_str name v =
     (case v of
        JStr s \<Rightarrow>
          if s = [] \<or> CHR 0x00 \<in> set s \<or> CHR 0x0A \<in> set s \<or> CHR 0x0D \<in> set s
          then Inl (ValueError (name @ '' must be a single-line, non-empty string'')) else Inr s
      | _ \<Rightarrow> Inl (ValueError (name @ '' must be a single-line, non-empty string'')))"

definition check_shape :: "string \<Rightarrow> (string \<Rightarrow> bool) \<Rightarrow> string \<Rightarrow> json \<Rightarrow> exn + string" where
  "check_shape name ok msg v =
     (case check_str name v of Inl e \<Rightarrow> Inl e | Inr s \<Rightarrow> if ok s then Inr s else Inl (ValueError msg))"

definition check_lv_name :: "json \<Rightarrow> exn + string" where
  "check_lv_name = check_shape ''lv_name'' lv_name_shape
     (''lv_name must be a plain volume name (letters, digits, _ + . -), at most 64 characters, '' @
      ''with no slash or leading dash'')"

definition mount_parts :: "string \<Rightarrow> string list" where
  "mount_parts s = drop 2 (split_on (CHR ''/'') s)"

definition own_mountpoints :: "string list" where
  "own_mountpoints = map v_mount BASELINE_VOLUMES @ [''/mnt/10TB'']"

definition check_mountpoint :: "json \<Rightarrow> exn + string" where
  "check_mountpoint v =
     (case check_str ''mountpoint'' v of
        Inl e \<Rightarrow> Inl e
      | Inr s \<Rightarrow>
          if normpath s \<noteq> s \<or> \<not> starts_with s ''/mnt/'' then
            Inl (ValueError ''mountpoint must be a clean absolute path under /mnt/'')
          else if \<not> (1 \<le> length (mount_parts s) \<and> length (mount_parts s) \<le> 3)
            \<or> \<not> list_all mount_component_shape (mount_parts s) then
            Inl (ValueError ''mountpoint must be one to three plain folder names under /mnt/'')
          else if s \<in> set own_mountpoints then
            Inl (ValueError ''mountpoint must not be one of Baseline's own volume mountpoints'')
          else Inr s)"

definition safe_path :: "string \<Rightarrow> bool" where
  "safe_path s \<longleftrightarrow>
     length s \<le> 4096 \<and> isabs s \<and> normpath s = s \<and> list_ex (starts_with s) SAFE_PATH_ROOTS
     \<and> list_all path_component_shape (drop 1 (split_on (CHR ''/'') s))"

definition check_safe_path :: "string \<Rightarrow> json \<Rightarrow> exn + string" where
  "check_safe_path name = check_shape name safe_path
     (name @ '' must be a clean absolute path inside INSTALLER_CACHE or /etc/baseline or /var/lib/baseline'')"

text \<open>\<open>ipaddress.ip_address\<close> accepts the text.\<close>
definition is_address :: "string \<Rightarrow> bool" where
  "is_address s \<longleftrightarrow>
     CHR ''/'' \<notin> set s \<and> (ipv4_int s \<noteq> None \<or>
       (case split_scope s of Some (addr, _) \<Rightarrow> ipv6_int addr \<noteq> None | None \<Rightarrow> False))"

definition check_server_host :: "json \<Rightarrow> exn + string" where
  "check_server_host = check_shape ''server_host'' (\<lambda>s. is_address s \<or> hostname_shape s)
     ''server_host must be an IP address or a plain host name''"

definition check_expected_serial :: "string list \<Rightarrow> json \<Rightarrow> exn + string" where
  "check_expected_serial serials = check_shape ''expected_serial'' (\<lambda>s. serial_shape s \<and> s \<in> set serials)
     ''expected_serial is not one of the drives Baseline is allowed to act on''"

definition check_selected :: "json \<Rightarrow> exn + unit" where
  "check_selected v =
     (case v of
        JList xs \<Rightarrow>
          if length xs \<le> MAX_SELECTED
             \<and> list_all (\<lambda>x. case x of JStr s \<Rightarrow> before_newline volume_label_shape s | _ \<Rightarrow> False) xs
          then Inr () else Inl (ValueError ''selected must be a short list of volume labels'')
      | _ \<Rightarrow> Inl (ValueError ''selected must be a short list of volume labels''))"

definition check_text :: "(string \<Rightarrow> bool) \<Rightarrow> string \<Rightarrow> json \<Rightarrow> exn + string" where
  "check_text ok msg v =
     (case v of JStr s \<Rightarrow> if before_newline ok s then Inr s else Inl (ValueError msg) | _ \<Rightarrow> Inl (ValueError msg))"

definition ALLOWED_TARGET_SERIALS :: "string list" where
  "ALLOWED_TARGET_SERIALS = [''MD89N41071210AP4E'', ''FD01N6557110C271B'']"

definition unit_of :: "exn + 'a \<Rightarrow> exn + unit" where
  "unit_of r = (case r of Inl e \<Rightarrow> Inl e | Inr _ \<Rightarrow> Inr ())"

text \<open>A value that passes is handed on as it is.\<close>

definition PARAM_CHECKS :: "(string \<times> (json \<Rightarrow> exn + unit)) list" where
  "PARAM_CHECKS =
     [(''device_path'', unit_of \<circ> check_str ''device_path''),
      (''lv_name'', unit_of \<circ> check_lv_name),
      (''mountpoint'', unit_of \<circ> check_mountpoint),
      (''selected'', check_selected),
      (''expected_serial'', unit_of \<circ> check_expected_serial ALLOWED_TARGET_SERIALS),
      (''confirm_serial'', unit_of \<circ> check_serial),
      (''proxmox_source_iso'', unit_of \<circ> check_safe_path ''proxmox_source_iso''),
      (''cert_path'', unit_of \<circ> check_safe_path ''cert_path''),
      (''key_path'', unit_of \<circ> check_safe_path ''key_path''),
      (''server_host'', unit_of \<circ> check_server_host),
      (''target_mac'', unit_of \<circ> check_text mac_shape ''target_mac must look like aa:bb:cc:dd:ee:ff''),
      (''target_dmi_product'', unit_of \<circ> check_text dmi_shape ''target_dmi_product must be plain text up to 64 characters'')]"

definition ACTION_PARAMS :: "(string \<times> string list) list" where
  "ACTION_PARAMS =
     [(''build_self_installer'', [''device_path'', ''expected_serial'', ''proxmox_source_iso'', ''server_host'',
         ''cert_path'', ''key_path'', ''target_mac'', ''target_dmi_product'']),
      (''repair'', [''device_path'']),
      (''mount_volume'', [''device_path'', ''lv_name'', ''mountpoint'']),
      (''unmount_volume'', [''device_path'', ''lv_name'', ''mountpoint'']),
      (''update_selected'', [''selected'', ''device_path'']),
      (''stamp_installer_identity'', [''device_path'']),
      (''lay_out_baseline_drive'', [''device_path'']),
      (''enroll_drive'', [''device_path'', ''confirm_serial''])]"

fun check_values :: "params \<Rightarrow> exn + unit" where
  "check_values [] = Inr ()"
| "check_values ((name, v) # rest) =
     (case map_of PARAM_CHECKS name of
        None \<Rightarrow> Inl (KeyError name)
      | Some passes \<Rightarrow> (case passes v of Inl e \<Rightarrow> Inl e | Inr _ \<Rightarrow> check_values rest))"

definition validate_action_params :: "string \<Rightarrow> params \<Rightarrow> exn + params" where
  "validate_action_params action ps =
     (case map_of ACTION_PARAMS action of
        None \<Rightarrow> Inl (ValueError (''unknown action '' @ py_repr action))
      | Some names \<Rightarrow>
          let unknown = sort_strs (filter (\<lambda>name. name \<notin> set names) (map fst ps))
          in if unknown \<noteq> [] then
               Inl (ValueError (''unknown parameter(s) for '' @ action @ '': '' @ join '', '' unknown))
             else (case check_values ps of Inl e \<Rightarrow> Inl e | Inr _ \<Rightarrow> Inr ps))"

section \<open>What a mountpoint can be\<close>

text \<open>No path that passes leaves \<open>/mnt\<close>, and no component of it is empty or a dot or two.\<close>

lemma mount_component_plain: "mount_component_shape c \<Longrightarrow> c \<noteq> [] \<and> c \<noteq> ''.'' \<and> c \<noteq> ''..'' \<and> CHR ''/'' \<notin> set c"
  by (cases c) (auto simp: mount_component_shape_def named_def is_alnum_def is_upper_def is_lower_def is_digit_def
      list_all_iff)

lemma check_mountpointD:
  "check_mountpoint v = Inr s \<Longrightarrow> starts_with s ''/mnt/'' \<and> normpath s = s \<and> s \<notin> set own_mountpoints
     \<and> list_all mount_component_shape (mount_parts s)"
  by (auto simp: check_mountpoint_def split: sum.splits if_splits)

lemma lv_name_plain: "check_lv_name v = Inr s \<Longrightarrow> CHR ''/'' \<notin> set s \<and> s \<noteq> [] \<and> hd s \<noteq> CHR ''-''"
  by (cases s) (auto simp: check_lv_name_def check_shape_def lv_name_shape_def named_def is_alnum_def is_upper_def
      is_lower_def is_digit_def list_all_iff split: sum.splits if_splits)

end
