(* ===== verification/DriveAdmin.thy ===== *)
theory DriveAdmin
  imports DriveParams
begin

text \<open>
  \<open>drive_admin.py\<close>, the actions: which drives are offered, what is on them, and what each action does with the drive
  it is given. The record \<open>admin\<close> names what the actions work with: the privileged \<open>runner\<close> and the timeout it uses when
  none is given, the \<open>pds_runner\<close> of the request, the plain \<open>pds.Runner()\<close> and \<open>RealRunner()\<close> made on the spot, the
  fresh GUID of \<open>uuid.uuid4\<close>, and the readings of the clock. The self installer is the argument \<open>ad_build\<close>.
\<close>

record 'm admin =
  ad_os :: "'m os"
  ad_patience :: int
  ad_pds :: "'m devices"
  ad_plain :: "'m devices"
  ad_real :: "'m os"
  ad_build :: "string \<Rightarrow> params \<Rightarrow> 'm \<Rightarrow> (exn + bool \<times> string) \<times> 'm"
  ad_guid :: string
  ad_henv :: henv
  ad_wenv :: wenv
  ad_gate :: "string option"
  ad_own :: "nat option"
  ad_gate_time :: int
  ad_hitl_time :: int
  ad_backup_time :: int
  ad_enroll_time :: int

record action_result =
  ar_ok :: bool
  ar_detail :: string

definition action_result :: "bool \<Rightarrow> string \<Rightarrow> action_result" where
  "action_result ok what = \<lparr>ar_ok = ok, ar_detail = what\<rparr>"

section \<open>The drives Baseline may act on\<close>

definition MIN_TARGET_SIZE_BYTES :: int where "MIN_TARGET_SIZE_BYTES = 50000000000"
definition PERSISTENCE_VG_NAME :: string where "PERSISTENCE_VG_NAME = ''baseline_persist''"

definition allowed_target_serials :: "('m, string list) desk_act" where
  "allowed_target_serials =
     act_bind enrolled_serials (\<lambda>more. act_ret (remdups (ALLOWED_TARGET_SERIALS @ more)))"

definition guard_devices :: "'m admin \<Rightarrow> 'm desk devices" where
  "guard_devices ad = desk_devices (ad_os ad) 600 (lsblk_run (ad_pds ad)) (ad_pds ad)"

definition stamp_devices :: "'m admin \<Rightarrow> 'm desk devices" where
  "stamp_devices ad = desk_devices (ad_os ad) 60 (lsblk_run (ad_pds ad)) (ad_pds ad)"

definition plain_devices :: "'m admin \<Rightarrow> 'm desk devices" where
  "plain_devices ad = desk_devices (ad_os ad) 60 (dv_read (ad_plain ad)) (ad_plain ad)"

definition validate_drive :: "'m admin \<Rightarrow> string \<Rightarrow> json \<Rightarrow> json \<Rightarrow> ('m, target) desk_act" where
  "validate_drive ad path expected lo = on_devices (validate_target_device (guard_devices ad) path expected lo JNull)"

definition resolve_target :: "'m admin \<Rightarrow> string \<Rightarrow> ('m, target) desk_act" where
  "resolve_target ad path =
     act_bind allowed_target_serials (\<lambda>permitted.
     validate_drive ad path (JList (map JStr (sort_strs permitted))) (JInt MIN_TARGET_SIZE_BYTES))"

section \<open>What is on a drive\<close>

definition list_candidate_drives_argv :: "string list" where
  "list_candidate_drives_argv = [''lsblk'', ''-d'', ''-n'', ''-P'', ''-o'', ''NAME,SIZE,MODEL,TRAN,ROTA,SERIAL,TYPE'']"

definition column :: "(string \<times> string) list \<Rightarrow> string \<Rightarrow> string" where
  "column row key = (case map_of row key of None \<Rightarrow> [] | Some v \<Rightarrow> v)"

definition parse_candidate_drives :: "string \<Rightarrow> exn + (string \<times> string) list list" where
  "parse_candidate_drives out =
     (case parse_lsblk_pairs out of
        Inl e \<Rightarrow> Inl e
      | Inr rows \<Rightarrow> Inr (filter (\<lambda>row. map_of row ''TYPE'' = Some ''disk'') rows))"

definition drive_partition_summary_argv :: "string list" where
  "drive_partition_summary_argv = [''lsblk'', ''-P'', ''-b'', ''-o'', ''NAME,TYPE,FSTYPE,FSUSED,FSSIZE,MOUNTPOINT,PKNAME'']"

definition tenths :: "int \<Rightarrow> int \<Rightarrow> string" where
  "tenths n d = (let q = round_half_even (n * 10) d in str_of_int (q div 10) @ ''.'' @ str_of_int (q mod 10))"

text \<open>\<open>n\<close> is divided by 1024 for every unit that is passed: \<open>n / d\<close> is the value that is compared and printed.\<close>
fun format_in :: "string list \<Rightarrow> int \<Rightarrow> int \<Rightarrow> string" where
  "format_in [] n d = tenths n d @ '' PiB''"
| "format_in (unit # units) n d =
     (if n < 1024 * d \<or> units = []
      then (if unit = ''B'' then str_of_int n else tenths n d) @ '' '' @ unit
      else format_in units n (d * 1024))"

definition format_bytes :: "int \<Rightarrow> string" where
  "format_bytes n = format_in [''B'', ''KiB'', ''MiB'', ''GiB'', ''TiB'', ''PiB''] n 1"

fun sum_column :: "string \<Rightarrow> (string \<times> string) list list \<Rightarrow> exn + int" where
  "sum_column key [] = Inr 0"
| "sum_column key (row # rest) =
     (case py_int (column row key) of
        None \<Rightarrow> Inl (ValueError (''invalid literal for int() with base 10: '' @ py_repr (column row key)))
      | Some n \<Rightarrow> (case sum_column key rest of Inl e \<Rightarrow> Inl e | Inr k \<Rightarrow> Inr (n + k)))"

record partition_summary =
  ps_count :: "int option"
  ps_usage :: string

definition partition_summary_from_rows ::
    "(string \<times> string) list list \<Rightarrow> string \<Rightarrow> exn + partition_summary" where
  "partition_summary_from_rows rows name =
     (let own = find (\<lambda>r. map_of r ''NAME'' = Some name) rows;
          children = filter (\<lambda>r. map_of r ''PKNAME'' = Some name) rows;
          count = int (length (filter (\<lambda>r. map_of r ''TYPE'' = Some ''part'') children));
          relevant = (if own \<noteq> None \<and> children = [] then [the own] else children);
          mounted = filter (\<lambda>r. column r ''MOUNTPOINT'' \<noteq> [] \<and> column r ''FSUSED'' \<noteq> []) relevant
      in if mounted = [] then Inr \<lparr>ps_count = Some count, ps_usage = ''not mounted''\<rparr>
         else case sum_column ''FSUSED'' mounted of
           Inl e \<Rightarrow> Inl e
         | Inr used \<Rightarrow>
             (case sum_column ''FSSIZE'' (filter (\<lambda>r. column r ''FSSIZE'' \<noteq> []) mounted) of
                Inl e \<Rightarrow> Inl e
              | Inr all_bytes \<Rightarrow> Inr \<lparr>ps_count = Some count, ps_usage =
                  (if all_bytes \<noteq> 0 then format_bytes used @ '' used of '' @ format_bytes all_bytes
                   else format_bytes used @ '' used'')\<rparr>))"

definition summarize_drive_partitions :: "'m admin \<Rightarrow> string \<Rightarrow> ('m, partition_summary) desk_act" where
  "summarize_drive_partitions ad name =
     act_bind (on_commands (run (ad_os ad) drive_partition_summary_argv 15)) (\<lambda>p.
     if returncode p \<noteq> 0 then act_ret \<lparr>ps_count = None, ps_usage = ''unknown''\<rparr>
     else act_lift (case parse_lsblk_pairs (stdout p) of Inl e \<Rightarrow> Inl e
       | Inr rows \<Rightarrow> partition_summary_from_rows rows name))"

definition classify_drive_type :: "string \<Rightarrow> string \<Rightarrow> string \<Rightarrow> string option \<Rightarrow> string" where
  "classify_drive_type tran rota model usb_bridge =
     (let bridge = lower (case usb_bridge of None \<Rightarrow> [] | Some b \<Rightarrow> b)
      in if contains bridge ''pcie'' \<or> starts_with bridge ''rtl92'' then ''NVMe''
         else if tran = ''nvme'' \<or> contains (lower model) ''nvme'' then ''NVMe''
         else if contains (lower model) ''ssd'' then ''SSD''
         else if tran = ''usb'' then ''USB''
         else if rota = ''1'' then ''HDD''
         else if rota = ''0'' then ''SSD''
         else ''Other'')"

text \<open>The first physical volume whose name starts with the device's path names the volume group.\<close>

definition vg_in_line :: "string \<Rightarrow> string \<Rightarrow> string option" where
  "vg_in_line device line =
     (case split_ws line of
        pv # vg # _ \<Rightarrow> if starts_with pv device then Some vg else None
      | _ \<Rightarrow> None)"

definition vg_in :: "string \<Rightarrow> string \<Rightarrow> string option" where
  "vg_in device out =
     (case filter (\<lambda>line. vg_in_line device line \<noteq> None) (splitlines out) of
        [] \<Rightarrow> None | line # _ \<Rightarrow> vg_in_line device line)"

definition find_vg_for_device :: "'m admin \<Rightarrow> string \<Rightarrow> ('m, string option) desk_act" where
  "find_vg_for_device ad device =
     act_bind (on_commands (run (ad_os ad) [''sudo'', ''-n'', ''pvs'', ''--noheadings'', ''-o'', ''pv_name,vg_name''] 15)) (\<lambda>p.
     act_ret (if returncode p \<noteq> 0 then None else vg_in device (stdout p)))"

record baseline_status =
  bs_is_baseline :: bool
  bs_vg :: "string option"
  bs_missing :: "string list"

definition detect_baseline_drive :: "'m admin \<Rightarrow> string \<Rightarrow> ('m, baseline_status) desk_act" where
  "detect_baseline_drive ad device =
     act_bind (find_vg_for_device ad device) (\<lambda>vg.
     case vg of
       None \<Rightarrow> act_ret \<lparr>bs_is_baseline = False, bs_vg = None, bs_missing = []\<rparr>
     | Some vg \<Rightarrow>
         act_bind (on_commands (detect_existing_baseline_install (ad_os ad) vg DEFAULT_PERSONAS)) (\<lambda>d.
         act_ret \<lparr>bs_is_baseline = (found_volumes d \<noteq> []), bs_vg = Some vg,
           bs_missing = (if found_volumes d \<noteq> [] then missing_volumes d else [])\<rparr>))"

record drive_card = baseline_status +
  dc_path :: string
  dc_model :: string
  dc_size :: string
  dc_type :: string
  dc_is_default :: bool
  dc_count :: "int option"
  dc_usage :: string

definition drive_card_of ::
    "'m admin \<Rightarrow> (string \<times> string) list list \<Rightarrow> (string \<times> string) list \<Rightarrow> ('m, drive_card) desk_act" where
  "drive_card_of ad tree_rows row =
     (let name = column row ''NAME''; path = ''/dev/'' @ name; tran = column row ''TRAN''
      in act_bind (if tran = ''usb'' then on_devices (get_usb_bridge_model (guard_devices ad) path) else act_ret None) (\<lambda>bridge.
         act_bind (act_lift (partition_summary_from_rows tree_rows name)) (\<lambda>s.
         act_bind (detect_baseline_drive ad path) (\<lambda>b.
         act_ret \<lparr>bs_is_baseline = bs_is_baseline b, bs_vg = bs_vg b, bs_missing = bs_missing b,
           dc_path = path, dc_model = or_else (column row ''MODEL'') ''Unknown model'',
           dc_size = or_else (column row ''SIZE'') ''?'',
           dc_type = classify_drive_type tran (column row ''ROTA'') (column row ''MODEL'') bridge,
           dc_is_default = (column row ''SERIAL'' \<in> set ALLOWED_TARGET_SERIALS),
           dc_count = ps_count s, dc_usage = ps_usage s\<rparr>))))"

text \<open>The rows of drives that are offered: named, not the boot device, and permitted.\<close>

definition offered :: "string option \<Rightarrow> string list \<Rightarrow> (string \<times> string) list \<Rightarrow> bool" where
  "offered boot permitted row \<longleftrightarrow>
     column row ''NAME'' \<noteq> [] \<and> \<not> (boot \<noteq> None \<and> Some (column row ''SERIAL'') = boot)
     \<and> column row ''SERIAL'' \<noteq> [] \<and> column row ''SERIAL'' \<in> set permitted"

definition list_candidate_drives :: "'m admin \<Rightarrow> ('m, drive_card list) desk_act" where
  "list_candidate_drives ad =
     act_bind (on_commands (run (ad_os ad) list_candidate_drives_argv 15)) (\<lambda>p.
     if returncode p \<noteq> 0 then act_ret []
     else
       act_bind (on_commands (run (ad_os ad) drive_partition_summary_argv 15)) (\<lambda>t.
       act_bind (act_lift (if returncode t = 0 then parse_lsblk_pairs (stdout t) else Inr [])) (\<lambda>tree_rows.
       act_bind (on_devices (get_boot_device_serial (guard_devices ad))) (\<lambda>boot.
       act_bind allowed_target_serials (\<lambda>permitted.
       act_bind (act_lift (parse_candidate_drives (stdout p))) (\<lambda>rows.
       act_bind (act_map (drive_card_of ad tree_rows) (filter (offered boot permitted) rows)) (\<lambda>cards.
       act_ret (filter bs_is_baseline cards @ filter (\<lambda>c. \<not> bs_is_baseline c) cards))))))))"

record enrollable =
  en_path :: string
  en_serial :: string
  en_model :: string
  en_size :: string

definition enrollable_row :: "string option \<Rightarrow> string list \<Rightarrow> (string \<times> string) list \<Rightarrow> bool" where
  "enrollable_row boot permitted row \<longleftrightarrow>
     column row ''NAME'' \<noteq> [] \<and> column row ''SERIAL'' \<noteq> [] \<and> Some (column row ''SERIAL'') \<noteq> boot
     \<and> column row ''SERIAL'' \<notin> set permitted"

definition list_enrollable_drives :: "'m admin \<Rightarrow> ('m, enrollable list) desk_act" where
  "list_enrollable_drives ad =
     act_bind (on_commands (run (ad_os ad) list_candidate_drives_argv 15)) (\<lambda>p.
     if returncode p \<noteq> 0 then act_ret []
     else
       act_bind (on_devices (get_boot_device_serial (guard_devices ad))) (\<lambda>boot.
       act_bind allowed_target_serials (\<lambda>permitted.
       act_bind (act_lift (parse_candidate_drives (stdout p))) (\<lambda>rows.
       act_ret (map (\<lambda>row. \<lparr>en_path = ''/dev/'' @ column row ''NAME'', en_serial = column row ''SERIAL'',
           en_model = or_else (column row ''MODEL'') ''Unknown model'', en_size = or_else (column row ''SIZE'') ''?''\<rparr>)
         (filter (enrollable_row boot permitted) rows))))))"

section \<open>Building a volume group\<close>

definition reread_partition_table_argv :: "string \<Rightarrow> string list" where
  "reread_partition_table_argv device = [''blockdev'', ''--rereadpt'', device]"

definition pvcreate_argv :: "string \<Rightarrow> string list" where
  "pvcreate_argv device = [''pvcreate'', ''-ff'', ''-y'', device]"

definition vgcreate_argv :: "string \<Rightarrow> string \<Rightarrow> string list" where
  "vgcreate_argv vg device = [''vgcreate'', vg, device]"

text \<open>The \<open>pds_runner\<close> that shares the runner's identity is \<^const>\<open>ad_pds\<close>.\<close>

definition refusing :: "(exn \<Rightarrow> string option) \<Rightarrow> ('m, 'a) desk_act \<Rightarrow> ('a \<Rightarrow> ('m, action_result) desk_act) \<Rightarrow> ('m, action_result) desk_act" where
  "refusing why a f =
     act_bind (act_catch (act_bind a (\<lambda>x. act_ret (Inr x))) (\<lambda>e.
       case why e of None \<Rightarrow> act_raise e | Some msg \<Rightarrow> act_ret (Inl msg))) (\<lambda>found.
     case found of Inl msg \<Rightarrow> act_ret (action_result False msg) | Inr x \<Rightarrow> f x)"

fun unsafe_device :: "exn \<Rightarrow> string option" where
  "unsafe_device (PhysicalDeviceSafetyError msg) = Some (''refused: '' @ msg)"
| "unsafe_device _ = None"

fun protected_data :: "exn \<Rightarrow> string option" where
  "protected_data (DataProtectionError msg) = Some msg"
| "protected_data _ = None"

definition wipe_and_build :: "'m admin \<Rightarrow> target \<Rightarrow> ('m, action_result) desk_act" where
  "wipe_and_build ad t =
     act_seq (on_devices (wipe_signatures (guard_devices ad) t)) (
     act_seq (on_commands (run (ad_os ad) (reread_partition_table_argv (t_path t)) 15)) (
     act_bind (on_commands (run (ad_os ad) (pvcreate_argv (t_path t)) 60)) (\<lambda>pv.
     if returncode pv \<noteq> 0 then act_ret (action_result False (''pvcreate failed: '' @ strip (stderr pv)))
     else
       act_bind (on_commands (run (ad_os ad) (vgcreate_argv PERSISTENCE_VG_NAME (t_path t)) 60)) (\<lambda>vg.
       if returncode vg \<noteq> 0 then act_ret (action_result False (''vgcreate failed: '' @ strip (stderr vg)))
       else act_ret (action_result True
         (t_path t @ '' rebuilt as LVM volume group '' @ py_repr PERSISTENCE_VG_NAME))))))"

definition rebuild_persistence_lvm :: "'m admin \<Rightarrow> string \<Rightarrow> ('m, action_result) desk_act" where
  "rebuild_persistence_lvm ad device =
     refusing unsafe_device (resolve_target ad device) (\<lambda>t.
     refusing protected_data (on_devices (require_may_format (guard_devices ad) (t_path t))) (\<lambda>_.
     wipe_and_build ad t))"

definition persona_tuple :: "string list \<Rightarrow> string" where
  "persona_tuple ps = ''('' @ join '', '' (map py_repr ps) @ (if length ps = 1 then '',)'' else '')'')"

definition create_baseline_volumes :: "'m admin \<Rightarrow> string \<Rightarrow> string list \<Rightarrow> ('m, action_result) desk_act" where
  "create_baseline_volumes ad vg personas =
     act_bind (on_commands (ensure_baseline_volumes (ad_os ad) vg personas)) (\<lambda>plan.
     let failed = map fst (filter (\<lambda>(_, r). \<not> cr_ok r) plan)
     in act_ret (if failed \<noteq> [] then action_result False (''volume(s) failed: '' @ join '', '' failed)
        else action_result True (''real volumes ensured on '' @ py_repr vg @ '' for personas '' @ persona_tuple personas)))"

definition install_drive :: "'m admin \<Rightarrow> string \<Rightarrow> string \<Rightarrow> string list \<Rightarrow> ('m, action_result) desk_act" where
  "install_drive ad device vg personas =
     act_bind (rebuild_persistence_lvm ad device) (\<lambda>r.
     if \<not> ar_ok r then act_ret r
     else
       act_bind (create_baseline_volumes ad vg personas) (\<lambda>v.
       act_ret (if \<not> ar_ok v then action_result False (ar_detail r @ ''; but '' @ ar_detail v)
         else action_result True (ar_detail r @ ''; '' @ ar_detail v))))"

section \<open>Personas and volume modes\<close>

definition switch_persona :: "'m admin \<Rightarrow> string \<Rightarrow> ('m, action_result) desk_act" where
  "switch_persona ad to_persona =
     act_bind (on_commands (switch_active_persona (ad_os ad) to_persona True)) (\<lambda>r.
     act_ret (action_result (applied r) (detail r)))"

definition MODE_KEYS :: "(string \<times> string) list" where
  "MODE_KEYS = [(''BASELINE'', ''baseline_mode''), (''INSTALLER_CACHE'', ''installer_cache_mode''),
     (''SESSION_TEMP'', ''session_temp_mode'')]"

definition remount_options :: "json \<Rightarrow> string" where
  "remount_options mode = (if mode = JStr ''read-only'' then ''ro'' else ''rw'')"

definition apply_volume_mode :: "'m admin \<Rightarrow> string \<Rightarrow> ('m, action_result) desk_act" where
  "apply_volume_mode ad label =
     (case map_of MODE_KEYS label of
        None \<Rightarrow> act_ret (action_result False (py_repr label @ '' is not a shared volume with a configurable mode''))
      | Some key \<Rightarrow>
          act_bind (on_settings (get_setting ''volumes'' key)) (\<lambda>mode.
          let mountpoint = map_option v_mount (find (\<lambda>v. v_label v = label) SHARED_VOLUMES);
              absent = action_result False (label @ '' is not currently mounted - nothing to remount'')
          in case mountpoint of
               None \<Rightarrow> act_ret absent
             | Some mp \<Rightarrow>
                 act_bind (on_commands (is_mounted (ad_os ad) mp)) (\<lambda>there.
                 if \<not> there then act_ret absent
                 else
                   act_bind (on_commands (run (ad_os ad) (remount_argv mp (remount_options mode)) 15)) (\<lambda>p.
                   act_ret (if returncode p \<noteq> 0 then action_result False (''remount failed: '' @ strip (stderr p))
                     else action_result True (label @ '' remounted '' @ remount_options mode @ '' (setting: '' @
                       json_repr mode @ '')''))))))"

section \<open>Repairing, mounting and unmounting\<close>

definition check_cache_updates :: "('m, string list) desk_act" where
  "check_cache_updates = act_raise (RuntimeError ''cache updates unavailable: no verified update source is configured'')"

definition update_selected :: "string list \<Rightarrow> action_result" where
  "update_selected selected =
     (if selected = [] then action_result False ''no volumes selected''
      else action_result False (''update-checking is not implemented yet - no real 'newer version available' '' @
        ''source exists for any cached artifact in this build''))"

definition repair_scan_and_fix :: "'m admin \<Rightarrow> string \<Rightarrow> ('m, action_result) desk_act" where
  "repair_scan_and_fix ad device =
     act_bind (find_vg_for_device ad device) (\<lambda>vg.
     case vg of
       None \<Rightarrow> act_ret (action_result False (device @ '' has no real LVM volume group - nothing to repair''))
     | Some vg \<Rightarrow>
         act_bind (on_commands (detect_existing_baseline_install (ad_os ad) vg DEFAULT_PERSONAS)) (\<lambda>d.
         if has_existing_install d then
           act_ret (action_result True (vg @ '': every Baseline volume already present - nothing to repair''))
         else
           act_bind (on_commands (ensure_baseline_volumes (ad_os ad) vg DEFAULT_PERSONAS)) (\<lambda>plan.
           let failed = map fst (filter (\<lambda>(_, r). \<not> cr_ok r) plan);
               fixed = map fst (filter (\<lambda>(_, r). cr_ok r \<and> cr_created r) plan)
           in act_ret (if failed \<noteq> [] then
                action_result False (''repair on '' @ vg @ '' still failing: '' @ join '', '' failed)
              else action_result True (vg @ '' repaired - created '' @
                (if fixed \<noteq> [] then join '', '' fixed else ''(nothing needed creating)''))))))"

definition inspect_target :: "string \<Rightarrow> string \<Rightarrow> string option \<Rightarrow> string" where
  "inspect_target vg lv mountpoint =
     or_else (case mountpoint of None \<Rightarrow> [] | Some m \<Rightarrow> m) (''/mnt/'' @ vg @ ''-'' @ lv @ ''-inspect'')"

fun bad_parameter :: "exn \<Rightarrow> string option" where
  "bad_parameter (ValueError msg) = Some (''refused: invalid parameter: '' @ msg)"
| "bad_parameter _ = None"

text \<open>\<open>mountpoint\<close> is \<open>None\<close> when it is not given.\<close>

definition check_place :: "json \<Rightarrow> json option \<Rightarrow> exn + string \<times> string option" where
  "check_place lv mountpoint =
     (case check_lv_name lv of
        Inl e \<Rightarrow> Inl e
      | Inr name \<Rightarrow>
          (case mountpoint of
             None \<Rightarrow> Inr (name, None)
           | Some v \<Rightarrow> (case check_mountpoint v of Inl e \<Rightarrow> Inl e | Inr m \<Rightarrow> Inr (name, Some m))))"

definition mount_at :: "'m admin \<Rightarrow> string \<Rightarrow> string \<Rightarrow> string option \<Rightarrow> ('m, action_result) desk_act" where
  "mount_at ad device lv_name spot =
     act_bind (find_vg_for_device ad device) (\<lambda>vg.
     case vg of
       None \<Rightarrow> act_ret (action_result False (device @ '' has no real LVM volume group - nothing to mount''))
     | Some vg \<Rightarrow>
         act_bind (on_commands (run (ad_os ad) [''vgchange'', ''-ay'', vg] (ad_patience ad))) (\<lambda>a.
         if returncode a \<noteq> 0 then
           act_ret (action_result False (''activating '' @ vg @ '' failed: '' @ strip (stderr a)))
         else
           let lv_path = ''/dev/'' @ vg @ ''/'' @ lv_name; goal = inspect_target vg lv_name spot
           in act_bind (on_commands (path_exists (ad_os ad) lv_path)) (\<lambda>found.
              if \<not> found then act_ret (action_result False (lv_path @ '' does not exist in '' @ vg))
              else
                act_seq (on_commands (makedirs (ad_os ad) goal)) (
                act_bind (on_commands (run (ad_os ad) [''mount'', ''-o'', ''rw'', lv_path, goal] (ad_patience ad))) (\<lambda>p.
                act_ret (if returncode p \<noteq> 0 then
                    action_result False (''mounting '' @ lv_path @ '' at '' @ goal @ '' failed: '' @ strip (stderr p))
                  else action_result True (lv_path @ '' mounted read-write at '' @ goal)))))))"

definition mount_logical_volume :: "'m admin \<Rightarrow> string \<Rightarrow> json \<Rightarrow> json option \<Rightarrow> ('m, action_result) desk_act" where
  "mount_logical_volume ad device lv mountpoint =
     refusing bad_parameter (act_lift (check_place lv mountpoint)) (\<lambda>(lv_name, spot). mount_at ad device lv_name spot)"

definition unmount_at :: "'m admin \<Rightarrow> string \<Rightarrow> string \<Rightarrow> string option \<Rightarrow> ('m, action_result) desk_act" where
  "unmount_at ad device lv_name spot =
     act_bind (find_vg_for_device ad device) (\<lambda>vg.
     case vg of
       None \<Rightarrow> act_ret (action_result False (device @ '' has no real LVM volume group - nothing to unmount''))
     | Some vg \<Rightarrow>
         let goal = inspect_target vg lv_name spot
         in act_bind (on_commands (run (ad_os ad) [''umount'', goal] (ad_patience ad))) (\<lambda>p.
            act_ret (if returncode p \<noteq> 0 then
                action_result False (''unmounting '' @ goal @ '' failed: '' @ strip (stderr p))
              else action_result True (goal @ '' unmounted''))))"

definition unmount_logical_volume :: "'m admin \<Rightarrow> string \<Rightarrow> json \<Rightarrow> json option \<Rightarrow> ('m, action_result) desk_act" where
  "unmount_logical_volume ad device lv mountpoint =
     refusing bad_parameter (act_lift (check_place lv mountpoint)) (\<lambda>(lv_name, spot). unmount_at ad device lv_name spot)"

section \<open>Adopting, laying out and enrolling a drive\<close>

definition stamp_drive :: "'m admin \<Rightarrow> string \<Rightarrow> ('m, action_result) desk_act" where
  "stamp_drive ad device =
     act_bind (act_catch (on_devices (get_device_serial (plain_devices ad) device)) (\<lambda>e. act_ret None)) (\<lambda>serial.
     act_bind (on_devices (stamp_installer_identity (plain_devices ad) (ad_guid ad) device
       (case serial of None \<Rightarrow> ''unknown'' | Some s \<Rightarrow> or_else s ''unknown''))) (\<lambda>r.
     act_ret (action_result (sr_ok r) (sr_detail r))))"

definition mounted_argv :: "string \<Rightarrow> string list" where
  "mounted_argv device = [''lsblk'', ''-nr'', ''-o'', ''MOUNTPOINT'', device]"

fun layout_refused :: "exn \<Rightarrow> string option" where
  "layout_refused (LayoutError msg) = Some (''refused: '' @ msg)"
| "layout_refused (PhysicalDeviceSafetyError msg) = Some (''refused: '' @ msg)"
| "layout_refused (DataProtectionError msg) = Some (''refused: '' @ msg)"
| "layout_refused _ = None"

definition lay_out_checked :: "'m admin \<Rightarrow> string \<Rightarrow> string \<Rightarrow> ('m, action_result) desk_act" where
  "lay_out_checked ad device serial =
     refusing layout_refused (on_devices (apply_layout (guard_devices ad)
         (\<lambda>path expected lo. validate_target_device (guard_devices ad) path expected lo JNull)
         device (JStr serial) (JInt MIN_DRIVE_BYTES) DEFAULT_PERSONAS)) (\<lambda>plan.
     refusing unsafe_device (validate_drive ad device (JStr serial) (JInt MIN_TARGET_SIZE_BYTES)) (\<lambda>t.
     act_bind (on_devices (stamp_installer_identity (stamp_devices ad) (ad_guid ad) device
       (case t_serial t of None \<Rightarrow> ''None'' | Some s \<Rightarrow> s))) (\<lambda>r.
     act_ret (action_result True (''laid out '' @ str_of_int (int (length plan)) @ '' Baseline volumes on '' @ device @ ''. '' @
       sr_detail r)))))"

definition lay_out_baseline_drive :: "'m admin \<Rightarrow> string \<Rightarrow> string \<Rightarrow> ('m, action_result) desk_act" where
  "lay_out_baseline_drive ad device serial =
     act_bind (if serial = [] then act_ret [] else allowed_target_serials) (\<lambda>permitted.
     if serial \<notin> set permitted then
       act_ret (action_result False ''refused: layout needs the exact confirmed managed drive serial'')
     else
       act_bind (on_commands (run (ad_os ad) (mounted_argv device) 30)) (\<lambda>p.
       let in_use = filter (\<lambda>l. l \<noteq> []) (map strip (splitlines (stdout p)))
       in if returncode p \<noteq> 0 then
            act_ret (action_result False ''refused: could not tell whether anything on the drive is mounted'')
          else if in_use \<noteq> [] then
            act_ret (action_result False (''refused: unmount first, these are mounted: '' @ join '', '' in_use))
          else lay_out_checked ad device serial))"

fun enroll_refused :: "exn \<Rightarrow> string option" where
  "enroll_refused (PhysicalDeviceSafetyError msg) = Some (''refused: '' @ msg)"
| "enroll_refused (ValueError msg) = Some (''refused: '' @ msg)"
| "enroll_refused _ = None"

definition enroll_validated :: "'m admin \<Rightarrow> target \<Rightarrow> ('m, action_result) desk_act" where
  "enroll_validated ad t =
     (let serial = (case t_serial t of None \<Rightarrow> [] | Some s \<Rightarrow> s)
      in act_bind allowed_target_serials (\<lambda>permitted.
         if serial \<in> set permitted then
           act_ret (action_result True (''drive with serial '' @ serial @ '' is already one Baseline may act on; nothing changed''))
         else
           act_seq (enroll serial (t_size t) [] (ad_enroll_time ad))
             (act_ret (action_result True (''enrolled drive with serial '' @ serial @ ''. Nothing was written to it; '' @
               ''formatting it still needs it to be empty or to carry an installer identity'')))))"

definition enroll_drive :: "'m admin \<Rightarrow> string \<Rightarrow> json \<Rightarrow> ('m, action_result) desk_act" where
  "enroll_drive ad device confirm_serial =
     refusing enroll_refused
       (act_bind (act_lift (check_serial confirm_serial)) (\<lambda>typed.
        validate_drive ad device (JStr typed) (JInt MIN_TARGET_SIZE_BYTES)))
       (enroll_validated ad)"

end
