(* ===== verification/DriveRequests.thy ===== *)
theory DriveRequests
  imports DriveAdmin
begin

text \<open>
  \<open>drive_admin.py\<close>, the requests: \<open>prepare\<close> turns what the page posted into the request a person confirms, against the
  drive that is really attached; \<open>perform_action\<close> runs it once the web gate and the human confirmation let it through.
\<close>

section \<open>The actions\<close>

record action_spec =
  sp_description :: string
  sp_requires_device :: bool

definition spec :: "string \<Rightarrow> action_spec" where
  "spec description = \<lparr>sp_description = description, sp_requires_device = True\<rparr>"

definition ACTIONS :: "(string \<times> action_spec) list" where
  "ACTIONS =
     [(''build_self_installer'', spec
         (''Build a real, self-contained Baseline installer (acquire + prepare-iso --fetch-from '' @
          ''http + self-contained ISO remaster) from your pre-populated Admin settings, and launch '' @
          ''the automated install against the selected drive for real. Does NOT confirm completion '' @
          ''by itself - a human or vision-capable agent must review the final screendump before '' @
          ''treating the drive as proven.'')),
      (''update_selected'', spec
         (''Check every volume on this Baseline drive for a newer compatible version of what it '' @
          ''caches, and apply the ones you select (or all of them). Only meaningful on a real '' @
          ''Baseline drive - shown only when one is selected.'')),
      (''repair'', spec
         (''Scan this drive's Baseline volumes for real problems (missing volumes on an '' @
          ''otherwise-real Baseline install) and create only what's actually missing - never '' @
          ''touches or reformats a volume that already exists. Shown per-drive; each failing check '' @
          ''is also listed individually on the drive itself.'')),
      (''mount_volume'', spec
         (''Activate this drive's real volume group and mount one of its existing logical volumes '' @
          ''(default: root) read-write at a real, predictable location under /mnt - for direct '' @
          ''inspection or editing, not a one-off script you'd have to remember to re-run by hand.'')),
      (''unmount_volume'', spec
         (''Unmount a logical volume this drive's mount_volume action mounted - the real '' @
          ''counterpart, not something you have to remember to type yourself.'')),
      (''stamp_installer_identity'', spec
         (''Give this drive an installer-generated identity so the installer may later format it. Only an empty drive, '' @
          ''or one whose every partition is a Baseline volume, can be adopted; it changes nothing but the disk identifier.'')),
      (''lay_out_baseline_drive'', spec
         (''ERASE this Baseline drive and lay out its volumes again (BASELINE, INSTALLER_CACHE, SESSION_TEMP, SUBSTRATE, '' @
          ''the USER and AppData volumes). Everything on it is lost. Refused for any drive that is not empty or already '' @
          ''Baseline's own, for a mounted drive, for a drive without an installer identity, and, if it holds Baseline data, '' @
          ''without a successful backup in the last 24 hours. Confirmed by a person every time.'')),
      (''enroll_drive'', spec
         (''Add this drive to the drives Baseline may act on. Type the drive's serial exactly as it reports it; it must '' @
          ''match. This writes nothing to the drive: formatting it later still needs it to be empty or to carry an '' @
          ''installer identity. Confirmed by a person every time.''))]"

definition describe_actions :: "(string \<times> string \<times> bool) list" where
  "describe_actions = map (\<lambda>(a, s). (a, sp_description s, sp_requires_device s)) ACTIONS"

definition DESTRUCTIVE_ACTIONS :: "string list" where
  "DESTRUCTIVE_ACTIONS = [''build_self_installer'', ''lay_out_baseline_drive'']"

section \<open>Preparing a request\<close>

text \<open>Any exception counts as no proof of a backup.\<close>
definition backup_is_fresh :: "'m admin \<Rightarrow> ('m, bool) desk_act" where
  "backup_is_fresh ad =
     act_catch (on_commands (any_recent (ad_real ad) all_volume_targets (ad_backup_time ad) DEFAULT_MAX_BACKUP_AGE_S DEFAULT_MANIFESTS_DIR))
       (\<lambda>e. act_ret False)"

definition text_param :: "params \<Rightarrow> string \<Rightarrow> string" where
  "text_param ps name = (case map_of ps name of Some (JStr s) \<Rightarrow> s | _ \<Rightarrow> [])"

definition serial_of :: "target \<Rightarrow> string" where
  "serial_of t = (case t_serial t of None \<Rightarrow> [] | Some s \<Rightarrow> s)"

text \<open>An exception of the kinds in \<open>f\<close> becomes the \<open>ValueError\<close> it gives.\<close>
definition as_value_error :: "(exn \<Rightarrow> string option) \<Rightarrow> ('m, 'a) desk_act \<Rightarrow> ('m, 'a) desk_act" where
  "as_value_error f a = act_catch a (\<lambda>e. case f e of None \<Rightarrow> act_raise e | Some msg \<Rightarrow> act_raise (ValueError msg))"

definition not_allowed :: "string \<Rightarrow> exn \<Rightarrow> string option" where
  "not_allowed device e = (case e of
     PhysicalDeviceSafetyError _ \<Rightarrow> Some (''refused: Baseline acts only on the SK hynix drives it is set up with, '' @
       ''and '' @ device @ '' is not one of the allowed drives'')
   | _ \<Rightarrow> None)"

definition prepare_enrollment :: "'m admin \<Rightarrow> params \<Rightarrow> ('m, params \<times> string) desk_act" where
  "prepare_enrollment ad ps =
     (let device = text_param ps ''device_path''; typed = text_param ps ''confirm_serial''
      in if typed = [] then
           act_raise (ValueError (''refused: '' @ device @ '' is not one of the allowed drives until it is '' @
             ''enrolled, and enrolling it needs its serial typed''))
         else
           act_bind (as_value_error unsafe_device (validate_drive ad device (JStr typed) (JInt MIN_TARGET_SIZE_BYTES))) (\<lambda>t.
           act_ret (AList.update ''device_path'' (JStr (t_path t)) ps, serial_of t)))"

definition check_destructive :: "'m admin \<Rightarrow> string \<Rightarrow> target \<Rightarrow> ('m, unit) desk_act" where
  "check_destructive ad action t =
     act_seq (as_value_error protected_data
       (act_seq (act_when (action = ''lay_out_baseline_drive'') (on_devices (require_baseline_drive (guard_devices ad) (t_path t))))
         (on_devices (require_may_format (guard_devices ad) (t_path t))))) (
     act_bind (on_devices (read_drive_state (guard_devices ad) (t_path t))) (\<lambda>s.
     act_bind (if ds_has_data s then backup_is_fresh ad else act_ret True) (\<lambda>fine.
     if fine then act_ret ()
     else act_raise (ValueError (''refused: this drive holds Baseline's data and there is no proof of a successful '' @
       ''backup in the last 24 hours. Run a backup first'')))))"

definition prepare_device :: "'m admin \<Rightarrow> string \<Rightarrow> params \<Rightarrow> ('m, params \<times> string) desk_act" where
  "prepare_device ad action ps =
     (let device = text_param ps ''device_path''
      in act_bind (as_value_error (not_allowed device) (resolve_target ad device)) (\<lambda>t.
         act_seq (act_when (action \<in> set DESTRUCTIVE_ACTIONS) (check_destructive ad action t))
           (act_ret (AList.update ''device_path'' (JStr (t_path t)) ps, serial_of t))))"

definition prepare_checked :: "'m admin \<Rightarrow> string \<Rightarrow> params \<Rightarrow> ('m, params \<times> string) desk_act" where
  "prepare_checked ad action ps =
     (if action = ''update_selected'' then act_ret (ps, ''volumes'')
      else if text_param ps ''device_path'' = [] then
        act_raise (ValueError (action @ '' needs a drive and none was given''))
      else if action = ''enroll_drive'' then prepare_enrollment ad ps
      else prepare_device ad action ps)"

definition prepare :: "'m admin \<Rightarrow> string \<Rightarrow> params \<Rightarrow> ('m, params \<times> string) desk_act" where
  "prepare ad action ps =
     (if map_of ACTIONS action = None then act_raise (ValueError (''unknown action '' @ py_repr action))
      else act_bind (as_value_error bad_parameter (act_lift (validate_action_params action ps))) (prepare_checked ad action))"

record confirmation_request =
  cf_action :: string
  cf_params :: params
  cf_serial :: string
  cf_summary :: string

definition prepare_action :: "'m admin \<Rightarrow> string \<Rightarrow> params \<Rightarrow> ('m, confirmation_request) desk_act" where
  "prepare_action ad action ps =
     act_bind (prepare ad action ps) (\<lambda>(q, serial).
     act_ret \<lparr>cf_action = action, cf_params = q, cf_serial = serial,
       cf_summary = sp_description (the (map_of ACTIONS action)) @ [CHR 0x0A] @ ''This will run on '' @
         (if map_of q ''device_path'' \<noteq> None
          then ''drive '' @ text_param q ''device_path'' @ '' (serial ending '' @ last_chars 6 serial @ '')''
          else ''Baseline's volumes'') @ ''.''\<rparr>)"

section \<open>Running it\<close>

definition strings_of :: "json \<Rightarrow> string list" where
  "strings_of v = (case v of JList xs \<Rightarrow> map (\<lambda>x. case x of JStr s \<Rightarrow> s | _ \<Rightarrow> []) xs | _ \<Rightarrow> [])"

text \<open>
  \<open>spec.run\<close> with the cleaned parameters. \<open>progress\<close>: a progress callback was given and is passed on as
  \<open>on_progress\<close>, which \<open>enroll_drive\<close> does not take. The callback itself is not modelled.
\<close>

definition run_action :: "'m admin \<Rightarrow> bool \<Rightarrow> string \<Rightarrow> params \<Rightarrow> string \<Rightarrow> ('m, action_result) desk_act" where
  "run_action ad progress action q serial =
     (let device = text_param q ''device_path'';
          lv = (case map_of q ''lv_name'' of None \<Rightarrow> JStr ''root'' | Some v \<Rightarrow> v)
      in if action = ''update_selected'' then
           act_ret (update_selected (case map_of q ''selected'' of None \<Rightarrow> [] | Some v \<Rightarrow> strings_of v))
         else if action = ''repair'' then repair_scan_and_fix ad device
         else if action = ''mount_volume'' then mount_logical_volume ad device lv (map_of q ''mountpoint'')
         else if action = ''unmount_volume'' then unmount_logical_volume ad device lv (map_of q ''mountpoint'')
         else if action = ''stamp_installer_identity'' then stamp_drive ad device
         else if action = ''lay_out_baseline_drive'' then lay_out_baseline_drive ad device serial
         else if action = ''enroll_drive'' then
           (if progress then
              act_raise (TypeError (''enroll_drive() got an unexpected keyword argument '' @ py_repr ''on_progress''))
            else enroll_drive ad device (case map_of q ''confirm_serial'' of None \<Rightarrow> JNull | Some v \<Rightarrow> v))
         else
           act_bind (call_os (SelfInstall device) (on_machine (ad_build ad device q))) (\<lambda>(ok, what).
           act_ret (action_result ok what)))"

definition refusal_text :: "string \<Rightarrow> string" where
  "refusal_text msg =
     (if starts_with msg ''refused'' \<or> starts_with msg ''unknown action'' \<or> contains msg ''needs a drive'' then msg
      else ''refused: '' @ msg)"

fun not_prepared :: "exn \<Rightarrow> string option" where
  "not_prepared (ValueError msg) = Some (refusal_text msg)"
| "not_prepared _ = None"

fun not_from_web :: "exn \<Rightarrow> string option" where
  "not_from_web (NotFromWebApp msg) = Some (''refused: '' @ msg)"
| "not_from_web _ = None"

fun not_confirmed :: "exn \<Rightarrow> string option" where
  "not_confirmed (ConfirmationRequired msg) = Some (''refused: this action needs a human confirmation ('' @ msg @ '')'')"
| "not_confirmed _ = None"

definition operation_params :: "string \<Rightarrow> params \<Rightarrow> params" where
  "operation_params action q = [(''action_id'', JStr action), (''params'', JObj q)]"

definition web_proof :: "'m admin \<Rightarrow> web_origin option \<Rightarrow> string \<Rightarrow> params \<Rightarrow> ('m, unit) desk_act" where
  "web_proof ad origin action q =
     on_web (require_origin (ad_wenv ad) (ad_gate ad) (ad_gate_time ad) origin ''drive_action'' (operation_params action q))"

definition human_proof :: "'m admin \<Rightarrow> authorization option \<Rightarrow> string \<Rightarrow> params \<Rightarrow> string \<Rightarrow> ('m, unit) desk_act" where
  "human_proof ad auth action q serial =
     on_stores (require (ad_henv ad) (ad_hitl_time ad) auth action q serial (ad_own ad))"

definition perform_action ::
    "'m admin \<Rightarrow> bool \<Rightarrow> web_origin option \<Rightarrow> authorization option \<Rightarrow> string \<Rightarrow> params \<Rightarrow> ('m, action_result) desk_act" where
  "perform_action ad progress origin auth action ps =
     refusing not_prepared (prepare ad action ps) (\<lambda>(q, serial).
     refusing not_from_web (web_proof ad origin action q) (\<lambda>_.
     refusing not_confirmed (human_proof ad auth action q serial) (\<lambda>_.
     run_action ad progress action q serial)))"

end
