(* ===== verification/DriveRequestSafety.thy ===== *)
theory DriveRequestSafety
  imports DriveRequests
begin

text \<open>
  What the drive actions cannot do. Preparing a request only looks; nothing else happens before the web gate and the
  human confirmation passed for exactly the prepared request; a prepared drive is an allowed one; enrolling writes to
  no drive; an inspected volume is mounted under \<open>/mnt\<close> and nowhere else.
\<close>

section \<open>Calls that only look\<close>

fun reads_only :: "call \<Rightarrow> bool" where
  "reads_only (CRead p) = True"
| "reads_only (CExists p) = True"
| "reads_only (CListdir p) = True"
| "reads_only CNow = True"
| "reads_only _ = False"

text \<open>A query of the devices or a file that is read; every command of the privileged runner counts as an act.\<close>

fun only_looks :: "desk_call \<Rightarrow> bool" where
  "only_looks (Dev c) = (\<not> writes c)"
| "only_looks (Sys c) = reads_only c"
| "only_looks (Enrolled s) = False"
| "only_looks (SelfInstall d) = False"

lemma emits_on_devices:
  assumes "emits P a" "\<And>c. P c \<Longrightarrow> R (Dev c)"
  shows "emits R (on_devices a)"
proof (rule emitsI)
  fix h :: "('a desk, desk_call) host"
  obtain r g where g: "a \<lparr>machine = machine h, calls = []\<rparr> = (r, g)" by fastforce
  obtain new where "calls g = new" "list_all P new" using emits_resultD [OF assms(1) g] by auto
  then have "list_all R (map Dev (calls g))" using assms(2) by (auto simp: list_all_iff)
  then show "\<exists>new. calls (snd (on_devices a h)) = calls h @ new \<and> list_all R new"
    by (simp add: on_devices_def g)
qed

lemma emits_on_commands:
  assumes "emits P a" "\<And>c. P c \<Longrightarrow> R (Sys c)"
  shows "emits R (on_commands a)"
proof (rule emitsI)
  fix h :: "('a desk, desk_call) host"
  obtain r g where g: "a \<lparr>machine = desk_machine (machine h), calls = []\<rparr> = (r, g)" by fastforce
  obtain new where "calls g = new" "list_all P new" using emits_resultD [OF assms(1) g] by auto
  then have "list_all R (map Sys (calls g))" using assms(2) by (auto simp: list_all_iff)
  then show "\<exists>new. calls (snd (on_commands a h)) = calls h @ new \<and> list_all R new"
    by (simp add: on_commands_def g)
qed

lemma emits_parts [emits_intros]: "emits R (on_settings s)" "emits R (on_stores t)" "emits R (on_web w)"
  unfolding on_settings_def on_stores_def on_web_def
  by (rule emitsI, simp add: settings_part.rest_on_part stores_part.rest_on_part web_part.rest_on_part)+

lemma looks_on_devices: "emits (\<lambda>c. \<not> writes c) a \<Longrightarrow> emits only_looks (on_devices a)"
  by (rule emits_on_devices) simp_all

lemma looks_validate [emits_intros]: "emits only_looks (validate_drive ad path expected lo)"
  unfolding validate_drive_def by (rule looks_on_devices [OF validate_looks])

lemma emits_enrolled [emits_intros]: "emits P enrolled_serials"
  unfolding enrolled_serials_def by (intro emits_intros)

lemma emits_permitted [emits_intros]: "emits P allowed_target_serials"
  unfolding allowed_target_serials_def by (intro emits_intros)

lemma looks_resolve [emits_intros]: "emits only_looks (resolve_target ad path)"
  unfolding resolve_target_def by (intro emits_intros)

lemma looks_guards [emits_intros]:
  "emits only_looks (on_devices (require_may_format dv path))"
  "emits only_looks (on_devices (require_baseline_drive dv path))"
  "emits only_looks (on_devices (read_drive_state dv path))"
  by (intro looks_on_devices looks_require looks_guard)+

lemma reads_any_recent: "emits reads_only (any_recent os ts now age dir)"
proof (induction ts)
  case Nil
  show ?case unfolding any_recent.simps by (rule emits_ret)
next
  case (Cons t ts)
  then show ?case
    unfolding any_recent.simps has_recent_successful_backup_def read_backup_manifest_def Let_def
    by (intro emits_intros) simp_all
qed

lemma looks_fresh [emits_intros]: "emits only_looks (backup_is_fresh ad)"
  unfolding backup_is_fresh_def by (intro emits_intros emits_on_commands [OF reads_any_recent]) simp

lemma emits_as_value_error [emits_intros]: "emits P a \<Longrightarrow> emits P (as_value_error f a)"
  unfolding as_value_error_def by (intro emits_intros)

lemma looks_prepare: "emits only_looks (prepare ad action ps)"
  unfolding prepare_def prepare_checked_def prepare_enrollment_def prepare_device_def check_destructive_def Let_def
  by (intro emits_intros)

section \<open>Refusals\<close>

lemma refusing_Inr: "a h = (Inr x, h1) \<Longrightarrow> refusing why a f h = f x h1"
  by (simp add: refusing_def act_bind_def act_catch_eq)

lemma refusing_Inl:
  "a h = (Inl e, h1) \<Longrightarrow> snd (refusing why a f h) = h1"
  by (simp add: refusing_def act_bind_def act_catch_eq split: option.split)

lemma refusing_cases:
  obtains (pass) x h1 where "a h = (Inr x, h1)" "refusing why a f h = f x h1"
    | (refuse) e h1 where "a h = (Inl e, h1)" "snd (refusing why a f h) = h1"
proof (cases "a h")
  case (Pair r h1)
  show ?thesis
  proof (cases r)
    case (Inl e)
    then show ?thesis using refuse [of e h1] refusing_Inl [of a h e h1 why f] Pair by blast
  next
    case (Inr x)
    then show ?thesis using pass [of x h1] refusing_Inr [of a h x h1 why f] Pair by blast
  qed
qed

text \<open>A step that only looks and may refuse: its calls are added and the rest follows.\<close>

lemma refusing_looks:
  assumes looks: "emits only_looks a"
    and after: "\<And>x h1. a h = (Inr x, h1) \<Longrightarrow>
      \<exists>new. calls (snd (f x h1)) = calls h1 @ new \<and> (list_all only_looks new \<or> Q)"
  shows "\<exists>new. calls (snd (refusing why a f h)) = calls h @ new \<and> (list_all only_looks new \<or> Q)"
proof (cases rule: refusing_cases [of a h why f])
  case (pass x h1)
  obtain n1 where n1: "calls h1 = calls h @ n1" "list_all only_looks n1"
    using emits_resultD [OF looks pass(1)] by blast
  obtain n2 where n2: "calls (snd (f x h1)) = calls h1 @ n2" "list_all only_looks n2 \<or> Q"
    using after [OF pass(1)] by blast
  show ?thesis using n1 n2 pass(2) by (intro exI [of _ "n1 @ n2"]) auto
next
  case (refuse e h1)
  then show ?thesis using emits_resultD [OF looks refuse(1)] by auto
qed

text \<open>Whatever runs, calls are only appended.\<close>

lemma emits_any [emits_intros]: "emits (\<lambda>c. True) (on_devices a)" "emits (\<lambda>c. True) (on_commands b)"
  by (rule emitsI, simp add: on_devices_def on_commands_def case_prod_unfold list_all_iff)+

lemma emits_refusing [emits_intros]: "emits P a \<Longrightarrow> (\<And>x. emits P (f x)) \<Longrightarrow> emits P (refusing why a f)"
  unfolding refusing_def by (intro emits_intros)

section \<open>The two proofs\<close>

lemma web_proof_passed:
  assumes "web_proof ad origin action q h = (Inr (), h')"
  shows "\<exists>key y. ad_gate ad = Some key \<and> origin = Some y
    \<and> wo_mac y = gate_mac (ad_wenv ad) key (origin_parts (wo_kind y) (wo_op y) (wo_digest y) (wo_expires y))
    \<and> ad_gate_time ad < wo_expires y \<and> wo_op y = JStr ''drive_action''
    \<and> wo_digest y = digest (ad_wenv ad) (JStr ''drive_action'') (JObj (operation_params action q))"
proof -
  have "fst (require_origin (ad_wenv ad) (ad_gate ad) (ad_gate_time ad) origin ''drive_action'' (operation_params action q)
      (desk_web (machine h))) = Inr ()"
    using assms web_part.result_on_part [of _ h] by (metis web_proof_def on_web_def fst_conv)
  then show ?thesis by (auto simp: require_origin_def check_ok_iff split: option.splits)
qed

lemma use_authorization_passed:
  assumes "fst (use_authorization env now a action ps serial s) = Inr ()"
  shows "map_of (live s) (auth_nonce a) = Some a \<and> now < auth_expires a \<and> valid_for env a action ps serial"
  using assms by (auto simp: use_authorization_def act_bind_def act_seq_fst_Inr split: if_splits)

lemma human_proof_passed:
  assumes "human_proof ad auth action q serial h = (Inr (), h')" and "action \<in> set CONFIRMED_ACTIONS"
  shows "\<exists>a. auth = Some a \<and> map_of (live (desk_stores (machine h) (auth_store a))) (auth_nonce a) = Some a
    \<and> ad_hitl_time ad < auth_expires a \<and> valid_for (ad_henv ad) a action q serial"
proof -
  obtain s where s: "require (ad_henv ad) (ad_hitl_time ad) auth action q serial (ad_own ad) (desk_stores (machine h)) = (Inr (), s)"
    using assms(1) by (auto simp: human_proof_def on_stores_def on_part_def split: prod.splits)
  obtain a where a: "auth = Some a" using s assms(2) by (cases auth) (auto simp: require_def)
  have "fst (use_authorization (ad_henv ad) (ad_hitl_time ad) a action q serial (desk_stores (machine h) (auth_store a))) = Inr ()"
    using s assms(2) a by (auto simp: require_def on_store_def split: if_splits prod.splits)
  from use_authorization_passed [OF this] show ?thesis using a by blast
qed

lemma actions_are_confirmed: "map_of ACTIONS action \<noteq> None \<Longrightarrow> action \<in> set CONFIRMED_ACTIONS"
proof -
  assume "map_of ACTIONS action \<noteq> None"
  then have "action \<in> fst ` set ACTIONS" by (simp add: map_of_eq_None_iff)
  moreover have "fst ` set ACTIONS \<subseteq> set CONFIRMED_ACTIONS" by (simp add: ACTIONS_def CONFIRMED_ACTIONS_def VERBS_def)
  ultimately show ?thesis by blast
qed

lemma prepared_known: "prepare ad action ps h = (Inr r, h') \<Longrightarrow> action \<in> set CONFIRMED_ACTIONS"
  by (cases "map_of ACTIONS action = None") (simp_all add: prepare_def actions_are_confirmed)

text \<open>The page asked for exactly this request, and a person confirmed exactly it.\<close>

definition asked_and_confirmed ::
    "'m admin \<Rightarrow> web_origin option \<Rightarrow> authorization option \<Rightarrow> string \<Rightarrow> params \<Rightarrow> string \<Rightarrow> (nat \<Rightarrow> store) \<Rightarrow> bool" where
  "asked_and_confirmed ad origin auth action q serial stores \<longleftrightarrow>
     (\<exists>key y. ad_gate ad = Some key \<and> origin = Some y
        \<and> wo_mac y = gate_mac (ad_wenv ad) key (origin_parts (wo_kind y) (wo_op y) (wo_digest y) (wo_expires y))
        \<and> ad_gate_time ad < wo_expires y \<and> wo_op y = JStr ''drive_action''
        \<and> wo_digest y = digest (ad_wenv ad) (JStr ''drive_action'') (JObj (operation_params action q)))
     \<and> (\<exists>a. auth = Some a \<and> map_of (live (stores (auth_store a))) (auth_nonce a) = Some a
        \<and> ad_hitl_time ad < auth_expires a \<and> valid_for (ad_henv ad) a action q serial)"

lemma parts_kept:
  "desk_stores (machine (snd (on_web w h))) = desk_stores (machine h)"
  by (simp add: on_web_def on_part_def case_prod_unfold)

lemma emits_run_action: "emits (\<lambda>c. True) (run_action ad progress action q serial)"
proof -
  have "emits (\<lambda>c. True) (find_vg_for_device ad d)" for d
    unfolding find_vg_for_device_def by (intro emits_intros)
  moreover have "emits (\<lambda>c. True) (validate_drive ad d e l)" "emits (\<lambda>c. True) (enroll s n m t)" for d e l s n m t
    unfolding validate_drive_def enroll_def by (intro emits_intros emits_call; simp)+
  ultimately show ?thesis
    unfolding run_action_def repair_scan_and_fix_def mount_logical_volume_def unmount_logical_volume_def mount_at_def unmount_at_def stamp_drive_def
      lay_out_baseline_drive_def lay_out_checked_def enroll_drive_def enroll_validated_def Let_def
    by (intro emits_intros emits_call) simp_all
qed

text \<open>
  C1. No drive action without both proofs. Whatever is posted and whatever the machine does, and however the request
  ends: either every call that was made only looked, and not one command of the privileged runner was run, or the
  request had been prepared, and for exactly the prepared request, its cleaned parameters and the serial of the drive
  that was found, the web application had signed an origin that was still valid, and a live authorization that a
  person had given was at hand.
\<close>
theorem no_drive_action_without_proofs:
  "\<exists>new. calls (snd (perform_action ad progress origin auth action ps h)) = calls h @ new
     \<and> (list_all only_looks new
        \<or> (\<exists>q serial h'. prepare ad action ps h = (Inr (q, serial), h')
             \<and> asked_and_confirmed ad origin auth action q serial (desk_stores (machine h'))))"
    (is "\<exists>new. _ = _ \<and> (_ \<or> ?Q)")
  unfolding perform_action_def
proof (rule refusing_looks [OF looks_prepare])
  fix r h1
  assume p0: "prepare ad action ps h = (Inr r, h1)"
  obtain q serial where r: "r = (q, serial)" by fastforce
  note p = p0 [unfolded r]
  let ?run = "\<lambda>_::unit. run_action ad progress action q serial"
  let ?Q = "\<exists>q serial h'. prepare ad action ps h = (Inr (q, serial), h')
     \<and> asked_and_confirmed ad origin auth action q serial (desk_stores (machine h'))"
  have "\<exists>new. calls (snd (refusing not_from_web (web_proof ad origin action q) (\<lambda>_.
      refusing not_confirmed (human_proof ad auth action q serial) ?run) h1)) = calls h1 @ new \<and> (list_all only_looks new \<or> ?Q)"
  proof (intro refusing_looks)
    fix u v h2 h3
    assume w: "web_proof ad origin action q h1 = (Inr u, h2)"
      and m: "human_proof ad auth action q serial h2 = (Inr v, h3)"
    have "desk_stores (machine h2) = desk_stores (machine h1)"
      using parts_kept [of _ h1] w unfolding web_proof_def by (metis snd_conv)
    then have ?Q
      using p web_proof_passed [of ad origin action q h1 h2] w prepared_known [OF p]
        human_proof_passed [of ad auth action q serial h2 h3] m by (auto simp: asked_and_confirmed_def)
    moreover have "\<exists>new. calls (snd (?run v h3)) = calls h3 @ new"
      using emitsD [OF emits_run_action] by blast
    ultimately show "\<exists>new. calls (snd (?run v h3)) = calls h3 @ new \<and> (list_all only_looks new \<or> ?Q)" by blast
  qed (simp_all add: web_proof_def human_proof_def emits_parts)
  then show "\<exists>new. calls (snd ((case r of (q, serial) \<Rightarrow> refusing not_from_web (web_proof ad origin action q) (\<lambda>_.
      refusing not_confirmed (human_proof ad auth action q serial) (\<lambda>_. run_action ad progress action q serial))) h1))
      = calls h1 @ new \<and> (list_all only_looks new \<or> ?Q)"
    unfolding r prod.case .
qed

section \<open>A machine that only answers\<close>

text \<open>The serials that are let through, as the registry has them.\<close>

definition permitted_serials :: "settings \<Rightarrow> string list" where
  "permitted_serials s = remdups (ALLOWED_TARGET_SERIALS @
     (case fst (list_entries_read_only ENROLLED_TYPE GLOBAL s) of Inl e \<Rightarrow> [] | Inr es \<Rightarrow> map fst es))"

lemma list_read_only_keeps: "snd (list_entries_read_only t scope s) = s"
  by (auto simp: list_entries_read_only_def act_bind_def act_get_def split: sum.split option.split)

lemma allowed_target_serials_eq:
  fixes h :: "('m desk, desk_call) host"
  shows "allowed_target_serials h = (Inr (permitted_serials (desk_settings (machine h))), h)"
proof -
  obtain r where r: "list_entries_read_only ENROLLED_TYPE GLOBAL (desk_settings (machine h)) = (r, desk_settings (machine h))"
    using list_read_only_keeps [of ENROLLED_TYPE GLOBAL "desk_settings (machine h)"] by (metis prod.collapse)
  have "on_settings (list_entries_read_only ENROLLED_TYPE GLOBAL) h = (r, h)"
    by (simp add: on_settings_def on_part_def r)
  then have "enrolled_serials h = (Inr (case r of Inl e \<Rightarrow> [] | Inr es \<Rightarrow> map fst es), h)"
    by (cases r) (simp_all add: enrolled_serials_def act_catch_eq act_bind_def)
  then show ?thesis by (simp add: allowed_target_serials_def permitted_serials_def act_bind_def r)
qed

lemma on_machine_same: "snd (f (desk_machine w)) = desk_machine w \<Longrightarrow> snd (on_machine f w) = w"
  by (simp add: on_machine_def case_prod_unfold)

lemma guard_steady: "steady (ad_pds ad) (desk_machine w) \<Longrightarrow> steady (guard_devices ad) w"
  by (auto simp: steady_def guard_devices_def desk_devices_def on_machine_same)

lemma on_devices_answer:
  assumes "looks_at (machine h) a"
  shows "fst (on_devices a h) = answer a (machine h)" "machine (snd (on_devices a h)) = machine h"
  using looks_atD [OF assms, of "\<lparr>machine = machine h, calls = []\<rparr>"]
  by (simp_all add: on_devices_def case_prod_unfold answer_def)

lemma on_devices_Inr:
  assumes "looks_at (machine h) a" "on_devices a h = (Inr x, h')"
  shows "answer a (machine h) = Inr x \<and> machine h' = machine h"
  using on_devices_answer [OF assms(1)] assms(2) by simp

lemma looks_at_validate: "steady dv m \<Longrightarrow> looks_at m (validate_target_device dv path expected lo hi)"
  unfolding validate_target_device_def unsafe_def
  by (intro looks_at_intros steady_calls steady_serial steady_check_boot)

lemma as_value_error_Inr: "as_value_error f a h = (Inr x, h') \<longleftrightarrow> a h = (Inr x, h')"
  by (auto simp: as_value_error_def act_catch_eq split: prod.split sum.split option.split)

lemma validate_drive_Inr:
  assumes s: "steady (ad_pds ad) (desk_machine (machine h))" and v: "validate_drive ad path expected lo h = (Inr t, h')"
  shows "machine h' = machine h \<and> answer (validate_target_device (guard_devices ad) path expected lo JNull) (machine h) = Inr t"
  using on_devices_Inr [OF looks_at_validate [OF guard_steady [OF s]] v [unfolded validate_drive_def]] by simp

text \<open>The drive at \<open>path\<close> is the real block device \<open>p\<close> with this serial, not the boot drive, and large enough.\<close>

definition real_drive :: "'m desk devices \<Rightarrow> 'm desk \<Rightarrow> string \<Rightarrow> string \<Rightarrow> string \<Rightarrow> bool" where
  "real_drive dv w path p serial \<longleftrightarrow>
     answer (d_islink dv path) w = Inr False \<and> answer (d_realpath dv path) w = Inr p
     \<and> answer (d_is_block dv p) w = Inr True \<and> answer (get_device_serial dv p) w = Inr (Some serial)
     \<and> (\<exists>b. answer (get_boot_device_serial dv) w = Inr (Some b) \<and> b \<noteq> serial)
     \<and> (\<exists>n. answer (get_device_size_bytes dv p) w = Inr n \<and> MIN_TARGET_SIZE_BYTES \<le> n)"

lemma validated_real_drive:
  assumes s: "steady dv w" and a: "answer (validate_target_device dv path (JList (map JStr serials)) (JInt MIN_TARGET_SIZE_BYTES) JNull) w = Inr t"
  shows "\<exists>serial. t_serial t = Some serial \<and> serial \<in> set serials \<and> real_drive dv w path (t_path t) serial"
proof -
  note v = validated_answer [OF s a]
  note b = check_boot_answer [OF s v [THEN conjunct2, THEN conjunct2, THEN conjunct2, THEN conjunct2, THEN conjunct2]]
  note z = check_size_answer [OF s b [THEN conjunct2]]
  have "serial_value (t_serial t) \<in> set (map JStr serials)" using v by (auto simp: allowed_serials_def)
  then obtain serial where "t_serial t = Some serial" "serial \<in> set serials"
    by (cases "t_serial t") (auto simp: serial_value_def)
  then show ?thesis using v b z by (auto simp: real_drive_def size_below_def)
qed

lemma set_sort_strs: "set (sort_strs xs) = set xs"
  by (simp add: sort_strs_def image_image)

lemma resolve_target_Inr:
  assumes s: "steady (ad_pds ad) (desk_machine (machine h))" and r: "resolve_target ad path h = (Inr t, h')"
  shows "machine h' = machine h \<and> (\<exists>serial. t_serial t = Some serial
    \<and> serial \<in> set (permitted_serials (desk_settings (machine h)))
    \<and> real_drive (guard_devices ad) (machine h) path (t_path t) serial)"
proof -
  have "validate_drive ad path (JList (map JStr (sort_strs (permitted_serials (desk_settings (machine h))))))
      (JInt MIN_TARGET_SIZE_BYTES) h = (Inr t, h')"
    using r by (simp add: resolve_target_def act_bind_Inr [OF allowed_target_serials_eq])
  note v = validate_drive_Inr [OF s this]
  show ?thesis
    using v validated_real_drive [OF guard_steady [OF s] v [THEN conjunct2]] by (auto simp: set_sort_strs)
qed

lemma prepare_device_Inr:
  assumes "prepare_device ad action ps h = (Inr (q, serial), h')"
  shows "\<exists>t h1. resolve_target ad (text_param ps ''device_path'') h = (Inr t, h1)
    \<and> q = AList.update ''device_path'' (JStr (t_path t)) ps \<and> serial = serial_of t
    \<and> (action \<in> set DESTRUCTIVE_ACTIONS \<longrightarrow> (\<exists>h2. check_destructive ad action t h1 = (Inr (), h2)))"
  using assms unfolding prepare_device_def Let_def act_bind_eq_Inr as_value_error_Inr act_seq_def
  by (auto simp: act_when_def split: if_splits)

lemma prepare_drive_action:
  assumes "prepare ad action ps h = (Inr (q, serial), h')" "action \<notin> {''update_selected'', ''enroll_drive''}"
  shows "prepare_device ad action ps h = (Inr (q, serial), h')"
proof -
  have "as_value_error bad_parameter (act_lift (validate_action_params action ps)) h = (Inr x, h1) \<Longrightarrow> x = ps \<and> h1 = h" for x h1
    by (auto simp: as_value_error_Inr validate_action_params_def act_lift_def Let_def split: sum.splits option.splits if_splits)
  then show ?thesis
    using assms by (auto simp: prepare_def act_bind_eq_Inr prepare_checked_def split: if_splits)
qed

text \<open>
  A desk with the boot drive \<open>/dev/sda\<close> and one of the SK hynix drives as \<open>/dev/sdb\<close>, which holds one Baseline volume and
  carries a disk GUID that the registry knows; a volume was backed up ten minutes ago.
\<close>

definition lab_guid :: string where "lab_guid = ''01234567-89ab-cdef-0123-456789abcdef''"

definition admin_lab_run :: "string list \<Rightarrow> string" where
  "admin_lab_run argv =
     (if argv = udevadm_argv ''/dev/sdb'' then ''ID_SERIAL_SHORT=FD01N6557110C271B'' @ [CHR 0x0A]
      else if argv = lsblk_argv ''/dev/sdb'' then
        ''sdb disk  '' @ lab_guid @ '' '' @ [CHR 0x0A] @ ''sdb1 part ext4 '' @ lab_guid @ '' BASELINE'' @ [CHR 0x0A]
      else lab_dv_run argv)"

definition admin_lab_devices :: "lab devices" where
  "admin_lab_devices = \<lparr>dv_run = (\<lambda>argv m. (Inr (admin_lab_run argv), m)),
     dv_islink = (\<lambda>p m. (Inr False, m)), dv_realpath = (\<lambda>p m. (Inr p, m)),
     dv_is_block = (\<lambda>p m. (Inr (starts_with p ''/dev/sd''), m)),
     dv_size_file = (\<lambda>p m. (Inr (''838860800'' @ [CHR 0x0A]), m)),
     dv_read = (\<lambda>argv m. (Inr (0, admin_lab_run argv), m)), dv_list_guids = (\<lambda>m. (Inr [], m)),
     dv_put_guid = (\<lambda>g s m. (Inr (), m)), dv_cmd = (\<lambda>argv m. (Inr (0, [], []), m))\<rparr>"

definition lab_admin :: "lab admin" where
  "lab_admin = \<lparr>ad_os = lab_os, ad_patience = 10, ad_pds = admin_lab_devices, ad_plain = admin_lab_devices, ad_real = lab_os,
     ad_build = (\<lambda>d q m. (Inr (True, []), m)), ad_guid = lab_guid, ad_henv = lab_henv, ad_wenv = lab_wenv, ad_gate = None,
     ad_own = None, ad_gate_time = 0, ad_hitl_time = 0, ad_backup_time = 100600, ad_enroll_time = 0\<rparr>"

definition lab_registry :: settings where
  "lab_registry = \<lparr>databases = [(GLOBAL_DB_PATH, new_database\<lparr>user_version := 1, has_tables := True,
       db_entries := [((GUIDS_TYPE, lab_guid), \<lparr>row_attributes = ''{}'', row_value = None, row_scope = GLOBAL\<rparr>)]\<rparr>)],
     unreachable = [], migration_table = [], setting_defs = []\<rparr>"

definition lab_desk :: "lab desk" where
  "lab_desk = \<lparr>desk_machine = empty_lab\<lparr>lab_files := [(manifest_path_for ''/mnt/BASELINE'' DEFAULT_MANIFESTS_DIR,
       json_dumps default_style (manifest_json ''/mnt/BASELINE'' 100000))]\<rparr>,
     desk_settings = lab_registry, desk_stores = new_store, desk_web = empty_web\<rparr>"

definition lab_host :: "(lab desk, desk_call) host" where
  "lab_host = \<lparr>machine = lab_desk, calls = []\<rparr>"

definition lab_request :: params where "lab_request = [(''device_path'', JStr ''/dev/sdb'')]"

lemma lab_admin_steady: "steady (ad_pds lab_admin) m" "reads_steady (ad_real lab_admin)"
  by (simp_all add: steady_def lab_admin_def admin_lab_devices_def lab_reads_steady)

lemma lab_prepared:
  "fst (prepare lab_admin ''repair'' lab_request lab_host) = Inr (lab_request, ''FD01N6557110C271B'')"
  by code_simp

text \<open>
  C5. A prepared drive is an allowed one. On a machine whose devices only answer: when a request for an action on a
  drive is prepared, the path a person is asked to confirm is the one the posted path resolves to, a block device and
  no symbolic link, of at least 50 GB; the serial is the one the device reports, it belongs to a drive Baseline is set
  up with or one that was enrolled, and the boot drive is known and has another; and no other parameter was changed.
\<close>
theorem prepared_drive_is_allowed:
  assumes "steady (ad_pds ad) (desk_machine (machine h))"
    and "action \<notin> {''update_selected'', ''enroll_drive''}"
    and "prepare ad action ps h = (Inr (q, serial), h')"
  shows "serial \<in> set (permitted_serials (desk_settings (machine h)))
    \<and> (\<exists>p. q = AList.update ''device_path'' (JStr p) ps
         \<and> real_drive (guard_devices ad) (machine h) (text_param ps ''device_path'') p serial)"
proof -
  obtain t h1 where "resolve_target ad (text_param ps ''device_path'') h = (Inr t, h1)"
    "q = AList.update ''device_path'' (JStr (t_path t)) ps" "serial = serial_of t"
    using prepare_device_Inr [OF prepare_drive_action [OF assms(3,2)]] by blast
  then show ?thesis using resolve_target_Inr [OF assms(1), of "text_param ps ''device_path''" t h1]
    by (auto simp: serial_of_def)
qed

theorem prepared_drive_is_allowed_witness:
  "\<exists>p. real_drive (guard_devices lab_admin) lab_desk (text_param lab_request ''device_path'') p ''FD01N6557110C271B''"
proof -
  obtain h' where "prepare lab_admin ''repair'' lab_request lab_host = (Inr (lab_request, ''FD01N6557110C271B''), h')"
    using lab_prepared by (metis prod.collapse)
  from prepared_drive_is_allowed [OF lab_admin_steady(1) _ this] show ?thesis by (auto simp: lab_host_def)
qed

section \<open>Before a drive is erased\<close>

lemma guard_reads: "dv_read (guard_devices ad) argv w = on_machine (lsblk_run (ad_pds ad) argv) w"
  by (simp add: guard_devices_def desk_devices_def)

lemma guard_guids: "dv_list_guids (guard_devices ad) w = (fst (list_guids (desk_settings w)), w)"
proof -
  have "snd (list_guids s) = s" for s
  proof -
    obtain r where "list_entries_read_only GUIDS_TYPE GLOBAL s = (r, s)"
      using list_read_only_keeps [of GUIDS_TYPE GLOBAL s] by (metis prod.collapse)
    then show ?thesis by (simp add: list_guids_def act_bind_def split: sum.split)
  qed
  then show ?thesis by (simp add: guard_devices_def desk_devices_def in_settings_def case_prod_unfold)
qed

lemma looks_at_read_state:
  assumes "steady (ad_pds ad) (desk_machine w)"
  shows "looks_at w (read_drive_state (guard_devices ad) p)"
    "answer (read_drive_state (guard_devices ad) p) w = Inr (state_of (guard_devices ad) w p)"
proof -
  have "snd (dv_read (guard_devices ad) (lsblk_argv p) w) = w"
    unfolding guard_reads by (rule on_machine_same) (use assms in \<open>auto simp: steady_def lsblk_run_def case_prod_unfold split: prod.split sum.split\<close>)
  then show "looks_at w (read_drive_state (guard_devices ad) p)"
    "answer (read_drive_state (guard_devices ad) p) w = Inr (state_of (guard_devices ad) w p)"
    by (simp_all add: looks_at_def answer_def read_drive_state_eq)
qed

lemma looks_at_guids: "looks_at w (d_list_guids (guard_devices ad))"
  unfolding d_list_guids_def by (rule looks_at_call) (simp add: guard_guids)

lemma looks_at_guards:
  assumes "steady (ad_pds ad) (desk_machine w)"
  shows "looks_at w (require_may_format (guard_devices ad) p)" "looks_at w (require_baseline_drive (guard_devices ad) p)"
  unfolding require_may_format_def require_baseline_drive_def is_installer_uuid_def
  by (intro looks_at_intros looks_at_read_state [OF assms] looks_at_guids; simp split: sum.split;
      intro allI impI conjI looks_at_intros looks_at_guids)+

text \<open>What has to be known of a drive at \<open>p\<close> before it is erased.\<close>

definition may_be_erased :: "'m admin \<Rightarrow> 'm desk \<Rightarrow> string \<Rightarrow> string \<Rightarrow> bool" where
  "may_be_erased ad w action p \<longleftrightarrow>
     (let s = state_of (guard_devices ad) w p
      in ds_known s \<and> (action = ''lay_out_baseline_drive'' \<longrightarrow> is_baseline_only s)
         \<and> (ds_has_data s \<longrightarrow>
             (\<exists>u g known. ds_ptuuid s = Some u \<and> normalize_guid u = Inr g
                \<and> fst (list_guids (desk_settings w)) = Inr known \<and> g \<in> set known)
             \<and> (\<exists>target \<in> set all_volume_targets.
                  proves (ad_real ad) (desk_machine w) target (ad_backup_time ad) DEFAULT_MAX_BACKUP_AGE_S DEFAULT_MANIFESTS_DIR)))"

lemma fresh_backup:
  assumes r: "reads_steady (ad_real ad)" and b: "backup_is_fresh ad h = (Inr True, h')"
  shows "\<exists>target \<in> set all_volume_targets.
    proves (ad_real ad) (desk_machine (machine h)) target (ad_backup_time ad) DEFAULT_MAX_BACKUP_AGE_S DEFAULT_MANIFESTS_DIR"
proof -
  obtain x g where x: "any_recent (ad_real ad) all_volume_targets (ad_backup_time ad) DEFAULT_MAX_BACKUP_AGE_S DEFAULT_MANIFESTS_DIR
      \<lparr>machine = desk_machine (machine h), calls = []\<rparr> = (x, g)" by fastforce
  have "x = Inr True"
    using b x by (cases x) (simp_all add: backup_is_fresh_def act_catch_eq on_commands_def)
  then show ?thesis using steady_any_recent [OF r x] by simp
qed

lemma checked_may_be_erased:
  assumes s: "steady (ad_pds ad) (desk_machine (machine h))" and r: "reads_steady (ad_real ad)"
    and c: "check_destructive ad action t h = (Inr (), h')"
  shows "may_be_erased ad (machine h) action (t_path t)"
proof -
  let ?w = "machine h" and ?p = "t_path t"
  let ?s = "state_of (guard_devices ad) ?w ?p"
  obtain h1 h2 where w: "act_when (action = ''lay_out_baseline_drive'') (on_devices (require_baseline_drive (guard_devices ad) ?p)) h = (Inr (), h1)"
      "on_devices (require_may_format (guard_devices ad) ?p) h1 = (Inr (), h2)"
    and rest: "act_bind (on_devices (read_drive_state (guard_devices ad) ?p)) (\<lambda>s.
      act_bind (if ds_has_data s then backup_is_fresh ad else act_ret True) (\<lambda>fine. if fine then act_ret ()
        else act_raise (ValueError (''refused: this drive holds Baseline's data and there is no proof of a successful '' @
       ''backup in the last 24 hours. Run a backup first'')))) h2 = (Inr (), h')"
    using c unfolding check_destructive_def act_seq_def act_bind_eq_Inr as_value_error_Inr by auto
  have m1: "machine h1 = ?w \<and> (action = ''lay_out_baseline_drive'' \<longrightarrow> is_baseline_only ?s)"
  proof (cases "action = ''lay_out_baseline_drive''")
    case True
    then have "on_devices (require_baseline_drive (guard_devices ad) ?p) h = (Inr (), h1)" using w(1) by (simp add: act_when_def)
    from on_devices_Inr [OF looks_at_guards(2) [OF s] this]
    have "machine h1 = ?w" "answer (require_baseline_drive (guard_devices ad) ?p) ?w = Inr ()" by simp_all
    then show ?thesis
      by (auto simp: require_baseline_drive_def answer_bind looks_at_read_state [OF s] looks_at_intros split: if_splits)
  next
    case False
    then show ?thesis using w(1) by (simp add: act_when_def)
  qed
  note f = on_devices_Inr [OF _ w(2), unfolded m1 [THEN conjunct1], OF looks_at_guards(1) [OF s]]
  have guid: "\<not> ds_has_data ?s \<or> (ds_known ?s \<and> (\<exists>u g known. ds_ptuuid ?s = Some u \<and> normalize_guid u = Inr g
       \<and> fst (list_guids (desk_settings ?w)) = Inr known \<and> g \<in> set known))"
    using may_format_cases [of "guard_devices ad" ?p "\<lparr>machine = ?w, calls = []\<rparr>"] f [THEN conjunct1, unfolded answer_def]
      looks_atD [OF looks_at_read_state(1) [OF s, of ?p], of "\<lparr>machine = ?w, calls = []\<rparr>"]
    by (simp add: guard_guids)
  have known: "ds_known ?s" using guid state_of_unknown [of "guard_devices ad" ?w ?p] by fastforce
  have m2: "machine h2 = ?w" using f by blast
  obtain h3 where h3: "on_devices (read_drive_state (guard_devices ad) ?p) h2 = (Inr ?s, h3)" "machine h3 = ?w"
    using on_devices_answer [of h2 "read_drive_state (guard_devices ad) ?p"] looks_at_read_state [OF s, of ?p] m2
    by (metis prod.collapse)
  have "ds_has_data ?s \<Longrightarrow> \<exists>h4. backup_is_fresh ad h3 = (Inr True, h4)"
    using rest h3(1) by (auto simp: act_bind_eq_Inr split: if_splits)
  then have "ds_has_data ?s \<Longrightarrow> \<exists>target \<in> set all_volume_targets.
    proves (ad_real ad) (desk_machine ?w) target (ad_backup_time ad) DEFAULT_MAX_BACKUP_AGE_S DEFAULT_MANIFESTS_DIR"
    using fresh_backup [OF r, of h3] h3(2) by auto
  then show ?thesis using known m1 guid by (auto simp: may_be_erased_def Let_def)
qed

text \<open>
  C3. No data is erased without a backup. On a machine whose devices and files only answer: when a request to lay out
  a drive or to install over it is prepared, \<open>lsblk\<close> could read the drive; if it holds anything, it carries a disk GUID
  that the installer registered, and a manifest proves a backup of one of the volumes within the last 24 hours; and a
  drive that is to be laid out holds nothing but Baseline's own volumes.
\<close>
theorem nothing_erased_without_backup:
  assumes "steady (ad_pds ad) (desk_machine (machine h))" and "reads_steady (ad_real ad)"
    and "action \<in> set DESTRUCTIVE_ACTIONS" and "prepare ad action ps h = (Inr (q, serial), h')"
  shows "\<exists>p. map_of q ''device_path'' = Some (JStr p) \<and> may_be_erased ad (machine h) action p"
proof -
  have "action \<notin> {''update_selected'', ''enroll_drive''}" using assms(3) by (auto simp: DESTRUCTIVE_ACTIONS_def)
  from prepare_device_Inr [OF prepare_drive_action [OF assms(4) this]] assms(3)
  obtain t h1 h2 where t: "resolve_target ad (text_param ps ''device_path'') h = (Inr t, h1)"
    "q = AList.update ''device_path'' (JStr (t_path t)) ps" "check_destructive ad action t h1 = (Inr (), h2)" by blast
  have "machine h1 = machine h" using resolve_target_Inr [OF assms(1) t(1)] by blast
  then have "may_be_erased ad (machine h) action (t_path t)"
    using checked_may_be_erased [of ad h1 action t h2] assms(1,2) t(3) by simp
  then show ?thesis using t(2) by (intro exI [of _ "t_path t"]) (simp add: update_conv')
qed

definition lab_sk :: target where
  "lab_sk = \<lparr>t_path = ''/dev/sdb'', t_serial = Some ''FD01N6557110C271B'', t_size = 429496729600\<rparr>"

lemma lab_answers:
  "fst (resolve_target lab_admin ''/dev/sdb'' lab_host) = Inr lab_sk"
  "fst (on_devices (require_baseline_drive (guard_devices lab_admin) ''/dev/sdb'') lab_host) = Inr ()"
  "fst (on_devices (require_may_format (guard_devices lab_admin) ''/dev/sdb'') lab_host) = Inr ()"
  "fst (backup_is_fresh lab_admin lab_host) = Inr True"
  "validate_action_params ''lay_out_baseline_drive'' lab_request = Inr lab_request"
  by code_simp+

lemma steady_step:
  assumes "looks_at (machine h) a" "machine h' = machine h" "fst (on_devices a h) = Inr x"
  shows "\<exists>h''. on_devices a h' = (Inr x, h'') \<and> machine h'' = machine h"
proof -
  have "fst (on_devices a h') = Inr x \<and> machine (snd (on_devices a h')) = machine h"
    using on_devices_answer [of h a] on_devices_answer [of h' a] assms by simp
  then show ?thesis by (metis prod.collapse)
qed

lemma fresh_same: "machine h' = machine h \<Longrightarrow> fst (backup_is_fresh ad h') = fst (backup_is_fresh ad h)"
  by (simp add: backup_is_fresh_def act_catch_eq on_commands_def case_prod_unfold split: sum.split)

lemma lab_layout_prepared:
  "\<exists>h'. prepare lab_admin ''lay_out_baseline_drive'' lab_request lab_host = (Inr (lab_request, ''FD01N6557110C271B''), h')"
proof -
  let ?guard = "guard_devices lab_admin"
  note st = lab_admin_steady(1) [of "desk_machine (machine lab_host)"]
  obtain h1 where h1: "resolve_target lab_admin ''/dev/sdb'' lab_host = (Inr lab_sk, h1)"
    using lab_answers(1) by (metis prod.collapse)
  have m1: "machine h1 = machine lab_host" using resolve_target_Inr [OF st h1] by blast
  obtain h2 where h2: "on_devices (require_baseline_drive ?guard ''/dev/sdb'') h1 = (Inr (), h2)" "machine h2 = machine lab_host"
    using steady_step [OF looks_at_guards(2) [OF st] m1 lab_answers(2)] by blast
  obtain h3 where h3: "on_devices (require_may_format ?guard ''/dev/sdb'') h2 = (Inr (), h3)" "machine h3 = machine lab_host"
    using steady_step [OF looks_at_guards(1) [OF st] h2(2) lab_answers(3)] by blast
  obtain s h4 where h4: "on_devices (read_drive_state ?guard ''/dev/sdb'') h3 = (Inr s, h4)" "machine h4 = machine lab_host"
    using on_devices_answer [of h3 "read_drive_state ?guard ''/dev/sdb''"] looks_at_read_state [OF st, of "''/dev/sdb''"] h3(2)
    by (metis prod.collapse)
  obtain h5 where h5: "backup_is_fresh lab_admin h4 = (Inr True, h5)"
    using fresh_same [OF h4(2), of lab_admin] lab_answers(4) by (metis prod.collapse)
  have "\<exists>h6. check_destructive lab_admin ''lay_out_baseline_drive'' lab_sk h1 = (Inr (), h6)"
    unfolding check_destructive_def act_seq_def act_bind_eq_Inr as_value_error_Inr
    using h2 h3 h4 h5 by (auto simp: lab_sk_def act_bind_eq_Inr act_when_def intro!: exI)
  then obtain h6 where h6: "check_destructive lab_admin ''lay_out_baseline_drive'' lab_sk h1 = (Inr (), h6)" ..
  have device: "text_param lab_request ''device_path'' = ''/dev/sdb''" by (simp add: text_param_def lab_request_def)
  have "prepare_device lab_admin ''lay_out_baseline_drive'' lab_request lab_host = (Inr (lab_request, ''FD01N6557110C271B''), h6)"
    using h1 h6 unfolding prepare_device_def device Let_def
    by (simp add: as_value_error_def act_catch_eq act_bind_def act_seq_def act_when_def DESTRUCTIVE_ACTIONS_def)
      (simp add: lab_request_def lab_sk_def serial_of_def)
  moreover have "prepare lab_admin ''lay_out_baseline_drive'' lab_request lab_host
      = prepare_checked lab_admin ''lay_out_baseline_drive'' lab_request lab_host"
    by (simp add: prepare_def ACTIONS_def lab_answers(5) as_value_error_def act_catch_eq act_bind_def act_lift_def)
  ultimately show ?thesis by (simp add: prepare_checked_def device)
qed

theorem nothing_erased_without_backup_witness:
  "may_be_erased lab_admin lab_desk ''lay_out_baseline_drive'' ''/dev/sdb''"
proof -
  obtain h' where "prepare lab_admin ''lay_out_baseline_drive'' lab_request lab_host = (Inr (lab_request, ''FD01N6557110C271B''), h')"
    using lab_layout_prepared by blast
  from nothing_erased_without_backup [OF lab_admin_steady _ this]
  show ?thesis by (simp add: DESTRUCTIVE_ACTIONS_def lab_host_def lab_request_def)
qed

section \<open>Actions that leave the drives as they are\<close>

lemma emits_refusing_after:
  assumes "emits P a" "\<And>h x h1. a h = (Inr x, h1) \<Longrightarrow> emits P (f x)"
  shows "emits P (refusing why a f)"
proof (rule emitsI)
  fix h
  show "\<exists>new. calls (snd (refusing why a f h)) = calls h @ new \<and> list_all P new"
  proof (cases rule: refusing_cases [of a h why f])
    case (pass x h1)
    obtain n1 where "calls h1 = calls h @ n1" "list_all P n1" using emits_resultD [OF assms(1) pass(1)] by blast
    moreover obtain n2 where "calls (snd (f x h1)) = calls h1 @ n2" "list_all P n2"
      using emitsD [OF assms(2) [OF pass(1)]] by blast
    ultimately show ?thesis using pass(2) by (intro exI [of _ "n1 @ n2"]) simp
  next
    case (refuse e h1)
    then show ?thesis using emits_resultD [OF assms(1) refuse(1)] by auto
  qed
qed

text \<open>A request emits what its action emits, beyond looking.\<close>

lemma emits_perform:
  assumes P: "\<And>c. only_looks c \<Longrightarrow> P c"
    and r: "\<And>h q serial h'. prepare ad action ps h = (Inr (q, serial), h') \<Longrightarrow> emits P (run_action ad progress action q serial)"
  shows "emits P (perform_action ad progress origin auth action ps)"
  unfolding perform_action_def
proof (rule emits_refusing_after)
  show "emits P (prepare ad action ps)" by (rule emits_mono [OF looks_prepare P])
  fix h x h1
  assume p: "prepare ad action ps h = (Inr x, h1)"
  obtain q serial where x: "x = (q, serial)" by fastforce
  have "emits P (run_action ad progress action q serial)" by (rule r) (use p x in simp)
  then show "emits P (case x of (q, serial) \<Rightarrow> refusing not_from_web (web_proof ad origin action q) (\<lambda>_.
      refusing not_confirmed (human_proof ad auth action q serial) (\<lambda>_. run_action ad progress action q serial)))"
    unfolding x prod.case web_proof_def human_proof_def by (intro emits_intros)
qed

lemma validate_serial:
  assumes "validate_drive ad path (JStr s) lo h = (Inr t, h')"
  shows "t_serial t = Some s"
proof -
  obtain g where "validate_target_device (guard_devices ad) path (JStr s) lo JNull \<lparr>machine = machine h, calls = []\<rparr> = (Inr t, g)"
    using assms by (auto simp: validate_drive_def on_devices_def split: prod.splits)
  then show ?thesis
    by (auto simp: validate_target_device_def unsafe_def act_bind_eq_Inr allowed_serials_def serial_value_def check_boot_def
        check_size_def split: if_splits option.splits)
qed

lemma emits_checked: "(\<And>x. r = Inr x \<Longrightarrow> emits P (f x)) \<Longrightarrow> emits P (act_bind (act_lift r) f)"
  by (cases r) (auto intro: emits_raise simp: act_bind_def act_lift_def emits_def)

definition enrolls :: "json \<Rightarrow> desk_call \<Rightarrow> bool" where
  "enrolls v c \<longleftrightarrow> only_looks c \<or> (\<exists>s. v = JStr s \<and> c = Enrolled s)"

lemma enrolls_looks: "only_looks c \<Longrightarrow> enrolls v c"
  by (simp add: enrolls_def)

lemma emits_enroll_drive: "emits (enrolls v) (enroll_drive ad device v)"
  unfolding enroll_drive_def
proof (rule emits_refusing_after)
  show "emits (enrolls v) (act_bind (act_lift (check_serial v)) (\<lambda>typed. validate_drive ad device (JStr typed) (JInt MIN_TARGET_SIZE_BYTES)))"
    by (intro emits_intros emits_mono [OF looks_validate enrolls_looks])
  fix h t h1
  assume "act_bind (act_lift (check_serial v)) (\<lambda>typed. validate_drive ad device (JStr typed) (JInt MIN_TARGET_SIZE_BYTES)) h = (Inr t, h1)"
  then obtain s where s: "check_serial v = Inr s" "t_serial t = Some s"
    by (cases "check_serial v") (auto simp: act_bind_eq_Inr act_lift_def dest: validate_serial)
  have v: "v = JStr s" using s(1) by (auto simp: check_serial_def split: json.splits if_splits)
  have "check_serial (JStr s) = Inr s" using s(1) v by simp
  then have "emits (enrolls v) (enroll s n m now)" for n m now
    unfolding enroll_def by (intro emits_checked emits_seq emits_parts emits_call) (simp add: enrolls_def v)
  then show "emits (enrolls v) (enroll_validated ad t)"
    unfolding enroll_validated_def Let_def s(2) option.case by (intro emits_intros)
qed

lemma prepared_serial:
  assumes "prepare ad ''enroll_drive'' ps h = (Inr (q, serial), h')"
  shows "map_of q ''confirm_serial'' = map_of ps ''confirm_serial''"
proof -
  have "as_value_error bad_parameter (act_lift (validate_action_params a ps)) h = (Inr x, h1) \<Longrightarrow> x = ps \<and> h1 = h" for a x h1
    by (auto simp: as_value_error_Inr validate_action_params_def act_lift_def Let_def split: sum.splits option.splits if_splits)
  then have "prepare_checked ad ''enroll_drive'' ps h = (Inr (q, serial), h')"
    using assms by (auto simp: prepare_def act_bind_eq_Inr split: if_splits)
  then show ?thesis
    by (auto simp: prepare_checked_def prepare_enrollment_def act_bind_eq_Inr Let_def update_conv' split: if_splits)
qed

text \<open>
  C37. Enrolling a drive writes to no drive. Whatever is posted, whatever the machine does and however the request ends,
  an enrolment makes no call that changes a device and runs no command; the one thing it may write is the registry
  entry of the serial that the operator typed.
\<close>
theorem enrolling_writes_no_drive:
  "\<exists>new. calls (snd (perform_action ad progress origin auth ''enroll_drive'' ps h)) = calls h @ new
     \<and> list_all (\<lambda>c. only_looks c \<or> (\<exists>s. map_of ps ''confirm_serial'' = Some (JStr s) \<and> c = Enrolled s)) new"
proof (rule emitsD, rule emits_perform)
  fix h q serial h'
  assume "prepare ad ''enroll_drive'' ps h = (Inr (q, serial), h')"
  note q = prepared_serial [OF this]
  show "emits (\<lambda>c. only_looks c \<or> (\<exists>s. map_of ps ''confirm_serial'' = Some (JStr s) \<and> c = Enrolled s))
      (run_action ad progress ''enroll_drive'' q serial)"
    unfolding run_action_def Let_def q
    by (cases "map_of ps ''confirm_serial''")
      (auto intro!: emits_raise emits_mono [OF emits_enroll_drive] simp: enrolls_def)
qed simp

text \<open>Where a volume may be mounted for inspection, and the commands of the two actions.\<close>

definition inspection_place :: "string \<Rightarrow> bool" where
  "inspection_place goal \<longleftrightarrow> starts_with goal ''/mnt/'' \<and> goal \<notin> set own_mountpoints"

definition inspection_call :: "desk_call \<Rightarrow> bool" where
  "inspection_call c \<longleftrightarrow>
     c = Sys (CRun [''sudo'', ''-n'', ''pvs'', ''--noheadings'', ''-o'', ''pv_name,vg_name''] 15)
     \<or> (\<exists>vg t. c = Sys (CRun [''vgchange'', ''-ay'', vg] t))
     \<or> (\<exists>goal. inspection_place goal \<and> c = Sys (CMakedirs goal))
     \<or> (\<exists>vg lv goal t. inspection_place goal \<and> CHR ''/'' \<notin> set lv \<and> c = Sys (CRun [''mount'', ''-o'', ''rw'', ''/dev/'' @ vg @ ''/'' @ lv, goal] t))
     \<or> (\<exists>goal t. inspection_place goal \<and> c = Sys (CRun [''umount'', goal] t))"

lemma default_place: "inspection_place (''/mnt/'' @ vg @ ''-'' @ lv @ ''-inspect'')"
proof -
  have "ends_with (''/mnt/'' @ vg @ ''-'' @ lv @ ''-inspect'') ''-inspect''" by (simp add: ends_with_def)
  moreover have "list_all (\<lambda>p. \<not> ends_with p ''-inspect'') own_mountpoints" by code_simp
  ultimately show ?thesis by (auto simp: inspection_place_def list_all_iff starts_with_def)
qed

lemma checked_place:
  assumes "check_place lv mp = Inr (name, spot)"
  shows "CHR ''/'' \<notin> set name" "inspection_place (inspect_target vg name spot)"
proof -
  show "CHR ''/'' \<notin> set name"
    using assms by (auto simp: check_place_def dest: lv_name_plain split: sum.splits option.splits)
  show "inspection_place (inspect_target vg name spot)"
  proof (cases spot)
    case None
    then show ?thesis using default_place [of vg name] by (simp add: inspect_target_def or_else_def)
  next
    case (Some m)
    then obtain v where "check_mountpoint v = Inr m"
      using assms by (auto simp: check_place_def split: sum.splits option.splits)
    from check_mountpointD [OF this] have "inspection_place m" by (simp add: inspection_place_def)
    moreover from this have "m \<noteq> []" by (auto simp: inspection_place_def starts_with_def)
    ultimately show ?thesis by (simp add: Some inspect_target_def or_else_def)
  qed
qed

text \<open>One command, one look and one directory of the runner.\<close>

lemma emits_single:
  fixes os :: "'m os"
  shows "P (Sys (CRun argv t)) \<Longrightarrow> emits P (on_commands (run os argv t))"
    "P (Sys (CExists path)) \<Longrightarrow> emits P (on_commands (path_exists os path))"
    "P (Sys (CMakedirs path)) \<Longrightarrow> emits P (on_commands (makedirs os path))"
  by (rule emits_on_commands [where P = "\<lambda>c. P (Sys c)"]; simp add: emits_run emits_exists emits_makedirs)+

definition inspects :: "desk_call \<Rightarrow> bool" where
  "inspects c \<longleftrightarrow> only_looks c \<or> inspection_call c"

lemma inspects_find_vg: "emits inspects (find_vg_for_device ad device)"
  unfolding find_vg_for_device_def by (intro emits_intros emits_single) (simp add: inspects_def inspection_call_def)

lemma inspects_at:
  assumes "CHR ''/'' \<notin> set name" "\<And>vg. inspection_place (inspect_target vg name spot)"
  shows "emits inspects (mount_at ad device name spot)" "emits inspects (unmount_at ad device name spot)"
  unfolding mount_at_def unmount_at_def Let_def
  by (intro emits_intros emits_single inspects_find_vg; simp add: inspects_def inspection_call_def assms; use assms in blast)+

lemma inspects_checked:
  assumes "\<And>name spot. CHR ''/'' \<notin> set name \<Longrightarrow> (\<And>vg. inspection_place (inspect_target vg name spot)) \<Longrightarrow> emits inspects (f name spot)"
  shows "emits inspects (refusing bad_parameter (act_lift (check_place lv mp)) (\<lambda>(name, spot). f name spot))"
proof (rule emits_refusing_after [OF emits_lift])
  fix h x h1
  assume "act_lift (check_place lv mp) h = (Inr x, h1)"
  then have "check_place lv mp = Inr (fst x, snd x)" by (simp add: act_lift_def)
  then have "emits inspects (f (fst x) (snd x))" using checked_place by (intro assms) blast+
  then show "emits inspects (case x of (name, spot) \<Rightarrow> f name spot)" by (simp add: case_prod_unfold)
qed

text \<open>
  An inspected volume is mounted under \<open>/mnt\<close> and nowhere else. Whatever is posted and whatever the machine does,
  the action \<open>mount_volume\<close> runs no command but the listing and the activation of volume groups and one \<open>mount\<close>, of a
  volume of that group whose name has no slash, at a place under \<open>/mnt\<close> that is none of Baseline's own mount points.
\<close>
theorem inspection_stays_under_mnt:
  "\<exists>new. calls (snd (perform_action ad progress origin auth ''mount_volume'' ps h)) = calls h @ new
     \<and> list_all (\<lambda>c. only_looks c \<or> inspection_call c) new"
proof (rule emitsD, rule emits_perform)
  fix h q serial h'
  have "emits inspects (run_action ad progress ''mount_volume'' q serial)"
    unfolding run_action_def Let_def mount_logical_volume_def by (simp add: inspects_checked inspects_at)
  then show "emits (\<lambda>c. only_looks c \<or> inspection_call c) (run_action ad progress ''mount_volume'' q serial)"
    by (rule emits_mono) (simp add: inspects_def)
qed simp

section \<open>Two things that do not hold\<close>

text \<open>
  \<open>SudoRunner\<close> and \<open>PkexecRunner\<close> look at no exit code when they write a file: when \<open>tee\<close> fails, the file it left is still
  moved over the target, and the caller is told nothing.
\<close>

lemma failed_tee_still_moves:
  assumes "call [''tee'', path @ ending] content t m = (Inr p, m1)" and "returncode p \<noteq> 0"
    and "call [''mv'', path @ ending, path] [] t m1 = (Inr r, m2)"
  shows "os_write_text_atomic (elevated_os call t ending plain) path content m = (Inr (), m2)"
  using assms by (simp add: elevated_os_def elevated_write_def quietly_def)

text \<open>
  A volume group is found by a prefix of the device's path: a drive without one is taken for the drive whose name
  continues its own.
\<close>

lemma longer_name_is_taken:
  "vg_in ''/dev/sda'' (''  /dev/sdaa1 other_group'' @ [CHR 0x0A]) = Some ''other_group''"
  "vg_in ''/dev/nvme0n1'' (''  /dev/nvme0n12 other_group'' @ [CHR 0x0A]) = Some ''other_group''"
  by code_simp+

text \<open>With a progress callback, which the web application always passes, a drive cannot be enrolled: the action ends in a
  \<open>TypeError\<close>, after the authorization was used.\<close>

lemma enrolling_with_progress_raises:
  "run_action ad True ''enroll_drive'' q serial h =
     (Inl (TypeError (''enroll_drive() got an unexpected keyword argument '' @ py_repr ''on_progress'')), h)"
  by (simp add: run_action_def act_raise_def Let_def)

end
