(* ===== verification/TestPersistence.thy ===== *)
theory TestPersistence
  imports PyValue Machines "HOL-Library.Sublist"
begin

text \<open>
  \<open>src/baseline/lib/testpersistence\<close>: the rules of a store that moves between machines. Grants of an application and its
  life cycle, the attachment of a store, evidence of identity, the storage classes and the outcomes of failures. Applications
  hold references to grants that others may hold as well, so the grants are a heap.
\<close>

section \<open>Grants\<close>

datatype grant_state = ACTIVE | SUSPENDED | REVOKED | EXPIRED

record grant =
  gr_id :: string
  gr_person :: string
  gr_application :: string
  gr_collection :: string
  gr_access_mode :: string
  gr_duration :: string
  gr_authorized_by :: string
  gr_state :: grant_state

definition effective :: "grant \<Rightarrow> bool" where
  "effective g \<longleftrightarrow> gr_state g = ACTIVE"

definition suspend :: "grant \<Rightarrow> grant" where
  "suspend g = (if gr_state g = ACTIVE then g\<lparr>gr_state := SUSPENDED\<rparr> else g)"

definition reactivate :: "grant \<Rightarrow> grant" where
  "reactivate g = (if gr_state g = SUSPENDED then g\<lparr>gr_state := ACTIVE\<rparr> else g)"

definition revoke_grant :: "grant \<Rightarrow> grant" where
  "revoke_grant g = g\<lparr>gr_state := REVOKED\<rparr>"

definition expire :: "grant \<Rightarrow> grant" where
  "expire g = (if gr_state g \<in> {ACTIVE, SUSPENDED} then g\<lparr>gr_state := EXPIRED\<rparr> else g)"

section \<open>The life cycle of an application\<close>

datatype lifecycle_state = INSTALLED | DISABLED | UNINSTALLED_RETAINED | STATE_DELETED

type_synonym grants = "nat \<Rightarrow> grant"

record application =
  app_id :: string
  app_state :: lifecycle_state
  app_grants :: "nat list"

definition each_grant :: "(grant \<Rightarrow> grant) \<Rightarrow> application \<Rightarrow> grants \<Rightarrow> grants" where
  "each_grant f app hp = fold (\<lambda>r h. h(r := f (h r))) (app_grants app) hp"

definition disable_app :: "application \<Rightarrow> grants \<Rightarrow> application \<times> grants" where
  "disable_app app hp = (app\<lparr>app_state := DISABLED\<rparr>, each_grant suspend app hp)"

definition re_enable_app :: "bool \<Rightarrow> application \<Rightarrow> grants \<Rightarrow> application \<times> grants" where
  "re_enable_app reactivate_grants app hp =
     (app\<lparr>app_state := INSTALLED\<rparr>, if reactivate_grants then each_grant reactivate app hp else hp)"

definition uninstall_app :: "application \<Rightarrow> grants \<Rightarrow> application \<times> grants" where
  "uninstall_app app hp = (app\<lparr>app_state := UNINSTALLED_RETAINED\<rparr>, each_grant suspend app hp)"

definition delete_state :: "application \<Rightarrow> grants \<Rightarrow> application \<times> grants" where
  "delete_state app hp = (app\<lparr>app_state := STATE_DELETED\<rparr>, each_grant revoke_grant app hp)"

text \<open>The applications of a store and the grants they hold; any method may be called in any order.\<close>

record person_store =
  ps_apps :: "nat \<Rightarrow> application"
  ps_grants :: grants

datatype lifecycle_op =
    Suspend nat
  | Reactivate nat
  | Revoke nat
  | Expire nat
  | Disable nat
  | Re_enable nat bool
  | Uninstall nat
  | Delete_state nat

definition on_grant :: "(grant \<Rightarrow> grant) \<Rightarrow> nat \<Rightarrow> person_store \<Rightarrow> person_store" where
  "on_grant f r s = s\<lparr>ps_grants := (ps_grants s)(r := f (ps_grants s r))\<rparr>"

definition on_app :: "(application \<Rightarrow> grants \<Rightarrow> application \<times> grants) \<Rightarrow> nat \<Rightarrow> person_store \<Rightarrow> person_store" where
  "on_app f a s = (case f (ps_apps s a) (ps_grants s) of
     (app, hp) \<Rightarrow> s\<lparr>ps_apps := (ps_apps s)(a := app), ps_grants := hp\<rparr>)"

fun lifecycle_step :: "lifecycle_op \<Rightarrow> person_store \<Rightarrow> unit \<times> person_store" where
  "lifecycle_step (Suspend r) s = ((), on_grant suspend r s)"
| "lifecycle_step (Reactivate r) s = ((), on_grant reactivate r s)"
| "lifecycle_step (Revoke r) s = ((), on_grant revoke_grant r s)"
| "lifecycle_step (Expire r) s = ((), on_grant expire r s)"
| "lifecycle_step (Disable a) s = ((), on_app disable_app a s)"
| "lifecycle_step (Re_enable a b) s = ((), on_app (re_enable_app b) a s)"
| "lifecycle_step (Uninstall a) s = ((), on_app uninstall_app a s)"
| "lifecycle_step (Delete_state a) s = ((), on_app delete_state a s)"

subsection \<open>Revocation is terminal\<close>

text \<open>The grants that were revoked: the set only grows.\<close>

definition out_of_use :: "person_store \<Rightarrow> nat set" where
  "out_of_use s = {r. gr_state (ps_grants s r) = REVOKED}"

lemma each_grant_at:
  assumes "\<And>g. f (f g) = f g"
  shows "each_grant f app hp r = (if r \<in> set (app_grants app) then f (hp r) else hp r)"
proof -
  have "fold (\<lambda>r h. h(r := f (h r))) rs hp r = (if r \<in> set rs then f (hp r) else hp r)" for rs
    by (induction rs arbitrary: hp) (auto simp: assms)
  then show ?thesis by (simp add: each_grant_def)
qed

lemma grant_idem [simp]:
  "suspend (suspend g) = suspend g" "reactivate (reactivate g) = reactivate g" "revoke_grant (revoke_grant g) = revoke_grant g"
  by (auto simp: suspend_def reactivate_def revoke_grant_def)

lemma grant_revoked [simp]:
  "gr_state g = REVOKED \<Longrightarrow> gr_state (suspend g) = REVOKED" "gr_state g = REVOKED \<Longrightarrow> gr_state (reactivate g) = REVOKED"
  "gr_state g = REVOKED \<Longrightarrow> gr_state (expire g) = REVOKED" "gr_state (revoke_grant g) = REVOKED"
  by (simp_all add: suspend_def reactivate_def expire_def revoke_grant_def)

lemma step_out_of_use: "out_of_use s \<subseteq> out_of_use (snd (lifecycle_step op s))"
  by (cases op) (auto simp: out_of_use_def on_grant_def on_app_def disable_app_def re_enable_app_def uninstall_app_def
      delete_state_def each_grant_at)

interpretation grants_go: ratchet_machine lifecycle_step "\<lambda>s. True" out_of_use
  by unfold_locales (simp_all add: step_out_of_use)

lemma step_keeps_refs: "app_grants (ps_apps (snd (lifecycle_step op s)) a) = app_grants (ps_apps s a)"
  by (cases op) (auto simp: on_grant_def on_app_def disable_app_def re_enable_app_def uninstall_app_def delete_state_def)

text \<open>
  C39. Deleting an application's state ends its access for good. Whatever is called afterwards and in which order -
  enabling it again with its grants reactivated, suspending, reactivating or expiring single grants, operations of other
  applications that hold the same grants - no grant that the application held then is ever effective again.
\<close>
theorem deletion_is_final:
  assumes "r \<in> set (app_grants (ps_apps s a))"
  shows "\<not> effective (ps_grants (run_ops lifecycle_step (before @ [Delete_state a] @ after) s) r)"
proof -
  let ?s1 = "run_ops lifecycle_step before s" and ?s2 = "run_ops lifecycle_step (before @ [Delete_state a]) s"
  have "app_grants (ps_apps ?s1 a) = app_grants (ps_apps s a)"
    by (induction before arbitrary: s) (simp_all add: step_keeps_refs)
  then have "r \<in> out_of_use ?s2"
    using assms by (simp add: out_of_use_def on_app_def delete_state_def each_grant_at)
  then have "r \<in> out_of_use (run_ops lifecycle_step (before @ [Delete_state a] @ after) s)"
    using grants_go.run_level [of ?s2 after] by auto
  then show ?thesis by (simp add: out_of_use_def effective_def)
qed

definition lab_grant :: grant where
  "lab_grant = \<lparr>gr_id = ''g'', gr_person = ''p'', gr_application = ''notes'', gr_collection = ''letters'', gr_access_mode = ''read'',
     gr_duration = ''until_revoked'', gr_authorized_by = ''p'', gr_state = ACTIVE\<rparr>"

definition lab_store :: person_store where
  "lab_store = \<lparr>ps_apps = (\<lambda>a. \<lparr>app_id = ''notes'', app_state = INSTALLED, app_grants = [a, 0]\<rparr>), ps_grants = (\<lambda>r. lab_grant)\<rparr>"

theorem deletion_is_final_witness:
  "\<not> effective (ps_grants (run_ops lifecycle_step ([Disable 1] @ [Delete_state 1] @ [Re_enable 1 True, Re_enable 2 True]) lab_store) 0)"
proof -
  have "0 \<in> set (app_grants (ps_apps lab_store 1))" by (simp add: lab_store_def)
  then show ?thesis by (rule deletion_is_final)
qed

text \<open>Enabling an application again gives nothing back unless it is asked to.\<close>
lemma re_enable_alone: "snd (re_enable_app False app hp) = hp"
  by (simp add: re_enable_app_def)

section \<open>The attachment of a store\<close>

datatype attachment_state =
    ABSENT | DETECTED_UNKNOWN | RECOGNIZED_LOCKED | UNLOCKED_UNTRUSTED | INSPECTION_READY
  | IMPORT_PROPOSED | AUTHORIZED | ATTACHED | DEGRADED | REQUIRES_RECOVERY

fun state_value :: "attachment_state \<Rightarrow> string" where
  "state_value ABSENT = ''absent''"
| "state_value DETECTED_UNKNOWN = ''detected_unknown''"
| "state_value RECOGNIZED_LOCKED = ''recognized_locked''"
| "state_value UNLOCKED_UNTRUSTED = ''unlocked_untrusted''"
| "state_value INSPECTION_READY = ''inspection_ready''"
| "state_value IMPORT_PROPOSED = ''import_proposed''"
| "state_value AUTHORIZED = ''authorized''"
| "state_value ATTACHED = ''attached''"
| "state_value DEGRADED = ''degraded''"
| "state_value REQUIRES_RECOVERY = ''requires_recovery''"

definition LEGAL_TRANSITIONS :: "((attachment_state \<times> string) \<times> attachment_state) list" where
  "LEGAL_TRANSITIONS =
     [((ABSENT, ''device_appears''), DETECTED_UNKNOWN),
      ((DETECTED_UNKNOWN, ''luks_header_recognized''), RECOGNIZED_LOCKED),
      ((DETECTED_UNKNOWN, ''unrecognized_or_corrupt_header''), REQUIRES_RECOVERY),
      ((RECOGNIZED_LOCKED, ''correct_key_supplied''), UNLOCKED_UNTRUSTED),
      ((UNLOCKED_UNTRUSTED, ''manifest_parses_known_schema''), INSPECTION_READY),
      ((UNLOCKED_UNTRUSTED, ''manifest_unreadable_or_newer_schema''), REQUIRES_RECOVERY),
      ((INSPECTION_READY, ''logical_identity_differs''), IMPORT_PROPOSED),
      ((INSPECTION_READY, ''logical_identity_matches_trusted''), AUTHORIZED),
      ((IMPORT_PROPOSED, ''import_authorization_granted''), AUTHORIZED),
      ((IMPORT_PROPOSED, ''import_authorization_declined''), INSPECTION_READY),
      ((AUTHORIZED, ''broker_session_established''), ATTACHED),
      ((ATTACHED, ''failure_mode_occurs''), DEGRADED),
      ((ATTACHED, ''clean_detach''), ABSENT),
      ((DEGRADED, ''failure_not_self_resolving''), REQUIRES_RECOVERY),
      ((DEGRADED, ''failure_clears''), ATTACHED)]"

definition attempt_transition :: "attachment_state \<Rightarrow> string \<Rightarrow> exn + attachment_state" where
  "attempt_transition current event =
     (case map_of LEGAL_TRANSITIONS (current, event) of
        None \<Rightarrow> Inl (TransitionError (''no legal transition from '' @ state_value current @ '' on event '' @ py_repr event @
          '' - refusing rather than guessing''))
      | Some next \<Rightarrow> Inr next)"

definition is_legal_transition :: "attachment_state \<Rightarrow> string \<Rightarrow> bool" where
  "is_legal_transition current event \<longleftrightarrow> map_of LEGAL_TRANSITIONS (current, event) \<noteq> None"

definition all_events_from :: "attachment_state \<Rightarrow> string list" where
  "all_events_from current = map (snd \<circ> fst) (filter (\<lambda>t. fst (fst t) = current) LEGAL_TRANSITIONS)"

text \<open>The states a store goes through under a sequence of events.\<close>

inductive goes :: "attachment_state \<Rightarrow> string list \<Rightarrow> attachment_state \<Rightarrow> bool" where
  stays: "goes st [] st"
| moves: "goes st es mid \<Longrightarrow> attempt_transition mid e = Inr later \<Longrightarrow> goes st (es @ [e]) later"

text \<open>The same, computed.\<close>
fun run_events :: "attachment_state \<Rightarrow> string list \<Rightarrow> exn + attachment_state" where
  "run_events st [] = Inr st"
| "run_events st (e # es) = (case attempt_transition st e of Inl x \<Rightarrow> Inl x | Inr mid \<Rightarrow> run_events mid es)"

lemma run_events_snoc:
  "run_events st (es @ [e]) = (case run_events st es of Inl x \<Rightarrow> Inl x | Inr mid \<Rightarrow> attempt_transition mid e)"
  by (induction es arbitrary: st) (simp_all split: sum.split)

lemma goes_iff: "goes st es now \<longleftrightarrow> run_events st es = Inr now"
proof
  show "goes st es now \<Longrightarrow> run_events st es = Inr now"
    by (induction rule: goes.induct) (simp_all add: run_events_snoc)
  show "run_events st es = Inr now \<Longrightarrow> goes st es now"
  proof (induction es arbitrary: now rule: rev_induct)
    case Nil
    then show ?case by (simp add: goes.stays)
  next
    case (snoc e es)
    then show ?case by (auto simp: run_events_snoc split: sum.splits intro: goes.moves)
  qed
qed

lemma transition_cases:
  "attempt_transition current e = Inr later \<longleftrightarrow> ((current, e), later) \<in> set LEGAL_TRANSITIONS"
proof -
  have "distinct (map fst LEGAL_TRANSITIONS)" by (simp add: LEGAL_TRANSITIONS_def)
  then have "map_of LEGAL_TRANSITIONS (current, e) = Some later \<longleftrightarrow> ((current, e), later) \<in> set LEGAL_TRANSITIONS"
    by (rule map_of_eq_Some_iff)
  moreover have "attempt_transition current e = Inr later \<longleftrightarrow> map_of LEGAL_TRANSITIONS (current, e) = Some later"
    unfolding attempt_transition_def by (cases "map_of LEGAL_TRANSITIONS (current, e)") simp_all
  ultimately show ?thesis by simp
qed

text \<open>The three readings of the table agree.\<close>
lemma legal_iff:
  "is_legal_transition current e \<longleftrightarrow> (\<exists>later. attempt_transition current e = Inr later)"
  "is_legal_transition current e \<longleftrightarrow> e \<in> set (all_events_from current)"
proof -
  show "is_legal_transition current e \<longleftrightarrow> (\<exists>later. attempt_transition current e = Inr later)"
    unfolding is_legal_transition_def attempt_transition_def by (cases "map_of LEGAL_TRANSITIONS (current, e)") simp_all
  then show "is_legal_transition current e \<longleftrightarrow> e \<in> set (all_events_from current)"
    by (force simp: transition_cases all_events_from_def image_iff)
qed

text \<open>Nothing leaves the state that calls for a person.\<close>
lemma recovery_is_final: "all_events_from REQUIRES_RECOVERY = []"
  by (simp add: all_events_from_def LEGAL_TRANSITIONS_def)

text \<open>What must have happened, since the device later appeared, for a store to be in a state.\<close>

fun needs :: "attachment_state \<Rightarrow> string list" where
  "needs ABSENT = []"
| "needs DETECTED_UNKNOWN = [''device_appears'']"
| "needs RECOGNIZED_LOCKED = [''device_appears'', ''luks_header_recognized'']"
| "needs UNLOCKED_UNTRUSTED = [''device_appears'', ''luks_header_recognized'', ''correct_key_supplied'']"
| "needs REQUIRES_RECOVERY = [''device_appears'']"
| "needs AUTHORIZED = [''device_appears'', ''luks_header_recognized'', ''correct_key_supplied'', ''manifest_parses_known_schema'']"
| "needs ATTACHED = [''device_appears'', ''luks_header_recognized'', ''correct_key_supplied'', ''manifest_parses_known_schema'',
     ''broker_session_established'']"
| "needs DEGRADED = [''device_appears'', ''luks_header_recognized'', ''correct_key_supplied'', ''manifest_parses_known_schema'',
     ''broker_session_established'']"
| "needs _ = [''device_appears'', ''luks_header_recognized'', ''correct_key_supplied'', ''manifest_parses_known_schema'']"

text \<open>The events since the later detachment.\<close>
definition since_detached :: "string list \<Rightarrow> string list" where
  "since_detached es = rev (takeWhile (\<lambda>e. e \<noteq> ''clean_detach'') (rev es))"

lemma since_detached_snoc:
  "since_detached (es @ [e]) = (if e = ''clean_detach'' then [] else since_detached es @ [e])"
  by (simp add: since_detached_def)

lemma transition_needs:
  "list_all (\<lambda>((st, e), after). after = ABSENT \<or> (e \<noteq> ''clean_detach'' \<and> subseq (needs after) (needs st @ [e]))) LEGAL_TRANSITIONS"
  by code_simp

lemma goes_needs: "goes st es now \<Longrightarrow> st = ABSENT \<Longrightarrow> subseq (needs now) (since_detached es)"
proof (induction rule: goes.induct)
  case (stays st)
  then show ?case by simp
next
  case (moves st es mid e later)
  then have "later = ABSENT \<or> (e \<noteq> ''clean_detach'' \<and> subseq (needs later) (needs mid @ [e]))"
    using transition_needs by (auto simp: transition_cases list_all_iff)
  moreover have "subseq (needs mid @ [e]) (since_detached es @ [e])" using moves by simp
  ultimately show ?case by (auto simp: since_detached_snoc intro: subseq_order.order_trans)
qed

text \<open>
  C40. No store is attached unlocked or unread. Whatever events arrive from the moment nothing is there: a store that is
  attached has, since it last was detached, appeared, shown a known header, been given the right key, shown a manifest of a
  known schema and had its session established, in this order; every other event sequence ends elsewhere or is refused.
\<close>
theorem attached_needs_key_and_manifest:
  assumes "goes ABSENT es ATTACHED"
  shows "subseq [''device_appears'', ''luks_header_recognized'', ''correct_key_supplied'', ''manifest_parses_known_schema'',
    ''broker_session_established''] (since_detached es)"
  using goes_needs [OF assms] by simp

lemma lab_attached: "goes ABSENT [''device_appears'', ''luks_header_recognized'', ''correct_key_supplied'',
    ''manifest_parses_known_schema'', ''logical_identity_matches_trusted'', ''broker_session_established''] ATTACHED"
  unfolding goes_iff by code_simp

theorem attached_needs_key_and_manifest_witness:
  "subseq [''device_appears'', ''luks_header_recognized'', ''correct_key_supplied'', ''manifest_parses_known_schema'',
    ''broker_session_established''] (since_detached [''device_appears'', ''luks_header_recognized'', ''correct_key_supplied'',
    ''manifest_parses_known_schema'', ''logical_identity_matches_trusted'', ''broker_session_established''])"
  by (rule attached_needs_key_and_manifest [OF lab_attached])

section \<open>Evidence of identity\<close>

datatype evidence_scope = CARRIER_IDENTITY | LOGICAL_IDENTITY | GENERATION
datatype confidence = DIRECTLY_READ | INFERRED | EXTERNALLY_REPORTED
datatype corroboration = UNCORROBORATED | CORROBORATING | CONTRADICTING
datatype identity_outcome = EQUIVALENT | AMBIGUOUS_REFUSAL

fun scope_value :: "evidence_scope \<Rightarrow> string" where
  "scope_value CARRIER_IDENTITY = ''carrier_identity''"
| "scope_value LOGICAL_IDENTITY = ''logical_identity''"
| "scope_value GENERATION = ''generation''"

record evidence_claim =
  ev_source :: string
  ev_time :: rat
  ev_scope :: evidence_scope
  ev_value :: string
  ev_confidence :: confidence
  ev_corroboration :: corroboration

record identity_evaluation =
  ie_outcome :: identity_outcome
  ie_scope :: evidence_scope
  ie_reason :: string

definition evaluate_identity :: "evidence_scope \<Rightarrow> evidence_claim list \<Rightarrow> identity_evaluation" where
  "evaluate_identity scope claims =
     (let relevant = filter (\<lambda>c. ev_scope c = scope) claims; values = remdups (map ev_value relevant)
      in if relevant = [] then
           \<lparr>ie_outcome = AMBIGUOUS_REFUSAL, ie_scope = scope, ie_reason = ''no evidence for this scope''\<rparr>
         else if length values > 1 then
           \<lparr>ie_outcome = AMBIGUOUS_REFUSAL, ie_scope = scope, ie_reason = ''conflicting evidence values for '' @ scope_value scope @
              '': '' @ str_of_int (int (length values)) @ '' distinct values across '' @ str_of_int (int (length relevant)) @ '' claim(s)''\<rparr>
         else \<lparr>ie_outcome = EQUIVALENT, ie_scope = scope, ie_reason = str_of_int (int (length relevant)) @ '' claim(s) agree''\<rparr>)"

text \<open>One dissenting claim is enough, however many agree with each other.\<close>
lemma equivalent_iff_unanimous:
  "ie_outcome (evaluate_identity scope claims) = EQUIVALENT \<longleftrightarrow>
     (\<exists>v. {ev_value c | c. c \<in> set claims \<and> ev_scope c = scope} = {v})"
proof -
  let ?rel = "filter (\<lambda>c. ev_scope c = scope) claims"
  have set: "{ev_value c | c. c \<in> set claims \<and> ev_scope c = scope} = set (map ev_value ?rel)" by auto
  have "length (remdups (map ev_value ?rel)) = card (set (map ev_value ?rel))" by (rule length_remdups_card_conv)
  then have "ie_outcome (evaluate_identity scope claims) = EQUIVALENT \<longleftrightarrow> card (set (map ev_value ?rel)) = 1"
    by (cases ?rel) (auto simp: evaluate_identity_def Let_def le_Suc_eq not_less card_insert_if split: if_splits)
  then show ?thesis unfolding set by (simp add: card_1_singleton_iff)
qed

record carrier_identity =
  ci_carrier :: string
  ci_gpt_disk_guid :: string
  ci_luks_uuid :: string
  ci_filesystem_uuid :: string

record logical_identity =
  li_logical :: string
  li_generation :: int

definition is_same_logical_store :: "logical_identity \<Rightarrow> logical_identity \<Rightarrow> bool" where
  "is_same_logical_store a b \<longleftrightarrow> li_logical a = li_logical b"

record recovery_authority =
  ra_held_by :: string
  ra_mechanism :: string

definition can_authorize_import :: "recovery_authority \<Rightarrow> string \<Rightarrow> bool" where
  "can_authorize_import authority requester \<longleftrightarrow> ra_held_by authority = requester"

section \<open>Storage classes\<close>

datatype storage_class = DISPOSABLE_SUBSTRATE | CONTROL_PLANE | PERSON | APPLICATION | SECRETS | CACHE

definition NAMESPACES_BY_CLASS :: "(storage_class \<times> string list) list" where
  "NAMESPACES_BY_CLASS =
     [(CONTROL_PLANE, [''authority_ledger'']),
      (PERSON, [''person'', ''preferences'']),
      (APPLICATION, [''application_state'', ''grants'']),
      (SECRETS, [''secrets'']),
      (CACHE, [])]"

definition MIGRATES_WITH_LOGICAL_STORE :: "(storage_class \<times> bool) list" where
  "MIGRATES_WITH_LOGICAL_STORE =
     [(DISPOSABLE_SUBSTRATE, False), (CONTROL_PLANE, True), (PERSON, True), (APPLICATION, True), (SECRETS, True), (CACHE, False)]"

definition namespaces_for :: "storage_class \<Rightarrow> string list" where
  "namespaces_for c = (case map_of NAMESPACES_BY_CLASS c of None \<Rightarrow> [] | Some ns \<Rightarrow> ns)"

text \<open>Every class is a key, so the lookup does not raise.\<close>
definition migrates_with_logical_store :: "storage_class \<Rightarrow> bool" where
  "migrates_with_logical_store c = the (map_of MIGRATES_WITH_LOGICAL_STORE c)"

lemma every_class_has_a_policy: "map_of MIGRATES_WITH_LOGICAL_STORE c \<noteq> None"
  by (cases c) (simp_all add: MIGRATES_WITH_LOGICAL_STORE_def)

text \<open>What is in the manifest is what moves with the store, and no namespace belongs to two classes.\<close>

lemma stored_iff_migrates: "namespaces_for c \<noteq> [] \<longleftrightarrow> migrates_with_logical_store c"
  by (cases c) (simp_all add: namespaces_for_def NAMESPACES_BY_CLASS_def migrates_with_logical_store_def MIGRATES_WITH_LOGICAL_STORE_def)

lemma namespace_of_one_class: "n \<in> set (namespaces_for c) \<Longrightarrow> n \<in> set (namespaces_for d) \<Longrightarrow> c = d"
  by (cases c; cases d) (auto simp: namespaces_for_def NAMESPACES_BY_CLASS_def)

section \<open>Outcomes of failures\<close>

datatype failure_mode = MISSING | LOCKED | UNKNOWN | CLONED | CORRUPTED | READ_ONLY | FULL | NEWER_SCHEMA

record failure_outcome =
  fo_mode :: failure_mode
  fo_degraded :: bool
  fo_message :: string

definition outcome_for :: "failure_mode \<Rightarrow> string \<Rightarrow> bool \<Rightarrow> failure_outcome" where
  "outcome_for mode message degraded = \<lparr>fo_mode = mode, fo_degraded = degraded, fo_message = message\<rparr>"

definition missing_store_outcome :: failure_outcome where
  "missing_store_outcome =
     outcome_for MISSING ''store was previously attached but is not present - no auto-recreate'' True"

definition full_store_outcome :: "bool \<Rightarrow> exn + failure_outcome" where
  "full_store_outcome ledger_append_succeeded =
     (if \<not> ledger_append_succeeded then
        Inl (RuntimeError (''full-store condition could not be recorded - reserved ledger '' @
          ''capacity (PRD '' @ [CHR 0xA7] @ ''13) was exhausted too, which must never happen by construction''))
      else Inr (outcome_for FULL ''write refused, no truncation - failure recorded in reserved ledger capacity'' True))"

definition unknown_store_outcome :: failure_outcome where
  "unknown_store_outcome =
     outcome_for UNKNOWN ''no recognizable manifest - stays below inspection_ready, never auto-formatted'' True"

definition cloned_store_outcome :: failure_outcome where
  "cloned_store_outcome =
     outcome_for CLONED ''identity-evidence collision - ambiguous/refusal, no silent pick-one'' True"

end
