(* ===== verification/AuthorityLedger.thy ===== *)
theory AuthorityLedger
  imports PyJson PyValue Machines "HOL-Library.Sublist"
begin

text \<open>
  \<open>src/baseline/lib/testpersistence/manifest.py\<close> and \<open>snapshot.py\<close>: the chained ledger of authority, the domains its
  entries are authenticated under, and the restore of a snapshot against it.

  The two forms of \<open>hmac.new(key, message, sha256)\<close> are the record \<open>mac_env\<close>. Bytes are strings of characters below
  256; \<open>json.dumps\<close> writes ASCII, which \<open>encode\<close> leaves as it is. Two texts with other characters cannot be
  compared by \<open>hmac.compare_digest\<close>, which raises.
\<close>

section \<open>Authentication\<close>

record mac_env =
  m_digest :: "string \<Rightarrow> string \<Rightarrow> string"
  m_hexdigest :: "string \<Rightarrow> string \<Rightarrow> string"

definition TEST_MANIFEST_DOMAIN :: string where
  "TEST_MANIFEST_DOMAIN = ''baseline-manifest-test-v1:''"

definition PRODUCTION_MANIFEST_DOMAIN :: string where
  "PRODUCTION_MANIFEST_DOMAIN = ''baseline-manifest-production-v1:''"

definition check_schema_version :: "int \<Rightarrow> int \<Rightarrow> exn + unit" where
  "check_schema_version manifest_schema_version reader_supported_version =
     (if manifest_schema_version > reader_supported_version then
        Inl (SchemaVersionError (''manifest schema_version '' @ str_of_int manifest_schema_version @ '' is newer than this reader supports ('' @
          str_of_int reader_supported_version @ '') - refusing to guess-parse''))
      else Inr ())"

definition derive_manifest_key :: "mac_env \<Rightarrow> string \<Rightarrow> string \<Rightarrow> string" where
  "derive_manifest_key env base_secret domain = m_digest env base_secret domain"

definition ledger_mac :: "mac_env \<Rightarrow> string \<Rightarrow> string \<Rightarrow> string \<Rightarrow> string" where
  "ledger_mac env key domain payload = m_hexdigest env key (domain @ payload)"

definition canonical :: "int \<Rightarrow> string \<Rightarrow> (string \<times> json) list \<Rightarrow> string \<Rightarrow> string" where
  "canonical n event payload prev = json_dumps default_sorted
     (JObj [(''sequence'', JInt n), (''event'', JStr event), (''payload'', JObj payload), (''previous_mac'', JStr prev)])"

definition is_ascii :: "string \<Rightarrow> bool" where
  "is_ascii s \<longleftrightarrow> list_all (\<lambda>c. (of_char c :: nat) < 128) s"

definition compare_digest :: "string \<Rightarrow> string \<Rightarrow> exn + bool" where
  "compare_digest a b =
     (if is_ascii a \<and> is_ascii b then Inr (a = b)
      else Inl (TypeError ''comparing strings with non-ASCII characters is not supported''))"

section \<open>The ledger\<close>

record ledger_entry =
  en_sequence :: int
  en_event :: string
  en_payload :: "(string \<times> json) list"
  en_previous_mac :: string
  en_mac :: string

definition create_entry ::
  "mac_env \<Rightarrow> int \<Rightarrow> string \<Rightarrow> (string \<times> json) list \<Rightarrow> string \<Rightarrow> string \<Rightarrow> string \<Rightarrow> ledger_entry" where
  "create_entry env n event payload prev key domain =
     \<lparr>en_sequence = n, en_event = event, en_payload = payload, en_previous_mac = prev,
      en_mac = ledger_mac env key domain (canonical n event payload prev)\<rparr>"

definition entry_message :: "ledger_entry \<Rightarrow> string" where
  "entry_message e = canonical (en_sequence e) (en_event e) (en_payload e) (en_previous_mac e)"

definition verify_entry :: "mac_env \<Rightarrow> ledger_entry \<Rightarrow> string \<Rightarrow> string \<Rightarrow> exn + bool" where
  "verify_entry env e key domain = compare_digest (ledger_mac env key domain (entry_message e)) (en_mac e)"

record authority_ledger =
  le_key :: string
  le_domain :: string
  le_entries :: "ledger_entry list"

definition last_mac :: "ledger_entry list \<Rightarrow> string" where
  "last_mac es = (if es = [] then [] else en_mac (List.last es))"

definition append_entry :: "mac_env \<Rightarrow> string \<Rightarrow> (string \<times> json) list \<Rightarrow> authority_ledger \<Rightarrow> ledger_entry \<times> authority_ledger" where
  "append_entry env event payload l =
     (let entry = create_entry env (int (length (le_entries l))) event payload (last_mac (le_entries l)) (le_key l) (le_domain l)
      in (entry, l\<lparr>le_entries := le_entries l @ [entry]\<rparr>))"

fun verify_from :: "mac_env \<Rightarrow> string \<Rightarrow> string \<Rightarrow> string \<Rightarrow> ledger_entry list \<Rightarrow> exn + bool" where
  "verify_from env key domain prev [] = Inr True"
| "verify_from env key domain prev (e # es) =
     (if en_previous_mac e \<noteq> prev then Inr False
      else case verify_entry env e key domain of
        Inl x \<Rightarrow> Inl x
      | Inr ok \<Rightarrow> if \<not> ok then Inr False else verify_from env key domain (en_mac e) es)"

definition verify_chain :: "mac_env \<Rightarrow> authority_ledger \<Rightarrow> exn + bool" where
  "verify_chain env l = verify_from env (le_key l) (le_domain l) [] (le_entries l)"

definition domain_for :: "bool \<Rightarrow> string" where
  "domain_for test_only = (if test_only then TEST_MANIFEST_DOMAIN else PRODUCTION_MANIFEST_DOMAIN)"

text \<open>\<open>repr\<close> of bytes: as of text, with every byte outside printable ASCII as \<open>\xhh\<close>.\<close>
definition bytes_repr_char :: "char \<Rightarrow> char \<Rightarrow> string" where
  "bytes_repr_char q c =
     (if (of_char c :: nat) < 127 then repr_char q c
      else [CHR 0x5C, CHR ''x'', hex_digit (of_char c div 16), hex_digit (of_char c mod 16)])"

definition bytes_repr :: "string \<Rightarrow> string" where
  "bytes_repr s =
     (let q = (if CHR 0x27 \<in> set s \<and> CHR 0x22 \<notin> set s then CHR 0x22 else CHR 0x27)
      in [CHR ''b'', q] @ concat (map (bytes_repr_char q) s) @ [q])"

definition assert_domain_matches_mode :: "string \<Rightarrow> bool \<Rightarrow> exn + unit" where
  "assert_domain_matches_mode manifest_domain reader_is_test_mode =
     (let expected = domain_for reader_is_test_mode
      in if manifest_domain \<noteq> expected then
           Inl (ManifestAuthenticityError (''manifest authenticated under domain '' @ bytes_repr manifest_domain @ '', reader requires '' @
             bytes_repr expected @ '' - refusing to read across the test/production boundary''))
         else Inr ())"

section \<open>Restoring a snapshot\<close>

text \<open>A frozen set is a list without duplicates.\<close>
record restore_proposal =
  rp_target_generation :: int
  rp_restored_grant_ids :: "string list"

definition validate_restore_against_current_ledger :: "restore_proposal \<Rightarrow> string list \<Rightarrow> exn + unit" where
  "validate_restore_against_current_ledger proposal revoked =
     (let resurrected = filter (\<lambda>g. g \<in> set revoked) (remdups (rp_restored_grant_ids proposal))
      in if resurrected \<noteq> [] then
           Inl (RollbackAuthorityViolation (''restore to generation '' @ str_of_int (rp_target_generation proposal) @ '' would resurrect '' @
             str_of_int (int (length resurrected)) @ '' grant(s) already revoked in the current, non-rollback authority ledger - refusing''))
         else Inr ())"

definition apply_restore :: "mac_env \<Rightarrow> restore_proposal \<Rightarrow> string list \<Rightarrow> (authority_ledger, unit) act" where
  "apply_restore env proposal revoked =
     act_seq (act_lift (validate_restore_against_current_ledger proposal revoked)) (\<lambda>l.
       (Inr (), snd (append_entry env ''snapshot_restored''
          [(''target_generation'', JInt (rp_target_generation proposal)),
           (''restored_grant_ids'', JList (map JStr (sort_strs (remdups (rp_restored_grant_ids proposal)))))] l)))"

section \<open>What the chain shows\<close>

text \<open>The text that is authenticated ends with the number of the entry, so no two entries of a ledger have the same.\<close>

lemma canonical_text: "\<exists>start. canonical n event payload prev = start @ CHR '' '' # str_of_int n @ ''}''"
proof -
  have le: "str_le ''event'' ''payload''" "\<not> str_le ''sequence'' ''event''" "\<not> str_le ''sequence'' ''payload''"
    "\<not> str_le ''sequence'' ''previous_mac''" "str_le ''payload'' ''previous_mac''" "str_le ''event'' ''previous_mac''"
    by code_simp+
  have "sort_items [(''sequence'', a), (''event'', b), (''payload'', c), (''previous_mac'', d)] =
      [(''event'', b), (''payload'', c), (''previous_mac'', d), (''sequence'', a)]" for a b c d :: string
    using le by (simp add: sort_items_def)
  then have "canonical n event payload prev = (''{'' @ dump_str ''event'' @ '': '' @ dump_str event @ '', '' @ dump_str ''payload'' @ '': '' @
      dump default_sorted 1 (JObj payload) @ '', '' @ dump_str ''previous_mac'' @ '': '' @ dump_str prev @ '', '' @ dump_str ''sequence'' @ '':'')
      @ CHR '' '' # str_of_int n @ ''}''"
    by (simp add: canonical_def json_dumps_def default_sorted_def wrap_def newline_def del: dump.simps(7) add: dump.simps(7) [of _ 0])
  then show ?thesis by blast
qed

lemma str_of_int_no_space: "CHR '' '' \<notin> set (str_of_int i)"
proof -
  have "\<not> is_digit (CHR '' '')" by code_simp
  then show ?thesis using str_of_nat_digits by (auto simp: str_of_int_def)
qed

lemma after_last_space:
  "CHR '' '' \<notin> set xs \<Longrightarrow> CHR '' '' \<notin> set ys \<Longrightarrow> a @ CHR '' '' # xs = b @ CHR '' '' # ys \<Longrightarrow> xs = ys"
  by (induction a arbitrary: b) (auto simp: Cons_eq_append_conv append_eq_Cons_conv)

lemma canonical_number:
  assumes "canonical (int m) e p a = canonical (int n) f q b"
  shows "m = n"
proof -
  obtain u v where "u @ CHR '' '' # str_of_int (int m) @ ''}'' = v @ CHR '' '' # str_of_int (int n) @ ''}''"
    using assms canonical_text by metis
  then have "str_of_int (int m) @ ''}'' = str_of_int (int n) @ ''}''"
    by (rule after_last_space [rotated 2]) (simp_all add: str_of_int_no_space)
  then have "str_of_nat m = str_of_nat n" by (simp add: str_of_int_def)
  then show ?thesis by (metis digits_value_str_of_nat of_nat_eq_iff option.inject)
qed

subsection \<open>Appended entries\<close>

fun ledger_step :: "mac_env \<Rightarrow> string \<times> (string \<times> json) list \<Rightarrow> authority_ledger \<Rightarrow> ledger_entry \<times> authority_ledger" where
  "ledger_step env (event, payload) l = append_entry env event payload l"

definition linked :: "mac_env \<Rightarrow> string \<Rightarrow> string \<Rightarrow> ledger_entry list \<Rightarrow> bool" where
  "linked env key domain es \<longleftrightarrow> (\<forall>i < length es. en_sequence (es ! i) = int i \<and> en_previous_mac (es ! i) = last_mac (take i es)
     \<and> en_mac (es ! i) = ledger_mac env key domain (entry_message (es ! i)))"

lemma linked_snoc: "linked env key domain (es @ [e]) \<longleftrightarrow> linked env key domain es \<and> en_sequence e = int (length es)
    \<and> en_previous_mac e = last_mac es \<and> en_mac e = ledger_mac env key domain (entry_message e)"
  by (auto simp: linked_def nth_append less_Suc_eq)

definition own_ledger :: "mac_env \<Rightarrow> string \<Rightarrow> string \<Rightarrow> authority_ledger \<Rightarrow> bool" where
  "own_ledger env key domain l \<longleftrightarrow> le_key l = key \<and> le_domain l = domain \<and> linked env key domain (le_entries l)"

interpretation ledger_grows: invariant_machine "ledger_step env" "own_ledger env key domain" for env key domain
  by unfold_locales
    (auto simp: own_ledger_def append_entry_def Let_def linked_snoc create_entry_def entry_message_def)

definition new_ledger :: "string \<Rightarrow> string \<Rightarrow> authority_ledger" where
  "new_ledger key domain = \<lparr>le_key = key, le_domain = domain, le_entries = []\<rparr>"

lemma appended_linked: "linked env key domain (le_entries (run_ops (ledger_step env) events (new_ledger key domain)))"
  using ledger_grows.run_keeps [of env key domain "new_ledger key domain" events]
  by (simp add: own_ledger_def new_ledger_def linked_def)

subsection \<open>Verified chains\<close>

lemma verify_from_snoc:
  "verify_from env key domain prev (es @ [e]) = Inr True \<longleftrightarrow> verify_from env key domain prev es = Inr True
     \<and> en_previous_mac e = (if es = [] then prev else en_mac (List.last es)) \<and> verify_entry env e key domain = Inr True"
  by (induction es arbitrary: prev) (auto split: sum.splits if_splits)

text \<open>A documented property of the digest: it is a text of hexadecimal digits.\<close>
definition hex_text :: "mac_env \<Rightarrow> string \<Rightarrow> bool" where
  "hex_text env key \<longleftrightarrow> (\<forall>m. m_hexdigest env key m \<noteq> [] \<and> is_ascii (m_hexdigest env key m))"

lemma verify_made:
  assumes "hex_text env key"
  shows "verify_entry env e key domain = Inr True \<longleftrightarrow> en_mac e = ledger_mac env key domain (entry_message e)"
  using assms by (auto simp: verify_entry_def compare_digest_def hex_text_def ledger_mac_def split: if_splits)

lemma linked_verifies: "hex_text env key \<Longrightarrow> linked env key domain es \<Longrightarrow> verify_from env key domain [] es = Inr True"
  by (induction es rule: rev_induct) (simp_all add: linked_snoc verify_from_snoc verify_made last_mac_def)

lemma verify_from_prefix: "verify_from env key domain prev (xs @ ys) = Inr True \<Longrightarrow> verify_from env key domain prev xs = Inr True"
  by (induction ys rule: rev_induct) (simp_all add: verify_from_snoc flip: append_assoc)

definition no_collision :: "mac_env \<Rightarrow> string \<Rightarrow> string \<Rightarrow> ledger_entry list \<Rightarrow> bool" where
  "no_collision env key domain es \<longleftrightarrow> inj_on (m_hexdigest env key) ((\<lambda>e. domain @ entry_message e) ` set es)"

lemma macs_differ:
  assumes "linked env key domain h" "no_collision env key domain h" "i < length h" "j < length h" "en_mac (h ! i) = en_mac (h ! j)"
  shows "i = j"
proof -
  have "entry_message (h ! i) = entry_message (h ! j)"
    using assms by (auto simp: linked_def no_collision_def ledger_mac_def dest: inj_onD)
  then show ?thesis using assms(1,3,4) canonical_number by (auto simp: linked_def entry_message_def)
qed

lemma only_one_follows:
  assumes h: "hex_text env key" "linked env key domain h" "no_collision env key domain h"
    and i: "i \<le> length h" "j < length h" "en_previous_mac (h ! j) = last_mac (take i h)"
  shows "j = i"
proof -
  have first: "last_mac [] = []" by (simp add: last_mac_def)
  have mac: "en_mac (h ! k) \<noteq> []" if "k < length h" for k
    using that h(1,2) by (simp add: linked_def hex_text_def ledger_mac_def)
  have last: "last_mac (take k h) = (if k = 0 then [] else en_mac (h ! (k - 1)))" if "k \<le> length h" for k
    using that by (auto simp: last_mac_def last_conv_nth min_def)
  have "last_mac (take j h) = last_mac (take i h)" using h(2) i by (simp add: linked_def)
  then show ?thesis
    using i(1,2) mac [of "j - 1"] mac [of "i - 1"] macs_differ [OF h(2,3), of "j - 1" "i - 1"]
    by (cases i; cases j) (simp_all add: first last split: if_splits)
qed

text \<open>
  C38. The chain detects everything but truncation. Somebody without the key hands in any list of entries: entries of the
  ledger in another order, with some left out or repeated, altered ones, new ones. The list passes the check
  \<open>verify_chain\<close> exactly when it is a first part of the entries that were appended.
\<close>
theorem verified_chain_is_a_prefix:
  assumes hex: "hex_text env key"
    and honest: "honest = le_entries (run_ops (ledger_step env) events (new_ledger key domain))"
    and distinct: "no_collision env key domain honest"
    and unforged: "\<forall>e \<in> set es. verify_entry env e key domain = Inr True \<longrightarrow> e \<in> set honest"
  shows "verify_chain env \<lparr>le_key = key, le_domain = domain, le_entries = es\<rparr> = Inr True \<longleftrightarrow> prefix es honest"
proof
  have linked: "linked env key domain honest" unfolding honest by (rule appended_linked)
  show "verify_chain env \<lparr>le_key = key, le_domain = domain, le_entries = es\<rparr> = Inr True" if "prefix es honest"
    using that linked_verifies [OF hex linked] by (auto simp: verify_chain_def prefix_def dest: verify_from_prefix)
  have "prefix es honest" if "verify_from env key domain [] es = Inr True"
    using that unforged
  proof (induction es rule: rev_induct)
    case Nil
    then show ?case by simp
  next
    case (snoc e es)
    then have es: "es = take (length es) honest" "length es \<le> length honest"
      by (auto simp: verify_from_snoc prefix_def)
    from snoc.prems obtain j where j: "j < length honest" "honest ! j = e"
      by (auto simp: verify_from_snoc in_set_conv_nth)
    have "en_previous_mac (honest ! j) = last_mac (take (length es) honest)"
      using snoc.prems(1) j(2) es(1) by (simp add: verify_from_snoc last_mac_def)
    from only_one_follows [OF hex linked distinct es(2) j(1) this] have "j = length es" .
    then have "es @ [e] = take (Suc (length es)) honest" using j es(1) by (metis take_Suc_conv_app_nth)
    then show ?case by (metis take_is_prefix)
  qed
  then show "verify_chain env \<lparr>le_key = key, le_domain = domain, le_entries = es\<rparr> = Inr True \<Longrightarrow> prefix es honest"
    by (simp add: verify_chain_def)
qed

text \<open>A ledger of two entries, under a digest that only drops characters.\<close>

definition lab_mac :: mac_env where
  "lab_mac = \<lparr>m_digest = (\<lambda>k m. m), m_hexdigest = (\<lambda>k m. CHR ''0'' # filter (\<lambda>c. (of_char c :: nat) < 128) m)\<rparr>"

definition lab_entries :: "ledger_entry list" where
  "lab_entries = le_entries (run_ops (ledger_step lab_mac)
     [(''grant_revoked'', [(''grant_id'', JStr ''g1'')]), (''grant_revoked'', [(''grant_id'', JStr ''g2'')])]
     (new_ledger ''key'' TEST_MANIFEST_DOMAIN))"

theorem verified_chain_is_a_prefix_witness:
  "verify_chain lab_mac \<lparr>le_key = ''key'', le_domain = TEST_MANIFEST_DOMAIN, le_entries = rev lab_entries\<rparr> \<noteq> Inr True"
proof -
  have hex: "hex_text lab_mac ''key''"
    by (simp add: hex_text_def lab_mac_def is_ascii_def list_all_iff)
  have apart: "no_collision lab_mac ''key'' TEST_MANIFEST_DOMAIN lab_entries"
  proof -
    have "distinct (map (m_hexdigest lab_mac ''key'') (map (\<lambda>e. TEST_MANIFEST_DOMAIN @ entry_message e) lab_entries))"
      by code_simp
    then show ?thesis unfolding no_collision_def set_map [symmetric] by (rule distinct_map [THEN iffD1, THEN conjunct2])
  qed
  have "\<not> prefix (rev lab_entries) lab_entries" by code_simp
  then show ?thesis
    using verified_chain_is_a_prefix [OF hex lab_entries_def apart, of "rev lab_entries"] by simp
qed

text \<open>What the chain cannot show: the last entries, a revocation say, left out.\<close>
lemma dropped_end_is_unseen:
  assumes "verify_chain env l = Inr True"
  shows "verify_chain env (l\<lparr>le_entries := take n (le_entries l)\<rparr>) = Inr True"
  using assms verify_from_prefix [of env "le_key l" "le_domain l" "[]" "take n (le_entries l)" "drop n (le_entries l)"]
  by (simp add: verify_chain_def)

text \<open>An altered authenticator with a character outside ASCII makes the check raise.\<close>
lemma foreign_mac_raises:
  assumes "\<not> is_ascii (en_mac e)" "en_previous_mac e = []"
  shows "\<exists>why. verify_chain env \<lparr>le_key = key, le_domain = domain, le_entries = e # es\<rparr> = Inl (TypeError why)"
  using assms by (simp add: verify_chain_def verify_entry_def compare_digest_def)

text \<open>Neither domain passes for the other, nor starts the other.\<close>

lemma domains_differ: "domain_for a = domain_for b \<longleftrightarrow> a = b" "a \<noteq> b \<Longrightarrow> \<not> prefix (domain_for a) (domain_for b)"
  by (simp_all add: domain_for_def TEST_MANIFEST_DOMAIN_def PRODUCTION_MANIFEST_DOMAIN_def)

lemma domain_accepted: "assert_domain_matches_mode (domain_for a) b = Inr () \<longleftrightarrow> a = b"
  by (auto simp: assert_domain_matches_mode_def Let_def domains_differ)

lemma entry_of_one_domain:
  assumes "hex_text env key" "inj_on (m_hexdigest env key) (\<Union>d. {domain_for d @ canonical n event payload prev})"
  shows "verify_entry env (create_entry env n event payload prev key (domain_for a)) key (domain_for b) = Inr True \<longleftrightarrow> a = b"
proof -
  have "ledger_mac env key (domain_for a) (canonical n event payload prev) = ledger_mac env key (domain_for b) (canonical n event payload prev)
      \<longleftrightarrow> domain_for a @ canonical n event payload prev = domain_for b @ canonical n event payload prev"
    unfolding ledger_mac_def by (rule inj_on_eq_iff [OF assms(2)]) auto
  then show ?thesis
    by (simp only: verify_made [OF assms(1)]) (simp add: create_entry_def entry_message_def domains_differ)
qed

subsection \<open>Restores\<close>

text \<open>
  A restore takes place exactly when it brings back no grant that is revoked now; it then adds one entry, chained to the
  last one. Refused, it leaves the ledger as it is. Nothing that was recorded is taken back.
\<close>
lemma restore_resurrects_nothing:
  assumes "apply_restore env proposal revoked l = (r, l2)"
  shows "r = Inr () \<longleftrightarrow> set (rp_restored_grant_ids proposal) \<inter> set revoked = {}"
    and "r \<noteq> Inr () \<Longrightarrow> l2 = l"
    and "r = Inr () \<Longrightarrow> \<exists>e. le_entries l2 = le_entries l @ [e] \<and> en_event e = ''snapshot_restored'' \<and>
      en_previous_mac e = last_mac (le_entries l)"
  using assms
  by (auto simp: apply_restore_def validate_restore_against_current_ledger_def act_seq_def act_bind_def act_lift_def append_entry_def
      Let_def create_entry_def filter_empty_conv split: if_splits)

end
