(* ===== verification/Spec2Isabelle.thy ===== *)
theory Spec2Isabelle
  imports Hitl WebGate Operations DriveInstaller PhysicalSafety DriveGuard DriveLayout PersistMounts RecoveryMode ConfigCrypto BackupRestore IfnetRewrite RepairProtocol RepairRestore RepairRollback ReadClosure LanFirewall NamingPreview SettingsStore WebSecurity FirstBootSafety OffdriveFiles DriveRequestSafety TestPersistence AuthorityLedger
begin

text \<open>
  BaselineOS is a layer on a Proxmox host: a console on the first terminal, a login-gated web application, persistence
  volumes for its personas, drive administration, and a repair of the host's network. Its program is the Python package
  under \<open>src/baseline/lib\<close>. This development models the parts of it that decide whether something irreversible
  happens - who may ask for it, which drive it reaches, what is written in which order, what is left when a step fails -
  and the stores those decisions rest on. All definitions are translated from the source, in the order of the
  source, and can be evaluated; the entry of each definition in the manifest names its lines.

  \<^bold>\<open>How Python is modelled.\<close>

  \<^item> Text is ASCII text, a list of characters; a dict is an association list in the order of insertion (\<open>AList.update\<close>),
    JSON is the datatype \<open>json\<close> with \<open>json_dumps\<close> and \<open>json_parse\<close> written out (\<open>PyText\<close>, \<open>PyJson\<close>, \<open>PyValue\<close>, \<open>PyPath\<close>,
    \<open>IpAddress\<close>). What the program takes from JSON without a check stays a \<open>json\<close> value, and using it as another type
    gives the exception Python gives. Not a number and the infinities do not occur in the numbers of the model.
  \<^item> Exceptions are the datatype \<open>exn\<close>; code that raises returns \<open>exn + 'a\<close>, and stateful code is an action
    \<open>('s, 'a) act = 's \<Rightarrow> (exn + 'a) \<times> 's\<close> whose state keeps what was done before the raise (\<open>Prelude\<close>).
  \<^item> What is outside - commands, files, the clock - is reached through \<open>repair.Runner\<close> in the source and through the record
    \<open>os\<close> here (\<open>Runner\<close>): its functions are arguments of the model, on a machine state of any type. Each call is recorded in
    \<open>calls\<close> (\<open>Trace\<close>), so that properties speak of what was issued and in which order, on every machine. \<open>emits\<close>, \<open>traces\<close>
    and \<open>follows\<close> (\<open>Trace\<close>, \<open>Protocol\<close>) have one rule per construct of an action. Modules that go past the runner have
    a record of their own: \<open>devices\<close> for block devices, \<open>netsys\<close> for \<open>/sys\<close> and sockets, \<open>console\<close> for the first terminal
    and the state directory of the first boot, \<open>backup_env\<close> for \<open>tar\<close> and the commands of the off-drive backup.
  \<^item> SHA-256, HMAC, random tokens, password checkers and \<open>strftime\<close> are arguments. Properties that need something of them
    say so: a MAC that cannot be forged for a text that was not signed is a hypothesis.
  \<^item> Clocks are integers of seconds, in \<open>WebSecurity\<close> rational numbers, because its waiting times double and are rounded.
  \<^item> The registry's SQLite tables are lists of rows in the order of insertion; a transaction that raises changes nothing.
  \<^item> Two loops have fuel: \<open>read_closure\<close> follows the files a configuration names, and \<open>wait_for_confirmation\<close> waits for the
    operator. When it is used up the result is the exception \<open>Unfinished\<close>, which no Python code raises. For the first
    \<open>reading_config_ends\<close> shows that the number of files that can be named, plus one, is enough; for the second no number
    is, since an operator may stay silent.
  \<^item> Threads are not modelled: each method of a store is one step, as the locks of the source make it.

  \<^bold>\<open>Components and their theories.\<close>

  \<^item> \<open>Hitl\<close> (\<open>hitl.py\<close>): challenges, confirmations, standing approvals and authorizations of drive actions. Every
    authorization that is let through rests on something a person did for that request, none is used twice, destroying a
    drive is never pre-approved, and the store stays within its bounds. \<open>Machines\<close> has the locales for a component whose methods are called
    in any order (invariants, provenance, ratchets), interpreted here, in \<open>Naming\<close>, \<open>SettingsStore\<close>,
    \<open>TestPersistence\<close> and \<open>AuthorityLedger\<close>.
  \<^item> \<open>WebGate\<close> (\<open>web_gate.py\<close>, sessions of \<open>settings_web.py\<close>) and \<open>Operations\<close> (\<open>operations.py\<close>): the signed proof a request
    carries, signed schedules, and the scheduler that runs them.
  \<^item> \<open>WebSecurity\<close> (\<open>web_security.py\<close>): response headers, the same-origin test, and the limiter of password attempts.
  \<^item> \<open>PhysicalSafety\<close>, \<open>DriveGuard\<close>, \<open>DriveLayout\<close>, \<open>DriveInstaller\<close> (\<open>physical_device_safety.py\<close>, \<open>drive_guard.py\<close>,
    \<open>baseline_drive_layout.py\<close>, \<open>drive_installer.py\<close>): which device may be written to, which drive may be formatted, the
    partition plan, and the logical volumes.
  \<^item> \<open>PersistMounts\<close> and \<open>RecoveryMode\<close> (\<open>persist_bind_mounts.py\<close>, \<open>recovery_mode.py\<close>, \<open>recovery_tiers.py\<close>): the persona volumes
    and their redirects, switching, and the mode the machine boots into when they cannot be mounted.
  \<^item> \<open>ConfigCrypto\<close> (\<open>config_crypto.py\<close>) and \<open>BackupRestore\<close> (\<open>backup_restore.py\<close>, \<open>backup_recurring.py\<close>, the routes of
    \<open>control_panel_web.py\<close>): encrypted configuration, manifests, and the gates before a backup and a restore.
  \<^item> \<open>IfnetConfig\<close>, \<open>IfnetRewrite\<close>, \<open>Topology\<close>, \<open>Repair\<close>, \<open>RepairPipeline\<close>, \<open>RepairProtocol\<close>, \<open>RepairRestore\<close>, \<open>RepairRollback\<close>,
    \<open>ReadClosure\<close> (\<open>ifnet_config.py\<close>, \<open>topology.py\<close>, \<open>repair.py\<close>, \<open>repair_additive.py\<close>, \<open>repair_rollback.py\<close>,
    \<open>repair_additive_persist.py\<close>): the host-network repair. The parser and the rewriter of the interface configuration, the
    derivation of the one interface a repair is about against reachability in the graph of stanzas, and the transaction -
    arm a rollback timer, change, verify, disarm - as a refinement of an abstract protocol of five phases.
  \<^item> \<open>LanFirewall\<close> (\<open>lan_firewall.py\<close>): validation of the allowed subnets down to the addresses, the ruleset, and how it is
    verified before the next boot loads it.
  \<^item> \<open>Registry\<close>, \<open>Naming\<close>, \<open>NamingPreview\<close>, \<open>SettingsStore\<close> (\<open>registry.py\<close>, \<open>naming.py\<close>, \<open>settings_store.py\<close>, \<open>netpref.py\<close>): the
    registry, the identifiers allocated over it, and the typed settings.
  \<^item> \<open>Lifeline\<close>, \<open>Diagnostics\<close>, \<open>ConfigApply\<close> (\<open>network.py\<close>, \<open>diagnostics.py\<close>, \<open>proxmox_detect.py\<close>, \<open>config_apply.py\<close>,
    \<open>config_pipeline.py\<close>): the facts of the network, the collectors of the diagnostic tools, and what an exported
    configuration changes.
  \<^item> \<open>NetworkProposal\<close>, \<open>FirstBoot\<close>, \<open>FirstBootSafety\<close> (\<open>firstboot_network_repair.py\<close>, \<open>firstboot_statemachine.py\<close>): the first
    boot, which composes the detection, the lifeline, the topology, the repair, the tools and the exported configuration
    behind one confirmation and a journal.
  \<^item> \<open>FileTree\<close>, \<open>OffdriveBackup\<close>, \<open>OffdriveSafety\<close>, \<open>OffdriveFiles\<close> (\<open>offdrive_backup.py\<close>): a file tree with links and the calls on
    it, and the add-only backups to a separate drive. Nothing that was there changes, however a run ends, and a verified set
    has every file of a changes-only archive on record. The locale \<open>tree_order\<close> has one rule per construct of an action and is
    interpreted for the four preorders on trees the proofs use.
  \<^item> \<open>DriveDesk\<close>, \<open>DriveParams\<close>, \<open>DriveAdmin\<close>, \<open>DriveRequests\<close>, \<open>DriveRequestSafety\<close> (\<open>drive_admin.py\<close>,
    \<open>drive_enrollment.py\<close>): the drive actions, over the machine, the registry, the confirmation stores and the web gate
    together (the record \<open>desk\<close>; the locale \<open>desk_part\<close> says what an action of one of them is on the whole). Nothing but
    looking happens before both proofs passed for the prepared request, a prepared drive is an allowed one, and no data is
    erased without a backup. \<open>PyShlex\<close> has the quoting that the listings of \<open>lsblk\<close> and \<open>findmnt\<close> use.
  \<^item> \<open>TestPersistence\<close>, \<open>AuthorityLedger\<close> (\<open>testpersistence\<close>): the rules of a store that moves between machines. Revocation is
    final whoever else holds a grant, a store is attached only after it was unlocked and read, and the chained ledger detects
    everything but truncation.

  The components meet where one calls another: the gate of \<open>WebGate\<close> is what every operation of \<open>Operations\<close> and each
  backup asks; the validation of \<open>PhysicalSafety\<close> is the guard of \<open>DriveLayout\<close>; the manifests of \<open>BackupRestore\<close> gate its
  restore, and with the guards, \<open>Hitl\<close>, \<open>WebGate\<close> and \<open>Registry\<close> the drive actions of \<open>DriveRequests\<close>; \<open>IfnetConfig\<close> and \<open>Topology\<close> serve the repairs, and those the first boot; \<open>Naming\<close>, \<open>SettingsStore\<close> and the
  aliases of \<open>Lifeline\<close> are stored in \<open>Registry\<close>.

  \<^bold>\<open>Where the code does not do what it says.\<close> Some lemmas show behaviour that a comment or a document of the repository
  excludes; each is named after what it shows and stands beside the component, for example \<open>destination_is_not_gated\<close>
  (\<open>BackupRestore\<close>), \<open>failed_move_is_hidden\<close> (\<open>PersistMounts\<close>), \<open>failed_restore_stops_timer\<close> (\<open>RepairProtocol\<close>), \<open>backup_names_collide\<close>
  (\<open>RepairRestore\<close>), \<open>scope_reaches_the_ruleset\<close> (\<open>LanFirewall\<close>), \<open>unplugged_is_healthy\<close> (\<open>FirstBootSafety\<close>). The general
  properties are stated so that they hold of the code with these.

  \<^bold>\<open>Not modelled.\<close> The pages and routes of \<open>baseline_web.py\<close>, \<open>settings_web.py\<close> and \<open>control_panel_web.py\<close> beyond those named
  above, whose body is markup and the HTTP server; the installer pipeline, which is an argument of the drive actions, and
  their health check; images, containers and virtual machines, whose work is done by \<open>pct\<close>, \<open>qm\<close>, \<open>podman\<close> and \<open>docker\<close>;
  the harness and its model providers; sensors and hardware listings; tools, packaging and boot scripts; and the Rust
  workspace under \<open>Guardian\<close>, a program of its own. The implementations behind the parameters - \<open>RealRunner\<close>, the
  database engine, OpenSSL, the kernel's files - are not modelled: they are whatever the arguments are.
\<close>

end
